(* ===== verification/Ip_Address.thy ===== *)
theory Ip_Address
  imports Prelude
begin

unbundle bit_operations_syntax

text \<open>
  The part of Python's \<^verbatim>\<open>ipaddress\<close> module the application uses
  (\<^verbatim>\<open>app/core/netaccess.py\<close>, \<^verbatim>\<open>app/core/clientip.py\<close>, \<^verbatim>\<open>app/core/ssrf.py\<close>):
  text to address and network, canonical text of both, prefix masks and containment. An address
  is its version, its unsigned value and, for IPv6, an optional scope id. The lemmas show
  that a network made by \<open>ip_network\<close> is masked and that the two ways the code writes a
  prefix mask agree.
\<close>

datatype ip_version = V4 | V6

fun ip_bits :: "ip_version \<Rightarrow> nat" where
  "ip_bits V4 = 32"
| "ip_bits V6 = 128"

record ip_addr =
  ip_ver :: ip_version
  ip_val :: int
  ip_scope :: "string option"

record ip_net =
  net_ver :: ip_version
  net_prefix :: nat
  net_base :: int
  net_scope :: "string option"

section \<open>Masks and containment\<close>

text \<open>\<open>_ip_int_from_prefix\<close>: all ones, exclusive-or all ones shifted right by the prefix.\<close>

definition all_ones :: "nat \<Rightarrow> int" where
  "all_ones w = 2 ^ w - 1"

definition net_mask :: "ip_version \<Rightarrow> nat \<Rightarrow> int" where
  "net_mask v p = all_ones (ip_bits v) XOR drop_bit p (all_ones (ip_bits v))"

text \<open>\<open>addr in net\<close>: the versions agree and the masked address is the network address.\<close>

definition in_net :: "ip_addr \<Rightarrow> ip_net \<Rightarrow> bool" where
  "in_net a n \<longleftrightarrow> ip_ver a = net_ver n \<and>
     (ip_val a AND net_mask (net_ver n) (net_prefix n)) = net_base n"

definition num_addresses :: "ip_net \<Rightarrow> int" where
  "num_addresses n = 2 ^ (ip_bits (net_ver n) - net_prefix n)"

section \<open>Parsing\<close>

definition parse_octet :: "string \<Rightarrow> int option" where
  "parse_octet s =
     (if s = [] \<or> \<not> list_all is_digit s \<or> 3 < length s \<or> (s \<noteq> ''0'' \<and> hd s = CHR ''0'')
        \<or> 255 < int_of_digits 0 s
      then None else Some (int_of_digits 0 s))"

definition parse_v4 :: "string \<Rightarrow> int option" where
  "parse_v4 s =
     (case map parse_octet (split_on CHR ''.'' s) of
        [Some a, Some b, Some c, Some d] \<Rightarrow> Some (((a * 256 + b) * 256 + c) * 256 + d)
      | _ \<Rightarrow> None)"

definition hex_value :: "char \<Rightarrow> int option" where
  "hex_value c = (let n = char_code c in
     if 48 \<le> n \<and> n \<le> 57 then Some (int n - 48)
     else if 65 \<le> n \<and> n \<le> 70 then Some (int n - 55)
     else if 97 \<le> n \<and> n \<le> 102 then Some (int n - 87)
     else None)"

fun hextet_value :: "int \<Rightarrow> string \<Rightarrow> int option" where
  "hextet_value acc [] = Some acc"
| "hextet_value acc (c # cs) =
     (case hex_value c of None \<Rightarrow> None | Some d \<Rightarrow> hextet_value (16 * acc + d) cs)"

text \<open>\<open>_parse_hextet\<close>: \<open>int('', 16)\<close> raises, so the empty part is refused here.\<close>

definition parse_hextet :: "string \<Rightarrow> int option" where
  "parse_hextet s =
     (if s = [] \<or> 4 < length s then None else hextet_value 0 s)"

fun parse_hextets :: "int \<Rightarrow> string list \<Rightarrow> int option" where
  "parse_hextets acc [] = Some acc"
| "parse_hextets acc (s # ss) =
     (case parse_hextet s of None \<Rightarrow> None | Some v \<Rightarrow> parse_hextets (acc * 65536 + v) ss)"

text \<open>The indices \<open>1 .. len - 2\<close> whose part is empty (the position of a double colon).\<close>

definition inner_empties :: "string list \<Rightarrow> nat list" where
  "inner_empties parts = filter (\<lambda>i. parts ! i = []) [1..<length parts - 1]"

definition parse_v6_parts :: "string list \<Rightarrow> int option" where
  "parse_v6_parts parts =
     (if 9 < length parts then None
      else case inner_empties parts of
        [] \<Rightarrow>
          (if length parts \<noteq> 8 then None else parse_hextets 0 parts)
      | [k] \<Rightarrow>
          (let hi = (if hd parts = [] then k - 1 else k);
               lo = (if last parts = [] then length parts - k - 2 else length parts - k - 1)
           in if (hd parts = [] \<and> hi \<noteq> 0) \<or> (last parts = [] \<and> lo \<noteq> 0) \<or> 8 \<le> hi + lo then None
              else case parse_hextets 0 (take hi parts) of
                None \<Rightarrow> None
              | Some h \<Rightarrow> parse_hextets (h * 65536 ^ (8 - (hi + lo))) (drop (length parts - lo) parts))
      | _ \<Rightarrow> None)"

definition low_hex_digit :: "int \<Rightarrow> char" where
  "low_hex_digit n = (if n < 10 then char_of (48 + nat n) else char_of (87 + nat n))"

function hex_digits :: "int \<Rightarrow> string" where
  "hex_digits n =
     (if n < 16 then [low_hex_digit n] else hex_digits (n div 16) @ [low_hex_digit (n mod 16)])"
  by pat_completeness auto
termination
  by (relation "measure nat") auto

declare hex_digits.simps [simp del]

text \<open>A dotted quad in the last part is rewritten as two hextets first.\<close>

definition parse_v6 :: "string \<Rightarrow> int option" where
  "parse_v6 s =
     (let parts = split_on CHR '':'' s in
      if length parts < 3 then None
      else if CHR ''.'' \<in> set (last parts)
      then case parse_v4 (last parts) of
          None \<Rightarrow> None
        | Some v \<Rightarrow> parse_v6_parts (butlast parts @
            [hex_digits (v div 65536), hex_digits (v mod 65536)])
      else parse_v6_parts parts)"

text \<open>\<open>IPv6Address\<close>: a percent sign separates a non-empty scope id.\<close>

definition parse_v6_scoped :: "string \<Rightarrow> ip_addr option" where
  "parse_v6_scoped s =
     (case split_on CHR ''%'' s of
        [a] \<Rightarrow> map_option (\<lambda>v. \<lparr>ip_ver = V6, ip_val = v, ip_scope = None\<rparr>) (parse_v6 a)
      | [a, sc] \<Rightarrow> (if sc = [] then None
           else map_option (\<lambda>v. \<lparr>ip_ver = V6, ip_val = v, ip_scope = Some sc\<rparr>) (parse_v6 a))
      | _ \<Rightarrow> None)"

text \<open>\<open>ipaddress.ip_address\<close>: IPv4 first, then IPv6; a slash is refused.\<close>

definition ip_address :: "string \<Rightarrow> ip_addr option" where
  "ip_address s =
     (if CHR ''/'' \<in> set s then None
      else case parse_v4 s of
        Some v \<Rightarrow> Some \<lparr>ip_ver = V4, ip_val = v, ip_scope = None\<rparr>
      | None \<Rightarrow> parse_v6_scoped s)"

definition parse_prefix :: "ip_version \<Rightarrow> string \<Rightarrow> nat option" where
  "parse_prefix v s =
     (if s = [] \<or> \<not> list_all is_digit s \<or> int (ip_bits v) < int_of_digits 0 s then None
      else Some (nat (int_of_digits 0 s)))"

text \<open>\<open>_prefix_from_ip_int\<close>: the prefix whose mask is the given value, if there is one.\<close>

definition prefix_of_mask :: "int \<Rightarrow> nat option" where
  "prefix_of_mask m = find (\<lambda>p. net_mask V4 p = m) [0..<33]"

text \<open>The part after the slash: a prefix length or, for IPv4, a netmask or a hostmask.\<close>

definition parse_mask :: "ip_version \<Rightarrow> string \<Rightarrow> nat option" where
  "parse_mask v s =
     (case parse_prefix v s of
        Some p \<Rightarrow> Some p
      | None \<Rightarrow>
        (if v = V6 then None
         else case parse_v4 s of
           None \<Rightarrow> None
         | Some m \<Rightarrow>
           (case prefix_of_mask m of
              Some p \<Rightarrow> Some p
            | None \<Rightarrow> prefix_of_mask (m XOR all_ones 32))))"

text \<open>The network constructor with \<open>strict=False\<close>: host bits are cleared (and the scope with them).\<close>

definition mk_net :: "ip_addr \<Rightarrow> nat \<Rightarrow> ip_net" where
  "mk_net a p = (let b = ip_val a AND net_mask (ip_ver a) p in
     \<lparr>net_ver = ip_ver a, net_prefix = p, net_base = b,
      net_scope = (if b = ip_val a then ip_scope a else None)\<rparr>)"

definition parse_net_as :: "ip_version \<Rightarrow> string \<Rightarrow> ip_net option" where
  "parse_net_as v s =
     (let addr = (\<lambda>t. case v of
           V4 \<Rightarrow> map_option (\<lambda>n. \<lparr>ip_ver = V4, ip_val = n, ip_scope = None\<rparr>) (parse_v4 t)
         | V6 \<Rightarrow> parse_v6_scoped t)
      in case split_on CHR ''/'' s of
           [a] \<Rightarrow> map_option (\<lambda>x. mk_net x (ip_bits v)) (addr a)
         | [a, m] \<Rightarrow>
             (case addr a of None \<Rightarrow> None | Some x \<Rightarrow> map_option (mk_net x) (parse_mask v m))
         | _ \<Rightarrow> None)"

text \<open>\<open>ipaddress.ip_network(s, strict=False)\<close>.\<close>

definition ip_network :: "string \<Rightarrow> ip_net option" where
  "ip_network s = (case parse_net_as V4 s of Some n \<Rightarrow> Some n | None \<Rightarrow> parse_net_as V6 s)"

section \<open>Canonical text\<close>

definition str_v4 :: "int \<Rightarrow> string" where
  "str_v4 v = join_with ''.'' (map (\<lambda>k. digits_of_int (v div 256 ^ k mod 256)) [3, 2, 1, 0])"

definition hextets_of :: "int \<Rightarrow> string list" where
  "hextets_of v = map (\<lambda>k. hex_digits (v div 65536 ^ k mod 65536)) [7, 6, 5, 4, 3, 2, 1, 0]"

text \<open>The leftmost longest run of zero hextets, as (start, length).\<close>

fun longest_zeros :: "nat \<Rightarrow> nat \<Rightarrow> nat \<times> nat \<Rightarrow> string list \<Rightarrow> nat \<times> nat" where
  "longest_zeros i run best [] = best"
| "longest_zeros i run best (h # hs) =
     (if h = ''0''
      then longest_zeros (Suc i) (Suc run)
             (if snd best < Suc run then (i - run, Suc run) else best) hs
      else longest_zeros (Suc i) 0 best hs)"

definition compress_hextets :: "string list \<Rightarrow> string list" where
  "compress_hextets hs =
     (case longest_zeros 0 0 (0, 0) hs of (st, len) \<Rightarrow>
        if len \<le> 1 then hs
        else (if st = 0 then [[]] else []) @ take st hs @ [[]] @ drop (st + len) hs
             @ (if st + len = length hs then [[]] else []))"

definition str_v6 :: "int \<Rightarrow> string" where
  "str_v6 v = join_with '':'' (compress_hextets (hextets_of v))"

definition str_ip :: "ip_version \<Rightarrow> int \<Rightarrow> string option \<Rightarrow> string" where
  "str_ip ver v sc =
     (case ver of V4 \<Rightarrow> str_v4 v
      | V6 \<Rightarrow> str_v6 v @ (case sc of None \<Rightarrow> [] | Some s \<Rightarrow> ''%'' @ s))"

definition str_addr :: "ip_addr \<Rightarrow> string" where
  "str_addr a = str_ip (ip_ver a) (ip_val a) (ip_scope a)"

definition str_net :: "ip_net \<Rightarrow> string" where
  "str_net n = str_ip (net_ver n) (net_base n) (net_scope n) @ ''/'' @ digits_of_int (int (net_prefix n))"

section \<open>Laws of masks and networks\<close>

text \<open>The mask as the application writes it, \<open>((1 << p) - 1) << (w - p)\<close>, is the library's.\<close>

lemma net_mask_shift:
  assumes "p \<le> ip_bits v"
  shows "net_mask v p = push_bit (ip_bits v - p) (push_bit p 1 - 1)"
proof -
  have m: "push_bit p 1 - 1 = (mask p :: int)" "all_ones w = mask w" for w
    by (simp_all add: mask_eq_exp_minus_1 push_bit_eq_mult all_ones_def)
  show ?thesis
    unfolding net_mask_def m
    by (rule bit_eqI) (use assms in \<open>auto simp: bit_xor_iff bit_drop_bit_eq bit_push_bit_iff bit_mask_iff\<close>)
qed

lemma net_mask_0 [simp]: "net_mask v 0 = 0"
  by (simp add: net_mask_def)

lemma mk_net_sel [simp]:
  "net_ver (mk_net a p) = ip_ver a"
  "net_prefix (mk_net a p) = p"
  "net_base (mk_net a p) = ip_val a AND net_mask (ip_ver a) p"
  by (simp_all add: mk_net_def Let_def)

lemma in_net_mk_net:
  "in_net a (mk_net b p) \<longleftrightarrow> ip_ver a = ip_ver b \<and>
     (ip_val a AND net_mask (ip_ver b) p) = (ip_val b AND net_mask (ip_ver b) p)"
  by (simp add: in_net_def)

text \<open>An address lies in every network made from it, whatever the prefix.\<close>

lemma in_own_net [simp]: "in_net a (mk_net a p)"
  by (simp add: in_net_mk_net)

text \<open>A prefix-0 network holds every address of its version.\<close>

lemma in_net_everything: "net_prefix (mk_net b p) = 0 \<Longrightarrow> in_net a (mk_net b p) \<longleftrightarrow> ip_ver a = ip_ver b"
  by (simp add: in_net_mk_net)

lemma parse_v6_scoped_ver: "parse_v6_scoped s = Some a \<Longrightarrow> ip_ver a = V6"
  by (auto simp: parse_v6_scoped_def split: list.splits if_splits)

lemma ip_network_shape:
  assumes "ip_network s = Some n"
  shows "\<exists>a p. n = mk_net a p \<and> p \<le> ip_bits (net_ver n)"
proof -
  have P: "parse_mask v m = Some p \<Longrightarrow> p \<le> ip_bits v" for v m p
    by (auto simp: parse_mask_def parse_prefix_def prefix_of_mask_def split: option.splits if_splits
        dest!: find_SomeD) (cases v; auto)+
  have A: "\<exists>a p. n = mk_net a p \<and> ip_ver a = v \<and> p \<le> ip_bits v" if "parse_net_as v s = Some n" for v
  proof (cases v)
    case V4
    with that show ?thesis
      by (auto simp: parse_net_as_def Let_def split: list.splits option.splits dest!: P)
        (metis ip_addr.select_convs(1) order_refl)+
  next
    case V6
    with that show ?thesis
      by (auto simp: parse_net_as_def Let_def split: list.splits option.splits dest!: P)
        (metis parse_v6_scoped_ver order_refl)+
  qed
  from assms obtain v where "parse_net_as v s = Some n"
    by (auto simp: ip_network_def split: option.splits)
  from A [OF this] show ?thesis by (metis mk_net_sel(1))
qed

lemma ip_network_prefix: "ip_network s = Some n \<Longrightarrow> net_prefix n \<le> ip_bits (net_ver n)"
  using ip_network_shape by fastforce

end
