(* ===== verification/Net_Access.thy ===== *)
theory Net_Access
  imports Ip_Address
begin

unbundle bit_operations_syntax

text \<open>
  The in-application IP allowlist, \<^verbatim>\<open>app/core/netaccess.py\<close>: rule validation, the stored
  policy with its defaults and deployment seed, the compiled prefix table with its cache, the
  linear matcher that explains a decision, and the commit-confirm timer. Time is an \<^typ>\<open>int\<close>
  (microseconds), the environment variables and the clock are arguments. A policy dictionary
  has optional fields because a stored document may lack any of them.
\<close>

section \<open>Data\<close>

record rule =
  r_cidr :: "string option"
  r_label :: "string option"
  r_enabled :: "bool option"
  r_created_by :: "string option"
  r_created_at :: "string option"

text \<open>An element of a stored rule list: a dictionary, or any other JSON value.\<close>

datatype item = Rule rule | NotDict

text \<open>The stored \<open>rules\<close> value: a list, or some other JSON value.\<close>

datatype rules_value = Rules "item list" | NotList

text \<open>A \<open>confirm_by\<close> value: a timestamp, or text that does not parse as one.\<close>

datatype stamp = At int | Unparseable

text \<open>Every field optional: \<open>c_confirm\<close> is \<open>None\<close> when absent or null.\<close>

record config =
  c_mode :: "string option"
  c_rules :: "rules_value option"
  c_confirm :: "stamp option"

text \<open>The document on disk: missing or unreadable, not an object, or an object.\<close>

datatype stored = NoFile | NonObject | Object config

datatype net_error =
    UnknownMode string
  | EmptyRange
  | BadRange string
  | TooManyRules
  | AllowsEverything string
  | NeedsLabel string
  | ListedTwice string

definition MODES :: "string list" where
  "MODES = [''off'', ''monitor'', ''enforce'']"

definition MAX_RULES :: nat where
  "MAX_RULES = 5000"

definition CONFIRM_WINDOW_MINUTES :: int where
  "CONFIRM_WINDOW_MINUTES = 15"

definition DEFAULTS :: config where
  "DEFAULTS = \<lparr>c_mode = Some ''off'', c_rules = Some (Rules []), c_confirm = None\<rparr>"

section \<open>Validation\<close>

definition parse_cidr :: "string \<Rightarrow> (net_error, ip_net) result" where
  "parse_cidr value =
     (let raw = py_strip value in
      if raw = [] then Inl EmptyRange
      else case ip_network raw of None \<Rightarrow> Inl (BadRange raw) | Some n \<Rightarrow> Inr n)"

definition is_everything :: "ip_net \<Rightarrow> bool" where
  "is_everything n \<longleftrightarrow> net_prefix n = 0"

text \<open>\<open>str(rule.get(key, '') or '')\<close>.\<close>

definition text_or_empty :: "string option \<Rightarrow> string" where
  "text_or_empty v = str_or v []"

definition rule_enabled :: "rule \<Rightarrow> bool" where
  "rule_enabled r = (case r_enabled r of None \<Rightarrow> True | Some b \<Rightarrow> b)"

definition normalized_rule ::
  "string \<Rightarrow> string \<Rightarrow> bool \<Rightarrow> string option \<Rightarrow> string \<Rightarrow> rule \<Rightarrow> rule" where
  "normalized_rule key label enabled actor ts r =
     \<lparr>r_cidr = Some key, r_label = Some (take 128 label), r_enabled = Some enabled,
      r_created_by = Some (case actor of Some a \<Rightarrow> a | None \<Rightarrow> text_or_empty (r_created_by r)),
      r_created_at = Some (case actor of Some _ \<Rightarrow> ts
        | None \<Rightarrow> str_or (r_created_at r) ts)\<rparr>"

text \<open>The body of the loop, in the order of its checks; \<open>acc\<close> is \<open>normalized\<close>, \<open>seen\<close> its keys.\<close>

fun normalize_loop ::
  "string \<Rightarrow> string option \<Rightarrow> string \<Rightarrow> rule list \<Rightarrow> string set \<Rightarrow> rule list
   \<Rightarrow> (net_error, rule list) result" where
  "normalize_loop mode actor ts acc seen [] = Inr acc"
| "normalize_loop mode actor ts acc seen (r # rs) =
     (if MAX_RULES \<le> length acc then Inl TooManyRules
      else case parse_cidr (case r_cidr r of None \<Rightarrow> [] | Some c \<Rightarrow> c) of
        Inl e \<Rightarrow> Inl e
      | Inr net \<Rightarrow>
          (let key = str_net net; enabled = rule_enabled r;
               label = py_strip (text_or_empty (r_label r))
           in if mode = ''enforce'' \<and> enabled \<and> is_everything net then Inl (AllowsEverything key)
              else if label = [] then Inl (NeedsLabel key)
              else if key \<in> seen then Inl (ListedTwice key)
              else normalize_loop mode actor ts
                     (acc @ [normalized_rule key label enabled actor ts r]) (insert key seen) rs))"

definition normalize_rules ::
  "string \<Rightarrow> string option \<Rightarrow> string \<Rightarrow> rule list \<Rightarrow> (net_error, rule list) result" where
  "normalize_rules mode actor ts rules =
     (if mode \<notin> set MODES then Inl (UnknownMode mode)
      else normalize_loop mode actor ts [] {} rules)"

section \<open>The stored policy\<close>

text \<open>The environment of the process: the seed, its mode and the break-glass variable.\<close>

record env =
  SEED_ENV :: "string option"
  SEED_MODE_ENV :: "string option"
  BREAK_GLASS_ENV :: "string option"

fun seed_rules :: "string \<Rightarrow> string list \<Rightarrow> item list" where
  "seed_rules ts [] = []"
| "seed_rules ts (entry # es) =
     (let candidate = py_strip entry in
      if candidate = [] then seed_rules ts es
      else case parse_cidr candidate of
        Inl _ \<Rightarrow> seed_rules ts es
      | Inr net \<Rightarrow>
          (if is_everything net then seed_rules ts es
           else Rule \<lparr>r_cidr = Some (str_net net), r_label = Some ''Seeded at deployment'',
                  r_enabled = Some True, r_created_by = Some ''deployment'',
                  r_created_at = Some ts\<rparr> # seed_rules ts es))"

definition seed_from_env :: "env \<Rightarrow> string \<Rightarrow> config option" where
  "seed_from_env e ts =
     (let raw = py_strip (str_or (SEED_ENV e) []) in
      if raw = [] then None
      else let rules = seed_rules ts (split_on CHR '','' raw) in
        if rules = [] then None
        else let mode = py_lower (py_strip (str_or (SEED_MODE_ENV e) ''enforce''));
                 mode = (if mode \<in> set MODES then mode else ''enforce'')
             in Some \<lparr>c_mode = Some mode, c_rules = Some (Rules rules), c_confirm = None\<rparr>)"

text \<open>\<open>dict(DEFAULTS)\<close> updated with the stored keys.\<close>

definition with_defaults :: "config \<Rightarrow> config" where
  "with_defaults c =
     \<lparr>c_mode = (case c_mode c of None \<Rightarrow> Some ''off'' | m \<Rightarrow> m),
      c_rules = (case c_rules c of None \<Rightarrow> Some (Rules []) | r \<Rightarrow> r),
      c_confirm = c_confirm c\<rparr>"

text \<open>
  \<open>load_config\<close>: the first argument pair is what the read returned and what the file
  holds when the seed is written (another replica may have written it in between); the
  result is the configuration and the file afterwards.
\<close>

definition load_config :: "env \<Rightarrow> string \<Rightarrow> stored \<Rightarrow> stored \<Rightarrow> config \<times> stored" where
  "load_config e ts seen current =
     (case seen of
        Object s \<Rightarrow>
          (let c = with_defaults s;
               c = (if the (c_mode c) \<in> set MODES then c else c\<lparr>c_mode := Some ''off''\<rparr>);
               c = (case c_rules c of Some NotList \<Rightarrow> c\<lparr>c_rules := Some (Rules [])\<rparr> | _ \<Rightarrow> c)
           in (c, current))
      | _ \<Rightarrow>
          (case seed_from_env e ts of
             None \<Rightarrow> (DEFAULTS, current)
           | Some s \<Rightarrow>
               (case current of Object c \<Rightarrow> (c, Object c) | _ \<Rightarrow> (s, Object s))))"

text \<open>\<open>mutate_config\<close>: the mutator sees the stored policy over the defaults.\<close>

definition mutate_config :: "(config \<Rightarrow> config) \<Rightarrow> stored \<Rightarrow> config \<times> stored" where
  "mutate_config f st =
     (let cfg = (case st of Object s \<Rightarrow> with_defaults s | _ \<Rightarrow> DEFAULTS); c = f cfg
      in (c, Object c))"

section \<open>The compiled matcher\<close>

type_synonym compiled = "ip_version \<Rightarrow> (int \<times> int set) list"

text \<open>\<open>_COMPILED_KEY\<close> and \<open>_COMPILED\<close>.\<close>

record cache =
  cache_key :: "string list option"
  cache_rows :: compiled

text \<open>The module's initial value, and what \<open>reset_cache\<close> restores.\<close>

definition reset_cache :: cache where
  "reset_cache = \<lparr>cache_key = None, cache_rows = (\<lambda>_. [])\<rparr>"

definition enabled_item :: "item \<Rightarrow> bool" where
  "enabled_item it = (case it of Rule r \<Rightarrow> rule_enabled r | NotDict \<Rightarrow> False)"

fun item_cidr :: "item \<Rightarrow> string" where
  "item_cidr (Rule r) = (case r_cidr r of None \<Rightarrow> [] | Some c \<Rightarrow> c)"
| "item_cidr NotDict = []"

text \<open>\<open>grouped[version].setdefault(prefix, set()).add(base)\<close> for one version.\<close>

fun group_add :: "nat \<Rightarrow> int \<Rightarrow> (nat \<times> int set) list \<Rightarrow> (nat \<times> int set) list" where
  "group_add p b [] = [(p, {b})]"
| "group_add p b ((q, bs) # g) = (if q = p then (q, insert b bs) # g else (q, bs) # group_add p b g)"

fun group_nets :: "ip_version \<Rightarrow> string list \<Rightarrow> (nat \<times> int set) list \<Rightarrow> (nat \<times> int set) list" where
  "group_nets v [] g = g"
| "group_nets v (c # cs) g =
     (case ip_network c of
        None \<Rightarrow> group_nets v cs g
      | Some n \<Rightarrow> group_nets v cs (if net_ver n = v then group_add (net_prefix n) (net_base n) g else g))"

definition shift_mask :: "nat \<Rightarrow> nat \<Rightarrow> int" where
  "shift_mask bits p = (if p \<noteq> 0 then push_bit (bits - p) (push_bit p 1 - 1) else 0)"

definition compile :: "string list \<Rightarrow> compiled" where
  "compile key v =
     map (\<lambda>(p, bases). (shift_mask (ip_bits v) p, bases)) (rev (sort_key fst (group_nets v key [])))"

definition compiled_for :: "cache \<Rightarrow> item list \<Rightarrow> cache" where
  "compiled_for c items =
     (let key = map item_cidr (filter enabled_item items) in
      if cache_key c \<noteq> Some key then \<lparr>cache_key = Some key, cache_rows = compile key\<rparr> else c)"

text \<open>\<open>matches\<close>: the decision and the cache it leaves.\<close>

definition matches :: "cache \<Rightarrow> string option \<Rightarrow> item list \<Rightarrow> bool \<times> cache" where
  "matches c ip items =
     (case ip_address (str_or ip []) of
        None \<Rightarrow> (False, c)
      | Some a \<Rightarrow>
          (let c' = compiled_for c items
           in (\<exists>(m, bases) \<in> set (cache_rows c' (ip_ver a)). (ip_val a AND m) \<in> bases, c')))"

text \<open>\<open>matching_rule\<close>: the linear scan that explains a decision.\<close>

definition rule_covers :: "ip_addr \<Rightarrow> item \<Rightarrow> bool" where
  "rule_covers a it \<longleftrightarrow> enabled_item it \<and>
     (case ip_network (item_cidr it) of None \<Rightarrow> False | Some n \<Rightarrow> ip_ver a = net_ver n \<and> in_net a n)"

definition matching_rule :: "string option \<Rightarrow> item list \<Rightarrow> item option" where
  "matching_rule ip items =
     (case ip_address (str_or ip []) of None \<Rightarrow> None | Some a \<Rightarrow> find (rule_covers a) items)"

section \<open>The effective mode and the commit-confirm timer\<close>

definition break_glass_active :: "env \<Rightarrow> bool" where
  "break_glass_active e \<longleftrightarrow>
     py_lower (py_strip (str_or (BREAK_GLASS_ENV e) [])) \<in> {''1'', ''true'', ''yes''}"

fun expired :: "int \<Rightarrow> stamp \<Rightarrow> bool" where
  "expired now (At t) = (t \<le> now)"
| "expired now Unparseable = False"

definition lapsed :: "int \<Rightarrow> config \<Rightarrow> bool" where
  "lapsed now c = (case c_confirm c of None \<Rightarrow> False | Some s \<Rightarrow> expired now s)"

definition effective_mode :: "env \<Rightarrow> int \<Rightarrow> config \<Rightarrow> string" where
  "effective_mode e now c =
     (if break_glass_active e then ''off''
      else let mode = (case c_mode c of None \<Rightarrow> ''off'' | Some m \<Rightarrow> m) in
        if mode \<noteq> ''enforce'' then (if mode \<in> set MODES then mode else ''off'')
        else if lapsed now c then ''monitor'' else ''enforce'')"

definition confirm_deadline :: "int \<Rightarrow> stamp" where
  "confirm_deadline now = At (now + CONFIRM_WINDOW_MINUTES * 60 * 1000000)"

text \<open>\<open>revert_if_expired\<close>: the new configuration when it reverted, and the file.\<close>

definition revert_mutator :: "int \<Rightarrow> config \<Rightarrow> config" where
  "revert_mutator now c =
     (if c_mode c = Some ''enforce'' \<and> lapsed now c
      then c\<lparr>c_mode := Some ''monitor'', c_confirm := None\<rparr> else c)"

definition revert_if_expired :: "int \<Rightarrow> stored \<Rightarrow> config option \<times> stored" where
  "revert_if_expired now st =
     (let (c, st') = mutate_config (revert_mutator now) st;
          before = (case st of Object s \<Rightarrow> with_defaults s | _ \<Rightarrow> DEFAULTS)
      in (if c_mode before = Some ''enforce'' \<and> lapsed now before then Some c else None, st'))"

section \<open>Laws of the compiled table\<close>

text \<open>A table of prefixes holds the base \<open>b\<close> under the prefix \<open>p\<close>.\<close>

definition grp_has :: "(nat \<times> int set) list \<Rightarrow> nat \<Rightarrow> int \<Rightarrow> bool" where
  "grp_has g p b \<longleftrightarrow> (\<exists>bs. (p, bs) \<in> set g \<and> b \<in> bs)"

lemma grp_has_Nil: "grp_has [] p b = False"
  by (simp add: grp_has_def)

lemma grp_has_add: "grp_has (group_add p b g) q c \<longleftrightarrow> grp_has g q c \<or> (q = p \<and> c = b)"
  by (induction p b g rule: group_add.induct) (auto simp: grp_has_def)

lemma grp_has_nets:
  "grp_has (group_nets v cs g) p b \<longleftrightarrow> grp_has g p b \<or>
     (\<exists>c\<in>set cs. \<exists>n. ip_network c = Some n \<and> net_ver n = v \<and> net_prefix n = p \<and> net_base n = b)"
  by (induction cs arbitrary: g) (auto simp: grp_has_add split: option.splits)

lemma shift_mask_net_mask: "p \<le> ip_bits v \<Longrightarrow> shift_mask (ip_bits v) p = net_mask v p"
  by (simp add: shift_mask_def net_mask_shift)

lemma compile_hit:
  "(\<exists>(m, bases) \<in> set (compile key v). (x AND m) \<in> bases) \<longleftrightarrow>
     (\<exists>c\<in>set key. \<exists>n. ip_network c = Some n \<and> net_ver n = v \<and>
        (x AND net_mask v (net_prefix n)) = net_base n)"
proof -
  have "(\<exists>(m, bases) \<in> set (compile key v). (x AND m) \<in> bases) \<longleftrightarrow>
      (\<exists>p. grp_has (group_nets v key []) p (x AND shift_mask (ip_bits v) p))"
    by (force simp: compile_def grp_has_def)
  also have "\<dots> \<longleftrightarrow> (\<exists>c\<in>set key. \<exists>n. ip_network c = Some n \<and> net_ver n = v \<and>
      (x AND shift_mask (ip_bits v) (net_prefix n)) = net_base n)"
    by (simp only: grp_has_nets grp_has_Nil simp_thms) metis
  finally show ?thesis
    by (metis ip_network_prefix shift_mask_net_mask)
qed

text \<open>The cache is coherent when its rows are those of its key.\<close>

definition cache_ok :: "cache \<Rightarrow> bool" where
  "cache_ok c \<longleftrightarrow> (\<forall>k. cache_key c = Some k \<longrightarrow> cache_rows c = compile k)"

lemma cache_ok_reset [simp]: "cache_ok reset_cache"
  by (simp add: cache_ok_def reset_cache_def)

lemma compiled_for_rows:
  "cache_ok c \<Longrightarrow> cache_rows (compiled_for c items) = compile (map item_cidr (filter enabled_item items))"
  by (auto simp: cache_ok_def compiled_for_def Let_def)

lemma cache_ok_compiled_for [keeps]: "cache_ok c \<Longrightarrow> cache_ok (compiled_for c items)"
  by (auto simp: cache_ok_def compiled_for_def Let_def)

lemma cache_ok_matches [keeps]: "cache_ok c \<Longrightarrow> cache_ok (snd (matches c ip items))"
  by (auto simp: matches_def Let_def cache_ok_compiled_for split: option.splits)

lemma rule_covers_hit:
  "list_ex (rule_covers a) items \<longleftrightarrow>
     (\<exists>c\<in>set (map item_cidr (filter enabled_item items)). \<exists>n. ip_network c = Some n \<and>
        net_ver n = ip_ver a \<and> (ip_val a AND net_mask (ip_ver a) (net_prefix n)) = net_base n)"
  by (fastforce simp: list_ex_iff rule_covers_def in_net_def split: option.splits)

lemma matches_iff_rule:
  assumes "cache_ok c"
  shows "fst (matches c ip items) \<longleftrightarrow> matching_rule ip items \<noteq> None"
proof (cases "ip_address (str_or ip [])")
  case None
  then show ?thesis by (simp add: matches_def matching_rule_def)
next
  case (Some a)
  then have "fst (matches c ip items) \<longleftrightarrow> list_ex (rule_covers a) items"
    by (simp only: matches_def option.case Let_def fst_conv compiled_for_rows [OF assms]
        compile_hit rule_covers_hit)
  moreover have "matching_rule ip items \<noteq> None \<longleftrightarrow> list_ex (rule_covers a) items"
    unfolding matching_rule_def Some option.case by (rule find_not_None)
  ultimately show ?thesis by blast
qed

section \<open>Laws of validation\<close>

definition rule_net :: "rule \<Rightarrow> ip_net option" where
  "rule_net r = (case parse_cidr (case r_cidr r of None \<Rightarrow> [] | Some c \<Rightarrow> c) of
     Inl _ \<Rightarrow> None | Inr n \<Rightarrow> Some n)"

definition rule_key :: "rule \<Rightarrow> string" where
  "rule_key r = (case rule_net r of None \<Rightarrow> [] | Some n \<Rightarrow> str_net n)"

definition rule_label :: "rule \<Rightarrow> string" where
  "rule_label r = py_strip (text_or_empty (r_label r))"

text \<open>A rule the validator accepts on its own: a network, not an enabled \<open>/0\<close> under enforcement, labelled.\<close>

definition acceptable :: "string \<Rightarrow> rule \<Rightarrow> bool" where
  "acceptable mode r \<longleftrightarrow> (case rule_net r of None \<Rightarrow> False
     | Some n \<Rightarrow> \<not> (mode = ''enforce'' \<and> rule_enabled r \<and> is_everything n)) \<and> rule_label r \<noteq> []"

definition normalized :: "string option \<Rightarrow> string \<Rightarrow> rule \<Rightarrow> rule" where
  "normalized actor ts r = normalized_rule (rule_key r) (rule_label r) (rule_enabled r) actor ts r"

lemma normalize_loop_iff:
  "length acc \<le> MAX_RULES \<Longrightarrow>
   normalize_loop mode actor ts acc seen rs = Inr out \<longleftrightarrow>
     length acc + length rs \<le> MAX_RULES \<and> list_all (acceptable mode) rs \<and>
     distinct (map rule_key rs) \<and> seen \<inter> set (map rule_key rs) = {} \<and>
     out = acc @ map (normalized actor ts) rs"
proof (induction rs arbitrary: acc seen)
  case Nil
  then show ?case by auto
next
  case (Cons r rs)
  show ?case
  proof (cases "length acc < MAX_RULES \<and> acceptable mode r \<and> rule_key r \<notin> seen")
    case True
    then obtain n where n: "parse_cidr (case r_cidr r of None \<Rightarrow> [] | Some c \<Rightarrow> c) = Inr n"
      by (auto simp: acceptable_def rule_net_def split: option.splits sum.splits)
    from True n have "normalize_loop mode actor ts acc seen (r # rs) =
        normalize_loop mode actor ts (acc @ [normalized actor ts r]) (insert (rule_key r) seen) rs"
      by (auto simp: acceptable_def rule_net_def rule_key_def rule_label_def normalized_def Let_def)
    with True Cons.IH [of "acc @ [normalized actor ts r]" "insert (rule_key r) seen"]
    show ?thesis by auto
  next
    case False
    then have "normalize_loop mode actor ts acc seen (r # rs) \<noteq> Inr out"
      by (auto simp: acceptable_def rule_net_def rule_key_def rule_label_def Let_def split: sum.splits)
    with False Cons.prems show ?thesis by auto
  qed
qed

lemma normalize_rules_iff:
  "normalize_rules mode actor ts rules = Inr out \<longleftrightarrow>
     mode \<in> set MODES \<and> length rules \<le> MAX_RULES \<and> list_all (acceptable mode) rules \<and>
     distinct (map rule_key rules) \<and> out = map (normalized actor ts) rules"
  by (auto simp: normalize_rules_def normalize_loop_iff)

lemma normalized_sel [simp]:
  "r_cidr (normalized actor ts r) = Some (rule_key r)"
  "rule_enabled (normalized actor ts r) = rule_enabled r"
  "r_label (normalized actor ts r) = Some (take 128 (rule_label r))"
  by (simp_all add: normalized_def normalized_rule_def rule_enabled_def)

section \<open>Laws of the timer\<close>

lemma with_defaults_idem [simp]: "with_defaults (with_defaults c) = with_defaults c"
  by (simp add: with_defaults_def split: option.splits)

lemma with_defaults_mode [simp]: "effective_mode e now (with_defaults c) = effective_mode e now c"
  by (simp add: effective_mode_def with_defaults_def lapsed_def split: option.splits)

lemma expired_mono: "expired now s \<Longrightarrow> now \<le> later \<Longrightarrow> expired later s"
  by (cases s) auto

lemma lapsed_mono: "lapsed now c \<Longrightarrow> now \<le> later \<Longrightarrow> lapsed later c"
  by (auto simp: lapsed_def expired_mono split: option.splits)

text \<open>Persisting the revert changes no decision from then on.\<close>

lemma revert_mutator_effective:
  "now \<le> later \<Longrightarrow> effective_mode e later (revert_mutator now c) = effective_mode e later c"
  by (auto simp: revert_mutator_def effective_mode_def lapsed_mono MODES_def Let_def)

lemma revert_mutator_idem [simp]: "revert_mutator now (revert_mutator now c) = revert_mutator now c"
  by (simp add: revert_mutator_def)

section \<open>Properties\<close>

text \<open>
  C2. The compiled prefix table is the linear scan. For a coherent cache the table answers
  exactly as the first-match scan over the enabled rules, and it leaves the cache coherent,
  so hits, misses and rebuilds are all invisible.
\<close>

theorem matches_equals_linear_scan:
  assumes "cache_ok c"
  shows "(fst (matches c ip items) \<longleftrightarrow> matching_rule ip items \<noteq> None) \<and> cache_ok (snd (matches c ip items))"
  using assms by (simp only: matches_iff_rule cache_ok_matches simp_thms)

theorem matches_equals_linear_scan_witness:
  "fst (matches reset_cache (Some ''10.1.2.3'')
     [NotDict, Rule \<lparr>r_cidr = Some ''10.0.0.0/8'', r_label = None, r_enabled = None,
        r_created_by = None, r_created_at = None\<rparr>])"
  by (subst matches_equals_linear_scan [OF cache_ok_reset, THEN conjunct1]) code_simp

text \<open>
  Lemma. Validation is exact. The validator accepts a rule list precisely when the mode is
  known, the list fits the ceiling, every rule is a labelled network (no enabled \<open>/0\<close> under
  enforcement) and no canonical network repeats; it then returns every rule, in order, in
  canonical form.
\<close>

lemma normalize_rules_exact:
  "normalize_rules mode actor ts rules = Inr out \<longleftrightarrow>
     mode \<in> set MODES \<and> length rules \<le> MAX_RULES \<and> list_all (acceptable mode) rules \<and>
     distinct (map rule_key rules) \<and> out = map (normalized actor ts) rules"
  by (rule normalize_rules_iff)

text \<open>
  Lemma. Persisting the revert changes nothing observable: writing the auto-revert into the file
  leaves the effective mode what evaluation on read already said, now and at every later
  time, and a second call finds nothing to revert.
\<close>

lemma revert_if_expired_refines_read:
  assumes "revert_if_expired now (Object c) = (r, Object c')" "now \<le> later"
  shows "effective_mode e later c' = effective_mode e later c \<and> fst (revert_if_expired now (Object c')) = None"
proof -
  have c': "c' = revert_mutator now (with_defaults c)"
    using assms(1) by (simp add: revert_if_expired_def mutate_config_def Let_def)
  have "with_defaults c' = c'"
    unfolding c' by (simp add: revert_mutator_def with_defaults_def split: option.splits)
  moreover have "\<not> (c_mode c' = Some ''enforce'' \<and> lapsed now c')"
    unfolding c' by (simp add: revert_mutator_def)
  ultimately show ?thesis
    using revert_mutator_effective [OF assms(2), of e "with_defaults c"]
    by (simp add: c' revert_if_expired_def mutate_config_def Let_def)
qed

definition lapsed_policy :: config where
  "lapsed_policy = \<lparr>c_mode = Some ''enforce'', c_rules = None, c_confirm = Some (At 7)\<rparr>"

lemma revert_if_expired_refines_read_witness:
  "\<exists>r c'. revert_if_expired 7 (Object lapsed_policy) = (r, Object c') \<and>
     effective_mode \<lparr>SEED_ENV = None, SEED_MODE_ENV = None, BREAK_GLASS_ENV = None\<rparr> 9 c' =
     effective_mode \<lparr>SEED_ENV = None, SEED_MODE_ENV = None, BREAK_GLASS_ENV = None\<rparr> 9 lapsed_policy"
proof -
  obtain r c' where p: "revert_if_expired 7 (Object lapsed_policy) = (r, Object c')"
    by (simp add: revert_if_expired_def mutate_config_def Let_def)
  have "(7::int) \<le> 9" by simp
  from revert_if_expired_refines_read [OF p this] p show ?thesis by blast
qed

end
