(* ===== verification/Client_Ip.thy ===== *)
theory Client_Ip
  imports Ip_Address
begin

text \<open>
  Resolution of the originating client address, \<^verbatim>\<open>app/core/clientip.py\<close>: which
  entry of \<^verbatim>\<open>X-Forwarded-For\<close> names the caller, when the header is honoured at
  all, and the diagnostic that explains the choice. A request is the socket peer and the
  header, both optional; the two settings are a record.
\<close>

record request =
  rq_peer :: "string option"
  rq_xff :: "string option"

record settings =
  trust_forwarded_headers :: bool
  trusted_proxies :: "string option"

definition INTERNAL_CIDRS :: "string list" where
  "INTERNAL_CIDRS = [''10.0.0.0/8'', ''172.16.0.0/12'', ''192.168.0.0/16'', ''127.0.0.0/8'',
     ''169.254.0.0/16'', ''0.0.0.0/8'', ''::1/128'', ''fe80::/10'', ''fc00::/7'']"

definition internal_networks :: "ip_net list" where
  "internal_networks = List.map_filter ip_network INTERNAL_CIDRS"

definition is_internal :: "ip_addr \<Rightarrow> bool" where
  "is_internal a \<longleftrightarrow> list_ex (\<lambda>n. ip_ver a = net_ver n \<and> in_net a n) internal_networks"

text \<open>\<open>_parse\<close>: blanks stripped, an IPv6 address possibly in brackets.\<close>

definition parse_entry :: "string \<Rightarrow> ip_addr option" where
  "parse_entry value =
     (let candidate = py_strip value in
      if candidate = [] then None
      else ip_address (if starts_with candidate ''['' then takeWhile (\<lambda>c. c \<noteq> CHR '']'') (tl candidate)
                       else candidate))"

text \<open>\<open>_forwarded_client\<close>: the loop over the entries from the right.\<close>

fun pick_client :: "string list \<Rightarrow> string option" where
  "pick_client [] = None"
| "pick_client (raw # rest) =
     (case parse_entry raw of
        None \<Rightarrow> pick_client rest
      | Some a \<Rightarrow> (if is_internal a then pick_client rest else Some (str_addr a)))"

definition forwarded_client :: "string \<Rightarrow> string option" where
  "forwarded_client xff = pick_client (rev (split_on CHR '','' xff))"

definition trusted_set :: "settings \<Rightarrow> string list" where
  "trusted_set s = filter (\<lambda>ip. ip \<noteq> []) (map py_strip (split_on CHR '','' (str_or (trusted_proxies s) [])))"

definition honoured :: "settings \<Rightarrow> request \<Rightarrow> bool" where
  "honoured s rq \<longleftrightarrow> trust_forwarded_headers s \<or>
     (case rq_peer rq of None \<Rightarrow> False | Some d \<Rightarrow> d \<noteq> [] \<and> d \<in> set (trusted_set s))"

definition client_ip :: "settings \<Rightarrow> request \<Rightarrow> string option" where
  "client_ip s rq =
     (if honoured s rq \<and> str_or (rq_xff rq) [] \<noteq> []
      then forwarded_client (str_or (rq_xff rq) []) else rq_peer rq)"

section \<open>The diagnostic\<close>

datatype classification = unparseable | infrastructure | client

record entry =
  en_value :: string
  en_valid :: bool
  en_class :: classification
  en_selected :: bool

datatype reason = NoHeader | HeaderIgnored | Unattributable | RightToLeft

record description =
  de_resolved :: "string option"
  de_peer :: "string option"
  de_header :: "string option"
  de_honoured :: bool
  de_entries :: "entry list"
  de_reason :: reason

definition describe_entry :: "string option \<Rightarrow> string \<Rightarrow> entry" where
  "describe_entry resolved raw =
     (let parsed = parse_entry raw in
      \<lparr>en_value = py_strip raw, en_valid = (parsed \<noteq> None),
       en_class = (case parsed of None \<Rightarrow> unparseable
         | Some a \<Rightarrow> if is_internal a then infrastructure else client),
       en_selected = (parsed \<noteq> None \<and> Some (py_strip raw) = resolved)\<rparr>)"

definition describe :: "settings \<Rightarrow> request \<Rightarrow> description" where
  "describe s rq =
     (let header = str_or (rq_xff rq) []; resolved = client_ip s rq in
      \<lparr>de_resolved = resolved, de_peer = rq_peer rq, de_header = rq_xff rq,
       de_honoured = honoured s rq,
       de_entries = (if header = [] then [] else map (describe_entry resolved) (split_on CHR '','' header)),
       de_reason = (if header = [] then NoHeader else if \<not> honoured s rq then HeaderIgnored
         else if resolved = None then Unattributable else RightToLeft)\<rparr>)"

section \<open>Laws\<close>

lemma pick_client_append:
  "pick_client (xs @ ys) = (case pick_client xs of None \<Rightarrow> pick_client ys | Some c \<Rightarrow> Some c)"
  by (induction xs) (auto split: option.splits)

lemma pick_client_SomeD:
  "pick_client xs = Some c \<Longrightarrow>
     \<exists>raw a. raw \<in> set xs \<and> parse_entry raw = Some a \<and> \<not> is_internal a \<and> c = str_addr a"
  by (induction xs) (auto split: option.splits if_splits)

lemma pick_client_None:
  "pick_client xs = None \<longleftrightarrow>
     (\<forall>raw\<in>set xs. case parse_entry raw of None \<Rightarrow> True | Some a \<Rightarrow> is_internal a)"
  by (induction xs) (auto split: option.splits)

lemma forwarded_client_append:
  "forwarded_client (s @ '','' @ t) =
     (case forwarded_client t of None \<Rightarrow> forwarded_client s | Some c \<Rightarrow> Some c)"
  by (simp add: forwarded_client_def pick_client_append split: option.splits)

section \<open>Properties\<close>

text \<open>
  Lemma. Injection resistance. A caller can only prepend to the forwarded header. Whatever the
  injected text is (commas, addresses, junk), it never changes the resolved client when the
  part the trusted proxies wrote names one.
\<close>

lemma forwarded_client_injection:
  assumes "forwarded_client appended = Some c"
  shows "forwarded_client (injected @ '','' @ appended) = Some c"
  using assms by (simp only: forwarded_client_append option.case)

lemma forwarded_client_injection_witness:
  "forwarded_client (''203.0.113.77'' @ '','' @ ''198.51.100.9, 10.0.0.4'') = Some ''198.51.100.9''"
  by (rule forwarded_client_injection) code_simp

text \<open>
  Lemma. A resolved forwarded client is always an address the header really carries and never
  infrastructure; when every entry is infrastructure or junk nobody is named, so a proxy
  cannot satisfy the allowlist in the caller's place.
\<close>

lemma forwarded_client_attribution:
  "case forwarded_client xff of
     Some c \<Rightarrow> \<exists>raw a. raw \<in> set (split_on CHR '','' xff) \<and> parse_entry raw = Some a \<and>
       \<not> is_internal a \<and> c = str_addr a
   | None \<Rightarrow> list_all (\<lambda>raw. case parse_entry raw of None \<Rightarrow> True | Some a \<Rightarrow> is_internal a)
       (split_on CHR '','' xff)"
  by (auto simp: forwarded_client_def pick_client_None list_all_iff split: option.splits
      dest!: pick_client_SomeD)

text \<open>
  An address with a port is skipped, so the entry to its left wins. The last entry here
  is what a proxy that appends \<open>address:port\<close> writes; the resolved client is the entry the
  caller supplied.
\<close>

lemma forwarded_client_port_entry_skipped:
  "forwarded_client ''203.0.113.77,198.51.100.9:4711'' = Some ''203.0.113.77''"
  by code_simp

text \<open>
  Lemma. An untrusted peer cannot speak for anyone else: unless the deployment trusts forwarded
  headers or lists the peer, the header is ignored entirely.
\<close>

lemma client_ip_untrusted_header_ignored:
  assumes "\<not> honoured s rq"
  shows "client_ip s (rq\<lparr>rq_xff := header\<rparr>) = rq_peer rq"
  using assms by (simp add: client_ip_def honoured_def)

lemma client_ip_untrusted_header_ignored_witness:
  "client_ip \<lparr>trust_forwarded_headers = False, trusted_proxies = Some ''10.0.0.1, 10.0.0.2''\<rparr>
     (\<lparr>rq_peer = Some ''198.51.100.9'', rq_xff = None\<rparr>\<lparr>rq_xff := Some ''10.0.0.1''\<rparr>) = Some ''198.51.100.9''"
proof -
  have "\<not> honoured \<lparr>trust_forwarded_headers = False, trusted_proxies = Some ''10.0.0.1, 10.0.0.2''\<rparr>
      \<lparr>rq_peer = Some ''198.51.100.9'', rq_xff = None\<rparr>"
    by code_simp
  from client_ip_untrusted_header_ignored [OF this, of "Some ''10.0.0.1''"] show ?thesis by simp
qed

end
