(* ===== verification/Firewall.thy ===== *)
theory Firewall
  imports Net_Access Client_Ip "HOL-Library.AList"
begin

text \<open>
  The allowlist in operation: the admin handlers that change the policy
  (\<^verbatim>\<open>app/api/firewall.py\<close>), the middleware that enforces it on every request
  (\<open>_IpAllowlist\<close> in \<^verbatim>\<open>app/main.py\<close>) and the bounded buffer of refused requests
  (\<^verbatim>\<open>app/core/netaccess_events.py\<close>). The state is the policy file, the compiled
  cache, the event buffer and the audit log. The display projection \<open>_decorate\<close> of the
  handlers is left out: a handler returns the configuration it decorates.
\<close>

section \<open>The event buffer\<close>

record pending =
  pe_hits :: nat
  pe_first :: int
  pe_last :: int
  pe_path :: string

record events =
  ev_pending :: "((string \<times> string) \<times> pending) list"
  ev_last_flush :: int
  ev_dropped :: nat

definition MAX_TRACKED_IPS :: nat where
  "MAX_TRACKED_IPS = 2000"

definition FLUSH_INTERVAL :: int where
  "FLUSH_INTERVAL = 60 * 1000000"

definition bump_pending :: "int \<Rightarrow> string \<Rightarrow> pending \<Rightarrow> pending" where
  "bump_pending now path p = p\<lparr>pe_hits := pe_hits p + 1, pe_last := now, pe_path := take 512 path\<rparr>"

text \<open>\<open>record\<close>: the cap stops new addresses, never a counter already tracked.\<close>

definition record_block :: "int \<Rightarrow> string \<Rightarrow> string \<Rightarrow> string \<Rightarrow> events \<Rightarrow> events" where
  "record_block now ip mode path ev =
     (case map_of (ev_pending ev) (ip, mode) of
        None \<Rightarrow>
          (if MAX_TRACKED_IPS \<le> length (ev_pending ev) then ev\<lparr>ev_dropped := ev_dropped ev + 1\<rparr>
           else ev\<lparr>ev_pending := AList.update (ip, mode)
                  (bump_pending now path \<lparr>pe_hits = 0, pe_first = now, pe_last = now, pe_path = []\<rparr>)
                  (ev_pending ev)\<rparr>)
      | Some p \<Rightarrow> ev\<lparr>ev_pending := AList.update (ip, mode) (bump_pending now path p) (ev_pending ev)\<rparr>)"

definition due_for_flush :: "int \<Rightarrow> events \<Rightarrow> bool" where
  "due_for_flush tick ev \<longleftrightarrow> ev_pending ev \<noteq> [] \<and> FLUSH_INTERVAL \<le> tick - ev_last_flush ev"

text \<open>A row of the \<open>IpBlockEvent\<close> table; \<open>be_id\<close> is its primary key.\<close>

record block_event =
  be_id :: nat
  be_ip :: string
  be_mode :: string
  be_hits :: nat
  be_path :: string
  be_first :: int
  be_last :: int

text \<open>One iteration of the upsert loop; a new row takes the next free key.\<close>

fun upsert_event :: "nat \<Rightarrow> (string \<times> string) \<Rightarrow> pending \<Rightarrow> block_event list \<Rightarrow> block_event list" where
  "upsert_event fresh (ip, mode) p [] =
     [\<lparr>be_id = fresh, be_ip = ip, be_mode = mode, be_hits = pe_hits p, be_path = pe_path p,
       be_first = pe_first p, be_last = pe_last p\<rparr>]"
| "upsert_event fresh (ip, mode) p (r # rs) =
     (if be_ip r = ip \<and> be_mode r = mode
      then r\<lparr>be_hits := be_hits r + pe_hits p, be_path := pe_path p, be_last := pe_last p\<rparr> # rs
      else r # upsert_event fresh (ip, mode) p rs)"

definition next_id :: "block_event list \<Rightarrow> nat" where
  "next_id rows = Suc (fold max (map be_id rows) 0)"

fun flush_batch :: "((string \<times> string) \<times> pending) list \<Rightarrow> block_event list \<Rightarrow> block_event list" where
  "flush_batch [] rows = rows"
| "flush_batch ((k, p) # b) rows = flush_batch b (upsert_event (next_id rows) k p rows)"

text \<open>\<open>flush\<close>: the number written, the buffer and the table afterwards.\<close>

definition flush_events :: "int \<Rightarrow> events \<Rightarrow> block_event list \<Rightarrow> nat \<times> events \<times> block_event list" where
  "flush_events tick ev rows =
     (if ev_pending ev = [] then (0, ev, rows)
      else (length (ev_pending ev),
            ev\<lparr>ev_pending := [], ev_last_flush := tick, ev_dropped := 0\<rparr>,
            flush_batch (ev_pending ev) rows))"

definition RETENTION_DAYS :: int where
  "RETENTION_DAYS = 30"

definition MAX_ROWS :: nat where
  "MAX_ROWS = 5000"

text \<open>\<open>purge\<close>: age first, then the newest \<open>MAX_ROWS\<close> by last activity.\<close>

definition newest_ids :: "nat \<Rightarrow> block_event list \<Rightarrow> nat list" where
  "newest_ids n rows = map be_id (take n (rev (sort_key be_last rows)))"

definition purge_events :: "int \<Rightarrow> block_event list \<Rightarrow> nat \<times> block_event list" where
  "purge_events now rows =
     (let cutoff = now - RETENTION_DAYS * 86400 * 1000000;
          rows1 = filter (\<lambda>r. \<not> be_last r < cutoff) rows;
          removed1 = length rows - length rows1;
          keep = newest_ids MAX_ROWS rows1
      in if MAX_ROWS \<le> length keep
         then let rows2 = filter (\<lambda>r. be_id r \<in> set keep) rows1
              in (removed1 + (length rows1 - length rows2), rows2)
         else (removed1, rows1))"

definition reset_events :: "events" where
  "reset_events = \<lparr>ev_pending = [], ev_last_flush = 0, ev_dropped = 0\<rparr>"

section \<open>State of the firewall\<close>

record import_note =
  im_source :: string
  im_strategy :: string
  im_added :: nat
  im_removed :: nat
  im_retained :: nat
  im_skipped :: nat

datatype audit =
    FirewallUpdate "string option" string nat "string list" "string option" "import_note option"
  | FirewallConfirmed "string option"

record firewall =
  fw_file :: stored
  fw_cache :: cache
  fw_events :: events
  fw_audit :: "audit list"

section \<open>The admin handlers\<close>

record rule_in =
  in_cidr :: string
  in_label :: string
  in_enabled :: bool

record import_context =
  ic_source_name :: string
  ic_strategy :: string
  ic_skipped :: nat

record config_in =
  ci_mode :: string
  ci_rules :: "rule_in list"
  ci_import :: "import_context option"

text \<open>A 400 with its cause, or the 500 of an exception the handler does not catch.\<close>

datatype http_error =
    Invalid net_error
  | CallerNotCovered "string option"
  | NotEnforcing
  | ServerError

definition model_dump :: "rule_in \<Rightarrow> rule" where
  "model_dump r = \<lparr>r_cidr = Some (in_cidr r), r_label = Some (in_label r),
     r_enabled = Some (in_enabled r), r_created_by = None, r_created_at = None\<rparr>"

definition update_mutator :: "int \<Rightarrow> string \<Rightarrow> rule list \<Rightarrow> config \<Rightarrow> config" where
  "update_mutator now mode rules current =
     \<lparr>c_mode = Some mode, c_rules = Some (Rules (map Rule rules)),
      c_confirm = (if mode = ''enforce'' \<and> c_mode current \<noteq> Some ''enforce''
        then Some (confirm_deadline now)
        else if mode = ''enforce'' then c_confirm current else None)\<rparr>"

text \<open>The canonical ids of the previous rules; a non-dictionary row raises.\<close>

fun old_ids :: "item list \<Rightarrow> string set option" where
  "old_ids [] = Some {}"
| "old_ids (NotDict # its) = None"
| "old_ids (Rule r # its) =
     (case old_ids its of
        None \<Rightarrow> None
      | Some ids \<Rightarrow> Some (case rule_net r of None \<Rightarrow> ids | Some n \<Rightarrow> insert (str_net n) ids))"

definition base_name :: "string \<Rightarrow> string" where
  "base_name s = last (split_on CHR ''/'' (map (\<lambda>c. if c = CHR 0x5C then CHR ''/'' else c) s))"

definition import_note_of :: "import_context \<Rightarrow> string set \<Rightarrow> string set \<Rightarrow> import_note" where
  "import_note_of ic olds news =
     \<lparr>im_source = base_name (ic_source_name ic), im_strategy = ic_strategy ic,
      im_added = card (news - olds), im_removed = card (olds - news),
      im_retained = card (olds \<inter> news), im_skipped = ic_skipped ic\<rparr>"

definition previous_policy :: "stored \<Rightarrow> config" where
  "previous_policy st = (case st of Object s \<Rightarrow> with_defaults s | _ \<Rightarrow> DEFAULTS)"

definition previous_ids :: "config \<Rightarrow> string set option" where
  "previous_ids c = (case c_rules c of None \<Rightarrow> Some {} | Some NotList \<Rightarrow> None | Some (Rules its) \<Rightarrow> old_ids its)"

definition keys_of :: "rule list \<Rightarrow> string list" where
  "keys_of rules = map (\<lambda>r. case r_cidr r of None \<Rightarrow> [] | Some c \<Rightarrow> c) rules"

text \<open>
  \<open>update_config\<close>: validate, refuse an enforcing policy that excludes the caller, write in one
  transaction, drop the compiled cache, audit. The last step can raise after the write.
\<close>

definition update_config ::
  "int \<Rightarrow> string \<Rightarrow> string \<Rightarrow> string option \<Rightarrow> config_in \<Rightarrow> firewall
   \<Rightarrow> (http_error, config) result \<times> firewall" where
  "update_config now ts subject caller payload fw =
     (case normalize_rules (ci_mode payload) (Some subject) ts (map model_dump (ci_rules payload)) of
        Inl e \<Rightarrow> (Inl (Invalid e), fw)
      | Inr rules \<Rightarrow>
          (let (covered, cache1) =
                 (if ci_mode payload = ''enforce'' then matches (fw_cache fw) caller (map Rule rules)
                  else (True, fw_cache fw));
               fw1 = fw\<lparr>fw_cache := cache1\<rparr>
           in if \<not> covered then (Inl (CallerNotCovered caller), fw1)
              else let previous = previous_policy (fw_file fw1);
                       (cfg, file2) = mutate_config (update_mutator now (ci_mode payload) rules) (fw_file fw1);
                       fw2 = fw1\<lparr>fw_file := file2, fw_cache := reset_cache\<rparr>;
                       audited = (\<lambda>note. (Inr cfg, fw2\<lparr>fw_audit := fw_audit fw2 @
                         [FirewallUpdate (c_mode previous) (ci_mode payload) (length rules)
                            (keys_of rules) caller note]\<rparr>))
                   in case ci_import payload of
                        None \<Rightarrow> audited None
                      | Some ic \<Rightarrow>
                          (case previous_ids previous of
                             None \<Rightarrow> (Inl ServerError, fw2)
                           | Some olds \<Rightarrow> audited (Some (import_note_of ic olds (set (keys_of rules)))))))"

definition confirm_mutator :: "config \<Rightarrow> config" where
  "confirm_mutator c = (if c_mode c = Some ''enforce'' then c\<lparr>c_confirm := None\<rparr> else c)"

definition confirm_enforcement ::
  "string option \<Rightarrow> firewall \<Rightarrow> (http_error, config) result \<times> firewall" where
  "confirm_enforcement caller fw =
     (let was = (c_mode (previous_policy (fw_file fw)) = Some ''enforce'');
          (cfg, file2) = mutate_config confirm_mutator (fw_file fw);
          fw2 = fw\<lparr>fw_file := file2\<rparr>
      in if \<not> was then (Inl NotEnforcing, fw2)
         else (Inr cfg, fw2\<lparr>fw_audit := fw_audit fw2 @ [FirewallConfirmed caller]\<rparr>))"

section \<open>The middleware\<close>

datatype outcome = Forward | Forbidden

definition EXEMPT_PATHS :: "string list" where
  "EXEMPT_PATHS = [''/healthz'', ''/readyz'', ''/version'']"

definition rules_of :: "config \<Rightarrow> item list" where
  "rules_of c = (case c_rules c of Some (Rules its) \<Rightarrow> its | _ \<Rightarrow> [])"

definition current_mode :: "env \<Rightarrow> int \<Rightarrow> string \<Rightarrow> stored \<Rightarrow> string \<times> stored" where
  "current_mode e now ts st =
     (if break_glass_active e then (''off'', st)
      else let (cfg, st') = load_config e ts st st in (effective_mode e now cfg, st'))"

definition ip_allowlist ::
  "env \<Rightarrow> settings \<Rightarrow> int \<Rightarrow> string \<Rightarrow> string \<Rightarrow> string \<Rightarrow> request \<Rightarrow> firewall \<Rightarrow> outcome \<times> firewall" where
  "ip_allowlist e s now ts kind path rq fw =
     (if kind \<noteq> ''http'' \<or> path \<in> set EXEMPT_PATHS then (Forward, fw)
      else let (mode, st1) = current_mode e now ts (fw_file fw) in
        if mode = ''off'' then (Forward, fw\<lparr>fw_file := st1\<rparr>)
        else let (cfg, st2) = load_config e ts st1 st1;
                 ip = client_ip s rq;
                 (ok, cache') = matches (fw_cache fw) ip (rules_of cfg);
                 fw' = fw\<lparr>fw_file := st2, fw_cache := cache'\<rparr>
             in if ok then (Forward, fw')
                else let fw'' = fw'\<lparr>fw_events := record_block now (str_or ip ''unknown'') mode path (fw_events fw')\<rparr>
                     in (if mode = ''monitor'' then Forward else Forbidden, fw''))"

section \<open>The memoised matcher as an interface\<close>

text \<open>
  What the middleware and the handlers rely on: a query answered through a cache. The answer
  is that of a cache-free specification and the cache stays coherent, so any number of queries
  in any order sees the specification.
\<close>

locale memo_query =
  fixes query :: "'c \<Rightarrow> 'k \<Rightarrow> 'p \<Rightarrow> bool \<times> 'c"
    and coherent :: "'c \<Rightarrow> bool"
    and spec :: "'k \<Rightarrow> 'p \<Rightarrow> bool"
  assumes answer: "coherent c \<Longrightarrow> fst (query c k p) = spec k p"
    and coherent_query: "coherent c \<Longrightarrow> coherent (snd (query c k p))"
begin

fun answers :: "'c \<Rightarrow> ('k \<times> 'p) list \<Rightarrow> bool list" where
  "answers c [] = []"
| "answers c ((k, p) # qs) = fst (query c k p) # answers (snd (query c k p)) qs"

lemma answers_spec: "coherent c \<Longrightarrow> answers c qs = map (\<lambda>(k, p). spec k p) qs"
  by (induction c qs rule: answers.induct) (auto simp: answer coherent_query)

lemma answer_pair: "coherent c \<Longrightarrow> query c k p = (b, c') \<Longrightarrow> b = spec k p \<and> coherent c'"
  using answer [of c k p] coherent_query [of c k p] by simp

end

interpretation allowlist: memo_query matches cache_ok "\<lambda>ip items. matching_rule ip items \<noteq> None"
  by unfold_locales (simp_all only: matches_iff_rule cache_ok_matches)

section \<open>Laws of the handlers and the middleware\<close>

lemma current_mode_off: "break_glass_active e \<Longrightarrow> current_mode e now ts st = (''off'', st)"
  by (simp add: current_mode_def)

lemma load_Object:
  "load_config e ts (Object c) (Object c) = (fst (load_config e ts (Object c) (Object c)), Object c)"
  by (simp add: load_config_def Let_def)

lemma load_sane:
  assumes "c_mode c = Some m" "m \<in> set MODES" "c_rules c = Some (Rules its)"
  shows "load_config e ts (Object c) (Object c) = (c, Object c)"
  using assms by (simp add: load_config_def with_defaults_def Let_def)

lemma update_config_Inr:
  assumes "update_config now ts subject caller payload fw = (Inr cfg, fw')"
  obtains rules where
    "normalize_rules (ci_mode payload) (Some subject) ts (map model_dump (ci_rules payload)) = Inr rules"
    "cfg = update_mutator now (ci_mode payload) rules (previous_policy (fw_file fw))"
    "fw_file fw' = Object cfg" "fw_cache fw' = reset_cache"
    "ci_mode payload = ''enforce'' \<Longrightarrow> fst (matches (fw_cache fw) caller (map Rule rules))"
  using assms
  by (auto simp: update_config_def mutate_config_def previous_policy_def Let_def
      split: sum.splits if_splits option.splits prod.splits stored.splits)

lemma update_mutator_sel [simp]:
  "c_mode (update_mutator now mode rules c) = Some mode"
  "c_rules (update_mutator now mode rules c) = Some (Rules (map Rule rules))"
  "rules_of (update_mutator now mode rules c) = map Rule rules"
  by (simp_all add: update_mutator_def rules_of_def)

lemma ip_allowlist_admits:
  assumes "cache_ok (fw_cache fw)" "fw_file fw = Object c"
    and "c_mode c = Some m" "m \<in> set MODES" "c_rules c = Some (Rules its)"
    and "matching_rule (client_ip s rq) its \<noteq> None"
  shows "fst (ip_allowlist e s now ts kind path rq fw) = Forward"
proof -
  have "rules_of c = its" using assms(5) by (simp add: rules_of_def)
  then have "fst (matches (fw_cache fw) (client_ip s rq) (rules_of c))"
    using allowlist.answer [OF assms(1)] assms(6) by blast
  then show ?thesis
    by (auto simp: ip_allowlist_def current_mode_def assms(2) load_sane [OF assms(3-5)] Let_def
        split: prod.splits)
qed

lemma load_effective:
  "effective_mode e now (fst (load_config e ts (Object c) (Object c))) = effective_mode e now c"
  "rules_of (fst (load_config e ts (Object c) (Object c))) = rules_of c"
  by (auto simp: load_config_def with_defaults_def effective_mode_def rules_of_def lapsed_def MODES_def
      Let_def split: option.splits rules_value.splits)

lemma ip_allowlist_Forbidden:
  assumes "cache_ok (fw_cache fw)" "fw_file fw = Object c"
  shows "fst (ip_allowlist e s now ts kind path rq fw) = Forbidden \<longleftrightarrow>
    kind = ''http'' \<and> path \<notin> set EXEMPT_PATHS \<and> \<not> break_glass_active e \<and>
    effective_mode e now c = ''enforce'' \<and> matching_rule (client_ip s rq) (rules_of c) = None"
proof -
  obtain c' where c': "load_config e ts (Object c) (Object c) = (c', Object c)"
      "effective_mode e now c' = effective_mode e now c" "rules_of c' = rules_of c"
    using load_Object load_effective by metis
  obtain ok cache' where m: "matches (fw_cache fw) (client_ip s rq) (rules_of c) = (ok, cache')"
    by fastforce
  have ok: "ok \<longleftrightarrow> matching_rule (client_ip s rq) (rules_of c) \<noteq> None"
    using allowlist.answer_pair [OF assms(1) m] by blast
  show ?thesis
  proof (cases "kind = ''http'' \<and> path \<notin> set EXEMPT_PATHS \<and> \<not> break_glass_active e")
    case False
    then have "fst (ip_allowlist e s now ts kind path rq fw) = Forward"
      by (auto simp add: ip_allowlist_def current_mode_off)
    with False show ?thesis by auto
  next
    case True
    then have "current_mode e now ts (fw_file fw) = (effective_mode e now c, Object c)"
      by (simp add: current_mode_def assms(2) c')
    with True m c' have "fst (ip_allowlist e s now ts kind path rq fw) =
        (if effective_mode e now c = ''off'' \<or> ok \<or> effective_mode e now c = ''monitor''
         then Forward else Forbidden)"
      by (simp add: ip_allowlist_def Let_def)
    moreover have "effective_mode e now c \<in> {''off'', ''monitor'', ''enforce''}"
      by (simp add: effective_mode_def MODES_def Let_def)
    ultimately show ?thesis using True ok by auto
  qed
qed

section \<open>Laws of the event buffer\<close>

definition pending_hits :: "events \<Rightarrow> nat" where
  "pending_hits ev = sum_list (map (\<lambda>(k, p). pe_hits p) (ev_pending ev))"

definition table_hits :: "block_event list \<Rightarrow> nat" where
  "table_hits rows = sum_list (map be_hits rows)"

definition events_ok :: "events \<Rightarrow> bool" where
  "events_ok ev \<longleftrightarrow> distinct (map fst (ev_pending ev)) \<and> length (ev_pending ev) \<le> MAX_TRACKED_IPS"

lemma update_hits_new:
  "map_of ps k = None \<Longrightarrow> AList.update k p ps = ps @ [(k, p)]"
  by (induction ps) (auto split: if_splits)

lemma update_hits_old:
  "map_of ps k = Some q \<Longrightarrow>
   sum_list (map (\<lambda>(k, p). pe_hits p) (AList.update k p ps)) + pe_hits q =
   sum_list (map (\<lambda>(k, p). pe_hits p) ps) + pe_hits p \<and>
   map fst (AList.update k p ps) = map fst ps"
  by (induction ps) (auto split: if_splits)

lemma record_block_cases:
  obtains (dropped) "map_of (ev_pending ev) (ip, mode) = None" "MAX_TRACKED_IPS \<le> length (ev_pending ev)"
      "record_block now ip mode path ev = ev\<lparr>ev_dropped := ev_dropped ev + 1\<rparr>"
  | (fresh) p where "map_of (ev_pending ev) (ip, mode) = None" "length (ev_pending ev) < MAX_TRACKED_IPS"
      "record_block now ip mode path ev = ev\<lparr>ev_pending := ev_pending ev @ [((ip, mode), p)]\<rparr>"
      "pe_hits p = 1"
  | (again) q p where "map_of (ev_pending ev) (ip, mode) = Some q" "pe_hits p = Suc (pe_hits q)"
      "record_block now ip mode path ev = ev\<lparr>ev_pending := AList.update (ip, mode) p (ev_pending ev)\<rparr>"
proof (cases "map_of (ev_pending ev) (ip, mode)")
  case None
  then show ?thesis
    using dropped fresh by (cases "MAX_TRACKED_IPS \<le> length (ev_pending ev)")
      (simp_all add: record_block_def update_hits_new bump_pending_def)
next
  case (Some q)
  show ?thesis by (rule again [OF Some, of "bump_pending now path q"])
      (simp_all add: record_block_def Some bump_pending_def)
qed

lemma record_block_counts:
  "pending_hits (record_block now ip mode path ev) + ev_dropped (record_block now ip mode path ev) =
   Suc (pending_hits ev + ev_dropped ev)"
proof (cases rule: record_block_cases [of ev ip mode now path])
  case (again q p)
  with update_hits_old [OF again(1), of p] show ?thesis by (simp add: pending_hits_def)
qed (simp_all add: pending_hits_def)

lemma record_block_ok [keeps]:
  assumes "events_ok ev"
  shows "events_ok (record_block now ip mode path ev)"
proof (cases rule: record_block_cases [of ev ip mode now path])
  case (fresh p)
  from fresh(1) have "(ip, mode) \<notin> fst ` set (ev_pending ev)"
    by (simp add: map_of_eq_None_iff)
  with assms fresh show ?thesis by (simp add: events_ok_def)
next
  case (again q p)
  with update_hits_old [OF again(1), of p] assms show ?thesis
    by (simp add: events_ok_def) (metis length_map)
qed (use assms in \<open>simp_all add: events_ok_def\<close>)

lemma upsert_event_hits: "table_hits (upsert_event n k p rows) = table_hits rows + pe_hits p"
  by (induction n k p rows rule: upsert_event.induct) (auto simp: table_hits_def)

lemma flush_batch_hits:
  "table_hits (flush_batch b rows) = table_hits rows + sum_list (map (\<lambda>(k, p). pe_hits p) b)"
  by (induction b rows rule: flush_batch.induct) (auto simp: upsert_event_hits)

lemma newest_ids_card: "length (newest_ids n rows) = min n (length rows)"
  by (simp add: newest_ids_def)

lemma filter_ids_length:
  assumes "distinct (map be_id rows)"
  shows "length (filter (\<lambda>r. be_id r \<in> set (newest_ids n rows)) rows) = min n (length rows)"
proof -
  let ?keep = "filter (\<lambda>r. be_id r \<in> set (newest_ids n rows)) rows"
  have "distinct (map be_id (rev (sort_key be_last rows)))"
    using assms by (simp add: distinct_map rev_map [symmetric])
  then have "distinct (newest_ids n rows)"
    unfolding newest_ids_def take_map [symmetric] by (rule distinct_take)
  then have "card (set (newest_ids n rows)) = min n (length rows)"
    by (simp add: distinct_card newest_ids_card)
  moreover have "set (take n (rev (sort_key be_last rows))) \<subseteq> set rows"
    by (metis set_take_subset set_rev set_sort)
  then have "set (map be_id ?keep) = set (newest_ids n rows)"
    by (auto simp: newest_ids_def)
  moreover have "distinct (map be_id ?keep)"
    using assms by (rule distinct_map_filter)
  ultimately show ?thesis by (metis distinct_card length_map)
qed

section \<open>Properties\<close>

text \<open>
  C1. No self-lockout. When the handler accepts an enforcing policy, every later request the
  same caller address makes is forwarded by the middleware, whatever the path, the time and
  the state of the compiled cache.
\<close>

theorem update_config_no_self_lockout:
  assumes "update_config now ts subject caller payload fw = (Inr cfg, fw')"
    and "ci_mode payload = ''enforce''" "cache_ok (fw_cache fw)" "client_ip s rq = caller"
  shows "fst (ip_allowlist e s later ts' kind path rq fw') = Forward"
proof -
  from assms(1) obtain rules where u: "fw_file fw' = Object cfg" "fw_cache fw' = reset_cache"
      "cfg = update_mutator now ''enforce'' rules (previous_policy (fw_file fw))"
      "fst (matches (fw_cache fw) caller (map Rule rules))"
    by (rule update_config_Inr) (use assms(2) in auto)
  then have "matching_rule (client_ip s rq) (map Rule rules) \<noteq> None"
    using allowlist.answer [OF assms(3)] assms(4) by blast
  with u show ?thesis
    by (intro ip_allowlist_admits) (auto simp: MODES_def)
qed

definition example_firewall :: firewall where
  "example_firewall = \<lparr>fw_file = NoFile, fw_cache = reset_cache, fw_events = reset_events, fw_audit = []\<rparr>"

definition example_payload :: config_in where
  "example_payload = \<lparr>ci_mode = ''enforce'',
     ci_rules = [\<lparr>in_cidr = ''198.51.100.7/24'', in_label = ''office'', in_enabled = True\<rparr>], ci_import = None\<rparr>"

definition example_request :: request where
  "example_request = \<lparr>rq_peer = Some ''10.0.0.4'', rq_xff = Some ''203.0.113.77, 198.51.100.20''\<rparr>"

definition example_settings :: settings where
  "example_settings = \<lparr>trust_forwarded_headers = True, trusted_proxies = None\<rparr>"

definition example_env :: env where
  "example_env = \<lparr>SEED_ENV = None, SEED_MODE_ENV = None, BREAK_GLASS_ENV = None\<rparr>"

definition example_update :: "(http_error, config) result \<times> firewall" where
  "example_update = update_config 0 ''now'' ''alice'' (Some ''198.51.100.20'') example_payload example_firewall"

lemma example_update_ok: "\<exists>cfg. fst example_update = Inr cfg"
proof -
  have "(case fst example_update of Inl _ \<Rightarrow> False | Inr _ \<Rightarrow> True)" by code_simp
  then show ?thesis by (cases "fst example_update") auto
qed

lemma example_client: "client_ip example_settings example_request = Some ''198.51.100.20''"
  by code_simp

theorem update_config_no_self_lockout_witness:
  "\<exists>cfg fw'. example_update = (Inr cfg, fw') \<and>
     fst (ip_allowlist example_env example_settings 5 ''t'' ''http'' ''/api/auth/login'' example_request fw') = Forward"
proof -
  obtain cfg fw' where u: "example_update = (Inr cfg, fw')"
    using example_update_ok by (metis prod.collapse)
  then have "fst (ip_allowlist example_env example_settings 5 ''t'' ''http'' ''/api/auth/login''
      example_request fw') = Forward"
    by (intro update_config_no_self_lockout [of 0 "''now''" "''alice''" "Some ''198.51.100.20''"
          example_payload example_firewall cfg fw'])
      (simp_all add: example_update_def example_client, simp_all add: example_payload_def example_firewall_def)
  with u show ?thesis by blast
qed

text \<open>
  Lemma. Exact refusal condition. A request is answered 403 precisely when it is an HTTP request
  for a path that is not exempt, break-glass is off, the policy effectively enforces, and the
  linear scan finds no enabled rule for the resolved address; the compiled table and its
  cache never change that decision.
\<close>

lemma ip_allowlist_forbidden_iff:
  assumes "cache_ok (fw_cache fw)" "fw_file fw = Object c"
  shows "fst (ip_allowlist e s now ts kind path rq fw) = Forbidden \<longleftrightarrow>
    kind = ''http'' \<and> path \<notin> set EXEMPT_PATHS \<and> \<not> break_glass_active e \<and>
    effective_mode e now c = ''enforce'' \<and> matching_rule (client_ip s rq) (rules_of c) = None"
  using assms by (rule ip_allowlist_Forbidden)

definition example_policy :: config where
  "example_policy = \<lparr>c_mode = Some ''enforce'', c_rules = Some (Rules []), c_confirm = None\<rparr>"

lemma ip_allowlist_forbidden_iff_witness:
  "fst (ip_allowlist example_env example_settings 5 ''t'' ''http'' ''/'' example_request
     (example_firewall\<lparr>fw_file := Object example_policy\<rparr>)) = Forbidden"
proof -
  have "cache_ok (fw_cache (example_firewall\<lparr>fw_file := Object example_policy\<rparr>))"
    by (simp add: example_firewall_def)
  moreover have "\<not> break_glass_active example_env" "effective_mode example_env 5 example_policy = ''enforce''"
    by code_simp+
  moreover have "matching_rule (client_ip example_settings example_request) (rules_of example_policy) = None"
    by (simp add: example_client rules_of_def example_policy_def matching_rule_def split: option.split)
  ultimately show ?thesis
    by (subst ip_allowlist_forbidden_iff [where c = example_policy]) (simp_all add: EXEMPT_PATHS_def)
qed

text \<open>
  C3. Commit-confirm. Switching into enforcement is provisional: if nobody confirms, then from
  fifteen minutes after the save the middleware refuses no request at all, with no
  background job involved.
\<close>

theorem unconfirmed_enforcement_lapses:
  assumes "update_config now ts subject caller payload fw = (Inr cfg, fw')"
    and "c_mode (previous_policy (fw_file fw)) \<noteq> Some ''enforce''"
    and "now + 15 * 60 * 1000000 \<le> later"
  shows "fst (ip_allowlist e s later ts' kind path rq fw') = Forward"
proof -
  from assms(1) obtain rules where u: "fw_file fw' = Object cfg" "fw_cache fw' = reset_cache"
      "cfg = update_mutator now (ci_mode payload) rules (previous_policy (fw_file fw))"
    by (rule update_config_Inr) auto
  have "effective_mode e later cfg \<noteq> ''enforce''"
    using assms(2,3) unfolding u(3)
    by (auto simp: effective_mode_def update_mutator_def lapsed_def confirm_deadline_def
        CONFIRM_WINDOW_MINUTES_def Let_def split: if_splits)
  then have "fst (ip_allowlist e s later ts' kind path rq fw') \<noteq> Forbidden"
    using ip_allowlist_Forbidden [of fw' cfg] u by auto
  then show ?thesis by (cases "fst (ip_allowlist e s later ts' kind path rq fw')") auto
qed

theorem unconfirmed_enforcement_lapses_witness:
  "\<exists>cfg fw'. example_update = (Inr cfg, fw') \<and>
     fst (ip_allowlist example_env example_settings 900000000 ''t'' ''http'' ''/'' \<lparr>rq_peer = None, rq_xff = None\<rparr> fw')
       = Forward"
proof -
  obtain cfg fw' where u: "example_update = (Inr cfg, fw')"
    using example_update_ok by (metis prod.collapse)
  have "c_mode (previous_policy (fw_file example_firewall)) \<noteq> Some ''enforce''"
    by (simp add: example_firewall_def previous_policy_def DEFAULTS_def)
  from unconfirmed_enforcement_lapses [OF u [unfolded example_update_def] this,
      of 900000000 example_env example_settings "''t''" "''http''" "''/''" "\<lparr>rq_peer = None, rq_xff = None\<rparr>"]
  show ?thesis using u by (intro exI [of _ cfg] exI [of _ fw'] conjI) simp_all
qed

text \<open>
  Lemma. No refused request goes uncounted, and the buffer is bounded. Each call of \<open>record\<close>
  raises buffered plus dropped hits by exactly one; a flush moves every buffered hit into the
  table; the buffer never tracks more than its cap of addresses.
\<close>

lemma block_events_conserved:
  "pending_hits (record_block now ip mode path ev) + ev_dropped (record_block now ip mode path ev) =
     Suc (pending_hits ev + ev_dropped ev) \<and>
   (let (n, ev', rows') = flush_events tick ev rows
    in table_hits rows' = table_hits rows + pending_hits ev \<and> pending_hits ev' = 0)"
proof
  show "pending_hits (record_block now ip mode path ev) + ev_dropped (record_block now ip mode path ev) =
      Suc (pending_hits ev + ev_dropped ev)"
    by (rule record_block_counts)
qed (simp add: flush_events_def flush_batch_hits pending_hits_def)

text \<open>
  Lemma. The purge bounds the table. After it the table holds at most the row cap, only rows
  inside the retention window, and the count it reports is the number of rows that went.
\<close>

lemma purge_events_bounds:
  assumes "distinct (map be_id rows)" "purge_events now rows = (removed, rows')"
  shows "length rows' \<le> MAX_ROWS \<and> removed = length rows - length rows' \<and>
    set rows' \<subseteq> {r \<in> set rows. now - 30 * 86400 * 1000000 \<le> be_last r}"
proof -
  define rows1 where "rows1 = filter (\<lambda>r. \<not> be_last r < now - RETENTION_DAYS * 86400 * 1000000) rows"
  have d: "distinct (map be_id rows1)"
    using assms(1) unfolding rows1_def by (rule distinct_map_filter)
  have l: "length rows1 \<le> length rows" by (simp add: rows1_def)
  show ?thesis
    using assms(2) filter_ids_length [OF d, of MAX_ROWS] l newest_ids_card [of MAX_ROWS rows1]
    by (auto simp: purge_events_def Let_def rows1_def [symmetric] RETENTION_DAYS_def split: if_splits)
      (auto simp: rows1_def RETENTION_DAYS_def)
qed

definition example_rows :: "block_event list" where
  "example_rows = [\<lparr>be_id = 1, be_ip = ''a'', be_mode = ''m'', be_hits = 2, be_path = [], be_first = 0, be_last = 0\<rparr>]"

lemma purge_events_bounds_witness:
  "\<exists>removed rows'. purge_events (40 * 86400 * 1000000) example_rows = (removed, rows') \<and>
     rows' = [] \<and> removed = 1"
proof -
  obtain removed rows' where p: "purge_events (40 * 86400 * 1000000) example_rows = (removed, rows')"
    by fastforce
  have "distinct (map be_id example_rows)" by (simp add: example_rows_def)
  note b = purge_events_bounds [OF this p]
  then have "rows' = []" by (cases rows') (auto simp: example_rows_def)
  with b have "rows' = []" "removed = 1" by (simp_all add: example_rows_def)
  with p show ?thesis by blast
qed

end
