(* ===== verification/Auth_Roles.thy ===== *)
theory Auth_Roles
  imports Prelude
begin

text \<open>
  Roles and permissions: the capability catalogue and the built-in roles
  (\<^verbatim>\<open>app/auth/permissions.py\<close>), the effective permissions of a user and their
  per-session downscope, role seeding and legacy-key migration
  (\<^verbatim>\<open>app/auth/service.py\<close>), the request guards (\<^verbatim>\<open>app/core/security.py\<close>)
  and the role administration handlers (\<^verbatim>\<open>app/api/users.py\<close>). Tables are lists of
  rows in storage order; display labels of permissions and roles are left out.
\<close>

section \<open>The catalogue\<close>

definition PERMISSION_GROUPS :: "(string \<times> string list) list" where
  "PERMISSION_GROUPS = [
        (''Agent'', [''chat.use'']),
        (''Automation'', [''agents.read'', ''agents.write'', ''tasks.read'', ''tasks.write'',
       ''tasks.run'', ''workbooks.read'', ''workbooks.write'', ''playbooks.read'',
       ''playbooks.write'', ''insights.read'', ''insights.write'', ''insights.run'',
       ''notifications.read'', ''notifications.manage'']),
        (''Workloads & design'', [''workloads.read'', ''workloads.write'',
       ''architectures.read'', ''architectures.write'', ''missions.read'', ''missions.run'']),
        (''Ownership'', [''ownership.read'', ''ownership.write'']),
        (''Estate insight'', [''inventory.read'', ''cost.read'', ''graph.read'',
       ''changeexplorer.read'', ''reservations.read'', ''perfprofile.read'', ''radar.read'',
       ''radar.manage'', ''quota.read'', ''quota.run'']),
        (''Tagging'', [''tagintel.read'', ''tagintel.write'']),
        (''Governance & compliance'', [''assessments.read'', ''assessments.run'',
       ''policy.read'', ''policy.write'', ''iam.read'', ''iam.write'', ''iam.review'',
       ''iam.simulate'', ''identity.read'', ''entra.read'', ''entra.admin'', ''evidence.read'',
       ''evidence.write'']),
        (''Incident response'', [''cases.read'', ''cases.write'', ''investigate.read'',
       ''investigate.activity'']),
        (''Observability'', [''monitor.view'', ''coverage.read'', ''coverage.manage'',
       ''alert_analysis.read'', ''alert_analysis.manage'', ''alerts_manager.read'',
       ''alerts_manager.alert_state_write'', ''alerts_manager.action_group_write'',
       ''alerts_manager.rule_write'', ''alerts_manager.advanced_rule_write'',
       ''alerts_manager.bulk_write'', ''alerts_manager.amba_blueprint_write'',
       ''alerts_manager.query_preview'', ''alerts_manager.test_notifications'',
       ''alerts_manager.delete'', ''alerts_manager.approve'', ''backup_manager.read'',
       ''backup_manager.protect_write'', ''backup_manager.policy_write'',
       ''backup_manager.vault_write'', ''backup_manager.ondemand'',
       ''backup_manager.drill_write'', ''backup_manager.reference_write'',
       ''backup_manager.approve'', ''resiliency.read'', ''resiliency.admin'',
       ''teleintel.read'']),
        (''Live diagnostics'', [''sandbox.exec'', ''netdiag.run'']),
        (''Integrations'', [''connections.read'', ''connections.manage'',
       ''connectors.manage'']),
        (''Administration'', [''settings.read'', ''settings.write'', ''users.manage'',
       ''audit.read'', ''firewall.read'', ''firewall.manage'', ''backup.manage'',
       ''demo.manage''])]"

definition ALL_PERMISSIONS :: "string list" where
  "ALL_PERMISSIONS = concat (map snd PERMISSION_GROUPS)"

definition PERMISSION_ALIASES :: "(string \<times> string) list" where
  "PERMISSION_ALIASES = [(''rbac.read'', ''iam.read'')]"

text \<open>\<open>LEGACY_KEYS_FOR\<close>: current key to the legacy keys that still satisfy it.\<close>

definition LEGACY_KEYS_FOR :: "string \<Rightarrow> string list" where
  "LEGACY_KEYS_FOR key = map fst (filter (\<lambda>(old, new). new = key) PERMISSION_ALIASES)"

definition canonical_permission :: "string \<Rightarrow> string" where
  "canonical_permission key = (case map_of PERMISSION_ALIASES key of None \<Rightarrow> key | Some k \<Rightarrow> k)"

definition accepted_permission_keys :: "string \<Rightarrow> string list" where
  "accepted_permission_keys key = key # LEGACY_KEYS_FOR key"

definition READ_PERMISSIONS :: "string list" where
  "READ_PERMISSIONS = filter (\<lambda>p. ends_with p ''.read'') ALL_PERMISSIONS"

definition ADMIN_ONLY :: "string list" where
  "ADMIN_ONLY = [''settings.write'', ''users.manage'', ''audit.read'', ''firewall.manage'',
     ''backup.manage'', ''demo.manage'']"

definition OPERATOR_PERMISSIONS :: "string list" where
  "OPERATOR_PERMISSIONS = filter (\<lambda>p. p \<notin> set ADMIN_ONLY) ALL_PERMISSIONS"

text \<open>\<open>list(dict.fromkeys(xs))\<close>: first occurrences, in order.\<close>

fun from_keys :: "'a list \<Rightarrow> 'a list" where
  "from_keys [] = []"
| "from_keys (x # xs) = x # filter (\<lambda>y. y \<noteq> x) (from_keys xs)"

definition AUDITOR_PERMISSIONS :: "string list" where
  "AUDITOR_PERMISSIONS = from_keys
     ([''chat.use'', ''monitor.view'', ''audit.read'', ''investigate.activity''] @ READ_PERMISSIONS)"

definition USER_PERMISSIONS :: "string list" where
  "USER_PERMISSIONS = [''chat.use'', ''ownership.read'', ''workloads.read'', ''architectures.read'']"

definition SYSTEM_ROLES :: "(string \<times> string list) list" where
  "SYSTEM_ROLES = [(''admin'', ALL_PERMISSIONS), (''operator'', OPERATOR_PERMISSIONS),
     (''auditor'', AUDITOR_PERMISSIONS), (''user'', USER_PERMISSIONS), (''noaccess'', [])]"

definition SYSTEM_ROLE_NAMES :: "string list" where
  "SYSTEM_ROLE_NAMES = map fst SYSTEM_ROLES"

definition role_rank :: "string \<Rightarrow> int" where
  "role_rank name = (case map_of [(''noaccess'', -1), (''user'', 0), (''auditor'', 1),
     (''operator'', 2), (''admin'', 3)] name of None \<Rightarrow> 0 | Some r \<Rightarrow> r)"

section \<open>The tables\<close>

record role =
  ro_id :: string
  ro_tenant :: string
  ro_name :: string
  ro_system :: bool
  ro_perms :: "string list"

record group =
  gr_id :: string
  gr_tenant :: string
  gr_name :: string
  gr_roles :: "string list"

record directory =
  di_roles :: "role list"
  di_groups :: "group list"
  di_user_roles :: "(string \<times> string) list"
  di_user_groups :: "(string \<times> string) list"

section \<open>Seeding and migration\<close>

definition rewrite_keys :: "string list \<Rightarrow> string list" where
  "rewrite_keys perms = from_keys (map canonical_permission perms)"

definition has_legacy :: "string list \<Rightarrow> bool" where
  "has_legacy perms \<longleftrightarrow> list_ex (\<lambda>p. p \<in> fst ` set PERMISSION_ALIASES) perms"

definition migrate_role :: "role \<Rightarrow> role" where
  "migrate_role r = (if has_legacy (ro_perms r) then r\<lparr>ro_perms := rewrite_keys (ro_perms r)\<rparr> else r)"

text \<open>\<open>migrate_legacy_permissions\<close>: the number of roles changed and the roles.\<close>

definition migrate_legacy_permissions :: "role list \<Rightarrow> nat \<times> role list" where
  "migrate_legacy_permissions rs =
     (length (filter (\<lambda>r. has_legacy (ro_perms r) \<and> rewrite_keys (ro_perms r) \<noteq> ro_perms r) rs),
      map migrate_role rs)"

definition is_builtin :: "string \<Rightarrow> role \<Rightarrow> bool" where
  "is_builtin name r \<longleftrightarrow> ro_system r \<and> ro_tenant r = ''default'' \<and> ro_name r = name"

text \<open>
  \<open>seed_system_roles\<close>: existing built-in roles take their permissions from code, missing ones are
  created (\<open>fresh\<close> draws a new id), then the roles that existed are healed. Only roles loaded
  at the start are migrated; a new role carries current keys.
\<close>

definition sync_role :: "role \<Rightarrow> role" where
  "sync_role r = (if ro_system r \<and> ro_tenant r = ''default''
     then (case map_of SYSTEM_ROLES (ro_name r) of None \<Rightarrow> r | Some ps \<Rightarrow> r\<lparr>ro_perms := ps\<rparr>) else r)"

definition missing_roles :: "(string \<Rightarrow> string) \<Rightarrow> role list \<Rightarrow> role list" where
  "missing_roles fresh rs = map (\<lambda>(name, ps). \<lparr>ro_id = fresh name, ro_tenant = ''default'', ro_name = name,
       ro_system = True, ro_perms = ps\<rparr>)
     (filter (\<lambda>(name, ps). \<not> list_ex (is_builtin name) rs) SYSTEM_ROLES)"

definition seed_system_roles :: "(string \<Rightarrow> string) \<Rightarrow> role list \<Rightarrow> role list" where
  "seed_system_roles fresh rs = snd (migrate_legacy_permissions (map sync_role rs)) @ missing_roles fresh rs"

section \<open>Effective permissions\<close>

record user =
  us_id :: string
  us_tenant :: string
  us_default_role :: "string option"

definition visible_role :: "string \<Rightarrow> role \<Rightarrow> bool" where
  "visible_role tenant r \<longleftrightarrow> (ro_system r \<and> ro_tenant r = ''default'') \<or> ro_tenant r = tenant"

definition rows_for :: "'k \<Rightarrow> ('k \<times> 'v) list \<Rightarrow> 'v list" where
  "rows_for k t = map snd (filter (\<lambda>e. fst e = k) t)"

definition held_role_ids :: "directory \<Rightarrow> 'a user_scheme \<Rightarrow> string set" where
  "held_role_ids d u =
     set (rows_for (us_id u) (di_user_roles d)) \<union>
     \<Union> (set ` gr_roles ` set (filter (\<lambda>g. gr_id g \<in> set (rows_for (us_id u) (di_user_groups d)) \<and>
        gr_tenant g = us_tenant u) (di_groups d)))"

definition held_roles :: "directory \<Rightarrow> 'a user_scheme \<Rightarrow> role list" where
  "held_roles d u = filter (\<lambda>r. ro_id r \<in> held_role_ids d u \<and> visible_role (us_tenant u) r) (di_roles d)"

definition effective :: "directory \<Rightarrow> 'a user_scheme \<Rightarrow> string set \<times> string list" where
  "effective d u =
     (if held_role_ids d u = {} then ({}, [])
      else (\<Union> (set ` ro_perms ` set (held_roles d u)), map ro_name (held_roles d u)))"

text \<open>\<open>max(role_names, key=role_rank)\<close>: the first of the highest rank.\<close>

fun best_role :: "string \<Rightarrow> string list \<Rightarrow> string" where
  "best_role best [] = best"
| "best_role best (n # ns) = best_role (if role_rank best < role_rank n then n else best) ns"

definition primary_role :: "string list \<Rightarrow> string" where
  "primary_role names = (case names of [] \<Rightarrow> ''user'' | n # ns \<Rightarrow> best_role n ns)"

definition effective_scoped ::
  "directory \<Rightarrow> 'a user_scheme \<Rightarrow> string option \<Rightarrow> string set \<times> string list \<times> string" where
  "effective_scoped d u active =
     (let (perms_all, names) = effective d u in
      if names = [] then ({}, [], ''noaccess'')
      else let want = py_strip (str_or active []) in
        if want \<noteq> [] \<and> want \<in> set names
        then ((case find (\<lambda>r. ro_name r = want \<and> visible_role (us_tenant u) r) (di_roles d) of
                 None \<Rightarrow> {} | Some r \<Rightarrow> set (ro_perms r)), names, want)
        else let default = py_strip (str_or (us_default_role u) []) in
          (perms_all, names, if default \<in> set names then default else primary_role names))"

section \<open>Request guards\<close>

record principal =
  pr_role :: string
  pr_permissions :: "string set"
  pr_must_change :: bool
  pr_assigned :: "string list"

definition is_admin :: "principal \<Rightarrow> bool" where
  "is_admin p \<longleftrightarrow> pr_role p = ''admin'' \<or> ''users.manage'' \<in> pr_permissions p"

definition PASSWORD_CHANGE_ALLOWLIST :: "string list" where
  "PASSWORD_CHANGE_ALLOWLIST = [''/api/auth/change-password'', ''/api/auth/me'', ''/api/auth/logout'', ''/api/me'']"

definition NO_ACCESS_ALLOWLIST :: "string list" where
  "NO_ACCESS_ALLOWLIST = [''/api/me'', ''/api/auth/me'', ''/api/auth/logout'', ''/api/auth/config'',
     ''/api/auth/active-role'', ''/api/auth/profile'']"

datatype guard_error = NotAuthenticated | SessionExpired | PasswordChangeRequired | NoAccess | MissingPermission

text \<open>The two walls of \<open>get_principal\<close>, for a principal already resolved.\<close>

definition admit :: "principal \<Rightarrow> string \<Rightarrow> (guard_error, principal) result" where
  "admit p path =
     (if pr_must_change p \<and> path \<notin> set PASSWORD_CHANGE_ALLOWLIST then Inl PasswordChangeRequired
      else if pr_permissions p = {} \<and> \<not> is_admin p \<and> path \<notin> set NO_ACCESS_ALLOWLIST then Inl NoAccess
      else Inr p)"

definition require_permission :: "string \<Rightarrow> principal \<Rightarrow> (guard_error, principal) result" where
  "require_permission perm p =
     (if is_admin p \<or> list_ex (\<lambda>k. k \<in> pr_permissions p) (accepted_permission_keys perm)
      then Inr p else Inl MissingPermission)"

section \<open>Role administration\<close>

datatype role_error = Reserved | Exists | RoleNotFound | SystemRole

definition create_role ::
  "string \<Rightarrow> string \<Rightarrow> string \<Rightarrow> string list \<Rightarrow> directory \<Rightarrow> (role_error, role) result \<times> directory" where
  "create_role fresh tenant raw perms d =
     (let name = py_strip raw in
      if name \<in> set SYSTEM_ROLE_NAMES then (Inl Reserved, d)
      else if list_ex (\<lambda>r. ro_name r = name \<and> ro_tenant r = tenant) (di_roles d) then (Inl Exists, d)
      else let r = \<lparr>ro_id = fresh, ro_tenant = tenant, ro_name = name, ro_system = False,
             ro_perms = filter (\<lambda>p. p \<in> set ALL_PERMISSIONS) perms\<rparr>
           in (Inr r, d\<lparr>di_roles := di_roles d @ [r]\<rparr>))"

definition update_role ::
  "string \<Rightarrow> string \<Rightarrow> string \<Rightarrow> string list \<Rightarrow> directory \<Rightarrow> (role_error, role) result \<times> directory" where
  "update_role tenant rid raw perms d =
     (case find (\<lambda>r. ro_id r = rid \<and> visible_role tenant r) (di_roles d) of
        None \<Rightarrow> (Inl RoleNotFound, d)
      | Some role \<Rightarrow>
          (if ro_system role then (Inl SystemRole, d)
           else let name = py_strip raw in
             if name \<in> set SYSTEM_ROLE_NAMES then (Inl Reserved, d)
             else if list_ex (\<lambda>r. ro_tenant r = tenant \<and> ro_name r = name \<and> ro_id r \<noteq> ro_id role) (di_roles d)
             then (Inl Exists, d)
             else let r' = role\<lparr>ro_name := name, ro_perms := filter (\<lambda>p. p \<in> set ALL_PERMISSIONS) perms\<rparr>
                  in (Inr r', d\<lparr>di_roles := map (\<lambda>r. if ro_id r = rid then r' else r) (di_roles d)\<rparr>)))"

definition delete_role :: "string \<Rightarrow> string \<Rightarrow> directory \<Rightarrow> (role_error, unit) result \<times> directory" where
  "delete_role tenant rid d =
     (case find (\<lambda>r. ro_id r = rid \<and> visible_role tenant r) (di_roles d) of
        None \<Rightarrow> (Inl RoleNotFound, d)
      | Some role \<Rightarrow>
          (if ro_system role then (Inl SystemRole, d)
           else (Inr (), d\<lparr>di_user_roles := filter (\<lambda>e. snd e \<noteq> rid) (di_user_roles d),
                   di_groups := map (\<lambda>g. if gr_tenant g = tenant
                     then g\<lparr>gr_roles := filter (\<lambda>x. x \<noteq> rid) (gr_roles g)\<rparr> else g) (di_groups d),
                   di_roles := filter (\<lambda>r. ro_id r \<noteq> rid) (di_roles d)\<rparr>)))"

section \<open>Assignment\<close>

text \<open>\<open>set_user_roles\<close> and \<open>set_user_groups\<close>: the old rows go, one row per distinct id comes.\<close>

definition set_rows :: "'k \<Rightarrow> 'v list \<Rightarrow> ('k \<times> 'v) list \<Rightarrow> ('k \<times> 'v) list" where
  "set_rows k vs t = filter (\<lambda>e. fst e \<noteq> k) t @ map (\<lambda>v. (k, v)) (from_keys vs)"

definition set_user_roles :: "string \<Rightarrow> string list \<Rightarrow> directory \<Rightarrow> directory" where
  "set_user_roles uid rids d = d\<lparr>di_user_roles := set_rows uid rids (di_user_roles d)\<rparr>"

definition set_user_groups :: "string \<Rightarrow> string list \<Rightarrow> directory \<Rightarrow> directory" where
  "set_user_groups uid gids d = d\<lparr>di_user_groups := set_rows uid gids (di_user_groups d)\<rparr>"

section \<open>Laws\<close>

lemma set_from_keys [simp]: "set (from_keys xs) = set xs"
  by (induction xs) auto

lemma distinct_from_keys [simp]: "distinct (from_keys xs)"
  by (induction xs) auto

lemma rows_for_set_rows: "rows_for k (set_rows k' vs t) = (if k = k' then from_keys vs else rows_for k t)"
proof (cases "k = k'")
  case True
  then show ?thesis by (simp add: rows_for_def set_rows_def filter_map o_def)
next
  case False
  then have "filter (\<lambda>x. fst x \<noteq> k' \<and> fst x = k) t = filter (\<lambda>e. fst e = k) t"
    by (intro filter_cong) auto
  with False show ?thesis by (simp add: rows_for_def set_rows_def filter_map o_def)
qed

text \<open>A builtin name marks a builtin role of the default tenant and nothing else; ids and names are unique.\<close>

definition role_ok :: "role \<Rightarrow> bool" where
  "role_ok r \<longleftrightarrow> ro_system r = (ro_name r \<in> set SYSTEM_ROLE_NAMES) \<and> (ro_system r \<longrightarrow> ro_tenant r = ''default'')"

definition roles_ok :: "role list \<Rightarrow> bool" where
  "roles_ok rs \<longleftrightarrow> distinct (map ro_id rs) \<and> distinct (map (\<lambda>r. (ro_tenant r, ro_name r)) rs) \<and>
     (\<forall>r\<in>set rs. role_ok r)"

lemma visible_name_unique:
  assumes "roles_ok rs" "r \<in> set rs" "r' \<in> set rs" "visible_role t r" "visible_role t r'"
    and "ro_name r = ro_name r'"
  shows "r = r'"
proof -
  have "role_ok r" "role_ok r'" using assms by (auto simp: roles_ok_def)
  then have "ro_tenant r = ro_tenant r'"
    using assms(4-6) by (auto simp: role_ok_def visible_role_def)
  with assms show ?thesis
    by (auto simp: roles_ok_def distinct_map inj_on_def)
qed

lemma held_role_visible: "r \<in> set (held_roles d u) \<Longrightarrow> r \<in> set (di_roles d) \<and> visible_role (us_tenant u) r"
  by (simp add: held_roles_def)

lemma downscope:
  assumes "roles_ok (di_roles d)"
  shows "fst (effective_scoped d u active) \<subseteq> fst (effective d u)"
proof (cases "effective d u")
  case (Pair perms names)
  have H: "set (ro_perms r) \<subseteq> perms"
    if "find (\<lambda>r. ro_name r = want \<and> visible_role (us_tenant u) r) (di_roles d) = Some r" "want \<in> set names" for r want
  proof -
    from that(2) Pair have "want \<in> ro_name ` set (held_roles d u)"
      by (auto simp: effective_def split: if_splits)
    then obtain h where h: "h \<in> set (held_roles d u)" "ro_name h = want"
      by auto
    from find_SomeD [OF that(1)] have "r = h"
      using visible_name_unique [OF assms] held_role_visible [OF h(1)] h(2) by auto
    with h Pair show ?thesis by (auto simp: effective_def held_roles_def split: if_splits)
  qed
  show ?thesis
    by (auto simp: effective_scoped_def Pair Let_def split: option.splits dest: H)
qed

lemma roles_ok_map:
  assumes "\<And>r. ro_id (f r) = ro_id r \<and> ro_tenant (f r) = ro_tenant r \<and> ro_name (f r) = ro_name r
    \<and> ro_system (f r) = ro_system r"
  shows "roles_ok (map f rs) = roles_ok rs"
  using assms by (simp add: roles_ok_def role_ok_def o_def)

lemma sync_role_sel [simp]:
  "ro_id (sync_role r) = ro_id r" "ro_tenant (sync_role r) = ro_tenant r"
  "ro_name (sync_role r) = ro_name r" "ro_system (sync_role r) = ro_system r"
  by (simp_all add: sync_role_def split: option.splits)

lemma migrate_role_sel [simp]:
  "ro_id (migrate_role r) = ro_id r" "ro_tenant (migrate_role r) = ro_tenant r"
  "ro_name (migrate_role r) = ro_name r" "ro_system (migrate_role r) = ro_system r"
  by (simp_all add: migrate_role_def)

lemma roles_ok_snoc:
  "roles_ok (rs @ [r]) \<longleftrightarrow> roles_ok rs \<and> role_ok r \<and> ro_id r \<notin> ro_id ` set rs \<and>
     (\<forall>r'\<in>set rs. \<not> (ro_tenant r' = ro_tenant r \<and> ro_name r' = ro_name r))"
  by (auto simp: roles_ok_def image_iff)

lemma roles_ok_filter: "roles_ok rs \<Longrightarrow> roles_ok (filter p rs)"
  by (simp add: roles_ok_def distinct_map_filter)

lemma create_role_ok [keeps]:
  assumes "roles_ok (di_roles d)" "fresh \<notin> ro_id ` set (di_roles d)"
  shows "roles_ok (di_roles (snd (create_role fresh tenant raw perms d)))"
  using assms by (auto simp: create_role_def Let_def roles_ok_snoc role_ok_def list_ex_iff)

lemma delete_role_ok [keeps]:
  "roles_ok (di_roles d) \<Longrightarrow> roles_ok (di_roles (snd (delete_role tenant rid d)))"
  by (simp add: delete_role_def roles_ok_filter split: option.split)

lemma roles_ok_replace:
  assumes "roles_ok rs" "role_ok r'" "ro_id r' = rid"
    and "\<forall>r\<in>set rs. ro_tenant r = ro_tenant r' \<and> ro_name r = ro_name r' \<longrightarrow> ro_id r = rid"
  shows "roles_ok (map (\<lambda>r. if ro_id r = rid then r' else r) rs)"
proof -
  let ?g = "\<lambda>r. if ro_id r = rid then r' else r"
  have i: "map (ro_id \<circ> ?g) rs = map ro_id rs" using assms(3) by auto
  have ids: "ro_id x = ro_id y \<Longrightarrow> x = y" and nms: "ro_tenant x = ro_tenant y \<Longrightarrow> ro_name x = ro_name y \<Longrightarrow> x = y"
    if "x \<in> set rs" "y \<in> set rs" for x y
    using assms(1) that by (auto simp: roles_ok_def distinct_map inj_on_def)
  have "inj_on (\<lambda>r. (ro_tenant (?g r), ro_name (?g r))) (set rs)"
  proof (rule inj_onI)
    fix x y
    assume xy: "x \<in> set rs" "y \<in> set rs" "(ro_tenant (?g x), ro_name (?g x)) = (ro_tenant (?g y), ro_name (?g y))"
    show "x = y"
      using xy ids [OF xy(1,2)] nms [OF xy(1,2)] assms(4)
      by (cases "ro_id x = rid"; cases "ro_id y = rid") auto
  qed
  then have n: "distinct (map ((\<lambda>r. (ro_tenant r, ro_name r)) \<circ> ?g) rs)"
    using assms(1) by (simp add: roles_ok_def distinct_map o_def)
  have "\<forall>r\<in>set (map ?g rs). role_ok r" using assms(1,2) by (auto simp: roles_ok_def)
  then show ?thesis
    unfolding roles_ok_def map_map i using assms(1) n by (simp add: roles_ok_def)
qed

lemma update_role_ok [keeps]:
  assumes "roles_ok (di_roles d)"
  shows "roles_ok (di_roles (snd (update_role tenant rid raw perms d)))"
proof (cases "find (\<lambda>r. ro_id r = rid \<and> visible_role tenant r) (di_roles d)")
  case (Some role)
  from find_SomeD [OF this] have role: "ro_id role = rid" "\<not> ro_system role \<Longrightarrow> ro_tenant role = tenant"
    by (auto simp: visible_role_def)
  show ?thesis
    using assms role
    by (auto simp: update_role_def Some Let_def role_ok_def list_ex_iff intro!: roles_ok_replace)
qed (use assms in \<open>simp add: update_role_def\<close>)

lemma missing_roles_ok:
  assumes "roles_ok rs" "inj fresh" "\<forall>n. fresh n \<notin> ro_id ` set rs"
  shows "roles_ok (rs @ missing_roles fresh rs)"
proof -
  let ?m = "missing_roles fresh rs"
  have d: "distinct (map fst SYSTEM_ROLES)" by code_simp
  have names: "map ro_name ?m = map fst (filter (\<lambda>(n, ps). \<not> list_ex (is_builtin n) rs) SYSTEM_ROLES)"
    by (simp add: missing_roles_def o_def case_prod_beta)
  then have dn: "distinct (map ro_name ?m)" using d by (simp add: distinct_map_filter)
  have m: "r \<in> set ?m \<Longrightarrow> ro_id r = fresh (ro_name r) \<and> ro_tenant r = ''default'' \<and> ro_system r \<and> role_ok r \<and>
      \<not> list_ex (is_builtin (ro_name r)) rs" for r
    by (force simp: missing_roles_def role_ok_def SYSTEM_ROLE_NAMES_def)
  have "map ro_id ?m = map (fresh \<circ> ro_name) ?m" using m by auto
  then have di: "distinct (map ro_id ?m)"
    using dn assms(2) by (simp add: distinct_map inj_on_def)
  have dt: "distinct (map (\<lambda>r. (ro_tenant r, ro_name r)) ?m)"
    using dn by (auto simp: distinct_map inj_on_def)
  have "\<not> (ro_tenant r = ro_tenant r' \<and> ro_name r = ro_name r')" if "r \<in> set rs" "r' \<in> set ?m" for r r'
  proof
    assume eq: "ro_tenant r = ro_tenant r' \<and> ro_name r = ro_name r'"
    have "role_ok r" using that(1) assms(1) by (simp add: roles_ok_def)
    with eq m [OF that(2)] have "is_builtin (ro_name r') r"
      unfolding role_ok_def is_builtin_def by metis
    with that(1) m [OF that(2)] show False by (auto simp: list_ex_iff)
  qed
  then have names: "set (map (\<lambda>r. (ro_tenant r, ro_name r)) rs) \<inter> set (map (\<lambda>r. (ro_tenant r, ro_name r)) ?m) = {}"
    by auto
  have ids: "set (map ro_id rs) \<inter> set (map ro_id ?m) = {}"
    using m assms(3) by auto (metis imageI)
  have "\<forall>r\<in>set (rs @ ?m). role_ok r"
    using m assms(1) by (auto simp: roles_ok_def)
  then show ?thesis
    using assms(1) di dt names ids unfolding roles_ok_def map_append distinct_append by blast
qed

lemma is_builtin_map:
  "list_ex (is_builtin n) (map sync_role rs) = list_ex (is_builtin n) rs"
  "list_ex (is_builtin n) (map migrate_role rs) = list_ex (is_builtin n) rs"
  by (simp_all add: list_ex_iff is_builtin_def)

lemma seed_roles_ok [keeps]:
  assumes "roles_ok rs" "inj fresh" "\<forall>n. fresh n \<notin> ro_id ` set rs"
  shows "roles_ok (seed_system_roles fresh rs)"
proof -
  let ?rs = "map migrate_role (map sync_role rs)"
  have "roles_ok ?rs" using assms(1) by (simp add: roles_ok_map del: map_map)
  moreover have "missing_roles fresh ?rs = missing_roles fresh rs"
    by (simp add: missing_roles_def is_builtin_map del: map_map)
  moreover have "\<forall>n. fresh n \<notin> ro_id ` set ?rs" using assms(3) by (simp add: image_image)
  ultimately show ?thesis
    using missing_roles_ok [of ?rs fresh] assms(2)
    by (simp add: seed_system_roles_def migrate_legacy_permissions_def del: map_map)
qed

section \<open>Directories the application can reach\<close>

inductive dir_step :: "directory \<Rightarrow> directory \<Rightarrow> bool" where
  create: "fresh \<notin> ro_id ` set (di_roles d) \<Longrightarrow> dir_step d (snd (create_role fresh tenant raw perms d))"
| update: "dir_step d (snd (update_role tenant rid raw perms d))"
| delete: "dir_step d (snd (delete_role tenant rid d))"
| seed: "inj fresh \<Longrightarrow> \<forall>n. fresh n \<notin> ro_id ` set (di_roles d) \<Longrightarrow>
    dir_step d (d\<lparr>di_roles := seed_system_roles fresh (di_roles d)\<rparr>)"
| roles: "dir_step d (set_user_roles uid rids d)"
| groups: "dir_step d (set_user_groups uid gids d)"
| group_table: "dir_step d (d\<lparr>di_groups := gs\<rparr>)"

inductive reachable_dir :: "directory \<Rightarrow> bool" where
  start: "reachable_dir \<lparr>di_roles = [], di_groups = [], di_user_roles = [], di_user_groups = []\<rparr>"
| step: "reachable_dir d \<Longrightarrow> dir_step d d' \<Longrightarrow> reachable_dir d'"

lemma dir_step_ok: "dir_step d d' \<Longrightarrow> roles_ok (di_roles d) \<Longrightarrow> roles_ok (di_roles d')"
  by (induction rule: dir_step.induct)
    (auto simp: set_user_roles_def set_user_groups_def intro: keeps)

lemma reachable_dir_ok: "reachable_dir d \<Longrightarrow> roles_ok (di_roles d)"
proof (induction rule: reachable_dir.induct)
  case start
  show ?case by (simp add: roles_ok_def)
next
  case (step d d')
  then show ?case by (blast intro: dir_step_ok)
qed

section \<open>Laws of migration\<close>

lemma canonical_idem [simp]: "canonical_permission (canonical_permission k) = canonical_permission k"
  by (simp add: canonical_permission_def PERMISSION_ALIASES_def)

lemma no_legacy_canonical: "\<not> has_legacy perms \<Longrightarrow> map canonical_permission perms = perms"
  by (rule map_idI) (auto simp: has_legacy_def list_ex_iff canonical_permission_def PERMISSION_ALIASES_def)

lemma set_migrate_role: "set (ro_perms (migrate_role r)) = canonical_permission ` set (ro_perms r)"
  by (auto simp: migrate_role_def rewrite_keys_def dest!: no_legacy_canonical) (metis imageI list.set_map)+

lemma accepted_iff_canonical:
  "canonical_permission k = k \<Longrightarrow> k' \<in> set (accepted_permission_keys k) \<longleftrightarrow> canonical_permission k' = k"
  by (auto simp: accepted_permission_keys_def LEGACY_KEYS_FOR_def canonical_permission_def
      PERMISSION_ALIASES_def split: if_splits)

section \<open>Properties\<close>

text \<open>
  Lemma. Acting as a role never grants more. In every directory the role operations can
  produce, a session's active role (any text) yields only permissions the user already has
  through the roles they hold; the role is looked up by name, so this needs that no visible
  role shares a name with a builtin or another role.
\<close>

lemma active_role_is_downscope:
  assumes "reachable_dir d"
  shows "fst (effective_scoped d u active) \<subseteq> fst (effective d u)"
  using assms by (intro downscope reachable_dir_ok)

definition seeded :: directory where
  "seeded = \<lparr>di_roles = seed_system_roles id [], di_groups = [], di_user_roles = [], di_user_groups = []\<rparr>"

definition example_dir :: directory where
  "example_dir = set_user_roles ''u1'' [''operator'', ''user'', ''user''] seeded"

lemma example_dir_reachable: "reachable_dir example_dir"
proof -
  have "reachable_dir (\<lparr>di_roles = [], di_groups = [], di_user_roles = [], di_user_groups = []\<rparr>
      \<lparr>di_roles := seed_system_roles id (di_roles \<lparr>di_roles = [], di_groups = [], di_user_roles = [], di_user_groups = []\<rparr>)\<rparr>)"
    by (rule reachable_dir.step [OF reachable_dir.start dir_step.seed]) auto
  then have "reachable_dir seeded" by (simp add: seeded_def)
  then show ?thesis unfolding example_dir_def by (rule reachable_dir.step [OF _ dir_step.roles])
qed

lemma active_role_is_downscope_witness:
  "fst (effective_scoped example_dir \<lparr>us_id = ''u1'', us_tenant = ''t'', us_default_role = None\<rparr> (Some '' user ''))
   \<subseteq> fst (effective example_dir \<lparr>us_id = ''u1'', us_tenant = ''t'', us_default_role = None\<rparr>)"
  by (rule active_role_is_downscope [OF example_dir_reachable])

text \<open>The principal \<open>get_principal\<close> builds.\<close>

definition principal_of :: "directory \<Rightarrow> 'a user_scheme \<Rightarrow> string option \<Rightarrow> bool \<Rightarrow> principal" where
  "principal_of d u active must_change =
     (let (perms, names, eff) = effective_scoped d u active
      in \<lparr>pr_role = eff, pr_permissions = perms, pr_must_change = must_change, pr_assigned = names\<rparr>)"

lemma effective_scoped_role:
  "snd (snd (effective_scoped d u active)) = ''admin'' \<Longrightarrow> ''admin'' \<in> ro_name ` set (held_roles d u)"
proof -
  have best: "best_role b ns \<in> set (b # ns)" for b ns
  proof (induction ns arbitrary: b)
    case (Cons a ns)
    from Cons [of "if role_rank b < role_rank a then a else b"] show ?case
      by (auto split: if_splits)
  qed simp
  have P: "names \<noteq> [] \<Longrightarrow> primary_role names \<in> set names" for names
    using best by (cases names) (simp_all add: primary_role_def)
  let ?names = "snd (effective d u)"
  have "?names = [] \<or> snd (snd (effective_scoped d u active)) \<in> set ?names"
    using P [of ?names] by (auto simp: effective_scoped_def Let_def case_prod_beta)
  moreover have "?names = [] \<Longrightarrow> snd (snd (effective_scoped d u active)) = ''noaccess''"
    by (simp add: effective_scoped_def Let_def case_prod_beta)
  moreover assume "snd (snd (effective_scoped d u active)) = ''admin''"
  ultimately show ?thesis
    by (auto simp: effective_def split: if_splits)
qed

text \<open>
  Lemma. The no-access wall. A signed-in user whose roles carry no permission (none at all, or
  only \<open>noaccess\<close>) and who does not hold \<open>admin\<close> reaches nothing but the self-service
  allowlist, whatever active role the session asks for.
\<close>

lemma no_access_wall:
  assumes "reachable_dir d" "\<Union> (set ` ro_perms ` set (held_roles d u)) = {}"
    and "''admin'' \<notin> ro_name ` set (held_roles d u)"
    and "admit (principal_of d u active must_change) path = Inr p"
  shows "path \<in> set NO_ACCESS_ALLOWLIST"
proof -
  have "fst (effective d u) = {}" using assms(2) by (auto simp: effective_def)
  then have "fst (effective_scoped d u active) = {}"
    using downscope [OF reachable_dir_ok [OF assms(1)], of u active] by simp
  then have "pr_permissions (principal_of d u active must_change) = {}"
    by (simp add: principal_of_def case_prod_beta Let_def)
  moreover have "pr_role (principal_of d u active must_change) \<noteq> ''admin''"
    using effective_scoped_role [of d u active] assms(3) by (auto simp: principal_of_def case_prod_beta Let_def)
  ultimately show ?thesis
    using assms(4) by (auto simp: admit_def is_admin_def split: if_splits)
qed

lemma no_access_wall_witness:
  "''/api/me'' \<in> set NO_ACCESS_ALLOWLIST \<and>
   held_roles example_dir \<lparr>us_id = ''u2'', us_tenant = ''t'', us_default_role = None\<rparr> = []"
proof -
  let ?u = "\<lparr>us_id = ''u2'', us_tenant = ''t'', us_default_role = None\<rparr>"
  have h: "held_roles example_dir ?u = []"
    by (simp add: held_roles_def held_role_ids_def rows_for_def example_dir_def set_user_roles_def
        set_rows_def seeded_def)
  have "admit (principal_of example_dir ?u None False) ''/api/me'' = Inr (principal_of example_dir ?u None False)"
    by (simp add: admit_def principal_of_def effective_scoped_def effective_def h NO_ACCESS_ALLOWLIST_def Let_def)
  then show ?thesis
    using no_access_wall [OF example_dir_reachable, of ?u None False "''/api/me''"] h by simp
qed

text \<open>
  C7. Healing legacy keys changes nobody's access: for every current capability the permission
  guard answers the same before and after the stored roles are migrated, and migrating twice is
  migrating once.
\<close>

theorem migration_preserves_access:
  assumes "canonical_permission k = k"
    and "P = \<Union> (set ` ro_perms ` set rs)" "Q = \<Union> (set ` ro_perms ` set (snd (migrate_legacy_permissions rs)))"
  shows "isl (require_permission k (p\<lparr>pr_permissions := Q\<rparr>)) = isl (require_permission k (p\<lparr>pr_permissions := P\<rparr>))
    \<and> map migrate_role (map migrate_role rs) = map migrate_role rs"
proof -
  have Q: "Q = canonical_permission ` P"
    unfolding assms(2,3) by (auto simp: migrate_legacy_permissions_def set_migrate_role)
  have "''users.manage'' \<in> Q \<longleftrightarrow> ''users.manage'' \<in> P"
    unfolding Q by (auto simp: canonical_permission_def PERMISSION_ALIASES_def split: if_splits
        intro!: image_eqI [of _ _ "''users.manage''"])
  moreover have "list_ex (\<lambda>k'. k' \<in> Q) (accepted_permission_keys k) \<longleftrightarrow>
      list_ex (\<lambda>k'. k' \<in> P) (accepted_permission_keys k)"
    unfolding Q by (force simp: list_ex_iff accepted_iff_canonical [OF assms(1)])
  moreover have "migrate_role (migrate_role r) = migrate_role r" for r
  proof -
    have "\<not> has_legacy (rewrite_keys perms)" for perms
      by (auto simp: has_legacy_def list_ex_iff rewrite_keys_def canonical_permission_def
          PERMISSION_ALIASES_def split: if_splits)
    then show ?thesis by (simp add: migrate_role_def)
  qed
  ultimately show ?thesis by (simp add: require_permission_def is_admin_def)
qed

theorem migration_preserves_access_witness:
  "\<not> isl (require_permission ''iam.read'' \<lparr>pr_role = ''custom'', pr_permissions = set [''iam.read''],
     pr_must_change = False, pr_assigned = [''custom'']\<rparr>)"
proof -
  let ?r = "\<lparr>ro_id = ''r'', ro_tenant = ''t'', ro_name = ''custom'', ro_system = False, ro_perms = [''rbac.read'']\<rparr>"
  let ?p = "\<lparr>pr_role = ''custom'', pr_permissions = {}, pr_must_change = False, pr_assigned = [''custom'']\<rparr>"
  have c: "canonical_permission ''iam.read'' = ''iam.read''" by code_simp
  have q: "set [''iam.read''] = \<Union> (set ` ro_perms ` set (snd (migrate_legacy_permissions [?r])))"
    by (simp add: migrate_legacy_permissions_def migrate_role_def has_legacy_def rewrite_keys_def
        canonical_permission_def PERMISSION_ALIASES_def)
  have "\<not> isl (require_permission ''iam.read'' (?p\<lparr>pr_permissions := {''rbac.read''}\<rparr>))"
    by (simp add: require_permission_def accepted_permission_keys_def LEGACY_KEYS_FOR_def PERMISSION_ALIASES_def)
  then show ?thesis
    using migration_preserves_access [OF c, of "{''rbac.read''}" "[?r]" _ ?p, OF _ q] by simp
qed

end
