(* ===== verification/Ip_Lockout.thy ===== *)
theory Ip_Lockout
  imports Prelude "HOL-Library.AList"
begin

text \<open>
  The per-IP brute-force counter of the login endpoint, \<^verbatim>\<open>app/auth/ip_lockout.py\<close>.
  The table \<open>login_throttle\<close> is an association list from addresses to rows (the primary key
  is the address). Instants and durations are \<^typ>\<open>int\<close> microseconds, the resolution of
  Python's \<open>datetime\<close>; the clock is an argument.
\<close>

section \<open>Table and operations\<close>

record throttle_row =
  lt_fail_count :: nat
  lt_window_start :: "int option"
  lt_locked_until :: "int option"
  lt_updated_at :: int

type_synonym throttle = "(string \<times> throttle_row) list"

text \<open>The policy read from the settings: attempts, window and cooldown.\<close>

record limits =
  max_attempts :: int
  window :: int
  lockout :: int

definition present :: "string option \<Rightarrow> bool" where
  "present ip \<longleftrightarrow> str_or ip [] \<noteq> []"

definition check_locked :: "int \<Rightarrow> string option \<Rightarrow> throttle \<Rightarrow> (bool \<times> int) \<times> throttle" where
  "check_locked now ip db =
     (if \<not> present ip then ((False, 0), db)
      else case map_of db (the ip) of
        None \<Rightarrow> ((False, 0), db)
      | Some row \<Rightarrow>
          (case lt_locked_until row of
             None \<Rightarrow> ((False, 0), db)
           | Some t \<Rightarrow>
               (if now < t then ((True, t - now), db)
                else ((False, 0), AList.update (the ip)
                  (row\<lparr>lt_locked_until := None, lt_fail_count := 0, lt_window_start := None,
                       lt_updated_at := now\<rparr>) db))))"

definition fresh_row :: "int \<Rightarrow> throttle_row" where
  "fresh_row now = \<lparr>lt_fail_count = 0, lt_window_start = Some now, lt_locked_until = None, lt_updated_at = now\<rparr>"

text \<open>Slide the window, then count the failure.\<close>

definition counted_row :: "limits \<Rightarrow> int \<Rightarrow> throttle_row \<Rightarrow> throttle_row" where
  "counted_row l now row =
     (let row = (case lt_window_start row of
            None \<Rightarrow> row\<lparr>lt_window_start := Some now, lt_fail_count := 0\<rparr>
          | Some w \<Rightarrow> (if window l < now - w
              then row\<lparr>lt_window_start := Some now, lt_fail_count := 0\<rparr> else row))
      in row\<lparr>lt_fail_count := lt_fail_count row + 1, lt_updated_at := now\<rparr>)"

text \<open>\<open>max(0.001, lockout_seconds)\<close>: at least a millisecond.\<close>

definition lock_for :: "limits \<Rightarrow> int" where
  "lock_for l = max 1000 (lockout l)"

definition threshold :: "limits \<Rightarrow> nat" where
  "threshold l = nat (max 1 (max_attempts l))"

definition record_failure :: "limits \<Rightarrow> int \<Rightarrow> string option \<Rightarrow> throttle \<Rightarrow> (bool \<times> int) \<times> throttle" where
  "record_failure l now ip db =
     (if \<not> present ip then ((False, 0), db)
      else let row = (case map_of db (the ip) of None \<Rightarrow> fresh_row now | Some r \<Rightarrow> r);
               counted = counted_row l now row
           in if (case lt_locked_until row of None \<Rightarrow> False | Some t \<Rightarrow> now < t)
              then ((True, the (lt_locked_until row) - now), db)
              else if threshold l \<le> lt_fail_count counted
              then ((True, lock_for l), AList.update (the ip)
                (counted\<lparr>lt_locked_until := Some (now + lock_for l), lt_fail_count := 0,
                   lt_window_start := None\<rparr>) db)
              else ((False, 0), AList.update (the ip) counted db))"

definition clear :: "string option \<Rightarrow> throttle \<Rightarrow> throttle" where
  "clear ip db = (if \<not> present ip then db else AList.delete (the ip) db)"

definition reset_all :: "throttle \<Rightarrow> throttle" where
  "reset_all db = []"

definition purge_expired :: "int \<Rightarrow> int \<Rightarrow> throttle \<Rightarrow> nat \<times> throttle" where
  "purge_expired now older_than db =
     (let idle = (\<lambda>(ip, row). lt_locked_until row = None \<and> lt_updated_at row < now - older_than)
      in (length (filter idle db), filter (\<lambda>e. \<not> idle e) db))"

section \<open>The throttle as an interface\<close>

text \<open>
  What the login handler relies on: a key is locked or not at an instant; a failure never
  unlocks, clearing forgets the key, and no operation on one key touches another.
\<close>

locale attempt_throttle =
  fixes key :: "'k \<Rightarrow> bool"
    and locked :: "'k \<Rightarrow> int \<Rightarrow> 's \<Rightarrow> bool"
    and fail :: "int \<Rightarrow> 'k \<Rightarrow> 's \<Rightarrow> 's"
    and forget :: "'k \<Rightarrow> 's \<Rightarrow> 's"
  assumes fail_keeps_locked: "locked k now s \<Longrightarrow> locked k now (fail t k' s)"
    and fail_other: "k \<noteq> k' \<Longrightarrow> locked k now (fail t k' s) = locked k now s"
    and forget_same: "key k \<Longrightarrow> \<not> locked k now (forget k s)"
    and forget_other: "k \<noteq> k' \<Longrightarrow> locked k now (forget k' s) = locked k now s"
begin

fun fails :: "(int \<times> 'k) list \<Rightarrow> 's \<Rightarrow> 's" where
  "fails [] s = s"
| "fails ((t, k) # es) s = fails es (fail t k s)"

lemma fails_keep_locked: "locked k now s \<Longrightarrow> locked k now (fails es s)"
  by (induction es s rule: fails.induct) (auto intro: fail_keeps_locked)

lemma fails_other: "k \<notin> snd ` set es \<Longrightarrow> locked k now (fails es s) = locked k now s"
  by (induction es s rule: fails.induct) (auto simp: fail_other)

end

definition ip_locked :: "string \<Rightarrow> int \<Rightarrow> throttle \<Rightarrow> bool" where
  "ip_locked ip now db \<longleftrightarrow>
     (case map_of db ip of None \<Rightarrow> False
      | Some r \<Rightarrow> (case lt_locked_until r of None \<Rightarrow> False | Some t \<Rightarrow> now < t))"

lemma check_locked_iff: "present (Some ip) \<Longrightarrow> fst (fst (check_locked now (Some ip) db)) = ip_locked ip now db"
  by (auto simp: check_locked_def ip_locked_def present_def str_or_def split: option.splits)

lemma present_Some [simp]: "present (Some ip) \<longleftrightarrow> ip \<noteq> []" "\<not> present None"
  by (simp_all add: present_def str_or_def)

lemma map_of_record_failure:
  "ip \<noteq> ip' \<Longrightarrow> map_of (snd (record_failure l t (Some ip') db)) ip = map_of db ip"
  by (auto simp: record_failure_def Let_def update_conv')

lemma counted_row_locked [simp]: "lt_locked_until (counted_row l now row) = lt_locked_until row"
  by (simp add: counted_row_def Let_def split: option.splits)

lemma record_failure_same:
  assumes "ip \<noteq> []"
  shows "map_of (snd (record_failure l t (Some ip) db)) ip =
    (let row = (case map_of db ip of None \<Rightarrow> fresh_row t | Some r \<Rightarrow> r); c = counted_row l t row
     in if (case lt_locked_until row of None \<Rightarrow> False | Some u \<Rightarrow> t < u) then map_of db ip
        else if threshold l \<le> lt_fail_count c
        then Some (c\<lparr>lt_locked_until := Some (t + lock_for l), lt_fail_count := 0, lt_window_start := None\<rparr>)
        else Some c)"
  using assms by (simp add: record_failure_def Let_def update_conv')

lemma ip_locked_fail:
  assumes "ip_locked ip now db"
  shows "ip_locked ip now (snd (record_failure l t (Some ip') db))"
proof (cases "ip' = ip \<and> ip \<noteq> []")
  case True
  from assms obtain r u where r: "map_of db ip = Some r" "lt_locked_until r = Some u" "now < u"
    by (auto simp: ip_locked_def split: option.splits)
  show ?thesis
    using True r by (auto simp: ip_locked_def record_failure_same Let_def lock_for_def)
next
  case False
  then show ?thesis
  proof (cases "ip' = ip")
    case True
    with False have "snd (record_failure l t (Some ip') db) = db" by (simp add: record_failure_def)
    with assms show ?thesis by simp
  qed (use assms in \<open>simp add: ip_locked_def map_of_record_failure\<close>)
qed

interpretation ip_gate: attempt_throttle "\<lambda>ip. ip \<noteq> []" ip_locked
  "\<lambda>t ip db. snd (record_failure l t (Some ip) db)" "\<lambda>ip db. clear (Some ip) db" for l
  apply unfold_locales
  subgoal by (rule ip_locked_fail)
  subgoal by (simp add: ip_locked_def map_of_record_failure)
  subgoal by (simp add: ip_locked_def clear_def delete_conv')
  subgoal by (simp add: ip_locked_def clear_def delete_conv')
  done

section \<open>Counting within one window\<close>

text \<open>A row is open when it carries no lock and its window has not lapsed.\<close>

definition open_row :: "limits \<Rightarrow> int \<Rightarrow> nat \<Rightarrow> throttle_row option \<Rightarrow> bool" where
  "open_row l start n r \<longleftrightarrow> (if n = 0 then r = None else
     (\<exists>row. r = Some row \<and> lt_locked_until row = None \<and> lt_window_start row = Some start \<and> lt_fail_count row = n))"

lemma record_failure_counts:
  assumes "ip \<noteq> []" "open_row l start n (map_of db ip)" "n = 0 \<Longrightarrow> t = start" "t - start \<le> window l"
    and "0 \<le> window l" "Suc n < threshold l"
  shows "fst (record_failure l t (Some ip) db) = (False, 0) \<and>
    open_row l start (Suc n) (map_of (snd (record_failure l t (Some ip) db)) ip)"
  using assms
  by (auto simp: open_row_def record_failure_def counted_row_def fresh_row_def Let_def update_conv'
      split: if_splits)

lemma record_failure_trips:
  assumes "ip \<noteq> []" "open_row l start n (map_of db ip)" "n = 0 \<Longrightarrow> t = start" "t - start \<le> window l"
    and "0 \<le> window l" "Suc n = threshold l"
  shows "fst (record_failure l t (Some ip) db) = (True, lock_for l) \<and>
    ip_locked ip now (snd (record_failure l t (Some ip) db)) = (now < t + lock_for l)"
  using assms
  by (auto simp: open_row_def record_failure_def counted_row_def fresh_row_def Let_def update_conv'
      ip_locked_def split: if_splits)

text \<open>A run of failures from one address: the answers and the table.\<close>

fun fail_run :: "limits \<Rightarrow> string \<Rightarrow> int list \<Rightarrow> throttle \<Rightarrow> (bool \<times> int) list \<times> throttle" where
  "fail_run l ip [] db = ([], db)"
| "fail_run l ip (t # ts) db =
     (let (a, db1) = record_failure l t (Some ip) db; (as, db2) = fail_run l ip ts db1 in (a # as, db2))"

lemma fail_run_append:
  "fail_run l ip (ts @ us) db =
     (let (as, db1) = fail_run l ip ts db; (bs, db2) = fail_run l ip us db1 in (as @ bs, db2))"
  by (induction ts arbitrary: db) (auto simp: Let_def split: prod.splits)

lemma fail_run_open:
  assumes "ip \<noteq> []" "0 \<le> window l"
  shows "open_row l start n (map_of db ip) \<Longrightarrow> (n = 0 \<Longrightarrow> ts \<noteq> [] \<Longrightarrow> hd ts = start) \<Longrightarrow>
    list_all (\<lambda>t. t - start \<le> window l) ts \<Longrightarrow> n + length ts < threshold l \<Longrightarrow>
    fst (fail_run l ip ts db) = replicate (length ts) (False, 0) \<and>
    open_row l start (n + length ts) (map_of (snd (fail_run l ip ts db)) ip)"
proof (induction ts arbitrary: n db)
  case (Cons t ts)
  have s: "fst (record_failure l t (Some ip) db) = (False, 0)"
      "open_row l start (Suc n) (map_of (snd (record_failure l t (Some ip) db)) ip)"
    using record_failure_counts [OF assms(1) Cons.prems(1), of t] assms(2) Cons.prems by auto
  from Cons.IH [OF s(2)] Cons.prems s(1) show ?case
    by (auto simp: Let_def split: prod.splits)
qed simp

section \<open>Properties\<close>

text \<open>
  Lemma. The lockout threshold is exact within a window. From an address with no history,
  failures inside one window are answered unlocked until the configured number is reached;
  the failure that reaches it locks the address for the cooldown and no longer.
\<close>

lemma lockout_threshold_exact:
  assumes "ip \<noteq> []" "map_of db ip = None" "ts \<noteq> []" "0 \<le> window l"
    and "list_all (\<lambda>t. t - hd ts \<le> window l) ts" "length ts = threshold l"
  shows "fst (fail_run l ip ts db) = replicate (length ts - 1) (False, 0) @ [(True, lock_for l)] \<and>
    (\<forall>now. ip_locked ip now (snd (fail_run l ip ts db)) = (now < last ts + lock_for l))"
proof -
  obtain us t where ts: "ts = us @ [t]" using assms(3) by (cases ts rule: rev_cases) auto
  have o: "open_row l (hd ts) 0 (map_of db ip)" using assms(2) by (simp add: open_row_def)
  have len: "length us < threshold l" "Suc (length us) = threshold l"
    using assms(6) ts by auto
  have run: "fst (fail_run l ip us db) = replicate (length us) (False, 0)"
      "open_row l (hd ts) (length us) (map_of (snd (fail_run l ip us db)) ip)"
    using fail_run_open [OF assms(1,4) o, of us] assms(5) len ts by (cases us; auto)+
  obtain db1 where db1: "fail_run l ip us db = (replicate (length us) (False, 0), db1)"
    using run(1) by (metis prod.collapse)
  have trip: "fst (record_failure l t (Some ip) db1) = (True, lock_for l) \<and>
      ip_locked ip now (snd (record_failure l t (Some ip) db1)) = (now < t + lock_for l)" for now
    using record_failure_trips [OF assms(1) run(2) _ _ assms(4) len(2), of t now] assms(5) ts db1
    by (cases us; auto)
  then obtain db2 where db2: "record_failure l t (Some ip) db1 = ((True, lock_for l), db2)"
    by (metis prod.collapse)
  have "fail_run l ip ts db = (replicate (length us) (False, 0) @ [(True, lock_for l)], db2)"
    unfolding ts fail_run_append db1 by (simp add: db2)
  then show ?thesis using trip db2 ts by simp
qed

definition example_limits :: limits where
  "example_limits = \<lparr>max_attempts = 3, window = 300000000, lockout = 900000000\<rparr>"

lemma lockout_threshold_exact_witness:
  "fst (fail_run example_limits ''198.51.100.9'' [0, 10, 20] []) = [(False, 0), (False, 0), (True, 900000000)]"
  using lockout_threshold_exact [of "''198.51.100.9''" "[]" "[0, 10, 20]" example_limits]
  by (simp add: example_limits_def threshold_def lock_for_def)

text \<open>
  The window is fixed, not sliding. It starts at the first failure and is dropped whole when
  it lapses, so with a threshold of three, three failures within two seconds that straddle the
  end of a window do not lock the address.
\<close>

lemma window_is_not_sliding:
  "fst (fail_run \<lparr>max_attempts = 3, window = 300000000, lockout = 900000000\<rparr> ''198.51.100.9''
     [0, 299500000, 300500000, 301000000] []) = replicate 4 (False, 0)"
  by code_simp

end
