(* ===== verification/Auth_Login.thy ===== *)
theory Auth_Login
  imports Auth_Roles Ip_Lockout
begin

text \<open>
  Signing in and sessions: the login handler (\<^verbatim>\<open>app/api/auth.py\<close>) with its two
  brute-force gates, and the session operations of \<^verbatim>\<open>app/auth/service.py\<close>. The
  password hasher is a third-party package and enters as three parameters (verification,
  hashing, and whether a hash is out of date). Random tokens and the clock are arguments; a
  handler reads the clock once. Heartbeat writes are queued by a request and
  applied later, as the code defers them.
\<close>

section \<open>State\<close>

record account = user +
  us_username :: string
  us_email :: string
  us_display :: string
  us_status :: string
  us_hash :: "string option"
  us_failed :: nat
  us_locked_until :: "int option"
  us_must_change :: bool
  us_source :: string
  us_last_login :: "int option"
  us_idp :: "string option"
  us_subject :: "string option"

record session =
  se_id :: string
  se_user :: string
  se_created :: int
  se_last_seen :: int
  se_expires :: int
  se_ip :: "string option"
  se_agent :: string
  se_revoked :: bool
  se_active_role :: "string option"

datatype auth_event =
    LoginBlocked string int
  | LoginFailed string string
  | LoginOk string
  | PasswordChanged string
  | ActiveRoleSet string string

record auth_cfg =
  local_login_enabled :: bool
  max_failed_attempts :: int
  lockout_minutes :: int
  session_idle_minutes :: int
  session_absolute_minutes :: int
  ip_rate_limit_enabled :: bool
  ip_limits :: limits
  password_min_length :: int
  password_require_complexity :: bool

record auth_db =
  ad_dir :: directory
  ad_users :: "account list"
  ad_sessions :: "session list"
  ad_throttle :: throttle
  ad_slides :: "(string \<times> int) list"
  ad_audit :: "auth_event list"

text \<open>The password hasher.\<close>

record hasher =
  h_verify :: "string \<Rightarrow> string \<Rightarrow> bool"
  h_hash :: "string \<Rightarrow> string"
  h_stale :: "string \<Rightarrow> bool"

definition minutes :: "int \<Rightarrow> int" where
  "minutes m = m * 60 * 1000000"

definition verify_password :: "hasher \<Rightarrow> string option \<Rightarrow> string \<Rightarrow> bool" where
  "verify_password h hash pw = (case hash of None \<Rightarrow> False | Some x \<Rightarrow> x \<noteq> [] \<and> h_verify h x pw)"

definition put_user :: "account \<Rightarrow> auth_db \<Rightarrow> auth_db" where
  "put_user u db = db\<lparr>ad_users := map (\<lambda>x. if us_id x = us_id u then u else x) (ad_users db)\<rparr>"

definition audit_event :: "auth_event \<Rightarrow> auth_db \<Rightarrow> auth_db" where
  "audit_event e db = db\<lparr>ad_audit := ad_audit db @ [e]\<rparr>"

section \<open>Sessions\<close>

definition find_user_by_login :: "string option \<Rightarrow> auth_db \<Rightarrow> account option" where
  "find_user_by_login login db =
     (let l = py_lower (py_strip (str_or login [])) in
      find (\<lambda>u. us_username u = l \<or> us_email u = l) (ad_users db))"

definition create_session ::
  "auth_cfg \<Rightarrow> int \<Rightarrow> string \<Rightarrow> account \<Rightarrow> string option \<Rightarrow> string option \<Rightarrow> auth_db \<Rightarrow> session \<times> auth_db" where
  "create_session cfg now token u ip agent db =
     (let s = \<lparr>se_id = token, se_user = us_id u, se_created = now, se_last_seen = now,
            se_expires = now + minutes (session_absolute_minutes cfg), se_ip = ip,
            se_agent = take 512 (str_or agent []), se_revoked = False, se_active_role = None\<rparr>
      in (s, put_user (u\<lparr>us_last_login := Some now, us_failed := 0\<rparr>)
               (db\<lparr>ad_sessions := ad_sessions db @ [s]\<rparr>)))"

definition SESSION_SLIDE :: int where
  "SESSION_SLIDE = 60 * 1000000"

definition get_session :: "string \<Rightarrow> auth_db \<Rightarrow> session option" where
  "get_session sid db = find (\<lambda>s. se_id s = sid) (ad_sessions db)"

definition get_user :: "string \<Rightarrow> auth_db \<Rightarrow> account option" where
  "get_user uid db = find (\<lambda>u. us_id u = uid) (ad_users db)"

text \<open>\<open>_schedule_slide\<close>: one queued heartbeat per session.\<close>

definition schedule_slide :: "string \<Rightarrow> int \<Rightarrow> auth_db \<Rightarrow> auth_db" where
  "schedule_slide sid now db =
     (if sid \<in> fst ` set (ad_slides db) then db else db\<lparr>ad_slides := ad_slides db @ [(sid, now)]\<rparr>)"

text \<open>\<open>_slide_now\<close>: the deferred write, which may fail (\<open>ok = False\<close>) and is then dropped.\<close>

definition slide_now :: "bool \<Rightarrow> string \<Rightarrow> int \<Rightarrow> auth_db \<Rightarrow> auth_db" where
  "slide_now ok sid now db =
     db\<lparr>ad_sessions := (if ok
          then map (\<lambda>s. if se_id s = sid then s\<lparr>se_last_seen := now\<rparr> else s) (ad_sessions db)
          else ad_sessions db),
        ad_slides := filter (\<lambda>e. fst e \<noteq> sid) (ad_slides db)\<rparr>"

definition resolve_session ::
  "auth_cfg \<Rightarrow> int \<Rightarrow> string \<Rightarrow> auth_db \<Rightarrow> (session \<times> account) option \<times> auth_db" where
  "resolve_session cfg now sid db =
     (case get_session sid db of
        None \<Rightarrow> (None, db)
      | Some s \<Rightarrow>
          (if se_revoked s then (None, db)
           else if se_expires s < now then (None, db)
           else if se_last_seen s + minutes (session_idle_minutes cfg) < now then (None, db)
           else case get_user (se_user s) db of
             None \<Rightarrow> (None, db)
           | Some u \<Rightarrow>
               (if us_status u \<noteq> ''active'' then (None, db)
                else (Some (s, u),
                      if SESSION_SLIDE \<le> now - se_last_seen s then schedule_slide (se_id s) now db else db))))"

definition revoke_session :: "string \<Rightarrow> auth_db \<Rightarrow> auth_db" where
  "revoke_session sid db =
     db\<lparr>ad_sessions := map (\<lambda>s. if se_id s = sid then s\<lparr>se_revoked := True\<rparr> else s) (ad_sessions db)\<rparr>"

definition revoke_all_for_user :: "string \<Rightarrow> auth_db \<Rightarrow> nat \<times> auth_db" where
  "revoke_all_for_user uid db =
     (length (filter (\<lambda>s. se_user s = uid \<and> \<not> se_revoked s) (ad_sessions db)),
      db\<lparr>ad_sessions := map (\<lambda>s. if se_user s = uid \<and> \<not> se_revoked s then s\<lparr>se_revoked := True\<rparr> else s)
           (ad_sessions db)\<rparr>)"

definition stale_session :: "auth_cfg \<Rightarrow> int \<Rightarrow> int \<Rightarrow> session \<Rightarrow> bool" where
  "stale_session cfg now retain_days s \<longleftrightarrow>
     (let grace = retain_days * 86400 * 1000000 in
      se_revoked s \<or> se_expires s < now - grace \<or>
      se_last_seen s < now - minutes (session_idle_minutes cfg) - grace)"

definition purge_stale_sessions :: "auth_cfg \<Rightarrow> int \<Rightarrow> int \<Rightarrow> auth_db \<Rightarrow> nat \<times> auth_db" where
  "purge_stale_sessions cfg now retain_days db =
     (length (filter (stale_session cfg now retain_days) (ad_sessions db)),
      db\<lparr>ad_sessions := filter (\<lambda>s. \<not> stale_session cfg now retain_days s) (ad_sessions db)\<rparr>)"

section \<open>The login handler\<close>

datatype login_result =
    LocalLoginDisabled
  | TooManyAttempts int
  | InvalidCredentials
  | AccountLocked
  | LoggedIn string string "string set"

definition ip_failure :: "auth_cfg \<Rightarrow> int \<Rightarrow> string option \<Rightarrow> auth_db \<Rightarrow> auth_db" where
  "ip_failure cfg now ip db =
     (if ip_rate_limit_enabled cfg \<and> present ip
      then db\<lparr>ad_throttle := snd (record_failure (ip_limits cfg) now ip (ad_throttle db))\<rparr> else db)"

definition account_locked :: "int \<Rightarrow> account \<Rightarrow> bool" where
  "account_locked now u = (case us_locked_until u of None \<Rightarrow> False | Some t \<Rightarrow> now < t)"

text \<open>The failed-password branch: count, and lock the account at the limit.\<close>

definition count_bad_password :: "auth_cfg \<Rightarrow> int \<Rightarrow> account \<Rightarrow> account" where
  "count_bad_password cfg now u =
     (let n = us_failed u + 1 in
      if max_failed_attempts cfg \<le> int n
      then u\<lparr>us_locked_until := Some (now + minutes (lockout_minutes cfg)), us_failed := 0\<rparr>
      else u\<lparr>us_failed := n\<rparr>)"

text \<open>The handler after the per-IP gate.\<close>

definition login_user ::
  "hasher \<Rightarrow> auth_cfg \<Rightarrow> int \<Rightarrow> string \<Rightarrow> string option \<Rightarrow> string option \<Rightarrow> string \<Rightarrow> string \<Rightarrow> auth_db
   \<Rightarrow> login_result \<times> auth_db" where
  "login_user h cfg now token ip agent name pw db =
     (case find_user_by_login (Some name) db of
        None \<Rightarrow> (InvalidCredentials,
          ip_failure cfg now ip (audit_event (LoginFailed name ''unknown_or_inactive'') db))
      | Some u \<Rightarrow>
          (if us_status u \<noteq> ''active''
           then (InvalidCredentials,
             ip_failure cfg now ip (audit_event (LoginFailed name ''unknown_or_inactive'') db))
           else if account_locked now u then (AccountLocked, ip_failure cfg now ip db)
           else if \<not> verify_password h (us_hash u) pw
           then (InvalidCredentials,
             ip_failure cfg now ip (audit_event (LoginFailed (us_username u) ''bad_password'')
               (put_user (count_bad_password cfg now u) db)))
           else
             let u1 = (if h_stale h (str_or (us_hash u) []) then u\<lparr>us_hash := Some (h_hash h pw)\<rparr> else u);
                 u2 = u1\<lparr>us_locked_until := None\<rparr>;
                 db1 = db\<lparr>ad_throttle := clear ip (ad_throttle db)\<rparr>;
                 (s, db2) = create_session cfg now token u2 ip agent db1;
                 db3 = audit_event (LoginOk (us_username u)) db2;
                 (perms, names) = effective (ad_dir db3) u2
             in (LoggedIn (us_id u) (primary_role names) perms, db3)))"

definition login ::
  "hasher \<Rightarrow> auth_cfg \<Rightarrow> int \<Rightarrow> string \<Rightarrow> string option \<Rightarrow> string option \<Rightarrow> string \<Rightarrow> string \<Rightarrow> auth_db
   \<Rightarrow> login_result \<times> auth_db" where
  "login h cfg now token ip agent name pw db =
     (if \<not> local_login_enabled cfg then (LocalLoginDisabled, db)
      else if ip_rate_limit_enabled cfg \<and> present ip
      then let ((locked, remaining), th) = check_locked now ip (ad_throttle db);
               db1 = db\<lparr>ad_throttle := th\<rparr>
           in if locked
              then let retry = max 1 (remaining div 1000000)
                   in (TooManyAttempts retry, audit_event (LoginBlocked name retry) db1)
              else login_user h cfg now token ip agent name pw db1
      else login_user h cfg now token ip agent name pw db)"

definition logout :: "string option \<Rightarrow> auth_db \<Rightarrow> auth_db" where
  "logout cookie db = (if str_or cookie [] = [] then db else revoke_session (str_or cookie []) db)"

datatype role_switch = NeedsSession | NotAssigned | NoSuchSession | ActingAs string

definition set_active_role ::
  "bool \<Rightarrow> string option \<Rightarrow> string list \<Rightarrow> string option \<Rightarrow> string \<Rightarrow> auth_db \<Rightarrow> role_switch \<times> auth_db" where
  "set_active_role dev cookie assigned requested actor db =
     (if dev \<or> str_or cookie [] = [] then (NeedsSession, db)
      else let want = py_strip (str_or requested []) in
        if want \<noteq> [] \<and> want \<notin> set assigned then (NotAssigned, db)
        else case get_session (str_or cookie []) db of
          None \<Rightarrow> (NoSuchSession, db)
        | Some s \<Rightarrow> (ActingAs want,
            audit_event (ActiveRoleSet actor (if want = [] then ''(default)'' else want))
              (db\<lparr>ad_sessions := map (\<lambda>x. if se_id x = se_id s
                 then x\<lparr>se_active_role := (if want = [] then None else Some want)\<rparr> else x) (ad_sessions db)\<rparr>)))"

datatype password_error = TooShort | TooSimple | NotLocal | WrongCurrent

definition is_lower :: "char \<Rightarrow> bool" where
  "is_lower c \<longleftrightarrow> 97 \<le> char_code c \<and> char_code c \<le> 122"

definition is_upper :: "char \<Rightarrow> bool" where
  "is_upper c \<longleftrightarrow> 65 \<le> char_code c \<and> char_code c \<le> 90"

definition change_password ::
  "hasher \<Rightarrow> auth_cfg \<Rightarrow> string \<Rightarrow> string option \<Rightarrow> string \<Rightarrow> auth_db \<Rightarrow> (password_error, unit) result \<times> auth_db" where
  "change_password h cfg uid current pw db =
     (if int (length pw) < password_min_length cfg then (Inl TooShort, db)
      else if password_require_complexity cfg \<and>
          \<not> (list_ex is_lower pw \<and> list_ex is_upper pw \<and> list_ex is_digit pw) then (Inl TooSimple, db)
      else case get_user uid db of
        None \<Rightarrow> (Inl NotLocal, db)
      | Some u \<Rightarrow>
          (if us_source u \<noteq> ''local'' then (Inl NotLocal, db)
           else if str_or (us_hash u) [] \<noteq> [] \<and> \<not> us_must_change u \<and>
             (str_or current [] = [] \<or> \<not> verify_password h (us_hash u) (str_or current []))
           then (Inl WrongCurrent, db)
           else (Inr (), audit_event (PasswordChanged (us_username u))
             (put_user (u\<lparr>us_hash := Some (h_hash h pw), us_must_change := False\<rparr>) db))))"

section \<open>Laws\<close>

lemma ip_failure_sel [simp]:
  "ad_sessions (ip_failure cfg now ip db) = ad_sessions db"
  "ad_users (ip_failure cfg now ip db) = ad_users db"
  "ad_dir (ip_failure cfg now ip db) = ad_dir db"
  by (simp_all add: ip_failure_def)

lemma audit_event_sel [simp]:
  "ad_sessions (audit_event e db) = ad_sessions db" "ad_users (audit_event e db) = ad_users db"
  "ad_throttle (audit_event e db) = ad_throttle db" "ad_dir (audit_event e db) = ad_dir db"
  by (simp_all add: audit_event_def)

lemma put_user_sel [simp]:
  "ad_sessions (put_user u db) = ad_sessions db" "ad_throttle (put_user u db) = ad_throttle db"
  "ad_dir (put_user u db) = ad_dir db"
  "ad_users (put_user u db) = map (\<lambda>x. if us_id x = us_id u then u else x) (ad_users db)"
  by (simp_all add: put_user_def)

lemma find_user_throttle [simp]: "find_user_by_login n (db\<lparr>ad_throttle := th\<rparr>) = find_user_by_login n db"
  by (simp add: find_user_by_login_def)

text \<open>What a sign-in attempt can have been, by its answer.\<close>

lemma login_user_sessions:
  assumes "login_user h cfg now token ip agent name pw db = (r, db')"
  shows "(ad_sessions db' = ad_sessions db \<and> (\<forall>i ro ps. r \<noteq> LoggedIn i ro ps)) \<or>
    (\<exists>u s ro ps. r = LoggedIn (us_id u) ro ps \<and> find_user_by_login (Some name) db = Some u \<and>
       us_status u = ''active'' \<and> \<not> account_locked now u \<and> verify_password h (us_hash u) pw \<and>
       ad_sessions db' = ad_sessions db @ [s] \<and> se_id s = token \<and> se_user s = us_id u \<and>
       se_expires s = now + minutes (session_absolute_minutes cfg))"
  using assms
  by (auto simp: login_user_def create_session_def Let_def split: option.splits if_splits prod.splits)

lemma login_cases:
  obtains (off) "\<not> local_login_enabled cfg" "login h cfg now token ip agent name pw db = (LocalLoginDisabled, db)"
  | (blocked) n where "ip_rate_limit_enabled cfg" "ip_locked (the ip) now (ad_throttle db)"
      "login h cfg now token ip agent name pw db = (TooManyAttempts n, audit_event (LoginBlocked name n) db)"
  | (run) th where "local_login_enabled cfg"
      "login h cfg now token ip agent name pw db =
         login_user h cfg now token ip agent name pw (db\<lparr>ad_throttle := th\<rparr>)"
proof (cases "local_login_enabled cfg \<and> ip_rate_limit_enabled cfg \<and> present ip")
  case True
  then obtain i where i: "ip = Some i" "present (Some i)" by (cases ip) auto
  obtain l r th where c: "check_locked now ip (ad_throttle db) = ((l, r), th)"
    by (metis prod.collapse)
  have l: "l = ip_locked i now (ad_throttle db)"
    using check_locked_iff [OF i(2), of now "ad_throttle db"] c i by simp
  have "l \<Longrightarrow> th = ad_throttle db"
    using c i by (auto simp: check_locked_def split: option.splits if_splits)
  with True c l i show ?thesis
    by (cases l) (auto simp: login_def Let_def intro: blocked run)
next
  case False
  show ?thesis
  proof (cases "local_login_enabled cfg")
    case True
    with False have "login h cfg now token ip agent name pw db =
        login_user h cfg now token ip agent name pw (db\<lparr>ad_throttle := ad_throttle db\<rparr>)"
      by (auto simp: login_def)
    with True show ?thesis by (rule run)
  qed (simp add: login_def off)
qed

lemma login_sessions:
  assumes "login h cfg now token ip agent name pw db = (r, db')"
  shows "(ad_sessions db' = ad_sessions db \<and> (\<forall>i ro ps. r \<noteq> LoggedIn i ro ps)) \<or>
    (\<exists>u s ro ps. r = LoggedIn (us_id u) ro ps \<and> find_user_by_login (Some name) db = Some u \<and>
       us_status u = ''active'' \<and> \<not> account_locked now u \<and> verify_password h (us_hash u) pw \<and>
       ad_sessions db' = ad_sessions db @ [s] \<and> se_id s = token \<and> se_user s = us_id u \<and>
       se_expires s = now + minutes (session_absolute_minutes cfg))"
proof (cases rule: login_cases [of cfg h now token ip agent name pw db])
  case (run th)
  with assms have "login_user h cfg now token ip agent name pw (db\<lparr>ad_throttle := th\<rparr>) = (r, db')"
    by simp
  from login_user_sessions [OF this] show ?thesis by simp
qed (use assms in auto)

lemma login_blocked:
  assumes "local_login_enabled cfg" "ip_rate_limit_enabled cfg" "present ip"
    "ip_locked (the ip) now (ad_throttle db)"
  obtains n where "1 \<le> n" "\<And>h token agent name pw.
    login h cfg now token ip agent name pw db = (TooManyAttempts n, audit_event (LoginBlocked name n) db)"
proof -
  obtain i where i: "ip = Some i" using assms(3) by (cases ip) auto
  obtain l r th where c: "check_locked now ip (ad_throttle db) = ((l, r), th)"
    by (metis prod.collapse)
  have l: "l" using check_locked_iff [of i now "ad_throttle db"] c i assms(3,4) by simp
  with c i have th: "th = ad_throttle db"
    by (auto simp: check_locked_def split: option.splits if_splits)
  have "login h cfg now token ip agent name pw db =
      (TooManyAttempts (max 1 (r div 1000000)), audit_event (LoginBlocked name (max 1 (r div 1000000))) db)"
    for h token agent name pw
    using assms(1-3) c l th by (simp add: login_def Let_def)
  then show thesis by (rule that [rotated]) simp
qed

text \<open>
  Lemma. The local handler creates a session only for a sign-in with the correct password of an active, unlocked
  account, from an address that is not locked out, while local login is on; it is a single new
  session with the caller's token, bound to that account and with the absolute lifetime. Every
  other answer leaves the session table untouched.
\<close>
lemma login_session_requires_password:
  assumes "login h cfg now token ip agent name pw db = (r, db')"
    and "ad_sessions db' \<noteq> ad_sessions db \<or> (\<exists>i ro ps. r = LoggedIn i ro ps)"
  shows "local_login_enabled cfg \<and>
    (ip_rate_limit_enabled cfg \<and> present ip \<longrightarrow> \<not> ip_locked (the ip) now (ad_throttle db)) \<and>
    (\<exists>u s ro ps. r = LoggedIn (us_id u) ro ps \<and> find_user_by_login (Some name) db = Some u \<and>
       us_status u = ''active'' \<and> \<not> account_locked now u \<and> verify_password h (us_hash u) pw \<and>
       ad_sessions db' = ad_sessions db @ [s] \<and> se_id s = token \<and> se_user s = us_id u \<and>
       se_expires s = now + minutes (session_absolute_minutes cfg))"
proof -
  have on: "local_login_enabled cfg"
    by (rule ccontr) (use assms in \<open>auto simp: login_def\<close>)
  moreover have "\<not> ip_locked (the ip) now (ad_throttle db)"
    if gate: "ip_rate_limit_enabled cfg" "present ip"
    by (rule notI, rule login_blocked [OF on gate], assumption) (use assms in auto)
  ultimately show ?thesis using login_sessions [OF assms(1)] assms(2) by blast
qed

section \<open>The account lock\<close>

text \<open>A list of attempts against one name, each with its instant, address and password.\<close>

fun run_logins ::
  "hasher \<Rightarrow> auth_cfg \<Rightarrow> string \<Rightarrow> (int \<times> string option \<times> string) list \<Rightarrow> auth_db \<Rightarrow> login_result list \<times> auth_db" where
  "run_logins h cfg name [] db = ([], db)"
| "run_logins h cfg name ((now, ip, pw) # rest) db =
     (let (r, db1) = login h cfg now [] ip None name pw db;
          (rs, db2) = run_logins h cfg name rest db1
      in (r # rs, db2))"

lemma count_bad_password_sel [simp]:
  "us_id (count_bad_password cfg now u) = us_id u"
  "us_username (count_bad_password cfg now u) = us_username u"
  "us_email (count_bad_password cfg now u) = us_email u"
  "us_status (count_bad_password cfg now u) = us_status u"
  "us_hash (count_bad_password cfg now u) = us_hash u"
  by (simp_all add: count_bad_password_def Let_def)

lemma find_replaced:
  assumes "find P xs = Some x" "inj_on k (set xs)" "P x' = P x"
  shows "find P (map (\<lambda>y. if k y = k x then x' else y) xs) = Some x'"
  using assms
proof (induction xs)
  case (Cons y ys)
  show ?case
  proof (cases "P y")
    case True
    with Cons.prems show ?thesis by auto
  next
    case False
    with Cons.prems have f: "find P ys = Some x" by simp
    then have "x \<in> set ys" "P x" by (auto dest: find_SomeD)
    with Cons.prems False have "k y \<noteq> k x" by (auto simp: inj_on_def)
    with False f Cons show ?thesis by (auto simp: inj_on_def)
  qed
qed simp

lemma inj_replaced:
  "inj_on k (set xs) \<Longrightarrow> k x' = k x \<Longrightarrow> inj_on k (set (map (\<lambda>y. if k y = k x then x' else y) xs))"
  unfolding inj_on_def by (auto split: if_splits)

lemma find_user_put:
  assumes "find_user_by_login n db = Some u" "inj_on us_id (set (ad_users db))"
    "us_id u' = us_id u" "us_username u' = us_username u" "us_email u' = us_email u"
  shows "find_user_by_login n (put_user u' db) = Some u'"
  using find_replaced [OF assms(1) [unfolded find_user_by_login_def Let_def] assms(2), of u'] assms(3-)
  by (simp add: find_user_by_login_def Let_def)

lemma put_user_inj:
  "inj_on us_id (set (ad_users db)) \<Longrightarrow> inj_on us_id (set (ad_users (put_user u db)))"
  using inj_replaced [of us_id "ad_users db" u u] by simp

text \<open>The gate in front of the handler does not show in the users or the sessions.\<close>

lemma find_user_ip_failure [simp]:
  "find_user_by_login n (ip_failure cfg now ip db) = find_user_by_login n db"
  "find_user_by_login n (audit_event e db) = find_user_by_login n db"
  by (simp_all add: find_user_by_login_def)

lemma login_bad_password:
  assumes "find_user_by_login (Some name) db = Some u" "us_status u = ''active''"
    "\<not> verify_password h (us_hash u) pw"
    "login h cfg now token ip agent name pw db = (InvalidCredentials, db')"
  shows "\<not> account_locked now u" "ad_users db' = ad_users (put_user (count_bad_password cfg now u) db)"
    "ad_sessions db' = ad_sessions db"
proof -
  have "\<not> account_locked now u \<and> ad_users db' = ad_users (put_user (count_bad_password cfg now u) db)
      \<and> ad_sessions db' = ad_sessions db"
  proof (cases rule: login_cases [of cfg h now token ip agent name pw db])
    case (run th)
    with assms show ?thesis by (auto simp: login_user_def put_user_def split: if_splits)
  qed (use assms in auto)
  then show "\<not> account_locked now u" "ad_users db' = ad_users (put_user (count_bad_password cfg now u) db)"
    "ad_sessions db' = ad_sessions db" by auto
qed

lemma login_locked_account:
  assumes "find_user_by_login (Some name) db = Some u" "us_status u = ''active''" "account_locked now u"
    "local_login_enabled cfg" "login h cfg now token ip agent name pw db = (r, db')"
  shows "r = AccountLocked \<or> (\<exists>n. r = TooManyAttempts n)" "ad_sessions db' = ad_sessions db"
    "ad_users db' = ad_users db"
proof -
  have "(r = AccountLocked \<or> (\<exists>n. r = TooManyAttempts n)) \<and> ad_sessions db' = ad_sessions db \<and> ad_users db' = ad_users db"
  proof (cases rule: login_cases [of cfg h now token ip agent name pw db])
    case (run th)
    with assms show ?thesis by (auto simp: login_user_def)
  qed (use assms in auto)
  then show "r = AccountLocked \<or> (\<exists>n. r = TooManyAttempts n)" "ad_sessions db' = ad_sessions db"
    "ad_users db' = ad_users db" by auto
qed

lemma find_user_cong: "ad_users db = ad_users db' \<Longrightarrow> find_user_by_login n db = find_user_by_login n db'"
  by (simp add: find_user_by_login_def)

lemma run_logins_lock:
  assumes "run_logins h cfg name es db = (rs, db')" "find_user_by_login (Some name) db = Some u"
    "us_status u = ''active''" "inj_on us_id (set (ad_users db))"
    "\<forall>(now, ip, pw)\<in>set es. \<not> verify_password h (us_hash u) pw" "\<forall>r\<in>set rs. r = InvalidCredentials"
    "es \<noteq> []" "int (us_failed u) + int (length es) = max 1 (max_failed_attempts cfg)"
  shows "\<exists>u'. find_user_by_login (Some name) db' = Some u' \<and> us_status u' = ''active'' \<and>
    us_locked_until u' = Some (fst (last es) + minutes (lockout_minutes cfg)) \<and> ad_sessions db' = ad_sessions db"
  using assms
proof (induction es arbitrary: db rs u)
  case (Cons e es)
  obtain now ip pw where e: "e = (now, ip, pw)" by (cases e)
  obtain r db1 where l: "login h cfg now [] ip None name pw db = (r, db1)" by fastforce
  obtain rs' db2 where rr: "run_logins h cfg name es db1 = (rs', db2)" by fastforce
  from Cons.prems(1) e l rr have rs: "rs = r # rs'" "db2 = db'" by auto
  let ?u = "count_bad_password cfg now u"
  from Cons.prems rs l e have l': "login h cfg now [] ip None name pw db = (InvalidCredentials, db1)"
    and bad: "\<not> verify_password h (us_hash u) pw" by auto
  note b = login_bad_password [OF Cons.prems(2,3) bad l']
  have f1: "find_user_by_login (Some name) db1 = Some ?u"
    using find_user_put [OF Cons.prems(2,4), of ?u] find_user_cong [OF b(2)] by simp
  show ?case
  proof (cases "es = []")
    case True
    with Cons.prems rs rr e f1 b show ?thesis
      by (auto simp: count_bad_password_def Let_def)
  next
    case False
    with Cons.prems(8) have n: "int (us_failed u) + 1 < max_failed_attempts cfg"
      by (cases es) auto
    then have fl: "us_failed ?u = us_failed u + 1" by (simp add: count_bad_password_def Let_def)
    have "inj_on us_id (set (ad_users db1))" by (simp only: b(2) put_user_inj [OF Cons.prems(4)])
    from Cons.IH [OF rr [unfolded rs(2)] f1 _ this] Cons.prems rs False fl b(3) show ?thesis by auto
  qed
qed simp

text \<open>
  Lemma. Consecutive wrong passwords lock the account: when the failures counted so far and a run of
  wrong passwords that the handler answered with the generic refusal together reach the limit, every
  attempt before the last failure plus the lockout period - the right password included, from
  whatever address - is refused, creates no session and changes no account.
\<close>
lemma account_lockout:
  assumes "run_logins h cfg name es db = (rs, db')" "\<forall>r\<in>set rs. r = InvalidCredentials"
    and "find_user_by_login (Some name) db = Some u" "us_status u = ''active''"
    and "inj_on us_id (set (ad_users db))" "local_login_enabled cfg"
    and "\<forall>(now, ip, pw)\<in>set es. \<not> verify_password h (us_hash u) pw" "es \<noteq> []"
    and "int (us_failed u) + int (length es) = max 1 (max_failed_attempts cfg)"
    and "t < fst (last es) + minutes (lockout_minutes cfg)"
    and "login h cfg t token ip agent name pw db' = (r, db'')"
  shows "(r = AccountLocked \<or> (\<exists>n. r = TooManyAttempts n)) \<and>
    ad_sessions db'' = ad_sessions db \<and> ad_users db'' = ad_users db'"
proof -
  obtain u' where u': "find_user_by_login (Some name) db' = Some u'" "us_status u' = ''active''"
      "us_locked_until u' = Some (fst (last es) + minutes (lockout_minutes cfg))" "ad_sessions db' = ad_sessions db"
    using run_logins_lock [OF assms(1,3,4,5,7,2,8,9)] by blast
  have "account_locked t u'" using u'(3) assms(10) by (simp add: account_locked_def)
  from login_locked_account [OF u'(1,2) this assms(6,11)] u'(4) show ?thesis by simp
qed

section \<open>Sessions stop working for good\<close>

text \<open>
  Everything that touches the session table after a cookie was handed out. Tokens are 32 random
  bytes, so a token that has been issued is never issued again: \<open>sid\<close> is not the token
  of a later sign-in.
\<close>

inductive auth_step :: "hasher \<Rightarrow> auth_cfg \<Rightarrow> string \<Rightarrow> auth_db \<Rightarrow> auth_db \<Rightarrow> bool"
  for h cfg sid where
  login: "token \<noteq> sid \<Longrightarrow> auth_step h cfg sid db (snd (login h cfg now token ip agent name pw db))"
| resolve: "auth_step h cfg sid db (snd (resolve_session cfg now s db))"
| slide: "auth_step h cfg sid db (slide_now ok s now db)"
| logout: "auth_step h cfg sid db (logout cookie db)"
| revoke_all: "auth_step h cfg sid db (snd (revoke_all_for_user uid db))"
| purge: "auth_step h cfg sid db (snd (purge_stale_sessions cfg now days db))"
| act_as: "auth_step h cfg sid db (snd (set_active_role dev cookie assigned want actor db))"
| change_password: "auth_step h cfg sid db (snd (change_password h cfg uid cur pw db))"

inductive auth_steps :: "hasher \<Rightarrow> auth_cfg \<Rightarrow> string \<Rightarrow> auth_db \<Rightarrow> auth_db \<Rightarrow> bool"
  for h cfg sid where
  refl: "auth_steps h cfg sid db db"
| step: "auth_steps h cfg sid db db1 \<Longrightarrow> auth_step h cfg sid db1 db2 \<Longrightarrow> auth_steps h cfg sid db db2"

definition dead :: "string \<Rightarrow> auth_db \<Rightarrow> bool" where
  "dead sid db \<longleftrightarrow> (\<forall>s\<in>set (ad_sessions db). se_id s = sid \<longrightarrow> se_revoked s)"

lemma deadI_map:
  "dead sid db \<Longrightarrow> ad_sessions db' = map f (ad_sessions db) \<Longrightarrow>
   (\<And>s. se_id (f s) = se_id s) \<Longrightarrow> (\<And>s. se_revoked s \<Longrightarrow> se_revoked (f s)) \<Longrightarrow> dead sid db'"
  by (auto simp: dead_def)

lemma deadI_same: "dead sid db \<Longrightarrow> ad_sessions db' = ad_sessions db \<Longrightarrow> dead sid db'"
  by (simp add: dead_def)

lemma dead_no_resolve: "dead sid db \<Longrightarrow> resolve_session cfg now sid db = (None, db)"
  by (auto simp: dead_def resolve_session_def get_session_def split: option.splits dest: find_SomeD)

lemma resolve_session_sessions [simp]:
  "ad_sessions (snd (resolve_session cfg now s db)) = ad_sessions db"
  by (auto simp: resolve_session_def schedule_slide_def split: option.splits)

lemma change_password_sessions [simp]:
  "ad_sessions (snd (change_password h cfg uid cur pw db)) = ad_sessions db"
  by (auto simp: change_password_def split: option.splits)

lemma auth_step_dead [keeps]:
  assumes "auth_step h cfg sid db db'" "dead sid db"
  shows "dead sid db'"
  using assms(1)
proof (cases rule: auth_step.cases)
  case (login token now ip agent name pw)
  obtain r where "login h cfg now token ip agent name pw db = (r, db')"
    using login(1) by (metis prod.collapse)
  from login_sessions [OF this] show ?thesis using assms(2) login(2) by (auto simp: dead_def)
next
  case (slide ok s now)
  show ?thesis
    by (rule deadI_map [OF assms(2), where f = "\<lambda>x. if ok \<and> se_id x = s then x\<lparr>se_last_seen := now\<rparr> else x"])
      (auto simp: slide slide_now_def)
next
  case (logout cookie)
  show ?thesis
    by (rule deadI_map [OF assms(2), where f = "\<lambda>x. if str_or cookie [] \<noteq> [] \<and> se_id x = str_or cookie []
        then x\<lparr>se_revoked := True\<rparr> else x"])
      (auto simp: logout logout_def revoke_session_def)
next
  case (revoke_all uid)
  show ?thesis
    by (rule deadI_map [OF assms(2), where f = "\<lambda>x. if se_user x = uid \<and> \<not> se_revoked x
        then x\<lparr>se_revoked := True\<rparr> else x"])
      (auto simp: revoke_all revoke_all_for_user_def)
next
  case (purge now days)
  then show ?thesis using assms(2) by (auto simp: dead_def purge_stale_sessions_def)
next
  case (act_as dev cookie assigned want actor)
  then show ?thesis using assms(2)
    by (auto simp: dead_def set_active_role_def Let_def split: option.splits)
next
  case (resolve now s)
  show ?thesis by (rule deadI_same [OF assms(2)]) (simp only: resolve resolve_session_sessions)
next
  case (change_password uid cur pw)
  show ?thesis by (rule deadI_same [OF assms(2)]) (simp only: change_password change_password_sessions)
qed

lemma auth_steps_dead: "auth_steps h cfg sid db db' \<Longrightarrow> dead sid db \<Longrightarrow> dead sid db'"
  by (induction rule: auth_steps.induct) (auto intro: keeps)

lemma dead_map: "dead sid (db\<lparr>ad_sessions := map f (ad_sessions db)\<rparr>) \<longleftrightarrow>
    (\<forall>s\<in>set (ad_sessions db). se_id (f s) = sid \<longrightarrow> se_revoked (f s))"
  unfolding dead_def by (simp del: map_map image_Un)

lemma logout_dead: "sid \<noteq> [] \<Longrightarrow> dead sid (logout (Some sid) db)"
  by (simp add: logout_def str_or_def revoke_session_def dead_map)

lemma revoke_all_dead:
  "s \<in> set (ad_sessions db) \<Longrightarrow> inj_on se_id (set (ad_sessions db)) \<Longrightarrow>
   dead (se_id s) (snd (revoke_all_for_user (se_user s) db))"
  by (simp add: revoke_all_for_user_def dead_map inj_on_def) metis

text \<open>
  C6. A session ended by signing out, or by revoking every session of its user, never
  authenticates a request again, whatever sign-ins, queued heartbeats, purges, role switches and
  password changes follow.
\<close>
theorem revoked_session_never_resolves:
  assumes "db1 = logout (Some sid) db \<and> sid \<noteq> [] \<or>
      (\<exists>s\<in>set (ad_sessions db). se_id s = sid \<and> inj_on se_id (set (ad_sessions db)) \<and>
         db1 = snd (revoke_all_for_user (se_user s) db))"
    and "auth_steps h cfg sid db1 db2"
  shows "resolve_session cfg now sid db2 = (None, db2)"
proof -
  have "dead sid db1" using assms(1) by (auto simp: logout_dead revoke_all_dead)
  from auth_steps_dead [OF assms(2) this] show ?thesis by (rule dead_no_resolve)
qed

section \<open>What authenticates\<close>

lemma resolve_session_Some:
  "fst (resolve_session cfg now sid db) = Some (s, u) \<longleftrightarrow>
     get_session sid db = Some s \<and> get_user (se_user s) db = Some u \<and> \<not> se_revoked s \<and>
     now \<le> se_expires s \<and> now \<le> se_last_seen s + minutes (session_idle_minutes cfg) \<and> us_status u = ''active''"
  by (auto simp: resolve_session_def split: option.splits)

lemma find_filter_unique:
  assumes "inj_on k (set xs)"
  shows "find (\<lambda>x. k x = v) (filter Q xs) = (case find (\<lambda>x. k x = v) xs of Some x \<Rightarrow> if Q x then Some x else None | None \<Rightarrow> None)"
  using assms
proof (induction xs)
  case (Cons x xs)
  have "find (\<lambda>x. k x = v) (filter Q xs) = None" if "k x = v" "\<not> Q x"
    using Cons.prems that by (auto simp: find_None_iff inj_on_def)
  with Cons show ?case by (auto simp: inj_on_def)
qed simp

text \<open>
  Lemma. The nightly purge is invisible to signed-in users: a session answers the same before and
  after a purge run, at the time of the purge and later, for every retention that is not negative;
  and what resolves is a row that is neither revoked nor expired nor idle, of an active user.
\<close>
lemma purge_keeps_live_sessions:
  assumes "inj_on se_id (set (ad_sessions db))" "0 \<le> days" "now \<le> t"
  shows "fst (resolve_session cfg t sid (snd (purge_stale_sessions cfg now days db))) =
      fst (resolve_session cfg t sid db) \<and>
    (fst (resolve_session cfg t sid db) = Some (s, u) \<longleftrightarrow>
     get_session sid db = Some s \<and> get_user (se_user s) db = Some u \<and> \<not> se_revoked s \<and>
     t \<le> se_expires s \<and> t \<le> se_last_seen s + minutes (session_idle_minutes cfg) \<and> us_status u = ''active'')"
proof -
  have g: "get_session sid (snd (purge_stale_sessions cfg now days db)) =
      (case get_session sid db of Some s \<Rightarrow> if stale_session cfg now days s then None else Some s | None \<Rightarrow> None)"
    using find_filter_unique [OF assms(1), of sid "\<lambda>s. \<not> stale_session cfg now days s"]
    by (simp add: get_session_def purge_stale_sessions_def split: option.splits)
  have u: "get_user v (snd (purge_stale_sessions cfg now days db)) = get_user v db" for v
    by (simp add: get_user_def purge_stale_sessions_def)
  have "fst (resolve_session cfg t sid (snd (purge_stale_sessions cfg now days db))) = Some (s', u') \<longleftrightarrow>
      fst (resolve_session cfg t sid db) = Some (s', u')" for s' u'
    unfolding resolve_session_Some g u using assms(2,3)
    by (auto simp: stale_session_def Let_def split: option.splits)
  then have "fst (resolve_session cfg t sid (snd (purge_stale_sessions cfg now days db))) =
      fst (resolve_session cfg t sid db)"
    by (metis not_Some_eq prod.collapse)
  with resolve_session_Some show ?thesis by blast
qed

section \<open>Example\<close>

definition example_hasher :: hasher where
  "example_hasher = \<lparr>h_verify = (\<lambda>hash pw. hash = ''#'' @ pw), h_hash = (\<lambda>pw. ''#'' @ pw), h_stale = (\<lambda>_. False)\<rparr>"

definition example_user :: account where
  "example_user = \<lparr>us_id = ''u1'', us_tenant = ''default'', us_default_role = None, us_username = ''ann'', us_email = ''ann@x'', us_display = ''Ann'',
     us_status = ''active'', us_hash = Some ''#pw'', us_failed = 0, us_locked_until = None,
     us_must_change = False, us_source = ''local'', us_last_login = None, us_idp = None, us_subject = None\<rparr>"

definition example_auth_cfg :: auth_cfg where
  "example_auth_cfg = \<lparr>local_login_enabled = True, max_failed_attempts = 2, lockout_minutes = 15,
     session_idle_minutes = 60, session_absolute_minutes = 720, ip_rate_limit_enabled = True,
     ip_limits = \<lparr>max_attempts = 5, window = 600000000, lockout = 900000000\<rparr>,
     password_min_length = 8, password_require_complexity = False\<rparr>"

definition example_db :: auth_db where
  "example_db = \<lparr>ad_dir = \<lparr>di_roles = [], di_groups = [], di_user_roles = [], di_user_groups = []\<rparr>,
     ad_users = [example_user], ad_sessions = [], ad_throttle = [], ad_slides = [], ad_audit = []\<rparr>"

definition example_login :: "int \<Rightarrow> string \<Rightarrow> auth_db \<Rightarrow> login_result \<times> auth_db" where
  "example_login now pw = login example_hasher example_auth_cfg now ''t1'' (Some ''8.8.8.8'') None ''Ann '' pw"

lemmas example_defs = example_login_def example_db_def example_user_def example_auth_cfg_def example_hasher_def

lemma example_login_ok: "\<exists>i ro ps. fst (example_login 5 ''pw'' example_db) = LoggedIn i ro ps"
proof -
  have "(case fst (example_login 5 ''pw'' example_db) of LoggedIn i ro ps \<Rightarrow> True | _ \<Rightarrow> False)"
    by code_simp
  then show ?thesis by (cases "fst (example_login 5 ''pw'' example_db)") auto
qed

definition example_attempts :: "(int \<times> string option \<times> string) list" where
  "example_attempts = [(0, Some ''8.8.8.8'', ''x''), (7, Some ''9.9.9.9'', ''y'')]"

lemma account_lockout_witness:
  "\<exists>rs db'. run_logins example_hasher example_auth_cfg ''ann'' example_attempts example_db = (rs, db') \<and>
     (\<exists>r. fst (login example_hasher example_auth_cfg 60000000 ''t1'' None None ''ann'' ''pw'' db') = r \<and>
        (r = AccountLocked \<or> (\<exists>n. r = TooManyAttempts n)))"
proof -
  obtain rs db' where run: "run_logins example_hasher example_auth_cfg ''ann'' example_attempts example_db = (rs, db')"
    by fastforce
  have "fst (run_logins example_hasher example_auth_cfg ''ann'' example_attempts example_db) =
      [InvalidCredentials, InvalidCredentials]" by code_simp
  with run have rs: "\<forall>r\<in>set rs. r = InvalidCredentials" by simp
  have u: "find_user_by_login (Some ''ann'') example_db = Some example_user" by code_simp
  obtain r db'' where l: "login example_hasher example_auth_cfg 60000000 ''t1'' None None ''ann'' ''pw'' db' = (r, db'')"
    by fastforce
  have "(r = AccountLocked \<or> (\<exists>n. r = TooManyAttempts n)) \<and>
      ad_sessions db'' = ad_sessions example_db \<and> ad_users db'' = ad_users db'"
    by (rule account_lockout [OF run rs u _ _ _ _ _ _ _ l])
      (simp_all add: example_defs example_attempts_def verify_password_def minutes_def)
  with run l show ?thesis by auto
qed

definition example_session :: session where
  "example_session = \<lparr>se_id = ''t0'', se_user = ''u1'', se_created = 0, se_last_seen = 0, se_expires = 1000,
     se_ip = None, se_agent = [], se_revoked = False, se_active_role = None\<rparr>"

definition example_db_signed_in :: auth_db where
  "example_db_signed_in = example_db\<lparr>ad_sessions := [example_session]\<rparr>"

theorem revoked_session_never_resolves_witness:
  "fst (resolve_session example_auth_cfg 9 ''t0'' example_db_signed_in) \<noteq> None \<and>
   fst (resolve_session example_auth_cfg 9 ''t0''
     (snd (example_login 8 ''pw'' (logout (Some ''t0'') example_db_signed_in)))) = None"
proof -
  have "auth_steps example_hasher example_auth_cfg ''t0'' (logout (Some ''t0'') example_db_signed_in)
      (snd (example_login 8 ''pw'' (logout (Some ''t0'') example_db_signed_in)))"
    unfolding example_login_def by (rule auth_steps.step [OF auth_steps.refl auth_step.login]) simp
  from revoked_session_never_resolves [OF _ this, where db = example_db_signed_in and now = 9]
  have "fst (resolve_session example_auth_cfg 9 ''t0''
     (snd (example_login 8 ''pw'' (logout (Some ''t0'') example_db_signed_in)))) = None" by simp
  moreover have "\<not> Option.is_none (fst (resolve_session example_auth_cfg 9 ''t0'' example_db_signed_in))"
    by code_simp
  ultimately show ?thesis by (auto simp: Option.is_none_def)
qed

lemma purge_keeps_live_sessions_witness:
  "fst (resolve_session example_auth_cfg 9 ''t0'' (snd (purge_stale_sessions example_auth_cfg 5 0 example_db_signed_in))) =
     Some (example_session, example_user)"
proof -
  have g: "get_session ''t0'' example_db_signed_in = Some example_session"
    and u: "get_user ''u1'' example_db_signed_in = Some example_user"
    by (simp_all add: get_session_def get_user_def example_db_signed_in_def example_session_def example_defs)
  have "inj_on se_id (set (ad_sessions example_db_signed_in))"
    by (simp add: example_db_signed_in_def)
  from purge_keeps_live_sessions [OF this, of 0 5 9 example_auth_cfg "''t0''" example_session example_user]
  show ?thesis using g u
    by (simp add: example_session_def example_user_def example_auth_cfg_def minutes_def)
qed

end
