(* ===== verification/User_Admin.thy ===== *)
theory User_Admin
  imports Auth_Login
begin

text \<open>
  User, group and session administration: the handlers of \<^verbatim>\<open>app/api/users.py\<close> that
  write. Each runs in one transaction and the ones that can take away administrator rights first lock the
  built-in role row, so a handler is one atomic step on the database. The unique index on the e-mail
  column (\<^verbatim>\<open>app/models/auth.py\<close>) makes a clashing update fail as a whole.
\<close>

section \<open>Requests\<close>

record user_create =
  uc_username :: string
  uc_email :: string
  uc_display :: string
  uc_password :: "string option"
  uc_roles :: "string list"
  uc_groups :: "string list"
  uc_must_change :: bool

record user_update =
  uu_email :: "string option"
  uu_display :: "string option"
  uu_status :: "string option"
  uu_roles :: "string list option"
  uu_groups :: "string list option"

text \<open>Who is asking: the user id and the tenant.\<close>

record caller =
  ca_subject :: string
  ca_tenant :: string

datatype admin_error =
    UserExists | RolesUnavailable | GroupsUnavailable | PasswordShort | UserNotFound | BadStatus
  | OwnAccount | LastAdmin | UniqueViolation | GroupNotFound | GroupExists | SessionNotFound

type_synonym outcome = "(admin_error, unit) result \<times> auth_db"

section \<open>Checks\<close>

definition tenant_user :: "caller \<Rightarrow> string \<Rightarrow> auth_db \<Rightarrow> account option" where
  "tenant_user p uid db = find (\<lambda>u. us_id u = uid \<and> us_tenant u = ca_tenant p) (ad_users db)"

definition valid_role_ids :: "caller \<Rightarrow> string list \<Rightarrow> auth_db \<Rightarrow> bool" where
  "valid_role_ids p rids db \<longleftrightarrow> set rids = {} \<or>
     set (map ro_id (filter (\<lambda>r. ro_id r \<in> set rids \<and> visible_role (ca_tenant p) r) (di_roles (ad_dir db)))) = set rids"

definition valid_group_ids :: "caller \<Rightarrow> string list \<Rightarrow> auth_db \<Rightarrow> bool" where
  "valid_group_ids p gids db \<longleftrightarrow> set gids = {} \<or>
     set (map gr_id (filter (\<lambda>g. gr_id g \<in> set gids \<and> gr_tenant g = ca_tenant p) (di_groups (ad_dir db)))) = set gids"

definition admin_role :: "auth_db \<Rightarrow> role option" where
  "admin_role db = find (is_builtin ''admin'') (di_roles (ad_dir db))"

definition user_role_ids :: "string \<Rightarrow> auth_db \<Rightarrow> string list" where
  "user_role_ids uid db = rows_for uid (di_user_roles (ad_dir db))"

text \<open>\<open>_ensure_not_last_admin\<close>: true when the change may go ahead.\<close>

definition ensure_not_last_admin ::
  "caller \<Rightarrow> account \<Rightarrow> string list option \<Rightarrow> string option \<Rightarrow> auth_db \<Rightarrow> bool" where
  "ensure_not_last_admin p u new_roles new_status db =
     (if us_status u \<noteq> ''active'' then True
      else case admin_role db of
        None \<Rightarrow> True
      | Some adm \<Rightarrow>
          (let current = user_role_ids (us_id u) db;
               user_is_admin = ro_id adm \<in> set current;
               will_be_admin = (case new_status of None \<Rightarrow> us_status u | Some s \<Rightarrow> s) = ''active'' \<and>
                 ro_id adm \<in> set (case new_roles of None \<Rightarrow> current | Some rs \<Rightarrow> rs)
           in if user_is_admin \<and> \<not> will_be_admin
              then list_ex (\<lambda>(uid, rid). rid = ro_id adm \<and> uid \<noteq> us_id u \<and>
                     list_ex (\<lambda>x. us_id x = uid \<and> us_tenant x = ca_tenant p \<and> us_status x = ''active'') (ad_users db))
                   (di_user_roles (ad_dir db))
              else True))"

definition upd_dir :: "(directory \<Rightarrow> directory) \<Rightarrow> auth_db \<Rightarrow> auth_db" where
  "upd_dir f db = db\<lparr>ad_dir := f (ad_dir db)\<rparr>"

section \<open>Users\<close>

definition create_user :: "hasher \<Rightarrow> auth_cfg \<Rightarrow> string \<Rightarrow> caller \<Rightarrow> user_create \<Rightarrow> auth_db \<Rightarrow> outcome" where
  "create_user h cfg fresh p b db =
     (let uname = py_lower (py_strip (uc_username b)); email = py_lower (py_strip (uc_email b)) in
      if list_ex (\<lambda>u. us_username u = uname \<or> us_email u = email) (ad_users db) then (Inl UserExists, db)
      else if \<not> valid_role_ids p (uc_roles b) db then (Inl RolesUnavailable, db)
      else if \<not> valid_group_ids p (uc_groups b) db then (Inl GroupsUnavailable, db)
      else if str_or (uc_password b) [] \<noteq> [] \<and> int (length (the (uc_password b))) < password_min_length cfg
      then (Inl PasswordShort, db)
      else
        let has_pw = str_or (uc_password b) [] \<noteq> [];
            u = \<lparr>us_id = fresh, us_tenant = ca_tenant p, us_default_role = None, us_username = uname,
              us_email = email, us_display = (if uc_display b = [] then uname else uc_display b),
              us_status = ''active'',
              us_hash = (if has_pw then Some (h_hash h (the (uc_password b))) else None), us_failed = 0,
              us_locked_until = None, us_must_change = (has_pw \<and> uc_must_change b),
              us_source = ''local'', us_last_login = None, us_idp = None, us_subject = None\<rparr>;
            db1 = db\<lparr>ad_users := ad_users db @ [u]\<rparr>;
            db2 = (if uc_roles b \<noteq> [] then upd_dir (set_user_roles fresh (uc_roles b)) db1 else db1);
            db3 = (if uc_groups b \<noteq> [] then upd_dir (set_user_groups fresh (uc_groups b)) db2 else db2)
        in (Inr (), db3))"

definition update_user :: "caller \<Rightarrow> string \<Rightarrow> user_update \<Rightarrow> auth_db \<Rightarrow> outcome" where
  "update_user p uid b db =
     (case tenant_user p uid db of
        None \<Rightarrow> (Inl UserNotFound, db)
      | Some u \<Rightarrow>
          (if (case uu_roles b of None \<Rightarrow> False | Some rs \<Rightarrow> \<not> valid_role_ids p rs db) then (Inl RolesUnavailable, db)
           else if (case uu_groups b of None \<Rightarrow> False | Some gs \<Rightarrow> \<not> valid_group_ids p gs db)
           then (Inl GroupsUnavailable, db)
           else if (case uu_status b of None \<Rightarrow> False | Some s \<Rightarrow> s \<notin> {''active'', ''disabled''}) then (Inl BadStatus, db)
           else if uu_status b = Some ''disabled'' \<and> us_id u = ca_subject p then (Inl OwnAccount, db)
           else if (uu_roles b \<noteq> None \<or> uu_status b \<noteq> None) \<and>
             \<not> ensure_not_last_admin p u (uu_roles b) (uu_status b) db then (Inl LastAdmin, db)
           else
             let u' = u\<lparr>us_email := (case uu_email b of None \<Rightarrow> us_email u | Some e \<Rightarrow> py_lower (py_strip e)),
                        us_display := (case uu_display b of None \<Rightarrow> us_display u | Some d \<Rightarrow> d),
                        us_status := (case uu_status b of None \<Rightarrow> us_status u | Some s \<Rightarrow> s),
                        us_locked_until := None\<rparr>
             in if list_ex (\<lambda>x. us_id x \<noteq> us_id u \<and> us_email x = us_email u') (ad_users db) then (Inl UniqueViolation, db)
             else
               let db1 = put_user u' db;
                   db2 = (if uu_status b = Some ''disabled'' then snd (revoke_all_for_user (us_id u) db1) else db1);
                   db3 = (case uu_roles b of None \<Rightarrow> db2 | Some rs \<Rightarrow> upd_dir (set_user_roles (us_id u) rs) db2);
                   db4 = (case uu_groups b of None \<Rightarrow> db3 | Some gs \<Rightarrow> upd_dir (set_user_groups (us_id u) gs) db3)
               in (Inr (), db4)))"

definition reset_password ::
  "hasher \<Rightarrow> auth_cfg \<Rightarrow> caller \<Rightarrow> string \<Rightarrow> string \<Rightarrow> bool \<Rightarrow> auth_db \<Rightarrow> outcome" where
  "reset_password h cfg p uid pw must db =
     (case tenant_user p uid db of
        None \<Rightarrow> (Inl UserNotFound, db)
      | Some u \<Rightarrow>
          (if int (length pw) < password_min_length cfg then (Inl PasswordShort, db)
           else (Inr (), snd (revoke_all_for_user (us_id u)
             (put_user (u\<lparr>us_hash := Some (h_hash h pw), us_must_change := must, us_source := ''local'',
                us_locked_until := None, us_failed := 0\<rparr>) db)))))"

definition revoke_sessions :: "caller \<Rightarrow> string \<Rightarrow> auth_db \<Rightarrow> outcome" where
  "revoke_sessions p uid db =
     (case tenant_user p uid db of
        None \<Rightarrow> (Inl UserNotFound, db)
      | Some _ \<Rightarrow> (Inr (), snd (revoke_all_for_user uid db)))"

definition delete_user :: "caller \<Rightarrow> string \<Rightarrow> auth_db \<Rightarrow> outcome" where
  "delete_user p uid db =
     (case tenant_user p uid db of
        None \<Rightarrow> (Inl UserNotFound, db)
      | Some u \<Rightarrow>
          (if us_id u = ca_subject p then (Inl OwnAccount, db)
           else if \<not> ensure_not_last_admin p u (Some []) None db then (Inl LastAdmin, db)
           else let db1 = upd_dir (\<lambda>d. d\<lparr>di_user_roles := filter (\<lambda>e. fst e \<noteq> uid) (di_user_roles d),
                        di_user_groups := filter (\<lambda>e. fst e \<noteq> uid) (di_user_groups d)\<rparr>) db;
                    db2 = snd (revoke_all_for_user uid db1)
                in (Inr (), db2\<lparr>ad_users := filter (\<lambda>x. us_id x \<noteq> uid) (ad_users db2)\<rparr>)))"

section \<open>Groups\<close>

definition create_group :: "string \<Rightarrow> caller \<Rightarrow> string \<Rightarrow> string list \<Rightarrow> auth_db \<Rightarrow> outcome" where
  "create_group fresh p raw rids db =
     (let name = py_strip raw in
      if \<not> valid_role_ids p rids db then (Inl RolesUnavailable, db)
      else if list_ex (\<lambda>g. gr_name g = name \<and> gr_tenant g = ca_tenant p) (di_groups (ad_dir db)) then (Inl GroupExists, db)
      else (Inr (), upd_dir (\<lambda>d. d\<lparr>di_groups := di_groups d @
        [\<lparr>gr_id = fresh, gr_tenant = ca_tenant p, gr_name = name, gr_roles = rids\<rparr>]\<rparr>) db))"

definition tenant_group :: "caller \<Rightarrow> string \<Rightarrow> auth_db \<Rightarrow> group option" where
  "tenant_group p gid db = find (\<lambda>g. gr_id g = gid \<and> gr_tenant g = ca_tenant p) (di_groups (ad_dir db))"

definition update_group :: "caller \<Rightarrow> string \<Rightarrow> string \<Rightarrow> string list \<Rightarrow> auth_db \<Rightarrow> outcome" where
  "update_group p gid raw rids db =
     (case tenant_group p gid db of
        None \<Rightarrow> (Inl GroupNotFound, db)
      | Some g \<Rightarrow>
          (if \<not> valid_role_ids p rids db then (Inl RolesUnavailable, db)
           else let name = py_strip raw in
             if list_ex (\<lambda>x. gr_tenant x = ca_tenant p \<and> gr_name x = name \<and> gr_id x \<noteq> gr_id g) (di_groups (ad_dir db))
             then (Inl GroupExists, db)
             else (Inr (), upd_dir (\<lambda>d. d\<lparr>di_groups := map (\<lambda>x. if gr_id x = gr_id g
               then x\<lparr>gr_name := name, gr_roles := rids\<rparr> else x) (di_groups d)\<rparr>) db)))"

definition delete_group :: "caller \<Rightarrow> string \<Rightarrow> auth_db \<Rightarrow> outcome" where
  "delete_group p gid db =
     (case tenant_group p gid db of
        None \<Rightarrow> (Inl GroupNotFound, db)
      | Some g \<Rightarrow> (Inr (), upd_dir (\<lambda>d. d\<lparr>di_user_groups := filter (\<lambda>e. snd e \<noteq> gid) (di_user_groups d),
           di_groups := filter (\<lambda>x. gr_id x \<noteq> gid) (di_groups d)\<rparr>) db))"

section \<open>Sessions\<close>

text \<open>Rows joined with a user of the caller's tenant.\<close>

definition tenant_session :: "caller \<Rightarrow> auth_db \<Rightarrow> session \<Rightarrow> bool" where
  "tenant_session p db s \<longleftrightarrow> list_ex (\<lambda>u. us_id u = se_user s \<and> us_tenant u = ca_tenant p) (ad_users db)"

definition revoke_one_session :: "caller \<Rightarrow> string \<Rightarrow> auth_db \<Rightarrow> outcome" where
  "revoke_one_session p sid db =
     (if list_ex (\<lambda>s. se_id s = sid \<and> tenant_session p db s) (ad_sessions db)
      then (Inr (), revoke_session sid db) else (Inl SessionNotFound, db))"

definition session_expired :: "auth_cfg \<Rightarrow> int \<Rightarrow> session \<Rightarrow> bool" where
  "session_expired cfg now s \<longleftrightarrow>
     se_expires s < now \<or> se_last_seen s + minutes (session_idle_minutes cfg) < now"

definition revoke_expired_sessions :: "auth_cfg \<Rightarrow> int \<Rightarrow> caller \<Rightarrow> auth_db \<Rightarrow> nat \<times> auth_db" where
  "revoke_expired_sessions cfg now p db =
     (let hit = (\<lambda>s. \<not> se_revoked s \<and> tenant_session p db s \<and> session_expired cfg now s)
      in (length (filter hit (ad_sessions db)),
          db\<lparr>ad_sessions := map (\<lambda>s. if hit s then s\<lparr>se_revoked := True\<rparr> else s) (ad_sessions db)\<rparr>))"

section \<open>Laws\<close>

lemma upd_dir_sel [simp]:
  "ad_users (upd_dir f db) = ad_users db" "ad_sessions (upd_dir f db) = ad_sessions db"
  "ad_dir (upd_dir f db) = f (ad_dir db)"
  by (simp_all add: upd_dir_def)

lemma revoke_all_sel [simp]:
  "ad_users (snd (revoke_all_for_user uid db)) = ad_users db"
  "ad_dir (snd (revoke_all_for_user uid db)) = ad_dir db"
  by (simp_all add: revoke_all_for_user_def)

lemma set_assign_sel [simp]:
  "di_roles (set_user_roles u rs d) = di_roles d" "di_user_groups (set_user_roles u rs d) = di_user_groups d"
  "di_roles (set_user_groups u gs d) = di_roles d" "di_user_roles (set_user_groups u gs d) = di_user_roles d"
  "di_groups (set_user_roles u rs d) = di_groups d" "di_groups (set_user_groups u gs d) = di_groups d"
  by (simp_all add: set_user_roles_def set_user_groups_def)

lemma set_set_rows [simp]:
  "(x, v) \<in> set (set_rows k vs t) \<longleftrightarrow> (if x = k then v \<in> set vs else (x, v) \<in> set t)"
  by (auto simp: set_rows_def)

lemma set_user_roles_rows [simp]:
  "(x, v) \<in> set (di_user_roles (set_user_roles k vs d)) \<longleftrightarrow>
     (if x = k then v \<in> set vs else (x, v) \<in> set (di_user_roles d))"
  by (simp add: set_user_roles_def)

lemma mem_user_role_ids [simp]: "r \<in> set (user_role_ids uid db) \<longleftrightarrow> (uid, r) \<in> set (di_user_roles (ad_dir db))"
  by (force simp: user_role_ids_def rows_for_def)

lemma tenant_userD: "tenant_user p uid db = Some u \<Longrightarrow> u \<in> set (ad_users db) \<and> us_id u = uid \<and> us_tenant u = ca_tenant p"
  unfolding tenant_user_def by (auto dest: find_SomeD)

lemma update_user_Inr:
  assumes "update_user p uid b db = (Inr (), db')"
  obtains u u' where "u \<in> set (ad_users db)" "us_id u = uid" "us_tenant u = ca_tenant p"
    "us_id u' = uid" "us_tenant u' = ca_tenant p"
    "us_status u' = (case uu_status b of None \<Rightarrow> us_status u | Some s \<Rightarrow> s)"
    "(uu_roles b \<noteq> None \<or> uu_status b \<noteq> None) \<longrightarrow> ensure_not_last_admin p u (uu_roles b) (uu_status b) db"
    "ad_users db' = map (\<lambda>x. if us_id x = uid then u' else x) (ad_users db)"
    "di_roles (ad_dir db') = di_roles (ad_dir db)"
    "\<forall>x r. (x, r) \<in> set (di_user_roles (ad_dir db')) \<longleftrightarrow>
       (case uu_roles b of None \<Rightarrow> (x, r) \<in> set (di_user_roles (ad_dir db))
        | Some rs \<Rightarrow> if x = uid then r \<in> set rs else (x, r) \<in> set (di_user_roles (ad_dir db)))"
proof -
  obtain u where tu: "tenant_user p uid db = Some u"
    using assms by (auto simp: update_user_def split: option.splits)
  note u = tenant_userD [OF tu]
  let ?u' = "u\<lparr>us_email := (case uu_email b of None \<Rightarrow> us_email u | Some e \<Rightarrow> py_lower (py_strip e)),
      us_display := (case uu_display b of None \<Rightarrow> us_display u | Some d \<Rightarrow> d),
      us_status := (case uu_status b of None \<Rightarrow> us_status u | Some s \<Rightarrow> s), us_locked_until := None\<rparr>"
  let ?db1 = "put_user ?u' db"
  let ?db2 = "if uu_status b = Some ''disabled'' then snd (revoke_all_for_user (us_id u) ?db1) else ?db1"
  let ?db3 = "case uu_roles b of None \<Rightarrow> ?db2 | Some rs \<Rightarrow> upd_dir (set_user_roles (us_id u) rs) ?db2"
  have g: "uu_roles b \<noteq> None \<or> uu_status b \<noteq> None \<Longrightarrow> ensure_not_last_admin p u (uu_roles b) (uu_status b) db"
    and db': "db' = (case uu_groups b of None \<Rightarrow> ?db3 | Some gs \<Rightarrow> upd_dir (set_user_groups (us_id u) gs) ?db3)"
    using assms unfolding update_user_def tu Let_def by (auto split: if_splits)
  have users: "ad_users db' = map (\<lambda>x. if us_id x = uid then ?u' else x) (ad_users db)"
    and roles: "di_roles (ad_dir db') = di_roles (ad_dir db)"
    using u by (simp_all add: db' split: option.splits)
  have rows: "(x, r) \<in> set (di_user_roles (ad_dir db')) \<longleftrightarrow>
       (case uu_roles b of None \<Rightarrow> (x, r) \<in> set (di_user_roles (ad_dir db))
        | Some rs \<Rightarrow> if x = uid then r \<in> set rs else (x, r) \<in> set (di_user_roles (ad_dir db)))" for x r
    using u by (simp add: db' split: option.splits)
  show thesis
    by (rule that [of u ?u']) (use u g users roles rows in auto)
qed

section \<open>The last administrator\<close>

definition active_admin :: "string \<Rightarrow> auth_db \<Rightarrow> bool" where
  "active_admin tenant db \<longleftrightarrow> (\<exists>adm\<in>set (di_roles (ad_dir db)). is_builtin ''admin'' adm \<and>
     (\<exists>u\<in>set (ad_users db). us_tenant u = tenant \<and> us_status u = ''active'' \<and>
        (us_id u, ro_id adm) \<in> set (di_user_roles (ad_dir db))))"

definition ids_ok :: "auth_db \<Rightarrow> bool" where
  "ids_ok db \<longleftrightarrow> inj_on us_id (set (ad_users db)) \<and> roles_ok (di_roles (ad_dir db))"

lemma active_adminI:
  "adm \<in> set (di_roles (ad_dir db)) \<Longrightarrow> is_builtin ''admin'' adm \<Longrightarrow> u \<in> set (ad_users db) \<Longrightarrow>
   us_tenant u = tenant \<Longrightarrow> us_status u = ''active'' \<Longrightarrow>
   (us_id u, ro_id adm) \<in> set (di_user_roles (ad_dir db)) \<Longrightarrow> active_admin tenant db"
  unfolding active_admin_def by blast

lemma builtin_unique:
  "roles_ok rs \<Longrightarrow> r \<in> set rs \<Longrightarrow> r' \<in> set rs \<Longrightarrow> is_builtin n r \<Longrightarrow> is_builtin n r' \<Longrightarrow> r = r'"
  by (rule visible_name_unique [where t = "''default''"]) (auto simp: is_builtin_def visible_role_def)

lemma admin_role_eq:
  "ids_ok db \<Longrightarrow> adm \<in> set (di_roles (ad_dir db)) \<Longrightarrow> is_builtin ''admin'' adm \<Longrightarrow> admin_role db = Some adm"
  unfolding admin_role_def ids_ok_def
  by (metis builtin_unique find_SomeD find_Some_ex)

text \<open>What the guard leaves: the user stays an administrator, or another one of the tenant exists.\<close>

lemma ensure_keeps:
  assumes "ensure_not_last_admin p u rs st db" "admin_role db = Some adm" "us_status u = ''active''"
    "(us_id u, ro_id adm) \<in> set (di_user_roles (ad_dir db))"
  shows "((case st of None \<Rightarrow> us_status u | Some s \<Rightarrow> s) = ''active'' \<and>
      (case rs of None \<Rightarrow> True | Some xs \<Rightarrow> ro_id adm \<in> set xs)) \<or>
    (\<exists>x\<in>set (ad_users db). us_id x \<noteq> us_id u \<and> us_tenant x = ca_tenant p \<and> us_status x = ''active'' \<and>
      (us_id x, ro_id adm) \<in> set (di_user_roles (ad_dir db)))"
  using assms by (auto simp: ensure_not_last_admin_def Let_def list_ex_iff split: if_splits option.splits)

lemma update_user_admin:
  assumes "ids_ok db" "active_admin t db"
  shows "active_admin t (snd (update_user p uid b db))"
proof (cases "update_user p uid b db")
  case (Pair r db')
  show ?thesis
  proof (cases r)
    case (Inl e)
    then have "db' = db" using Pair
      by (auto simp: update_user_def Let_def split: option.splits if_splits)
    with Pair assms show ?thesis by simp
  next
    case (Inr x)
    then have "update_user p uid b db = (Inr (), db')" using Pair by simp
    then obtain u u' where u: "u \<in> set (ad_users db)" "us_id u = uid" "us_tenant u = ca_tenant p"
      "us_id u' = uid" "us_tenant u' = ca_tenant p"
      and st: "us_status u' = (case uu_status b of None \<Rightarrow> us_status u | Some s \<Rightarrow> s)"
      and g: "(uu_roles b \<noteq> None \<or> uu_status b \<noteq> None) \<longrightarrow> ensure_not_last_admin p u (uu_roles b) (uu_status b) db"
      and us: "ad_users db' = map (\<lambda>x. if us_id x = uid then u' else x) (ad_users db)"
      and ro: "di_roles (ad_dir db') = di_roles (ad_dir db)"
      and rows: "\<forall>x r. (x, r) \<in> set (di_user_roles (ad_dir db')) \<longleftrightarrow>
       (case uu_roles b of None \<Rightarrow> (x, r) \<in> set (di_user_roles (ad_dir db))
        | Some rs \<Rightarrow> if x = uid then r \<in> set rs else (x, r) \<in> set (di_user_roles (ad_dir db)))"
      by (rule update_user_Inr)
    from assms(2) obtain adm w where adm: "adm \<in> set (di_roles (ad_dir db))" "is_builtin ''admin'' adm"
      and w: "w \<in> set (ad_users db)" "us_tenant w = t" "us_status w = ''active''"
        "(us_id w, ro_id adm) \<in> set (di_user_roles (ad_dir db))"
      unfolding active_admin_def by blast
    have adm': "adm \<in> set (di_roles (ad_dir db'))" using adm ro by simp
    have other: "active_admin t db'"
      if "y \<in> set (ad_users db)" "us_id y \<noteq> uid" "us_tenant y = t" "us_status y = ''active''"
        "(us_id y, ro_id adm) \<in> set (di_user_roles (ad_dir db))" for y
      using that us rows by (intro active_adminI [OF adm' adm(2), of y]) (auto split: option.splits)
    have "active_admin t db'"
    proof (cases "us_id w = uid")
      case True
      then have wu: "w = u" using assms(1) w(1) u by (auto simp: ids_ok_def inj_on_def)
      have "((case uu_status b of None \<Rightarrow> us_status u | Some s \<Rightarrow> s) = ''active'' \<and>
          (case uu_roles b of None \<Rightarrow> True | Some xs \<Rightarrow> ro_id adm \<in> set xs)) \<or>
        (\<exists>x\<in>set (ad_users db). us_id x \<noteq> us_id u \<and> us_tenant x = ca_tenant p \<and> us_status x = ''active'' \<and>
          (us_id x, ro_id adm) \<in> set (di_user_roles (ad_dir db)))"
      proof (cases "uu_roles b \<noteq> None \<or> uu_status b \<noteq> None")
        case True
        show ?thesis by (rule ensure_keeps [OF g [rule_format, OF True] admin_role_eq [OF assms(1) adm]]) (use w wu in auto)
      qed (use w wu in simp)
      then show ?thesis
      proof
        assume keep: "(case uu_status b of None \<Rightarrow> us_status u | Some s \<Rightarrow> s) = ''active'' \<and>
          (case uu_roles b of None \<Rightarrow> True | Some xs \<Rightarrow> ro_id adm \<in> set xs)"
        have "u' \<in> set (ad_users db')" using us u by (auto simp: image_iff)
        then show ?thesis
          by (rule active_adminI [OF adm' adm(2)]) (use keep st u w wu rows in \<open>auto split: option.splits\<close>)
      qed (use other u w wu in auto)
    qed (use other w in auto)
    with Pair show ?thesis by simp
  qed
qed

lemma delete_user_admin:
  assumes "ids_ok db" "active_admin t db"
  shows "active_admin t (snd (delete_user p uid db))"
proof (cases "tenant_user p uid db")
  case (Some u)
  note u = tenant_userD [OF Some]
  show ?thesis
  proof (cases "us_id u = ca_subject p \<or> \<not> ensure_not_last_admin p u (Some []) None db")
    case False
    then have g: "ensure_not_last_admin p u (Some []) None db" by simp
    let ?db' = "snd (delete_user p uid db)"
    have us: "ad_users ?db' = filter (\<lambda>x. us_id x \<noteq> uid) (ad_users db)"
      and ro: "di_roles (ad_dir ?db') = di_roles (ad_dir db)"
      and rows: "di_user_roles (ad_dir ?db') = filter (\<lambda>e. fst e \<noteq> uid) (di_user_roles (ad_dir db))"
      using False u by (auto simp: delete_user_def Some Let_def)
    from assms(2) obtain adm w where adm: "adm \<in> set (di_roles (ad_dir db))" "is_builtin ''admin'' adm"
      and w: "w \<in> set (ad_users db)" "us_tenant w = t" "us_status w = ''active''"
        "(us_id w, ro_id adm) \<in> set (di_user_roles (ad_dir db))"
      unfolding active_admin_def by blast
    have "\<exists>y\<in>set (ad_users db). us_id y \<noteq> uid \<and> us_tenant y = t \<and> us_status y = ''active'' \<and>
        (us_id y, ro_id adm) \<in> set (di_user_roles (ad_dir db))"
    proof (cases "us_id w = uid")
      case True
      then have "w = u" using assms(1) w(1) u by (auto simp: ids_ok_def inj_on_def)
      with ensure_keeps [OF g admin_role_eq [OF assms(1) adm]] w u show ?thesis by auto
    qed (use w in auto)
    then show ?thesis using adm unfolding active_admin_def us ro rows by auto
  qed (use assms in \<open>auto simp: delete_user_def Some\<close>)
qed (use assms in \<open>simp add: delete_user_def\<close>)

text \<open>Handlers that cannot take anything away from an administrator.\<close>

lemma active_admin_grow:
  assumes "active_admin t db"
    and "\<And>r. r \<in> set (di_roles (ad_dir db)) \<Longrightarrow> is_builtin ''admin'' r \<Longrightarrow> r \<in> set (di_roles (ad_dir db'))"
    and "\<And>u. u \<in> set (ad_users db) \<Longrightarrow> \<exists>u'\<in>set (ad_users db'). us_id u' = us_id u \<and> us_tenant u' = us_tenant u \<and>
      us_status u' = us_status u"
    and "\<And>u r. (u, r) \<in> set (di_user_roles (ad_dir db)) \<Longrightarrow> u \<in> us_id ` set (ad_users db) \<Longrightarrow>
      (\<exists>adm\<in>set (di_roles (ad_dir db)). is_builtin ''admin'' adm \<and> ro_id adm = r) \<Longrightarrow>
      (u, r) \<in> set (di_user_roles (ad_dir db'))"
  shows "active_admin t db'"
proof -
  from assms(1) obtain adm w where adm: "adm \<in> set (di_roles (ad_dir db))" "is_builtin ''admin'' adm"
    and w: "w \<in> set (ad_users db)" "us_tenant w = t" "us_status w = ''active''"
      "(us_id w, ro_id adm) \<in> set (di_user_roles (ad_dir db))"
    unfolding active_admin_def by blast
  from assms(3) [OF w(1)] obtain w' where w': "w' \<in> set (ad_users db')" "us_id w' = us_id w"
    "us_tenant w' = us_tenant w" "us_status w' = us_status w" by blast
  have "(us_id w, ro_id adm) \<in> set (di_user_roles (ad_dir db'))"
    using assms(4) [OF w(4)] w(1) adm by blast
  with w' w show ?thesis by (intro active_adminI [OF assms(2) [OF adm] adm(2) w'(1)]) auto
qed

lemma create_user_admin:
  assumes "fresh \<notin> us_id ` set (ad_users db)" "active_admin t db"
  shows "active_admin t (snd (create_user h cfg fresh p b db))"
proof (rule active_admin_grow [OF assms(2)])
  fix u assume "u \<in> set (ad_users db)"
  then show "\<exists>u'\<in>set (ad_users (snd (create_user h cfg fresh p b db))). us_id u' = us_id u \<and>
      us_tenant u' = us_tenant u \<and> us_status u' = us_status u"
    by (intro bexI [of _ u]) (auto simp: create_user_def Let_def)
next
  fix u r assume r: "(u, r) \<in> set (di_user_roles (ad_dir db))" "u \<in> us_id ` set (ad_users db)"
  with assms(1) have "u \<noteq> fresh" by auto
  with r show "(u, r) \<in> set (di_user_roles (ad_dir (snd (create_user h cfg fresh p b db))))"
    by (auto simp: create_user_def Let_def)
qed (auto simp: create_user_def Let_def)

lemma reset_password_admin:
  assumes "ids_ok db" "active_admin t db"
  shows "active_admin t (snd (reset_password h cfg p uid pw must db))"
proof (rule active_admin_grow [OF assms(2)])
  fix u assume u: "u \<in> set (ad_users db)"
  show "\<exists>u'\<in>set (ad_users (snd (reset_password h cfg p uid pw must db))). us_id u' = us_id u \<and>
      us_tenant u' = us_tenant u \<and> us_status u' = us_status u"
  proof (cases "tenant_user p uid db")
    case (Some v)
    note v = tenant_userD [OF Some]
    show ?thesis
    proof (cases "us_id u = uid \<and> \<not> int (length pw) < password_min_length cfg")
      case True
      with v u assms(1) have "u = v" by (auto simp: ids_ok_def inj_on_def)
      let ?v = "v\<lparr>us_hash := Some (h_hash h pw), us_must_change := must, us_source := ''local'',
          us_locked_until := None, us_failed := 0\<rparr>"
      from True v \<open>u = v\<close> show ?thesis
        by (intro bexI [of _ ?v]) (auto simp: reset_password_def Some image_iff)
    next
      case False
      with v u show ?thesis by (intro bexI [of _ u]) (auto simp: reset_password_def Some image_iff)
    qed
  qed (use u in \<open>auto simp: reset_password_def\<close>)
qed (auto simp: reset_password_def split: option.splits)

lemma roles_handlers_keep_admin:
  assumes "roles_ok (di_roles d)" "adm \<in> set (di_roles d)" "ro_system adm"
  shows "adm \<in> set (di_roles (snd (create_role fresh tenant raw perms d)))"
    and "adm \<in> set (di_roles (snd (update_role tenant rid raw perms d)))"
    and "adm \<in> set (di_roles (snd (delete_role tenant rid d)))"
    and "(u, ro_id adm) \<in> set (di_user_roles d) \<Longrightarrow>
      (u, ro_id adm) \<in> set (di_user_roles (snd (delete_role tenant rid d)))"
proof -
  show "adm \<in> set (di_roles (snd (create_role fresh tenant raw perms d)))"
    using assms(2) by (auto simp: create_role_def Let_def)
  have ne: "ro_id adm \<noteq> rid" if "find (\<lambda>r. ro_id r = rid \<and> visible_role tenant r) (di_roles d) = Some r" "\<not> ro_system r" for r
    using find_SomeD [OF that(1)] that(2) assms by (auto simp: roles_ok_def distinct_map inj_on_def)
  show "adm \<in> set (di_roles (snd (update_role tenant rid raw perms d)))"
    using ne assms(2) by (auto simp: update_role_def Let_def image_iff split: option.splits)
  show "adm \<in> set (di_roles (snd (delete_role tenant rid d)))"
    using ne assms(2) by (auto simp: delete_role_def split: option.splits)
  show "(u, ro_id adm) \<in> set (di_user_roles d) \<Longrightarrow>
      (u, ro_id adm) \<in> set (di_user_roles (snd (delete_role tenant rid d)))"
    using ne by (auto simp: delete_role_def split: option.splits)
qed

section \<open>The administration API as a step relation\<close>

inductive admin_step :: "auth_db \<Rightarrow> auth_db \<Rightarrow> bool" where
  create: "fresh \<notin> us_id ` set (ad_users db) \<Longrightarrow> admin_step db (snd (create_user h cfg fresh p b db))"
| update: "admin_step db (snd (update_user p uid ub db))"
| reset: "admin_step db (snd (reset_password h cfg p uid pw must db))"
| revoke: "admin_step db (snd (revoke_sessions p uid db))"
| delete: "admin_step db (snd (delete_user p uid db))"
| group_new: "admin_step db (snd (create_group gid p name rids db))"
| group_edit: "admin_step db (snd (update_group p gid name rids db))"
| group_del: "admin_step db (snd (delete_group p gid db))"
| role_new: "rid \<notin> ro_id ` set (di_roles (ad_dir db)) \<Longrightarrow>
    admin_step db (upd_dir (\<lambda>d. snd (create_role rid tenant raw perms d)) db)"
| role_edit: "admin_step db (upd_dir (\<lambda>d. snd (update_role tenant rid raw perms d)) db)"
| role_del: "admin_step db (upd_dir (\<lambda>d. snd (delete_role tenant rid d)) db)"
| session_del: "admin_step db (snd (revoke_one_session p sid db))"
| sessions_expired: "admin_step db (snd (revoke_expired_sessions cfg now p db))"

inductive_cases admin_step_cases: "admin_step db db'"

inductive admin_steps :: "auth_db \<Rightarrow> auth_db \<Rightarrow> bool" where
  refl: "admin_steps db db"
| step: "admin_steps db db1 \<Longrightarrow> admin_step db1 db2 \<Longrightarrow> admin_steps db db2"

lemma group_handlers_sel [simp]:
  "ad_users (snd (create_group gid p name rids db)) = ad_users db"
  "ad_users (snd (update_group p gid name rids db)) = ad_users db"
  "ad_users (snd (delete_group p gid db)) = ad_users db"
  "di_roles (ad_dir (snd (create_group gid p name rids db))) = di_roles (ad_dir db)"
  "di_roles (ad_dir (snd (update_group p gid name rids db))) = di_roles (ad_dir db)"
  "di_roles (ad_dir (snd (delete_group p gid db))) = di_roles (ad_dir db)"
  "di_user_roles (ad_dir (snd (create_group gid p name rids db))) = di_user_roles (ad_dir db)"
  "di_user_roles (ad_dir (snd (update_group p gid name rids db))) = di_user_roles (ad_dir db)"
  "di_user_roles (ad_dir (snd (delete_group p gid db))) = di_user_roles (ad_dir db)"
  by (auto simp: create_group_def update_group_def delete_group_def Let_def split: option.splits)

lemma session_handlers_sel [simp]:
  "ad_users (snd (revoke_sessions p uid db)) = ad_users db" "ad_dir (snd (revoke_sessions p uid db)) = ad_dir db"
  "ad_users (snd (revoke_one_session p sid db)) = ad_users db" "ad_dir (snd (revoke_one_session p sid db)) = ad_dir db"
  "ad_users (snd (revoke_expired_sessions cfg now p db)) = ad_users db"
  "ad_dir (snd (revoke_expired_sessions cfg now p db)) = ad_dir db"
  by (auto simp: revoke_sessions_def revoke_one_session_def revoke_session_def revoke_expired_sessions_def Let_def
      split: option.splits)

lemma role_handlers_user_roles [simp]:
  "di_user_roles (snd (create_role rid tenant raw perms d)) = di_user_roles d"
  "di_user_roles (snd (update_role tenant rid raw perms d)) = di_user_roles d"
  by (auto simp: create_role_def update_role_def Let_def split: option.splits)

lemma active_admin_cong:
  "active_admin t db \<Longrightarrow> ad_users db' = ad_users db \<Longrightarrow> di_roles (ad_dir db') = di_roles (ad_dir db) \<Longrightarrow>
   di_user_roles (ad_dir db') = di_user_roles (ad_dir db) \<Longrightarrow> active_admin t db'"
  by (simp add: active_admin_def)

lemma active_admin_roles:
  assumes "active_admin t db" "\<And>adm. adm \<in> set (di_roles (ad_dir db)) \<Longrightarrow> ro_system adm \<Longrightarrow>
      adm \<in> set (di_roles (f (ad_dir db))) \<and>
      (\<forall>u. (u, ro_id adm) \<in> set (di_user_roles (ad_dir db)) \<longrightarrow> (u, ro_id adm) \<in> set (di_user_roles (f (ad_dir db))))"
  shows "active_admin t (upd_dir f db)"
  using assms(1)
  by (rule active_admin_grow) (use assms(2) in \<open>auto simp: is_builtin_def\<close>)

lemma admin_step_keeps_admin [keeps]:
  assumes "admin_step db db'" "ids_ok db" "active_admin t db"
  shows "active_admin t db'"
  using assms(1)
proof (cases rule: admin_step.cases)
  case role_new
  show ?thesis unfolding role_new
    by (rule active_admin_roles [OF assms(3)])
      (use roles_handlers_keep_admin [of "ad_dir db"] assms(2) in \<open>auto simp: ids_ok_def\<close>)
next
  case role_edit
  show ?thesis unfolding role_edit
    by (rule active_admin_roles [OF assms(3)])
      (use roles_handlers_keep_admin [of "ad_dir db"] assms(2) in \<open>auto simp: ids_ok_def\<close>)
next
  case role_del
  show ?thesis unfolding role_del
    by (rule active_admin_roles [OF assms(3)])
      (use roles_handlers_keep_admin [of "ad_dir db"] assms(2) in \<open>auto simp: ids_ok_def\<close>)
qed (simp_all add: assms(2,3) create_user_admin update_user_admin reset_password_admin delete_user_admin
    active_admin_cong [OF assms(3)])

lemma inj_on_map_replace:
  "inj_on k (set xs) \<Longrightarrow> \<forall>x\<in>set xs. k (f x) = k x \<Longrightarrow> inj_on k (set (map f xs))"
  by (auto simp: inj_on_def)

lemma update_user_ids:
  assumes "inj_on us_id (set (ad_users db))"
  shows "inj_on us_id (set (ad_users (snd (update_user p uid b db))))"
proof (cases "update_user p uid b db")
  case (Pair r db')
  show ?thesis
  proof (cases r)
    case (Inl e)
    then have "db' = db" using Pair
      by (auto simp: update_user_def Let_def split: option.splits if_splits)
    with Pair assms show ?thesis by simp
  next
    case (Inr x)
    with Pair have "update_user p uid b db = (Inr (), db')" by simp
    then obtain u' where u': "us_id u' = uid"
        "ad_users db' = map (\<lambda>x. if us_id x = uid then u' else x) (ad_users db)"
      by (rule update_user_Inr) blast
    show ?thesis unfolding Pair snd_conv u'(2) by (rule inj_on_map_replace [OF assms]) (simp add: u'(1))
  qed
qed

lemma reset_password_ids:
  assumes "inj_on us_id (set (ad_users db))"
  shows "inj_on us_id (set (ad_users (snd (reset_password h cfg p uid pw must db))))"
  using assms
  by (auto simp: reset_password_def split: option.splits simp del: set_map intro!: inj_on_map_replace)

lemma user_handlers_roles [simp]:
  "di_roles (ad_dir (snd (create_user h cfg fresh p b db))) = di_roles (ad_dir db)"
  "di_roles (ad_dir (snd (update_user p uid ub db))) = di_roles (ad_dir db)"
  "di_roles (ad_dir (snd (delete_user p uid db))) = di_roles (ad_dir db)"
  "di_roles (ad_dir (snd (reset_password h cfg p uid pw must db))) = di_roles (ad_dir db)"
  by (auto simp: create_user_def update_user_def delete_user_def reset_password_def Let_def split: option.splits)

lemma create_user_ids:
  "inj_on us_id (set (ad_users db)) \<Longrightarrow> fresh \<notin> us_id ` set (ad_users db) \<Longrightarrow>
   inj_on us_id (set (ad_users (snd (create_user h cfg fresh p b db))))"
  by (auto simp: create_user_def Let_def)

lemma delete_user_ids:
  "inj_on us_id (set (ad_users db)) \<Longrightarrow> inj_on us_id (set (ad_users (snd (delete_user p uid db))))"
  by (auto simp: delete_user_def Let_def inj_on_def split: option.splits)

lemma admin_step_ids [keeps]:
  assumes "admin_step db db'" "ids_ok db"
  shows "ids_ok db'"
proof -
  have u: "inj_on us_id (set (ad_users db))" and r: "roles_ok (di_roles (ad_dir db))"
    using assms(2) by (auto simp: ids_ok_def)
  have "inj_on us_id (set (ad_users db'))"
    using assms(1)
    by (cases rule: admin_step.cases)
      (simp_all add: u create_user_ids update_user_ids reset_password_ids delete_user_ids)
  moreover have "roles_ok (di_roles (ad_dir db'))"
    using assms(1)
    by (cases rule: admin_step.cases) (simp_all add: r create_role_ok update_role_ok delete_role_ok)
  ultimately show ?thesis by (simp add: ids_ok_def)
qed

lemma admin_steps_keep: "admin_steps db db' \<Longrightarrow> ids_ok db \<Longrightarrow> active_admin t db \<Longrightarrow> ids_ok db' \<and> active_admin t db'"
  by (induction rule: admin_steps.induct) (auto intro: keeps)

text \<open>
  C4. The access-control API cannot lock a workspace out: from any state in which a tenant has an
  active user holding the built-in admin role directly, every sequence of user, role, group and session
  operations, by administrators of any tenant, leaves it one.
\<close>
theorem last_admin_survives:
  assumes "admin_steps db db'" "ids_ok db" "active_admin tenant db"
  shows "active_admin tenant db'"
  using admin_steps_keep [OF assms] by blast

definition example_admins :: auth_db where
  "example_admins = example_db\<lparr>ad_dir := set_user_roles ''u2'' [''admin''] (set_user_roles ''u1'' [''admin''] seeded),
     ad_users := [example_user, example_user\<lparr>us_id := ''u2'', us_username := ''bob'', us_email := ''bob@x''\<rparr>]\<rparr>"

text \<open>Of two administrators one can go; the second cannot be disabled or demoted any more.\<close>

lemma example_admin_removal:
  "fst (update_user \<lparr>ca_subject = ''u2'', ca_tenant = ''default''\<rparr> ''u1''
     \<lparr>uu_email = None, uu_display = None, uu_status = Some ''disabled'', uu_roles = None, uu_groups = None\<rparr>
     example_admins) = Inr ()"
  "fst (delete_user \<lparr>ca_subject = ''u1'', ca_tenant = ''default''\<rparr> ''u2''
     (snd (update_user \<lparr>ca_subject = ''u2'', ca_tenant = ''default''\<rparr> ''u1''
     \<lparr>uu_email = None, uu_display = None, uu_status = Some ''disabled'', uu_roles = None, uu_groups = None\<rparr>
     example_admins))) = Inl LastAdmin"
  by code_simp+

theorem last_admin_survives_witness:
  "active_admin ''default'' example_admins \<and>
   active_admin ''default'' (snd (update_user \<lparr>ca_subject = ''u2'', ca_tenant = ''default''\<rparr> ''u1''
     \<lparr>uu_email = None, uu_display = None, uu_status = Some ''disabled'', uu_roles = None, uu_groups = None\<rparr>
     example_admins))"
proof -
  have d: "di_roles (ad_dir example_admins) = di_roles seeded"
    by (simp add: example_admins_def)
  have "roles_ok (di_roles seeded)"
    using seed_roles_ok [of "[]" id] by (simp add: seeded_def roles_ok_def)
  then have ok: "ids_ok example_admins"
    unfolding ids_ok_def d by (simp add: example_admins_def example_user_def)
  have "find (is_builtin ''admin'') (di_roles seeded) = Some (the (find (is_builtin ''admin'') (di_roles seeded)))
      \<and> ro_id (the (find (is_builtin ''admin'') (di_roles seeded))) = ''admin''"
    by code_simp
  then obtain adm where a: "find (is_builtin ''admin'') (di_roles seeded) = Some adm" "ro_id adm = ''admin''"
    by metis
  from find_SomeD [OF a(1)] a(2) have adm: "active_admin ''default'' example_admins"
    by (intro active_adminI [of adm _ example_user]) (auto simp: d, auto simp: example_admins_def example_user_def)
  with last_admin_survives [OF admin_steps.step [OF admin_steps.refl admin_step.update] ok adm]
  show ?thesis by blast
qed

end
