(* ===== verification/Leases.thy ===== *)
theory Leases
  imports Prelude
begin

text \<open>
  The contract of a fenced lease, which the durable jobs, the work batches and the task scheduler
  all rely on (\<^verbatim>\<open>app/core/leases.py\<close>): every acquisition of a row draws a new random
  token, a write carries the token of the acquisition it belongs to, and the database
  accepts it only while that token is the row's current one.
\<close>

locale fenced_lease =
  fixes ok :: "'s \<Rightarrow> bool"
    and holds :: "'k \<Rightarrow> 't \<Rightarrow> 's \<Rightarrow> bool"
    and put :: "'w \<Rightarrow> 'k \<Rightarrow> 't \<Rightarrow> 's \<Rightarrow> 's option"
    and step :: "'t \<Rightarrow> 's \<Rightarrow> 's \<Rightarrow> bool"
  assumes refused: "\<not> holds k t s \<Longrightarrow> put w k t s = None"
    and single: "ok s \<Longrightarrow> holds k t s \<Longrightarrow> holds k t' s \<Longrightarrow> t = t'"
    and not_reissued: "step t s s' \<Longrightarrow> \<not> holds k t s \<Longrightarrow> \<not> holds k t s'"
    and step_ok: "step t s s' \<Longrightarrow> ok s \<Longrightarrow> ok s'"
begin

lemma exclusive: "ok s \<Longrightarrow> put w k t s \<noteq> None \<Longrightarrow> put w' k t' s \<noteq> None \<Longrightarrow> t = t'"
  using refused single by metis

lemma steps_ok: "(step t)\<^sup>*\<^sup>* s s' \<Longrightarrow> ok s \<Longrightarrow> ok s'"
  by (induction rule: rtranclp.induct) (auto intro: step_ok)

lemma lost_stays_lost: "(step t)\<^sup>*\<^sup>* s s' \<Longrightarrow> \<not> holds k t s \<Longrightarrow> \<not> holds k t s'"
  by (induction rule: rtranclp.induct) (auto dest: not_reissued)

lemma lost_never_writes: "(step t)\<^sup>*\<^sup>* s s' \<Longrightarrow> \<not> holds k t s \<Longrightarrow> put w k t s' = None"
  by (rule refused [OF lost_stays_lost])

lemma superseded_never_writes:
  assumes "ok s" "put w' k t' s \<noteq> None" "t' \<noteq> t" "(step t)\<^sup>*\<^sup>* s s'"
  shows "put w k t s' = None"
proof (rule lost_never_writes [OF assms(4)])
  have "holds k t' s" using refused assms(2) by metis
  with single [OF assms(1)] assms(3) show "\<not> holds k t s" by metis
qed

end

section \<open>Rows of a table\<close>

text \<open>\<open>UPDATE ... WHERE\<close> and its row count.\<close>

definition update_rows :: "('a \<Rightarrow> bool) \<Rightarrow> ('a \<Rightarrow> 'a) \<Rightarrow> 'a list \<Rightarrow> 'a list" where
  "update_rows P f xs = map (\<lambda>x. if P x then f x else x) xs"

definition rowcount :: "('a \<Rightarrow> bool) \<Rightarrow> 'a list \<Rightarrow> nat" where
  "rowcount P xs = length (filter P xs)"

lemma in_update_rows [simp]:
  "y \<in> set (update_rows P f xs) \<longleftrightarrow> (\<exists>x\<in>set xs. y = (if P x then f x else x))"
  by (auto simp: update_rows_def)

lemma update_rowsE [consumes 1, case_names kept changed]:
  assumes "y \<in> set (update_rows P f xs)"
  obtains "y \<in> set xs" "\<not> P y" | x where "x \<in> set xs" "P x" "y = f x"
  using assms by (auto simp: update_rows_def split: if_splits)

lemma bex_update_rows: "(\<exists>y\<in>set (update_rows P f xs). Q y) \<longleftrightarrow> (\<exists>x\<in>set xs. Q (if P x then f x else x))"
  by (auto simp: update_rows_def)

lemma ball_update_rows: "(\<forall>y\<in>set (update_rows P f xs). Q y) \<longleftrightarrow> (\<forall>x\<in>set xs. Q (if P x then f x else x))"
  by (auto simp: update_rows_def)

lemma map_update_rows: "(\<And>x. P x \<Longrightarrow> k (f x) = k x) \<Longrightarrow> map k (update_rows P f xs) = map k xs"
  by (auto simp: update_rows_def)

lemma find_update_rows:
  assumes "\<And>x. P x \<Longrightarrow> Q (f x) = Q x"
  shows "find Q (update_rows P f xs) = map_option (\<lambda>x. if P x then f x else x) (find Q xs)"
  using assms by (induction xs) (auto simp: update_rows_def)

lemma update_rows_none: "(\<And>x. x \<in> set xs \<Longrightarrow> \<not> P x) \<Longrightarrow> update_rows P f xs = xs"
  unfolding update_rows_def by (rule map_idI) auto

lemma rowcount_unique:
  assumes "distinct (map k xs)"
  shows "rowcount (\<lambda>x. k x = v \<and> P x) xs = (if \<exists>x\<in>set xs. k x = v \<and> P x then 1 else 0)"
  using assms
proof (induction xs)
  case (Cons x xs)
  have "k x = v \<Longrightarrow> filter (\<lambda>y. k y = v \<and> P y) xs = []"
    using Cons.prems by (simp add: filter_empty_conv) (metis imageI)
  with Cons show ?case by (auto simp: rowcount_def)
qed (simp add: rowcount_def)

lemma unique_row: "distinct (map k xs) \<Longrightarrow> x \<in> set xs \<Longrightarrow> y \<in> set xs \<Longrightarrow> k x = k y \<Longrightarrow> x = y"
  by (auto simp: distinct_map inj_on_def)

lemma find_key:
  assumes "distinct (map k xs)"
  shows "find (\<lambda>x. k x = v) xs = Some x \<longleftrightarrow> x \<in> set xs \<and> k x = v"
proof
  assume x: "x \<in> set xs \<and> k x = v"
  then obtain y where y: "find (\<lambda>x. k x = v) xs = Some y"
    using find_Some_ex [of "\<lambda>x. k x = v" xs] by metis
  from find_SomeD [OF y] x have "k y = k x" "y \<in> set xs" by simp_all
  with x have "y = x" by (metis unique_row [OF assms])
  with y show "find (\<lambda>x. k x = v) xs = Some x" by simp
next
  assume "find (\<lambda>x. k x = v) xs = Some x"
  then show "x \<in> set xs \<and> k x = v" by (rule find_SomeD)
qed

lemma update_one:
  assumes "distinct (map k xs)" "x0 \<in> set xs" "P x0" "\<And>x. x \<in> set xs \<Longrightarrow> P x \<Longrightarrow> k x = k x0"
  shows "update_rows P f xs = update_rows (\<lambda>x. k x = k x0) (\<lambda>_. f x0) xs"
proof -
  have "(if P x then f x else x) = (if k x = k x0 then f x0 else x)" if x: "x \<in> set xs" for x
  proof (cases "x = x0")
    case False
    then have "k x \<noteq> k x0" using unique_row [OF assms(1) x assms(2)] by auto
    with assms(4) [OF x] show ?thesis by auto
  qed (use assms(3) in simp)
  then show ?thesis by (simp add: update_rows_def)
qed

lemma rowcount_1: "rowcount P xs = 1 \<Longrightarrow> \<exists>x\<in>set xs. P x"
  unfolding rowcount_def by (metis filter_False length_0_conv zero_neq_one)

end
