(* ===== verification/Durable_Jobs.thy ===== *)
theory Durable_Jobs
  imports Leases
begin

text \<open>
  The coordination of background jobs and chat turns across replicas, \<^verbatim>\<open>app/core/durable_jobs.py\<close>.
  The three tables are lists of rows; a transaction is one function on them, and
  transactions of different replicas interleave. Instants and durations are microseconds; the clock, new ids and lease
  tokens are arguments. A JSON value is its compact text, so that the storage bounds are lengths.
\<close>

section \<open>Tables\<close>

type_synonym scope = "string \<times> string \<times> string"

record slot =
  sl_scope :: scope
  sl_job :: "string option"
  sl_owner :: "string option"
  sl_token :: "string option"
  sl_lease :: "int option"

record job =
  jb_id :: string
  jb_scope :: scope
  jb_status :: string
  jb_owner :: "string option"
  jb_token :: "string option"
  jb_lease :: "int option"
  jb_cancel :: bool
  jb_attempt :: nat
  jb_next_seq :: nat
  jb_meta :: string
  jb_result :: "string option"
  jb_error :: "string option"
  jb_started :: int
  jb_finished :: "int option"
  jb_expires :: "int option"

record job_event =
  ev_job :: string
  ev_seq :: nat
  ev_type :: string
  ev_data :: string
  ev_data_seq :: "nat option"
  ev_created :: int

record jobs_db =
  jd_slots :: "slot list"
  jd_jobs :: "job list"
  jd_events :: "job_event list"

text \<open>The identity and lease length of one store.\<close>

record store =
  st_owner :: string
  st_lease :: int

section \<open>Bounded JSON\<close>

text \<open>The text \<open>json.dumps\<close> produces, or that it raises.\<close>

datatype json = Json string | Not_Serializable

definition MAX_EVENT_BYTES :: int where "MAX_EVENT_BYTES = 512 * 1024"
definition MAX_METADATA_BYTES :: int where "MAX_METADATA_BYTES = 64 * 1024"
definition MAX_RESULT_BYTES :: int where "MAX_RESULT_BYTES = 2 * 1024 * 1024"

definition bounded_json :: "json \<Rightarrow> int \<Rightarrow> string option" where
  "bounded_json v max_bytes = (case v of Not_Serializable \<Rightarrow> None
     | Json s \<Rightarrow> if max_bytes < int (length s) then None else Some s)"

definition is_dict :: "string \<Rightarrow> bool" where
  "is_dict s \<longleftrightarrow> starts_with s ''{''"

definition event_payload :: "json \<Rightarrow> string" where
  "event_payload v = (case bounded_json v MAX_EVENT_BYTES of
     Some s \<Rightarrow> if is_dict s then s else ''{\"message\":\"Event payload exceeded the durable replay limit.\"}''
   | None \<Rightarrow> ''{\"message\":\"Event payload exceeded the durable replay limit.\"}'')"

definition clean_metadata :: "json \<Rightarrow> string" where
  "clean_metadata v = (case bounded_json v MAX_METADATA_BYTES of Some s \<Rightarrow> if is_dict s then s else ''{}'' | None \<Rightarrow> ''{}'')"

section \<open>Claiming\<close>

definition TERMINAL_STATUSES :: "string list" where
  "TERMINAL_STATUSES = [''done'', ''error'', ''cancelled'']"

definition INTERRUPTED_ERROR :: string where
  "INTERRUPTED_ERROR = ''Background work was interrupted before completion. Start it again.''"

definition job_scope :: "string \<Rightarrow> string \<Rightarrow> string \<Rightarrow> scope" where
  "job_scope tenant feature key = (if tenant = [] then ''default'' else tenant, feature, key)"

definition find_job :: "string \<Rightarrow> jobs_db \<Rightarrow> job option" where
  "find_job i db = find (\<lambda>j. jb_id j = i) (jd_jobs db)"

text \<open>\<open>INSERT ... ON CONFLICT DO NOTHING\<close>.\<close>

definition ensure_slot :: "scope \<Rightarrow> jobs_db \<Rightarrow> jobs_db" where
  "ensure_slot sc db =
     (if list_ex (\<lambda>s. sl_scope s = sc) (jd_slots db) then db
      else db\<lparr>jd_slots := jd_slots db @ [\<lparr>sl_scope = sc, sl_job = None, sl_owner = None, sl_token = None,
             sl_lease = None\<rparr>]\<rparr>)"

definition lapsed_lease :: "int \<Rightarrow> int option \<Rightarrow> bool" where
  "lapsed_lease now l = (case l of None \<Rightarrow> False | Some t \<Rightarrow> t \<le> now)"

definition claimable :: "int \<Rightarrow> scope \<Rightarrow> slot \<Rightarrow> bool" where
  "claimable now sc s \<longleftrightarrow> sl_scope s = sc \<and> (sl_lease s = None \<or> lapsed_lease now (sl_lease s))"

definition new_job :: "store \<Rightarrow> int \<Rightarrow> string \<Rightarrow> string \<Rightarrow> scope \<Rightarrow> string \<Rightarrow> job" where
  "new_job st now token fresh sc meta = \<lparr>jb_id = fresh, jb_scope = sc, jb_status = ''running'',
     jb_owner = Some (st_owner st), jb_token = Some token, jb_lease = Some (now + st_lease st), jb_cancel = False,
     jb_attempt = 1, jb_next_seq = 0, jb_meta = meta, jb_result = None, jb_error = None,
     jb_started = now, jb_finished = None, jb_expires = None\<rparr>"

definition resume_job :: "store \<Rightarrow> int \<Rightarrow> string \<Rightarrow> string \<Rightarrow> job \<Rightarrow> job" where
  "resume_job st now token meta j = j\<lparr>jb_owner := Some (st_owner st), jb_token := Some token,
     jb_lease := Some (now + st_lease st), jb_cancel := False, jb_attempt := jb_attempt j + 1,
     jb_meta := (if meta = ''{}'' then jb_meta j else meta)\<rparr>"

text \<open>The claiming transaction; \<open>None\<close> when the scope has a live owner.\<close>

definition claim_slot ::
  "store \<Rightarrow> int \<Rightarrow> string \<Rightarrow> string \<Rightarrow> scope \<Rightarrow> json \<Rightarrow> jobs_db \<Rightarrow> job option \<times> jobs_db" where
  "claim_slot st now token fresh sc meta db =
     (case find (claimable now sc) (jd_slots db) of
        None \<Rightarrow> (None, db)
      | Some slot \<Rightarrow>
          let slots = update_rows (claimable now sc) (\<lambda>s. s\<lparr>sl_owner := Some (st_owner st),
                 sl_token := Some token, sl_lease := Some (now + st_lease st)\<rparr>) (jd_slots db);
              current = Option.bind (sl_job slot) (\<lambda>i. find_job i db)
          in if (case current of None \<Rightarrow> False | Some cur \<Rightarrow> jb_status cur = ''running'')
             then let j = resume_job st now token (clean_metadata meta) (the current)
               in (Some j, db\<lparr>jd_slots := slots,
                     jd_jobs := update_rows (\<lambda>x. jb_id x = jb_id j) (\<lambda>_. j) (jd_jobs db)\<rparr>)
             else let j = new_job st now token fresh sc (clean_metadata meta)
               in (Some j, db\<lparr>jd_slots := update_rows (\<lambda>s. sl_scope s = sc) (\<lambda>s. s\<lparr>sl_job := Some fresh\<rparr>) slots,
                     jd_jobs := jd_jobs db @ [j]\<rparr>))"

section \<open>Expiry\<close>

definition job_lapsed :: "int \<Rightarrow> job \<Rightarrow> bool" where
  "job_lapsed now j \<longleftrightarrow> jb_status j = ''running'' \<and> lapsed_lease now (jb_lease j)"

text \<open>
  \<open>interrupt_expired\<close>. The two conditional updates are in one transaction: when either does not
  hit exactly one row the whole is rolled back.
\<close>

definition free_slot :: "slot \<Rightarrow> slot" where
  "free_slot s = s\<lparr>sl_owner := None, sl_token := None, sl_lease := None\<rparr>"

definition end_job :: "int \<Rightarrow> string \<Rightarrow> string option \<Rightarrow> string option \<Rightarrow> int \<Rightarrow> job \<Rightarrow> job" where
  "end_job now status result err retention j = j\<lparr>jb_status := status, jb_result := result, jb_owner := None,
     jb_token := None, jb_lease := None, jb_finished := Some now,
     jb_expires := Some (now + max 0 retention), jb_error := err\<rparr>"

definition interrupt_expired :: "int \<Rightarrow> scope \<Rightarrow> string \<Rightarrow> int \<Rightarrow> jobs_db \<Rightarrow> bool \<times> jobs_db" where
  "interrupt_expired now sc err retention db =
     (case find (\<lambda>s. sl_scope s = sc \<and> lapsed_lease now (sl_lease s)) (jd_slots db) of
        None \<Rightarrow> (False, db)
      | Some slot \<Rightarrow>
          (case sl_job slot of
             None \<Rightarrow> (False, db)
           | Some i \<Rightarrow>
               let hit = (\<lambda>j. jb_id j = i \<and> job_lapsed now j);
                   rel = (\<lambda>s. sl_job s = Some i \<and> lapsed_lease now (sl_lease s));
                   message = take 1500 (if err = [] then ''Background work was interrupted.'' else err)
               in if rowcount hit (jd_jobs db) \<noteq> 1 then (False, db)
                  else if rowcount rel (jd_slots db) \<noteq> 1 then (False, db)
                  else (True, db\<lparr>jd_jobs := update_rows hit (\<lambda>j. end_job now ''error'' (jb_result j) (Some message) retention j)
                               (jd_jobs db),
                             jd_slots := update_rows rel free_slot (jd_slots db)\<rparr>)))"

definition current_job :: "jobs_db \<Rightarrow> slot \<Rightarrow> job option" where
  "current_job db s = Option.bind (sl_job s) (\<lambda>i. find_job i db)"

definition interrupt_all_expired ::
  "int \<Rightarrow> string option \<Rightarrow> string option \<Rightarrow> string \<Rightarrow> int \<Rightarrow> jobs_db \<Rightarrow> nat \<times> jobs_db" where
  "interrupt_all_expired now tenant feature err retention db =
     (let hits = filter (\<lambda>s. (case current_job db s of None \<Rightarrow> False | Some j \<Rightarrow> job_lapsed now j) \<and>
              lapsed_lease now (sl_lease s) \<and>
              (case tenant of None \<Rightarrow> True | Some t \<Rightarrow> fst (sl_scope s) = (if t = [] then ''default'' else t)) \<and>
              (case feature of None \<Rightarrow> True | Some f \<Rightarrow> fst (snd (sl_scope s)) = f)) (jd_slots db)
      in fold (\<lambda>sc (n, d). let (ok, d') = interrupt_expired now sc err retention d in (n + (if ok then 1 else 0), d'))
           (map sl_scope hits) (0, db))"

definition DEFAULT_RETENTION :: int where
  "DEFAULT_RETENTION = 30 * 60 * 1000000"

section \<open>Loading\<close>

text \<open>A job with its events in order; expired terminal jobs are not shown.\<close>

definition events_of :: "string \<Rightarrow> jobs_db \<Rightarrow> job_event list" where
  "events_of i db = sort_key ev_seq (filter (\<lambda>e. ev_job e = i) (jd_events db))"

definition hidden :: "int \<Rightarrow> job \<Rightarrow> bool" where
  "hidden now j \<longleftrightarrow> jb_status j \<in> set TERMINAL_STATUSES \<and> lapsed_lease now (jb_expires j)"

type_synonym snapshot = "job \<times> job_event list"

definition snapshot_of :: "int \<Rightarrow> bool \<Rightarrow> job option \<Rightarrow> jobs_db \<Rightarrow> snapshot option" where
  "snapshot_of now with_events found db =
     (case found of None \<Rightarrow> None | Some j \<Rightarrow>
        if hidden now j then None else Some (j, if with_events then events_of (jb_id j) db else []))"

definition scope_job :: "scope \<Rightarrow> jobs_db \<Rightarrow> job option" where
  "scope_job sc db = Option.bind (find (\<lambda>s. sl_scope s = sc) (jd_slots db)) (current_job db)"

definition load_current :: "int \<Rightarrow> scope \<Rightarrow> bool \<Rightarrow> bool \<Rightarrow> jobs_db \<Rightarrow> snapshot option \<times> jobs_db" where
  "load_current now sc with_events reconcile db =
     (case snapshot_of now with_events (scope_job sc db) db of
        None \<Rightarrow> (None, db)
      | Some (j, evs) \<Rightarrow>
          (if reconcile \<and> job_lapsed now j
           then let (ok, db') = interrupt_expired now sc INTERRUPTED_ERROR DEFAULT_RETENTION db
                in if ok then (snapshot_of now with_events (scope_job sc db') db', db') else (Some (j, evs), db')
           else (Some (j, evs), db)))"

definition current_by_id :: "string \<Rightarrow> string \<Rightarrow> string \<Rightarrow> jobs_db \<Rightarrow> job option" where
  "current_by_id tenant feature i db =
     find (\<lambda>j. jb_id j = i \<and> list_ex (\<lambda>s. sl_job s = Some i) (jd_slots db) \<and>
        fst (jb_scope j) = (if tenant = [] then ''default'' else tenant) \<and> fst (snd (jb_scope j)) = feature) (jd_jobs db)"

definition load_by_id :: "int \<Rightarrow> string \<Rightarrow> string \<Rightarrow> string \<Rightarrow> bool \<Rightarrow> bool \<Rightarrow> jobs_db \<Rightarrow> snapshot option \<times> jobs_db" where
  "load_by_id now tenant feature i with_events reconcile db =
     (case snapshot_of now with_events (current_by_id tenant feature i db) db of
        None \<Rightarrow> (None, db)
      | Some (j, evs) \<Rightarrow>
          (if reconcile \<and> job_lapsed now j
           then let (ok, db') = interrupt_expired now (job_scope tenant feature (snd (snd (jb_scope j))))
                      INTERRUPTED_ERROR DEFAULT_RETENTION db
                in if ok then (snapshot_of now with_events (current_by_id tenant feature i db') db', db')
                   else (Some (j, evs), db')
           else (Some (j, evs), db)))"

definition events_after :: "string \<Rightarrow> int \<Rightarrow> nat \<Rightarrow> jobs_db \<Rightarrow> job_event list" where
  "events_after i after limit db = take limit (filter (\<lambda>e. after < int (ev_seq e)) (events_of i db))"

text \<open>
  \<open>claim\<close>: make the slot, take it or attach to its owner's job. While attaching the job is read
  once, then up to three times more, each read against the database as other replicas left it by then
  (\<open>later\<close>); an attached claim without a job is an error.
\<close>

datatype claim = Attached snapshot | Acquired job string | NoCurrentJob

definition attach :: "scope \<Rightarrow> (int \<times> jobs_db) list \<Rightarrow> snapshot option" where
  "attach sc reads = Option.bind (find (\<lambda>(now, d). fst (load_current now sc True False d) \<noteq> None) (take 4 reads))
     (\<lambda>(now, d). fst (load_current now sc True False d))"

definition claim ::
  "store \<Rightarrow> int \<Rightarrow> string \<Rightarrow> string \<Rightarrow> scope \<Rightarrow> json \<Rightarrow> (int \<times> jobs_db) list \<Rightarrow> jobs_db \<Rightarrow> claim \<times> jobs_db" where
  "claim st now token fresh sc meta later db =
     (let db1 = ensure_slot sc db in
      case claim_slot st now token fresh sc meta db1 of
        (Some j, db2) \<Rightarrow> (Acquired j token, db2)
      | (None, db2) \<Rightarrow>
          (case attach sc ((now, db2) # later) of Some s \<Rightarrow> (Attached s, db2) | None \<Rightarrow> (NoCurrentJob, db2)))"

section \<open>Fenced writes\<close>

definition owned_row :: "string \<Rightarrow> string \<Rightarrow> job \<Rightarrow> bool" where
  "owned_row i token j \<longleftrightarrow> jb_id j = i \<and> jb_status j = ''running'' \<and> jb_token j = Some token"

text \<open>Rows beyond the newest \<open>keep\<close> of a job are deleted.\<close>

definition trim_events :: "string \<Rightarrow> nat \<Rightarrow> job_event list \<Rightarrow> job_event list" where
  "trim_events i keep evs =
     (let stale = drop keep (rev (sort_key ev_seq (filter (\<lambda>e. ev_job e = i) evs)))
      in filter (\<lambda>e. \<not> (ev_job e = i \<and> ev_seq e \<in> ev_seq ` set stale)) evs)"

definition stored_event :: "int \<Rightarrow> bool \<Rightarrow> string \<Rightarrow> nat \<Rightarrow> string \<times> json \<Rightarrow> job_event" where
  "stored_event now include_seq i q e = \<lparr>ev_job = i, ev_seq = q, ev_type = take 64 (fst e),
     ev_data = event_payload (snd e), ev_data_seq = (if include_seq then Some q else None), ev_created = now\<rparr>"

definition reserve :: "nat \<Rightarrow> json option \<Rightarrow> job \<Rightarrow> job" where
  "reserve n meta x = x\<lparr>jb_next_seq := jb_next_seq x + n,
     jb_meta := (case Option.bind meta (\<lambda>m. bounded_json m MAX_METADATA_BYTES) of
        Some m \<Rightarrow> if is_dict m then m else jb_meta x | None \<Rightarrow> jb_meta x)\<rparr>"

text \<open>The sequence numbers are reserved by the update that checks the token.\<close>

definition append_events ::
  "int \<Rightarrow> string \<Rightarrow> string \<Rightarrow> (string \<times> json) list \<Rightarrow> int \<Rightarrow> json option \<Rightarrow> bool \<Rightarrow> jobs_db
   \<Rightarrow> job_event list \<times> jobs_db" where
  "append_events now i token evs limit meta include_seq db =
     (if evs = [] then ([], db)
      else case find (owned_row i token) (jd_jobs db) of
        None \<Rightarrow> ([], db)
      | Some j \<Rightarrow>
          let first_seq = jb_next_seq j;
              rows = map (\<lambda>(k, e). stored_event now include_seq i (first_seq + k) e) (enumerate 0 evs)
          in (rows, db\<lparr>jd_jobs := update_rows (owned_row i token) (reserve (length evs) meta) (jd_jobs db),
                jd_events := trim_events i (nat (max 1 limit)) (jd_events db @ rows)\<rparr>))"

definition heartbeat :: "store \<Rightarrow> int \<Rightarrow> string \<Rightarrow> string \<Rightarrow> jobs_db \<Rightarrow> (bool \<times> bool) \<times> jobs_db" where
  "heartbeat st now i token db =
     (case find (owned_row i token) (jd_jobs db) of
        None \<Rightarrow> ((False, False), db)
      | Some j \<Rightarrow>
          let mine = (\<lambda>s. sl_job s = Some i \<and> sl_token s = Some token) in
          if rowcount mine (jd_slots db) \<noteq> 1 then ((False, False), db)
          else ((True, jb_cancel j),
                db\<lparr>jd_jobs := update_rows (owned_row i token) (\<lambda>x. x\<lparr>jb_lease := Some (now + st_lease st)\<rparr>) (jd_jobs db),
                   jd_slots := update_rows mine (\<lambda>s. s\<lparr>sl_lease := Some (now + st_lease st)\<rparr>) (jd_slots db)\<rparr>))"

definition lease_state :: "string \<Rightarrow> string \<Rightarrow> jobs_db \<Rightarrow> bool \<times> bool" where
  "lease_state i token db =
     (case find_job i db of
        None \<Rightarrow> (False, False)
      | Some j \<Rightarrow> if jb_status j \<noteq> ''running'' \<or> jb_token j \<noteq> Some token then (False, False) else (True, jb_cancel j))"

text \<open>\<open>finalize\<close>: \<open>Inl\<close> is the \<open>ValueError\<close> for a status that is not terminal.\<close>

definition finalize ::
  "int \<Rightarrow> string \<Rightarrow> string \<Rightarrow> string \<Rightarrow> json option \<Rightarrow> string \<Rightarrow> int \<Rightarrow> jobs_db \<Rightarrow> (string, bool) result \<times> jobs_db" where
  "finalize now i token status res err retention db =
     (if status \<notin> set TERMINAL_STATUSES then (Inl (''Invalid terminal durable-job status: '' @ status), db)
      else
        let bounded = Option.bind res (\<lambda>r. bounded_json r MAX_RESULT_BYTES);
            message = (if take 1500 err = [] then None else Some (take 1500 err));
            mine = (\<lambda>s. sl_job s = Some i \<and> sl_token s = Some token)
        in if rowcount (owned_row i token) (jd_jobs db) \<noteq> 1 then (Inr False, db)
           else if rowcount mine (jd_slots db) \<noteq> 1 then (Inr False, db)
           else (Inr True, db\<lparr>jd_jobs := update_rows (owned_row i token) (end_job now status bounded message retention)
                            (jd_jobs db),
                          jd_slots := update_rows mine free_slot (jd_slots db)\<rparr>))"

section \<open>Control operations\<close>

definition request_cancel :: "scope \<Rightarrow> jobs_db \<Rightarrow> bool \<times> jobs_db" where
  "request_cancel sc db =
     (let hit = (\<lambda>j. Some (jb_id j) = Option.bind (find (\<lambda>s. sl_scope s = sc) (jd_slots db)) sl_job \<and>
            jb_status j = ''running'')
      in (rowcount hit (jd_jobs db) = 1, db\<lparr>jd_jobs := update_rows hit (\<lambda>j. j\<lparr>jb_cancel := True\<rparr>) (jd_jobs db)\<rparr>))"

text \<open>Deleting a job deletes its events (\<open>ON DELETE CASCADE\<close>).\<close>

definition drop_jobs :: "string set \<Rightarrow> jobs_db \<Rightarrow> jobs_db" where
  "drop_jobs ids db =
     db\<lparr>jd_slots := update_rows (\<lambda>s. case sl_job s of None \<Rightarrow> False | Some i \<Rightarrow> i \<in> ids) (\<lambda>s. s\<lparr>sl_job := None\<rparr>) (jd_slots db),
        jd_events := filter (\<lambda>e. ev_job e \<notin> ids) (jd_events db),
        jd_jobs := filter (\<lambda>j. jb_id j \<notin> ids) (jd_jobs db)\<rparr>"

definition dismiss :: "string \<Rightarrow> string \<Rightarrow> string \<Rightarrow> jobs_db \<Rightarrow> bool \<times> jobs_db" where
  "dismiss tenant feature i db =
     (case current_by_id tenant feature i db of
        None \<Rightarrow> (False, db)
      | Some j \<Rightarrow> if jb_status j \<in> set TERMINAL_STATUSES then (True, drop_jobs {jb_id j} db) else (False, db))"

definition cleanup :: "string option \<Rightarrow> int \<Rightarrow> jobs_db \<Rightarrow> nat \<times> jobs_db" where
  "cleanup feature cutoff db =
     (let ids = map jb_id (filter (\<lambda>j. jb_status j \<in> set TERMINAL_STATUSES \<and> lapsed_lease cutoff (jb_expires j) \<and>
            (case feature of None \<Rightarrow> True | Some f \<Rightarrow> fst (snd (jb_scope j)) = f)) (jd_jobs db))
      in (length ids, if ids = [] then db else drop_jobs (set ids) db))"

text \<open>
  \<open>list_current\<close>, newest first. \<open>matches\<close> is the database's \<open>LIKE\<close> test of a key against a prefix pattern.
\<close>

definition list_current ::
  "(string \<Rightarrow> string \<Rightarrow> bool) \<Rightarrow> int \<Rightarrow> string \<Rightarrow> string \<Rightarrow> string \<Rightarrow> bool \<Rightarrow> int option \<Rightarrow> jobs_db
   \<Rightarrow> snapshot list \<times> jobs_db" where
  "list_current matches now tenant feature pat active_only limit db =
     (let db1 = (if active_only then db
            else snd (interrupt_all_expired now (Some tenant) (Some feature) INTERRUPTED_ERROR DEFAULT_RETENTION db));
          slots = filter (\<lambda>s. fst (sl_scope s) = (if tenant = [] then ''default'' else tenant) \<and>
             fst (snd (sl_scope s)) = feature \<and> (pat = [] \<or> matches pat (snd (snd (sl_scope s))))) (jd_slots db1);
          shown = (\<lambda>j. if active_only
             then jb_status j = ''running'' \<and> (case jb_lease j of None \<Rightarrow> False | Some t \<Rightarrow> now < t)
             else jb_status j = ''running'' \<or> (case jb_expires j of None \<Rightarrow> True | Some t \<Rightarrow> now < t));
          jobs = sort_key (\<lambda>j. - jb_started j) (filter shown (List.map_filter (current_job db1) slots));
          jobs' = (case limit of None \<Rightarrow> jobs | Some n \<Rightarrow> take (nat (max 1 n)) jobs)
      in (map (\<lambda>j. (j, events_of (jb_id j) db1)) jobs', db1))"

section \<open>Running a job\<close>

text \<open>How a feature runner ended, and what the executor then stores.\<close>

datatype runner_end = Returned string "json option" string | Raised string | Was_Cancelled

definition run_end :: "int \<Rightarrow> job \<Rightarrow> string \<Rightarrow> int \<Rightarrow> runner_end \<Rightarrow> jobs_db \<Rightarrow> jobs_db" where
  "run_end now j token retention e db =
     (case e of
        Returned status res err \<Rightarrow>
          (case finalize now (jb_id j) token status res err retention db of
             (Inr _, db') \<Rightarrow> db'
           | (Inl msg, db') \<Rightarrow> snd (finalize now (jb_id j) token ''error'' None (take 1500 msg) retention db'))
      | Raised msg \<Rightarrow> snd (finalize now (jb_id j) token ''error'' None (take 1500 msg) retention db)
      | Was_Cancelled \<Rightarrow>
          (let (owned, cancel) = lease_state (jb_id j) token db
           in if owned
              then snd (finalize now (jb_id j) token (if cancel then ''cancelled'' else ''error'') None
                (if cancel then ''Background work was cancelled.'' else ''Background work was interrupted.'')
                retention db)
              else db))"

text \<open>\<open>emit\<close> and \<open>checkpoint\<close>: \<open>None\<close> is the cancellation raised in the runner.\<close>

definition emit ::
  "int \<Rightarrow> string \<Rightarrow> string \<Rightarrow> int \<Rightarrow> json \<Rightarrow> bool \<Rightarrow> string \<times> json \<Rightarrow> jobs_db \<Rightarrow> job_event option \<times> jobs_db" where
  "emit now i token limit meta include_seq e db =
     (case append_events now i token [e] limit (Some meta) include_seq db of
        ([], db') \<Rightarrow> (None, db')
      | (r # _, db') \<Rightarrow> (Some r, db'))"

definition checkpoint :: "string \<Rightarrow> string \<Rightarrow> jobs_db \<Rightarrow> bool" where
  "checkpoint i token db = (let (owned, cancel) = lease_state i token db in owned \<and> \<not> cancel)"

text \<open>
  \<open>monitor_lease\<close>, on what each turn of its loop meets: whether the runner asks to stop, the
  clock after the sleep, the answer of the database (\<open>None\<close> an exception or a timeout), and the clock after it.
  The result is \<open>None\<close> while the monitor is still running.
\<close>

record tick =
  tk_stop :: bool
  tk_before :: int
  tk_answer :: "(bool \<times> bool) option"
  tk_after :: int

definition renewal_interval :: "int \<Rightarrow> int \<Rightarrow> int" where
  "renewal_interval poll lease = max poll (lease div 3)"

fun monitor_loop :: "int \<Rightarrow> int \<Rightarrow> int \<Rightarrow> int \<Rightarrow> tick list \<Rightarrow> (bool \<times> bool) option" where
  "monitor_loop poll lease next_renewal confirmed_until [] = None"
| "monitor_loop poll lease next_renewal confirmed_until (t # ts) =
     (if tk_stop t then Some (True, False)
      else let renewing = next_renewal \<le> tk_before t in
        case tk_answer t of
          None \<Rightarrow> if confirmed_until \<le> tk_after t then Some (False, False)
            else monitor_loop poll lease next_renewal confirmed_until ts
        | Some (owned, cancel) \<Rightarrow>
            if \<not> owned \<or> cancel then Some (owned, cancel)
            else if renewing
            then monitor_loop poll lease (tk_after t + renewal_interval poll lease) (tk_after t + lease) ts
            else monitor_loop poll lease next_renewal confirmed_until ts)"

definition monitor_lease :: "int \<Rightarrow> int \<Rightarrow> int \<Rightarrow> tick list \<Rightarrow> (bool \<times> bool) option" where
  "monitor_lease poll lease start ts =
     monitor_loop poll lease (start + renewal_interval poll lease) (start + lease) ts"

section \<open>The invariant of the tables\<close>

text \<open>
  A slot carries the lease of its current job, a running job is the current job of a slot and has a
  lease, and an ended job has none.
\<close>

definition slot_fits :: "jobs_db \<Rightarrow> slot \<Rightarrow> bool" where
  "slot_fits db s \<longleftrightarrow> (case sl_job s of
     None \<Rightarrow> sl_token s = None \<and> sl_lease s = None
   | Some i \<Rightarrow> \<exists>j\<in>set (jd_jobs db). jb_id j = i \<and> jb_scope j = sl_scope s \<and> jb_token j = sl_token s \<and>
       jb_lease j = sl_lease s)"

definition lease_fits :: "job \<Rightarrow> bool" where
  "lease_fits j \<longleftrightarrow> (if jb_status j = ''running'' then jb_token j \<noteq> None \<and> jb_lease j \<noteq> None
     else jb_status j \<in> set TERMINAL_STATUSES \<and> jb_token j = None \<and> jb_lease j = None)"

definition job_fits :: "jobs_db \<Rightarrow> job \<Rightarrow> bool" where
  "job_fits db j \<longleftrightarrow> lease_fits j \<and>
     (jb_status j = ''running'' \<longrightarrow> (\<exists>s\<in>set (jd_slots db). sl_job s = Some (jb_id j)))"

definition rows_ok :: "jobs_db \<Rightarrow> bool" where
  "rows_ok db \<longleftrightarrow> distinct (map sl_scope (jd_slots db)) \<and> distinct (map jb_id (jd_jobs db)) \<and>
     (\<forall>s\<in>set (jd_slots db). slot_fits db s) \<and> (\<forall>j\<in>set (jd_jobs db). job_fits db j)"

lemma rows_okD:
  assumes "rows_ok db"
  shows "distinct (map sl_scope (jd_slots db))" "distinct (map jb_id (jd_jobs db))"
    "\<And>s. s \<in> set (jd_slots db) \<Longrightarrow> slot_fits db s" "\<And>j. j \<in> set (jd_jobs db) \<Longrightarrow> job_fits db j"
  using assms by (auto simp: rows_ok_def)

lemma slot_job:
  assumes "rows_ok db" "s \<in> set (jd_slots db)" "sl_job s = Some i"
  obtains j where "j \<in> set (jd_jobs db)" "jb_id j = i" "jb_scope j = sl_scope s" "jb_token j = sl_token s"
    "jb_lease j = sl_lease s"
  using rows_okD(3) [OF assms(1,2)] assms(3) by (auto simp: slot_fits_def)

lemma same_job_same_scope:
  assumes "rows_ok db" "s \<in> set (jd_slots db)" "s' \<in> set (jd_slots db)" "sl_job s = Some i" "sl_job s' = Some i"
  shows "sl_scope s = sl_scope s'"
proof -
  from slot_job [OF assms(1,2,4)] obtain j where j: "j \<in> set (jd_jobs db)" "jb_id j = i" "jb_scope j = sl_scope s"
    by metis
  from slot_job [OF assms(1,3,5)] obtain j' where j': "j' \<in> set (jd_jobs db)" "jb_id j' = i" "jb_scope j' = sl_scope s'"
    by metis
  have "j = j'" using unique_row [OF rows_okD(2) [OF assms(1)] j(1) j'(1)] j j' by simp
  with j j' show ?thesis by simp
qed

text \<open>A change of one job together with its slot.\<close>

lemma rows_ok_linked:
  assumes ok: "rows_ok db" and s: "s \<in> set (jd_slots db)" and j: "j \<in> set (jd_jobs db)"
    and link: "sl_job s = Some (jb_id j)"
    and s': "sl_scope s' = sl_scope s" "sl_job s' = sl_job s" "sl_token s' = jb_token j'" "sl_lease s' = jb_lease j'"
    and j': "jb_id j' = jb_id j" "jb_scope j' = jb_scope j" "lease_fits j'"
  shows "rows_ok (db\<lparr>jd_slots := update_rows (\<lambda>x. sl_scope x = sl_scope s) (\<lambda>_. s') (jd_slots db),
    jd_jobs := update_rows (\<lambda>x. jb_id x = jb_id j) (\<lambda>_. j') (jd_jobs db)\<rparr>)"
    (is "rows_ok ?db")
proof -
  have "map sl_scope (jd_slots ?db) = map sl_scope (jd_slots db)" "map jb_id (jd_jobs ?db) = map jb_id (jd_jobs db)"
    using s'(1) j'(1) by (auto simp: update_rows_def)
  then have d: "distinct (map sl_scope (jd_slots ?db))" "distinct (map jb_id (jd_jobs ?db))"
    using rows_okD(1,2) [OF ok] by simp_all
  have sc: "jb_scope j = sl_scope s"
    using slot_job [OF ok s link] unique_row [OF rows_okD(2) [OF ok] _ j] by metis
  have "slot_fits ?db x'" if "x' \<in> set (jd_slots ?db)" for x'
  proof -
    from that obtain x where x: "x \<in> set (jd_slots db)" "x' = (if sl_scope x = sl_scope s then s' else x)" by auto
    show ?thesis
    proof (cases "sl_scope x = sl_scope s")
      case True
      have "j' \<in> set (jd_jobs ?db)" using j by auto
      moreover have "x' = s'" using x True by simp
      ultimately show ?thesis using s' j' sc link by (auto simp: slot_fits_def simp del: in_update_rows)
    next
      case False
      have "sl_job x \<noteq> Some (jb_id j)" using same_job_same_scope [OF ok x(1) s _ link] False by auto
      then show ?thesis using rows_okD(3) [OF ok x(1)] x(2) False
        by (fastforce simp: slot_fits_def split: option.splits)
    qed
  qed
  moreover have "job_fits ?db y'" if "y' \<in> set (jd_jobs ?db)" for y'
  proof -
    from that obtain y where y: "y \<in> set (jd_jobs db)" "y' = (if jb_id y = jb_id j then j' else y)" by auto
    have slot: "\<exists>x\<in>set (jd_slots ?db). sl_job x = Some i" if "x \<in> set (jd_slots db)" "sl_job x = Some i" for x i
      using that s'(2) unique_row [OF rows_okD(1) [OF ok] that(1) s]
      by (auto simp: bex_update_rows intro!: bexI [of _ x])
    show ?thesis
      using rows_okD(4) [OF ok y(1)] y(2) j' slot [OF s link] slot
      by (auto simp: job_fits_def)
  qed
  ultimately show ?thesis using d unfolding rows_ok_def by blast
qed

text \<open>A change of jobs that keeps what the slots refer to.\<close>

definition row_key :: "job \<Rightarrow> string \<times> scope \<times> string \<times> string option \<times> int option" where
  "row_key j = (jb_id j, jb_scope j, jb_status j, jb_token j, jb_lease j)"

lemma slot_fits_jobs:
  assumes "\<And>j. row_key (f j) = row_key j"
  shows "slot_fits (db\<lparr>jd_jobs := update_rows P f (jd_jobs db), jd_events := evs\<rparr>) s \<longleftrightarrow> slot_fits db s"
proof (cases "sl_job s")
  case (Some i)
  have k: "jb_id (f j) = jb_id j" "jb_scope (f j) = jb_scope j" "jb_token (f j) = jb_token j" "jb_lease (f j) = jb_lease j" for j
    using assms [of j] by (simp_all add: row_key_def)
  have "(\<exists>j\<in>set (update_rows P f xs). jb_id j = i \<and> jb_scope j = c \<and> jb_token j = t \<and> jb_lease j = l) \<longleftrightarrow>
      (\<exists>j\<in>set xs. jb_id j = i \<and> jb_scope j = c \<and> jb_token j = t \<and> jb_lease j = l)" for xs c t l
    by (induction xs) (auto simp: update_rows_def k)
  then show ?thesis by (simp add: slot_fits_def Some)
qed (simp add: slot_fits_def)

lemma rows_ok_jobs:
  assumes ok: "rows_ok db" and keep: "\<And>j. row_key (f j) = row_key j"
  shows "rows_ok (db\<lparr>jd_jobs := update_rows P f (jd_jobs db), jd_events := evs\<rparr>)"
proof -
  have k: "jb_id (f j) = jb_id j" "lease_fits (f j) = lease_fits j" "jb_status (f j) = jb_status j" for j
    using keep [of j] by (simp_all add: row_key_def lease_fits_def)
  show ?thesis
    using ok unfolding rows_ok_def
    by (auto simp: map_update_rows k slot_fits_jobs keep job_fits_def split: if_splits)
qed

section \<open>Every transaction keeps the invariant\<close>

text \<open>The two conditional updates of a transaction hit one job and its slot.\<close>

lemma linked_update:
  assumes ok: "rows_ok db" and s: "s \<in> set (jd_slots db)" and j: "j \<in> set (jd_jobs db)"
    and link: "sl_job s = Some (jb_id j)"
    and P: "P s" "\<And>x. x \<in> set (jd_slots db) \<Longrightarrow> P x \<Longrightarrow> sl_job x = Some (jb_id j) \<or> sl_scope x = sl_scope s"
    and Q: "Q j" "\<And>x. x \<in> set (jd_jobs db) \<Longrightarrow> Q x \<Longrightarrow> jb_id x = jb_id j"
    and f: "sl_scope (f s) = sl_scope s" "sl_job (f s) = sl_job s" "sl_token (f s) = jb_token (g j)"
      "sl_lease (f s) = jb_lease (g j)"
    and g: "jb_id (g j) = jb_id j" "jb_scope (g j) = jb_scope j" "lease_fits (g j)"
  shows "rows_ok (db\<lparr>jd_slots := update_rows P f (jd_slots db), jd_jobs := update_rows Q g (jd_jobs db)\<rparr>)"
proof -
  have "update_rows P f (jd_slots db) = update_rows (\<lambda>x. sl_scope x = sl_scope s) (\<lambda>_. f s) (jd_slots db)"
    by (rule update_one [where P = P, OF rows_okD(1) [OF ok] s P(1)])
      (use P(2) same_job_same_scope [OF ok _ s _ link] in blast)
  moreover have "update_rows Q g (jd_jobs db) = update_rows (\<lambda>x. jb_id x = jb_id j) (\<lambda>_. g j) (jd_jobs db)"
    by (rule update_one [where P = Q, OF rows_okD(2) [OF ok] j Q])
  ultimately show ?thesis using rows_ok_linked [OF ok s j link f g] by simp
qed

lemma interrupt_expired_True:
  assumes "interrupt_expired now sc err retention db = (True, db')"
  obtains s i j where "s \<in> set (jd_slots db)" "sl_scope s = sc" "lapsed_lease now (sl_lease s)" "sl_job s = Some i"
    "j \<in> set (jd_jobs db)" "jb_id j = i" "job_lapsed now j"
    "db' = db\<lparr>jd_slots := update_rows (\<lambda>s. sl_job s = Some i \<and> lapsed_lease now (sl_lease s)) free_slot (jd_slots db),
      jd_jobs := update_rows (\<lambda>j. jb_id j = i \<and> job_lapsed now j) (\<lambda>j. end_job now ''error'' (jb_result j)
        (Some (take 1500 (if err = [] then ''Background work was interrupted.'' else err))) retention j) (jd_jobs db)\<rparr>"
proof -
  obtain s where f: "find (\<lambda>s. sl_scope s = sc \<and> lapsed_lease now (sl_lease s)) (jd_slots db) = Some s"
    using assms by (auto simp: interrupt_expired_def split: option.splits)
  obtain i where i: "sl_job s = Some i"
    using assms f by (auto simp: interrupt_expired_def split: option.splits)
  have hit: "rowcount (\<lambda>j. jb_id j = i \<and> job_lapsed now j) (jd_jobs db) = 1"
    and db': "db' = db\<lparr>jd_slots := update_rows (\<lambda>s. sl_job s = Some i \<and> lapsed_lease now (sl_lease s)) free_slot (jd_slots db),
      jd_jobs := update_rows (\<lambda>j. jb_id j = i \<and> job_lapsed now j) (\<lambda>j. end_job now ''error'' (jb_result j)
        (Some (take 1500 (if err = [] then ''Background work was interrupted.'' else err))) retention j) (jd_jobs db)\<rparr>"
    using assms f i by (auto simp: interrupt_expired_def Let_def split: if_splits)
  from rowcount_1 [OF hit] obtain j where "j \<in> set (jd_jobs db)" "jb_id j = i" "job_lapsed now j" by blast
  with find_SomeD [OF f] i db' show thesis by (intro that) auto
qed

lemma interrupt_expired_False: "interrupt_expired now sc err retention db = (False, db') \<Longrightarrow> db' = db"
  by (auto simp: interrupt_expired_def Let_def split: option.splits if_splits)

lemma lease_fits_end: "status \<in> set TERMINAL_STATUSES \<Longrightarrow> lease_fits (end_job now status r e ret j)"
  by (auto simp: lease_fits_def end_job_def TERMINAL_STATUSES_def)

lemma end_job_sel [simp]:
  "jb_id (end_job now status r e ret j) = jb_id j" "jb_scope (end_job now status r e ret j) = jb_scope j"
  "jb_token (end_job now status r e ret j) = None" "jb_lease (end_job now status r e ret j) = None"
  "jb_status (end_job now status r e ret j) = status" "jb_next_seq (end_job now status r e ret j) = jb_next_seq j"
  by (simp_all add: end_job_def)

lemma free_slot_sel [simp]:
  "sl_scope (free_slot s) = sl_scope s" "sl_job (free_slot s) = sl_job s" "sl_token (free_slot s) = None"
  "sl_lease (free_slot s) = None"
  by (simp_all add: free_slot_def)

lemma interrupt_expired_ok [keeps]:
  assumes "rows_ok db"
  shows "rows_ok (snd (interrupt_expired now sc err retention db))"
proof (cases "interrupt_expired now sc err retention db")
  case (Pair r db')
  show ?thesis
  proof (cases r)
    case True
    with Pair have "interrupt_expired now sc err retention db = (True, db')" by simp
    then obtain s i j where *: "s \<in> set (jd_slots db)" "sl_scope s = sc" "lapsed_lease now (sl_lease s)"
      "sl_job s = Some i" "j \<in> set (jd_jobs db)" "jb_id j = i" "job_lapsed now j"
      "db' = db\<lparr>jd_slots := update_rows (\<lambda>s. sl_job s = Some i \<and> lapsed_lease now (sl_lease s)) free_slot (jd_slots db),
      jd_jobs := update_rows (\<lambda>j. jb_id j = i \<and> job_lapsed now j) (\<lambda>j. end_job now ''error'' (jb_result j)
        (Some (take 1500 (if err = [] then ''Background work was interrupted.'' else err))) retention j) (jd_jobs db)\<rparr>"
      by (rule interrupt_expired_True)
    show ?thesis unfolding Pair snd_conv *(8)
      by (rule linked_update [OF assms *(1,5)])
        (use *(3-7) in \<open>simp_all add: lease_fits_end TERMINAL_STATUSES_def\<close>)
  next
    case False
    with Pair have "db' = db" by (intro interrupt_expired_False) simp
    with Pair assms show ?thesis by simp
  qed
qed

lemma finalize_True:
  assumes "finalize now i token status res err retention db = (Inr True, db')"
  obtains s j where "status \<in> set TERMINAL_STATUSES" "s \<in> set (jd_slots db)" "sl_job s = Some i" "sl_token s = Some token"
    "j \<in> set (jd_jobs db)" "owned_row i token j"
    "db' = db\<lparr>jd_slots := update_rows (\<lambda>s. sl_job s = Some i \<and> sl_token s = Some token) free_slot (jd_slots db),
      jd_jobs := update_rows (owned_row i token) (end_job now status (Option.bind res (\<lambda>r. bounded_json r MAX_RESULT_BYTES))
        (if take 1500 err = [] then None else Some (take 1500 err)) retention) (jd_jobs db)\<rparr>"
proof -
  have t: "status \<in> set TERMINAL_STATUSES"
    using assms by (auto simp: finalize_def split: if_splits)
  have j: "rowcount (owned_row i token) (jd_jobs db) = 1"
    and s: "rowcount (\<lambda>s. sl_job s = Some i \<and> sl_token s = Some token) (jd_slots db) = 1"
    and db': "db' = db\<lparr>jd_slots := update_rows (\<lambda>s. sl_job s = Some i \<and> sl_token s = Some token) free_slot (jd_slots db),
      jd_jobs := update_rows (owned_row i token) (end_job now status (Option.bind res (\<lambda>r. bounded_json r MAX_RESULT_BYTES))
        (if take 1500 err = [] then None else Some (take 1500 err)) retention) (jd_jobs db)\<rparr>"
    using assms t by (auto simp: finalize_def Let_def split: if_splits)
  from rowcount_1 [OF j] rowcount_1 [OF s] show thesis using that t db' by blast
qed

lemma finalize_else: "finalize now i token status res err retention db = (r, db') \<Longrightarrow> r \<noteq> Inr True \<Longrightarrow> db' = db"
  by (auto simp: finalize_def Let_def split: if_splits)

lemma finalize_ok [keeps]:
  assumes "rows_ok db"
  shows "rows_ok (snd (finalize now i token status res err retention db))"
proof (cases "finalize now i token status res err retention db")
  case (Pair r db')
  show ?thesis
  proof (cases "r = Inr True")
    case True
    with Pair have "finalize now i token status res err retention db = (Inr True, db')" by simp
    then obtain s j where *: "status \<in> set TERMINAL_STATUSES" "s \<in> set (jd_slots db)" "sl_job s = Some i"
      "sl_token s = Some token" "j \<in> set (jd_jobs db)" "owned_row i token j"
      "db' = db\<lparr>jd_slots := update_rows (\<lambda>s. sl_job s = Some i \<and> sl_token s = Some token) free_slot (jd_slots db),
      jd_jobs := update_rows (owned_row i token) (end_job now status (Option.bind res (\<lambda>r. bounded_json r MAX_RESULT_BYTES))
        (if take 1500 err = [] then None else Some (take 1500 err)) retention) (jd_jobs db)\<rparr>"
      by (rule finalize_True)
    show ?thesis unfolding Pair snd_conv *(7)
      by (rule linked_update [OF assms *(2,5)]) (use *(1-6) in \<open>simp_all add: lease_fits_end owned_row_def\<close>)
  next
    case False
    with Pair have "db' = db" by (intro finalize_else)
    with Pair assms show ?thesis by simp
  qed
qed

lemma heartbeat_True:
  assumes "heartbeat st now i token db = ((True, c), db')"
  obtains s j where "s \<in> set (jd_slots db)" "sl_job s = Some i" "sl_token s = Some token"
    "j \<in> set (jd_jobs db)" "owned_row i token j" "c = jb_cancel j"
    "db' = db\<lparr>jd_slots := update_rows (\<lambda>s. sl_job s = Some i \<and> sl_token s = Some token)
        (\<lambda>s. s\<lparr>sl_lease := Some (now + st_lease st)\<rparr>) (jd_slots db),
      jd_jobs := update_rows (owned_row i token) (\<lambda>x. x\<lparr>jb_lease := Some (now + st_lease st)\<rparr>) (jd_jobs db)\<rparr>"
proof -
  obtain j where j: "find (owned_row i token) (jd_jobs db) = Some j"
    using assms by (auto simp: heartbeat_def split: option.splits)
  have s: "rowcount (\<lambda>s. sl_job s = Some i \<and> sl_token s = Some token) (jd_slots db) = 1" and c: "c = jb_cancel j"
    and db': "db' = db\<lparr>jd_slots := update_rows (\<lambda>s. sl_job s = Some i \<and> sl_token s = Some token)
        (\<lambda>s. s\<lparr>sl_lease := Some (now + st_lease st)\<rparr>) (jd_slots db),
      jd_jobs := update_rows (owned_row i token) (\<lambda>x. x\<lparr>jb_lease := Some (now + st_lease st)\<rparr>) (jd_jobs db)\<rparr>"
    using assms j by (auto simp: heartbeat_def Let_def split: if_splits)
  from find_SomeD [OF j] rowcount_1 [OF s] c db' show thesis by (auto intro: that)
qed

lemma heartbeat_False: "heartbeat st now i token db = ((False, c), db') \<Longrightarrow> db' = db"
  by (auto simp: heartbeat_def Let_def split: option.splits if_splits)

lemma heartbeat_ok [keeps]:
  assumes "rows_ok db"
  shows "rows_ok (snd (heartbeat st now i token db))"
proof -
  obtain r c db' where h: "heartbeat st now i token db = ((r, c), db')" by (metis prod.collapse)
  show ?thesis
  proof (cases r)
    case True
    with h have "heartbeat st now i token db = ((True, c), db')" by simp
    then obtain s j where *: "s \<in> set (jd_slots db)" "sl_job s = Some i" "sl_token s = Some token"
    "j \<in> set (jd_jobs db)" "owned_row i token j" "c = jb_cancel j"
    "db' = db\<lparr>jd_slots := update_rows (\<lambda>s. sl_job s = Some i \<and> sl_token s = Some token)
        (\<lambda>s. s\<lparr>sl_lease := Some (now + st_lease st)\<rparr>) (jd_slots db),
      jd_jobs := update_rows (owned_row i token) (\<lambda>x. x\<lparr>jb_lease := Some (now + st_lease st)\<rparr>) (jd_jobs db)\<rparr>"
      by (rule heartbeat_True)
    show ?thesis unfolding h snd_conv *(7)
      by (rule linked_update [OF assms *(1,4)]) (use *(2-5) in \<open>simp_all add: owned_row_def lease_fits_def\<close>)
  next
    case False
    with h have "db' = db" by (intro heartbeat_False) simp
    with h assms show ?thesis by simp
  qed
qed

lemma reserve_sel [simp]:
  "jb_id (reserve n m j) = jb_id j" "jb_status (reserve n m j) = jb_status j" "jb_token (reserve n m j) = jb_token j"
  "jb_scope (reserve n m j) = jb_scope j" "jb_lease (reserve n m j) = jb_lease j"
  "jb_next_seq (reserve n m j) = jb_next_seq j + n" "jb_result (reserve n m j) = jb_result j"
  "jb_error (reserve n m j) = jb_error j"
  by (simp_all add: reserve_def)

lemma append_events_ok [keeps]:
  assumes "rows_ok db"
  shows "rows_ok (snd (append_events now i token evs limit meta inc db))"
proof (cases "find (owned_row i token) (jd_jobs db)")
  case (Some j)
  then show ?thesis
    using assms by (auto simp: append_events_def Let_def row_key_def intro!: rows_ok_jobs)
qed (use assms in \<open>simp add: append_events_def\<close>)

lemma request_cancel_ok [keeps]:
  assumes "rows_ok db"
  shows "rows_ok (snd (request_cancel sc db))"
proof -
  let ?hit = "\<lambda>j. Some (jb_id j) = Option.bind (find (\<lambda>s. sl_scope s = sc) (jd_slots db)) sl_job \<and> jb_status j = ''running''"
  have "rows_ok (db\<lparr>jd_jobs := update_rows ?hit (\<lambda>j. j\<lparr>jb_cancel := True\<rparr>) (jd_jobs db), jd_events := jd_events db\<rparr>)"
    by (rule rows_ok_jobs [OF assms]) (simp add: row_key_def)
  then show ?thesis by (simp add: request_cancel_def Let_def)
qed

lemma slot_fits_cong: "jd_jobs db' = jd_jobs db \<Longrightarrow> slot_fits db' = slot_fits db"
  by (intro ext) (simp only: slot_fits_def)

lemma ensure_slot_ok [keeps]:
  assumes "rows_ok db"
  shows "rows_ok (ensure_slot sc db)"
proof (cases "list_ex (\<lambda>s. sl_scope s = sc) (jd_slots db)")
  case False
  let ?s = "\<lparr>sl_scope = sc, sl_job = None, sl_owner = None, sl_token = None, sl_lease = None\<rparr>"
  have e: "ensure_slot sc db = db\<lparr>jd_slots := jd_slots db @ [?s]\<rparr>" using False by (simp add: ensure_slot_def)
  have "slot_fits db ?s" by (simp add: slot_fits_def)
  moreover have "slot_fits (db\<lparr>jd_slots := jd_slots db @ [?s]\<rparr>) = slot_fits db" by (rule slot_fits_cong) simp
  ultimately show ?thesis
    unfolding e using assms False by (auto simp: rows_ok_def job_fits_def list_ex_iff)
qed (use assms in \<open>simp add: ensure_slot_def\<close>)

text \<open>Deleting ended jobs.\<close>

lemma drop_jobs_ok:
  assumes ok: "rows_ok db" and ended: "\<And>j. j \<in> set (jd_jobs db) \<Longrightarrow> jb_id j \<in> ids \<Longrightarrow> jb_status j \<noteq> ''running''"
  shows "rows_ok (drop_jobs ids db)"
proof -
  have "slot_fits (drop_jobs ids db) s'" if "s' \<in> set (jd_slots (drop_jobs ids db))" for s'
  proof -
    from that obtain s where s: "s \<in> set (jd_slots db)"
      "s' = (if (case sl_job s of None \<Rightarrow> False | Some i \<Rightarrow> i \<in> ids) then s\<lparr>sl_job := None\<rparr> else s)"
      by (auto simp: drop_jobs_def)
    show ?thesis
    proof (cases "sl_job s")
      case (Some i)
      from slot_job [OF ok s(1) Some] obtain j where j: "j \<in> set (jd_jobs db)" "jb_id j = i"
        "jb_scope j = sl_scope s" "jb_token j = sl_token s" "jb_lease j = sl_lease s" .
      show ?thesis
      proof (cases "i \<in> ids")
        case True
        have "lease_fits j" using rows_okD(4) [OF ok j(1)] by (simp add: job_fits_def)
        with ended [OF j(1)] True j Some s(2) show ?thesis by (auto simp: slot_fits_def lease_fits_def)
      next
        case False
        with j Some s(2) show ?thesis by (auto simp: slot_fits_def drop_jobs_def)
      qed
    qed (use rows_okD(3) [OF ok s(1)] s(2) in \<open>simp add: slot_fits_def\<close>)
  qed
  moreover have "job_fits (drop_jobs ids db) j" if "j \<in> set (jd_jobs (drop_jobs ids db))" for j
  proof -
    have j: "j \<in> set (jd_jobs db)" "jb_id j \<notin> ids" using that by (auto simp: drop_jobs_def)
    have "\<exists>s\<in>set (jd_slots (drop_jobs ids db)). sl_job s = Some (jb_id j)"
      if "s \<in> set (jd_slots db)" "sl_job s = Some (jb_id j)" for s
      using that j(2) by (auto simp: drop_jobs_def bex_update_rows intro!: bexI [of _ s])
    then show ?thesis using rows_okD(4) [OF ok j(1)] by (auto simp: job_fits_def)
  qed
  moreover have "distinct (map sl_scope (jd_slots (drop_jobs ids db)))" "distinct (map jb_id (jd_jobs (drop_jobs ids db)))"
    using rows_okD(1,2) [OF ok] by (auto simp: drop_jobs_def map_update_rows distinct_map_filter)
  ultimately show ?thesis unfolding rows_ok_def by blast
qed

lemma terminal_not_running: "s \<in> set TERMINAL_STATUSES \<Longrightarrow> s \<noteq> ''running''"
  by (auto simp: TERMINAL_STATUSES_def)

lemma dismiss_ok [keeps]:
  assumes "rows_ok db"
  shows "rows_ok (snd (dismiss tenant feature i db))"
proof (cases "current_by_id tenant feature i db")
  case (Some j)
  have j: "j \<in> set (jd_jobs db)" using find_SomeD [OF Some [unfolded current_by_id_def]] by simp
  show ?thesis
  proof (cases "jb_status j \<in> set TERMINAL_STATUSES")
    case True
    have "rows_ok (drop_jobs {jb_id j} db)"
      by (rule drop_jobs_ok [OF assms])
        (use unique_row [OF rows_okD(2) [OF assms] _ j] True terminal_not_running in auto)
    with True show ?thesis by (simp add: dismiss_def Some)
  qed (use assms in \<open>simp add: dismiss_def Some\<close>)
qed (use assms in \<open>simp add: dismiss_def\<close>)

lemma cleanup_ok [keeps]:
  assumes "rows_ok db"
  shows "rows_ok (snd (cleanup feature cutoff db))"
proof -
  have "rows_ok (drop_jobs (jb_id ` {j \<in> set (jd_jobs db). jb_status j \<in> set TERMINAL_STATUSES \<and>
      lapsed_lease cutoff (jb_expires j) \<and> (case feature of None \<Rightarrow> True | Some f \<Rightarrow> fst (snd (jb_scope j)) = f)}) db)"
    by (rule drop_jobs_ok [OF assms]) (use unique_row [OF rows_okD(2) [OF assms]] terminal_not_running in blast)
  with assms show ?thesis by (simp add: cleanup_def Let_def)
qed

text \<open>What a successful claim did: resume the running job of a lapsed slot, or start a new one.\<close>

definition taken :: "store \<Rightarrow> int \<Rightarrow> string \<Rightarrow> slot \<Rightarrow> slot" where
  "taken st now token s = s\<lparr>sl_owner := Some (st_owner st), sl_token := Some token, sl_lease := Some (now + st_lease st)\<rparr>"

lemma claim_slot_cases:
  assumes "claim_slot st now token fresh sc meta db = (Some j', db')"
  obtains (resumed) s j where "s \<in> set (jd_slots db)" "claimable now sc s" "sl_job s = Some (jb_id j)"
      "find_job (jb_id j) db = Some j" "jb_status j = ''running''" "j' = resume_job st now token (clean_metadata meta) j"
      "db' = db\<lparr>jd_slots := update_rows (claimable now sc) (taken st now token) (jd_slots db),
         jd_jobs := update_rows (\<lambda>x. jb_id x = jb_id j) (\<lambda>_. j') (jd_jobs db)\<rparr>"
  | (started) s where "s \<in> set (jd_slots db)" "claimable now sc s"
      "\<And>i j. sl_job s = Some i \<Longrightarrow> find_job i db = Some j \<Longrightarrow> jb_status j \<noteq> ''running''"
      "j' = new_job st now token fresh sc (clean_metadata meta)"
      "db' = db\<lparr>jd_slots := update_rows (\<lambda>s. sl_scope s = sc) (\<lambda>s. s\<lparr>sl_job := Some fresh\<rparr>)
           (update_rows (claimable now sc) (taken st now token) (jd_slots db)), jd_jobs := jd_jobs db @ [j']\<rparr>"
proof -
  obtain s where f: "find (claimable now sc) (jd_slots db) = Some s"
    using assms by (auto simp: claim_slot_def split: option.splits)
  note s = find_SomeD [OF f]
  have t: "(\<lambda>s. s\<lparr>sl_owner := Some (st_owner st), sl_token := Some token, sl_lease := Some (now + st_lease st)\<rparr>)
      = taken st now token" by (simp add: taken_def fun_eq_iff)
  show thesis
  proof (cases "case Option.bind (sl_job s) (\<lambda>i. find_job i db) of None \<Rightarrow> False | Some cur \<Rightarrow> jb_status cur = ''running''")
    case True
    then obtain i j where j: "sl_job s = Some i" "find_job i db = Some j" "jb_status j = ''running''"
      by (auto split: option.splits simp: bind_eq_Some_conv)
    then have i: "i = jb_id j" unfolding find_job_def by (auto dest: find_SomeD)
    have "jb_id (resume_job st now token m j) = jb_id j" for m by (simp add: resume_job_def)
    then have "j' = resume_job st now token (clean_metadata meta) j"
      "db' = db\<lparr>jd_slots := update_rows (claimable now sc) (taken st now token) (jd_slots db),
         jd_jobs := update_rows (\<lambda>x. jb_id x = jb_id j) (\<lambda>_. j') (jd_jobs db)\<rparr>"
      using assms f j by (auto simp: claim_slot_def Let_def t)
    with s j i show thesis by (intro resumed [of s j]) simp_all
  next
    case False
    have "j' = new_job st now token fresh sc (clean_metadata meta)"
      "db' = db\<lparr>jd_slots := update_rows (\<lambda>s. sl_scope s = sc) (\<lambda>s. s\<lparr>sl_job := Some fresh\<rparr>)
           (update_rows (claimable now sc) (taken st now token) (jd_slots db)), jd_jobs := jd_jobs db @ [j']\<rparr>"
      using assms f False by (auto simp: claim_slot_def Let_def t)
    with s False show thesis by (intro started [of s]) simp_all
  qed
qed

lemma claim_slot_None: "claim_slot st now token fresh sc meta db = (None, db') \<Longrightarrow> db' = db"
  by (auto simp: claim_slot_def Let_def split: option.splits if_splits)

lemma claim_slot_ok [keeps]:
  assumes ok: "rows_ok db" and fresh: "fresh \<notin> jb_id ` set (jd_jobs db)"
  shows "rows_ok (snd (claim_slot st now token fresh sc meta db))"
proof (cases "claim_slot st now token fresh sc meta db")
  case (Pair r db')
  show ?thesis
  proof (cases r)
    case (Some j')
    with Pair have "claim_slot st now token fresh sc meta db = (Some j', db')" by simp
    then show ?thesis
    proof (cases rule: claim_slot_cases)
      case (resumed s j)
      have j: "j \<in> set (jd_jobs db)" using resumed(4) by (auto simp: find_job_def dest: find_SomeD)
      have "rows_ok (db\<lparr>jd_slots := update_rows (claimable now sc) (taken st now token) (jd_slots db),
         jd_jobs := update_rows (\<lambda>x. jb_id x = jb_id j) (\<lambda>_. j') (jd_jobs db)\<rparr>)"
        by (rule linked_update [OF ok resumed(1) j resumed(3)])
          (use resumed(2,5,6) in \<open>simp_all add: claimable_def taken_def resume_job_def lease_fits_def\<close>)
      then show ?thesis using Pair resumed(7) by simp
    next
      case (started s)
      have sc: "sl_scope s = sc" using started(2) by (simp add: claimable_def)
      let ?s' = "taken st now token s\<lparr>sl_job := Some fresh\<rparr>"
      have one: "update_rows (claimable now sc) (taken st now token) (jd_slots db) =
          update_rows (\<lambda>x. sl_scope x = sl_scope s) (\<lambda>_. taken st now token s) (jd_slots db)"
        by (rule update_one [where P = "claimable now sc", OF rows_okD(1) [OF ok] started(1,2)])
          (simp add: claimable_def sc)
      have slots: "jd_slots db' = update_rows (\<lambda>x. sl_scope x = sc) (\<lambda>_. ?s') (jd_slots db)"
        unfolding started(5) by (simp add: one sc) (simp add: update_rows_def taken_def sc)
      have jobs: "jd_jobs db' = jd_jobs db @ [j']" by (simp add: started(5))
      have sc': "sl_scope ?s' = sc" by (simp add: taken_def sc)
      have "slot_fits db' x'" if "x' \<in> set (jd_slots db')" for x'
      proof -
        from that obtain x where x: "x \<in> set (jd_slots db)" "x' = (if sl_scope x = sc then ?s' else x)"
          by (auto simp: slots)
        show ?thesis
        proof (cases "sl_scope x = sc")
          case True
          with x(2) show ?thesis using sc
            by (simp add: slot_fits_def jobs started(4) new_job_def taken_def)
        next
          case False
          with x rows_okD(3) [OF ok x(1)] show ?thesis
            by (auto simp: slot_fits_def jobs split: option.splits)
        qed
      qed
      moreover have "job_fits db' y" if "y \<in> set (jd_jobs db')" for y
      proof (cases "y = j'")
        case True
        have "?s' \<in> set (jd_slots db')" using started(1) sc by (auto simp: slots)
        then have "\<exists>x\<in>set (jd_slots db'). sl_job x = Some fresh" by (rule bexI [rotated]) simp
        with True show ?thesis by (simp add: job_fits_def lease_fits_def started(4) new_job_def)
      next
        case False
        with that have y: "y \<in> set (jd_jobs db)" by (simp add: jobs)
        have "\<exists>x'\<in>set (jd_slots db'). sl_job x' = Some (jb_id y)" if run: "jb_status y = ''running''"
        proof -
          from rows_okD(4) [OF ok y] run obtain x where x: "x \<in> set (jd_slots db)" "sl_job x = Some (jb_id y)"
            by (auto simp: job_fits_def)
          have "sl_scope x \<noteq> sc"
          proof
            assume "sl_scope x = sc"
            then have "x = s" using unique_row [OF rows_okD(1) [OF ok] x(1) started(1)] sc by simp
            moreover have "find_job (jb_id y) db = Some y"
              using y by (simp add: find_job_def find_key [OF rows_okD(2) [OF ok]])
            ultimately show False using started(3) x(2) run by blast
          qed
          with x show ?thesis by (auto simp: slots bex_update_rows intro!: bexI [of _ x])
        qed
        with rows_okD(4) [OF ok y] show ?thesis by (auto simp: job_fits_def)
      qed
      moreover have "map sl_scope (jd_slots db') = map sl_scope (jd_slots db)"
        using sc' by (auto simp: slots update_rows_def)
      then have "distinct (map sl_scope (jd_slots db'))" using rows_okD(1) [OF ok] by simp
      moreover have "distinct (map jb_id (jd_jobs db'))"
        using rows_okD(2) [OF ok] fresh by (simp add: jobs started(4) new_job_def)
      ultimately show ?thesis using Pair unfolding rows_ok_def by simp
    qed
  next
    case None
    with Pair have "db' = db" by (intro claim_slot_None) simp
    with Pair ok show ?thesis by simp
  qed
qed

section \<open>Transactions as steps\<close>

text \<open>
  One transaction of any replica, at any clock reading. Lease tokens and row ids are random UUIDs, so
  a new one is none of the ids in the table and none of the values \<open>used\<close> before that matter.
\<close>

inductive job_step :: "string set \<Rightarrow> jobs_db \<Rightarrow> jobs_db \<Rightarrow> bool" for used where
  slot: "job_step used db (ensure_slot sc db)"
| claim: "t \<notin> used \<Longrightarrow> fresh \<notin> used \<Longrightarrow> fresh \<notin> jb_id ` set (jd_jobs db) \<Longrightarrow>
    job_step used db (snd (claim_slot st now t fresh sc meta db))"
| interrupt: "job_step used db (snd (interrupt_expired now sc err retention db))"
| append: "job_step used db (snd (append_events now i t evs limit meta_opt inc db))"
| beat: "job_step used db (snd (heartbeat st now i t db))"
| finish: "job_step used db (snd (finalize now i t status res err retention db))"
| cancel: "job_step used db (snd (request_cancel sc db))"
| dismiss: "job_step used db (snd (dismiss tenant feature i db))"
| cleanup: "job_step used db (snd (cleanup feat now db))"

definition holds_job :: "string \<Rightarrow> string \<Rightarrow> jobs_db \<Rightarrow> bool" where
  "holds_job i token db \<longleftrightarrow> (\<exists>j\<in>set (jd_jobs db). owned_row i token j)"

text \<open>The three writes a runner makes; \<open>None\<close> when the database refuses them.\<close>

datatype job_write =
    Append int "(string \<times> json) list" int "json option" bool
  | Renew store int
  | Finish int string "json option" string int

fun put_job :: "job_write \<Rightarrow> string \<Rightarrow> string \<Rightarrow> jobs_db \<Rightarrow> jobs_db option" where
  "put_job (Append now evs limit meta inc) i token db =
     (case append_events now i token evs limit meta inc db of ([], _) \<Rightarrow> None | (_, db') \<Rightarrow> Some db')"
| "put_job (Renew st now) i token db = (case heartbeat st now i token db of ((owned, _), db') \<Rightarrow> if owned then Some db' else None)"
| "put_job (Finish now status res err retention) i token db =
     (case finalize now i token status res err retention db of (Inr True, db') \<Rightarrow> Some db' | _ \<Rightarrow> None)"

lemma not_held: "\<not> holds_job i token db \<longleftrightarrow> find (owned_row i token) (jd_jobs db) = None"
  by (auto simp: holds_job_def find_None_iff)

lemma rowcount_0: "(\<And>x. x \<in> set xs \<Longrightarrow> \<not> P x) \<Longrightarrow> rowcount P xs = 0"
  by (simp add: rowcount_def filter_empty_conv)

lemma not_held_writes:
  assumes "\<not> holds_job i token db"
  shows "append_events now i token evs limit meta inc db = ([], db)"
    and "heartbeat st now i token db = ((False, False), db)"
    and "snd (finalize now i token status res err retention db) = db"
    and "fst (finalize now i token status res err retention db) \<noteq> Inr True"
proof -
  note n = assms [unfolded not_held]
  have "rowcount (owned_row i token) (jd_jobs db) = 0"
    by (rule rowcount_0) (use assms in \<open>auto simp: holds_job_def\<close>)
  with n show "append_events now i token evs limit meta inc db = ([], db)"
    "heartbeat st now i token db = ((False, False), db)"
    "snd (finalize now i token status res err retention db) = db"
    "fst (finalize now i token status res err retention db) \<noteq> Inr True"
    by (simp_all add: append_events_def heartbeat_def finalize_def Let_def)
qed

text \<open>No step but a claim sets a token.\<close>

lemma not_held_jobs:
  assumes "\<not> holds_job i token db"
    and "\<And>j. j \<in> set (jd_jobs db') \<Longrightarrow> owned_row i token j \<Longrightarrow> \<exists>k\<in>set (jd_jobs db). owned_row i token k"
  shows "\<not> holds_job i token db'"
  using assms by (auto simp: holds_job_def)

lemma not_held_update:
  assumes "\<not> holds_job i token db" "jd_jobs db' = update_rows P f (jd_jobs db)"
    "\<And>j. owned_row i token (f j) \<Longrightarrow> owned_row i token j"
  shows "\<not> holds_job i token db'"
  by (rule not_held_jobs [OF assms(1)]) (use assms(2,3) in \<open>auto split: if_splits\<close>)

lemma append_events_cases:
  obtains (refused) "append_events now i t evs limit meta inc db = ([], db)"
  | (stored) j rows where "find (owned_row i t) (jd_jobs db) = Some j" "evs \<noteq> []"
      "rows = map (\<lambda>(k, e). stored_event now inc i (jb_next_seq j + k) e) (enumerate 0 evs)"
      "append_events now i t evs limit meta inc db = (rows,
         db\<lparr>jd_jobs := update_rows (owned_row i t) (reserve (length evs) meta) (jd_jobs db),
            jd_events := trim_events i (nat (max 1 limit)) (jd_events db @ rows)\<rparr>)"
proof (cases "evs = [] \<or> find (owned_row i t) (jd_jobs db) = None")
  case True
  then show thesis by (intro refused) (auto simp: append_events_def)
next
  case False
  then obtain j where "find (owned_row i t) (jd_jobs db) = Some j" "evs \<noteq> []" by auto
  then show thesis by (intro stored [OF _ _ refl]) (simp_all only: append_events_def Let_def if_False option.case not_False_eq_True)
qed

lemma not_reissued_step:
  assumes "job_step {token} db db'" "\<not> holds_job i token db"
  shows "\<not> holds_job i token db'"
  using assms(1)
proof (cases rule: job_step.cases)
  case (claim t fresh st now sc meta)
  show ?thesis
  proof (cases "claim_slot st now t fresh sc meta db")
    case (Pair r db2)
    show ?thesis
    proof (cases r)
      case (Some j')
      with Pair have "claim_slot st now t fresh sc meta db = (Some j', db2)" by simp
      then show ?thesis
        by (cases rule: claim_slot_cases)
          (use assms(2) claim(1,2) Pair in \<open>auto simp: holds_job_def owned_row_def resume_job_def new_job_def split: if_splits\<close>)
    next
      case None
      with Pair claim_slot_None have "db2 = db" by metis
      with Pair claim(1) assms(2) show ?thesis by simp
    qed
  qed
next
  case (interrupt now sc err retention)
  show ?thesis
  proof (cases "interrupt_expired now sc err retention db")
    case (Pair r db2)
    show ?thesis
    proof (cases r)
      case True
      with Pair have "interrupt_expired now sc err retention db = (True, db2)" by simp
      then show ?thesis
        by (rule interrupt_expired_True)
          (use assms(2) interrupt Pair in \<open>auto simp: holds_job_def owned_row_def split: if_splits\<close>)
    next
      case False
      with Pair have "db2 = db" by (intro interrupt_expired_False) simp
      with Pair interrupt assms(2) show ?thesis by simp
    qed
  qed
next
  case (append now i' t evs limit meta_opt inc)
  show ?thesis
  proof (cases rule: append_events_cases [of now i' t evs limit meta_opt inc db])
    case (stored j rows)
    show ?thesis
      by (rule not_held_update [OF assms(2), where f = "reserve (length evs) meta_opt" and P = "owned_row i' t"])
        (simp_all add: append stored(4) owned_row_def)
  qed (use append assms(2) in simp)
next
  case (beat st now i' t)
  obtain r c db2 where h: "heartbeat st now i' t db = ((r, c), db2)" by (metis prod.collapse)
  show ?thesis
  proof (cases r)
    case True
    with h have "heartbeat st now i' t db = ((True, c), db2)" by simp
    then show ?thesis
    proof (rule heartbeat_True)
      assume "db2 = db\<lparr>jd_slots := update_rows (\<lambda>s. sl_job s = Some i' \<and> sl_token s = Some t)
          (\<lambda>s. s\<lparr>sl_lease := Some (now + st_lease st)\<rparr>) (jd_slots db),
        jd_jobs := update_rows (owned_row i' t) (\<lambda>x. x\<lparr>jb_lease := Some (now + st_lease st)\<rparr>) (jd_jobs db)\<rparr>"
      with beat h show ?thesis
        by (intro not_held_update [OF assms(2)]) (simp, simp add: owned_row_def)
    qed
  next
    case False
    with h have "db2 = db" by (intro heartbeat_False) simp
    with h beat assms(2) show ?thesis by simp
  qed
next
  case (finish now i' t status res err retention)
  show ?thesis
  proof (cases "finalize now i' t status res err retention db")
    case (Pair r db2)
    show ?thesis
    proof (cases "r = Inr True")
      case True
      with Pair have "finalize now i' t status res err retention db = (Inr True, db2)" by simp
      then show ?thesis
      proof (rule finalize_True)
        assume "db2 = db\<lparr>jd_slots := update_rows (\<lambda>s. sl_job s = Some i' \<and> sl_token s = Some t) free_slot (jd_slots db),
          jd_jobs := update_rows (owned_row i' t) (end_job now status (Option.bind res (\<lambda>r. bounded_json r MAX_RESULT_BYTES))
            (if take 1500 err = [] then None else Some (take 1500 err)) retention) (jd_jobs db)\<rparr>"
        with finish Pair show ?thesis
          by (intro not_held_update [OF assms(2)]) (simp, simp add: owned_row_def)
      qed
    next
      case False
      with Pair have "db2 = db" by (intro finalize_else)
      with Pair finish assms(2) show ?thesis by simp
    qed
  qed
next
  case (cancel sc)
  show ?thesis
    by (rule not_held_update [OF assms(2), where f = "\<lambda>j. j\<lparr>jb_cancel := True\<rparr>" and
        P = "\<lambda>j. Some (jb_id j) = Option.bind (find (\<lambda>s. sl_scope s = sc) (jd_slots db)) sl_job \<and> jb_status j = ''running''"])
      (simp_all add: cancel request_cancel_def Let_def owned_row_def)
next
  case (dismiss tenant feature i')
  show ?thesis
    by (rule not_held_jobs [OF assms(2)])
      (auto simp: dismiss dismiss_def drop_jobs_def split: option.splits if_splits)
next
  case (cleanup feat now)
  show ?thesis
    by (rule not_held_jobs [OF assms(2)]) (auto simp: cleanup cleanup_def drop_jobs_def Let_def split: if_splits)
next
  case (slot sc)
  then show ?thesis using assms(2) by (simp add: holds_job_def ensure_slot_def)
qed

lemma job_step_ok [keeps]:
  assumes "job_step used db db'" "rows_ok db"
  shows "rows_ok db'"
  using assms(1)
  by (cases rule: job_step.cases) (auto intro: ensure_slot_ok claim_slot_ok interrupt_expired_ok append_events_ok
      heartbeat_ok finalize_ok request_cancel_ok dismiss_ok cleanup_ok assms(2))

interpretation job_lease: fenced_lease rows_ok holds_job put_job "\<lambda>t. job_step {t}"
proof
  show "put_job w i token db = None" if "\<not> holds_job i token db" for i token db w
    using not_held_writes [OF that] by (cases w) (auto split: prod.splits sum.splits bool.splits, (metis fst_conv)+)
  show "t = t'" if "rows_ok db" "holds_job i t db" "holds_job i t' db" for i t t' db
    using that rows_okD(2) [OF that(1)] unfolding holds_job_def owned_row_def
    by (metis option.inject unique_row)
qed (use not_reissued_step job_step_ok in blast)+

section \<open>The event log\<close>

text \<open>
  The stored events of a job, in the order they were written, carry consecutive sequence numbers that
  end right before the next one to be given out.
\<close>

definition job_seqs :: "string \<Rightarrow> job_event list \<Rightarrow> nat list" where
  "job_seqs i evs = map ev_seq (filter (\<lambda>e. ev_job e = i) evs)"

definition gapless :: "nat \<Rightarrow> nat list \<Rightarrow> bool" where
  "gapless n qs \<longleftrightarrow> (\<exists>a\<le>n. qs = [a..<n])"

definition log_ok :: "jobs_db \<Rightarrow> bool" where
  "log_ok db \<longleftrightarrow> (\<forall>j\<in>set (jd_jobs db). gapless (jb_next_seq j) (job_seqs (jb_id j) (jd_events db))) \<and>
     ev_job ` set (jd_events db) \<subseteq> jb_id ` set (jd_jobs db)"

lemma job_seqs_append [simp]: "job_seqs i (xs @ ys) = job_seqs i xs @ job_seqs i ys"
  by (simp add: job_seqs_def)

lemma job_seqs_rows:
  "job_seqs i (map (\<lambda>(k, e). stored_event now inc i' (n + k) e) (enumerate m evs)) =
     (if i = i' then [n + m..<n + m + length evs] else [])"
proof (induction evs arbitrary: m)
  case (Cons e evs)
  have u: "[n + m..<n + m + length (e # evs)] = (n + m) # [n + Suc m..<n + Suc m + length evs]"
    by (subst upt_conv_Cons) simp_all
  show ?case
    using Cons [of "Suc m"] unfolding u by (auto simp: job_seqs_def stored_event_def simp del: upt_Suc)
qed (simp add: job_seqs_def)

lemma job_seqs_trim_other: "i \<noteq> i' \<Longrightarrow> job_seqs i (trim_events i' keep evs) = job_seqs i evs"
  unfolding job_seqs_def trim_events_def Let_def filter_filter
  by (rule arg_cong [where f = "map ev_seq"], rule filter_cong) auto

lemma filter_upt_ge: "filter (\<lambda>q. b \<le> q) [a..<n] = [max a b..<n]"
  by (induction n) auto

lemma job_seqs_trim:
  assumes "job_seqs i evs = [a..<n]" "a \<le> n"
  shows "job_seqs i (trim_events i keep evs) = [max a (n - keep)..<n]"
proof -
  let ?mine = "filter (\<lambda>e. ev_job e = i) evs"
  have sorted: "sort_key ev_seq ?mine = ?mine"
    by (rule sort_key_id_if_sorted) (use assms in \<open>simp add: job_seqs_def\<close>)
  have "ev_seq ` set (drop keep (rev (sort_key ev_seq ?mine))) = set (drop keep (rev [a..<n]))"
    unfolding sorted using assms(1) by (simp add: job_seqs_def flip: set_map drop_map rev_map)
  also have "drop keep (rev [a..<n]) = rev [a..<n - keep]"
  proof (cases "keep \<le> n - a")
    case True
    with assms(2) have "a + (n - (a + keep)) = n - keep" "a + (n - (a + keep)) \<le> n" by simp_all
    then show ?thesis by (simp add: drop_rev take_upt)
  qed (simp add: drop_rev)
  finally have stale: "ev_seq ` set (drop keep (rev (sort_key ev_seq ?mine))) = {a..<n - keep}" by simp
  have "job_seqs i (trim_events i keep evs) = map ev_seq (filter (\<lambda>e. \<not> ev_seq e \<in> {a..<n - keep}) ?mine)"
    unfolding job_seqs_def trim_events_def Let_def filter_filter stale
    by (rule arg_cong [where f = "map ev_seq"], rule filter_cong) auto
  also have "\<dots> = filter (\<lambda>q. \<not> q \<in> {a..<n - keep}) (job_seqs i evs)"
    by (simp add: job_seqs_def filter_map o_def)
  also have "\<dots> = filter (\<lambda>q. n - keep \<le> q) [a..<n]"
    unfolding assms(1) by (rule filter_cong) auto
  finally show ?thesis by (simp add: filter_upt_ge)
qed

lemma covered: "J' = J \<Longrightarrow> R \<subseteq> {i} \<Longrightarrow> E' \<subseteq> E \<union> R \<Longrightarrow> i \<in> J \<Longrightarrow> E \<subseteq> J \<Longrightarrow> E' \<subseteq> J'"
  by blast

lemma append_log_ok:
  assumes ok: "rows_ok db" and log: "log_ok db"
  shows "log_ok (snd (append_events now i t evs limit meta inc db))"
proof (cases rule: append_events_cases [of now i t evs limit meta inc db])
  case (stored j rows)
  from find_SomeD [OF stored(1)] have j: "j \<in> set (jd_jobs db)" "jb_id j = i" "owned_row i t j"
    by (auto simp: owned_row_def)
  let ?db' = "snd (append_events now i t evs limit meta inc db)"
  have db': "jd_jobs ?db' = update_rows (owned_row i t) (reserve (length evs) meta) (jd_jobs db)"
    "jd_events ?db' = trim_events i (nat (max 1 limit)) (jd_events db @ rows)"
    by (simp_all add: stored(4))
  from log j obtain a where a: "a \<le> jb_next_seq j" "job_seqs i (jd_events db) = [a..<jb_next_seq j]"
    by (auto simp: log_ok_def gapless_def)
  have rows: "job_seqs k rows = (if k = i then [jb_next_seq j..<jb_next_seq j + length evs] else [])" for k
    using job_seqs_rows [of k now inc i "jb_next_seq j" 0 evs] by (simp add: stored(3))
  have "job_seqs i (jd_events db @ rows) = [a..<jb_next_seq j + length evs]"
    by (simp only: job_seqs_append a(2) rows simp_thms if_True upt_add_eq_append [OF a(1)])
  then have mine: "gapless (jb_next_seq j + length evs) (job_seqs i (jd_events ?db'))"
    unfolding db'(2) gapless_def
    using a(1) job_seqs_trim [of i "jd_events db @ rows" a "jb_next_seq j + length evs" "nat (max 1 limit)"]
    by (intro exI [of _ "max a (jb_next_seq j + length evs - nat (max 1 limit))"]) simp
  have "gapless (jb_next_seq y) (job_seqs (jb_id y) (jd_events ?db'))" if y: "y \<in> set (jd_jobs ?db')" for y
  proof -
    from y obtain x where x: "x \<in> set (jd_jobs db)"
      "y = (if owned_row i t x then reserve (length evs) meta x else x)" by (auto simp: db'(1))
    show ?thesis
    proof (cases "jb_id x = i")
      case True
      then have "x = j" using unique_row [OF rows_okD(2) [OF ok] x(1) j(1)] j(2) by simp
      with x(2) j mine show ?thesis by simp
    next
      case False
      with x(2) have "y = x" by (auto simp: owned_row_def)
      moreover have "job_seqs (jb_id x) (jd_events ?db') = job_seqs (jb_id x) (jd_events db)"
        using False by (simp add: db'(2) job_seqs_trim_other rows)
      ultimately show ?thesis using log x(1) by (simp add: log_ok_def)
    qed
  qed
  moreover have "ev_job ` set (jd_events ?db') \<subseteq> jb_id ` set (jd_jobs ?db')"
  proof -
    have "jb_id ` set (jd_jobs ?db') = jb_id ` set (jd_jobs db)"
      unfolding db'(1) set_map [symmetric] by (rule arg_cong [where f = set], rule map_update_rows) simp
    moreover have "ev_job ` set rows \<subseteq> {i}"
      by (auto simp: stored(3) stored_event_def)
    moreover have "ev_job ` set (jd_events ?db') \<subseteq> ev_job ` set (jd_events db) \<union> ev_job ` set rows"
      by (auto simp: db'(2) trim_events_def Let_def)
    moreover have "i \<in> jb_id ` set (jd_jobs db)" using j(1,2) by (metis imageI)
    moreover have "ev_job ` set (jd_events db) \<subseteq> jb_id ` set (jd_jobs db)"
      using log unfolding log_ok_def by blast
    ultimately show ?thesis by (rule covered)
  qed
  ultimately show ?thesis unfolding log_ok_def by blast
qed (use log in simp)

text \<open>Every other transaction keeps the numbers, or deletes a job with all of its events.\<close>

definition quiet :: "jobs_db \<Rightarrow> jobs_db \<Rightarrow> bool" where
  "quiet db db' \<longleftrightarrow> jd_events db' = jd_events db \<and> (\<exists>P f. jd_jobs db' = update_rows P f (jd_jobs db) \<and>
     (\<forall>j. jb_id (f j) = jb_id j \<and> jb_next_seq (f j) = jb_next_seq j))"

lemma quietI:
  "jd_events db' = jd_events db \<Longrightarrow> jd_jobs db' = update_rows P f (jd_jobs db) \<Longrightarrow>
   (\<And>j. jb_id (f j) = jb_id j) \<Longrightarrow> (\<And>j. jb_next_seq (f j) = jb_next_seq j) \<Longrightarrow> quiet db db'"
  unfolding quiet_def by blast

lemma quiet_refl [simp]: "quiet db db"
  by (rule quietI [where P = "\<lambda>_. False" and f = id]) (simp_all add: update_rows_def)

lemma quiet_log:
  assumes "log_ok db" "quiet db db'"
  shows "log_ok db'"
proof -
  from assms(2) obtain P f where f: "jd_events db' = jd_events db" "jd_jobs db' = update_rows P f (jd_jobs db)"
    "\<And>j. jb_id (f j) = jb_id j" "\<And>j. jb_next_seq (f j) = jb_next_seq j"
    unfolding quiet_def by blast
  have "jb_id ` set (jd_jobs db') = jb_id ` set (jd_jobs db)"
    unfolding f(2) set_map [symmetric] by (rule arg_cong [where f = set], rule map_update_rows) (rule f(3))
  with assms(1) f show ?thesis unfolding log_ok_def by auto
qed

lemma quiet_transactions:
  "quiet db (snd (interrupt_expired now sc err retention db))"
  "quiet db (snd (heartbeat st now i t db))"
  "quiet db (snd (finalize now i t status res err retention db))"
  "quiet db (snd (request_cancel sc db))"
  by (auto simp: interrupt_expired_def heartbeat_def finalize_def request_cancel_def Let_def
      intro: quietI split: option.splits)

lemma drop_jobs_log:
  assumes "log_ok db"
  shows "log_ok (drop_jobs ids db)"
proof -
  have "job_seqs i (filter (\<lambda>e. ev_job e \<notin> ids) evs) = job_seqs i evs" if "i \<notin> ids" for i evs
    unfolding job_seqs_def filter_filter
    by (rule arg_cong [where f = "map ev_seq"], rule filter_cong) (use that in auto)
  with assms show ?thesis by (auto simp: log_ok_def drop_jobs_def)
qed

lemma claim_log_ok:
  assumes ok: "rows_ok db" and log: "log_ok db" and fresh: "fresh \<notin> jb_id ` set (jd_jobs db)"
  shows "log_ok (snd (claim_slot st now t fresh sc meta db))"
proof (cases "claim_slot st now t fresh sc meta db")
  case (Pair r db2)
  show ?thesis
  proof (cases r)
    case (Some j')
    with Pair have "claim_slot st now t fresh sc meta db = (Some j', db2)" by simp
    then show ?thesis
    proof (cases rule: claim_slot_cases)
      case (resumed s j)
      have j: "j \<in> set (jd_jobs db)" using resumed(4) by (auto simp: find_job_def dest: find_SomeD)
      have "update_rows (\<lambda>x. jb_id x = jb_id j) (\<lambda>_. j') (jd_jobs db) =
          update_rows (\<lambda>x. jb_id x = jb_id j) (resume_job st now t (clean_metadata meta)) (jd_jobs db)"
        unfolding update_rows_def resumed(6)
        by (rule map_cong) (use unique_row [OF rows_okD(2) [OF ok] _ j] in auto)
      then have "log_ok db2"
        using resumed(7) by (intro quiet_log [OF log] quietI
            [where P = "\<lambda>x. jb_id x = jb_id j" and f = "resume_job st now t (clean_metadata meta)"])
          (simp_all add: resume_job_def)
      with Pair show ?thesis by simp
    next
      case (started s)
      have "fresh \<notin> ev_job ` set (jd_events db)" using fresh log unfolding log_ok_def by blast
      then have "job_seqs fresh (jd_events db) = []"
        by (auto simp: job_seqs_def filter_empty_conv)
      then have "log_ok db2"
        using log started(5) by (auto simp: log_ok_def started(4) new_job_def gapless_def)
      with Pair show ?thesis by simp
    qed
  next
    case None
    with Pair have "db2 = db" by (intro claim_slot_None) simp
    with Pair log show ?thesis by simp
  qed
qed

lemma job_step_log [keeps]:
  assumes "job_step used db db'" "rows_ok db" "log_ok db"
  shows "log_ok db'"
  using assms(1)
proof (cases rule: job_step.cases)
  case slot
  then show ?thesis using assms(3) by (simp add: log_ok_def ensure_slot_def)
next
  case dismiss
  then show ?thesis using assms(3) drop_jobs_log
    by (auto simp: dismiss_def split: option.splits)
next
  case cleanup
  then show ?thesis using assms(3) drop_jobs_log by (auto simp: cleanup_def Let_def)
qed (use assms claim_log_ok append_log_ok quiet_log quiet_transactions in auto)

section \<open>Properties\<close>

definition empty_jobs :: jobs_db where
  "empty_jobs = \<lparr>jd_slots = [], jd_jobs = [], jd_events = []\<rparr>"

inductive reachable_jobs :: "jobs_db \<Rightarrow> bool" where
  start: "reachable_jobs empty_jobs"
| step: "reachable_jobs db \<Longrightarrow> job_step {} db db' \<Longrightarrow> reachable_jobs db'"

lemma reachable_ok: "reachable_jobs db \<Longrightarrow> rows_ok db \<and> log_ok db"
proof (induction rule: reachable_jobs.induct)
  case start
  show ?case by (simp add: empty_jobs_def rows_ok_def log_ok_def)
qed (auto intro: keeps)

lemma claim_slot_holds:
  assumes "rows_ok db" "claim_slot st now token fresh sc meta db = (Some j', db')"
  shows "holds_job (jb_id j') token db'"
  using assms(2)
proof (cases rule: claim_slot_cases)
  case (resumed s j)
  have "j \<in> set (jd_jobs db)" using resumed(4) by (auto simp: find_job_def dest: find_SomeD)
  then have "j' \<in> set (jd_jobs db')" by (auto simp: resumed(7))
  moreover have "owned_row (jb_id j') token j'" using resumed(5,6) by (simp add: owned_row_def resume_job_def)
  ultimately show ?thesis unfolding holds_job_def by blast
next
  case (started s)
  have "owned_row (jb_id j') token j'" by (simp add: started(4) owned_row_def new_job_def)
  then show ?thesis by (simp add: holds_job_def started(5))
qed

lemma run_end_not_held:
  assumes "\<not> holds_job (jb_id j) token db"
  shows "run_end now j token retention e db = db"
proof -
  have "fst (lease_state (jb_id j) token db) = False"
    using assms by (auto simp: lease_state_def find_job_def holds_job_def owned_row_def dest!: find_SomeD split: option.splits)
  moreover note not_held_writes(3) [OF assms]
  ultimately show ?thesis
    by (cases e) (simp_all add: run_end_def case_prod_unfold Let_def split: sum.splits prod.splits)
qed

text \<open>
  C8. Fencing. Once another replica has claimed a job's scope, the previous owner - whatever it still
  does with its old token, and whatever transactions run in between - appends no event, renews no
  lease, and stores no outcome; each of its writes leaves the database as it is.
\<close>
theorem superseded_owner_is_fenced:
  assumes "reachable_jobs db" "claim_slot st now token' fresh sc meta db = (Some j, db1)"
    and "fresh \<notin> jb_id ` set (jd_jobs db)" "token' \<noteq> token"
    and "(job_step {token})\<^sup>*\<^sup>* db1 db2"
  shows "append_events n (jb_id j) token evs limit m inc db2 = ([], db2) \<and>
    heartbeat st' n (jb_id j) token db2 = ((False, False), db2) \<and>
    snd (finalize n (jb_id j) token status res err retention db2) = db2 \<and>
    run_end n j token retention e db2 = db2"
proof -
  have ok: "rows_ok db" using reachable_ok [OF assms(1)] by blast
  have ok1: "rows_ok db1" using claim_slot_ok [OF ok assms(3), of st now token' sc meta] assms(2) by simp
  have "\<not> holds_job (jb_id j) token db1"
    using job_lease.single [OF ok1 claim_slot_holds [OF ok assms(2)]] assms(4) by blast
  then have "\<not> holds_job (jb_id j) token db2" by (rule job_lease.lost_stays_lost [OF assms(5)])
  then show ?thesis by (simp add: not_held_writes run_end_not_held)
qed

lemma running_slot:
  assumes "rows_ok db" "j \<in> set (jd_jobs db)" "jb_status j = ''running''"
  obtains s where "s \<in> set (jd_slots db)" "sl_scope s = jb_scope j" "sl_job s = Some (jb_id j)"
    "sl_lease s = jb_lease j" "find (\<lambda>s. sl_scope s = jb_scope j) (jd_slots db) = Some s"
    "current_job db s = Some j"
proof -
  from rows_okD(4) [OF assms(1,2)] assms(3) obtain s where s: "s \<in> set (jd_slots db)" "sl_job s = Some (jb_id j)"
    by (auto simp: job_fits_def)
  from slot_job [OF assms(1) s] obtain k where k: "k \<in> set (jd_jobs db)" "jb_id k = jb_id j" "jb_scope k = sl_scope s"
    "jb_lease k = sl_lease s" by metis
  have "k = j" by (rule unique_row [OF rows_okD(2) [OF assms(1)] k(1) assms(2) k(2)])
  with k have sc: "sl_scope s = jb_scope j" "sl_lease s = jb_lease j" by simp_all
  moreover have "find (\<lambda>s. sl_scope s = jb_scope j) (jd_slots db) = Some s"
    using s sc by (simp add: find_key [OF rows_okD(1) [OF assms(1)]])
  moreover have "find_job (jb_id j) db = Some j"
    using assms(2) by (simp add: find_job_def find_key [OF rows_okD(2) [OF assms(1)]])
  ultimately show thesis using s by (intro that [of s]) (simp_all add: current_job_def)
qed

text \<open>
  Lemma. Mutual exclusion. A scope has at most one running job, and while its lease runs, every
  claim of the scope by any replica attaches to it, with its events, and changes nothing.
\<close>
lemma live_job_excludes_others:
  assumes "reachable_jobs db" "j \<in> set (jd_jobs db)" "jb_status j = ''running''"
    and "jb_lease j = Some t" "now < t"
  shows "claim st now token fresh (jb_scope j) meta later db = (Attached (j, events_of (jb_id j) db), db) \<and>
    (\<forall>k\<in>set (jd_jobs db). jb_status k = ''running'' \<and> jb_scope k = jb_scope j \<longrightarrow> k = j)"
proof -
  have ok: "rows_ok db" using reachable_ok [OF assms(1)] by blast
  obtain s where s: "s \<in> set (jd_slots db)" "sl_scope s = jb_scope j" "sl_lease s = jb_lease j"
    "find (\<lambda>s. sl_scope s = jb_scope j) (jd_slots db) = Some s" "current_job db s = Some j"
    by (rule running_slot [OF ok assms(2,3)])
  have "\<not> claimable now (jb_scope j) x" if "x \<in> set (jd_slots db)" for x
  proof
    assume c: "claimable now (jb_scope j) x"
    then have "x = s" using unique_row [OF rows_okD(1) [OF ok] that s(1)] s(2) by (simp add: claimable_def)
    with c show False using s(3) assms(4,5) by (simp add: claimable_def lapsed_lease_def)
  qed
  then have "claim_slot st now token fresh (jb_scope j) meta db = (None, db)"
    by (auto simp: claim_slot_def find_None_iff split: option.splits dest: find_SomeD)
  moreover have "ensure_slot (jb_scope j) db = db"
    using s(1,2) by (auto simp: ensure_slot_def list_ex_iff)
  moreover have "load_current now (jb_scope j) True False db = (Some (j, events_of (jb_id j) db), db)"
    using s assms(3) by (simp add: load_current_def scope_job_def snapshot_of_def hidden_def TERMINAL_STATUSES_def)
  ultimately have "claim st now token fresh (jb_scope j) meta later db = (Attached (j, events_of (jb_id j) db), db)"
    by (simp add: claim_def attach_def)
  moreover have "k = j" if k: "k \<in> set (jd_jobs db)" "jb_status k = ''running''" "jb_scope k = jb_scope j" for k
  proof -
    obtain s' where "find (\<lambda>s. sl_scope s = jb_scope k) (jd_slots db) = Some s'" "current_job db s' = Some k"
      by (rule running_slot [OF ok k(1,2)])
    with k(3) s show ?thesis by simp
  qed
  ultimately show ?thesis by blast
qed

text \<open>Updates touch running rows only.\<close>

definition touched :: "jobs_db \<Rightarrow> jobs_db \<Rightarrow> bool" where
  "touched db db' \<longleftrightarrow> (\<exists>P f. jd_jobs db' = update_rows P f (jd_jobs db) \<and> (\<forall>k. jb_id (f k) = jb_id k) \<and>
     (\<forall>k. P k \<longrightarrow> jb_status k = ''running''))"

lemma touchedI:
  "jd_jobs db' = update_rows P f (jd_jobs db) \<Longrightarrow> (\<And>k. jb_id (f k) = jb_id k) \<Longrightarrow>
   (\<And>k. P k \<Longrightarrow> jb_status k = ''running'') \<Longrightarrow> touched db db'"
  unfolding touched_def by blast

lemma touched_refl [simp]: "jd_jobs db' = jd_jobs db \<Longrightarrow> touched db db'"
  by (rule touchedI [where P = "\<lambda>_. False" and f = id]) (simp_all add: update_rows_def)

lemma touched_transactions:
  "touched db (snd (interrupt_expired now sc err retention db))"
  "touched db (snd (heartbeat st now i t db))"
  "touched db (snd (finalize now i t status res err retention db))"
  "touched db (snd (request_cancel sc db))"
  "touched db (snd (append_events now i t evs limit meta inc db))"
  by (auto simp: interrupt_expired_def heartbeat_def finalize_def request_cancel_def append_events_def Let_def
      owned_row_def job_lapsed_def intro: touchedI split: option.splits)

lemma touched_keeps:
  assumes "touched db db'" "\<forall>k\<in>set (jd_jobs db). jb_id k = i \<longrightarrow> k = d" "jb_status d \<noteq> ''running''"
  shows "\<forall>k\<in>set (jd_jobs db'). jb_id k = i \<longrightarrow> k = d"
proof -
  from assms(1) obtain P f where f: "jd_jobs db' = update_rows P f (jd_jobs db)" "\<And>k. jb_id (f k) = jb_id k"
    "\<And>k. P k \<Longrightarrow> jb_status k = ''running''" unfolding touched_def by blast
  show ?thesis unfolding f(1) ball_update_rows using assms(2,3) f(2,3) by auto
qed

lemma outcome_kept:
  assumes step: "job_step {i} db db'"
    and ended: "\<forall>k\<in>set (jd_jobs db). jb_id k = i \<longrightarrow> k = d" and d: "jb_status d \<noteq> ''running''"
  shows "\<forall>k\<in>set (jd_jobs db'). jb_id k = i \<longrightarrow> k = d"
  using step
proof (cases rule: job_step.cases)
  case (claim t fresh st now sc meta)
  show ?thesis
  proof (cases "claim_slot st now t fresh sc meta db")
    case (Pair r db2)
    show ?thesis
    proof (cases r)
      case (Some j')
      with Pair have "claim_slot st now t fresh sc meta db = (Some j', db2)" by simp
      then show ?thesis
      proof (cases rule: claim_slot_cases)
        case (resumed s j)
        have j: "j \<in> set (jd_jobs db)" using resumed(4) by (auto simp: find_job_def dest: find_SomeD)
        with ended d resumed(5) have "jb_id j \<noteq> i" by auto
        with ended show ?thesis using claim(1) Pair resumed(6,7)
          by (auto simp: resume_job_def split: if_splits)
      next
        case (started s)
        with ended show ?thesis using claim(1,3) Pair by (auto simp: new_job_def)
      qed
    next
      case None
      with Pair have "db2 = db" by (intro claim_slot_None) simp
      with Pair ended claim(1) show ?thesis by simp
    qed
  qed
next
  case dismiss
  then show ?thesis using ended by (auto simp: dismiss_def drop_jobs_def split: option.splits)
next
  case cleanup
  then show ?thesis using ended by (auto simp: cleanup_def drop_jobs_def Let_def split: if_splits)
next
  case slot
  then show ?thesis using ended by (simp add: ensure_slot_def)
qed (rule touched_keeps [OF _ ended d], simp only: touched_transactions)+

text \<open>
  Lemma. An outcome is stored once and stays. After a successful finalize the row of the job, as long
  as it exists, is exactly the ended row with that status, result and error: no later append,
  heartbeat, second finalize, cancellation, expiry sweep or claim changes it.
\<close>
lemma outcome_is_final:
  assumes "reachable_jobs db" "finalize now i token status res err retention db = (Inr True, db1)"
    and "(job_step {i})\<^sup>*\<^sup>* db1 db2" "k \<in> set (jd_jobs db2)" "jb_id k = i"
  shows "jb_status k = status \<and> status \<in> set TERMINAL_STATUSES \<and>
    jb_result k = Option.bind res (\<lambda>r. bounded_json r MAX_RESULT_BYTES) \<and>
    jb_error k = (if take 1500 err = [] then None else Some (take 1500 err)) \<and>
    jb_token k = None \<and> jb_expires k = Some (now + max 0 retention)"
proof -
  have ok: "rows_ok db" using reachable_ok [OF assms(1)] by blast
  let ?fin = "end_job now status (Option.bind res (\<lambda>r. bounded_json r MAX_RESULT_BYTES))
      (if take 1500 err = [] then None else Some (take 1500 err)) retention"
  obtain s j where *: "status \<in> set TERMINAL_STATUSES" "s \<in> set (jd_slots db)" "sl_job s = Some i" "sl_token s = Some token"
    "j \<in> set (jd_jobs db)" "owned_row i token j"
    "db1 = db\<lparr>jd_slots := update_rows (\<lambda>s. sl_job s = Some i \<and> sl_token s = Some token) free_slot (jd_slots db),
      jd_jobs := update_rows (owned_row i token) ?fin (jd_jobs db)\<rparr>"
    by (rule finalize_True [OF assms(2)])
  have i: "jb_id j = i" using *(6) by (simp add: owned_row_def)
  have start: "\<forall>k\<in>set (jd_jobs db1). jb_id k = i \<longrightarrow> k = ?fin j"
    unfolding *(7) using *(6) i unique_row [OF rows_okD(2) [OF ok] _ *(5)]
    by (auto simp: ball_update_rows)
  have "\<forall>k\<in>set (jd_jobs db2). jb_id k = i \<longrightarrow> k = ?fin j"
    using assms(3)
  proof (induction rule: rtranclp_induct)
    case (step y z)
    show ?case
      by (rule outcome_kept [OF step(2,3)]) (simp add: terminal_not_running [OF *(1)])
  qed (rule start)
  with assms(4,5) have "k = ?fin j" by blast
  with *(1) show ?thesis by (simp add: end_job_def)
qed

text \<open>
  Lemma. Replay loses nothing it still has: what a subscriber reads after sequence number
  \<open>after\<close> are consecutive numbers, from the oldest kept event or the one it asked for, up to the limit, and
  without a limit up to the last number given out.
\<close>
lemma replay_is_gapless:
  assumes "reachable_jobs db" "j \<in> set (jd_jobs db)"
  shows "\<exists>oldest\<le>jb_next_seq j. \<forall>after limit.
    map ev_seq (events_after (jb_id j) after limit db) = take limit [max oldest (nat (after + 1))..<jb_next_seq j]"
proof -
  obtain a where a: "a \<le> jb_next_seq j" "job_seqs (jb_id j) (jd_events db) = [a..<jb_next_seq j]"
    using reachable_ok [OF assms(1)] assms(2) by (auto simp: log_ok_def gapless_def)
  have e: "events_of (jb_id j) db = filter (\<lambda>e. ev_job e = jb_id j) (jd_events db)"
    unfolding events_of_def by (rule sort_key_id_if_sorted) (use a in \<open>simp add: job_seqs_def\<close>)
  have "map ev_seq (events_after (jb_id j) after limit db) = take limit [max a (nat (after + 1))..<jb_next_seq j]"
    for after limit
  proof -
    have "map ev_seq (events_after (jb_id j) after limit db) =
        take limit (filter (\<lambda>q. after < int q) (job_seqs (jb_id j) (jd_events db)))"
      by (simp add: events_after_def e job_seqs_def filter_map o_def flip: take_map)
    also have "(\<lambda>q. after < int q) = (\<lambda>q. nat (after + 1) \<le> q)" by (intro ext) linarith
    finally show ?thesis by (simp add: a(2) filter_upt_ge)
  qed
  with a(1) show ?thesis by blast
qed

text \<open>The slot of a running job whose lease has lapsed is the one of its scope, and every search for it finds it.\<close>

lemma lapsed_slot:
  assumes "rows_ok db" "j \<in> set (jd_jobs db)" "job_lapsed now j"
  obtains s where "s \<in> set (jd_slots db)" "sl_scope s = jb_scope j" "sl_job s = Some (jb_id j)"
    "lapsed_lease now (sl_lease s)" "current_job db s = Some j"
    "\<forall>x. x \<in> set (jd_slots db) \<longrightarrow> sl_scope x = jb_scope j \<longrightarrow> x = s"
    "\<forall>P. P s \<longrightarrow> (\<forall>x. P x \<longrightarrow> sl_scope x = jb_scope j) \<longrightarrow> find P (jd_slots db) = Some s"
proof -
  have run: "jb_status j = ''running''" and lease: "lapsed_lease now (jb_lease j)"
    using assms(3) by (auto simp: job_lapsed_def)
  obtain s where s: "s \<in> set (jd_slots db)" "sl_scope s = jb_scope j" "sl_job s = Some (jb_id j)"
    "sl_lease s = jb_lease j" "current_job db s = Some j"
    by (rule running_slot [OF assms(1,2) run])
  have only: "x = s" if "x \<in> set (jd_slots db)" "sl_scope x = jb_scope j" for x
    using unique_row [OF rows_okD(1) [OF assms(1)] that(1) s(1)] that(2) s(2) by simp
  moreover have "find P (jd_slots db) = Some s" if "P s" "\<forall>x. P x \<longrightarrow> sl_scope x = jb_scope j" for P
  proof -
    have "find P (jd_slots db) \<noteq> None" using that(1) s(1) by (auto simp: find_None_iff)
    then obtain x where x: "find P (jd_slots db) = Some x" by blast
    from find_SomeD [OF x] that(2) only have "x = s" by blast
    with x show ?thesis by simp
  qed
  ultimately have "\<forall>x. x \<in> set (jd_slots db) \<longrightarrow> sl_scope x = jb_scope j \<longrightarrow> x = s"
    "\<forall>P. P s \<longrightarrow> (\<forall>x. P x \<longrightarrow> sl_scope x = jb_scope j) \<longrightarrow> find P (jd_slots db) = Some s"
    by blast+
  then show thesis by (rule that [OF s(1-3) _ s(5), unfolded s(4), OF lease])
qed

lemma lapsed_job_is_taken_over:
  assumes "rows_ok db" "j \<in> set (jd_jobs db)" "job_lapsed now j"
  shows "\<exists>j' db'. claim st now token fresh (jb_scope j) meta later db = (Acquired j' token, db') \<and>
    jb_id j' = jb_id j \<and> jb_attempt j' = jb_attempt j + 1 \<and> \<not> jb_cancel j' \<and>
    jb_next_seq j' = jb_next_seq j \<and> jd_events db' = jd_events db"
proof -
  obtain s where s: "s \<in> set (jd_slots db)" "sl_scope s = jb_scope j" "sl_job s = Some (jb_id j)"
    "lapsed_lease now (sl_lease s)"
    "\<forall>P. P s \<longrightarrow> (\<forall>x. P x \<longrightarrow> sl_scope x = jb_scope j) \<longrightarrow> find P (jd_slots db) = Some s"
    by (rule lapsed_slot [OF assms])
  have "find_job (jb_id j) db = Some j"
    using assms(2) by (simp add: find_job_def find_key [OF rows_okD(2) [OF assms(1)]])
  moreover have "find (claimable now (jb_scope j)) (jd_slots db) = Some s"
    using s(2,4,5) by (simp add: claimable_def)
  moreover have "ensure_slot (jb_scope j) db = db"
    using s(1,2) by (auto simp: ensure_slot_def list_ex_iff)
  moreover have "jb_status j = ''running''" using assms(3) by (simp add: job_lapsed_def)
  ultimately show ?thesis using s(3) by (simp add: claim_def claim_slot_def Let_def resume_job_def)
qed

text \<open>Interrupting it, on the rows.\<close>

lemma lapsed_job_is_interrupted:
  assumes "rows_ok db" "j \<in> set (jd_jobs db)" "job_lapsed now j"
  shows "interrupt_expired now (jb_scope j) INTERRUPTED_ERROR DEFAULT_RETENTION db =
    (True, db\<lparr>jd_jobs := update_rows (\<lambda>k. jb_id k = jb_id j \<and> job_lapsed now k)
        (\<lambda>k. end_job now ''error'' (jb_result k) (Some (take 1500 INTERRUPTED_ERROR)) DEFAULT_RETENTION k) (jd_jobs db),
      jd_slots := update_rows (\<lambda>s. sl_scope s = jb_scope j) free_slot (jd_slots db)\<rparr>)"
proof -
  obtain s where s: "s \<in> set (jd_slots db)" "sl_scope s = jb_scope j" "sl_job s = Some (jb_id j)"
    "lapsed_lease now (sl_lease s)" "current_job db s = Some j"
    "\<forall>x. x \<in> set (jd_slots db) \<longrightarrow> sl_scope x = jb_scope j \<longrightarrow> x = s"
    "\<forall>P. P s \<longrightarrow> (\<forall>x. P x \<longrightarrow> sl_scope x = jb_scope j) \<longrightarrow> find P (jd_slots db) = Some s"
    by (rule lapsed_slot [OF assms])
  let ?rel = "\<lambda>s. sl_job s = Some (jb_id j) \<and> lapsed_lease now (sl_lease s)"
  have rel: "?rel x \<longleftrightarrow> sl_scope x = jb_scope j" if "x \<in> set (jd_slots db)" for x
    using same_job_same_scope [OF assms(1) that s(1) _ s(3)] s(2,3,4,6) that by metis
  have upd: "update_rows ?rel free_slot (jd_slots db) = update_rows (\<lambda>s. sl_scope s = jb_scope j) free_slot (jd_slots db)"
    unfolding update_rows_def by (rule map_cong [OF refl]) (simp only: rel)
  have "rowcount (\<lambda>k. jb_id k = jb_id j \<and> job_lapsed now k) (jd_jobs db) = 1"
    using rowcount_unique [OF rows_okD(2) [OF assms(1)], of "jb_id j" "job_lapsed now"] assms(2,3) by auto
  moreover have "rowcount ?rel (jd_slots db) = 1"
  proof -
    have "rowcount ?rel (jd_slots db) = rowcount (\<lambda>x. sl_scope x = jb_scope j \<and> True) (jd_slots db)"
      unfolding rowcount_def by (intro arg_cong [where f = length] filter_cong refl) (simp only: rel simp_thms)
    then show ?thesis using rowcount_unique [OF rows_okD(1) [OF assms(1)], of "jb_scope j" "\<lambda>_. True"] s(1,2) by auto
  qed
  moreover have "find (\<lambda>s. sl_scope s = jb_scope j \<and> lapsed_lease now (sl_lease s)) (jd_slots db) = Some s"
    using s(2,4,7) by simp
  ultimately show ?thesis
    using s(3) upd by (simp add: interrupt_expired_def Let_def INTERRUPTED_ERROR_def)
qed

text \<open>
  C9. Work of a dead replica does not hang. When the lease of a running job has lapsed, the next
  claim of its scope takes the same job over with one more attempt, its event numbering and its
  events; and a reader that reconciles instead of claiming ends the job with the interruption error, frees
  the scope and is shown the ended job.
\<close>
theorem lapsed_job_is_resolved:
  assumes "reachable_jobs db" "j \<in> set (jd_jobs db)" "job_lapsed now j"
  shows "(\<exists>j' db'. claim st now token fresh (jb_scope j) meta later db = (Acquired j' token, db') \<and>
      jb_id j' = jb_id j \<and> jb_attempt j' = jb_attempt j + 1 \<and> \<not> jb_cancel j' \<and>
      jb_next_seq j' = jb_next_seq j \<and> jd_events db' = jd_events db) \<and>
    (\<exists>k db'. load_current now (jb_scope j) True True db = (Some (k, events_of (jb_id j) db), db') \<and>
      jb_id k = jb_id j \<and> jb_status k = ''error'' \<and> jb_error k = Some INTERRUPTED_ERROR \<and>
      (\<forall>s\<in>set (jd_slots db'). sl_scope s = jb_scope j \<longrightarrow> sl_lease s = None))"
proof -
  have ok: "rows_ok db" using reachable_ok [OF assms(1)] by blast
  note lapsed = ok assms(2,3)
  obtain s where s: "s \<in> set (jd_slots db)" "sl_scope s = jb_scope j" "sl_job s = Some (jb_id j)" "current_job db s = Some j"
    "\<forall>P. P s \<longrightarrow> (\<forall>x. P x \<longrightarrow> sl_scope x = jb_scope j) \<longrightarrow> find P (jd_slots db) = Some s"
    by (rule lapsed_slot [OF lapsed])
  let ?fin = "\<lambda>k. end_job now ''error'' (jb_result k) (Some (take 1500 INTERRUPTED_ERROR)) DEFAULT_RETENTION k"
  let ?db' = "db\<lparr>jd_jobs := update_rows (\<lambda>k. jb_id k = jb_id j \<and> job_lapsed now k) ?fin (jd_jobs db),
      jd_slots := update_rows (\<lambda>s. sl_scope s = jb_scope j) free_slot (jd_slots db)\<rparr>"
  have slot: "find (\<lambda>x. sl_scope x = jb_scope j) (jd_slots db) = Some s" using s(2,5) by simp
  then have "find (\<lambda>x. sl_scope x = jb_scope j) (jd_slots ?db') = Some (free_slot s)"
    using s(2) by (simp add: find_update_rows)
  moreover have "find_job (jb_id j) ?db' = Some (?fin j)"
    using assms(2,3) find_key [OF rows_okD(2) [OF ok], of "jb_id j" j] by (simp add: find_job_def find_update_rows)
  ultimately have "scope_job (jb_scope j) ?db' = Some (?fin j)"
    using s(3) by (simp add: scope_job_def current_job_def)
  moreover have "\<not> hidden now (?fin j)"
    by (simp add: hidden_def end_job_def lapsed_lease_def DEFAULT_RETENTION_def)
  moreover have "snapshot_of now True (scope_job (jb_scope j) db) db = Some (j, events_of (jb_id j) db)"
    using slot s(4) assms(3) by (simp add: scope_job_def snapshot_of_def hidden_def TERMINAL_STATUSES_def job_lapsed_def)
  ultimately have loaded: "load_current now (jb_scope j) True True db = (Some (?fin j, events_of (jb_id j) db), ?db')"
    using lapsed_job_is_interrupted [OF lapsed] assms(3) by (simp add: load_current_def snapshot_of_def events_of_def)
  have "\<forall>x\<in>set (jd_slots ?db'). sl_scope x = jb_scope j \<longrightarrow> sl_lease x = None"
    by (simp add: ball_update_rows)
  moreover have "take 1500 INTERRUPTED_ERROR = INTERRUPTED_ERROR" by (simp add: INTERRUPTED_ERROR_def)
  then have "jb_id (?fin j) = jb_id j" "jb_status (?fin j) = ''error''" "jb_error (?fin j) = Some INTERRUPTED_ERROR"
    by (simp_all add: end_job_def)
  ultimately have "\<exists>k db'. load_current now (jb_scope j) True True db = (Some (k, events_of (jb_id j) db), db') \<and>
      jb_id k = jb_id j \<and> jb_status k = ''error'' \<and> jb_error k = Some INTERRUPTED_ERROR \<and>
      (\<forall>s\<in>set (jd_slots db'). sl_scope s = jb_scope j \<longrightarrow> sl_lease s = None)"
    using loaded by (intro exI conjI)
  with lapsed_job_is_taken_over [OF lapsed] show ?thesis by (rule conjI)
qed

text \<open>
  Lemma. A runner whose database is unreachable stops in time: while the lease monitor is still
  watching, every failed poll ended before the lease confirmed last - at the start or by the latest
  successful renewal - had run out.
\<close>
lemma monitor_stops_with_lease:
  assumes "monitor_lease poll lease start ticks = None" "ticks = before @ t # after" "tk_answer t = None"
  shows "\<exists>confirmed. tk_after t < confirmed + lease \<and>
    (confirmed = start \<or> (\<exists>u\<in>set before. tk_answer u = Some (True, False) \<and> confirmed = tk_after u))"
proof -
  have "\<exists>c. tk_after t < c \<and> (c = lim \<or> (\<exists>u\<in>set before. tk_answer u = Some (True, False) \<and> c = tk_after u + lease))"
    if "monitor_loop poll lease nx lim (before @ t # after) = None" for nx lim
    using that
  proof (induction before arbitrary: nx lim)
    case Nil
    then show ?case using assms(3) by (auto simp: Let_def split: if_splits)
  next
    case (Cons u us)
    show ?case
    proof (cases "tk_answer u")
      case None
      with Cons show ?thesis by (fastforce simp: Let_def split: if_splits)
    next
      case (Some a)
      obtain owned cancel where a: "a = (owned, cancel)" by (cases a)
      with Some Cons.prems have oc: "owned" "\<not> cancel" by (auto simp: Let_def split: if_splits)
      show ?thesis
      proof (cases "nx \<le> tk_before u")
        case True
        with Some a oc Cons.prems have "monitor_loop poll lease (tk_after u + renewal_interval poll lease)
            (tk_after u + lease) (us @ t # after) = None" by (auto simp: Let_def split: if_splits)
        from Cons.IH [OF this] show ?thesis using Some a oc by auto
      next
        case False
        with Some a oc Cons.prems have "monitor_loop poll lease nx lim (us @ t # after) = None"
          by (auto simp: Let_def split: if_splits)
        from Cons.IH [OF this] show ?thesis by auto
      qed
    qed
  qed
  from this [of "start + renewal_interval poll lease" "start + lease"] assms(1,2) show ?thesis
    unfolding monitor_lease_def by force
qed

section \<open>Examples\<close>

definition example_store :: store where
  "example_store = \<lparr>st_owner = ''replica-1'', st_lease = 60\<rparr>"

definition example_scope :: scope where
  "example_scope = (''default'', ''chat'', ''k'')"

definition example_job :: job where
  "example_job = new_job example_store 0 ''t1'' ''j1'' example_scope ''{}''"

definition example_jobs :: jobs_db where
  "example_jobs = \<lparr>jd_slots = [taken example_store 0 ''t1''
       \<lparr>sl_scope = example_scope, sl_job = Some ''j1'', sl_owner = None, sl_token = None, sl_lease = None\<rparr>],
     jd_jobs = [example_job], jd_events = []\<rparr>"

lemmas example_job_defs = example_jobs_def example_job_def example_scope_def example_store_def new_job_def taken_def

lemma example_claimed:
  "claim_slot example_store 0 ''t1'' ''j1'' example_scope (Json ''{}'') (ensure_slot example_scope empty_jobs) =
     (Some example_job, example_jobs)"
  by (simp add: claim_slot_def ensure_slot_def empty_jobs_def claimable_def Let_def update_rows_def clean_metadata_def
      bounded_json_def MAX_METADATA_BYTES_def is_dict_def starts_with_def example_job_defs)

lemma example_jobs_reachable: "reachable_jobs example_jobs"
proof -
  have "reachable_jobs (ensure_slot example_scope empty_jobs)"
    by (rule reachable_jobs.step [OF reachable_jobs.start job_step.slot])
  moreover have "''j1'' \<notin> jb_id ` set (jd_jobs (ensure_slot example_scope empty_jobs))"
    by (simp add: ensure_slot_def empty_jobs_def)
  ultimately have "reachable_jobs (snd (claim_slot example_store 0 ''t1'' ''j1'' example_scope (Json ''{}'')
      (ensure_slot example_scope empty_jobs)))"
    by (intro reachable_jobs.step [OF _ job_step.claim]) simp_all
  then show ?thesis by (simp add: example_claimed)
qed

theorem superseded_owner_is_fenced_witness:
  "\<exists>j db1. claim_slot example_store 60 ''t2'' ''j2'' example_scope Not_Serializable example_jobs = (Some j, db1) \<and>
     append_events 61 (jb_id j) ''t1'' [(''delta'', Json ''{}'')] 10 None False db1 = ([], db1)"
proof -
  obtain j db1 where c: "claim_slot example_store 60 ''t2'' ''j2'' example_scope Not_Serializable example_jobs = (Some j, db1)"
    by (simp add: claim_slot_def Let_def claimable_def lapsed_lease_def find_job_def example_job_defs)
  have "append_events 61 (jb_id j) ''t1'' [(''delta'', Json ''{}'')] 10 None False db1 = ([], db1) \<and>
      heartbeat example_store 61 (jb_id j) ''t1'' db1 = ((False, False), db1) \<and>
      snd (finalize 61 (jb_id j) ''t1'' ''done'' None [] 0 db1) = db1 \<and> run_end 61 j ''t1'' 0 Was_Cancelled db1 = db1"
    by (rule superseded_owner_is_fenced [OF example_jobs_reachable c]) (simp_all add: example_job_defs)
  with c show ?thesis by blast
qed

lemma live_job_excludes_others_witness:
  "claim example_store 10 ''t2'' ''j2'' example_scope (Json ''{}'') [] example_jobs =
     (Attached (example_job, []), example_jobs)"
  using live_job_excludes_others [OF example_jobs_reachable, of example_job 60 10 example_store "''t2''" "''j2''" "Json ''{}''" "[]"]
  by (simp add: example_job_defs events_of_def)

lemma outcome_is_final_witness:
  "\<exists>db1. finalize 5 ''j1'' ''t1'' ''done'' (Some (Json ''{}'')) [] 10 example_jobs = (Inr True, db1) \<and>
     (\<forall>k\<in>set (jd_jobs (snd (claim_slot example_store 60 ''t2'' ''j2'' example_scope Not_Serializable db1))).
        jb_id k = ''j1'' \<longrightarrow> jb_status k = ''done'')"
proof -
  obtain db1 where f: "finalize 5 ''j1'' ''t1'' ''done'' (Some (Json ''{}'')) [] 10 example_jobs = (Inr True, db1)"
    by (simp add: finalize_def Let_def rowcount_def owned_row_def TERMINAL_STATUSES_def example_job_defs)
  have "jd_jobs db1 = [end_job 5 ''done'' (Some ''{}'') None 10 example_job]"
    using f by (auto simp: finalize_def Let_def rowcount_def owned_row_def TERMINAL_STATUSES_def update_rows_def
        bounded_json_def MAX_RESULT_BYTES_def example_job_defs)
  then have "''j2'' \<notin> jb_id ` set (jd_jobs db1)" by (simp add: example_job_defs)
  then have "(job_step {''j1''})\<^sup>*\<^sup>* db1 (snd (claim_slot example_store 60 ''t2'' ''j2'' example_scope Not_Serializable db1))"
    by (intro r_into_rtranclp job_step.claim) simp_all
  from outcome_is_final [OF example_jobs_reachable f this] f show ?thesis by blast
qed

lemma replay_is_gapless_witness:
  "\<exists>oldest\<le>jb_next_seq example_job. \<forall>after limit.
     map ev_seq (events_after (jb_id example_job) after limit example_jobs) =
       take limit [max oldest (nat (after + 1))..<jb_next_seq example_job]"
  by (rule replay_is_gapless [OF example_jobs_reachable]) (simp add: example_jobs_def)

theorem lapsed_job_is_resolved_witness:
  "\<exists>j' db'. claim example_store 60 ''t2'' ''j2'' example_scope (Json ''{}'') [] example_jobs = (Acquired j' ''t2'', db') \<and>
     jb_id j' = ''j1'' \<and> jb_attempt j' = 2"
proof -
  have "example_job \<in> set (jd_jobs example_jobs)" "job_lapsed 60 example_job"
    by (simp_all add: example_job_defs job_lapsed_def lapsed_lease_def)
  from lapsed_job_is_resolved [OF example_jobs_reachable this, of example_store "''t2''" "''j2''" "Json ''{}''" "[]"]
  obtain j' db' where *: "claim example_store 60 ''t2'' ''j2'' (jb_scope example_job) (Json ''{}'') [] example_jobs =
      (Acquired j' ''t2'', db')" "jb_id j' = jb_id example_job" "jb_attempt j' = jb_attempt example_job + 1"
    by blast
  have "jb_scope example_job = example_scope" "jb_id example_job = ''j1''" "jb_attempt example_job = 1"
    by (simp_all add: example_job_def new_job_def)
  with * show ?thesis by auto
qed

definition example_tick :: tick where
  "example_tick = \<lparr>tk_stop = False, tk_before = 30, tk_answer = None, tk_after = 35\<rparr>"

lemma monitor_stops_with_lease_witness:
  "monitor_lease 1 60 0 [example_tick] = None \<and> tk_after example_tick < 60"
proof -
  have m: "monitor_lease 1 60 0 [example_tick] = None"
    by (simp add: monitor_lease_def example_tick_def)
  from monitor_stops_with_lease [OF m, of "[]" example_tick "[]"] m show ?thesis
    by (simp add: example_tick_def)
qed

end
