(* ===== verification/Work_Batches.thy ===== *)
theory Work_Batches
  imports Leases "HOL-Library.List_Lexorder" "HOL-Library.Product_Lexorder" "HOL-Library.Char_ord"
begin

text \<open>
  The durable control plane of fleet operations, \<^verbatim>\<open>app/core/work_batches.py\<close>: batches of
  items that workers of all replicas claim under leases. The two tables are lists of rows and a
  transaction is one function (claims are serialised by a database-wide lock, the others by row
  locks and conditional updates). Instants and durations are microseconds; JSON values are their
  compact text. What an item's executor computes is an argument. Text columns are ordered by code point.
\<close>

section \<open>Tables\<close>

record item =
  it_id :: string
  it_batch :: string
  it_tenant :: string
  it_key :: string
  it_workload :: "string option"
  it_name :: string
  it_conn :: "string option"
  it_status :: string
  it_attempt :: int
  it_max :: int
  it_current :: int
  it_total :: int
  it_message :: string
  it_ref :: "string option"
  it_result :: string
  it_error :: "string option"
  it_retryable :: bool
  it_available :: "int option"
  it_owner :: "string option"
  it_token :: "string option"
  it_lease :: "int option"
  it_started :: "int option"
  it_ended :: "int option"
  it_duration :: "int option"

record batch =
  ba_id :: string
  ba_tenant :: string
  ba_feature :: string
  ba_key :: string
  ba_status :: string
  ba_config :: string
  ba_total :: nat
  ba_completed :: nat
  ba_succeeded :: nat
  ba_partial :: nat
  ba_failed :: nat
  ba_cancelled :: nat
  ba_cancel_requested :: bool
  ba_error :: "string option"
  ba_by :: string
  ba_trigger :: string
  ba_created :: int
  ba_started :: "int option"
  ba_ended :: "int option"

record work_db =
  wd_batches :: "batch list"
  wd_items :: "item list"

definition TERMINAL :: "string list" where
  "TERMINAL = [''succeeded'', ''partial'', ''failed'', ''cancelled'']"

definition ACTIVE :: "string list" where
  "ACTIVE = [''queued'', ''running'']"

definition FEATURE_LIMITS :: "(string \<times> nat) list" where
  "FEATURE_LIMITS = [(''assessment'', 2), (''changeexplorer'', 2), (''coverage_amba'', 3), (''coverage_telemetry'', 3),
     (''coverage_backupdr'', 3), (''backup_manager'', 2), (''architecture'', 2), (''mission'', 2),
     (''inventory_cost'', 1), (''deep_review'', 2), (''nightly'', 1)]"

definition FEATURES :: "string list" where
  "FEATURES = map fst FEATURE_LIMITS"

definition TRANSIENT_MARKERS :: "string list" where
  "TRANSIENT_MARKERS = [''429'', ''rate limit'', ''too many requests'', ''throttl'', ''timeout'', ''timed out'',
     ''temporarily unavailable'', ''connection reset'', ''server busy'', ''502'', ''503'', ''504'']"

definition transient :: "string \<Rightarrow> bool" where
  "transient message = list_ex (\<lambda>m. contains (py_lower message) m) TRANSIENT_MARKERS"

definition LEASE :: int where
  "LEASE = 60 * 1000000"

section \<open>Batch aggregation\<close>

definition items_of :: "string \<Rightarrow> item list \<Rightarrow> item list" where
  "items_of bid its = filter (\<lambda>i. it_batch i = bid) its"

definition count_status :: "string \<Rightarrow> item list \<Rightarrow> nat" where
  "count_status st its = length (filter (\<lambda>i. it_status i = st) its)"

definition or_now :: "int option \<Rightarrow> int \<Rightarrow> int option" where
  "or_now t now = (case t of None \<Rightarrow> Some now | Some x \<Rightarrow> Some x)"

text \<open>\<open>refresh_batch\<close> on the batch row, given the rows of its items.\<close>

definition refreshed :: "int \<Rightarrow> item list \<Rightarrow> batch \<Rightarrow> batch" where
  "refreshed now its b =
     (let su = count_status ''succeeded'' its; pa = count_status ''partial'' its;
          fa = count_status ''failed'' its; ca = count_status ''cancelled'' its;
          total = length its; completed = su + pa + fa + ca;
          b1 = b\<lparr>ba_total := total, ba_completed := completed, ba_succeeded := su, ba_partial := pa,
                ba_failed := fa, ba_cancelled := ca\<rparr>
      in if total \<noteq> 0 \<and> completed = total
         then b1\<lparr>ba_status := (if ca = total then ''cancelled'' else if fa = total then ''failed''
                    else if fa \<noteq> 0 \<or> pa \<noteq> 0 \<or> ca \<noteq> 0 then ''partial'' else ''succeeded''),
                ba_ended := or_now (ba_ended b) now,
                ba_error := Option.bind (find (\<lambda>i. str_or (it_error i) [] \<noteq> []) its) it_error\<rparr>
         else if count_status ''running'' its \<noteq> 0
         then b1\<lparr>ba_status := ''running'', ba_started := or_now (ba_started b) now\<rparr>
         else b1\<lparr>ba_status := ''queued''\<rparr>)"

definition refresh_batch :: "int \<Rightarrow> string \<Rightarrow> work_db \<Rightarrow> work_db" where
  "refresh_batch now bid db =
     db\<lparr>wd_batches := update_rows (\<lambda>b. ba_id b = bid) (refreshed now (items_of bid (wd_items db))) (wd_batches db)\<rparr>"

definition get_batch_row :: "string \<Rightarrow> work_db \<Rightarrow> batch option" where
  "get_batch_row bid db = find (\<lambda>b. ba_id b = bid) (wd_batches db)"

section \<open>Submitting\<close>

record descriptor =
  de_key :: "string option"
  de_workload :: "string option"
  de_workload_name :: "string option"
  de_name :: "string option"
  de_conn :: "string option"
  de_max :: "int option"
  de_result :: "string option"

datatype submit_error = UnsupportedFeature | NoItems | BadKey | NoUniqueItem

type_synonym batch_view = "batch \<times> item list"

definition or_none :: "string \<Rightarrow> string option" where
  "or_none s = (if s = [] then None else Some s)"

definition item_key_of :: "descriptor \<Rightarrow> string" where
  "item_key_of d = take 256 (py_strip (str_or (de_key d) (str_or (de_workload d) [])))"

definition new_item :: "(string \<Rightarrow> string) \<Rightarrow> string \<Rightarrow> string \<Rightarrow> descriptor \<Rightarrow> item" where
  "new_item fresh bid tenant d =
     (let key = item_key_of d in
      \<lparr>it_id = fresh key, it_batch = bid, it_tenant = tenant, it_key = key,
       it_workload = or_none (take 128 (str_or (de_workload d) [])),
       it_name = take 256 (str_or (de_workload_name d) (str_or (de_name d) key)),
       it_conn = or_none (take 128 (str_or (de_conn d) [])), it_status = ''queued'', it_attempt = 0,
       it_max = max 1 (min (case de_max d of None \<Rightarrow> 3 | Some n \<Rightarrow> if n = 0 then 3 else n) 5),
       it_current = 0, it_total = 0, it_message = [], it_ref = None,
       it_result = (case de_result d of None \<Rightarrow> ''{}'' | Some r \<Rightarrow> r), it_error = None, it_retryable = False,
       it_available = None, it_owner = None, it_token = None, it_lease = None,
       it_started = None, it_ended = None, it_duration = None\<rparr>)"

text \<open>One item per distinct non-empty key, the first descriptor wins.\<close>

fun new_items :: "(string \<Rightarrow> string) \<Rightarrow> string \<Rightarrow> string \<Rightarrow> string list \<Rightarrow> descriptor list \<Rightarrow> item list" where
  "new_items fresh bid tenant seen [] = []"
| "new_items fresh bid tenant seen (d # ds) =
     (let key = item_key_of d in
      if key = [] \<or> key \<in> set seen then new_items fresh bid tenant seen ds
      else new_item fresh bid tenant d # new_items fresh bid tenant (key # seen) ds)"

definition view :: "batch \<Rightarrow> work_db \<Rightarrow> batch_view" where
  "view b db = (b, sort_key (\<lambda>i. (it_name i, it_key i)) (items_of (ba_id b) (wd_items db)))"

definition create_batch ::
  "int \<Rightarrow> string \<Rightarrow> (string \<Rightarrow> string) \<Rightarrow> string \<Rightarrow> string \<Rightarrow> string \<Rightarrow> string \<Rightarrow> descriptor list \<Rightarrow> string \<Rightarrow> string
   \<Rightarrow> work_db \<Rightarrow> (submit_error, batch_view \<times> bool) result \<times> work_db" where
  "create_batch now bid fresh tenant feature actor key ds config trigger db =
     (let clean = py_strip key; tenant' = (if tenant = [] then ''default'' else tenant) in
      if feature \<notin> set FEATURES then (Inl UnsupportedFeature, db)
      else if ds = [] then (Inl NoItems, db)
      else if clean = [] \<or> 128 < length clean then (Inl BadKey, db)
      else case find (\<lambda>b. ba_tenant b = tenant' \<and> ba_feature b = feature \<and> ba_key b = clean) (wd_batches db) of
        Some b \<Rightarrow> (Inr (view b db, False), db)
      | None \<Rightarrow>
          let its = new_items fresh bid tenant' [] ds;
              b = \<lparr>ba_id = bid, ba_tenant = tenant', ba_feature = feature, ba_key = clean, ba_status = ''queued'',
                ba_config = config, ba_total = length its, ba_completed = 0, ba_succeeded = 0, ba_partial = 0,
                ba_failed = 0, ba_cancelled = 0, ba_cancel_requested = False, ba_error = None,
                ba_by = actor, ba_trigger = trigger, ba_created = now, ba_started = None, ba_ended = None\<rparr>;
              db' = db\<lparr>wd_batches := wd_batches db @ [b], wd_items := wd_items db @ its\<rparr>
          in if its = [] then (Inl NoUniqueItem, db) else (Inr (view b db', True), db'))"

definition cancel_batch :: "int \<Rightarrow> string \<Rightarrow> string \<Rightarrow> work_db \<Rightarrow> bool \<times> work_db" where
  "cancel_batch now bid tenant db =
     (case get_batch_row bid db of
        None \<Rightarrow> (False, db)
      | Some b \<Rightarrow>
          (if ba_tenant b \<noteq> tenant \<or> ba_status b \<in> set TERMINAL then (False, db)
           else (True, refresh_batch now bid
             (db\<lparr>wd_batches := update_rows (\<lambda>b. ba_id b = bid) (\<lambda>b. b\<lparr>ba_cancel_requested := True\<rparr>) (wd_batches db),
                 wd_items := update_rows (\<lambda>i. it_batch i = bid \<and> it_status i = ''queued'')
                   (\<lambda>i. i\<lparr>it_status := ''cancelled'', it_ended := Some now, it_message := ''Cancelled before start.'',
                      it_error := Some ''Cancelled before start.''\<rparr>) (wd_items db)\<rparr>))))"

definition delete_batch :: "string \<Rightarrow> string \<Rightarrow> work_db \<Rightarrow> bool \<times> work_db" where
  "delete_batch bid tenant db =
     (case get_batch_row bid db of
        None \<Rightarrow> (False, db)
      | Some b \<Rightarrow>
          (if ba_tenant b \<noteq> tenant \<or> ba_status b \<notin> set TERMINAL then (False, db)
           else (True, db\<lparr>wd_items := filter (\<lambda>i. it_batch i \<noteq> bid) (wd_items db),
                         wd_batches := filter (\<lambda>b. ba_id b \<noteq> bid) (wd_batches db)\<rparr>)))"

definition retry_descriptor :: "item \<Rightarrow> descriptor" where
  "retry_descriptor i = \<lparr>de_key = Some (it_key i), de_workload = Some (str_or (it_workload i) []),
     de_workload_name = Some (it_name i), de_name = None, de_conn = Some (str_or (it_conn i) []),
     de_max = Some (it_max i), de_result = Some (it_result i)\<rparr>"

text \<open>
  \<open>retry_batch\<close>: the outer option is the missing original. The keys of a batch are distinct, so the
  order in which its unfinished items are copied has no effect but the row order.
\<close>

definition retry_batch ::
  "int \<Rightarrow> string \<Rightarrow> (string \<Rightarrow> string) \<Rightarrow> string \<Rightarrow> string \<Rightarrow> string \<Rightarrow> string \<Rightarrow> work_db
   \<Rightarrow> (submit_error, batch_view) result option \<times> work_db" where
  "retry_batch now new_id fresh bid tenant actor key db =
     (case get_batch_row bid db of
        None \<Rightarrow> (None, db)
      | Some b \<Rightarrow>
          (if ba_tenant b \<noteq> tenant then (None, db)
           else let its = sort_key (\<lambda>i. (it_name i, it_key i)) (items_of bid (wd_items db));
                    todo = filter (\<lambda>i. it_status i \<in> {''failed'', ''partial'', ''cancelled''}) its
             in if todo = [] then (Some (Inr (view b db)), db)
                else case create_batch now new_id fresh tenant (ba_feature b) actor key (map retry_descriptor todo)
                       (ba_config b) ''retry'' db of
                  (Inl e, db') \<Rightarrow> (Some (Inl e), db')
                | (Inr (v, _), db') \<Rightarrow> (Some (Inr v), db')))"

section \<open>Leases\<close>

definition release :: "item \<Rightarrow> item" where
  "release i = i\<lparr>it_owner := None, it_token := None, it_lease := None\<rparr>"

definition item_expired :: "int \<Rightarrow> item \<Rightarrow> bool" where
  "item_expired now i \<longleftrightarrow> it_owner i = None \<or> (case it_lease i of None \<Rightarrow> True | Some t \<Rightarrow> t \<le> now)"

definition item_claimable :: "int \<Rightarrow> item \<Rightarrow> bool" where
  "item_claimable now i \<longleftrightarrow>
     (it_status i = ''queued'' \<and> (case it_available i of None \<Rightarrow> True | Some t \<Rightarrow> t \<le> now) \<and> item_expired now i) \<or>
     (it_status i = ''running'' \<and> item_expired now i)"

definition leased :: "string \<times> string \<Rightarrow> item \<Rightarrow> bool" where
  "leased wt i \<longleftrightarrow> it_status i = ''running'' \<and> it_owner i = Some (fst wt) \<and> it_token i = Some (snd wt)"

definition live :: "int \<Rightarrow> item \<Rightarrow> bool" where
  "live now i \<longleftrightarrow> it_status i = ''running'' \<and> (case it_lease i of None \<Rightarrow> False | Some t \<Rightarrow> now < t)"

definition lane :: "item \<Rightarrow> string \<times> string" where
  "lane i = (it_tenant i, str_or (it_conn i) ''no-connection'')"

definition feature_of :: "work_db \<Rightarrow> item \<Rightarrow> string option" where
  "feature_of db i = map_option ba_feature (get_batch_row (it_batch i) db)"

text \<open>Items in flight, as the claiming transaction counts them: running under a live lease.\<close>

definition lane_count :: "int \<Rightarrow> string \<times> string \<Rightarrow> work_db \<Rightarrow> nat" where
  "lane_count now l db = length (filter (\<lambda>i. live now i \<and> feature_of db i \<noteq> None \<and> lane i = l) (wd_items db))"

definition feature_count :: "int \<Rightarrow> string \<Rightarrow> work_db \<Rightarrow> nat" where
  "feature_count now f db = length (filter (\<lambda>i. live now i \<and> feature_of db i = Some f) (wd_items db))"

definition feature_limit :: "string \<Rightarrow> nat" where
  "feature_limit f = (case map_of FEATURE_LIMITS f of None \<Rightarrow> 1 | Some n \<Rightarrow> n)"

definition candidates :: "int \<Rightarrow> work_db \<Rightarrow> (item \<times> batch) list" where
  "candidates now db = take 100 (sort_key (\<lambda>(i, b). (ba_created b, it_name i, it_key i))
     (List.map_filter (\<lambda>i. case get_batch_row (it_batch i) db of
          None \<Rightarrow> None
        | Some b \<Rightarrow> if item_claimable now i \<and> ba_status b \<in> set ACTIVE \<and> \<not> ba_cancel_requested b
            then Some (i, b) else None) (wd_items db)))"

definition starting_message :: "string \<Rightarrow> string" where
  "starting_message f = ''Starting '' @ map (\<lambda>c. if c = CHR ''_'' then CHR '' '' else c) f @ ''.''"

definition claimed_item :: "int \<Rightarrow> string \<times> string \<Rightarrow> string \<Rightarrow> item \<Rightarrow> item" where
  "claimed_item now wt feature i = i\<lparr>it_status := ''running'', it_attempt := it_attempt i + 1, it_started := Some now,
     it_ended := None, it_available := None, it_error := None, it_retryable := False,
     it_message := starting_message feature, it_owner := Some (fst wt), it_token := Some (snd wt),
     it_lease := Some (now + LEASE)\<rparr>"

definition claim_next :: "int \<Rightarrow> string \<times> string \<Rightarrow> work_db \<Rightarrow> string option \<times> work_db" where
  "claim_next now wt db =
     (case find (\<lambda>(i, b). lane_count now (lane i) db = 0 \<and> feature_count now (ba_feature b) db < feature_limit (ba_feature b))
            (candidates now db) of
        None \<Rightarrow> (None, db)
      | Some (i, b) \<Rightarrow>
          (let hit = (\<lambda>x. it_id x = it_id i \<and> item_claimable now x) in
           if rowcount hit (wd_items db) \<noteq> 1 then (None, db)
           else (Some (it_id i),
             db\<lparr>wd_items := update_rows hit (claimed_item now wt (ba_feature b)) (wd_items db),
                wd_batches := update_rows (\<lambda>x. ba_id x = ba_id b)
                  (\<lambda>x. x\<lparr>ba_status := ''running'', ba_started := or_now (ba_started x) now\<rparr>) (wd_batches db)\<rparr>)))"

text \<open>\<open>_heartbeat\<close>, one beat.\<close>

definition beat_item :: "int \<Rightarrow> string \<times> string \<Rightarrow> string \<Rightarrow> work_db \<Rightarrow> bool \<times> work_db" where
  "beat_item now wt iid db =
     (let hit = (\<lambda>i. it_id i = iid \<and> leased wt i)
      in (rowcount hit (wd_items db) = 1,
          db\<lparr>wd_items := update_rows hit (\<lambda>i. i\<lparr>it_lease := Some (now + LEASE)\<rparr>) (wd_items db)\<rparr>))"

section \<open>Results\<close>

record item_result =
  ir_status :: string
  ir_message :: string
  ir_ref :: "string option"
  ir_result :: string
  ir_error :: string
  ir_retryable :: bool

definition json_or :: "string \<Rightarrow> string \<Rightarrow> string" where
  "json_or v d = (if v = ''{}'' then d else v)"

definition apply_result :: "int \<Rightarrow> item_result \<Rightarrow> item \<Rightarrow> item" where
  "apply_result now r i = release (i\<lparr>it_status := (if ir_status r \<in> set TERMINAL then ir_status r else ''failed''),
     it_message := take 2000 (ir_message r),
     it_ref := (case ir_ref r of None \<Rightarrow> it_ref i | Some x \<Rightarrow> if x = ''{}'' then it_ref i else Some x),
     it_result := json_or (ir_result r) (it_result i), it_error := or_none (take 4000 (ir_error r)),
     it_retryable := ir_retryable r, it_available := None, it_ended := Some now,
     it_duration := (case it_started i of None \<Rightarrow> it_duration i | Some t \<Rightarrow> Some (max 0 ((now - t) div 1000)))\<rparr>)"

definition retry_delay :: "int \<Rightarrow> int" where
  "retry_delay attempt = min 60 (2 ^ nat (max 1 attempt))"

text \<open>\<open>Transient outcome; retrying in ...\<close> (\<open>what\<close> is the noun).\<close>

definition requeue :: "int \<Rightarrow> string \<Rightarrow> string option \<Rightarrow> item \<Rightarrow> item" where
  "requeue now what err i = release (i\<lparr>it_status := ''queued'', it_retryable := True, it_error := err,
     it_message := ''Transient '' @ what @ ''; retrying in '' @ digits_of_int (retry_delay (it_attempt i)) @ ''s.'',
     it_available := Some (now + retry_delay (it_attempt i) * 1000000), it_started := None\<rparr>)"

definition may_retry :: "work_db \<Rightarrow> item \<Rightarrow> bool" where
  "may_retry db i \<longleftrightarrow> it_attempt i < it_max i \<and>
     (case get_batch_row (it_batch i) db of None \<Rightarrow> False | Some b \<Rightarrow> \<not> ba_cancel_requested b)"

text \<open>Replace the row of an item, then aggregate its batch.\<close>

definition store_item :: "int \<Rightarrow> item \<Rightarrow> work_db \<Rightarrow> work_db" where
  "store_item now i db = refresh_batch now (it_batch i)
     (db\<lparr>wd_items := update_rows (\<lambda>x. it_id x = it_id i) (\<lambda>_. i) (wd_items db)\<rparr>)"

definition owned_item :: "int \<Rightarrow> string \<times> string \<Rightarrow> string \<Rightarrow> work_db \<Rightarrow> item option" where
  "owned_item now wt iid db = find (\<lambda>i. it_id i = iid \<and> leased wt i \<and> live now i) (wd_items db)"

definition finish_item :: "int \<Rightarrow> string \<times> string \<Rightarrow> string \<Rightarrow> item_result \<Rightarrow> work_db \<Rightarrow> work_db" where
  "finish_item now wt iid r db =
     (case owned_item now wt iid db of
        None \<Rightarrow> db
      | Some i \<Rightarrow>
          store_item now
            (if ir_retryable r \<and> ir_status r \<in> {''failed'', ''partial''} \<and> may_retry db i
             then requeue now ''outcome'' (or_none (take 4000 (if ir_error r = [] then ir_message r else ir_error r))) i
             else apply_result now r i) db)"

definition fail_or_retry :: "int \<Rightarrow> string \<times> string \<Rightarrow> string \<Rightarrow> string \<Rightarrow> work_db \<Rightarrow> work_db" where
  "fail_or_retry now wt iid message db =
     (case owned_item now wt iid db of
        None \<Rightarrow> db
      | Some i \<Rightarrow>
          store_item now
            (if transient message \<and> may_retry db i then requeue now ''failure'' (Some message) i
             else apply_result now \<lparr>ir_status = ''failed'', ir_message = ''Failed.'', ir_ref = None, ir_result = ''{}'',
                    ir_error = message, ir_retryable = transient message\<rparr> i) db)"

text \<open>\<open>_run_item\<close>: what is stored when the executor returned or raised.\<close>

definition run_item :: "int \<Rightarrow> string \<times> string \<Rightarrow> string \<Rightarrow> string + item_result \<Rightarrow> work_db \<Rightarrow> work_db" where
  "run_item now wt iid outcome db =
     (case outcome of Inr r \<Rightarrow> finish_item now wt iid r db | Inl message \<Rightarrow> fail_or_retry now wt iid (take 4000 message) db)"

text \<open>\<open>_complete_external_item\<close>: an item a coordinating executor finished under its lease.\<close>

definition complete_external_item :: "int \<Rightarrow> string \<times> string \<Rightarrow> string \<Rightarrow> item_result \<Rightarrow> work_db \<Rightarrow> work_db" where
  "complete_external_item now wt iid r db =
     (case find (\<lambda>i. it_id i = iid \<and> leased wt i) (wd_items db) of
        None \<Rightarrow> db
      | Some i \<Rightarrow> store_item now (apply_result now r i) db)"

text \<open>The siblings a cost refresh takes along under its own lease.\<close>

definition claim_siblings :: "int \<Rightarrow> string \<times> string \<Rightarrow> string \<Rightarrow> work_db \<Rightarrow> work_db" where
  "claim_siblings now wt bid db =
     db\<lparr>wd_items := update_rows (\<lambda>i. it_batch i = bid \<and> it_status i = ''queued'' \<and> item_expired now i)
       (\<lambda>i. i\<lparr>it_status := ''running'', it_attempt := it_attempt i + 1, it_started := Some now, it_ended := None,
          it_available := None, it_owner := Some (fst wt), it_token := Some (snd wt), it_lease := Some (now + LEASE)\<rparr>)
       (wd_items db)\<rparr>"

text \<open>
  \<open>update_item_progress\<close> under a lease, when its throttle lets the write through. The status
  argument is given by one caller, as \<open>running\<close>.
\<close>

definition update_progress ::
  "string \<times> string \<Rightarrow> string \<Rightarrow> int option \<Rightarrow> int option \<Rightarrow> string option \<Rightarrow> string option \<Rightarrow> string option
   \<Rightarrow> work_db \<Rightarrow> work_db" where
  "update_progress wt iid cur tot message status res db =
     db\<lparr>wd_items := update_rows (\<lambda>i. it_id i = iid \<and> leased wt i)
       (\<lambda>i. i\<lparr>it_current := (case cur of None \<Rightarrow> it_current i | Some n \<Rightarrow> max 0 n),
          it_total := (case tot of None \<Rightarrow> it_total i | Some n \<Rightarrow> max 0 n),
          it_message := (case message of None \<Rightarrow> it_message i | Some m \<Rightarrow> take 2000 m),
          it_status := (case status of None \<Rightarrow> it_status i | Some st \<Rightarrow> st),
          it_result := (case res of None \<Rightarrow> it_result i | Some r \<Rightarrow> r)\<rparr>) (wd_items db)\<rparr>"

text \<open>The write throttle: a pure progress update is dropped when unchanged or within two seconds.\<close>

definition PROGRESS_INTERVAL :: int where
  "PROGRESS_INTERVAL = 2 * 1000000"

type_synonym progress = "int option \<times> int option \<times> string option \<times> string option \<times> string option"

definition progress_dropped :: "int \<Rightarrow> progress \<Rightarrow> (int \<times> progress) option \<Rightarrow> bool" where
  "progress_dropped now p previous \<longleftrightarrow>
     (case p of (_, _, _, status, res) \<Rightarrow> status = None \<and> res = None) \<and>
     (case previous of None \<Rightarrow> False | Some (t, q) \<Rightarrow> p = q \<or> now - t < PROGRESS_INTERVAL)"

definition set_result_ref :: "int \<Rightarrow> string \<times> string \<Rightarrow> string \<Rightarrow> string \<Rightarrow> work_db \<Rightarrow> work_db" where
  "set_result_ref now wt iid ref db =
     db\<lparr>wd_items := update_rows (\<lambda>i. it_id i = iid \<and> leased wt i \<and> live now i) (\<lambda>i. i\<lparr>it_ref := Some ref\<rparr>) (wd_items db)\<rparr>"

section \<open>Recovery\<close>

text \<open>
  \<open>recover_interrupted\<close>: at startup the expired leases, at shutdown this worker's. Batches whose
  cancellation was requested lose their queued items; every batch looked at is aggregated.
\<close>

definition recoverable :: "int \<Rightarrow> string option \<Rightarrow> item \<Rightarrow> bool" where
  "recoverable now owned_by i \<longleftrightarrow> it_status i = ''running'' \<and>
     (case owned_by of Some w \<Rightarrow> it_owner i = Some w | None \<Rightarrow> item_expired now i)"

definition settle_batch :: "int \<Rightarrow> string \<Rightarrow> work_db \<Rightarrow> work_db" where
  "settle_batch now bid db =
     (let requested = (case get_batch_row bid db of None \<Rightarrow> False | Some b \<Rightarrow> ba_cancel_requested b);
          db1 = (if requested
            then db\<lparr>wd_items := update_rows (\<lambda>i. it_batch i = bid \<and> it_status i = ''queued'')
              (\<lambda>i. i\<lparr>it_status := ''cancelled'', it_ended := Some now, it_error := Some ''Cancelled before restart.''\<rparr>)
              (wd_items db)\<rparr> else db)
      in refresh_batch now bid db1)"

definition recover_interrupted :: "int \<Rightarrow> string option \<Rightarrow> work_db \<Rightarrow> nat \<times> work_db" where
  "recover_interrupted now owned_by db =
     (let hit = recoverable now owned_by;
          db1 = db\<lparr>wd_items := update_rows hit (\<lambda>i. release (i\<lparr>it_status := ''queued'', it_started := None,
                 it_available := None, it_retryable := True, it_message := ''Requeued after worker interruption.'',
                 it_error := Some ''Requeued after worker interruption.''\<rparr>)) (wd_items db)\<rparr>;
          bids = remdups (map it_batch (filter hit (wd_items db)) @
            map ba_id (filter (\<lambda>b. ba_status b \<in> set ACTIVE \<and> ba_cancel_requested b) (wd_batches db)))
      in (rowcount hit (wd_items db), fold (settle_batch now) bids db1))"

section \<open>Totals\<close>

lemmas status_lists = TERMINAL_def ACTIVE_def

definition tally :: "item list \<Rightarrow> nat \<times> nat \<times> nat \<times> nat \<times> nat" where
  "tally its = (length its, count_status ''succeeded'' its, count_status ''partial'' its,
     count_status ''failed'' its, count_status ''cancelled'' its)"

text \<open>The columns of a batch agree with its items, and it is terminal when all of them are.\<close>

definition batch_ok :: "item list \<Rightarrow> batch \<Rightarrow> bool" where
  "batch_ok its b \<longleftrightarrow> (ba_total b, ba_succeeded b, ba_partial b, ba_failed b, ba_cancelled b) = tally its \<and>
     ba_completed b = ba_succeeded b + ba_partial b + ba_failed b + ba_cancelled b \<and>
     (ba_status b \<in> set TERMINAL \<longleftrightarrow> ba_total b \<noteq> 0 \<and> ba_completed b = ba_total b)"

lemma count_status_Nil [simp]: "count_status st [] = 0"
  by (simp add: count_status_def)

lemma refreshed_ok: "batch_ok its (refreshed now its b)"
  by (cases "its = []") (simp_all add: batch_ok_def refreshed_def tally_def Let_def TERMINAL_def)

lemma refreshed_id [simp]: "ba_id (refreshed now its b) = ba_id b"
  "ba_cancel_requested (refreshed now its b) = ba_cancel_requested b"
  by (simp_all add: refreshed_def Let_def)

lemma batch_ok_tally: "tally its' = tally its \<Longrightarrow> batch_ok its' b \<longleftrightarrow> batch_ok its b"
  by (simp add: batch_ok_def)

lemma batch_ok_cong:
  "batch_ok its b \<Longrightarrow> ba_total b' = ba_total b \<Longrightarrow> ba_succeeded b' = ba_succeeded b \<Longrightarrow> ba_partial b' = ba_partial b \<Longrightarrow>
   ba_failed b' = ba_failed b \<Longrightarrow> ba_cancelled b' = ba_cancelled b \<Longrightarrow> ba_completed b' = ba_completed b \<Longrightarrow>
   (ba_status b' \<in> set TERMINAL \<longleftrightarrow> ba_status b \<in> set TERMINAL) \<Longrightarrow> batch_ok its b'"
  by (simp add: batch_ok_def)

lemma items_of_update:
  "(\<And>i. P i \<Longrightarrow> it_batch (f i) = it_batch i) \<Longrightarrow>
   items_of bid (update_rows P f its) = update_rows P f (items_of bid its)"
  unfolding items_of_def update_rows_def by (induction its) auto

lemma tally_update:
  assumes "\<And>i. P i \<Longrightarrow> it_status i \<notin> set TERMINAL \<and> it_status (f i) \<notin> set TERMINAL"
  shows "tally (update_rows P f its) = tally its"
proof -
  have "count_status st (update_rows P f its) = count_status st its" if "st \<in> set TERMINAL" for st
    unfolding count_status_def update_rows_def using assms that by (induction its) auto
  then show ?thesis by (simp add: tally_def TERMINAL_def update_rows_def)
qed

lemma items_untouched:
  "(\<And>i. P i \<Longrightarrow> it_batch i \<noteq> bid \<and> it_batch (f i) \<noteq> bid) \<Longrightarrow> items_of bid (update_rows P f its) = items_of bid its"
  unfolding items_of_def update_rows_def by (induction its) auto

definition counters_except :: "string set \<Rightarrow> work_db \<Rightarrow> bool" where
  "counters_except bids db \<longleftrightarrow>
     (\<forall>b\<in>set (wd_batches db). ba_id b \<notin> bids \<longrightarrow> batch_ok (items_of (ba_id b) (wd_items db)) b)"

lemma counters_refresh: "counters_except (insert bid bids) db \<Longrightarrow> counters_except bids (refresh_batch now bid db)"
  by (auto simp: counters_except_def refresh_batch_def refreshed_ok)

lemma counters_mono: "counters_except bids db \<Longrightarrow> bids \<subseteq> bids' \<Longrightarrow> counters_except bids' db"
  by (auto simp: counters_except_def)

text \<open>Items change outside the terminal states, or inside the batches that are aggregated next.\<close>

lemma counters_items:
  assumes "counters_except bids db" "\<And>i. P i \<Longrightarrow> it_batch (f i) = it_batch i"
    "\<And>i. P i \<Longrightarrow> it_batch i \<notin> bids \<Longrightarrow> it_status i \<notin> set TERMINAL \<and> it_status (f i) \<notin> set TERMINAL"
  shows "counters_except bids (db\<lparr>wd_items := update_rows P f (wd_items db)\<rparr>)"
proof -
  have "tally (items_of b (update_rows P f (wd_items db))) = tally (items_of b (wd_items db))" if b: "b \<notin> bids" for b
  proof -
    have "update_rows P f (items_of b (wd_items db)) =
        update_rows (\<lambda>i. P i \<and> it_batch i = b) f (items_of b (wd_items db))"
      unfolding update_rows_def by (rule map_cong) (auto simp: items_of_def)
    moreover have "tally (update_rows (\<lambda>i. P i \<and> it_batch i = b) f (items_of b (wd_items db))) =
        tally (items_of b (wd_items db))"
      by (rule tally_update) (use assms(3) b in auto)
    ultimately show ?thesis using items_of_update [of P f b "wd_items db"] assms(2) by simp
  qed
  note t = this
  show ?thesis unfolding counters_except_def
  proof (intro ballI impI)
    fix b assume "b \<in> set (wd_batches (db\<lparr>wd_items := update_rows P f (wd_items db)\<rparr>))" "ba_id b \<notin> bids"
    then show "batch_ok (items_of (ba_id b) (wd_items (db\<lparr>wd_items := update_rows P f (wd_items db)\<rparr>))) b"
      using assms(1) batch_ok_tally [OF t [of "ba_id b"]] by (simp add: counters_except_def)
  qed
qed

lemma counters_batches:
  assumes "counters_except bids db" "\<And>b. ba_id (g b) = ba_id b"
    "\<And>b its. b \<in> set (wd_batches db) \<Longrightarrow> Q b \<Longrightarrow> ba_id b \<notin> bids \<Longrightarrow> batch_ok its b \<Longrightarrow> batch_ok its (g b)"
  shows "counters_except bids (db\<lparr>wd_batches := update_rows Q g (wd_batches db)\<rparr>)"
proof -
  have "batch_ok (items_of (ba_id y) (wd_items db)) y"
    if y: "y \<in> set (update_rows Q g (wd_batches db))" "ba_id y \<notin> bids" for y
  proof -
    from y(1) obtain x where x: "x \<in> set (wd_batches db)" "y = (if Q x then g x else x)" by auto
    then have id: "ba_id y = ba_id x" using assms(2) by simp
    with assms(1) x(1) y(2) have "batch_ok (items_of (ba_id y) (wd_items db)) x" by (simp add: counters_except_def)
    with x assms(3) [OF x(1)] y(2) id show ?thesis by simp
  qed
  then show ?thesis by (simp add: counters_except_def)
qed

section \<open>Transactions as steps\<close>

text \<open>Rows and tokens get new random ids; \<open>used\<close> holds a worker and token pair that matters.\<close>

inductive work_step :: "(string \<times> string) set \<Rightarrow> work_db \<Rightarrow> work_db \<Rightarrow> bool" for used where
  create: "bid \<notin> ba_id ` set (wd_batches db) \<Longrightarrow> inj fresh \<Longrightarrow> range fresh \<inter> it_id ` set (wd_items db) = {} \<Longrightarrow>
    work_step used db (snd (create_batch now bid fresh tenant feature actor key ds config trigger db))"
| cancel: "work_step used db (snd (cancel_batch now bid tenant db))"
| delete: "work_step used db (snd (delete_batch bid tenant db))"
| claim: "wt \<notin> used \<Longrightarrow> work_step used db (snd (claim_next now wt db))"
| siblings: "wt \<notin> used \<Longrightarrow> work_step used db (claim_siblings now wt bid db)"
| beat: "work_step used db (snd (beat_item now wt iid db))"
| finish: "work_step used db (finish_item now wt iid r db)"
| fail: "work_step used db (fail_or_retry now wt iid message db)"
| external: "work_step used db (complete_external_item now wt iid r db)"
| progress: "status \<in> {None, Some ''running''} \<Longrightarrow>
    work_step used db (update_progress wt iid cur tot text_msg status res db)"
| set_ref: "work_step used db (set_result_ref now wt iid ref db)"
| recover: "work_step used db (snd (recover_interrupted now owned_by db))"

definition no_work :: work_db where
  "no_work = \<lparr>wd_batches = [], wd_items = []\<rparr>"

inductive reachable_work :: "work_db \<Rightarrow> bool" where
  start: "reachable_work no_work"
| step: "reachable_work db \<Longrightarrow> work_step {} db db' \<Longrightarrow> reachable_work db'"

text \<open>Keys are unique, every item has its batch, cancelled batches have nothing queued, totals are right.\<close>

definition keys_ok :: "work_db \<Rightarrow> bool" where
  "keys_ok db \<longleftrightarrow> distinct (map ba_id (wd_batches db)) \<and> distinct (map it_id (wd_items db)) \<and>
     it_batch ` set (wd_items db) \<subseteq> ba_id ` set (wd_batches db)"

text \<open>An update keeps the keys.\<close>

definition same_keys :: "work_db \<Rightarrow> work_db \<Rightarrow> bool" where
  "same_keys db db' \<longleftrightarrow> map ba_id (wd_batches db') = map ba_id (wd_batches db) \<and>
     map (\<lambda>i. (it_id i, it_batch i)) (wd_items db') = map (\<lambda>i. (it_id i, it_batch i)) (wd_items db)"

lemma same_keys_refl [simp]: "same_keys db db"
  by (simp add: same_keys_def)

lemma same_keys_trans: "same_keys db db1 \<Longrightarrow> same_keys db1 db2 \<Longrightarrow> same_keys db db2"
  by (simp add: same_keys_def)

lemma same_keys_ok:
  assumes "same_keys db db'" "keys_ok db"
  shows "keys_ok db'"
proof -
  have b: "map ba_id (wd_batches db') = map ba_id (wd_batches db)"
    and i: "map (\<lambda>i. (it_id i, it_batch i)) (wd_items db') = map (\<lambda>i. (it_id i, it_batch i)) (wd_items db)"
    using assms(1) by (auto simp: same_keys_def)
  have "map it_id (wd_items db') = map it_id (wd_items db)" "map it_batch (wd_items db') = map it_batch (wd_items db)"
    using arg_cong [OF i, of "map fst"] arg_cong [OF i, of "map snd"] by (simp_all add: o_def)
  then have "distinct (map it_id (wd_items db')) = distinct (map it_id (wd_items db))"
    "it_batch ` set (wd_items db') = it_batch ` set (wd_items db)"
    "distinct (map ba_id (wd_batches db')) = distinct (map ba_id (wd_batches db))"
    "ba_id ` set (wd_batches db') = ba_id ` set (wd_batches db)"
    using b by (metis list.set_map)+
  with assms(2) show ?thesis by (simp add: keys_ok_def)
qed

lemma same_keys_refresh [simp]: "same_keys db (refresh_batch now bid db)"
  by (simp add: same_keys_def refresh_batch_def map_update_rows)

lemma same_keys_items:
  assumes "\<And>i. i \<in> set (wd_items db) \<Longrightarrow> P i \<Longrightarrow> it_id (f i) = it_id i \<and> it_batch (f i) = it_batch i"
    and "map ba_id bs = map ba_id (wd_batches db)"
  shows "same_keys db (db\<lparr>wd_items := update_rows P f (wd_items db), wd_batches := bs\<rparr>)"
  using assms by (auto simp: same_keys_def update_rows_def)

lemma release_sel [simp]:
  "it_id (release i) = it_id i" "it_batch (release i) = it_batch i" "it_status (release i) = it_status i"
  "it_attempt (release i) = it_attempt i" "it_owner (release i) = None" "it_token (release i) = None"
  "it_lease (release i) = None" "it_tenant (release i) = it_tenant i" "it_conn (release i) = it_conn i"
  by (simp_all add: release_def)

lemma apply_result_sel [simp]:
  "it_id (apply_result now r i) = it_id i" "it_batch (apply_result now r i) = it_batch i"
  "it_attempt (apply_result now r i) = it_attempt i" "it_owner (apply_result now r i) = None"
  by (simp_all add: apply_result_def)

lemma requeue_sel [simp]:
  "it_id (requeue now w e i) = it_id i" "it_batch (requeue now w e i) = it_batch i"
  "it_attempt (requeue now w e i) = it_attempt i" "it_owner (requeue now w e i) = None"
  "it_status (requeue now w e i) = ''queued''"
  by (simp_all add: requeue_def)

lemma claimed_item_sel [simp]:
  "it_id (claimed_item now wt f i) = it_id i" "it_batch (claimed_item now wt f i) = it_batch i"
  "it_status (claimed_item now wt f i) = ''running''" "it_attempt (claimed_item now wt f i) = it_attempt i + 1"
  "it_tenant (claimed_item now wt f i) = it_tenant i" "it_conn (claimed_item now wt f i) = it_conn i"
  "it_owner (claimed_item now wt f i) = Some (fst wt)" "it_token (claimed_item now wt f i) = Some (snd wt)"
  "it_lease (claimed_item now wt f i) = Some (now + LEASE)"
  by (simp_all add: claimed_item_def)

text \<open>Storing a new version of an item under its id.\<close>

lemma item_unique:
  assumes "keys_ok db" "x \<in> set (wd_items db)" "i \<in> set (wd_items db)" "it_id x = it_id i"
  shows "x = i"
  using unique_row [of it_id "wd_items db" x i] assms by (simp add: keys_ok_def)

lemma same_item_batch:
  assumes "keys_ok db" "i \<in> set (wd_items db)" "it_id i' = it_id i" "it_batch i' = it_batch i"
    and "x \<in> set (wd_items db)" "it_id x = it_id i'"
  shows "it_batch x = it_batch i'"
proof -
  have "x = i" by (rule item_unique [OF assms(1,5,2)]) (simp add: assms(3,6))
  with assms(4) show ?thesis by simp
qed

lemma store_item_keys:
  assumes "keys_ok db" "i \<in> set (wd_items db)" "it_id i' = it_id i" "it_batch i' = it_batch i"
  shows "same_keys db (store_item now i' db)"
proof -
  have "same_keys db (db\<lparr>wd_items := update_rows (\<lambda>x. it_id x = it_id i') (\<lambda>_. i') (wd_items db), wd_batches := wd_batches db\<rparr>)"
    by (rule same_keys_items) (simp_all add: same_item_batch [OF assms])
  then show ?thesis unfolding store_item_def by (intro same_keys_trans [OF _ same_keys_refresh]) simp
qed

lemma store_item_counters:
  assumes "keys_ok db" "i \<in> set (wd_items db)" "it_id i' = it_id i" "it_batch i' = it_batch i" "counters_except {} db"
  shows "counters_except {} (store_item now i' db)"
proof -
  have "update_rows (\<lambda>x. it_id x = it_id i') (\<lambda>_. i') (wd_items db) =
      update_rows (\<lambda>x. it_id x = it_id i' \<and> it_batch x = it_batch i') (\<lambda>_. i') (wd_items db)"
    unfolding update_rows_def by (rule map_cong [OF refl]) (simp add: same_item_batch [OF assms(1-4)])
  moreover have "counters_except {it_batch i'} (db\<lparr>wd_items :=
      update_rows (\<lambda>x. it_id x = it_id i' \<and> it_batch x = it_batch i') (\<lambda>_. i') (wd_items db)\<rparr>)"
    by (rule counters_items [OF counters_mono [OF assms(5)]]) simp_all
  ultimately show ?thesis unfolding store_item_def by (intro counters_refresh) simp
qed

text \<open>The worker's writes: an item it holds gets a new version, or nothing happens.\<close>

lemma finish_cases:
  obtains (lost) "owned_item now wt iid db = None" "finish_item now wt iid r db = db"
  | (stored) i i' where "owned_item now wt iid db = Some i" "finish_item now wt iid r db = store_item now i' db"
      "it_id i' = it_id i" "it_batch i' = it_batch i" "it_attempt i' = it_attempt i" "it_owner i' = None"
      "it_status i' \<in> set TERMINAL \<or> it_status i' = ''queued'' \<and> may_retry db i"
proof (cases "owned_item now wt iid db")
  case (Some i)
  show thesis
  proof (cases "ir_retryable r \<and> ir_status r \<in> {''failed'', ''partial''} \<and> may_retry db i")
    case True
    with Some show thesis
      by (intro stored [of i "requeue now ''outcome'' (or_none (take 4000 (if ir_error r = [] then ir_message r else ir_error r))) i"])
        (simp_all add: finish_item_def)
  next
    case False
    with Some show thesis
      by (intro stored [of i "apply_result now r i"]) (auto simp: finish_item_def apply_result_def TERMINAL_def)
  qed
qed (simp add: lost finish_item_def)

lemma fail_cases:
  obtains (lost) "owned_item now wt iid db = None" "fail_or_retry now wt iid message db = db"
  | (stored) i i' where "owned_item now wt iid db = Some i" "fail_or_retry now wt iid message db = store_item now i' db"
      "it_id i' = it_id i" "it_batch i' = it_batch i" "it_attempt i' = it_attempt i" "it_owner i' = None"
      "it_status i' \<in> set TERMINAL \<or> it_status i' = ''queued'' \<and> may_retry db i"
proof (cases "owned_item now wt iid db")
  case (Some i)
  show thesis
  proof (cases "transient message \<and> may_retry db i")
    case True
    with Some show thesis
      by (intro stored [of i "requeue now ''failure'' (Some message) i"]) (simp_all add: fail_or_retry_def)
  next
    case False
    with Some show thesis
      by (intro stored [of i "apply_result now \<lparr>ir_status = ''failed'', ir_message = ''Failed.'', ir_ref = None,
            ir_result = ''{}'', ir_error = message, ir_retryable = transient message\<rparr> i"])
        (auto simp: fail_or_retry_def apply_result_def TERMINAL_def)
  qed
qed (simp add: lost fail_or_retry_def)

lemma owned_itemD:
  "owned_item now wt iid db = Some i \<Longrightarrow> i \<in> set (wd_items db) \<and> it_id i = iid \<and> leased wt i \<and> live now i"
  unfolding owned_item_def by (drule find_SomeD) simp

text \<open>Both, and the completion by a coordinating executor, are one kind of step.\<close>

definition settles :: "string \<times> string \<Rightarrow> string \<Rightarrow> work_db \<Rightarrow> work_db \<Rightarrow> bool" where
  "settles wt iid db db' \<longleftrightarrow> db' = db \<or> (\<exists>i\<in>set (wd_items db). \<exists>i' now. it_id i = iid \<and> leased wt i \<and>
     db' = store_item now i' db \<and> it_id i' = it_id i \<and> it_batch i' = it_batch i \<and> it_attempt i' = it_attempt i \<and>
     it_owner i' = None \<and> (it_status i' \<in> set TERMINAL \<or> it_status i' = ''queued'' \<and> may_retry db i))"

lemma settlesI:
  "i \<in> set (wd_items db) \<Longrightarrow> it_id i = iid \<Longrightarrow> leased wt i \<Longrightarrow> db' = store_item now i' db \<Longrightarrow> it_id i' = it_id i \<Longrightarrow>
   it_batch i' = it_batch i \<Longrightarrow> it_attempt i' = it_attempt i \<Longrightarrow> it_owner i' = None \<Longrightarrow>
   it_status i' \<in> set TERMINAL \<or> it_status i' = ''queued'' \<and> may_retry db i \<Longrightarrow> settles wt iid db db'"
  unfolding settles_def by blast

lemma finish_settles: "settles wt iid db (finish_item now wt iid r db)"
proof (cases rule: finish_cases [of now wt iid db r])
  case (stored i i')
  note i = owned_itemD [OF stored(1)]
  show ?thesis by (rule settlesI [of i, OF _ _ _ stored(2-7)]) (simp_all add: i)
qed (simp add: settles_def)

lemma fail_settles: "settles wt iid db (fail_or_retry now wt iid message db)"
proof (cases rule: fail_cases [of now wt iid db message])
  case (stored i i')
  note i = owned_itemD [OF stored(1)]
  show ?thesis by (rule settlesI [of i, OF _ _ _ stored(2-7)]) (simp_all add: i)
qed (simp add: settles_def)

lemma external_settles: "settles wt iid db (complete_external_item now wt iid r db)"
proof (cases "find (\<lambda>i. it_id i = iid \<and> leased wt i) (wd_items db)")
  case (Some i)
  note i = find_SomeD [OF Some]
  have t: "it_status (apply_result now r i) \<in> set TERMINAL"
    by (simp add: apply_result_def TERMINAL_def)
  show ?thesis
    by (rule settlesI [of i _ _ _ _ now "apply_result now r i"])
      (use i t in \<open>simp_all add: complete_external_item_def Some\<close>)
qed (simp add: settles_def complete_external_item_def)

text \<open>Updates of items that keep keys and stay outside the terminal states.\<close>

definition nudges :: "work_db \<Rightarrow> work_db \<Rightarrow> bool" where
  "nudges db db' \<longleftrightarrow> (\<exists>P f. db' = db\<lparr>wd_items := update_rows P f (wd_items db)\<rparr> \<and>
     (\<forall>i. P i \<longrightarrow> it_id (f i) = it_id i \<and> it_batch (f i) = it_batch i \<and> it_status i \<notin> set TERMINAL \<and>
        it_status (f i) \<notin> set TERMINAL))"

lemma nudgesI:
  "db' = db\<lparr>wd_items := update_rows P f (wd_items db)\<rparr> \<Longrightarrow>
   (\<And>i. P i \<Longrightarrow> it_id (f i) = it_id i \<and> it_batch (f i) = it_batch i \<and> it_status i \<notin> set TERMINAL \<and>
      it_status (f i) \<notin> set TERMINAL) \<Longrightarrow> nudges db db'"
  unfolding nudges_def by blast

lemma nudges_keys: "nudges db db' \<Longrightarrow> same_keys db db'"
  unfolding nudges_def by (auto simp: same_keys_def update_rows_def)

lemma nudges_counters:
  assumes "nudges db db'" "counters_except bids db"
  shows "counters_except bids db'"
proof -
  from assms(1) obtain P f where f: "db' = db\<lparr>wd_items := update_rows P f (wd_items db)\<rparr>"
    "\<And>i. P i \<Longrightarrow> it_id (f i) = it_id i \<and> it_batch (f i) = it_batch i \<and> it_status i \<notin> set TERMINAL \<and>
        it_status (f i) \<notin> set TERMINAL" unfolding nudges_def by blast
  show ?thesis unfolding f(1) by (rule counters_items [OF assms(2)]) (use f(2) in blast)+
qed

lemma running_not_terminal [simp]: "''running'' \<notin> set TERMINAL" "''queued'' \<notin> set TERMINAL"
  by (simp_all add: TERMINAL_def)

lemma nudging_steps:
  "nudges db (snd (beat_item now wt iid db))"
  "status \<in> {None, Some ''running''} \<Longrightarrow> nudges db (update_progress wt iid cur tot message status res db)"
  "nudges db (set_result_ref now wt iid ref db)"
  "nudges db (claim_siblings now wt bid db)"
  unfolding beat_item_def update_progress_def set_result_ref_def claim_siblings_def Let_def snd_conv
  by (rule nudgesI [OF refl], auto simp: leased_def)+

section \<open>The invariant\<close>

text \<open>A batch whose cancellation was requested has nothing queued.\<close>

definition drained_except :: "string set \<Rightarrow> work_db \<Rightarrow> bool" where
  "drained_except bids db \<longleftrightarrow> (\<forall>b\<in>set (wd_batches db). ba_cancel_requested b \<and> ba_id b \<notin> bids \<longrightarrow>
     (\<forall>i\<in>set (wd_items db). it_batch i = ba_id b \<longrightarrow> it_status i \<noteq> ''queued''))"

definition work_ok :: "work_db \<Rightarrow> bool" where
  "work_ok db \<longleftrightarrow> keys_ok db \<and> counters_except {} db \<and> drained_except {} db"

lemma drainedD:
  "drained_except bids db \<Longrightarrow> b \<in> set (wd_batches db) \<Longrightarrow> ba_cancel_requested b \<Longrightarrow> ba_id b \<notin> bids \<Longrightarrow>
   i \<in> set (wd_items db) \<Longrightarrow> it_batch i = ba_id b \<Longrightarrow> it_status i \<noteq> ''queued''"
  unfolding drained_except_def by blast

lemma drained_mono: "drained_except bids db \<Longrightarrow> bids \<subseteq> bids' \<Longrightarrow> drained_except bids' db"
  unfolding drained_except_def by blast

lemma drained_insert:
  assumes "drained_except (insert bid bids) db"
    and "\<And>i. i \<in> set (wd_items db) \<Longrightarrow> it_batch i = bid \<Longrightarrow> it_status i \<noteq> ''queued''"
  shows "drained_except bids db"
  unfolding drained_except_def
proof (intro ballI impI)
  fix b i assume b: "b \<in> set (wd_batches db)" "ba_cancel_requested b \<and> ba_id b \<notin> bids"
    and i: "i \<in> set (wd_items db)" "it_batch i = ba_id b"
  show "it_status i \<noteq> ''queued''"
  proof (cases "ba_id b = bid")
    case True
    then show ?thesis using assms(2) [OF i(1)] i(2) by simp
  next
    case False
    then show ?thesis using drainedD [OF assms(1) b(1) _ _ i] b(2) by simp
  qed
qed

text \<open>Batch rows keep their id and the flag, items come from items.\<close>

lemma drained_update:
  assumes "drained_except bids db"
    and "\<And>b'. b' \<in> set (wd_batches db') \<Longrightarrow> ba_cancel_requested b' \<Longrightarrow> ba_id b' \<notin> bids \<Longrightarrow>
      \<exists>b\<in>set (wd_batches db). ba_id b = ba_id b' \<and> ba_cancel_requested b"
    and "\<And>i'. i' \<in> set (wd_items db') \<Longrightarrow> it_status i' = ''queued'' \<Longrightarrow> it_batch i' \<notin> bids \<Longrightarrow>
      (\<exists>i\<in>set (wd_items db). it_batch i = it_batch i' \<and> it_status i = ''queued'') \<or>
      (\<forall>b\<in>set (wd_batches db). ba_id b = it_batch i' \<longrightarrow> \<not> ba_cancel_requested b)"
  shows "drained_except bids db'"
  unfolding drained_except_def
proof (intro ballI impI notI)
  fix b' i' assume b': "b' \<in> set (wd_batches db')" "ba_cancel_requested b' \<and> ba_id b' \<notin> bids"
    and i': "i' \<in> set (wd_items db')" "it_batch i' = ba_id b'" "it_status i' = ''queued''"
  obtain b where b: "b \<in> set (wd_batches db)" "ba_id b = ba_id b'" "ba_cancel_requested b"
    using assms(2) [OF b'(1)] b'(2) by blast
  from assms(3) [OF i'(1,3)] b' i'(2) b consider i where "i \<in> set (wd_items db)" "it_batch i = it_batch i'" "it_status i = ''queued''"
    by metis
  then show False using drainedD [OF assms(1) b(1,3)] b(2) b'(2) i'(2) by metis
qed

lemma refresh_sel [simp]:
  "wd_items (refresh_batch now bid db) = wd_items db"
  by (simp add: refresh_batch_def)

lemma refresh_batches:
  "b' \<in> set (wd_batches (refresh_batch now bid db)) \<Longrightarrow>
   \<exists>b\<in>set (wd_batches db). ba_id b = ba_id b' \<and> ba_cancel_requested b = ba_cancel_requested b'"
  by (auto simp: refresh_batch_def)

lemma drained_refresh: "drained_except bids db \<Longrightarrow> drained_except bids (refresh_batch now bid db)"
  by (erule drained_update) (use refresh_batches in \<open>fastforce\<close>, auto)

lemma get_batch_rowD: "get_batch_row bid db = Some b \<Longrightarrow> b \<in> set (wd_batches db) \<and> ba_id b = bid"
  unfolding get_batch_row_def by (drule find_SomeD) simp

lemma get_batch_row_iff:
  "keys_ok db \<Longrightarrow> get_batch_row bid db = Some b \<longleftrightarrow> b \<in> set (wd_batches db) \<and> ba_id b = bid"
  unfolding get_batch_row_def by (rule find_key) (simp add: keys_ok_def)

lemma may_retryD:
  assumes "keys_ok db" "may_retry db i" "b \<in> set (wd_batches db)" "ba_id b = it_batch i"
  shows "\<not> ba_cancel_requested b"
proof -
  have "get_batch_row (it_batch i) db = Some b" using assms by (simp add: get_batch_row_iff)
  with assms(2) show ?thesis by (simp add: may_retry_def)
qed

lemma store_item_batches:
  "b' \<in> set (wd_batches (store_item now i' db)) \<Longrightarrow>
   \<exists>b\<in>set (wd_batches db). ba_id b = ba_id b' \<and> ba_cancel_requested b = ba_cancel_requested b'"
  unfolding store_item_def by (drule refresh_batches) simp

lemma settles_ok:
  assumes "settles wt iid db db'" "work_ok db"
  shows "work_ok db'"
proof (cases "db' = db")
  case False
  with assms(1) obtain i i' now where i: "i \<in> set (wd_items db)" "leased wt i" "db' = store_item now i' db"
      "it_id i' = it_id i" "it_batch i' = it_batch i"
      "it_status i' \<in> set TERMINAL \<or> it_status i' = ''queued'' \<and> may_retry db i"
    unfolding settles_def by blast
  have keys: "keys_ok db" and cnt: "counters_except {} db" and dr: "drained_except {} db"
    using assms(2) by (auto simp: work_ok_def)
  have "drained_except {} db'"
  proof (rule drained_update [OF dr])
    fix b' assume "b' \<in> set (wd_batches db')" "ba_cancel_requested b'"
    then show "\<exists>b\<in>set (wd_batches db). ba_id b = ba_id b' \<and> ba_cancel_requested b"
      using store_item_batches i(3) by blast
  next
    fix x assume x: "x \<in> set (wd_items db')" "it_status x = ''queued''"
    then have "x = i' \<or> x \<in> set (wd_items db)" by (auto simp: i(3) store_item_def split: if_splits)
    then show "(\<exists>i\<in>set (wd_items db). it_batch i = it_batch x \<and> it_status i = ''queued'') \<or>
        (\<forall>b\<in>set (wd_batches db). ba_id b = it_batch x \<longrightarrow> \<not> ba_cancel_requested b)"
    proof
      assume e: "x = i'"
      with i(6) x(2) have "may_retry db i" by auto
      then show ?thesis using may_retryD [OF keys] i(5) e by auto
    qed (use x(2) in blast)
  qed
  moreover have "keys_ok db'" unfolding i(3) by (rule same_keys_ok [OF store_item_keys [OF keys i(1,4,5)] keys])
  moreover have "counters_except {} db'" unfolding i(3) by (rule store_item_counters [OF keys i(1,4,5) cnt])
  ultimately show ?thesis by (simp add: work_ok_def)
qed (use assms(2) in simp)

lemma nudges_ok:
  assumes "nudges db db'" "work_ok db" "\<And>i. i \<in> set (wd_items db') \<Longrightarrow> it_status i = ''queued'' \<Longrightarrow> i \<in> set (wd_items db)"
  shows "work_ok db'"
proof -
  have "wd_batches db' = wd_batches db" using assms(1) by (auto simp: nudges_def)
  then have "drained_except {} db'"
    using assms(2,3) unfolding work_ok_def by (intro drained_update [of "{}" db db']) auto
  with same_keys_ok [OF nudges_keys [OF assms(1)]] nudges_counters [OF assms(1)] assms(2) show ?thesis
    by (simp add: work_ok_def)
qed

lemma nudging_ok:
  assumes "work_ok db"
  shows "work_ok (snd (beat_item now wt iid db))"
    and "status \<in> {None, Some ''running''} \<Longrightarrow> work_ok (update_progress wt iid cur tot message status res db)"
    and "work_ok (set_result_ref now wt iid ref db)" and "work_ok (claim_siblings now wt bid db)"
proof -
  show "work_ok (snd (beat_item now wt iid db))"
    by (rule nudges_ok [OF nudging_steps(1) assms]) (auto simp: beat_item_def Let_def leased_def split: if_splits)
  show "work_ok (update_progress wt iid cur tot message status res db)" if "status \<in> {None, Some ''running''}"
    by (rule nudges_ok [OF nudging_steps(2) [OF that] assms])
      (use that in \<open>auto simp: update_progress_def leased_def split: if_splits\<close>)
  show "work_ok (set_result_ref now wt iid ref db)"
    by (rule nudges_ok [OF nudging_steps(3) assms]) (auto simp: set_result_ref_def leased_def split: if_splits)
  show "work_ok (claim_siblings now wt bid db)"
    by (rule nudges_ok [OF nudging_steps(4) assms]) (auto simp: claim_siblings_def split: if_splits)
qed

text \<open>Claiming.\<close>

lemma candidatesD:
  assumes "(i, b) \<in> set (candidates now db)"
  shows "i \<in> set (wd_items db) \<and> get_batch_row (it_batch i) db = Some b \<and> item_claimable now i \<and>
    ba_status b \<in> set ACTIVE \<and> \<not> ba_cancel_requested b"
  using in_set_takeD [OF assms [unfolded candidates_def]]
  by (auto simp: List.map_filter_def split: option.splits if_splits)

lemma claim_cases:
  obtains (none) "claim_next now wt db = (None, db)"
  | (claimed) i b where "i \<in> set (wd_items db)" "get_batch_row (it_batch i) db = Some b" "item_claimable now i"
      "ba_status b \<in> set ACTIVE" "\<not> ba_cancel_requested b" "lane_count now (lane i) db = 0"
      "feature_count now (ba_feature b) db < feature_limit (ba_feature b)"
      "rowcount (\<lambda>x. it_id x = it_id i \<and> item_claimable now x) (wd_items db) = 1"
      "claim_next now wt db = (Some (it_id i),
         db\<lparr>wd_items := update_rows (\<lambda>x. it_id x = it_id i \<and> item_claimable now x) (claimed_item now wt (ba_feature b)) (wd_items db),
            wd_batches := update_rows (\<lambda>x. ba_id x = ba_id b)
              (\<lambda>x. x\<lparr>ba_status := ''running'', ba_started := or_now (ba_started x) now\<rparr>) (wd_batches db)\<rparr>)"
proof (cases "find (\<lambda>(i, b). lane_count now (lane i) db = 0 \<and> feature_count now (ba_feature b) db < feature_limit (ba_feature b))
    (candidates now db)")
  case None
  then show thesis by (intro none) (simp add: claim_next_def)
next
  case (Some p)
  obtain i b where p: "p = (i, b)" by (cases p)
  note c = find_SomeD [OF Some [unfolded p]]
  from candidatesD [OF conjunct1 [OF c]] c Some show thesis
    by (cases "rowcount (\<lambda>x. it_id x = it_id i \<and> item_claimable now x) (wd_items db) = 1")
      (auto simp: claim_next_def p Let_def intro: none claimed)
qed

lemma claim_ok:
  assumes "work_ok db"
  shows "work_ok (snd (claim_next now wt db))"
proof (cases rule: claim_cases [of now wt db])
  case (claimed i b)
  let ?P = "\<lambda>x. it_id x = it_id i \<and> item_claimable now x"
  let ?db1 = "db\<lparr>wd_items := update_rows ?P (claimed_item now wt (ba_feature b)) (wd_items db)\<rparr>"
  let ?db2 = "?db1\<lparr>wd_batches := update_rows (\<lambda>x. ba_id x = ba_id b)
      (\<lambda>x. x\<lparr>ba_status := ''running'', ba_started := or_now (ba_started x) now\<rparr>) (wd_batches ?db1)\<rparr>"
  have keys: "keys_ok db" and cnt: "counters_except {} db" and dr: "drained_except {} db"
    using assms by (auto simp: work_ok_def)
  have n: "nudges db ?db1"
    by (rule nudgesI [OF refl]) (auto simp: item_claimable_def)
  have same: "same_keys db ?db2"
    using nudges_keys [OF n] by (simp add: same_keys_def map_update_rows)
  have b: "b \<in> set (wd_batches db)" using get_batch_rowD [OF claimed(2)] by simp
  have u: "x = b" if "x \<in> set (wd_batches db)" "ba_id x = ba_id b" for x
    using that b keys unique_row [of ba_id "wd_batches db" x b] by (simp add: keys_ok_def)
  have act: "ba_status b \<notin> set TERMINAL" using claimed(4) by (auto simp: status_lists)
  have "counters_except {} ?db2"
  proof (rule counters_batches [OF nudges_counters [OF n cnt]])
    fix x its assume x: "x \<in> set (wd_batches ?db1)" "ba_id x = ba_id b" "batch_ok its x"
    then have "x = b" by (intro u) simp_all
    with act x(3) show "batch_ok its (x\<lparr>ba_status := ''running'', ba_started := or_now (ba_started x) now\<rparr>)"
      by (intro batch_ok_cong [OF x(3)]) simp_all
  qed simp
  moreover have "drained_except {} ?db2"
    by (rule drained_update [OF dr]) (auto split: if_splits)
  ultimately have "work_ok ?db2" using same_keys_ok [OF same keys] by (simp add: work_ok_def)
  with claimed(9) show ?thesis by simp
qed (use assms in simp)

text \<open>Cancelling, deleting, submitting.\<close>

lemma drop_queued:
  assumes "counters_except (insert bid bids) db" "drained_except (insert bid bids) db"
    and f: "\<And>i. it_batch (f i) = it_batch i" "\<And>i. it_id (f i) = it_id i" "\<And>i. it_status (f i) = ''cancelled''"
    and db': "db' = db\<lparr>wd_items := update_rows (\<lambda>i. it_batch i = bid \<and> it_status i = ''queued'') f (wd_items db)\<rparr>"
  shows "counters_except (insert bid bids) db'" "drained_except bids db'" "same_keys db db'"
proof -
  let ?P = "\<lambda>i. it_batch i = bid \<and> it_status i = ''queued''"
  show "counters_except (insert bid bids) db'"
    unfolding db' by (rule counters_items [OF assms(1)]) (simp_all add: f)
  show "same_keys db db'" by (simp add: same_keys_def update_rows_def f db')
  have "drained_except (insert bid bids) db'"
  proof (rule drained_update [OF assms(2)])
    fix i' assume i': "i' \<in> set (wd_items db')" "it_status i' = ''queued''"
    from i'(1) have "i' \<in> set (update_rows ?P f (wd_items db))" by (simp add: db')
    then have "i' \<in> set (wd_items db)" using i'(2) by (cases rule: update_rowsE) (simp_all add: f)
    then show "(\<exists>i\<in>set (wd_items db). it_batch i = it_batch i' \<and> it_status i = ''queued'') \<or>
        (\<forall>b\<in>set (wd_batches db). ba_id b = it_batch i' \<longrightarrow> \<not> ba_cancel_requested b)"
      using i'(2) by blast
  qed (auto simp: db')
  then show "drained_except bids db'"
  proof (rule drained_insert)
    fix i assume i: "i \<in> set (wd_items db')" "it_batch i = bid"
    from i(1) have "i \<in> set (update_rows ?P f (wd_items db))" by (simp add: db')
    then show "it_status i \<noteq> ''queued''" using i(2) by (cases rule: update_rowsE) (simp_all add: f)
  qed
qed

lemma cancel_ok:
  assumes "work_ok db"
  shows "work_ok (snd (cancel_batch now bid tenant db))"
proof (cases "\<exists>b. get_batch_row bid db = Some b \<and> ba_tenant b = tenant \<and> ba_status b \<notin> set TERMINAL")
  case True
  let ?f = "\<lambda>i. i\<lparr>it_status := ''cancelled'', it_ended := Some now, it_message := ''Cancelled before start.'',
      it_error := Some ''Cancelled before start.''\<rparr>"
  let ?P = "\<lambda>i. it_batch i = bid \<and> it_status i = ''queued''"
  let ?db1 = "db\<lparr>wd_batches := update_rows (\<lambda>b. ba_id b = bid) (\<lambda>b. b\<lparr>ba_cancel_requested := True\<rparr>) (wd_batches db)\<rparr>"
  let ?db2 = "?db1\<lparr>wd_items := update_rows ?P ?f (wd_items ?db1)\<rparr>"
  have keys: "keys_ok db" and cnt: "counters_except {bid} db" and dr: "drained_except {bid} db"
    using assms counters_mono [of "{}" db "{bid}"] drained_mono [of "{}" db "{bid}"] by (simp_all add: work_ok_def)
  have "same_keys db ?db1" by (simp add: same_keys_def update_rows_def)
  have "counters_except {bid} ?db1"
    by (rule counters_batches [OF cnt]) (simp_all add: batch_ok_def)
  moreover have "drained_except {bid} ?db1"
  proof (rule drained_update [OF dr])
    fix b' assume "b' \<in> set (wd_batches ?db1)" "ba_cancel_requested b'" "ba_id b' \<notin> {bid}"
    then show "\<exists>b\<in>set (wd_batches db). ba_id b = ba_id b' \<and> ba_cancel_requested b"
      by (auto split: if_splits)
  qed auto
  ultimately have "counters_except {bid} ?db2" "drained_except {} ?db2" "same_keys ?db1 ?db2"
    by (rule drop_queued [where f = ?f]; simp)+
  then have "work_ok (refresh_batch now bid ?db2)"
    unfolding work_ok_def
    by (intro conjI counters_refresh drained_refresh same_keys_ok [OF same_keys_trans [OF _ same_keys_refresh] keys]
        same_keys_trans [OF \<open>same_keys db ?db1\<close>])
  with True show ?thesis by (auto simp: cancel_batch_def)
next
  case False
  then have "cancel_batch now bid tenant db = (False, db)"
    by (auto simp: cancel_batch_def split: option.splits)
  with assms show ?thesis by simp
qed

lemma delete_ok:
  assumes "work_ok db"
  shows "work_ok (snd (delete_batch bid tenant db))"
proof (cases "\<exists>b. get_batch_row bid db = Some b \<and> ba_tenant b = tenant \<and> ba_status b \<in> set TERMINAL")
  case True
  let ?db' = "db\<lparr>wd_items := filter (\<lambda>i. it_batch i \<noteq> bid) (wd_items db),
      wd_batches := filter (\<lambda>b. ba_id b \<noteq> bid) (wd_batches db)\<rparr>"
  have "items_of b (filter (\<lambda>i. it_batch i \<noteq> bid) its) = items_of b its" if "b \<noteq> bid" for b its
    unfolding items_of_def filter_filter by (rule filter_cong) (use that in auto)
  with assms have "work_ok ?db'"
    by (auto simp: work_ok_def keys_ok_def counters_except_def drained_except_def distinct_map_filter)
  with True show ?thesis by (auto simp: delete_batch_def)
next
  case False
  then have "delete_batch bid tenant db = (False, db)"
    by (auto simp: delete_batch_def split: option.splits)
  with assms show ?thesis by simp
qed

lemma new_items_keys:
  assumes "inj fresh"
  shows "distinct (map it_id (new_items fresh bid tenant seen ds))"
    and "set (map it_id (new_items fresh bid tenant seen ds)) \<subseteq> fresh ` (- set seen)"
proof -
  have "distinct (map it_id (new_items fresh bid tenant seen ds)) \<and>
      set (map it_id (new_items fresh bid tenant seen ds)) \<subseteq> fresh ` (- set seen)"
  proof (induction ds arbitrary: seen)
    case (Cons d ds)
    show ?case
    proof (cases "item_key_of d = [] \<or> item_key_of d \<in> set seen")
      case False
      let ?k = "item_key_of d"
      have rest: "set (map it_id (new_items fresh bid tenant (?k # seen) ds)) \<subseteq> fresh ` (- set (?k # seen))"
        using Cons [of "?k # seen"] by blast
      have "fresh ?k \<notin> fresh ` (- set (?k # seen))" using assms by (auto simp: inj_def)
      moreover have "fresh ` (- set (?k # seen)) \<subseteq> fresh ` (- set seen)" by auto
      ultimately show ?thesis using Cons [of "?k # seen"] rest False
        by (auto simp: new_item_def Let_def)
    qed (use Cons in \<open>simp add: Let_def\<close>)
  qed simp
  then show "distinct (map it_id (new_items fresh bid tenant seen ds))"
    and "set (map it_id (new_items fresh bid tenant seen ds)) \<subseteq> fresh ` (- set seen)" by auto
qed

lemma new_items_fresh:
  "i \<in> set (new_items fresh bid tenant seen ds) \<Longrightarrow> it_batch i = bid \<and> it_status i = ''queued''"
  by (induction ds arbitrary: seen) (auto simp: new_item_def Let_def split: if_splits)

text \<open>What a submission did.\<close>

definition new_batch :: "int \<Rightarrow> string \<Rightarrow> string \<Rightarrow> string \<Rightarrow> string \<Rightarrow> string \<Rightarrow> item list \<Rightarrow> string \<Rightarrow> string \<Rightarrow> batch" where
  "new_batch now bid tenant feature key actor its config trigger =
     \<lparr>ba_id = bid, ba_tenant = tenant, ba_feature = feature, ba_key = key, ba_status = ''queued'',
      ba_config = config, ba_total = length its, ba_completed = 0, ba_succeeded = 0, ba_partial = 0,
      ba_failed = 0, ba_cancelled = 0, ba_cancel_requested = False, ba_error = None,
      ba_by = actor, ba_trigger = trigger, ba_created = now, ba_started = None, ba_ended = None\<rparr>"

definition same_request :: "string \<Rightarrow> string \<Rightarrow> string \<Rightarrow> batch \<Rightarrow> bool" where
  "same_request tenant feature key b \<longleftrightarrow> ba_tenant b = (if tenant = [] then ''default'' else tenant) \<and>
     ba_feature b = feature \<and> ba_key b = py_strip key"

lemma create_cases:
  obtains (rejected) e where "create_batch now bid fresh tenant feature actor key ds config trigger db = (Inl e, db)"
  | (replayed) b where "create_batch now bid fresh tenant feature actor key ds config trigger db = (Inr (view b db, False), db)"
      "find (same_request tenant feature key) (wd_batches db) = Some b"
  | (created) its b db' where "create_batch now bid fresh tenant feature actor key ds config trigger db = (Inr (view b db', True), db')"
      "find (same_request tenant feature key) (wd_batches db) = None"
      "its = new_items fresh bid (if tenant = [] then ''default'' else tenant) [] ds" "its \<noteq> []"
      "b = new_batch now bid (if tenant = [] then ''default'' else tenant) feature (py_strip key) actor its config trigger"
      "db' = db\<lparr>wd_batches := wd_batches db @ [b], wd_items := wd_items db @ its\<rparr>"
proof -
  have r: "(\<lambda>b. ba_tenant b = (if tenant = [] then ''default'' else tenant) \<and> ba_feature b = feature \<and>
      ba_key b = py_strip key) = same_request tenant feature key"
    by (simp add: same_request_def fun_eq_iff)
  let ?bad = "feature \<notin> set FEATURES \<or> ds = [] \<or> py_strip key = [] \<or> 128 < length (py_strip key)"
  show thesis
  proof (cases ?bad)
    case True
    then have "\<exists>e. create_batch now bid fresh tenant feature actor key ds config trigger db = (Inl e, db)"
      unfolding create_batch_def Let_def by auto
    then show thesis using rejected by blast
  next
    case False
    let ?t = "if tenant = [] then ''default'' else tenant"
    let ?its = "new_items fresh bid ?t [] ds"
    show thesis
    proof (cases "find (same_request tenant feature key) (wd_batches db)")
      case (Some b)
      then have "create_batch now bid fresh tenant feature actor key ds config trigger db = (Inr (view b db, False), db)"
        using False unfolding create_batch_def Let_def r by simp
      then show thesis using Some by (rule replayed)
    next
      case None
      show thesis
      proof (cases "?its = []")
        case True
        then have "create_batch now bid fresh tenant feature actor key ds config trigger db = (Inl NoUniqueItem, db)"
          using False None unfolding create_batch_def Let_def r by simp
        then show thesis by (rule rejected)
      next
        case ne: False
        let ?b = "new_batch now bid ?t feature (py_strip key) actor ?its config trigger"
        have "create_batch now bid fresh tenant feature actor key ds config trigger db =
            (Inr (view ?b (db\<lparr>wd_batches := wd_batches db @ [?b], wd_items := wd_items db @ ?its\<rparr>), True),
             db\<lparr>wd_batches := wd_batches db @ [?b], wd_items := wd_items db @ ?its\<rparr>)"
          using False None ne unfolding create_batch_def Let_def r new_batch_def by simp
        then show thesis using None refl ne refl refl by (rule created)
      qed
    qed
  qed
qed

lemma items_of_append [simp]: "items_of b (xs @ ys) = items_of b xs @ items_of b ys"
  by (simp add: items_of_def)

lemma create_ok:
  assumes "work_ok db" "bid \<notin> ba_id ` set (wd_batches db)" "inj fresh" "range fresh \<inter> it_id ` set (wd_items db) = {}"
  shows "work_ok (snd (create_batch now bid fresh tenant feature actor key ds config trigger db))"
proof (cases rule: create_cases [of now bid fresh tenant feature actor key ds config trigger db])
  case (created its b db')
  have keys: "keys_ok db" and cnt: "counters_except {} db" and dr: "drained_except {} db"
    using assms(1) by (auto simp: work_ok_def)
  have f: "it_batch i = bid \<and> it_status i = ''queued''" if "i \<in> set its" for i
    using that created(3) new_items_fresh by simp
  have b: "ba_id b = bid" "\<not> ba_cancel_requested b" by (simp_all add: created(5) new_batch_def)
  have old: "it_batch i \<noteq> bid" if "i \<in> set (wd_items db)" for i
    using that keys assms(2) by (auto simp: keys_ok_def)
  have mine: "items_of bid (wd_items db) = []" "items_of bid its = its"
    using old f by (auto simp: items_of_def filter_empty_conv filter_id_conv)
  have others: "items_of x its = []" if "x \<noteq> bid" for x
    using f that by (auto simp: items_of_def filter_empty_conv)
  have "count_status st its = 0" if "st \<in> set TERMINAL" for st
    using f that running_not_terminal(2) by (auto simp: count_status_def filter_empty_conv)
  then have "batch_ok its b"
    using created(4) by (simp add: batch_ok_def created(5) new_batch_def tally_def TERMINAL_def)
  moreover have "batch_ok (items_of (ba_id x) (wd_items db')) x" if x: "x \<in> set (wd_batches db)" for x
  proof -
    have "ba_id x \<noteq> bid" using assms(2) x by blast
    then show ?thesis using cnt x others by (simp add: counters_except_def created(6))
  qed
  ultimately have "counters_except {} db'"
    using b mine by (auto simp: counters_except_def created(6))
  moreover have "drained_except {} db'"
  proof (rule drained_update [OF dr])
    fix i' assume "i' \<in> set (wd_items db')" "it_status i' = ''queued''"
    then consider "i' \<in> set (wd_items db)" | "it_batch i' = bid" using f by (auto simp: created(6))
    then show "(\<exists>i\<in>set (wd_items db). it_batch i = it_batch i' \<and> it_status i = ''queued'') \<or>
        (\<forall>b\<in>set (wd_batches db). ba_id b = it_batch i' \<longrightarrow> \<not> ba_cancel_requested b)"
      using \<open>it_status i' = ''queued''\<close> assms(2) by cases (blast, metis image_eqI)
  qed (use b in \<open>auto simp: created(6)\<close>)
  moreover have "keys_ok db'"
  proof -
    have "distinct (map it_id its)" using new_items_keys(1) [OF assms(3)] created(3) by simp
    moreover have "set (map it_id its) \<subseteq> range fresh"
      using new_items_keys(2) [OF assms(3)] unfolding created(3) by blast
    then have "set (map it_id its) \<inter> it_id ` set (wd_items db) = {}" using assms(4) by blast
    moreover have "it_batch ` set its \<subseteq> {bid}" using f by auto
    ultimately show ?thesis
      using keys assms(2) b(1) by (auto simp: keys_ok_def created(6))
  qed
  ultimately show ?thesis using created(1) by (simp add: work_ok_def)
qed (use assms(1) in simp_all)

text \<open>Recovery.\<close>

lemma settle_ok:
  assumes "keys_ok db" "counters_except (insert bid bids) db" "drained_except (insert bid bids) db"
  shows "keys_ok (settle_batch now bid db)" "counters_except bids (settle_batch now bid db)"
    "drained_except bids (settle_batch now bid db)"
proof -
  let ?f = "\<lambda>i. i\<lparr>it_status := ''cancelled'', it_ended := Some now, it_error := Some ''Cancelled before restart.''\<rparr>"
  let ?db1 = "db\<lparr>wd_items := update_rows (\<lambda>i. it_batch i = bid \<and> it_status i = ''queued'') ?f (wd_items db)\<rparr>"
  have "\<exists>db1. settle_batch now bid db = refresh_batch now bid db1 \<and> same_keys db db1 \<and>
      counters_except (insert bid bids) db1 \<and> drained_except bids db1"
  proof (cases "\<exists>b. get_batch_row bid db = Some b \<and> ba_cancel_requested b")
    case True
    then have "settle_batch now bid db = refresh_batch now bid ?db1" by (auto simp: settle_batch_def)
    moreover have "counters_except (insert bid bids) ?db1" "drained_except bids ?db1" "same_keys db ?db1"
      by (rule drop_queued [OF assms(2,3), where f = ?f]; simp)+
    ultimately show ?thesis by blast
  next
    case False
    then have "settle_batch now bid db = refresh_batch now bid db"
      by (auto simp: settle_batch_def split: option.splits)
    moreover have "drained_except bids db"
      using assms(3) False unfolding drained_except_def get_batch_row_iff [OF assms(1)] by blast
    ultimately show ?thesis using assms(2) same_keys_refl by blast
  qed
  then obtain db1 where "settle_batch now bid db = refresh_batch now bid db1" "same_keys db db1"
    "counters_except (insert bid bids) db1" "drained_except bids db1" by blast
  then show "keys_ok (settle_batch now bid db)" "counters_except bids (settle_batch now bid db)"
    "drained_except bids (settle_batch now bid db)"
    using same_keys_ok [OF same_keys_trans [OF _ same_keys_refresh] assms(1)] counters_refresh drained_refresh
    by auto
qed

lemma settle_all_ok:
  "keys_ok db \<Longrightarrow> counters_except (set bids) db \<Longrightarrow> drained_except (set bids) db \<Longrightarrow>
   work_ok (fold (settle_batch now) bids db)"
  by (induction bids arbitrary: db) (simp_all add: work_ok_def settle_ok)

lemma recover_ok:
  assumes "work_ok db"
  shows "work_ok (snd (recover_interrupted now owned_by db))"
proof -
  let ?hit = "recoverable now owned_by"
  let ?f = "\<lambda>i. release (i\<lparr>it_status := ''queued'', it_started := None, it_available := None, it_retryable := True,
     it_message := ''Requeued after worker interruption.'', it_error := Some ''Requeued after worker interruption.''\<rparr>)"
  let ?db1 = "db\<lparr>wd_items := update_rows ?hit ?f (wd_items db)\<rparr>"
  let ?bids = "remdups (map it_batch (filter ?hit (wd_items db)) @
            map ba_id (filter (\<lambda>b. ba_status b \<in> set ACTIVE \<and> ba_cancel_requested b) (wd_batches db)))"
  have keys: "keys_ok db" and cnt: "counters_except {} db" and dr: "drained_except {} db"
    using assms by (auto simp: work_ok_def)
  have n: "nudges db ?db1" by (rule nudgesI [OF refl]) (simp add: recoverable_def)
  have "keys_ok ?db1" by (rule same_keys_ok [OF nudges_keys [OF n] keys])
  moreover have "counters_except (set ?bids) ?db1"
    by (rule counters_mono [OF nudges_counters [OF n cnt]]) simp
  moreover have "drained_except (set ?bids) ?db1"
  proof (rule drained_update [OF drained_mono [OF dr]])
    fix i' assume i': "i' \<in> set (wd_items ?db1)" "it_status i' = ''queued''" "it_batch i' \<notin> set ?bids"
    from i'(1) have "i' \<in> set (update_rows ?hit ?f (wd_items db))" by simp
    then have "i' \<in> set (wd_items db)"
    proof (cases rule: update_rowsE)
      case (changed x)
      then have "it_batch x \<in> set ?bids" by simp
      with changed(3) i'(3) show ?thesis by simp
    qed
    then show "(\<exists>i\<in>set (wd_items db). it_batch i = it_batch i' \<and> it_status i = ''queued'') \<or>
        (\<forall>b\<in>set (wd_batches db). ba_id b = it_batch i' \<longrightarrow> \<not> ba_cancel_requested b)"
      using i'(2) by blast
  qed auto
  ultimately show ?thesis
    unfolding recover_interrupted_def Let_def snd_conv by (rule settle_all_ok)
qed

lemma work_step_ok: "work_step used db db' \<Longrightarrow> work_ok db \<Longrightarrow> work_ok db'"
proof (induction rule: work_step.induct)
  case create
  then show ?case by (intro create_ok)
next
  case finish
  show ?case by (rule settles_ok [OF finish_settles finish])
next
  case fail
  show ?case by (rule settles_ok [OF fail_settles fail])
next
  case external
  show ?case by (rule settles_ok [OF external_settles external])
next
  case progress
  then show ?case by (intro nudging_ok(2))
qed (erule cancel_ok delete_ok claim_ok recover_ok nudging_ok(1,3,4))+

lemma reachable_work_ok: "reachable_work db \<Longrightarrow> work_ok db"
proof (induction rule: reachable_work.induct)
  case start
  show ?case by (simp add: no_work_def work_ok_def keys_ok_def counters_except_def drained_except_def)
qed (rule work_step_ok)

end
