(* ===== verification/Batch_Safety.thy ===== *)
theory Batch_Safety
  imports Work_Batches
begin

text \<open>
  What the work batches of \<^verbatim>\<open>app/core/work_batches.py\<close> promise, over every interleaving of the
  transactions of \<open>Work_Batches\<close>: item leases are an instance of the fenced lease of \<open>Leases\<close>, claims respect
  the admission limits, a submission is idempotent, totals are exact, and a cancelled batch starts nothing.
\<close>

section \<open>Leases of items\<close>

definition holds_item :: "string \<Rightarrow> string \<times> string \<Rightarrow> work_db \<Rightarrow> bool" where
  "holds_item iid wt db \<longleftrightarrow> (\<exists>i\<in>set (wd_items db). it_id i = iid \<and> leased wt i)"

text \<open>The writes of a worker that carry its lease.\<close>

datatype item_update =
    Finish int item_result
  | Fail int string
  | External int item_result
  | Progress "int option" "int option" "string option" "string option" "string option"
  | Beat int
  | Set_Ref int string

fun item_write :: "item_update \<Rightarrow> string \<Rightarrow> string \<times> string \<Rightarrow> work_db \<Rightarrow> work_db" where
  "item_write (Finish now r) iid wt db = finish_item now wt iid r db"
| "item_write (Fail now m) iid wt db = fail_or_retry now wt iid m db"
| "item_write (External now r) iid wt db = complete_external_item now wt iid r db"
| "item_write (Progress cur tot m st res) iid wt db = update_progress wt iid cur tot m st res db"
| "item_write (Beat now) iid wt db = snd (beat_item now wt iid db)"
| "item_write (Set_Ref now ref) iid wt db = set_result_ref now wt iid ref db"

definition put_item :: "item_update \<Rightarrow> string \<Rightarrow> string \<times> string \<Rightarrow> work_db \<Rightarrow> work_db option" where
  "put_item w iid wt db = (let db' = item_write w iid wt db in if db' = db then None else Some db')"

lemma not_held_settles: "settles wt iid db db' \<Longrightarrow> \<not> holds_item iid wt db \<Longrightarrow> db' = db"
  unfolding settles_def holds_item_def by blast

lemma not_held_rows:
  assumes "\<not> holds_item iid wt db" "\<And>i. P i \<Longrightarrow> it_id i = iid \<and> leased wt i"
  shows "db\<lparr>wd_items := update_rows P f (wd_items db)\<rparr> = db"
proof -
  have "update_rows P f (wd_items db) = wd_items db"
    by (rule update_rows_none) (use assms in \<open>auto simp: holds_item_def\<close>)
  then show ?thesis by simp
qed

lemma not_held_write: "\<not> holds_item iid wt db \<Longrightarrow> item_write w iid wt db = db"
proof (cases w)
  case Finish
  then show "\<not> holds_item iid wt db \<Longrightarrow> ?thesis" using not_held_settles [OF finish_settles] by simp
next
  case Fail
  then show "\<not> holds_item iid wt db \<Longrightarrow> ?thesis" using not_held_settles [OF fail_settles] by simp
next
  case External
  then show "\<not> holds_item iid wt db \<Longrightarrow> ?thesis" using not_held_settles [OF external_settles] by simp
qed (simp_all add: update_progress_def beat_item_def set_result_ref_def Let_def not_held_rows)

text \<open>Only a claim makes a worker hold an item.\<close>

lemma kept_update:
  assumes "i' \<in> set (update_rows P f its)" "leased wt i'"
    and "\<And>i. P i \<Longrightarrow> leased wt (f i) \<Longrightarrow> it_id (f i) = it_id i \<and> leased wt i"
  shows "\<exists>i\<in>set its. it_id i = it_id i' \<and> leased wt i"
  using assms(1)
proof (cases rule: update_rowsE)
  case (changed x)
  then have "it_id (f x) = it_id x \<and> leased wt x" using assms(2,3) by blast
  with changed show ?thesis by metis
qed (use assms(2) in blast)

lemma kept_db:
  assumes "i' \<in> set (wd_items (db\<lparr>wd_items := update_rows P f (wd_items db)\<rparr>))" "leased wt i'"
    and "\<And>i. P i \<Longrightarrow> leased wt (f i) \<Longrightarrow> it_id (f i) = it_id i \<and> leased wt i"
  shows "\<exists>i\<in>set (wd_items db). it_id i = it_id i' \<and> leased wt i"
  by (rule kept_update [OF _ assms(2,3)]) (use assms(1) in simp_all)

lemma kept_settles:
  assumes "settles wt' iid db db'" "i' \<in> set (wd_items db')" "leased wt i'"
  shows "\<exists>i\<in>set (wd_items db). it_id i = it_id i' \<and> leased wt i"
proof (cases "db' = db")
  case False
  with assms(1) obtain j now where j: "db' = store_item now j db" "it_owner j = None" unfolding settles_def by blast
  have "i' \<in> set (update_rows (\<lambda>x. it_id x = it_id j) (\<lambda>_. j) (wd_items db))"
    using assms(2) by (simp add: j(1) store_item_def)
  then show ?thesis
    by (rule kept_update [OF _ assms(3)]) (use j(2) in \<open>simp add: leased_def\<close>)
qed (use assms in blast)

lemma settle_batch_items:
  assumes "i' \<in> set (wd_items (settle_batch now bid db))" "it_status i' \<noteq> ''cancelled''"
  shows "i' \<in> set (wd_items db)"
proof (cases "\<exists>b. get_batch_row bid db = Some b \<and> ba_cancel_requested b")
  case True
  let ?f = "\<lambda>i. i\<lparr>it_status := ''cancelled'', it_ended := Some now, it_error := Some ''Cancelled before restart.''\<rparr>"
  from True assms(1) have "i' \<in> set (update_rows (\<lambda>i. it_batch i = bid \<and> it_status i = ''queued'') ?f (wd_items db))"
    by (auto simp del: in_update_rows simp: settle_batch_def)
  then show ?thesis using assms(2) by (cases rule: update_rowsE) simp_all
next
  case False
  with assms(1) show ?thesis by (auto simp: settle_batch_def split: option.splits)
qed

lemma settle_all_items:
  "i' \<in> set (wd_items (fold (settle_batch now) bids db)) \<Longrightarrow> it_status i' \<noteq> ''cancelled'' \<Longrightarrow> i' \<in> set (wd_items db)"
  by (induction bids arbitrary: db) (auto dest: settle_batch_items)

lemma recover_items:
  assumes "i' \<in> set (wd_items (snd (recover_interrupted now owned_by db)))" "it_status i' = ''running''"
  shows "i' \<in> set (wd_items db)"
proof -
  let ?f = "\<lambda>i. release (i\<lparr>it_status := ''queued'', it_started := None, it_available := None, it_retryable := True,
     it_message := ''Requeued after worker interruption.'', it_error := Some ''Requeued after worker interruption.''\<rparr>)"
  have "i' \<in> set (update_rows (recoverable now owned_by) ?f (wd_items db))"
    using settle_all_items [OF assms(1) [unfolded recover_interrupted_def Let_def snd_conv]] assms(2) by simp
  then show ?thesis using assms(2) by (cases rule: update_rowsE) simp_all
qed

lemma leased_running: "leased wt i \<Longrightarrow> it_status i = ''running''"
  by (simp add: leased_def)

lemma cancel_items:
  assumes "i' \<in> set (wd_items (snd (cancel_batch now bid tenant db)))" "it_status i' \<noteq> ''cancelled''"
  shows "i' \<in> set (wd_items db)"
proof (cases "\<exists>b. get_batch_row bid db = Some b \<and> ba_tenant b = tenant \<and> ba_status b \<notin> set TERMINAL")
  case True
  let ?f = "\<lambda>i. i\<lparr>it_status := ''cancelled'', it_ended := Some now, it_message := ''Cancelled before start.'',
      it_error := Some ''Cancelled before start.''\<rparr>"
  from True assms(1) have "i' \<in> set (update_rows (\<lambda>i. it_batch i = bid \<and> it_status i = ''queued'') ?f (wd_items db))"
    by (auto simp del: in_update_rows simp: cancel_batch_def)
  then show ?thesis using assms(2) by (cases rule: update_rowsE) simp_all
qed (use assms(1) in \<open>auto simp: cancel_batch_def split: option.splits\<close>)

lemma delete_items: "i' \<in> set (wd_items (snd (delete_batch bid tenant db))) \<Longrightarrow> i' \<in> set (wd_items db)"
  by (auto simp: delete_batch_def split: option.splits if_splits)

lemma create_items:
  assumes "i' \<in> set (wd_items (snd (create_batch now bid fresh tenant feature actor key ds config trigger db)))"
  shows "i' \<in> set (wd_items db) \<or> it_status i' = ''queued'' \<and> it_batch i' = bid"
proof (cases rule: create_cases [of now bid fresh tenant feature actor key ds config trigger db])
  case (created its b db')
  then show ?thesis using assms new_items_fresh [of i' fresh bid] by auto
qed (use assms in auto)


text \<open>No step but a claim by \<open>wt\<close> itself makes \<open>wt\<close> hold an item.\<close>

lemma not_gained:
  assumes "work_step {wt} db db'" "i' \<in> set (wd_items db')" "leased wt i'"
  shows "\<exists>i\<in>set (wd_items db). it_id i = it_id i' \<and> leased wt i"
  using assms(1)
proof cases
  case create
  then show ?thesis using create_items [of i'] assms(2,3) leased_running [OF assms(3)] by fastforce
next
  case cancel
  then show ?thesis using cancel_items [of i'] assms(2,3) leased_running [OF assms(3)] by auto
next
  case delete
  then show ?thesis using delete_items assms(2,3) by blast
next
  case (claim wt' now)
  show ?thesis
  proof (cases rule: claim_cases [of now wt' db])
    case none
    then show ?thesis using claim(1) assms(2,3) by auto
  next
    case (claimed i b)
    have "i' \<in> set (update_rows (\<lambda>x. it_id x = it_id i \<and> item_claimable now x)
        (claimed_item now wt' (ba_feature b)) (wd_items db))"
      using assms(2) by (simp add: claim(1) claimed(9) del: in_update_rows)
    then show ?thesis
      by (rule kept_update [OF _ assms(3)]) (use claim(2) in \<open>auto simp: leased_def prod_eq_iff\<close>)
  qed
next
  case (siblings wt' now bid)
  show ?thesis
    by (rule kept_db [OF assms(2) [unfolded siblings(1) claim_siblings_def] assms(3)])
      (use siblings(2) in \<open>auto simp: leased_def prod_eq_iff\<close>)
next
  case (beat now wt' iid)
  show ?thesis
    by (rule kept_db [OF assms(2) [unfolded beat(1) beat_item_def Let_def snd_conv] assms(3)])
      (simp add: leased_def)
next
  case finish
  then show ?thesis using kept_settles [OF finish_settles] assms(2,3) by blast
next
  case fail
  then show ?thesis using kept_settles [OF fail_settles] assms(2,3) by blast
next
  case external
  then show ?thesis using kept_settles [OF external_settles] assms(2,3) by blast
next
  case (progress status wt' iid)
  show ?thesis
    by (rule kept_db [OF assms(2) [unfolded progress(1) update_progress_def] assms(3)])
      (simp add: leased_def)
next
  case set_ref
  show ?thesis
    by (rule kept_db [OF assms(2) [unfolded set_ref(1) set_result_ref_def] assms(3)])
      (simp add: leased_def)
next
  case recover
  then show ?thesis using recover_items assms(2,3) leased_running [OF assms(3)] by blast
qed

interpretation item_lease: fenced_lease work_ok holds_item put_item "\<lambda>wt. work_step {wt}"
proof
  show "\<not> holds_item k t s \<Longrightarrow> put_item w k t s = None" for k t s w
    by (simp add: put_item_def not_held_write)
  show "t = t'" if "work_ok s" and h: "holds_item k t s" "holds_item k t' s" for s k t t'
  proof -
    from h obtain i i' where i: "i \<in> set (wd_items s)" "it_id i = k" "leased t i"
      and i': "i' \<in> set (wd_items s)" "it_id i' = k" "leased t' i'" unfolding holds_item_def by blast
    have "i = i'" by (rule item_unique [OF _ i(1) i'(1)]) (use that(1) i(2) i'(2) in \<open>simp_all add: work_ok_def\<close>)
    then show "t = t'" using i(3) i'(3) by (simp add: leased_def prod_eq_iff)
  qed
  show "work_step {t} s s' \<Longrightarrow> \<not> holds_item k t s \<Longrightarrow> \<not> holds_item k t s'" for t s s' k
    using not_gained unfolding holds_item_def by metis
  show "work_step {t} s s' \<Longrightarrow> work_ok s \<Longrightarrow> work_ok s'" for t s s'
    by (rule work_step_ok)
qed

section \<open>Properties\<close>

lemma claim_holds:
  assumes "claim_next now wt db = (Some iid, db')"
  shows "holds_item iid wt db'"
proof (cases rule: claim_cases [of now wt db])
  case none
  then show ?thesis using assms by simp
next
  case (claimed i b)
  let ?i = "claimed_item now wt (ba_feature b) i"
  have "it_id i = iid" and db': "wd_items db' =
      update_rows (\<lambda>x. it_id x = it_id i \<and> item_claimable now x) (claimed_item now wt (ba_feature b)) (wd_items db)"
    using claimed(9) assms by auto
  moreover have "?i \<in> set (wd_items db')" unfolding db' using claimed(1,3) by auto
  moreover have "leased wt ?i" by (simp add: leased_def)
  ultimately show ?thesis unfolding holds_item_def by (intro bexI [of _ ?i]) simp_all
qed

text \<open>
  Lemma. Fencing. Once an item has been claimed under a new token, the worker that held it before,
  whatever transactions run in between, stores nothing: no result, no failure, no external completion, no
  progress, no result reference, and no lease renewal; each of its writes leaves the database as it is.
\<close>
lemma superseded_worker_is_fenced:
  assumes "reachable_work db" "claim_next now wt' db = (Some iid, db1)" "wt' \<noteq> wt" "(work_step {wt})\<^sup>*\<^sup>* db1 db2"
  shows "finish_item n wt iid r db2 = db2 \<and> fail_or_retry n wt iid m db2 = db2 \<and>
    complete_external_item n wt iid r db2 = db2 \<and> update_progress wt iid cur tot txt st res db2 = db2 \<and>
    set_result_ref n wt iid ref db2 = db2 \<and> beat_item n wt iid db2 = (False, db2)"
proof -
  have "work_ok db" by (rule reachable_work_ok [OF assms(1)])
  then have "work_ok db1" using claim_ok [of db now wt'] assms(2) by simp
  then have "\<not> holds_item iid wt db1"
    using item_lease.single [OF _ claim_holds [OF assms(2)]] assms(3) by blast
  then have lost: "\<not> holds_item iid wt db2" by (rule item_lease.lost_stays_lost [OF assms(4)])
  have "rowcount (\<lambda>i. it_id i = iid \<and> leased wt i) (wd_items db2) \<noteq> 1"
    using rowcount_1 lost unfolding holds_item_def by fast
  then have "beat_item n wt iid db2 = (False, db2)"
    using not_held_write [OF lost, of "Beat n"] by (simp add: beat_item_def Let_def)
  then show ?thesis
    using not_held_write [OF lost, of "Finish n r"] not_held_write [OF lost, of "Fail n m"]
      not_held_write [OF lost, of "External n r"] not_held_write [OF lost, of "Progress cur tot txt st res"]
      not_held_write [OF lost, of "Set_Ref n ref"] by simp
qed

text \<open>Replacing one element of a list without repetition changes a count by what that element adds.\<close>

lemma count_replaced:
  assumes "distinct xs" "i \<in> set xs" "\<not> Q i"
  shows "length (filter Q (map (\<lambda>x. if x = i then j else x) xs)) = length (filter Q xs) + (if Q j then 1 else 0)"
proof -
  have "{x. x = i} \<inter> set xs = {i}" using assms(2) by auto
  then have "length (filter (\<lambda>x. x = i) xs) = 1" using assms(1) by (simp add: distinct_length_filter)
  moreover have "length (filter Q (map (\<lambda>x. if x = i then j else x) ys)) =
      length (filter Q ys) + (if Q j then length (filter (\<lambda>x. x = i) ys) else 0)" for ys
    using assms(3) by (induction ys) auto
  ultimately show ?thesis by simp
qed

lemma claimed_items:
  assumes "keys_ok db" "i \<in> set (wd_items db)" "item_claimable now i"
  shows "update_rows (\<lambda>x. it_id x = it_id i \<and> item_claimable now x) f (wd_items db) =
    map (\<lambda>x. if x = i then f i else x) (wd_items db)"
  unfolding update_rows_def
proof (rule map_cong [OF refl])
  fix x assume "x \<in> set (wd_items db)"
  then have "it_id x = it_id i \<and> item_claimable now x \<longleftrightarrow> x = i"
    using item_unique [OF assms(1) _ assms(2)] assms(3) by blast
  then show "(if it_id x = it_id i \<and> item_claimable now x then f x else x) = (if x = i then f i else x)" by simp
qed

text \<open>
  Lemma. Admission. A claim starts an item only when its connection's lane was free and its
  feature had capacity, and afterwards the lane has exactly one live item and the feature at most as many as its
  limit; it is a new attempt of an item whose batch is active and not being cancelled.
\<close>
lemma claim_respects_limits:
  assumes "reachable_work db" "claim_next now wt db = (Some iid, db')"
  shows "\<exists>i i' f. i \<in> set (wd_items db) \<and> i' \<in> set (wd_items db') \<and> it_id i = iid \<and> it_id i' = iid \<and>
    leased wt i' \<and> live now i' \<and> it_attempt i' = it_attempt i + 1 \<and> item_claimable now i \<and>
    feature_of db' i' = Some f \<and> lane_count now (lane i') db = 0 \<and> lane_count now (lane i') db' = 1 \<and>
    feature_count now f db' \<le> feature_limit f"
proof (cases rule: claim_cases [of now wt db])
  case none
  then show ?thesis using assms(2) by simp
next
  case (claimed i b)
  have keys: "keys_ok db" using reachable_work_ok [OF assms(1)] by (simp add: work_ok_def)
  let ?i = "claimed_item now wt (ba_feature b) i"
  let ?P = "\<lambda>x. it_id x = it_id i \<and> item_claimable now x"
  let ?its = "update_rows ?P (claimed_item now wt (ba_feature b)) (wd_items db)"
  have iid: "iid = it_id i" and items: "wd_items db' = ?its" and
    batches: "wd_batches db' = update_rows (\<lambda>x. ba_id x = ba_id b)
      (\<lambda>x. x\<lparr>ba_status := ''running'', ba_started := or_now (ba_started x) now\<rparr>) (wd_batches db)"
    using claimed(9) assms(2) by auto
  have feat: "feature_of db' x = feature_of db x" for x
    unfolding feature_of_def get_batch_row_def batches
    by (subst find_update_rows) (auto simp: option.map_comp o_def intro!: option.map_cong0)
  have notlive: "\<not> live now i"
    using claimed(1,2,6) by (auto simp: lane_count_def filter_empty_conv feature_of_def)
  have "distinct (wd_items db)" using keys by (simp add: keys_ok_def distinct_map)
  note count = count_replaced [OF this claimed(1), of _ ?i, folded claimed_items [OF keys claimed(1,3)]]
  have live: "live now ?i" by (simp add: live_def LEASE_def)
  have same: "lane ?i = lane i" "feature_of db ?i = Some (ba_feature b)" "feature_of db i = Some (ba_feature b)"
    by (simp_all add: lane_def feature_of_def claimed(2))
  have lane: "lane_count now (lane ?i) db' = 1"
    using count [of "\<lambda>x. live now x \<and> feature_of db x \<noteq> None \<and> lane x = lane i"] notlive live same claimed(6)
    by (simp add: lane_count_def items feat)
  have "feature_count now (ba_feature b) db' = feature_count now (ba_feature b) db + 1"
    using count [of "\<lambda>x. live now x \<and> feature_of db x = Some (ba_feature b)"] notlive live same
    by (simp add: feature_count_def items feat)
  then have feature: "feature_count now (ba_feature b) db' \<le> feature_limit (ba_feature b)" using claimed(7) by simp
  have "?i \<in> set (wd_items db')" unfolding items using claimed(1,3) by auto
  moreover have "leased wt ?i" by (simp add: leased_def)
  ultimately show ?thesis
    using claimed(1,3,6) iid live lane feature same feat
    by (intro exI [of _ i] exI [of _ ?i] exI [of _ "ba_feature b"]) simp
qed

text \<open>
  C10. Exact totals. In every reachable state the counters of a batch are the numbers of its items in
  each outcome, and the batch is in a terminal state exactly when it has items and all of them are.
\<close>
theorem batch_totals_are_exact:
  assumes "reachable_work db" "b \<in> set (wd_batches db)" "its = items_of (ba_id b) (wd_items db)"
  shows "ba_total b = length its \<and> ba_succeeded b = count_status ''succeeded'' its \<and>
    ba_partial b = count_status ''partial'' its \<and> ba_failed b = count_status ''failed'' its \<and>
    ba_cancelled b = count_status ''cancelled'' its \<and>
    (ba_status b \<in> set TERMINAL \<longleftrightarrow> its \<noteq> [] \<and> (\<forall>i\<in>set its. it_status i \<in> set TERMINAL))"
proof -
  have ok: "batch_ok its b"
    using reachable_work_ok [OF assms(1)] assms(2,3) by (simp add: work_ok_def counters_except_def)
  have sum: "count_status ''succeeded'' xs + count_status ''partial'' xs + count_status ''failed'' xs +
      count_status ''cancelled'' xs = length (filter (\<lambda>i. it_status i \<in> set TERMINAL) xs)" for xs
    by (induction xs) (auto simp: count_status_def TERMINAL_def)
  have "length (filter (\<lambda>i. it_status i \<in> set TERMINAL) its) = length its \<longleftrightarrow> (\<forall>i\<in>set its. it_status i \<in> set TERMINAL)"
    by (metis filter_True filter_id_conv length_filter_less nat_less_le)
  with ok sum [of its] show ?thesis by (simp add: batch_ok_def tally_def)
qed

text \<open>Submissions.\<close>

definition requests :: "work_db \<Rightarrow> (string \<times> string \<times> string \<times> string) list" where
  "requests db = map (\<lambda>b. (ba_id b, ba_tenant b, ba_feature b, ba_key b)) (wd_batches db)"

definition requests_ok :: "work_db \<Rightarrow> bool" where
  "requests_ok db \<longleftrightarrow> distinct (map snd (requests db)) \<and>
     (\<forall>(i, t, f, k)\<in>set (requests db). t \<noteq> [] \<and> f \<in> set FEATURES \<and> k \<noteq> [] \<and> length k \<le> 128)"

definition keeps_request :: "(batch \<Rightarrow> batch) \<Rightarrow> bool" where
  "keeps_request g \<longleftrightarrow> (\<forall>b. ba_id (g b) = ba_id b \<and> ba_tenant (g b) = ba_tenant b \<and> ba_feature (g b) = ba_feature b \<and>
     ba_key (g b) = ba_key b)"

lemma requests_update:
  assumes "keeps_request g" "wd_batches db' = update_rows Q g (wd_batches db)"
  shows "requests db' = requests db"
  using assms by (simp add: requests_def update_rows_def keeps_request_def)

lemma keeps_request [simp]:
  "keeps_request (refreshed now its)" "keeps_request (\<lambda>b. b\<lparr>ba_cancel_requested := True\<rparr>)"
  "keeps_request (\<lambda>b. b\<lparr>ba_status := ''running'', ba_started := or_now (ba_started b) now\<rparr>)"
  by (simp_all add: keeps_request_def refreshed_def Let_def)

lemma requests_items [simp]: "requests (db\<lparr>wd_items := its\<rparr>) = requests db"
  by (simp add: requests_def)

lemma requests_refresh [simp]: "requests (refresh_batch now bid db) = requests db"
  by (rule requests_update [OF keeps_request(1)]) (simp add: refresh_batch_def)

lemma requests_settle [simp]: "requests (settle_batch now bid db) = requests db"
  by (simp add: settle_batch_def Let_def)

lemma requests_settle_all [simp]: "requests (fold (settle_batch now) bids db) = requests db"
  by (induction bids arbitrary: db) simp_all

lemma requests_settles: "settles wt iid db db' \<Longrightarrow> requests db' = requests db"
  unfolding settles_def store_item_def by auto

lemma create_valid:
  "create_batch now bid fresh tenant feature actor key ds config trigger db = (Inr r, db') \<Longrightarrow>
   feature \<in> set FEATURES \<and> py_strip key \<noteq> [] \<and> length (py_strip key) \<le> 128 \<and> ds \<noteq> []"
  by (auto simp: create_batch_def Let_def split: if_splits)

lemma create_requests:
  assumes "requests_ok db"
  shows "requests_ok (snd (create_batch now bid fresh tenant feature actor key ds config trigger db))"
proof (cases rule: create_cases [of now bid fresh tenant feature actor key ds config trigger db])
  case (created its b db')
  have "\<not> same_request tenant feature key x" if "x \<in> set (wd_batches db)" for x
    using created(2) that by (auto simp: find_None_iff)
  then have "(ba_tenant x, ba_feature x, ba_key x) \<noteq> (ba_tenant b, ba_feature b, ba_key b)"
    if "x \<in> set (wd_batches db)" for x
    using that by (simp add: same_request_def created(5) new_batch_def)
  then have "snd (ba_id b, ba_tenant b, ba_feature b, ba_key b) \<notin> snd ` set (requests db)"
    unfolding requests_def by force
  moreover have "requests db' = requests db @ [(ba_id b, ba_tenant b, ba_feature b, ba_key b)]"
    by (simp add: requests_def created(6))
  ultimately show ?thesis
    using assms create_valid [OF created(1)] created(1)
    by (auto simp: requests_ok_def created(5) new_batch_def)
qed (use assms in simp_all)

lemma delete_requests: "requests_ok db \<Longrightarrow> requests_ok (snd (delete_batch bid tenant db))"
  by (auto simp: delete_batch_def requests_ok_def requests_def distinct_map_filter o_def split: option.splits)

lemma claim_requests [simp]: "requests (snd (claim_next now wt db)) = requests db"
proof (cases rule: claim_cases [of now wt db])
  case (claimed i b)
  show ?thesis by (rule requests_update [OF keeps_request(3)]) (simp add: claimed(9))
qed simp

lemma cancel_requests [simp]: "requests (snd (cancel_batch now bid tenant db)) = requests db"
proof -
  have "requests (db\<lparr>wd_batches := update_rows (\<lambda>b. ba_id b = bid) (\<lambda>b. b\<lparr>ba_cancel_requested := True\<rparr>) (wd_batches db),
      wd_items := its\<rparr>) = requests db" for its
    by (rule requests_update [OF keeps_request(2)]) simp
  then show ?thesis by (simp add: cancel_batch_def split: option.splits)
qed

lemma step_requests: "work_step used db db' \<Longrightarrow> requests_ok db \<Longrightarrow> requests_ok db'"
proof (induction rule: work_step.induct)
  case create
  show ?case by (rule create_requests [OF create(4)])
next
  case delete
  then show ?case by (rule delete_requests)
qed (simp_all add: requests_ok_def requests_settles [OF finish_settles] requests_settles [OF fail_settles]
    requests_settles [OF external_settles] claim_siblings_def beat_item_def update_progress_def set_result_ref_def
    recover_interrupted_def Let_def)

lemma reachable_requests_ok: "reachable_work db \<Longrightarrow> requests_ok db"
proof (induction rule: reachable_work.induct)
  case start
  show ?case by (simp add: no_work_def requests_ok_def requests_def)
qed (rule step_requests)

text \<open>
  Lemma. Submitting is idempotent. In every reachable state, a request whose tenant, feature
  and idempotency key are those of a batch is answered with that batch and its items as they now are, whatever
  items, actor or configuration it carries, and nothing is stored.
\<close>
lemma resubmission_is_idempotent:
  assumes "reachable_work db" "b \<in> set (wd_batches db)" "py_strip key = ba_key b" "ds \<noteq> []"
  shows "create_batch now bid fresh (ba_tenant b) (ba_feature b) actor key ds config trigger db = (Inr (view b db, False), db)"
proof -
  note ok = reachable_requests_ok [OF assms(1), unfolded requests_ok_def]
  have valid: "ba_tenant b \<noteq> []" "ba_feature b \<in> set FEATURES" "ba_key b \<noteq> []" "length (ba_key b) \<le> 128"
    using ok assms(2) by (auto simp: requests_def)
  have same: "same_request (ba_tenant b) (ba_feature b) key b"
    using valid(1) assms(3) by (simp add: same_request_def)
  have "x = b" if "x \<in> set (wd_batches db)" "same_request (ba_tenant b) (ba_feature b) key x" for x
  proof (rule unique_row [of "\<lambda>b. (ba_tenant b, ba_feature b, ba_key b)", OF _ that(1) assms(2)])
    show "distinct (map (\<lambda>b. (ba_tenant b, ba_feature b, ba_key b)) (wd_batches db))"
      using ok by (simp add: requests_def o_def)
  qed (use that(2) valid(1) assms(3) in \<open>simp add: same_request_def\<close>)
  moreover obtain x where "find (same_request (ba_tenant b) (ba_feature b) key) (wd_batches db) = Some x"
    using find_Some_ex [of "same_request (ba_tenant b) (ba_feature b) key" "wd_batches db"] assms(2) same by metis
  ultimately have "find (same_request (ba_tenant b) (ba_feature b) key) (wd_batches db) = Some b"
    using find_SomeD by metis
  moreover have "(\<lambda>x. ba_tenant x = ba_tenant b \<and> ba_feature x = ba_feature b \<and> ba_key x = ba_key b) =
      same_request (ba_tenant b) (ba_feature b) key"
    using valid(1) assms(3) by (simp add: same_request_def fun_eq_iff)
  ultimately show ?thesis
    using valid assms(3,4) by (simp add: create_batch_def)
qed

text \<open>Cancellation.\<close>

definition attempts :: "work_db \<Rightarrow> (string \<times> string \<times> int) set" where
  "attempts db = (\<lambda>i. (it_id i, it_batch i, it_attempt i)) ` set (wd_items db)"

definition cancelled :: "string \<Rightarrow> work_db \<Rightarrow> bool" where
  "cancelled bid db \<longleftrightarrow> (\<exists>b\<in>set (wd_batches db). ba_id b = bid \<and> ba_cancel_requested b)"

lemma attempts_update:
  assumes "wd_items db' = update_rows P f (wd_items db)"
    and "\<And>i. i \<in> set (wd_items db) \<Longrightarrow> P i \<Longrightarrow> it_id (f i) = it_id i \<and> it_batch (f i) = it_batch i \<and> it_attempt (f i) = it_attempt i"
  shows "attempts db' = attempts db"
proof -
  have "map (\<lambda>i. (it_id i, it_batch i, it_attempt i)) (wd_items db') = map (\<lambda>i. (it_id i, it_batch i, it_attempt i)) (wd_items db)"
    using assms by (simp add: update_rows_def)
  from arg_cong [OF this, of set] show ?thesis by (simp add: attempts_def)
qed

lemma attempts_refresh [simp]: "attempts (refresh_batch now bid db) = attempts db"
  by (simp add: attempts_def)

lemma attempts_settle [simp]: "attempts (settle_batch now bid db) = attempts db"
proof -
  let ?f = "\<lambda>i. i\<lparr>it_status := ''cancelled'', it_ended := Some now, it_error := Some ''Cancelled before restart.''\<rparr>"
  have "attempts (db\<lparr>wd_items := update_rows P ?f (wd_items db)\<rparr>) = attempts db" for P
    by (rule attempts_update [where P = P and f = ?f]) simp_all
  then show ?thesis by (simp add: settle_batch_def Let_def)
qed

lemma attempts_settle_all [simp]: "attempts (fold (settle_batch now) bids db) = attempts db"
  by (induction bids arbitrary: db) simp_all

lemma attempts_settles:
  assumes "settles wt iid db db'" "keys_ok db"
  shows "attempts db' = attempts db"
proof (cases "db' = db")
  case False
  with assms(1) obtain i i' now where i: "i \<in> set (wd_items db)" "db' = store_item now i' db"
      "it_id i' = it_id i" "it_batch i' = it_batch i" "it_attempt i' = it_attempt i" unfolding settles_def by blast
  show ?thesis
  proof (rule attempts_update [where P = "\<lambda>x. it_id x = it_id i'" and f = "\<lambda>_. i'"])
    fix x assume "x \<in> set (wd_items db)" "it_id x = it_id i'"
    then have "x = i" by (intro item_unique [OF assms(2) _ i(1)]) (simp_all add: i(3))
    then show "it_id i' = it_id x \<and> it_batch i' = it_batch x \<and> it_attempt i' = it_attempt x"
      using i(3-5) by (simp only: simp_thms)
  next
    show "wd_items db' = update_rows (\<lambda>x. it_id x = it_id i') (\<lambda>_. i') (wd_items db)"
      unfolding i(2) store_item_def refresh_sel by simp
  qed
qed simp

lemma attempts_cancel [simp]: "attempts (snd (cancel_batch now bid tenant db)) = attempts db"
proof -
  let ?f = "\<lambda>i. i\<lparr>it_status := ''cancelled'', it_ended := Some now, it_message := ''Cancelled before start.'',
      it_error := Some ''Cancelled before start.''\<rparr>"
  have "attempts (db\<lparr>wd_batches := bs, wd_items := update_rows P ?f (wd_items db)\<rparr>) = attempts db" for P bs
    by (rule attempts_update [where P = P and f = ?f]) simp_all
  then show ?thesis by (simp add: cancel_batch_def split: option.splits)
qed

lemma attempts_kept:
  "attempts (snd (beat_item now wt iid db)) = attempts db"
  "attempts (update_progress wt iid cur tot m st res db) = attempts db"
  "attempts (set_result_ref now wt iid ref db) = attempts db"
  "attempts (snd (recover_interrupted now owned_by db)) = attempts db"
  unfolding beat_item_def update_progress_def set_result_ref_def recover_interrupted_def Let_def snd_conv attempts_settle_all
  by (rule attempts_update, simp, simp)+

text \<open>In a cancelled batch no step starts an attempt.\<close>

lemma cancelled_attempts:
  assumes "work_step used db db'" "work_ok db" "cancelled bid db" "(i, bid, a) \<in> attempts db'"
  shows "(i, bid, a) \<in> attempts db"
proof -
  have keys: "keys_ok db" and dr: "drained_except {} db" using assms(2) by (auto simp: work_ok_def)
  obtain c where c: "c \<in> set (wd_batches db)" "ba_id c = bid" "ba_cancel_requested c"
    using assms(3) by (auto simp: cancelled_def)
  from assms(4) obtain i' where i': "i' \<in> set (wd_items db')" "(i, bid, a) = (it_id i', it_batch i', it_attempt i')"
    unfolding attempts_def by blast
  have kept: ?thesis if "i' \<in> set (wd_items db)" using that i'(2) unfolding attempts_def by auto
  from assms(1) show ?thesis
  proof (cases rule: work_step.cases)
    case (create bid' fresh)
    have "i' \<in> set (wd_items db) \<or> it_batch i' = bid'" using create_items [OF i'(1) [unfolded create(1)]] by blast
    moreover have "ba_id c \<in> ba_id ` set (wd_batches db)" using c(1) by (rule imageI)
    then have "bid \<noteq> bid'" using create(2) c(2) by metis
    moreover have "it_batch i' = bid" using i'(2) by simp
    ultimately have "i' \<in> set (wd_items db)" by metis
    then show ?thesis by (rule kept)
  next
    case delete
    show ?thesis by (rule kept [OF delete_items [OF i'(1) [unfolded delete(1)]]])
  next
    case (claim wt now)
    show ?thesis
    proof (cases rule: claim_cases [of now wt db])
      case none
      then show ?thesis using claim(1) assms(4) by simp
    next
      case (claimed j b)
      have "i' \<in> set (update_rows (\<lambda>x. it_id x = it_id j \<and> item_claimable now x) (claimed_item now wt (ba_feature b)) (wd_items db))"
        using i'(1) by (simp add: claim(1) claimed(9) del: in_update_rows)
      then show ?thesis
      proof (cases rule: update_rowsE)
        case kept
        then show ?thesis by (intro \<open>i' \<in> set (wd_items db) \<Longrightarrow> ?thesis\<close>)
      next
        case (changed x)
        then have "x = j" by (intro item_unique [OF keys _ claimed(1)]) simp_all
        then have "it_batch j = bid" using changed(3) i'(2) by simp
        then have "get_batch_row (it_batch j) db = Some c" using c by (simp add: get_batch_row_iff [OF keys])
        then show ?thesis using claimed(2,5) c(3) by simp
      qed
    qed
  next
    case (siblings wt now bid')
    let ?f = "\<lambda>i. i\<lparr>it_status := ''running'', it_attempt := it_attempt i + 1, it_started := Some now, it_ended := None,
          it_available := None, it_owner := Some (fst wt), it_token := Some (snd wt), it_lease := Some (now + LEASE)\<rparr>"
    have "i' \<in> set (update_rows (\<lambda>i. it_batch i = bid' \<and> it_status i = ''queued'' \<and> item_expired now i) ?f (wd_items db))"
      using i'(1) by (simp add: siblings(1) claim_siblings_def del: in_update_rows)
    then show ?thesis
    proof (cases rule: update_rowsE)
      case kept
      then show ?thesis by (intro \<open>i' \<in> set (wd_items db) \<Longrightarrow> ?thesis\<close>)
    next
      case (changed x)
      then have "it_batch x = ba_id c" using i'(2) c(2) by simp
      then have "it_status x \<noteq> ''queued''" using drainedD [OF dr c(1,3) _ changed(1)] by simp
      with changed(2) show ?thesis by simp
    qed
  next
    case finish
    then show ?thesis using attempts_settles [OF finish_settles keys] assms(4) by simp
  next
    case fail
    then show ?thesis using attempts_settles [OF fail_settles keys] assms(4) by simp
  next
    case external
    then show ?thesis using attempts_settles [OF external_settles keys] assms(4) by simp
  qed (use assms(4) attempts_kept in simp_all)
qed

definition keeps_flag :: "(batch \<Rightarrow> batch) \<Rightarrow> bool" where
  "keeps_flag g \<longleftrightarrow> (\<forall>b. ba_id (g b) = ba_id b \<and> (ba_cancel_requested b \<longrightarrow> ba_cancel_requested (g b)))"

lemma keeps_flag [simp]:
  "keeps_flag (refreshed now its)" "keeps_flag (\<lambda>b. b\<lparr>ba_cancel_requested := True\<rparr>)"
  "keeps_flag (\<lambda>b. b\<lparr>ba_status := ''running'', ba_started := or_now (ba_started b) now\<rparr>)"
  by (simp_all add: keeps_flag_def)

lemma cancelled_update:
  assumes "keeps_flag g" "wd_batches db' = update_rows Q g (wd_batches db)" "cancelled bid db"
  shows "cancelled bid db'"
proof -
  from assms(3) obtain b where b: "b \<in> set (wd_batches db)" "ba_id b = bid" "ba_cancel_requested b"
    unfolding cancelled_def by blast
  have "(if Q b then g b else b) \<in> set (wd_batches db')" unfolding assms(2) in_update_rows using b(1) by blast
  then show ?thesis unfolding cancelled_def by (rule bexI [rotated]) (use assms(1) b in \<open>simp add: keeps_flag_def\<close>)
qed

lemma cancelled_refresh: "cancelled bid db \<Longrightarrow> cancelled bid (refresh_batch now bid' db)"
  by (rule cancelled_update [OF keeps_flag(1)]) (simp add: refresh_batch_def)

lemma cancelled_items [simp]: "cancelled bid (db\<lparr>wd_items := its\<rparr>) = cancelled bid db"
  by (simp add: cancelled_def)

lemma cancelled_settles: "settles wt iid db db' \<Longrightarrow> cancelled bid db \<Longrightarrow> cancelled bid db'"
  unfolding settles_def store_item_def by (auto intro: cancelled_refresh)

lemma cancelled_settle: "cancelled bid db \<Longrightarrow> cancelled bid (settle_batch now bid' db)"
  by (simp add: settle_batch_def Let_def cancelled_refresh)

lemma cancelled_settle_all: "cancelled bid db \<Longrightarrow> cancelled bid (fold (settle_batch now) bids db)"
  by (induction bids arbitrary: db) (simp_all add: cancelled_settle)

lemma cancelled_cancel:
  assumes "cancelled bid db"
  shows "cancelled bid (snd (cancel_batch now bid' tenant db))"
proof -
  have "cancelled bid (db\<lparr>wd_batches := update_rows Q (\<lambda>b. b\<lparr>ba_cancel_requested := True\<rparr>) (wd_batches db), wd_items := its\<rparr>)" for Q its
    by (rule cancelled_update [OF keeps_flag(2) _ assms]) simp
  then show ?thesis using assms by (simp add: cancel_batch_def cancelled_refresh split: option.splits)
qed

lemma cancelled_claim:
  assumes "cancelled bid db"
  shows "cancelled bid (snd (claim_next now wt db))"
proof (cases rule: claim_cases [of now wt db])
  case (claimed i b)
  show ?thesis by (rule cancelled_update [OF keeps_flag(3) _ assms]) (simp add: claimed(9))
qed (use assms in simp)

lemma cancelled_create:
  assumes "cancelled bid db"
  shows "cancelled bid (snd (create_batch now bid' fresh tenant feature actor key ds config trigger db))"
  by (cases rule: create_cases [of now bid' fresh tenant feature actor key ds config trigger db])
    (use assms in \<open>auto simp: cancelled_def\<close>)

lemma cancelled_delete:
  assumes "cancelled bid db" "bid \<in> ba_id ` set (wd_batches (snd (delete_batch bid' tenant db)))"
  shows "cancelled bid (snd (delete_batch bid' tenant db))"
  using assms by (auto simp: delete_batch_def cancelled_def split: option.splits if_splits)

lemma cancelled_stays:
  "work_step used db db' \<Longrightarrow> cancelled bid db \<Longrightarrow> bid \<in> ba_id ` set (wd_batches db') \<Longrightarrow> cancelled bid db'"
proof (induction rule: work_step.induct)
  case delete
  then show ?case by (intro cancelled_delete)
qed (simp_all add: cancelled_create cancelled_cancel cancelled_claim cancelled_settles [OF finish_settles]
    cancelled_settles [OF fail_settles] cancelled_settles [OF external_settles] cancelled_settle_all
    claim_siblings_def beat_item_def update_progress_def set_result_ref_def recover_interrupted_def Let_def)

lemma cancel_flags: "cancel_batch now bid tenant db = (True, db') \<Longrightarrow> cancelled bid db'"
proof -
  assume c: "cancel_batch now bid tenant db = (True, db')"
  then obtain b where b: "get_batch_row bid db = Some b" "ba_tenant b = tenant" "ba_status b \<notin> set TERMINAL"
    by (auto simp: cancel_batch_def split: option.splits if_splits)
  have "cancelled bid (db\<lparr>wd_batches := update_rows (\<lambda>b. ba_id b = bid) (\<lambda>b. b\<lparr>ba_cancel_requested := True\<rparr>) (wd_batches db),
      wd_items := its\<rparr>)" for its
    using get_batch_rowD [OF b(1)] by (auto simp: cancelled_def bex_update_rows)
  then show ?thesis using c b by (auto simp: cancel_batch_def intro: cancelled_refresh)
qed

text \<open>
  Lemma. A cancelled batch starts nothing. From the accepted cancellation on, for as long as the batch
  exists and whatever transactions run, none of its items is queued and none begins another attempt: every item
  has the attempt number it had when the batch was cancelled.
\<close>
lemma cancelled_batch_starts_nothing:
  assumes "reachable_work db" "cancel_batch now bid tenant db = (True, db1)"
    and "(\<lambda>x y. work_step {} x y \<and> bid \<in> ba_id ` set (wd_batches y))\<^sup>*\<^sup>* db1 db2"
    and "i \<in> set (wd_items db2)" "it_batch i = bid"
  shows "it_status i \<noteq> ''queued'' \<and>
    (\<exists>i1\<in>set (wd_items db1). it_id i1 = it_id i \<and> it_batch i1 = bid \<and> it_attempt i1 = it_attempt i)"
proof -
  have "work_ok db" by (rule reachable_work_ok [OF assms(1)])
  then have ok: "work_ok db1" using cancel_ok [of db now bid tenant] assms(2) by simp
  from assms(3) have *: "work_ok db2 \<and> cancelled bid db2 \<and> (\<forall>k a. (k, bid, a) \<in> attempts db2 \<longrightarrow> (k, bid, a) \<in> attempts db1)"
  proof (induction rule: rtranclp_induct)
    case base
    then show ?case using ok cancel_flags [OF assms(2)] by blast
  next
    case (step y z)
    then show ?case using work_step_ok cancelled_stays cancelled_attempts by metis
  qed
  obtain b where "b \<in> set (wd_batches db2)" "ba_id b = bid" "ba_cancel_requested b"
    using * by (auto simp: cancelled_def)
  then have "it_status i \<noteq> ''queued''"
    using * assms(4,5) drainedD [of "{}" db2 b i] by (simp add: work_ok_def)
  moreover have "(it_id i, bid, it_attempt i) \<in> attempts db1"
    using * assms(4,5) unfolding attempts_def by blast
  ultimately show ?thesis unfolding attempts_def by auto
qed

section \<open>Examples\<close>

definition example_fresh :: "string \<Rightarrow> string \<Rightarrow> string" where
  "example_fresh bid key = bid @ ''/'' @ key"

definition example_descriptor :: "string \<Rightarrow> descriptor" where
  "example_descriptor key = \<lparr>de_key = Some key, de_workload = None, de_workload_name = None, de_name = None,
     de_conn = Some ''c'', de_max = None, de_result = None\<rparr>"

definition example_submit :: "string \<Rightarrow> string \<Rightarrow> work_db \<Rightarrow> (submit_error, batch_view \<times> bool) result \<times> work_db" where
  "example_submit bid key db = create_batch 0 bid (example_fresh bid) ''t'' ''mission'' ''u'' key
     [example_descriptor ''x'', example_descriptor ''y''] ''{}'' ''manual'' db"

definition example_w1 :: "string \<times> string" where
  "example_w1 = (''w1'', ''t1'')"

definition example_w2 :: "string \<times> string" where
  "example_w2 = (''w2'', ''t2'')"

text \<open>One batch; its first item claimed by the first worker.\<close>

definition example_submitted :: work_db where
  "example_submitted = snd (example_submit ''b1'' ''k1'' no_work)"

definition example_claimed :: work_db where
  "example_claimed = snd (claim_next 0 example_w1 example_submitted)"

lemma inj_example_fresh: "inj (example_fresh bid)"
  by (simp add: inj_def example_fresh_def)

lemma example_reachable: "reachable_work example_submitted" "reachable_work example_claimed"
proof -
  show s: "reachable_work example_submitted"
    unfolding example_submitted_def example_submit_def
    by (rule reachable_work.step [OF reachable_work.start work_step.create])
      (simp_all add: inj_example_fresh no_work_def)
  show "reachable_work example_claimed"
    unfolding example_claimed_def by (rule reachable_work.step [OF s work_step.claim]) simp
qed

lemma example_claims:
  "fst (claim_next 0 example_w1 example_submitted) = Some ''b1/x''"
  "fst (claim_next 60000000 example_w2 example_claimed) = Some ''b1/x''"
  by code_simp+

lemma superseded_worker_is_fenced_witness:
  "\<exists>db1. claim_next 60000000 example_w2 example_claimed = (Some ''b1/x'', db1) \<and>
     fail_or_retry 60000001 example_w1 ''b1/x'' ''boom'' db1 = db1"
proof -
  obtain db1 where c: "claim_next 60000000 example_w2 example_claimed = (Some ''b1/x'', db1)"
    using example_claims(2) by (metis prod.collapse)
  have "example_w2 \<noteq> example_w1" by (simp add: example_w1_def example_w2_def)
  from superseded_worker_is_fenced [OF example_reachable(2) c this rtranclp.rtrancl_refl] c show ?thesis by blast
qed

lemma claim_respects_limits_witness:
  "\<exists>db' i'. claim_next 0 example_w1 example_submitted = (Some ''b1/x'', db') \<and> lane_count 0 (lane i') db' = 1"
proof -
  obtain db' where c: "claim_next 0 example_w1 example_submitted = (Some ''b1/x'', db')"
    using example_claims(1) by (metis prod.collapse)
  from claim_respects_limits [OF example_reachable(1) c] c show ?thesis by blast
qed

lemma example_batch: "\<exists>b\<in>set (wd_batches example_claimed). ba_id b = ''b1'' \<and> ba_tenant b = ''t'' \<and>
   ba_feature b = ''mission'' \<and> ba_key b = ''k1'' \<and> ba_total b = 2"
  by code_simp

theorem batch_totals_are_exact_witness:
  "\<exists>b\<in>set (wd_batches example_claimed). length (items_of (ba_id b) (wd_items example_claimed)) = 2"
proof -
  obtain b where b: "b \<in> set (wd_batches example_claimed)" "ba_total b = 2" using example_batch by blast
  from batch_totals_are_exact [OF example_reachable(2) b(1) refl] b show ?thesis by metis
qed

lemma resubmission_is_idempotent_witness:
  "\<exists>b. create_batch 5 ''b9'' (example_fresh ''b9'') ''t'' ''mission'' ''v'' ''k1 '' [example_descriptor ''z''] ''{}'' ''manual''
     example_claimed = (Inr (view b example_claimed, False), example_claimed)"
proof -
  obtain b where b: "b \<in> set (wd_batches example_claimed)" "ba_tenant b = ''t''" "ba_feature b = ''mission''" "ba_key b = ''k1''"
    using example_batch by blast
  have "py_strip ''k1 '' = ba_key b" unfolding b(4) by code_simp
  from resubmission_is_idempotent [OF example_reachable(2) b(1) this, of "[example_descriptor ''z'']"] b show ?thesis
    by (intro exI [of _ b]) simp
qed

lemma cancelled_batch_starts_nothing_witness:
  "\<exists>db1. cancel_batch 1 ''b1'' ''t'' example_claimed = (True, db1) \<and>
     (\<forall>i\<in>set (wd_items db1). it_batch i = ''b1'' \<longrightarrow> it_status i \<noteq> ''queued'')"
proof -
  have "fst (cancel_batch 1 ''b1'' ''t'' example_claimed) = True" by code_simp
  then obtain db1 where c: "cancel_batch 1 ''b1'' ''t'' example_claimed = (True, db1)" by (metis prod.collapse)
  from cancelled_batch_starts_nothing [OF example_reachable(2) c rtranclp.rtrancl_refl] c show ?thesis by blast
qed

text \<open>
  The renewal of a lease does not ask whether the lease still runs. A worker that stalled past its lease can
  therefore renew it after another item of the same lane has been admitted, and the lane has two live items.
\<close>

definition example_two :: work_db where
  "example_two = snd (cancel_batch 1 ''b1'' ''t'' (snd (example_submit ''b2'' ''k2'' example_claimed)))"

lemma expired_lease_can_be_revived:
  "let db = snd (claim_next 60000000 example_w2 example_two);
       db' = snd (beat_item 60000001 example_w1 ''b1/x'' db)
   in lane_count 60000001 (''t'', ''c'') db = 1 \<and> lane_count 60000001 (''t'', ''c'') db' = 2"
  by code_simp

end
