(* ===== verification/Ca_Taxonomy.thy ===== *)
theory Ca_Taxonomy
  imports Prelude "HOL-Library.AList"
begin

text \<open>
  Application classes of Conditional Access coverage, \<^verbatim>\<open>app/entra/ca_taxonomy.py\<close>: indexing the
  tenant's service principals into the classes of the taxonomy document, and resolving which classes
  a policy's targets reach. The document (\<^verbatim>\<open>app/entra/data/app_classes.v1.json\<close>) is an argument. Dictionaries that
  are iterated are association lists; lists that the code sorts only for a stable export are sets.
\<close>

section \<open>The policy as collected\<close>

record conditions =
  cn_include_users :: "string list"
  cn_exclude_users :: "string list"
  cn_include_groups :: "string list"
  cn_exclude_groups :: "string list"
  cn_include_roles :: "string list"
  cn_exclude_roles :: "string list"
  cn_include_guests :: "string list"
  cn_exclude_guests :: "string list"
  cn_include_apps :: "string list"
  cn_exclude_apps :: "string list"
  cn_user_actions :: "string list"
  cn_auth_contexts :: "string list"
  cn_app_filter_rule :: string
  cn_client_apps :: "string list"
  cn_auth_flows :: "string list"
  cn_platforms_include :: "string list"
  cn_platforms_exclude :: "string list"
  cn_locations_include :: "string list"
  cn_locations_exclude :: "string list"
  cn_device_filter_rule :: string
  cn_sign_in_risk :: "string list"
  cn_user_risk :: "string list"
  cn_sp_risk :: "string list"

text \<open>A policy without conditions, the \<open>{}\<close> the code falls back to.\<close>

definition no_conditions :: conditions where
  "no_conditions = \<lparr>cn_include_users = [], cn_exclude_users = [], cn_include_groups = [], cn_exclude_groups = [],
     cn_include_roles = [], cn_exclude_roles = [], cn_include_guests = [], cn_exclude_guests = [],
     cn_include_apps = [], cn_exclude_apps = [], cn_user_actions = [], cn_auth_contexts = [], cn_app_filter_rule = [],
     cn_client_apps = [], cn_auth_flows = [], cn_platforms_include = [], cn_platforms_exclude = [],
     cn_locations_include = [], cn_locations_exclude = [], cn_device_filter_rule = [],
     cn_sign_in_risk = [], cn_user_risk = [], cn_sp_risk = []\<rparr>"

section \<open>The taxonomy document\<close>

record tax_class =
  tc_id :: string
  tc_derived :: bool
  tc_user_action_based :: bool
  tc_client_app_based :: bool
  tc_members :: "string list"
  tc_patterns :: "string list"
  tc_user_actions :: "string list"

record taxonomy =
  tx_classes :: "tax_class list"
  tx_ms_tenants :: "string list"
  tx_presets :: "(string \<times> string) list"
  tx_applicability :: "(string \<times> string list) list"

text \<open>\<open>limit = doc[...].get(class_id)\<close>: an absent or empty limit permits every control.\<close>

definition applicable_controls :: "taxonomy \<Rightarrow> string \<Rightarrow> string list \<Rightarrow> string set" where
  "applicable_controls doc cid all =
     (case map_of (tx_applicability doc) cid of
        None \<Rightarrow> set all
      | Some limit \<Rightarrow> if limit = [] then set all else set limit \<inter> set all)"

section \<open>The tenant's applications\<close>

record service_principal =
  sp_app_id :: "string option"
  sp_type :: "string option"
  sp_name :: "string option"
  sp_enabled :: bool
  sp_owner :: "string option"
  sp_object :: "string option"
  sp_first_party :: bool

record app_entry =
  ae_id :: string
  ae_name :: string
  ae_owner :: string

record app_index =
  ix_all :: "string set"
  ix_members :: "string \<Rightarrow> string set"

definition is_application :: "service_principal \<Rightarrow> bool" where
  "is_application s \<longleftrightarrow> str_or (sp_app_id s) [] \<noteq> [] \<and> sp_type s = Some ''Application''"

definition app_entry_of :: "service_principal \<Rightarrow> app_entry" where
  "app_entry_of s = (let i = py_lower (str_or (sp_app_id s) []) in
     \<lparr>ae_id = i, ae_name = str_or (sp_name s) i, ae_owner = py_lower (str_or (sp_owner s) [])\<rparr>)"

text \<open>\<open>by_app_id\<close>: keyed by the lower-cased id, the last service principal wins.\<close>

definition apps_by_id :: "service_principal list \<Rightarrow> (string \<times> app_entry) list" where
  "apps_by_id sps = fold (\<lambda>s d. AList.update (ae_id (app_entry_of s)) (app_entry_of s) d) (filter is_application sps) []"

definition seeded_members :: "tax_class \<Rightarrow> app_entry list \<Rightarrow> string set" where
  "seeded_members cls apps = set (map py_lower (tc_members cls)) \<inter> set (map ae_id apps)"

definition named_members :: "tax_class \<Rightarrow> app_entry list \<Rightarrow> string set" where
  "named_members cls apps =
     set (map ae_id (filter (\<lambda>a. list_ex (\<lambda>p. contains (py_lower (ae_name a)) (py_lower p)) (tc_patterns cls)) apps))"

text \<open>The class the owning tenant of an application puts it in.\<close>

definition owner_class :: "taxonomy \<Rightarrow> string \<Rightarrow> app_entry \<Rightarrow> string option" where
  "owner_class doc tenant a =
     (let owner = ae_owner a in
      if owner \<noteq> [] \<and> owner = py_lower tenant then Some ''custom_lob''
      else if owner \<noteq> [] \<and> owner \<notin> set (map py_lower (tx_ms_tenants doc)) then Some ''third_party_saas''
      else if owner = [] then Some ''custom_lob''
      else None)"

definition build_app_index :: "taxonomy \<Rightarrow> service_principal list \<Rightarrow> string \<Rightarrow> app_index" where
  "build_app_index doc sps tenant =
     (let apps = map snd (apps_by_id sps) in
      \<lparr>ix_all = set (map ae_id apps),
       ix_members = (\<lambda>cid.
         \<Union> (set (map (\<lambda>cls. seeded_members cls apps \<union> named_members cls apps)
               (filter (\<lambda>cls. tc_id cls = cid) (tx_classes doc)))) \<union>
         set (map ae_id (filter (\<lambda>a. owner_class doc tenant a = Some cid) apps)))\<rparr>)"

section \<open>Resolving a policy\<close>

definition TARGET_ALL :: string where
  "TARGET_ALL = ''All''"

definition TARGET_OFFICE365 :: string where
  "TARGET_OFFICE365 = ''Office365''"

definition TARGET_ADMIN_PORTALS :: string where
  "TARGET_ADMIN_PORTALS = ''MicrosoftAdminPortals''"

definition LEGACY_CLIENT_APP_TYPES :: "string list" where
  "LEGACY_CLIENT_APP_TYPES = [''exchangeActiveSync'', ''other'']"

record detail =
  dt_hit :: "string set"
  dt_missed :: "string set"
  dt_basis :: string

type_synonym class_coverage = "(string \<times> detail) list"

definition record_hit :: "app_index \<Rightarrow> string \<Rightarrow> string set \<Rightarrow> string \<Rightarrow> class_coverage \<Rightarrow> class_coverage" where
  "record_hit ix cid hit basis out =
     (let pool = ix_members ix cid;
          hit' = (if pool \<noteq> {} then hit \<inter> pool else hit)
      in case map_of out cid of
        Some prev \<Rightarrow> AList.update cid (prev\<lparr>dt_hit := dt_hit prev \<union> hit',
            dt_missed := pool - (dt_hit prev \<union> hit')\<rparr>) out
      | None \<Rightarrow> AList.update cid \<lparr>dt_hit = hit', dt_missed = pool - hit', dt_basis = basis\<rparr> out)"

definition resolve_all :: "taxonomy \<Rightarrow> app_index \<Rightarrow> string set \<Rightarrow> class_coverage \<Rightarrow> class_coverage" where
  "resolve_all doc ix exclude out =
     fold (\<lambda>cls out.
        if tc_derived cls \<or> tc_user_action_based cls \<or> tc_client_app_based cls then out
        else if tc_id cls = ''all_cloud_apps''
        then AList.update (tc_id cls)
          \<lparr>dt_hit = (if exclude \<noteq> {} then {} else {''*''}), dt_missed = exclude, dt_basis = ''all''\<rparr> out
        else record_hit ix (tc_id cls) (ix_all ix - exclude) ''all'' out) (tx_classes doc) out"

definition resolve_explicit :: "taxonomy \<Rightarrow> app_index \<Rightarrow> string set \<Rightarrow> class_coverage \<Rightarrow> class_coverage" where
  "resolve_explicit doc ix explicit out =
     fold (\<lambda>cls out. let hit = explicit \<inter> ix_members ix (tc_id cls) in
        if hit \<noteq> {} then record_hit ix (tc_id cls) hit ''explicit'' out else out) (tx_classes doc) out"

definition resolve_presets ::
  "taxonomy \<Rightarrow> app_index \<Rightarrow> string set \<Rightarrow> string set \<Rightarrow> class_coverage \<Rightarrow> class_coverage" where
  "resolve_presets doc ix include exclude out =
     fold (\<lambda>(preset, cid) out.
        if preset = TARGET_ALL \<or> preset \<notin> include then out
        else let out1 = record_hit ix cid (ix_members ix cid - exclude) ''preset'' out in
          if preset = TARGET_OFFICE365
          then record_hit ix ''collaboration_content'' (ix_members ix ''collaboration_content'' - exclude) ''preset'' out1
          else out1) (tx_presets doc) out"

definition declared_actions :: "taxonomy \<Rightarrow> string set" where
  "declared_actions doc =
     (case find (\<lambda>c. tc_id c = ''identity_lifecycle'') (tx_classes doc) of
        None \<Rightarrow> {} | Some c \<Rightarrow> set (map py_lower (tc_user_actions c)))"

definition resolve_policy :: "taxonomy \<Rightarrow> app_index \<Rightarrow> conditions \<Rightarrow> class_coverage" where
  "resolve_policy doc ix c =
     (let include = set (cn_include_apps c);
          exclude = set (map py_lower (cn_exclude_apps c));
          out1 = (if TARGET_ALL \<in> include then resolve_all doc ix exclude [] else []);
          explicit = set (map py_lower (filter (\<lambda>a. a \<notin> {TARGET_ALL, TARGET_OFFICE365, TARGET_ADMIN_PORTALS}) (cn_include_apps c)));
          out2 = (if explicit \<noteq> {} then resolve_explicit doc ix explicit out1 else out1);
          out3 = resolve_presets doc ix include exclude out2;
          legacy = set (cn_client_apps c) \<inter> set LEGACY_CLIENT_APP_TYPES;
          out4 = (if legacy \<noteq> {}
            then AList.update ''legacy_protocols'' \<lparr>dt_hit = legacy, dt_missed = {}, dt_basis = ''client_app''\<rparr> out3 else out3);
          actions = set (map py_lower (cn_user_actions c));
          declared = declared_actions doc;
          out5 = (if actions \<noteq> {}
            then AList.update ''identity_lifecycle'' \<lparr>dt_hit = (if declared \<noteq> {} then actions \<inter> declared else actions),
              dt_missed = declared - actions, dt_basis = ''user_action''\<rparr> out4 else out4)
      in if cn_app_filter_rule c \<noteq> [] \<or> cn_auth_contexts c \<noteq> []
         then AList.update ''scoped_constructs'' \<lparr>dt_hit = {''scoped''}, dt_missed = {}, dt_basis = ''scoped''\<rparr> out5
         else out5)"

text \<open>
  A policy on all apps touches every application class, also a class all of whose applications it
  excludes: the class is present with nothing hit.
\<close>

definition example_class :: tax_class where
  "example_class = \<lparr>tc_id = ''collaboration_content'', tc_derived = False, tc_user_action_based = False,
     tc_client_app_based = False, tc_members = [''sp''], tc_patterns = [], tc_user_actions = []\<rparr>"

definition example_doc :: taxonomy where
  "example_doc = \<lparr>tx_classes = [example_class], tx_ms_tenants = [''ms''], tx_presets = [], tx_applicability = []\<rparr>"

definition example_sharepoint :: service_principal where
  "example_sharepoint = \<lparr>sp_app_id = Some ''sp'', sp_type = Some ''Application'', sp_name = Some ''SharePoint'', sp_enabled = True,
     sp_owner = Some ''ms'', sp_object = Some ''o'', sp_first_party = True\<rparr>"

lemma excluded_class_is_touched:
  "resolve_policy example_doc (build_app_index example_doc [example_sharepoint] ''t'')
     (no_conditions\<lparr>cn_include_apps := [''All''], cn_exclude_apps := [''sp'']\<rparr>) =
   [(''collaboration_content'', \<lparr>dt_hit = {}, dt_missed = {''sp''}, dt_basis = ''all''\<rparr>)]"
proof -
  have e: "app_entry_of example_sharepoint = \<lparr>ae_id = ''sp'', ae_name = ''SharePoint'', ae_owner = ''ms''\<rparr>"
    by code_simp
  have a: "apps_by_id [example_sharepoint] = [(''sp'', \<lparr>ae_id = ''sp'', ae_name = ''SharePoint'', ae_owner = ''ms''\<rparr>)]"
    by (simp add: apps_by_id_def e) (simp add: is_application_def example_sharepoint_def str_or_def)
  have o: "owner_class example_doc ''t'' \<lparr>ae_id = ''sp'', ae_name = ''SharePoint'', ae_owner = ''ms''\<rparr> = None"
    by code_simp
  have l: "py_lower ''sp'' = ''sp''" by code_simp
  have ix: "ix_all (build_app_index example_doc [example_sharepoint] ''t'') = {''sp''}"
    "ix_members (build_app_index example_doc [example_sharepoint] ''t'') ''collaboration_content'' = {''sp''}"
    by (simp_all add: build_app_index_def a o l Let_def seeded_members_def named_members_def)
      (auto simp: example_doc_def example_class_def seeded_members_def l)
  show ?thesis
    by (simp add: resolve_policy_def no_conditions_def TARGET_ALL_def TARGET_OFFICE365_def TARGET_ADMIN_PORTALS_def Let_def l
        resolve_all_def resolve_presets_def example_doc_def example_class_def record_hit_def
        ix [unfolded example_doc_def example_class_def])
qed

end
