(* ===== verification/Ca_Engine.thy ===== *)
theory Ca_Engine
  imports Ca_Taxonomy "HOL-Library.List_Lexorder" "HOL-Library.Char_ord"
begin

text \<open>
  Conditional Access analysis, \<^verbatim>\<open>app/entra/ca_engine.py\<close> with the role helpers of
  \<^verbatim>\<open>app/entra/collectors/roles.py\<close>: resolving the principals and controls of every policy, cohorts, the
  headline, conflicts and emergency accounts. Sorted id lists are sets where only their membership
  and number matter; explanatory sentences are left out; instants are microseconds, and a sign-in time that is
  missing or does not parse is \<open>None\<close>. The SHA-1 digest of the fingerprint is an argument.
\<close>

section \<open>Snapshot\<close>

record person =
  pe_id :: string
  pe_enabled :: bool
  pe_guest :: bool
  pe_mfa :: "bool option"
  pe_phish :: "bool option"
  pe_synced :: bool
  pe_upn :: string
  pe_name :: string
  pe_department :: string
  pe_title :: string
  pe_last_signin :: "int option"
  pe_signin_known :: bool

record role_row =
  rr_role :: string
  rr_name :: string
  rr_privileged :: bool
  rr_principal :: string

text \<open>The three buckets in their order: active, through groups, eligible.\<close>

record roles_data =
  ro_definitions :: "(string \<times> string) list"
  ro_assignments :: "role_row list"
  ro_group_derived :: "role_row list"
  ro_eligible :: "role_row list"

record strength =
  sg_id :: string
  sg_name :: string
  sg_combinations :: "string list"

record grant =
  gr_operator :: string
  gr_controls :: "string list"
  gr_strength_id :: string
  gr_strength_name :: string
  gr_terms :: "string list"

record session_controls =
  se_frequency :: bool
  se_frequency_value :: "int option"
  se_frequency_type :: string
  se_persistent :: bool
  se_persistent_mode :: string
  se_app_enforced :: bool
  se_casb :: bool
  se_cae :: string

record raw_policy =
  po_id :: string
  po_name :: string
  po_state :: string
  po_conditions :: conditions
  po_grant :: grant
  po_session :: session_controls

record snapshot =
  sn_policies :: "raw_policy list"
  sn_strengths :: "strength list"
  sn_group_members :: "(string \<times> string list) list"
  sn_people :: "person list"
  sn_roles :: roles_data
  sn_apps :: "service_principal list"

definition STATE_ENABLED :: string where "STATE_ENABLED = ''enabled''"
definition STATE_DISABLED :: string where "STATE_DISABLED = ''disabled''"
definition STATE_REPORT_ONLY :: string where "STATE_REPORT_ONLY = ''enabledForReportingButNotEnforced''"

section \<open>Roles\<close>

definition role_rows :: "roles_data \<Rightarrow> role_row list" where
  "role_rows rd = ro_assignments rd @ ro_group_derived rd @ ro_eligible rd"

definition privileged_principal_ids :: "roles_data \<Rightarrow> string set" where
  "privileged_principal_ids rd =
     set (map rr_principal (filter (\<lambda>r. rr_privileged r \<and> rr_principal r \<noteq> []) (role_rows rd)))"

definition global_admin_ids :: "roles_data \<Rightarrow> string set" where
  "global_admin_ids rd = set (map rr_principal
     (filter (\<lambda>r. py_lower (py_strip (rr_name r)) = ''global administrator'' \<and> rr_principal r \<noteq> []) (role_rows rd)))"

text \<open>\<open>defs\<close> is a dictionary comprehension, so the last definition of an id counts.\<close>

definition template_of :: "roles_data \<Rightarrow> role_row \<Rightarrow> string" where
  "template_of rd r = str_or (map_of (rev (ro_definitions rd)) (rr_role r)) (rr_role r)"

definition role_template_index :: "roles_data \<Rightarrow> string \<Rightarrow> string set" where
  "role_template_index rd template = set (map rr_principal
     (filter (\<lambda>r. template_of rd r = template \<and> template \<noteq> [] \<and> rr_principal r \<noteq> []) (role_rows rd)))"

section \<open>Principals of a policy\<close>

definition dict_list :: "(string \<times> string list) list \<Rightarrow> string \<Rightarrow> string list" where
  "dict_list d k = (case map_of d k of None \<Rightarrow> [] | Some xs \<Rightarrow> xs)"

definition token_ids :: "string set \<Rightarrow> string set \<Rightarrow> string \<Rightarrow> string set" where
  "token_ids all guests token =
     (if token = ''All'' then all
      else if token = ''None'' then {}
      else if token = ''GuestsOrExternalUsers'' then guests
      else if token \<noteq> [] then {token} else {})"

definition resolve_principals ::
  "string list \<Rightarrow> string list \<Rightarrow> string list \<Rightarrow> string list \<Rightarrow> string set \<Rightarrow> string set
   \<Rightarrow> (string \<times> string list) list \<Rightarrow> (string \<Rightarrow> string set) \<Rightarrow> string set \<times> bool" where
  "resolve_principals users groups roles guests all guest_ids members index =
     (\<Union> (set (map (token_ids all guest_ids) users)) \<union> (if guests \<noteq> [] then guest_ids else {}) \<union>
        \<Union> (set (map (\<lambda>g. set (dict_list members g)) groups)) \<union> \<Union> (set (map index roles)),
      ''All'' \<in> set users)"

section \<open>Controls of a policy\<close>

definition CTRL_MFA :: string where "CTRL_MFA = ''mfa''"
definition CTRL_PHISH :: string where "CTRL_PHISH = ''phishing_resistant''"
definition CTRL_COMPLIANT :: string where "CTRL_COMPLIANT = ''compliant_device''"
definition CTRL_HYBRID :: string where "CTRL_HYBRID = ''hybrid_joined''"
definition CTRL_BLOCK :: string where "CTRL_BLOCK = ''block''"
definition CTRL_SESSION :: string where "CTRL_SESSION = ''session_limits''"
definition CTRL_APPROVED_APP :: string where "CTRL_APPROVED_APP = ''approved_app''"
definition CTRL_APP_PROTECTION :: string where "CTRL_APP_PROTECTION = ''app_protection_policy''"
definition CTRL_COMPLIANT_OR_HYBRID :: string where "CTRL_COMPLIANT_OR_HYBRID = ''compliant_or_hybrid_device''"
definition CTRL_TERMS :: string where "CTRL_TERMS = ''terms_of_use''"
definition CTRL_AUTH_STRENGTH :: string where "CTRL_AUTH_STRENGTH = ''auth_strength''"
definition CTRL_SIGNIN_FREQUENCY :: string where "CTRL_SIGNIN_FREQUENCY = ''sign_in_frequency''"
definition CTRL_PERSISTENT_BROWSER :: string where "CTRL_PERSISTENT_BROWSER = ''persistent_browser''"
definition CTRL_APP_ENFORCED :: string where "CTRL_APP_ENFORCED = ''app_enforced_restrictions''"
definition CTRL_CASB :: string where "CTRL_CASB = ''cloud_app_security_proxy''"
definition CTRL_CAE :: string where "CTRL_CAE = ''continuous_access_evaluation''"
definition CTRL_LEGACY_BLOCKED :: string where "CTRL_LEGACY_BLOCKED = ''legacy_auth_blocked''"

lemmas CTRL_defs = CTRL_MFA_def CTRL_PHISH_def CTRL_COMPLIANT_def CTRL_HYBRID_def CTRL_BLOCK_def CTRL_SESSION_def
  CTRL_APPROVED_APP_def CTRL_APP_PROTECTION_def CTRL_COMPLIANT_OR_HYBRID_def CTRL_TERMS_def CTRL_AUTH_STRENGTH_def
  CTRL_SIGNIN_FREQUENCY_def CTRL_PERSISTENT_BROWSER_def CTRL_APP_ENFORCED_def CTRL_CASB_def CTRL_CAE_def
  CTRL_LEGACY_BLOCKED_def

definition SESSION_CONTROLS :: "string set" where
  "SESSION_CONTROLS = {CTRL_SESSION, CTRL_SIGNIN_FREQUENCY, CTRL_PERSISTENT_BROWSER, CTRL_APP_ENFORCED, CTRL_CASB, CTRL_CAE}"

definition EGRESS_CONTROLS :: "string set" where
  "EGRESS_CONTROLS = {CTRL_APP_ENFORCED, CTRL_CASB}"

definition CONTROL_KEYS :: "string list" where
  "CONTROL_KEYS = [CTRL_MFA, CTRL_AUTH_STRENGTH, CTRL_PHISH, CTRL_COMPLIANT_OR_HYBRID, CTRL_APPROVED_APP,
     CTRL_APP_PROTECTION, CTRL_BLOCK, CTRL_TERMS, CTRL_SIGNIN_FREQUENCY, CTRL_PERSISTENT_BROWSER,
     CTRL_APP_ENFORCED, CTRL_CASB, CTRL_CAE, CTRL_LEGACY_BLOCKED]"

definition PHISH_RESISTANT_COMBOS :: "string list" where
  "PHISH_RESISTANT_COMBOS = [''fido2'', ''windowsHelloForBusiness'', ''x509CertificateMultiFactor'', ''deviceBasedPush'']"

definition phish_combo_universe :: "string set \<Rightarrow> string set" where
  "phish_combo_universe combos =
     (let resistant = Set.filter (\<lambda>c. let base = hd (split_on CHR '','' c) in
            base \<in> set PHISH_RESISTANT_COMBOS \<or> starts_with base ''fido2'' \<or> starts_with base ''x509'') combos
      in if resistant = combos then resistant else {})"

definition add_if :: "bool \<Rightarrow> 'a set \<Rightarrow> 'a set" where
  "add_if c xs = (if c then xs else {})"

definition strength_controls :: "grant \<Rightarrow> strength list \<Rightarrow> string set" where
  "strength_controls g strengths =
     (if gr_strength_id g = [] then {}
      else let s = find (\<lambda>s. sg_id s = gr_strength_id g) (rev (filter (\<lambda>s. sg_id s \<noteq> []) strengths));
               combos = (case s of None \<Rightarrow> {} | Some s \<Rightarrow> set (sg_combinations s));
               name = py_lower (str_or (map_option sg_name s) (gr_strength_name g))
           in {CTRL_MFA, CTRL_AUTH_STRENGTH} \<union>
              add_if (contains name ''phishing'' \<or> combos \<noteq> {} \<and> combos \<subseteq> phish_combo_universe combos) {CTRL_PHISH})"

definition controls_of :: "grant \<Rightarrow> session_controls \<Rightarrow> strength list \<Rightarrow> string set" where
  "controls_of g s strengths =
     (let builtin = set (gr_controls g); cae = py_lower (se_cae s) in
      add_if (''block'' \<in> builtin) {CTRL_BLOCK} \<union>
      add_if (''mfa'' \<in> builtin) {CTRL_MFA} \<union>
      add_if (''compliantDevice'' \<in> builtin) {CTRL_COMPLIANT, CTRL_COMPLIANT_OR_HYBRID} \<union>
      add_if (''domainJoinedDevice'' \<in> builtin) {CTRL_HYBRID, CTRL_COMPLIANT_OR_HYBRID} \<union>
      add_if (''approvedApplication'' \<in> builtin) {CTRL_APPROVED_APP} \<union>
      add_if (''compliantApplication'' \<in> builtin) {CTRL_APP_PROTECTION} \<union>
      add_if (gr_terms g \<noteq> []) {CTRL_TERMS} \<union>
      strength_controls g strengths \<union>
      add_if (se_frequency s) {CTRL_SIGNIN_FREQUENCY} \<union>
      add_if (se_persistent s) {CTRL_PERSISTENT_BROWSER} \<union>
      add_if (se_app_enforced s) {CTRL_APP_ENFORCED} \<union>
      add_if (se_casb s) {CTRL_CASB} \<union>
      add_if (cae \<noteq> [] \<and> cae \<noteq> ''disabled'') {CTRL_CAE} \<union>
      add_if (se_frequency s \<or> se_persistent s) {CTRL_SESSION})"

section \<open>Normalisation\<close>

definition sorted_join :: "string list \<Rightarrow> string" where
  "sorted_join xs = join_with '','' (sort xs)"

definition policy_fingerprint :: "(string \<Rightarrow> string) \<Rightarrow> raw_policy \<Rightarrow> string" where
  "policy_fingerprint sha1 p =
     (let c = po_conditions p; g = po_grant p in
      take 16 (sha1 (join_with ''|''
        [sorted_join (cn_include_users c), sorted_join (cn_exclude_users c), sorted_join (cn_include_groups c),
         sorted_join (cn_exclude_groups c), sorted_join (cn_include_roles c), sorted_join (cn_include_apps c),
         sorted_join (cn_exclude_apps c), sorted_join (cn_client_apps c), sorted_join (cn_platforms_include c),
         sorted_join (cn_locations_include c), sorted_join (cn_sign_in_risk c), sorted_join (cn_user_risk c),
         gr_operator g, sorted_join (gr_controls g), gr_strength_id g])))"

definition narrowing_conditions :: "conditions \<Rightarrow> string list" where
  "narrowing_conditions c =
     (if cn_locations_include c \<noteq> [] \<and> set (cn_locations_include c) \<noteq> {''All''} then [''named location''] else []) @
     (if cn_platforms_include c \<noteq> [] then [''device platform''] else []) @
     (if cn_sign_in_risk c \<noteq> [] then [''sign-in risk''] else []) @
     (if cn_user_risk c \<noteq> [] then [''user risk''] else []) @
     (if cn_sp_risk c \<noteq> [] then [''workload identity risk''] else []) @
     (if cn_client_apps c \<noteq> [] \<and> ''all'' \<notin> set (cn_client_apps c) then [''client app type''] else []) @
     (if cn_device_filter_rule c \<noteq> [] then [''device filter''] else []) @
     (if cn_auth_flows c \<noteq> [] then [''authentication flow''] else [])"

record policy = raw_policy +
  po_fingerprint :: string
  po_include_all :: bool
  po_included :: "string set"
  po_excluded :: "string set"
  po_effective :: "string set"
  po_controls :: "string set"
  po_coverage :: class_coverage
  po_is_block :: bool
  po_is_enforced :: bool
  po_is_report_only :: bool
  po_is_disabled :: bool
  po_targets_all :: bool
  po_blocks_legacy :: bool
  po_risk :: bool
  po_narrowing :: "string list"

definition enabled_ids :: "snapshot \<Rightarrow> string set" where
  "enabled_ids sn = set (map pe_id (filter (\<lambda>u. pe_id u \<noteq> [] \<and> pe_enabled u) (sn_people sn)))"

definition guest_ids :: "snapshot \<Rightarrow> string set" where
  "guest_ids sn = set (map pe_id (filter (\<lambda>u. pe_id u \<noteq> [] \<and> pe_guest u \<and> pe_enabled u) (sn_people sn)))"

definition blocks_legacy :: "conditions \<Rightarrow> string set \<Rightarrow> bool" where
  "blocks_legacy c controls \<longleftrightarrow> CTRL_BLOCK \<in> controls \<and>
     set (cn_client_apps c) \<inter> {''exchangeActiveSync'', ''other''} \<noteq> {} \<and>
     set (cn_client_apps c) \<inter> {''browser'', ''mobileAppsAndDesktopClients'', ''all''} = {}"

definition include_side :: "snapshot \<Rightarrow> conditions \<Rightarrow> string set \<times> bool" where
  "include_side sn c = resolve_principals (cn_include_users c) (cn_include_groups c) (cn_include_roles c)
     (cn_include_guests c) (enabled_ids sn) (guest_ids sn) (sn_group_members sn) (role_template_index (sn_roles sn))"

definition exclude_side :: "snapshot \<Rightarrow> conditions \<Rightarrow> string set \<times> bool" where
  "exclude_side sn c = resolve_principals (cn_exclude_users c) (cn_exclude_groups c) (cn_exclude_roles c)
     (cn_exclude_guests c) (enabled_ids sn) (guest_ids sn) (sn_group_members sn) (role_template_index (sn_roles sn))"

definition normalize_policy :: "(string \<Rightarrow> string) \<Rightarrow> taxonomy \<Rightarrow> snapshot \<Rightarrow> app_index \<Rightarrow> raw_policy \<Rightarrow> policy" where
  "normalize_policy sha1 doc sn ix p =
     (let c = po_conditions p; (inc, inc_all) = include_side sn c; (exc, _) = exclude_side sn c;
          controls0 = controls_of (po_grant p) (po_session p) (sn_strengths sn);
          legacy = blocks_legacy c controls0;
          controls = controls0 \<union> add_if legacy {CTRL_LEGACY_BLOCKED}
      in raw_policy.extend p
        \<lparr>po_fingerprint = policy_fingerprint sha1 p, po_include_all = inc_all, po_included = inc, po_excluded = exc,
         po_effective = inc - exc, po_controls = controls, po_coverage = resolve_policy doc ix c,
         po_is_block = (CTRL_BLOCK \<in> controls), po_is_enforced = (po_state p = STATE_ENABLED),
         po_is_report_only = (po_state p = STATE_REPORT_ONLY), po_is_disabled = (po_state p = STATE_DISABLED),
         po_targets_all = (''All'' \<in> set (cn_include_apps c)), po_blocks_legacy = legacy,
         po_risk = (cn_sign_in_risk c \<noteq> [] \<or> cn_user_risk c \<noteq> []), po_narrowing = narrowing_conditions c\<rparr>)"

definition normalize_policies :: "(string \<Rightarrow> string) \<Rightarrow> taxonomy \<Rightarrow> string \<Rightarrow> snapshot \<Rightarrow> policy list" where
  "normalize_policies sha1 doc tenant sn =
     map (normalize_policy sha1 doc sn (build_app_index doc (sn_apps sn) tenant)) (sn_policies sn)"

definition app_classes :: "policy \<Rightarrow> string set" where
  "app_classes p = set (map fst (po_coverage p))"

section \<open>Cohorts\<close>

record cohort =
  ch_key :: string
  ch_ids :: "string set"

definition SERVICE_ACCOUNT_HINTS :: "string list" where
  "SERVICE_ACCOUNT_HINTS = [''svc'', ''service'', ''sa-'', ''-sa'', ''srv'', ''automation'', ''daemon'', ''noreply'', ''no-reply'']"

definition name_text :: "person \<Rightarrow> string" where
  "name_text u = py_lower (pe_upn u @ '' '' @ pe_name u)"

definition looks_like_service_account :: "person \<Rightarrow> bool" where
  "looks_like_service_account u \<longleftrightarrow>
     list_ex (contains (name_text u)) SERVICE_ACCOUNT_HINTS \<or>
     pe_mfa u = Some False \<and> pe_signin_known u \<and> pe_last_signin u = None"

text \<open>\<open>users\<close>, keyed by id: the last row of an id counts, in the order of first appearance.\<close>

definition users_by_id :: "snapshot \<Rightarrow> (string \<times> person) list" where
  "users_by_id sn = fold (\<lambda>u d. AList.update (pe_id u) u d) (filter (\<lambda>u. pe_id u \<noteq> []) (sn_people sn)) []"

definition ids_where :: "(person \<Rightarrow> bool) \<Rightarrow> (string \<times> person) list \<Rightarrow> string set" where
  "ids_where P us = set (map fst (filter (\<lambda>(_, u). P u) us))"

definition build_cohorts :: "snapshot \<Rightarrow> string set \<Rightarrow> cohort list" where
  "build_cohorts sn breakglass =
     (let us = users_by_id sn; known = set (map fst us);
          privileged = privileged_principal_ids (sn_roles sn) \<inter> known;
          gas = global_admin_ids (sn_roles sn) \<inter> known;
          guests = ids_where (\<lambda>u. pe_enabled u \<and> pe_guest u) us;
          members = ids_where pe_enabled us - guests;
          no_mfa = ids_where (\<lambda>u. pe_enabled u \<and> pe_mfa u = Some False) us;
          service = members \<inter> ids_where looks_like_service_account us
      in [\<lparr>ch_key = ''global_admins'', ch_ids = gas\<rparr>, \<lparr>ch_key = ''privileged'', ch_ids = privileged\<rparr>,
          \<lparr>ch_key = ''break_glass'', ch_ids = breakglass \<inter> known\<rparr>,
          \<lparr>ch_key = ''members'', ch_ids = members - privileged\<rparr>, \<lparr>ch_key = ''guests'', ch_ids = guests\<rparr>,
          \<lparr>ch_key = ''service_accounts'', ch_ids = service\<rparr>, \<lparr>ch_key = ''no_mfa'', ch_ids = no_mfa\<rparr>])"

section \<open>Headline\<close>

record headline =
  hl_uncovered_users :: "string set"
  hl_total_users :: nat
  hl_uncovered_apps :: "service_principal list"
  hl_total_apps :: nat
  hl_privileged_uncovered :: "string set"

definition enforced_policies :: "policy list \<Rightarrow> policy list" where
  "enforced_policies ps = filter po_is_enforced ps"

text \<open>Applications named by enforced policies; an exclusion removes what earlier policies added.\<close>

definition named_app_ids :: "policy list \<Rightarrow> string set" where
  "named_app_ids ps = fold (\<lambda>p acc. (acc \<union> set (cn_include_apps (po_conditions p))) - set (cn_exclude_apps (po_conditions p))) ps {}"

definition build_headline :: "policy list \<Rightarrow> snapshot \<Rightarrow> headline" where
  "build_headline ps sn =
     (let enforced = enforced_policies ps;
          protected = \<Union> (set (map po_effective enforced));
          uncovered = enabled_ids sn - protected;
          sps = filter (\<lambda>s. sp_enabled s \<and> sp_type s = Some ''Application'') (sn_apps sn);
          named = named_app_ids enforced
      in \<lparr>hl_uncovered_users = uncovered, hl_total_users = card (enabled_ids sn),
          hl_uncovered_apps = (if list_ex po_targets_all enforced then []
            else filter (\<lambda>s. case sp_app_id s of None \<Rightarrow> True | Some a \<Rightarrow> a \<notin> named) sps),
          hl_total_apps = length sps,
          hl_privileged_uncovered = uncovered \<inter> privileged_principal_ids (sn_roles sn)\<rparr>)"

section \<open>Conflicts\<close>

datatype conflict_kind = No_Effect | Unreachable | Block_Grant | Redundant | Duplicate | Excl_Privileged | Excl_Sprawl

record conflict =
  cf_kind :: conflict_kind
  cf_policy :: string
  cf_other :: string
  cf_affected :: nat

definition conflict_of :: "conflict_kind \<Rightarrow> policy \<Rightarrow> policy option \<Rightarrow> nat \<Rightarrow> conflict" where
  "conflict_of k p other n = \<lparr>cf_kind = k, cf_policy = po_id p,
     cf_other = (case other of None \<Rightarrow> [] | Some q \<Rightarrow> po_id q), cf_affected = n\<rparr>"

definition no_effect :: "policy list \<Rightarrow> conflict list" where
  "no_effect ps = List.maps (\<lambda>p.
     if po_is_disabled p then []
     else if po_effective p = {} then [conflict_of No_Effect p None 0]
     else if app_classes p = {} \<and> cn_include_apps (po_conditions p) = [] then [conflict_of No_Effect p None 0]
     else []) ps"

definition all_excluded :: "string list \<Rightarrow> string list \<Rightarrow> bool" where
  "all_excluded inc exc \<longleftrightarrow> inc \<noteq> [] \<and> set inc \<subseteq> set exc"

definition unreachable :: "policy list \<Rightarrow> conflict list" where
  "unreachable ps = List.maps (\<lambda>p. let c = po_conditions p in
     (if all_excluded (cn_platforms_include c) (cn_platforms_exclude c) then [conflict_of Unreachable p None 0] else []) @
     (if all_excluded (cn_locations_include c) (cn_locations_exclude c) then [conflict_of Unreachable p None 0] else [])) ps"

definition block_grant :: "policy list \<Rightarrow> conflict list" where
  "block_grant enforced =
     (let blocks = filter (\<lambda>p. po_is_block p \<and> po_narrowing p = []) enforced;
          grants = filter (\<lambda>p. \<not> po_is_block p \<and> po_controls p \<noteq> {}) enforced
      in List.maps (\<lambda>b. List.maps (\<lambda>g.
           let overlap = po_effective b \<inter> po_effective g in
           if overlap \<noteq> {} \<and> app_classes b \<inter> app_classes g \<noteq> {}
           then [conflict_of Block_Grant g (Some b) (card overlap)] else []) grants) blocks)"

definition shadow_pair :: "policy \<Rightarrow> policy \<Rightarrow> conflict list" where
  "shadow_pair a b =
     (if po_effective b = {} \<or> po_controls b = {} then []
      else if po_effective b \<subseteq> po_effective a \<and> po_controls b \<subseteq> po_controls a \<and> app_classes b \<subseteq> app_classes a \<and>
        po_fingerprint a \<noteq> po_fingerprint b then [conflict_of Redundant b (Some a) 0]
      else if po_fingerprint a = po_fingerprint b then [conflict_of Duplicate b (Some a) 0]
      else [])"

fun shadowing :: "policy list \<Rightarrow> conflict list" where
  "shadowing [] = []"
| "shadowing (a # ps) = List.maps (shadow_pair a) ps @ shadowing ps"

text \<open>\<open>excluded / included > 0.2\<close> in integers.\<close>

definition exclusions :: "string set \<Rightarrow> policy list \<Rightarrow> conflict list" where
  "exclusions privileged ps = List.maps (\<lambda>p.
     if po_is_disabled p \<or> po_controls p = {} then []
     else let priv = po_excluded p \<inter> privileged; included = card (po_included p); excluded = card (po_excluded p) in
       (if priv \<noteq> {} \<and> po_controls p \<inter> {CTRL_MFA, CTRL_BLOCK, CTRL_PHISH, CTRL_COMPLIANT} \<noteq> {}
        then [conflict_of Excl_Privileged p None (card priv)] else []) @
       (if included \<noteq> 0 \<and> 20 \<le> excluded \<and> included < 5 * excluded
        then [conflict_of Excl_Sprawl p None excluded] else [])) ps"

definition detect_conflicts :: "policy list \<Rightarrow> string set \<Rightarrow> conflict list" where
  "detect_conflicts ps privileged =
     (let enforced = enforced_policies ps
      in no_effect ps @ unreachable ps @ block_grant enforced @ shadowing enforced @ exclusions privileged ps)"

section \<open>Emergency accounts\<close>

definition BG_NAME_HINTS :: "string list" where
  "BG_NAME_HINTS = [''break'', ''glass'', ''emergency'', ''bg-'', ''bg_'', ''eba'', ''firecall'', ''breakglass'']"

definition DAY :: int where
  "DAY = 86400 * 1000000"

definition days_since :: "int option \<Rightarrow> int \<Rightarrow> int option" where
  "days_since t now = map_option (\<lambda>t. (now - t) div DAY) t"

text \<open>What the operator stored for an account: nothing, or confirmed or rejected.\<close>

type_synonym decisions = "(string \<times> bool) list"

record candidate =
  cd_id :: string
  cd_score :: nat
  cd_confirmed :: "bool option"
  cd_lockout_risk :: bool

definition points :: "bool \<Rightarrow> nat \<Rightarrow> nat" where
  "points c n = (if c then n else 0)"

definition breakglass_score :: "policy list \<Rightarrow> string set \<Rightarrow> int \<Rightarrow> string \<Rightarrow> person \<Rightarrow> nat" where
  "breakglass_score security gas now uid u =
     (let last = days_since (pe_last_signin u) now in
      points (security \<noteq> [] \<and> \<not> list_ex (\<lambda>p. uid \<in> po_effective p) security) 3 +
      points (list_ex (\<lambda>p. uid \<in> po_excluded p) security) 2 +
      points (uid \<in> gas) 2 +
      points (\<not> pe_synced u) 1 +
      points (list_ex (contains (name_text u)) BG_NAME_HINTS) 2 +
      points (pe_department u = [] \<and> pe_title u = []) 1 +
      points (pe_signin_known u \<and> (case last of None \<Rightarrow> True | Some d \<Rightarrow> 90 < d)) 1)"

definition detect_breakglass :: "policy list \<Rightarrow> snapshot \<Rightarrow> decisions \<Rightarrow> int \<Rightarrow> candidate list" where
  "detect_breakglass ps sn confirmed now =
     (let gas = global_admin_ids (sn_roles sn);
          security = filter (\<lambda>p. po_controls p \<inter> {CTRL_MFA, CTRL_BLOCK, CTRL_PHISH, CTRL_COMPLIANT} \<noteq> {}) (enforced_policies ps)
      in sort_key (\<lambda>c. - int (cd_score c)) (List.map_filter (\<lambda>(uid, u).
           if \<not> pe_enabled u \<or> pe_guest u then None
           else let score = breakglass_score security gas now uid u; state = map_of confirmed uid in
             if 5 \<le> score \<or> state \<noteq> None
             then Some \<lparr>cd_id = uid, cd_score = score, cd_confirmed = state,
                    cd_lockout_risk = (list_ex (\<lambda>p. uid \<in> po_effective p) security \<and> pe_mfa u = Some False)\<rparr>
             else None) (users_by_id sn)))"

definition confirmed_ids :: "candidate list \<Rightarrow> string set" where
  "confirmed_ids cs = set (map cd_id (filter (\<lambda>c. cd_confirmed c = Some True) cs))"

definition over_covered :: "candidate list \<Rightarrow> candidate list" where
  "over_covered cs = filter (\<lambda>c. cd_confirmed c = Some True \<and> cd_lockout_risk c) cs"

section \<open>Exclusions\<close>

lemma normalize_sel [simp]:
  "po_effective (normalize_policy sha1 doc sn ix p) = po_included (normalize_policy sha1 doc sn ix p) - po_excluded (normalize_policy sha1 doc sn ix p)"
  "po_state (normalize_policy sha1 doc sn ix p) = po_state p"
  "po_is_enforced (normalize_policy sha1 doc sn ix p) \<longleftrightarrow> po_state p = STATE_ENABLED"
  "po_excluded (normalize_policy sha1 doc sn ix p) = fst (exclude_side sn (po_conditions p))"
  "po_is_block (normalize_policy sha1 doc sn ix p) \<longleftrightarrow> CTRL_BLOCK \<in> po_controls (normalize_policy sha1 doc sn ix p)"
  by (simp_all add: normalize_policy_def raw_policy.defs Let_def split: prod.splits)

lemma normalizedE:
  assumes "q \<in> set (normalize_policies sha1 doc tenant sn)"
  obtains p ix where "p \<in> set (sn_policies sn)" "q = normalize_policy sha1 doc sn ix p"
  using assms by (auto simp: normalize_policies_def)

lemma uncovered_iff:
  "uid \<in> hl_uncovered_users (build_headline ps sn) \<longleftrightarrow>
     uid \<in> enabled_ids sn \<and> (\<forall>p\<in>set ps. po_is_enforced p \<longrightarrow> uid \<notin> po_effective p)"
  by (auto simp: build_headline_def Let_def enforced_policies_def)

text \<open>
  The fingerprint leaves out the excluded roles, the guest filters, the user actions and the session controls, so
  two policies that differ only there get the same one and are reported as duplicates.
\<close>

lemma fingerprint_ignores_actions:
  "policy_fingerprint sha1 (p\<lparr>po_conditions := (po_conditions p)\<lparr>cn_user_actions := xs\<rparr>\<rparr>) = policy_fingerprint sha1 p"
  "policy_fingerprint sha1 (p\<lparr>po_conditions := (po_conditions p)\<lparr>cn_exclude_roles := xs\<rparr>\<rparr>) = policy_fingerprint sha1 p"
  "policy_fingerprint sha1 (p\<lparr>po_session := s\<rparr>) = policy_fingerprint sha1 p"
  by (simp_all add: policy_fingerprint_def Let_def)

text \<open>A policy for the examples: MFA for all but one user.\<close>

definition example_policy :: raw_policy where
  "example_policy = \<lparr>po_id = ''p1'', po_name = ''Require MFA'', po_state = ''enabled'',
     po_conditions = no_conditions\<lparr>cn_include_users := [''All''], cn_exclude_users := [''u'']\<rparr>,
     po_grant = \<lparr>gr_operator = ''OR'', gr_controls = [''mfa''], gr_strength_id = [], gr_strength_name = [], gr_terms = []\<rparr>,
     po_session = \<lparr>se_frequency = False, se_frequency_value = None, se_frequency_type = [], se_persistent = False,
       se_persistent_mode = [], se_app_enforced = False, se_casb = False, se_cae = []\<rparr>\<rparr>"

end
