(* ===== verification/Ca_Coverage.thy ===== *)
theory Ca_Coverage
  imports Ca_Engine
begin

text \<open>
  The Conditional Access coverage matrix, \<^verbatim>\<open>app/entra/ca_coverage.py\<close>: the policies indexed by class and
  control, one cell per cohort, class and control on both the user and the application axis, and the
  classes derived from the analysis. Sorted samples are their sets.
\<close>

section \<open>The index\<close>

record hit =
  ht_ids :: "string set"
  ht_apps :: "string set"
  ht_name :: string

text \<open>\<open>_fill\<close>: the entries of one class and control, in the order of the policies.\<close>

definition hits_of :: "policy list \<Rightarrow> string \<Rightarrow> string \<Rightarrow> hit list" where
  "hits_of ps cid ctrl = List.maps (\<lambda>p. List.maps (\<lambda>(c, d).
     if c = cid \<and> ctrl \<in> po_controls p
     then [\<lparr>ht_ids = po_effective p, ht_apps = dt_hit d, ht_name = (if po_name p = [] then po_id p else po_name p)\<rparr>]
     else []) (po_coverage p)) ps"

section \<open>Cells\<close>

datatype cell_state = Covered | Partial | Report_Only | Uncovered | Not_Applicable

record cell =
  ce_state :: cell_state
  ce_users_covered :: "string set"
  ce_apps_covered :: "string set"
  ce_apps_missing :: "string set"
  ce_uncovered :: "string set"
  ce_policies :: "string list"

definition na_cell :: cell where
  "na_cell = \<lparr>ce_state = Not_Applicable, ce_users_covered = {}, ce_apps_covered = {}, ce_apps_missing = {},
     ce_uncovered = {}, ce_policies = []\<rparr>"

definition cell_of :: "string set \<Rightarrow> hit list \<Rightarrow> bool \<Rightarrow> string set \<Rightarrow> cell" where
  "cell_of cohort hits report_only class_apps =
     (if cohort = {} then na_cell
      else let reaching = filter (\<lambda>h. cohort \<inter> ht_ids h \<noteq> {}) hits;
               users = \<Union> (set (map (\<lambda>h. cohort \<inter> ht_ids h) reaching));
               apps = \<Union> (set (map ht_apps reaching));
               apps_whole = (class_apps = {} \<or> class_apps \<subseteq> apps);
               users_whole = (cohort \<subseteq> users)
           in \<lparr>ce_state = (if users = {} then (if report_only then Report_Only else Uncovered)
                 else if users_whole \<and> apps_whole then Covered else Partial),
               ce_users_covered = users, ce_apps_covered = apps \<inter> class_apps, ce_apps_missing = class_apps - apps,
               ce_uncovered = cohort - users, ce_policies = sort (remdups (map ht_name reaching))\<rparr>)"

text \<open>One cell of \<open>build\<close>.\<close>

definition matrix_cell ::
  "taxonomy \<Rightarrow> string list \<Rightarrow> app_index \<Rightarrow> policy list \<Rightarrow> string set \<Rightarrow> string \<Rightarrow> string \<Rightarrow> cell" where
  "matrix_cell doc keys ix ps cohort cid ctrl =
     (if ctrl \<notin> applicable_controls doc cid keys then na_cell
      else cell_of cohort (hits_of (filter po_is_enforced ps) cid ctrl)
        (hits_of (filter po_is_report_only ps) cid ctrl \<noteq> []) (ix_members ix cid))"

definition build_matrix ::
  "taxonomy \<Rightarrow> string list \<Rightarrow> app_index \<Rightarrow> policy list \<Rightarrow> cohort list \<Rightarrow> (string \<times> ((string \<times> string) \<times> cell) list) list" where
  "build_matrix doc keys ix ps cohorts =
     map (\<lambda>ch. (ch_key ch, List.maps (\<lambda>cls. map (\<lambda>ctrl.
         ((tc_id cls, ctrl), matrix_cell doc keys ix ps (ch_ids ch) (tc_id cls) ctrl)) keys)
       (filter (\<lambda>c. \<not> tc_derived c) (tx_classes doc)))) cohorts"

section \<open>Derived classes\<close>

definition shadowed_classes :: "policy list \<Rightarrow> string set" where
  "shadowed_classes ps =
     \<Union> (set (map app_classes ps)) - \<Union> (set (map app_classes (filter po_is_enforced ps)))"

text \<open>The sign-in activity, when it has been measured: the ids of the applications that were signed in to.\<close>

definition excluded_by_all :: "policy list \<Rightarrow> string set" where
  "excluded_by_all wildcard =
     (case wildcard of
        [] \<Rightarrow> {}
      | p # ps \<Rightarrow> fold (\<lambda>p acc. acc \<inter> set (map py_lower (cn_exclude_apps (po_conditions p)))) ps
          (set (map py_lower (cn_exclude_apps (po_conditions p)))))"

definition unattributed_apps :: "policy list \<Rightarrow> string list option \<Rightarrow> string set option" where
  "unattributed_apps ps activity =
     (case activity of
        None \<Rightarrow> None
      | Some ids \<Rightarrow>
          (let active = set (map py_lower ids);
               enforced = filter po_is_enforced ps;
               wildcard = filter po_targets_all enforced;
               explicit = \<Union> (set (List.maps (\<lambda>p. map (\<lambda>(_, d). py_lower ` (dt_hit d - {''*''})) (po_coverage p)) enforced))
           in Some (if wildcard \<noteq> [] then (active \<inter> excluded_by_all wildcard) - explicit else active - explicit)))"

section \<open>What a covered cell means\<close>

lemma in_hits_of:
  "h \<in> set (hits_of ps cid ctrl) \<longleftrightarrow> (\<exists>p\<in>set ps. \<exists>d. (cid, d) \<in> set (po_coverage p) \<and> ctrl \<in> po_controls p \<and>
     h = \<lparr>ht_ids = po_effective p, ht_apps = dt_hit d, ht_name = (if po_name p = [] then po_id p else po_name p)\<rparr>)"
  unfolding hits_of_def by (auto split: if_splits)

text \<open>A policy that gives the control to somebody of the cohort on the class, with the applications it hits there.\<close>

definition protects :: "policy \<Rightarrow> string \<Rightarrow> string \<Rightarrow> detail \<Rightarrow> bool" where
  "protects p cid ctrl d \<longleftrightarrow> po_is_enforced p \<and> ctrl \<in> po_controls p \<and> (cid, d) \<in> set (po_coverage p)"

lemma cell_state:
  "ce_state (cell_of cohort hits ro apps) = Covered \<longleftrightarrow> cohort \<noteq> {} \<and>
     (\<forall>u\<in>cohort. \<exists>h\<in>set hits. u \<in> ht_ids h) \<and>
     (\<forall>a\<in>apps. \<exists>h\<in>set hits. cohort \<inter> ht_ids h \<noteq> {} \<and> a \<in> ht_apps h)"
proof (cases "cohort = {}")
  case True
  then show ?thesis by (simp add: cell_of_def na_cell_def)
next
  case False
  let ?reaching = "filter (\<lambda>h. cohort \<inter> ht_ids h \<noteq> {}) hits"
  let ?users = "\<Union> (set (map (\<lambda>h. cohort \<inter> ht_ids h) ?reaching))"
  have users: "cohort \<subseteq> ?users \<longleftrightarrow> (\<forall>u\<in>cohort. \<exists>h\<in>set hits. u \<in> ht_ids h)"
    by (auto, blast)
  have apps: "apps \<subseteq> \<Union> (set (map ht_apps ?reaching)) \<longleftrightarrow>
      (\<forall>a\<in>apps. \<exists>h\<in>set hits. cohort \<inter> ht_ids h \<noteq> {} \<and> a \<in> ht_apps h)"
    by (simp add: subset_iff) blast
  have "ce_state (cell_of cohort hits ro apps) = Covered \<longleftrightarrow>
      ?users \<noteq> {} \<and> cohort \<subseteq> ?users \<and> (apps = {} \<or> apps \<subseteq> \<Union> (set (map ht_apps ?reaching)))"
    using False by (simp add: cell_of_def Let_def)
  also have "\<dots> \<longleftrightarrow> cohort \<subseteq> ?users \<and> apps \<subseteq> \<Union> (set (map ht_apps ?reaching))"
    using False by blast
  finally show ?thesis using users apps False by simp
qed

lemma hits_enforced:
  "(\<exists>h\<in>set (hits_of (filter po_is_enforced ps) cid ctrl). Q (ht_ids h) (ht_apps h)) \<longleftrightarrow>
   (\<exists>p\<in>set ps. \<exists>d. protects p cid ctrl d \<and> Q (po_effective p) (dt_hit d))"
proof
  assume "\<exists>h\<in>set (hits_of (filter po_is_enforced ps) cid ctrl). Q (ht_ids h) (ht_apps h)"
  then obtain h where h: "h \<in> set (hits_of (filter po_is_enforced ps) cid ctrl)" "Q (ht_ids h) (ht_apps h)" by blast
  from h(1) obtain p d where "p \<in> set ps" "protects p cid ctrl d" "ht_ids h = po_effective p" "ht_apps h = dt_hit d"
    unfolding in_hits_of protects_def by auto
  with h(2) show "\<exists>p\<in>set ps. \<exists>d. protects p cid ctrl d \<and> Q (po_effective p) (dt_hit d)" by auto
next
  assume "\<exists>p\<in>set ps. \<exists>d. protects p cid ctrl d \<and> Q (po_effective p) (dt_hit d)"
  then obtain p d where p: "p \<in> set ps" "protects p cid ctrl d" "Q (po_effective p) (dt_hit d)" by blast
  let ?h = "\<lparr>ht_ids = po_effective p, ht_apps = dt_hit d, ht_name = (if po_name p = [] then po_id p else po_name p)\<rparr>"
  have "?h \<in> set (hits_of (filter po_is_enforced ps) cid ctrl)"
    unfolding in_hits_of using p(1,2) unfolding protects_def by auto
  with p(3) show "\<exists>h\<in>set (hits_of (filter po_is_enforced ps) cid ctrl). Q (ht_ids h) (ht_apps h)"
    by (intro bexI [of _ ?h]) simp_all
qed

text \<open>
  Lemma. A cell of the matrix is shown as covered exactly when the control applies to the class, the cohort
  is not empty, every member of the cohort is in the effective users of an enforced policy that has the
  control and touches the class, and every application of the class is hit by such a policy that
  reaches somebody of the cohort. Report-only and disabled policies do not count.
\<close>
lemma covered_cell_exact:
  "ce_state (matrix_cell doc keys ix ps cohort cid ctrl) = Covered \<longleftrightarrow>
     ctrl \<in> applicable_controls doc cid keys \<and> cohort \<noteq> {} \<and>
     (\<forall>u\<in>cohort. \<exists>p\<in>set ps. \<exists>d. protects p cid ctrl d \<and> u \<in> po_effective p) \<and>
     (\<forall>a\<in>ix_members ix cid. \<exists>p\<in>set ps. \<exists>d. protects p cid ctrl d \<and> a \<in> dt_hit d \<and> cohort \<inter> po_effective p \<noteq> {})"
proof (cases "ctrl \<in> applicable_controls doc cid keys")
  case True
  have "(\<exists>h\<in>set (hits_of (filter po_is_enforced ps) cid ctrl). u \<in> ht_ids h) \<longleftrightarrow>
      (\<exists>p\<in>set ps. \<exists>d. protects p cid ctrl d \<and> u \<in> po_effective p)" for u
    by (rule hits_enforced [where Q = "\<lambda>i a. u \<in> i"])
  moreover have "(\<exists>h\<in>set (hits_of (filter po_is_enforced ps) cid ctrl). cohort \<inter> ht_ids h \<noteq> {} \<and> a \<in> ht_apps h) \<longleftrightarrow>
      (\<exists>p\<in>set ps. \<exists>d. protects p cid ctrl d \<and> cohort \<inter> po_effective p \<noteq> {} \<and> a \<in> dt_hit d)" for a
    by (rule hits_enforced [where Q = "\<lambda>i b. cohort \<inter> i \<noteq> {} \<and> a \<in> b"])
  ultimately show ?thesis using True by (simp add: matrix_cell_def cell_state conj_commute)
qed (simp add: matrix_cell_def na_cell_def)

text \<open>
  The class of all cloud apps has no member applications, so the application axis cannot fail there: an
  enforced policy on all apps that excludes some of them makes the cell covered.
\<close>

lemma all_apps_covered_despite_exclusions:
  assumes "ix_members ix ''all_cloud_apps'' = {}" "protects p ''all_cloud_apps'' ctrl d" "dt_missed d \<noteq> {}"
    and "cohort \<noteq> {}" "cohort \<subseteq> po_effective p" "ctrl \<in> applicable_controls doc ''all_cloud_apps'' keys"
  shows "ce_state (matrix_cell doc keys ix [p] cohort ''all_cloud_apps'' ctrl) = Covered"
proof -
  have "ce_state (cell_of cohort (hits_of (filter po_is_enforced [p]) ''all_cloud_apps'' ctrl)
      (hits_of (filter po_is_report_only [p]) ''all_cloud_apps'' ctrl \<noteq> []) {}) = Covered"
    unfolding cell_state hits_enforced [where Q = "\<lambda>i a. u \<in> i" for u] using assms by auto
  then show ?thesis using assms(1,6) by (simp add: matrix_cell_def)
qed

text \<open>A cell that is covered: the policy reaches the one member of the cohort and the one application of the class.\<close>

definition example_reaching :: policy where
  "example_reaching = raw_policy.extend example_policy
     \<lparr>po_fingerprint = [], po_include_all = True, po_included = {''v''}, po_excluded = {}, po_effective = {''v''},
      po_controls = {''mfa''}, po_coverage = [(''c'', \<lparr>dt_hit = {''a''}, dt_missed = {}, dt_basis = ''all''\<rparr>)],
      po_is_block = False, po_is_enforced = True, po_is_report_only = False, po_is_disabled = False, po_targets_all = True,
      po_blocks_legacy = False, po_risk = False, po_narrowing = []\<rparr>"

lemma covered_cell_exact_witness:
  "ce_state (matrix_cell \<lparr>tx_classes = [], tx_ms_tenants = [], tx_presets = [], tx_applicability = []\<rparr> [''mfa'']
     \<lparr>ix_all = {''a''}, ix_members = (\<lambda>_. {''a''})\<rparr> [example_reaching] {''v''} ''c'' ''mfa'') = Covered"
proof -
  have p: "protects example_reaching ''c'' ''mfa'' \<lparr>dt_hit = {''a''}, dt_missed = {}, dt_basis = ''all''\<rparr>"
    "po_effective example_reaching = {''v''}"
    by (simp_all add: protects_def example_reaching_def raw_policy.defs)
  have a: "''a'' \<in> dt_hit \<lparr>dt_hit = {''a''}, dt_missed = {}, dt_basis = ''all''\<rparr>" by simp
  from p(1) a have "\<exists>d. protects example_reaching ''c'' ''mfa'' d \<and> ''a'' \<in> dt_hit d" by blast
  then show ?thesis
    unfolding covered_cell_exact using p(2) by (auto simp: applicable_controls_def)
qed

end
