(* ===== verification/Ca_Simulator.thy ===== *)
theory Ca_Simulator
  imports Ca_Coverage "HOL-Library.Product_Lexorder"
begin

text \<open>
  The Conditional Access change simulator, \<^verbatim>\<open>app/entra/ca_simulator.py\<close>: evaluating a sign-in against a policy
  set, applying requested changes to the policies, and the difference the changes make for every selected
  principal and context. A policy here is a dictionary a request may have patched, so its keys are optional.
  Sentences for the reader are left out; the seeded sampler of the standard library is an argument.
\<close>

section \<open>Contexts and principals\<close>

record context_in =
  cx_key :: string
  cx_client_app :: string
  cx_platform :: string
  cx_location :: string
  cx_compliant :: bool
  cx_hybrid :: bool
  cx_sign_in_risk :: string
  cx_user_risk :: string
  cx_app_class :: string

definition sign_in_context :: "string \<Rightarrow> context_in" where
  "sign_in_context key = \<lparr>cx_key = key, cx_client_app = ''browser'', cx_platform = ''windows'', cx_location = ''untrusted'',
     cx_compliant = False, cx_hybrid = False, cx_sign_in_risk = ''none'', cx_user_risk = ''none'',
     cx_app_class = ''all_cloud_apps''\<rparr>"

definition DEFAULT_CONTEXTS :: "context_in list" where
  "DEFAULT_CONTEXTS =
     [sign_in_context ''browser_unmanaged'',
      (sign_in_context ''desktop_compliant'')\<lparr>cx_client_app := ''mobileAppsAndDesktopClients'', cx_compliant := True, cx_hybrid := True\<rparr>,
      (sign_in_context ''legacy_eas'')\<lparr>cx_client_app := ''exchangeActiveSync''\<rparr>,
      (sign_in_context ''legacy_other'')\<lparr>cx_client_app := ''other''\<rparr>,
      (sign_in_context ''trusted_location'')\<lparr>cx_location := ''trusted''\<rparr>,
      (sign_in_context ''admin_portal'')\<lparr>cx_app_class := ''admin_planes''\<rparr>,
      (sign_in_context ''azure_mgmt'')\<lparr>cx_app_class := ''management_apis''\<rparr>,
      (sign_in_context ''collab_content'')\<lparr>cx_app_class := ''collaboration_content''\<rparr>,
      (sign_in_context ''office365'')\<lparr>cx_app_class := ''office365_bundle''\<rparr>,
      (sign_in_context ''third_party'')\<lparr>cx_app_class := ''third_party_saas''\<rparr>,
      (sign_in_context ''register_security_info'')\<lparr>cx_app_class := ''identity_lifecycle''\<rparr>,
      (sign_in_context ''register_device'')\<lparr>cx_app_class := ''identity_lifecycle''\<rparr>,
      (sign_in_context ''high_risk'')\<lparr>cx_sign_in_risk := ''high'', cx_user_risk := ''high''\<rparr>]"

definition NON_APP_CLASSES :: "string list" where
  "NON_APP_CLASSES = [''identity_lifecycle'', ''scoped_constructs'', ''legacy_protocols'']"

record principal =
  pr_id :: string
  pr_label :: string
  pr_is_user :: bool
  pr_mfa :: "bool option"
  pr_phish :: "bool option"
  pr_cohorts :: "string set"

definition capabilities :: "principal \<Rightarrow> context_in \<Rightarrow> string set" where
  "capabilities p ctx =
     add_if (pr_mfa p \<noteq> Some False \<and> pr_is_user p) {CTRL_MFA} \<union>
     add_if (pr_phish p = Some True) {CTRL_PHISH} \<union>
     add_if (cx_compliant ctx) {CTRL_COMPLIANT} \<union>
     add_if (cx_hybrid ctx) {CTRL_HYBRID} \<union>
     add_if (cx_client_app ctx \<in> {''browser'', ''mobileAppsAndDesktopClients''}) {CTRL_APPROVED_APP} \<union>
     {CTRL_SESSION}"

definition mfa_unknown :: "principal \<Rightarrow> bool" where
  "mfa_unknown p \<longleftrightarrow> pr_mfa p = None \<and> pr_is_user p"

section \<open>Policies as dictionaries\<close>

record sim_policy =
  si_id :: string
  si_name :: "string option"
  si_state :: "string option"
  si_enforced :: "bool option"
  si_report_only :: "bool option"
  si_disabled :: "bool option"
  si_block :: "bool option"
  si_controls :: "string set option"
  si_classes :: "string set option"
  si_effective :: "string set option"
  si_conditions :: "conditions option"
  si_operator :: "string option"
  si_session :: "session_controls option"

text \<open>A normalised policy has every key.\<close>

definition sim_policy_of :: "policy \<Rightarrow> sim_policy" where
  "sim_policy_of p = \<lparr>si_id = po_id p, si_name = Some (po_name p), si_state = Some (po_state p),
     si_enforced = Some (po_is_enforced p), si_report_only = Some (po_is_report_only p), si_disabled = Some (po_is_disabled p),
     si_block = Some (po_is_block p), si_controls = Some (po_controls p), si_classes = Some (app_classes p),
     si_effective = Some (po_effective p), si_conditions = Some (po_conditions p),
     si_operator = Some (gr_operator (po_grant p)), si_session = Some (po_session p)\<rparr>"

text \<open>\<open>_prepare\<close>: the row the evaluator reads.\<close>

record prepared =
  pp_name :: string
  pp_enforced :: bool
  pp_block :: bool
  pp_controls :: "string set"
  pp_classes :: "string set"
  pp_effective :: "string set"
  pp_conditions :: conditions
  pp_operator :: string
  pp_session :: "session_controls option"

definition or_else :: "'a option \<Rightarrow> 'a \<Rightarrow> 'a" where
  "or_else v d = (case v of None \<Rightarrow> d | Some x \<Rightarrow> x)"

definition prepare_policy :: "sim_policy \<Rightarrow> prepared" where
  "prepare_policy p =
     (let controls = or_else (si_controls p) {} in
      \<lparr>pp_name = or_else (si_name p) [], pp_enforced = or_else (si_enforced p) (si_state p = Some STATE_ENABLED),
       pp_block = or_else (si_block p) (CTRL_BLOCK \<in> controls), pp_controls = controls,
       pp_classes = or_else (si_classes p) {}, pp_effective = or_else (si_effective p) {},
       pp_conditions = or_else (si_conditions p) no_conditions,
       pp_operator = str_or (si_operator p) ''OR'', pp_session = si_session p\<rparr>)"

definition prepare :: "sim_policy list \<Rightarrow> prepared list" where
  "prepare ps = map prepare_policy ps"

section \<open>Evaluation\<close>

definition class_reached :: "prepared \<Rightarrow> context_in \<Rightarrow> bool" where
  "class_reached p ctx \<longleftrightarrow> cx_app_class ctx \<in> pp_classes p \<or>
     cx_app_class ctx \<notin> set NON_APP_CLASSES \<and> ''all_cloud_apps'' \<in> pp_classes p"

definition location_ok :: "conditions \<Rightarrow> context_in \<Rightarrow> bool" where
  "location_ok c ctx \<longleftrightarrow>
     (cn_locations_include c = [] \<or> ''All'' \<in> set (cn_locations_include c) \<or> cx_location ctx = ''trusted'') \<and>
     \<not> (''AllTrusted'' \<in> set (cn_locations_exclude c) \<and> cx_location ctx = ''trusted'')"

definition policy_matches :: "prepared \<Rightarrow> principal \<Rightarrow> context_in \<Rightarrow> bool" where
  "policy_matches p pr ctx \<longleftrightarrow>
     (let c = pp_conditions p in
      pr_id pr \<in> pp_effective p \<and> class_reached p ctx \<and>
      (cn_platforms_include c = [] \<or> ''all'' \<in> set (cn_platforms_include c) \<or> cx_platform ctx \<in> set (cn_platforms_include c)) \<and>
      cx_platform ctx \<notin> set (cn_platforms_exclude c) \<and>
      location_ok c ctx \<and>
      (cn_client_apps c = [] \<or> ''all'' \<in> set (cn_client_apps c) \<or> cx_client_app ctx \<in> set (cn_client_apps c)) \<and>
      cn_auth_flows c = [] \<and>
      (cn_sign_in_risk c = [] \<or> cx_sign_in_risk ctx \<in> set (cn_sign_in_risk c)) \<and>
      (cn_user_risk c = [] \<or> cx_user_risk ctx \<in> set (cn_user_risk c)))"

definition FRICTION_ORDER :: "string list" where
  "FRICTION_ORDER = [CTRL_MFA, CTRL_COMPLIANT, CTRL_HYBRID, CTRL_APPROVED_APP, CTRL_PHISH]"

definition py_upper_char :: "char \<Rightarrow> char" where
  "py_upper_char c = (if 97 \<le> char_code c \<and> char_code c \<le> 122 then char_of (char_code c - 32) else c)"

definition required_of :: "prepared \<Rightarrow> string set" where
  "required_of p =
     (let controls = pp_controls p - {CTRL_BLOCK} - SESSION_CONTROLS in
      if controls = {} then {}
      else if map py_upper_char (pp_operator p) = ''AND'' then controls
      else case find (\<lambda>c. c \<in> controls) FRICTION_ORDER of Some c \<Rightarrow> {c} | None \<Rightarrow> controls)"

definition required_controls :: "prepared list \<Rightarrow> string set" where
  "required_controls applicable = \<Union> (set (map required_of applicable))"

record session_entry =
  sx_key :: string
  sx_by :: "string list"
  sx_value :: "int option"
  sx_type :: string
  sx_mode :: string

definition session_keys :: "string list" where
  "session_keys = [CTRL_APP_ENFORCED, CTRL_CASB, CTRL_CAE, CTRL_PERSISTENT_BROWSER, CTRL_SIGNIN_FREQUENCY]"

definition session_entry_of :: "prepared list \<Rightarrow> string \<Rightarrow> session_entry" where
  "session_entry_of applicable control =
     (let having = filter (\<lambda>p. control \<in> pp_controls p) applicable;
          src = (case having of [] \<Rightarrow> None | p # _ \<Rightarrow> pp_session p)
      in \<lparr>sx_key = control, sx_by = map pp_name having,
          sx_value = (if control = CTRL_SIGNIN_FREQUENCY then Option.bind src se_frequency_value else None),
          sx_type = (if control = CTRL_SIGNIN_FREQUENCY then (case src of None \<Rightarrow> [] | Some s \<Rightarrow> se_frequency_type s) else []),
          sx_mode = (if control = CTRL_PERSISTENT_BROWSER then (case src of None \<Rightarrow> [] | Some s \<Rightarrow> se_persistent_mode s) else [])\<rparr>)"

definition session_of :: "prepared list \<Rightarrow> session_entry list" where
  "session_of applicable = map (session_entry_of applicable) session_keys"

definition session_on :: "session_entry list \<Rightarrow> string \<Rightarrow> bool" where
  "session_on s k \<longleftrightarrow> list_ex (\<lambda>e. sx_key e = k \<and> sx_by e \<noteq> []) s"

definition egress_restricted :: "session_entry list \<Rightarrow> bool" where
  "egress_restricted s \<longleftrightarrow> session_on s CTRL_APP_ENFORCED \<or> session_on s CTRL_CASB"

datatype verdict = Granted | Challenged | Blocked | Blocked_Effective

record outcome =
  oc_verdict :: verdict
  oc_policies :: "string list"
  oc_required :: "string set"
  oc_missing :: "string set"
  oc_protected :: bool
  oc_session :: "session_entry list"

definition applicable :: "prepared list \<Rightarrow> principal \<Rightarrow> context_in \<Rightarrow> prepared list" where
  "applicable ps pr ctx = filter (\<lambda>p. pp_enforced p \<and> policy_matches p pr ctx) ps"

definition evaluate :: "prepared list \<Rightarrow> principal \<Rightarrow> context_in \<Rightarrow> outcome" where
  "evaluate ps pr ctx =
     (let ap = applicable ps pr ctx; names = map pp_name ap;
          required = required_controls ap; missing = required - capabilities pr ctx
      in if ap = [] then \<lparr>oc_verdict = Granted, oc_policies = [], oc_required = {}, oc_missing = {}, oc_protected = False,
            oc_session = session_of []\<rparr>
         else if list_ex pp_block ap
         then \<lparr>oc_verdict = Blocked, oc_policies = names, oc_required = {''block''}, oc_missing = {''block''},
            oc_protected = True, oc_session = session_of ap\<rparr>
         else if missing = {}
         then \<lparr>oc_verdict = (if required = {} then Granted else Challenged), oc_policies = names, oc_required = required,
            oc_missing = {}, oc_protected = (required \<noteq> {}), oc_session = session_of ap\<rparr>
         else \<lparr>oc_verdict = Blocked_Effective, oc_policies = names, oc_required = required, oc_missing = missing,
            oc_protected = True, oc_session = session_of ap\<rparr>)"

section \<open>Changes\<close>

record change =
  cg_kind :: string
  cg_policy_id :: string
  cg_patch :: "sim_policy option"

datatype change_problem = Unknown_Kind string | No_Policy string

definition POLICY_SCOPED_KINDS :: "string list" where
  "POLICY_SCOPED_KINDS = [''enable'', ''disable'', ''report_only'', ''delete'']"

definition CHANGE_KINDS :: "string list" where
  "CHANGE_KINDS = POLICY_SCOPED_KINDS @ [''add'', ''modify'']"

text \<open>\<open>merged.update(proposed)\<close>: a key of the patch that is there replaces the old value.\<close>

definition newer :: "'a option \<Rightarrow> 'a option \<Rightarrow> 'a option" where
  "newer new old = (case new of None \<Rightarrow> old | Some x \<Rightarrow> Some x)"

definition empty_policy :: sim_policy where
  "empty_policy = \<lparr>si_id = [], si_name = None, si_state = None, si_enforced = None, si_report_only = None, si_disabled = None,
     si_block = None, si_controls = None, si_classes = None, si_effective = None, si_conditions = None,
     si_operator = None, si_session = None\<rparr>"

definition merge_policy :: "string \<Rightarrow> sim_policy \<Rightarrow> sim_policy \<Rightarrow> sim_policy" where
  "merge_policy new_id old patch =
     \<lparr>si_id = new_id,
      si_name = newer (newer (si_name patch) (si_name old)) (Some ''Proposed policy''),
      si_state = newer (si_state patch) (si_state old), si_enforced = newer (si_enforced patch) (si_enforced old),
      si_report_only = newer (si_report_only patch) (si_report_only old),
      si_disabled = newer (si_disabled patch) (si_disabled old), si_block = newer (si_block patch) (si_block old),
      si_controls = newer (si_controls patch) (si_controls old), si_classes = newer (si_classes patch) (si_classes old),
      si_effective = newer (si_effective patch) (si_effective old),
      si_conditions = newer (si_conditions patch) (si_conditions old),
      si_operator = newer (si_operator patch) (si_operator old), si_session = newer (si_session patch) (si_session old)\<rparr>"

type_synonym policy_dict = "(string \<times> sim_policy) list"

definition set_state :: "string \<Rightarrow> sim_policy \<Rightarrow> sim_policy" where
  "set_state kind p =
     (if kind = ''enable'' then p\<lparr>si_state := Some STATE_ENABLED, si_enforced := Some True, si_report_only := Some False, si_disabled := Some False\<rparr>
      else if kind = ''disable'' then p\<lparr>si_state := Some STATE_DISABLED, si_enforced := Some False, si_disabled := Some True\<rparr>
      else p\<lparr>si_state := Some STATE_REPORT_ONLY, si_enforced := Some False, si_report_only := Some True\<rparr>)"

definition patched_id :: "change \<Rightarrow> sim_policy \<Rightarrow> policy_dict \<Rightarrow> string" where
  "patched_id c patch d =
     (if si_id patch \<noteq> [] then si_id patch else if cg_policy_id c \<noteq> [] then cg_policy_id c
      else ''proposed-'' @ digits_of_int (int (length d)))"

fun apply_change :: "change \<Rightarrow> policy_dict \<Rightarrow> change_problem option \<times> policy_dict" where
  "apply_change c d =
     (let kind = cg_kind c; pid = cg_policy_id c in
      if kind \<notin> set CHANGE_KINDS then (Some (Unknown_Kind kind), d)
      else if kind \<in> set POLICY_SCOPED_KINDS then
        (case map_of d pid of
           None \<Rightarrow> (Some (No_Policy pid), d)
         | Some p \<Rightarrow> (None, if kind = ''delete'' then AList.delete pid d else AList.update pid (set_state kind p) d))
      else let patch = or_else (cg_patch c) empty_policy; new_id = patched_id c patch d;
               old = or_else (map_of d new_id) empty_policy
           in (None, AList.update new_id (merge_policy new_id old patch) d))"

declare apply_change.simps [simp del]

fun apply_all :: "change list \<Rightarrow> policy_dict \<Rightarrow> change_problem list \<times> policy_dict" where
  "apply_all [] d = ([], d)"
| "apply_all (c # cs) d =
     (let (e, d1) = apply_change c d; (es, d2) = apply_all cs d1
      in ((case e of None \<Rightarrow> es | Some x \<Rightarrow> x # es), d2))"

definition by_id :: "sim_policy list \<Rightarrow> policy_dict" where
  "by_id ps = fold (\<lambda>p d. AList.update (si_id p) p d) ps []"

definition apply_changes :: "sim_policy list \<Rightarrow> change list \<Rightarrow> (change_problem list, sim_policy list) result" where
  "apply_changes ps changes =
     (let (problems, d) = apply_all changes (by_id ps)
      in if problems \<noteq> [] then Inl problems else Inr (map snd d))"

section \<open>Principals\<close>

definition ALWAYS_FULL :: "string set" where
  "ALWAYS_FULL = {''break_glass'', ''break_glass_candidate'', ''global_admins'', ''privileged''}"

text \<open>Every enabled person and every enabled third-party service principal, tagged with cohorts.\<close>

definition person_cohorts :: "snapshot \<Rightarrow> string set \<Rightarrow> string set \<Rightarrow> person \<Rightarrow> string set" where
  "person_cohorts sn breakglass candidates u =
     (let uid = pe_id u in
      set (map ch_key (filter (\<lambda>c. uid \<in> ch_ids c) (build_cohorts sn breakglass))) \<union>
      (if uid \<in> breakglass then {''break_glass''} else if uid \<in> candidates then {''break_glass_candidate''} else {}) \<union>
      add_if (uid \<in> global_admin_ids (sn_roles sn)) {''global_admins''} \<union>
      add_if (uid \<in> privileged_principal_ids (sn_roles sn)) {''privileged''} \<union>
      add_if (pe_synced u) {''on_prem_synced''})"

definition person_label :: "person \<Rightarrow> string" where
  "person_label u = (if pe_upn u \<noteq> [] then pe_upn u else if pe_name u \<noteq> [] then pe_name u else pe_id u)"

definition person_principal :: "snapshot \<Rightarrow> string set \<Rightarrow> string set \<Rightarrow> person \<Rightarrow> principal" where
  "person_principal sn breakglass candidates u =
     \<lparr>pr_id = pe_id u, pr_label = person_label u, pr_is_user = True, pr_mfa = pe_mfa u, pr_phish = pe_phish u,
      pr_cohorts = person_cohorts sn breakglass candidates u\<rparr>"

definition workload_principal :: "service_principal \<Rightarrow> principal" where
  "workload_principal s =
     \<lparr>pr_id = str_or (sp_object s) [], pr_label = str_or (sp_name s) (str_or (sp_app_id s) []), pr_is_user = False,
      pr_mfa = Some False, pr_phish = Some False, pr_cohorts = {''workload_identities''}\<rparr>"

definition build_principals :: "snapshot \<Rightarrow> candidate list \<Rightarrow> principal list" where
  "build_principals sn candidates =
     (let breakglass = confirmed_ids candidates; cands = set (map cd_id candidates)
      in map (person_principal sn breakglass cands) (filter (\<lambda>u. pe_id u \<noteq> [] \<and> pe_enabled u) (sn_people sn)) @
         map workload_principal (filter (\<lambda>s. \<not> sp_first_party s \<and> sp_enabled s) (sn_apps sn)))"

text \<open>\<open>sample\<close> stands for the seeded \<open>random.Random.sample\<close>.\<close>

definition always_full :: "principal \<Rightarrow> bool" where
  "always_full p \<longleftrightarrow> pr_cohorts p \<inter> ALWAYS_FULL \<noteq> {}"

definition select_principals ::
  "(principal list \<Rightarrow> nat \<Rightarrow> principal list) \<Rightarrow> principal list \<Rightarrow> nat \<Rightarrow> string set \<Rightarrow> principal list" where
  "select_principals sample ps n wanted =
     (let pool = filter (\<lambda>p. wanted = {} \<or> pr_cohorts p \<inter> wanted \<noteq> {}) ps;
          always = filter always_full pool;
          rest = filter (\<lambda>p. p \<notin> set always) pool
      in always @ (if n < length rest then sample rest n else rest))"

section \<open>The difference\<close>

datatype category = Newly_Blocked | Newly_Challenged | Newly_Granted | Protection_Lost | Session_Tightened | Unchanged

definition blocking :: "verdict \<Rightarrow> bool" where
  "blocking v \<longleftrightarrow> v = Blocked \<or> v = Blocked_Effective"

datatype delta = Relaxed | Tightened | Same

definition session_delta :: "outcome \<Rightarrow> outcome \<Rightarrow> delta" where
  "session_delta before after =
     (if list_ex (\<lambda>k. session_on (oc_session before) k \<and> \<not> session_on (oc_session after) k) session_keys then Relaxed
      else if list_ex (\<lambda>k. session_on (oc_session after) k \<and> \<not> session_on (oc_session before) k) session_keys then Tightened
      else Same)"

definition categorise :: "outcome \<Rightarrow> outcome \<Rightarrow> category" where
  "categorise before after =
     (let b = oc_verdict before; a = oc_verdict after in
      if b = a then
        (if oc_protected before \<and> \<not> oc_protected after then Protection_Lost
         else case session_delta before after of
           Relaxed \<Rightarrow> Protection_Lost | Tightened \<Rightarrow> Session_Tightened | Same \<Rightarrow> Unchanged)
      else if blocking a \<and> \<not> blocking b then Newly_Blocked
      else if a = Challenged \<and> b = Granted then Newly_Challenged
      else if a = Granted \<and> (b = Challenged \<or> blocking b)
        then (if oc_protected before then Protection_Lost else Newly_Granted)
      else if a = Challenged \<and> blocking b then Newly_Granted
      else Unchanged)"

definition category_order :: "category \<Rightarrow> nat" where
  "category_order c = (case c of Newly_Blocked \<Rightarrow> 0 | Protection_Lost \<Rightarrow> 1 | Newly_Challenged \<Rightarrow> 2
     | Newly_Granted \<Rightarrow> 3 | Session_Tightened \<Rightarrow> 4 | Unchanged \<Rightarrow> 5)"

record case_row =
  ca_principal :: principal
  ca_context :: string
  ca_before :: outcome
  ca_after :: outcome
  ca_category :: category

definition order_cases :: "case_row list \<Rightarrow> case_row list" where
  "order_cases cs = sort_key (\<lambda>c.
     (if ''break_glass'' \<in> pr_cohorts (ca_principal c) then 0 else 1 :: nat, category_order (ca_category c),
      if ''privileged'' \<in> pr_cohorts (ca_principal c) then 0 else 1 :: nat, pr_label (ca_principal c))) cs"

definition MAX_CASES :: nat where
  "MAX_CASES = 20000"

definition MAX_LISTED :: nat where
  "MAX_LISTED = 100"

record simulation =
  sm_rows :: "case_row list"
  sm_cases :: "case_row list"
  sm_total :: nat
  sm_break_glass :: "case_row list"
  sm_break_glass_affected :: nat
  sm_mfa_unknown :: nat
  sm_exhausted :: bool

definition case_of :: "prepared list \<Rightarrow> prepared list \<Rightarrow> principal \<times> context_in \<Rightarrow> case_row" where
  "case_of base prop pc =
     (let before = evaluate base (fst pc) (snd pc); after = evaluate prop (fst pc) (snd pc)
      in \<lparr>ca_principal = fst pc, ca_context = cx_key (snd pc), ca_before = before, ca_after = after,
          ca_category = categorise before after\<rparr>)"

text \<open>The requested contexts that exist, or all of them when none does.\<close>

definition chosen_contexts :: "string list \<Rightarrow> context_in list" where
  "chosen_contexts keys =
     (let found = List.map_filter (\<lambda>k. find (\<lambda>c. cx_key c = k) DEFAULT_CONTEXTS) keys
      in if found = [] then DEFAULT_CONTEXTS else found)"

definition pairs :: "principal list \<Rightarrow> context_in list \<Rightarrow> (principal \<times> context_in) list" where
  "pairs ps cs = List.product ps cs"

text \<open>The loops stop evaluating when the case budget is spent; \<open>sm_rows\<close> is every evaluated pair.\<close>

definition run_diff :: "prepared list \<Rightarrow> prepared list \<Rightarrow> principal list \<Rightarrow> context_in list \<Rightarrow> simulation" where
  "run_diff base prop selected ctxs =
     (let rows = map (case_of base prop) (take MAX_CASES (pairs selected ctxs));
          cases = filter (\<lambda>r. ca_category r \<noteq> Unchanged) rows;
          glass = filter (\<lambda>r. ''break_glass'' \<in> pr_cohorts (ca_principal r) \<and> ca_category r = Newly_Blocked) cases
      in \<lparr>sm_rows = rows, sm_cases = take MAX_LISTED (order_cases cases), sm_total = length cases,
          sm_break_glass = take MAX_LISTED glass,
          sm_break_glass_affected = card (set (map (\<lambda>r. pr_id (ca_principal r)) glass)),
          sm_mfa_unknown = length (filter mfa_unknown selected),
          sm_exhausted = (MAX_CASES \<le> length (pairs selected ctxs))\<rparr>)"

definition count_category :: "simulation \<Rightarrow> category \<Rightarrow> nat" where
  "count_category s c = length (filter (\<lambda>r. ca_category r = c) (sm_rows s))"

definition count_by_cohort :: "simulation \<Rightarrow> string \<Rightarrow> category \<Rightarrow> nat" where
  "count_by_cohort s k c = length (filter (\<lambda>r. ca_category r = c \<and> k \<in> pr_cohorts (ca_principal r)) (sm_rows s))"

definition count_by_context :: "simulation \<Rightarrow> string \<Rightarrow> category \<Rightarrow> nat" where
  "count_by_context s k c = length (filter (\<lambda>r. ca_category r = c \<and> ca_context r = k) (sm_rows s))"

definition simulate ::
  "(principal list \<Rightarrow> nat \<Rightarrow> principal list) \<Rightarrow> snapshot \<Rightarrow> policy list \<Rightarrow> candidate list \<Rightarrow> change list
   \<Rightarrow> string list \<Rightarrow> string set \<Rightarrow> nat \<Rightarrow> (change_problem list, simulation) result" where
  "simulate sample sn policies candidates changes contexts cohorts n =
     (let raw = map sim_policy_of policies in
      case apply_changes raw changes of
        Inl problems \<Rightarrow> Inl problems
      | Inr proposed \<Rightarrow> Inr (run_diff (prepare raw) (prepare proposed)
          (select_principals sample (build_principals sn candidates) n cohorts) (chosen_contexts contexts)))"

section \<open>Comparing engines\<close>

definition normalise_verdict :: "string \<Rightarrow> string" where
  "normalise_verdict v =
     (let v = py_lower v in
      if v \<in> {''blocked'', ''blocked_effective'', ''failure'', ''notapplied_blocked''} then ''blocked''
      else if v \<in> {''challenged'', ''success_with_mfa'', ''mfarequired''} then ''challenged'' else ''granted'')"

definition verdict_text :: "verdict \<Rightarrow> string" where
  "verdict_text v = (case v of Granted \<Rightarrow> ''granted'' | Challenged \<Rightarrow> ''challenged'' | Blocked \<Rightarrow> ''blocked''
     | Blocked_Effective \<Rightarrow> ''blocked_effective'')"

definition case_key :: "case_row \<Rightarrow> string" where
  "case_key r = pr_id (ca_principal r) @ ''|'' @ ca_context r"

datatype confidence = Verified | Modelled | Modelled_Unverified

text \<open>Sampled and disagreeing cases, and the confidence (a rate above one tenth is unverified).\<close>

definition compare_engines :: "case_row list \<Rightarrow> (string \<times> string) list \<Rightarrow> nat \<times> case_row list \<times> confidence" where
  "compare_engines local microsoft =
     (let sampled = length (filter (\<lambda>r. map_of microsoft (case_key r) \<noteq> None) local);
          wrong = filter (\<lambda>r. case map_of microsoft (case_key r) of None \<Rightarrow> False
            | Some ms \<Rightarrow> normalise_verdict ms \<noteq> normalise_verdict (verdict_text (oc_verdict (ca_after r)))) local
      in (sampled, wrong,
          if sampled \<noteq> 0 \<and> wrong = [] then Verified
          else if sampled < 10 * length wrong then Modelled_Unverified else Modelled))"

section \<open>Evaluating more policies\<close>

definition strictness :: "verdict \<Rightarrow> nat" where
  "strictness v = (case v of Granted \<Rightarrow> 0 | Challenged \<Rightarrow> 1 | Blocked_Effective \<Rightarrow> 2 | Blocked \<Rightarrow> 3)"

lemma required_controls_append [simp]:
  "required_controls (xs @ ys) = required_controls xs \<union> required_controls ys"
  by (simp add: required_controls_def)

lemma applicable_append [simp]: "applicable (xs @ ys) pr ctx = applicable xs pr ctx @ applicable ys pr ctx"
  by (simp add: applicable_def)

lemma required_controls_Nil [simp]: "required_controls [] = {}"
  by (simp add: required_controls_def)

lemma evaluate_verdict:
  "oc_verdict (evaluate ps pr ctx) =
     (let ap = applicable ps pr ctx; required = required_controls ap in
      if list_ex pp_block ap then Blocked
      else if \<not> required \<subseteq> capabilities pr ctx then Blocked_Effective
      else if required \<noteq> {} then Challenged else Granted)"
  by (auto simp: evaluate_def Let_def)

text \<open>
  Lemma. More policies never make a sign-in easier: inserting a policy anywhere in the set leaves the
  verdict of every principal in every context as it was or makes it stricter, in the order granted, challenged,
  blocked in effect, blocked; and it never withdraws protection.
\<close>
lemma policy_never_relaxes:
  "strictness (oc_verdict (evaluate (xs @ ys) pr ctx)) \<le> strictness (oc_verdict (evaluate (xs @ p # ys) pr ctx)) \<and>
   oc_protected (evaluate (xs @ ys) pr ctx) \<le> oc_protected (evaluate (xs @ p # ys) pr ctx)"
proof -
  let ?old = "applicable (xs @ ys) pr ctx" and ?new = "applicable (xs @ p # ys) pr ctx"
  have sub: "set ?old \<subseteq> set ?new" by (auto simp: applicable_def)
  have req: "required_controls ?old \<subseteq> required_controls ?new"
    using sub unfolding required_controls_def by auto
  have blk: "list_ex pp_block ?old \<Longrightarrow> list_ex pp_block ?new" using sub by (auto simp: list_ex_iff)
  have "strictness (oc_verdict (evaluate (xs @ ys) pr ctx)) \<le> strictness (oc_verdict (evaluate (xs @ p # ys) pr ctx))"
    unfolding evaluate_verdict Let_def strictness_def using req blk by (auto split: if_splits)
  moreover have protected: "oc_protected (evaluate qs pr ctx) \<longleftrightarrow>
      list_ex pp_block (applicable qs pr ctx) \<or> required_controls (applicable qs pr ctx) \<noteq> {}" for qs
    by (auto simp: evaluate_def Let_def)
  moreover have "oc_protected (evaluate (xs @ ys) pr ctx) \<Longrightarrow> oc_protected (evaluate (xs @ p # ys) pr ctx)"
    unfolding protected using req blk by blast
  ultimately show ?thesis by (simp add: le_bool_def)
qed

lemma sim_policy_sel [simp]:
  "pp_enforced (prepare_policy (sim_policy_of p)) = po_is_enforced p"
  "pp_effective (prepare_policy (sim_policy_of p)) = po_effective p"
  by (simp_all add: prepare_policy_def sim_policy_of_def or_else_def Let_def)

text \<open>
  Lemma. The headline and the simulator agree about who is unprotected, and exclusions win: a person that every enabled
  policy of the tenant excludes counts among the uncovered users, and whoever is counted there is granted
  in every context, with no policy applying and no protection.
\<close>
lemma uncovered_users_are_unprotected:
  assumes "uid \<in> enabled_ids sn" "ps = normalize_policies sha1 doc tenant sn"
  shows "((\<forall>p\<in>set (sn_policies sn). po_state p = STATE_ENABLED \<longrightarrow> uid \<in> fst (exclude_side sn (po_conditions p))) \<longrightarrow>
      uid \<in> hl_uncovered_users (build_headline ps sn)) \<and>
    (uid \<in> hl_uncovered_users (build_headline ps sn) \<longrightarrow>
      (\<forall>pr ctx. pr_id pr = uid \<longrightarrow> evaluate (prepare (map sim_policy_of ps)) pr ctx =
         \<lparr>oc_verdict = Granted, oc_policies = [], oc_required = {}, oc_missing = {}, oc_protected = False, oc_session = session_of []\<rparr>))"
proof (intro conjI impI allI)
  assume ex: "\<forall>p\<in>set (sn_policies sn). po_state p = STATE_ENABLED \<longrightarrow> uid \<in> fst (exclude_side sn (po_conditions p))"
  show "uid \<in> hl_uncovered_users (build_headline ps sn)"
    unfolding uncovered_iff assms(2) using assms(1) ex by (auto elim!: normalizedE)
next
  fix pr :: principal and ctx :: context_in
  assume "uid \<in> hl_uncovered_users (build_headline ps sn)" "pr_id pr = uid"
  then have "applicable (prepare (map sim_policy_of ps)) pr ctx = []"
    by (auto simp: applicable_def prepare_def filter_empty_conv uncovered_iff policy_matches_def Let_def)
  then show "evaluate (prepare (map sim_policy_of ps)) pr ctx =
      \<lparr>oc_verdict = Granted, oc_policies = [], oc_required = {}, oc_missing = {}, oc_protected = False, oc_session = session_of []\<rparr>"
    by (simp add: evaluate_def)
qed

section \<open>What a simulation reports\<close>

lemma always_selected:
  assumes "pr \<in> set ps" "always_full pr" "wanted = {} \<or> pr_cohorts pr \<inter> wanted \<noteq> {}"
  shows "\<exists>rest. select_principals sample ps n wanted =
      filter always_full (filter (\<lambda>p. wanted = {} \<or> pr_cohorts p \<inter> wanted \<noteq> {}) ps) @ rest \<and>
    pr \<in> set (filter always_full (filter (\<lambda>p. wanted = {} \<or> pr_cohorts p \<inter> wanted \<noteq> {}) ps))"
  using assms by (auto simp: select_principals_def Let_def)

lemma product_append: "List.product (xs @ ys) cs = List.product xs cs @ List.product ys cs"
  by (induction xs) simp_all

lemma in_budget:
  assumes "x \<in> set always" "c \<in> set cs" "length always * length cs \<le> n"
  shows "(x, c) \<in> set (take n (pairs (always @ rest) cs))"
proof -
  have "(x, c) \<in> set (List.product always cs)" using assms(1,2) by simp
  moreover have "length (List.product always cs) \<le> n" using assms(3) by (simp add: length_product)
  ultimately show ?thesis by (simp add: pairs_def product_append)
qed

lemma newly_blocked: "blocking (oc_verdict a) \<Longrightarrow> \<not> blocking (oc_verdict b) \<Longrightarrow> categorise b a = Newly_Blocked"
  by (auto simp: categorise_def Let_def)

lemma simulate_Inr:
  assumes "simulate sample sn policies candidates changes contexts cohorts n = Inr s"
  obtains proposed where "apply_changes (map sim_policy_of policies) changes = Inr proposed"
    "s = run_diff (prepare (map sim_policy_of policies)) (prepare proposed)
       (select_principals sample (build_principals sn candidates) n cohorts) (chosen_contexts contexts)"
  using assms by (auto simp: simulate_def Let_def split: sum.splits)

definition in_cohorts :: "string set \<Rightarrow> principal \<Rightarrow> bool" where
  "in_cohorts wanted pr \<longleftrightarrow> wanted = {} \<or> pr_cohorts pr \<inter> wanted \<noteq> {}"

text \<open>The cases of the principals that are never sampled away, in the cohorts asked for.\<close>

definition protected_cases :: "snapshot \<Rightarrow> candidate list \<Rightarrow> string list \<Rightarrow> string set \<Rightarrow> nat" where
  "protected_cases sn candidates contexts wanted =
     length (filter always_full (filter (in_cohorts wanted) (build_principals sn candidates))) * length (chosen_contexts contexts)"

text \<open>What a simulation shows of a case that is newly blocked.\<close>

definition reports :: "simulation \<Rightarrow> principal \<Rightarrow> string \<Rightarrow> bool" where
  "reports s pr k \<longleftrightarrow>
     (\<exists>r\<in>set (sm_rows s). ca_principal r = pr \<and> ca_context r = k \<and> ca_category r = Newly_Blocked) \<and>
     0 < count_category s Newly_Blocked \<and> 0 < sm_total s \<and>
     (''break_glass'' \<in> pr_cohorts pr \<longrightarrow> 0 < sm_break_glass_affected s \<and> sm_break_glass s \<noteq> [])"

lemma over_budget_is_exhausted:
  assumes "MAX_CASES \<le> length always * length contexts"
  shows "sm_exhausted (run_diff base new (always @ rest) contexts)"
proof -
  have "length always * length contexts \<le> length (List.product (always @ rest) contexts)"
    by (simp add: length_product add_mult_distrib)
  with assms have "MAX_CASES \<le> length (pairs (always @ rest) contexts)" unfolding pairs_def by linarith
  then show ?thesis by (simp add: run_diff_def Let_def)
qed

lemma lockout_is_a_row:
  assumes s: "s = run_diff base new selected contexts"
    and taken: "(pr, ctx) \<in> set (take MAX_CASES (pairs selected contexts))"
    and lockout: "blocking (oc_verdict (evaluate new pr ctx))" "\<not> blocking (oc_verdict (evaluate base pr ctx))"
  shows "reports s pr (cx_key ctx)"
proof -
  let ?row = "case_of base new (pr, ctx)"
  have row: "?row \<in> set (sm_rows s)" using taken by (simp add: s run_diff_def Let_def)
  have cat: "ca_principal ?row = pr" "ca_context ?row = cx_key ctx" "ca_category ?row = Newly_Blocked"
    using newly_blocked [OF lockout] by (simp_all add: case_of_def Let_def)
  have rows: "sm_total s = length (filter (\<lambda>r. ca_category r \<noteq> Unchanged) (sm_rows s))"
    "sm_break_glass s = take MAX_LISTED (filter (\<lambda>r. ''break_glass'' \<in> pr_cohorts (ca_principal r) \<and> ca_category r = Newly_Blocked)
       (filter (\<lambda>r. ca_category r \<noteq> Unchanged) (sm_rows s)))"
    "sm_break_glass_affected s = card (set (map (\<lambda>r. pr_id (ca_principal r))
       (filter (\<lambda>r. ''break_glass'' \<in> pr_cohorts (ca_principal r) \<and> ca_category r = Newly_Blocked)
         (filter (\<lambda>r. ca_category r \<noteq> Unchanged) (sm_rows s)))))"
    unfolding s run_diff_def Let_def by simp_all
  have filled: "filter P (sm_rows s) \<noteq> []" if "P ?row" for P
    using row that by (auto simp: filter_empty_conv)
  have "0 < count_category s Newly_Blocked" "0 < sm_total s"
    unfolding count_category_def rows(1) using filled cat(3) by simp_all
  moreover have "0 < sm_break_glass_affected s \<and> sm_break_glass s \<noteq> []" if g: "''break_glass'' \<in> pr_cohorts pr"
  proof -
    have "filter (\<lambda>r. ''break_glass'' \<in> pr_cohorts (ca_principal r) \<and> ca_category r = Newly_Blocked)
        (filter (\<lambda>r. ca_category r \<noteq> Unchanged) (sm_rows s)) \<noteq> []"
      unfolding filter_filter by (rule filled) (use cat g in simp)
    moreover have "0 < card (set (map (\<lambda>r. pr_id (ca_principal r)) xs)) \<and> take MAX_LISTED xs \<noteq> []" if "xs \<noteq> []" for xs
      using that by (simp add: card_gt_0_iff MAX_LISTED_def)
    ultimately show ?thesis unfolding rows(2,3) by blast
  qed
  ultimately show ?thesis unfolding reports_def using row cat by blast
qed

text \<open>
  C11. No lockout of a protected principal goes unreported. Whatever the sampler, the sample size and the cohorts
  asked for are, when an emergency account, a candidate for one, a global administrator or a privileged principal,
  of one of those cohorts when some are named, can sign in under the present policies in a chosen context and cannot
  under the proposed ones, the simulation has the row, counts it as newly blocked, and, for a confirmed emergency
  account, counts the account among the affected; unless the cases of such principals alone exceed the case
  budget, and then the simulation says that it exhausted its budget.
\<close>
theorem lockout_is_reported:
  assumes "simulate sample sn policies candidates changes contexts cohorts n = Inr s"
    and "apply_changes (map sim_policy_of policies) changes = Inr proposed"
    and "pr \<in> set (build_principals sn candidates)" "always_full pr" "in_cohorts cohorts pr"
    and "ctx \<in> set (chosen_contexts contexts)"
    and "\<not> blocking (oc_verdict (evaluate (prepare (map sim_policy_of policies)) pr ctx))"
    and "blocking (oc_verdict (evaluate (prepare proposed) pr ctx))"
  shows "reports s pr (cx_key ctx) \<or>
    MAX_CASES < protected_cases sn candidates contexts cohorts \<and> sm_exhausted s"
proof -
  let ?base = "prepare (map sim_policy_of policies)" and ?new = "prepare proposed"
  let ?selected = "select_principals sample (build_principals sn candidates) n cohorts"
  let ?always = "filter always_full (filter (in_cohorts cohorts) (build_principals sn candidates))"
  have s: "s = run_diff ?base ?new ?selected (chosen_contexts contexts)"
    using assms(1,2) by (auto elim: simulate_Inr)
  obtain rest where rest: "?selected = ?always @ rest" and pr: "pr \<in> set ?always"
    using always_selected [OF assms(3,4) assms(5) [unfolded in_cohorts_def], of sample n]
    unfolding in_cohorts_def [abs_def] by blast
  show ?thesis
  proof (cases "protected_cases sn candidates contexts cohorts \<le> MAX_CASES")
    case True
    then have "(pr, ctx) \<in> set (take MAX_CASES (pairs ?selected (chosen_contexts contexts)))"
      unfolding rest protected_cases_def by (rule in_budget [OF pr assms(6)])
    from lockout_is_a_row [OF s this assms(8,7)] show ?thesis ..
  next
    case False
    then have "sm_exhausted s" unfolding s rest
      by (intro over_budget_is_exhausted) (simp add: protected_cases_def)
    with False show ?thesis by simp
  qed
qed

section \<open>Examples\<close>

definition example_person :: person where
  "example_person = \<lparr>pe_id = ''u'', pe_enabled = True, pe_guest = False, pe_mfa = Some False, pe_phish = None, pe_synced = False,
     pe_upn = ''u@t'', pe_name = [], pe_department = [], pe_title = [], pe_last_signin = None, pe_signin_known = False\<rparr>"

definition example_snapshot :: snapshot where
  "example_snapshot = \<lparr>sn_policies = [], sn_strengths = [], sn_group_members = [], sn_people = [example_person],
     sn_roles = \<lparr>ro_definitions = [], ro_assignments = [], ro_group_derived = [], ro_eligible = []\<rparr>, sn_apps = []\<rparr>"

definition example_candidate :: candidate where
  "example_candidate = \<lparr>cd_id = ''u'', cd_score = 5, cd_confirmed = Some True, cd_lockout_risk = False\<rparr>"

text \<open>A request that adds a policy requiring MFA of the emergency account, which has no method.\<close>

definition example_change :: change where
  "example_change = \<lparr>cg_kind = ''add'', cg_policy_id = ''p'', cg_patch = Some (empty_policy\<lparr>si_state := Some ''enabled'',
     si_controls := Some {''mfa''}, si_classes := Some {''all_cloud_apps''}, si_effective := Some {''u''}\<rparr>)\<rparr>"

definition example_principal :: principal where
  "example_principal = person_principal example_snapshot {''u''} {''u''} example_person"

definition example_proposed :: sim_policy where
  "example_proposed = empty_policy\<lparr>si_id := ''p'', si_name := Some ''Proposed policy'', si_state := Some ''enabled'',
     si_controls := Some {''mfa''}, si_classes := Some {''all_cloud_apps''}, si_effective := Some {''u''}\<rparr>"

lemma example_applied: "apply_changes [] [example_change] = Inr [example_proposed]"
  by (simp add: apply_changes_def by_id_def apply_change.simps Let_def example_change_def CHANGE_KINDS_def
      POLICY_SCOPED_KINDS_def or_else_def patched_id_def empty_policy_def merge_policy_def newer_def example_proposed_def)

lemma example_principals: "build_principals example_snapshot [example_candidate] = [example_principal]"
  by (simp add: build_principals_def example_snapshot_def example_person_def confirmed_ids_def example_candidate_def
      example_principal_def)

lemma example_context: "sign_in_context ''browser_unmanaged'' \<in> set (chosen_contexts [])"
  "length (chosen_contexts []) = 13"
  by (simp_all add: chosen_contexts_def DEFAULT_CONTEXTS_def)

lemma example_always_full: "always_full example_principal" "''break_glass'' \<in> pr_cohorts example_principal"
  by (simp_all add: always_full_def example_principal_def person_principal_def person_cohorts_def ALWAYS_FULL_def
      example_person_def Let_def)

lemma example_verdict:
  "oc_verdict (evaluate (prepare [example_proposed]) example_principal (sign_in_context ''browser_unmanaged'')) = Blocked_Effective"
  by (simp add: evaluate_verdict Let_def applicable_def prepare_def prepare_policy_def example_proposed_def empty_policy_def
      or_else_def STATE_ENABLED_def policy_matches_def class_reached_def location_ok_def no_conditions_def
      example_principal_def person_principal_def example_person_def sign_in_context_def required_controls_def required_of_def
      CTRL_defs SESSION_CONTROLS_def FRICTION_ORDER_def str_or_def py_upper_char_def capabilities_def add_if_def)

lemma example_baseline: "oc_verdict (evaluate (prepare []) pr ctx) = Granted"
  by (simp add: evaluate_verdict Let_def applicable_def prepare_def)

lemma example_cohort: "in_cohorts {''break_glass''} example_principal"
  using example_always_full(2) by (simp add: in_cohorts_def)

theorem lockout_is_reported_witness:
  "\<exists>s. simulate (\<lambda>ps n. take n ps) example_snapshot [] [example_candidate] [example_change] [] {''break_glass''} 50 = Inr s \<and>
     reports s example_principal ''browser_unmanaged'' \<and> 0 < sm_break_glass_affected s"
proof -
  obtain s where s: "simulate (\<lambda>ps n. take n ps) example_snapshot [] [example_candidate] [example_change] [] {''break_glass''} 50 = Inr s"
    by (simp add: simulate_def example_applied)
  have "protected_cases example_snapshot [example_candidate] [] {''break_glass''} \<le> MAX_CASES"
    by (simp add: protected_cases_def example_principals example_always_full example_context example_cohort MAX_CASES_def)
  moreover have "reports s example_principal (cx_key (sign_in_context ''browser_unmanaged'')) \<or>
      MAX_CASES < protected_cases example_snapshot [example_candidate] [] {''break_glass''} \<and> sm_exhausted s"
    by (rule lockout_is_reported [OF s, where proposed = "[example_proposed]"])
      (simp_all add: example_applied example_principals example_always_full example_context example_verdict blocking_def
        example_baseline example_cohort)
  moreover have "cx_key (sign_in_context ''browser_unmanaged'') = ''browser_unmanaged''" by (simp add: sign_in_context_def)
  ultimately have "reports s example_principal ''browser_unmanaged''" by simp
  with s example_always_full(2) show ?thesis unfolding reports_def by blast
qed

definition example_tenant :: snapshot where
  "example_tenant = example_snapshot\<lparr>sn_policies := [example_policy]\<rparr>"

lemma uncovered_users_are_unprotected_witness:
  "let ps = normalize_policies (\<lambda>s. s) \<lparr>tx_classes = [], tx_ms_tenants = [], tx_presets = [], tx_applicability = []\<rparr> [] example_tenant
   in ''u'' \<in> hl_uncovered_users (build_headline ps example_tenant) \<and>
      oc_verdict (evaluate (prepare (map sim_policy_of ps)) example_principal (sign_in_context ''k'')) = Granted"
proof -
  have e: "''u'' \<in> enabled_ids example_tenant"
    by (simp add: enabled_ids_def example_tenant_def example_snapshot_def example_person_def)
  have x: "\<forall>p\<in>set (sn_policies example_tenant). po_state p = STATE_ENABLED \<longrightarrow> ''u'' \<in> fst (exclude_side example_tenant (po_conditions p))"
    by (simp add: example_tenant_def exclude_side_def resolve_principals_def example_policy_def token_ids_def)
  have i: "pr_id example_principal = ''u''"
    by (simp add: example_principal_def person_principal_def example_person_def)
  show ?thesis
    using uncovered_users_are_unprotected [OF e refl, of "\<lambda>s. s"
      "\<lparr>tx_classes = [], tx_ms_tenants = [], tx_presets = [], tx_applicability = []\<rparr>" "[]"] x i by (simp add: Let_def)
qed

text \<open>
  Two behaviours of the evaluation on policies as \<^verbatim>\<open>ca_engine\<close> normalises them. A device grant adds the derived
  control \<open>compliant_or_hybrid_device\<close>, which no capability satisfies, so a policy that requires all of its
  grants blocks everybody, with a compliant device and MFA too; and with the default operator an authentication
  strength of any kind asks for plain MFA only.
\<close>

lemma device_and_grant_blocks_everyone:
  assumes "pp_controls p = controls_of g s strengths" "''compliantDevice'' \<in> set (gr_controls g)"
    and "map py_upper_char (pp_operator p) = ''AND''" "p \<in> set (applicable ps pr ctx)"
  shows "blocking (oc_verdict (evaluate ps pr ctx))"
proof -
  have "CTRL_COMPLIANT_OR_HYBRID \<in> pp_controls p - {CTRL_BLOCK} - SESSION_CONTROLS"
    using assms(1,2) by (simp add: controls_of_def add_if_def Let_def) (simp add: CTRL_defs SESSION_CONTROLS_def)
  then have "CTRL_COMPLIANT_OR_HYBRID \<in> required_of p"
    using assms(3) by (auto simp: required_of_def Let_def)
  then have "CTRL_COMPLIANT_OR_HYBRID \<in> required_controls (applicable ps pr ctx)"
    using assms(4) unfolding required_controls_def by auto
  moreover have "CTRL_COMPLIANT_OR_HYBRID \<notin> capabilities pr ctx"
    by (simp add: capabilities_def add_if_def CTRL_defs)
  ultimately show ?thesis by (auto simp: evaluate_verdict Let_def blocking_def)
qed

lemma auth_strength_asks_for_mfa:
  assumes "pp_controls p = controls_of g s strengths" "gr_strength_id g \<noteq> []" "map py_upper_char (pp_operator p) = ''OR''"
  shows "required_of p = {CTRL_MFA}"
proof -
  have "CTRL_MFA \<in> pp_controls p"
    using assms(1,2) by (simp add: controls_of_def strength_controls_def add_if_def Let_def)
  then have "CTRL_MFA \<in> pp_controls p - {CTRL_BLOCK} - SESSION_CONTROLS"
    by (simp add: CTRL_defs SESSION_CONTROLS_def)
  then show ?thesis using assms(3) by (auto simp: required_of_def Let_def FRICTION_ORDER_def)
qed

end
