(* ===== verification/Command_Gate.thy ===== *)
theory Command_Gate
  imports Prelude
begin

text \<open>
  The gate in front of host command execution, \<^verbatim>\<open>app/exec/command_runner.py\<close>: the scan for shell operators
  outside quotes, the split into arguments (\<open>shlex.split\<close> in POSIX mode, as a state machine), the
  validation against the allowlist, the marking of mutating commands, and the run with its approval and
  read-only checks. What the process writes and how it ends are arguments.
\<close>

section \<open>Shell operators outside quotes\<close>

definition QUOTE :: char where "QUOTE = CHR 0x27"
definition DQUOTE :: char where "DQUOTE = CHR 0x22"
definition BACKSLASH :: char where "BACKSLASH = CHR 0x5C"
definition BACKTICK :: char where "BACKTICK = CHR 0x60"

lemmas char_defs = QUOTE_def DQUOTE_def BACKSLASH_def BACKTICK_def

definition FORBIDDEN_OPERATORS :: "char list" where
  "FORBIDDEN_OPERATORS = [CHR '';'', CHR ''|'', CHR ''&'', CHR ''>'', CHR ''<'', BACKTICK]"

datatype quoting = Bare | In_Single | In_Double

definition substitution :: "char \<Rightarrow> string \<Rightarrow> bool" where
  "substitution c rest \<longleftrightarrow> c = CHR ''$'' \<and> (case rest of [] \<Rightarrow> False | d # _ \<Rightarrow> d = CHR ''('')"

fun shell_operator :: "quoting \<Rightarrow> string \<Rightarrow> bool" where
  "shell_operator q [] = False"
| "shell_operator In_Single (c # cs) = shell_operator (if c = QUOTE then Bare else In_Single) cs"
| "shell_operator In_Double (c # cs) =
     (if c = BACKSLASH \<and> cs \<noteq> [] then shell_operator In_Double (tl cs)
      else if c = DQUOTE then shell_operator Bare cs
      else c = BACKTICK \<or> substitution c cs \<or> shell_operator In_Double cs)"
| "shell_operator Bare (c # cs) =
     (if c = QUOTE then shell_operator In_Single cs
      else if c = DQUOTE then shell_operator In_Double cs
      else c \<in> set FORBIDDEN_OPERATORS \<or> substitution c cs \<or> shell_operator Bare cs)"

definition has_unquoted_shell_operator :: "string \<Rightarrow> bool" where
  "has_unquoted_shell_operator raw = shell_operator Bare raw"

section \<open>Splitting into arguments\<close>

text \<open>
  \<open>shlex\<close> with \<open>posix\<close> and \<open>whitespace_split\<close> and no comment characters. \<open>Escape\<close> remembers the state to go
  back to. The token read so far is \<open>None\<close> before the first character or quote of a token;
  a quoted empty token counts. An open quote or a trailing backslash is an error.
\<close>

datatype lexer = Between | Word | Quoted char | Escape lexer

definition lex_space :: "char \<Rightarrow> bool" where
  "lex_space c \<longleftrightarrow> c \<in> {CHR '' '', CHR 0x09, CHR 0x0D, CHR 0x0A}"

fun lex_tokens :: "lexer \<Rightarrow> string \<Rightarrow> string \<Rightarrow> string list option" where
  "lex_tokens Between tok [] = Some []"
| "lex_tokens Word tok [] = Some [tok]"
| "lex_tokens (Quoted q) tok [] = None"
| "lex_tokens (Escape s) tok [] = None"
| "lex_tokens Between tok (c # cs) =
     (if lex_space c then lex_tokens Between [] cs
      else if c = BACKSLASH then lex_tokens (Escape Word) [] cs
      else if c = QUOTE \<or> c = DQUOTE then lex_tokens (Quoted c) [] cs
      else lex_tokens Word [c] cs)"
| "lex_tokens Word tok (c # cs) =
     (if lex_space c then map_option ((#) tok) (lex_tokens Between [] cs)
      else if c = QUOTE \<or> c = DQUOTE then lex_tokens (Quoted c) tok cs
      else if c = BACKSLASH then lex_tokens (Escape Word) tok cs
      else lex_tokens Word (tok @ [c]) cs)"
| "lex_tokens (Quoted q) tok (c # cs) =
     (if c = q then lex_tokens Word tok cs
      else if c = BACKSLASH \<and> q = DQUOTE then lex_tokens (Escape (Quoted q)) tok cs
      else lex_tokens (Quoted q) (tok @ [c]) cs)"
| "lex_tokens (Escape s) tok (c # cs) =
     lex_tokens s (tok @ (case s of Quoted q \<Rightarrow> (if c \<noteq> BACKSLASH \<and> c \<noteq> q then [BACKSLASH, c] else [c]) | _ \<Rightarrow> [c])) cs"

definition shlex_split :: "string \<Rightarrow> string list option" where
  "shlex_split raw = lex_tokens Between [] raw"

section \<open>Validation\<close>

definition MUTATING_VERBS :: "string list" where
  "MUTATING_VERBS =
     [''create'', ''delete'', ''update'', ''set'', ''add'', ''remove'', ''purge'', ''restart'', ''start'',
      ''stop'', ''deallocate'', ''redeploy'', ''reset'', ''regenerate'', ''rotate'', ''renew'', ''assign'',
      ''unassign'', ''grant'', ''revoke'', ''disable'', ''enable'', ''import'', ''move'', ''attach'',
      ''detach'', ''approve'', ''reject'', ''deny'', ''cancel'', ''clear'', ''restore'', ''failover'',
      ''lock'', ''unlock'', ''invoke-action'', ''generate'', ''upload'', ''publish'',
      ''up'', ''down'', ''provision'', ''deploy'', ''destroy'',
      ''apply'', ''patch'', ''edit'', ''scale'', ''drain'', ''cordon'', ''uncordon'', ''rollout'',
      ''replace'', ''label'', ''annotate'', ''exec'', ''run'', ''expose'', ''taint'']"

datatype rejection = Empty_Command | Too_Long | Multi_Line | Operator | Unbalanced | Not_Allowed string

record accepted =
  ac_binary :: string
  ac_argv :: "string list"
  ac_destructive :: bool

definition bare_words :: "string list \<Rightarrow> string list" where
  "bare_words args = map py_lower (filter (\<lambda>t. \<not> starts_with t ''-'') args)"

definition validate_command :: "string \<Rightarrow> string list \<Rightarrow> (rejection, accepted) result" where
  "validate_command command allowlist =
     (let raw = py_strip command in
      if raw = [] then Inl Empty_Command
      else if 4000 < length raw then Inl Too_Long
      else if CHR 0x0A \<in> set raw \<or> CHR 0x0D \<in> set raw then Inl Multi_Line
      else if has_unquoted_shell_operator raw then Inl Operator
      else case shlex_split raw of
        None \<Rightarrow> Inl Unbalanced
      | Some [] \<Rightarrow> Inl Empty_Command
      | Some (a # args) \<Rightarrow>
          (if py_lower a \<notin> set (map py_lower allowlist) then Inl (Not_Allowed a)
           else Inr \<lparr>ac_binary = py_lower a, ac_argv = a # args,
             ac_destructive = (set (bare_words args) \<inter> set MUTATING_VERBS \<noteq> {})\<rparr>))"

section \<open>Running\<close>

datatype pipe = Stdout | Stderr

datatype event =
    Exec_Start string bool
  | Status
  | Output pipe string
  | Approval_Required string
  | Error_Event
  | Exit int

text \<open>
  What the two reader threads put on the queue: text, the end of a pipe, or the time limit reached while
  waiting. \<open>code\<close> is the exit code of the process.
\<close>

datatype arrival = Text pipe string | End_Of pipe | Timeout

fun stream :: "nat \<Rightarrow> int \<Rightarrow> nat \<Rightarrow> nat \<Rightarrow> arrival list \<Rightarrow> event list" where
  "stream max_bytes code finished seen as =
     (if 2 \<le> finished then [Exit code]
      else case as of
        [] \<Rightarrow> [Error_Event]
      | Timeout # _ \<Rightarrow> [Error_Event]
      | End_Of _ # rest \<Rightarrow> stream max_bytes code (finished + 1) seen rest
      | Text p t # rest \<Rightarrow>
          (if max_bytes < seen + length t then [Error_Event]
           else Output p t # stream max_bytes code finished (seen + length t) rest))"

declare stream.simps [simp del]

definition stream_process :: "string \<Rightarrow> bool \<Rightarrow> nat \<Rightarrow> int \<Rightarrow> arrival list \<Rightarrow> event list" where
  "stream_process label destructive max_bytes code as = Exec_Start label destructive # stream max_bytes code 0 0 as"

record exec_settings =
  xs_enabled :: bool
  xs_allowlist :: "string list option"

text \<open>
  \<open>run_command_stream\<close>. \<open>which\<close> finds the binary on the host; \<open>sp_login\<close> is \<open>None\<close> when the connection is
  no service principal, else whether its sign-in succeeded; \<open>process\<close> is what running an argument vector
  produced.
\<close>

definition run_command_stream ::
  "exec_settings \<Rightarrow> (string \<Rightarrow> string option) \<Rightarrow> bool option \<Rightarrow> (string list \<Rightarrow> int \<times> arrival list)
   \<Rightarrow> nat \<Rightarrow> string \<Rightarrow> bool \<Rightarrow> bool \<Rightarrow> event list" where
  "run_command_stream s which sp_login process max_bytes command read_only confirm =
     (if \<not> xs_enabled s then [Error_Event]
      else let allowlist = (case xs_allowlist s of None \<Rightarrow> [''az''] | Some l \<Rightarrow> if l = [] then [''az''] else l) in
        case validate_command command allowlist of
          Inl _ \<Rightarrow> [Error_Event]
        | Inr v \<Rightarrow>
            (if ac_destructive v \<and> read_only then [Error_Event]
             else if ac_destructive v \<and> \<not> confirm then [Approval_Required command]
             else case which (ac_binary v) of
               None \<Rightarrow> [Error_Event]
             | Some path \<Rightarrow>
                 (let (code, as) = process (path # tl (ac_argv v));
                      running = stream_process command (ac_destructive v) max_bytes code as
                  in case sp_login of
                    None \<Rightarrow> running
                  | Some True \<Rightarrow> Status # running
                  | Some False \<Rightarrow> [Status, Error_Event])))"

section \<open>Quoted words\<close>

definition quoted :: "string \<Rightarrow> string" where
  "quoted w = QUOTE # w @ [QUOTE]"

definition quoted_command :: "string list \<Rightarrow> string" where
  "quoted_command ws = join_with '' '' (map quoted ws)"

lemma scan_single: "QUOTE \<notin> set w \<Longrightarrow> shell_operator In_Single (w @ QUOTE # rest) = shell_operator Bare rest"
  by (induction w) auto

lemma scan_quoted: "QUOTE \<notin> set w \<Longrightarrow> shell_operator Bare (quoted w @ rest) = shell_operator Bare rest"
  by (simp add: quoted_def scan_single)

lemma space_scan: "shell_operator Bare (CHR '' '' # rest) = shell_operator Bare rest"
  by (simp add: char_defs FORBIDDEN_OPERATORS_def substitution_def)

lemma lex_single: "QUOTE \<notin> set w \<Longrightarrow> lex_tokens (Quoted QUOTE) tok (w @ QUOTE # rest) = lex_tokens Word (tok @ w) rest"
  by (induction w arbitrary: tok) (auto simp: char_defs)

lemma lex_quoted: "QUOTE \<notin> set w \<Longrightarrow> lex_tokens Between [] (quoted w @ rest) = lex_tokens Word w rest"
  by (simp add: quoted_def lex_single) (simp add: lex_space_def char_defs)

lemma quoted_command_Cons2: "quoted_command (w # v # ws) = quoted w @ CHR '' '' # quoted_command (v # ws)"
  by (simp add: quoted_command_def)

lemma quoted_command_1: "quoted_command [w] = quoted w"
  by (simp add: quoted_command_def)

lemma no_operator_in_quoted: "\<forall>w\<in>set ws. QUOTE \<notin> set w \<Longrightarrow> \<not> shell_operator Bare (quoted_command ws)"
proof (induction ws rule: induct_list012)
  case (2 w)
  then show ?case using scan_quoted [of w "[]"] by (simp add: quoted_command_1)
next
  case (3 w v ws)
  then show ?case by (simp add: quoted_command_Cons2 scan_quoted space_scan del: shell_operator.simps)
qed (simp add: quoted_command_def)

lemma split_quoted: "ws \<noteq> [] \<Longrightarrow> \<forall>w\<in>set ws. QUOTE \<notin> set w \<Longrightarrow> shlex_split (quoted_command ws) = Some ws"
proof (induction ws rule: induct_list012)
  case (2 w)
  then show ?case using lex_quoted [of w "[]"] by (simp add: quoted_command_1 shlex_split_def)
next
  case (3 w v ws)
  have "lex_tokens Between [] (quoted_command (v # ws)) = Some (v # ws)"
    using 3 by (simp add: shlex_split_def)
  then have "lex_tokens Word w (CHR '' '' # quoted_command (v # ws)) = Some (w # v # ws)"
    by (simp add: lex_space_def)
  then show ?case
    unfolding shlex_split_def quoted_command_Cons2 using lex_quoted [of w] 3 by simp
qed simp

lemma quoted_ends: "ws \<noteq> [] \<Longrightarrow> \<exists>mid. quoted_command ws = QUOTE # mid @ [QUOTE]"
proof (induction ws rule: induct_list012)
  case (3 w v ws)
  then obtain mid where "quoted_command (v # ws) = QUOTE # mid @ [QUOTE]" by auto
  then have "quoted_command (w # v # ws) = QUOTE # (w @ QUOTE # CHR '' '' # QUOTE # mid) @ [QUOTE]"
    by (simp add: quoted_command_Cons2 quoted_def)
  then show ?case by blast
qed (auto simp: quoted_command_1 quoted_def)

lemma strip_quoted:
  assumes "ws \<noteq> []"
  shows "py_strip (quoted_command ws) = quoted_command ws"
proof -
  have "\<not> is_space QUOTE" by (simp add: is_space_def QUOTE_def char_code_def)
  moreover obtain mid where "quoted_command ws = QUOTE # mid @ [QUOTE]" using quoted_ends [OF assms] by blast
  ultimately show ?thesis by (simp add: py_strip_def)
qed

lemma set_quoted: "c \<in> set (quoted_command ws) \<Longrightarrow> c = QUOTE \<or> c = CHR '' '' \<or> (\<exists>w\<in>set ws. c \<in> set w)"
proof (induction ws rule: induct_list012)
  case (3 w v ws)
  then show ?case by (auto simp: quoted_command_Cons2 quoted_def)
qed (auto simp: quoted_command_def quoted_def)

text \<open>
  Lemma. Quoting round trip. A command written as single-quoted words is accepted, whatever operators,
  blanks, backslashes or double quotes the words contain, and the arguments that are run are exactly
  those words; it counts as mutating exactly when a word that does not begin with a dash is a mutating verb.
\<close>
lemma quoted_words_roundtrip:
  assumes "ws \<noteq> []" "\<forall>w\<in>set ws. QUOTE \<notin> set w \<and> CHR 0x0A \<notin> set w \<and> CHR 0x0D \<notin> set w"
    and "length (quoted_command ws) \<le> 4000" "py_lower (hd ws) \<in> set (map py_lower allowlist)"
  shows "validate_command (quoted_command ws) allowlist =
    Inr \<lparr>ac_binary = py_lower (hd ws), ac_argv = ws,
      ac_destructive = (\<exists>w\<in>set (tl ws). \<not> starts_with w ''-'' \<and> py_lower w \<in> set MUTATING_VERBS)\<rparr>"
proof -
  have "quoted_command ws \<noteq> []" using quoted_ends [OF assms(1)] by auto
  moreover have "CHR 0x0A \<notin> set (quoted_command ws)" "CHR 0x0D \<notin> set (quoted_command ws)"
    using assms(2) by (auto simp: QUOTE_def dest!: set_quoted)
  moreover have "\<not> has_unquoted_shell_operator (quoted_command ws)"
    unfolding has_unquoted_shell_operator_def by (rule no_operator_in_quoted) (use assms(2) in blast)
  moreover have "shlex_split (quoted_command ws) = Some (hd ws # tl ws)"
    using split_quoted [OF assms(1)] assms(1,2) by simp
  moreover have "set (bare_words (tl ws)) \<inter> set MUTATING_VERBS \<noteq> {} \<longleftrightarrow>
      (\<exists>w\<in>set (tl ws). \<not> starts_with w ''-'' \<and> py_lower w \<in> set MUTATING_VERBS)"
    by (auto simp: bare_words_def)
  moreover obtain a args where "ws = a # args" using assms(1) by (cases ws) auto
  ultimately show ?thesis
    using assms(3,4) by (simp add: validate_command_def strip_quoted)
qed

section \<open>The gate\<close>

lemma stream_no_start: "Exec_Start l d \<notin> set (stream m code f t as)"
proof (induction as arbitrary: f t)
  case Nil
  then show ?case by (simp add: stream.simps)
next
  case (Cons a as)
  then show ?case by (subst stream.simps) (cases a, simp_all)
qed

definition terminal :: "event \<Rightarrow> bool" where
  "terminal e \<longleftrightarrow> (case e of Exit _ \<Rightarrow> True | Error_Event \<Rightarrow> True | Approval_Required _ \<Rightarrow> True | _ \<Rightarrow> False)"

definition output_size :: "event list \<Rightarrow> nat" where
  "output_size es = sum_list (map (\<lambda>e. case e of Output _ t \<Rightarrow> length t | _ \<Rightarrow> 0) es)"

definition one_end :: "event list \<Rightarrow> bool" where
  "one_end es \<longleftrightarrow> (\<exists>outs e. es = outs @ [e] \<and> terminal e \<and> list_all (\<lambda>x. \<not> terminal x) outs)"

lemma one_end_1: "terminal e \<Longrightarrow> one_end [e]"
  by (auto simp: one_end_def)

lemma one_end_Cons: "\<not> terminal x \<Longrightarrow> one_end es \<Longrightarrow> one_end (x # es)"
proof -
  assume x: "\<not> terminal x" and "one_end es"
  then obtain outs e where "es = outs @ [e]" "terminal e" "list_all (\<lambda>x. \<not> terminal x) outs"
    unfolding one_end_def by blast
  with x show ?thesis unfolding one_end_def by (intro exI [of _ "x # outs"] exI [of _ e]) simp
qed

lemma stream_one_end: "one_end (stream m code f t as)"
proof (induction as arbitrary: f t)
  case Nil
  then show ?case by (simp add: stream.simps one_end_1 terminal_def)
next
  case (Cons a as)
  then show ?case
    by (subst stream.simps) (cases a, auto simp: one_end_1 terminal_def intro!: one_end_Cons)
qed

lemma stream_size: "t \<le> m \<Longrightarrow> t + output_size (stream m code f t as) \<le> m"
proof (induction as arbitrary: f t)
  case Nil
  then show ?case by (simp add: stream.simps output_size_def)
next
  case (Cons a as)
  show ?case
  proof (cases a)
    case (Text p x)
    show ?thesis
    proof (cases "m < t + length x")
      case False
      then have "t + length x + output_size (stream m code f (t + length x) as) \<le> m" by (intro Cons.IH) simp
      then show ?thesis using Text Cons.prems by (subst stream.simps) (simp add: output_size_def)
    qed (use Text Cons.prems in \<open>subst stream.simps, simp add: output_size_def\<close>)
  next
    case (End_Of p)
    then show ?thesis using Cons by (subst stream.simps) (simp add: output_size_def)
  next
    case Timeout
    then show ?thesis using Cons.prems by (subst stream.simps) (simp add: output_size_def)
  qed
qed

text \<open>
  Lemma. Every run ends: whatever the process writes, also when it never closes its pipes, the stream has
  exactly one closing event (the exit code, an error or the request for approval), as its last event, and
  forwards no more output than the limit.
\<close>
lemma run_ends_once:
  "one_end (run_command_stream s which sp process m command read_only confirm) \<and>
   output_size (run_command_stream s which sp process m command read_only confirm) \<le> m"
proof -
  have s: "one_end (Exec_Start l d # stream m code 0 0 as)" "output_size (Exec_Start l d # stream m code 0 0 as) \<le> m"
    "one_end (Status # Exec_Start l d # stream m code 0 0 as)"
    "output_size (Status # Exec_Start l d # stream m code 0 0 as) \<le> m" for l d code as
    using stream_one_end stream_size [of 0 m code 0 as] by (auto simp: output_size_def terminal_def intro!: one_end_Cons)
  have e: "one_end [Error_Event]" "one_end [Approval_Required command]" "one_end [Status, Error_Event]"
    by (auto simp: terminal_def intro!: one_end_1 one_end_Cons)
  show ?thesis
    unfolding run_command_stream_def Let_def stream_process_def
    by (auto simp: s e split: sum.splits option.splits prod.splits bool.splits) (auto simp: output_size_def)
qed

text \<open>
  The marking looks at bare words only, so the method of a REST call given as one option is not seen: this
  deletion counts as read-only.
\<close>

lemma rest_delete_counts_as_read_only:
  "validate_command ''az rest --method=delete --url=https://management.azure.com/x'' [''az''] =
     Inr \<lparr>ac_binary = ''az'', ac_argv = [''az'', ''rest'', ''--method=delete'', ''--url=https://management.azure.com/x''],
       ac_destructive = False\<rparr>"
  by code_simp

section \<open>Example\<close>

lemma quoted_words_roundtrip_witness:
  "validate_command (quoted_command [''az'', ''graph'', ''a | b; c''])  [''AZ''] =
     Inr \<lparr>ac_binary = ''az'', ac_argv = [''az'', ''graph'', ''a | b; c''],
       ac_destructive = (\<exists>w\<in>set [''graph'', ''a | b; c'']. \<not> starts_with w ''-'' \<and> py_lower w \<in> set MUTATING_VERBS)\<rparr>"
proof -
  have l: "py_lower ''az'' = ''az''" "py_lower ''AZ'' = ''az''" by code_simp+
  show ?thesis
    using quoted_words_roundtrip [of "[''az'', ''graph'', ''a | b; c'']" "[''AZ'']"]
    by (simp add: l QUOTE_def quoted_command_def quoted_def)
qed

end
