(* ===== verification/Shell_Words.thy ===== *)
theory Shell_Words
  imports Command_Gate
begin

text \<open>
  What a command line says, apart from the automata of \<^verbatim>\<open>app/exec/command_runner.py\<close> that read it: a line is made
  of blanks and of pieces of words, the characters a reader would name as plain, escaped or quoted. The theory
  shows that the splitting into arguments reads exactly these lines, and that the scan for operators finds exactly the operators
  outside quotes, as long as no quote is escaped outside quotes; and it states the gate over the lines.
\<close>

section \<open>Lines\<close>

datatype glyph = Lit char | Esc char

datatype piece = Plain char | Escaped char | Single string | Double "glyph list"

datatype item = Blank char | Piece piece

fun glyph_text :: "glyph \<Rightarrow> string" where
  "glyph_text (Lit c) = [c]"
| "glyph_text (Esc c) = [BACKSLASH, c]"

text \<open>Inside double quotes a backslash stands for itself, unless before a double quote or another backslash.\<close>

fun glyph_value :: "glyph \<Rightarrow> string" where
  "glyph_value (Lit c) = [c]"
| "glyph_value (Esc c) = (if c = BACKSLASH \<or> c = DQUOTE then [c] else [BACKSLASH, c])"

fun piece_text :: "piece \<Rightarrow> string" where
  "piece_text (Plain c) = [c]"
| "piece_text (Escaped c) = [BACKSLASH, c]"
| "piece_text (Single s) = QUOTE # s @ [QUOTE]"
| "piece_text (Double gs) = DQUOTE # concat (map glyph_text gs) @ [DQUOTE]"

fun piece_value :: "piece \<Rightarrow> string" where
  "piece_value (Plain c) = [c]"
| "piece_value (Escaped c) = [c]"
| "piece_value (Single s) = s"
| "piece_value (Double gs) = concat (map glyph_value gs)"

fun item_text :: "item \<Rightarrow> string" where
  "item_text (Blank c) = [c]"
| "item_text (Piece p) = piece_text p"

fun glyph_ok :: "glyph \<Rightarrow> bool" where
  "glyph_ok (Lit c) \<longleftrightarrow> c \<noteq> DQUOTE \<and> c \<noteq> BACKSLASH"
| "glyph_ok (Esc c) \<longleftrightarrow> True"

fun item_ok :: "item \<Rightarrow> bool" where
  "item_ok (Blank c) \<longleftrightarrow> lex_space c"
| "item_ok (Piece (Plain c)) \<longleftrightarrow> \<not> lex_space c \<and> c \<notin> {QUOTE, DQUOTE, BACKSLASH}"
| "item_ok (Piece (Escaped c)) \<longleftrightarrow> True"
| "item_ok (Piece (Single s)) \<longleftrightarrow> QUOTE \<notin> set s"
| "item_ok (Piece (Double gs)) \<longleftrightarrow> list_all glyph_ok gs"

type_synonym line = "item list"

definition line_text :: "line \<Rightarrow> string" where
  "line_text is = concat (map item_text is)"

definition line_ok :: "line \<Rightarrow> bool" where
  "line_ok is \<longleftrightarrow> list_all item_ok is"

fun blank :: "item \<Rightarrow> bool" where
  "blank (Blank c) = True"
| "blank (Piece p) = False"

fun value_of :: "item \<Rightarrow> string" where
  "value_of (Blank c) = []"
| "value_of (Piece p) = piece_value p"

text \<open>The words of a line are its longest runs of pieces.\<close>

function line_words :: "line \<Rightarrow> string list" where
  "line_words [] = []"
| "line_words (Blank c # is) = line_words is"
| "line_words (Piece p # is) =
     concat (map value_of (Piece p # takeWhile (\<lambda>i. \<not> blank i) is)) # line_words (dropWhile (\<lambda>i. \<not> blank i) is)"
  by pat_completeness auto
termination
  by (relation "measure length") (auto simp: le_imp_less_Suc length_dropWhile_le)

text \<open>An operator or a command substitution that a shell would act on, at an item or inside double quotes.\<close>

fun live_glyphs :: "glyph list \<Rightarrow> bool" where
  "live_glyphs [] = False"
| "live_glyphs (Esc c # gs) = live_glyphs gs"
| "live_glyphs (Lit c # gs) =
     (c = BACKTICK \<or> c = CHR ''$'' \<and> take 1 gs = [Lit (CHR ''('')] \<or> live_glyphs gs)"

fun operator_in :: "line \<Rightarrow> bool" where
  "operator_in [] = False"
| "operator_in (Blank c # is) = operator_in is"
| "operator_in (Piece (Single s) # is) = operator_in is"
| "operator_in (Piece (Double gs) # is) = (live_glyphs gs \<or> operator_in is)"
| "operator_in (Piece (Plain c) # is) =
     (c \<in> {CHR '';'', CHR ''|'', CHR ''&'', CHR ''>'', CHR ''<'', BACKTICK} \<or>
      c = CHR ''$'' \<and> take 1 is = [Piece (Plain (CHR ''(''))] \<or> operator_in is)"
| "operator_in (Piece (Escaped c) # is) =
     (c \<in> {CHR '';'', CHR ''|'', CHR ''&'', CHR ''>'', CHR ''<'', BACKTICK} \<or>
      c = CHR ''$'' \<and> take 1 is = [Piece (Plain (CHR ''(''))] \<or> operator_in is)"

definition escaped_quote :: "line \<Rightarrow> bool" where
  "escaped_quote is \<longleftrightarrow> Piece (Escaped QUOTE) \<in> set is \<or> Piece (Escaped DQUOTE) \<in> set is"

section \<open>The split reads lines\<close>

lemma line_simps [simp]:
  "line_text [] = []" "line_text (i # is) = item_text i @ line_text is"
  "line_ok []" "line_ok (i # is) \<longleftrightarrow> item_ok i \<and> line_ok is"
  by (simp_all add: line_text_def line_ok_def)

lemma lex_double:
  "list_all glyph_ok gs \<Longrightarrow> lex_tokens (Quoted DQUOTE) tok (concat (map glyph_text gs) @ DQUOTE # rest) =
     lex_tokens Word (tok @ concat (map glyph_value gs)) rest"
proof (induction gs arbitrary: tok)
  case (Cons g gs)
  then show ?case by (cases g) (auto simp: char_defs)
qed (simp add: char_defs)

lemma lex_piece:
  assumes "item_ok (Piece p)"
  shows "lex_tokens Between [] (piece_text p @ rest) = lex_tokens Word (piece_value p) rest"
    "lex_tokens Word tok (piece_text p @ rest) = lex_tokens Word (tok @ piece_value p) rest"
  using assms lex_single [of _ "[]"] lex_single [of _ tok] lex_double [of _ "[]"] lex_double [of _ tok]
  by (cases p; auto simp: char_defs lex_space_def)+

lemma lex_line:
  "line_ok is \<Longrightarrow> lex_tokens Between [] (line_text is) = Some (line_words is)"
  "line_ok is \<Longrightarrow> lex_tokens Word tok (line_text is) =
     Some ((tok @ concat (map value_of (takeWhile (\<lambda>i. \<not> blank i) is))) # line_words (dropWhile (\<lambda>i. \<not> blank i) is))"
proof (induction "is" arbitrary: tok)
  case (Cons i "is")
  {
    case 1
    then show ?case using Cons.IH by (cases i) (simp_all add: lex_piece)
  next
    case 2
    then show ?case using Cons.IH by (cases i) (simp_all add: lex_piece)
  }
qed simp_all

lemma single_closes:
  "lex_tokens (Quoted QUOTE) tok raw = Some ws \<Longrightarrow>
     \<exists>s rest. QUOTE \<notin> set s \<and> raw = s @ QUOTE # rest \<and> lex_tokens Word (tok @ s) rest = Some ws"
proof (induction raw arbitrary: tok)
  case (Cons c cs)
  show ?case
  proof (cases "c = QUOTE")
    case True
    then show ?thesis using Cons.prems by (intro exI [of _ "[]"] exI [of _ cs]) simp
  next
    case False
    then have "lex_tokens (Quoted QUOTE) (tok @ [c]) cs = Some ws" using Cons.prems by (simp add: char_defs)
    then obtain s rest where "QUOTE \<notin> set s" "cs = s @ QUOTE # rest" "lex_tokens Word ((tok @ [c]) @ s) rest = Some ws"
      using Cons.IH by blast
    then show ?thesis using False by (intro exI [of _ "c # s"] exI [of _ rest]) simp
  qed
qed simp

lemma double_closes:
  "lex_tokens (Quoted DQUOTE) tok raw = Some ws \<Longrightarrow>
     \<exists>gs rest. list_all glyph_ok gs \<and> raw = concat (map glyph_text gs) @ DQUOTE # rest \<and>
       lex_tokens Word (tok @ concat (map glyph_value gs)) rest = Some ws"
proof (induction raw arbitrary: tok rule: length_induct)
  case (1 raw)
  have step: "\<exists>gs rest. list_all glyph_ok gs \<and> raw = concat (map glyph_text gs) @ DQUOTE # rest \<and>
       lex_tokens Word (tok @ concat (map glyph_value gs)) rest = Some ws"
    if glyph: "glyph_ok g" "raw = glyph_text g @ cs" "lex_tokens (Quoted DQUOTE) (tok @ glyph_value g) cs = Some ws" for g cs
  proof -
    have "length cs < length raw" using glyph(2) by (cases g) simp_all
    then obtain gs rest where "list_all glyph_ok gs" "cs = concat (map glyph_text gs) @ DQUOTE # rest"
      "lex_tokens Word ((tok @ glyph_value g) @ concat (map glyph_value gs)) rest = Some ws"
      using 1(1) glyph(3) by blast
    with glyph show ?thesis by (intro exI [of _ "g # gs"] exI [of _ rest]) simp
  qed
  show ?case
  proof (cases raw)
    case (Cons c cs)
    consider "c = DQUOTE" | "c = BACKSLASH" | "c \<noteq> DQUOTE" "c \<noteq> BACKSLASH" by blast
    then show ?thesis
    proof cases
      case 1
      then show ?thesis using \<open>lex_tokens (Quoted DQUOTE) tok raw = Some ws\<close> Cons
        by (intro exI [of _ "[]"] exI [of _ cs]) simp
    next
      case 2
      then obtain d ds where "cs = d # ds"
        using \<open>lex_tokens (Quoted DQUOTE) tok raw = Some ws\<close> Cons by (cases cs) (auto simp: char_defs)
      then show ?thesis using step [of "Esc d" ds] 2 Cons \<open>lex_tokens (Quoted DQUOTE) tok raw = Some ws\<close>
        by (auto simp: char_defs split: if_splits)
    next
      case 3
      then show ?thesis using step [of "Lit c" cs] Cons \<open>lex_tokens (Quoted DQUOTE) tok raw = Some ws\<close> by simp
    qed
  qed (use 1(2) in simp)
qed

lemma item_text_ne: "item_text i \<noteq> []"
  by (cases i rule: item_text.cases; simp) (metis list.distinct(1) piece_text.elims)

lemma split_reads_line:
  "lex_tokens st tok raw = Some ws \<Longrightarrow> st = Between \<or> st = Word \<Longrightarrow> \<exists>is. line_ok is \<and> raw = line_text is"
proof (induction raw arbitrary: st tok ws rule: length_induct)
  case (1 raw)
  have step: "\<exists>is. line_ok is \<and> raw = line_text is"
    if item: "item_ok i" "raw = item_text i @ cs" "lex_tokens st' tok' cs = Some ws'" "st' = Between \<or> st' = Word"
    for i cs st' tok' ws'
  proof -
    have "length cs < length raw" using item(2) item_text_ne [of i] by simp
    then obtain "is" where "line_ok is" "cs = line_text is" using 1(1) item(3,4) by blast
    with item show ?thesis by (intro exI [of _ "i # is"]) simp
  qed
  show ?case
  proof (cases raw)
    case (Cons c cs)
    consider "lex_space c" | "c = QUOTE" | "c = DQUOTE" | "c = BACKSLASH" | "item_ok (Piece (Plain c))" by auto
    then show ?thesis
    proof cases
      case 1
      then obtain ws' where "lex_tokens Between [] cs = Some ws'" using \<open>lex_tokens st tok raw = Some ws\<close> 
          \<open>st = Between \<or> st = Word\<close> Cons by auto
      then show ?thesis using step [of "Blank c" cs] 1 Cons by simp
    next
      case 2
      then have "\<exists>tok'. lex_tokens (Quoted QUOTE) tok' cs = Some ws" using 1(2,3) Cons
        by (auto simp: lex_space_def char_defs)
      then obtain s rest tok' where "QUOTE \<notin> set s" "cs = s @ QUOTE # rest" "lex_tokens Word tok' rest = Some ws"
        using single_closes by blast
      then show ?thesis using step [of "Piece (Single s)" rest] 2 Cons by simp
    next
      case 3
      then have "\<exists>tok'. lex_tokens (Quoted DQUOTE) tok' cs = Some ws" using 1(2,3) Cons
        by (auto simp: lex_space_def char_defs)
      then obtain gs rest tok' where "list_all glyph_ok gs" "cs = concat (map glyph_text gs) @ DQUOTE # rest"
        "lex_tokens Word tok' rest = Some ws"
        using double_closes by blast
      then show ?thesis using step [of "Piece (Double gs)" rest] 3 Cons by simp
    next
      case 4
      then have "\<exists>tok'. lex_tokens (Escape Word) tok' cs = Some ws" using 1(2,3) Cons
        by (auto simp: lex_space_def char_defs)
      then obtain d ds tok' where "cs = d # ds" "lex_tokens Word tok' ds = Some ws" by (cases cs) auto
      then show ?thesis using step [of "Piece (Escaped d)" ds] 4 Cons by simp
    next
      case 5
      then have "\<exists>tok'. lex_tokens Word tok' cs = Some ws" using 1(2,3) Cons by auto
      then show ?thesis using step [of "Piece (Plain c)" cs] 5 Cons by auto
    qed
  qed (intro exI [of _ "[]"], simp)
qed

text \<open>
  Lemma. The split is the reading of the line: it returns exactly the words of the lines with that text, and
  fails exactly when there is no such line.
\<close>
lemma shlex_split_exact: "shlex_split raw = Some ws \<longleftrightarrow> (\<exists>is. line_ok is \<and> line_text is = raw \<and> line_words is = ws)"
proof
  assume "shlex_split raw = Some ws"
  then show "\<exists>is. line_ok is \<and> line_text is = raw \<and> line_words is = ws"
    unfolding shlex_split_def using split_reads_line lex_line(1) by (metis option.inject)
next
  assume "\<exists>is. line_ok is \<and> line_text is = raw \<and> line_words is = ws"
  then show "shlex_split raw = Some ws" unfolding shlex_split_def using lex_line(1) by blast
qed

section \<open>The scan finds the operators outside quotes\<close>

lemma substitution_glyph:
  "list_all glyph_ok gs \<Longrightarrow> substitution c (concat (map glyph_text gs) @ DQUOTE # rest) \<longleftrightarrow>
     c = CHR ''$'' \<and> take 1 gs = [Lit (CHR ''('')]"
proof (cases gs)
  case (Cons g gs')
  then show ?thesis by (cases g) (auto simp: substitution_def char_defs)
qed (simp add: substitution_def char_defs)

lemma scan_glyph:
  "glyph_ok g \<Longrightarrow> shell_operator In_Double (glyph_text g @ cs) \<longleftrightarrow>
     (case g of Lit c \<Rightarrow> c = BACKTICK \<or> substitution c cs | Esc c \<Rightarrow> False) \<or> shell_operator In_Double cs"
  by (cases g) (auto simp: char_defs)

lemma scan_double:
  "list_all glyph_ok gs \<Longrightarrow> shell_operator In_Double (concat (map glyph_text gs) @ DQUOTE # rest) \<longleftrightarrow>
     live_glyphs gs \<or> shell_operator Bare rest"
proof (induction gs)
  case (Cons g gs)
  then have "shell_operator In_Double (glyph_text g @ concat (map glyph_text gs) @ DQUOTE # rest) \<longleftrightarrow>
      (case g of Lit c \<Rightarrow> c = BACKTICK \<or> substitution c (concat (map glyph_text gs) @ DQUOTE # rest) | Esc c \<Rightarrow> False) \<or>
      live_glyphs gs \<or> shell_operator Bare rest"
    by (simp only: scan_glyph list.pred_inject)
  with Cons.prems show ?case by (cases g) (auto simp: substitution_glyph)
qed (simp add: char_defs)

lemma substitution_item:
  "line_ok is \<Longrightarrow> substitution c (line_text is) \<longleftrightarrow> c = CHR ''$'' \<and> take 1 is = [Piece (Plain (CHR ''(''))]"
proof (cases "is")
  case (Cons i is')
  assume "line_ok is"
  with Cons show ?thesis
    by (cases i rule: item_ok.cases) (auto simp: substitution_def char_defs lex_space_def)
qed (simp add: substitution_def)

lemma scan_bare:
  assumes "c \<noteq> QUOTE" "c \<noteq> DQUOTE"
  shows "shell_operator Bare (c # cs) \<longleftrightarrow>
    c \<in> {CHR '';'', CHR ''|'', CHR ''&'', CHR ''>'', CHR ''<'', BACKTICK} \<or> substitution c cs \<or> shell_operator Bare cs"
  using assms by (simp add: FORBIDDEN_OPERATORS_def)

lemma scan_nothing:
  "lex_space c \<or> c = BACKSLASH \<Longrightarrow> shell_operator Bare (c # cs) = shell_operator Bare cs"
  by (auto simp: lex_space_def FORBIDDEN_OPERATORS_def char_defs substitution_def)

lemma shell_operator_exact:
  "line_ok is \<Longrightarrow> \<not> escaped_quote is \<Longrightarrow> shell_operator Bare (line_text is) \<longleftrightarrow> operator_in is"
proof (induction "is")
  case (Cons i "is")
  then have IH: "shell_operator Bare (line_text is) \<longleftrightarrow> operator_in is" by (simp add: escaped_quote_def)
  have ok: "item_ok i" "line_ok is" "i \<noteq> Piece (Escaped QUOTE)" "i \<noteq> Piece (Escaped DQUOTE)"
    using Cons.prems by (auto simp: escaped_quote_def)
  show ?case
  proof (cases i rule: item_ok.cases)
    case (1 c)
    with ok have "lex_space c" by simp
    then show ?thesis unfolding 1 using IH scan_nothing [of c] by simp
  next
    case (2 c)
    with ok have "c \<noteq> QUOTE" "c \<noteq> DQUOTE" by simp_all
    from scan_bare [OF this] show ?thesis using 2 IH substitution_item [OF ok(2), of c] by simp
  next
    case (3 c)
    with ok have "c \<noteq> QUOTE" "c \<noteq> DQUOTE" by simp_all
    from scan_bare [OF this, of "line_text is"] scan_nothing [of BACKSLASH "c # line_text is"]
    show ?thesis using 3 IH substitution_item [OF ok(2), of c] by simp
  next
    case (4 s)
    with ok have "QUOTE \<notin> set s" by simp
    from scan_quoted [OF this, of "line_text is"] show ?thesis using 4 IH by (simp add: quoted_def)
  next
    case (5 gs)
    with ok have "list_all glyph_ok gs" by simp
    moreover have "shell_operator Bare (DQUOTE # cs) = shell_operator In_Double cs" for cs by (simp add: char_defs)
    ultimately show ?thesis using 5 IH scan_double [of gs "line_text is"] by (simp del: shell_operator.simps)
  qed
qed simp

section \<open>The gate\<close>

definition mutating :: "string list \<Rightarrow> bool" where
  "mutating args \<longleftrightarrow> list_ex (\<lambda>w. \<not> prefix ''-'' w \<and> py_lower w \<in> set MUTATING_VERBS) args"

definition allowed_binaries :: "exec_settings \<Rightarrow> string set" where
  "allowed_binaries s = py_lower ` (case xs_allowlist s of None \<Rightarrow> {''az''} | Some l \<Rightarrow> if l = [] then {''az''} else set l)"

definition single_line :: "string \<Rightarrow> bool" where
  "single_line raw \<longleftrightarrow> length raw \<le> 4000 \<and> CHR 0x0A \<notin> set raw \<and> CHR 0x0D \<notin> set raw"

text \<open>
  What must hold of a command, read as a line, and of its caller: execution is enabled, the sign-in of a service
  principal did not fail, the first word is an allowed binary, in any case, that the host has, and a line with a
  mutating verb among its other words that are no options is confirmed and its connection is not read-only.
\<close>

definition approved :: "exec_settings \<Rightarrow> (string \<Rightarrow> string option) \<Rightarrow> bool option \<Rightarrow> string \<Rightarrow> bool \<Rightarrow> bool \<Rightarrow> line \<Rightarrow> bool" where
  "approved s which sp command read_only confirm is \<longleftrightarrow>
     xs_enabled s \<and> sp \<noteq> Some False \<and> line_ok is \<and> line_text is = py_strip command \<and> single_line (line_text is) \<and>
     (case line_words is of [] \<Rightarrow> False
      | a # args \<Rightarrow> py_lower a \<in> allowed_binaries s \<and> which (py_lower a) \<noteq> None \<and> (if mutating args then confirm \<and> \<not> read_only else True))"

text \<open>What is run for a line: the binary the host has for its first word, with its other words.\<close>

definition vector_of :: "(string \<Rightarrow> string option) \<Rightarrow> line \<Rightarrow> string list" where
  "vector_of which is = the (which (py_lower (hd (line_words is)))) # tl (line_words is)"

definition running :: "bool option \<Rightarrow> string \<Rightarrow> nat \<Rightarrow> line \<Rightarrow> int \<times> arrival list \<Rightarrow> event list" where
  "running sp command m is outcome = (if sp = None then [] else [Status]) @
     stream_process command (mutating (tl (line_words is))) m (fst outcome) (snd outcome)"

definition starts :: "event list \<Rightarrow> bool" where
  "starts es \<longleftrightarrow> list_ex (\<lambda>e. case e of Exec_Start _ _ \<Rightarrow> True | _ \<Rightarrow> False) es"

lemma starts_simps [simp]:
  "starts (Exec_Start l d # es)" "\<not> starts [Error_Event]" "\<not> starts [Approval_Required c]" "\<not> starts [Status, Error_Event]"
  "starts (Status # es) \<longleftrightarrow> starts es" "starts (stream_process l d m code as)"
  by (simp_all add: starts_def stream_process_def)

lemma destructive_words: "(set (bare_words args) \<inter> set MUTATING_VERBS \<noteq> {}) \<longleftrightarrow> mutating args"
  by (auto simp: bare_words_def mutating_def list_ex_iff starts_with_def)

lemma word_cases: "(case ws of [] \<Rightarrow> False | a # args \<Rightarrow> P a args) \<longleftrightarrow> (\<exists>a args. ws = a # args \<and> P a args)"
  by (cases ws) simp_all

lemma validate_line:
  "validate_command command l = Inr v \<longleftrightarrow>
    (\<exists>is. line_ok is \<and> line_text is = py_strip command \<and> single_line (line_text is) \<and>
       \<not> shell_operator Bare (line_text is) \<and>
       (case line_words is of [] \<Rightarrow> False | a # args \<Rightarrow> py_lower a \<in> py_lower ` set l \<and>
          v = \<lparr>ac_binary = py_lower a, ac_argv = a # args, ac_destructive = mutating args\<rparr>))"
    (is "?left \<longleftrightarrow> ?right")
proof
  assume ?left
  then obtain a args where accept: "single_line (py_strip command)" "\<not> shell_operator Bare (py_strip command)"
    "shlex_split (py_strip command) = Some (a # args)" "py_lower a \<in> py_lower ` set l"
    "v = \<lparr>ac_binary = py_lower a, ac_argv = a # args, ac_destructive = mutating args\<rparr>"
    unfolding destructive_words [symmetric]
    by (auto simp: validate_command_def Let_def has_unquoted_shell_operator_def single_line_def
        split: if_splits option.splits list.splits)
  then show ?right unfolding shlex_split_exact by force
next
  assume ?right
  then obtain "is" a args where parts: "line_ok is" "line_text is = py_strip command" "single_line (line_text is)"
    "\<not> shell_operator Bare (line_text is)" "line_words is = a # args" "py_lower a \<in> py_lower ` set l"
    "v = \<lparr>ac_binary = py_lower a, ac_argv = a # args, ac_destructive = mutating args\<rparr>"
    unfolding word_cases by blast
  note line = parts [unfolded parts(2)]
  have "shlex_split (py_strip command) = Some (a # args)" unfolding shlex_split_exact using parts(1,2,5) by blast
  moreover have "py_strip command \<noteq> []" using calculation by (auto simp: shlex_split_def)
  ultimately show ?left
    using line(3,4,6,7) by (simp add: validate_command_def has_unquoted_shell_operator_def single_line_def destructive_words)
qed

lemma line_words_unique: "line_ok is \<Longrightarrow> line_ok js \<Longrightarrow> line_text is = line_text js \<Longrightarrow> line_words is = line_words js"
  by (metis lex_line(1) option.inject)

text \<open>Of a line that the gate approves and the scan lets pass, what is run is its vector.\<close>

lemma approved_runs:
  assumes "approved s which sp command read_only confirm is" "\<not> shell_operator Bare (line_text is)"
  shows "run_command_stream s which sp process m command read_only confirm =
    running sp command m is (process (vector_of which is))"
proof -
  obtain a args path where line: "line_words is = a # args" "which (py_lower a) = Some path"
    using assms(1) by (auto simp: approved_def split: list.splits)
  have "validate_command command (case xs_allowlist s of None \<Rightarrow> [''az''] | Some l \<Rightarrow> if l = [] then [''az''] else l) =
      Inr \<lparr>ac_binary = py_lower a, ac_argv = a # args, ac_destructive = mutating args\<rparr>"
    unfolding validate_line using assms line(1)
    by (intro exI [of _ "is"]) (auto simp: approved_def allowed_binaries_def split: option.splits)
  with assms line show ?thesis
    by (auto simp: run_command_stream_def approved_def running_def vector_of_def split: prod.splits option.splits bool.splits)
qed

lemma started_is_approved:
  assumes "starts (run_command_stream s which sp process m command read_only confirm)"
  shows "\<exists>is. approved s which sp command read_only confirm is \<and> \<not> shell_operator Bare (line_text is)"
proof -
  define l where "l = (case xs_allowlist s of None \<Rightarrow> [''az''] | Some l \<Rightarrow> if l = [] then [''az''] else l)"
  have allowed: "allowed_binaries s = py_lower ` set l" by (simp add: l_def allowed_binaries_def split: option.splits)
  obtain v where v: "validate_command command l = Inr v" "xs_enabled s" "sp \<noteq> Some False" "which (ac_binary v) \<noteq> None"
    "ac_destructive v \<longrightarrow> confirm \<and> \<not> read_only"
    using assms unfolding run_command_stream_def Let_def l_def [symmetric]
    by (cases "validate_command command l"; cases sp) (auto split: if_splits option.splits bool.splits prod.splits)
  from v(1) [unfolded validate_line word_cases] obtain "is" a args where
    "line_ok is" "line_text is = py_strip command" "single_line (line_text is)" "\<not> shell_operator Bare (line_text is)"
    "line_words is = a # args" "py_lower a \<in> py_lower ` set l"
    "v = \<lparr>ac_binary = py_lower a, ac_argv = a # args, ac_destructive = mutating args\<rparr>" by blast
  with v show ?thesis by (intro exI [of _ "is"]) (auto simp: approved_def allowed)
qed

text \<open>
  C12. The gate. Whatever the command line, a process is started only for a line that is approved: execution is
  enabled, the sign-in of a service principal did not fail, the line is a single one of at most 4000 characters, its
  first word is an allowed binary that the host has, and when another word that is no option is a mutating verb
  the run is confirmed and the connection is not read-only; the line has no operator and no command substitution
  outside quotes, unless it escapes a quote; and what is run is that binary with exactly the other words
  of the line. Every approved line without an operator outside quotes that escapes no quote is run. And when
  no process is started, the answer does not depend on what one would do.
\<close>
theorem process_starts_iff_approved:
  "(starts (run_command_stream s which sp process m command read_only confirm) \<longrightarrow>
      (\<exists>is. approved s which sp command read_only confirm is \<and> (escaped_quote is \<or> \<not> operator_in is) \<and>
         run_command_stream s which sp process m command read_only confirm =
           running sp command m is (process (vector_of which is)))) \<and>
   (\<forall>is. approved s which sp command read_only confirm is \<and> \<not> escaped_quote is \<and> \<not> operator_in is \<longrightarrow>
      starts (run_command_stream s which sp process m command read_only confirm)) \<and>
   (starts (run_command_stream s which sp process m command read_only confirm) \<or>
      run_command_stream s which sp process m command read_only confirm =
        run_command_stream s which sp process' m command read_only confirm)"
proof (intro conjI impI allI)
  assume "starts (run_command_stream s which sp process m command read_only confirm)"
  then obtain "is" where line: "approved s which sp command read_only confirm is" "\<not> shell_operator Bare (line_text is)"
    using started_is_approved by blast
  then have "escaped_quote is \<or> \<not> operator_in is"
    using shell_operator_exact [of "is"] unfolding approved_def by blast
  with line show "\<exists>is. approved s which sp command read_only confirm is \<and> (escaped_quote is \<or> \<not> operator_in is) \<and>
      run_command_stream s which sp process m command read_only confirm = running sp command m is (process (vector_of which is))"
    using approved_runs by blast
next
  fix "is"
  assume "approved s which sp command read_only confirm is \<and> \<not> escaped_quote is \<and> \<not> operator_in is"
  then show "starts (run_command_stream s which sp process m command read_only confirm)"
    using shell_operator_exact [of "is"] approved_runs [of s which sp command read_only confirm "is"]
    by (auto simp: approved_def running_def)
next
  show "starts (run_command_stream s which sp process m command read_only confirm) \<or>
      run_command_stream s which sp process m command read_only confirm =
        run_command_stream s which sp process' m command read_only confirm"
    by (auto simp: run_command_stream_def Let_def split: sum.splits option.splits bool.splits prod.splits)
qed

section \<open>Examples\<close>

text \<open>
  A backslash before a quote hides an operator: the scan takes the quote for the beginning of quoted text, and
  the split takes it for a character of a word.
\<close>

lemma escaped_quote_hides_operator:
  "validate_command [CHR ''a'', CHR ''z'', CHR '' '', BACKSLASH, QUOTE, CHR '';'', CHR '' '', CHR ''r'', CHR ''m'', CHR '' '', BACKSLASH, QUOTE] [''az''] =
     Inr \<lparr>ac_binary = ''az'', ac_argv = [''az'', [QUOTE, CHR '';''], ''rm'', [QUOTE]], ac_destructive = False\<rparr>"
  by code_simp

definition ready :: exec_settings where
  "ready = \<lparr>xs_enabled = True, xs_allowlist = None\<rparr>"

definition host :: "string \<Rightarrow> string option" where
  "host b = (if b = ''az'' then Some ''/usr/bin/az'' else None)"

definition unquoted :: "string \<Rightarrow> line" where
  "unquoted s = map (\<lambda>c. if c = CHR '' '' then Blank c else Piece (Plain c)) s"

definition delete_line :: line where
  "delete_line = unquoted ''AZ vm delete -n '' @ [Piece (Double (map Lit ''a;b''))]"

lemma delete_approved:
  "approved ready host None (line_text delete_line) False True delete_line"
  "\<not> escaped_quote delete_line" "\<not> operator_in delete_line"
  by code_simp+

theorem process_starts_iff_approved_witness:
  "starts (run_command_stream ready host None (\<lambda>v. (0, map (Text Stdout) v)) 100 (line_text delete_line) False True) \<and>
   Output Stdout ''a;b'' \<in> set (run_command_stream ready host None (\<lambda>v. (0, map (Text Stdout) v)) 100 (line_text delete_line) False True)"
proof
  show "starts (run_command_stream ready host None (\<lambda>v. (0, map (Text Stdout) v)) 100 (line_text delete_line) False True)"
    using process_starts_iff_approved [of ready host None "\<lambda>v. (0, map (Text Stdout) v)" 100 "line_text delete_line" False True]
      delete_approved by blast
qed code_simp

end
