(* ===== verification/Json_Values.thy ===== *)
theory Json_Values
  imports Prelude "HOL-Library.List_Lexorder" "HOL-Library.Char_ord" "HOL-Library.Product_Lexorder"
begin

text \<open>
  JSON documents as the code passes them around, with the Python operations it applies to them: the truth
  value, \<open>str\<close>, \<open>int\<close> and \<open>json.dumps\<close> without ASCII escapes, and the tokenisers built on regular
  expressions over single characters. Numbers are integers; text is ASCII.
\<close>

section \<open>Documents\<close>

datatype json =
  J_Null | J_Bool bool | J_Num int | J_Text string | J_List "json list" | J_Obj "(string \<times> json) list"

type_synonym doc = "(string \<times> json) list"

definition truthy :: "json option \<Rightarrow> bool" where
  "truthy v \<longleftrightarrow> v \<notin> {None, Some J_Null, Some (J_Bool False), Some (J_Num 0), Some (J_Text []), Some (J_List []), Some (J_Obj [])}"

text \<open>\<open>d.get(k) or default\<close>.\<close>

definition get_or :: "doc \<Rightarrow> string \<Rightarrow> json \<Rightarrow> json" where
  "get_or d k fallback = (if truthy (map_of d k) then the (map_of d k) else fallback)"

section \<open>\<open>str\<close> and \<open>int\<close>\<close>

definition int_text :: "int \<Rightarrow> string" where
  "int_text n = (if n < 0 then CHR 0x2D # digits_of_int (- n) else digits_of_int n)"

definition hex_digit :: "nat \<Rightarrow> char" where
  "hex_digit n = char_of (if n < 10 then 48 + n else 87 + n)"

definition hex2 :: "char \<Rightarrow> string" where
  "hex2 c = [hex_digit (char_code c div 16), hex_digit (char_code c mod 16)]"

definition repr_char :: "char \<Rightarrow> char \<Rightarrow> string" where
  "repr_char quote c =
     (if c = quote \<or> c = CHR 0x5C then [CHR 0x5C, c]
      else if c = CHR 0x09 then [CHR 0x5C, CHR ''t'']
      else if c = CHR 0x0A then [CHR 0x5C, CHR ''n'']
      else if c = CHR 0x0D then [CHR 0x5C, CHR ''r'']
      else if char_code c < 32 \<or> char_code c = 127 then [CHR 0x5C, CHR ''x''] @ hex2 c
      else [c])"

definition repr_text :: "string \<Rightarrow> string" where
  "repr_text s =
     (let quote = (if CHR 0x27 \<in> set s \<and> CHR 0x22 \<notin> set s then CHR 0x22 else CHR 0x27)
      in quote # concat (map (repr_char quote) s) @ [quote])"

primrec py_repr :: "json \<Rightarrow> string" where
  "py_repr J_Null = ''None''"
| "py_repr (J_Bool b) = (if b then ''True'' else ''False'')"
| "py_repr (J_Num n) = int_text n"
| "py_repr (J_Text s) = repr_text s"
| "py_repr (J_List xs) = ''['' @ join_with '', '' (map py_repr xs) @ '']''"
| "py_repr (J_Obj m) = ''{'' @ join_with '', '' (map (\<lambda>kv. repr_text (fst kv) @ '': '' @ snd kv) (map (map_prod id py_repr) m)) @ ''}''"

definition py_str :: "json \<Rightarrow> string" where
  "py_str v = (case v of J_Text s \<Rightarrow> s | _ \<Rightarrow> py_repr v)"

text \<open>\<open>int(v)\<close>: digits, underscores between digits, a sign and surrounding space; anything else raises
  with the text given.\<close>

definition digit_groups :: "string \<Rightarrow> bool" where
  "digit_groups s \<longleftrightarrow> list_all (\<lambda>g. g \<noteq> [] \<and> list_all is_digit g) (split_on (CHR 0x5F) s)"

definition int_of_text :: "string \<Rightarrow> int option" where
  "int_of_text s =
     (let t = py_strip s; signed = (t \<noteq> [] \<and> (hd t = CHR 0x2D \<or> hd t = CHR 0x2B));
          body = (if signed then tl t else t); n = int_of_digits 0 (filter is_digit body)
      in if \<not> digit_groups body then None else Some (if signed \<and> hd t = CHR 0x2D then - n else n))"

definition not_a_number :: "string \<Rightarrow> string" where
  "not_a_number kind = ''int() argument must be a string, a bytes-like object or a real number, not '' @ repr_text kind"

definition py_int :: "json \<Rightarrow> (string, int) result" where
  "py_int v =
     (case v of
        J_Null \<Rightarrow> Inl (not_a_number ''NoneType'')
      | J_Bool b \<Rightarrow> Inr (if b then 1 else 0)
      | J_Num n \<Rightarrow> Inr n
      | J_Text s \<Rightarrow> (case int_of_text s of
           None \<Rightarrow> Inl (''invalid literal for int() with base 10: '' @ repr_text s)
         | Some n \<Rightarrow> Inr n)
      | J_List _ \<Rightarrow> Inl (not_a_number ''list'')
      | J_Obj _ \<Rightarrow> Inl (not_a_number ''dict''))"

section \<open>\<open>json.dumps(..., ensure_ascii=False)\<close>\<close>

definition json_char :: "char \<Rightarrow> string" where
  "json_char c =
     (if c = CHR 0x22 \<or> c = CHR 0x5C then [CHR 0x5C, c]
      else if c = CHR 0x0A then [CHR 0x5C, CHR ''n'']
      else if c = CHR 0x0D then [CHR 0x5C, CHR ''r'']
      else if c = CHR 0x09 then [CHR 0x5C, CHR ''t'']
      else if c = CHR 0x0C then [CHR 0x5C, CHR ''f'']
      else if c = CHR 0x08 then [CHR 0x5C, CHR ''b'']
      else if char_code c < 32 then [CHR 0x5C] @ ''u00'' @ hex2 c
      else [c])"

definition json_text :: "string \<Rightarrow> string" where
  "json_text s = CHR 0x22 # concat (map json_char s) @ [CHR 0x22]"

primrec dumps :: "string \<Rightarrow> string \<Rightarrow> json \<Rightarrow> string" where
  "dumps comma colon J_Null = ''null''"
| "dumps comma colon (J_Bool b) = (if b then ''true'' else ''false'')"
| "dumps comma colon (J_Num n) = int_text n"
| "dumps comma colon (J_Text s) = json_text s"
| "dumps comma colon (J_List xs) = ''['' @ join_with comma (map (dumps comma colon) xs) @ '']''"
| "dumps comma colon (J_Obj m) =
     ''{'' @ join_with comma (map (\<lambda>kv. json_text (fst kv) @ colon @ snd kv) (map (map_prod id (dumps comma colon)) m)) @ ''}''"

abbreviation compact_dumps :: "json \<Rightarrow> string" where
  "compact_dumps \<equiv> dumps '','' '':''"

abbreviation spaced_dumps :: "json \<Rightarrow> string" where
  "spaced_dumps \<equiv> dumps '', '' '': ''"

text \<open>The text of a document holds no control character, so quoting it again at most doubles it.\<close>

definition printable :: "char \<Rightarrow> bool" where
  "printable c \<longleftrightarrow> 32 \<le> char_code c"

lemma printable_Char [simp]: "printable (Char a b c d e f g h) \<longleftrightarrow> f \<or> g \<or> h"
  by (cases a; cases b; cases c; cases d; cases e; cases f; cases g; cases h) (simp_all add: printable_def char_code_def)

lemma char_code_of: "n < 256 \<Longrightarrow> char_code (char_of n) = n"
  by (simp add: char_code_def)

lemma char_code_less: "char_code c < 256"
  unfolding char_code_def using of_char_mod_256 [of c] by (metis mod_less_divisor zero_less_numeral)

lemma printable_hex2: "list_all printable (hex2 c)"
  using char_code_less [of c] by (simp add: hex2_def hex_digit_def printable_def char_code_of)

lemma printable_json_char: "list_all printable (json_char c)"
  using printable_hex2 [of c]
  by (simp add: json_char_def printable_def char_code_def)

lemma printable_json_text: "list_all printable (json_text s)"
  using printable_json_char
  by (auto simp: json_text_def list_all_iff printable_def char_code_def)

lemma printable_digits: "0 \<le> n \<Longrightarrow> list_all printable (digits_of_int n)"
proof (induction n rule: digits_of_int.induct)
  case (1 n)
  have "printable (char_of (48 + nat (n mod 10)))"
    by (simp add: printable_def char_code_of nat_less_iff)
  with 1 show ?case
    by (subst digits_of_int.simps) (auto simp: printable_def [of "char_of _"] char_code_of)
qed

lemma printable_int_text: "list_all printable (int_text n)"
  by (simp add: int_text_def printable_digits)

lemma list_all_join_with:
  "list_all P sep \<Longrightarrow> list_all (list_all P) parts \<Longrightarrow> list_all P (join_with sep parts)"
  by (induction sep parts rule: join_with.induct) auto

lemma dumps_printable:
  assumes "list_all printable comma" "list_all printable colon"
  shows "list_all printable (dumps comma colon v)"
proof (induction v)
  case (J_List xs)
  then have "list_all (list_all printable) (map (dumps comma colon) xs)"
    by (simp add: list_all_iff)
  then show ?case
    using list_all_join_with [OF assms(1)] by simp
next
  case (J_Obj m)
  then have "list_all (list_all printable) (map (\<lambda>kv. json_text (fst kv) @ colon @ snd kv) (map (map_prod id (dumps comma colon)) m))"
    using assms(2) by (fastforce simp: list_all_iff printable_json_text [unfolded list_all_iff])
  then show ?case
    using list_all_join_with [OF assms(1)] by simp
qed (simp_all add: printable_int_text printable_json_text)

lemma json_char_length: "printable c \<Longrightarrow> length (json_char c) \<le> 2"
  by (auto simp: json_char_def printable_def)

lemma quote_at_most_doubles: "list_all printable s \<Longrightarrow> length (concat (map json_char s)) \<le> 2 * length s"
  by (induction s) (auto dest: json_char_length)

lemma json_text_length: "list_all printable s \<Longrightarrow> length (json_text s) \<le> 2 * length s + 2"
  using quote_at_most_doubles [of s] by (simp add: json_text_def)

section \<open>Tokenisers\<close>

definition lower_alnum :: "char \<Rightarrow> bool" where
  "lower_alnum c \<longleftrightarrow> (97 \<le> char_code c \<and> char_code c \<le> 122) \<or> is_digit c"

definition word_char :: "char \<Rightarrow> bool" where
  "word_char c \<longleftrightarrow> lower_alnum c \<or> (65 \<le> char_code c \<and> char_code c \<le> 90) \<or> c = CHR 0x5F"

text \<open>\<open>re.split(r"[^...]+", s)\<close>, \<open>keep\<close> being the class that is not a separator; \<open>re.findall(r"[...]+", s)\<close>.\<close>

function re_split :: "(char \<Rightarrow> bool) \<Rightarrow> string \<Rightarrow> string list" where
  "re_split keep s =
     (let token = takeWhile keep s; rest = dropWhile keep s
      in if rest = [] then [token] else token # re_split keep (dropWhile (\<lambda>c. \<not> keep c) rest))"
  by pat_completeness auto
termination
proof (relation "measure (\<lambda>(keep, s). length s)")
  fix keep s token rest
  assume rest: "rest = dropWhile keep s" "rest \<noteq> []"
  then have "\<not> keep (hd rest)"
    by (simp add: hd_dropWhile)
  with rest(2) have "length (dropWhile (\<lambda>c. \<not> keep c) rest) < length rest"
    by (cases rest) (auto simp: le_imp_less_Suc length_dropWhile_le)
  also have "length rest \<le> length s"
    by (simp add: rest(1) length_dropWhile_le)
  finally show "((keep, dropWhile (\<lambda>c. \<not> keep c) rest), (keep, s)) \<in> measure (\<lambda>(keep, s). length s)"
    by simp
qed simp

declare re_split.simps [simp del]

definition find_words :: "(char \<Rightarrow> bool) \<Rightarrow> string \<Rightarrow> string list" where
  "find_words keep s = filter (\<lambda>t. t \<noteq> []) (re_split keep s)"

text \<open>The distinct elements in the order of their first occurrence, as \<open>dict.fromkeys\<close> keeps them.\<close>

definition first_of_each :: "'a list \<Rightarrow> 'a list" where
  "first_of_each xs = rev (remdups (rev xs))"

lemma set_first_of_each [simp]: "set (first_of_each xs) = set xs"
  by (simp add: first_of_each_def)

end
