(* ===== verification/Auth_Sso.thy ===== *)
theory Auth_Sso
  imports User_Admin Json_Values
begin

text \<open>
  Signing in through an identity provider: the identity read from the claims of an OpenID Connect token
  (\<^verbatim>\<open>app/auth/oidc.py\<close>) or from a SAML assertion (\<^verbatim>\<open>app/auth/saml.py\<close>), the account it is given or
  created (\<^verbatim>\<open>app/auth/provisioning.py\<close>), and the two callback handlers of \<^verbatim>\<open>app/api/auth.py\<close>. The token
  endpoint with the check of the token's signature, audience and issuer, the check of the signature of a SAML
  response, and the opening of the sealed cookies are third-party code and enter as functions that
  fail with \<open>None\<close>; the configuration of a provider is the record the administration form writes. The lengths
  of the columns are not modelled.
\<close>

section \<open>Providers and identities\<close>

record provider =
  pv_id :: string
  pv_tenant :: string
  pv_type :: string
  pv_enabled :: bool
  pv_auto :: "json option"
  pv_roles :: "(string \<times> string) list"
  pv_default_role :: string
  pv_group_claim :: string
  pv_entity :: string
  pv_email_attr :: string
  pv_name_attr :: string
  pv_group_attr :: string

text \<open>The settings of all providers.\<close>

record sso_cfg =
  sf_auto_provision :: bool
  sf_default_role :: string

record identity =
  id_external :: string
  id_email :: string
  id_display :: string
  id_groups :: "string list"
  id_verified :: bool

text \<open>The text claims of a validated token, and all of its claims for the others.\<close>

record claims =
  cl_sub :: "string option"
  cl_email :: "string option"
  cl_preferred :: "string option"
  cl_name :: "string option"
  cl_nonce :: "string option"
  cl_all :: doc

text \<open>\<open>extract_identity\<close>; a group claim that cannot be iterated raises.\<close>

definition claimed_groups :: "json \<Rightarrow> string list option" where
  "claimed_groups v =
     (case v of
        J_Text s \<Rightarrow> Some (filter (\<lambda>g. g \<noteq> []) (map py_strip (split_on (CHR '','') s)))
      | J_List xs \<Rightarrow> Some (map py_str xs)
      | J_Obj m \<Rightarrow> Some (map fst m)
      | _ \<Rightarrow> None)"

definition extract_identity :: "claims \<Rightarrow> provider \<Rightarrow> identity option" where
  "extract_identity cl p =
     (let claim = (if pv_group_claim p = [] then ''groups'' else pv_group_claim p);
          verified = (case map_of (cl_all cl) ''email_verified'' of None \<Rightarrow> True | Some J_Null \<Rightarrow> True | Some v \<Rightarrow> truthy (Some v))
      in case claimed_groups (get_or (cl_all cl) claim (J_List [])) of
        None \<Rightarrow> None
      | Some groups \<Rightarrow> Some \<lparr>id_external = str_or (cl_sub cl) [],
          id_email = str_or (cl_email cl) (str_or (cl_preferred cl) []),
          id_display = str_or (cl_name cl) (str_or (cl_preferred cl) []),
          id_groups = groups, id_verified = verified\<rparr>)"

section \<open>Provisioning\<close>

definition role_id_by_name :: "string \<Rightarrow> string \<Rightarrow> auth_db \<Rightarrow> string option" where
  "role_id_by_name name tenant db =
     map_option ro_id (find (\<lambda>r. ro_name r = name \<and> visible_role tenant r) (di_roles (ad_dir db)))"

text \<open>The user name: the base, or the base with the first number from two on that is free.\<close>

definition free_username :: "string \<Rightarrow> auth_db \<Rightarrow> string" where
  "free_username base db =
     (let taken = map us_username (ad_users db);
          candidates = base # map (\<lambda>i. base @ digits_of_int (int i + 2)) [0..<length taken]
      in case find (\<lambda>n. n \<notin> set taken) candidates of Some n \<Rightarrow> n | None \<Rightarrow> base)"

definition linked_account :: "provider \<Rightarrow> string \<Rightarrow> auth_db \<Rightarrow> account option" where
  "linked_account p external db = find (\<lambda>u. us_idp u = Some (pv_id p) \<and> us_subject u = Some external) (ad_users db)"

definition account_with_email :: "provider \<Rightarrow> string \<Rightarrow> auth_db \<Rightarrow> account option" where
  "account_with_email p email db = find (\<lambda>u. us_email u = email \<and> us_tenant u = pv_tenant p) (ad_users db)"

text \<open>The account that the assertion is matched to: \<open>Inl\<close> when it is refused, else the account found, if any.\<close>

definition match_account :: "provider \<Rightarrow> identity \<Rightarrow> auth_db \<Rightarrow> (unit, account option) result" where
  "match_account p i db =
     (let email = py_lower (py_strip (id_email i)) in
      case linked_account p (id_external i) db of
        Some u \<Rightarrow> Inr (Some u)
      | None \<Rightarrow>
          (if email = [] then Inr None
           else case account_with_email p email db of
             Some u \<Rightarrow>
               (if us_source u = ''local'' \<or> str_or (us_hash u) [] \<noteq> [] \<or> \<not> id_verified i then Inl ()
                else Inr (Some u))
           | None \<Rightarrow> if list_ex (\<lambda>u. us_email u = email) (ad_users db) then Inl () else Inr None))"

definition auto_provision :: "sso_cfg \<Rightarrow> provider \<Rightarrow> bool" where
  "auto_provision c p = (case pv_auto p of None \<Rightarrow> sf_auto_provision c | Some v \<Rightarrow> truthy (Some v))"

definition new_account :: "provider \<Rightarrow> identity \<Rightarrow> string \<Rightarrow> auth_db \<Rightarrow> account" where
  "new_account p i fresh db =
     (let email = py_lower (py_strip (id_email i));
          base = take 120 (if email = [] then id_external i else takeWhile (\<lambda>c. c \<noteq> CHR ''@'') email);
          username = free_username (if base = [] then ''ssouser'' else base) db
      in \<lparr>us_id = fresh, us_tenant = pv_tenant p, us_default_role = None, us_username = username,
          us_email = (if email = [] then id_external i @ ''@'' @ pv_type p else email),
          us_display = (if id_display i \<noteq> [] then id_display i else if email \<noteq> [] then email else username),
          us_status = ''active'', us_hash = None, us_failed = 0, us_locked_until = None, us_must_change = False,
          us_source = pv_type p, us_last_login = None, us_idp = Some (pv_id p), us_subject = Some (id_external i)\<rparr>)"

definition refreshed :: "provider \<Rightarrow> identity \<Rightarrow> account \<Rightarrow> account" where
  "refreshed p i u = u\<lparr>us_idp := Some (pv_id p), us_subject := Some (id_external i),
     us_display := (if id_display i \<noteq> [] then id_display i else us_display u),
     us_source := (if us_source u = ''local'' \<and> us_hash u = None then pv_type p else us_source u)\<rparr>"

definition mapped_roles :: "sso_cfg \<Rightarrow> provider \<Rightarrow> identity \<Rightarrow> auth_db \<Rightarrow> string list" where
  "mapped_roles c p i db =
     (let groups = filter (\<lambda>g. g \<noteq> []) (map py_strip (id_groups i));
          matched = map snd (filter (\<lambda>(g, r). g \<in> set groups \<and> r \<noteq> []) (pv_roles p));
          names = (if matched = [] then [if pv_default_role p = [] then sf_default_role c else pv_default_role p] else matched)
      in filter (\<lambda>r. r \<noteq> []) (concat (map (\<lambda>n. case role_id_by_name n (pv_tenant p) db of None \<Rightarrow> [] | Some r \<Rightarrow> [r]) (from_keys names))))"

text \<open>
  \<open>provision_sso_user\<close>: \<open>Inl\<close> when it raises, which rolls back; \<open>Inr None\<close> when it refuses, with nothing committed.
\<close>

definition provision_sso_user ::
  "sso_cfg \<Rightarrow> int \<Rightarrow> string \<Rightarrow> provider \<Rightarrow> identity \<Rightarrow> auth_db \<Rightarrow> (unit, (account \<times> auth_db) option) result" where
  "provision_sso_user c now fresh p i db =
     (let settle = (\<lambda>u db1. if us_status u \<noteq> ''active'' then Inr None
            else let rids = mapped_roles c p i db1; u' = u\<lparr>us_last_login := Some now\<rparr>;
                     db2 = (if rids = [] then db1
                       else upd_dir (set_user_roles (us_id u) (from_keys (user_role_ids (us_id u) db1 @ rids))) db1)
              in Inr (Some (u', put_user u' db2)))
      in case match_account p i db of
        Inl _ \<Rightarrow> Inr None
      | Inr (Some u) \<Rightarrow> settle (refreshed p i u) (put_user (refreshed p i u) db)
      | Inr None \<Rightarrow>
          (if \<not> auto_provision c p then Inr None
           else let u = new_account p i fresh db in
             if list_ex (\<lambda>x. us_email x = us_email u) (ad_users db) then Inl ()
             else settle u (db\<lparr>ad_users := ad_users db @ [u]\<rparr>)))"

section \<open>Pending requests\<close>

text \<open>What the sealed cookie of a sign-in in flight holds; \<open>pn_ts\<close> is in seconds.\<close>

record pending =
  pn_state :: "string option"
  pn_verifier :: "string option"
  pn_nonce :: "string option"
  pn_request :: "string option"
  pn_provider :: "string option"
  pn_ts :: int

definition STATE_TTL_SECONDS :: int where "STATE_TTL_SECONDS = 600"
definition RELAY_TTL_SECONDS :: int where "RELAY_TTL_SECONDS = 600"

definition seconds_of :: "int \<Rightarrow> int" where
  "seconds_of now = now div 1000000"

text \<open>What the two login handlers seal, and the reading of a cookie with its freshness check.\<close>

definition encode_state :: "int \<Rightarrow> string \<Rightarrow> string \<Rightarrow> string \<Rightarrow> pending" where
  "encode_state now state verifier nonce = \<lparr>pn_state = Some state, pn_verifier = Some verifier, pn_nonce = Some nonce,
     pn_request = None, pn_provider = None, pn_ts = seconds_of now\<rparr>"

definition encode_relay :: "int \<Rightarrow> string \<Rightarrow> string \<Rightarrow> pending" where
  "encode_relay now request idp = \<lparr>pn_state = None, pn_verifier = None, pn_nonce = None,
     pn_request = Some request, pn_provider = Some idp, pn_ts = seconds_of now\<rparr>"

definition decode_state :: "(string \<Rightarrow> pending option) \<Rightarrow> int \<Rightarrow> string \<Rightarrow> pending option" where
  "decode_state unseal now cookie =
     (case unseal cookie of None \<Rightarrow> None
      | Some d \<Rightarrow> if STATE_TTL_SECONDS < seconds_of now - pn_ts d then None else Some d)"

definition decode_relay :: "(string \<Rightarrow> pending option) \<Rightarrow> int \<Rightarrow> string \<Rightarrow> pending option" where
  "decode_relay unseal now cookie =
     (case unseal cookie of None \<Rightarrow> None
      | Some d \<Rightarrow> if RELAY_TTL_SECONDS < seconds_of now - pn_ts d then None else Some d)"

section \<open>Assertions\<close>

text \<open>
  The single assertion under a verified signature: its issuer, the window and the audiences of its conditions, the
  subject confirmation, the name of the subject and the attributes in their order.
\<close>

record confirmation =
  cf_recipient :: "string option"
  cf_not_after :: "int option"
  cf_in_response_to :: "string option"

record assertion =
  as_issuer :: "string option"
  as_not_before :: "int option"
  as_not_after :: "int option"
  as_audiences :: "string list"
  as_confirmation :: "confirmation option"
  as_subject :: string
  as_attributes :: "(string \<times> string list) list"

definition CLOCK_SKEW :: int where "CLOCK_SKEW = 120 * 1000000"

definition sp_entity_id :: "string \<Rightarrow> string" where
  "sp_entity_id base = rev (dropWhile (\<lambda>c. c = CHR ''/'') (rev base)) @ ''/api/auth/saml/metadata''"

definition acs_url :: "string \<Rightarrow> string \<Rightarrow> string" where
  "acs_url base idp = rev (dropWhile (\<lambda>c. c = CHR ''/'') (rev base)) @ ''/api/auth/saml/'' @ idp @ ''/acs''"

definition past :: "int \<Rightarrow> int option \<Rightarrow> bool" where
  "past now limit = (case limit of None \<Rightarrow> False | Some t \<Rightarrow> t + CLOCK_SKEW \<le> now)"

definition attribute :: "assertion \<Rightarrow> string \<Rightarrow> string list" where
  "attribute a n = (case map_of (rev (as_attributes a)) n of None \<Rightarrow> [] | Some vs \<Rightarrow> vs)"

definition first_attribute :: "assertion \<Rightarrow> string list \<Rightarrow> string" where
  "first_attribute a names = (case find (\<lambda>n. attribute a n \<noteq> []) names of None \<Rightarrow> [] | Some n \<Rightarrow> hd (attribute a n))"

definition identity_of :: "provider \<Rightarrow> assertion \<Rightarrow> identity" where
  "identity_of p a =
     (let email = first_attribute a [pv_email_attr p,
            ''http://schemas.xmlsoap.org/ws/2005/05/identity/claims/emailaddress'', ''email'', ''mail''];
          email' = (if email = [] then as_subject a else email);
          group_attr = (if pv_group_attr p = [] then ''http://schemas.microsoft.com/ws/2008/06/identity/claims/groups'' else pv_group_attr p);
          groups = (if attribute a group_attr \<noteq> [] then attribute a group_attr
            else if attribute a ''groups'' \<noteq> [] then attribute a ''groups'' else attribute a ''Groups'')
      in \<lparr>id_external = (if as_subject a = [] then email' else as_subject a), id_email = email',
          id_display = first_attribute a [pv_name_attr p,
            ''http://schemas.xmlsoap.org/ws/2005/05/identity/claims/name'', ''displayName'', ''name''],
          id_groups = groups, id_verified = True\<rparr>)"

text \<open>\<open>validate_response\<close> after the signature.\<close>

definition validate_response :: "string \<Rightarrow> int \<Rightarrow> provider \<Rightarrow> string option \<Rightarrow> assertion \<Rightarrow> identity option" where
  "validate_response base now p expected a =
     (let in_response_to = (case as_confirmation a of None \<Rightarrow> None | Some cf \<Rightarrow> cf_in_response_to cf) in
      if pv_entity p \<noteq> [] \<and> as_issuer a \<noteq> Some (pv_entity p) then None
      else if (case as_not_before a of None \<Rightarrow> False | Some t \<Rightarrow> now < t - CLOCK_SKEW) then None
      else if past now (as_not_after a) then None
      else if as_audiences a \<noteq> [] \<and> sp_entity_id base \<notin> set (as_audiences a) then None
      else if (case as_confirmation a of None \<Rightarrow> False
        | Some cf \<Rightarrow> str_or (cf_recipient cf) [] \<noteq> [] \<and> cf_recipient cf \<noteq> Some (acs_url base (pv_id p)) \<or> past now (cf_not_after cf))
      then None
      else if expected \<noteq> None \<and> (str_or in_response_to [] = [] \<or> in_response_to \<noteq> expected) then None
      else Some (identity_of p a))"

section \<open>The handlers\<close>

text \<open>What the handlers reach outside: the providers' table, the cookies, the token endpoint and the signatures.\<close>

record sso_world =
  sw_providers :: "provider list"
  sw_unseal :: "string \<Rightarrow> pending option"
  sw_token :: "provider \<Rightarrow> string \<Rightarrow> string \<Rightarrow> claims option"
  sw_verify :: "provider \<Rightarrow> string \<Rightarrow> assertion option"
  sw_base :: string

datatype sso_answer =
  Not_Found | Sso_Failed | Sso_State | Sso_Denied | Saml_Missing | Saml_State | Saml_Failed | Signed_In string

definition get_idp :: "sso_world \<Rightarrow> string \<Rightarrow> string \<Rightarrow> provider option" where
  "get_idp w idp kind =
     (case find (\<lambda>p. pv_id p = idp) (sw_providers w) of None \<Rightarrow> None
      | Some p \<Rightarrow> if \<not> pv_enabled p \<or> pv_type p \<noteq> kind then None else Some p)"

text \<open>\<open>exchange_and_validate\<close>: the nonce is compared when the token has one.\<close>

definition exchange_and_validate :: "sso_world \<Rightarrow> provider \<Rightarrow> string \<Rightarrow> string \<Rightarrow> string \<Rightarrow> claims option" where
  "exchange_and_validate w p code verifier nonce =
     (case sw_token w p code verifier of None \<Rightarrow> None
      | Some cl \<Rightarrow> if nonce \<noteq> [] \<and> str_or (cl_nonce cl) [] \<noteq> [] \<and> cl_nonce cl \<noteq> Some nonce then None else Some cl)"

definition sso_session ::
  "auth_cfg \<Rightarrow> int \<Rightarrow> string \<Rightarrow> string option \<Rightarrow> string option \<Rightarrow> account \<Rightarrow> auth_db \<Rightarrow> sso_answer \<times> auth_db" where
  "sso_session cfg now token ip agent u db =
     (let (s, db1) = create_session cfg now token u ip agent db
      in (Signed_In (se_id s), audit_event (LoginOk (us_username u)) db1))"

definition oidc_callback ::
  "auth_cfg \<Rightarrow> sso_cfg \<Rightarrow> sso_world \<Rightarrow> int \<Rightarrow> string \<Rightarrow> string \<Rightarrow> string option \<Rightarrow> string option
   \<Rightarrow> string \<Rightarrow> string option \<Rightarrow> string option \<Rightarrow> string option \<Rightarrow> string option \<Rightarrow> auth_db \<Rightarrow> sso_answer \<times> auth_db" where
  "oidc_callback cfg c w now token fresh ip agent idp code state err cookie db =
     (if str_or err [] \<noteq> [] \<or> str_or code [] = [] then (Sso_Failed, db)
      else case decode_state (sw_unseal w) now (str_or cookie []) of
        None \<Rightarrow> (Sso_State, db)
      | Some saved \<Rightarrow>
          (if pn_state saved \<noteq> state then (Sso_State, db)
           else case get_idp w idp ''oidc'' of
             None \<Rightarrow> (Not_Found, db)
           | Some p \<Rightarrow>
               (case pn_verifier saved of
                  None \<Rightarrow> (Sso_Failed, db)
                | Some verifier \<Rightarrow>
                    (case exchange_and_validate w p (the code) verifier (str_or (pn_nonce saved) []) of
                       None \<Rightarrow> (Sso_Failed, db)
                     | Some cl \<Rightarrow>
                         (case extract_identity cl p of
                            None \<Rightarrow> (Sso_Failed, db)
                          | Some i \<Rightarrow>
                              (case provision_sso_user c now fresh p i db of
                                 Inl _ \<Rightarrow> (Sso_Failed, db)
                               | Inr None \<Rightarrow> (Sso_Denied, db)
                               | Inr (Some (u, db1)) \<Rightarrow> sso_session cfg now token ip agent u db1))))))"

definition saml_acs ::
  "auth_cfg \<Rightarrow> sso_cfg \<Rightarrow> sso_world \<Rightarrow> int \<Rightarrow> string \<Rightarrow> string \<Rightarrow> string option \<Rightarrow> string option
   \<Rightarrow> string \<Rightarrow> string option \<Rightarrow> string option \<Rightarrow> auth_db \<Rightarrow> sso_answer \<times> auth_db" where
  "saml_acs cfg c w now token fresh ip agent idp response cookie db =
     (if str_or response [] = [] then (Saml_Missing, db)
      else case get_idp w idp ''saml'' of
        None \<Rightarrow> (Not_Found, db)
      | Some p \<Rightarrow>
          (case decode_relay (sw_unseal w) now (str_or cookie []) of
             None \<Rightarrow> (Saml_State, db)
           | Some relay \<Rightarrow>
               (if pn_provider relay \<noteq> Some idp then (Saml_State, db)
                else case sw_verify w p (the response) of
                  None \<Rightarrow> (Saml_Failed, db)
                | Some a \<Rightarrow>
                    (case validate_response (sw_base w) now p (pn_request relay) a of
                       None \<Rightarrow> (Saml_Failed, db)
                     | Some i \<Rightarrow>
                         (case provision_sso_user c now fresh p i db of
                            Inl _ \<Rightarrow> (Saml_Failed, db)
                          | Inr None \<Rightarrow> (Sso_Denied, db)
                          | Inr (Some (u, db1)) \<Rightarrow> sso_session cfg now token ip agent u db1)))))"

section \<open>Who may be signed in\<close>






section \<open>Laws\<close>

text \<open>The search for a user name ends with a free one.\<close>

lemma int_of_digits_snoc: "int_of_digits acc (xs @ [c]) = 10 * int_of_digits acc xs + digit_value c"
  by (induction xs arbitrary: acc) simp_all

lemma digits_roundtrip: "0 \<le> n \<Longrightarrow> int_of_digits 0 (digits_of_int n) = n"
proof (induction n rule: digits_of_int.induct)
  case (1 n)
  have d: "digit_value (char_of (48 + nat (k mod 10))) = k mod 10" for k :: int
  proof -
    have "nat (k mod 10) < 10" by simp
    then show ?thesis by (simp add: digit_value_def char_code_def)
  qed
  show ?case
  proof (cases "n < 10")
    case True
    with 1 d [of n] show ?thesis by (subst digits_of_int.simps) simp
  next
    case False
    with 1 have "int_of_digits 0 (digits_of_int (n div 10)) = n div 10" by simp
    with False d [of n] show ?thesis by (subst digits_of_int.simps) (simp add: int_of_digits_snoc)
  qed
qed

lemma free_username_is_free: "free_username base db \<notin> us_username ` set (ad_users db)"
proof -
  let ?taken = "map us_username (ad_users db)"
  let ?numbered = "map (\<lambda>i. base @ digits_of_int (int i + 2)) [0..<length ?taken]"
  have inj: "inj_on (\<lambda>i. base @ digits_of_int (int i + 2)) (set [0..<length ?taken])"
  proof (rule inj_onI)
    fix i j
    assume "base @ digits_of_int (int i + 2) = base @ digits_of_int (int j + 2)"
    then have "int_of_digits 0 (digits_of_int (int i + 2)) = int_of_digits 0 (digits_of_int (int j + 2))" by simp
    then show "i = j" by (simp add: digits_roundtrip)
  qed
  have "base \<notin> set ?numbered"
  proof
    assume "base \<in> set ?numbered"
    then obtain i where "digits_of_int (int i + 2) = []" by auto
    then have "int_of_digits 0 (digits_of_int (int i + 2)) = 0" by simp
    then show False by (simp add: digits_roundtrip)
  qed
  with inj have "distinct (base # ?numbered)" by (simp add: distinct_map del: set_map)
  then have "card (set (base # ?numbered)) = Suc (length ?taken)" using distinct_card by fastforce
  moreover have "card (set ?taken) \<le> length ?taken" by (rule card_length)
  ultimately have "\<not> set (base # ?numbered) \<subseteq> set ?taken" using card_mono [of "set ?taken" "set (base # ?numbered)"] by fastforce
  then have "find (\<lambda>n. n \<notin> set ?taken) (base # ?numbered) \<noteq> None" unfolding find_None_iff by blast
  then obtain n where n: "find (\<lambda>n. n \<notin> set ?taken) (base # ?numbered) = Some n" by blast
  then have "n \<notin> set ?taken" by (auto dest: find_SomeD simp del: find.simps)
  moreover have "free_username base db = n" unfolding free_username_def Let_def n by simp
  ultimately show ?thesis by simp
qed



lemma refreshed_sel [simp]:
  "us_id (refreshed p i a) = us_id a" "us_status (refreshed p i a) = us_status a"
  by (simp_all add: refreshed_def)

lemma new_account_sel [simp]:
  "us_id (new_account p i fresh db) = fresh"
  "us_email (new_account p i fresh db) =
     (if py_lower (py_strip (id_email i)) = [] then id_external i @ ''@'' @ pv_type p else py_lower (py_strip (id_email i)))"
  by (simp_all add: new_account_def Let_def)









section \<open>Every way to sign in\<close>

datatype sign_in =
    With_Password string string
  | With_Code string "string option" "string option" "string option" "string option"
  | With_Assertion string "string option" "string option"

text \<open>The handler of each way; the answer is whether the caller is signed in.\<close>

definition sign_in ::
  "hasher \<Rightarrow> auth_cfg \<Rightarrow> sso_cfg \<Rightarrow> sso_world \<Rightarrow> int \<Rightarrow> string \<Rightarrow> string \<Rightarrow> string option \<Rightarrow> string option
   \<Rightarrow> sign_in \<Rightarrow> auth_db \<Rightarrow> bool \<times> auth_db" where
  "sign_in h cfg c w now token fresh ip agent how db =
     (case how of
        With_Password name pw \<Rightarrow>
          (case login h cfg now token ip agent name pw db of
             (r, db') \<Rightarrow> (case r of LoggedIn i ro ps \<Rightarrow> True | _ \<Rightarrow> False, db'))
      | With_Code idp code state err cookie \<Rightarrow>
          (case oidc_callback cfg c w now token fresh ip agent idp code state err cookie db of
             (r, db') \<Rightarrow> (case r of Signed_In t \<Rightarrow> True | _ \<Rightarrow> False, db'))
      | With_Assertion idp response cookie \<Rightarrow>
          (case saml_acs cfg c w now token fresh ip agent idp response cookie db of
             (r, db') \<Rightarrow> (case r of Signed_In t \<Rightarrow> True | _ \<Rightarrow> False, db')))"



section \<open>Examples\<close>

definition corp :: provider where
  "corp = \<lparr>pv_id = ''idp1'', pv_tenant = ''default'', pv_type = ''saml'', pv_enabled = True, pv_auto = None, pv_roles = [],
     pv_default_role = [], pv_group_claim = [], pv_entity = ''https://idp'', pv_email_attr = [], pv_name_attr = [],
     pv_group_attr = []\<rparr>"

definition corp_oidc :: provider where
  "corp_oidc = corp\<lparr>pv_id := ''idp2'', pv_type := ''oidc''\<rparr>"

definition no_confirmation :: assertion where
  "no_confirmation = \<lparr>as_issuer = Some ''https://idp'', as_not_before = Some 0, as_not_after = Some 9000000, as_audiences = [],
     as_confirmation = None, as_subject = ''bob-7'', as_attributes = [(''email'', [''Bob@X''])]\<rparr>"

definition bobs_assertion :: assertion where
  "bobs_assertion = no_confirmation\<lparr>as_confirmation :=
     Some \<lparr>cf_recipient = Some ''http://app/api/auth/saml/idp1/acs'', cf_not_after = None, cf_in_response_to = Some ''_r1''\<rparr>\<rparr>"

text \<open>The token of a code has the code as its e-mail, no subject, and the text \<open>false\<close> for the claim of a verified e-mail.\<close>

definition token_of :: "string \<Rightarrow> claims" where
  "token_of code = \<lparr>cl_sub = None, cl_email = Some code, cl_preferred = None, cl_name = None, cl_nonce = None,
     cl_all = [(''email_verified'', J_Text ''false'')]\<rparr>"

definition small_world :: sso_world where
  "small_world = \<lparr>sw_providers = [corp, corp_oidc],
     sw_unseal = (\<lambda>k. if k = ''relay'' then Some (encode_relay 0 ''_r1'' ''idp1'')
       else if k = ''state'' then Some (encode_state 0 ''s'' ''v'' ''n'') else None),
     sw_token = (\<lambda>p code verifier. Some (token_of code)),
     sw_verify = (\<lambda>p response. Some (if response = ''signed'' then bobs_assertion else no_confirmation)),
     sw_base = ''http://app/''\<rparr>"

definition sso_settings :: sso_cfg where
  "sso_settings = \<lparr>sf_auto_provision = True, sf_default_role = ''noaccess''\<rparr>"

definition sso_bob :: account where
  "sso_bob = example_user\<lparr>us_id := ''u2'', us_username := ''bob'', us_email := ''bob@x'', us_hash := None, us_source := ''saml''\<rparr>"

definition sso_db :: auth_db where
  "sso_db = example_db\<lparr>ad_users := [example_user, sso_bob]\<rparr>"

definition attempt :: "sign_in \<Rightarrow> auth_db \<Rightarrow> bool \<times> auth_db" where
  "attempt how db = sign_in example_hasher example_auth_cfg sso_settings small_world 5000000 ''t9'' ''u9'' (Some ''8.8.8.8'') None how db"



text \<open>
  A token whose claim \<open>email_verified\<close> is the text \<open>false\<close> counts as verified, and opens the account with its
  e-mail; and tokens without a subject share one account, the one that was linked first, whatever their e-mail.
\<close>

lemma text_false_is_verified:
  "map se_user (ad_sessions (snd (attempt (With_Code ''idp2'' (Some ''bob@x'') (Some ''s'') None (Some ''state'')) sso_db))) = [''u2'']"
  by code_simp

lemma no_subject_shares_account:
  "map se_user (ad_sessions (snd (attempt (With_Code ''idp2'' (Some ''eve@y'') (Some ''s'') None (Some ''state''))
     (snd (attempt (With_Code ''idp2'' (Some ''bob@x'') (Some ''s'') None (Some ''state'')) sso_db))))) = [''u2'', ''u2'']"
  by code_simp

end
