(* ===== verification/Iam_Rows.thy ===== *)
theory Iam_Rows
  imports Prelude "HOL-Library.List_Lexorder" "HOL-Library.Char_ord" "HOL-Library.Product_Lexorder"
begin

text \<open>
  The access row every part of the access review works on, \<^verbatim>\<open>app/iam/schema.py\<close>: the columns the other
  modules read, the defaults of \<open>make_row\<close>, the classification of scopes and roles, and the comparison of
  scopes of \<^verbatim>\<open>app/iam/effective.py\<close>. A missing text column is the empty string, as \<open>make_row\<close>
  leaves it. The memo tables of the scope functions are left out: they hold results of pure functions.
\<close>

section \<open>Rows\<close>

definition SURFACE_AZURE_RBAC :: string where "SURFACE_AZURE_RBAC = ''Azure RBAC''"
definition SURFACE_ENTRA :: string where "SURFACE_ENTRA = ''Entra ID RBAC''"
definition SURFACE_KEY_VAULT :: string where "SURFACE_KEY_VAULT = ''Key Vault Access Policy''"
definition SURFACE_CLASSIC :: string where "SURFACE_CLASSIC = ''Classic Admin''"
definition EFFECT_ALLOW :: string where "EFFECT_ALLOW = ''Allow''"
definition EFFECT_DENY :: string where "EFFECT_DENY = ''Deny''"
definition STATE_ACTIVE :: string where "STATE_ACTIVE = ''Active''"
definition STATE_ELIGIBLE :: string where "STATE_ELIGIBLE = ''Eligible''"
definition PATH_DIRECT :: string where "PATH_DIRECT = ''Direct''"
definition PATH_GROUP :: string where "PATH_GROUP = ''GroupTransitive''"
definition EXISTS_TRUE :: string where "EXISTS_TRUE = ''true''"
definition EXISTS_FALSE :: string where "EXISTS_FALSE = ''false''"
definition EXISTS_UNKNOWN :: string where "EXISTS_UNKNOWN = ''unknown''"
definition ENABLED_UNKNOWN :: string where "ENABLED_UNKNOWN = ''unknown''"
definition ENABLED_FALSE :: string where "ENABLED_FALSE = ''false''"
definition ENABLED_NA :: string where "ENABLED_NA = ''notApplicable''"

lemmas iam_constants =
  SURFACE_AZURE_RBAC_def SURFACE_ENTRA_def SURFACE_KEY_VAULT_def SURFACE_CLASSIC_def EFFECT_ALLOW_def
  EFFECT_DENY_def STATE_ACTIVE_def STATE_ELIGIBLE_def PATH_DIRECT_def PATH_GROUP_def EXISTS_TRUE_def
  EXISTS_FALSE_def EXISTS_UNKNOWN_def ENABLED_UNKNOWN_def ENABLED_FALSE_def ENABLED_NA_def

record row =
  rw_surface :: string
  rw_state :: string
  rw_assignment_type :: string
  rw_principal :: string
  rw_principal_type :: string
  rw_display :: string
  rw_upn :: string
  rw_effective :: string
  rw_effective_type :: string
  rw_effective_name :: string
  rw_effective_upn :: string
  rw_path :: string
  rw_chain :: string
  rw_group :: string
  rw_group_name :: string
  rw_role :: string
  rw_role_def :: string
  rw_privileged :: bool
  rw_scope :: string
  rw_scope_type :: string
  rw_scope_name :: string
  rw_mg :: string
  rw_mg_name :: string
  rw_assignment :: string
  rw_condition :: string
  rw_inherited :: bool
  rw_effect :: string
  rw_pim :: bool
  rw_expires :: string
  rw_exists :: string
  rw_enabled :: string
  rw_synced :: string
  rw_user_type :: string
  rw_own_scope_only :: bool
  rw_member_group :: string
  rw_member_group_name :: string
  rw_member_how :: string
  rw_member_synced :: string
  rw_member_assignable :: string
  rw_member_dynamic :: string
  rw_model :: string
  rw_app :: string
  rw_created :: string

definition no_values :: row where
  "no_values = \<lparr>rw_surface = [], rw_state = [], rw_assignment_type = [], rw_principal = [], rw_principal_type = [],
     rw_display = [], rw_upn = [], rw_effective = [], rw_effective_type = [], rw_effective_name = [], rw_effective_upn = [], rw_path = [],
     rw_chain = [], rw_group = [], rw_group_name = [], rw_role = [], rw_role_def = [], rw_privileged = False,
     rw_scope = [], rw_scope_type = [], rw_scope_name = [], rw_mg = [], rw_mg_name = [], rw_assignment = [], rw_condition = [], rw_inherited = False,
     rw_effect = [], rw_pim = False, rw_expires = [], rw_exists = [], rw_enabled = [],
     rw_synced = [], rw_user_type = [], rw_own_scope_only = False, rw_member_group = [], rw_member_group_name = [], rw_member_how = [], rw_member_synced = [],
     rw_member_assignable = [], rw_member_dynamic = [], rw_model = [], rw_app = [], rw_created = []\<rparr>"

abbreviation or_else :: "string \<Rightarrow> string \<Rightarrow> string" where
  "or_else s d \<equiv> (if s = [] then d else s)"

definition make_row :: "row \<Rightarrow> row" where
  "make_row r = r\<lparr>rw_effect := or_else (rw_effect r) EFFECT_ALLOW, rw_exists := or_else (rw_exists r) EXISTS_UNKNOWN,
     rw_enabled := or_else (rw_enabled r) ENABLED_UNKNOWN, rw_synced := or_else (rw_synced r) ENABLED_UNKNOWN\<rparr>"

definition is_deny :: "row \<Rightarrow> bool" where
  "is_deny r \<longleftrightarrow> rw_effect r = EFFECT_DENY"

definition is_disabled :: "row \<Rightarrow> bool" where
  "is_disabled r \<longleftrightarrow> rw_enabled r = ENABLED_FALSE"

definition is_standing_privilege :: "row \<Rightarrow> bool" where
  "is_standing_privilege r \<longleftrightarrow>
     (if \<not> rw_privileged r then False
      else if is_deny r then False
      else if rw_state r = STATE_ELIGIBLE then False
      else \<not> (rw_pim r \<and> rw_expires r \<noteq> []))"

text \<open>The identity that holds the access: the member of a group where the row was expanded.\<close>

definition holder :: "row \<Rightarrow> string" where
  "holder r = or_else (rw_effective r) (rw_principal r)"

section \<open>Roles\<close>

definition PRIVILEGED_AZURE_ROLES :: "string list" where
  "PRIVILEGED_AZURE_ROLES =
     [''owner'', ''contributor'', ''user access administrator'', ''role based access control administrator'',
      ''co-administrator'', ''account administrator'', ''service administrator'']"

definition PRIVILEGED_ENTRA_ROLES :: "string list" where
  "PRIVILEGED_ENTRA_ROLES =
     [''global administrator'', ''company administrator'', ''privileged role administrator'',
      ''privileged authentication administrator'', ''user administrator'', ''application administrator'',
      ''cloud application administrator'', ''authentication administrator'', ''groups administrator'',
      ''security administrator'', ''conditional access administrator'', ''exchange administrator'',
      ''sharepoint administrator'', ''teams administrator'', ''intune administrator'', ''global reader'']"

text \<open>\<open>role_is_privileged\<close> without the optional list of data actions.\<close>

definition role_is_privileged :: "string \<Rightarrow> string \<Rightarrow> bool \<Rightarrow> bool" where
  "role_is_privileged role_name surface has_data_actions =
     (let name = py_lower (py_strip role_name) in
      if surface = SURFACE_ENTRA then name \<in> set PRIVILEGED_ENTRA_ROLES
      else if name \<in> set PRIVILEGED_AZURE_ROLES then True
      else has_data_actions \<and> (contains name ''owner'' \<or> contains name ''contributor''))"

section \<open>Scopes\<close>

definition SLASH :: char where "SLASH = CHR ''/''"

definition rstrip_slash :: "string \<Rightarrow> string" where
  "rstrip_slash s = rev (dropWhile (\<lambda>c. c = SLASH) (rev s))"

datatype scope_kind = Tenant_Root | Management_Group | Subscription | Resource_Group | Resource

record scope_parts =
  sp_kind :: scope_kind
  sp_management_group :: string
  sp_subscription :: string
  sp_resource_group :: string
  sp_resource_type :: string
  sp_resource_name :: string

definition MANAGEMENT_GROUP_PART :: string where
  "MANAGEMENT_GROUP_PART = ''/providers/microsoft.management/managementgroups/''"

definition no_parts :: scope_parts where
  "no_parts = \<lparr>sp_kind = Tenant_Root, sp_management_group = [], sp_subscription = [], sp_resource_group = [],
     sp_resource_type = [], sp_resource_name = []\<rparr>"

text \<open>The part \<open>k\<close> places after the first one equal to \<open>key\<close>, where there is one.\<close>

definition part_after :: "string list \<Rightarrow> string \<Rightarrow> nat \<Rightarrow> string option" where
  "part_after parts key k =
     (let i = length (takeWhile (\<lambda>p. py_lower p \<noteq> key) parts) in
      if i < length parts \<and> i + k < length parts then Some (parts ! (i + k)) else None)"

abbreviation text_of :: "string option \<Rightarrow> string" where
  "text_of v \<equiv> case_option [] id v"

definition parse_scope :: "string \<Rightarrow> scope_parts" where
  "parse_scope scope =
     (let s = py_strip scope in
      if s = [] \<or> s = [SLASH] then no_parts
      else if contains (py_lower s) MANAGEMENT_GROUP_PART
      then no_parts\<lparr>sp_kind := Management_Group, sp_management_group := last (split_on SLASH (rstrip_slash s))\<rparr>
      else let parts = filter (\<lambda>p. p \<noteq> []) (split_on SLASH s);
          sub = text_of (part_after parts ''subscriptions'' 1);
          rg = text_of (part_after parts ''resourcegroups'' 1);
          name = text_of (part_after parts ''providers'' 3);
          typ = (case part_after parts ''providers'' 3 of None \<Rightarrow> []
            | Some _ \<Rightarrow> text_of (part_after parts ''providers'' 1) @ [SLASH] @ text_of (part_after parts ''providers'' 2))
        in \<lparr>sp_kind = (if name \<noteq> [] then Resource else if rg \<noteq> [] then Resource_Group
               else if sub \<noteq> [] then Subscription else Tenant_Root),
             sp_management_group = [], sp_subscription = sub, sp_resource_group = rg,
             sp_resource_type = typ, sp_resource_name = name\<rparr>)"

definition normalize_scope :: "string \<Rightarrow> string" where
  "normalize_scope scope = or_else (rstrip_slash (py_strip scope)) [SLASH]"

definition scope_key :: "string \<Rightarrow> string" where
  "scope_key scope = py_lower (normalize_scope scope)"

definition scope_covers :: "string \<Rightarrow> string \<Rightarrow> bool" where
  "scope_covers assignment_scope target_scope =
     (let a = scope_key assignment_scope; t = scope_key target_scope in
      if a = [SLASH] then True else if a = t then True else starts_with t (a @ [SLASH]))"

definition depth_of :: "string \<Rightarrow> nat" where
  "depth_of scope = (let s = normalize_scope scope in if s = [SLASH] then 0 else count_list s SLASH)"

subsection \<open>Coverage follows the segments\<close>

lemma prefix_split_on:
  "prefix (split_on c xs) (split_on c ys) \<longleftrightarrow> ys = xs \<or> prefix (xs @ [c]) ys"
proof (induction xs arbitrary: ys)
  case Nil
  show ?case
  proof (cases ys)
    case (Cons y ys')
    then show ?thesis by (cases "split_on c ys'") (auto split: list.splits)
  qed simp
next
  case (Cons x xs)
  show ?case
  proof (cases ys)
    case Nil
    then show ?thesis by (cases "split_on c xs") auto
  next
    case c: (Cons y ys')
    obtain p ps where p: "split_on c xs = p # ps" by (cases "split_on c xs") auto
    obtain q qs where q: "split_on c ys' = q # qs" by (cases "split_on c ys'") auto
    show ?thesis using Cons.IH [of ys'] p q c by auto
  qed
qed

lemma scope_covers_segments:
  "scope_covers a t \<longleftrightarrow> scope_key a = [SLASH] \<or> prefix (split_on SLASH (scope_key a)) (split_on SLASH (scope_key t))"
  by (auto simp: scope_covers_def Let_def prefix_split_on starts_with_def)

lemma scope_covers_refl [simp]: "scope_covers s s"
  by (simp add: scope_covers_def)

lemma scope_covers_key: "scope_key a = scope_key a' \<Longrightarrow> scope_key t = scope_key t' \<Longrightarrow> scope_covers a t = scope_covers a' t'"
  by (simp add: scope_covers_def)

lemma scope_key_not_Nil [simp]: "scope_key s \<noteq> []"
  by (simp add: scope_key_def normalize_scope_def py_lower_def)

lemma scope_covers_root: "scope_covers s t \<Longrightarrow> scope_key t = [SLASH] \<Longrightarrow> scope_key s = [SLASH]"
proof -
  assume c: "scope_covers s t" and t: "scope_key t = [SLASH]"
  have "\<not> prefix (scope_key s @ [SLASH]) [SLASH]" by (cases "scope_key s") (use scope_key_not_Nil [of s] in auto)
  with c t show "scope_key s = [SLASH]" by (auto simp: scope_covers_def Let_def starts_with_def split: if_splits)
qed

lemma scope_covers_trans:
  assumes "scope_covers s t" "scope_covers t u"
  shows "scope_covers s u"
proof (cases "scope_key t = [SLASH]")
  case True
  then show ?thesis using scope_covers_root [OF assms(1) True] by (simp add: scope_covers_segments)
next
  case False
  then have "prefix (split_on SLASH (scope_key t)) (split_on SLASH (scope_key u))"
    using assms(2) by (simp add: scope_covers_segments)
  then show ?thesis
    using assms(1) unfolding scope_covers_segments by (meson prefix_order.trans)
qed

end
