(* ===== verification/Iam_Diff.thy ===== *)
theory Iam_Diff
  imports Iam_Rows "HOL-Library.AList" "HOL-Library.Multiset"
begin

text \<open>
  What changed between two scans, \<^verbatim>\<open>app/iam/diff.py\<close>. A change carries the rows of its two sides where the
  code copies columns of them. A dictionary is an association list in the order of insertion;
  the digest of the key set is an argument.
\<close>

section \<open>Classes and tiers\<close>

datatype change_class =
  Added | Removed | Escalated | De_Escalated | Re_Scoped | Activated | Deactivated | Path_Changed | Orphaned

definition CHANGE_CLASSES :: "change_class list" where
  "CHANGE_CLASSES = [Added, Removed, Escalated, De_Escalated, Re_Scoped, Activated, Deactivated, Path_Changed, Orphaned]"

definition WORSENING :: "change_class list" where
  "WORSENING = [Added, Escalated, Re_Scoped, Activated, Orphaned]"

definition class_index :: "change_class \<Rightarrow> nat" where
  "class_index c = length (takeWhile (\<lambda>d. d \<noteq> c) CHANGE_CLASSES)"

definition TIER_NONE :: nat where "TIER_NONE = 0"
definition TIER_READ :: nat where "TIER_READ = 1"
definition TIER_WRITE :: nat where "TIER_WRITE = 2"
definition TIER_ADMIN :: nat where "TIER_ADMIN = 3"
definition TIER_OWNER :: nat where "TIER_OWNER = 4"

definition READ_ROLES :: "string list" where
  "READ_ROLES = [''reader'', ''global reader'', ''security reader'', ''monitoring reader'', ''cost management reader'']"

definition OWNER_ROLES :: "string list" where
  "OWNER_ROLES =
     [''owner'', ''co-administrator'', ''account administrator'', ''service administrator'',
      ''global administrator'', ''company administrator'']"

definition ADMIN_ROLES :: "string list" where
  "ADMIN_ROLES =
     [''user access administrator'', ''role based access control administrator'',
      ''privileged role administrator'', ''privileged authentication administrator'', ''key vault administrator'']"

definition privilege_tier :: "row \<Rightarrow> nat" where
  "privilege_tier r =
     (if is_deny r then TIER_NONE
      else let name = py_lower (py_strip (rw_role r)) in
        if name \<in> set OWNER_ROLES then TIER_OWNER
        else if name \<in> set ADMIN_ROLES then TIER_ADMIN
        else if name \<in> set READ_ROLES then TIER_READ
        else if rw_privileged r then (if contains name ''administrator'' then TIER_ADMIN else TIER_WRITE)
        else if contains name ''reader'' \<or> ends_with name '' read'' then TIER_READ
        else TIER_WRITE)"

definition scope_depth :: "string \<Rightarrow> nat" where
  "scope_depth scope =
     (let s = rstrip_slash (py_strip scope) in
      if s = [] then 0
      else case sp_kind (parse_scope s) of
        Tenant_Root \<Rightarrow> 0 | Management_Group \<Rightarrow> 1 | Subscription \<Rightarrow> 2 | Resource_Group \<Rightarrow> 3 | Resource \<Rightarrow> 4)"

section \<open>Keys\<close>

definition principal_of :: "row \<Rightarrow> string" where
  "principal_of r = py_lower (or_else (rw_effective r) (or_else (rw_effective_name r) (rw_principal r)))"

definition row_key :: "row \<Rightarrow> string" where
  "row_key r = join_with ''|''
     [principal_of r, or_else (rw_role_def r) (rw_role r), rw_scope r, rw_surface r, rw_state r]"

definition subject :: "row \<Rightarrow> string" where
  "subject r = join_with ''|'' [principal_of r, rw_scope r, rw_surface r]"

definition role_subject :: "row \<Rightarrow> string" where
  "role_subject r = join_with ''|'' [principal_of r, or_else (rw_role_def r) (rw_role r), rw_surface r]"

definition key_set_hash :: "(string \<Rightarrow> string) \<Rightarrow> row list \<Rightarrow> string" where
  "key_set_hash digest rows = digest (join_with [CHR 0x0A] (sort (remdups (map row_key rows))))"

section \<open>Changes\<close>

record change =
  ch_class :: change_class
  ch_before :: "row option"
  ch_after :: "row option"
  ch_broader :: "bool option"

definition entry :: "change_class \<Rightarrow> row option \<Rightarrow> row option \<Rightarrow> change" where
  "entry c b a = \<lparr>ch_class = c, ch_before = b, ch_after = a, ch_broader = None\<rparr>"

definition ch_ref :: "change \<Rightarrow> row" where
  "ch_ref c = (case ch_after c of Some r \<Rightarrow> r | None \<Rightarrow> (case ch_before c of Some r \<Rightarrow> r | None \<Rightarrow> no_values))"

definition ch_principal :: "change \<Rightarrow> string" where "ch_principal c = principal_of (ch_ref c)"
definition ch_name :: "change \<Rightarrow> string" where
  "ch_name c = or_else (rw_effective_name (ch_ref c)) (rw_display (ch_ref c))"
definition ch_worsens :: "change \<Rightarrow> bool" where "ch_worsens c \<longleftrightarrow> ch_class c \<in> set WORSENING"

type_synonym keyed = "(string \<times> row) list"

definition keyed_by :: "(row \<Rightarrow> string) \<Rightarrow> row list \<Rightarrow> keyed" where
  "keyed_by key rows = foldl (\<lambda>d r. AList.update (key r) r d) [] rows"

abbreviation by_key :: "row list \<Rightarrow> keyed" where
  "by_key \<equiv> keyed_by row_key"

definition absent :: "keyed \<Rightarrow> keyed \<Rightarrow> keyed" where
  "absent xs ys = filter (\<lambda>kr. fst kr \<notin> set (map fst ys)) xs"

record pairing =
  pa_old :: "string list"
  pa_new :: "string list"
  pa_changes :: "change list"

text \<open>One pairing pass: \<open>match\<close> says whether an old and a new row are the two sides of one change, and which.\<close>

definition pair_one :: "(row \<Rightarrow> row \<Rightarrow> change option) \<Rightarrow> keyed \<Rightarrow> pairing \<Rightarrow> string \<times> row \<Rightarrow> pairing" where
  "pair_one match gone st n =
     (if fst n \<in> set (pa_new st) then st
      else case find (\<lambda>ok. fst ok \<notin> set (pa_old st) \<and> match (snd ok) (snd n) \<noteq> None) gone of
        None \<Rightarrow> st
      | Some ok \<Rightarrow> \<lparr>pa_old = pa_old st @ [fst ok], pa_new = pa_new st @ [fst n],
          pa_changes = pa_changes st @ [the (match (snd ok) (snd n))]\<rparr>)"

definition pair_pass :: "(row \<Rightarrow> row \<Rightarrow> change option) \<Rightarrow> keyed \<Rightarrow> keyed \<Rightarrow> pairing \<Rightarrow> pairing" where
  "pair_pass match gone fresh st = foldl (pair_one match gone) st fresh"

definition state_change :: "row \<Rightarrow> row \<Rightarrow> change option" where
  "state_change b a =
     (if subject b \<noteq> subject a then None
      else if rw_role b \<noteq> rw_role a then None
      else if rw_state b = rw_state a then None
      else Some (entry (if rw_state a = STATE_ACTIVE then Activated else Deactivated) (Some b) (Some a)))"

definition role_change :: "row \<Rightarrow> row \<Rightarrow> change option" where
  "role_change b a =
     (if subject b \<noteq> subject a then None
      else if privilege_tier b = privilege_tier a then None
      else Some (entry (if privilege_tier b < privilege_tier a then Escalated else De_Escalated) (Some b) (Some a)))"

definition scope_change :: "row \<Rightarrow> row \<Rightarrow> change option" where
  "scope_change b a =
     (if role_subject b \<noteq> role_subject a then None
      else if rw_scope b = rw_scope a then None
      else Some ((entry Re_Scoped (Some b) (Some a))\<lparr>ch_broader := Some (scope_depth (rw_scope a) < scope_depth (rw_scope b))\<rparr>))"

definition paired :: "keyed \<Rightarrow> keyed \<Rightarrow> pairing" where
  "paired gone fresh =
     pair_pass scope_change gone fresh (pair_pass role_change gone fresh (pair_pass state_change gone fresh
       \<lparr>pa_old = [], pa_new = [], pa_changes = []\<rparr>))"

definition survivor :: "row \<Rightarrow> row \<Rightarrow> change list" where
  "survivor b a =
     (if rw_exists a = EXISTS_FALSE \<and> rw_exists b \<noteq> EXISTS_FALSE then [entry Orphaned (Some b) (Some a)] else [])
     @ (if rw_path b \<noteq> rw_path a then [entry Path_Changed (Some b) (Some a)] else [])"

definition surviving :: "keyed \<Rightarrow> keyed \<Rightarrow> change list" where
  "surviving before after =
     concat (map (\<lambda>ka. case map_of before (fst ka) of None \<Rightarrow> [] | Some b \<Rightarrow> survivor b (snd ka)) after)"

definition all_changes :: "row list \<Rightarrow> row list \<Rightarrow> change list" where
  "all_changes before after =
     (let old = by_key before; cur = by_key after; gone = absent old cur; fresh = absent cur old; st = paired gone fresh
      in pa_changes st
         @ map (\<lambda>kr. entry Removed (Some (snd kr)) None) (filter (\<lambda>kr. fst kr \<notin> set (pa_old st)) gone)
         @ map (\<lambda>kr. entry Added None (Some (snd kr))) (filter (\<lambda>kr. fst kr \<notin> set (pa_new st)) fresh)
         @ surviving old cur)"

record diff =
  di_changes :: "change list"
  di_counts :: "change_class \<Rightarrow> nat"
  di_total :: nat
  di_truncated :: bool
  di_worsening :: nat

definition compute :: "row list \<Rightarrow> row list \<Rightarrow> nat \<Rightarrow> diff" where
  "compute before after max_changes =
     (let changes = sort_key (\<lambda>c. (class_index (ch_class c), ch_name c, rw_scope (ch_ref c))) (all_changes before after);
          counts = (\<lambda>cls. length (filter (\<lambda>c. ch_class c = cls) changes))
      in \<lparr>di_changes = take max_changes changes, di_counts = counts, di_total = length changes,
          di_truncated = (max_changes < length changes), di_worsening = sum_list (map counts WORSENING)\<rparr>)"

record scan_run =
  ru_id :: string
  ru_started :: string
  ru_changes :: "change list"

definition timeline_for :: "string \<Rightarrow> scan_run list \<Rightarrow> (change \<times> string \<times> string) list" where
  "timeline_for principal_id runs =
     (let out = concat (map (\<lambda>ru. map (\<lambda>c. (c, ru_id ru, ru_started ru))
            (filter (\<lambda>c. py_lower (ch_principal c) = py_lower principal_id) (ru_changes ru))) runs)
      in rev (sort_key (\<lambda>e. snd (snd e)) (rev out)))"

section \<open>The snapshot dictionaries\<close>

definition wf_keyed :: "(row \<Rightarrow> string) \<Rightarrow> row list \<Rightarrow> keyed \<Rightarrow> bool" where
  "wf_keyed key rows d \<longleftrightarrow> distinct (map fst d) \<and> set (map fst d) = key ` set rows \<and>
     (\<forall>kr\<in>set d. snd kr \<in> set rows \<and> key (snd kr) = fst kr)"

lemma set_update: "kr \<in> set (AList.update k v d) \<Longrightarrow> kr = (k, v) \<or> kr \<in> set d"
  by (induction d) (auto split: if_splits)

lemma wf_keyed_by: "wf_keyed key rows (keyed_by key rows)"
proof (induction rows rule: rev_induct)
  case Nil
  show ?case by (simp add: keyed_by_def wf_keyed_def)
next
  case (snoc r rows)
  have b: "keyed_by key (rows @ [r]) = AList.update (key r) r (keyed_by key rows)" by (simp add: keyed_by_def)
  show ?case
    unfolding wf_keyed_def b
  proof (intro conjI ballI)
    show "distinct (map fst (AList.update (key r) r (keyed_by key rows)))"
      using snoc.IH by (intro distinct_update) (simp add: wf_keyed_def)
    show "set (map fst (AList.update (key r) r (keyed_by key rows))) = key ` set (rows @ [r])"
      using snoc.IH by (auto simp: wf_keyed_def update_keys)
    fix kr assume "kr \<in> set (AList.update (key r) r (keyed_by key rows))"
    from set_update [OF this] show "snd kr \<in> set (rows @ [r])" "key (snd kr) = fst kr"
      using snoc.IH by (auto simp: wf_keyed_def)
  qed
qed

text \<open>The part of a dictionary whose keys the other snapshot does not have.\<close>

lemma absent_keys: "set (map fst (absent d e)) = set (map fst d) - set (map fst e)"
  by (auto simp: absent_def image_iff)

lemma wf_absent:
  assumes "wf_keyed key rows d"
  shows "distinct (map fst (absent d e))"
    "kr \<in> set (absent d e) \<Longrightarrow> snd kr \<in> set rows \<and> key (snd kr) = fst kr \<and> fst kr \<notin> set (map fst e)"
  using assms by (auto simp: absent_def wf_keyed_def distinct_map_filter)

section \<open>Every difference once\<close>

text \<open>What each class says of the two rows of a change.\<close>

fun truthful :: "change \<Rightarrow> bool" where
  "truthful c = (case (ch_before c, ch_after c) of
     (Some b, Some a) \<Rightarrow>
       (case ch_class c of
          Activated \<Rightarrow> subject b = subject a \<and> rw_role b = rw_role a \<and> rw_state b \<noteq> STATE_ACTIVE \<and> rw_state a = STATE_ACTIVE
        | Deactivated \<Rightarrow> subject b = subject a \<and> rw_role b = rw_role a \<and> rw_state b \<noteq> rw_state a \<and> rw_state a \<noteq> STATE_ACTIVE
        | Escalated \<Rightarrow> subject b = subject a \<and> privilege_tier b < privilege_tier a
        | De_Escalated \<Rightarrow> subject b = subject a \<and> privilege_tier a < privilege_tier b
        | Re_Scoped \<Rightarrow> role_subject b = role_subject a \<and> rw_scope b \<noteq> rw_scope a \<and>
            ch_broader c = Some (scope_depth (rw_scope a) < scope_depth (rw_scope b))
        | Orphaned \<Rightarrow> row_key b = row_key a \<and> rw_exists b \<noteq> EXISTS_FALSE \<and> rw_exists a = EXISTS_FALSE
        | Path_Changed \<Rightarrow> row_key b = row_key a \<and> rw_path b \<noteq> rw_path a
        | _ \<Rightarrow> False)
   | (Some b, None) \<Rightarrow> ch_class c = Removed
   | (None, Some a) \<Rightarrow> ch_class c = Added
   | (None, None) \<Rightarrow> False)"

text \<open>A change that moves, ends or starts an access; the other two classes are about a row that survives.\<close>

definition moves :: "change \<Rightarrow> bool" where
  "moves c \<longleftrightarrow> ch_class c \<noteq> Orphaned \<and> ch_class c \<noteq> Path_Changed"

definition old_keys :: "change list \<Rightarrow> string list" where
  "old_keys cs = concat (map (\<lambda>c. case ch_before c of Some b \<Rightarrow> [row_key b] | None \<Rightarrow> []) cs)"

definition new_keys :: "change list \<Rightarrow> string list" where
  "new_keys cs = concat (map (\<lambda>c. case ch_after c of Some a \<Rightarrow> [row_key a] | None \<Rightarrow> []) cs)"

text \<open>A matcher is sound when what it returns is a truthful move between the two rows.\<close>

definition sound :: "(row \<Rightarrow> row \<Rightarrow> change option) \<Rightarrow> bool" where
  "sound match \<longleftrightarrow> (\<forall>b a c. match b a = Some c \<longrightarrow> ch_before c = Some b \<and> ch_after c = Some a \<and> truthful c \<and> moves c)"

lemma sound_matchers: "sound state_change" "sound role_change" "sound scope_change"
  by (auto simp: sound_def state_change_def role_change_def scope_change_def entry_def moves_def split: if_splits)

definition pairing_ok :: "keyed \<Rightarrow> keyed \<Rightarrow> pairing \<Rightarrow> bool" where
  "pairing_ok gone fresh st \<longleftrightarrow>
     distinct (pa_old st) \<and> distinct (pa_new st) \<and>
     set (pa_old st) \<subseteq> set (map fst gone) \<and> set (pa_new st) \<subseteq> set (map fst fresh) \<and>
     old_keys (pa_changes st) = pa_old st \<and> new_keys (pa_changes st) = pa_new st \<and>
     list_all truthful (pa_changes st) \<and> list_all moves (pa_changes st) \<and>
     (\<forall>c\<in>set (pa_changes st). \<exists>b a. ch_before c = Some b \<and> ch_after c = Some a \<and> b \<in> snd ` set gone \<and> a \<in> snd ` set fresh)"

lemma pair_one_ok:
  assumes ok: "pairing_ok gone fresh st" and s: "sound match" and n: "n \<in> set fresh"
    and keys: "\<forall>kr\<in>set gone \<union> set fresh. row_key (snd kr) = fst kr"
  shows "pairing_ok gone fresh (pair_one match gone st n)"
proof (cases "fst n \<in> set (pa_new st) \<or> find (\<lambda>ok. fst ok \<notin> set (pa_old st) \<and> match (snd ok) (snd n) \<noteq> None) gone = None")
  case True
  then show ?thesis using ok by (auto simp: pair_one_def)
next
  case False
  then obtain o' where f: "find (\<lambda>ok. fst ok \<notin> set (pa_old st) \<and> match (snd ok) (snd n) \<noteq> None) gone = Some o'"
    and nn: "fst n \<notin> set (pa_new st)" by auto
  from find_SomeD [OF f] obtain c where o': "o' \<in> set gone" "fst o' \<notin> set (pa_old st)" "match (snd o') (snd n) = Some c"
    by auto
  have c: "ch_before c = Some (snd o')" "ch_after c = Some (snd n)" "truthful c" "moves c"
    using s o'(3) unfolding sound_def by metis+
  have k: "row_key (snd o') = fst o'" "row_key (snd n) = fst n" using keys o'(1) n by blast+
  have e: "pair_one match gone st n = \<lparr>pa_old = pa_old st @ [fst o'], pa_new = pa_new st @ [fst n], pa_changes = pa_changes st @ [c]\<rparr>"
    using nn f o'(3) by (simp add: pair_one_def)
  show ?thesis
    unfolding e pairing_ok_def
    using ok c o'(1,2) nn n k
    by (auto simp: pairing_ok_def old_keys_def new_keys_def simp del: truthful.simps)
qed

lemma pair_pass_ok:
  assumes "pairing_ok gone fresh st" "sound match" "\<forall>kr\<in>set gone \<union> set fresh. row_key (snd kr) = fst kr"
  shows "pairing_ok gone fresh (pair_pass match gone fresh st)"
proof -
  have "pairing_ok gone fresh (foldl (pair_one match gone) st ns)" if "set ns \<subseteq> set fresh" for ns
    using that by (induction ns rule: rev_induct) (use assms pair_one_ok in auto)
  then show ?thesis by (simp add: pair_pass_def)
qed

lemma paired_ok:
  assumes "\<forall>kr\<in>set gone \<union> set fresh. row_key (snd kr) = fst kr"
  shows "pairing_ok gone fresh (paired gone fresh)"
proof -
  have "pairing_ok gone fresh \<lparr>pa_old = [], pa_new = [], pa_changes = []\<rparr>"
    by (simp add: pairing_ok_def old_keys_def new_keys_def)
  then show ?thesis
    unfolding paired_def by (intro pair_pass_ok sound_matchers assms)
qed

lemma mset_remaining:
  assumes "distinct ks" "distinct used" "set used \<subseteq> set ks"
  shows "mset used + mset (filter (\<lambda>k. k \<notin> set used) ks) = mset_set (set ks)"
proof -
  have "distinct (used @ filter (\<lambda>k. k \<notin> set used) ks)" using assms by auto
  moreover have "set (used @ filter (\<lambda>k. k \<notin> set used) ks) = set ks" using assms by auto
  ultimately show ?thesis by (metis mset_append mset_set_set)
qed

lemma old_keys_append: "old_keys (xs @ ys) = old_keys xs @ old_keys ys"
  by (simp add: old_keys_def)

lemma new_keys_append: "new_keys (xs @ ys) = new_keys xs @ new_keys ys"
  by (simp add: new_keys_def)

lemma surviving_truthful:
  assumes "wf_keyed row_key rows old" "wf_keyed row_key rows' cur"
  shows "list_all (\<lambda>c. truthful c \<and> \<not> moves c) (surviving old cur)"
proof -
  have "truthful c \<and> \<not> moves c" if "c \<in> set (surviving old cur)" for c
  proof -
    from that obtain ka where ka: "ka \<in> set cur" "c \<in> set (case map_of old (fst ka) of None \<Rightarrow> [] | Some b \<Rightarrow> survivor b (snd ka))"
      unfolding surviving_def set_concat set_map by blast
    then obtain b where b: "map_of old (fst ka) = Some b" "c \<in> set (survivor b (snd ka))"
      by (cases "map_of old (fst ka)") simp_all
    have "row_key b = row_key (snd ka)"
      using assms ka(1) map_of_SomeD [OF b(1)] unfolding wf_keyed_def by (metis fst_conv snd_conv)
    then show ?thesis using b(2) by (auto simp: survivor_def entry_def moves_def split: if_splits)
  qed
  then show ?thesis by (simp add: list_all_iff)
qed

lemma all_changes_account:
  shows "mset (old_keys (filter moves (all_changes before after))) = mset_set (row_key ` set before - row_key ` set after)"
    and "mset (new_keys (filter moves (all_changes before after))) = mset_set (row_key ` set after - row_key ` set before)"
    and "list_all truthful (all_changes before after)"
proof -
  define old cur where old_cur_def: "old = by_key before" "cur = by_key after"
  define gone fresh where gone_fresh_def: "gone = absent old cur" "fresh = absent cur old"
  define st where "st = paired gone fresh"
  note wf = wf_keyed_by [of row_key before, folded old_cur_def] wf_keyed_by [of row_key after, folded old_cur_def]
  have ds: "distinct (map fst gone)" "distinct (map fst fresh)"
    unfolding gone_fresh_def using wf by (simp_all add: wf_absent(1))
  have keys: "\<forall>kr\<in>set gone \<union> set fresh. row_key (snd kr) = fst kr"
    unfolding gone_fresh_def using wf wf_absent(2) by blast
  have sets: "set (map fst gone) = row_key ` set before - row_key ` set after"
    "set (map fst fresh) = row_key ` set after - row_key ` set before"
    unfolding gone_fresh_def absent_keys using wf by (auto simp: wf_keyed_def)
  have ok: "pairing_ok gone fresh st" unfolding st_def by (rule paired_ok [OF keys])
  have parts: "old_keys (pa_changes st) = pa_old st" "new_keys (pa_changes st) = pa_new st" "distinct (pa_old st)"
    "distinct (pa_new st)" "set (pa_old st) \<subseteq> set (map fst gone)" "set (pa_new st) \<subseteq> set (map fst fresh)"
    using ok unfolding pairing_ok_def by blast+
  define rem where "rem = map (\<lambda>kr. entry Removed (Some (snd kr)) None) (filter (\<lambda>kr. fst kr \<notin> set (pa_old st)) gone)"
  define add where "add = map (\<lambda>kr. entry Added None (Some (snd kr))) (filter (\<lambda>kr. fst kr \<notin> set (pa_new st)) fresh)"
  have all: "all_changes before after = pa_changes st @ rem @ add @ surviving old cur"
    by (simp add: all_changes_def Let_def rem_def add_def st_def gone_fresh_def old_cur_def)
  have sv: "list_all (\<lambda>c. truthful c \<and> \<not> moves c) (surviving old cur)" using surviving_truthful wf by blast
  then have "filter moves (surviving old cur) = []" by (auto simp: list_all_iff filter_empty_conv)
  moreover have "filter moves rem = rem" "filter moves add = add" "filter moves (pa_changes st) = pa_changes st"
    using ok by (auto simp: rem_def add_def entry_def moves_def pairing_ok_def list_all_iff)
  ultimately have m: "filter moves (all_changes before after) = pa_changes st @ rem @ add" by (simp add: all)
  have nil: "old_keys add = []" "new_keys rem = []" by (simp_all add: add_def rem_def old_keys_def new_keys_def entry_def)
  have orem: "old_keys rem = filter (\<lambda>k. k \<notin> set (pa_old st)) (map fst gone)"
    using keys unfolding rem_def by (induction gone) (auto simp: old_keys_def entry_def)
  have nadd: "new_keys add = filter (\<lambda>k. k \<notin> set (pa_new st)) (map fst fresh)"
    using keys unfolding add_def by (induction fresh) (auto simp: new_keys_def entry_def)
  show "mset (old_keys (filter moves (all_changes before after))) = mset_set (row_key ` set before - row_key ` set after)"
    unfolding m old_keys_append nil orem sets(1) [symmetric] parts append_Nil append_Nil2 mset_append
    by (rule mset_remaining [OF ds(1) parts(3,5)])
  show "mset (new_keys (filter moves (all_changes before after))) = mset_set (row_key ` set after - row_key ` set before)"
    unfolding m new_keys_append nil nadd sets(2) [symmetric] parts append_Nil append_Nil2 mset_append
    by (rule mset_remaining [OF ds(2) parts(4,6)])
  have "list_all truthful rem" "list_all truthful add" by (auto simp: rem_def add_def entry_def list_all_iff)
  then show "list_all truthful (all_changes before after)"
    using ok sv unfolding all pairing_ok_def list_all_append list_all_iff set_append by blast
qed

text \<open>
  C14. The difference is complete and truthful. In a list that was not cut, the moves name every access
  that disappeared exactly once on their old side and every access that appeared exactly once on their
  new side, so a replacement is one change and nothing is reported twice or missed; and every change is
  what its class says of the two rows (an escalation raises the tier of the same subject, an activation
  ends in an active grant, a change of scope keeps the role and says whether it is broader).
\<close>
theorem diff_accounts_once:
  assumes "\<not> di_truncated (compute before after n)"
  shows "mset (old_keys (filter moves (di_changes (compute before after n)))) = mset_set (row_key ` set before - row_key ` set after) \<and>
    mset (new_keys (filter moves (di_changes (compute before after n)))) = mset_set (row_key ` set after - row_key ` set before) \<and>
    list_all truthful (di_changes (compute before after n))"
proof -
  let ?all = "all_changes before after"
  let ?cs = "di_changes (compute before after n)"
  have p: "mset ?cs = mset ?all"
    using assms by (simp add: compute_def Let_def)
  have keys: "mset (concat (map f xs)) = mset (concat (map f ys))" if "mset xs = mset ys" for f :: "change \<Rightarrow> string list" and xs ys
  proof -
    have "mset (concat (map f zs)) = (\<Sum>z\<in>#mset zs. mset (f z))" for zs by (induction zs) auto
    then show ?thesis using that by simp
  qed
  have "mset (filter moves ?cs) = mset (filter moves ?all)" using p by simp
  then have "mset (old_keys (filter moves ?cs)) = mset (old_keys (filter moves ?all))"
    "mset (new_keys (filter moves ?cs)) = mset (new_keys (filter moves ?all))"
    unfolding old_keys_def new_keys_def by (rule keys)+
  moreover have "set ?cs = set ?all" using p by (rule mset_eq_setD)
  ultimately show ?thesis
    using all_changes_account [of before after] by (simp add: list_all_iff)
qed

lemma same_rows_no_change: "all_changes rows rows = []"
proof -
  have "absent (by_key rows) (by_key rows) = []" by (auto simp: absent_def filter_empty_conv)
  moreover have "surviving (by_key rows) (by_key rows) = []"
  proof -
    have "survivor b (snd ka) = []" if "ka \<in> set (by_key rows)" "map_of (by_key rows) (fst ka) = Some b" for ka b
    proof -
      have "map_of (by_key rows) (fst ka) = Some (snd ka)"
        using that(1) wf_keyed_by [of row_key rows] by (intro map_of_is_SomeI) (auto simp: wf_keyed_def)
      then show ?thesis using that(2) by (simp add: survivor_def)
    qed
    then show ?thesis by (auto simp: surviving_def split: option.splits)
  qed
  ultimately show ?thesis by (simp add: all_changes_def paired_def pair_pass_def)
qed

section \<open>Examples\<close>

definition grant_of :: "string \<Rightarrow> string \<Rightarrow> row" where
  "grant_of role scope = make_row (no_values\<lparr>rw_surface := SURFACE_AZURE_RBAC, rw_state := STATE_ACTIVE, rw_path := PATH_DIRECT,
     rw_principal := ''bob'', rw_effective := ''bob'', rw_role := role, rw_scope := scope\<rparr>)"

definition promoted :: diff where
  "promoted = compute [grant_of ''Reader'' ''/subscriptions/s1'', grant_of ''Contributor'' ''/'']
     [grant_of ''Owner'' ''/subscriptions/s1'', grant_of ''Contributor'' ''/subscriptions/s2''] 2000"

lemma promoted_classes: "map ch_class (di_changes promoted) = [Escalated, Re_Scoped]" "\<not> di_truncated promoted"
  by code_simp+

theorem diff_accounts_once_witness:
  "mset (old_keys (filter moves (di_changes promoted))) =
     mset_set (row_key ` {grant_of ''Reader'' ''/subscriptions/s1'', grant_of ''Contributor'' ''/''} -
       row_key ` {grant_of ''Owner'' ''/subscriptions/s1'', grant_of ''Contributor'' ''/subscriptions/s2''}) \<and>
   map ch_class (di_changes promoted) = [Escalated, Re_Scoped]"
  using diff_accounts_once [OF promoted_classes(2) [unfolded promoted_def]] promoted_classes(1)
  by (simp add: promoted_def)

text \<open>Narrowing a scope counts among the changes that make things worse.\<close>

lemma narrowing_worsens:
  "map ch_broader (di_changes (compute [grant_of ''Contributor'' ''/''] [grant_of ''Contributor'' ''/subscriptions/s2''] 2000)) = [Some False]"
  "di_worsening (compute [grant_of ''Contributor'' ''/''] [grant_of ''Contributor'' ''/subscriptions/s2''] 2000) = 1"
  by code_simp+

text \<open>Snapshots with the same key set, and so the same hash, can differ: the way an access is held is no part of the key.\<close>

lemma equal_hash_with_changes:
  "key_set_hash digest [grant_of ''Owner'' ''/''] = key_set_hash digest [(grant_of ''Owner'' ''/'')\<lparr>rw_path := PATH_GROUP\<rparr>]"
  "map ch_class (all_changes [grant_of ''Owner'' ''/''] [(grant_of ''Owner'' ''/'')\<lparr>rw_path := PATH_GROUP\<rparr>]) = [Path_Changed]"
  by code_simp+

end
