(* ===== verification/Iam_Effective.thy ===== *)
theory Iam_Effective
  imports Iam_Rows
begin

text \<open>
  Whether a principal can perform an action on a resource, \<^verbatim>\<open>app/iam/effective.py\<close>: the wildcard patterns
  of role definitions, the index of roles, the evaluation of one question and the list of everyone who
  can. The sentence that explains a decision is left out. A role index is a map from keys.
\<close>

section \<open>Planes and patterns\<close>

definition ALLOWED :: string where "ALLOWED = ''allowed''"
definition DENIED :: string where "DENIED = ''denied''"
definition NOT_GRANTED :: string where "NOT_GRANTED = ''not_granted''"
definition INDETERMINATE :: string where "INDETERMINATE = ''indeterminate''"
definition PLANE_CONTROL :: string where "PLANE_CONTROL = ''control''"
definition PLANE_DATA :: string where "PLANE_DATA = ''data''"

lemmas verdict_defs = ALLOWED_def DENIED_def NOT_GRANTED_def INDETERMINATE_def

definition DATA_ACTION_HINTS :: "string list" where
  "DATA_ACTION_HINTS =
     [''/blobs/'', ''/containers/'', ''/queues/'', ''/tables/'', ''/fileservices/'', ''/secrets/'', ''/keys/'',
      ''/certificates/'', ''/messages/'', ''/entities/'', ''/topics/'', ''/subscriptions/messages/'', ''/items/'']"

definition classify_plane :: "string \<Rightarrow> string" where
  "classify_plane action =
     (if list_ex (contains (py_lower action)) DATA_ACTION_HINTS then PLANE_DATA else PLANE_CONTROL)"

definition STAR :: char where "STAR = CHR ''*''"
definition NEWLINE :: char where "NEWLINE = CHR 0x0A"

text \<open>
  The compiled pattern: a star is any run of characters but a newline, every other character is itself
  in either case, and the end of the pattern is the end of the text or a newline that ends it.
\<close>

fun wild_match :: "string \<Rightarrow> string \<Rightarrow> bool" where
  "wild_match [] s = (s = [] \<or> s = [NEWLINE])"
| "wild_match (c # p) [] = (c = STAR \<and> wild_match p [])"
| "wild_match (c # p) (d # s) =
     (if c = STAR then wild_match p (d # s) \<or> d \<noteq> NEWLINE \<and> wild_match (c # p) s
      else lower_char c = lower_char d \<and> wild_match p s)"

definition action_matches :: "string \<Rightarrow> string \<Rightarrow> bool" where
  "action_matches pattern action =
     (if pattern = [] \<or> action = [] then False
      else if STAR \<notin> set pattern then py_lower pattern = py_lower action
      else wild_match pattern action)"

definition any_matches :: "string list \<Rightarrow> string \<Rightarrow> string" where
  "any_matches patterns action = text_of (find (\<lambda>p. action_matches p action) patterns)"

text \<open>The language of a pattern, as rules: a star covers any run without a newline.\<close>

inductive glob :: "string \<Rightarrow> string \<Rightarrow> bool" where
  glob_end: "glob [] []"
| glob_char: "c \<noteq> STAR \<Longrightarrow> lower_char c = lower_char d \<Longrightarrow> glob p s \<Longrightarrow> glob (c # p) (d # s)"
| glob_star: "NEWLINE \<notin> set t \<Longrightarrow> glob p s \<Longrightarrow> glob (STAR # p) (t @ s)"

inductive_simps glob_Nil: "glob [] s"
inductive_cases glob_starE: "glob (STAR # p) s"

lemma wild_match_skip: "NEWLINE \<notin> set t \<Longrightarrow> wild_match p s \<Longrightarrow> wild_match (STAR # p) (t @ s)"
proof (induction t)
  case Nil
  then show ?case by (cases s) auto
qed auto

lemma glob_star_more: "d \<noteq> NEWLINE \<Longrightarrow> glob (STAR # p) s \<Longrightarrow> glob (STAR # p) (d # s)"
  by (erule glob_starE) (use glob_star [of "d # _"] in \<open>auto simp: STAR_def\<close>)

lemma wild_match_glob:
  "wild_match p s \<longleftrightarrow> glob p s \<or> (\<exists>u. s = u @ [NEWLINE] \<and> glob p u)"
proof
  assume "glob p s \<or> (\<exists>u. s = u @ [NEWLINE] \<and> glob p u)"
  then obtain u r where s: "s = u @ r" "r = [] \<or> r = [NEWLINE]" "glob p u" by auto
  from s(3,2) have "wild_match p (u @ r)"
    by (induction rule: glob.induct) (auto simp: wild_match_skip)
  then show "wild_match p s" using s(1) by simp
next
  assume "wild_match p s"
  then show "glob p s \<or> (\<exists>u. s = u @ [NEWLINE] \<and> glob p u)"
  proof (induction p s rule: wild_match.induct)
    case (1 s)
    then show ?case by (auto intro: glob.intros)
  next
    case (2 c p)
    then show ?case using glob_star [of "[]" p "[]"] by auto
  next
    case (3 c p d s)
    show ?case
    proof (cases "c = STAR")
      case True
      then consider "wild_match p (d # s)" | "d \<noteq> NEWLINE" "wild_match (c # p) s" using 3(4) by auto
      then show ?thesis
      proof cases
        case 1
        then show ?thesis using 3(1) True glob_star [of "[]" p] by auto
      next
        case 2
        then consider "glob (c # p) s" | u where "s = u @ [NEWLINE]" "glob (c # p) u" using 3(2) True by auto
        then show ?thesis
          by cases (use True 2 glob_star_more [of d p] in \<open>auto intro!: exI [of _ "d # _"]\<close>)
      qed
    next
      case False
      then have "lower_char c = lower_char d" "glob p s \<or> (\<exists>u. s = u @ [NEWLINE] \<and> glob p u)" using 3 by auto
      then show ?thesis using False by (metis append_Cons glob_char)
    qed
  qed
qed

section \<open>Roles\<close>

record role_def =
  rd_id :: string
  rd_name :: string
  rd_type :: string
  rd_actions :: "string list"
  rd_not_actions :: "string list"
  rd_data_actions :: "string list"
  rd_not_data_actions :: "string list"
  rd_assignable :: "string list"

record role_set =
  rs_id :: string
  rs_name :: string
  rs_actions :: "string list"
  rs_not_actions :: "string list"
  rs_data_actions :: "string list"
  rs_not_data_actions :: "string list"
  rs_custom :: bool
  rs_assignable :: "string list"

definition known :: "role_set \<Rightarrow> bool" where
  "known rs \<longleftrightarrow> rs_actions rs \<noteq> [] \<or> rs_data_actions rs \<noteq> []"

definition grants :: "role_set \<Rightarrow> string \<Rightarrow> string \<Rightarrow> string \<times> string" where
  "grants rs action plane =
     (if plane = PLANE_DATA
      then let granted = any_matches (rs_data_actions rs) action in
        (granted, if granted \<noteq> [] then any_matches (rs_not_data_actions rs) action else [])
      else let granted = any_matches (rs_actions rs) action in
        (granted, if granted \<noteq> [] then any_matches (rs_not_actions rs) action else []))"

definition role_action_set :: "role_def \<Rightarrow> string \<Rightarrow> role_set" where
  "role_action_set rd role_id =
     \<lparr>rs_id = or_else (rd_id rd) role_id, rs_name = rd_name rd, rs_actions = rd_actions rd,
      rs_not_actions = rd_not_actions rd, rs_data_actions = rd_data_actions rd,
      rs_not_data_actions = rd_not_data_actions rd, rs_custom = (py_lower (rd_type rd) = ''customrole''),
      rs_assignable = rd_assignable rd\<rparr>"

type_synonym role_index = "string \<rightharpoonup> role_set"

definition guid_of :: "string \<Rightarrow> string" where
  "guid_of role_id = py_lower (last (split_on SLASH (rstrip_slash role_id)))"

definition index_role :: "role_def \<Rightarrow> role_index \<Rightarrow> role_index" where
  "index_role rd out =
     (let rset = role_action_set rd (rd_id rd); guid = guid_of (rd_id rd); name = py_lower (py_strip (rd_name rd));
          out1 = (if guid \<noteq> [] then out(guid \<mapsto> rset) else out)
      in if name \<noteq> [] \<and> out1 name = None then out1(name \<mapsto> rset) else out1)"

definition build_role_index :: "role_def list \<Rightarrow> role_index" where
  "build_role_index defs = foldl (\<lambda>out rd. index_role rd out) Map.empty defs"

definition lookup :: "role_index \<Rightarrow> row \<Rightarrow> role_set option" where
  "lookup ix r =
     (let guid = guid_of (rw_role_def r); name = py_lower (py_strip (rw_role r));
          by_name = (if name \<noteq> [] then ix name else None)
      in if guid \<noteq> [] then (case ix guid of Some h \<Rightarrow> Some h | None \<Rightarrow> by_name) else by_name)"

section \<open>One question\<close>

record row_ref =
  rf_assignment :: string
  rf_role :: string
  rf_role_def :: string
  rf_scope :: string
  rf_scope_name :: string
  rf_principal :: string
  rf_principal_name :: string
  rf_path :: string
  rf_group :: string
  rf_group_name :: string
  rf_surface :: string
  rf_state :: string
  rf_condition :: string
  rf_matched :: string
  rf_not_action :: string

definition ref_of :: "row \<Rightarrow> string \<Rightarrow> string \<Rightarrow> row_ref" where
  "ref_of r matched not_action =
     \<lparr>rf_assignment = rw_assignment r, rf_role = rw_role r, rf_role_def = rw_role_def r, rf_scope = rw_scope r,
      rf_scope_name = or_else (rw_scope_name r) (rw_scope r), rf_principal = holder r,
      rf_principal_name = or_else (rw_effective_name r) (rw_display r), rf_path = rw_path r,
      rf_group = rw_group r, rf_group_name = rw_group_name r, rf_surface = rw_surface r, rf_state = rw_state r,
      rf_condition = rw_condition r, rf_matched = matched, rf_not_action = not_action\<rparr>"

record membership =
  mb_group :: string
  mb_name :: string
  mb_assignment :: string

record decision =
  de_verdict :: string
  de_action :: string
  de_plane :: string
  de_scope :: string
  de_principal :: string
  de_decided_by :: "row_ref option"
  de_granting :: "row_ref list"
  de_denying :: "row_ref list"
  de_excluded :: "row_ref list"
  de_conditioned :: "row_ref list"
  de_via_groups :: "membership list"
  de_unknown :: "string list"

definition deny_applies :: "row \<Rightarrow> string \<Rightarrow> bool" where
  "deny_applies r target =
     (if \<not> scope_covers (rw_scope r) target then False
      else if rw_own_scope_only r then scope_key (rw_scope r) = scope_key target
      else True)"

definition principal_rows :: "row list \<Rightarrow> string \<Rightarrow> row list" where
  "principal_rows rows principal_id =
     (let pid = py_lower (py_strip principal_id) in
      if pid = [] then [] else filter (\<lambda>r. py_lower (holder r) = pid) rows)"

definition CLASSIC_OWNER_EQUIVALENT :: "string list" where
  "CLASSIC_OWNER_EQUIVALENT = [''coadministrator'', ''serviceadministrator'', ''accountadministrator'']"

definition is_alnum :: "char \<Rightarrow> bool" where
  "is_alnum c \<longleftrightarrow> is_digit c \<or> (97 \<le> char_code (lower_char c) \<and> char_code (lower_char c) \<le> 122)"

definition squash :: "string \<Rightarrow> string" where
  "squash t = filter is_alnum (py_lower t)"

datatype handling = Skip | Grant | Resolve

definition surface_verdict :: "row \<Rightarrow> string \<Rightarrow> handling" where
  "surface_verdict r plane =
     (if rw_surface r = SURFACE_ENTRA then Skip
      else if rw_surface r = SURFACE_KEY_VAULT then (if plane = PLANE_DATA then Grant else Skip)
      else if rw_surface r = SURFACE_CLASSIC
      then (if list_ex (contains (squash (rw_role r))) CLASSIC_OWNER_EQUIVALENT
            then (if plane = PLANE_CONTROL then Grant else Skip) else Skip)
      else Resolve)"

text \<open>\<open>dict\<close> insertion of a key that is not there yet, in order.\<close>

definition via_groups :: "row_ref list \<Rightarrow> membership list" where
  "via_groups refs = foldl (\<lambda>seen r.
     if rf_group r \<noteq> [] \<and> rf_group r \<notin> set (map mb_group seen)
     then seen @ [\<lparr>mb_group = rf_group r, mb_name = or_else (rf_group_name r) (rf_group r), mb_assignment = rf_assignment r\<rparr>]
     else seen) [] refs"

text \<open>The body of the loop over the role assignments.\<close>

definition weigh_row :: "role_index \<Rightarrow> string \<Rightarrow> string \<Rightarrow> string \<Rightarrow> row \<Rightarrow> decision \<Rightarrow> decision" where
  "weigh_row ix scope action plane r d =
     (if is_deny r then d
      else if \<not> scope_covers (rw_scope r) scope then d
      else if rw_state r = STATE_ELIGIBLE then d
      else case (case lookup ix r of Some rs \<Rightarrow> if known rs then Some rs else None | None \<Rightarrow> None) of
        None \<Rightarrow> (case surface_verdict r plane of
            Skip \<Rightarrow> d
          | Grant \<Rightarrow> d\<lparr>de_granting := de_granting d @ [ref_of r (rw_surface r) []]\<rparr>
          | Resolve \<Rightarrow> (let name = or_else (rw_role r) (rw_role_def r) in
              if name \<noteq> [] \<and> name \<notin> set (de_unknown d) then d\<lparr>de_unknown := de_unknown d @ [name]\<rparr> else d))
      | Some rs \<Rightarrow> (let (granted, excluded) = grants rs action plane in
          if granted = [] then d
          else if excluded \<noteq> [] then d\<lparr>de_excluded := de_excluded d @ [ref_of r granted excluded]\<rparr>
          else if py_strip (rw_condition r) \<noteq> [] then d\<lparr>de_conditioned := de_conditioned d @ [ref_of r granted []]\<rparr>
          else d\<lparr>de_granting := de_granting d @ [ref_of r granted []]\<rparr>))"

definition weigh_rows :: "role_index \<Rightarrow> string \<Rightarrow> string \<Rightarrow> string \<Rightarrow> row list \<Rightarrow> decision \<Rightarrow> decision" where
  "weigh_rows ix scope action plane rs d = foldl (\<lambda>d r. weigh_row ix scope action plane r d) d rs"

definition narrowest_first :: "row_ref list \<Rightarrow> row_ref list" where
  "narrowest_first refs = sort_key (\<lambda>r. (- int (depth_of (rf_scope r)), rf_role r)) refs"

definition evaluate_access :: "row list \<Rightarrow> role_index \<Rightarrow> string \<Rightarrow> string \<Rightarrow> string \<Rightarrow> string \<Rightarrow> decision" where
  "evaluate_access rows ix principal_id scope action plane0 =
     (let plane = or_else plane0 (classify_plane action);
          d0 = \<lparr>de_verdict = NOT_GRANTED, de_action = action, de_plane = plane, de_scope = scope,
                de_principal = principal_id, de_decided_by = None, de_granting = [], de_denying = [],
                de_excluded = [], de_conditioned = [], de_via_groups = [], de_unknown = []\<rparr>;
          mine = principal_rows rows principal_id;
          denying = map (\<lambda>r. ref_of r [] []) (filter (\<lambda>r. is_deny r \<and> deny_applies r scope) mine)
      in if mine = [] then d0
         else if denying \<noteq> [] then d0\<lparr>de_denying := denying, de_verdict := DENIED, de_decided_by := Some (hd denying)\<rparr>
         else let d = weigh_rows ix scope action plane mine d0 in
           if de_granting d \<noteq> [] then
             (let g = narrowest_first (de_granting d)
              in d\<lparr>de_granting := g, de_decided_by := Some (hd g), de_verdict := ALLOWED, de_via_groups := via_groups g\<rparr>)
           else if de_conditioned d \<noteq> [] then
             d\<lparr>de_verdict := INDETERMINATE, de_decided_by := Some (hd (de_conditioned d)),
               de_via_groups := via_groups (de_conditioned d)\<rparr>
           else if de_unknown d \<noteq> [] then d\<lparr>de_verdict := INDETERMINATE\<rparr>
           else d\<lparr>de_verdict := NOT_GRANTED\<rparr>)"

section \<open>Grant sets and everyone who can\<close>

record grant_set =
  gs_control :: "(row_ref \<times> role_set option) list"
  gs_data :: "(row_ref \<times> role_set option) list"
  gs_denies :: "row_ref list"
  gs_unknown :: "string list"

text \<open>A row without a resolvable role: a directory role, an access policy, a classic administrator or a gap.\<close>

definition unresolved_row :: "row \<Rightarrow> row_ref \<Rightarrow> grant_set \<Rightarrow> grant_set" where
  "unresolved_row r ref g =
     (if surface_verdict r PLANE_CONTROL = Resolve
      then (if rw_role r \<noteq> [] \<and> rw_role r \<notin> set (gs_unknown g) then g\<lparr>gs_unknown := gs_unknown g @ [rw_role r]\<rparr> else g)
      else if rw_surface r = SURFACE_KEY_VAULT then g\<lparr>gs_data := gs_data g @ [(ref, None)]\<rparr>
      else if rw_surface r = SURFACE_CLASSIC then g\<lparr>gs_control := gs_control g @ [(ref, None)]\<rparr>
      else g)"

text \<open>A reference to a resolved role carries the counts and exclusions of its role, here the role itself.\<close>

definition reach_row :: "role_index \<Rightarrow> string \<Rightarrow> row \<Rightarrow> grant_set \<Rightarrow> grant_set" where
  "reach_row ix scope r g =
     (let near = scope_covers (rw_scope r) scope \<or> scope_covers scope (rw_scope r); ref = ref_of r [] [] in
      if is_deny r then (if near then g\<lparr>gs_denies := gs_denies g @ [ref]\<rparr> else g)
      else if \<not> near then g
      else case lookup ix r of
        Some rs \<Rightarrow>
          (if known rs then
             (let g1 = (if rs_data_actions rs \<noteq> [] then g\<lparr>gs_data := gs_data g @ [(ref, Some rs)]\<rparr> else g)
              in if rs_actions rs \<noteq> [] then g1\<lparr>gs_control := gs_control g1 @ [(ref, Some rs)]\<rparr> else g1)
           else unresolved_row r ref g)
      | None \<Rightarrow> unresolved_row r ref g)"

definition effective_actions :: "row list \<Rightarrow> role_index \<Rightarrow> string \<Rightarrow> string \<Rightarrow> grant_set" where
  "effective_actions rows ix principal_id scope =
     foldl (\<lambda>g r. reach_row ix scope r g) \<lparr>gs_control = [], gs_data = [], gs_denies = [], gs_unknown = []\<rparr>
       (principal_rows rows principal_id)"

record who_entry =
  we_principal :: string
  we_name :: string
  we_verdict :: string
  we_decided_by :: "row_ref option"

record who =
  wh_allowed :: "who_entry list"
  wh_indeterminate :: "who_entry list"
  wh_candidates :: nat

definition add_candidate :: "string \<Rightarrow> (string \<times> string) list \<Rightarrow> row \<Rightarrow> (string \<times> string) list" where
  "add_candidate scope cs r =
     (if holder r = [] then cs
      else if \<not> (scope_covers (rw_scope r) scope \<or> is_deny r) then cs
      else if holder r \<in> set (map fst cs) then cs
      else cs @ [(holder r, or_else (rw_effective_name r) (rw_display r))])"

fun who_loop :: "(string \<Rightarrow> decision) \<Rightarrow> nat \<Rightarrow> (string \<times> string) list \<Rightarrow> who_entry list \<Rightarrow> who_entry list
    \<Rightarrow> who_entry list \<times> who_entry list" where
  "who_loop ask limit [] allowed indeterminate = (allowed, indeterminate)"
| "who_loop ask limit (c # cs) allowed indeterminate =
     (let d = ask (fst c);
          entry = \<lparr>we_principal = fst c, we_name = snd c, we_verdict = de_verdict d, we_decided_by = de_decided_by d\<rparr>;
          allowed1 = (if de_verdict d = ALLOWED then allowed @ [entry] else allowed);
          indeterminate1 = (if de_verdict d = INDETERMINATE then indeterminate @ [entry] else indeterminate)
      in if limit \<le> length allowed1 + length indeterminate1 then (allowed1, indeterminate1)
         else who_loop ask limit cs allowed1 indeterminate1)"

definition who_can :: "row list \<Rightarrow> role_index \<Rightarrow> string \<Rightarrow> string \<Rightarrow> string \<Rightarrow> nat \<Rightarrow> who" where
  "who_can rows ix scope action plane0 limit =
     (let plane = or_else plane0 (classify_plane action);
          candidates = foldl (add_candidate scope) [] rows;
          (allowed, indeterminate) =
            who_loop (\<lambda>pid. evaluate_access rows ix pid scope action plane) limit candidates [] []
      in \<lparr>wh_allowed = allowed, wh_indeterminate = indeterminate, wh_candidates = length candidates\<rparr>)"

section \<open>The verdict\<close>

text \<open>
  What the verdict should be, over the rows of the principal: patterns are tested as sets, so the order
  of the rows and of the patterns of a role does not matter.
\<close>

definition role_allows :: "role_set \<Rightarrow> string \<Rightarrow> string \<Rightarrow> bool" where
  "role_allows rs action plane \<longleftrightarrow>
     (if plane = PLANE_DATA
      then (\<exists>p\<in>set (rs_data_actions rs). action_matches p action) \<and> \<not> (\<exists>p\<in>set (rs_not_data_actions rs). action_matches p action)
      else (\<exists>p\<in>set (rs_actions rs). action_matches p action) \<and> \<not> (\<exists>p\<in>set (rs_not_actions rs). action_matches p action))"

definition in_force :: "row \<Rightarrow> string \<Rightarrow> bool" where
  "in_force r scope \<longleftrightarrow> \<not> is_deny r \<and> scope_covers (rw_scope r) scope \<and> rw_state r \<noteq> STATE_ELIGIBLE"

definition resolved :: "role_index \<Rightarrow> row \<Rightarrow> role_set option" where
  "resolved ix r = (case lookup ix r of Some rs \<Rightarrow> if known rs then Some rs else None | None \<Rightarrow> None)"

definition grants_now :: "role_index \<Rightarrow> string \<Rightarrow> string \<Rightarrow> string \<Rightarrow> row \<Rightarrow> bool" where
  "grants_now ix scope action plane r \<longleftrightarrow> in_force r scope \<and>
     (case resolved ix r of
        Some rs \<Rightarrow> role_allows rs action plane \<and> py_strip (rw_condition r) = []
      | None \<Rightarrow> surface_verdict r plane = Grant)"

definition may_grant :: "role_index \<Rightarrow> string \<Rightarrow> string \<Rightarrow> string \<Rightarrow> row \<Rightarrow> bool" where
  "may_grant ix scope action plane r \<longleftrightarrow> in_force r scope \<and>
     (case resolved ix r of
        Some rs \<Rightarrow> role_allows rs action plane \<and> py_strip (rw_condition r) \<noteq> []
      | None \<Rightarrow> surface_verdict r plane = Resolve \<and> (rw_role r \<noteq> [] \<or> rw_role_def r \<noteq> []))"

lemma any_matches_Nil: "any_matches ps action = [] \<longleftrightarrow> \<not> (\<exists>p\<in>set ps. action_matches p action)"
proof -
  have "p \<noteq> []" if "action_matches p action" for p using that by (auto simp: action_matches_def split: if_splits)
  then show ?thesis by (induction ps) (auto simp: any_matches_def)
qed

lemma grants_allows:
  "(fst (grants rs action plane) \<noteq> [] \<and> snd (grants rs action plane) = []) = role_allows rs action plane"
  by (auto simp: grants_def role_allows_def Let_def any_matches_Nil)

lemma weigh_idle: "\<not> in_force r scope \<Longrightarrow> weigh_row ix scope action plane r d = d"
  by (auto simp: weigh_row_def in_force_def)

lemma weigh_unresolved:
  assumes "in_force r scope" "resolved ix r = None"
  shows "weigh_row ix scope action plane r d =
    (case surface_verdict r plane of
        Skip \<Rightarrow> d
      | Grant \<Rightarrow> d\<lparr>de_granting := de_granting d @ [ref_of r (rw_surface r) []]\<rparr>
      | Resolve \<Rightarrow> (let name = or_else (rw_role r) (rw_role_def r) in
          if name \<noteq> [] \<and> name \<notin> set (de_unknown d) then d\<lparr>de_unknown := de_unknown d @ [name]\<rparr> else d))"
  using assms(1) unfolding weigh_row_def assms(2) [unfolded resolved_def] in_force_def by simp

lemma weigh_resolved:
  assumes "in_force r scope" "resolved ix r = Some rs"
  shows "weigh_row ix scope action plane r d =
    (if fst (grants rs action plane) = [] then d
     else if snd (grants rs action plane) \<noteq> []
     then d\<lparr>de_excluded := de_excluded d @ [ref_of r (fst (grants rs action plane)) (snd (grants rs action plane))]\<rparr>
     else if py_strip (rw_condition r) \<noteq> []
     then d\<lparr>de_conditioned := de_conditioned d @ [ref_of r (fst (grants rs action plane)) []]\<rparr>
     else d\<lparr>de_granting := de_granting d @ [ref_of r (fst (grants rs action plane)) []]\<rparr>)"
  using assms(1) unfolding weigh_row_def assms(2) [unfolded resolved_def] in_force_def
  by (simp add: case_prod_beta Let_def)

lemma weigh_granting:
  "de_granting (weigh_row ix scope action plane r d) \<noteq> [] \<longleftrightarrow> de_granting d \<noteq> [] \<or> grants_now ix scope action plane r"
proof (cases "in_force r scope")
  case f: True
  show ?thesis
  proof (cases "resolved ix r")
    case None
    then show ?thesis
      by (cases "surface_verdict r plane") (simp_all add: weigh_unresolved [OF f] grants_now_def f Let_def)
  next
    case (Some rs)
    then show ?thesis
      using grants_allows [of rs action plane] by (auto simp: weigh_resolved [OF f] grants_now_def f)
  qed
qed (simp add: weigh_idle grants_now_def)

lemma weigh_open:
  "(de_conditioned (weigh_row ix scope action plane r d) \<noteq> [] \<or> de_unknown (weigh_row ix scope action plane r d) \<noteq> []) \<longleftrightarrow>
     (de_conditioned d \<noteq> [] \<or> de_unknown d \<noteq> []) \<or> may_grant ix scope action plane r"
proof (cases "in_force r scope")
  case f: True
  show ?thesis
  proof (cases "resolved ix r")
    case None
    then show ?thesis
      by (cases "surface_verdict r plane")
        (auto simp: weigh_unresolved [OF f] may_grant_def f Let_def)
  next
    case (Some rs)
    then show ?thesis
      using grants_allows [of rs action plane] by (auto simp: weigh_resolved [OF f] may_grant_def f)
  qed
qed (simp add: weigh_idle may_grant_def)

lemma weigh_all_granting:
  "de_granting (weigh_rows ix scope action plane rs d) \<noteq> [] \<longleftrightarrow>
     de_granting d \<noteq> [] \<or> list_ex (grants_now ix scope action plane) rs"
  unfolding weigh_rows_def by (induction rs rule: rev_induct) (auto simp: weigh_granting)

lemma weigh_all_open:
  "(de_conditioned (weigh_rows ix scope action plane rs d) \<noteq> [] \<or> de_unknown (weigh_rows ix scope action plane rs d) \<noteq> []) \<longleftrightarrow>
     (de_conditioned d \<noteq> [] \<or> de_unknown d \<noteq> []) \<or> list_ex (may_grant ix scope action plane) rs"
  unfolding weigh_rows_def
proof (induction rs rule: rev_induct)
  case (snoc r rs)
  show ?case unfolding foldl_append foldl_Cons foldl_Nil weigh_open snoc.IH by auto
qed simp

text \<open>
  The evaluation order. For every principal, scope and action, the verdict is that of the declared
  order over all of the principal's rows: denied when a deny assignment reaches the scope, else allowed
  when some assignment in force covers the scope with a role one of whose patterns matches and none of
  whose exclusions does, unconditionally; else indeterminate when one would but for a condition that is
  not evaluated or a role whose permissions are not known; else not granted. The exclusions of a role
  take nothing from another role.
\<close>

lemma verdict_lemma:
  "de_verdict (evaluate_access rows ix pid scope action plane0) =
     (let mine = principal_rows rows pid; plane = or_else plane0 (classify_plane action) in
      if list_ex (\<lambda>r. is_deny r \<and> deny_applies r scope) mine then DENIED
      else if list_ex (grants_now ix scope action plane) mine then ALLOWED
      else if list_ex (may_grant ix scope action plane) mine then INDETERMINATE
      else NOT_GRANTED)"
proof -
  let ?plane = "or_else plane0 (classify_plane action)"
  let ?mine = "principal_rows rows pid"
  have deny: "(map (\<lambda>r. ref_of r [] []) (filter (\<lambda>r. is_deny r \<and> deny_applies r scope) mine) = []) =
      (\<not> list_ex (\<lambda>r. is_deny r \<and> deny_applies r scope) mine)" for mine
    by (induction mine) auto
  define d0 where "d0 = \<lparr>de_verdict = NOT_GRANTED, de_action = action, de_plane = ?plane, de_scope = scope,
      de_principal = pid, de_decided_by = None, de_granting = [], de_denying = [],
      de_excluded = [], de_conditioned = [], de_via_groups = [], de_unknown = []\<rparr>"
  have e: "de_granting d0 = []" "de_conditioned d0 = []" "de_unknown d0 = []" by (simp_all add: d0_def)
  define d where "d = weigh_rows ix scope action ?plane ?mine d0"
  have g: "de_granting d \<noteq> [] \<longleftrightarrow> list_ex (grants_now ix scope action ?plane) ?mine"
    and o: "de_conditioned d \<noteq> [] \<or> de_unknown d \<noteq> [] \<longleftrightarrow> list_ex (may_grant ix scope action ?plane) ?mine"
    unfolding d_def weigh_all_granting weigh_all_open e by simp_all
  show ?thesis
    unfolding evaluate_access_def Let_def deny d0_def [symmetric] d_def [symmetric] g [symmetric] o [symmetric]
    by (cases "?mine = []") (simp_all add: d0_def d_def weigh_rows_def)
qed

section \<open>The list of everyone who can\<close>

lemma lower_space: "is_space (lower_char c) = is_space c"
  by (auto simp: is_space_def lower_char_def char_code_def)

lemma dropWhile_lower: "dropWhile is_space (py_lower s) = py_lower (dropWhile is_space s)"
  by (induction s) (auto simp: py_lower_def lower_space)

lemma strip_lower: "py_strip (py_lower s) = py_lower (py_strip s)"
proof -
  have r: "rev (py_lower t) = py_lower (rev t)" for t by (simp add: py_lower_def rev_map)
  show ?thesis unfolding py_strip_def by (simp add: dropWhile_lower r)
qed

lemma dropWhile_strip: "dropWhile is_space (py_strip s) = py_strip s"
proof (cases "dropWhile is_space s")
  case (Cons c cs)
  then have "\<not> is_space c" by (metis hd_dropWhile list.sel(1) list.discI)
  then have "py_strip s = c # rev (dropWhile is_space (rev cs))"
    by (auto simp: py_strip_def Cons dropWhile_append)
  then show ?thesis using \<open>\<not> is_space c\<close> by simp
next
  case Nil
  show ?thesis unfolding py_strip_def Nil by simp
qed

lemma strip_strip [simp]: "py_strip (py_strip s) = py_strip s"
  unfolding py_strip_def [of "py_strip s"] dropWhile_strip by (simp add: py_strip_def)

lemma same_rows: "py_lower (py_strip p) = py_lower (py_strip q) \<Longrightarrow> principal_rows rows p = principal_rows rows q"
  by (simp add: principal_rows_def Let_def)

lemma candidates_keys:
  "set (map fst (foldl (add_candidate scope) cs rows)) =
     set (map fst cs) \<union> {holder r | r. r \<in> set rows \<and> holder r \<noteq> [] \<and> (scope_covers (rw_scope r) scope \<or> is_deny r)}"
proof (induction rows arbitrary: cs)
  case (Cons r rows)
  show ?case unfolding foldl_Cons Cons.IH by (auto simp: add_candidate_def)
qed simp

lemma who_loop_complete:
  assumes "length allowed + length indet + length cs \<le> limit"
  shows "who_loop ask limit cs allowed indet =
    (allowed @ map (\<lambda>c. \<lparr>we_principal = fst c, we_name = snd c, we_verdict = de_verdict (ask (fst c)), we_decided_by = de_decided_by (ask (fst c))\<rparr>)
       (filter (\<lambda>c. de_verdict (ask (fst c)) = ALLOWED) cs),
     indet @ map (\<lambda>c. \<lparr>we_principal = fst c, we_name = snd c, we_verdict = de_verdict (ask (fst c)), we_decided_by = de_decided_by (ask (fst c))\<rparr>)
       (filter (\<lambda>c. de_verdict (ask (fst c)) = INDETERMINATE) cs))"
  using assms(1)
proof (induction cs arbitrary: allowed indet)
  case (Cons c cs)
  have ne: "ALLOWED \<noteq> INDETERMINATE" by (simp add: verdict_defs)
  show ?case
  proof (cases "cs = []")
    case True
    then show ?thesis using ne by (auto simp: Let_def)
  next
    case False
    then obtain n where "length cs = Suc n" by (cases cs) auto
    then show ?thesis using Cons.prems Cons.IH ne by (auto simp: Let_def)
  qed
qed simp

lemma granted_has_row:
  assumes "de_verdict (evaluate_access rows ix pid scope action plane) = v" "v = ALLOWED \<or> v = INDETERMINATE"
  obtains r where "r \<in> set rows" "py_lower (holder r) = py_lower (py_strip pid)" "holder r \<noteq> []"
    "scope_covers (rw_scope r) scope"
proof -
  let ?plane = "or_else plane (classify_plane action)"
  let ?mine = "principal_rows rows pid"
  have "list_ex (\<lambda>r. grants_now ix scope action ?plane r \<or> may_grant ix scope action ?plane r) ?mine"
  proof (rule ccontr)
    assume "\<not> list_ex (\<lambda>r. grants_now ix scope action ?plane r \<or> may_grant ix scope action ?plane r) ?mine"
    then have "\<not> list_ex (grants_now ix scope action ?plane) ?mine" "\<not> list_ex (may_grant ix scope action ?plane) ?mine"
      unfolding list_ex_iff by blast+
    then have "v = DENIED \<or> v = NOT_GRANTED"
      unfolding assms(1) [symmetric] verdict_lemma Let_def by simp
    then show False using assms(2) by (auto simp: verdict_defs)
  qed
  then obtain r where r: "r \<in> set (principal_rows rows pid)" "in_force r scope"
    by (auto simp: list_ex_iff grants_now_def may_grant_def)
  have "r \<in> set rows" "py_lower (holder r) = py_lower (py_strip pid)" "py_lower (py_strip pid) \<noteq> []"
    using r(1) by (auto simp: principal_rows_def Let_def split: if_splits)
  moreover from this have "holder r \<noteq> []" by (metis length_0_conv length_map py_lower_def)
  ultimately show thesis using that r(2) by (auto simp: in_force_def)
qed

lemma same_answer:
  "py_lower (py_strip p) = py_lower (py_strip q) \<Longrightarrow>
     de_verdict (evaluate_access rows ix p scope action plane) = de_verdict (evaluate_access rows ix q scope action plane)"
  unfolding verdict_lemma by (subst same_rows) simp_all

lemma who_lists:
  assumes "wh_candidates (who_can rows ix scope action plane limit) \<le> limit"
  defines "ask \<equiv> \<lambda>pid. evaluate_access rows ix pid scope action plane"
    and "keys \<equiv> map fst (foldl (add_candidate scope) [] rows)"
  shows "map we_principal (wh_allowed (who_can rows ix scope action plane limit)) = filter (\<lambda>p. de_verdict (ask p) = ALLOWED) keys"
    and "map we_principal (wh_indeterminate (who_can rows ix scope action plane limit)) = filter (\<lambda>p. de_verdict (ask p) = INDETERMINATE) keys"
proof -
  let ?cs = "foldl (add_candidate scope) [] rows"
  have ask: "evaluate_access rows ix p scope action (or_else plane (classify_plane action)) = ask p" for p
    by (simp add: evaluate_access_def ask_def)
  have l: "length ?cs \<le> limit" using assms(1) by (simp add: who_can_def case_prod_beta Let_def)
  have m: "map we_principal (map (\<lambda>c. \<lparr>we_principal = fst c, we_name = snd c, we_verdict = de_verdict (ask (fst c)),
      we_decided_by = de_decided_by (ask (fst c))\<rparr>) (filter (\<lambda>c. de_verdict (ask (fst c)) = v) cs)) =
      filter (\<lambda>p. de_verdict (ask p) = v) (map fst cs)" for v and cs :: "(string \<times> string) list"
    by (induction cs) auto
  show "map we_principal (wh_allowed (who_can rows ix scope action plane limit)) = filter (\<lambda>p. de_verdict (ask p) = ALLOWED) keys"
    "map we_principal (wh_indeterminate (who_can rows ix scope action plane limit)) = filter (\<lambda>p. de_verdict (ask p) = INDETERMINATE) keys"
    using who_loop_complete [of "[]" "[]" ?cs limit ask] l
    unfolding who_can_def Let_def ask by (simp_all add: m keys_def del: map_map)
qed

text \<open>
  C13. The inverse question. When the candidates do not exceed the limit, the principals listed as able to
  perform the action are, up to case and surrounding blanks, exactly those whose own evaluation says
  allowed, and those listed as indeterminate exactly those whose evaluation says so: the pre-selection of
  candidates by scope loses nobody, and a principal blocked by a deny assignment is never listed.
\<close>
theorem who_can_exact:
  assumes "wh_candidates (who_can rows ix scope action plane limit) \<le> limit"
  shows "(py_lower (py_strip pid) \<in> set (map (py_lower \<circ> we_principal) (wh_allowed (who_can rows ix scope action plane limit))) \<longleftrightarrow>
      de_verdict (evaluate_access rows ix pid scope action plane) = ALLOWED) \<and>
    (py_lower (py_strip pid) \<in> set (map (py_lower \<circ> we_principal) (wh_indeterminate (who_can rows ix scope action plane limit))) \<longleftrightarrow>
      de_verdict (evaluate_access rows ix pid scope action plane) = INDETERMINATE)"
proof -
  let ?keys = "map fst (foldl (add_candidate scope) [] rows)"
  let ?ask = "\<lambda>pid. evaluate_access rows ix pid scope action plane"
  have main: "py_lower (py_strip pid) \<in> py_lower ` {p \<in> set ?keys. de_verdict (?ask p) = v} \<longleftrightarrow> de_verdict (?ask pid) = v"
    if v: "v = ALLOWED \<or> v = INDETERMINATE" for v
  proof
    assume "py_lower (py_strip pid) \<in> py_lower ` {p \<in> set ?keys. de_verdict (?ask p) = v}"
    then obtain p where p: "py_lower p = py_lower (py_strip pid)" "de_verdict (?ask p) = v" by auto
    have "py_lower (py_strip p) = py_lower (py_strip pid)"
      using p(1) by (metis strip_lower strip_strip)
    then show "de_verdict (?ask pid) = v" using p(2) same_answer by metis
  next
    assume a: "de_verdict (?ask pid) = v"
    obtain r where r: "r \<in> set rows" "py_lower (holder r) = py_lower (py_strip pid)" "holder r \<noteq> []"
        "scope_covers (rw_scope r) scope"
      using granted_has_row [OF a v] by metis
    have "holder r \<in> set ?keys" using r unfolding candidates_keys by auto
    moreover have "py_lower (py_strip (holder r)) = py_lower (py_strip pid)"
      using r(2) by (metis strip_lower strip_strip)
    then have "de_verdict (?ask (holder r)) = v" using a same_answer by metis
    ultimately show "py_lower (py_strip pid) \<in> py_lower ` {p \<in> set ?keys. de_verdict (?ask p) = v}"
      using r(2) by (metis (mono_tags, lifting) image_eqI mem_Collect_eq)
  qed
  show ?thesis
    using main [of ALLOWED] main [of INDETERMINATE]
    unfolding map_map [symmetric] who_lists [OF assms] by (simp add: image_def)
qed

section \<open>Examples\<close>

definition an_owner :: role_def where
  "an_owner = \<lparr>rd_id = ''/providers/Microsoft.Authorization/roleDefinitions/8e3a'', rd_name = ''Owner'', rd_type = ''BuiltInRole'',
     rd_actions = [''*''], rd_not_actions = [], rd_data_actions = [], rd_not_data_actions = [], rd_assignable = [''/'']\<rparr>"

definition assigned :: "string \<Rightarrow> string \<Rightarrow> row" where
  "assigned who scope = make_row (no_values\<lparr>rw_surface := SURFACE_AZURE_RBAC, rw_state := STATE_ACTIVE, rw_path := PATH_DIRECT,
     rw_principal := who, rw_effective := who, rw_role := ''Owner'', rw_role_def := rd_id an_owner, rw_scope := scope\<rparr>)"

definition bob_asks :: who where
  "bob_asks = who_can [assigned ''bob'' ''/subscriptions/s1''] (build_role_index [an_owner]) ''/subscriptions/s1/x''
     ''Microsoft.Compute/vm/delete'' [] 500"

lemma bob_can:
  "de_verdict (evaluate_access [assigned ''bob'' ''/subscriptions/s1''] (build_role_index [an_owner]) ''Bob''
    ''/subscriptions/s1/x'' ''Microsoft.Compute/vm/delete'' []) = ALLOWED"
  by code_simp

lemma bob_few: "wh_candidates bob_asks \<le> 500"
  by code_simp

theorem who_can_exact_witness:
  "py_lower (py_strip ''Bob'') \<in> set (map (py_lower \<circ> we_principal) (wh_allowed bob_asks)) \<and>
   py_lower (py_strip ''Bob'') \<notin> set (map (py_lower \<circ> we_principal) (wh_indeterminate bob_asks))"
proof -
  have "ALLOWED \<noteq> INDETERMINATE" by (simp add: verdict_defs)
  then show ?thesis
    using who_can_exact [OF bob_few [unfolded bob_asks_def], of "''Bob''"] bob_can unfolding bob_asks_def by simp
qed

text \<open>
  The comparison of scopes knows the text of the path only: the scope of a management group is not above
  that of a subscription, so an owner of the group the subscription belongs to is not granted anything in it.
\<close>

lemma management_group_owner_not_seen:
  "de_verdict (evaluate_access [assigned ''bob'' ''/providers/Microsoft.Management/managementGroups/all''] (build_role_index [an_owner])
     ''bob'' ''/subscriptions/s1'' ''Microsoft.Compute/vm/delete'' []) = NOT_GRANTED"
  by code_simp

end
