(* ===== verification/Iam_Compose.thy ===== *)
theory Iam_Compose
  imports Iam_Effective "HOL-Library.AList"
begin

text \<open>
  The composed view every screen of the access review reads, \<^verbatim>\<open>app/iam/compose.py\<close>: one row per assignment,
  group assignments expanded to the members of the group, names, existence and account state filled in
  from the directory. The in-process memo of the composed rows is left out. Dictionaries are association
  lists where their order is read and maps elsewhere.
\<close>

section \<open>The directory\<close>

record member =
  mm_id :: string
  mm_type :: string
  mm_name :: string
  mm_upn :: string

record group =
  gr_name :: string
  gr_members :: "member list"
  gr_nested :: "string list"
  gr_assignable :: string
  gr_dynamic :: string
  gr_synced :: string

record directory_principal =
  dp_id :: string
  dp_name :: string
  dp_upn :: string
  dp_app :: string
  dp_type :: string

record account_state =
  as_enabled :: string
  as_synced :: string
  as_user_type :: string

record directory =
  dr_principals :: "directory_principal list"
  dr_groups :: "(string \<times> group) list"
  dr_rows :: "row list"
  dr_mg_names :: "(string \<times> string) list"
  dr_state :: "(string \<times> account_state) list"
  dr_status :: string

type_synonym groups = "(string \<times> group) list"

section \<open>Deduplication\<close>

definition dedupe_key :: "row \<Rightarrow> string" where
  "dedupe_key r = py_lower (py_strip (rw_assignment r)) @ ''|'' @ py_lower (rw_effective r) @ ''|'' @ rw_path r"

definition keep_better :: "(string \<times> row) list \<Rightarrow> row \<Rightarrow> (string \<times> row) list" where
  "keep_better best r =
     (case map_of best (dedupe_key r) of
        None \<Rightarrow> best @ [(dedupe_key r, r)]
      | Some prev \<Rightarrow> (if rw_inherited prev \<and> \<not> rw_inherited r then AList.update (dedupe_key r) r best else best))"

definition has_assignment :: "row \<Rightarrow> bool" where
  "has_assignment r \<longleftrightarrow> py_lower (py_strip (rw_assignment r)) \<noteq> []"

definition dedupe_assignments :: "row list \<Rightarrow> row list" where
  "dedupe_assignments rows =
     map snd (foldl keep_better [] (filter has_assignment rows)) @ filter (\<lambda>r. \<not> has_assignment r) rows"

text \<open>
  How the collector of a subscription marks an assignment as inherited: by the kind of its scope, and only
  when the scope names a subscription.
\<close>

definition collected_inherited :: "string \<Rightarrow> bool" where
  "collected_inherited scope =
     (let parts = parse_scope scope in sp_kind parts \<noteq> Subscription \<and> sp_subscription parts \<noteq> [])"

text \<open>So the copy of a management group's assignment is not marked, and one made at a resource group is.\<close>

lemma management_group_copy_not_inherited:
  "\<not> collected_inherited ''/providers/Microsoft.Management/managementGroups/all''"
  "collected_inherited ''/subscriptions/s1/resourceGroups/g1''"
  by code_simp+

section \<open>Groups\<close>

definition has_member :: "group option \<Rightarrow> string \<Rightarrow> bool" where
  "has_member g member_id = (case g of None \<Rightarrow> False | Some gr \<Rightarrow> list_ex (\<lambda>m. py_lower (mm_id m) = member_id) (gr_members gr))"

definition nested_of :: "groups \<Rightarrow> string \<Rightarrow> string list" where
  "nested_of gs g = (case map_of gs g of None \<Rightarrow> [] | Some gr \<Rightarrow> gr_nested gr)"

definition name_of :: "groups \<Rightarrow> string \<Rightarrow> string" where
  "name_of gs g = (case map_of gs g of None \<Rightarrow> [] | Some gr \<Rightarrow> gr_name gr)"

definition membership_group :: "groups \<Rightarrow> string \<Rightarrow> string \<Rightarrow> string \<times> string \<times> string" where
  "membership_group gs source_gid member =
     (let member_id = py_lower member;
          nested = filter (\<lambda>n. n \<noteq> []) (nested_of gs source_gid);
          candidates = filter (\<lambda>n. has_member (map_of gs n) member_id) nested;
          incomplete = list_ex (\<lambda>n. map_of gs n = None) nested
      in if candidates = [] then (if incomplete then ([], [], ''unknown'') else (source_gid, name_of gs source_gid, ''direct''))
         else let deepest = filter (\<lambda>h. set candidates \<inter> set (nested_of gs h) = {}) candidates in
           if length deepest \<noteq> 1 then ([], join_with ''; '' (sort (map (\<lambda>h. or_else (name_of gs h) h) deepest)), ''ambiguous'')
           else if incomplete then ([], [], ''unknown'')
           else (hd deepest, or_else (name_of gs (hd deepest)) (hd deepest), ''nested''))"

definition member_row :: "groups \<Rightarrow> row \<Rightarrow> group \<Rightarrow> member \<Rightarrow> row" where
  "member_row gs r g m =
     (let gname = gr_name g; (mid, mname, how) = membership_group gs (rw_principal r) (mm_id m);
          attr = (\<lambda>f. case map_of gs mid of None \<Rightarrow> [] | Some mg \<Rightarrow> f mg)
      in r\<lparr>rw_path := PATH_GROUP, rw_assignment_type := ''GroupMembership'', rw_group := rw_principal r,
           rw_group_name := gname, rw_effective := mm_id m, rw_effective_type := mm_type m,
           rw_effective_name := mm_name m, rw_effective_upn := mm_upn m, rw_member_group := mid,
           rw_member_group_name := mname, rw_member_how := how,
           rw_member_assignable := or_else (attr gr_assignable) ENABLED_UNKNOWN,
           rw_member_dynamic := or_else (attr gr_dynamic) ENABLED_UNKNOWN,
           rw_member_synced := or_else (attr gr_synced) (rw_member_synced r),
           rw_chain := (if how = ''nested'' \<and> mname \<noteq> [] then gname @ '' > '' @ mname else gname)\<rparr>)"

definition expand_group_rows :: "row list \<Rightarrow> groups \<Rightarrow> row list" where
  "expand_group_rows scope_rows gs = concat (map (\<lambda>r.
     if rw_principal_type r \<noteq> ''Group'' then []
     else case map_of gs (rw_principal r) of
       None \<Rightarrow> []
     | Some g \<Rightarrow> map (member_row gs r g) (gr_members g)) scope_rows)"

section \<open>Names, existence and account state\<close>

record name_entry =
  ne_name :: string
  ne_upn :: string
  ne_type :: string

type_synonym name_index = "string \<rightharpoonup> name_entry"

definition add_name :: "string \<Rightarrow> string \<Rightarrow> string \<Rightarrow> string \<Rightarrow> name_index \<Rightarrow> name_index" where
  "add_name pid name upn typ ix =
     (let key = py_lower pid in
      if key = [] then ix
      else let e = (case ix key of None \<Rightarrow> \<lparr>ne_name = [], ne_upn = [], ne_type = []\<rparr> | Some e \<Rightarrow> e)
        in ix(key \<mapsto> \<lparr>ne_name = or_else (ne_name e) name, ne_upn = or_else (ne_upn e) upn, ne_type = or_else (ne_type e) typ\<rparr>))"

definition add_row_names :: "row \<Rightarrow> name_index \<Rightarrow> name_index" where
  "add_row_names r ix =
     (let ix1 = add_name (rw_principal r) (rw_display r) (rw_upn r) (rw_principal_type r) ix;
          ix2 = add_name (rw_effective r) (rw_effective_name r) (rw_effective_upn r) (rw_effective_type r) ix1
      in if rw_group r \<noteq> [] then add_name (rw_group r) (rw_group_name r) [] ''Group'' ix2 else ix2)"

definition principal_index :: "directory \<Rightarrow> row list \<Rightarrow> name_index" where
  "principal_index d scope_rows =
     (let ix1 = foldl (\<lambda>ix p. add_name (dp_id p) (dp_name p) (or_else (dp_upn p) (dp_app p)) (dp_type p) ix) Map.empty (dr_principals d);
          ix2 = foldl (\<lambda>ix m. add_name (mm_id m) (mm_name m) (mm_upn m) (mm_type m) ix) ix1
            (concat (map (\<lambda>g. gr_members (snd g)) (dr_groups d)))
      in foldl (\<lambda>ix r. add_row_names r ix) ix2 (dr_rows d @ scope_rows))"

definition name_principal :: "name_index \<Rightarrow> row \<Rightarrow> row" where
  "name_principal ix r =
     (if rw_principal r = [] \<or> rw_display r \<noteq> [] then r
      else case ix (py_lower (rw_principal r)) of
        None \<Rightarrow> r
      | Some e \<Rightarrow> r\<lparr>rw_display := ne_name e, rw_upn := or_else (rw_upn r) (ne_upn e),
          rw_principal_type := or_else (rw_principal_type r) (ne_type e)\<rparr>)"

definition name_effective :: "name_index \<Rightarrow> row \<Rightarrow> row" where
  "name_effective ix r =
     (if rw_effective r = [] \<or> rw_effective_name r \<noteq> [] then r
      else case ix (py_lower (rw_effective r)) of
        None \<Rightarrow> r
      | Some e \<Rightarrow> r\<lparr>rw_effective_name := ne_name e, rw_effective_upn := or_else (rw_effective_upn r) (ne_upn e),
          rw_effective_type := or_else (rw_effective_type r) (ne_type e)\<rparr>)"

definition apply_names :: "name_index \<Rightarrow> row list \<Rightarrow> row list" where
  "apply_names ix rows = map (\<lambda>r. name_effective ix (name_principal ix r)) rows"

definition name_mg :: "(string \<times> string) list \<Rightarrow> row \<Rightarrow> row" where
  "name_mg names r =
     (let mg = py_lower (rw_mg r) in
      if mg = [] then r
      else let name = text_of (map_of names mg) in
        if name = [] \<or> py_lower name = mg then r
        else let r1 = (if rw_mg_name r = [] \<or> py_lower (rw_mg_name r) = mg then r\<lparr>rw_mg_name := name\<rparr> else r) in
          if rw_scope_type r = ''managementGroup'' \<and>
            (rw_scope_name r = [] \<or> rw_scope_name r = rw_scope r \<or> py_lower (rw_scope_name r) = mg)
          then r1\<lparr>rw_scope_name := name\<rparr> else r1)"

definition mark_existence :: "name_index \<Rightarrow> bool \<Rightarrow> row \<Rightarrow> row" where
  "mark_existence ix readable r =
     (let pid = py_strip (holder r);
          named = (case ix (py_lower pid) of None \<Rightarrow> False | Some e \<Rightarrow> ne_name e \<noteq> [])
      in r\<lparr>rw_exists :=
          (if pid = [] then EXISTS_UNKNOWN
           else if named \<or> rw_effective_name r \<noteq> [] \<or> rw_display r \<noteq> [] then EXISTS_TRUE
           else if readable then EXISTS_FALSE else EXISTS_UNKNOWN)\<rparr>)"

definition ACCOUNT_BEARING_TYPES :: "string list" where
  "ACCOUNT_BEARING_TYPES = [''User'', ''ServicePrincipal'', ''Application'']"

definition mark_membership :: "(string \<times> account_state) list \<Rightarrow> row \<Rightarrow> row" where
  "mark_membership state r =
     (let gid = py_lower (py_strip (or_else (rw_member_group r) (rw_group r))) in
      if gid = [] \<or> rw_member_synced r \<noteq> [] then r
      else r\<lparr>rw_member_synced := (case map_of state gid of None \<Rightarrow> ENABLED_UNKNOWN | Some s \<Rightarrow> or_else (as_synced s) ENABLED_UNKNOWN)\<rparr>)"

definition mark_state :: "(string \<times> account_state) list \<Rightarrow> row \<Rightarrow> row" where
  "mark_state state r0 =
     (let r = mark_membership state r0;
          pid = py_lower (py_strip (holder r)); typ = or_else (rw_effective_type r) (rw_principal_type r)
      in case (if pid = [] then None else map_of state pid) of
        Some s \<Rightarrow> r\<lparr>rw_enabled := or_else (as_enabled s) ENABLED_UNKNOWN, rw_synced := or_else (as_synced s) ENABLED_UNKNOWN,
          rw_user_type := or_else (as_user_type s) (rw_user_type r)\<rparr>
      | None \<Rightarrow>
          (if or_else (rw_enabled r) ENABLED_UNKNOWN \<noteq> ENABLED_UNKNOWN then r
           else r\<lparr>rw_enabled := (if typ = [] \<or> typ \<in> set ACCOUNT_BEARING_TYPES then ENABLED_UNKNOWN else ENABLED_NA),
             rw_synced := or_else (rw_synced r) ENABLED_UNKNOWN\<rparr>))"

section \<open>The composed rows\<close>

text \<open>
  \<open>_build_master_rows_uncached\<close>. The index is never empty when some row or principal has an id, so
  \<open>index_known\<close> stands for its truth value.
\<close>

definition index_known :: "directory \<Rightarrow> row list \<Rightarrow> bool" where
  "index_known d scope_rows \<longleftrightarrow>
     list_ex (\<lambda>p. dp_id p \<noteq> []) (dr_principals d) \<or>
     list_ex (\<lambda>g. list_ex (\<lambda>m. mm_id m \<noteq> []) (gr_members (snd g))) (dr_groups d) \<or>
     list_ex (\<lambda>r. rw_principal r \<noteq> [] \<or> rw_effective r \<noteq> [] \<or> rw_group r \<noteq> []) (dr_rows d @ scope_rows)"

definition UNREADABLE :: "string list" where
  "UNREADABLE = [''Failed'', ''Unauthorized'', ''Throttled'', ''Skipped'']"

definition named_scope_rows :: "row list \<Rightarrow> directory \<Rightarrow> row list" where
  "named_scope_rows scope_rows d =
     (let rows = dedupe_assignments scope_rows
      in map (name_mg (dr_mg_names d)) (apply_names (principal_index d rows) rows))"

definition build_master_rows :: "row list \<Rightarrow> directory \<Rightarrow> row list" where
  "build_master_rows scope_rows d =
     (let deduped = dedupe_assignments scope_rows;
          ix = principal_index d deduped;
          rows = named_scope_rows scope_rows d;
          dir_rows = apply_names ix (dr_rows d);
          expanded = apply_names ix (expand_group_rows rows (dr_groups d));
          readable = index_known d deduped \<and> dr_status d \<notin> set UNREADABLE
      in map (\<lambda>r. mark_state (dr_state d) (mark_existence ix readable r)) (rows @ dir_rows @ expanded))"

section \<open>One row per assignment\<close>

text \<open>The row kept for a key: the first that is not inherited, else the first.\<close>

definition chosen :: "row list \<Rightarrow> string \<Rightarrow> row option" where
  "chosen rows k =
     (case find (\<lambda>r. dedupe_key r = k \<and> \<not> rw_inherited r) rows of
        Some r \<Rightarrow> Some r
      | None \<Rightarrow> find (\<lambda>r. dedupe_key r = k) rows)"

lemma chosen_snoc:
  "chosen (rows @ [r]) k =
     (if dedupe_key r \<noteq> k then chosen rows k
      else case chosen rows k of
        None \<Rightarrow> Some r
      | Some prev \<Rightarrow> if rw_inherited prev \<and> \<not> rw_inherited r then Some r else Some prev)"
proof (cases "find (\<lambda>r. dedupe_key r = k \<and> \<not> rw_inherited r) rows")
  case None
  show ?thesis
  proof (cases "find (\<lambda>r. dedupe_key r = k) rows")
    case (Some prev)
    have "rw_inherited prev" using find_SomeD [OF Some] None by (auto simp: find_None_iff)
    then show ?thesis using None Some by (auto simp: chosen_def find_append)
  qed (use None in \<open>auto simp: chosen_def find_append\<close>)
next
  case (Some prev)
  then show ?thesis using find_SomeD [OF Some] by (auto simp: chosen_def find_append)
qed

lemma best_rows:
  "distinct (map fst (foldl keep_better [] rows)) \<and> map_of (foldl keep_better [] rows) k = chosen rows k"
proof (induction rows arbitrary: k rule: rev_induct)
  case Nil
  show ?case by (simp add: chosen_def)
next
  case (snoc r rows)
  let ?best = "foldl keep_better [] rows"
  have d: "distinct (map fst ?best)" and m: "map_of ?best k = chosen rows k" for k using snoc.IH by blast+
  have f: "foldl keep_better [] (rows @ [r]) = keep_better ?best r" by simp
  show ?case
  proof
    show "distinct (map fst (foldl keep_better [] (rows @ [r])))"
      unfolding f using d
      by (auto simp: keep_better_def distinct_update map_of_eq_None_iff split: option.splits)
    show "map_of (foldl keep_better [] (rows @ [r])) k = chosen (rows @ [r]) k"
    proof (cases "dedupe_key r = k")
      case True
      then show ?thesis
        unfolding f chosen_snoc m [symmetric]
        by (auto simp: keep_better_def map_of_append map_add_def update_conv' split: option.splits)
    next
      case False
      then show ?thesis
        unfolding f chosen_snoc m [symmetric]
        by (auto simp: keep_better_def map_of_append map_add_def update_conv' split: option.splits)
    qed
  qed
qed

lemma chosen_in: "chosen rows k = Some r \<Longrightarrow> r \<in> set rows"
  by (auto simp: chosen_def split: option.splits dest!: find_SomeD)

lemma dedupe_rows: "set (dedupe_assignments rows) \<subseteq> set rows"
proof -
  let ?best = "foldl keep_better [] (filter has_assignment rows)"
  have "snd kr \<in> set rows" if "kr \<in> set ?best" for kr
  proof -
    have "map_of ?best (fst kr) = Some (snd kr)"
      using that best_rows [of "filter has_assignment rows"] by (intro map_of_is_SomeI) auto
    then have "chosen (filter has_assignment rows) (fst kr) = Some (snd kr)" using best_rows by metis
    from chosen_in [OF this] show ?thesis by simp
  qed
  then show ?thesis by (auto simp: dedupe_assignments_def)
qed

section \<open>Access through groups\<close>

text \<open>The columns an answer depends on, beside who holds the row.\<close>

definition same_grant :: "row \<Rightarrow> row \<Rightarrow> bool" where
  "same_grant r r' \<longleftrightarrow> rw_effect r = rw_effect r' \<and> rw_scope r = rw_scope r' \<and> rw_state r = rw_state r' \<and>
     rw_role r = rw_role r' \<and> rw_role_def r = rw_role_def r' \<and> rw_surface r = rw_surface r' \<and>
     rw_condition r = rw_condition r' \<and> rw_own_scope_only r = rw_own_scope_only r'"

lemma same_grant_refl [simp]: "same_grant r r"
  by (simp add: same_grant_def)

lemma same_grant_answers:
  assumes "same_grant r r'"
  shows "is_deny r = is_deny r'" "deny_applies r scope = deny_applies r' scope"
    "grants_now ix scope action plane r = grants_now ix scope action plane r'"
    "may_grant ix scope action plane r = may_grant ix scope action plane r'"
proof -
  note eq = assms [unfolded same_grant_def]
  have l: "resolved ix r = resolved ix r'" "surface_verdict r plane = surface_verdict r' plane"
    by (simp_all add: eq resolved_def lookup_def surface_verdict_def)
  have c: "rw_scope r = rw_scope r'" "rw_state r = rw_state r'" "rw_role r = rw_role r'" "rw_role_def r = rw_role_def r'"
    "rw_condition r = rw_condition r'"
    using eq by blast+
  show d: "is_deny r = is_deny r'" "deny_applies r scope = deny_applies r' scope"
    by (simp_all add: eq is_deny_def deny_applies_def)
  show "grants_now ix scope action plane r = grants_now ix scope action plane r'"
    "may_grant ix scope action plane r = may_grant ix scope action plane r'"
    unfolding grants_now_def may_grant_def in_force_def l d c by (rule refl)+
qed

lemma names_keep:
  "same_grant (name_principal ix r) r" "same_grant (name_effective ix r) r"
  "holder (name_principal ix r) = holder r" "holder (name_effective ix r) = holder r"
  by (auto simp: same_grant_def holder_def name_principal_def name_effective_def split: option.splits)

lemma existence_keeps: "same_grant (mark_existence ix b r) r" "holder (mark_existence ix b r) = holder r"
  by (simp_all add: same_grant_def holder_def mark_existence_def Let_def)

lemma membership_keeps: "same_grant (mark_membership st r) r" "holder (mark_membership st r) = holder r"
  by (simp_all add: same_grant_def holder_def mark_membership_def Let_def)

lemma same_grant_trans: "same_grant a b \<Longrightarrow> same_grant b c \<Longrightarrow> same_grant a c"
  by (simp add: same_grant_def)

lemma stamp3:
  "same_grant (r\<lparr>rw_enabled := a, rw_synced := b, rw_user_type := c\<rparr>) r"
  "holder (r\<lparr>rw_enabled := a, rw_synced := b, rw_user_type := c\<rparr>) = holder r"
  by (simp_all add: same_grant_def holder_def)

lemma stamp2:
  "same_grant (r\<lparr>rw_enabled := a, rw_synced := b\<rparr>) r" "holder (r\<lparr>rw_enabled := a, rw_synced := b\<rparr>) = holder r"
  by (simp_all add: same_grant_def holder_def)

lemma state_keeps: "same_grant (mark_state st r) r" "holder (mark_state st r) = holder r"
proof -
  define q where "q = mark_membership st r"
  have "same_grant (mark_state st r) q \<and> holder (mark_state st r) = holder q"
    unfolding mark_state_def q_def [symmetric] Let_def
    by (simp only: stamp3 stamp2 same_grant_refl simp_thms split: option.split if_split)
  then show "same_grant (mark_state st r) r" "holder (mark_state st r) = holder r"
    using membership_keeps [of st r] same_grant_trans unfolding q_def by auto
qed

lemma member_row_keeps:
  "same_grant (member_row gs r g m) r" "holder (member_row gs r g m) = or_else (mm_id m) (rw_principal r)"
  by (auto simp: same_grant_def holder_def member_row_def Let_def split: prod.splits)

text \<open>
  Who a row is about: its holder, and every member of the group when it is assigned to a group the
  directory knows. A member without an id counts as the group.
\<close>

definition is_about :: "row \<Rightarrow> string \<Rightarrow> bool" where
  "is_about r pid \<longleftrightarrow> py_lower (holder r) = py_lower (py_strip pid)"

definition about_member :: "groups \<Rightarrow> row \<Rightarrow> string \<Rightarrow> bool" where
  "about_member gs r pid \<longleftrightarrow> rw_principal_type r = ''Group'' \<and>
     (case map_of gs (rw_principal r) of
        None \<Rightarrow> False
      | Some g \<Rightarrow> list_ex (\<lambda>m. py_lower (or_else (mm_id m) (rw_principal r)) = py_lower (py_strip pid)) (gr_members g))"

definition sources :: "row list \<Rightarrow> directory \<Rightarrow> string \<Rightarrow> row list" where
  "sources scope_rows d pid =
     (if py_strip pid = [] then []
      else filter (\<lambda>r. is_about r pid \<or> about_member (dr_groups d) r pid) (named_scope_rows scope_rows d)
           @ filter (\<lambda>r. is_about r pid) (dr_rows d))"

lemma expand_ex:
  assumes "\<And>r r'. same_grant r r' \<Longrightarrow> P r = P r'"
  shows "list_ex (\<lambda>r. is_about r pid \<and> P r) (expand_group_rows rows gs) \<longleftrightarrow> list_ex (\<lambda>r. about_member gs r pid \<and> P r) rows"
proof (induction rows)
  case (Cons r rows)
  have m: "is_about (member_row gs r g m) pid \<and> P (member_row gs r g m) \<longleftrightarrow>
      py_lower (or_else (mm_id m) (rw_principal r)) = py_lower (py_strip pid) \<and> P r" for g m
    unfolding is_about_def member_row_keeps(2) using assms [OF member_row_keeps(1)] by simp
  have "list_ex (\<lambda>r. is_about r pid \<and> P r)
      (if rw_principal_type r \<noteq> ''Group'' then []
       else case map_of gs (rw_principal r) of None \<Rightarrow> [] | Some g \<Rightarrow> map (member_row gs r g) (gr_members g)) \<longleftrightarrow>
      about_member gs r pid \<and> P r"
    unfolding about_member_def by (auto simp: list_ex_iff m split: option.splits)
  then show ?case using Cons.IH by (simp add: expand_group_rows_def)
qed (simp add: expand_group_rows_def)

lemma map_ex:
  assumes "\<And>r r'. same_grant r r' \<Longrightarrow> P r = P r'" "\<And>r. same_grant (f r) r" "\<And>r. holder (f r) = holder r"
  shows "list_ex (\<lambda>r. is_about r pid \<and> P r) (map f rows) \<longleftrightarrow> list_ex (\<lambda>r. is_about r pid \<and> P r) rows"
proof -
  have "is_about (f r) pid \<and> P (f r) \<longleftrightarrow> is_about r pid \<and> P r" for r
    unfolding is_about_def assms(3) using assms(1) [OF assms(2)] by simp
  then show ?thesis by (induction rows) auto
qed

lemma master_ex:
  assumes P: "\<And>r r'. same_grant r r' \<Longrightarrow> P r = P r'"
  shows "list_ex P (principal_rows (build_master_rows scope_rows d) pid) = list_ex P (sources scope_rows d pid)"
proof -
  define ix rows where defs: "ix = principal_index d (dedupe_assignments scope_rows)" "rows = named_scope_rows scope_rows d"
  define stamp where "stamp b r = mark_state (dr_state d) (mark_existence ix b r)" for b r
  define nm where "nm r = name_effective ix (name_principal ix r)" for r
  have stamp: "same_grant (stamp b r) r" "holder (stamp b r) = holder r" for b r
    unfolding stamp_def using state_keeps existence_keeps same_grant_trans by metis+
  have nm: "same_grant (nm r) r" "holder (nm r) = holder r" for r
    unfolding nm_def using names_keep same_grant_trans by metis+
  obtain b where master: "build_master_rows scope_rows d =
      map (stamp b) (rows @ map nm (dr_rows d) @ map nm (expand_group_rows rows (dr_groups d)))"
    unfolding build_master_rows_def Let_def stamp_def defs apply_names_def nm_def by blast
  have e1: "list_ex (\<lambda>r. is_about r pid \<and> P r) (map (stamp b) rs) = list_ex (\<lambda>r. is_about r pid \<and> P r) rs" for rs
    by (rule map_ex) (use P stamp in blast)+
  have e2: "list_ex (\<lambda>r. is_about r pid \<and> P r) (map nm rs) = list_ex (\<lambda>r. is_about r pid \<and> P r) rs" for rs
    by (rule map_ex) (use P nm in blast)+
  have e3: "list_ex (\<lambda>r. is_about r pid \<and> P r) (expand_group_rows rs gs) = list_ex (\<lambda>r. about_member gs r pid \<and> P r) rs" for rs gs
    by (rule expand_ex) (use P in blast)
  have ne: "py_lower (py_strip pid) = [] \<longleftrightarrow> py_strip pid = []" by (simp add: py_lower_def)
  have "list_ex P (principal_rows (build_master_rows scope_rows d) pid) \<longleftrightarrow> py_strip pid \<noteq> [] \<and>
      list_ex (\<lambda>r. is_about r pid \<and> P r) (build_master_rows scope_rows d)"
    unfolding principal_rows_def Let_def ne is_about_def by (auto simp: list_ex_iff)
  also have "\<dots> \<longleftrightarrow> py_strip pid \<noteq> [] \<and> (list_ex (\<lambda>r. is_about r pid \<and> P r) rows \<or>
      list_ex (\<lambda>r. is_about r pid \<and> P r) (dr_rows d) \<or> list_ex (\<lambda>r. about_member (dr_groups d) r pid \<and> P r) rows)"
    unfolding master e1 list_ex_append e2 e3 by blast
  also have "\<dots> \<longleftrightarrow> list_ex P (sources scope_rows d pid)"
    unfolding sources_def defs [symmetric] by (auto simp: list_ex_iff)
  finally show ?thesis .
qed

text \<open>
  Lemma. Composition keeps the answers. Over the composed rows, the verdict on any principal is the one of
  the declared order over the collected assignments that name the principal or a group it is a member of
  (and the directory rows that name it): expansion, deduplication of names, existence and account state
  neither grant nor hide anything, and a deny assignment of a group reaches its members.
\<close>
lemma composed_verdict:
  "de_verdict (evaluate_access (build_master_rows scope_rows d) ix pid scope action plane0) =
     (let mine = sources scope_rows d pid; plane = or_else plane0 (classify_plane action) in
      if list_ex (\<lambda>r. is_deny r \<and> deny_applies r scope) mine then DENIED
      else if list_ex (grants_now ix scope action plane) mine then ALLOWED
      else if list_ex (may_grant ix scope action plane) mine then INDETERMINATE
      else NOT_GRANTED)"
proof -
  have "list_ex (\<lambda>r. is_deny r \<and> deny_applies r scope) (principal_rows (build_master_rows scope_rows d) pid) =
      list_ex (\<lambda>r. is_deny r \<and> deny_applies r scope) (sources scope_rows d pid)"
    by (rule master_ex) (metis same_grant_answers(1,2))
  moreover have "list_ex (grants_now ix scope action plane) (principal_rows (build_master_rows scope_rows d) pid) =
      list_ex (grants_now ix scope action plane) (sources scope_rows d pid)" for plane
    by (rule master_ex) (rule same_grant_answers(3))
  moreover have "list_ex (may_grant ix scope action plane) (principal_rows (build_master_rows scope_rows d) pid) =
      list_ex (may_grant ix scope action plane) (sources scope_rows d pid)" for plane
    by (rule master_ex) (rule same_grant_answers(4))
  ultimately show ?thesis unfolding verdict_lemma Let_def by presburger
qed

section \<open>Example\<close>

definition bob_in_child :: directory where
  "bob_in_child = \<lparr>dr_principals = [], dr_groups =
      [(''g1'', \<lparr>gr_name = ''Platform'', gr_members = [\<lparr>mm_id = ''bob'', mm_type = ''User'', mm_name = ''Bob'', mm_upn = ''bob@x''\<rparr>],
          gr_nested = [''g2''], gr_assignable = [], gr_dynamic = [], gr_synced = []\<rparr>),
       (''g2'', \<lparr>gr_name = ''Operators'', gr_members = [\<lparr>mm_id = ''bob'', mm_type = ''User'', mm_name = ''Bob'', mm_upn = ''bob@x''\<rparr>],
          gr_nested = [], gr_assignable = [], gr_dynamic = [], gr_synced = []\<rparr>)],
     dr_rows = [], dr_mg_names = [], dr_state = [], dr_status = ''Succeeded''\<rparr>"

definition group_owner :: row where
  "group_owner = (assigned ''g1'' ''/subscriptions/s1'')\<lparr>rw_principal_type := ''Group'', rw_assignment := ''a1''\<rparr>"

definition expanded_rows :: "row list" where
  "expanded_rows = group_owner # expand_group_rows [group_owner] (dr_groups bob_in_child)"

lemma member_of_child_group:
  "map (\<lambda>r. (holder r, rw_member_group r, rw_member_how r, rw_chain r)) expanded_rows =
     [(''g1'', [], [], []), (''bob'', ''g2'', ''nested'', ''Platform > Operators'')]"
  "de_verdict (evaluate_access expanded_rows (build_role_index [an_owner]) ''bob''
     ''/subscriptions/s1'' ''Microsoft.Compute/vm/delete'' []) = ALLOWED"
  by code_simp+

end
