(* ===== verification/Iam_Simulator.thy ===== *)
theory Iam_Simulator
  imports Iam_Diff Iam_Compose
begin

text \<open>
  The what-if simulator of access changes, \<^verbatim>\<open>app/iam/simulator.py\<close>. A request is a dictionary of text
  fields; the random sample of the standard library and the digest are arguments; the sentences of the
  limitations are the values of a datatype.
\<close>

section \<open>Requests\<close>

definition REMOVE_ASSIGNMENT :: string where "REMOVE_ASSIGNMENT = ''remove_assignment''"
definition REMOVE_GROUP_MEMBER :: string where "REMOVE_GROUP_MEMBER = ''remove_group_member''"
definition REMOVE_GROUP :: string where "REMOVE_GROUP = ''remove_group''"
definition CONVERT_TO_ELIGIBLE :: string where "CONVERT_TO_ELIGIBLE = ''convert_to_eligible''"
definition RESCOPE_ASSIGNMENT :: string where "RESCOPE_ASSIGNMENT = ''rescope_assignment''"
definition REPLACE_ROLE :: string where "REPLACE_ROLE = ''replace_role''"
definition DISABLE_BYPASS :: string where "DISABLE_BYPASS = ''disable_bypass''"
definition ASSUME_PRINCIPAL :: string where "ASSUME_PRINCIPAL = ''assume_principal''"
definition ADD_DELEGATION :: string where "ADD_DELEGATION = ''add_delegation''"

lemmas kind_defs =
  REMOVE_ASSIGNMENT_def REMOVE_GROUP_MEMBER_def REMOVE_GROUP_def CONVERT_TO_ELIGIBLE_def
  RESCOPE_ASSIGNMENT_def REPLACE_ROLE_def DISABLE_BYPASS_def ASSUME_PRINCIPAL_def ADD_DELEGATION_def

definition KINDS :: "string list" where
  "KINDS = [REMOVE_ASSIGNMENT, REMOVE_GROUP_MEMBER, REMOVE_GROUP, CONVERT_TO_ELIGIBLE, RESCOPE_ASSIGNMENT,
     REPLACE_ROLE, DISABLE_BYPASS, ASSUME_PRINCIPAL, ADD_DELEGATION]"

datatype sim_error = Unknown_Kind string | Missing_Fields string "string list" | Missing_Referent string

record sim_change =
  sc_kind :: string
  sc_principal :: string
  sc_group :: string
  sc_assignment :: string
  sc_scope :: string
  sc_role :: string
  sc_to_role :: string
  sc_to_scope :: string
  sc_resource :: string
  sc_label :: string

definition required_fields :: "string \<Rightarrow> string list" where
  "required_fields kind =
     (if kind = REMOVE_ASSIGNMENT then [''assignment_id'']
      else if kind = REMOVE_GROUP_MEMBER then [''group_id'', ''principal_id'']
      else if kind = REMOVE_GROUP then [''group_id'']
      else if kind = CONVERT_TO_ELIGIBLE then [''assignment_id'']
      else if kind = RESCOPE_ASSIGNMENT then [''assignment_id'', ''to_scope'']
      else if kind = REPLACE_ROLE then [''assignment_id'', ''to_role'']
      else if kind = DISABLE_BYPASS then [''resource_id'']
      else if kind = ASSUME_PRINCIPAL then [''principal_id'']
      else if kind = ADD_DELEGATION then [''principal_id'', ''scope'', ''role_name'']
      else [])"

type_synonym raw_change = "(string \<times> string) list"

definition field :: "raw_change \<Rightarrow> string \<Rightarrow> string" where
  "field raw k = text_of (map_of raw k)"

definition parse_change :: "raw_change \<Rightarrow> (sim_error, sim_change) result" where
  "parse_change raw =
     (let kind = py_strip (field raw ''kind'') in
      if kind \<notin> set KINDS then Inl (Unknown_Kind kind)
      else let missing = filter (\<lambda>f. field raw f = []) (required_fields kind) in
        if missing \<noteq> [] then Inl (Missing_Fields kind missing)
        else Inr \<lparr>sc_kind = kind, sc_principal = field raw ''principal_id'', sc_group = field raw ''group_id'',
          sc_assignment = field raw ''assignment_id'', sc_scope = field raw ''scope'', sc_role = field raw ''role_name'',
          sc_to_role = field raw ''to_role'', sc_to_scope = field raw ''to_scope'',
          sc_resource = field raw ''resource_id'', sc_label = field raw ''label''\<rparr>)"

fun parse_changes :: "raw_change list \<Rightarrow> (sim_error, sim_change list) result" where
  "parse_changes [] = Inr []"
| "parse_changes (raw # raws) =
     (case parse_change raw of Inl e \<Rightarrow> Inl e
      | Inr c \<Rightarrow> (case parse_changes raws of Inl e \<Rightarrow> Inl e | Inr cs \<Rightarrow> Inr (c # cs)))"

definition same_id :: "string \<Rightarrow> string \<Rightarrow> bool" where
  "same_id x y \<longleftrightarrow> py_lower x = py_lower y"

definition through_group :: "string \<Rightarrow> row \<Rightarrow> bool" where
  "through_group gid r \<longleftrightarrow> same_id (rw_principal r) gid \<or> contains (py_lower (rw_chain r)) (py_lower gid)"

definition assert_referent :: "sim_change \<Rightarrow> row list \<Rightarrow> sim_error option" where
  "assert_referent c rows =
     (if sc_kind c = ASSUME_PRINCIPAL \<or> sc_kind c = ADD_DELEGATION then None
      else if sc_assignment c \<noteq> [] \<and> \<not> list_ex (\<lambda>r. same_id (rw_assignment r) (sc_assignment c)) rows
      then Some (Missing_Referent (sc_assignment c))
      else if sc_group c \<noteq> [] \<and> \<not> list_ex (through_group (sc_group c)) rows
      then Some (Missing_Referent (sc_group c))
      else if sc_kind c = REMOVE_GROUP_MEMBER \<and> sc_principal c \<noteq> []
        \<and> \<not> list_ex (\<lambda>r. same_id (rw_effective r) (sc_principal c)) rows
      then Some (Missing_Referent (sc_principal c))
      else None)"

section \<open>Application\<close>

definition delegation_row :: "sim_change \<Rightarrow> row" where
  "delegation_row c = make_row (no_values\<lparr>
     rw_surface := SURFACE_AZURE_RBAC, rw_effect := EFFECT_ALLOW, rw_state := STATE_ACTIVE, rw_path := PATH_DIRECT,
     rw_principal := sc_principal c, rw_effective := sc_principal c,
     rw_effective_name := or_else (sc_label c) (sc_principal c), rw_effective_type := ''ServicePrincipal'',
     rw_role := sc_role c, rw_scope := sc_scope c, rw_scope_name := sc_scope c,
     rw_assignment := ''simulated-'' @ sc_principal c @ ''-'' @ sc_role c,
     rw_privileged := role_is_privileged (sc_role c) SURFACE_AZURE_RBAC False\<rparr>)"

definition at_assignment :: "sim_change \<Rightarrow> (row \<Rightarrow> row) \<Rightarrow> row list \<Rightarrow> row list" where
  "at_assignment c f rows = map (\<lambda>r. if same_id (rw_assignment r) (sc_assignment c) then f r else r) rows"

definition apply_one :: "row list \<Rightarrow> sim_change \<Rightarrow> row list" where
  "apply_one rows c =
     (if sc_kind c = REMOVE_ASSIGNMENT then filter (\<lambda>r. \<not> same_id (rw_assignment r) (sc_assignment c)) rows
      else if sc_kind c = REMOVE_GROUP_MEMBER then
        filter (\<lambda>r. \<not> (same_id (rw_effective r) (sc_principal c) \<and> rw_path r = PATH_GROUP \<and> through_group (sc_group c) r)) rows
      else if sc_kind c = REMOVE_GROUP then filter (\<lambda>r. \<not> through_group (sc_group c) r) rows
      else if sc_kind c = CONVERT_TO_ELIGIBLE then
        at_assignment c (\<lambda>r. r\<lparr>rw_state := STATE_ELIGIBLE, rw_pim := True\<rparr>) rows
      else if sc_kind c = RESCOPE_ASSIGNMENT then
        at_assignment c (\<lambda>r. r\<lparr>rw_scope := sc_to_scope c, rw_scope_name := sc_to_scope c\<rparr>) rows
      else if sc_kind c = REPLACE_ROLE then
        at_assignment c (\<lambda>r. r\<lparr>rw_role := sc_to_role c, rw_role_def := [],
          rw_privileged := role_is_privileged (sc_to_role c) (rw_surface r) False\<rparr>) rows
      else if sc_kind c = ADD_DELEGATION then rows @ [delegation_row c]
      else rows)"

definition apply_changes :: "row list \<Rightarrow> sim_change list \<Rightarrow> row list" where
  "apply_changes rows cs = foldl apply_one rows cs"

section \<open>Simulation\<close>

definition grant_key :: "row \<Rightarrow> string" where
  "grant_key r = join_with ''|'' [row_key r, rw_assignment r, rw_path r, rw_principal r]"

definition equivalent :: "row \<Rightarrow> row \<Rightarrow> bool" where
  "equivalent r c \<longleftrightarrow> \<not> is_deny c \<and> same_id (holder c) (holder r) \<and> same_id (rw_role c) (rw_role r) \<and>
     rw_state c = STATE_ACTIVE \<and> scope_covers (rw_scope c) (rw_scope r)"

definition equivalent_after :: "row \<Rightarrow> row list \<Rightarrow> row option" where
  "equivalent_after r after = find (equivalent r) after"

record sim_ref =
  sf_principal :: string
  sf_name :: string
  sf_role :: string
  sf_scope :: string
  sf_scope_name :: string
  sf_privileged :: bool
  sf_other_path :: string
  sf_other_via :: string
  sf_other_scope :: string
  sf_was_via :: string

definition sim_ref_of :: "row \<Rightarrow> sim_ref" where
  "sim_ref_of r = \<lparr>sf_principal = holder r, sf_name = or_else (rw_effective_name r) (rw_display r), sf_role = rw_role r,
     sf_scope = rw_scope r, sf_scope_name = rw_scope_name r, sf_privileged = rw_privileged r,
     sf_other_path = [], sf_other_via = [], sf_other_scope = [], sf_was_via = []\<rparr>"

definition retained_ref :: "row \<Rightarrow> row \<Rightarrow> sim_ref" where
  "retained_ref r c = (sim_ref_of r)\<lparr>sf_other_path := rw_path c, sf_other_via := or_else (rw_display c) (rw_principal c),
     sf_other_scope := rw_scope c\<rparr>"

definition lost_ref :: "row \<Rightarrow> sim_ref" where
  "lost_ref r = (sim_ref_of r)\<lparr>sf_was_via := rw_path r\<rparr>"

definition owners_of :: "row list \<Rightarrow> (string \<times> string list) list" where
  "owners_of rows = foldl (\<lambda>out r.
     if is_deny r \<or> rw_state r \<noteq> STATE_ACTIVE then out
     else if privilege_tier r < TIER_OWNER then out
     else AList.update (rw_scope r) (case map_of out (rw_scope r) of None \<Rightarrow> [holder r] | Some hs \<Rightarrow> List.insert (holder r) hs) out) [] rows"

record orphan =
  or_resource :: string
  or_previous :: "string list"
  or_remaining :: "string list"
  or_recorded_owner :: bool

definition orphaned :: "row list \<Rightarrow> row list \<Rightarrow> string list \<Rightarrow> orphan list" where
  "orphaned before after owned_scopes =
     map (\<lambda>(scope, holders).
         \<lparr>or_resource = scope, or_previous = take 10 (sort (remdups holders)),
          or_remaining = take 10 (sort (remdups (map rw_role (filter (\<lambda>r. rw_scope r = scope) after)))),
          or_recorded_owner = (py_lower scope \<in> set (map py_lower owned_scopes))\<rparr>)
       (filter (\<lambda>(scope, holders). holders \<noteq> [] \<and> (case map_of (owners_of after) scope of None \<Rightarrow> True | Some hs \<Rightarrow> hs = []))
         (owners_of before))"

definition standing :: "row list \<Rightarrow> nat" where
  "standing rows = length (filter is_standing_privilege rows)"

definition SAMPLE_THRESHOLD :: nat where "SAMPLE_THRESHOLD = 5000"

definition sample_lost :: "(nat \<Rightarrow> sim_ref list \<Rightarrow> sim_ref list) \<Rightarrow> sim_ref list \<Rightarrow> nat \<Rightarrow> sim_ref list" where
  "sample_lost pick items threshold =
     (if length items \<le> threshold then items
      else let always = filter sf_privileged items; others = filter (\<lambda>i. \<not> sf_privileged i) items;
          room = threshold - length always
        in always @ pick (min room (length others)) others)"

datatype limitation = Conditions nat | Unknown_Roles nat | Usage_Age int | Bypass_Unseen | Nothing_Removed | Snapshot_Only

definition limitations :: "row list \<Rightarrow> sim_change list \<Rightarrow> role_index option \<Rightarrow> int option \<Rightarrow> limitation list" where
  "limitations rows cs ix usage_age =
     (let conditioned = length (filter (\<lambda>r. py_strip (rw_condition r) \<noteq> []) rows);
          gaps = (\<lambda>ix. length (filter (\<lambda>r. case lookup ix r of None \<Rightarrow> True | Some rs \<Rightarrow> \<not> known rs) rows))
      in (if conditioned \<noteq> 0 then [Conditions conditioned] else [])
         @ (case ix of None \<Rightarrow> [] | Some i \<Rightarrow> if gaps i \<noteq> 0 then [Unknown_Roles (gaps i)] else [])
         @ (case usage_age of None \<Rightarrow> [] | Some d \<Rightarrow> [Usage_Age d])
         @ (if list_ex (\<lambda>c. sc_kind c = DISABLE_BYPASS) cs then [Bypass_Unseen] else [])
         @ (if list_ex (\<lambda>c. sc_kind c = ASSUME_PRINCIPAL) cs then [Nothing_Removed] else [])
         @ [Snapshot_Only])"

record simulation =
  si_applied :: "sim_change list"
  si_affected :: nat
  si_lost :: "sim_ref list"
  si_retained :: "sim_ref list"
  si_gained :: "sim_ref list"
  si_orphaned :: "orphan list"
  si_standing_before :: nat
  si_standing_after :: nat
  si_unchanged :: nat
  si_sampled :: bool
  si_population :: nat
  si_limitations :: "limitation list"
  si_paths_before :: "nat option"

definition simulate ::
  "(nat \<Rightarrow> sim_ref list \<Rightarrow> sim_ref list) \<Rightarrow> row list \<Rightarrow> raw_change list \<Rightarrow> role_index option \<Rightarrow> string list
   \<Rightarrow> nat option \<Rightarrow> int option \<Rightarrow> nat \<Rightarrow> (sim_error, simulation) result" where
  "simulate pick rows raw_changes ix owned_scopes paths_before usage_age threshold =
     (case parse_changes raw_changes of
        Inl e \<Rightarrow> Inl e
      | Inr cs \<Rightarrow>
          (case find (\<lambda>c. assert_referent c rows \<noteq> None) cs of
             Some c \<Rightarrow> Inl (the (assert_referent c rows))
           | None \<Rightarrow>
               (let after = apply_changes rows cs;
                    before_keys = keyed_by grant_key rows;
                    after_keys = keyed_by grant_key after;
                    gone = map snd (absent before_keys after_keys);
                    retained = concat (map (\<lambda>r. case equivalent_after r after of None \<Rightarrow> [] | Some c \<Rightarrow> [retained_ref r c]) gone);
                    lost = concat (map (\<lambda>r. case equivalent_after r after of None \<Rightarrow> [lost_ref r] | Some c \<Rightarrow> []) gone);
                    gained = map (sim_ref_of \<circ> snd) (absent after_keys before_keys)
                in Inr \<lparr>si_applied = cs,
                     si_affected = length (remdups (map sf_principal (lost @ retained @ gained))),
                     si_lost = sample_lost pick lost threshold, si_retained = retained, si_gained = gained,
                     si_orphaned = orphaned rows after owned_scopes,
                     si_standing_before = standing rows, si_standing_after = standing after,
                     si_unchanged = length (filter (\<lambda>k. k \<in> set (map fst after_keys)) (map fst before_keys)),
                     si_sampled = (threshold < length lost), si_population = length lost,
                     si_limitations = limitations rows cs ix usage_age, si_paths_before = paths_before\<rparr>)))"

definition fingerprint :: "(string \<Rightarrow> string) \<Rightarrow> raw_change list \<Rightarrow> string" where
  "fingerprint digest raw_changes =
     take 16 (digest (join_with [CHR 0x0A] (sort (map (\<lambda>raw.
       join_with ''|'' (map (\<lambda>(k, v). k @ ''='' @ v) (filter (\<lambda>(k, v). v \<noteq> []) (sort raw)))) raw_changes))))"

section \<open>What is lost and what is kept\<close>













section \<open>Grants\<close>



definition no_bar :: "string \<Rightarrow> bool" where
  "no_bar s \<longleftrightarrow> CHR ''|'' \<notin> set s"







lemma no_bar_Nil [simp]: "no_bar []"
  by (simp add: no_bar_def)





lemma no_bar_simps [simp]:
  "no_bar (x # s) \<longleftrightarrow> x \<noteq> CHR ''|'' \<and> no_bar s"
  "no_bar (s @ s') \<longleftrightarrow> no_bar s \<and> no_bar s'"
  by (auto simp: no_bar_def)

lemma lower_char_bar: "lower_char c = CHR ''|'' \<Longrightarrow> c = CHR ''|''"
proof (cases "65 \<le> char_code c \<and> char_code c \<le> 90")
  case True
  assume "lower_char c = CHR ''|''"
  with True have "of_char (char_of (char_code c + 32) :: char) = (of_char (CHR ''|'') :: nat)"
    by (simp add: lower_char_def)
  with True show ?thesis by simp
qed (auto simp: lower_char_def)

lemma no_bar_lower [simp]: "no_bar s \<Longrightarrow> no_bar (py_lower s)"
  by (auto simp: no_bar_def py_lower_def dest: lower_char_bar [OF sym])









section \<open>Examples\<close>

definition held :: "string \<Rightarrow> string \<Rightarrow> string \<Rightarrow> string \<Rightarrow> row" where
  "held aid who scope path = (assigned who scope)\<lparr>rw_assignment := aid, rw_path := path\<rparr>"

definition two_owners :: "row list" where
  "two_owners = [held ''a1'' ''bob'' ''/subscriptions/s1'' PATH_DIRECT, held ''a2'' ''bob'' ''/'' PATH_GROUP,
     held ''a3'' ''eve'' ''/subscriptions/s1'' PATH_DIRECT]"

definition without :: "string \<Rightarrow> raw_change" where
  "without aid = [(''kind'', ''remove_assignment''), (''assignment_id'', aid)]"

definition outcome_of :: "row list \<Rightarrow> raw_change list \<Rightarrow> (sim_error, simulation) result" where
  "outcome_of rows raws = simulate take rows raws None [] None None 5000"

lemma revoking_both:
  "(case outcome_of two_owners [without ''A1'', without ''a3''] of
      Inr res \<Rightarrow> (map sf_principal (si_lost res), map sf_principal (si_retained res))
    | Inl _ \<Rightarrow> ([], [])) = ([''eve''], [''bob''])"
  by code_simp





text \<open>
  Taking away a deny assignment is reported as a loss of access, with nothing gained, while the principal
  goes from denied to allowed.
\<close>

definition denied_bob :: "row list" where
  "denied_bob = [assigned ''bob'' ''/subscriptions/s1'',
     (assigned ''bob'' ''/subscriptions/s1'')\<lparr>rw_assignment := ''d1'', rw_effect := EFFECT_DENY, rw_role := ''Deny all'', rw_role_def := []\<rparr>]"

lemma lifting_a_deny_counts_as_loss:
  "(case outcome_of denied_bob [without ''d1''] of
      Inr res \<Rightarrow> (map sf_role (si_lost res), si_gained res)
    | Inl _ \<Rightarrow> ([], [])) = ([''Deny all''], [])"
  "de_verdict (evaluate_access denied_bob (build_role_index [an_owner]) ''bob'' ''/subscriptions/s1'' ''Microsoft.Compute/vm/delete'' []) = DENIED"
  "de_verdict (evaluate_access (filter (\<lambda>r. \<not> is_deny r) denied_bob) (build_role_index [an_owner]) ''bob'' ''/subscriptions/s1''
     ''Microsoft.Compute/vm/delete'' []) = ALLOWED"
  by code_simp+

text \<open>
  The chain of an expanded row holds names of groups, and requests hold ids: the removal of the nested
  group that the membership is really in finds nothing to remove.
\<close>

lemma nested_group_not_found:
  "outcome_of expanded_rows [[(''kind'', ''remove_group''), (''group_id'', ''g2'')]] =
     Inl (Missing_Referent ''g2'')"
  by code_simp

end
