(* ===== verification/Backup_Ledger.thy ===== *)
theory Backup_Ledger
  imports Json_Values
begin

text \<open>
  The ledger of managed changes of the Backup Manager: \<^verbatim>\<open>app/backup_manager/changes.py\<close>, the poller of
  \<^verbatim>\<open>app/backup_manager/lro.py\<close> and the decision, apply and rollback handlers of \<^verbatim>\<open>app/api/backup_manager.py\<close>.
  Documents are JSON values; stored documents are kept in the clear, as encryption is undone
  before every use. Azure (reads, submissions, polls, the token), the connections of the workspace and the
  digest of a document are arguments. Instants and delays are microseconds. A missing text is the empty string.
\<close>

section \<open>Documents\<close>

definition as_dict :: "json option \<Rightarrow> doc" where
  "as_dict v = (case v of Some (J_Obj m) \<Rightarrow> m | _ \<Rightarrow> [])"

definition text_in :: "doc \<Rightarrow> string \<Rightarrow> string" where
  "text_in d k = (case map_of d k of Some (J_Text s) \<Rightarrow> s | _ \<Rightarrow> [])"

text \<open>Serialisation with sorted keys: the keys of every object in order.\<close>

primrec canon :: "json \<Rightarrow> json" where
  "canon J_Null = J_Null"
| "canon (J_Bool b) = J_Bool b"
| "canon (J_Num n) = J_Num n"
| "canon (J_Text s) = J_Text s"
| "canon (J_List xs) = J_List (map canon xs)"
| "canon (J_Obj m) = J_Obj (sort_key fst (map (map_prod id canon) m))"

definition canonical_hash :: "(json \<Rightarrow> string) \<Rightarrow> doc \<Rightarrow> string" where
  "canonical_hash digest d = digest (canon (J_Obj d))"

definition concurrency_body :: "doc \<Rightarrow> doc" where
  "concurrency_body live =
     [(''location'', if truthy (map_of live ''location'') then the (map_of live ''location'') else J_Text []),
      (''properties'', J_Obj (as_dict (map_of live ''properties''))),
      (''sku'', J_Obj (as_dict (map_of live ''sku'')))]"

section \<open>Targets and changes\<close>

record target_spec =
  ts_label :: string
  ts_operations :: "string list"
  ts_risk :: string
  ts_permission :: string
  ts_dual :: bool

definition TARGET_SPECS :: "(string \<times> target_spec) list" where
  "TARGET_SPECS =
     [(''vault'', \<lparr>ts_label = ''Backup vault'', ts_operations = [''create''], ts_risk = ''low'',
         ts_permission = ''backup_manager.vault_write'', ts_dual = False\<rparr>),
      (''vault_security'', \<lparr>ts_label = ''Vault security setting'', ts_operations = [''update''], ts_risk = ''medium'',
         ts_permission = ''backup_manager.vault_write'', ts_dual = False\<rparr>),
      (''vault_alerts'', \<lparr>ts_label = ''Vault built-in alerts'', ts_operations = [''update''], ts_risk = ''low'',
         ts_permission = ''backup_manager.vault_write'', ts_dual = False\<rparr>),
      (''vault_diagnostics'', \<lparr>ts_label = ''Vault diagnostic settings'', ts_operations = [''create'', ''update''], ts_risk = ''low'',
         ts_permission = ''backup_manager.vault_write'', ts_dual = False\<rparr>),
      (''backup_policy'', \<lparr>ts_label = ''Backup policy'', ts_operations = [''create'', ''update'', ''delete''], ts_risk = ''medium'',
         ts_permission = ''backup_manager.policy_write'', ts_dual = False\<rparr>),
      (''protection'', \<lparr>ts_label = ''Protected item'', ts_operations = [''create'', ''update'', ''delete''], ts_risk = ''low'',
         ts_permission = ''backup_manager.protect_write'', ts_dual = False\<rparr>),
      (''adhoc_backup'', \<lparr>ts_label = ''On-demand backup'', ts_operations = [''invoke''], ts_risk = ''low'',
         ts_permission = ''backup_manager.ondemand'', ts_dual = False\<rparr>),
      (''job_cancel'', \<lparr>ts_label = ''Cancel running job'', ts_operations = [''invoke''], ts_risk = ''low'',
         ts_permission = ''backup_manager.ondemand'', ts_dual = False\<rparr>),
      (''policy_assignment'', \<lparr>ts_label = ''Auto-protect policy assignment'', ts_operations = [''create'', ''delete''], ts_risk = ''medium'',
         ts_permission = ''backup_manager.policy_write'', ts_dual = False\<rparr>),
      (''asr_test_failover'', \<lparr>ts_label = ''Site Recovery test failover'', ts_operations = [''invoke''], ts_risk = ''high'',
         ts_permission = ''backup_manager.drill_write'', ts_dual = True\<rparr>),
      (''asr_cleanup'', \<lparr>ts_label = ''Site Recovery test-failover cleanup'', ts_operations = [''invoke''], ts_risk = ''medium'',
         ts_permission = ''backup_manager.drill_write'', ts_dual = False\<rparr>)]"

definition STOP_PROTECTION_RETAIN :: string where "STOP_PROTECTION_RETAIN = ''stop_retain_data''"

datatype refusal = Unsupported_Target | Unsupported_Operation | No_Rollback

definition validate_operation :: "string \<Rightarrow> string \<Rightarrow> (refusal, target_spec) result" where
  "validate_operation target_type operation =
     (case map_of TARGET_SPECS target_type of
        None \<Rightarrow> Inl Unsupported_Target
      | Some spec \<Rightarrow> (if operation \<notin> set (ts_operations spec) then Inl Unsupported_Operation else Inr spec))"

type_synonym summary = "(string \<times> string) list"

definition note_in :: "summary \<Rightarrow> string \<Rightarrow> string \<Rightarrow> string" where
  "note_in s k d = (case map_of s k of None \<Rightarrow> d | Some [] \<Rightarrow> d | Some v \<Rightarrow> v)"

record managed_change =
  bc_id :: string
  bc_tenant :: string
  bc_connection :: string
  bc_target_type :: string
  bc_target :: string
  bc_operation :: string
  bc_status :: string
  bc_risk :: string
  bc_summary :: summary
  bc_desired :: doc
  bc_before :: doc
  bc_after :: doc
  bc_expected_hash :: string
  bc_requested_by :: string
  bc_requested_at :: int
  bc_decided_by :: string
  bc_decided_at :: "int option"
  bc_reason :: string
  bc_dual :: bool
  bc_second :: string
  bc_second_at :: "int option"
  bc_applied_by :: string
  bc_applied_at :: "int option"
  bc_error_code :: string
  bc_error :: string
  bc_rollback_of :: string
  bc_plan :: string
  bc_depends_on :: "string list"
  bc_url :: string
  bc_job :: string
  bc_attempts :: nat
  bc_poll_after :: "int option"
  bc_deadline :: "int option"

text \<open>The arguments of \<open>build_change\<close>; an absent risk or dual approval is taken from the target.\<close>

record draft =
  df_tenant :: string
  df_connection :: string
  df_target_type :: string
  df_target :: string
  df_operation :: string
  df_requested_by :: string
  df_desired :: doc
  df_before :: doc
  df_summary :: summary
  df_risk :: string
  df_plan :: string
  df_depends_on :: "string list"
  df_dual :: "bool option"

definition build_change :: "(json \<Rightarrow> string) \<Rightarrow> string \<Rightarrow> int \<Rightarrow> draft \<Rightarrow> (refusal, managed_change) result" where
  "build_change digest new_id now d =
     (case validate_operation (df_target_type d) (df_operation d) of
        Inl e \<Rightarrow> Inl e
      | Inr spec \<Rightarrow> Inr
          \<lparr>bc_id = new_id, bc_tenant = df_tenant d, bc_connection = df_connection d, bc_target_type = df_target_type d,
           bc_target = df_target d, bc_operation = df_operation d, bc_status = ''pending'',
           bc_risk = (if df_risk d = [] then ts_risk spec else df_risk d), bc_summary = df_summary d,
           bc_desired = df_desired d, bc_before = df_before d, bc_after = [],
           bc_expected_hash = (if df_before d = [] then [] else canonical_hash digest (df_before d)),
           bc_requested_by = df_requested_by d, bc_requested_at = now, bc_decided_by = [], bc_decided_at = None,
           bc_reason = [], bc_dual = (case df_dual d of None \<Rightarrow> ts_dual spec | Some b \<Rightarrow> b), bc_second = [],
           bc_second_at = None, bc_applied_by = [], bc_applied_at = None, bc_error_code = [], bc_error = [],
           bc_rollback_of = [], bc_plan = df_plan d, bc_depends_on = df_depends_on d, bc_url = [], bc_job = [],
           bc_attempts = 0, bc_poll_after = None, bc_deadline = None\<rparr>)"

section \<open>Decisions\<close>

datatype decide_error = Change_Not_Found | Cannot_Be_Decided | Second_Approver_Needed

text \<open>\<open>decide_change\<close> on the loaded row.\<close>

definition decide :: "string \<Rightarrow> string \<Rightarrow> string \<Rightarrow> int \<Rightarrow> managed_change \<Rightarrow> (decide_error, managed_change) result" where
  "decide subject decision reason now c =
     (let close = (\<lambda>c. c\<lparr>bc_decided_by := (if bc_decided_by c = [] then subject else bc_decided_by c),
            bc_decided_at := (case bc_decided_at c of None \<Rightarrow> Some now | Some t \<Rightarrow> Some t), bc_reason := reason\<rparr>)
      in if bc_status c \<noteq> ''pending'' \<and> bc_status c \<noteq> ''approved'' then Inl Cannot_Be_Decided
         else if decision = ''rejected'' then Inr (close (c\<lparr>bc_status := ''rejected''\<rparr>))
         else if bc_dual c then
           (if bc_decided_by c = [] then Inr (c\<lparr>bc_decided_by := subject, bc_decided_at := Some now, bc_reason := reason\<rparr>)
            else if bc_decided_by c = subject then Inl Second_Approver_Needed
            else Inr (close (c\<lparr>bc_second := subject, bc_second_at := Some now, bc_status := ''approved''\<rparr>)))
         else Inr (close (c\<lparr>bc_status := ''approved''\<rparr>)))"

definition replace_row :: "managed_change \<Rightarrow> managed_change list \<Rightarrow> managed_change list" where
  "replace_row c db = map (\<lambda>x. if bc_id x = bc_id c then c else x) db"

definition load_change :: "managed_change list \<Rightarrow> string \<Rightarrow> string \<Rightarrow> managed_change option" where
  "load_change db change_id tenant = find (\<lambda>c. bc_id c = change_id \<and> bc_tenant c = tenant) db"

definition decide_change ::
  "string \<Rightarrow> string \<Rightarrow> string \<Rightarrow> int \<Rightarrow> string \<Rightarrow> string \<Rightarrow> managed_change list \<Rightarrow> (decide_error, managed_change list) result" where
  "decide_change subject decision reason now tenant change_id db =
     (case load_change db change_id tenant of
        None \<Rightarrow> Inl Change_Not_Found
      | Some c \<Rightarrow> (case decide subject decision reason now c of Inl e \<Rightarrow> Inl e | Inr c' \<Rightarrow> Inr (replace_row c' db)))"

definition bulk_decide :: "string \<Rightarrow> string \<Rightarrow> string \<Rightarrow> int \<Rightarrow> managed_change \<Rightarrow> managed_change" where
  "bulk_decide subject decision reason now c =
     (if bc_status c \<noteq> ''pending'' then c
      else if decision = ''approved'' \<and> bc_dual c then c
      else c\<lparr>bc_status := decision, bc_decided_by := subject, bc_decided_at := Some now, bc_reason := reason\<rparr>)"

definition bulk_decision :: "string \<Rightarrow> string \<Rightarrow> string \<Rightarrow> int \<Rightarrow> string \<Rightarrow> string list \<Rightarrow> managed_change list \<Rightarrow> managed_change list" where
  "bulk_decision subject decision reason now tenant ids db =
     map (\<lambda>c. if bc_tenant c = tenant \<and> bc_id c \<in> set ids then bulk_decide subject decision reason now c else c) db"

section \<open>Applying\<close>

definition RSV_BACKUP_API :: string where "RSV_BACKUP_API = ''2024-04-01''"
definition DP_API :: string where "DP_API = ''2024-04-01''"
definition ASR_API :: string where "ASR_API = ''2024-10-01''"
definition DIAG_API :: string where "DIAG_API = ''2021-05-01-preview''"
definition POLICY_ASSIGNMENT_API :: string where "POLICY_ASSIGNMENT_API = ''2023-04-01''"

record request =
  rq_method :: string
  rq_path :: string
  rq_body :: "doc option"
  rq_api :: string

record submission =
  su_status :: int
  su_body :: "doc option"
  su_error :: string
  su_async_url :: string
  su_location_url :: string
  su_retry_after :: int

definition submission_ok :: "submission \<Rightarrow> bool" where
  "submission_ok u \<longleftrightarrow> su_error u = [] \<and> su_status u \<in> {200, 201, 202, 204}"

definition tracking_url :: "submission \<Rightarrow> string" where
  "tracking_url u = (if su_async_url u = [] then su_location_url u else su_async_url u)"

definition is_async :: "submission \<Rightarrow> bool" where
  "is_async u \<longleftrightarrow> su_status u = 202 \<or> tracking_url u \<noteq> []"

definition refused :: "int \<Rightarrow> string \<Rightarrow> submission" where
  "refused status msg = \<lparr>su_status = status, su_body = None, su_error = msg, su_async_url = [], su_location_url = [], su_retry_after = 0\<rparr>"

definition upper_char :: "char \<Rightarrow> char" where
  "upper_char c = (if 97 \<le> char_code c \<and> char_code c \<le> 122 then char_of (char_code c - 32) else c)"

definition under :: "string \<Rightarrow> string \<Rightarrow> string" where
  "under target action = rev (dropWhile (\<lambda>c. c = CHR ''/'') (rev target)) @ CHR ''/'' # action"

text \<open>
  The apply handlers: what a change asks Azure to do, or a refusal. \<open>api\<close> is the version noted with the change.
\<close>

definition request_of :: "managed_change \<Rightarrow> doc \<Rightarrow> string \<Rightarrow> submission + request" where
  "request_of c body api =
     (let t = bc_target_type c; s = bc_summary c; target = bc_target c;
          rq = (\<lambda>m p b a. Inr \<lparr>rq_method = m, rq_path = p, rq_body = b, rq_api = a\<rparr>);
          noted = (\<lambda>m. rq (map upper_char (note_in s ''arm_method'' m)) (note_in s ''arm_path'' target) (Some body) api);
          put = rq ''PUT'' target (Some body) api;
          mechanism = note_in s ''mechanism'' ''rsv_vm''
      in if t = ''vault'' then put
         else if t = ''vault_security'' then noted ''PATCH''
         else if t = ''vault_alerts'' then noted ''PUT''
         else if t = ''vault_diagnostics'' then rq ''PUT'' target (Some body) DIAG_API
         else if t = ''backup_policy'' then (if bc_operation c = ''delete'' then rq ''DELETE'' target None api else put)
         else if t = ''protection'' then
           (if bc_operation c = ''delete'' then
              (if note_in s ''stop_mode'' STOP_PROTECTION_RETAIN \<noteq> STOP_PROTECTION_RETAIN
               then Inl (refused 0 ''Only stop-protection-with-data-retained is supported.'')
               else if mechanism = ''dataprotection'' then rq ''POST'' (under target ''stopProtection'') (Some []) DP_API
               else put)
            else if bc_operation c = ''update'' \<and> note_in s ''intent'' [] = ''resume'' \<and> mechanism = ''dataprotection''
            then rq ''POST'' (under target ''resumeProtection'') (Some body) DP_API
            else put)
         else if t = ''adhoc_backup'' then
           rq ''POST'' (under target ''backup'') (Some body) (if mechanism = ''dataprotection'' then DP_API else RSV_BACKUP_API)
         else if t = ''job_cancel'' then rq ''POST'' (under target ''cancel'') None RSV_BACKUP_API
         else if t = ''policy_assignment'' then
           (if bc_operation c = ''delete'' then rq ''DELETE'' target None POLICY_ASSIGNMENT_API
            else rq ''PUT'' target (Some body) POLICY_ASSIGNMENT_API)
         else if t = ''asr_test_failover'' then rq ''POST'' (under target ''testFailover'') (Some body) ASR_API
         else if t = ''asr_cleanup'' then rq ''POST'' (under target ''testFailoverCleanup'') (Some body) ASR_API
         else Inl (refused 0 ''No apply handler for this change type.''))"

record azure =
  az_get :: "string \<Rightarrow> string \<Rightarrow> doc option \<times> int \<times> string"
  az_submit :: "request \<Rightarrow> submission"
  az_token :: bool
  az_poll :: "string \<Rightarrow> string \<times> doc \<times> string \<times> int"

record connection =
  cn_read_only :: bool

text \<open>\<open>None\<close> stands for an exception before anything is sent: a read-only connection or no token.\<close>

definition apply_change :: "(json \<Rightarrow> string) \<Rightarrow> azure \<Rightarrow> connection \<Rightarrow> managed_change \<Rightarrow> (submission \<times> doc) option" where
  "apply_change digest az cn c =
     (if cn_read_only cn then None
      else if \<not> az_token az then None
      else let api = note_in (bc_summary c) ''api_version'' RSV_BACKUP_API;
          body = as_dict (map_of (bc_desired c) ''body'');
          (live, status, error) = az_get az (bc_target c) api;
          send = (case request_of c body api of Inl u \<Rightarrow> u | Inr rq \<Rightarrow> az_submit az rq)
        in if bc_operation c = ''update'' \<and> bc_expected_hash c \<noteq> [] then
             (case live of
                Some (x # d) \<Rightarrow>
                  (if error \<noteq> [] then Some (refused (if status = 0 then 404 else status) error, [])
                   else if canonical_hash digest (concurrency_body (x # d)) \<noteq> bc_expected_hash c
                   then Some (refused 409 ''Azure state changed after this request was reviewed.'', [])
                   else Some (send, x # d))
              | _ \<Rightarrow> Some (refused (if status = 0 then 404 else status)
                  (if error = [] then ''The target no longer exists in Azure.'' else error), []))
           else if bc_operation c = ''create'' \<and> bc_target_type c \<in> {''vault'', ''backup_policy'', ''protection''} then
             (case live of
                Some (x # d) \<Rightarrow> (if bc_target_type c \<noteq> ''protection'' then Some (refused 409 ''already exists'', [])
                   else Some (send, x # d))
              | _ \<Rightarrow> Some (send, []))
           else Some (send, []))"

definition seconds :: "int \<Rightarrow> int" where "seconds n = n * 1000000"

definition POLL_DEADLINE_MINUTES :: int where "POLL_DEADLINE_MINUTES = 120"
definition MAX_POLL_ATTEMPTS :: nat where "MAX_POLL_ATTEMPTS = 240"

definition mark_submitted :: "managed_change \<Rightarrow> submission \<Rightarrow> string \<Rightarrow> int \<Rightarrow> managed_change" where
  "mark_submitted c u actor now =
     (let c1 = c\<lparr>bc_applied_by := actor, bc_applied_at := Some now\<rparr> in
      if \<not> submission_ok u then c1\<lparr>bc_status := ''failed'', bc_error_code := (if su_status u = 0 then [] else digits_of_int (su_status u)), bc_error := su_error u\<rparr>
      else if is_async u \<and> tracking_url u \<noteq> [] then
        (let job = text_in (case su_body u of None \<Rightarrow> [] | Some b \<Rightarrow> b) ''id'' in
         c1\<lparr>bc_status := ''applying'', bc_url := tracking_url u, bc_attempts := 0,
            bc_poll_after := Some (now + max (seconds 5) (if su_retry_after u = 0 then seconds 10 else su_retry_after u)),
            bc_deadline := Some (now + seconds (60 * POLL_DEADLINE_MINUTES)),
            bc_job := (if job = [] then bc_job c1 else take 1024 job)\<rparr>)
      else c1\<lparr>bc_status := ''applied'', bc_after := (case su_body u of None \<Rightarrow> [] | Some b \<Rightarrow> b),
             bc_error_code := [], bc_error := []\<rparr>)"

text \<open>One change of a bulk apply; a connection that no longer exists is \<open>None\<close>.\<close>

definition run_change ::
  "(json \<Rightarrow> string) \<Rightarrow> azure \<Rightarrow> (string \<Rightarrow> connection option) \<Rightarrow> string \<Rightarrow> int \<Rightarrow> managed_change \<Rightarrow> managed_change" where
  "run_change digest az connections actor now c =
     (case connections (bc_connection c) of
        None \<Rightarrow> c\<lparr>bc_status := ''failed'', bc_error_code := ''ConnectionMissing'',
          bc_error := ''The Azure connection for this change no longer exists.''\<rparr>
      | Some cn \<Rightarrow>
          (case apply_change digest az cn c of
             None \<Rightarrow> c\<lparr>bc_status := ''failed'', bc_error_code := ''PreflightFailed'', bc_error := ''not applied''\<rparr>
           | Some (u, before) \<Rightarrow>
               mark_submitted (if before = [] then c else c\<lparr>bc_before := before\<rparr>) u actor now))"

section \<open>Order\<close>

definition priority :: "string \<Rightarrow> nat" where
  "priority t = (case map_of [(''vault'', 0), (''backup_policy'', 1), (''vault_security'', 2), (''vault_alerts'', 2),
      (''vault_diagnostics'', 2), (''protection'', 3), (''policy_assignment'', 3), (''adhoc_backup'', 4),
      (''job_cancel'', 4), (''asr_test_failover'', 5), (''asr_cleanup'', 6)] t of None \<Rightarrow> 9 | Some n \<Rightarrow> n)"

definition row_with :: "managed_change list \<Rightarrow> string \<Rightarrow> managed_change" where
  "row_with rows i = hd (filter (\<lambda>c. bc_id c = i) rows)"

definition order_key :: "managed_change list \<Rightarrow> string \<Rightarrow> nat \<times> int \<times> string" where
  "order_key rows i = (let c = row_with rows i in (priority (bc_target_type c), bc_requested_at c, bc_id c))"

text \<open>The prerequisites of a row that are in the batch, and the rows that wait for one, with repetitions.\<close>

definition prerequisites :: "managed_change list \<Rightarrow> managed_change \<Rightarrow> string list" where
  "prerequisites rows c = filter (\<lambda>d. d \<in> set (map bc_id rows)) (bc_depends_on c)"

definition dependents :: "managed_change list \<Rightarrow> string \<Rightarrow> string list" where
  "dependents rows i = concat (map (\<lambda>c. map (\<lambda>_. bc_id c) (filter (\<lambda>d. d = i) (prerequisites rows c))) rows)"

definition release ::
  "(string \<Rightarrow> nat \<times> int \<times> string) \<Rightarrow> string list \<Rightarrow> (string \<Rightarrow> int) \<times> string list \<Rightarrow> (string \<Rightarrow> int) \<times> string list" where
  "release key waiting st = foldl (\<lambda>(indegree, ready) x.
     let indegree1 = indegree(x := indegree x - 1)
     in (indegree1, if indegree1 x = 0 then sort_key key (ready @ [x]) else ready)) st waiting"

text \<open>The loop; each round puts one row in its place, so as many rounds as there are rows are enough.\<close>

fun order_loop :: "nat \<Rightarrow> managed_change list \<Rightarrow> (string \<Rightarrow> int) \<Rightarrow> string list \<Rightarrow> string list \<Rightarrow> string list" where
  "order_loop 0 rows indegree ready ordered = ordered"
| "order_loop (Suc n) rows indegree [] ordered = ordered"
| "order_loop (Suc n) rows indegree (x # ready) ordered =
     (let (indegree1, ready1) = release (order_key rows) (dependents rows x) (indegree, ready)
      in order_loop n rows indegree1 ready1 (ordered @ [x]))"

definition order_changes :: "managed_change list \<Rightarrow> managed_change list" where
  "order_changes rows =
     (let indegree = (\<lambda>i. int (length (prerequisites rows (row_with rows i))));
          ready = sort_key (order_key rows) (filter (\<lambda>i. indegree i = 0) (map bc_id rows));
          ordered = order_loop (length rows) rows indegree ready []
      in map (row_with rows) ordered
         @ (if length ordered = length rows then [] else filter (\<lambda>c. bc_id c \<notin> set ordered) rows))"

text \<open>The order in which a bulk apply starts its changes: those with prerequisites first, one after the other.\<close>

definition start_order :: "managed_change list \<Rightarrow> managed_change list" where
  "start_order approved =
     (let ordered = order_changes approved
      in filter (\<lambda>c. bc_depends_on c \<noteq> []) ordered @ filter (\<lambda>c. bc_depends_on c = []) ordered)"

definition bulk_apply ::
  "(json \<Rightarrow> string) \<Rightarrow> azure \<Rightarrow> (string \<Rightarrow> connection option) \<Rightarrow> string \<Rightarrow> int \<Rightarrow> string \<Rightarrow> string list
   \<Rightarrow> managed_change list \<Rightarrow> managed_change list option" where
  "bulk_apply digest az connections actor now tenant ids db =
     (let approved = filter (\<lambda>c. bc_tenant c = tenant \<and> bc_id c \<in> set ids \<and> bc_status c = ''approved'') db in
      if approved = [] then None
      else Some (foldl (\<lambda>db c. replace_row (run_change digest az connections actor now c) db) db (start_order approved)))"

section \<open>Polling\<close>

definition mark_polled :: "managed_change \<Rightarrow> string \<Rightarrow> doc \<Rightarrow> string \<Rightarrow> int \<Rightarrow> int \<Rightarrow> managed_change" where
  "mark_polled c state body error retry_after now =
     (let c1 = c\<lparr>bc_attempts := bc_attempts c + 1\<rparr> in
      if state = ''succeeded'' then
        c1\<lparr>bc_status := ''applied'', bc_after := body, bc_error_code := [], bc_error := [], bc_poll_after := None\<rparr>
      else if state = ''failed'' then
        c1\<lparr>bc_status := ''failed'', bc_error_code := ''AzureOperationFailed'',
           bc_error := (if error = [] then ''The Azure operation failed.'' else error), bc_poll_after := None\<rparr>
      else c1\<lparr>bc_poll_after := Some (now + max (seconds 5) (if retry_after = 0 then seconds 15 else retry_after))\<rparr>)"

definition mark_timed_out :: "managed_change \<Rightarrow> managed_change" where
  "mark_timed_out c = c\<lparr>bc_status := ''failed'', bc_error_code := ''OperationTimeout'',
     bc_error := ''The Azure operation did not complete in time.'', bc_poll_after := None\<rparr>"

definition poll_one :: "azure \<Rightarrow> (string \<Rightarrow> connection option) \<Rightarrow> int \<Rightarrow> managed_change \<Rightarrow> managed_change" where
  "poll_one az connections now c =
     (if bc_url c = [] then mark_polled c ''succeeded'' [] [] 0 now
      else case connections (bc_connection c) of
        None \<Rightarrow> c\<lparr>bc_status := ''failed'', bc_error_code := ''ConnectionMissing'',
          bc_error := ''The Azure connection for this change no longer exists.'', bc_poll_after := None\<rparr>
      | Some cn \<Rightarrow>
          (if \<not> az_token az then mark_polled c ''running'' [] ''no token'' (seconds 30) now
           else let (state, body, error, retry_after) = az_poll az (bc_url c) in mark_polled c state body error retry_after now))"

definition BATCH_SIZE :: nat where "BATCH_SIZE = 40"

definition poll_key :: "managed_change \<Rightarrow> nat \<times> int" where
  "poll_key c = (case bc_poll_after c of None \<Rightarrow> (0, 0) | Some t \<Rightarrow> (1, t))"

definition due :: "int \<Rightarrow> managed_change \<Rightarrow> bool" where
  "due now c \<longleftrightarrow> (case bc_poll_after c of None \<Rightarrow> True | Some t \<Rightarrow> t \<le> now)"

definition out_of_time :: "int \<Rightarrow> managed_change \<Rightarrow> bool" where
  "out_of_time now c \<longleftrightarrow> (case bc_deadline c of None \<Rightarrow> False | Some t \<Rightarrow> t \<le> now) \<or> MAX_POLL_ATTEMPTS \<le> bc_attempts c"

definition due_batch :: "int \<Rightarrow> managed_change list \<Rightarrow> managed_change list" where
  "due_batch now db = filter (due now) (take BATCH_SIZE (sort_key poll_key (filter (\<lambda>c. bc_status c = ''applying'') db)))"

definition advance :: "azure \<Rightarrow> (string \<Rightarrow> connection option) \<Rightarrow> int \<Rightarrow> managed_change \<Rightarrow> managed_change" where
  "advance az connections now c = (if out_of_time now c then mark_timed_out c else poll_one az connections now c)"

definition tick :: "azure \<Rightarrow> (string \<Rightarrow> connection option) \<Rightarrow> int \<Rightarrow> managed_change list \<Rightarrow> managed_change list" where
  "tick az connections now db =
     foldl (\<lambda>db c. replace_row (advance az connections now c) db) db (due_batch now db)"

section \<open>Rollback\<close>

definition stop_protection_body :: "summary \<Rightarrow> doc \<Rightarrow> doc" where
  "stop_protection_body s before =
     (if note_in s ''mechanism'' [] = ''dataprotection'' then []
      else let props = as_dict (map_of before ''properties'');
          kind = text_in props ''protectedItemType''; source = text_in props ''sourceResourceId''
        in [(''properties'', J_Obj
             [(''protectedItemType'', J_Text (if kind = [] then ''Microsoft.Compute/virtualMachines'' else kind)),
              (''sourceResourceId'', J_Text (if source = [] then note_in s ''resource_id'' [] else source)),
              (''protectionState'', J_Text ''ProtectionStopped'')])])"

definition restore_body :: "string \<Rightarrow> doc \<Rightarrow> summary \<Rightarrow> doc" where
  "restore_body target_type before s =
     (let props = as_dict (map_of before ''properties''); key = note_in s ''setting'' [] in
      if target_type = ''backup_policy'' then [(''properties'', J_Obj props)]
      else if key = [] then [(''properties'', J_Obj props)]
      else case map_of props key of
        None \<Rightarrow> [(''properties'', J_Obj props)]
      | Some v \<Rightarrow> [(''properties'', J_Obj [(key, v)])])"

definition with_note :: "string \<Rightarrow> string \<Rightarrow> summary \<Rightarrow> summary" where
  "with_note k v s = filter (\<lambda>kv. fst kv \<noteq> k) s @ [(k, v)]"

text \<open>Target type, operation, summary and body of the inverse change.\<close>

definition rollback_spec :: "managed_change \<Rightarrow> (string \<times> string \<times> summary \<times> doc) option" where
  "rollback_spec c =
     (let before = bc_before c; s = with_note ''intent'' ''rollback'' (bc_summary c) in
      if bc_target_type c = ''protection'' \<and> bc_operation c = ''create'' then
        Some (''protection'', ''delete'', with_note ''stop_mode'' STOP_PROTECTION_RETAIN s, stop_protection_body (bc_summary c) before)
      else if bc_target_type c \<in> {''vault_security'', ''vault_alerts'', ''backup_policy''} \<and> bc_operation c = ''update'' \<and> before \<noteq> []
      then Some (bc_target_type c, ''update'', s, restore_body (bc_target_type c) before (bc_summary c))
      else if bc_target_type c = ''policy_assignment'' \<and> bc_operation c = ''create''
      then Some (''policy_assignment'', ''delete'', s, [])
      else None)"

definition build_rollback :: "(json \<Rightarrow> string) \<Rightarrow> string \<Rightarrow> int \<Rightarrow> string \<Rightarrow> managed_change \<Rightarrow> (refusal, managed_change) result" where
  "build_rollback digest new_id now requested_by c =
     (case rollback_spec c of
        None \<Rightarrow> Inl No_Rollback
      | Some (target_type, operation, s, body) \<Rightarrow>
          (case build_change digest new_id now
              \<lparr>df_tenant = bc_tenant c, df_connection = bc_connection c, df_target_type = target_type, df_target = bc_target c,
               df_operation = operation, df_requested_by = requested_by, df_desired = [(''body'', J_Obj body)],
               df_before = bc_after c, df_summary = with_note ''rollback_of'' (bc_id c) s, df_risk = ''medium'', df_plan = [],
               df_depends_on = [], df_dual = None\<rparr> of
             Inl e \<Rightarrow> Inl e
           | Inr row \<Rightarrow> Inr (row\<lparr>bc_rollback_of := bc_id c\<rparr>)))"

definition rollback_change ::
  "(json \<Rightarrow> string) \<Rightarrow> string \<Rightarrow> int \<Rightarrow> string \<Rightarrow> string \<Rightarrow> string \<Rightarrow> managed_change list \<Rightarrow> managed_change list option" where
  "rollback_change digest new_id now subject tenant change_id db =
     (case load_change db change_id tenant of
        None \<Rightarrow> None
      | Some c \<Rightarrow>
          (if bc_status c \<noteq> ''applied'' then None
           else case build_rollback digest new_id now subject c of Inl _ \<Rightarrow> None | Inr row \<Rightarrow> Some (db @ [row])))"

section \<open>The ledger as a transition system\<close>

text \<open>
  The operations that write the ledger. Ids of new rows are fresh; the subject of a signed-in
  principal is not empty, and a bulk decision is one of the two words its request allows.
\<close>

inductive step :: "(json \<Rightarrow> string) \<Rightarrow> managed_change list \<Rightarrow> managed_change list \<Rightarrow> bool" for digest where
  drafted: "build_change digest new_id now d = Inr c \<Longrightarrow> new_id \<notin> set (map bc_id db) \<Longrightarrow> step digest db (db @ [c])"
| decided: "subject \<noteq> [] \<Longrightarrow> decide_change subject decision reason now tenant i db = Inr db' \<Longrightarrow> step digest db db'"
| decided_in_bulk: "subject \<noteq> [] \<Longrightarrow> decision \<in> {''approved'', ''rejected''} \<Longrightarrow>
    step digest db (bulk_decision subject decision reason now tenant ids db)"
| applied: "bulk_apply digest az connections subject now tenant ids db = Some db' \<Longrightarrow> step digest db db'"
| polled: "step digest db (tick az connections now db)"
| rolled_back: "rollback_change digest new_id now subject tenant i db = Some db' \<Longrightarrow> new_id \<notin> set (map bc_id db) \<Longrightarrow> step digest db db'"

inductive reachable :: "(json \<Rightarrow> string) \<Rightarrow> managed_change list \<Rightarrow> bool" for digest where
  empty_ledger: "reachable digest []"
| after_step: "reachable digest db \<Longrightarrow> step digest db db' \<Longrightarrow> reachable digest db'"

end
