(* ===== verification/Backup_Order.thy ===== *)
theory Backup_Order
  imports Backup_Ledger "HOL-Library.Multiset"
begin

text \<open>
  The dependency order of a batch of managed changes: the loop puts every row after the rows it waits for,
  leaves none out, and needs no more rounds than there are rows.
\<close>

section \<open>Releasing the dependents of a row\<close>

lemma release_spec:
  assumes "release key waiting (indegree, ready) = (indegree', ready')"
    and "\<forall>x\<in>set waiting. int (count_list waiting x) \<le> indegree x"
  shows "indegree' x = indegree x - int (count_list waiting x)"
    and "mset ready' = mset ready + mset_set {x \<in> set waiting. indegree x = int (count_list waiting x)}"
proof -
  have "indegree' x = indegree x - int (count_list waiting x) \<and>
      mset ready' = mset ready + mset_set {x \<in> set waiting. indegree x = int (count_list waiting x)}"
    using assms
  proof (induction waiting arbitrary: indegree ready)
    case Nil
    then show ?case by (simp add: release_def)
  next
    case (Cons d waiting)
    define ind1 where "ind1 = indegree(d := indegree d - 1)"
    define ready1 where "ready1 = (if ind1 d = 0 then sort_key key (ready @ [d]) else ready)"
    have r: "release key waiting (ind1, ready1) = (indegree', ready')"
      using Cons.prems(1) by (simp add: release_def ind1_def ready1_def Let_def)
    have le: "int (count_list waiting d) + 1 \<le> indegree d" using Cons.prems(2) by simp
    have pre: "\<forall>x\<in>set waiting. int (count_list waiting x) \<le> ind1 x"
    proof
      fix x assume "x \<in> set waiting"
      then have "int (count_list (d # waiting) x) \<le> indegree x" using Cons.prems(2) by simp
      then show "int (count_list waiting x) \<le> ind1 x" using le by (cases "x = d") (auto simp: ind1_def)
    qed
    note IH = Cons.IH [OF r pre]
    have e: "{x \<in> set (d # waiting). indegree x = int (count_list (d # waiting) x)} =
        {x \<in> set waiting. ind1 x = int (count_list waiting x)} \<union> (if indegree d = 1 then {d} else {})"
      using le by (auto simp: ind1_def count_list_0_iff split: if_splits)
    have n: "d \<notin> set waiting" if "indegree d = 1" using le that by (simp add: count_list_0_iff)
    have "mset ready1 = mset ready + (if indegree d = 1 then {#d#} else {#})"
      by (simp add: ready1_def ind1_def)
    then show ?case
      using IH n unfolding e by (auto simp: ind1_def)
  qed
  then show "indegree' x = indegree x - int (count_list waiting x)"
    "mset ready' = mset ready + mset_set {x \<in> set waiting. indegree x = int (count_list waiting x)}" by auto
qed

section \<open>Rows by id\<close>

lemma row_with_id:
  assumes "distinct (map bc_id rows)" "c \<in> set rows"
  shows "row_with rows (bc_id c) = c"
proof -
  obtain ys zs where r: "rows = ys @ c # zs" using assms(2) by (auto dest: split_list)
  have "bc_id x \<noteq> bc_id c" if "x \<in> set ys" for x
    using assms(1) imageI [OF that, of bc_id] unfolding r by auto
  then have "filter (\<lambda>x. bc_id x = bc_id c) ys = []" by (simp add: filter_empty_conv)
  then show ?thesis by (simp add: row_with_def r)
qed

abbreviation ids_of :: "managed_change list \<Rightarrow> string list" where
  "ids_of rows \<equiv> map bc_id rows"

abbreviation deps :: "managed_change list \<Rightarrow> string \<Rightarrow> string list" where
  "deps rows i \<equiv> prerequisites rows (row_with rows i)"

lemma deps_ids: "d \<in> set (deps rows i) \<Longrightarrow> d \<in> set (ids_of rows)"
  by (simp add: prerequisites_def)

lemma count_dependents:
  assumes d: "distinct (ids_of rows)"
  shows "x \<in> set (ids_of rows) \<Longrightarrow> count_list (dependents rows i) x = count_list (deps rows x) i"
    and "set (dependents rows i) \<subseteq> set (ids_of rows)"
proof -
  have "count_list (concat (map (\<lambda>c. map (\<lambda>_. bc_id c) (f c)) cs)) (bc_id c) = length (f c)"
    if "c \<in> set cs" "distinct (ids_of cs)" for f :: "managed_change \<Rightarrow> string list" and c cs
    using that
  proof (induction cs)
    case (Cons a cs)
    have none: "count_list (map (\<lambda>_. y) ys) z = (if y = z then length ys else 0)" for y z :: string and ys :: "string list"
      by (induction ys) auto
    show ?case
    proof (cases "a = c")
      case True
      have "bc_id c \<notin> set (concat (map (\<lambda>c. map (\<lambda>_. bc_id c) (f c)) cs))"
        using Cons.prems(2) True by auto
      then show ?thesis using True by (simp add: none count_list_0_iff)
    next
      case False
      then have "c \<in> set cs" "bc_id a \<noteq> bc_id c" using Cons.prems by auto
      then show ?thesis using Cons by (simp add: none)
    qed
  qed simp
  note count = this
  show "count_list (dependents rows i) x = count_list (deps rows x) i" if "x \<in> set (ids_of rows)"
  proof -
    from that obtain c where c: "c \<in> set rows" "x = bc_id c" by auto
    have "count_list (dependents rows i) x = length (filter (\<lambda>d. d = i) (prerequisites rows c))"
      unfolding dependents_def c(2) by (rule count [OF c(1) d])
    also have "\<dots> = count_list (prerequisites rows c) i"
      by (induction "prerequisites rows c") (auto simp: count_list_eq_length_filter intro!: arg_cong [where f = length] filter_cong)
    finally show ?thesis using row_with_id [OF d c(1)] c(2) by simp
  qed
  show "set (dependents rows i) \<subseteq> set (ids_of rows)" by (auto simp: dependents_def)
qed

section \<open>The loop\<close>

definition open_deps :: "managed_change list \<Rightarrow> string list \<Rightarrow> string \<Rightarrow> nat" where
  "open_deps rows ordered x = length (filter (\<lambda>d. d \<notin> set ordered) (deps rows x))"

definition loop_ok :: "managed_change list \<Rightarrow> (string \<Rightarrow> int) \<Rightarrow> string list \<Rightarrow> string list \<Rightarrow> bool" where
  "loop_ok rows indegree ready ordered \<longleftrightarrow>
     distinct (ready @ ordered) \<and> set (ready @ ordered) \<subseteq> set (ids_of rows) \<and>
     (\<forall>x\<in>set (ids_of rows). indegree x = int (open_deps rows ordered x) \<and>
        (indegree x = 0 \<longleftrightarrow> x \<in> set (ready @ ordered))) \<and>
     (\<forall>k<length ordered. set (deps rows (ordered ! k)) \<subseteq> set (take k ordered))"

lemma open_deps_snoc:
  "r \<notin> set ordered \<Longrightarrow> open_deps rows ordered x = open_deps rows (ordered @ [r]) x + count_list (deps rows x) r"
proof -
  assume r: "r \<notin> set ordered"
  have "length (filter (\<lambda>d. d \<notin> set ordered) ds) = length (filter (\<lambda>d. d \<notin> set (ordered @ [r])) ds) + count_list ds r" for ds
    using r by (induction ds) auto
  then show ?thesis by (simp add: open_deps_def)
qed

lemma loop_step:
  assumes d: "distinct (ids_of rows)" and ok: "loop_ok rows indegree (r # ready) ordered"
    and rel: "release (order_key rows) (dependents rows r) (indegree, ready) = (indegree', ready')"
  shows "loop_ok rows indegree' ready' (ordered @ [r])"
proof -
  have r: "r \<notin> set ordered" "r \<notin> set ready" "r \<in> set (ids_of rows)" "indegree r = 0"
    and dist: "distinct ready" "distinct ordered" "set ready \<inter> set ordered = {}"
    and sub: "set ready \<subseteq> set (ids_of rows)" "set ordered \<subseteq> set (ids_of rows)"
    and ind: "\<And>x. x \<in> set (ids_of rows) \<Longrightarrow> indegree x = int (open_deps rows ordered x)"
    and zero: "\<And>x. x \<in> set (ids_of rows) \<Longrightarrow> indegree x = 0 \<longleftrightarrow> x \<in> insert r (set ready \<union> set ordered)"
    and topo: "\<And>k. k < length ordered \<Longrightarrow> set (deps rows (ordered ! k)) \<subseteq> set (take k ordered)"
    using ok unfolding loop_ok_def by auto
  have count: "count_list (dependents rows r) x = count_list (deps rows x) r" if "x \<in> set (ids_of rows)" for x
    by (rule count_dependents(1) [OF d that])
  have waiting: "set (dependents rows r) \<subseteq> set (ids_of rows)" by (rule count_dependents(2) [OF d])
  have pre: "\<forall>x\<in>set (dependents rows r). int (count_list (dependents rows r) x) \<le> indegree x"
  proof
    fix x assume "x \<in> set (dependents rows r)"
    then have x: "x \<in> set (ids_of rows)" using waiting by blast
    show "int (count_list (dependents rows r) x) \<le> indegree x"
      unfolding ind [OF x] count [OF x] open_deps_snoc [OF r(1), of rows x] by simp
  qed
  note spec = release_spec [OF rel pre]
  define new where "new = {x \<in> set (dependents rows r). indegree x = int (count_list (dependents rows r) x)}"
  have ind': "indegree' x = int (open_deps rows (ordered @ [r]) x)" if x: "x \<in> set (ids_of rows)" for x
    using spec(1) [of x] ind [OF x] count [OF x] open_deps_snoc [OF r(1), of rows x] by simp
  have set': "set ready' = set ready \<union> new"
    using arg_cong [OF spec(2), of set_mset] unfolding new_def by simp
  have pos: "0 < indegree x" if "x \<in> new" for x
  proof -
    have "count_list (dependents rows r) x \<noteq> 0" using that unfolding new_def by (simp add: count_list_0_iff)
    then show ?thesis using that unfolding new_def by simp
  qed
  have fresh: "x \<notin> insert r (set ready \<union> set ordered)" if "x \<in> new" for x
    using pos [OF that] zero [of x] that waiting unfolding new_def by force
  have "finite new" unfolding new_def by simp
  then obtain xs where xs: "set xs = new" "distinct xs" using finite_distinct_list by blast
  have "mset ready' = mset (ready @ xs)"
    using spec(2) mset_set_set [OF xs(2)] unfolding new_def [symmetric] xs(1) by simp
  moreover have "distinct (ready @ xs)" using dist(1) xs fresh by auto
  ultimately have d': "distinct ready'" by (metis mset_eq_imp_distinct_iff)
  have z: "indegree' x = 0 \<longleftrightarrow> x \<in> set ready' \<union> set (ordered @ [r])" if x: "x \<in> set (ids_of rows)" for x
  proof (cases "indegree x = 0")
    case True
    then have "indegree' x = 0" using spec(1) [of x] ind' [OF x] by simp
    then show ?thesis using zero [OF x] True unfolding set' by auto
  next
    case False
    then have "x \<notin> insert r (set ready \<union> set ordered)" using zero [OF x] by blast
    moreover have "indegree' x = 0 \<longleftrightarrow> x \<in> new"
      using spec(1) [of x] False unfolding new_def by (auto simp: count_list_0_iff)
    ultimately show ?thesis unfolding set' by auto
  qed
  have top: "set (deps rows r) \<subseteq> set ordered"
    using ind [OF r(3)] r(4) by (auto simp: open_deps_def filter_empty_conv)
  have "set (deps rows ((ordered @ [r]) ! k)) \<subseteq> set (take k (ordered @ [r]))" if "k < length (ordered @ [r])" for k
    using that topo [of k] top by (cases "k < length ordered") (auto simp: nth_append less_Suc_eq)
  moreover have "set ready' \<inter> set (ordered @ [r]) = {}" using dist(3) r(2) fresh unfolding set' by auto
  moreover have "set ready' \<subseteq> set (ids_of rows)" using sub waiting unfolding set' new_def by auto
  ultimately show ?thesis
    unfolding loop_ok_def using d' dist(2) r sub ind' z by auto
qed

lemma loop_done:
  assumes d: "distinct (ids_of rows)" and "loop_ok rows indegree ready ordered" "length ordered + n = length rows"
  shows "\<exists>indegree'. loop_ok rows indegree' [] (order_loop n rows indegree ready ordered)"
  using assms(2,3)
proof (induction n arbitrary: indegree ready ordered)
  case 0
  have "distinct (ready @ ordered)" "set (ready @ ordered) \<subseteq> set (ids_of rows)"
    using 0 by (simp_all add: loop_ok_def)
  then have "length (ready @ ordered) \<le> length rows"
    using d by (metis card_mono distinct_card finite_set length_map)
  then have "ready = []" using 0 by simp
  then show ?case using 0 by auto
next
  case (Suc n)
  show ?case
  proof (cases ready)
    case Nil
    then show ?thesis using Suc.prems(1) by auto
  next
    case (Cons x rest)
    obtain ind' ready' where rel: "release (order_key rows) (dependents rows x) (indegree, rest) = (ind', ready')"
      by (cases "release (order_key rows) (dependents rows x) (indegree, rest)")
    have "loop_ok rows ind' ready' (ordered @ [x])"
      by (rule loop_step [OF d Suc.prems(1) [unfolded Cons] rel])
    then show ?thesis using Suc.IH Suc.prems(2) rel Cons by simp
  qed
qed

lemma loop_start:
  assumes "distinct (ids_of rows)"
  shows "loop_ok rows (\<lambda>i. int (length (deps rows i)))
    (sort_key (order_key rows) (filter (\<lambda>i. int (length (deps rows i)) = 0) (ids_of rows))) []"
  using assms by (auto simp: loop_ok_def open_deps_def)

definition final_order :: "managed_change list \<Rightarrow> string list" where
  "final_order rows = order_loop (length rows) rows (\<lambda>i. int (length (deps rows i)))
     (sort_key (order_key rows) (filter (\<lambda>i. int (length (deps rows i)) = 0) (ids_of rows))) []"

lemma final_order:
  assumes "distinct (ids_of rows)"
  shows "distinct (final_order rows)" "set (final_order rows) \<subseteq> set (ids_of rows)"
    "k < length (final_order rows) \<Longrightarrow> set (deps rows (final_order rows ! k)) \<subseteq> set (take k (final_order rows))"
    "x \<in> set (ids_of rows) \<Longrightarrow> x \<notin> set (final_order rows) \<Longrightarrow> \<exists>d\<in>set (deps rows x). d \<notin> set (final_order rows)"
proof -
  obtain indegree where ok: "loop_ok rows indegree [] (final_order rows)"
    using loop_done [OF assms loop_start [OF assms], of "length rows"] unfolding final_order_def by auto
  then show "distinct (final_order rows)" "set (final_order rows) \<subseteq> set (ids_of rows)"
    "k < length (final_order rows) \<Longrightarrow> set (deps rows (final_order rows ! k)) \<subseteq> set (take k (final_order rows))"
    by (auto simp: loop_ok_def)
  assume x: "x \<in> set (ids_of rows)" "x \<notin> set (final_order rows)"
  have "indegree x = int (open_deps rows (final_order rows) x) \<and> (indegree x = 0 \<longleftrightarrow> x \<in> set ([] @ final_order rows))"
    using ok x(1) unfolding loop_ok_def by blast
  then have "open_deps rows (final_order rows) x \<noteq> 0" using x(2) by simp
  then show "\<exists>d\<in>set (deps rows x). d \<notin> set (final_order rows)"
    by (auto simp: open_deps_def filter_empty_conv)
qed

lemma order_changes_alt:
  "order_changes rows = map (row_with rows) (final_order rows)
     @ (if length (final_order rows) = length rows then [] else filter (\<lambda>c. bc_id c \<notin> set (final_order rows)) rows)"
  by (simp add: order_changes_def final_order_def Let_def)

section \<open>The order of a batch\<close>

lemma order_changes_perm:
  assumes d: "distinct (ids_of rows)"
  shows "mset (order_changes rows) = mset rows"
proof -
  let ?f = "final_order rows"
  note f = final_order [OF d]
  have rows: "distinct rows" using d by (simp add: distinct_map)
  have same: "bc_id (row_with rows i) = i \<and> row_with rows i \<in> set rows" if "i \<in> set (ids_of rows)" for i
    using that row_with_id [OF d] by auto
  have ids: "map bc_id (map (row_with rows) ?f) = ?f"
    using f(2) same by (auto intro!: map_idI)
  have dm: "distinct (map (row_with rows) ?f)" using f(1) ids by (metis distinct_map)
  have sm: "set (map (row_with rows) ?f) = {c \<in> set rows. bc_id c \<in> set ?f}"
  proof
    show "set (map (row_with rows) ?f) \<subseteq> {c \<in> set rows. bc_id c \<in> set ?f}" using f(2) same by auto
    show "{c \<in> set rows. bc_id c \<in> set ?f} \<subseteq> set (map (row_with rows) ?f)"
    proof
      fix c assume "c \<in> {c \<in> set rows. bc_id c \<in> set ?f}"
      then have "c = row_with rows (bc_id c)" "bc_id c \<in> set ?f" using row_with_id [OF d] by auto
      then show "c \<in> set (map (row_with rows) ?f)" by auto
    qed
  qed
  show ?thesis
  proof (cases "length ?f = length rows")
    case True
    then have "set ?f = set (ids_of rows)"
      using f(1,2) d by (metis card_subset_eq distinct_card finite_set length_map)
    then have s: "set (map (row_with rows) ?f) = set rows" using sm by auto
    have "order_changes rows = map (row_with rows) ?f" unfolding order_changes_alt using True by simp
    then show ?thesis using set_eq_iff_mset_eq_distinct [OF dm rows] s by metis
  next
    case False
    have "distinct (order_changes rows)" "set (order_changes rows) = set rows"
      unfolding order_changes_alt using False dm sm rows by auto
    then show ?thesis using rows by (simp add: set_eq_iff_mset_eq_distinct [symmetric])
  qed
qed

lemma acyclic_order:
  fixes rank :: "string \<Rightarrow> nat"
  assumes d: "distinct (ids_of rows)"
    and rank: "\<And>x p. x \<in> set (ids_of rows) \<Longrightarrow> p \<in> set (deps rows x) \<Longrightarrow> rank p < rank x"
  shows "set (final_order rows) = set (ids_of rows)" "map bc_id (order_changes rows) = final_order rows"
proof -
  have "x \<in> set (final_order rows)" if "x \<in> set (ids_of rows)" for x
    using that
  proof (induction "rank x" arbitrary: x rule: less_induct)
    case less
    show ?case
    proof (rule ccontr)
      assume "x \<notin> set (final_order rows)"
      then obtain p where p: "p \<in> set (deps rows x)" "p \<notin> set (final_order rows)"
        using final_order(4) [OF d less.prems] by blast
      then show False using less.hyps rank [OF less.prems p(1)] deps_ids by blast
    qed
  qed
  then show e: "set (final_order rows) = set (ids_of rows)" using final_order(2) [OF d] by blast
  then have "length (final_order rows) = length rows"
    using final_order(1) [OF d] d by (metis distinct_card length_map)
  moreover have "map bc_id (map (row_with rows) (final_order rows)) = final_order rows"
    using e row_with_id [OF d] by (auto intro!: map_idI)
  ultimately show "map bc_id (order_changes rows) = final_order rows" by (simp add: order_changes_alt)
qed

text \<open>The loop with a given number of rounds, from the rows without prerequisites.\<close>

definition rounds :: "nat \<Rightarrow> managed_change list \<Rightarrow> string list" where
  "rounds n rows = order_loop n rows (\<lambda>i. int (length (deps rows i)))
     (sort_key (order_key rows) (filter (\<lambda>i. int (length (deps rows i)) = 0) (ids_of rows))) []"

lemma more_rounds:
  assumes d: "distinct (ids_of rows)" and "loop_ok rows indegree ready ordered" "length ordered + n = length rows"
  shows "order_loop (n + m) rows indegree ready ordered = order_loop n rows indegree ready ordered"
  using assms(2,3)
proof (induction n arbitrary: indegree ready ordered)
  case 0
  have "distinct (ready @ ordered)" "set (ready @ ordered) \<subseteq> set (ids_of rows)"
    using 0 by (simp_all add: loop_ok_def)
  then have "length (ready @ ordered) \<le> length rows"
    using d by (metis card_mono distinct_card finite_set length_map)
  then have "ready = []" using 0 by simp
  then show ?case by (cases m) simp_all
next
  case (Suc n)
  show ?case
  proof (cases ready)
    case (Cons x rest)
    obtain ind' ready' where rel: "release (order_key rows) (dependents rows x) (indegree, rest) = (ind', ready')"
      by (cases "release (order_key rows) (dependents rows x) (indegree, rest)")
    have "loop_ok rows ind' ready' (ordered @ [x])"
      by (rule loop_step [OF d Suc.prems(1) [unfolded Cons] rel])
    then show ?thesis using Suc.IH Suc.prems(2) rel Cons by simp
  qed simp
qed

lemma order_split:
  assumes d: "distinct (ids_of rows)"
  obtains waiting where
    "order_changes rows = map (row_with rows) (final_order rows) @ waiting" "ids_of (map (row_with rows) (final_order rows)) = final_order rows"
    "subseq waiting rows" "\<And>c. c \<in> set waiting \<Longrightarrow> \<exists>p\<in>set (prerequisites rows c). p \<in> set (ids_of waiting)"
proof -
  let ?f = "final_order rows" and ?w = "filter (\<lambda>c. bc_id c \<notin> set (final_order rows)) rows"
  note f = final_order [OF d]
  have empty: "?w = []" if "length ?f = length rows"
  proof -
    have "set ?f = set (ids_of rows)"
      using that f(1,2) d by (metis card_subset_eq distinct_card finite_set length_map)
    then show ?thesis by (simp add: filter_empty_conv)
  qed
  have "\<exists>p\<in>set (prerequisites rows c). p \<in> set (ids_of ?w)" if c: "c \<in> set ?w" for c
  proof -
    have m: "c \<in> set rows" "bc_id c \<notin> set ?f" using c by simp_all
    then obtain p where "p \<in> set (prerequisites rows c)" "p \<notin> set ?f"
      using f(4) [of "bc_id c"] row_with_id [OF d] by auto
    then show ?thesis by (auto simp: prerequisites_def intro!: bexI [of _ p])
  qed
  moreover have "ids_of (map (row_with rows) ?f) = ?f"
  proof -
    have "bc_id (row_with rows x) = x" if "x \<in> set ?f" for x
      using f(2) that row_with_id [OF d] by auto
    then show ?thesis by (simp add: map_idI)
  qed
  moreover have "order_changes rows = map (row_with rows) ?f @ ?w"
    using empty by (simp add: order_changes_alt)
  ultimately show thesis by (intro that [of ?w]) simp_all
qed

lemma row_prerequisites:
  assumes "distinct (ids_of rows)" "c \<in> set rows"
  shows "deps rows (bc_id c) = prerequisites rows c"
  using row_with_id [OF assms] by simp

text \<open>The prerequisites of every row of \<open>cs\<close> that are in the batch stand before it.\<close>

definition in_order :: "managed_change list \<Rightarrow> managed_change list \<Rightarrow> bool" where
  "in_order rows cs \<longleftrightarrow> (\<forall>k<length cs. set (bc_depends_on (cs ! k)) \<inter> set (ids_of rows) \<subseteq> set (ids_of (take k cs)))"

definition waits_for :: "managed_change list \<Rightarrow> (string \<times> string) set" where
  "waits_for rows = {(p, bc_id c) | p c. c \<in> set rows \<and> p \<in> set (bc_depends_on c) \<inter> set (ids_of rows)}"

lemma waiting_is_cyclic:
  assumes "set waiting \<subseteq> set rows" "\<And>c. c \<in> set waiting \<Longrightarrow> \<exists>p\<in>set (prerequisites rows c). p \<in> set (ids_of waiting)"
    "acyclic (waits_for rows)"
  shows "waiting = []"
proof (rule ccontr)
  assume some: "waiting \<noteq> []"
  have "waits_for rows \<subseteq> (\<Union>c\<in>set rows. (\<lambda>p. (p, bc_id c)) ` set (bc_depends_on c))"
    by (auto simp: waits_for_def)
  then have "finite (waits_for rows)" by (rule finite_subset) simp
  then have wf: "wf (waits_for rows)" using assms(3) by (rule finite_acyclic_wf)
  have "\<exists>x. x \<in> set (ids_of waiting)" using some by (cases waiting) auto
  then obtain x where x: "x \<in> set (ids_of waiting)" "\<And>y. (y, x) \<in> waits_for rows \<Longrightarrow> y \<notin> set (ids_of waiting)"
    using wfE_min [OF wf] by metis
  then obtain c where c: "c \<in> set waiting" "x = bc_id c" by auto
  obtain p where "p \<in> set (prerequisites rows c)" "p \<in> set (ids_of waiting)" using assms(2) [OF c(1)] by blast
  moreover from this have "(p, x) \<in> waits_for rows"
    using assms(1) c by (auto simp: waits_for_def prerequisites_def)
  ultimately show False using x(2) by blast
qed

text \<open>
  C21. Dependency order. For a batch of rows with distinct ids, cycles or not, the loop has ended after as many rounds as there
  are rows, whatever more rounds it is given, and the order is a permutation of the batch. It has two parts: in the first every
  change comes after all of its prerequisites in the batch; the second keeps the order of declaration, and every change of it
  waits for another of it, so it is empty when the dependencies have no cycle.
\<close>
theorem order_respects_dependencies:
  assumes "distinct (ids_of rows)"
  shows "mset (order_changes rows) = mset rows \<and> rounds (length rows + extra) rows = rounds (length rows) rows \<and>
    (\<exists>placed waiting. order_changes rows = placed @ waiting \<and> ids_of placed = rounds (length rows) rows \<and> in_order rows placed \<and>
       subseq waiting rows \<and> (\<forall>c\<in>set waiting. set (bc_depends_on c) \<inter> set (ids_of waiting) \<noteq> {}) \<and>
       (acyclic (waits_for rows) \<longrightarrow> waiting = []))"
proof -
  have last: "rounds (length rows) rows = final_order rows" by (simp add: rounds_def final_order_def)
  obtain waiting where w: "order_changes rows = map (row_with rows) (final_order rows) @ waiting"
    "ids_of (map (row_with rows) (final_order rows)) = final_order rows" "subseq waiting rows"
    "\<And>c. c \<in> set waiting \<Longrightarrow> \<exists>p\<in>set (prerequisites rows c). p \<in> set (ids_of waiting)"
    using order_split [OF assms] by blast
  have "in_order rows (map (row_with rows) (final_order rows))"
    unfolding in_order_def
  proof (intro allI impI)
    fix k assume "k < length (map (row_with rows) (final_order rows))"
    then have k: "k < length (final_order rows)" by simp
    have "final_order rows ! k \<in> set (ids_of rows)"
      using final_order(2) [OF assms] nth_mem [OF k] by (rule subsetD)
    then have c: "row_with rows (final_order rows ! k) \<in> set rows"
      using row_with_id [OF assms] by auto
    have "ids_of (take k (map (row_with rows) (final_order rows))) = take k (final_order rows)"
      unfolding take_map [symmetric] w(2) ..
    then show "set (bc_depends_on (map (row_with rows) (final_order rows) ! k)) \<inter> set (ids_of rows)
        \<subseteq> set (ids_of (take k (map (row_with rows) (final_order rows))))"
      using final_order(3) [OF assms k] k by (auto simp: prerequisites_def)
  qed
  moreover have "set waiting \<subseteq> set rows" using w(3) by (auto elim: list_emb_set)
  then have "acyclic (waits_for rows) \<longrightarrow> waiting = []" using waiting_is_cyclic w(4) by blast
  moreover have "\<forall>c\<in>set waiting. set (bc_depends_on c) \<inter> set (ids_of waiting) \<noteq> {}"
    using w(4) by (fastforce simp: prerequisites_def)
  moreover have "rounds (length rows + extra) rows = rounds (length rows) rows"
    unfolding rounds_def by (rule more_rounds [OF assms loop_start [OF assms]]) simp
  ultimately show ?thesis
    unfolding last using order_changes_perm [OF assms] w(1-3) by blast
qed

definition demo_change :: "string \<Rightarrow> string \<Rightarrow> string list \<Rightarrow> managed_change" where
  "demo_change i target_type depends =
     \<lparr>bc_id = i, bc_tenant = [], bc_connection = [], bc_target_type = target_type, bc_target = [], bc_operation = ''create'',
      bc_status = ''approved'', bc_risk = [], bc_summary = [], bc_desired = [], bc_before = [], bc_after = [], bc_expected_hash = [],
      bc_requested_by = [], bc_requested_at = 0, bc_decided_by = ''bob'', bc_decided_at = None, bc_reason = [], bc_dual = False,
      bc_second = [], bc_second_at = None, bc_applied_by = [], bc_applied_at = None, bc_error_code = [], bc_error = [],
      bc_rollback_of = [], bc_plan = [], bc_depends_on = depends, bc_url = [], bc_job = [], bc_attempts = 0,
      bc_poll_after = None, bc_deadline = None\<rparr>"

text \<open>A change and its prerequisite, and two changes that wait for each other.\<close>

definition demo_batch :: "managed_change list" where
  "demo_batch = [demo_change ''a'' ''vault'' [''b''], demo_change ''q'' ''protection'' [''p''], demo_change ''b'' ''vault'' [''a''],
     demo_change ''p'' ''backup_policy'' []]"

lemma demo_batch_order: "map bc_id (order_changes demo_batch) = [''p'', ''q'', ''a'', ''b'']"
  by code_simp

theorem order_respects_dependencies_witness:
  "mset (order_changes demo_batch) = mset demo_batch \<and> rounds (4 + 1) demo_batch = rounds 4 demo_batch"
proof -
  have d: "distinct (ids_of demo_batch)" and l: "length demo_batch = 4"
    by (simp_all add: demo_batch_def demo_change_def)
  show ?thesis
    using order_respects_dependencies [OF d, of 1] unfolding l by blast
qed

end
