(* ===== verification/Backup_Safety.thy ===== *)
theory Backup_Safety
  imports Backup_Order
begin

text \<open>
  What the ledger of managed changes guarantees: every operation moves each stored row along one edge of its
  life cycle, nothing reaches Azure without the approvals the row asks for, an ended row is never touched again,
  and an operation Azure does not finish is ended by the poller.
\<close>

section \<open>Writing rows back\<close>

lemma replace_row_ids [simp]: "map bc_id (replace_row c db) = map bc_id db"
  by (induction db) (auto simp: replace_row_def)

lemma same_row: "distinct (map bc_id db) \<Longrightarrow> x \<in> set db \<Longrightarrow> y \<in> set db \<Longrightarrow> bc_id x = bc_id y \<Longrightarrow> x = y"
  by (auto simp: distinct_map inj_on_def)

lemma replace_rows:
  assumes d: "distinct (map bc_id db)" and f: "\<And>c. bc_id (f c) = bc_id c" and "set xs \<subseteq> set db"
  shows "foldl (\<lambda>db c. replace_row (f c) db) db xs = map (\<lambda>x. if x \<in> set xs then f x else x) db"
  using assms(3)
proof (induction xs rule: rev_induct)
  case (snoc c xs)
  have "(if bc_id (if x \<in> set xs then f x else x) = bc_id (f c) then f c else if x \<in> set xs then f x else x)
      = (if x \<in> set (xs @ [c]) then f x else x)" if "x \<in> set db" for x
    using same_row [OF d that, of c] snoc.prems f by auto
  moreover have "foldl (\<lambda>db c. replace_row (f c) db) db xs = map (\<lambda>x. if x \<in> set xs then f x else x) db"
    using snoc by simp
  ultimately show ?case by (simp add: replace_row_def)
qed simp

lemma replace_one:
  assumes "distinct (map bc_id db)" "c \<in> set db" "bc_id c' = bc_id c"
  shows "replace_row c' db = map (\<lambda>x. if x = c then c' else x) db"
  using assms(3) same_row [OF assms(1) _ assms(2)] by (auto simp: replace_row_def)

lemma decide_id: "decide subject decision reason now c = Inr c' \<Longrightarrow> bc_id c' = bc_id c"
  by (auto simp: decide_def Let_def split: if_splits)

lemma run_change_id [simp]: "bc_id (run_change digest az connections actor now c) = bc_id c"
  by (auto simp: run_change_def mark_submitted_def Let_def split: option.splits prod.splits)

lemma advance_id [simp]: "bc_id (advance az connections now c) = bc_id c"
  by (auto simp: advance_def mark_timed_out_def poll_one_def mark_polled_def Let_def split: option.splits prod.splits)

lemma start_order_set: "distinct (map bc_id rows) \<Longrightarrow> set (start_order rows) = set rows"
  using mset_eq_setD [OF order_changes_perm, of rows] by (auto simp: start_order_def Let_def)

section \<open>One row at a time\<close>

text \<open>What an operation does to one stored row.\<close>

inductive row_step :: "managed_change \<Rightarrow> managed_change \<Rightarrow> bool" where
  kept: "row_step c c"
| by_decision: "subject \<noteq> [] \<Longrightarrow> decide subject decision reason now c = Inr c' \<Longrightarrow> row_step c c'"
| by_bulk_decision: "subject \<noteq> [] \<Longrightarrow> decision \<in> {''approved'', ''rejected''} \<Longrightarrow>
    row_step c (bulk_decide subject decision reason now c)"
| by_apply: "bc_status c = ''approved'' \<Longrightarrow> row_step c (run_change digest az connections subject now c)"
| by_poll: "bc_status c = ''applying'' \<Longrightarrow> row_step c (advance az connections now c)"

lemma bulk_apply_rows:
  assumes d: "distinct (map bc_id db)"
    and a: "bulk_apply digest az connections actor now tenant ids db = Some db'"
  shows "db' = map (\<lambda>c. if bc_tenant c = tenant \<and> bc_id c \<in> set ids \<and> bc_status c = ''approved''
    then run_change digest az connections actor now c else c) db"
proof -
  let ?rows = "filter (\<lambda>c. bc_tenant c = tenant \<and> bc_id c \<in> set ids \<and> bc_status c = ''approved'') db"
  have "distinct (map bc_id ?rows)" using d by (rule distinct_map_filter)
  then have s: "set (start_order ?rows) = set ?rows" by (rule start_order_set)
  have "db' = foldl (\<lambda>db c. replace_row (run_change digest az connections actor now c) db) db (start_order ?rows)"
    using a by (simp add: bulk_apply_def Let_def split: if_splits)
  also have "\<dots> = map (\<lambda>x. if x \<in> set (start_order ?rows) then run_change digest az connections actor now x else x) db"
    using s by (intro replace_rows [OF d]) auto
  also have "\<dots> = map (\<lambda>c. if bc_tenant c = tenant \<and> bc_id c \<in> set ids \<and> bc_status c = ''approved''
    then run_change digest az connections actor now c else c) db"
    unfolding s by (rule map_cong) auto
  finally show ?thesis .
qed

lemma due_batch_applying: "c \<in> set (due_batch now db) \<Longrightarrow> c \<in> set db \<and> bc_status c = ''applying''"
  by (auto simp: due_batch_def dest!: in_set_takeD)

lemma tick_rows:
  assumes "distinct (map bc_id db)"
  shows "tick az connections now db = map (\<lambda>c. if c \<in> set (due_batch now db) then advance az connections now c else c) db"
  unfolding tick_def using due_batch_applying by (intro replace_rows [OF assms]) auto

text \<open>An operation either changes rows in place or appends a new pending row.\<close>

lemma step_rows:
  assumes d: "distinct (map bc_id db)" and s: "step digest db db'"
  shows "(\<exists>f. db' = map f db \<and> (\<forall>c\<in>set db. row_step c (f c))) \<or>
    (\<exists>new_id now df c. db' = db @ [c] \<and> new_id \<notin> set (map bc_id db) \<and> build_change digest new_id now df = Inr (c\<lparr>bc_rollback_of := []\<rparr>))"
  using s
proof cases
  case (drafted new_id now d c)
  have "c\<lparr>bc_rollback_of := []\<rparr> = c" using drafted(2)
    by (auto simp: build_change_def split: sum.splits)
  then have "build_change digest new_id now d = Inr (c\<lparr>bc_rollback_of := []\<rparr>)" using drafted(2) by (simp only:)
  then show ?thesis using drafted(1,3) by blast
next
  case (decided subject decision reason now tenant i)
  then obtain c c' where c: "load_change db i tenant = Some c" "decide subject decision reason now c = Inr c'"
    "db' = replace_row c' db"
    by (auto simp: decide_change_def split: option.splits sum.splits)
  then have m: "c \<in> set db" by (auto simp: load_change_def dest: find_SomeD)
  have "db' = map (\<lambda>x. if x = c then c' else x) db"
    unfolding c(3) by (rule replace_one [OF d m decide_id [OF c(2)]])
  moreover have "\<forall>x\<in>set db. row_step x (if x = c then c' else x)"
    using row_step.kept row_step.by_decision [OF decided(1) c(2)] by simp
  ultimately show ?thesis by blast
next
  case (decided_in_bulk subject decision reason now tenant ids)
  have "\<forall>c\<in>set db. row_step c (if bc_tenant c = tenant \<and> bc_id c \<in> set ids
      then bulk_decide subject decision reason now c else c)"
    using row_step.kept row_step.by_bulk_decision [OF decided_in_bulk(2,3)] by simp
  then show ?thesis using decided_in_bulk(1) unfolding bulk_decision_def by blast
next
  case (applied az connections subject now tenant ids)
  have "\<forall>c\<in>set db. row_step c (if bc_tenant c = tenant \<and> bc_id c \<in> set ids \<and> bc_status c = ''approved''
      then run_change digest az connections subject now c else c)"
    using row_step.kept row_step.by_apply by simp
  then show ?thesis using bulk_apply_rows [OF d applied] by blast
next
  case (polled az connections now)
  have "\<forall>c\<in>set db. row_step c (if c \<in> set (due_batch now db) then advance az connections now c else c)"
    using due_batch_applying row_step.kept row_step.by_poll by simp
  then show ?thesis using tick_rows [OF d, of az connections now] polled by blast
next
  case (rolled_back new_id now subject tenant i)
  then obtain c row where r: "build_rollback digest new_id now subject c = Inr row" "db' = db @ [row]"
    by (auto simp: rollback_change_def split: option.splits if_splits sum.splits)
  from r(1) obtain df row0 where b: "build_change digest new_id now df = Inr row0" "row = row0\<lparr>bc_rollback_of := bc_id c\<rparr>"
    by (auto simp: build_rollback_def split: option.splits sum.splits)
  have "row\<lparr>bc_rollback_of := []\<rparr> = row0" using b by (auto simp: build_change_def split: sum.splits)
  then have "build_change digest new_id now df = Inr (row\<lparr>bc_rollback_of := []\<rparr>)" using b(1) by (simp only:)
  then show ?thesis using r(2) rolled_back(2) by blast
qed

section \<open>The life cycle of a change\<close>

definition life_cycle :: "(string \<times> string) list" where
  "life_cycle =
     [(''pending'', ''approved''), (''pending'', ''rejected''), (''approved'', ''rejected''), (''approved'', ''applying''),
      (''approved'', ''applied''), (''approved'', ''failed''), (''applying'', ''applied''), (''applying'', ''failed'')]"

definition ended :: "managed_change \<Rightarrow> bool" where
  "ended c \<longleftrightarrow> bc_status c \<in> {''applied'', ''failed'', ''rejected''}"

definition moves :: "managed_change \<Rightarrow> managed_change \<Rightarrow> bool" where
  "moves c c' \<longleftrightarrow> bc_id c' = bc_id c \<and> (bc_status c' = bc_status c \<or> (bc_status c, bc_status c') \<in> set life_cycle) \<and>
     (if ended c then c' = c else True)"

definition same_request :: "managed_change \<Rightarrow> managed_change \<Rightarrow> bool" where
  "same_request c c' \<longleftrightarrow> bc_id c' = bc_id c \<and> bc_target_type c' = bc_target_type c \<and> bc_operation c' = bc_operation c \<and> bc_dual c' = bc_dual c"

definition same_approval :: "managed_change \<Rightarrow> managed_change \<Rightarrow> bool" where
  "same_approval c c' \<longleftrightarrow> same_request c c' \<and> bc_decided_by c' = bc_decided_by c \<and> bc_second c' = bc_second c"

lemma decide_facts:
  assumes "decide subject decision reason now c = Inr c'"
  shows "bc_status c = ''pending'' \<or> bc_status c = ''approved''" "same_request c c'"
    "bc_status c' = ''rejected'' \<or>
     (bc_status c' = bc_status c \<and> bc_dual c \<and> bc_decided_by c = []) \<or>
     (bc_status c' = ''approved'' \<and> bc_dual c \<and> bc_decided_by c \<noteq> [] \<and> bc_decided_by c \<noteq> subject \<and>
       bc_decided_by c' = bc_decided_by c \<and> bc_second c' = subject) \<or>
     (bc_status c' = ''approved'' \<and> \<not> bc_dual c \<and> bc_decided_by c' = (if bc_decided_by c = [] then subject else bc_decided_by c))"
proof -
  note d = assms [unfolded decide_def Let_def]
  show s: "bc_status c = ''pending'' \<or> bc_status c = ''approved''" using d by (auto split: if_splits)
  show "same_request c c'" using d s by (simp add: same_request_def split: if_splits) auto
  show "bc_status c' = ''rejected'' \<or>
     (bc_status c' = bc_status c \<and> bc_dual c \<and> bc_decided_by c = []) \<or>
     (bc_status c' = ''approved'' \<and> bc_dual c \<and> bc_decided_by c \<noteq> [] \<and> bc_decided_by c \<noteq> subject \<and>
       bc_decided_by c' = bc_decided_by c \<and> bc_second c' = subject) \<or>
     (bc_status c' = ''approved'' \<and> \<not> bc_dual c \<and> bc_decided_by c' = (if bc_decided_by c = [] then subject else bc_decided_by c))"
    using d s by (cases "decision = ''rejected''"; cases "bc_dual c"; cases "bc_decided_by c = []"; cases "bc_decided_by c = subject") auto
qed

lemma decide_moves:
  assumes "decide subject decision reason now c = Inr c'"
  shows "moves c c'"
proof -
  note f = decide_facts [OF assms]
  have "\<not> ended c" using f(1) by (auto simp: ended_def)
  moreover have "bc_status c' = bc_status c \<or> (bc_status c, bc_status c') \<in> set life_cycle"
    using f(1) by (rule disjE) (use f(3) in \<open>auto simp: life_cycle_def\<close>)
  ultimately show ?thesis using f(2) by (simp add: moves_def same_request_def)
qed

lemma bulk_decide_moves:
  "decision \<in> {''approved'', ''rejected''} \<Longrightarrow> moves c (bulk_decide subject decision reason now c)"
  by (auto simp: bulk_decide_def moves_def ended_def life_cycle_def)

lemma mark_submitted_moves:
  assumes "bc_status c = ''approved''"
  shows "bc_status (mark_submitted c u actor now) \<in> {''applying'', ''applied'', ''failed''}"
  by (simp add: mark_submitted_def Let_def)

lemma run_change_moves:
  assumes "bc_status c = ''approved''"
  shows "moves c (run_change digest az connections subject now c)"
proof -
  have "bc_status (run_change digest az connections subject now c) \<in> {''applying'', ''applied'', ''failed''}"
    using assms mark_submitted_moves [of "if b = [] then c else c\<lparr>bc_before := b\<rparr>" for b]
    by (simp add: run_change_def split: option.splits prod.splits)
  then show ?thesis using assms by (auto simp: moves_def ended_def life_cycle_def)
qed

lemma advance_moves:
  assumes "bc_status c = ''applying''"
  shows "moves c (advance az connections now c)"
proof -
  have "bc_status (advance az connections now c) \<in> {''applying'', ''applied'', ''failed''}"
    using assms by (simp add: advance_def mark_timed_out_def poll_one_def mark_polled_def Let_def split: option.splits prod.splits)
  then show ?thesis using assms by (auto simp: moves_def ended_def life_cycle_def)
qed

lemma row_step_moves: "row_step c c' \<Longrightarrow> moves c c'"
  by (induction rule: row_step.induct)
    (auto intro: decide_moves bulk_decide_moves run_change_moves advance_moves simp: moves_def [of c c for c])

section \<open>Well-formed rows\<close>

definition approved_well :: "managed_change \<Rightarrow> bool" where
  "approved_well c \<longleftrightarrow> bc_decided_by c \<noteq> [] \<and> (bc_dual c \<longrightarrow> bc_second c \<noteq> [] \<and> bc_second c \<noteq> bc_decided_by c)"

definition row_ok :: "managed_change \<Rightarrow> bool" where
  "row_ok c \<longleftrightarrow>
     (case validate_operation (bc_target_type c) (bc_operation c) of Inl _ \<Rightarrow> False | Inr _ \<Rightarrow> True) \<and>
     bc_status c \<in> {''pending'', ''approved'', ''rejected'', ''applying'', ''applied'', ''failed''} \<and>
     (bc_status c \<in> {''approved'', ''applying'', ''applied'', ''failed''} \<longrightarrow> approved_well c) \<and>
     (bc_status c = ''applying'' \<longrightarrow> bc_url c \<noteq> [] \<and> bc_poll_after c \<noteq> None \<and>
        (case (bc_applied_at c, bc_deadline c) of (Some t, Some d) \<Rightarrow> d = t + seconds (60 * POLL_DEADLINE_MINUTES) | _ \<Rightarrow> False))"

lemma built_ok: "build_change digest new_id now d = Inr c \<Longrightarrow> row_ok c \<and> bc_id c = new_id \<and> bc_status c = ''pending''"
  by (auto simp: build_change_def row_ok_def split: sum.splits)

lemma row_ok_status:
  assumes "row_ok c"
  shows "same_request c c' \<Longrightarrow> bc_status c' \<in> {''pending'', ''rejected''} \<Longrightarrow> row_ok c'"
    and "same_request c c' \<Longrightarrow> bc_status c' = ''approved'' \<Longrightarrow> approved_well c' \<Longrightarrow> row_ok c'"
    and "same_approval c c' \<Longrightarrow> bc_status c \<in> {''approved'', ''applying''} \<Longrightarrow>
      bc_status c' \<in> {''applied'', ''failed''} \<Longrightarrow> row_ok c'"
proof -
  have v: "case validate_operation (bc_target_type c) (bc_operation c) of Inl _ \<Rightarrow> False | Inr _ \<Rightarrow> True"
    using assms by (simp add: row_ok_def)
  show "row_ok c'" if "same_request c c'" "bc_status c' \<in> {''pending'', ''rejected''}"
    using that(2) v by (elim insertE) (use that(1) in \<open>simp_all add: row_ok_def same_request_def\<close>)
  show "row_ok c'" if "same_request c c'" "bc_status c' = ''approved''" "approved_well c'"
    using that v by (simp add: row_ok_def same_request_def)
  show "row_ok c'" if "same_approval c c'" "bc_status c \<in> {''approved'', ''applying''}" "bc_status c' \<in> {''applied'', ''failed''}"
  proof -
    have "approved_well c" using assms that(2) unfolding row_ok_def by blast
    then have "approved_well c'" using that(1) by (simp add: approved_well_def same_approval_def same_request_def)
    then show ?thesis using that(3) v
      by (elim insertE) (use that(1) in \<open>simp_all add: row_ok_def same_approval_def same_request_def\<close>)
  qed
qed

lemma decide_ok:
  assumes "subject \<noteq> []" "decide subject decision reason now c = Inr c'" "row_ok c"
  shows "row_ok c'"
proof -
  note f = decide_facts [OF assms(2)]
  consider "bc_status c' = ''rejected''" | "bc_status c' = bc_status c" "bc_dual c" "bc_decided_by c = []"
    | "bc_status c' = ''approved''" "approved_well c'"
    using f(2,3) assms(1) by (auto simp: approved_well_def same_request_def)
  then show ?thesis
  proof cases
    case 1
    then show ?thesis using row_ok_status(1) [OF assms(3) f(2)] by simp
  next
    case 2
    then have "bc_status c \<noteq> ''approved''" using assms(3) by (auto simp: row_ok_def approved_well_def)
    then show ?thesis using row_ok_status(1) [OF assms(3) f(2)] f(1) 2(1) by simp
  next
    case 3
    then show ?thesis by (rule row_ok_status(2) [OF assms(3) f(2)])
  qed
qed

lemma bulk_decide_ok:
  assumes "subject \<noteq> []" "decision \<in> {''approved'', ''rejected''}" "row_ok c"
  shows "row_ok (bulk_decide subject decision reason now c)"
proof (cases "bc_status c \<noteq> ''pending'' \<or> (decision = ''approved'' \<and> bc_dual c)")
  case True
  then have "bulk_decide subject decision reason now c = c" unfolding bulk_decide_def by argo
  then show ?thesis using assms(3) by simp
next
  case False
  define c' where "c' = c\<lparr>bc_status := decision, bc_decided_by := subject, bc_decided_at := Some now, bc_reason := reason\<rparr>"
  have e: "bulk_decide subject decision reason now c = c'" using False unfolding bulk_decide_def c'_def by argo
  have s: "same_request c c'" "bc_status c' = decision" "bc_decided_by c' = subject" "bc_dual c' = bc_dual c"
    by (simp_all add: same_request_def c'_def)
  show ?thesis
  proof (cases "decision = ''rejected''")
    case True
    then show ?thesis unfolding e using row_ok_status(1) [OF assms(3) s(1)] s(2) by simp
  next
    case a: False
    then have "decision = ''approved''" "\<not> bc_dual c" using assms(2) False by auto
    then show ?thesis unfolding e using row_ok_status(2) [OF assms(3) s(1)] s assms(1) by (simp add: approved_well_def)
  qed
qed

lemma mark_submitted_ok:
  assumes "row_ok c" "bc_status c = ''approved''"
  shows "row_ok (mark_submitted c u actor now)"
proof (cases "submission_ok u \<and> is_async u \<and> tracking_url u \<noteq> []")
  case True
  have "approved_well c" using assms by (simp add: row_ok_def)
  then show ?thesis using assms True by (simp add: mark_submitted_def Let_def row_ok_def approved_well_def)
next
  case False
  then have "same_approval c (mark_submitted c u actor now)" "bc_status (mark_submitted c u actor now) \<in> {''applied'', ''failed''}"
    by (auto simp: mark_submitted_def Let_def same_approval_def same_request_def)
  then show ?thesis using row_ok_status(3) [OF assms(1)] assms(2) by blast
qed

lemma run_change_ok:
  assumes "row_ok c" "bc_status c = ''approved''"
  shows "row_ok (run_change digest az connections subject now c)"
proof (cases "\<exists>u b. run_change digest az connections subject now c = mark_submitted (if b = [] then c else c\<lparr>bc_before := b\<rparr>) u subject now")
  case True
  have "row_ok (c\<lparr>bc_before := b\<rparr>)" for b using assms(1) by (simp add: row_ok_def approved_well_def)
  then show ?thesis using True assms mark_submitted_ok by (auto split: if_splits)
next
  case False
  then obtain e m where r: "run_change digest az connections subject now c = c\<lparr>bc_status := ''failed'', bc_error_code := e, bc_error := m\<rparr>"
    by (auto simp: run_change_def split: option.splits prod.splits)
  have "same_approval c (c\<lparr>bc_status := ''failed'', bc_error_code := e, bc_error := m\<rparr>)"
    by (simp add: same_approval_def same_request_def)
  then show ?thesis unfolding r using assms(2) by (intro row_ok_status(3) [OF assms(1)]) simp_all
qed

lemma advance_ok:
  assumes "row_ok c" "bc_status c = ''applying''"
  shows "row_ok (advance az connections now c)"
proof -
  define c' where "c' = advance az connections now c"
  have s: "same_approval c c'"
    by (simp add: c'_def same_approval_def same_request_def advance_def mark_timed_out_def poll_one_def mark_polled_def Let_def
        split: option.splits prod.splits)
  have "bc_status c' \<in> {''applied'', ''failed''} \<or> (bc_status c' = ''applying'' \<and> bc_url c' = bc_url c \<and>
      bc_applied_at c' = bc_applied_at c \<and> bc_deadline c' = bc_deadline c \<and> bc_poll_after c' \<noteq> None)"
    using assms(2) by (simp add: c'_def advance_def mark_timed_out_def poll_one_def mark_polled_def Let_def
        split: option.splits prod.splits)
  then show ?thesis
  proof
    assume "bc_status c' \<in> {''applied'', ''failed''}"
    then show ?thesis using row_ok_status(3) [OF assms(1) s] assms(2) by (simp add: c'_def)
  next
    assume a: "bc_status c' = ''applying'' \<and> bc_url c' = bc_url c \<and>
      bc_applied_at c' = bc_applied_at c \<and> bc_deadline c' = bc_deadline c \<and> bc_poll_after c' \<noteq> None"
    have "row_ok c'" using a s assms by (simp add: row_ok_def same_approval_def same_request_def approved_well_def)
    then show ?thesis by (simp add: c'_def)
  qed
qed

lemma row_step_ok: "row_step c c' \<Longrightarrow> row_ok c \<Longrightarrow> row_ok c'"
  by (induction rule: row_step.induct) (auto intro: decide_ok bulk_decide_ok run_change_ok advance_ok)

definition ledger_ok :: "managed_change list \<Rightarrow> bool" where
  "ledger_ok db \<longleftrightarrow> distinct (map bc_id db) \<and> list_all row_ok db"

lemma step_ok:
  assumes "ledger_ok db" "step digest db db'"
  shows "ledger_ok db'"
proof -
  have d: "distinct (map bc_id db)" and ok: "\<forall>c\<in>set db. row_ok c"
    using assms(1) by (simp_all add: ledger_ok_def list_all_iff)
  from step_rows [OF d assms(2)] consider
      f where "db' = map f db" "\<forall>c\<in>set db. row_step c (f c)"
    | new_id now df c where "db' = db @ [c]" "new_id \<notin> set (map bc_id db)"
        "build_change digest new_id now df = Inr (c\<lparr>bc_rollback_of := []\<rparr>)" by blast
  then show ?thesis
  proof cases
    case 1
    have "map bc_id db' = map bc_id db" using 1 row_step_moves by (auto simp: moves_def)
    moreover have "list_all row_ok db'" using 1 ok row_step_ok by (auto simp: list_all_iff)
    ultimately show ?thesis using d by (simp add: ledger_ok_def)
  next
    case 2
    have "row_ok (c\<lparr>bc_rollback_of := []\<rparr>)" "bc_id c = new_id" using built_ok [OF 2(3)] by simp_all
    moreover have "row_ok c" using calculation(1) unfolding row_ok_def approved_well_def by simp
    ultimately show ?thesis using 2(1,2) d ok by (simp add: ledger_ok_def list_all_iff)
  qed
qed

lemma reachable_ledger_ok: "reachable digest db \<Longrightarrow> ledger_ok db"
proof (induction rule: reachable.induct)
  case empty_ledger
  show ?case by (simp add: ledger_ok_def)
next
  case (after_step db db')
  then show ?case using step_ok by blast
qed

lemma step_moves:
  assumes "reachable digest db" "step digest db db'"
  shows "list_all2 moves db (take (length db) db')"
proof -
  have "distinct (map bc_id db)" using reachable_ledger_ok [OF assms(1)] by (simp add: ledger_ok_def)
  from step_rows [OF this assms(2)] show ?thesis
  proof (elim disjE exE conjE)
    fix f assume "db' = map f db" "\<forall>c\<in>set db. row_step c (f c)"
    then show ?thesis using row_step_moves by (simp add: list_all2_conv_all_nth)
  next
    fix c :: managed_change assume "db' = db @ [c]"
    moreover have "moves x x" for x by (simp add: moves_def)
    ultimately show ?thesis by (simp add: list_all2_conv_all_nth)
  qed
qed

section \<open>A concrete ledger\<close>

text \<open>A test failover, approved by two people and sent to an Azure that stays busy.\<close>

definition demo_digest :: "json \<Rightarrow> string" where "demo_digest = (\<lambda>_. ''h'')"

definition demo_azure :: azure where
  "demo_azure = \<lparr>az_get = (\<lambda>_ _. (None, 404, [])),
     az_submit = (\<lambda>_. \<lparr>su_status = 202, su_body = None, su_error = [], su_async_url = ''u'', su_location_url = [], su_retry_after = 0\<rparr>),
     az_token = True, az_poll = (\<lambda>_. (''running'', [], [], 0))\<rparr>"

definition demo_connections :: "string \<Rightarrow> connection option" where
  "demo_connections = (\<lambda>_. Some \<lparr>cn_read_only = False\<rparr>)"

definition demo_draft :: draft where
  "demo_draft = \<lparr>df_tenant = ''t'', df_connection = ''k'', df_target_type = ''asr_test_failover'', df_target = ''/item'',
     df_operation = ''invoke'', df_requested_by = ''ann'', df_desired = [], df_before = [], df_summary = [], df_risk = [],
     df_plan = [], df_depends_on = [], df_dual = None\<rparr>"

definition demo_row :: managed_change where
  "demo_row = (case build_change demo_digest ''c'' 0 demo_draft of Inr c \<Rightarrow> c)"

definition demo_first :: managed_change where
  "demo_first = (case decide ''bob'' ''approved'' [] 1 demo_row of Inr c \<Rightarrow> c)"

definition demo_second :: managed_change where
  "demo_second = (case decide ''cleo'' ''approved'' [] 2 demo_first of Inr c \<Rightarrow> c)"

definition demo_sent :: managed_change where
  "demo_sent = run_change demo_digest demo_azure demo_connections ''dan'' 3 demo_second"

lemma demo_steps:
  "build_change demo_digest ''c'' 0 demo_draft = Inr demo_row"
  "decide_change ''bob'' ''approved'' [] 1 ''t'' ''c'' [demo_row] = Inr [demo_first]"
  "decide_change ''cleo'' ''approved'' [] 2 ''t'' ''c'' [demo_first] = Inr [demo_second]"
  "bulk_apply demo_digest demo_azure demo_connections ''dan'' 3 ''t'' [''c''] [demo_second] = Some [demo_sent]"
  by code_simp+

lemma demo_reachable: "reachable demo_digest [demo_first]" "reachable demo_digest [demo_second]" "reachable demo_digest [demo_sent]"
proof -
  have "step demo_digest [] ([] @ [demo_row])" by (rule step.drafted [OF demo_steps(1)]) simp
  then have r: "reachable demo_digest [demo_row]" using reachable.after_step [OF reachable.empty_ledger] by fastforce
  show f: "reachable demo_digest [demo_first]"
    by (rule reachable.after_step [OF r]) (rule step.decided [OF _ demo_steps(2)], simp)
  show s: "reachable demo_digest [demo_second]"
    by (rule reachable.after_step [OF f]) (rule step.decided [OF _ demo_steps(3)], simp)
  show "reachable demo_digest [demo_sent]"
    by (rule reachable.after_step [OF s]) (rule step.applied [OF demo_steps(4)])
qed

section \<open>Guarantees of the ledger\<close>

text \<open>
  C18. Well-formed ledger. Every row has its own id, a declared target and operation and one of the six stored
  statuses, and a row in flight has a tracking address, a time to be polled and a deadline two hours after its
  submission.
\<close>
theorem ledger_well_formed:
  assumes "reachable digest db"
  shows "distinct (map bc_id db) \<and>
    list_all (\<lambda>c. (case map_of TARGET_SPECS (bc_target_type c) of None \<Rightarrow> False | Some spec \<Rightarrow> bc_operation c \<in> set (ts_operations spec)) \<and>
      bc_status c \<in> {''pending'', ''approved'', ''rejected'', ''applying'', ''applied'', ''failed''}) db \<and>
    list_all (\<lambda>c. bc_url c \<noteq> [] \<and> bc_poll_after c \<noteq> None \<and>
        (case (bc_applied_at c, bc_deadline c) of (Some t, Some d) \<Rightarrow> d = t + seconds 7200 | _ \<Rightarrow> False))
      (filter (\<lambda>c. bc_status c = ''applying'') db)"
proof -
  have d: "distinct (map bc_id db)" and ok: "c \<in> set db \<Longrightarrow> row_ok c" for c
    using reachable_ledger_ok [OF assms] by (simp_all add: ledger_ok_def list_all_iff)
  have "case map_of TARGET_SPECS (bc_target_type c) of None \<Rightarrow> False | Some spec \<Rightarrow> bc_operation c \<in> set (ts_operations spec)"
    if "c \<in> set db" for c
    using ok [OF that] unfolding row_ok_def validate_operation_def by (auto split: option.splits if_splits)
  moreover have "bc_status c \<in> {''pending'', ''approved'', ''rejected'', ''applying'', ''applied'', ''failed''}"
    if "c \<in> set db" for c using ok [OF that] unfolding row_ok_def by blast
  moreover have "bc_url c \<noteq> [] \<and> bc_poll_after c \<noteq> None \<and>
        (case (bc_applied_at c, bc_deadline c) of (Some t, Some d) \<Rightarrow> d = t + seconds 7200 | _ \<Rightarrow> False)"
    if "c \<in> set db" "bc_status c = ''applying''" for c
    using ok [OF that(1)] that(2) unfolding row_ok_def by (auto simp: POLL_DEADLINE_MINUTES_def split: option.splits)
  ultimately show ?thesis using d unfolding list_all_iff by simp
qed

theorem ledger_well_formed_witness:
  "list_all (\<lambda>c. bc_url c \<noteq> [] \<and> bc_poll_after c \<noteq> None \<and>
     (case (bc_applied_at c, bc_deadline c) of (Some t, Some d) \<Rightarrow> d = t + seconds 7200 | _ \<Rightarrow> False))
     (filter (\<lambda>c. bc_status c = ''applying'') [demo_sent]) \<and> bc_status demo_sent = ''applying''"
proof
  show "bc_status demo_sent = ''applying''" by code_simp
qed (use ledger_well_formed [OF demo_reachable(3)] in blast)

text \<open>
  C16. Approval before application. A change that was approved, sent or ended at Azure has a recorded approver,
  and a second, different one when it asks for dual approval; and a bulk apply leaves every row without these
  approvals as it is.
\<close>
theorem applied_only_after_approval:
  assumes "reachable digest db"
  shows "list_all (\<lambda>c. bc_decided_by c \<noteq> [] \<and> (if bc_dual c then bc_second c \<noteq> [] \<and> bc_second c \<noteq> bc_decided_by c else True))
      (filter (\<lambda>c. bc_status c \<in> {''approved'', ''applying'', ''applied'', ''failed''}) db) \<and>
    (case bulk_apply digest az connections actor now tenant ids db of
       None \<Rightarrow> True
     | Some db' \<Rightarrow> list_all (\<lambda>c. c \<in> set db')
         (filter (\<lambda>c. bc_status c \<noteq> ''approved'' \<or> bc_decided_by c = [] \<or>
            (bc_dual c \<and> (bc_second c = [] \<or> bc_second c = bc_decided_by c))) db))"
proof -
  have d: "distinct (map bc_id db)" and ok: "c \<in> set db \<Longrightarrow> row_ok c" for c
    using reachable_ledger_ok [OF assms] by (simp_all add: ledger_ok_def list_all_iff)
  have well: "approved_well c" if "c \<in> set db" "bc_status c \<in> {''approved'', ''applying'', ''applied'', ''failed''}" for c
    using ok [OF that(1)] that(2) unfolding row_ok_def by blast
  have "c \<in> set db'" if "bulk_apply digest az connections actor now tenant ids db = Some db'" "c \<in> set db"
    "bc_status c \<noteq> ''approved'' \<or> \<not> approved_well c" for c db'
  proof -
    have "bc_status c \<noteq> ''approved''" using well [OF that(2)] that(3) by auto
    then show ?thesis using that(2) unfolding bulk_apply_rows [OF d that(1)] by force
  qed
  then show ?thesis using well unfolding approved_well_def list_all_iff by (auto split: option.splits)
qed

theorem applied_only_after_approval_witness:
  "bc_status demo_sent = ''applying'' \<and> bc_second demo_sent \<noteq> bc_decided_by demo_sent"
proof
  show s: "bc_status demo_sent = ''applying''" by code_simp
  have "bc_dual demo_sent" by code_simp
  then show "bc_second demo_sent \<noteq> bc_decided_by demo_sent"
    using applied_only_after_approval [OF demo_reachable(3), where az = demo_azure and connections = demo_connections
      and actor = "''dan''" and now = 4 and tenant = "''t''" and ids = "[''c'']"] s
    by simp
qed

text \<open>
  C17. Life cycle. Every operation keeps the stored rows in their places, moves each along one edge of the life
  cycle at most, and never alters a row that is applied, failed or rejected.
\<close>
theorem ended_changes_are_final:
  assumes "reachable digest db" and "step digest db db'"
  shows "list_all2 (\<lambda>c c'. bc_id c' = bc_id c \<and>
      (bc_status c' = bc_status c \<or> (bc_status c, bc_status c') \<in> set life_cycle) \<and>
      (if bc_status c \<in> {''applied'', ''failed'', ''rejected''} then c' = c else True)) db (take (length db) db')"
  using step_moves [OF assms] by (rule list_all2_mono) (simp add: moves_def ended_def)

theorem ended_changes_are_final_witness:
  "(bc_status demo_second, bc_status demo_sent) \<in> set life_cycle"
proof -
  have "list_all2 (\<lambda>c c'. bc_id c' = bc_id c \<and>
      (bc_status c' = bc_status c \<or> (bc_status c, bc_status c') \<in> set life_cycle) \<and>
      (if bc_status c \<in> {''applied'', ''failed'', ''rejected''} then c' = c else True)) [demo_second] (take (length [demo_second]) [demo_sent])"
    by (rule ended_changes_are_final [OF demo_reachable(2) step.applied [OF demo_steps(4)]])
  moreover have "bc_status demo_sent \<noteq> bc_status demo_second" by code_simp
  ultimately show ?thesis by simp
qed

text \<open>
  C19. Two people. The first approval of a change that asks for dual approval leaves it pending; the same person
  cannot give the second one, nor can a bulk decision; another person's approval completes it and both are recorded.
\<close>
theorem dual_approval_needs_two:
  assumes "bc_status c = ''pending''" "bc_dual c" "bc_decided_by c = []" "first \<noteq> []"
  shows "case decide first ''approved'' r1 t1 c of
      Inl e \<Rightarrow> False
    | Inr c1 \<Rightarrow> bc_status c1 = ''pending'' \<and> bulk_decide other ''approved'' r2 t2 c1 = c1 \<and>
        (case decide other ''approved'' r2 t2 c1 of
           Inl e \<Rightarrow> other = first \<and> e = Second_Approver_Needed
         | Inr c2 \<Rightarrow> other \<noteq> first \<and> bc_status c2 = ''approved'' \<and> bc_decided_by c2 = first \<and> bc_second c2 = other)"
  using assms by (cases "other = first") (simp_all add: decide_def bulk_decide_def)

theorem dual_approval_needs_two_witness:
  "decide ''bob'' ''approved'' [] 2 demo_first = Inl Second_Approver_Needed"
proof -
  have "bc_status demo_row = ''pending''" "bc_dual demo_row" "bc_decided_by demo_row = []" by code_simp+
  note two = dual_approval_needs_two [OF this, where first = "''bob''" and other = "''bob''" and ?r1.0 = "[]" and ?t1.0 = 1 and ?r2.0 = "[]" and ?t2.0 = 2]
  have "decide ''bob'' ''approved'' [] 1 demo_row = Inr demo_first" by code_simp
  then show ?thesis using two by (auto split: sum.splits)
qed

section \<open>Operations that never finish\<close>

lemma in_take_sort_key:
  assumes x: "x \<in> set xs" and few: "length (filter (\<lambda>y. k y \<le> k x) xs) \<le> n"
  shows "x \<in> set (take n (sort_key k xs))"
proof (rule ccontr)
  let ?ys = "sort_key k xs"
  assume "x \<notin> set (take n ?ys)"
  moreover have "x \<in> set (take n ?ys) \<union> set (drop n ?ys)"
    unfolding set_append [symmetric] append_take_drop_id using x by simp
  ultimately have d: "x \<in> set (drop n ?ys)" by blast
  have "sorted (map k (take n ?ys @ drop n ?ys))" by simp
  then have le: "\<forall>y\<in>set (take n ?ys). k y \<le> k x" using d by (simp only: map_append sorted_append) auto
  have l: "length (take n ?ys) = n" using d by (cases "n \<le> length ?ys") auto
  have "filter (\<lambda>y. k y \<le> k x) (take n ?ys) = take n ?ys" using le by (simp add: filter_id_conv)
  then have "n + length (filter (\<lambda>y. k y \<le> k x) (drop n ?ys)) = length (filter (\<lambda>y. k y \<le> k x) (take n ?ys @ drop n ?ys))"
    using l unfolding filter_append length_append by simp
  also have "\<dots> = length (filter (\<lambda>y. k y \<le> k x) xs)"
    by (metis append_take_drop_id mset_filter mset_sort size_mset)
  finally have "length (filter (\<lambda>y. k y \<le> k x) (drop n ?ys)) = 0" using few by linarith
  then show False using d by (auto simp: filter_empty_conv)
qed

text \<open>
  C20. No operation stays in flight. A change whose operation is past its deadline or its 240 polls, and that is
  due to be polled, is ended as timed out by the next round of the poller, when fewer than forty rows in flight
  are before it in the poller's order; and every change in flight that is due is polled in that round.
\<close>
theorem overdue_change_is_ended:
  assumes "reachable digest db" "c \<in> set db" "bc_status c = ''applying''"
    and "case bc_poll_after c of None \<Rightarrow> True | Some t \<Rightarrow> t \<le> now"
    and "length (filter (\<lambda>x. bc_status x = ''applying'' \<and> poll_key x \<le> poll_key c) db) \<le> 40"
  shows "if (case bc_deadline c of None \<Rightarrow> False | Some t \<Rightarrow> t \<le> now) \<or> 240 \<le> bc_attempts c
    then c\<lparr>bc_status := ''failed'', bc_error_code := ''OperationTimeout'',
      bc_error := ''The Azure operation did not complete in time.'', bc_poll_after := None\<rparr> \<in> set (tick az connections now db)
    else poll_one az connections now c \<in> set (tick az connections now db)"
proof -
  have d: "distinct (map bc_id db)" using reachable_ledger_ok [OF assms(1)] by (simp add: ledger_ok_def)
  have "c \<in> set (take BATCH_SIZE (sort_key poll_key (filter (\<lambda>c. bc_status c = ''applying'') db)))"
    using assms(2,3,5) by (intro in_take_sort_key) (simp_all add: BATCH_SIZE_def conj_commute)
  then have "c \<in> set (due_batch now db)" using assms(4) by (simp add: due_batch_def due_def)
  then have "advance az connections now c \<in> set (tick az connections now db)"
    using assms(2) unfolding tick_rows [OF d] by force
  then show ?thesis
    unfolding advance_def out_of_time_def mark_timed_out_def MAX_POLL_ATTEMPTS_def if_distrib [where f = "\<lambda>y. y \<in> A" for A] .
qed

theorem overdue_change_is_ended_witness:
  "demo_sent\<lparr>bc_status := ''failed'', bc_error_code := ''OperationTimeout'',
      bc_error := ''The Azure operation did not complete in time.'', bc_poll_after := None\<rparr>
    \<in> set (tick demo_azure demo_connections (seconds 7201) [demo_sent])"
proof -
  have a: "bc_status demo_sent = ''applying''"
    and b: "case bc_poll_after demo_sent of None \<Rightarrow> True | Some t \<Rightarrow> t \<le> seconds 7201"
    and c: "length (filter (\<lambda>x. bc_status x = ''applying'' \<and> poll_key x \<le> poll_key demo_sent) [demo_sent]) \<le> 40"
    and d: "(case bc_deadline demo_sent of None \<Rightarrow> False | Some t \<Rightarrow> t \<le> seconds 7201) \<or> 240 \<le> bc_attempts demo_sent"
    by code_simp+
  have m: "demo_sent \<in> set [demo_sent]" by simp
  show ?thesis using overdue_change_is_ended [OF demo_reachable(3) m a b c, of demo_azure demo_connections] unfolding if_P [OF d] .
qed

section \<open>Where the code departs from its comments\<close>

text \<open>
  A bulk apply promises dependency order, but starts the changes with prerequisites before those without: a
  protection change is sent before the policy it waits for.
\<close>

definition demo_policy :: managed_change where
  "demo_policy = demo_row\<lparr>bc_id := ''p'', bc_target_type := ''backup_policy'', bc_operation := ''create''\<rparr>"

definition demo_protection :: managed_change where
  "demo_protection = demo_row\<lparr>bc_id := ''q'', bc_target_type := ''protection'', bc_operation := ''create'', bc_depends_on := [''p'']\<rparr>"

lemma bulk_apply_starts_dependents_first:
  "map bc_id (order_changes [demo_policy, demo_protection]) = [''p'', ''q'']"
  "map bc_id (start_order [demo_policy, demo_protection]) = [''q'', ''p'']"
  by code_simp+

text \<open>
  The concurrency check compares the reduced live document with the digest of the document given when the change
  was drafted, so a change drafted with the full document (as a rollback and an update of a protected item are) is
  refused as stale although Azure did not change.
\<close>

lemma full_document_is_always_stale:
  assumes "\<And>x y. digest x = digest y \<Longrightarrow> x = y" and "''id'' \<in> fst ` set live"
    and c: "bc_operation c = ''update''" "bc_expected_hash c = canonical_hash digest live" "canonical_hash digest live \<noteq> []"
    and az: "\<And>p a. az_get az p a = (Some live, 200, [])" "az_token az" "\<not> cn_read_only cn"
  shows "apply_change digest az cn c = Some (refused 409 ''Azure state changed after this request was reviewed.'', [])"
proof -
  have keys: "fst ` set (sort_key fst (map (map_prod id canon) m)) = fst ` set m" for m
    by (force simp: image_image)
  have "canon (J_Obj (concurrency_body live)) \<noteq> canon (J_Obj live)"
  proof
    assume "canon (J_Obj (concurrency_body live)) = canon (J_Obj live)"
    then have "fst ` set (concurrency_body live) = fst ` set live" unfolding canon.simps json.inject by (metis keys)
    then have "''id'' \<in> fst ` set (concurrency_body live)" using assms(2) by blast
    then show False by (simp add: concurrency_body_def)
  qed
  then have n: "canonical_hash digest (concurrency_body live) \<noteq> canonical_hash digest live"
    using assms(1) unfolding canonical_hash_def by blast
  obtain x d where l: "live = x # d" using assms(2) by (cases live) auto
  show ?thesis
    using n unfolding apply_change_def Let_def c(1,2) az(1) l by (simp add: az(2,3) c(3) [unfolded l])
qed

end
