(* ===== verification/Schedule.thy ===== *)
theory Schedule
  imports Prelude
begin

text \<open>
  Schedule arithmetic of recurring tasks: \<^verbatim>\<open>app/automations/schedule.py\<close>. Instants are microseconds of UTC
  since 1970, wall times microseconds of the local calendar since 1970 with the fold of an ambiguous hour. The time zone
  database and the third-party cron evaluator are arguments.
\<close>

section \<open>Time zones and wall times\<close>

definition SEC :: int where "SEC = 1000000"
definition DAY :: int where "DAY = 86400000000"

text \<open>\<open>astimezone\<close> into a zone (the wall time and its fold) and back.\<close>

record zone =
  z_wall :: "int \<Rightarrow> int"
  z_fold :: "int \<Rightarrow> nat"
  z_utc :: "int \<Rightarrow> nat \<Rightarrow> int"

definition utc_zone :: zone where
  "utc_zone = \<lparr>z_wall = (\<lambda>u. u), z_fold = (\<lambda>_. 0), z_utc = (\<lambda>w _. w)\<rparr>"

text \<open>The zone database, and \<open>croniter\<close>: the next instant of an expression after one; \<open>None\<close> when it raises.\<close>

record schedule_env =
  en_zone :: "string \<Rightarrow> zone option"
  en_cron :: "string \<Rightarrow> zone \<Rightarrow> int \<Rightarrow> int option"

definition tz_of :: "schedule_env \<Rightarrow> string \<Rightarrow> zone" where
  "tz_of env name = (case en_zone env (if name = [] then ''UTC'' else name) of None \<Rightarrow> utc_zone | Some z \<Rightarrow> z)"

text \<open>\<open>int(s)\<close> on ASCII text: blanks around it, a sign, digits with single underscores between them.\<close>

definition py_int :: "string \<Rightarrow> int option" where
  "py_int s =
     (let t = py_strip s;
          negative = (t \<noteq> [] \<and> hd t = CHR ''-'');
          d = (if t \<noteq> [] \<and> hd t \<in> {CHR ''-'', CHR ''+''} then tl t else t)
      in if list_all (\<lambda>p. p \<noteq> [] \<and> list_all is_digit p) (split_on (CHR ''_'') d)
         then (let n = int_of_digits 0 (filter is_digit d) in Some (if negative then - n else n))
         else None)"

definition parse_hhmm :: "string \<Rightarrow> int \<times> int" where
  "parse_hhmm value =
     (case map py_int (split_on (CHR '':'') (if value = [] then ''08:00'' else value)) of
        [Some h, Some m] \<Rightarrow> (if 0 \<le> h \<and> h \<le> 23 \<and> 0 \<le> m \<and> m \<le> 59 then (h, m) else (8, 0))
      | _ \<Rightarrow> (8, 0))"

definition tod_of :: "string \<Rightarrow> int" where
  "tod_of value = (let (h, m) = parse_hhmm value in (h * 3600 + m * 60) * SEC)"

text \<open>\<open>datetime.replace\<close> of the time of day, and \<open>datetime.weekday\<close> (1970-01-01 was a Thursday).\<close>

definition at_time :: "int \<Rightarrow> int \<Rightarrow> int" where
  "at_time wall tod = wall div DAY * DAY + tod"

definition weekday_of :: "int \<Rightarrow> int" where
  "weekday_of wall = (wall div DAY + 3) mod 7"

section \<open>The next run\<close>

record schedule =
  sk_kind :: string
  sk_cron :: string
  sk_time :: string
  sk_weekday :: "int option"
  sk_zone :: string
  sk_start :: "int option"
  sk_end :: "int option"

text \<open>
  The weekly loop: at most eight days are tried. Moving to another day yields fold 0, as arithmetic on
  a \<open>datetime\<close> does.
\<close>

fun roll_to :: "nat \<Rightarrow> int \<Rightarrow> int \<Rightarrow> int \<times> nat \<Rightarrow> int \<times> nat" where
  "roll_to 0 target_wd local_now day = day"
| "roll_to (Suc n) target_wd local_now day =
     (if weekday_of (fst day) = target_wd \<and> local_now < fst day then day
      else roll_to n target_wd local_now (fst day + DAY, 0))"

definition next_wall :: "schedule \<Rightarrow> int \<times> nat \<Rightarrow> int \<times> nat" where
  "next_wall s local_now =
     (let day = (at_time (fst local_now) (tod_of (sk_time s)), snd local_now) in
      if sk_kind s = ''weekly'' then
        roll_to 8 (case sk_weekday s of None \<Rightarrow> 0 | Some d \<Rightarrow> d) (fst local_now) day
      else if fst day \<le> fst local_now then (fst day + DAY, 0) else day)"

text \<open>The instant the search begins: never more than a second before the start date.\<close>

definition search_from :: "schedule \<Rightarrow> int \<Rightarrow> int" where
  "search_from s after = (case sk_start s of None \<Rightarrow> after | Some start \<Rightarrow> if after < start then start - SEC else after)"

definition compute_next_run :: "schedule_env \<Rightarrow> schedule \<Rightarrow> int \<Rightarrow> int option" where
  "compute_next_run env s after =
     (let now_utc = search_from s after;
          z = tz_of env (sk_zone s);
          candidate =
            (if sk_kind s = ''cron'' then en_cron env (if sk_cron s = [] then ''0 8 * * *'' else sk_cron s) z now_utc
             else (let (w, fold) = next_wall s (z_wall z now_utc, z_fold z now_utc) in Some (z_utc z w fold)))
      in case (sk_end s, candidate) of
           (Some e, Some c) \<Rightarrow> (if e < c then None else Some c)
         | _ \<Rightarrow> candidate)"

text \<open>The preview of an unsaved schedule: \<open>None\<close> for an expression the cron evaluator does not accept.\<close>

fun preview_runs :: "schedule_env \<Rightarrow> nat \<Rightarrow> schedule \<Rightarrow> int \<Rightarrow> int list" where
  "preview_runs env 0 s cursor = []"
| "preview_runs env (Suc n) s cursor =
     (case compute_next_run env s cursor of None \<Rightarrow> [] | Some nxt \<Rightarrow> nxt # preview_runs env n s nxt)"

definition preview_schedule :: "schedule_env \<Rightarrow> (string \<Rightarrow> bool) \<Rightarrow> int \<Rightarrow> schedule \<Rightarrow> int list option" where
  "preview_schedule env cron_valid now s =
     (if sk_kind s = ''cron'' \<and> (py_strip (sk_cron s) = [] \<or> \<not> cron_valid (py_strip (sk_cron s))) then None
      else Some (preview_runs env 5 s now))"

section \<open>What the time zone database and the cron evaluator promise\<close>

text \<open>
  A later wall time with the same fold is a later instant, a wall time of a later day is a later instant in its
  first reading too (no ambiguous hour crosses midnight), and offsets are whole seconds.
\<close>

definition zone_ok :: "zone \<Rightarrow> bool" where
  "zone_ok z \<longleftrightarrow>
     (\<forall>u w. z_wall z u < w \<longrightarrow> u < z_utc z w (z_fold z u)) \<and>
     (\<forall>u w. z_wall z u div DAY < w div DAY \<longrightarrow> u < z_utc z w 0) \<and>
     (\<forall>w f. z_utc z w f mod SEC = w mod SEC)"

definition env_ok :: "schedule_env \<Rightarrow> bool" where
  "env_ok env \<longleftrightarrow>
     (\<forall>name z. en_zone env name = Some z \<longrightarrow> zone_ok z) \<and>
     (\<forall>e z u v. en_cron env e z u = Some v \<longrightarrow> u < v \<and> v mod SEC = 0)"

text \<open>Start dates are whole seconds.\<close>

definition schedule_ok :: "schedule \<Rightarrow> bool" where
  "schedule_ok s \<longleftrightarrow> (case sk_start s of None \<Rightarrow> True | Some t \<Rightarrow> t mod SEC = 0)"

lemma zone_okD:
  assumes "zone_ok z"
  shows "z_wall z u < w \<Longrightarrow> u < z_utc z w (z_fold z u)"
    and "z_wall z u div DAY < w div DAY \<Longrightarrow> u < z_utc z w 0"
    and "z_utc z w f mod SEC = w mod SEC"
  using assms unfolding zone_ok_def by blast+

lemma earlier_day: "u div DAY < w div DAY \<Longrightarrow> u < w"
proof (rule ccontr)
  assume "u div DAY < w div DAY" "\<not> u < w"
  moreover have "w div DAY \<le> u div DAY" if "w \<le> u" using that by (rule zdiv_mono1) (simp add: DAY_def)
  ultimately show False by simp
qed

lemma utc_zone_ok: "zone_ok utc_zone"
  by (simp add: zone_ok_def utc_zone_def) (blast intro: earlier_day)

lemma tz_ok: "env_ok env \<Longrightarrow> zone_ok (tz_of env name)"
  unfolding tz_of_def env_ok_def using utc_zone_ok by (cases "en_zone env (if name = [] then ''UTC'' else name)") (simp, fastforce)

text \<open>A zone whose clocks go back once, at an instant whose local hour does not reach midnight, keeps the promises.\<close>

definition fall_back_zone :: "int \<Rightarrow> int \<Rightarrow> int \<Rightarrow> zone" where
  "fall_back_zone t summer winter =
     \<lparr>z_wall = (\<lambda>u. if u < t then u + summer else u + winter),
      z_fold = (\<lambda>u. if t \<le> u \<and> u + winter < t + summer then 1 else 0),
      z_utc = (\<lambda>w f. if w < t + winter then w - summer
        else if w < t + summer then (if f = 0 then w - summer else w - winter) else w - winter)\<rparr>"

lemma fall_back_zone_ok:
  assumes "winter \<le> summer" "(t + winter) div DAY = (t + summer - 1) div DAY" "winter mod SEC = 0" "summer mod SEC = 0"
  shows "zone_ok (fall_back_zone t summer winter)"
proof -
  have "u < z_utc (fall_back_zone t summer winter) w 0" if d: "z_wall (fall_back_zone t summer winter) u div DAY < w div DAY" for u w
  proof -
    have "z_wall (fall_back_zone t summer winter) u < w" by (rule earlier_day [OF d])
    moreover have "t + summer \<le> w" if "t \<le> u"
    proof (rule ccontr)
      assume "\<not> t + summer \<le> w"
      then have "w div DAY \<le> (t + winter) div DAY" unfolding assms(2) by (intro zdiv_mono1) (auto simp: DAY_def)
      moreover have "(t + winter) div DAY \<le> (u + winter) div DAY" using that by (intro zdiv_mono1) (auto simp: DAY_def)
      ultimately show False using d that by (simp add: fall_back_zone_def)
    qed
    ultimately show ?thesis using assms(1) by (auto simp: fall_back_zone_def split: if_splits)
  qed
  moreover have "u < z_utc (fall_back_zone t summer winter) w (z_fold (fall_back_zone t summer winter) u)"
    if "z_wall (fall_back_zone t summer winter) u < w" for u w
    using that assms(1) by (auto simp: fall_back_zone_def split: if_splits)
  moreover have "(w - k) mod SEC = w mod SEC" if "k mod SEC = 0" for w k
    using mod_diff_right_eq [of w k SEC] that by simp
  ultimately show ?thesis unfolding zone_ok_def using assms(3,4) by (auto simp: fall_back_zone_def)
qed

section \<open>The next run is the first admissible one\<close>

definition tod_ok :: "int \<Rightarrow> bool" where
  "tod_ok tod \<longleftrightarrow> 0 \<le> tod \<and> tod < DAY \<and> tod mod SEC = 0"

lemma tod_of_ok: "tod_ok (tod_of value)"
proof -
  obtain h m where p: "parse_hhmm value = (h, m)" by (cases "parse_hhmm value")
  have "0 \<le> h \<and> h \<le> 23 \<and> 0 \<le> m \<and> m \<le> 59"
    using p unfolding parse_hhmm_def by (auto split: list.splits option.splits if_splits)
  then show ?thesis by (simp add: tod_of_def p tod_ok_def SEC_def DAY_def)
qed

lemma at_time_facts:
  assumes "tod_ok tod"
  shows "at_time w tod mod DAY = tod" "at_time w tod div DAY = w div DAY" "(at_time w tod + k * DAY) mod DAY = tod"
    "(at_time w tod + k * DAY) div DAY = w div DAY + k"
  using assms by (simp_all add: at_time_def tod_ok_def DAY_def)

text \<open>A wall time of the wanted weekday (any, for a daily schedule) and time of day.\<close>

definition admissible :: "schedule \<Rightarrow> int \<Rightarrow> bool" where
  "admissible s w \<longleftrightarrow> w mod DAY = tod_of (sk_time s) \<and>
     (sk_kind s = ''weekly'' \<longrightarrow> weekday_of w = (case sk_weekday s of None \<Rightarrow> 0 | Some d \<Rightarrow> d))"

definition weekday_ok :: "schedule \<Rightarrow> bool" where
  "weekday_ok s \<longleftrightarrow> (case sk_weekday s of None \<Rightarrow> True | Some d \<Rightarrow> 0 \<le> d \<and> d \<le> 6)"

lemma same_tod_step:
  assumes "a mod DAY = b mod DAY" "a < b"
  shows "a + DAY \<le> b"
proof -
  define p q where "p = a div DAY" and "q = b div DAY"
  have a: "a = 86400000000 * p + b mod DAY" and b: "b = 86400000000 * q + b mod DAY"
    unfolding p_def q_def using assms(1) mult_div_mod_eq [of DAY a] mult_div_mod_eq [of DAY b] by (simp_all add: DAY_def)
  have "p < q" using a b assms(2) by linarith
  then show ?thesis using a b unfolding DAY_def by linarith
qed

text \<open>The weekly loop ends on the first matching day, when a matching day is near.\<close>

lemma roll_to_first:
  assumes "\<And>j. j < k \<Longrightarrow> \<not> (weekday_of (d + int j * DAY) = wd \<and> l < d + int j * DAY)"
    and "weekday_of (d + int k * DAY) = wd" "l < d + int k * DAY" "k < n"
  shows "roll_to n wd l (d, f) = (d + int k * DAY, if k = 0 then f else 0)"
  using assms
proof (induction n arbitrary: d f k)
  case (Suc n)
  show ?case
  proof (cases k)
    case 0
    then show ?thesis using Suc.prems by simp
  next
    case (Suc j)
    have e: "d + DAY + int i * DAY = d + int (Suc i) * DAY" for i by (simp add: algebra_simps)
    have "roll_to n wd l (d + DAY, 0) = (d + DAY + int j * DAY, if j = 0 then 0 else 0)"
    proof (rule Suc.IH)
      show "\<not> (weekday_of (d + DAY + int i * DAY) = wd \<and> l < d + DAY + int i * DAY)" if "i < j" for i
        unfolding e by (rule Suc.prems(1)) (use that Suc in simp)
    qed (use Suc Suc.prems(2-4) in \<open>simp_all add: e\<close>)
    moreover have "\<not> (weekday_of d = wd \<and> l < d)" using Suc.prems(1) [of 0] Suc by simp
    moreover have "roll_to (Suc n) wd l (d, f) = roll_to n wd l (d + DAY, 0)"
      unfolding roll_to.simps fst_conv using calculation(2) by (rule if_not_P)
    ultimately show ?thesis using Suc by (simp add: e)
  qed
qed simp

lemma tod_reaches:
  assumes "tod_ok tod" "w mod DAY = tod" "l < w"
  shows "\<exists>j. w = at_time l tod + int j * DAY"
proof -
  have n: "0 \<le> w div DAY - l div DAY" using zdiv_mono1 [of l w DAY] assms(3) by (simp add: DAY_def)
  have "w = w div DAY * DAY + tod" using assms(2) by (metis div_mult_mod_eq)
  then have "w = at_time l tod + (w div DAY - l div DAY) * DAY" by (simp add: at_time_def algebra_simps)
  then show ?thesis using n by (metis int_nat_eq)
qed

lemma next_day_later: "tod_ok tod \<Longrightarrow> l < at_time l tod + DAY"
proof -
  assume "tod_ok tod"
  moreover have "l = DAY * (l div DAY) + l mod DAY" "l mod DAY < DAY" by (simp_all add: DAY_def)
  ultimately show ?thesis unfolding at_time_def tod_ok_def DAY_def by linarith
qed

lemma weekday_step: "tod_ok tod \<Longrightarrow> weekday_of (at_time l tod + int j * DAY) = (l div DAY + int j + 3) mod 7"
  by (simp add: weekday_of_def at_time_facts)

lemma first_day:
  assumes tod: "tod_ok tod" and wd: "0 \<le> wd" "wd \<le> 6"
  obtains k where "k < 8" "weekday_of (at_time l tod + int k * DAY) = wd" "l < at_time l tod + int k * DAY"
    "\<And>j. j < k \<Longrightarrow> \<not> (weekday_of (at_time l tod + int j * DAY) = wd \<and> l < at_time l tod + int j * DAY)"
proof -
  let ?P = "\<lambda>j. weekday_of (at_time l tod + int j * DAY) = wd \<and> l < at_time l tod + int j * DAY"
  define i where "i = nat ((wd - (l div DAY + 3)) mod 7)"
  have i: "int i = (wd - (l div DAY + 3)) mod 7" "i < 7" by (simp_all add: i_def nat_less_iff)
  have later: "l < at_time l tod + int j * DAY" if "0 < j" for j
  proof -
    have "1 * DAY \<le> int j * DAY" by (rule mult_right_mono) (use that in \<open>simp_all add: DAY_def\<close>)
    then show ?thesis using next_day_later [OF tod, of l] by simp
  qed
  have around: "(q + (wd - (q + 3)) mod 7 + 3) mod 7 = wd" "(q + ((wd - (q + 3)) mod 7 + 7) + 3) mod 7 = wd" for q :: int
  proof -
    have "(q + 3 + (wd - (q + 3)) mod 7) mod 7 = wd" unfolding mod_add_right_eq using wd by simp
    then show a: "(q + (wd - (q + 3)) mod 7 + 3) mod 7 = wd" by (simp add: algebra_simps)
    have "(q + ((wd - (q + 3)) mod 7 + 7) + 3) mod 7 = (q + (wd - (q + 3)) mod 7 + 3 + 7) mod 7" by (simp only: ac_simps)
    also have "\<dots> = (q + (wd - (q + 3)) mod 7 + 3) mod 7" by (rule mod_add_self2)
    finally show "(q + ((wd - (q + 3)) mod 7 + 7) + 3) mod 7 = wd" using a by simp
  qed
  have "(l div DAY + int i + 3) mod 7 = wd" "(l div DAY + int (i + 7) + 3) mod 7 = wd"
    using around [of "l div DAY"] unfolding of_nat_add i(1) by simp_all
  then have w: "weekday_of (at_time l tod + int i * DAY) = wd" "weekday_of (at_time l tod + int (i + 7) * DAY) = wd"
    unfolding weekday_step [OF tod] .
  have "\<exists>j<8. ?P j"
  proof (cases "l < at_time l tod + int i * DAY")
    case True
    then show ?thesis using w(1) i(2) by (intro exI [of _ i]) simp
  next
    case False
    then have "i = 0" using later by blast
    then show ?thesis using w(2) later [of 7] by (intro exI [of _ 7]) simp
  qed
  then obtain j where j: "j < 8" "?P j" by blast
  define k where "k = (LEAST j. ?P j)"
  have "?P k" unfolding k_def by (rule LeastI [of ?P, OF j(2)])
  moreover have "k \<le> j" unfolding k_def by (rule Least_le [of ?P, OF j(2)])
  moreover have "\<not> ?P m" if "m < k" for m using that unfolding k_def by (rule not_less_Least)
  ultimately show thesis using j(1) by (intro that [of k]) auto
qed

lemma next_wall_first:
  assumes n: "next_wall s (l, f) = (w, f')" and wd: "weekday_ok s"
  shows "l < w" "admissible s w" "\<And>v. l < v \<Longrightarrow> v < w \<Longrightarrow> \<not> admissible s v"
    "f' = f \<or> (f' = 0 \<and> l div DAY < w div DAY)"
proof -
  define tod where "tod = tod_of (sk_time s)"
  define d where "d = at_time l tod"
  define any where "any = (sk_kind s \<noteq> ''weekly'')"
  define target where "target = (case sk_weekday s of None \<Rightarrow> 0 | Some d \<Rightarrow> d)"
  define good where "good j \<longleftrightarrow> (any \<or> weekday_of (d + int j * DAY) = target) \<and> l < d + int j * DAY" for j
  have tod: "tod_ok tod" unfolding tod_def by (rule tod_of_ok)
  have target: "0 \<le> target" "target \<le> 6" using wd by (auto simp: target_def weekday_ok_def split: option.splits)
  have adm: "admissible s (d + int j * DAY) \<longleftrightarrow> any \<or> weekday_of (d + int j * DAY) = target" for j
    using at_time_facts(3) [OF tod, of l "int j"] unfolding admissible_def d_def any_def target_def tod_def by blast
  have "\<exists>k. w = d + int k * DAY \<and> good k \<and> (\<forall>j<k. \<not> good j) \<and> f' = (if k = 0 then f else 0)"
  proof (cases any)
    case True
    have nw: "(w, f') = (if d \<le> l then (d + DAY, 0) else (d, f))"
      using n True by (auto simp: next_wall_def any_def d_def tod_def Let_def split: if_splits)
    have "l < d + DAY" unfolding d_def by (rule next_day_later [OF tod])
    then show ?thesis
    proof (cases "d \<le> l")
      case True
      then show ?thesis using nw \<open>any\<close> \<open>l < d + DAY\<close> by (intro exI [of _ 1]) (simp add: good_def)
    next
      case False
      then show ?thesis using nw \<open>any\<close> by (intro exI [of _ 0]) (simp add: good_def)
    qed
  next
    case False
    obtain k where k: "k < 8" "weekday_of (d + int k * DAY) = target" "l < d + int k * DAY"
      "\<And>j. j < k \<Longrightarrow> \<not> (weekday_of (d + int j * DAY) = target \<and> l < d + int j * DAY)"
      by (rule first_day [OF tod target, where l = l, folded d_def]) (rule that)
    have "(w, f') = roll_to 8 target l (d, f)"
      using n False by (simp add: next_wall_def any_def d_def tod_def target_def Let_def)
    also have "\<dots> = (d + int k * DAY, if k = 0 then f else 0)" by (rule roll_to_first [OF k(4,2,3,1)])
    finally show ?thesis using k False unfolding good_def by (intro exI [of _ k]) simp
  qed
  then obtain k where k: "w = d + int k * DAY" "good k" "\<And>j. j < k \<Longrightarrow> \<not> good j" "f' = (if k = 0 then f else 0)" by blast
  show "l < w" "admissible s w" using k(1,2) adm unfolding good_def by simp_all
  show "f' = f \<or> (f' = 0 \<and> l div DAY < w div DAY)"
    using k(4) at_time_facts(4) [OF tod, of l "int k"] unfolding k(1) d_def by (cases k) auto
  fix v assume v: "l < v" "v < w"
  show "\<not> admissible s v"
  proof
    assume a: "admissible s v"
    then have "v mod DAY = tod" by (simp add: admissible_def tod_def)
    then obtain j where j: "v = d + int j * DAY" using tod_reaches [OF tod _ v(1)] unfolding d_def by blast
    then have "j < k" using v(2) unfolding k(1) by (simp add: DAY_def)
    then show False using k(3) [of j] v(1) a adm unfolding j good_def by blast
  qed
qed

lemma compute_next_run_later:
  assumes env: "env_ok env" and wd: "weekday_ok s \<or> sk_kind s = ''cron''" and c: "compute_next_run env s after = Some c"
  shows "search_from s after < c" "c mod SEC = 0" "case sk_end s of None \<Rightarrow> True | Some e \<Rightarrow> c \<le> e"
proof -
  let ?z = "tz_of env (sk_zone s)" let ?u = "search_from s after"
  show "case sk_end s of None \<Rightarrow> True | Some e \<Rightarrow> c \<le> e"
    using c by (auto simp: compute_next_run_def Let_def split: option.splits if_splits)
  show "?u < c" "c mod SEC = 0"
  proof (atomize (full), cases "sk_kind s = ''cron''")
    case True
    then have "en_cron env (if sk_cron s = [] then ''0 8 * * *'' else sk_cron s) ?z ?u = Some c"
      using c by (auto simp: compute_next_run_def Let_def split: option.splits if_splits)
    then show "?u < c \<and> c mod SEC = 0" using env unfolding env_ok_def by blast
  next
    case False
    obtain w f where n: "next_wall s (z_wall ?z ?u, z_fold ?z ?u) = (w, f)"
      by (cases "next_wall s (z_wall ?z ?u, z_fold ?z ?u)")
    have cw: "c = z_utc ?z w f"
      using c False n by (auto simp: compute_next_run_def Let_def split: option.splits if_splits)
    have "weekday_ok s" using wd False by blast
    note first = next_wall_first [OF n this]
    note z = zone_okD [OF tz_ok [OF env, of "sk_zone s"]]
    have "?u < c" using first(4) z(1) [OF first(1)] z(2) [of ?u w] unfolding cw by blast
    moreover have "w mod SEC = 0"
    proof -
      have "w mod DAY mod SEC = 0" using first(2) tod_of_ok [of "sk_time s"] by (simp add: admissible_def tod_ok_def)
      moreover have "w mod DAY mod SEC = w mod SEC" by (rule mod_mod_cancel) (simp add: DAY_def SEC_def)
      ultimately show ?thesis by simp
    qed
    ultimately show "?u < c \<and> c mod SEC = 0" unfolding cw z(3) by blast
  qed
qed

lemma next_run_later:
  assumes env: "env_ok env" and s: "schedule_ok s" and wd: "weekday_ok s \<or> sk_kind s = ''cron''"
    and c: "compute_next_run env s after = Some c"
  shows "after < c" "case sk_start s of None \<Rightarrow> True | Some t \<Rightarrow> t \<le> c"
proof -
  note later = compute_next_run_later [OF env wd c]
  have b: "t \<le> c" if "sk_start s = Some t" "after < t" for t
  proof -
    have "t - SEC < c" "t mod SEC = 0" using later(1) s that by (simp_all add: search_from_def schedule_ok_def)
    moreover have "c = SEC * (c div SEC)" "t = SEC * (t div SEC)"
      using later(2) calculation(2) by (metis mult_div_mod_eq add.right_neutral)+
    moreover have "t div SEC \<le> c div SEC" if "t div SEC - 1 < c div SEC" using that by simp
    ultimately show "t \<le> c" unfolding SEC_def by linarith
  qed
  show "after < c"
    using b later(1) by (auto simp: search_from_def split: option.splits if_splits)
  show "case sk_start s of None \<Rightarrow> True | Some t \<Rightarrow> t \<le> c"
    using b later(1) by (fastforce simp: search_from_def split: option.splits if_splits)
qed

lemma preview_increasing:
  assumes "env_ok env" "schedule_ok s" "weekday_ok s \<or> sk_kind s = ''cron''"
  shows "sorted_wrt (<) (after # preview_runs env n s after)"
proof (induction n arbitrary: after)
  case (Suc n)
  show ?case
  proof (cases "compute_next_run env s after")
    case (Some c)
    have "after < c" by (rule next_run_later(1) [OF assms Some])
    then show ?thesis using Suc.IH [of c] Some by auto
  qed simp
qed simp

text \<open>
  Lemma. The next run is the first one. Whatever the time zone, a daily or weekly schedule runs next at the first
  wall time after the present that has its time of day (and weekday), strictly later than the given instant, not before
  its start date, and never after its end date.
\<close>
lemma next_run_is_first:
  assumes "env_ok env" "schedule_ok s" "weekday_ok s" "sk_kind s \<noteq> ''cron''"
  shows "\<exists>w f. let z = tz_of env (sk_zone s); l = z_wall z (search_from s after); c = z_utc z w f in
    l < w \<and> admissible s w \<and> (\<forall>v. if l < v \<and> v < w then \<not> admissible s v else True) \<and>
    compute_next_run env s after = (case sk_end s of None \<Rightarrow> Some c | Some e \<Rightarrow> (if e < c then None else Some c)) \<and>
    after < c \<and> (case sk_start s of None \<Rightarrow> True | Some t \<Rightarrow> t \<le> c)"
proof -
  define z where "z = tz_of env (sk_zone s)"
  define u where "u = search_from s after"
  obtain w f where n: "next_wall s (z_wall z u, z_fold z u) = (w, f)"
    by (cases "next_wall s (z_wall z u, z_fold z u)")
  note first = next_wall_first [OF n assms(3)]
  have c: "compute_next_run env s after = (case sk_end s of None \<Rightarrow> Some (z_utc z w f) | Some e \<Rightarrow> (if e < z_utc z w f then None else Some (z_utc z w f)))"
    using assms(4) n by (simp add: compute_next_run_def z_def u_def Let_def split: option.splits)
  have "compute_next_run env (s\<lparr>sk_end := None\<rparr>) after = Some (z_utc z w f)"
  proof -
    have "next_wall (s\<lparr>sk_end := None\<rparr>) = next_wall s" by (rule ext) (simp add: next_wall_def cong: if_cong)
    moreover have "search_from (s\<lparr>sk_end := None\<rparr>) after = u" by (simp add: u_def search_from_def)
    ultimately show ?thesis using assms(4) n by (simp add: compute_next_run_def z_def Let_def)
  qed
  moreover have "schedule_ok (s\<lparr>sk_end := None\<rparr>)" "weekday_ok (s\<lparr>sk_end := None\<rparr>)"
    using assms(2,3) by (simp_all add: schedule_ok_def weekday_ok_def)
  ultimately have "after < z_utc z w f" "case sk_start s of None \<Rightarrow> True | Some t \<Rightarrow> t \<le> z_utc z w f"
    using next_run_later [OF assms(1), of "s\<lparr>sk_end := None\<rparr>" after "z_utc z w f"] by simp_all
  then show ?thesis
    using first(1-3) c unfolding z_def [symmetric] u_def [symmetric] Let_def by (intro exI [of _ w] exI [of _ f]) simp
qed

section \<open>Concrete schedules\<close>

definition demo_env :: schedule_env where
  "demo_env = \<lparr>en_zone = (\<lambda>name. if name = ''Europe/Berlin'' then Some (fall_back_zone (60 * DAY) (7200 * SEC) (3600 * SEC)) else None),
     en_cron = (\<lambda>_ _ _. None)\<rparr>"

definition demo_schedule :: schedule where
  "demo_schedule = \<lparr>sk_kind = ''weekly'', sk_cron = [], sk_time = ''08:30'', sk_weekday = Some 2, sk_zone = ''Europe/Berlin'',
     sk_start = None, sk_end = None\<rparr>"

lemma demo_env_ok: "env_ok demo_env"
proof -
  have "zone_ok (fall_back_zone (60 * DAY) (7200 * SEC) (3600 * SEC))"
    by (rule fall_back_zone_ok) (simp_all add: DAY_def SEC_def)
  then show ?thesis by (simp add: env_ok_def demo_env_def)
qed

lemma next_run_is_first_witness:
  "compute_next_run demo_env demo_schedule (58 * DAY) = Some (62 * DAY + (7 * 3600 + 1800) * SEC) \<and>
   (\<exists>w. 58 * DAY < w \<and> admissible demo_schedule w)"
proof
  show "compute_next_run demo_env demo_schedule (58 * DAY) = Some (62 * DAY + (7 * 3600 + 1800) * SEC)" by code_simp
  let ?l = "z_wall (tz_of demo_env (sk_zone demo_schedule)) (search_from demo_schedule (58 * DAY))"
  have l: "?l = 58 * DAY + 7200 * SEC" by code_simp
  have ok: "schedule_ok demo_schedule" "weekday_ok demo_schedule" "sk_kind demo_schedule \<noteq> ''cron''" by code_simp+
  obtain w where "?l < w" "admissible demo_schedule w"
    using next_run_is_first [OF demo_env_ok ok, of "58 * DAY"] unfolding Let_def by blast
  moreover have "58 * DAY < ?l" unfolding l by (simp add: SEC_def)
  ultimately show "\<exists>w. 58 * DAY < w \<and> admissible demo_schedule w" by (meson less_trans)
qed

text \<open>
  A start date with a fraction of a second: the search begins a second earlier, so a daily run at 08:00 with a start
  half a second later is its own successor, and is before the start. A weekday outside 0 to 6 runs on the eighth
  day, whatever weekday that is.
\<close>

lemma fractional_start_repeats:
  "compute_next_run demo_env \<lparr>sk_kind = ''daily'', sk_cron = [], sk_time = ''08:00'', sk_weekday = None, sk_zone = ''UTC'',
     sk_start = Some (8 * 3600 * SEC + 500000), sk_end = None\<rparr> (8 * 3600 * SEC) = Some (8 * 3600 * SEC)"
  by code_simp

lemma weekday_out_of_range:
  "compute_next_run demo_env \<lparr>sk_kind = ''weekly'', sk_cron = [], sk_time = ''08:00'', sk_weekday = Some 7, sk_zone = ''UTC'',
     sk_start = None, sk_end = None\<rparr> 0 = Some (8 * DAY + 8 * 3600 * SEC)"
  by code_simp

end
