(* ===== verification/Scheduler.thy ===== *)
theory Scheduler
  imports Schedule Leases "HOL-Library.Product_Lexorder"
begin

text \<open>
  The scheduler of recurring tasks, shared by several replicas through the database: claims, heartbeats and releases of
  \<^verbatim>\<open>app/automations/scheduler.py\<close>, the bookkeeping of a run in \<^verbatim>\<open>app/automations/runner.py\<close> and the
  task handlers of \<^verbatim>\<open>app/api/automations.py\<close>. What a run does is left to its outcome. Every operation
  is one database transaction; instants are microseconds.
\<close>

section \<open>Rows\<close>

record stask =
  st_id :: string
  st_tenant :: string
  st_target_type :: string
  st_schedule :: schedule
  st_max_runs :: "int option"
  st_status :: string
  st_completed :: int
  st_last_run :: "int option"
  st_next :: "int option"
  st_owner :: "string option"
  st_token :: "string option"
  st_expires :: "int option"
  st_heartbeat :: "int option"
  st_occurrence :: "int option"
  st_deleted :: "int option"

record task_run =
  tr_id :: string
  tr_task :: string
  tr_tenant :: string
  tr_trigger :: string
  tr_status :: string
  tr_ended :: "int option"

record sched_db =
  sd_tasks :: "stask list"
  sd_runs :: "task_run list"

definition MAX_CONCURRENT_RUNS :: nat where "MAX_CONCURRENT_RUNS = 4"
definition LEASE :: int where "LEASE = 60 * SEC"

section \<open>Claiming\<close>

definition lease_free :: "int \<Rightarrow> stask \<Rightarrow> bool" where
  "lease_free now t \<longleftrightarrow> st_owner t = None \<or> (case st_expires t of None \<Rightarrow> True | Some e \<Rightarrow> e \<le> now)"

definition eligible :: "int \<Rightarrow> stask \<Rightarrow> bool" where
  "eligible now t \<longleftrightarrow> st_status t = ''on'' \<and>
     ((st_occurrence t \<noteq> None \<and> lease_free now t) \<or>
      (st_occurrence t = None \<and> (case st_next t of None \<Rightarrow> False | Some n \<Rightarrow> n \<le> now) \<and> lease_free now t))"

text \<open>\<open>ORDER BY next_run_at\<close>: where NULL sorts depends on the database.\<close>

definition claim_key :: "bool \<Rightarrow> stask \<Rightarrow> nat \<times> int" where
  "claim_key nulls_first t = (case st_next t of None \<Rightarrow> (if nulls_first then 0 else 2, 0) | Some n \<Rightarrow> (1, n))"

record claim =
  cl_task :: string
  cl_type :: string
  cl_token :: string
  cl_occurrence :: int

definition claimed :: "schedule_env \<Rightarrow> string \<Rightarrow> string \<Rightarrow> int \<Rightarrow> int \<Rightarrow> stask \<Rightarrow> stask" where
  "claimed env worker token now occurrence t =
     t\<lparr>st_owner := Some worker, st_token := Some token, st_expires := Some (now + LEASE), st_heartbeat := Some now,
       st_occurrence := Some occurrence,
       st_next := (if st_occurrence t = None then compute_next_run env (st_schedule t) occurrence else st_next t)\<rparr>"

definition claim_due ::
  "schedule_env \<Rightarrow> bool \<Rightarrow> string \<Rightarrow> string \<Rightarrow> int \<Rightarrow> stask list \<Rightarrow> (claim \<times> stask list) option" where
  "claim_due env nulls_first worker token now tasks =
     (case sort_key (claim_key nulls_first) (filter (eligible now) tasks) of
        [] \<Rightarrow> None
      | t # _ \<Rightarrow>
          (case (case st_occurrence t of None \<Rightarrow> st_next t | Some oc \<Rightarrow> Some oc) of
             None \<Rightarrow> None
           | Some occurrence \<Rightarrow>
               (let mine = (\<lambda>x. st_id x = st_id t \<and> eligible now x) in
                if rowcount mine tasks \<noteq> 1 then None
                else Some (\<lparr>cl_task = st_id t, cl_type = (if st_target_type t = [] then ''agent'' else st_target_type t),
                    cl_token = token, cl_occurrence = occurrence\<rparr>,
                  update_rows mine (claimed env worker token now occurrence) tasks))))"

text \<open>One tick: claims until the replica runs four tasks or nothing is due; each draws a token at its own instant.\<close>

fun claim_up_to ::
  "schedule_env \<Rightarrow> bool \<Rightarrow> string \<Rightarrow> (string \<times> int) list \<Rightarrow> stask list \<Rightarrow> claim list \<times> stask list" where
  "claim_up_to env nulls_first worker [] tasks = ([], tasks)"
| "claim_up_to env nulls_first worker ((token, now) # draws) tasks =
     (case claim_due env nulls_first worker token now tasks of
        None \<Rightarrow> ([], tasks)
      | Some (c, tasks1) \<Rightarrow>
          (let (cs, tasks2) = claim_up_to env nulls_first worker draws tasks1 in (c # cs, tasks2)))"

definition sched_tick ::
  "schedule_env \<Rightarrow> bool \<Rightarrow> string \<Rightarrow> string list \<Rightarrow> (string \<times> int) list \<Rightarrow> stask list \<Rightarrow> claim list \<times> stask list" where
  "sched_tick env nulls_first worker running_ids draws tasks =
     claim_up_to env nulls_first worker (take (MAX_CONCURRENT_RUNS - length running_ids) draws) tasks"

section \<open>Keeping and giving up a lease\<close>

definition held_by :: "string \<Rightarrow> string \<Rightarrow> string \<Rightarrow> stask \<Rightarrow> bool" where
  "held_by i worker token t \<longleftrightarrow> st_id t = i \<and> st_owner t = Some worker \<and> st_token t = Some token"

text \<open>One beat; the loop ends when the row no longer carries the token.\<close>

definition sched_heartbeat :: "string \<Rightarrow> string \<Rightarrow> string \<Rightarrow> int \<Rightarrow> stask list \<Rightarrow> stask list \<times> bool" where
  "sched_heartbeat i worker token now tasks =
     (update_rows (held_by i worker token) (\<lambda>t. t\<lparr>st_heartbeat := Some now, st_expires := Some (now + LEASE)\<rparr>) tasks,
      rowcount (held_by i worker token) tasks = 1)"

definition unlease :: "stask \<Rightarrow> stask" where
  "unlease t = t\<lparr>st_owner := None, st_token := None, st_expires := None, st_heartbeat := None\<rparr>"

definition release_claim :: "string \<Rightarrow> string \<Rightarrow> string \<Rightarrow> stask list \<Rightarrow> stask list" where
  "release_claim i worker token tasks = update_rows (held_by i worker token) unlease tasks"

definition release_owned_claims :: "string \<Rightarrow> stask list \<Rightarrow> stask list" where
  "release_owned_claims worker tasks = update_rows (\<lambda>t. st_owner t = Some worker) unlease tasks"

section \<open>A run\<close>

text \<open>\<open>_load_task\<close>: a manual run carries neither owner nor token.\<close>

definition load_task :: "string option \<Rightarrow> string option \<Rightarrow> int \<Rightarrow> string \<Rightarrow> stask list \<Rightarrow> stask option" where
  "load_task lease_owner lease_token now i tasks =
     (if lease_owner = None \<and> lease_token = None then find (\<lambda>t. st_id t = i) tasks
      else if lease_owner \<in> {None, Some []} \<or> lease_token \<in> {None, Some []} then None
      else find (\<lambda>t. st_id t = i \<and> st_owner t = lease_owner \<and> st_token t = lease_token \<and> st_occurrence t \<noteq> None \<and>
        (case st_expires t of None \<Rightarrow> False | Some e \<Rightarrow> now < e)) tasks)"

definition complete_task_schedule :: "schedule_env \<Rightarrow> string option \<Rightarrow> string option \<Rightarrow> int \<Rightarrow> stask \<Rightarrow> stask" where
  "complete_task_schedule env lease_owner lease_token now t =
     (let t1 = t\<lparr>st_completed := st_completed t + 1\<rparr>;
          reached_limit = (case st_max_runs t of None \<Rightarrow> False | Some n \<Rightarrow> n \<le> st_completed t1);
          t2 = (if lease_owner \<noteq> None \<and> lease_token \<noteq> None
            then (unlease t1)\<lparr>st_next := (if reached_limit then None else st_next t1), st_occurrence := None\<rparr>
            else t1\<lparr>st_next := (if reached_limit then None else compute_next_run env (st_schedule t1) now)\<rparr>)
      in if st_next t2 = None \<and> st_status t2 = ''on'' then t2\<lparr>st_status := ''ended''\<rparr> else t2)"

definition with_id :: "string \<Rightarrow> (stask \<Rightarrow> stask) \<Rightarrow> stask list \<Rightarrow> stask list" where
  "with_id i f tasks = update_rows (\<lambda>t. st_id t = i) f tasks"

text \<open>The first and the last transaction of \<open>run_task\<close> and \<open>run_target_task\<close>; \<open>None\<close> is the error.\<close>

definition begin_run ::
  "string \<Rightarrow> string \<Rightarrow> string option \<Rightarrow> string option \<Rightarrow> int \<Rightarrow> string \<Rightarrow> sched_db \<Rightarrow> sched_db option" where
  "begin_run run_id trigger lease_owner lease_token now i db =
     (case load_task lease_owner lease_token now i (sd_tasks db) of
        None \<Rightarrow> None
      | Some t \<Rightarrow> Some \<lparr>sd_tasks = with_id i (\<lambda>t. t\<lparr>st_last_run := Some now\<rparr>) (sd_tasks db),
          sd_runs = sd_runs db @ [\<lparr>tr_id = run_id, tr_task = i, tr_tenant = st_tenant t, tr_trigger = trigger,
            tr_status = ''running'', tr_ended = None\<rparr>]\<rparr>)"

definition finish_run ::
  "schedule_env \<Rightarrow> string \<Rightarrow> string \<Rightarrow> string option \<Rightarrow> string option \<Rightarrow> int \<Rightarrow> string \<Rightarrow> sched_db \<Rightarrow> sched_db" where
  "finish_run env run_id outcome lease_owner lease_token now i db =
     (let ended = update_rows (\<lambda>r. tr_id r = run_id) (\<lambda>r. r\<lparr>tr_status := outcome, tr_ended := Some now\<rparr>) (sd_runs db) in
      case load_task lease_owner lease_token now i (sd_tasks db) of
        None \<Rightarrow> (if lease_owner \<noteq> None then db else db\<lparr>sd_runs := ended\<rparr>)
      | Some t \<Rightarrow> \<lparr>sd_tasks = with_id i (complete_task_schedule env lease_owner lease_token now) (sd_tasks db),
          sd_runs = ended\<rparr>)"

section \<open>Administration\<close>

definition reschedule :: "schedule_env \<Rightarrow> int \<Rightarrow> stask \<Rightarrow> stask" where
  "reschedule env now t =
     (let n = compute_next_run env (st_schedule t) now in
      if n = None then t\<lparr>st_next := None, st_status := ''ended''\<rparr> else t\<lparr>st_next := n\<rparr>)"

definition backfill_next_runs :: "schedule_env \<Rightarrow> int \<Rightarrow> stask list \<Rightarrow> stask list" where
  "backfill_next_runs env now tasks =
     update_rows (\<lambda>t. st_status t = ''on'' \<and> st_occurrence t = None \<and> st_next t = None) (reschedule env now) tasks"

definition TARGET_TYPES :: "string list" where
  "TARGET_TYPES = [''agent'', ''assessment'', ''workbook'', ''playbook'', ''radar'', ''mission'', ''insight_pack'']"

record task_upsert =
  tu_id :: string
  tu_target_type :: string
  tu_kind :: string
  tu_cron :: "string option"
  tu_time :: "string option"
  tu_weekday :: "int option"
  tu_zone :: string
  tu_start :: "int option"
  tu_end :: "int option"
  tu_max_runs :: "int option"
  tu_status :: "string option"

datatype task_error = Unknown_Schedule_Type | Invalid_Configuration | Task_Not_Found

definition given :: "'a option \<Rightarrow> 'a \<Rightarrow> 'a" where
  "given v old = (case v of None \<Rightarrow> old | Some x \<Rightarrow> x)"

definition given_opt :: "'a option \<Rightarrow> 'a option \<Rightarrow> 'a option" where
  "given_opt v old = (case v of None \<Rightarrow> old | Some x \<Rightarrow> Some x)"

text \<open>Fields that are absent keep their value.\<close>

definition set_fields :: "task_upsert \<Rightarrow> stask \<Rightarrow> stask" where
  "set_fields p t =
     (let s = st_schedule t in
      t\<lparr>st_target_type := tu_target_type p,
        st_schedule := \<lparr>sk_kind = tu_kind p, sk_cron = given (tu_cron p) (sk_cron s), sk_time = given (tu_time p) (sk_time s),
          sk_weekday = given_opt (tu_weekday p) (sk_weekday s), sk_zone = tu_zone p,
          sk_start = given_opt (tu_start p) (sk_start s), sk_end = given_opt (tu_end p) (sk_end s)\<rparr>,
        st_max_runs := given_opt (tu_max_runs p) (st_max_runs t), st_status := given (tu_status p) (st_status t)\<rparr>)"

definition blank_task :: "string \<Rightarrow> string \<Rightarrow> stask" where
  "blank_task i tenant = \<lparr>st_id = i, st_tenant = tenant, st_target_type = ''agent'',
     st_schedule = \<lparr>sk_kind = ''daily'', sk_cron = [], sk_time = [], sk_weekday = None, sk_zone = ''UTC'', sk_start = None, sk_end = None\<rparr>,
     st_max_runs = None, st_status = ''on'', st_completed = 0, st_last_run = None, st_next = None, st_owner = None, st_token = None,
     st_expires = None, st_heartbeat = None, st_occurrence = None, st_deleted = None\<rparr>"

definition visible_task :: "string \<Rightarrow> string \<Rightarrow> stask list \<Rightarrow> bool" where
  "visible_task tenant i tasks \<longleftrightarrow>
     (case find (\<lambda>t. st_id t = i) tasks of None \<Rightarrow> False | Some t \<Rightarrow> st_tenant t = tenant \<and> st_deleted t = None)"

definition owned_task :: "string \<Rightarrow> string \<Rightarrow> stask list \<Rightarrow> bool" where
  "owned_task tenant i tasks \<longleftrightarrow> (case find (\<lambda>t. st_id t = i) tasks of None \<Rightarrow> False | Some t \<Rightarrow> st_tenant t = tenant)"

definition if_on :: "schedule_env \<Rightarrow> int \<Rightarrow> stask \<Rightarrow> stask" where
  "if_on env now t = (if st_status t = ''on'' then reschedule env now t else t)"

definition upsert_task ::
  "schedule_env \<Rightarrow> (string \<Rightarrow> bool) \<Rightarrow> string \<Rightarrow> string \<Rightarrow> int \<Rightarrow> task_upsert \<Rightarrow> stask list \<Rightarrow> (task_error, stask list) result" where
  "upsert_task env config_ok tenant new_id now p tasks =
     (if tu_target_type p \<notin> set TARGET_TYPES then Inl Unknown_Schedule_Type
      else if tu_target_type p \<noteq> ''agent'' \<and> \<not> config_ok (tu_target_type p) then Inl Invalid_Configuration
      else if tu_id p \<noteq> [] then
        (if visible_task tenant (tu_id p) tasks then Inr (with_id (tu_id p) (\<lambda>t. if_on env now (set_fields p t)) tasks)
         else Inl Task_Not_Found)
      else Inr (tasks @ [if_on env now (set_fields p (blank_task new_id tenant))]))"

definition toggle_task :: "schedule_env \<Rightarrow> string \<Rightarrow> int \<Rightarrow> string \<Rightarrow> stask list \<Rightarrow> (task_error, stask list) result" where
  "toggle_task env tenant now i tasks =
     (if visible_task tenant i tasks then
        Inr (with_id i (\<lambda>t. if st_status t = ''on'' then t\<lparr>st_status := ''off'', st_next := None\<rparr>
          else reschedule env now (t\<lparr>st_status := ''on''\<rparr>)) tasks)
      else Inl Task_Not_Found)"

definition delete_task :: "string \<Rightarrow> int \<Rightarrow> string \<Rightarrow> stask list \<Rightarrow> (task_error, stask list) result" where
  "delete_task tenant now i tasks =
     (if owned_task tenant i tasks then
        Inr (with_id i (\<lambda>t. t\<lparr>st_status := ''deleted'', st_next := None, st_deleted := Some now\<rparr>) tasks)
      else Inl Task_Not_Found)"

definition restore_task :: "string \<Rightarrow> string \<Rightarrow> stask list \<Rightarrow> (task_error, stask list) result" where
  "restore_task tenant i tasks =
     (if owned_task tenant i tasks then
        Inr (with_id i (\<lambda>t. t\<lparr>st_deleted := None, st_status := ''off'', st_next := None\<rparr>) tasks)
      else Inl Task_Not_Found)"

definition purge_task :: "string \<Rightarrow> string \<Rightarrow> sched_db \<Rightarrow> (task_error, sched_db) result" where
  "purge_task tenant i db =
     (if owned_task tenant i (sd_tasks db) then
        Inr \<lparr>sd_tasks = filter (\<lambda>t. st_id t \<noteq> i) (sd_tasks db),
          sd_runs = filter (\<lambda>r. \<not> (tr_task r = i \<and> tr_tenant r = tenant)) (sd_runs db)\<rparr>
      else Inl Task_Not_Found)"

text \<open>The manual start: the run itself is a manual \<open>begin_run\<close> and \<open>finish_run\<close>.\<close>

definition run_task_now :: "string \<Rightarrow> string \<Rightarrow> stask list \<Rightarrow> (task_error, string) result" where
  "run_task_now tenant i tasks =
     (if visible_task tenant i tasks then
        Inr (case find (\<lambda>t. st_id t = i) tasks of None \<Rightarrow> ''agent''
          | Some t \<Rightarrow> if st_target_type t = [] then ''agent'' else st_target_type t)
      else Inl Task_Not_Found)"

end
