(* ===== verification/Scheduler_Safety.thy ===== *)
theory Scheduler_Safety
  imports Scheduler
begin

text \<open>
  What the scheduler guarantees over any interleaving of its replicas, the runs and the task handlers: the occurrences
  of a task are completed in order and each at most once, by the holder of the latest claim only, and an occurrence
  that was claimed stays pending until it is completed.
\<close>

section \<open>Steps and histories\<close>

definition valid_schedule :: "schedule \<Rightarrow> bool" where
  "valid_schedule s \<longleftrightarrow> schedule_ok s \<and> (weekday_ok s \<or> sk_kind s = ''cron'')"

text \<open>
  One transaction at an instant: the token it draws, and the task and occurrence it completes. A row is completed
  under the token of the claim that runs it, or by a manual run.
\<close>

inductive sched_step :: "schedule_env \<Rightarrow> int \<Rightarrow> string option \<Rightarrow> stask list \<Rightarrow> (string \<times> int) list \<Rightarrow> stask list \<Rightarrow> bool"
  for env now where
  claims: "claim_due env nf worker token now ts = Some (c, ts') \<Longrightarrow> sched_step env now (Some token) ts [] ts'"
| beats: "sched_step env now None ts [] (fst (sched_heartbeat i worker token now ts))"
| releases: "sched_step env now None ts [] (release_claim i worker token ts)"
| shuts_down: "sched_step env now None ts [] (release_owned_claims worker ts)"
| begins: "begin_run run_id trigger lo lt now i \<lparr>sd_tasks = ts, sd_runs = rs\<rparr> = Some db' \<Longrightarrow>
    sched_step env now None ts [] (sd_tasks db')"
| completes: "load_task (Some worker) (Some token) now i ts = Some t \<Longrightarrow> st_occurrence t = Some oc \<Longrightarrow>
    sched_step env now None ts [(i, oc)] (sd_tasks (finish_run env run_id outcome (Some worker) (Some token) now i \<lparr>sd_tasks = ts, sd_runs = rs\<rparr>))"
| ends_manual_run: "sched_step env now None ts []
    (sd_tasks (finish_run env run_id outcome None None now i \<lparr>sd_tasks = ts, sd_runs = rs\<rparr>))"
| backfills: "sched_step env now None ts [] (backfill_next_runs env now ts)"
| upserts: "upsert_task env config_ok tenant new_id now p ts = Inr ts' \<Longrightarrow> new_id \<notin> set (map st_id ts) \<Longrightarrow>
    sched_step env now None ts [] ts'"
| toggles: "toggle_task env tenant now i ts = Inr ts' \<Longrightarrow> sched_step env now None ts [] ts'"
| deletes: "delete_task tenant now i ts = Inr ts' \<Longrightarrow> sched_step env now None ts [] ts'"
| restores: "restore_task tenant i ts = Inr ts' \<Longrightarrow> sched_step env now None ts [] ts'"
| purges: "purge_task tenant i \<lparr>sd_tasks = ts, sd_runs = rs\<rparr> = Inr db' \<Longrightarrow> sched_step env now None ts [] (sd_tasks db')"

text \<open>
  A history as one task sees it: the clock, the rows and the completions so far, oldest first. The id of a new row is not one
  that completed before under a deleted task. Whenever the task is stored, its schedule has whole-second start dates and a weekday;
  the schedules of the other tasks are arbitrary.
\<close>

inductive history :: "schedule_env \<Rightarrow> string \<Rightarrow> int \<Rightarrow> stask list \<Rightarrow> (string \<times> int) list \<Rightarrow> bool" for env i where
  nothing_yet: "history env i now [] []"
| onward: "history env i clock ts done \<Longrightarrow> clock \<le> now \<Longrightarrow> sched_step env now drawn ts completed ts' \<Longrightarrow>
    \<forall>t\<in>set ts'. st_id t = i \<longrightarrow> valid_schedule (st_schedule t) \<Longrightarrow>
    set (map st_id ts') \<inter> fst ` set done \<subseteq> set (map st_id ts) \<Longrightarrow>
    history env i now ts' (done @ completed)"

section \<open>One row at a time\<close>

text \<open>What a transaction does to a row it keeps.\<close>

inductive row_change :: "schedule_env \<Rightarrow> int \<Rightarrow> stask \<Rightarrow> stask \<Rightarrow> bool" for env now where
  same_times: "st_token t' = st_token t \<or> st_token t' = None \<Longrightarrow> st_id t' = st_id t \<Longrightarrow> st_occurrence t' = st_occurrence t \<Longrightarrow> st_next t' = st_next t \<or> st_next t' = None \<Longrightarrow> row_change env now t t'"
| recomputed: "st_token t' = st_token t \<or> st_token t' = None \<Longrightarrow> st_id t' = st_id t \<Longrightarrow> st_occurrence t' = st_occurrence t \<Longrightarrow> st_next t' = compute_next_run env (st_schedule t') now \<Longrightarrow>
    row_change env now t t'"

lemma row_change_unlease: "row_change env now t (unlease t)"
  by (rule row_change.same_times) (simp_all add: unlease_def)

lemma reschedule_facts:
  "st_id (reschedule env now t) = st_id t" "st_occurrence (reschedule env now t) = st_occurrence t"
  "st_schedule (reschedule env now t) = st_schedule t" "st_token (reschedule env now t) = st_token t"
  "st_next (reschedule env now t) = compute_next_run env (st_schedule t) now"
  by (simp_all add: reschedule_def Let_def)

lemma row_change_reschedule:
  "st_token t' = st_token t \<or> st_token t' = None \<Longrightarrow> st_id t' = st_id t \<Longrightarrow> st_occurrence t' = st_occurrence t \<Longrightarrow> row_change env now t (reschedule env now t')"
  by (rule row_change.recomputed) (simp_all add: reschedule_facts)

lemma row_change_complete_manual: "row_change env now t (complete_task_schedule env None None now t)"
proof -
  let ?c = "complete_task_schedule env None None now t"
  have "st_id ?c = st_id t" "st_occurrence ?c = st_occurrence t" "st_schedule ?c = st_schedule t"
    "st_next ?c = None \<or> st_next ?c = compute_next_run env (st_schedule t) now" "st_token ?c = st_token t"
    by (simp_all add: complete_task_schedule_def Let_def)
  then show ?thesis using row_change.same_times [of ?c t env now] row_change.recomputed [of ?c t env now] by auto
qed

lemma row_change_refl: "row_change env now t t"
  by (rule row_change.same_times) simp_all

lemma complete_leased:
  fixes worker token :: string and env :: schedule_env and now :: int and t :: stask
  defines "c \<equiv> complete_task_schedule env (Some worker) (Some token) now t"
  shows "st_id c = st_id t" "st_occurrence c = None" "st_token c = None" "st_owner c = None"
    "st_next c = st_next t \<or> st_next c = None" "st_schedule c = st_schedule t"
  by (simp_all add: c_def complete_task_schedule_def unlease_def Let_def)

text \<open>A claim takes the first eligible row in the order of the next run.\<close>

lemma claim_due_rows:
  assumes d: "distinct (map st_id ts)" and t: "sort_key (claim_key nf) (filter (eligible now) ts) = t # rest"
  obtains oc where "oc = (case st_occurrence t of None \<Rightarrow> the (st_next t) | Some oc \<Rightarrow> oc)" "t \<in> set ts" "eligible now t"
    "claim_due env nf worker token now ts =
       Some (\<lparr>cl_task = st_id t, cl_type = (if st_target_type t = [] then ''agent'' else st_target_type t), cl_token = token, cl_occurrence = oc\<rparr>,
         map (\<lambda>x. if x = t then claimed env worker token now oc t else x) ts)"
proof -
  have "t \<in> set (sort_key (claim_key nf) (filter (eligible now) ts))" unfolding t by simp
  then have m: "t \<in> set ts" "eligible now t" by simp_all
  define oc where "oc = (case st_occurrence t of None \<Rightarrow> the (st_next t) | Some oc \<Rightarrow> oc)"
  have oc: "(case st_occurrence t of None \<Rightarrow> st_next t | Some oc \<Rightarrow> Some oc) = Some oc"
    using m(2) by (auto simp: eligible_def oc_def split: option.splits)
  have "rowcount (\<lambda>x. st_id x = st_id t \<and> eligible now x) ts = 1"
    using rowcount_unique [OF d, of "st_id t" "eligible now"] m by auto
  moreover have "(if st_id x = st_id t \<and> eligible now x then claimed env worker token now oc x else x)
      = (if x = t then claimed env worker token now oc t else x)" if "x \<in> set ts" for x
    using unique_row [OF d that m(1)] m(2) by auto
  then have "update_rows (\<lambda>x. st_id x = st_id t \<and> eligible now x) (claimed env worker token now oc) ts =
      map (\<lambda>x. if x = t then claimed env worker token now oc t else x) ts"
    unfolding update_rows_def by simp
  ultimately have "claim_due env nf worker token now ts =
       Some (\<lparr>cl_task = st_id t, cl_type = (if st_target_type t = [] then ''agent'' else st_target_type t), cl_token = token, cl_occurrence = oc\<rparr>,
         map (\<lambda>x. if x = t then claimed env worker token now oc t else x) ts)"
    using t oc by (simp add: claim_due_def Let_def)
  then show thesis using that oc_def m by blast
qed

text \<open>The kinds of transactions.\<close>

lemma update_rows_change:
  "(\<And>x. x \<in> set ts \<Longrightarrow> P x \<Longrightarrow> row_change env now x (f x)) \<Longrightarrow>
    \<forall>x\<in>set ts. row_change env now x (if P x then f x else x)"
  using row_change_refl by simp

lemma if_on_change: "st_token t' = st_token t \<or> st_token t' = None \<Longrightarrow> st_id t' = st_id t \<Longrightarrow> st_occurrence t' = st_occurrence t \<Longrightarrow> st_next t' = st_next t \<Longrightarrow> row_change env now t (if_on env now t')"
  unfolding if_on_def using row_change_reschedule row_change.same_times by simp

lemma set_fields_facts:
  "st_id (set_fields p t) = st_id t" "st_occurrence (set_fields p t) = st_occurrence t" "st_next (set_fields p t) = st_next t"
  "st_token (set_fields p t) = st_token t"
  by (simp_all add: set_fields_def Let_def)

lemma step_kinds:
  assumes "sched_step env now drawn ts completed ts'" and d: "distinct (map st_id ts)"
  shows "(\<exists>f. ts' = map f ts \<and> (\<forall>t\<in>set ts. row_change env now t (f t)) \<and> completed = []) \<or>
    (\<exists>t worker token oc. t \<in> set ts \<and> eligible now t \<and> drawn = Some token \<and> completed = [] \<and>
       oc = (case st_occurrence t of None \<Rightarrow> the (st_next t) | Some oc \<Rightarrow> oc) \<and>
       ts' = map (\<lambda>x. if x = t then claimed env worker token now oc t else x) ts) \<or>
    (\<exists>t oc worker token. t \<in> set ts \<and> st_occurrence t = Some oc \<and> st_token t = Some token \<and> completed = [(st_id t, oc)] \<and>
       ts' = map (\<lambda>x. if x = t then complete_task_schedule env (Some worker) (Some token) now t else x) ts) \<or>
    (\<exists>t. completed = [] \<and> st_occurrence t = None \<and> st_token t = None \<and> st_id t \<notin> set (map st_id ts) \<and> ts' = ts @ [t]) \<or>
    (\<exists>i. completed = [] \<and> ts' = filter (\<lambda>t. st_id t \<noteq> i) ts)"
  (is "?change \<or> ?claim \<or> ?complete \<or> ?new \<or> ?purge")
  using assms(1)
proof cases
  case (claims nf worker token c)
  then obtain t rest where t: "sort_key (claim_key nf) (filter (eligible now) ts) = t # rest"
    by (auto simp: claim_due_def split: list.splits)
  obtain oc where oc: "oc = (case st_occurrence t of None \<Rightarrow> the (st_next t) | Some oc \<Rightarrow> oc)" and m: "t \<in> set ts" "eligible now t"
    and c: "claim_due env nf worker token now ts = Some (\<lparr>cl_task = st_id t,
        cl_type = (if st_target_type t = [] then ''agent'' else st_target_type t), cl_token = token, cl_occurrence = oc\<rparr>,
      map (\<lambda>x. if x = t then claimed env worker token now oc t else x) ts)"
    by (rule claim_due_rows [OF d t])
  then have "ts' = map (\<lambda>x. if x = t then claimed env worker token now oc t else x) ts" using claims(3) by simp
  then show ?thesis using m claims(1,2) oc by blast
next
  case (beats i worker token)
  have "\<forall>x\<in>set ts. row_change env now x (if held_by i worker token x then x\<lparr>st_heartbeat := Some now, st_expires := Some (now + LEASE)\<rparr> else x)"
    by (rule update_rows_change) (rule row_change.same_times, simp_all)
  then show ?thesis using beats unfolding sched_heartbeat_def update_rows_def fst_conv by blast
next
  case (releases i worker token)
  have "\<forall>x\<in>set ts. row_change env now x (if held_by i worker token x then unlease x else x)"
    by (rule update_rows_change) (rule row_change_unlease)
  then show ?thesis using releases unfolding release_claim_def update_rows_def by blast
next
  case (shuts_down worker)
  have "\<forall>x\<in>set ts. row_change env now x (if st_owner x = Some worker then unlease x else x)"
    by (rule update_rows_change) (rule row_change_unlease)
  then show ?thesis using shuts_down unfolding release_owned_claims_def update_rows_def by blast
next
  case (begins run_id trigger lo lt i rs db')
  then have "ts' = with_id i (\<lambda>t. t\<lparr>st_last_run := Some now\<rparr>) ts"
    by (auto simp: begin_run_def split: option.splits)
  moreover have "\<forall>x\<in>set ts. row_change env now x (if st_id x = i then x\<lparr>st_last_run := Some now\<rparr> else x)"
    by (rule update_rows_change) (rule row_change.same_times, simp_all)
  ultimately show ?thesis using begins(2) unfolding with_id_def update_rows_def by blast
next
  case (completes worker token i t oc run_id outcome rs)
  then have m: "t \<in> set ts" "st_id t = i" "st_token t = Some token"
    by (auto simp: load_task_def dest!: find_SomeD split: if_splits)
  have "ts' = with_id i (complete_task_schedule env (Some worker) (Some token) now) ts"
    using completes by (simp add: finish_run_def Let_def)
  also have "\<dots> = map (\<lambda>x. if x = t then complete_task_schedule env (Some worker) (Some token) now t else x) ts"
    unfolding with_id_def update_rows_def
  proof (rule map_cong [OF refl])
    fix x assume "x \<in> set ts"
    then have "st_id x = i \<longleftrightarrow> x = t" using unique_row [OF d _ m(1)] m(2) by metis
    then show "(if st_id x = i then complete_task_schedule env (Some worker) (Some token) now x else x) =
      (if x = t then complete_task_schedule env (Some worker) (Some token) now t else x)" by simp
  qed
  finally show ?thesis using m completes(2,5) by blast
next
  case (ends_manual_run run_id outcome i rs)
  have "ts' = ts \<or> ts' = with_id i (complete_task_schedule env None None now) ts"
    using ends_manual_run by (simp add: finish_run_def Let_def split: option.splits)
  moreover have "\<forall>x\<in>set ts. row_change env now x (if st_id x = i then complete_task_schedule env None None now x else x)"
    by (rule update_rows_change) (rule row_change_complete_manual)
  moreover have "\<exists>f. ts = map f ts \<and> (\<forall>t\<in>set ts. row_change env now t (f t))"
    by (rule exI [of _ "\<lambda>x. x"]) (simp add: row_change_refl)
  ultimately show ?thesis using ends_manual_run(2) unfolding with_id_def update_rows_def by blast
next
  case backfills
  have "\<forall>x\<in>set ts. row_change env now x (if st_status x = ''on'' \<and> st_occurrence x = None \<and> st_next x = None then reschedule env now x else x)"
    by (rule update_rows_change) (rule row_change_reschedule, simp_all)
  then show ?thesis using backfills unfolding backfill_next_runs_def update_rows_def by blast
next
  case (upserts config_ok tenant new_id p)
  have "ts' = with_id (tu_id p) (\<lambda>t. if_on env now (set_fields p t)) ts \<or>
      ts' = ts @ [if_on env now (set_fields p (blank_task new_id tenant))]"
    using upserts(3) by (auto simp: upsert_task_def split: if_splits)
  then show ?thesis
  proof
    assume "ts' = with_id (tu_id p) (\<lambda>t. if_on env now (set_fields p t)) ts"
    moreover have "\<forall>x\<in>set ts. row_change env now x (if st_id x = tu_id p then if_on env now (set_fields p x) else x)"
      by (rule update_rows_change) (rule if_on_change, simp_all add: set_fields_facts)
    ultimately show ?thesis using upserts(2) unfolding with_id_def update_rows_def by blast
  next
    let ?t = "if_on env now (set_fields p (blank_task new_id tenant))"
    assume ts': "ts' = ts @ [?t]"
    have "st_occurrence ?t = None" "st_token ?t = None" "st_id ?t = new_id"
      by (simp_all add: if_on_def reschedule_facts set_fields_facts blank_task_def)
    then have ?new using ts' upserts(2,4) by (intro exI [of _ ?t]) simp
    then show ?thesis by blast
  qed
next
  case (toggles tenant i)
  then have "ts' = with_id i (\<lambda>t. if st_status t = ''on'' then t\<lparr>st_status := ''off'', st_next := None\<rparr>
      else reschedule env now (t\<lparr>st_status := ''on''\<rparr>)) ts"
    by (auto simp: toggle_task_def split: if_splits)
  moreover have "row_change env now x (if st_status x = ''on'' then x\<lparr>st_status := ''off'', st_next := None\<rparr>
      else reschedule env now (x\<lparr>st_status := ''on''\<rparr>))" for x
    using row_change_reschedule [of "x\<lparr>st_status := ''on''\<rparr>" x env now] row_change.same_times by simp
  then have "\<forall>x\<in>set ts. row_change env now x (if st_id x = i then (if st_status x = ''on'' then x\<lparr>st_status := ''off'', st_next := None\<rparr>
      else reschedule env now (x\<lparr>st_status := ''on''\<rparr>)) else x)"
    by (intro update_rows_change)
  ultimately show ?thesis using toggles(2) unfolding with_id_def update_rows_def by blast
next
  case (deletes tenant i)
  then have "ts' = with_id i (\<lambda>t. t\<lparr>st_status := ''deleted'', st_next := None, st_deleted := Some now\<rparr>) ts"
    by (auto simp: delete_task_def split: if_splits)
  moreover have "\<forall>x\<in>set ts. row_change env now x (if st_id x = i then x\<lparr>st_status := ''deleted'', st_next := None, st_deleted := Some now\<rparr> else x)"
    by (rule update_rows_change) (rule row_change.same_times, simp_all)
  ultimately show ?thesis using deletes(2) unfolding with_id_def update_rows_def by blast
next
  case (restores tenant i)
  then have "ts' = with_id i (\<lambda>t. t\<lparr>st_deleted := None, st_status := ''off'', st_next := None\<rparr>) ts"
    by (auto simp: restore_task_def split: if_splits)
  moreover have "\<forall>x\<in>set ts. row_change env now x (if st_id x = i then x\<lparr>st_deleted := None, st_status := ''off'', st_next := None\<rparr> else x)"
    by (rule update_rows_change) (rule row_change.same_times, simp_all)
  ultimately show ?thesis using restores(2) unfolding with_id_def update_rows_def by blast
next
  case (purges tenant i rs db')
  then have "ts' = filter (\<lambda>t. st_id t \<noteq> i) ts" by (auto simp: purge_task_def split: if_splits)
  then show ?thesis using purges(2) by blast
qed

section \<open>The occurrences of a task\<close>

definition before_all :: "(string \<times> int) list \<Rightarrow> string \<Rightarrow> int \<Rightarrow> bool" where
  "before_all done i v \<longleftrightarrow> (\<forall>p\<in>set done. fst p = i \<longrightarrow> snd p < v)"

definition times_ok :: "int \<Rightarrow> (string \<times> int) list \<Rightarrow> stask \<Rightarrow> bool" where
  "times_ok clock done t \<longleftrightarrow>
     (\<forall>oc. st_occurrence t = Some oc \<longrightarrow> oc \<le> clock \<and> before_all done (st_id t) oc \<and> (\<forall>n. st_next t = Some n \<longrightarrow> oc < n)) \<and>
     (\<forall>n. st_next t = Some n \<longrightarrow> before_all done (st_id t) n)"

definition history_ok :: "string \<Rightarrow> int \<Rightarrow> stask list \<Rightarrow> (string \<times> int) list \<Rightarrow> bool" where
  "history_ok i clock ts done \<longleftrightarrow> distinct (map st_id ts) \<and> (\<forall>t\<in>set ts. st_id t = i \<longrightarrow> times_ok clock done t) \<and>
     (\<forall>p\<in>set done. fst p = i \<longrightarrow> snd p \<le> clock) \<and> sorted_wrt (<) (map snd (filter (\<lambda>p. fst p = i) done))"

lemma times_ok_change:
  assumes "times_ok clock done t" "\<forall>p\<in>set done. fst p = st_id t \<longrightarrow> snd p \<le> clock" "clock \<le> now" "row_change env now t t'"
    and later: "\<And>n. compute_next_run env (st_schedule t') now = Some n \<Longrightarrow> now < n"
  shows "times_ok now done t'"
  using assms(4)
proof cases
  case same_times
  show ?thesis
  proof (cases "st_next t'")
    case None
    then show ?thesis using assms(1,3) same_times(2,3) unfolding times_ok_def by auto
  next
    case (Some n)
    then have "st_next t = st_next t'" using same_times(4) by simp
    then show ?thesis using assms(1,3) same_times(2,3) unfolding times_ok_def by auto
  qed
next
  case recomputed
  have "before_all done (st_id t') n" if "now < n" for n
    using that assms(2,3) recomputed(2) unfolding before_all_def by fastforce
  moreover have "now < n" if "st_next t' = Some n" for n using that recomputed(4) later by simp
  moreover have "oc \<le> clock \<and> before_all done (st_id t') oc" if "st_occurrence t' = Some oc" for oc
    using assms(1) that unfolding times_ok_def recomputed(2,3) by blast
  ultimately show ?thesis using assms(3) unfolding times_ok_def by (meson order_trans le_less_trans)
qed

lemma times_ok_claimed:
  assumes t: "times_ok clock done t" "eligible now t" "clock \<le> now"
    and oc: "oc = (case st_occurrence t of None \<Rightarrow> the (st_next t) | Some oc \<Rightarrow> oc)"
    and later: "\<And>n. compute_next_run env (st_schedule t) oc = Some n \<Longrightarrow> oc < n"
  shows "times_ok now done (claimed env worker token now oc t)"
proof (cases "st_occurrence t")
  case None
  then obtain n where n: "st_next t = Some n" "n \<le> now" "oc = n" using t(2) oc by (auto simp: eligible_def split: option.splits)
  then have b: "before_all done (st_id t) oc" using t(1) by (simp add: times_ok_def)
  then have "before_all done (st_id t) v" if "oc < v" for v using that unfolding before_all_def by fastforce
  then show ?thesis using b n None later by (simp add: times_ok_def claimed_def)
next
  case (Some v)
  then show ?thesis using t oc by (simp add: times_ok_def claimed_def)
qed

lemma step_history_ok:
  assumes env: "env_ok env" and ok: "history_ok i clock ts done" and now: "clock \<le> now"
    and step: "sched_step env now drawn ts completed ts'" and valid: "\<forall>t\<in>set ts'. st_id t = i \<longrightarrow> valid_schedule (st_schedule t)"
    and fresh: "set (map st_id ts') \<inter> fst ` set done \<subseteq> set (map st_id ts)"
  shows "history_ok i now ts' (done @ completed)"
proof -
  have d: "distinct (map st_id ts)" and times: "\<And>t. t \<in> set ts \<Longrightarrow> st_id t = i \<Longrightarrow> times_ok clock done t"
    and past: "\<forall>p\<in>set done. fst p = i \<longrightarrow> snd p \<le> clock" and srt: "sorted_wrt (<) (map snd (filter (\<lambda>p. fst p = i) done))"
    using ok unfolding history_ok_def by blast+
  have later: "v < n" if "valid_schedule s" "compute_next_run env s v = Some n" for s v n
    using next_run_later(1) [OF env _ _ that(2)] that(1) unfolding valid_schedule_def by blast
  have past': "\<forall>p\<in>set done. fst p = i \<longrightarrow> snd p \<le> now" using past now by fastforce
  have keep: "times_ok now done t" if "t \<in> set ts" "st_id t = i" for t
    using times [OF that] now unfolding times_ok_def by fastforce
  from step_kinds [OF step d] show ?thesis
  proof (elim disjE exE conjE)
    fix f assume f: "ts' = map f ts" "\<forall>t\<in>set ts. row_change env now t (f t)" "completed = []"
    have ids: "map st_id ts' = map st_id ts" unfolding f(1) using f(2) by (auto elim: row_change.cases)
    have same: "st_id (f t) = st_id t" if "t \<in> set ts" for t using f(2) that by (auto elim: row_change.cases)
    have "times_ok now done (f t)" if t: "t \<in> set ts" "st_id t = i" for t
    proof (rule times_ok_change [OF times [OF t] _ now])
      show "\<forall>p\<in>set done. fst p = st_id t \<longrightarrow> snd p \<le> clock" using past t(2) by simp
      show "row_change env now t (f t)" using f(2) t(1) by blast
      show "now < n" if "compute_next_run env (st_schedule (f t)) now = Some n" for n
        using later [OF _ that] valid t same f(1) by simp
    qed
    then have "\<forall>t\<in>set ts'. st_id t = i \<longrightarrow> times_ok now done t" unfolding f(1) using same by simp
    then show ?thesis using d past' srt unfolding history_ok_def ids f(3) append_Nil2 by blast
  next
    fix t worker token oc
    assume t: "t \<in> set ts" "eligible now t" "completed = []"
      and oc: "oc = (case st_occurrence t of None \<Rightarrow> the (st_next t) | Some oc \<Rightarrow> oc)"
      and ts': "ts' = map (\<lambda>x. if x = t then claimed env worker token now oc t else x) ts"
    have ids: "map st_id ts' = map st_id ts" unfolding ts' by (simp add: claimed_def)
    have "times_ok now done (claimed env worker token now oc t)" if i: "st_id t = i"
    proof -
      have "claimed env worker token now oc t \<in> set ts'" unfolding ts' using t(1) by force
      then have "valid_schedule (st_schedule t)" using valid i by (force simp: claimed_def)
      then show ?thesis using times_ok_claimed [OF times [OF t(1) i] t(2) now oc] later by blast
    qed
    then have "\<forall>t\<in>set ts'. st_id t = i \<longrightarrow> times_ok now done t" unfolding ts' using keep by (auto simp: claimed_def)
    then show ?thesis using d past' srt unfolding history_ok_def ids t(3) append_Nil2 by blast
  next
    fix t oc worker token
    assume t: "t \<in> set ts" "st_occurrence t = Some oc" "completed = [(st_id t, oc)]"
      and ts': "ts' = map (\<lambda>x. if x = t then complete_task_schedule env (Some worker) (Some token) now t else x) ts"
    let ?c = "complete_task_schedule env (Some worker) (Some token) now t"
    note c = complete_leased [of env worker token now t]
    have ids: "map st_id ts' = map st_id ts" unfolding ts' using c(1) by simp
    show ?thesis
    proof (cases "st_id t = i")
      case True
      have oc: "oc \<le> clock" "before_all done (st_id t) oc" "\<And>n. st_next t = Some n \<Longrightarrow> oc < n"
        using times [OF t(1) True] t(2) by (simp_all add: times_ok_def)
      have "times_ok now (done @ completed) ?c"
        using c(1,2,5) times [OF t(1) True] oc(3) unfolding times_ok_def before_all_def t(3) by auto
      moreover have "x = t" if x: "x \<in> set ts" "st_id x = i" for x
        using unique_row [OF d x(1) t(1)] x(2) True by simp
      ultimately have "\<forall>x\<in>set ts'. st_id x = i \<longrightarrow> times_ok now (done @ completed) x" unfolding ts' using c(1) by auto
      moreover have "sorted_wrt (<) (map snd (filter (\<lambda>p. fst p = i) (done @ completed)))"
        using srt oc(2) True unfolding t(3) by (auto simp: sorted_wrt_append before_all_def)
      moreover have "\<forall>p\<in>set (done @ completed). fst p = i \<longrightarrow> snd p \<le> now" using past' oc(1) now t(3) by auto
      ultimately show ?thesis using d unfolding history_ok_def ids by blast
    next
      case False
      then have "before_all (done @ completed) i v = before_all done i v" for v
        by (auto simp: before_all_def t(3))
      then have "times_ok now (done @ completed) x" if "x \<in> set ts" "st_id x = i" for x
        using keep [OF that] that(2) unfolding times_ok_def by simp
      then have "\<forall>x\<in>set ts'. st_id x = i \<longrightarrow> times_ok now (done @ completed) x" unfolding ts' using c(1) False by auto
      then show ?thesis using d past' srt False unfolding history_ok_def ids t(3) by auto
    qed
  next
    fix t assume t: "completed = []" "st_occurrence t = None" "st_token t = None" "st_id t \<notin> set (map st_id ts)" "ts' = ts @ [t]"
    then have "st_id t \<notin> fst ` set done" using fresh by auto
    then have "times_ok now done t" using t(2) by (force simp: times_ok_def before_all_def)
    then show ?thesis using t d past' srt keep by (auto simp: history_ok_def)
  next
    fix k assume "completed = []" "ts' = filter (\<lambda>t. st_id t \<noteq> k) ts"
    then show ?thesis using d past' srt keep by (auto simp: history_ok_def intro: distinct_map_filter)
  qed
qed

lemma history_sound: "env_ok env \<Longrightarrow> history env i clock ts done \<Longrightarrow> history_ok i clock ts done"
proof (rotate_tac, induction rule: history.induct)
  case (nothing_yet now)
  then show ?case by (simp add: history_ok_def)
next
  case (onward clock ts don now drawn completed ts')
  have "history_ok i clock ts don" by (rule onward.IH [OF onward.prems])
  then show ?case by (rule step_history_ok [OF onward.prems _ onward.hyps(2-5)])
qed

section \<open>The lease of a task\<close>

definition task_holds :: "string \<Rightarrow> string \<Rightarrow> stask list \<Rightarrow> bool" where
  "task_holds i token ts \<longleftrightarrow> (\<exists>t\<in>set ts. st_id t = i \<and> st_token t = Some token)"

definition put_completion :: "schedule_env \<times> string \<times> int \<Rightarrow> string \<Rightarrow> string \<Rightarrow> stask list \<Rightarrow> stask list option" where
  "put_completion w i token ts =
     (case w of (env, worker, now) \<Rightarrow>
        (case load_task (Some worker) (Some token) now i ts of
           None \<Rightarrow> None
         | Some _ \<Rightarrow> Some (with_id i (complete_task_schedule env (Some worker) (Some token) now) ts)))"

text \<open>Transactions that do not draw a given token again.\<close>

definition other_step :: "string \<Rightarrow> stask list \<Rightarrow> stask list \<Rightarrow> bool" where
  "other_step token ts ts' \<longleftrightarrow> distinct (map st_id ts) \<and>
     (\<exists>env now drawn completed. sched_step env now drawn ts completed ts' \<and> drawn \<noteq> Some token)"

lemma step_distinct:
  assumes "sched_step env now drawn ts completed ts'" "distinct (map st_id ts)"
  shows "distinct (map st_id ts')"
  using step_kinds [OF assms]
proof (elim disjE exE conjE)
  fix f assume f: "ts' = map f ts" "\<forall>t\<in>set ts. row_change env now t (f t)"
  have "map st_id ts' = map st_id ts" unfolding f(1) using f(2) by (auto elim: row_change.cases)
  then show ?thesis using assms(2) by simp
next
  fix t worker token oc
  assume "ts' = map (\<lambda>x. if x = t then claimed env worker token now oc t else x) ts"
  then have "map st_id ts' = map st_id ts" by (simp add: claimed_def)
  then show ?thesis using assms(2) by simp
next
  fix t worker token
  assume "ts' = map (\<lambda>x. if x = t then complete_task_schedule env (Some worker) (Some token) now t else x) ts"
  then have "map st_id ts' = map st_id ts" using complete_leased(1) by simp
  then show ?thesis using assms(2) by simp
qed (use assms(2) in \<open>auto intro: distinct_map_filter\<close>)

lemma step_tokens:
  assumes "sched_step env now drawn ts completed ts'" "distinct (map st_id ts)" "drawn \<noteq> Some token" "task_holds i token ts'"
  shows "task_holds i token ts"
  using step_kinds [OF assms(1,2)] assms(3,4)
proof (elim disjE exE conjE)
  fix f assume f: "ts' = map f ts" "\<forall>t\<in>set ts. row_change env now t (f t)"
  obtain t where t: "t \<in> set ts" "st_id (f t) = i" "st_token (f t) = Some token"
    using assms(4) unfolding f(1) task_holds_def by auto
  have "st_id t = i" "st_token t = Some token" using f(2) [rule_format, OF t(1)] t(2,3) by (auto elim: row_change.cases)
  then show ?thesis using t(1) unfolding task_holds_def by blast
next
  fix t worker tok oc
  assume "ts' = map (\<lambda>x. if x = t then claimed env worker tok now oc t else x) ts" "drawn = Some tok"
  then show ?thesis using assms(3,4) by (auto simp: task_holds_def claimed_def split: if_splits)
next
  fix t worker tok
  assume "ts' = map (\<lambda>x. if x = t then complete_task_schedule env (Some worker) (Some tok) now t else x) ts"
  then show ?thesis using assms(4) complete_leased(3) by (auto simp: task_holds_def split: if_splits)
qed (auto simp: task_holds_def)

lemma load_task_holds: "load_task (Some worker) (Some token) now i ts = Some t \<Longrightarrow> task_holds i token ts"
  by (auto simp: load_task_def task_holds_def dest!: find_SomeD split: if_splits)

interpretation task_lease: fenced_lease "\<lambda>ts. distinct (map st_id ts)" task_holds put_completion other_step
proof
  show "put_completion w i token ts = None" if "\<not> task_holds i token ts" for w i token ts
  proof -
    have "load_task (Some worker) (Some token) now i ts = None" for worker now
      using load_task_holds [of worker token now i ts] that by (cases "load_task (Some worker) (Some token) now i ts") auto
    then show ?thesis by (simp add: put_completion_def split: prod.splits)
  qed
  show "t = t'" if "distinct (map st_id ts)" "task_holds i t ts" "task_holds i t' ts" for ts i t t'
    using that unfolding task_holds_def by (metis option.inject unique_row)
  show "\<not> task_holds i token ts'" if "other_step token ts ts'" "\<not> task_holds i token ts" for token ts ts' i
    using that step_tokens unfolding other_step_def by blast
  show "distinct (map st_id ts')" if "other_step token ts ts'" "distinct (map st_id ts)" for token ts ts'
    using that step_distinct unfolding other_step_def by blast
qed

lemma finish_run_put:
  "finish_run env run_id outcome (Some worker) (Some token) now i db =
     (case put_completion (env, worker, now) i token (sd_tasks db) of
        None \<Rightarrow> db
      | Some ts \<Rightarrow> \<lparr>sd_tasks = ts, sd_runs = update_rows (\<lambda>r. tr_id r = run_id) (\<lambda>r. r\<lparr>tr_status := outcome, tr_ended := Some now\<rparr>) (sd_runs db)\<rparr>)"
  by (simp add: finish_run_def put_completion_def Let_def split: option.splits)

section \<open>Guarantees of the scheduler\<close>

text \<open>
  C22. Each occurrence is completed once, in order. In every history of claims, expired leases, restarts, manual runs,
  edits, pauses and deletions in which the schedule of a task never has a start date with a fraction of a second nor a weekday
  outside 0 to 6 (whatever the other tasks have) and ids are not reused, with a time zone database and a cron evaluator that keep
  \<open>env_ok\<close>, the completed occurrences of that task are strictly increasing and never lie in the future. With a fractional start date an occurrence can repeat, as \<open>fractional_start_repeats\<close> shows.
\<close>
theorem occurrences_complete_once:
  assumes "env_ok env" and "history env i clock ts done"
  shows "sorted_wrt (<) (map snd (filter (\<lambda>p. fst p = i) done)) \<and> list_all (\<lambda>p. snd p \<le> clock) (filter (\<lambda>p. fst p = i) done)"
  using history_sound [OF assms] by (simp add: history_ok_def list_all_iff)

text \<open>
  Lemma. A superseded run changes nothing. Once another claim of the task has been current, the run that holds the older
  token can no longer complete an occurrence, end its run row or move the schedule, however the transactions interleave.
\<close>
lemma superseded_run_never_completes:
  assumes "distinct (map st_id ts)" and "load_task (Some newer) (Some token') now' i ts \<noteq> None" and "token' \<noteq> token"
    and "(other_step token)\<^sup>*\<^sup>* ts (sd_tasks db)"
  shows "finish_run env run_id outcome (Some worker) (Some token) now i db = db"
proof -
  have "put_completion (env, newer, now') i token' ts \<noteq> None" using assms(2) by (auto simp: put_completion_def)
  then have "put_completion (env, worker, now) i token (sd_tasks db) = None"
    by (rule task_lease.superseded_never_writes [OF assms(1) _ assms(3,4)])
  then show ?thesis by (simp add: finish_run_put)
qed

text \<open>
  Lemma. A claimed occurrence is not lost. Whatever transaction follows, the pending occurrence of a stored task stays
  the same unless that very occurrence is completed, and the next claim hands it out again.
\<close>
lemma occurrence_stays_pending:
  assumes "distinct (map st_id ts)" and "sched_step env now drawn ts completed ts'"
    and "t \<in> set ts" "st_occurrence t = Some oc" "t' \<in> set ts'" "st_id t' = st_id t"
  shows "if (st_id t, oc) \<in> set completed then st_occurrence t' = None else st_occurrence t' = Some oc"
  using step_kinds [OF assms(2,1)]
proof (elim disjE exE conjE)
  fix f assume f: "ts' = map f ts" "\<forall>t\<in>set ts. row_change env now t (f t)" "completed = []"
  obtain x where x: "x \<in> set ts" "t' = f x" using assms(5) unfolding f(1) by auto
  have c: "st_id (f x) = st_id x" "st_occurrence (f x) = st_occurrence x"
    using f(2) [rule_format, OF x(1)] by (auto elim: row_change.cases)
  have "x = t" using unique_row [OF assms(1) x(1) assms(3)] assms(6) x(2) c(1) by metis
  then show ?thesis using assms(4) x(2) c(2) f(3) by simp
next
  fix u worker token v
  assume u: "u \<in> set ts" "completed = []" "v = (case st_occurrence u of None \<Rightarrow> the (st_next u) | Some oc \<Rightarrow> oc)"
    and ts': "ts' = map (\<lambda>x. if x = u then claimed env worker token now v u else x) ts"
  obtain x where x: "x \<in> set ts" "t' = (if x = u then claimed env worker token now v u else x)" using assms(5) unfolding ts' by auto
  have "st_id t' = st_id x" using x(2) by (simp add: claimed_def)
  then have e: "x = t" using unique_row [OF assms(1) x(1) assms(3)] assms(6) by metis
  have "st_occurrence t' = Some oc"
  proof (cases "t = u")
    case True
    have "st_occurrence t' = Some v" unfolding x(2) e if_P [OF True] by (simp add: claimed_def)
    moreover have "v = oc" unfolding u(3) True [symmetric] assms(4) by simp
    ultimately show ?thesis by simp
  next
    case False
    show ?thesis unfolding x(2) e if_not_P [OF False] by (rule assms(4))
  qed
  then show ?thesis using u(2) by simp
next
  fix u v worker token
  assume u: "u \<in> set ts" "st_occurrence u = Some v" "completed = [(st_id u, v)]"
    and ts': "ts' = map (\<lambda>x. if x = u then complete_task_schedule env (Some worker) (Some token) now u else x) ts"
  note c = complete_leased [of env worker token now u]
  obtain x where x: "x \<in> set ts" "t' = (if x = u then complete_task_schedule env (Some worker) (Some token) now u else x)"
    using assms(5) unfolding ts' by auto
  have "st_id t' = st_id x" using x(2) c(1) by simp
  then have e: "x = t" using unique_row [OF assms(1) x(1) assms(3)] assms(6) by metis
  show ?thesis
  proof (cases "t = u")
    case True
    then show ?thesis using e x(2) c(2) u(2,3) assms(4) by simp
  next
    case False
    then have "st_id t \<noteq> st_id u" using unique_row [OF assms(1,3) u(1)] by blast
    then show ?thesis using False e x(2) u(3) assms(4) by simp
  qed
next
  fix u assume "completed = []" "st_id u \<notin> set (map st_id ts)" "ts' = ts @ [u]"
  moreover from this have "t' = t" using assms(3,5,6) unique_row [OF assms(1)] by auto
  ultimately show ?thesis using assms(4) by simp
next
  fix i assume "completed = []" "ts' = filter (\<lambda>t. st_id t \<noteq> i) ts"
  moreover from this have "t' = t" using assms(3,5,6) unique_row [OF assms(1)] by auto
  ultimately show ?thesis using assms(4) by simp
qed

lemma claimed_not_eligible: "\<not> eligible now (claimed env worker token now oc t)"
  by (simp add: eligible_def claimed_def lease_free_def LEASE_def SEC_def)

lemma claims_in_order:
  assumes "distinct (map st_id ts)"
  shows "map cl_task (fst (claim_up_to env nf worker (map (\<lambda>token. (token, now)) tokens) ts)) =
    take (length tokens) (map st_id (sort_key (claim_key nf) (filter (eligible now) ts)))"
  using assms
proof (induction tokens arbitrary: ts)
  case (Cons token tokens)
  show ?case
  proof (cases "sort_key (claim_key nf) (filter (eligible now) ts)")
    case Nil
    then show ?thesis by (simp add: claim_due_def)
  next
    case t: (Cons t rest)
    obtain oc where c: "claim_due env nf worker token now ts = Some (\<lparr>cl_task = st_id t,
        cl_type = (if st_target_type t = [] then ''agent'' else st_target_type t), cl_token = token, cl_occurrence = oc\<rparr>,
      map (\<lambda>x. if x = t then claimed env worker token now oc t else x) ts)"
      by (rule claim_due_rows [OF Cons.prems t]) blast
    let ?ts = "map (\<lambda>x. if x = t then claimed env worker token now oc t else x) ts"
    have ids: "map st_id ?ts = map st_id ts" by (simp add: claimed_def)
    have "filter (eligible now) ?ts = filter (\<lambda>x. x \<noteq> t) (filter (eligible now) ts)"
      using claimed_not_eligible by (induction ts) simp_all
    then have "sort_key (claim_key nf) (filter (eligible now) ?ts) = filter (\<lambda>x. x \<noteq> t) (t # rest)"
      unfolding t [symmetric] filter_sort by simp
    moreover have "distinct (t # rest)"
      unfolding t [symmetric] using Cons.prems by (simp add: distinct_map)
    ultimately have "sort_key (claim_key nf) (filter (eligible now) ?ts) = rest"
      by (auto intro: filter_True)
    moreover have "distinct (map st_id ?ts)" unfolding ids by (rule Cons.prems)
    ultimately show ?thesis using Cons.IH [of ?ts] c t by (simp add: split_beta)
  qed
qed simp

text \<open>
  C23. Due work starts. A tick of a replica claims exactly the first eligible tasks in the order of their next run, as
  many as the replica has places left; so a due task whose lease is free is started by the next tick of
  any replica with a place for it.
\<close>
theorem tick_claims_due_tasks:
  assumes "distinct (map st_id ts)"
  shows "map cl_task (fst (sched_tick env nf worker running (map (\<lambda>token. (token, now)) tokens) ts)) =
    take (min (4 - length running) (length tokens)) (map st_id (sort_key (claim_key nf) (filter (eligible now) ts)))"
  using claims_in_order [OF assms, of env nf worker now "take (4 - length running) tokens"]
  by (simp add: sched_tick_def MAX_CONCURRENT_RUNS_def take_map min.commute)

section \<open>A concrete history\<close>

definition demo_upsert :: task_upsert where
  "demo_upsert = \<lparr>tu_id = [], tu_target_type = ''agent'', tu_kind = ''daily'', tu_cron = None, tu_time = Some ''08:00'', tu_weekday = None,
     tu_zone = ''UTC'', tu_start = None, tu_end = None, tu_max_runs = None, tu_status = None\<rparr>"

text \<open>A daily task made on day 0, claimed an hour late, abandoned, claimed again by another replica and completed.\<close>

definition demo_at :: "int \<Rightarrow> int \<Rightarrow> int" where
  "demo_at d h = d * DAY + h * 3600 * SEC"

definition demo_made :: "stask list" where
  "demo_made = (case upsert_task demo_env (\<lambda>_. True) ''t'' ''k'' 0 demo_upsert [] of Inr ts \<Rightarrow> ts | Inl _ \<Rightarrow> [])"

definition demo_claimed :: "stask list" where
  "demo_claimed = (case claim_due demo_env True ''w1'' ''a'' (demo_at 0 9) demo_made of None \<Rightarrow> [] | Some (_, ts) \<Rightarrow> ts)"

definition demo_reclaimed :: "stask list" where
  "demo_reclaimed = (case claim_due demo_env True ''w2'' ''b'' (demo_at 0 10) demo_claimed of None \<Rightarrow> [] | Some (_, ts) \<Rightarrow> ts)"

definition demo_completed :: "stask list" where
  "demo_completed = sd_tasks (finish_run demo_env ''r'' ''succeeded'' (Some ''w2'') (Some ''b'') (demo_at 0 10) ''k''
     \<lparr>sd_tasks = demo_reclaimed, sd_runs = []\<rparr>)"

lemma demo_transactions:
  "upsert_task demo_env (\<lambda>_. True) ''t'' ''k'' 0 demo_upsert [] = Inr demo_made"
  "claim_due demo_env True ''w1'' ''a'' (demo_at 0 9) demo_made =
     Some (\<lparr>cl_task = ''k'', cl_type = ''agent'', cl_token = ''a'', cl_occurrence = demo_at 0 8\<rparr>, demo_claimed)"
  "claim_due demo_env True ''w2'' ''b'' (demo_at 0 10) demo_claimed =
     Some (\<lparr>cl_task = ''k'', cl_type = ''agent'', cl_token = ''b'', cl_occurrence = demo_at 0 8\<rparr>, demo_reclaimed)"
  "load_task (Some ''w2'') (Some ''b'') (demo_at 0 10) ''k'' demo_reclaimed = Some (hd demo_reclaimed)"
  "st_occurrence (hd demo_reclaimed) = Some (demo_at 0 8)"
  by code_simp+

lemma demo_history: "history demo_env ''k'' (demo_at 0 10) demo_completed [(''k'', demo_at 0 8)]"
proof -
  have v: "\<forall>t\<in>set demo_made. st_id t = ''k'' \<longrightarrow> valid_schedule (st_schedule t)" "\<forall>t\<in>set demo_claimed. st_id t = ''k'' \<longrightarrow> valid_schedule (st_schedule t)"
    "\<forall>t\<in>set demo_reclaimed. st_id t = ''k'' \<longrightarrow> valid_schedule (st_schedule t)" "\<forall>t\<in>set demo_completed. st_id t = ''k'' \<longrightarrow> valid_schedule (st_schedule t)"
    by code_simp+
  have c: "0 \<le> (0::int)" "0 \<le> demo_at 0 9" "demo_at 0 9 \<le> demo_at 0 10" "demo_at 0 10 \<le> demo_at 0 10" by code_simp+
  have "history demo_env ''k'' 0 demo_made ([] @ [])"
    by (rule history.onward [OF history.nothing_yet c(1) sched_step.upserts [OF demo_transactions(1)] v(1)]) simp_all
  then have "history demo_env ''k'' 0 demo_made []" by simp
  then have "history demo_env ''k'' (demo_at 0 9) demo_claimed ([] @ [])"
    by (rule history.onward [OF _ c(2) sched_step.claims [OF demo_transactions(2)] v(2)]) simp_all
  then have "history demo_env ''k'' (demo_at 0 9) demo_claimed []" by simp
  then have "history demo_env ''k'' (demo_at 0 10) demo_reclaimed ([] @ [])"
    by (rule history.onward [OF _ c(3) sched_step.claims [OF demo_transactions(3)] v(3)]) simp_all
  then have "history demo_env ''k'' (demo_at 0 10) demo_reclaimed []" by simp
  then have "history demo_env ''k'' (demo_at 0 10) demo_completed ([] @ [(''k'', demo_at 0 8)])"
    by (rule history.onward [OF _ c(4) sched_step.completes [OF demo_transactions(4,5), of demo_env "''r''" "''succeeded''" "[]", folded demo_completed_def] v(4)])
      simp_all
  then show ?thesis by simp
qed

theorem occurrences_complete_once_witness:
  "sorted_wrt (<) (map snd (filter (\<lambda>p. fst p = ''k'') [(''k'', demo_at 0 8)])) \<and> list_all (\<lambda>p. snd p \<le> demo_at 0 10) (filter (\<lambda>p. fst p = ''k'') [(''k'', demo_at 0 8)])"
  by (rule occurrences_complete_once [OF demo_env_ok demo_history])

lemma superseded_run_never_completes_witness:
  "finish_run demo_env ''r'' ''succeeded'' (Some ''w1'') (Some ''a'') (demo_at 0 10) ''k'' \<lparr>sd_tasks = demo_reclaimed, sd_runs = []\<rparr>
     = \<lparr>sd_tasks = demo_reclaimed, sd_runs = []\<rparr>"
proof (rule superseded_run_never_completes)
  show "distinct (map st_id demo_reclaimed)" by code_simp
  show "load_task (Some ''w2'') (Some ''b'') (demo_at 0 10) ''k'' demo_reclaimed \<noteq> None" unfolding demo_transactions(4) by simp
  show "''b'' \<noteq> ''a''" by simp
qed simp

lemma occurrence_stays_pending_witness:
  "st_occurrence (hd demo_reclaimed) = Some (demo_at 0 8)"
proof -
  have d: "distinct (map st_id demo_claimed)" by code_simp
  have m: "hd demo_claimed \<in> set demo_claimed" "hd demo_reclaimed \<in> set demo_reclaimed"
    "st_occurrence (hd demo_claimed) = Some (demo_at 0 8)" "st_id (hd demo_reclaimed) = st_id (hd demo_claimed)" by code_simp+
  show ?thesis using occurrence_stays_pending [OF d sched_step.claims [OF demo_transactions(3)] m(1,3,2,4)] by simp
qed

theorem tick_claims_due_tasks_witness:
  "map cl_task (fst (sched_tick demo_env True ''w1'' [] (map (\<lambda>token. (token, demo_at 0 9)) [''a'', ''b'']) demo_made)) = [''k'']"
proof -
  have d: "distinct (map st_id demo_made)" by code_simp
  have "take (min (4 - length []) (length [''a'', ''b''])) (map st_id (sort_key (claim_key True) (filter (eligible (demo_at 0 9)) demo_made))) = [''k'']"
    by code_simp
  then show ?thesis using tick_claims_due_tasks [OF d, of demo_env True "''w1''" "[]" "demo_at 0 9" "[''a'', ''b'']"] by simp
qed

text \<open>
  The end of a manual run computes the next run from the present, so an occurrence that was due but not yet claimed is
  dropped: the task below was due at eight, a manual run ends at nine, and the next run is the day after.
\<close>

lemma manual_run_drops_due_occurrence:
  "map st_next demo_made = [Some (demo_at 0 8)]"
  "map st_next (sd_tasks (finish_run demo_env ''r'' ''succeeded'' None None (demo_at 0 9) ''k'' \<lparr>sd_tasks = demo_made, sd_runs = []\<rparr>)) = [Some (demo_at 1 8)]"
  by code_simp+

end
