(* ===== verification/Maintenance.thy ===== *)
theory Maintenance
  imports Firewall Auth_Login
begin

text \<open>
  The maintenance the scheduler loop runs beside the tasks, \<^verbatim>\<open>_network_access_maintenance\<close> and
  \<^verbatim>\<open>_housekeeping\<close> of \<^verbatim>\<open>app/automations/scheduler.py\<close>, over the state of the firewall and of the sessions.
  The optional nightly refresh of the workloads is left out.
\<close>

text \<open>
  Land a lapsed commit-confirm revert, with an audit row when there was one, and flush the counters of refused
  requests when they are due; purge dead sessions and old counters.
\<close>

definition network_access_maintenance ::
  "int \<Rightarrow> int \<Rightarrow> firewall \<Rightarrow> block_event list \<Rightarrow> bool \<times> firewall \<times> block_event list" where
  "network_access_maintenance now tick fw rows =
     (let (reverted, file') = revert_if_expired now (fw_file fw); fw1 = fw\<lparr>fw_file := file'\<rparr> in
      if due_for_flush tick (fw_events fw1)
      then (let (n, ev, rows1) = flush_events tick (fw_events fw1) rows in (reverted \<noteq> None, fw1\<lparr>fw_events := ev\<rparr>, rows1))
      else (reverted \<noteq> None, fw1, rows))"













text \<open>
  When no policy is stored yet, the maintenance stores the defaults, so the allowlist given at deployment is no longer
  read: a request it refuses before the first pass is forwarded after it.
\<close>

definition seeded_env :: env where
  "seeded_env = \<lparr>SEED_ENV = Some ''192.0.2.0/24'', SEED_MODE_ENV = None, BREAK_GLASS_ENV = None\<rparr>"

lemma maintenance_discards_seed:
  "fw_file (fst (snd (network_access_maintenance 5 0 example_firewall []))) = Object DEFAULTS"
  "fst (ip_allowlist seeded_env example_settings 9 ''t'' ''http'' ''/'' example_request example_firewall) = Forbidden"
  "fst (ip_allowlist seeded_env example_settings 9 ''t'' ''http'' ''/'' example_request
     (fst (snd (network_access_maintenance 5 0 example_firewall [])))) = Forward"
  by code_simp+

end
