(* ===== verification/Chat_Store.thy ===== *)
theory Chat_Store
  imports Json_Values
begin

text \<open>
  The chats of a user, \<^verbatim>\<open>app/api/chats.py\<close>: listing, forking, truncating, the trash, and the rows a new
  turn writes before its worker starts. The two tables are lists of rows in insertion order, a handler is a function of
  them. New ids and the clock are arguments; so are the settings a handler resolves outside the tables (the
  active model, connections, workloads, custom agents, a generated title). Messages created at one instant
  keep their insertion order.
\<close>

section \<open>Tables\<close>

record chat =
  ch_id :: string
  ch_tenant :: string
  ch_user :: string
  ch_title :: string
  ch_prompt :: "string option"
  ch_provider :: "string option"
  ch_model :: "string option"
  ch_connection :: "string option"
  ch_thinking :: string
  ch_agent :: "string option"
  ch_workload :: "string option"
  ch_archived :: bool
  ch_pinned :: bool
  ch_created :: int

record chat_message =
  me_id :: string
  me_chat :: string
  me_role :: string
  me_content :: string
  me_tokens :: int
  me_activity :: json
  me_images :: json
  me_provider :: "string option"
  me_model :: "string option"
  me_duration :: "int option"
  me_investigation :: json
  me_created :: int

record audit_row =
  ar_tenant :: string
  ar_actor :: string
  ar_action :: string
  ar_target :: "string option"
  ar_meta :: doc

record chats_db =
  cd_chats :: "chat list"
  cd_messages :: "chat_message list"
  cd_audit :: "audit_row list"

text \<open>Who asks: the tenant and the subject of the principal.\<close>

type_synonym user = "string \<times> string"

definition owner :: "chat \<Rightarrow> user" where
  "owner c = (ch_tenant c, ch_user c)"

section \<open>Reading\<close>

definition get_owned_chat :: "user \<Rightarrow> string \<Rightarrow> chats_db \<Rightarrow> chat option" where
  "get_owned_chat u i db =
     (case find (\<lambda>c. ch_id c = i) (cd_chats db) of
        None \<Rightarrow> None
      | Some c \<Rightarrow> if ch_tenant c \<noteq> fst u \<or> ch_user c \<noteq> snd u then None else Some c)"

definition chat_rows :: "string \<Rightarrow> chats_db \<Rightarrow> chat_message list" where
  "chat_rows i db = sort_key me_created (filter (\<lambda>m. me_chat m = i) (cd_messages db))"

definition last_activity :: "chats_db \<Rightarrow> chat \<Rightarrow> int" where
  "last_activity db c =
     (case chat_rows (ch_id c) db of [] \<Rightarrow> ch_created c | ms \<Rightarrow> me_created (last ms))"

definition by_activity :: "chats_db \<Rightarrow> chat list \<Rightarrow> chat list" where
  "by_activity db cs = sort_key (\<lambda>c. - last_activity db c) cs"

definition own_chats :: "user \<Rightarrow> bool \<Rightarrow> chats_db \<Rightarrow> chat list" where
  "own_chats u archived db =
     filter (\<lambda>c. ch_tenant c = fst u \<and> ch_user c = snd u \<and> ch_archived c = archived) (cd_chats db)"

definition list_chats :: "user \<Rightarrow> chats_db \<Rightarrow> chat list" where
  "list_chats u db =
     take 500 (sort_key (\<lambda>c. if ch_pinned c then 0 else 1 :: nat) (by_activity db (own_chats u False db)))"

definition list_trash :: "user \<Rightarrow> chats_db \<Rightarrow> chat list" where
  "list_trash u db = by_activity db (own_chats u True db)"

definition history_content :: "chat_message \<Rightarrow> json" where
  "history_content m =
     (case if me_role m = ''user'' then me_images m else J_Null of
        J_List (x # xs) \<Rightarrow>
          J_List (J_Obj [(''type'', J_Text ''text''), (''text'', J_Text (me_content m))]
            # concat (map (\<lambda>url. case url of
                 J_Text s \<Rightarrow> if starts_with s ''data:''
                   then [J_Obj [(''type'', J_Text ''image_url''), (''image_url'', J_Obj [(''url'', J_Text s)])]] else []
               | _ \<Rightarrow> []) (take 6 (x # xs))))
      | _ \<Rightarrow> J_Text (me_content m))"

definition history_for :: "string \<Rightarrow> chats_db \<Rightarrow> doc list" where
  "history_for i db =
     map (\<lambda>m. [(''role'', J_Text (me_role m)), (''content'', history_content m)]) (chat_rows i db)"

section \<open>Changing chats\<close>

definition set_chat :: "chat \<Rightarrow> chats_db \<Rightarrow> chats_db" where
  "set_chat c db = db\<lparr>cd_chats := map (\<lambda>x. if ch_id x = ch_id c then c else x) (cd_chats db)\<rparr>"

text \<open>Deleting a chat deletes its messages.\<close>

definition drop_chats :: "string list \<Rightarrow> chats_db \<Rightarrow> chats_db" where
  "drop_chats is db =
     db\<lparr>cd_chats := filter (\<lambda>c. ch_id c \<notin> set is) (cd_chats db),
        cd_messages := filter (\<lambda>m. me_chat m \<notin> set is) (cd_messages db)\<rparr>"

definition drop_messages :: "chat_message list \<Rightarrow> chats_db \<Rightarrow> chats_db" where
  "drop_messages doomed db = db\<lparr>cd_messages := filter (\<lambda>m. m \<notin> set doomed) (cd_messages db)\<rparr>"

definition audit :: "user \<Rightarrow> string \<Rightarrow> string option \<Rightarrow> doc \<Rightarrow> chats_db \<Rightarrow> chats_db" where
  "audit u action target meta db =
     db\<lparr>cd_audit := cd_audit db @ [\<lparr>ar_tenant = fst u, ar_actor = snd u, ar_action = action, ar_target = target, ar_meta = meta\<rparr>]\<rparr>"

definition opt_or :: "string option \<Rightarrow> string option \<Rightarrow> string option" where
  "opt_or v w = (case v of Some (x # xs) \<Rightarrow> v | _ \<Rightarrow> w)"

record chat_defaults =
  cf_provider :: string
  cf_model :: string
  cf_connection :: "string option"

record chat_create =
  cc_title :: "string option"
  cc_prompt :: "string option"
  cc_provider :: "string option"
  cc_model :: "string option"
  cc_connection :: "string option"

definition create_chat :: "user \<Rightarrow> string \<Rightarrow> int \<Rightarrow> chat_defaults \<Rightarrow> chat_create \<Rightarrow> chats_db \<Rightarrow> chat \<times> chats_db" where
  "create_chat u i now d p db =
     (let c = \<lparr>ch_id = i, ch_tenant = fst u, ch_user = snd u, ch_title = str_or (cc_title p) ''New Chat'',
            ch_prompt = cc_prompt p, ch_provider = Some (str_or (cc_provider p) (cf_provider d)),
            ch_model = Some (str_or (cc_model p) (cf_model d)), ch_connection = opt_or (cc_connection p) (cf_connection d),
            ch_thinking = ''normal'', ch_agent = None, ch_workload = None, ch_archived = False, ch_pinned = False,
            ch_created = now\<rparr>
      in (c, db\<lparr>cd_chats := cd_chats db @ [c]\<rparr>))"

definition breakout_title :: "string \<Rightarrow> string" where
  "breakout_title t =
     (let base = (if t = [] then ''Chat'' else t);
          bare = (if starts_with base ''Breakout: '' then drop (length ''Breakout: '') base else base)
      in take 256 (''Breakout: '' @ bare))"

definition first_index :: "('a \<Rightarrow> bool) \<Rightarrow> 'a list \<Rightarrow> nat option" where
  "first_index p xs = find (\<lambda>i. p (xs ! i)) [0..<length xs]"

definition cutoff :: "string option \<Rightarrow> chat_message list \<Rightarrow> nat" where
  "cutoff up_to rows =
     (case up_to of
        Some (x # xs) \<Rightarrow> (case first_index (\<lambda>m. me_id m = x # xs) rows of Some i \<Rightarrow> i + 1 | None \<Rightarrow> length rows)
      | _ \<Rightarrow> length rows)"

definition copy_message :: "string \<Rightarrow> string \<Rightarrow> chat_message \<Rightarrow> chat_message" where
  "copy_message i c m = m\<lparr>me_id := i, me_chat := c, me_investigation := J_Null\<rparr>"

definition copied_rows :: "string option \<Rightarrow> chat_message list \<Rightarrow> chat_message list" where
  "copied_rows up_to rows = take (cutoff up_to rows) rows"

definition breakout_row :: "user \<Rightarrow> string \<Rightarrow> int \<Rightarrow> chat \<Rightarrow> chat" where
  "breakout_row u new now src =
     \<lparr>ch_id = new, ch_tenant = fst u, ch_user = snd u, ch_title = breakout_title (ch_title src), ch_prompt = ch_prompt src,
      ch_provider = ch_provider src, ch_model = ch_model src, ch_connection = ch_connection src, ch_thinking = ''normal'',
      ch_agent = None, ch_workload = None, ch_archived = False, ch_pinned = False, ch_created = now\<rparr>"

text \<open>\<open>ids\<close> are the new ids of the copies, one for each copied message.\<close>

definition breakout_chat ::
  "user \<Rightarrow> string \<Rightarrow> string list \<Rightarrow> int \<Rightarrow> string \<Rightarrow> string option \<Rightarrow> chats_db \<Rightarrow> chat option \<times> chats_db" where
  "breakout_chat u new ids now i up_to db =
     (case get_owned_chat u i db of
        None \<Rightarrow> (None, db)
      | Some src \<Rightarrow>
          (let c = breakout_row u new now src; copied = copied_rows up_to (chat_rows i db)
           in (Some c,
               audit u ''chat.breakout'' (Some new)
                 [(''source_chat'', J_Text i), (''messages'', J_Num (int (length copied)))]
                 (db\<lparr>cd_chats := cd_chats db @ [c],
                     cd_messages := cd_messages db @ map (\<lambda>(k, m). copy_message k new m) (zip ids copied)\<rparr>))))"

definition delete_messages_from :: "user \<Rightarrow> string \<Rightarrow> string \<Rightarrow> chats_db \<Rightarrow> nat option \<times> chats_db" where
  "delete_messages_from u i mid db =
     (case get_owned_chat u i db of
        None \<Rightarrow> (None, db)
      | Some c \<Rightarrow>
          (let rows = chat_rows i db
           in case first_index (\<lambda>m. me_id m = mid) rows of
                None \<Rightarrow> (None, db)
              | Some start \<Rightarrow> (Some (length rows - start), drop_messages (drop start rows) db)))"

definition delete_chat :: "user \<Rightarrow> string \<Rightarrow> chats_db \<Rightarrow> bool \<times> chats_db" where
  "delete_chat u i db =
     (case get_owned_chat u i db of None \<Rightarrow> (False, db) | Some c \<Rightarrow> (True, set_chat (c\<lparr>ch_archived := True\<rparr>) db))"

definition restore_chat :: "user \<Rightarrow> string \<Rightarrow> chats_db \<Rightarrow> bool \<times> chats_db" where
  "restore_chat u i db =
     (case get_owned_chat u i db of None \<Rightarrow> (False, db) | Some c \<Rightarrow> (True, set_chat (c\<lparr>ch_archived := False\<rparr>) db))"

definition purge_chat :: "user \<Rightarrow> string \<Rightarrow> chats_db \<Rightarrow> bool \<times> chats_db" where
  "purge_chat u i db =
     (case get_owned_chat u i db of None \<Rightarrow> (False, db) | Some c \<Rightarrow> (True, drop_chats [ch_id c] db))"

definition empty_trash :: "user \<Rightarrow> chats_db \<Rightarrow> nat \<times> chats_db" where
  "empty_trash u db =
     (let cs = own_chats u True db
      in (length cs,
          audit u ''chats.empty_trash'' None [(''count'', J_Num (int (length cs)))] (drop_chats (map ch_id cs) db)))"

definition delete_all_chats :: "user \<Rightarrow> chats_db \<Rightarrow> nat \<times> chats_db" where
  "delete_all_chats u db =
     (let cs = filter (\<lambda>c. \<not> ch_pinned c) (own_chats u False db)
      in (length cs,
          audit u ''chats.delete_all'' None [(''count'', J_Num (int (length cs)))]
            (db\<lparr>cd_chats := map (\<lambda>c. if ch_id c \<in> set (map ch_id cs) then c\<lparr>ch_archived := True\<rparr> else c) (cd_chats db)\<rparr>)))"

record chat_patch =
  cp_title :: "string option"
  cp_pinned :: "bool option"
  cp_provider :: "string option"
  cp_model :: "string option"
  cp_connection :: "string option"
  cp_thinking :: "string option"
  cp_agent :: "string option"

definition non_empty :: "string \<Rightarrow> string option" where
  "non_empty s = (if s = [] then None else Some s)"

definition patched :: "chat_patch \<Rightarrow> chat \<Rightarrow> chat" where
  "patched p c =
     c\<lparr>ch_title := (case cp_title p of None \<Rightarrow> ch_title c
          | Some t \<Rightarrow> if py_strip t = [] then ch_title c else take 256 (py_strip t)),
       ch_pinned := (case cp_pinned p of None \<Rightarrow> ch_pinned c | Some b \<Rightarrow> b),
       ch_provider := (case cp_provider p of None \<Rightarrow> ch_provider c | Some s \<Rightarrow> Some s),
       ch_model := (case cp_model p of None \<Rightarrow> ch_model c | Some s \<Rightarrow> Some s),
       ch_connection := (case cp_connection p of None \<Rightarrow> ch_connection c | Some s \<Rightarrow> non_empty s),
       ch_thinking := (case cp_thinking p of None \<Rightarrow> ch_thinking c
          | Some s \<Rightarrow> if s = ''normal'' \<or> s = ''deep'' then s else ch_thinking c),
       ch_agent := (case cp_agent p of None \<Rightarrow> ch_agent c | Some s \<Rightarrow> non_empty s)\<rparr>"

definition update_chat :: "user \<Rightarrow> string \<Rightarrow> chat_patch \<Rightarrow> chats_db \<Rightarrow> chat option \<times> chats_db" where
  "update_chat u i p db =
     (case get_owned_chat u i db of
        None \<Rightarrow> (None, db)
      | Some c \<Rightarrow> (Some (patched p c), set_chat (patched p c) db))"

end
