(* ===== verification/Chat_Start.thy ===== *)
theory Chat_Start
  imports Chat_Store
begin

text \<open>
  The start of a turn, \<open>_start_message_turn\<close> of \<^verbatim>\<open>app/api/chats.py\<close> up to the blank assistant message: the user
  message or the removal of the previous answer, the title, the agent, workload and connection of the turn, its
  scope hint, thinking level and model. The registries, the title generator and the lookup of the active model are
  functions of an environment; the hints for the nodes of a workload and for its sandbox machines are texts of
  it. The memory and roster of a deep investigation and the tools registered for the turn are left out.
\<close>

section \<open>Requests and what they resolve to\<close>

record connection =
  cn_id :: string
  cn_tenant :: string
  cn_display :: "string option"
  cn_disabled :: bool
  cn_subscription :: "string option"
  cn_default :: bool

record workload_node =
  wn_kind :: string
  wn_id :: string

record workload =
  wl_connection :: string
  wl_nodes :: "workload_node list"

record agent =
  ag_connection :: "string option"
  ag_provider :: "string option"
  ag_model :: "string option"
  ag_run_mode :: string
  ag_all_entra :: bool
  ag_all_azure :: bool
  ag_entra_tools :: "string list"
  ag_entra_bundles :: "string list"

record start_env =
  se_active :: bool
  se_auto_title :: bool
  se_summarize :: "string \<Rightarrow> string"
  se_agent :: "string \<Rightarrow> agent option"
  se_workload :: "string \<Rightarrow> workload option"
  se_connections :: "connection list"
  se_get_active :: "string option \<Rightarrow> string option \<Rightarrow> string \<times> string"
  se_active_model :: string
  se_entra_enabled :: bool
  se_workload_hint :: "workload \<Rightarrow> string"
  se_can_exec :: bool
  se_sandbox_hint :: "string \<Rightarrow> string option"

record turn_request =
  rq_content :: string
  rq_images :: "string list"
  rq_subscription :: "string option"
  rq_subscription_name :: "string option"
  rq_group :: "string option"
  rq_group_name :: "string option"
  rq_connection :: "string option"
  rq_tenant_name :: "string option"
  rq_scope_all :: bool
  rq_thinking :: "string option"
  rq_agent :: "string option"
  rq_workload :: "string option"
  rq_regenerate :: bool

record turn_plan =
  pl_assistant :: string
  pl_history :: "doc list"
  pl_scope_hint :: "string option"
  pl_connection :: "connection option"
  pl_thinking :: string
  pl_provider :: string
  pl_model :: string
  pl_override :: "string option"
  pl_azure :: bool
  pl_entra :: bool

datatype start_answer =
    Chat_Not_Found
  | Attached
  | Workload_Not_Found
  | Connection_Conflict string
  | Started turn_plan

section \<open>The scope of a turn\<close>

definition is_set :: "string option \<Rightarrow> bool" where
  "is_set v \<longleftrightarrow> v \<noteq> None \<and> v \<noteq> Some []"

definition quoted :: "string \<Rightarrow> string" where
  "quoted s = [CHR 0x27] @ s @ [CHR 0x27]"

definition scope_hint :: "turn_request \<Rightarrow> string option" where
  "scope_hint q =
     (let sub = str_or (rq_subscription q) []; mg = str_or (rq_group q) [];
          sname = str_or (rq_subscription_name q) sub; mname = str_or (rq_group_name q) mg
      in if is_set (rq_subscription q) \<and> is_set (rq_group q) then
           Some (''Scope constraint: the user chose to investigate ONLY the Azure subscription '' @ quoted sname @ '' (id: '' @ sub
             @ ''), which belongs to the management group '' @ quoted mname @ '' (id: '' @ mg
             @ ''). Pass this subscription id to every Azure tool call, and scope any governance, policy, compliance or RBAC ''
             @ ''queries to this management group. Do not query other subscriptions or scopes unless the user explicitly asks.'')
         else if is_set (rq_subscription q) then
           Some (''Scope constraint: the user chose to investigate ONLY the Azure subscription '' @ quoted sname @ '' (id: '' @ sub
             @ ''). Pass this subscription id to every Azure tool call and do not query other subscriptions unless the ''
             @ ''user explicitly asks.'')
         else if is_set (rq_group q) then
           Some (''Scope constraint: the user chose to investigate ONLY the Azure management group '' @ quoted mname @ '' (id: '' @ mg
             @ ''). Scope governance, policy, compliance and RBAC queries to this management group, and when you need resource ''
             @ ''detail, enumerate the subscriptions under it and investigate those. Do not query scopes outside this ''
             @ ''management group unless the user explicitly asks.'')
         else if rq_scope_all q then
           Some (''Scope: the user chose to search ALL accessible subscriptions. Enumerate subscriptions and investigate ''
             @ ''across all of them.'')
         else None)"

definition get_connection :: "start_env \<Rightarrow> string \<Rightarrow> connection option" where
  "get_connection env i = (if i = [] then None else find (\<lambda>c. cn_id c = i) (se_connections env))"

definition get_default_connection :: "start_env \<Rightarrow> connection option" where
  "get_default_connection env =
     (case filter (\<lambda>c. \<not> cn_disabled c) (se_connections env) of
        [] \<Rightarrow> None
      | c # cs \<Rightarrow> (case find cn_default (c # cs) of Some d \<Rightarrow> Some d | None \<Rightarrow> Some c))"

definition resolve_connection :: "start_env \<Rightarrow> string option \<Rightarrow> connection option" where
  "resolve_connection env i =
     (if \<not> is_set i then get_default_connection env
      else case get_connection env (the i) of
             Some c \<Rightarrow> if cn_disabled c then get_default_connection env else Some c
           | None \<Rightarrow> get_default_connection env)"

definition BOUND_CONNECTION_ERROR :: string where
  "BOUND_CONNECTION_ERROR =
     ''The selected workload'' @ [CHR 0x27] @ ''s Azure connection is missing or disabled.''"

definition resolve_workload_bound_connection ::
  "start_env \<Rightarrow> string option \<Rightarrow> workload option \<Rightarrow> (string, connection option) result" where
  "resolve_workload_bound_connection env chosen w =
     (case w of
        Some wl \<Rightarrow>
          (if wl_connection wl = [] then Inr (resolve_connection env chosen)
           else case get_connection env (wl_connection wl) of
                  None \<Rightarrow> Inl BOUND_CONNECTION_ERROR
                | Some c \<Rightarrow> if cn_disabled c then Inl BOUND_CONNECTION_ERROR else Inr (Some c))
      | None \<Rightarrow> Inr (resolve_connection env chosen))"

text \<open>The subscriptions named by the nodes: \<open>/subscriptions/\<close> followed by 36 hexadecimal digits or dashes.\<close>

definition is_guid_char :: "char \<Rightarrow> bool" where
  "is_guid_char c \<longleftrightarrow> is_digit c \<or> c = CHR 0x2D \<or> (97 \<le> char_code (lower_char c) \<and> char_code (lower_char c) \<le> 102)"

definition subscription_here :: "string \<Rightarrow> string option" where
  "subscription_here s =
     (let rest = drop (length ''/subscriptions/'') s
      in if starts_with s ''/subscriptions/'' \<and> 36 \<le> length rest \<and> list_all is_guid_char (take 36 rest) then Some (take 36 rest)
         else None)"

fun find_subscription :: "string \<Rightarrow> string option" where
  "find_subscription [] = None"
| "find_subscription (c # cs) =
     (case subscription_here (c # cs) of Some i \<Rightarrow> Some i | None \<Rightarrow> find_subscription cs)"

definition node_subscriptions :: "workload_node \<Rightarrow> string list" where
  "node_subscriptions n =
     (if wn_kind n = ''subscription'' \<and> wn_id n \<noteq> [] then [py_lower (wn_id n)] else [])
     @ (case find_subscription (wn_id n) of None \<Rightarrow> [] | Some i \<Rightarrow> [py_lower i])"

definition pinned_connection :: "workload option \<Rightarrow> connection option \<Rightarrow> connection option" where
  "pinned_connection w c =
     (case (w, c) of
        (Some wl, Some cn) \<Rightarrow>
          (if wl_nodes wl \<noteq> [] \<and> py_strip (str_or (cn_subscription cn) []) = [] then
             (case remdups (concat (map node_subscriptions (wl_nodes wl))) of
                [s] \<Rightarrow> Some (cn\<lparr>cn_subscription := Some s\<rparr>)
              | _ \<Rightarrow> c)
           else c)
      | _ \<Rightarrow> c)"

definition owns_connection :: "workload option \<Rightarrow> bool" where
  "owns_connection w = (case w of None \<Rightarrow> False | Some wl \<Rightarrow> wl_connection wl \<noteq> [])"

definition tenant_line :: "turn_request \<Rightarrow> workload option \<Rightarrow> connection \<Rightarrow> string" where
  "tenant_line q w c =
     (let label = str_or (if owns_connection w then None else rq_tenant_name q) (str_or (cn_display c) (cn_tenant c))
      in ''Azure tenant context: you are operating in the '' @ quoted label @ '' tenant (tenant id: '' @ cn_tenant c
         @ ''). All Azure tool calls use this tenant'' @ [CHR 0x27]
         @ ''s identity; never assume resources from other tenants.'')"

definition blank_line :: string where
  "blank_line = [CHR 0x0A, CHR 0x0A]"

definition with_tenant :: "turn_request \<Rightarrow> workload option \<Rightarrow> connection option \<Rightarrow> string option \<Rightarrow> string option" where
  "with_tenant q w c hint =
     (case c of
        None \<Rightarrow> hint
      | Some cn \<Rightarrow> Some (case hint of None \<Rightarrow> tenant_line q w cn | Some h \<Rightarrow> tenant_line q w cn @ blank_line @ h))"

definition with_workload :: "start_env \<Rightarrow> workload option \<Rightarrow> string option \<Rightarrow> string option" where
  "with_workload env w hint =
     (case w of
        None \<Rightarrow> hint
      | Some wl \<Rightarrow>
          (if wl_nodes wl = [] then hint
           else Some (case hint of None \<Rightarrow> se_workload_hint env wl | Some h \<Rightarrow> h @ blank_line @ se_workload_hint env wl)))"

text \<open>The sandbox machines of a workload are named only to who may run commands on them.\<close>

definition with_sandbox :: "start_env \<Rightarrow> string option \<Rightarrow> string option \<Rightarrow> string option" where
  "with_sandbox env workload_id hint =
     (if is_set workload_id \<and> se_can_exec env then
        (case se_sandbox_hint env (the workload_id) of
           None \<Rightarrow> hint
         | Some vms \<Rightarrow> Some (case hint of None \<Rightarrow> vms | Some h \<Rightarrow> h @ blank_line @ vms))
      else hint)"

section \<open>The rows a turn starts from\<close>

text \<open>Regenerating deletes, from the newest message back, what the assistant and its tools said, up to
  the last user message.\<close>

definition regenerated :: "string \<Rightarrow> chats_db \<Rightarrow> chats_db" where
  "regenerated i db =
     drop_messages (filter (\<lambda>m. me_role m = ''assistant'' \<or> me_role m = ''tool'')
       (takeWhile (\<lambda>m. me_role m \<noteq> ''user'') (rev (chat_rows i db)))) db"

definition new_message :: "string \<Rightarrow> string \<Rightarrow> string \<Rightarrow> string \<Rightarrow> int \<Rightarrow> chat_message" where
  "new_message i c role content now =
     \<lparr>me_id = i, me_chat = c, me_role = role, me_content = content, me_tokens = 0, me_activity = J_Null, me_images = J_Null,
      me_provider = None, me_model = None, me_duration = None, me_investigation = J_Null, me_created = now\<rparr>"

definition add_message :: "chat_message \<Rightarrow> chats_db \<Rightarrow> chats_db" where
  "add_message m db = db\<lparr>cd_messages := cd_messages db @ [m]\<rparr>"

definition user_message :: "string \<Rightarrow> string \<Rightarrow> turn_request \<Rightarrow> int \<Rightarrow> chat_message" where
  "user_message i c q now =
     (new_message i c ''user'' (rq_content q) now)
       \<lparr>me_images := (if rq_images q = [] then J_Null else J_List (map J_Text (rq_images q)))\<rparr>"

definition with_request :: "string \<Rightarrow> int \<Rightarrow> turn_request \<Rightarrow> string \<Rightarrow> chats_db \<Rightarrow> chats_db" where
  "with_request new now q i db =
     (if rq_regenerate q then regenerated i db else add_message (user_message new i q now) db)"

definition titled :: "start_env \<Rightarrow> turn_request \<Rightarrow> chat \<Rightarrow> chat" where
  "titled env q c =
     (if ch_title c = ''New Chat'' \<and> se_auto_title env then c\<lparr>ch_title := se_summarize env (rq_content q)\<rparr> else c)"

definition turn_agent_id :: "turn_request \<Rightarrow> chat \<Rightarrow> string option" where
  "turn_agent_id q c = (case rq_agent q of None \<Rightarrow> ch_agent c | Some s \<Rightarrow> non_empty s)"

definition turn_agent :: "start_env \<Rightarrow> turn_request \<Rightarrow> chat \<Rightarrow> agent option" where
  "turn_agent env q c = (case turn_agent_id q c of Some (x # xs) \<Rightarrow> se_agent env (x # xs) | _ \<Rightarrow> None)"

definition turn_workload_id :: "turn_request \<Rightarrow> chat \<Rightarrow> string option" where
  "turn_workload_id q c = (case rq_workload q of None \<Rightarrow> ch_workload c | Some s \<Rightarrow> non_empty s)"

definition turn_workload :: "start_env \<Rightarrow> turn_request \<Rightarrow> chat \<Rightarrow> workload option" where
  "turn_workload env q c = (case turn_workload_id q c of Some (x # xs) \<Rightarrow> se_workload env (x # xs) | _ \<Rightarrow> None)"

definition chosen_connection :: "turn_request \<Rightarrow> agent option \<Rightarrow> chat \<Rightarrow> string option" where
  "chosen_connection q a c =
     opt_or (rq_connection q) (opt_or (Option.bind a ag_connection) (ch_connection c))"

definition scoped_chat :: "turn_request \<Rightarrow> agent option \<Rightarrow> workload option \<Rightarrow> connection option \<Rightarrow> chat \<Rightarrow> chat" where
  "scoped_chat q a w cn c =
     (let c1 = c\<lparr>ch_workload := turn_workload_id q c\<rparr>
      in case cn of
           None \<Rightarrow> c1
         | Some k \<Rightarrow> if a = None \<or> owns_connection w then c1\<lparr>ch_connection := Some (cn_id k)\<rparr> else c1)"

definition turn_thinking :: "turn_request \<Rightarrow> chat \<Rightarrow> string" where
  "turn_thinking q c =
     (let t = py_lower (str_or (rq_thinking q) (str_or (non_empty (ch_thinking c)) ''normal''))
      in if t = ''normal'' \<or> t = ''deep'' then t else ''normal'')"

definition agent_forces_model :: "agent option \<Rightarrow> bool" where
  "agent_forces_model a = (case a of None \<Rightarrow> False | Some g \<Rightarrow> is_set (ag_provider g) \<and> is_set (ag_model g))"

definition turn_model :: "start_env \<Rightarrow> agent option \<Rightarrow> chat \<Rightarrow> string \<times> string" where
  "turn_model env a c =
     (let (p, m) = (if agent_forces_model a then se_get_active env (ag_provider (the a)) (ag_model (the a))
            else if is_set (ch_provider c) \<and> is_set (ch_model c) then se_get_active env (ch_provider c) (ch_model c)
            else se_get_active env None None)
      in (p, if m = [] then se_active_model env else m))"

definition policy_override :: "agent option \<Rightarrow> string option" where
  "policy_override a =
     map_option (\<lambda>g. if ag_run_mode g = ''autonomous'' then ''off'' else ''gated'') a"

text \<open>The chat row after the first commits, and after the last.\<close>

definition first_row :: "start_env \<Rightarrow> turn_request \<Rightarrow> chat \<Rightarrow> chat" where
  "first_row env q c = (titled env q c)\<lparr>ch_agent := turn_agent_id q c\<rparr>"

definition final_row :: "start_env \<Rightarrow> turn_request \<Rightarrow> connection option \<Rightarrow> chat \<Rightarrow> chat" where
  "final_row env q cn c =
     (let a = turn_agent env q c; (p, m) = turn_model env a c;
          c2 = (scoped_chat q a (turn_workload env q c) cn (first_row env q c))\<lparr>ch_thinking := turn_thinking q c\<rparr>
      in if agent_forces_model a then c2 else c2\<lparr>ch_provider := Some p, ch_model := Some m\<rparr>)"

definition blank_answer :: "start_env \<Rightarrow> string \<Rightarrow> int \<Rightarrow> turn_request \<Rightarrow> string \<Rightarrow> chat \<Rightarrow> chat_message" where
  "blank_answer env l later q i c =
     (let (p, m) = turn_model env (turn_agent env q c) c
      in (new_message l i ''assistant'' [] later)\<lparr>me_provider := Some p, me_model := Some m\<rparr>)"

definition make_plan :: "start_env \<Rightarrow> string \<Rightarrow> turn_request \<Rightarrow> connection option \<Rightarrow> chat \<Rightarrow> chats_db \<Rightarrow> turn_plan" where
  "make_plan env l q cn c db =
     (let a = turn_agent env q c; w = turn_workload env q c; (p, m) = turn_model env a c
      in \<lparr>pl_assistant = l, pl_history = history_for (ch_id c) db,
          pl_scope_hint = with_sandbox env (turn_workload_id q c) (with_workload env w (with_tenant q w cn (scope_hint q))),
          pl_connection = pinned_connection w cn, pl_thinking = turn_thinking q c, pl_provider = p, pl_model = m,
          pl_override = policy_override a, pl_azure = (case a of None \<Rightarrow> True | Some g \<Rightarrow> ag_all_azure g),
          pl_entra = (case a of None \<Rightarrow> se_entra_enabled env
             | Some g \<Rightarrow> ag_all_entra g \<or> ag_entra_tools g \<noteq> [] \<or> ag_entra_bundles g \<noteq> [])\<rparr>)"

definition start_turn ::
  "start_env \<Rightarrow> user \<Rightarrow> string \<Rightarrow> string \<Rightarrow> int \<Rightarrow> int \<Rightarrow> turn_request \<Rightarrow> string \<Rightarrow> chats_db \<Rightarrow> start_answer \<times> chats_db" where
  "start_turn env u user_id assistant_id now later q i db =
     (case get_owned_chat u i db of
        None \<Rightarrow> (Chat_Not_Found, db)
      | Some c \<Rightarrow>
          if se_active env then (Attached, db)
          else
            (let db1 = set_chat (first_row env q c) (with_request user_id now q i db); w = turn_workload env q c
             in if is_set (turn_workload_id q c) \<and> w = None then (Workload_Not_Found, db1)
                else case resolve_workload_bound_connection env (chosen_connection q (turn_agent env q c) c) w of
                       Inl e \<Rightarrow> (Connection_Conflict e, db1)
                     | Inr cn \<Rightarrow>
                         (let db2 = set_chat (final_row env q cn c) db1
                          in (Started (make_plan env assistant_id q cn c db2),
                              add_message (blank_answer env assistant_id later q i c) db2))))"

end
