(* ===== verification/Isolation.thy ===== *)
theory Isolation
  imports Prelude
begin

text \<open>
  The contract of a store that several users share through requests: what a user sees does not depend on the
  requests of others. A provider shows it for one request; the lemmas carry it to whole histories.
\<close>

text \<open>The answers of a history, each with the user who gets it, and the state it leaves.\<close>

primrec history :: "('r \<Rightarrow> 's \<Rightarrow> 'a \<times> 's) \<Rightarrow> ('r \<Rightarrow> 'u) \<Rightarrow> 'r list \<Rightarrow> 's \<Rightarrow> ('u \<times> 'a) list \<times> 's" where
  "history act who [] s = ([], s)"
| "history act who (r # rs) s =
     (let (a, t) = act r s; (as, t') = history act who rs t in ((who r, a) # as, t'))"

lemma history_append: "snd (history act who (xs @ ys) s) = snd (history act who ys (snd (history act who xs s)))"
  by (induction xs arbitrary: s) (simp_all add: Let_def case_prod_beta)

definition seen_by :: "'u \<Rightarrow> ('u \<times> 'a) list \<Rightarrow> 'a list" where
  "seen_by u as = map snd (filter (\<lambda>(v, a). v = u) as)"

locale isolated =
  fixes act :: "'r \<Rightarrow> 's \<Rightarrow> 'a \<times> 's"
    and who :: "'r \<Rightarrow> 'u"
    and news :: "'r \<Rightarrow> 'i list"
    and uses :: "'s \<Rightarrow> 'i set"
    and good :: "'s \<Rightarrow> bool"
    and view :: "'u \<Rightarrow> 's \<Rightarrow> 'v"
  assumes act_good: "good s \<Longrightarrow> distinct (news r) \<Longrightarrow> set (news r) \<inter> uses s = {} \<Longrightarrow> good (snd (act r s))"
    and act_uses: "good s \<Longrightarrow> set (news r) \<inter> uses s = {} \<Longrightarrow> uses (snd (act r s)) \<subseteq> uses s \<union> set (news r)"
    and foreign: "good s \<Longrightarrow> set (news r) \<inter> uses s = {} \<Longrightarrow> who r \<noteq> u \<Longrightarrow> view u (snd (act r s)) = view u s"
    and own_answer: "good s \<Longrightarrow> good t \<Longrightarrow> view (who r) s = view (who r) t \<Longrightarrow> fst (act r s) = fst (act r t)"
    and own_view: "good s \<Longrightarrow> good t \<Longrightarrow> set (news r) \<inter> (uses s \<union> uses t) = {} \<Longrightarrow> view (who r) s = view (who r) t
      \<Longrightarrow> view (who r) (snd (act r s)) = view (who r) (snd (act r t))"
begin

lemma history_isolated:
  assumes "good s" "good t" "view u s = view u t" "distinct (concat (map news rs))"
    "set (concat (map news rs)) \<inter> (uses s \<union> uses t) = {}"
  shows "seen_by u (fst (history act who rs s)) = seen_by u (fst (history act who (filter (\<lambda>r. who r = u) rs) t))
    \<and> view u (snd (history act who rs s)) = view u (snd (history act who (filter (\<lambda>r. who r = u) rs) t))"
  using assms
proof (induction rs arbitrary: s t)
  case Nil
  then show ?case
    by simp
next
  case (Cons r rs)
  let ?s = "snd (act r s)" and ?t = "snd (act r t)"
  have new: "distinct (news r)" "set (news r) \<inter> uses s = {}" "set (news r) \<inter> uses t = {}"
    and rest: "distinct (concat (map news rs))" "set (news r) \<inter> set (concat (map news rs)) = {}"
    using Cons.prems(4,5) by auto
  have s: "good ?s"
    by (rule act_good [OF Cons.prems(1) new(1,2)])
  have us: "set (concat (map news rs)) \<inter> uses ?s = {}"
    using Cons.prems(5) rest(2) act_uses [OF Cons.prems(1) new(2)] by fastforce
  show ?case
  proof (cases "who r = u")
    case True
    have t: "good ?t"
      by (rule act_good [OF Cons.prems(2) new(1,3)])
    have ut: "set (concat (map news rs)) \<inter> uses ?t = {}"
      using Cons.prems(5) rest(2) act_uses [OF Cons.prems(2) new(3)] by fastforce
    have "view u ?s = view u ?t"
      using own_view [of s t r] Cons.prems(1-3) new(2,3) True by blast
    then have IH: "seen_by u (fst (history act who rs ?s)) = seen_by u (fst (history act who (filter (\<lambda>r. who r = u) rs) ?t))
        \<and> view u (snd (history act who rs ?s)) = view u (snd (history act who (filter (\<lambda>r. who r = u) rs) ?t))"
      using us ut by (intro Cons.IH s t rest(1)) auto
    have "fst (act r s) = fst (act r t)"
      using own_answer [of s t r] Cons.prems(1-3) True by blast
    then show ?thesis
      using IH True by (simp add: seen_by_def case_prod_beta Let_def)
  next
    case False
    have "view u ?s = view u t"
      using foreign [OF Cons.prems(1) new(2) False] Cons.prems(3) by simp
    then have IH: "seen_by u (fst (history act who rs ?s)) = seen_by u (fst (history act who (filter (\<lambda>r. who r = u) rs) t))
        \<and> view u (snd (history act who rs ?s)) = view u (snd (history act who (filter (\<lambda>r. who r = u) rs) t))"
      using us Cons.prems(2,5) by (intro Cons.IH s rest(1)) auto
    then show ?thesis
      using False by (simp add: seen_by_def case_prod_beta Let_def)
  qed
qed

end

end
