(* ===== verification/Chat_Views.thy ===== *)
theory Chat_Views
  imports Chat_Start Isolation
begin

text \<open>
  The chat handlers under one request type, and the part of the tables that belongs to a user. Every handler is shown
  to act on that part alone, which interprets the contract of \<open>Isolation\<close>.
\<close>

section \<open>Requests\<close>

datatype chat_op =
    List_Chats
  | List_Trash
  | Read_Messages string
  | Create string int chat_defaults chat_create
  | Breakout string "string list" int string "string option"
  | Truncate string string
  | Delete string
  | Restore string
  | Purge string
  | Empty_Trash
  | Delete_All
  | Patch string chat_patch
  | Start start_env string string int int turn_request string

datatype chat_answer =
    Chats "chat list"
  | Chat "chat option"
  | Rows "chat_message list option"
  | Count "nat option"
  | Done bool
  | Turn start_answer

type_synonym chat_request = "user \<times> chat_op"

fun chat_act :: "chat_request \<Rightarrow> chats_db \<Rightarrow> chat_answer \<times> chats_db" where
  "chat_act (u, List_Chats) db = (Chats (list_chats u db), db)"
| "chat_act (u, List_Trash) db = (Chats (list_trash u db), db)"
| "chat_act (u, Read_Messages i) db = (Rows (map_option (\<lambda>c. chat_rows i db) (get_owned_chat u i db)), db)"
| "chat_act (u, Create i now d p) db = apfst (\<lambda>c. Chat (Some c)) (create_chat u i now d p db)"
| "chat_act (u, Breakout new ids now i up_to) db = apfst Chat (breakout_chat u new ids now i up_to db)"
| "chat_act (u, Truncate i mid) db = apfst Count (delete_messages_from u i mid db)"
| "chat_act (u, Delete i) db = apfst Done (delete_chat u i db)"
| "chat_act (u, Restore i) db = apfst Done (restore_chat u i db)"
| "chat_act (u, Purge i) db = apfst Done (purge_chat u i db)"
| "chat_act (u, Empty_Trash) db = apfst (\<lambda>n. Count (Some n)) (empty_trash u db)"
| "chat_act (u, Delete_All) db = apfst (\<lambda>n. Count (Some n)) (delete_all_chats u db)"
| "chat_act (u, Patch i p) db = apfst Chat (update_chat u i p db)"
| "chat_act (u, Start env k l now later q i) db = apfst Turn (start_turn env u k l now later q i db)"

text \<open>The ids of the chats a request creates.\<close>

fun new_ids :: "chat_request \<Rightarrow> string list" where
  "new_ids (u, Create i now d p) = [i]"
| "new_ids (u, Breakout new ids now i up_to) = [new]"
| "new_ids _ = []"

definition chat_ids :: "chats_db \<Rightarrow> string set" where
  "chat_ids db = ch_id ` set (cd_chats db)"

definition chats_ok :: "chats_db \<Rightarrow> bool" where
  "chats_ok db \<longleftrightarrow> distinct (map ch_id (cd_chats db)) \<and> me_chat ` set (cd_messages db) \<subseteq> chat_ids db"

section \<open>What belongs to a user\<close>

definition mine :: "user \<Rightarrow> chats_db \<Rightarrow> chat list" where
  "mine u db = filter (\<lambda>c. owner c = u) (cd_chats db)"

definition my_messages :: "user \<Rightarrow> chats_db \<Rightarrow> chat_message list" where
  "my_messages u db = filter (\<lambda>m. me_chat m \<in> ch_id ` set (mine u db)) (cd_messages db)"

definition my_audit :: "user \<Rightarrow> chats_db \<Rightarrow> audit_row list" where
  "my_audit u db = filter (\<lambda>a. (ar_tenant a, ar_actor a) = u) (cd_audit db)"

definition my_view :: "user \<Rightarrow> chats_db \<Rightarrow> chat list \<times> chat_message list \<times> audit_row list" where
  "my_view u db = (mine u db, my_messages u db, my_audit u db)"

lemma same_view:
  "my_view u s = my_view u t \<longleftrightarrow> mine u s = mine u t \<and> my_messages u s = my_messages u t \<and> my_audit u s = my_audit u t"
  by (simp add: my_view_def)

lemma same_id:
  "chats_ok db \<Longrightarrow> c \<in> set (cd_chats db) \<Longrightarrow> d \<in> set (cd_chats db) \<Longrightarrow> ch_id c = ch_id d \<Longrightarrow> c = d"
  by (auto simp: chats_ok_def distinct_map dest: inj_onD)

lemma owned_chat_iff:
  assumes "chats_ok db"
  shows "get_owned_chat u i db = Some c \<longleftrightarrow> c \<in> set (mine u db) \<and> ch_id c = i"
proof (cases "find (\<lambda>c. ch_id c = i) (cd_chats db)")
  case None
  then have "\<forall>x\<in>set (cd_chats db). ch_id x \<noteq> i"
    by (simp add: find_None_iff)
  with None show ?thesis
    by (auto simp: get_owned_chat_def mine_def)
next
  case (Some d)
  then have d: "d \<in> set (cd_chats db)" "ch_id d = i"
    using find_SomeD by fastforce+
  with Some same_id [OF assms] show ?thesis
    by (cases u) (auto simp: get_owned_chat_def mine_def owner_def)
qed

lemma owned_chat_view:
  assumes "chats_ok s" "chats_ok t" "mine u s = mine u t"
  shows "get_owned_chat u i s = get_owned_chat u i t"
proof (cases "get_owned_chat u i t")
  case None
  then have "\<nexists>c. get_owned_chat u i s = Some c"
    using owned_chat_iff [OF assms(1)] owned_chat_iff [OF assms(2)] assms(3) by (metis option.distinct(1))
  with None show ?thesis
    by simp
next
  case (Some c)
  then show ?thesis
    using owned_chat_iff [OF assms(1)] owned_chat_iff [OF assms(2)] assms(3) by (metis)
qed

lemma chat_rows_view:
  "i \<in> ch_id ` set (mine u db) \<Longrightarrow> chat_rows i db = sort_key me_created (filter (\<lambda>m. me_chat m = i) (my_messages u db))"
  unfolding chat_rows_def my_messages_def filter_filter by (rule arg_cong [where f = "sort_key me_created"], rule filter_cong) auto

lemma chat_rows_same:
  "mine u s = mine u t \<Longrightarrow> my_messages u s = my_messages u t \<Longrightarrow> i \<in> ch_id ` set (mine u s) \<Longrightarrow> chat_rows i s = chat_rows i t"
  by (metis chat_rows_view)

lemma own_chats_mine: "own_chats u b db = filter (\<lambda>c. ch_archived c = b) (mine u db)"
  by (auto simp: own_chats_def mine_def owner_def prod_eq_iff intro!: filter_cong)

section \<open>The primitive changes on the view\<close>

text \<open>An id \<open>i\<close> is held by \<open>u\<close> when only chats of \<open>u\<close> carry it.\<close>

definition held_by :: "user \<Rightarrow> string \<Rightarrow> chats_db \<Rightarrow> bool" where
  "held_by u i db \<longleftrightarrow> (\<forall>c\<in>set (cd_chats db). ch_id c = i \<longrightarrow> owner c = u)"

lemma owned_held: "chats_ok db \<Longrightarrow> get_owned_chat u i db = Some c \<Longrightarrow> held_by u i db \<and> owner c = u \<and> ch_id c = i"
  by (auto simp: owned_chat_iff held_by_def mine_def dest: same_id)

lemma owned_mine: "chats_ok db \<Longrightarrow> get_owned_chat u i db = Some c \<Longrightarrow> i \<in> ch_id ` set (mine u db)"
  by (auto simp: owned_chat_iff)

lemma mine_set_chat:
  assumes "held_by (owner c) (ch_id c) db"
  shows "mine u (set_chat c db) = map (\<lambda>x. if ch_id x = ch_id c then c else x) (mine u db)"
proof -
  have "filter (\<lambda>x. owner x = u) (map (\<lambda>x. if ch_id x = ch_id c then c else x) cs)
      = map (\<lambda>x. if ch_id x = ch_id c then c else x) (filter (\<lambda>x. owner x = u) cs)"
    if "\<forall>x\<in>set cs. ch_id x = ch_id c \<longrightarrow> owner x = owner c" for cs
    using that by (induction cs) auto
  with assms show ?thesis
    by (simp add: mine_def set_chat_def held_by_def)
qed

lemma foreign_id: "held_by v i db \<Longrightarrow> v \<noteq> u \<Longrightarrow> i \<notin> ch_id ` set (mine u db)"
  by (auto simp: held_by_def mine_def)

lemma map_same_ids: "ch_id ` set (map (\<lambda>x. if ch_id x = ch_id c then c else x) cs) = ch_id ` set cs"
  unfolding set_map image_image by (rule image_cong) auto

lemma set_chat_view:
  assumes "held_by (owner c) (ch_id c) db"
  shows "my_view u (set_chat c db)
    = (map (\<lambda>x. if ch_id x = ch_id c then c else x) (mine u db), my_messages u db, my_audit u db)"
proof -
  have "my_messages u (set_chat c db) = my_messages u db"
    by (simp only: my_messages_def mine_set_chat [OF assms, of u] map_same_ids) (simp add: set_chat_def)
  then show ?thesis
    using mine_set_chat [OF assms, of u] by (simp add: my_view_def my_audit_def) (simp add: set_chat_def)
qed

lemma set_chat_foreign:
  assumes "held_by (owner c) (ch_id c) db" "owner c \<noteq> u"
  shows "my_view u (set_chat c db) = my_view u db"
proof -
  have "map (\<lambda>x. if ch_id x = ch_id c then c else x) (mine u db) = mine u db"
    using foreign_id [OF assms] by (intro map_idI) (metis imageI)
  then show ?thesis
    unfolding set_chat_view [OF assms(1)] by (simp add: my_view_def)
qed

lemma drop_chats_view:
  "my_view u (drop_chats is db)
    = (filter (\<lambda>c. ch_id c \<notin> set is) (mine u db), filter (\<lambda>m. me_chat m \<notin> set is) (my_messages u db), my_audit u db)"
proof -
  have "mine u (drop_chats is db) = filter (\<lambda>c. ch_id c \<notin> set is) (mine u db)"
    by (simp add: mine_def drop_chats_def conj_commute)
  moreover from this have "my_messages u (drop_chats is db) = filter (\<lambda>m. me_chat m \<notin> set is) (my_messages u db)"
    by (auto simp: my_messages_def drop_chats_def intro!: filter_cong)
  ultimately show ?thesis
    by (simp add: my_view_def my_audit_def drop_chats_def)
qed

lemma drop_chats_foreign:
  assumes "\<forall>i\<in>set is. held_by v i db" "v \<noteq> u"
  shows "my_view u (drop_chats is db) = my_view u db"
proof -
  have free: "i \<notin> set is" if "i \<in> ch_id ` set (mine u db)" for i
    using that foreign_id assms by blast
  then have "filter (\<lambda>c. ch_id c \<notin> set is) (mine u db) = mine u db"
    "filter (\<lambda>m. me_chat m \<notin> set is) (my_messages u db) = my_messages u db"
    by (simp_all add: filter_id_conv) (simp add: my_messages_def)
  then show ?thesis
    unfolding drop_chats_view by (simp add: my_view_def)
qed

lemma drop_messages_view:
  "my_view u (drop_messages ds db) = (mine u db, filter (\<lambda>m. m \<notin> set ds) (my_messages u db), my_audit u db)"
proof -
  have "mine u (drop_messages ds db) = mine u db"
    by (simp add: mine_def drop_messages_def)
  then show ?thesis
    by (simp add: my_view_def my_messages_def my_audit_def) (simp add: drop_messages_def conj_commute)
qed

lemma drop_messages_foreign:
  assumes "\<forall>m\<in>set ds. me_chat m = i" "held_by v i db" "v \<noteq> u"
  shows "my_view u (drop_messages ds db) = my_view u db"
proof -
  have "i \<notin> ch_id ` set (mine u db)"
    using assms(2,3) by (rule foreign_id)
  then have "filter (\<lambda>m. m \<notin> set ds) (my_messages u db) = my_messages u db"
    using assms(1) by (simp add: filter_id_conv) (auto simp: my_messages_def)
  then show ?thesis
    unfolding drop_messages_view by (simp add: my_view_def)
qed

lemma append_messages_view:
  "my_view u (db\<lparr>cd_messages := cd_messages db @ ms\<rparr>)
    = (mine u db, my_messages u db @ filter (\<lambda>m. me_chat m \<in> ch_id ` set (mine u db)) ms, my_audit u db)"
  by (simp add: my_view_def mine_def my_messages_def my_audit_def)

lemma append_chat_view:
  assumes "chats_ok db" "ch_id c \<notin> chat_ids db"
  shows "my_view u (db\<lparr>cd_chats := cd_chats db @ [c]\<rparr>)
    = (mine u db @ (if owner c = u then [c] else []), my_messages u db, my_audit u db)"
proof -
  have "filter (\<lambda>m. me_chat m \<in> ch_id ` set (mine u db @ [c])) (cd_messages db) = my_messages u db"
    using assms unfolding my_messages_def by (intro filter_cong) (auto simp: chats_ok_def)
  then show ?thesis
    by (simp add: my_view_def mine_def my_messages_def my_audit_def)
qed

lemma audit_view:
  "my_view u (audit v a t m db) = (mine u db, my_messages u db, my_audit u db @
     (if v = u then [\<lparr>ar_tenant = fst u, ar_actor = snd u, ar_action = a, ar_target = t, ar_meta = m\<rparr>] else []))"
  by (cases u; cases v) (simp add: my_view_def mine_def my_messages_def my_audit_def audit_def)

section \<open>A change that concerns one user\<close>

definition concerns :: "user \<Rightarrow> chats_db \<Rightarrow> chats_db \<Rightarrow> bool" where
  "concerns v db db' \<longleftrightarrow>
     (\<forall>u. u \<noteq> v \<longrightarrow> my_view u db' = my_view u db) \<and> chats_ok db' \<and> (\<forall>i. held_by v i db \<longrightarrow> held_by v i db')
     \<and> chat_ids db' \<subseteq> chat_ids db"

lemma concerns_refl: "chats_ok db \<Longrightarrow> concerns v db db"
  by (simp add: concerns_def)

lemma concerns_trans: "concerns v a b \<Longrightarrow> concerns v b c \<Longrightarrow> concerns v a c"
  unfolding concerns_def by (metis subset_trans)

lemma chat_ids_set_chat: "chat_ids (set_chat c db) = chat_ids db"
  unfolding chat_ids_def set_chat_def using map_same_ids [of c "cd_chats db"] by simp

lemma map_ids_set_chat: "map ch_id (map (\<lambda>x. if ch_id x = ch_id c then c else x) cs) = map ch_id cs"
  by (induction cs) auto

lemma concerns_set_chat:
  assumes "chats_ok db" "held_by (owner c) (ch_id c) db"
  shows "concerns (owner c) db (set_chat c db)"
proof -
  have "cd_chats (set_chat c db) = map (\<lambda>x. if ch_id x = ch_id c then c else x) (cd_chats db)"
    "cd_messages (set_chat c db) = cd_messages db"
    by (simp_all add: set_chat_def)
  then have "chats_ok (set_chat c db)"
    using assms(1) unfolding chats_ok_def chat_ids_set_chat by (simp only: map_ids_set_chat)
  moreover have "held_by (owner c) i db \<longrightarrow> held_by (owner c) i (set_chat c db)" for i
    by (auto simp: held_by_def set_chat_def)
  ultimately show ?thesis
    using set_chat_foreign [OF assms(2)] by (simp add: concerns_def chat_ids_set_chat)
qed

lemma concerns_drop_chats:
  assumes "chats_ok db" "\<forall>i\<in>set is. held_by v i db"
  shows "concerns v db (drop_chats is db)"
proof -
  have "chats_ok (drop_chats is db)"
    using assms(1) by (auto simp: chats_ok_def drop_chats_def chat_ids_def distinct_map_filter)
  then show ?thesis
    using drop_chats_foreign [OF assms(2)] by (auto simp: concerns_def held_by_def drop_chats_def chat_ids_def)
qed

lemma concerns_drop_messages:
  assumes "chats_ok db" "\<forall>m\<in>set ds. me_chat m = i" "held_by v i db"
  shows "concerns v db (drop_messages ds db)"
proof -
  have "chats_ok (drop_messages ds db)"
    using assms(1) by (auto simp: chats_ok_def drop_messages_def chat_ids_def)
  then show ?thesis
    using drop_messages_foreign [OF assms(2,3)] by (simp add: concerns_def held_by_def chat_ids_def) (simp add: drop_messages_def)
qed

lemma concerns_add_message:
  assumes "chats_ok db" "me_chat m \<in> chat_ids db" "held_by v (me_chat m) db"
  shows "concerns v db (add_message m db)"
proof -
  have "my_view u (add_message m db) = my_view u db" if "u \<noteq> v" for u
  proof -
    have "me_chat m \<notin> ch_id ` set (mine u db)"
      using assms(3) that by (metis foreign_id)
    then show ?thesis
      unfolding add_message_def append_messages_view by (simp add: my_view_def)
  qed
  moreover have "chats_ok (add_message m db)"
    using assms(1,2) by (simp add: chats_ok_def add_message_def chat_ids_def)
  ultimately show ?thesis
    by (simp add: concerns_def held_by_def chat_ids_def) (simp add: add_message_def)
qed

lemma concerns_audit: "chats_ok db \<Longrightarrow> concerns v db (audit v a t m db)"
  unfolding concerns_def audit_view by (simp add: my_view_def held_by_def chats_ok_def chat_ids_def) (simp add: audit_def)

lemma set_chat_rows: "chat_rows i (set_chat c db) = chat_rows i db"
  by (simp add: chat_rows_def set_chat_def)

lemma chat_rows_chat: "m \<in> set (chat_rows i db) \<Longrightarrow> me_chat m = i"
  by (simp add: chat_rows_def)

lemma concerns_with_request:
  assumes "chats_ok db" "i \<in> chat_ids db" "held_by v i db"
  shows "concerns v db (with_request k now q i db)"
proof (cases "rq_regenerate q")
  case True
  have "\<forall>m\<in>set (filter (\<lambda>m. me_role m = ''assistant'' \<or> me_role m = ''tool'')
      (takeWhile (\<lambda>m. me_role m \<noteq> ''user'') (rev (chat_rows i db)))). me_chat m = i"
    by (auto dest!: set_takeWhileD simp: chat_rows_chat)
  from concerns_drop_messages [OF assms(1) this assms(3)] show ?thesis
    by (simp only: with_request_def regenerated_def True if_True)
next
  case False
  have "me_chat (user_message k i q now) = i"
    by (simp add: user_message_def new_message_def)
  then show ?thesis
    using False assms by (simp add: with_request_def concerns_add_message)
qed

lemma owned_chat_id: "chats_ok db \<Longrightarrow> get_owned_chat u i db = Some c \<Longrightarrow> i \<in> chat_ids db"
  by (auto simp: owned_chat_iff chat_ids_def mine_def)

lemma turn_chat_sel [simp]:
  "ch_id (titled env q c) = ch_id c" "owner (titled env q c) = owner c"
  "ch_id (scoped_chat q a w k c) = ch_id c" "owner (scoped_chat q a w k c) = owner c"
  by (simp_all add: titled_def scoped_chat_def owner_def Let_def split: option.split)

lemma owner_update [simp]:
  "owner (c\<lparr>ch_agent := x\<rparr>) = owner c" "owner (c\<lparr>ch_thinking := y\<rparr>) = owner c"
  "owner (c\<lparr>ch_provider := x, ch_model := z\<rparr>) = owner c" "owner (c\<lparr>ch_archived := b\<rparr>) = owner c"
  by (simp_all add: owner_def)

lemma patched_sel [simp]: "ch_id (patched p c) = ch_id c" "owner (patched p c) = owner c"
  by (simp_all add: patched_def owner_def)

lemma turn_rows_sel [simp]:
  "ch_id (first_row env q c) = ch_id c" "owner (first_row env q c) = owner c"
  "ch_id (final_row env q k c) = ch_id c" "owner (final_row env q k c) = owner c"
  "me_chat (blank_answer env l later q i c) = i"
  by (simp_all add: first_row_def final_row_def blank_answer_def new_message_def Let_def split: prod.split)

definition prepared :: "start_env \<Rightarrow> string \<Rightarrow> int \<Rightarrow> turn_request \<Rightarrow> string \<Rightarrow> chat \<Rightarrow> chats_db \<Rightarrow> chats_db" where
  "prepared env k now q i c db = set_chat (first_row env q c) (with_request k now q i db)"

lemma start_turn_cases:
  obtains (unknown) "get_owned_chat u i db = None" "start_turn env u k l now later q i db = (Chat_Not_Found, db)"
  | (busy) c where "get_owned_chat u i db = Some c" "se_active env" "start_turn env u k l now later q i db = (Attached, db)"
  | (refused) c e where "get_owned_chat u i db = Some c" "e = Workload_Not_Found \<or> (\<exists>m. e = Connection_Conflict m)"
      "start_turn env u k l now later q i db = (e, prepared env k now q i c db)"
  | (started) c cn where "get_owned_chat u i db = Some c"
      "resolve_workload_bound_connection env (chosen_connection q (turn_agent env q c) c) (turn_workload env q c) = Inr cn"
      "is_set (turn_workload_id q c) \<longrightarrow> turn_workload env q c \<noteq> None"
      "start_turn env u k l now later q i db =
         (Started (make_plan env l q cn c (set_chat (final_row env q cn c) (prepared env k now q i c db))),
          add_message (blank_answer env l later q i c) (set_chat (final_row env q cn c) (prepared env k now q i c db)))"
proof (cases "get_owned_chat u i db")
  case None
  then show thesis
    by (rule unknown) (simp add: start_turn_def None)
next
  case (Some c)
  note def = start_turn_def Some prepared_def Let_def
  let ?r = "resolve_workload_bound_connection env (chosen_connection q (turn_agent env q c) c) (turn_workload env q c)"
  show thesis
  proof (cases "se_active env \<or> is_set (turn_workload_id q c) \<and> turn_workload env q c = None")
    case True
    then consider "se_active env" | "\<not> se_active env" "is_set (turn_workload_id q c)" "turn_workload env q c = None"
      by (cases "se_active env") simp_all
    then show thesis
    proof cases
      case 1
      then show thesis
        by (rule busy [OF Some]) (simp add: def 1)
    next
      case 2
      then show thesis
        by (intro refused [OF Some, of Workload_Not_Found]) (simp_all add: def)
    qed
  next
    case False
    show thesis
    proof (cases ?r)
      case (Inl e)
      with False show thesis
        by (intro refused [OF Some, of "Connection_Conflict e"]) (auto simp: def)
    next
      case (Inr cn)
      with False show thesis
        by (intro started [OF Some Inr]) (auto simp: def)
    qed
  qed
qed

lemma owner_owned: "get_owned_chat u i db = Some c \<Longrightarrow> owner c = u \<and> ch_id c = i"
  by (auto simp: get_owned_chat_def owner_def dest: find_SomeD split: option.splits if_splits)

lemma concerns_set_owned:
  assumes "concerns u db db'" "chats_ok db" "get_owned_chat u i db = Some c" "ch_id d = i" "owner d = u"
  shows "concerns u db (set_chat d db')"
proof -
  have "chats_ok db'" "held_by (owner d) (ch_id d) db'"
    using assms owned_held [OF assms(2,3)] by (auto simp: concerns_def)
  from concerns_set_chat [OF this] show ?thesis
    using concerns_trans assms(1,5) by blast
qed

lemma concerns_prepared:
  assumes "chats_ok db" "get_owned_chat u i db = Some c"
  shows "concerns u db (prepared env k now q i c db)"
  unfolding prepared_def
proof (rule concerns_set_owned [OF _ assms])
  show "concerns u db (with_request k now q i db)"
    using owned_held [OF assms] owned_chat_id [OF assms] by (intro concerns_with_request assms(1)) auto
qed (use owner_owned [OF assms(2)] in simp_all)

lemma same_ids_prepared: "chat_ids (prepared env k now q i c db) = chat_ids db"
  by (simp only: prepared_def chat_ids_set_chat)
    (simp add: with_request_def regenerated_def drop_messages_def add_message_def chat_ids_def)

lemma concerns_start:
  assumes "chats_ok db"
  shows "concerns u db (snd (start_turn env u k l now later q i db))"
proof (cases rule: start_turn_cases [of u i db env k l now later q])
  case (started c cn)
  let ?db = "set_chat (final_row env q cn c) (prepared env k now q i c db)"
  have db: "concerns u db ?db"
    using owner_owned [OF started(1)] by (intro concerns_set_owned [OF concerns_prepared [OF assms started(1)] assms started(1)]) simp_all
  have "concerns u ?db (add_message (blank_answer env l later q i c) ?db)"
  proof (rule concerns_add_message)
    show "chats_ok ?db" "held_by u (me_chat (blank_answer env l later q i c)) ?db"
      using db owned_held [OF assms started(1)] by (auto simp: concerns_def)
    show "me_chat (blank_answer env l later q i c) \<in> chat_ids ?db"
      using owned_chat_id [OF assms started(1)] by (simp add: chat_ids_set_chat same_ids_prepared)
  qed
  then show ?thesis
    using concerns_trans [OF db] started(4) by simp
qed (use concerns_refl [OF assms] concerns_prepared [OF assms] in auto)

lemma archived_many:
  assumes "chats_ok db" "\<forall>i\<in>set is. held_by v i db"
  defines "db' \<equiv> db\<lparr>cd_chats := map (\<lambda>c. if ch_id c \<in> set is then c\<lparr>ch_archived := True\<rparr> else c) (cd_chats db)\<rparr>"
  shows "concerns v db db'"
    "my_view v db' = (map (\<lambda>c. if ch_id c \<in> set is then c\<lparr>ch_archived := True\<rparr> else c) (mine v db), my_messages v db, my_audit v db)"
proof -
  let ?f = "\<lambda>c. if ch_id c \<in> set is then c\<lparr>ch_archived := True\<rparr> else c"
  have sel: "ch_id (?f c) = ch_id c" "owner (?f c) = owner c" for c
    by simp_all
  have mine: "mine u db' = map ?f (mine u db)" for u
    unfolding db'_def mine_def by (simp add: filter_map comp_def sel del: if_image_distrib)
  then have ids: "ch_id ` set (mine u db') = ch_id ` set (mine u db)" for u
    by (simp add: image_image sel del: if_image_distrib)
  have msgs: "my_messages u db' = my_messages u db" for u
    unfolding my_messages_def ids by (simp add: db'_def)
  show "my_view v db' = (map ?f (mine v db), my_messages v db, my_audit v db)"
    unfolding my_view_def mine msgs by (simp add: my_audit_def db'_def)
  have "my_view u db' = my_view u db" if "u \<noteq> v" for u
  proof -
    have "ch_id c \<notin> set is" if "c \<in> set (mine u db)" for c
      using foreign_id assms(2) \<open>u \<noteq> v\<close> that by (metis imageI)
    then have "map ?f (mine u db) = mine u db"
      by (intro map_idI) simp
    then show ?thesis
      unfolding my_view_def mine msgs by (simp add: my_audit_def db'_def)
  qed
  moreover have "map ch_id (cd_chats db') = map ch_id (cd_chats db)"
    by (simp add: db'_def)
  moreover from this have "chat_ids db' = chat_ids db"
    unfolding chat_ids_def by (metis list.set_map)
  moreover have "held_by v i db \<Longrightarrow> held_by v i db'" for i
    by (auto simp: held_by_def db'_def)
  moreover have "cd_messages db' = cd_messages db"
    by (simp add: db'_def)
  ultimately show "concerns v db db'"
    using assms(1) by (simp add: concerns_def chats_ok_def)
qed

lemma held_mine: "chats_ok db \<Longrightarrow> c \<in> set (mine u db) \<Longrightarrow> held_by u (ch_id c) db"
  by (auto simp: held_by_def mine_def dest: same_id)

lemma held_own: "chats_ok db \<Longrightarrow> \<forall>i\<in>set (map ch_id (own_chats u b db)). held_by u i db"
  by (auto simp: own_chats_mine intro: held_mine)

lemma first_index_le: "first_index p xs = Some i \<Longrightarrow> i < length xs"
  by (auto simp: first_index_def dest!: find_SomeD)

lemma concerns_truncate: "chats_ok db \<Longrightarrow> concerns u db (snd (delete_messages_from u i mid db))"
proof -
  assume ok: "chats_ok db"
  have "concerns u db (drop_messages (drop n (chat_rows i db)) db)" if "get_owned_chat u i db = Some c" for c n
    using owned_held [OF ok that] by (intro concerns_drop_messages [OF ok]) (auto dest!: in_set_dropD simp: chat_rows_chat)
  then show ?thesis
    using concerns_refl [OF ok] by (auto simp: delete_messages_from_def Let_def split: option.split)
qed

text \<open>A request that creates no chat.\<close>

lemma act_concerns:
  assumes "chats_ok db" "new_ids r = []"
  shows "concerns (fst r) db (snd (chat_act r db))"
proof -
  obtain u op where r: "r = (u, op)"
    by fastforce
  note refl = concerns_refl [OF assms(1), of u]
  have set_owned: "concerns u db (set_chat d db)" if "get_owned_chat u i db = Some c" "ch_id d = ch_id c" "owner d = owner c" for i c d
    using owner_owned [OF that(1)] that(2,3) by (intro concerns_set_owned [OF refl assms(1) that(1)]) simp_all
  show ?thesis
  proof (cases op)
    case (Truncate i mid)
    then show ?thesis
      using concerns_truncate [OF assms(1)] by (simp add: r)
  next
    case (Delete i)
    then show ?thesis
      using refl set_owned by (auto simp: r delete_chat_def split: option.split)
  next
    case (Restore i)
    then show ?thesis
      using refl set_owned by (auto simp: r restore_chat_def split: option.split)
  next
    case (Purge i)
    then show ?thesis
      using refl owned_held [OF assms(1)] concerns_drop_chats [OF assms(1), of "[_]"] by (auto simp: r purge_chat_def split: option.split)
  next
    case Empty_Trash
    have "concerns u db (drop_chats (map ch_id (own_chats u True db)) db)"
      by (rule concerns_drop_chats [OF assms(1) held_own [OF assms(1)]])
    with Empty_Trash show ?thesis
      using concerns_trans concerns_audit by (auto simp: r empty_trash_def Let_def concerns_def intro: concerns_trans [OF _ concerns_audit])
  next
    case Delete_All
    let ?is = "map ch_id (filter (\<lambda>c. \<not> ch_pinned c) (own_chats u False db))"
    have "\<forall>i\<in>set ?is. held_by u i db"
      using held_own [OF assms(1), of u False] by auto
    from archived_many(1) [OF assms(1) this] Delete_All show ?thesis
      by (simp add: r delete_all_chats_def Let_def) (rule concerns_trans, assumption, rule concerns_audit, simp add: concerns_def)
  next
    case (Patch i p)
    then show ?thesis
      using refl set_owned by (auto simp: r update_chat_def split: option.split)
  next
    case (Start env k l now later q i)
    then show ?thesis
      using concerns_start [OF assms(1)] by (simp add: r)
  qed (use refl assms(2) in \<open>simp_all add: r\<close>)
qed

section \<open>Requests of the owner\<close>

definition agree :: "user \<Rightarrow> chats_db \<Rightarrow> chats_db \<Rightarrow> bool" where
  "agree u s t \<longleftrightarrow> chats_ok s \<and> chats_ok t \<and> my_view u s = my_view u t"

lemma agree_owned: "agree u s t \<Longrightarrow> get_owned_chat u i s = get_owned_chat u i t"
  by (rule owned_chat_view) (auto simp: agree_def same_view)

lemma agree_rows: "agree u s t \<Longrightarrow> get_owned_chat u i s = Some c \<Longrightarrow> chat_rows i s = chat_rows i t"
  unfolding agree_def same_view by (metis chat_rows_same owned_mine)

lemma agree_own_chats: "agree u s t \<Longrightarrow> own_chats u b s = own_chats u b t"
  by (simp add: agree_def own_chats_mine same_view)

lemma sort_key_same: "\<forall>x\<in>set xs. f x = g x \<Longrightarrow> sort_key f xs = sort_key g xs"
proof (induction xs)
  case (Cons x xs)
  have "insort_key f x ys = insort_key g x ys" if "\<forall>y\<in>set ys. f y = g y" for ys
    using that Cons.prems by (induction ys) simp_all
  with Cons show ?case
    by simp
qed simp

lemma agree_activity: "agree u s t \<Longrightarrow> by_activity s (own_chats u b s) = by_activity t (own_chats u b t)"
proof -
  assume agree: "agree u s t"
  have "last_activity s c = last_activity t c" if "c \<in> set (mine u s)" for c
  proof -
    have "chat_rows (ch_id c) s = chat_rows (ch_id c) t"
      using agree that by (intro chat_rows_same) (auto simp: agree_def same_view)
    then show ?thesis
      by (simp add: last_activity_def)
  qed
  then have "by_activity s (own_chats u b s) = by_activity t (own_chats u b s)"
    unfolding by_activity_def by (intro sort_key_same) (simp add: own_chats_mine)
  then show ?thesis
    by (simp add: agree_own_chats [OF agree])
qed

text \<open>Two changes of the owner that act alike on the view keep the agreement.\<close>

lemma agree_step:
  "agree u s t \<Longrightarrow> concerns u s s' \<Longrightarrow> concerns u t t' \<Longrightarrow> my_view u s' = my_view u t' \<Longrightarrow> agree u s' t'"
  by (simp add: agree_def concerns_def)

lemma set_chat_agree:
  assumes "agree u s t" "get_owned_chat u i s0 = Some c" "chats_ok s0" "ch_id d = i" "owner d = u"
    "concerns u s0 s" "get_owned_chat u i t0 = Some c" "chats_ok t0" "concerns u t0 t"
  shows "agree u (set_chat d s) (set_chat d t)"
proof -
  have held: "held_by (owner d) (ch_id d) s" "held_by (owner d) (ch_id d) t"
    using owned_held [OF assms(3,2)] owned_held [OF assms(8,7)] assms by (auto simp: concerns_def)
  have "my_view u (set_chat d s) = my_view u (set_chat d t)"
    using assms(1) by (simp add: set_chat_view [OF held(1)] set_chat_view [OF held(2)] agree_def same_view)
  then show ?thesis
    using concerns_set_chat [OF _ held(1)] concerns_set_chat [OF _ held(2)] assms(1,5)
    by (intro agree_step [OF assms(1)]) (auto simp: agree_def)
qed

lemma drop_messages_agree:
  "agree u s t \<Longrightarrow> my_view u (drop_messages ds s) = my_view u (drop_messages ds t)"
  by (simp add: drop_messages_view agree_def same_view)

lemma add_message_agree:
  "agree u s t \<Longrightarrow> my_view u (add_message m s) = my_view u (add_message m t)"
  by (simp add: add_message_def append_messages_view agree_def same_view)

lemma with_request_agree:
  assumes "agree u s t" "get_owned_chat u i s = Some c"
  shows "my_view u (with_request k now q i s) = my_view u (with_request k now q i t)"
  using agree_rows [OF assms] drop_messages_agree [OF assms(1)] add_message_agree [OF assms(1)]
  by (simp add: with_request_def regenerated_def)

lemma prepared_agree:
  assumes "agree u s t" "get_owned_chat u i s = Some c"
  shows "agree u (prepared env k now q i c s) (prepared env k now q i c t)"
proof -
  have t: "get_owned_chat u i t = Some c"
    using agree_owned [OF assms(1)] assms(2) by simp
  have ok: "chats_ok s" "chats_ok t"
    using assms(1) by (simp_all add: agree_def)
  have conc: "concerns u s (with_request k now q i s)" "concerns u t (with_request k now q i t)"
    using owned_held owned_chat_id ok assms(2) t by (blast intro: concerns_with_request)+
  have "agree u (with_request k now q i s) (with_request k now q i t)"
    by (rule agree_step [OF assms(1) conc with_request_agree [OF assms]])
  from set_chat_agree [OF this assms(2) ok(1) _ _ conc(1) t ok(2) conc(2)] owner_owned [OF assms(2)] show ?thesis
    by (simp add: prepared_def)
qed

lemma history_for_agree: "chat_rows i s = chat_rows i t \<Longrightarrow> history_for i s = history_for i t"
  by (simp add: history_for_def)

lemma start_agree:
  assumes agree: "agree u s t"
  shows "fst (start_turn env u k l now later q i s) = fst (start_turn env u k l now later q i t)
    \<and> my_view u (snd (start_turn env u k l now later q i s)) = my_view u (snd (start_turn env u k l now later q i t))"
proof (cases "get_owned_chat u i s")
  case None
  then show ?thesis
    using agree agree_owned [OF agree, of i] by (simp add: start_turn_def agree_def)
next
  case (Some c)
  have t: "get_owned_chat u i t = Some c"
    using agree_owned [OF agree] Some by simp
  have ok: "chats_ok s" "chats_ok t"
    using agree by (simp_all add: agree_def)
  note prep = prepared_agree [OF agree Some, of env k now q]
  have fin: "agree u (set_chat (final_row env q cn c) (prepared env k now q i c s))
      (set_chat (final_row env q cn c) (prepared env k now q i c t))" for cn
    using owner_owned [OF Some] concerns_prepared ok Some t by (intro set_chat_agree [OF prep Some ok(1) _ _ _ t ok(2)]) auto
  have "i \<in> ch_id ` set (mine u (set_chat (final_row env q cn c) (prepared env k now q i c s)))" for cn
  proof -
    have "concerns u s (set_chat (final_row env q cn c) (prepared env k now q i c s))"
      using owner_owned [OF Some] by (intro concerns_set_owned [OF concerns_prepared [OF ok(1) Some] ok(1) Some]) simp_all
    then have "held_by u i (set_chat (final_row env q cn c) (prepared env k now q i c s))"
      using owned_held [OF ok(1) Some] by (auto simp: concerns_def)
    moreover have "i \<in> chat_ids (set_chat (final_row env q cn c) (prepared env k now q i c s))"
      using owned_chat_id [OF ok(1) Some] by (simp add: chat_ids_set_chat same_ids_prepared)
    ultimately show ?thesis
      by (auto simp: held_by_def chat_ids_def mine_def)
  qed
  then have "history_for i (set_chat (final_row env q cn c) (prepared env k now q i c s))
      = history_for i (set_chat (final_row env q cn c) (prepared env k now q i c t))" for cn
    using fin [of cn] by (intro history_for_agree chat_rows_same) (auto simp: agree_def same_view)
  then have "make_plan env l q cn c (set_chat (final_row env q cn c) (prepared env k now q i c s))
      = make_plan env l q cn c (set_chat (final_row env q cn c) (prepared env k now q i c t))" for cn
    using owner_owned [OF Some] by (simp add: make_plan_def Let_def split: prod.split)
  then show ?thesis
    using agree prep add_message_agree [OF fin] Some t
    by (simp add: start_turn_def Let_def prepared_def [symmetric] agree_def split: sum.split)
qed

section \<open>New chats\<close>

text \<open>A new chat with messages of its own and, maybe, an audit row of its creator.\<close>

definition with_chat :: "chat \<Rightarrow> chat_message list \<Rightarrow> chats_db \<Rightarrow> chats_db" where
  "with_chat c ms db = db\<lparr>cd_chats := cd_chats db @ [c], cd_messages := cd_messages db @ ms\<rparr>"

lemma with_chat_view:
  assumes "chats_ok db" "ch_id c \<notin> chat_ids db" "\<forall>m\<in>set ms. me_chat m = ch_id c"
  shows "my_view u (with_chat c ms db)
    = (if owner c = u then (mine u db @ [c], my_messages u db @ ms, my_audit u db) else my_view u db)"
proof -
  have split: "with_chat c ms db = (let d = db\<lparr>cd_chats := cd_chats db @ [c]\<rparr> in d\<lparr>cd_messages := cd_messages d @ ms\<rparr>)"
    by (simp add: with_chat_def)
  have view: "mine u (db\<lparr>cd_chats := cd_chats db @ [c]\<rparr>) = mine u db @ (if owner c = u then [c] else [])"
    "my_messages u (db\<lparr>cd_chats := cd_chats db @ [c]\<rparr>) = my_messages u db"
    "my_audit u (db\<lparr>cd_chats := cd_chats db @ [c]\<rparr>) = my_audit u db"
    using append_chat_view [OF assms(1,2), of u] by (simp_all add: my_view_def)
  have "ch_id c \<notin> ch_id ` set (mine u db)"
    using assms(2) by (auto simp: chat_ids_def mine_def)
  then have "filter (\<lambda>m. me_chat m \<in> ch_id ` set (mine u db @ (if owner c = u then [c] else []))) ms = (if owner c = u then ms else [])"
    using assms(3) by (auto simp: filter_id_conv filter_empty_conv)
  then show ?thesis
    unfolding split Let_def append_messages_view view by (simp add: my_view_def)
qed

lemma with_chat_ok:
  "chats_ok db \<Longrightarrow> ch_id c \<notin> chat_ids db \<Longrightarrow> \<forall>m\<in>set ms. me_chat m = ch_id c \<Longrightarrow> chats_ok (with_chat c ms db)"
  by (auto simp: chats_ok_def with_chat_def chat_ids_def)

lemma create_with_chat:
  obtains c where "\<And>db. create_chat u i now d p db = (c, with_chat c [] db)" "ch_id c = i" "owner c = u"
  by (rule that [of "fst (create_chat u i now d p undefined)"]) (simp_all add: create_chat_def with_chat_def owner_def Let_def)

lemma breakout_with_chat:
  "breakout_chat u new ids now i up_to db =
     (case get_owned_chat u i db of
        None \<Rightarrow> (None, db)
      | Some src \<Rightarrow>
          (Some (breakout_row u new now src),
           audit u ''chat.breakout'' (Some new)
             [(''source_chat'', J_Text i), (''messages'', J_Num (int (length (copied_rows up_to (chat_rows i db)))))]
             (with_chat (breakout_row u new now src)
               (map (\<lambda>(k, m). copy_message k new m) (zip ids (copied_rows up_to (chat_rows i db)))) db)))"
  by (simp add: breakout_chat_def with_chat_def Let_def split: option.split)

lemma breakout_row_sel [simp]: "ch_id (breakout_row u new now src) = new" "owner (breakout_row u new now src) = u"
  by (simp_all add: breakout_row_def owner_def)

lemma copies_chat: "\<forall>x\<in>set (map (\<lambda>(k, m). copy_message k new m) (zip ids ms)). me_chat x = new"
  by (auto simp: copy_message_def)

lemma audit_ok: "chats_ok db \<Longrightarrow> chats_ok (audit v a t m db)"
  using concerns_audit [of db v a t m] by (simp add: concerns_def)

lemma audit_foreign: "v \<noteq> u \<Longrightarrow> my_view u (audit v a t m db) = my_view u db"
  unfolding audit_view by (simp add: my_view_def)

lemma chat_ids_audit [simp]: "chat_ids (audit v a t m db) = chat_ids db"
  by (simp add: chat_ids_def audit_def)

lemma chat_ids_with_chat [simp]: "chat_ids (with_chat c ms db) = insert (ch_id c) (chat_ids db)"
  by (auto simp: chat_ids_def with_chat_def)

lemma audit_agree: "my_view u s = my_view u t \<Longrightarrow> my_view u (audit v a x m s) = my_view u (audit v a x m t)"
  by (simp add: audit_view same_view)

lemma new_ids_cases:
  assumes "new_ids r \<noteq> []"
  obtains (create) u i now d p where "r = (u, Create i now d p)"
  | (breakout) u new ids now i up_to where "r = (u, Breakout new ids now i up_to)"
  using assms by (cases r rule: new_ids.cases) auto

text \<open>What a creating request does, when it does anything.\<close>

lemma creating:
  assumes "new_ids r = [n]" "chats_ok db" "n \<notin> chat_ids db"
  obtains (nothing) "snd (chat_act r db) = db"
  | (chat) c ms where "ch_id c = n" "owner c = fst r" "\<forall>m\<in>set ms. me_chat m = n"
      "snd (chat_act r db) = with_chat c ms db \<or> (\<exists>a t x. snd (chat_act r db) = audit (fst r) a t x (with_chat c ms db))"
proof -
  have "new_ids r \<noteq> []"
    using assms(1) by simp
  then show thesis
  proof (cases rule: new_ids_cases)
    case (create u i now d p)
    then show thesis
      using assms(1) chat [of _ "[]"] by (cases rule: create_with_chat [of u i now d p]) auto
  next
    case (breakout u new ids now i up_to)
    show thesis
    proof (cases "get_owned_chat u i db")
      case None
      show thesis
        by (rule nothing) (simp add: breakout breakout_with_chat None)
    next
      case (Some src)
      have "n = new"
        using assms(1) by (simp add: breakout)
      show thesis
      proof (rule chat [of "breakout_row u new now src" "map (\<lambda>(k, m). copy_message k new m) (zip ids (copied_rows up_to (chat_rows i db)))"])
        show "\<forall>m\<in>set (map (\<lambda>(k, m). copy_message k new m) (zip ids (copied_rows up_to (chat_rows i db)))). me_chat m = n"
          unfolding \<open>n = new\<close> by (rule copies_chat)
      qed (use \<open>n = new\<close> in \<open>simp_all add: breakout breakout_with_chat Some, blast\<close>)
    qed
  qed
qed

section \<open>Every user works as if alone\<close>

lemma act_keeps_ok:
  assumes "chats_ok db" "set (new_ids r) \<inter> chat_ids db = {}"
  shows "chats_ok (snd (chat_act r db))" "chat_ids (snd (chat_act r db)) \<subseteq> chat_ids db \<union> set (new_ids r)"
    "fst r \<noteq> u \<Longrightarrow> my_view u (snd (chat_act r db)) = my_view u db"
proof -
  have "chats_ok (snd (chat_act r db)) \<and> chat_ids (snd (chat_act r db)) \<subseteq> chat_ids db \<union> set (new_ids r)
      \<and> (fst r \<noteq> u \<longrightarrow> my_view u (snd (chat_act r db)) = my_view u db)"
  proof (cases "new_ids r")
    case Nil
    have "concerns (fst r) db (snd (chat_act r db))"
      using act_concerns [OF assms(1) Nil] .
    then show ?thesis
      by (intro conjI impI) (auto simp: concerns_def simp del: split_paired_All)
  next
    case (Cons n ns)
    then have n: "new_ids r = [n]"
      by (cases r rule: new_ids.cases) auto
    with assms(2) have fresh: "n \<notin> chat_ids db"
      by simp
    from n assms(1) fresh show ?thesis
    proof (cases rule: creating)
      case nothing
      with assms(1) show ?thesis
        by simp
    next
      case (chat c ms)
      have c: "ch_id c \<notin> chat_ids db" "\<forall>m\<in>set ms. me_chat m = ch_id c"
        using chat fresh by simp_all
      have view: "fst r \<noteq> u \<Longrightarrow> my_view u (with_chat c ms db) = my_view u db"
        by (simp add: with_chat_view [OF assms(1) c] chat(2))
      show ?thesis
        using chat(4)
      proof
        assume "snd (chat_act r db) = with_chat c ms db"
        then show ?thesis
          using with_chat_ok [OF assms(1) c] view n chat(1) by simp
      next
        assume "\<exists>a t x. snd (chat_act r db) = audit (fst r) a t x (with_chat c ms db)"
        then obtain a t x where act: "snd (chat_act r db) = audit (fst r) a t x (with_chat c ms db)"
          by blast
        show ?thesis
          unfolding act using audit_ok [OF with_chat_ok [OF assms(1) c]] view audit_foreign [of "fst r" u] n chat(1) by simp
      qed
    qed
  qed
  then show "chats_ok (snd (chat_act r db))" "chat_ids (snd (chat_act r db)) \<subseteq> chat_ids db \<union> set (new_ids r)"
    "fst r \<noteq> u \<Longrightarrow> my_view u (snd (chat_act r db)) = my_view u db"
    by blast+
qed

lemma own_answers:
  assumes "agree u s t"
  shows "fst (chat_act (u, op) s) = fst (chat_act (u, op) t)"
proof (cases op)
  case (Truncate i mid)
  then show ?thesis
    using agree_owned [OF assms, of i] agree_rows [OF assms, of i]
    by (auto simp: delete_messages_from_def Let_def split: option.split)
next
  case (Start env k l now later q i)
  then show ?thesis
    using start_agree [OF assms, of env k l now later q i] by simp
next
  case (Create i now d p)
  then show ?thesis
    by (simp add: create_chat_def Let_def)
next
  case (Breakout new ids now i up_to)
  then show ?thesis
    using agree_owned [OF assms, of i] by (simp add: breakout_with_chat split: option.split)
next
  case Empty_Trash
  then show ?thesis
    using agree_own_chats [OF assms] by (simp add: empty_trash_def Let_def)
next
  case Delete_All
  then show ?thesis
    using agree_own_chats [OF assms] by (simp add: delete_all_chats_def Let_def)
next
  case (Read_Messages i)
  then show ?thesis
    using agree_owned [OF assms, of i] agree_rows [OF assms, of i]
    by (cases "get_owned_chat u i t") simp_all
qed (use agree_owned [OF assms] agree_activity [OF assms] in
    \<open>simp_all add: list_chats_def list_trash_def delete_chat_def restore_chat_def purge_chat_def update_chat_def split: option.split\<close>)

lemma agreeD: "agree u s t \<Longrightarrow> chats_ok s \<and> chats_ok t \<and> mine u s = mine u t \<and> my_messages u s = my_messages u t \<and> my_audit u s = my_audit u t"
  by (simp add: agree_def same_view)

lemma set_owned_agree:
  assumes "agree u s t" "get_owned_chat u i s = Some c" "ch_id d = ch_id c" "owner d = owner c"
  shows "my_view u (set_chat d s) = my_view u (set_chat d t)"
proof -
  have t: "get_owned_chat u i t = Some c"
    using agree_owned [OF assms(1)] assms(2) by simp
  have "agree u (set_chat d s) (set_chat d t)"
    using agreeD [OF assms(1)] owner_owned [OF assms(2)] assms(3,4)
    by (intro set_chat_agree [OF assms(1,2) _ _ _ concerns_refl t _ concerns_refl]) auto
  then show ?thesis
    by (simp add: agree_def)
qed

lemma drop_chats_agree: "agree u s t \<Longrightarrow> my_view u (drop_chats is s) = my_view u (drop_chats is t)"
  unfolding drop_chats_view by (simp add: agree_def same_view)

lemma with_chat_agree:
  assumes "agree u s t" "ch_id c \<notin> chat_ids s" "ch_id c \<notin> chat_ids t" "\<forall>m\<in>set ms. me_chat m = ch_id c"
  shows "my_view u (with_chat c ms s) = my_view u (with_chat c ms t)"
  using agreeD [OF assms(1)] with_chat_view [of s c ms u] with_chat_view [of t c ms u] assms(2-4)
  by (auto simp: same_view my_view_def)

lemma archived_agree:
  assumes "agree u s t"
  shows "my_view u (snd (delete_all_chats u s)) = my_view u (snd (delete_all_chats u t))"
proof -
  let ?is = "map ch_id (filter (\<lambda>c. \<not> ch_pinned c) (own_chats u False s))"
  have ok: "chats_ok s" "chats_ok t"
    using agreeD [OF assms] by simp_all
  have held: "\<forall>i\<in>set ?is. held_by u i s" "\<forall>i\<in>set ?is. held_by u i t"
    using held_own [of s u False] held_own [of t u False] agreeD [OF assms] agree_own_chats [OF assms, of False] by auto
  then have "my_view u (s\<lparr>cd_chats := map (\<lambda>c. if ch_id c \<in> set ?is then c\<lparr>ch_archived := True\<rparr> else c) (cd_chats s)\<rparr>)
      = my_view u (t\<lparr>cd_chats := map (\<lambda>c. if ch_id c \<in> set ?is then c\<lparr>ch_archived := True\<rparr> else c) (cd_chats t)\<rparr>)"
    unfolding archived_many(2) [OF ok(1) held(1)] archived_many(2) [OF ok(2) held(2)] by (simp add: agreeD [OF assms])
  then show ?thesis
    by (simp only: delete_all_chats_def Let_def snd_conv agree_own_chats [OF assms, of False]) (rule audit_agree)
qed

lemma own_changes:
  assumes "agree u s t" "set (new_ids (u, op)) \<inter> (chat_ids s \<union> chat_ids t) = {}"
  shows "my_view u (snd (chat_act (u, op) s)) = my_view u (snd (chat_act (u, op) t))"
proof -
  have same: "my_view u s = my_view u t"
    using assms(1) by (simp add: agree_def)
  note owned = agree_owned [OF assms(1)]
  note set_owned = set_owned_agree [OF assms(1)]
  show ?thesis
  proof (cases op)
    case (Create i now d p)
    then show ?thesis
      using assms(2) with_chat_agree [OF assms(1), of _ "[]"] by (cases rule: create_with_chat [of u i now d p]) simp
  next
    case (Breakout new ids now i up_to)
    show ?thesis
    proof (cases "get_owned_chat u i s")
      case None
      then show ?thesis
        using same owned [of i] by (simp add: Breakout breakout_with_chat)
    next
      case (Some src)
      have t: "get_owned_chat u i t = Some src"
        using owned [of i] Some by simp
      have "my_view u (with_chat (breakout_row u new now src) (map (\<lambda>(k, m). copy_message k new m) (zip ids (copied_rows up_to (chat_rows i t)))) s)
          = my_view u (with_chat (breakout_row u new now src) (map (\<lambda>(k, m). copy_message k new m) (zip ids (copied_rows up_to (chat_rows i t)))) t)"
      proof (rule with_chat_agree [OF assms(1)])
        show "\<forall>m\<in>set (map (\<lambda>(k, m). copy_message k new m) (zip ids (copied_rows up_to (chat_rows i t)))).
            me_chat m = ch_id (breakout_row u new now src)"
          unfolding breakout_row_sel by (rule copies_chat)
      qed (use assms(2) in \<open>simp_all add: Breakout\<close>)
      then show ?thesis
        by (simp only: Breakout chat_act.simps breakout_with_chat Some t option.case agree_rows [OF assms(1) Some] apfst_conv snd_conv)
          (rule audit_agree)
    qed
  next
    case (Truncate i mid)
    show ?thesis
    proof (cases "get_owned_chat u i s")
      case None
      then show ?thesis
        using same owned [of i] by (simp add: Truncate delete_messages_from_def)
    next
      case (Some c)
      have t: "get_owned_chat u i t = Some c"
        using owned [of i] Some by simp
      show ?thesis
        using same agree_rows [OF assms(1) Some] drop_messages_agree [OF assms(1)]
        by (simp add: Truncate delete_messages_from_def Some t Let_def split: option.split)
    qed
  next
    case (Delete i)
    then show ?thesis
      using same owned [of i] set_owned by (auto simp: delete_chat_def split: option.split)
  next
    case (Restore i)
    then show ?thesis
      using same owned [of i] set_owned by (auto simp: restore_chat_def split: option.split)
  next
    case (Purge i)
    then show ?thesis
      using same owned [of i] drop_chats_agree [OF assms(1)] by (auto simp: purge_chat_def split: option.split)
  next
    case Empty_Trash
    then show ?thesis
      by (simp only: Empty_Trash chat_act.simps empty_trash_def Let_def apfst_conv snd_conv agree_own_chats [OF assms(1)])
        (rule audit_agree [OF drop_chats_agree [OF assms(1)]])
  next
    case Delete_All
    then show ?thesis
      using archived_agree [OF assms(1)] by simp
  next
    case (Patch i p)
    then show ?thesis
      using same owned [of i] set_owned by (auto simp: update_chat_def split: option.split)
  next
    case (Start env k l now later q i)
    then show ?thesis
      using start_agree [OF assms(1), of env k l now later q i] by simp
  qed (use same in simp_all)
qed

interpretation private_chats: isolated chat_act fst new_ids chat_ids chats_ok my_view
proof
  fix r :: chat_request and s t :: chats_db
  assume "chats_ok s" "chats_ok t" "my_view (fst r) s = my_view (fst r) t"
  then have "agree (fst r) s t"
    by (simp add: agree_def)
  then show "fst (chat_act r s) = fst (chat_act r t)"
    using own_answers [of "fst r" s t "snd r"] by simp
next
  fix r :: chat_request and s t :: chats_db
  assume "chats_ok s" "chats_ok t" "set (new_ids r) \<inter> (chat_ids s \<union> chat_ids t) = {}" "my_view (fst r) s = my_view (fst r) t"
  then show "my_view (fst r) (snd (chat_act r s)) = my_view (fst r) (snd (chat_act r t))"
    using own_changes [of "fst r" s t "snd r"] by (simp add: agree_def)
next
  fix r :: chat_request and s :: chats_db and u
  assume ok: "chats_ok s" and fresh: "set (new_ids r) \<inter> chat_ids s = {}"
  show "chats_ok (snd (chat_act r s))" "chat_ids (snd (chat_act r s)) \<subseteq> chat_ids s \<union> set (new_ids r)"
    by (rule act_keeps_ok [OF ok fresh])+
  show "my_view u (snd (chat_act r s)) = my_view u s" if "fst r \<noteq> u"
    using act_keeps_ok(3) [OF ok fresh that] .
qed

end
