(* ===== verification/Chat_Safety.thy ===== *)
theory Chat_Safety
  imports Chat_Views
begin

text \<open>
  What the chat handlers guarantee: every user works as if alone, a conversation is lost only when its owner asks for
  it, and a turn over a workload runs on the connection the workload is bound to.
\<close>

section \<open>Isolation\<close>

text \<open>C30. Whatever other users do, and however their requests interleave, the answers a user gets and the chats,
  messages and audit rows the user owns are those of a history holding only the user's own requests. The ids of
  new chats are fresh.\<close>

theorem users_work_as_if_alone:
  assumes "chats_ok db" "distinct (concat (map new_ids rs))" "set (concat (map new_ids rs)) \<inter> chat_ids db = {}"
  shows "seen_by u (fst (history chat_act fst rs db)) = seen_by u (fst (history chat_act fst (filter (\<lambda>r. fst r = u) rs) db))
    \<and> my_view u (snd (history chat_act fst rs db)) = my_view u (snd (history chat_act fst (filter (\<lambda>r. fst r = u) rs) db))"
  using private_chats.history_isolated [of db db u rs] assms by simp

section \<open>What can be lost\<close>

text \<open>What lies behind the last row that fails a test is not older than any row that fails it.\<close>

lemma tail_is_newer:
  fixes key :: "'a \<Rightarrow> 'b::linorder"
  assumes "sorted (map key xs)" "x \<in> set (takeWhile P (rev xs))" "y \<in> set xs" "\<not> P y"
  shows "key y \<le> key x"
proof -
  let ?tail = "takeWhile P (rev xs)" and ?front = "dropWhile P (rev xs)"
  have "y \<in> set ?tail \<union> set ?front"
    using assms(3) unfolding set_append [symmetric] takeWhile_dropWhile_id by simp
  moreover have "y \<notin> set ?tail"
    using assms(4) by (blast dest: set_takeWhileD)
  ultimately have "y \<in> set ?front"
    by blast
  moreover have "xs = rev ?front @ rev ?tail"
    unfolding rev_append [symmetric] takeWhile_dropWhile_id by simp
  then have "sorted (map key (rev ?front) @ map key (rev ?tail))"
    using assms(1) by (metis map_append)
  ultimately show ?thesis
    using assms(2) unfolding sorted_append by auto
qed

definition answers_last :: "chat_message \<Rightarrow> chats_db \<Rightarrow> bool" where
  "answers_last m db \<longleftrightarrow> me_role m \<in> {''assistant'', ''tool''}
     \<and> (\<forall>m'\<in>set (cd_messages db). me_chat m' = me_chat m \<and> me_role m' = ''user'' \<longrightarrow> me_created m' \<le> me_created m)"

lemma with_request_keeps:
  assumes "m \<in> set (cd_messages db)" "m \<notin> set (cd_messages (with_request k now q i db))"
  shows "rq_regenerate q \<and> me_chat m = i \<and> answers_last m db"
proof -
  have q: "rq_regenerate q"
    using assms by (auto simp: with_request_def add_message_def split: if_splits)
  then have tail: "m \<in> set (takeWhile (\<lambda>m. me_role m \<noteq> ''user'') (rev (chat_rows i db)))" "me_role m \<in> {''assistant'', ''tool''}"
    using assms by (auto simp: with_request_def regenerated_def drop_messages_def)
  then have "me_chat m = i"
    by (auto simp: chat_rows_def dest!: set_takeWhileD)
  moreover have "me_created m' \<le> me_created m"
    if "m' \<in> set (cd_messages db)" "me_chat m' = i" "me_role m' = ''user''" for m'
    by (rule tail_is_newer [OF _ tail(1)]) (use that in \<open>simp_all add: chat_rows_def\<close>)
  ultimately show ?thesis
    using q tail(2) by (auto simp: answers_last_def)
qed

lemma set_chat_messages [simp]: "cd_messages (set_chat c db) = cd_messages db"
  by (simp add: set_chat_def)

lemma start_keeps:
  assumes "m \<in> set (cd_messages db)" "m \<notin> set (cd_messages (snd (start_turn env u k l now later q i db)))"
  shows "rq_regenerate q \<and> me_chat m = i \<and> answers_last m db \<and> get_owned_chat u i db \<noteq> None"
proof (cases rule: start_turn_cases [of u i db env k l now later q])
  case (refused c e)
  then have "m \<notin> set (cd_messages (with_request k now q i db))"
    using assms(2) by (simp add: prepared_def)
  with with_request_keeps [OF assms(1)] refused(1) show ?thesis
    by blast
next
  case (started c cn)
  then have "m \<notin> set (cd_messages (with_request k now q i db))"
    using assms(2) by (simp add: prepared_def add_message_def)
  with with_request_keeps [OF assms(1)] started(1) show ?thesis
    by blast
qed (use assms in simp_all)

lemma first_index_Some: "first_index p xs = Some i \<Longrightarrow> i < length xs \<and> p (xs ! i)"
  by (auto simp: first_index_def dest!: find_SomeD)

lemma truncate_keeps:
  assumes "m \<in> set (cd_messages db)" "m \<notin> set (cd_messages (snd (delete_messages_from u i mid db)))"
  shows "me_chat m = i \<and> get_owned_chat u i db \<noteq> None
    \<and> (\<exists>n m'. m' \<in> set (cd_messages db) \<and> me_chat m' = i \<and> me_id m' = mid \<and> me_created m' \<le> me_created m)"
proof (cases "get_owned_chat u i db")
  case None
  then show ?thesis
    using assms by (simp add: delete_messages_from_def)
next
  case (Some c)
  let ?rows = "chat_rows i db"
  from assms Some obtain n where n: "first_index (\<lambda>m. me_id m = mid) ?rows = Some n" "m \<in> set (drop n ?rows)"
    by (auto simp: delete_messages_from_def drop_messages_def Let_def split: option.splits)
  then have first: "n < length ?rows" "me_id (?rows ! n) = mid"
    by (auto dest: first_index_Some)
  have "sorted (map me_created ?rows)"
    by (simp add: chat_rows_def)
  then have "sorted (map me_created (drop n ?rows))"
    by (simp add: drop_map [symmetric] sorted_wrt_drop)
  moreover have "drop n ?rows = ?rows ! n # drop (Suc n) ?rows"
    using first(1) by (simp add: Cons_nth_drop_Suc)
  ultimately have "me_created (?rows ! n) \<le> me_created m"
    using n(2) by auto
  moreover have "?rows ! n \<in> set ?rows" "m \<in> set ?rows"
    using first(1) n(2) by (auto dest: in_set_dropD)
  ultimately show ?thesis
    using Some first(2) by (auto simp: chat_rows_def)
qed

text \<open>C31. A message disappears from the tables only when the owner of its chat purges that chat, empties the trash with
  the chat in it, deletes from a message of the chat that is not newer, or regenerates the last answer: then it is a message of
  the assistant or a tool that follows every message the user wrote in that chat. Archiving, restoring, forking and every other
  request lose nothing.\<close>

theorem message_loss_is_asked_for:
  assumes "chats_ok db" "m \<in> set (cd_messages db)" "m \<notin> set (cd_messages (snd (chat_act (u, op) db)))"
  shows "\<exists>c\<in>set (cd_chats db). ch_id c = me_chat m \<and> owner c = u \<and>
    (op = Purge (ch_id c) \<or> op = Empty_Trash \<and> ch_archived c
     \<or> (\<exists>m'\<in>set (cd_messages db). op = Truncate (ch_id c) (me_id m') \<and> me_chat m' = ch_id c \<and> me_created m' \<le> me_created m)
     \<or> (\<exists>env k l now later q. op = Start env k l now later q (ch_id c) \<and> rq_regenerate q \<and> answers_last m db))"
proof -
  have owned: "\<exists>c\<in>set (cd_chats db). ch_id c = i \<and> owner c = u" if "get_owned_chat u i db \<noteq> None" for i
    using that by (auto simp: owned_chat_iff [OF assms(1)] mine_def)
  show ?thesis
  proof (cases op)
    case (Truncate i mid)
    with truncate_keeps [OF assms(2), of u i mid] assms(3) owned [of i] show ?thesis
      by fastforce
  next
    case (Purge i)
    then show ?thesis
      using assms(2,3) owner_owned owned [of i] by (auto simp: purge_chat_def drop_chats_def split: option.splits)
  next
    case Empty_Trash
    then obtain c where "c \<in> set (own_chats u True db)" "me_chat m = ch_id c"
      using assms(2,3) by (auto simp: empty_trash_def drop_chats_def audit_def Let_def)
    then show ?thesis
      using Empty_Trash by (intro bexI [of _ c]) (auto simp: own_chats_mine mine_def)
  next
    case (Start env k l now later q i)
    then have "rq_regenerate q \<and> me_chat m = i \<and> answers_last m db \<and> get_owned_chat u i db \<noteq> None"
      using start_keeps [OF assms(2), of env u k l now later q i] assms(3) by simp
    with Start owned [of i] show ?thesis
      by fastforce
  next
    case (Breakout new ids now i up_to)
    then show ?thesis
      using assms(2,3) by (auto simp: breakout_with_chat with_chat_def audit_def split: option.splits)
  qed (use assms(2,3) in \<open>auto simp: create_chat_def delete_chat_def restore_chat_def delete_all_chats_def update_chat_def
      audit_def Let_def split: option.splits\<close>)
qed

text \<open>The trash loses nothing: deleting and restoring an active chat is no change at all.\<close>

lemma restore_undoes_delete:
  assumes "chats_ok db" "get_owned_chat u i db = Some c" "\<not> ch_archived c"
  shows "snd (restore_chat u i (snd (delete_chat u i db))) = db"
proof -
  let ?c = "c\<lparr>ch_archived := True\<rparr>" and ?db = "set_chat (c\<lparr>ch_archived := True\<rparr>) db"
  have c: "c \<in> set (cd_chats db)" "ch_id c = i" "owner c = u"
    using assms(2) by (auto simp: owned_chat_iff [OF assms(1)] mine_def)
  have ok: "chats_ok ?db"
    using concerns_set_owned [OF concerns_refl [OF assms(1)] assms(1,2), of ?c] c by (simp add: concerns_def)
  have "?c \<in> set (cd_chats ?db)"
    using c by (auto simp: set_chat_def intro!: image_eqI [of _ _ c])
  then have "get_owned_chat u i ?db = Some ?c"
    using c by (simp add: owned_chat_iff [OF ok] mine_def)
  moreover have "?c\<lparr>ch_archived := False\<rparr> = c"
    using assms(3) by simp
  moreover have "set_chat c ?db = db"
  proof -
    have "map (\<lambda>x. if ch_id x = ch_id c then c else x) (cd_chats ?db) = cd_chats db"
      using same_id [OF assms(1) c(1)] by (auto simp: set_chat_def intro!: map_idI)
    then show ?thesis
      by (simp add: set_chat_def)
  qed
  ultimately show ?thesis
    by (simp add: restore_chat_def delete_chat_def assms(2))
qed

section \<open>The connection of a workload\<close>

text \<open>C32. A turn that starts over a workload bound to a connection runs on exactly that connection, which exists and is
  not disabled, whatever connection the request, the agent or the chat names; and the chat is left on it.\<close>

theorem workload_keeps_its_connection:
  assumes "start_turn env u k l now later q i db = (Started p, db')"
    "get_owned_chat u i db = Some c" "turn_workload env q c = Some w" "wl_connection w \<noteq> []"
  shows "\<exists>cn. pl_connection p = Some cn \<and> cn_id cn = wl_connection w \<and> \<not> cn_disabled cn
    \<and> map_option ch_connection (get_owned_chat u i db') = Some (Some (wl_connection w))"
proof (cases rule: start_turn_cases [of u i db env k l now later q])
  case (started d cn)
  have d: "d = c"
    using started(1) assms(2) by simp
  obtain b where found: "get_connection env (wl_connection w) = Some b" "cn = Some b" "\<not> cn_disabled b"
    using started(2) assms(3,4) unfolding d
    by (cases "get_connection env (wl_connection w)") (auto simp: resolve_workload_bound_connection_def split: if_splits)
  then have b: "cn = Some b" "cn_id b = wl_connection w" "\<not> cn_disabled b"
    using assms(4) by (auto simp: get_connection_def dest: find_SomeD)
  have "\<exists>e. pinned_connection (Some w) (Some b) = Some e \<and> cn_id e = cn_id b \<and> cn_disabled e = cn_disabled b"
    by (auto simp: pinned_connection_def split: list.split)
  then obtain e where e: "pl_connection p = Some e" "cn_id e = wl_connection w" "\<not> cn_disabled e"
    using assms(1,3) started(4) b unfolding d by (auto simp: make_plan_def Let_def split: prod.splits)
  let ?row = "final_row env q cn c"
  have row: "ch_connection ?row = Some (wl_connection w)"
    using b assms(3,4) by (simp add: final_row_def scoped_chat_def owns_connection_def Let_def split: prod.split)
  have row_id: "ch_id ?row = i" "owner ?row = u"
    using owner_owned [OF assms(2)] by simp_all
  have find_row: "find (\<lambda>c. ch_id c = i) (map (\<lambda>x. if ch_id x = i then ?row else x) cs) = Some ?row"
    if "i \<in> ch_id ` set cs" for cs
    using that row_id(1) by (induction cs) auto
  have "i \<in> chat_ids (prepared env k now q i c db)"
    unfolding same_ids_prepared using assms(2)
    by (auto simp: get_owned_chat_def chat_ids_def dest!: find_SomeD split: option.splits if_splits)
  moreover have "cd_chats db' = map (\<lambda>x. if ch_id x = i then ?row else x) (cd_chats (prepared env k now q i c db))"
    using assms(1) started(4) row_id(1) unfolding d by (auto simp: add_message_def set_chat_def)
  ultimately have "find (\<lambda>c. ch_id c = i) (cd_chats db') = Some ?row"
    using find_row by (simp add: chat_ids_def)
  then have "get_owned_chat u i db' = Some ?row"
    using row_id(2) by (cases u) (auto simp: get_owned_chat_def owner_def)
  with e row show ?thesis
    by simp
qed (use assms in simp_all)

section \<open>Where a conversation is lost by surprise\<close>

text \<open>Purging does not look at the trash: an active chat goes with its messages.\<close>

lemma purge_ignores_trash:
  assumes "chats_ok db" "get_owned_chat u i db = Some c" "\<not> ch_archived c"
  shows "get_owned_chat u i (snd (purge_chat u i db)) = None" "chat_rows i (snd (purge_chat u i db)) = []"
proof -
  have "ch_id c = i"
    using owner_owned [OF assms(2)] by simp
  then have drop: "snd (purge_chat u i db) = drop_chats [i] db"
    by (simp add: purge_chat_def assms(2))
  have "find (\<lambda>c. ch_id c = i) (filter (\<lambda>c. ch_id c \<noteq> i) (cd_chats db)) = None"
    by (simp add: find_None_iff)
  then show "get_owned_chat u i (snd (purge_chat u i db)) = None"
    unfolding drop by (simp add: get_owned_chat_def drop_chats_def)
  show "chat_rows i (snd (purge_chat u i db)) = []"
    unfolding drop by (simp add: chat_rows_def drop_chats_def)
qed

text \<open>A regeneration that is refused afterwards has already deleted the previous answer.\<close>

lemma refused_regeneration_loses_answer:
  assumes "get_owned_chat u i db = Some c" "\<not> se_active env" "rq_regenerate q"
    "is_set (turn_workload_id q c)" "turn_workload env q c = None"
    "chat_rows i db = ms @ [m]" "me_role m = ''assistant''"
  shows "fst (start_turn env u k l now later q i db) = Workload_Not_Found"
    "m \<notin> set (cd_messages (snd (start_turn env u k l now later q i db)))"
proof -
  have start: "start_turn env u k l now later q i db = (Workload_Not_Found, set_chat (first_row env q c) (regenerated i db))"
    using assms(1-5) by (simp add: start_turn_def with_request_def Let_def)
  show "fst (start_turn env u k l now later q i db) = Workload_Not_Found"
    by (simp add: start)
  show "m \<notin> set (cd_messages (snd (start_turn env u k l now later q i db)))"
    using assms(6,7) by (simp add: start regenerated_def drop_messages_def)
qed

section \<open>Witnesses\<close>

definition ann :: user where "ann = (''t1'', ''ann'')"
definition bob :: user where "bob = (''t1'', ''bob'')"

definition example_chat :: "string \<Rightarrow> user \<Rightarrow> bool \<Rightarrow> chat" where
  "example_chat i u archived =
     \<lparr>ch_id = i, ch_tenant = fst u, ch_user = snd u, ch_title = ''Disks'', ch_prompt = None, ch_provider = None, ch_model = None,
      ch_connection = None, ch_thinking = ''normal'', ch_agent = None, ch_workload = None, ch_archived = archived,
      ch_pinned = False, ch_created = 0\<rparr>"

definition example_db :: chats_db where
  "example_db =
     \<lparr>cd_chats = [example_chat ''a'' ann False, example_chat ''b'' bob True],
      cd_messages = [new_message ''m1'' ''a'' ''user'' ''Which disks are full?'' 1, new_message ''m2'' ''b'' ''user'' ''Hello'' 2,
        new_message ''m3'' ''a'' ''assistant'' ''None.'' 3],
      cd_audit = []\<rparr>"

lemmas example_defs = example_db_def example_chat_def ann_def bob_def new_message_def

lemma example_ok: "chats_ok example_db" "chat_ids example_db = {''a'', ''b''}"
  by (auto simp: chats_ok_def chat_ids_def example_defs)

definition example_requests :: "chat_request list" where
  "example_requests = [(ann, Read_Messages ''a''), (bob, Purge ''a''), (bob, Empty_Trash), (bob, Create ''c'' 4
     \<lparr>cf_provider = ''openai'', cf_model = ''gpt'', cf_connection = None\<rparr>
     \<lparr>cc_title = None, cc_prompt = None, cc_provider = None, cc_model = None, cc_connection = None\<rparr>), (ann, Delete ''a'')]"

lemma example_own: "filter (\<lambda>r. fst r = ann) example_requests = [(ann, Read_Messages ''a''), (ann, Delete ''a'')]"
  "concat (map new_ids example_requests) = [''c'']"
  by (simp_all add: example_requests_def ann_def bob_def)

theorem users_work_as_if_alone_witness:
  "seen_by ann (fst (history chat_act fst example_requests example_db))
   = seen_by ann (fst (history chat_act fst [(ann, Read_Messages ''a''), (ann, Delete ''a'')] example_db))"
  using users_work_as_if_alone [OF example_ok(1), of example_requests ann] by (simp add: example_own example_ok(2))

lemma example_purged: "cd_messages (snd (chat_act (ann, Purge ''a'') example_db)) = [new_message ''m2'' ''b'' ''user'' ''Hello'' 2]"
  by (simp add: purge_chat_def get_owned_chat_def drop_chats_def example_defs)

theorem message_loss_is_asked_for_witness:
  "new_message ''m3'' ''a'' ''assistant'' ''None.'' 3 \<notin> set (cd_messages (snd (chat_act (ann, Purge ''a'') example_db)))
   \<and> (\<exists>c\<in>set (cd_chats example_db). ch_id c = ''a'' \<and> owner c = ann)"
proof -
  have "new_message ''m3'' ''a'' ''assistant'' ''None.'' 3 \<in> set (cd_messages example_db)"
    "new_message ''m3'' ''a'' ''assistant'' ''None.'' 3 \<notin> set (cd_messages (snd (chat_act (ann, Purge ''a'') example_db)))"
    unfolding example_purged by (simp_all add: example_defs)
  from message_loss_is_asked_for [OF example_ok(1) this] this(2) show ?thesis
    by (auto simp: new_message_def)
qed

definition example_connection :: connection where
  "example_connection = \<lparr>cn_id = ''c1'', cn_tenant = ''t9'', cn_display = None, cn_disabled = False, cn_subscription = None, cn_default = True\<rparr>"

definition example_env :: start_env where
  "example_env =
     \<lparr>se_active = False, se_auto_title = False, se_summarize = (\<lambda>s. s), se_agent = (\<lambda>i. None),
      se_workload = (\<lambda>i. if i = ''w1'' then Some \<lparr>wl_connection = ''c1'', wl_nodes = []\<rparr> else None),
      se_connections = [example_connection], se_get_active = (\<lambda>p m. (''openai'', ''gpt'')),
      se_active_model = ''gpt'', se_entra_enabled = False, se_workload_hint = (\<lambda>w. []), se_can_exec = False,
      se_sandbox_hint = (\<lambda>i. None)\<rparr>"

definition example_request :: turn_request where
  "example_request =
     \<lparr>rq_content = ''Why?'', rq_images = [], rq_subscription = None, rq_subscription_name = None, rq_group = None,
      rq_group_name = None, rq_connection = Some ''other'', rq_tenant_name = None, rq_scope_all = False, rq_thinking = None,
      rq_agent = None, rq_workload = Some ''w1'', rq_regenerate = False\<rparr>"

theorem workload_keeps_its_connection_witness:
  "\<exists>p db' cn. start_turn example_env ann ''m4'' ''m5'' 4 5 example_request ''a'' example_db = (Started p, db')
     \<and> pl_connection p = Some cn \<and> cn_id cn = ''c1''"
proof -
  let ?c = "example_chat ''a'' ann False" and ?w = "\<lparr>wl_connection = ''c1'', wl_nodes = []\<rparr>"
  have c: "get_owned_chat ann ''a'' example_db = Some ?c"
    by (simp add: get_owned_chat_def example_defs)
  have w: "turn_workload example_env example_request ?c = Some ?w"
    by (simp add: turn_workload_def turn_workload_id_def example_env_def example_request_def non_empty_def)
  have "get_connection example_env ''c1'' = Some example_connection"
    by (simp add: get_connection_def example_env_def example_connection_def)
  then have "\<exists>p db'. start_turn example_env ann ''m4'' ''m5'' 4 5 example_request ''a'' example_db = (Started p, db')"
    by (simp add: start_turn_def c w resolve_workload_bound_connection_def Let_def) (simp add: example_env_def example_connection_def)
  then obtain p db' where s: "start_turn example_env ann ''m4'' ''m5'' 4 5 example_request ''a'' example_db = (Started p, db')"
    by blast
  from workload_keeps_its_connection [OF s c w] s show ?thesis
    by auto
qed

end
