(* ===== verification/Tool_Classify.thy ===== *)
theory Tool_Classify
  imports Json_Values "HOL-Library.AList"
begin

text \<open>
  The clients of the tool servers (\<^verbatim>\<open>app/mcp/client.py\<close>): the read and write verdicts on a tool name and on
  a concrete call, the listing of a server's tools with its cache, and the configuration a server is started
  with. The answers of a server are arguments; instants are microseconds.
\<close>

section \<open>Verdicts\<close>

definition READ_VERBS :: "string list" where
  "READ_VERBS = [''list'', ''get'', ''show'', ''describe'', ''query'', ''read'', ''check'', ''diagnose'']"

definition READ_ONLY_TOOL_OVERRIDES :: "string list" where
  "READ_ONLY_TOOL_OVERRIDES = [''extension_azqr'']"

definition classify_tool :: "string \<Rightarrow> string" where
  "classify_tool name =
     (let lowered = py_lower name
      in if lowered \<in> set READ_ONLY_TOOL_OVERRIDES then ''read''
         else if list_ex (contains lowered) READ_VERBS then ''read''
         else ''write'')"

definition ENTRA_READ_VERBS :: "string list" where
  "ENTRA_READ_VERBS =
     [''search'', ''find'', ''get'', ''list'', ''show'', ''describe'', ''query'', ''read'', ''check'',
      ''suggest'', ''lookup'', ''view'', ''validate'']"

definition ENTRA_WRITE_VERBS :: "string list" where
  "ENTRA_WRITE_VERBS =
     [''create'', ''update'', ''delete'', ''set'', ''remove'', ''add'', ''reset'', ''generate'',
      ''assign'', ''revoke'', ''enable'', ''disable'', ''rotate'']"

definition verb_in :: "string list \<Rightarrow> string list \<Rightarrow> bool" where
  "verb_in tokens verbs = list_ex (\<lambda>t. t \<in> set verbs) tokens"

definition classify_entra_tool :: "string \<Rightarrow> string" where
  "classify_entra_tool name =
     (let tokens = re_split lower_alnum (py_lower name)
      in if verb_in tokens ENTRA_WRITE_VERBS then ''write''
         else if verb_in tokens ENTRA_READ_VERBS then ''read''
         else ''write'')"

definition WRITE_VERBS :: "string list" where
  "WRITE_VERBS =
     [''create'', ''delete'', ''update'', ''set'', ''remove'', ''add'', ''write'', ''put'', ''patch'',
      ''deploy'', ''restart'', ''start'', ''stop'', ''scale'', ''enable'', ''disable'', ''rotate'',
      ''reset'', ''purge'', ''assign'', ''unassign'', ''grant'', ''revoke'', ''import'', ''publish'',
      ''approve'', ''reject'', ''move'', ''rename'', ''regenerate'', ''provision'', ''deprovision'',
      ''attach'', ''detach'', ''register'', ''unregister'', ''install'', ''uninstall'', ''apply'']"

definition operation_text :: "doc \<Rightarrow> string" where
  "operation_text args =
     py_lower (join_with '' '' (map (\<lambda>k. case map_of args k of None \<Rightarrow> [] | Some v \<Rightarrow> py_str v)
       [''command'', ''intent'', ''operation'', ''action'']))"

definition classify_call :: "string \<Rightarrow> doc \<Rightarrow> string" where
  "classify_call name args =
     (let op = operation_text args; tokens = re_split lower_alnum op
      in if py_strip op \<noteq> [] then
           (if verb_in tokens WRITE_VERBS then ''write''
            else if verb_in tokens READ_VERBS then ''read''
            else ''write'')
         else classify_tool name)"

lemma classify_tool_cases: "classify_tool name = ''read'' \<or> classify_tool name = ''write''"
  by (simp add: classify_tool_def Let_def)

lemma classify_call_cases: "classify_call name args = ''read'' \<or> classify_call name args = ''write''"
  using classify_tool_cases [of name] by (simp add: classify_call_def Let_def)

text \<open>When the call names its operation, the verdict is read only for an operation that has a reading verb and
  none of the mutating ones.\<close>

lemma classify_call_operation:
  assumes "py_strip (operation_text args) \<noteq> []"
  shows "classify_call name args = ''read'' \<longleftrightarrow>
    (let tokens = re_split lower_alnum (operation_text args)
     in verb_in tokens READ_VERBS \<and> \<not> verb_in tokens WRITE_VERBS)"
  using assms by (simp add: classify_call_def Let_def)

lemma classify_call_no_operation:
  assumes "py_strip (operation_text args) = []"
  shows "classify_call name args = classify_tool name"
  using assms by (simp add: classify_call_def Let_def)

text \<open>The name heuristic looks for substrings: a tool whose name merely contains a reading verb is a read.\<close>

lemma classify_tool_substring: "classify_tool ''budget_delete'' = ''read''"
  by code_simp

lemma classify_entra_tool_tokens: "classify_entra_tool ''budget_delete'' = ''write''"
  by code_simp

section \<open>Discovered tools\<close>

record discovered_tool =
  dt_name :: string
  dt_description :: string
  dt_parameters :: json
  dt_kind :: string
  dt_available :: bool
  dt_reason :: string

definition TOOL_EXECUTABLES :: "(string \<times> string \<times> string) list" where
  "TOOL_EXECUTABLES =
     [(''azd'', ''azd'', ''Azure Developer CLI''),
      (''extension_azqr'', ''azqr'', ''Azure Quick Review CLI'')]"

text \<open>\<open>which\<close> tells whether an executable is on the search path.\<close>

definition tool_runtime_availability :: "(string \<Rightarrow> bool) \<Rightarrow> string \<Rightarrow> bool \<times> string" where
  "tool_runtime_availability which name =
     (case map_of TOOL_EXECUTABLES (py_lower name) of
        None \<Rightarrow> (True, [])
      | Some (executable, label) \<Rightarrow>
          if which executable then (True, [])
          else (False, label @ '' executable '' @ [CHR 0x27] @ executable @ [CHR 0x27] @ '' was not found in PATH.''))"

definition refresh_runtime_availability :: "(string \<Rightarrow> bool) \<Rightarrow> discovered_tool list \<Rightarrow> discovered_tool list" where
  "refresh_runtime_availability which tools =
     map (\<lambda>t. let (available, reason) = tool_runtime_availability which (dt_name t)
              in t\<lparr>dt_available := available, dt_reason := reason\<rparr>) tools"

section \<open>Clients\<close>

type_synonym process_env = "(string \<times> string) list"

record tool_client =
  cl_command :: string
  cl_args :: "string list"
  cl_read_only :: bool
  cl_entra_classifier :: bool
  cl_env :: process_env

definition put_env :: "string \<Rightarrow> string \<Rightarrow> process_env \<Rightarrow> process_env" where
  "put_env k v e = AList.update k v e"

definition put_given :: "process_env \<Rightarrow> process_env \<Rightarrow> process_env" where
  "put_given overrides e = fold (\<lambda>(k, v) e. if v \<noteq> [] then put_env k v e else e) overrides e"

definition child_env :: "process_env \<Rightarrow> string list \<Rightarrow> string \<Rightarrow> string \<Rightarrow> process_env \<Rightarrow> process_env" where
  "child_env os_env env_clear subscription credentials overrides =
     (let e1 = filter (\<lambda>kv. fst kv \<notin> set env_clear) os_env;
          e2 = (if subscription \<noteq> [] then put_env ''AZURE_SUBSCRIPTION_ID'' subscription e1 else e1);
          e3 = (if credentials \<noteq> [] then put_env ''AZURE_TOKEN_CREDENTIALS'' credentials e2 else e2)
      in put_given overrides e3)"

definition new_client ::
  "string \<Rightarrow> string list \<Rightarrow> bool \<Rightarrow> bool \<Rightarrow> process_env \<Rightarrow> tool_client" where
  "new_client command args read_only entra_classifier env =
     \<lparr>cl_command = command,
      cl_args = (if read_only \<and> ''--read-only'' \<notin> set args then args @ [''--read-only''] else args),
      cl_read_only = read_only, cl_entra_classifier = entra_classifier, cl_env = env\<rparr>"

definition client_classifier :: "tool_client \<Rightarrow> string \<Rightarrow> string" where
  "client_classifier cl = (if cl_entra_classifier cl then classify_entra_tool else classify_tool)"

record mcp_settings =
  ms_command :: string
  ms_args :: "string list"
  ms_read_only :: bool
  ms_subscription :: string
  ms_credentials :: string
  ms_entra_command :: string
  ms_entra_args :: "string list"

definition text_or :: "doc \<Rightarrow> string \<Rightarrow> string \<Rightarrow> string" where
  "text_or d k fallback = py_str (get_or d k (J_Text fallback))"

text \<open>\<open>stored\<close> is the dashboard setting, absent when it was never saved or could not be loaded;
  \<open>connection_env\<close> the environment the credentials module derives from a connection.\<close>

definition build_mcp_client ::
  "mcp_settings \<Rightarrow> json option \<Rightarrow> process_env \<Rightarrow> (doc \<Rightarrow> process_env) \<Rightarrow> doc \<Rightarrow> tool_client" where
  "build_mcp_client s stored os_env connection_env connection =
     (let global = (case stored of None \<Rightarrow> ms_read_only s | Some v \<Rightarrow> truthy (Some v))
      in if connection = [] then
           new_client (ms_command s) (ms_args s) global False
             (child_env os_env [] (ms_subscription s) (ms_credentials s) [])
         else
           new_client (ms_command s) (ms_args s)
             (case map_of connection ''read_only'' of None \<Rightarrow> global | Some v \<Rightarrow> truthy (Some v)) False
             (child_env os_env [] (text_or connection ''default_subscription'' (ms_subscription s)) []
               (connection_env connection)))"

definition entra_env_from_connection :: "string \<Rightarrow> doc \<Rightarrow> process_env" where
  "entra_env_from_connection cert_path connection =
     (let opt = (\<lambda>name k. if truthy (map_of connection k) then [(name, py_str (the (map_of connection k)))] else [])
      in opt ''TENANT_ID'' ''tenant_id'' @ opt ''CLIENT_ID'' ''client_id''
         @ (if truthy (map_of connection ''client_secret'') then opt ''CLIENT_SECRET'' ''client_secret''
            else if truthy (map_of connection ''certificate_pem'') then [(''CERTIFICATE_PATH'', cert_path)]
            else []))"

definition ENTRA_ENV_CLEAR :: "string list" where
  "ENTRA_ENV_CLEAR = [''TENANT_ID'', ''CLIENT_ID'', ''CLIENT_SECRET'', ''CERTIFICATE_PATH'', ''CERTIFICATE_PWD'']"

definition build_entra_mcp_client :: "mcp_settings \<Rightarrow> process_env \<Rightarrow> string \<Rightarrow> doc \<Rightarrow> tool_client" where
  "build_entra_mcp_client s os_env cert_path connection =
     new_client (ms_entra_command s) (ms_entra_args s) False True
       (child_env os_env ENTRA_ENV_CLEAR [] [] (entra_env_from_connection cert_path connection))"

text \<open>A client that trusts its server to be read-only started it read-only.\<close>

lemma read_only_client_starts_read_only:
  "cl_read_only (new_client command args ro ec env) \<Longrightarrow> ''--read-only'' \<in> set (cl_args (new_client command args ro ec env))"
  by (simp add: new_client_def)

lemma entra_client_never_read_only: "\<not> cl_read_only (build_entra_mcp_client s os_env path connection)"
  by (simp add: build_entra_mcp_client_def new_client_def)

lemma map_of_put_given:
  "k \<notin> fst ` set overrides \<Longrightarrow> map_of (put_given overrides e) k = map_of e k"
proof (induction overrides arbitrary: e)
  case (Cons kv rest)
  then show ?case
    by (cases kv) (auto simp: put_given_def put_env_def update_conv)
qed (simp add: put_given_def)

lemma map_of_filter_key: "map_of (filter (\<lambda>kv. fst kv \<notin> S) e) k = (if k \<in> S then None else map_of e k)"
  by (induction e) auto

text \<open>No credential of the surrounding process reaches the Graph server: each of the five variables is unset
  unless the connection itself gives it.\<close>

lemma entra_identity_is_the_connections:
  assumes "k \<in> set ENTRA_ENV_CLEAR" "k \<notin> fst ` set (entra_env_from_connection path connection)"
  shows "map_of (cl_env (build_entra_mcp_client s os_env path connection)) k = None"
  using assms
  by (simp add: build_entra_mcp_client_def new_client_def child_env_def Let_def map_of_put_given map_of_filter_key)

section \<open>The listing and its cache\<close>

definition CATALOG_TTL :: int where "CATALOG_TTL = 3600 * 1000000"

type_synonym cache_key = "string \<times> string list \<times> bool \<times> string"
type_synonym tool_cache = "(cache_key \<times> int \<times> discovered_tool list) list"

definition catalog_cache_key :: "tool_client \<Rightarrow> cache_key" where
  "catalog_cache_key cl =
     (cl_command cl, cl_args cl, cl_read_only cl,
      case map_of (cl_env cl) ''AZURE_TENANT_ID'' of None \<Rightarrow> [] | Some t \<Rightarrow> t)"

definition catalog_cache_get :: "int \<Rightarrow> cache_key \<Rightarrow> tool_cache \<Rightarrow> tool_cache \<times> discovered_tool list option" where
  "catalog_cache_get now key cache =
     (case map_of cache key of
        None \<Rightarrow> (cache, None)
      | Some (ts, tools) \<Rightarrow>
          if now - ts > CATALOG_TTL then (AList.delete key cache, None) else (cache, Some tools))"

definition catalog_cache_set :: "int \<Rightarrow> cache_key \<Rightarrow> discovered_tool list \<Rightarrow> tool_cache \<Rightarrow> tool_cache" where
  "catalog_cache_set now key tools cache =
     (let cache1 = AList.update key (now, tools) cache
      in if length cache1 > 32 then AList.delete (fst (arg_min_list (\<lambda>kv. fst (snd kv)) cache1)) cache1
         else cache1)"

text \<open>A server's answer lists names with an optional description and input schema.\<close>

type_synonym listing = "(string \<times> string option \<times> json option) list"

definition listed_tool :: "tool_client \<Rightarrow> string \<times> string option \<times> json option \<Rightarrow> discovered_tool" where
  "listed_tool cl t =
     (case t of (name, description, schema) \<Rightarrow>
        \<lparr>dt_name = name, dt_description = str_or description [],
         dt_parameters = (if truthy schema then the schema
                          else J_Obj [(''type'', J_Text ''object''), (''properties'', J_Obj [])]),
         dt_kind = (if cl_read_only cl then ''read'' else client_classifier cl name),
         dt_available = True, dt_reason = []\<rparr>)"

definition list_tools ::
  "(string \<Rightarrow> bool) \<Rightarrow> int \<Rightarrow> (string, listing) result \<Rightarrow> tool_client \<Rightarrow> tool_cache
    \<Rightarrow> tool_cache \<times> (string, discovered_tool list) result" where
  "list_tools which now response cl cache =
     (let key = catalog_cache_key cl; (cache1, hit) = catalog_cache_get now key cache
      in case hit of
           Some tools \<Rightarrow> (cache1, Inr (refresh_runtime_availability which tools))
         | None \<Rightarrow>
             (case response of
                Inl e \<Rightarrow> (cache1, Inl e)
              | Inr resp \<Rightarrow>
                  (let tools = map (listed_tool cl) resp
                   in (catalog_cache_set now key tools cache1, Inr (refresh_runtime_availability which tools)))))"

lemma AList_update_length: "length (AList.update k v xs) \<le> Suc (length xs)"
  by (induction xs) auto

lemma AList_delete_length: "k \<in> fst ` set xs \<Longrightarrow> length (AList.delete k xs) < length xs"
  by (auto simp: AList.delete_eq intro!: length_filter_less)

text \<open>The cache never grows past thirty-two listings.\<close>

lemma catalog_cache_bounded:
  assumes "length cache \<le> 32"
  shows "length (fst (list_tools which now response cl cache)) \<le> 32"
proof -
  have set_bounded: "length (catalog_cache_set now key tools c) \<le> 32" if "length c \<le> 32" for key tools c
  proof -
    let ?c = "AList.update key (now, tools) c"
    have "?c \<noteq> []"
      by (cases c) auto
    then have "fst (arg_min_list (\<lambda>kv. fst (snd kv)) ?c) \<in> fst ` set ?c"
      by (intro imageI arg_min_list_in)
    then have "length (AList.delete (fst (arg_min_list (\<lambda>kv. fst (snd kv)) ?c)) ?c) < length ?c"
      by (rule AList_delete_length)
    with AList_update_length [of key "(now, tools)" c] that show ?thesis
      by (auto simp: catalog_cache_set_def Let_def)
  qed
  have get_bounded: "length (fst (catalog_cache_get now key cache)) \<le> 32" for key
    using assms order.trans [OF length_filter_le]
    by (auto simp: catalog_cache_get_def AList.delete_eq split: option.splits)
  obtain c hit where get: "catalog_cache_get now (catalog_cache_key cl) cache = (c, hit)"
    by fastforce
  with get_bounded [of "catalog_cache_key cl"] have "length c \<le> 32"
    by simp
  with set_bounded show ?thesis
    by (simp add: list_tools_def get Let_def split: option.split sum.split)
qed

end
