(* ===== verification/Tool_Catalog.thy ===== *)
theory Tool_Catalog
  imports Tool_Classify
begin

text \<open>
  Normalised metadata of every tool of a turn (\<^verbatim>\<open>app/agent/tool_catalog.py\<close>, \<^verbatim>\<open>app/agent/provider.py\<close>): the
  source, domain and bundles of a tool are inferred from its name and description, and the catalog maps names
  to entries, refusing a name offered twice.
\<close>

section \<open>Specifications and entries\<close>

record tool_spec =
  sp_name :: string
  sp_description :: string
  sp_parameters :: json
  sp_kind :: string
  sp_source :: string
  sp_domain :: string
  sp_bundles :: "string list"
  sp_keywords :: "string list"
  sp_always :: bool
  sp_priority :: int
  sp_defer :: bool

definition plain_spec :: "string \<Rightarrow> string \<Rightarrow> json \<Rightarrow> string \<Rightarrow> tool_spec" where
  "plain_spec name description parameters kind =
     \<lparr>sp_name = name, sp_description = description, sp_parameters = parameters, sp_kind = kind,
      sp_source = ''unknown'', sp_domain = ''general'', sp_bundles = [], sp_keywords = [], sp_always = False,
      sp_priority = 0, sp_defer = False\<rparr>"

record tool_entry =
  te_spec :: tool_spec
  te_source :: string
  te_domain :: string
  te_bundles :: "string list"
  te_kind :: string
  te_keywords :: "string list"

definition te_name :: "tool_entry \<Rightarrow> string" where
  "te_name e = sp_name (te_spec e)"

definition texts :: "string list \<Rightarrow> json" where
  "texts xs = J_List (map J_Text xs)"

definition public_entry :: "bool \<Rightarrow> string \<Rightarrow> tool_entry \<Rightarrow> doc" where
  "public_entry selected reason e =
     [(''name'', J_Text (te_name e)), (''description'', J_Text (sp_description (te_spec e))),
      (''source'', J_Text (te_source e)), (''domain'', J_Text (te_domain e)), (''bundles'', texts (te_bundles e)),
      (''kind'', J_Text (te_kind e)), (''selected'', J_Bool selected)]
     @ (if reason \<noteq> [] then [(''reason'', J_Text reason)] else [])"

section \<open>Inferred metadata\<close>

definition IAM_TOOLS :: "string list" where
  "IAM_TOOLS =
     [''who_can_access'', ''privileged_access_review'', ''effective_access_for_principal'',
      ''can_principal_do'', ''why_does_principal_have_access'', ''escalation_paths_to'',
      ''unused_permissions_for'', ''simulate_revoke'', ''access_changed_since'',
      ''who_can_reach_resource'']"

definition OWNERSHIP_TOOLS :: "string list" where
  "OWNERSHIP_TOOLS = [''who_owns'', ''what_does_owner_own'', ''find_unowned'']"

definition ENTRA_IDENTITY_TOOLS :: "string list" where
  "ENTRA_IDENTITY_TOOLS =
     [''identity_investigate'', ''ca_evaluate'', ''identity_group_members'', ''ca_policies_for_app'', ''identity_findings'']"

definition RECOVERY_TOOLS :: "string list" where
  "RECOVERY_TOOLS = [''recovery_posture'', ''recovery_gaps'', ''recovery_breaches'']"

definition COST_TOOLS :: "string list" where
  "COST_TOOLS = [''azure_cost_query'']"

definition ADVISOR_TOOLS :: "string list" where
  "ADVISOR_TOOLS = [''azure_advisor_recommendations'']"

definition INVENTORY_TOOLS :: "string list" where
  "INVENTORY_TOOLS = [''azure_resource_inventory'']"

definition PUBLIC_EXPOSURE_TOOLS :: "string list" where
  "PUBLIC_EXPOSURE_TOOLS = [''azure_public_exposure_inventory'']"

definition BUILTIN_TOOLS :: "string list" where
  "BUILTIN_TOOLS =
     [''net_web_fetch'', ''net_http_request'', ''net_dns_lookup'', ''net_port_check'',
      ''net_ping'', ''net_traceroute'', ''azure_metrics'']"

definition VM_TOOLS :: "string list" where
  "VM_TOOLS = [''vm_exec'', ''vm_list'', ''vm_read_file'']"

type_synonym bundle_rules = "(string \<times> string list) list"

definition ENTRA_RULES :: bundle_rules where
  "ENTRA_RULES =
     [(''entra.users'', [''user'', ''users'', ''password'']),
      (''entra.groups'', [''group'', ''member'', ''owner'']),
      (''entra.applications'', [''application'', ''service_principal'', ''credential'', ''permission'']),
      (''entra.authentication'', [''mfa'', ''authentication'', ''password_method'']),
      (''entra.conditional_access'', [''conditional_access'', ''ca_policy'']),
      (''entra.audit'', [''sign_in'', ''audit_log'']),
      (''entra.roles'', [''role'', ''privileged'']),
      (''entra.devices'', [''device'', ''managed_device''])]"

definition AZURE_RULES :: bundle_rules where
  "AZURE_RULES =
     [(''azure.compute'', [''compute'', ''virtual_machine'', ''vm'', ''container'', ''aks'', ''appservice'']),
      (''azure.networking'', [''network'', ''dns'', ''firewall'', ''load_balancer'', ''traffic'', ''private'']),
      (''azure.storage'', [''storage'', ''blob'', ''file'', ''disk'']),
      (''azure.data'', [''sql'', ''postgres'', ''mysql'', ''cosmos'', ''redis'', ''database'']),
      (''azure.monitoring'', [''monitor'', ''metric'', ''log'', ''health'', ''resourcehealth'', ''advisor'']),
      (''azure.identity'', [''role'', ''authorization'', ''keyvault'', ''managedidentity'']),
      (''azure.governance'', [''policy'', ''resourcegraph'', ''managementgroup'']),
      (''azure.pricing'', [''pricing'', ''retail_price'', ''sku_price''])]"

definition AZURE_EXPLICIT_BUNDLES :: bundle_rules where
  "AZURE_EXPLICIT_BUNDLES =
     [(''arm'', [''azure.inventory'', ''azure.governance'']),
      (''advisor'', [''azure.advisor'', ''azure.governance'']),
      (''azurebackup'', [''azure.backup'']),
      (''extension_azqr'', [''azure.governance'']),
      (''wellarchitectedframework'', [''azure.governance''])]"

definition replace_char :: "char \<Rightarrow> char \<Rightarrow> string \<Rightarrow> string" where
  "replace_char a b = map (\<lambda>c. if c = a then b else c)"

definition term_matches :: "string \<Rightarrow> string list \<Rightarrow> bool" where
  "term_matches text candidates =
     list_ex (contains (replace_char CHR '' '' CHR ''_'' (replace_char CHR ''-'' CHR ''_'' text))) candidates"

definition rule_bundles :: "(string list \<Rightarrow> bool) \<Rightarrow> bundle_rules \<Rightarrow> string list" where
  "rule_bundles hit rules = map fst (filter (\<lambda>r. hit (snd r)) rules)"

definition infer_origin :: "string \<Rightarrow> string \<Rightarrow> string \<Rightarrow> string \<Rightarrow> string \<Rightarrow> string \<times> string \<times> string list" where
  "infer_origin name normalized_name lowered source_hint kind =
     (if source_hint = ''entra_mcp'' then
        (source_hint, ''identity'', rule_bundles (term_matches normalized_name) ENTRA_RULES
           @ [if kind = ''write'' then ''entra.writes'' else ''entra.reads''])
      else if source_hint = ''azure_mcp'' then
        (source_hint, ''azure'',
         rule_bundles (\<lambda>terms. term_matches normalized_name terms \<or> term_matches lowered terms) AZURE_RULES
         @ (case map_of AZURE_EXPLICIT_BUNDLES normalized_name of None \<Rightarrow> [] | Some bs \<Rightarrow> bs)
         @ [if kind = ''read'' then ''azure.reads'' else ''azure.writes''])
      else if name \<in> set BUILTIN_TOOLS then
        (''builtin'', if name = ''azure_metrics'' then ''monitoring'' else ''networking'',
         [if name = ''azure_metrics'' then ''azure.monitoring'' else ''diagnostics.network''])
      else if name \<in> set IAM_TOOLS then (''iam'', ''identity'', [''azure.identity'', ''access_review''])
      else if name \<in> set OWNERSHIP_TOOLS then (''ownership'', ''governance'', [''ownership''])
      else if name \<in> set ENTRA_IDENTITY_TOOLS then
        (''entra_identity'', ''identity'',
         [if starts_with name ''ca_'' then ''entra.conditional_access'' else ''entra.users''])
      else if name \<in> set RECOVERY_TOOLS then (''resiliency'', ''reliability'', [''azure.backup'', ''recovery''])
      else if name \<in> set COST_TOOLS then (''cost'', ''cost'', [''azure.cost''])
      else if name \<in> set ADVISOR_TOOLS then (''advisor'', ''governance'', [''azure.advisor''])
      else if name \<in> set INVENTORY_TOOLS then (''inventory'', ''azure'', [''azure.inventory'', ''azure.networking''])
      else if name \<in> set PUBLIC_EXPOSURE_TOOLS then
        (''inventory'', ''azure'', [''azure.inventory'', ''azure.networking'', ''azure.public_exposure''])
      else if name \<in> set VM_TOOLS then (''sandbox'', ''networking'', [''diagnostics.sandbox''])
      else if name = ''run_performance_profile'' then
        (''workload'', ''performance'', [''azure.monitoring'', ''performance''])
      else if source_hint = ''internal'' then (''internal'', ''routing'', [''internal''])
      else (if source_hint = [] then ''connector'' else source_hint, ''connector'', [''connectors'']))"

definition infer_metadata ::
  "string \<Rightarrow> string \<Rightarrow> string \<Rightarrow> string \<Rightarrow> string \<times> string \<times> string list \<times> string list" where
  "infer_metadata name description source_hint kind =
     (let lowered = py_lower (name @ '' '' @ description);
          normalized_name = replace_char CHR ''-'' CHR ''_'' (py_lower name);
          (source, domain, bundles) = infer_origin name normalized_name lowered source_hint kind;
          bundles1 = (if bundles = [] then [domain @ ''.general''] else bundles);
          keywords = sort (remdups (find_words lower_alnum lowered))
      in (source, domain, first_of_each bundles1, keywords))"

definition make_entry :: "tool_spec \<Rightarrow> string \<Rightarrow> string \<Rightarrow> tool_entry" where
  "make_entry spec source_hint kind =
     (let actual_kind = (if kind \<noteq> [] then kind else if sp_kind spec \<noteq> [] then sp_kind spec else ''read'');
          hint = (if source_hint \<noteq> [] then source_hint else if sp_source spec \<noteq> [] then sp_source spec else ''connector'');
          (source, domain, bundles, keywords) = infer_metadata (sp_name spec) (sp_description spec) hint actual_kind
      in \<lparr>te_spec = spec\<lparr>sp_kind := actual_kind, sp_source := source, sp_domain := domain, sp_bundles := bundles,
                         sp_keywords := keywords\<rparr>,
          te_source = source, te_domain = domain, te_bundles = bundles, te_kind = actual_kind, te_keywords = keywords\<rparr>)"

lemma te_name_make_entry [simp]: "te_name (make_entry spec hint kind) = sp_name spec"
  by (simp add: make_entry_def te_name_def Let_def split: prod.split)

lemma te_kind_make_entry: "kind \<noteq> [] \<Longrightarrow> te_kind (make_entry spec hint kind) = kind"
  by (simp add: make_entry_def Let_def split: prod.split)

lemma infer_source: "\<exists>n l. fst (infer_metadata name description hint kind) = fst (infer_origin name n l hint kind)"
  by (auto simp: infer_metadata_def Let_def split: prod.split) (metis fst_conv)

lemma te_source_make_entry:
  "hint \<noteq> [] \<Longrightarrow> te_source (make_entry spec hint kind) =
     fst (infer_metadata (sp_name spec) (sp_description spec) hint (if kind \<noteq> [] then kind else if sp_kind spec \<noteq> [] then sp_kind spec else ''read''))"
  by (simp add: make_entry_def Let_def split: prod.split)

lemma infer_origin_internal: "fst (infer_origin name n l hint kind) = ''internal'' \<Longrightarrow> hint = ''internal''"
  unfolding infer_origin_def by (simp split: if_splits)

text \<open>Only the core tools have the source that needs no verdict.\<close>

lemma internal_source:
  assumes "te_source (make_entry spec hint kind) = ''internal''" "hint \<noteq> []"
  shows "hint = ''internal''"
  using assms infer_source infer_origin_internal te_source_make_entry by metis

section \<open>The catalog\<close>

type_synonym catalog = "tool_entry list"

datatype catalog_error = Tool_Name_Collision string string string

definition cat_get :: "catalog \<Rightarrow> string \<Rightarrow> tool_entry option" where
  "cat_get cat name = find (\<lambda>e. te_name e = name) cat"

fun add_entries :: "catalog \<Rightarrow> tool_entry list \<Rightarrow> (catalog_error, catalog) result" where
  "add_entries cat [] = Inr cat"
| "add_entries cat (e # es) =
     (case cat_get cat (te_name e) of
        Some previous \<Rightarrow> Inl (Tool_Name_Collision (te_name e) (te_source previous) (te_source e))
      | None \<Rightarrow> add_entries (cat @ [e]) es)"

definition new_catalog :: "tool_entry list \<Rightarrow> (catalog_error, catalog) result" where
  "new_catalog = add_entries []"

definition cat_names :: "catalog \<Rightarrow> string list" where
  "cat_names cat = map te_name cat"

definition all_specs :: "catalog \<Rightarrow> tool_spec list" where
  "all_specs cat = map te_spec cat"

definition specs_of :: "catalog \<Rightarrow> string list \<Rightarrow> tool_spec list" where
  "specs_of cat names = map te_spec (filter (\<lambda>e. te_name e \<in> set names) cat)"

definition counted :: "string list \<Rightarrow> (string \<times> nat) list" where
  "counted xs = map (\<lambda>x. (x, count_list xs x)) (sort (remdups xs))"

definition counts_by_source :: "catalog \<Rightarrow> (string \<times> nat) list" where
  "counts_by_source cat = counted (map te_source cat)"

definition counts_by_domain :: "catalog \<Rightarrow> (string \<times> nat) list" where
  "counts_by_domain cat = counted (map te_domain cat)"

definition schema_bytes :: "tool_spec list \<Rightarrow> nat" where
  "schema_bytes specs =
     length (compact_dumps (J_List (map (\<lambda>s. J_Obj [(''name'', J_Text (sp_name s)), (''description'', J_Text (sp_description s)),
       (''parameters'', sp_parameters s)]) specs)))"

lemma cat_get_None: "cat_get cat name = None \<longleftrightarrow> name \<notin> set (cat_names cat)"
  by (auto simp: cat_get_def cat_names_def find_None_iff)

lemma cat_get_Some: "cat_get cat name = Some e \<Longrightarrow> e \<in> set cat \<and> te_name e = name"
  using find_SomeD [of "\<lambda>e. te_name e = name" cat e] by (simp add: cat_get_def)

lemma cat_get_in: "name \<in> set (cat_names cat) \<Longrightarrow> \<exists>e. cat_get cat name = Some e"
  using cat_get_None [of cat name] by auto

lemma add_entries_Inr:
  "add_entries cat es = Inr r \<Longrightarrow> distinct (cat_names cat) \<Longrightarrow> r = cat @ es \<and> distinct (cat_names r)"
proof (induction cat es rule: add_entries.induct)
  case (2 cat e es)
  then have fresh: "cat_get cat (te_name e) = None" and rest: "add_entries (cat @ [e]) es = Inr r"
    by (auto split: option.splits)
  with 2(3) have "distinct (cat_names (cat @ [e]))"
    by (simp add: cat_get_None) (simp add: cat_names_def)
  with 2(1) [OF fresh rest] show ?case
    by auto
qed simp

text \<open>A catalog is built exactly when no name is offered twice, and then it holds the entries in order.\<close>

lemma new_catalog_Inr: "new_catalog es = Inr cat \<Longrightarrow> cat = es \<and> distinct (cat_names cat)"
  using add_entries_Inr [of "[]" es cat] by (auto simp: new_catalog_def cat_names_def)

lemma add_entries_complete:
  "distinct (cat_names (cat @ es)) \<Longrightarrow> add_entries cat es = Inr (cat @ es)"
proof (induction cat es rule: add_entries.induct)
  case (2 cat e es)
  then have "cat_get cat (te_name e) = None"
    by (auto simp: cat_get_None cat_names_def)
  with 2 show ?case
    by simp
qed simp

lemma new_catalog_iff: "new_catalog es = Inr cat \<longleftrightarrow> cat = es \<and> distinct (cat_names es)"
proof
  assume "new_catalog es = Inr cat"
  then show "cat = es \<and> distinct (cat_names es)"
    using new_catalog_Inr by blast
next
  assume "cat = es \<and> distinct (cat_names es)"
  then show "new_catalog es = Inr cat"
    using add_entries_complete [of "[]" es] by (simp add: new_catalog_def)
qed

lemma specs_of_length: "distinct (cat_names cat) \<Longrightarrow> length (specs_of cat names) \<le> length (remdups names)"
proof -
  assume "distinct (cat_names cat)"
  then have "length (specs_of cat names) = card (te_name ` set (filter (\<lambda>e. te_name e \<in> set names) cat))"
    by (metis (no_types, lifting) cat_names_def distinct_card distinct_map_filter length_map list.set_map specs_of_def)
  also have "\<dots> \<le> card (set names)"
    by (rule card_mono) auto
  finally show ?thesis
    by (simp add: length_remdups_card_conv)
qed

end
