(* ===== verification/Tool_Router.thy ===== *)
theory Tool_Router
  imports Tool_Catalog
begin

text \<open>
  Routing of tools to a model turn (\<^verbatim>\<open>app/agent/tool_router.py\<close>, \<^verbatim>\<open>app/agent/skills.py\<close>): vocabulary and
  ranking, the bounded surface of active tools with its search and bundle loading, and the initial
  selection. Sets of bundle names are lists, compared by membership only.
\<close>

section \<open>Vocabulary\<close>

definition STOPWORDS :: "string list" where
  "STOPWORDS =
     [''a'', ''an'', ''and'', ''are'', ''as'', ''at'', ''be'', ''by'', ''for'', ''from'', ''get'',
      ''access'', ''add'', ''apply'', ''assign'', ''change'', ''create'', ''delete'', ''deploy'',
      ''complete'', ''disable'', ''enabled'', ''enable'', ''in'', ''is'', ''it'', ''list'', ''modify'',
      ''my'', ''name'', ''names'', ''of'', ''on'', ''only'', ''or'', ''policies'', ''policy'', ''read'',
      ''remove'', ''report'', ''reset'', ''revoke'', ''rotate'', ''set'', ''show'', ''start'',
      ''state'', ''states'', ''stop'', ''tenant'', ''subscription'', ''subscriptions'', ''selected'',
      ''guidance'', ''review'', ''endpoint'', ''that'', ''the'', ''this'', ''to'', ''trigger'',
      ''update'', ''what'', ''which'', ''with'', ''all'', ''azure'', ''resource'', ''resources'',
      ''service'', ''services'']"

definition WRITE_INTENTS :: "string list" where
  "WRITE_INTENTS =
     [''create'', ''update'', ''delete'', ''remove'', ''add'', ''assign'', ''revoke'', ''reset'',
      ''rotate'', ''enable'', ''disable'', ''modify'', ''change'', ''set'', ''send'', ''post'',
      ''trigger'', ''acknowledge'', ''resolve'', ''apply'', ''deploy'', ''restart'', ''stop'', ''start'']"

definition BUNDLE_ALIASES :: bundle_rules where
  "BUNDLE_ALIASES =
     [(''entra.users'', [''user'', ''users'', ''guest'', ''account'', ''password'']),
      (''entra.groups'', [''group'', ''groups'', ''membership'', ''member'', ''owner'']),
      (''entra.applications'', [''application'', ''applications'', ''app'', ''service principal'', ''enterprise app'',
        ''credential'', ''secret'', ''certificate'', ''consent'', ''permission'']),
      (''entra.authentication'', [''mfa'', ''authentication'', ''auth method'', ''passwordless'']),
      (''entra.conditional_access'', [''conditional access'', ''ca policy'', ''sign in policy'']),
      (''entra.audit'', [''sign in'', ''signin'', ''audit log'', ''activity'']),
      (''entra.roles'', [''directory role'', ''global admin'', ''privileged'', ''pim'']),
      (''entra.devices'', [''intune'', ''managed device'', ''device compliance'']),
      (''azure.compute'', [''vm'', ''virtual machine'', ''compute'', ''aks'', ''container'', ''app service'']),
      (''azure.networking'', [''network'', ''dns'', ''firewall'', ''nsg'', ''route'', ''vnet'', ''subnet'', ''connectivity'',
        ''private endpoint'', ''public endpoint'', ''internet facing'', ''public ip'', ''public dns'',
        ''public network access'', ''load balancer'', ''application gateway'']),
      (''azure.public_exposure'', [''public endpoint'', ''internet facing'', ''public exposure'', ''public network access'']),
      (''azure.storage'', [''storage'', ''blob'', ''file share'', ''managed disk'']),
      (''azure.data'', [''sql'', ''database'', ''postgres'', ''mysql'', ''cosmos'', ''redis'']),
      (''azure.monitoring'', [''monitor'', ''metric'', ''chart'', ''latency'', ''performance'', ''health'', ''alert'', ''log'']),
      (''azure.identity'', [''rbac'', ''effective access'', ''who can access'', ''role assignment'', ''managed identity'',
        ''key vault'']),
      (''azure.governance'', [''policy'', ''resource graph'', ''management group'', ''governance'']),
      (''azure.inventory'', [''resource graph'', ''resource inventory'', ''cross resource'', ''inventory'']),
      (''azure.backup'', [''backup'', ''recovery services vault'', ''backup vault'', ''protected item'',
        ''backup coverage'']),
      (''azure.advisor'', [''advisor'', ''recommendation'', ''recommendations'', ''open recommendations'', ''high impact'']),
      (''azure.cost'', [''actual cost'', ''actual spend'', ''cost management'', ''cost by'', ''cost of'', ''cost for'',
        ''spend'', ''charged'', ''billing'', ''last 7 days'', ''last seven days'']),
      (''azure.pricing'', [''retail price'', ''list price'', ''pricing'', ''sku price'', ''cost estimate'',
        ''estimated cost'']),
      (''ownership'', [''owner'', ''ownership'', ''unowned'', ''accountable'']),
      (''access_review'', [''who can'', ''effective access'', ''privileged access'', ''revoke'', ''escalation'']),
      (''diagnostics.network'', [''ping'', ''traceroute'', ''port check'', ''http request'', ''probe endpoint'', ''resolve dns'']),
      (''diagnostics.sandbox'', [''sandbox'', ''inside vnet'', ''ssh'', ''run command'']),
      (''performance'', [''performance'', ''bottleneck'', ''saturation'', ''throughput'', ''latency'']),
      (''connectors'', [''email'', ''teams'', ''slack'', ''jira'', ''servicenow'', ''ticket'', ''notify''])]"

definition SOURCE_ALIASES :: "(string \<times> string) list" where
  "SOURCE_ALIASES =
     [(''azure'', ''azure_mcp''), (''azure-mcp'', ''azure_mcp''), (''entra'', ''entra_mcp''),
      (''graph'', ''entra_mcp'')]"

definition BUNDLE_NAME_ALIASES :: "(string \<times> string) list" where
  "BUNDLE_NAME_ALIASES =
     [(''networking'', ''azure.networking''), (''storage'', ''azure.storage''),
      (''compute'', ''azure.compute''), (''data'', ''azure.data''),
      (''monitoring'', ''azure.monitoring''), (''governance'', ''azure.governance''),
      (''backup'', ''azure.backup''), (''advisor'', ''azure.advisor''),
      (''inventory'', ''azure.inventory''), (''resource.graph'', ''azure.inventory''),
      (''resource.inventory'', ''azure.inventory''), (''public.exposure'', ''azure.public_exposure''),
      (''azure.public.endpoint'', ''azure.public_exposure''),
      (''azure.resource.graph'', ''azure.inventory''),
      (''azure.resource.inventory'', ''azure.inventory'')]"

definition DOMAIN_PHRASES :: "(string \<times> string) list" where
  "DOMAIN_PHRASES =
     [(''resource graph'', ''azure.inventory''), (''resource inventory'', ''azure.inventory''),
      (''networking'', ''azure.networking''), (''network'', ''azure.networking''),
      (''storage'', ''azure.storage''), (''backup'', ''azure.backup''),
      (''advisor'', ''azure.advisor''), (''compute'', ''azure.compute''),
      (''monitoring'', ''azure.monitoring''), (''governance'', ''azure.governance''),
      (''identity'', ''azure.identity''), (''cost'', ''azure.cost'')]"

section \<open>Names the model produces\<close>

definition normalize_source :: "string \<Rightarrow> string" where
  "normalize_source value =
     (let source = replace_char CHR '' '' CHR ''_'' (py_lower (py_strip value))
      in case map_of SOURCE_ALIASES source of None \<Rightarrow> source | Some s \<Rightarrow> s)"

definition bundle_token :: "json \<Rightarrow> string" where
  "bundle_token item =
     replace_char CHR ''-'' CHR ''.'' (replace_char CHR ''_'' CHR ''.''
       (py_lower (py_strip (if truthy (Some item) then py_str item else []))))"

definition normalize_bundles :: "json \<Rightarrow> string list" where
  "normalize_bundles value =
     (let values = (case value of J_Text s \<Rightarrow> [value] | J_List xs \<Rightarrow> xs | _ \<Rightarrow> [])
      in remdups (map (\<lambda>t. case map_of BUNDLE_NAME_ALIASES t of None \<Rightarrow> t | Some b \<Rightarrow> b)
           (filter (\<lambda>t. t \<noteq> []) (map bundle_token values))))"

text \<open>A phrase between boundaries: \<open>w\<close> is the class of characters that may not touch it, \<open>match\<close> gives the
  rest of the text after the phrase. In \<open>spaced_match\<close> a space of the phrase stands for one or more
  white-space characters.\<close>

fun spaced_match :: "string \<Rightarrow> string \<Rightarrow> string option" where
  "spaced_match [] t = Some t"
| "spaced_match (p # ps) [] = None"
| "spaced_match (p # ps) (c # cs) =
     (if p = CHR '' '' then (if is_space c then spaced_match ps (dropWhile is_space cs) else None)
      else if c = p then spaced_match ps cs else None)"

definition plain_match :: "string \<Rightarrow> string \<Rightarrow> string option" where
  "plain_match p t = (if prefix p t then Some (drop (length p) t) else None)"

fun phrase_from :: "(char \<Rightarrow> bool) \<Rightarrow> (string \<Rightarrow> string option) \<Rightarrow> bool \<Rightarrow> string \<Rightarrow> bool" where
  "phrase_from w match inside t =
     ((\<not> inside \<and> (case match t of None \<Rightarrow> False | Some rest \<Rightarrow> rest = [] \<or> \<not> w (hd rest)))
      \<or> (case t of [] \<Rightarrow> False | c # cs \<Rightarrow> phrase_from w match (w c) cs))"

definition has_phrase :: "(char \<Rightarrow> bool) \<Rightarrow> (string \<Rightarrow> string option) \<Rightarrow> string \<Rightarrow> bool" where
  "has_phrase w match t = phrase_from w match False t"

definition bundles_from_domain :: "string \<Rightarrow> string list" where
  "bundles_from_domain value =
     (let text = replace_char CHR ''_'' CHR '' '' (replace_char CHR ''-'' CHR '' '' (py_lower (py_strip value)))
      in if text = [] then []
         else remdups (map snd (filter (\<lambda>p. has_phrase lower_alnum (plain_match (fst p)) text) DOMAIN_PHRASES)))"

section \<open>Ranking\<close>

definition query_tokens :: "string \<Rightarrow> string list" where
  "query_tokens text =
     remdups (filter (\<lambda>t. length t > 1 \<and> t \<notin> set STOPWORDS) (find_words lower_alnum (py_lower text)))"

definition detect_bundles :: "string \<Rightarrow> string list" where
  "detect_bundles query =
     map fst (filter (\<lambda>b. list_ex (\<lambda>p. has_phrase lower_alnum (spaced_match p) (py_lower query)) (snd b)) BUNDLE_ALIASES)"

definition has_write_intent :: "string \<Rightarrow> bool" where
  "has_write_intent query = list_ex (\<lambda>t. t \<in> set WRITE_INTENTS) (find_words word_char (py_lower query))"

definition allows_writes :: "string \<Rightarrow> string list \<Rightarrow> bool" where
  "allows_writes query bundles \<longleftrightarrow> list_ex (\<lambda>b. ends_with b ''.writes'') bundles \<or> has_write_intent query"

record route_decision =
  rd_name :: string
  rd_score :: int
  rd_reason :: string

definition hits :: "string list \<Rightarrow> string list \<Rightarrow> string list" where
  "hits wanted present = filter (\<lambda>t. t \<in> set present) wanted"

definition score_entry :: "string \<Rightarrow> string list \<Rightarrow> string list \<Rightarrow> tool_entry \<Rightarrow> route_decision" where
  "score_entry query tokens bundles e =
     (let spec = te_spec e;
          name_hits = hits tokens (query_tokens (replace_char CHR ''_'' CHR '' '' (te_name e)));
          description_hits = hits tokens (query_tokens (sp_description spec));
          keyword_hits = hits tokens (te_keywords e);
          bundle_hits = hits bundles (te_bundles e);
          lowered = py_strip (py_lower query);
          score = sp_priority spec + int (length name_hits) * 12 + int (length description_hits) * 3
                  + int (length keyword_hits) + int (length bundle_hits) * 18
                  + (if lowered \<noteq> [] \<and> contains lowered (py_lower (te_name e)) then 40 else 0)
                  + (if sp_always spec then 1000 else 0);
          bits = (if sp_always spec then [''core''] else [])
                 @ (if bundle_hits \<noteq> [] then [''bundle '' @ join_with '', '' (sort bundle_hits)] else [])
                 @ (if name_hits \<noteq> [] then [''name '' @ join_with '', '' (sort name_hits)]
                    else if description_hits \<noteq> [] then [''description '' @ join_with '', '' (take 4 (sort description_hits))]
                    else [])
      in \<lparr>rd_name = te_name e, rd_score = score,
          rd_reason = (if bits = [] then ''catalog fallback'' else join_with ''; '' bits)\<rparr>)"

definition rank_entries :: "string \<Rightarrow> catalog \<Rightarrow> string list \<Rightarrow> route_decision list" where
  "rank_entries query entries preferred =
     sort_key (\<lambda>d. (- rd_score d, rd_name d))
       (map (score_entry query (query_tokens query) (remdups (detect_bundles query @ preferred))) entries)"

lemma rank_entries_names: "rd_name ` set (rank_entries query cat preferred) = set (cat_names cat)"
  by (auto simp: rank_entries_def cat_names_def score_entry_def Let_def image_iff)

section \<open>The surface of active tools\<close>

record surface =
  sf_catalog :: catalog
  sf_initial :: int
  sf_max :: int
  sf_page :: int
  sf_active :: "string list"
  sf_reasons :: "(string \<times> string) list"
  sf_loaded :: "string list"

definition surface_specs :: "surface \<Rightarrow> tool_spec list" where
  "surface_specs s = specs_of (sf_catalog s) (sf_active s)"

definition all_specs_for_native_search :: "surface \<Rightarrow> tool_spec list" where
  "all_specs_for_native_search s =
     map (\<lambda>e. (te_spec e)\<lparr>sp_defer := te_name e \<notin> set (sf_active s)\<rparr>) (sf_catalog s)"

definition remaining_slots :: "surface \<Rightarrow> int" where
  "remaining_slots s = max 0 (sf_max s - int (length (sf_active s)))"

fun add_loop :: "string \<Rightarrow> int \<Rightarrow> string list \<Rightarrow> surface \<times> string list \<Rightarrow> surface \<times> string list" where
  "add_loop reason slots [] acc = acc"
| "add_loop reason slots (n # ns) (s, added) =
     (if slots \<le> 0 then (s, added)
      else if n \<in> set (sf_active s) \<or> cat_get (sf_catalog s) n = None then add_loop reason slots ns (s, added)
      else add_loop reason (slots - 1) ns
             (s\<lparr>sf_active := sf_active s @ [n], sf_reasons := AList.update n reason (sf_reasons s)\<rparr>, added @ [n]))"

definition surface_add :: "string list \<Rightarrow> string \<Rightarrow> int option \<Rightarrow> surface \<Rightarrow> surface \<times> string list" where
  "surface_add names reason limit s =
     (let slots = (case limit of None \<Rightarrow> remaining_slots s | Some l \<Rightarrow> min (remaining_slots s) (max 0 l))
      in add_loop reason slots names (s, []))"

fun collect :: "int \<Rightarrow> (route_decision \<Rightarrow> bool) \<Rightarrow> route_decision list \<Rightarrow> route_decision list \<Rightarrow> route_decision list" where
  "collect lim ok out [] = out"
| "collect lim ok out (d # ds) =
     (if \<not> ok d then collect lim ok out ds
      else if int (length out) + 1 \<ge> lim then out @ [d]
      else collect lim ok (out @ [d]) ds)"

definition withheld :: "bool \<Rightarrow> tool_entry \<Rightarrow> bool" where
  "withheld writes_ok e \<longleftrightarrow> te_kind e = ''write'' \<and> te_source e \<noteq> ''azure_mcp'' \<and> \<not> writes_ok"

definition search_admits ::
  "surface \<Rightarrow> string \<Rightarrow> string \<Rightarrow> string list \<Rightarrow> bool \<Rightarrow> bool \<Rightarrow> route_decision \<Rightarrow> bool" where
  "search_admits s source domain wanted include_active writes_ok d \<longleftrightarrow>
     rd_score d \<ge> 6 \<and>
     (case cat_get (sf_catalog s) (rd_name d) of
        None \<Rightarrow> False
      | Some e \<Rightarrow>
          (include_active \<or> te_name e \<notin> set (sf_active s))
          \<and> (source = [] \<or> te_source e = source)
          \<and> (domain = [] \<or> te_domain e = domain)
          \<and> (wanted = [] \<or> hits wanted (te_bundles e) \<noteq> [])
          \<and> \<not> withheld writes_ok e)"

definition surface_search ::
  "surface \<Rightarrow> string \<Rightarrow> string \<Rightarrow> string \<Rightarrow> json \<Rightarrow> int \<Rightarrow> bool \<Rightarrow> bool option \<Rightarrow> route_decision list" where
  "surface_search s query source domain bundles limit include_active allow_writes =
     (let domain_bundles = bundles_from_domain domain;
          wanted = remdups (normalize_bundles bundles @ domain_bundles);
          domain1 = (if domain_bundles \<noteq> [] then [] else py_lower (py_strip domain));
          writes_ok = (case allow_writes of None \<Rightarrow> allows_writes query wanted | Some b \<Rightarrow> b)
      in collect (if limit = 0 then sf_page s else limit)
           (search_admits s (normalize_source source) domain1 wanted include_active writes_ok) []
           (rank_entries query (sf_catalog s) wanted))"

definition load_search_results :: "route_decision list \<Rightarrow> surface \<Rightarrow> surface \<times> string list" where
  "load_search_results decisions s = surface_add (map rd_name decisions) ''deferred catalog search'' (Some (sf_page s)) s"

definition bundle_admits :: "surface \<Rightarrow> string \<Rightarrow> string list \<Rightarrow> route_decision \<Rightarrow> bool" where
  "bundle_admits s query wanted d =
     (case cat_get (sf_catalog s) (rd_name d) of
        None \<Rightarrow> False
      | Some e \<Rightarrow> hits wanted (te_bundles e) \<noteq> [] \<and> \<not> withheld (allows_writes query wanted) e)"

definition load_bundle :: "json \<Rightarrow> string \<Rightarrow> surface \<Rightarrow> surface \<times> string list" where
  "load_bundle bundles query s =
     (let wanted = normalize_bundles bundles;
          s1 = s\<lparr>sf_loaded := remdups (sf_loaded s @ wanted)\<rparr>;
          names = map rd_name (filter (bundle_admits s1 query wanted) (rank_entries query (sf_catalog s1) wanted))
      in surface_add names (''bundle: '' @ join_with '', '' (sort wanted)) None s1)"

definition counts_json :: "(string \<times> nat) list \<Rightarrow> json" where
  "counts_json cs = J_Obj (map (\<lambda>(k, n). (k, J_Num (int n))) cs)"

definition count_selected :: "surface \<Rightarrow> (tool_entry \<Rightarrow> string) \<Rightarrow> (string \<times> nat) list" where
  "count_selected s attr = counted (map attr (filter (\<lambda>e. te_name e \<in> set (sf_active s)) (sf_catalog s)))"

definition diagnostics :: "surface \<Rightarrow> doc" where
  "diagnostics s =
     (let cat = sf_catalog s; n = int (length (sf_active s)) in
      [(''available'', J_Num (int (length (cat_names cat)))),
       (''selected'', J_Num n),
       (''withheld'', J_Num (max 0 (int (length (cat_names cat)) - n))),
       (''initial_budget'', J_Num (sf_initial s)),
       (''max_per_turn'', J_Num (sf_max s)),
       (''schema_bytes_available'', J_Num (int (schema_bytes (all_specs cat)))),
       (''schema_bytes_selected'', J_Num (int (schema_bytes (specs_of cat (sf_active s))))),
       (''by_source'', counts_json (counts_by_source cat)),
       (''by_domain'', counts_json (counts_by_domain cat)),
       (''selected_by_source'', counts_json (count_selected s te_source)),
       (''selected_by_domain'', counts_json (count_selected s te_domain)),
       (''selected_tools'', texts (sf_active s)),
       (''selection_reasons'', J_Obj (map (map_prod id J_Text) (sf_reasons s)))])"

section \<open>The initial selection\<close>

definition GREETINGS :: "string list" where
  "GREETINGS =
     [''hi'', ''hello'', ''hey'', ''good morning'', ''good afternoon'', ''good evening'', ''thanks'', ''thank you'']"

definition is_greeting :: "string \<Rightarrow> bool" where
  "is_greeting query =
     (let t = py_lstrip (py_lower query)
      in list_ex (\<lambda>g. case spaced_match g t of
           None \<Rightarrow> False
         | Some rest \<Rightarrow> list_all (\<lambda>c. is_space c \<or> c \<in> set ''.!?'') rest) GREETINGS)"

definition asks_for_raw_query :: "string \<Rightarrow> bool" where
  "asks_for_raw_query query =
     list_ex (\<lambda>p. has_phrase word_char (spaced_match p) (py_lower query)) [''kql'', ''resource graph'', ''arm query'']"

fun route_loop :: "bool \<Rightarrow> string list \<Rightarrow> bool \<Rightarrow> int \<Rightarrow> route_decision list \<Rightarrow> surface \<Rightarrow> surface" where
  "route_loop fill explicit writes_ok budget [] s = s"
| "route_loop fill explicit writes_ok budget (d # ds) s =
     (if int (length (sf_active s)) \<ge> budget then s
      else if rd_score d < 6 \<and> \<not> fill then route_loop fill explicit writes_ok budget ds s
      else if (case cat_get (sf_catalog s) (rd_name d) of
                 None \<Rightarrow> False
               | Some e \<Rightarrow> te_name e \<notin> set explicit \<and> withheld writes_ok e)
        then route_loop fill explicit writes_ok budget ds s
      else route_loop fill explicit writes_ok budget ds (fst (surface_add [rd_name d] (rd_reason d) None s)))"

definition drop_redundant :: "string list \<Rightarrow> string \<Rightarrow> surface \<Rightarrow> surface" where
  "drop_redundant explicit n s =
     (if n \<in> set (sf_active s) \<and> n \<notin> set explicit
      then s\<lparr>sf_active := remove1 n (sf_active s), sf_reasons := AList.delete n (sf_reasons s)\<rparr> else s)"

definition prune_redundant :: "string \<Rightarrow> string list \<Rightarrow> surface \<Rightarrow> surface" where
  "prune_redundant query explicit s =
     (let s1 = (if ''azure_public_exposure_inventory'' \<in> set (sf_active s)
                then drop_redundant explicit ''arm'' (drop_redundant explicit ''azure_resource_inventory'' s) else s);
          s2 = (if ''azure_advisor_recommendations'' \<in> set (sf_active s1)
                then drop_redundant explicit ''advisor'' s1 else s1)
      in if ''azure_resource_inventory'' \<in> set (sf_active s2) \<and> \<not> asks_for_raw_query query
         then drop_redundant explicit ''arm'' s2 else s2)"

definition route_initial ::
  "string \<Rightarrow> catalog \<Rightarrow> int \<Rightarrow> int \<Rightarrow> int \<Rightarrow> string list \<Rightarrow> string list \<Rightarrow> bool \<Rightarrow> surface" where
  "route_initial query cat initial_budget max_per_turn page explicit_names explicit_bundles fill =
     (let initial = max 4 (min initial_budget max_per_turn);
          most = max initial max_per_turn;
          s0 = \<lparr>sf_catalog = cat, sf_initial = initial, sf_max = most, sf_page = page, sf_active = [],
                sf_reasons = [], sf_loaded = []\<rparr>;
          explicit = remdups (filter (\<lambda>n. n \<noteq> []) explicit_names);
          preferred = remdups (filter (\<lambda>n. n \<noteq> []) explicit_bundles);
          always = sort (map te_name (filter (\<lambda>e. sp_always (te_spec e)) cat));
          s1 = fst (surface_add always ''core routing capability'' None s0);
          s2 = fst (surface_add (sort explicit) ''explicit agent selection'' None s1);
          s3 = s2\<lparr>sf_loaded := preferred\<rparr>
      in if is_greeting query then s3
         else prune_redundant query explicit
                (route_loop fill explicit (allows_writes query preferred) initial
                  (rank_entries query cat preferred) s3))"

section \<open>Core tools and skills\<close>

definition SEARCH_TOOLS_SCHEMA :: json where
  "SEARCH_TOOLS_SCHEMA =
     J_Obj [(''type'', J_Text ''object''), (''properties'', J_Obj [(''query'', J_Obj [(''type'',
     J_Text ''string''), (''description'', J_Text ''Capability to find.'')]), (''source'', J_Obj [(''type'',
     J_Text ''string''), (''description'',
     J_Text (''Optional source: azure_mcp, entra_mcp, builtin, cost, iam, or ownership. '' @ [CHR 0x27] @ ''azure'' @ [CHR 0x27] @ '' and '' @ [CHR 0x27] @ ''entra'' @ [CHR 0x27] @ '' are accepted aliases.''))]),
     (''domain'', J_Obj [(''type'', J_Text ''string''), (''description'',
     J_Text ''Optional capability area such as networking, storage, backup, advisor, inventory, identity, or cost.'')]),
     (''bundles'', J_Obj [(''type'', J_Text ''array''), (''items'', J_Obj [(''type'', J_Text ''string'')]),
     (''description'',
     J_Text ''Optional canonical bundles such as azure.networking, azure.inventory, azure.backup, or azure.advisor.'')]),
     (''limit'', J_Obj [(''type'', J_Text ''integer''), (''minimum'', J_Num 1), (''maximum'', J_Num 12)]),
     (''load'', J_Obj [(''type'', J_Text ''boolean''), (''description'',
     J_Text ''Load matches for the next round (default true).'')])]), (''required'',
     J_List [J_Text ''query''])]"

definition LOAD_TOOL_BUNDLE_SCHEMA :: json where
  "LOAD_TOOL_BUNDLE_SCHEMA =
     J_Obj [(''type'', J_Text ''object''), (''properties'', J_Obj [(''bundles'', J_Obj [(''type'',
     J_Text ''array''), (''items'', J_Obj [(''type'', J_Text ''string'')]), (''description'',
     J_Text ''Canonical dotted bundles; common hyphenated and short aliases are normalized.'')]), (''query'',
     J_Obj [(''type'', J_Text ''string''), (''description'', J_Text ''Optional ranking hint.'')])]),
     (''required'', J_List [J_Text ''bundles''])]"

definition LOAD_SKILL_SCHEMA :: json where
  "LOAD_SKILL_SCHEMA =
     J_Obj [(''type'', J_Text ''object''), (''properties'', J_Obj [(''skill_id'', J_Obj [(''type'',
     J_Text ''string'')])]), (''required'', J_List [J_Text ''skill_id''])]"

definition READ_TOOL_ARTIFACT_SCHEMA :: json where
  "READ_TOOL_ARTIFACT_SCHEMA =
     J_Obj [(''type'', J_Text ''object''), (''properties'', J_Obj [(''artifact_id'', J_Obj [(''type'',
     J_Text ''string'')]), (''offset'', J_Obj [(''type'', J_Text ''integer''), (''minimum'', J_Num 0)]),
     (''limit'', J_Obj [(''type'', J_Text ''integer''), (''minimum'', J_Num 500), (''maximum'',
     J_Num 20000)])]), (''required'', J_List [J_Text ''artifact_id''])]"

definition core_spec :: "string \<Rightarrow> string \<Rightarrow> json \<Rightarrow> tool_spec" where
  "core_spec name description parameters =
     \<lparr>sp_name = name, sp_description = description, sp_parameters = parameters, sp_kind = ''read'',
      sp_source = ''internal'', sp_domain = ''routing'', sp_bundles = [''internal''], sp_keywords = [], sp_always = True,
      sp_priority = 100, sp_defer = False\<rparr>"

definition internal_tool_specs :: "tool_spec list" where
  "internal_tool_specs =
     [core_spec ''search_tools''
        (''Search the permitted tool catalog when the tools currently visible are not enough. Returns compact matches and loads the best matches for the next model round. Use a specific capability query, not the user'' @ [CHR 0x27] @ ''s entire conversation.'')
        SEARCH_TOOLS_SCHEMA,
      core_spec ''load_tool_bundle''
        ''Load one or more permitted Azure, Entra, connector, or diagnostic bundles into the next model round after catalog search or skill selection.''
        LOAD_TOOL_BUNDLE_SCHEMA,
      core_spec ''load_skill''
        ''Load the full procedure for a listed support skill and activate its permitted tool bundles. Skills are guidance only and never grant authorization.''
        LOAD_SKILL_SCHEMA,
      core_spec ''read_tool_artifact''
        ''Read the next bounded page of a large tool result using the artifact id and offset returned by that tool.''
        READ_TOOL_ARTIFACT_SCHEMA]"

record skill =
  sk_id :: string
  sk_name :: string
  sk_description :: string
  sk_bundles :: "string list"
  sk_instructions :: string
  sk_path :: string

definition skill_summary :: "skill \<Rightarrow> json" where
  "skill_summary k =
     J_Obj [(''id'', J_Text (sk_id k)), (''name'', J_Text (sk_name k)), (''description'', J_Text (sk_description k)),
            (''bundles'', texts (sk_bundles k)), (''path'', J_Text (sk_path k))]"

definition get_skill :: "skill list \<Rightarrow> string \<Rightarrow> skill option" where
  "get_skill skills skill_id =
     (let wanted = py_lower (py_strip skill_id) in find (\<lambda>k. py_lower (sk_id k) = wanted) skills)"

section \<open>The surface stays within its budget\<close>

definition surface_ok :: "surface \<Rightarrow> bool" where
  "surface_ok s \<longleftrightarrow>
     distinct (sf_active s) \<and> set (sf_active s) \<subseteq> set (cat_names (sf_catalog s)) \<and> int (length (sf_active s)) \<le> sf_max s"

definition same_frame :: "surface \<Rightarrow> surface \<Rightarrow> bool" where
  "same_frame s s' \<longleftrightarrow>
     sf_catalog s' = sf_catalog s \<and> sf_max s' = sf_max s \<and> sf_initial s' = sf_initial s \<and> sf_page s' = sf_page s"

lemma same_frame_refl [simp]: "same_frame s s"
  by (simp add: same_frame_def)

lemma same_frame_trans: "same_frame a b \<Longrightarrow> same_frame b c \<Longrightarrow> same_frame a c"
  by (simp add: same_frame_def)

text \<open>Every operation of the surface is a sequence of additions and removals of names; one step predicate
  covers them.\<close>

definition surface_keeps :: "surface \<Rightarrow> surface \<Rightarrow> bool" where
  "surface_keeps s s' \<longleftrightarrow> same_frame s s' \<and> (surface_ok s \<longrightarrow> surface_ok s')"

lemma surface_keeps_refl [simp]: "surface_keeps s s"
  by (simp add: surface_keeps_def)

lemma surface_keeps_trans: "surface_keeps a b \<Longrightarrow> surface_keeps b c \<Longrightarrow> surface_keeps a c"
  by (auto simp: surface_keeps_def intro: same_frame_trans)

lemma add_loop_keeps:
  assumes "add_loop reason slots names (s, added) = (s', added')" "slots \<le> remaining_slots s"
  shows "surface_keeps s s'"
  using assms
proof (induction reason slots names "(s, added)" arbitrary: s added rule: add_loop.induct)
  case (2 reason slots n ns s added)
  let ?s = "s\<lparr>sf_active := sf_active s @ [n], sf_reasons := AList.update n reason (sf_reasons s)\<rparr>"
  consider "slots \<le> 0" | "slots > 0" "n \<in> set (sf_active s) \<or> cat_get (sf_catalog s) n = None"
    | "slots > 0" "n \<notin> set (sf_active s)" "cat_get (sf_catalog s) n \<noteq> None"
    by linarith
  then show ?case
  proof cases
    case 3
    have "slots - 1 \<le> remaining_slots ?s"
      using 2(4) 3(1) by (simp add: remaining_slots_def)
    moreover have "add_loop reason (slots - 1) ns (?s, added @ [n]) = (s', added')"
      using 2(3) 3 by simp
    ultimately have "surface_keeps ?s s'"
      using 2(2) 3 by simp
    moreover have "surface_keeps s ?s"
      using 3 2(4) by (auto simp: surface_keeps_def same_frame_def surface_ok_def remaining_slots_def cat_get_None split: if_splits)
    ultimately show ?thesis
      by (rule surface_keeps_trans [rotated])
  qed (use 2 in auto)
qed simp

lemma surface_add_keeps: "surface_keeps s (fst (surface_add names reason limit s))"
proof -
  obtain s' added where "surface_add names reason limit s = (s', added)"
    by fastforce
  then show ?thesis
    by (auto simp: surface_add_def Let_def split: option.splits intro: add_loop_keeps)
qed

lemma load_search_results_keeps: "surface_keeps s (fst (load_search_results ds s))"
  by (simp add: load_search_results_def surface_add_keeps)

lemma load_bundle_keeps: "surface_keeps s (fst (load_bundle bundles query s))"
proof -
  have "surface_keeps s (s\<lparr>sf_loaded := remdups (sf_loaded s @ normalize_bundles bundles)\<rparr>)"
    by (simp add: surface_keeps_def same_frame_def surface_ok_def)
  then show ?thesis
    unfolding load_bundle_def Let_def by (rule surface_keeps_trans) (rule surface_add_keeps)
qed

lemma route_loop_keeps: "surface_keeps s (route_loop fill explicit writes_ok budget ds s)"
proof (induction fill explicit writes_ok budget ds s rule: route_loop.induct)
  case (2 fill explicit writes_ok budget d ds s)
  have "surface_keeps s (route_loop fill explicit writes_ok budget ds (fst (surface_add [rd_name d] (rd_reason d) None s)))"
    if "surface_keeps (fst (surface_add [rd_name d] (rd_reason d) None s))
          (route_loop fill explicit writes_ok budget ds (fst (surface_add [rd_name d] (rd_reason d) None s)))"
    by (rule surface_keeps_trans [OF surface_add_keeps that])
  with 2 show ?case
    by auto
qed simp

lemma drop_redundant_keeps: "surface_keeps s (drop_redundant explicit n s)"
proof (cases "n \<in> set (sf_active s)")
  case True
  have "length (remove1 n (sf_active s)) \<le> length (sf_active s)"
    by (simp add: length_remove1)
  then show ?thesis
    using set_remove1_subset [of n "sf_active s"]
    by (auto simp: drop_redundant_def surface_keeps_def same_frame_def surface_ok_def)
qed (simp add: drop_redundant_def)

lemma prune_redundant_keeps: "surface_keeps s (prune_redundant query explicit s)"
  by (auto simp: prune_redundant_def Let_def intro!: drop_redundant_keeps intro: surface_keeps_trans drop_redundant_keeps)

lemma surface_ok_keeps: "surface_ok s \<Longrightarrow> surface_keeps s s' \<Longrightarrow> surface_ok s'"
  by (simp add: surface_keeps_def)

lemma route_initial_keeps:
  "\<exists>s0. surface_keeps s0 (route_initial query cat ib mpt page names bundles fill) \<and> sf_active s0 = []
     \<and> sf_catalog s0 = cat \<and> sf_max s0 = max 4 mpt \<and> sf_page s0 = page"
proof -
  let ?s0 = "\<lparr>sf_catalog = cat, sf_initial = max 4 (min ib mpt), sf_max = max (max 4 (min ib mpt)) mpt, sf_page = page,
                sf_active = [], sf_reasons = [], sf_loaded = []\<rparr>"
  have loaded: "surface_keeps s (s\<lparr>sf_loaded := bs\<rparr>)" for s bs
    by (simp add: surface_keeps_def same_frame_def surface_ok_def)
  have "surface_keeps ?s0 (route_initial query cat ib mpt page names bundles fill)"
    unfolding route_initial_def Let_def
    by (auto intro!: surface_keeps_trans [OF _ loaded] surface_keeps_trans [OF _ prune_redundant_keeps]
          surface_keeps_trans [OF _ route_loop_keeps] surface_keeps_trans [OF _ surface_add_keeps])
  then show ?thesis
    by (intro exI [of _ ?s0]) auto
qed

text \<open>The initial selection never exceeds the ceiling of the turn, names only tools of the catalog and names
  none twice.\<close>

lemma route_initial_ok: "surface_ok (route_initial query cat ib mpt page names bundles fill)"
  using route_initial_keeps [of query cat ib mpt page names bundles fill]
  by (auto simp: surface_keeps_def surface_ok_def)

lemma route_initial_frame [simp]:
  "sf_catalog (route_initial query cat ib mpt page names bundles fill) = cat"
  "sf_max (route_initial query cat ib mpt page names bundles fill) = max 4 mpt"
  using route_initial_keeps [of query cat ib mpt page names bundles fill]
  by (auto simp: surface_keeps_def same_frame_def)

lemma add_loop_active:
  "set (sf_active (fst (add_loop reason slots names acc))) \<subseteq> set (sf_active (fst acc)) \<union> set names"
  by (induction reason slots names acc rule: add_loop.induct) (simp_all, blast)

lemma surface_add_active: "set (sf_active (fst (surface_add names reason limit s))) \<subseteq> set (sf_active s) \<union> set names"
  using add_loop_active [of reason _ names "(s, [])"] by (simp add: surface_add_def Let_def)

lemma surface_add_catalog [simp]: "sf_catalog (fst (surface_add names reason limit s)) = sf_catalog s"
  using surface_add_keeps [of s names reason limit] by (simp add: surface_keeps_def same_frame_def)

definition allowed_name :: "string list \<Rightarrow> bool \<Rightarrow> catalog \<Rightarrow> string \<Rightarrow> bool" where
  "allowed_name explicit writes_ok cat n \<longleftrightarrow>
     n \<in> set explicit \<or> (case cat_get cat n of None \<Rightarrow> True | Some e \<Rightarrow> sp_always (te_spec e) \<or> \<not> withheld writes_ok e)"

lemma route_loop_allowed:
  "\<forall>n\<in>set (sf_active s). allowed_name explicit writes_ok (sf_catalog s) n \<Longrightarrow>
   n \<in> set (sf_active (route_loop fill explicit writes_ok budget ds s)) \<Longrightarrow>
   allowed_name explicit writes_ok (sf_catalog s) n"
proof (induction fill explicit writes_ok budget ds s rule: route_loop.induct)
  case (2 fill explicit writes_ok budget d ds s)
  let ?e = "case cat_get (sf_catalog s) (rd_name d) of None \<Rightarrow> False
               | Some e \<Rightarrow> te_name e \<notin> set explicit \<and> withheld writes_ok e"
  show ?case
  proof (cases "int (length (sf_active s)) \<ge> budget \<or> rd_score d < 6 \<and> \<not> fill \<or> ?e")
    case True
    with 2 show ?thesis
      by (auto split: if_splits)
  next
    case False
    let ?s = "fst (surface_add [rd_name d] (rd_reason d) None s)"
    have "allowed_name explicit writes_ok (sf_catalog s) (rd_name d)"
      using False by (auto simp: allowed_name_def dest: cat_get_Some split: option.splits)
    then have "\<forall>m\<in>set (sf_active ?s). allowed_name explicit writes_ok (sf_catalog ?s) m"
      using 2(4) surface_add_active [of "[rd_name d]" "rd_reason d" None s] by auto
    moreover from False have c: "\<not> (budget \<le> int (length (sf_active s)))" "\<not> (rd_score d < 6 \<and> \<not> fill)" "\<not> ?e"
      by blast+
    then have "n \<in> set (sf_active (route_loop fill explicit writes_ok budget ds ?s))"
      using 2(5) by (simp only: route_loop.simps if_False)
    ultimately show ?thesis
      using 2(3) [OF c] by simp
  qed
qed simp

lemma drop_redundant_active: "set (sf_active (drop_redundant explicit n s)) \<subseteq> set (sf_active s)"
  using set_remove1_subset [of n "sf_active s"] by (simp add: drop_redundant_def)

lemma prune_redundant_active: "set (sf_active (prune_redundant query explicit s)) \<subseteq> set (sf_active s)"
  by (auto simp: prune_redundant_def Let_def dest!: subsetD [OF drop_redundant_active] split: if_splits)

text \<open>A mutating tool of another source than the Azure server is offered at the start only when it is core,
  selected by name, or the request or the chosen bundles ask for writes.\<close>

lemma route_initial_allowed:
  assumes "distinct (cat_names cat)"
    "n \<in> set (sf_active (route_initial query cat ib mpt page names bundles fill))"
  shows "allowed_name names (allows_writes query bundles) cat n"
proof -
  define explicit where "explicit = remdups (filter (\<lambda>n. n \<noteq> []) names)"
  define preferred where "preferred = remdups (filter (\<lambda>n. n \<noteq> []) bundles)"
  define s0 where "s0 = \<lparr>sf_catalog = cat, sf_initial = max 4 (min ib mpt), sf_max = max (max 4 (min ib mpt)) mpt,
     sf_page = page, sf_active = [], sf_reasons = [], sf_loaded = []\<rparr>"
  define always where "always = sort (map te_name (filter (\<lambda>e. sp_always (te_spec e)) cat))"
  define s1 where "s1 = fst (surface_add always ''core routing capability'' None s0)"
  define s2 where "s2 = fst (surface_add (sort explicit) ''explicit agent selection'' None s1)"
  define wo where "wo = allows_writes query preferred"
  have wo: "wo \<longrightarrow> allows_writes query bundles"
    by (auto simp: wo_def preferred_def allows_writes_def list_ex_iff)
  have cat: "sf_catalog s2 = cat"
    by (simp add: s2_def s1_def s0_def)
  have core: "allowed_name explicit wo cat m" if "m \<in> set always" for m
    using that assms(1) cat_get_Some [of cat m]
    by (auto simp: always_def allowed_name_def cat_names_def distinct_map inj_on_def split: option.splits)
  have "\<forall>m\<in>set (sf_active s2). allowed_name explicit wo cat m"
    using core surface_add_active [of always "''core routing capability''" None s0]
      surface_add_active [of "sort explicit" "''explicit agent selection''" None s1]
    by (auto simp: s2_def s1_def s0_def allowed_name_def)
  then have "allowed_name explicit wo cat n"
    using assms(2) route_loop_allowed [of "s2\<lparr>sf_loaded := preferred\<rparr>" explicit wo n fill "max 4 (min ib mpt)"
        "rank_entries query cat preferred"] cat
      prune_redundant_active [of query explicit "route_loop fill explicit wo (max 4 (min ib mpt)) (rank_entries query cat preferred) (s2\<lparr>sf_loaded := preferred\<rparr>)"]
    by (auto simp: route_initial_def Let_def s0_def s1_def s2_def always_def explicit_def preferred_def wo_def split: if_splits)
  then show ?thesis
    using wo by (auto simp: allowed_name_def explicit_def withheld_def split: option.splits)
qed

end
