(* ===== verification/Tool_Artifacts.thy ===== *)
theory Tool_Artifacts
  imports Json_Values "HOL-Library.AList"
begin

text \<open>
  Oversized tool results (\<^verbatim>\<open>app/agent/tool_results.py\<close>): the turn-local store of full results, least recently
  used first, its paged reads, and the compaction of a result before the model sees it. Instants are
  microseconds; an artifact id is an argument of \<open>put\<close>.
\<close>

section \<open>The store\<close>

record artifact_store =
  as_max :: int
  as_ttl :: int
  as_items :: "(string \<times> string \<times> int) list"

definition new_store :: "int \<Rightarrow> int \<Rightarrow> artifact_store" where
  "new_store max_items ttl_seconds = \<lparr>as_max = max 1 max_items, as_ttl = max 60 ttl_seconds, as_items = []\<rparr>"

definition live :: "int \<Rightarrow> artifact_store \<Rightarrow> int \<Rightarrow> bool" where
  "live now st created \<longleftrightarrow> now - as_ttl st * 1000000 \<le> created"

definition prune_items :: "int \<Rightarrow> artifact_store \<Rightarrow> artifact_store" where
  "prune_items now st =
     (let kept = filter (\<lambda>(k, text, created). live now st created) (as_items st)
      in st\<lparr>as_items := drop (nat (int (length kept) - as_max st)) kept\<rparr>)"

definition move_to_end :: "string \<Rightarrow> (string \<times> 'v) list \<Rightarrow> (string \<times> 'v) list" where
  "move_to_end k items = filter (\<lambda>kv. fst kv \<noteq> k) items @ filter (\<lambda>kv. fst kv = k) items"

definition artifact_put :: "int \<Rightarrow> string \<Rightarrow> json \<Rightarrow> artifact_store \<Rightarrow> artifact_store \<times> string" where
  "artifact_put now artifact_id v st =
     (let text = compact_dumps v;
          items = move_to_end artifact_id (AList.update artifact_id (text, now) (as_items st))
      in (prune_items now (st\<lparr>as_items := items\<rparr>), text))"

definition not_found :: doc where
  "not_found =
     [(''isError'', J_Bool True),
      (''content'', J_List [J_Text ''Tool-result artifact was not found or has expired.''])]"

text \<open>The read looks the id up without its surrounding space but moves the id as given to the end, which
  raises for an id with such space: \<open>Inl\<close> is the text of that \<open>KeyError\<close>.\<close>

definition page_limit :: "int \<Rightarrow> nat" where
  "page_limit limit0 = nat (max 500 (min 20000 (if limit0 = 0 then 8000 else limit0)))"

definition page :: "string \<Rightarrow> string \<Rightarrow> int \<Rightarrow> int \<Rightarrow> doc" where
  "page artifact_id text offset0 limit0 =
     (let offset = nat (max 0 offset0);
          chunk = take (page_limit limit0) (drop offset text);
          next_offset = offset + length chunk;
          complete = (next_offset \<ge> length text)
      in [(''isError'', J_Bool False), (''content'', J_List [J_Text chunk]), (''artifact_id'', J_Text artifact_id),
          (''offset'', J_Num (int offset)), (''next_offset'', if complete then J_Null else J_Num (int next_offset)),
          (''complete'', J_Bool complete), (''total_chars'', J_Num (int (length text)))])"

definition artifact_read ::
  "int \<Rightarrow> string \<Rightarrow> int \<Rightarrow> int \<Rightarrow> artifact_store \<Rightarrow> artifact_store \<times> (string, doc) result" where
  "artifact_read now artifact_id offset limit st =
     (let st1 = prune_items now st in
      case map_of (as_items st1) (py_strip artifact_id) of
        None \<Rightarrow> (st1, Inr not_found)
      | Some (text, created) \<Rightarrow>
          if artifact_id \<notin> fst ` set (as_items st1) then (st1, Inl (repr_text artifact_id))
          else (st1\<lparr>as_items := move_to_end artifact_id (as_items st1)\<rparr>, Inr (page artifact_id text offset limit)))"

section \<open>Compaction\<close>

definition preview_size :: "int \<Rightarrow> int" where
  "preview_size cap = max 400 (min (cap div 2) 6000)"

definition artifact_meta :: "string \<Rightarrow> string \<Rightarrow> string \<Rightarrow> json" where
  "artifact_meta artifact_id full_text preview =
     J_Obj [(''artifact_id'', J_Text artifact_id), (''total_chars'', J_Num (int (length full_text))),
            (''preview_chars'', J_Num (int (length preview))), (''next_offset'', J_Num (int (length preview)))]"

definition compacted :: "bool \<Rightarrow> string \<Rightarrow> json \<Rightarrow> doc" where
  "compacted failed preview meta =
     [(''isError'', J_Bool failed), (''content'', J_List [J_Text preview]), (''truncated'', J_Bool True),
      (''artifact'', meta),
      (''message'', J_Text (''This result was compacted. Call read_tool_artifact with artifact_id and ''
         @ ''next_offset to read another bounded page.''))]"

definition prepare_tool_result ::
  "int \<Rightarrow> string \<Rightarrow> doc \<Rightarrow> int \<Rightarrow> artifact_store \<Rightarrow> artifact_store \<times> doc \<times> json option" where
  "prepare_tool_result now fresh result cap0 st =
     (let cap = max 1000 cap0; serialized = compact_dumps (J_Obj result) in
      if int (length serialized) \<le> cap then (st, result, None)
      else
        (let (st1, full_text) = artifact_put now fresh (J_Obj result) st;
             preview = take (nat (preview_size cap)) full_text;
             meta = artifact_meta fresh full_text preview
         in (st1, compacted (truthy (map_of result ''isError'')) preview meta, Some meta)))"

section \<open>The store stays bounded\<close>

definition store_ok :: "artifact_store \<Rightarrow> bool" where
  "store_ok st \<longleftrightarrow>
     1 \<le> as_max st \<and> 0 \<le> as_ttl st \<and> distinct (map fst (as_items st)) \<and> int (length (as_items st)) \<le> as_max st"

lemma new_store_ok: "store_ok (new_store m t)"
  by (auto simp: store_ok_def new_store_def)

lemma prune_items_frame [simp]: "as_max (prune_items now st) = as_max st" "as_ttl (prune_items now st) = as_ttl st"
  by (simp_all add: prune_items_def Let_def)

lemma distinct_keys_drop_filter: "distinct (map fst xs) \<Longrightarrow> distinct (map fst (drop n (filter P xs)))"
  by (simp add: distinct_map_filter distinct_drop flip: drop_map)

lemma prune_items_ok:
  "1 \<le> as_max st \<Longrightarrow> 0 \<le> as_ttl st \<Longrightarrow> distinct (map fst (as_items st)) \<Longrightarrow> store_ok (prune_items now st)"
  by (auto simp: store_ok_def prune_items_def Let_def distinct_keys_drop_filter)

lemma set_move_to_end [simp]: "set (move_to_end k items) = set items"
  by (auto simp: move_to_end_def)

lemma length_move_to_end [simp]: "length (move_to_end k items) = length items"
  using sum_length_filter_compl [of "\<lambda>kv. fst kv \<noteq> k" items] by (simp add: move_to_end_def)

lemma distinct_move_to_end: "distinct (map fst items) \<Longrightarrow> distinct (map fst (move_to_end k items))"
  by (auto simp: move_to_end_def distinct_map_filter)

lemma artifact_put_ok:
  assumes "store_ok st"
  shows "store_ok (fst (artifact_put now i v st))"
proof -
  have "distinct (map fst (move_to_end i (AList.update i (compact_dumps v, now) (as_items st))))"
    using assms by (intro distinct_move_to_end distinct_update) (simp add: store_ok_def)
  with assms show ?thesis
    by (simp add: artifact_put_def Let_def store_ok_def [of st] prune_items_ok)
qed

lemma artifact_read_ok: "store_ok st \<Longrightarrow> store_ok (fst (artifact_read now i offset limit st))"
  using prune_items_ok [of st now]
  by (auto simp: artifact_read_def Let_def store_ok_def distinct_move_to_end split: option.split)

lemma prepare_tool_result_ok: "store_ok st \<Longrightarrow> store_ok (fst (prepare_tool_result now fresh result cap st))"
  using artifact_put_ok [of st now fresh "J_Obj result"]
  by (auto simp: prepare_tool_result_def Let_def split: prod.split)

definition store_keeps :: "artifact_store \<Rightarrow> artifact_store \<Rightarrow> bool" where
  "store_keeps st st' \<longleftrightarrow> as_max st' = as_max st \<and> (store_ok st \<longrightarrow> store_ok st')"

lemma store_keeps_refl [simp]: "store_keeps st st"
  by (simp add: store_keeps_def)

lemma artifact_read_keeps: "store_keeps st (fst (artifact_read now i offset limit st))"
  using artifact_read_ok [of st now i offset limit]
  by (auto simp: store_keeps_def artifact_read_def Let_def split: option.split)

lemma prepare_tool_result_keeps: "store_keeps st (fst (prepare_tool_result now fresh result cap st))"
  using prepare_tool_result_ok [of st now fresh result cap]
  by (auto simp: store_keeps_def prepare_tool_result_def artifact_put_def Let_def)

section \<open>Pages give the whole result back\<close>

lemma prune_items_live:
  assumes "store_ok st" "(k, text, created) \<in> set (as_items st)" "live now st created"
  shows "(k, text, created) \<in> set (as_items (prune_items now st))"
proof -
  let ?kept = "filter (\<lambda>(k, text, created). live now st created) (as_items st)"
  have "length ?kept \<le> length (as_items st)"
    by (rule length_filter_le)
  then have "int (length ?kept) - as_max st \<le> 0"
    using assms(1) unfolding store_ok_def by linarith
  then show ?thesis
    using assms(2,3) by (simp add: prune_items_def Let_def)
qed

lemma filter_unique_key: "distinct (map fst xs) \<Longrightarrow> (k, v) \<in> set xs \<Longrightarrow> filter (\<lambda>kv. fst kv = k) xs = [(k, v)]"
  by (induction xs) (force simp: filter_empty_conv)+

lemma artifact_put_stores:
  assumes "store_ok st"
  shows "(k, compact_dumps v, now) \<in> set (as_items (fst (artifact_put now k v st)))"
proof -
  let ?items = "AList.update k (compact_dumps v, now) (as_items st)"
  let ?front = "filter (\<lambda>(k, text, created). live now st created) (filter (\<lambda>kv. fst kv \<noteq> k) ?items)"
  have "distinct (map fst ?items)"
    using assms by (simp add: store_ok_def distinct_update)
  moreover have "(k, compact_dumps v, now) \<in> set ?items"
    by (rule map_of_SomeD) (simp add: update_conv)
  ultimately have items: "move_to_end k ?items = filter (\<lambda>kv. fst kv \<noteq> k) ?items @ [(k, compact_dumps v, now)]"
    by (simp add: move_to_end_def filter_unique_key)
  have "live now st now"
    using assms by (simp add: live_def store_ok_def)
  moreover have "nat (int (length ?front + 1) - as_max st) \<le> length ?front"
    using assms unfolding store_ok_def by linarith
  ultimately show ?thesis
    by (simp add: artifact_put_def prune_items_def items live_def Let_def)
qed

lemma artifact_read_hit:
  assumes "store_ok st" "(k, text, created) \<in> set (as_items st)" "live now st created" "py_strip k = k"
  obtains st' where "artifact_read now k offset limit st = (st', Inr (page k text offset limit))"
    "store_ok st'" "(k, text, created) \<in> set (as_items st')" "as_ttl st' = as_ttl st"
proof -
  let ?p = "prune_items now st"
  have ok: "store_ok ?p"
    using assms(1) by (simp add: store_ok_def [of st] prune_items_ok)
  have mem: "(k, text, created) \<in> set (as_items ?p)"
    by (rule prune_items_live [OF assms(1-3)])
  with ok have "map_of (as_items ?p) k = Some (text, created)"
    by (simp add: store_ok_def)
  then have "artifact_read now k offset limit st = (?p\<lparr>as_items := move_to_end k (as_items ?p)\<rparr>, Inr (page k text offset limit))"
    using mem assms(4) by (force simp: artifact_read_def Let_def)
  then show thesis
  proof (rule that)
    show "store_ok (?p\<lparr>as_items := move_to_end k (as_items ?p)\<rparr>)"
      using ok by (simp add: store_ok_def distinct_move_to_end)
  qed (use mem in simp_all)
qed

text \<open>A reader that follows \<open>next_offset\<close> until a page is marked complete, one read at each of the given
  instants.\<close>

fun read_pages :: "int list \<Rightarrow> string \<Rightarrow> int \<Rightarrow> int \<Rightarrow> artifact_store \<Rightarrow> string option" where
  "read_pages [] i limit offset st = None"
| "read_pages (now # later) i limit offset st =
     (case artifact_read now i offset limit st of
        (st', Inr d) \<Rightarrow>
          (case (map_of d ''content'', map_of d ''complete'', map_of d ''next_offset'') of
             (Some (J_List [J_Text chunk]), Some (J_Bool True), _) \<Rightarrow> Some chunk
           | (Some (J_List [J_Text chunk]), Some (J_Bool False), Some (J_Num n)) \<Rightarrow>
               map_option (\<lambda>rest. chunk @ rest) (read_pages later i limit n st')
           | _ \<Rightarrow> None)
      | (st', Inl e) \<Rightarrow> None)"

lemma page_limit_ge: "500 \<le> page_limit l"
  by (simp add: page_limit_def)

lemma page_last:
  assumes "length text - offset \<le> page_limit limit"
  shows "map_of (page k text (int offset) limit) ''content'' = Some (J_List [J_Text (drop offset text)])"
    "map_of (page k text (int offset) limit) ''complete'' = Some (J_Bool True)"
  using assms by (simp_all add: page_def Let_def)

lemma page_inner:
  assumes "page_limit limit < length text - offset"
  shows "map_of (page k text (int offset) limit) ''content'' = Some (J_List [J_Text (take (page_limit limit) (drop offset text))])"
    "map_of (page k text (int offset) limit) ''complete'' = Some (J_Bool False)"
    "map_of (page k text (int offset) limit) ''next_offset'' = Some (J_Num (int (offset + page_limit limit)))"
  using assms by (simp_all add: page_def Let_def)

lemma read_pages_suffix:
  assumes "store_ok st" "(k, text, created) \<in> set (as_items st)" "py_strip k = k"
    "\<forall>now\<in>set nows. live now st created" "length text - offset < 500 * length nows"
  shows "read_pages nows k limit (int offset) st = Some (drop offset text)"
  using assms
proof (induction nows arbitrary: st offset)
  case (Cons now nows)
  have "live now st created"
    using Cons.prems(4) by simp
  then obtain st' where read: "artifact_read now k (int offset) limit st = (st', Inr (page k text (int offset) limit))"
    and st': "store_ok st'" "(k, text, created) \<in> set (as_items st')" "as_ttl st' = as_ttl st"
    by (rule artifact_read_hit [OF Cons.prems(1,2) _ Cons.prems(3)])
  show ?case
  proof (cases "length text - offset \<le> page_limit limit")
    case True
    then show ?thesis
      by (simp add: read page_last)
  next
    case False
    then have inner: "page_limit limit < length text - offset"
      by simp
    then have "length text - (offset + page_limit limit) < 500 * length nows"
      using Cons.prems(5) page_limit_ge [of limit] by simp
    moreover have "\<forall>now\<in>set nows. live now st' created"
      using Cons.prems(4) st'(3) by (simp add: live_def)
    ultimately have "read_pages nows k limit (int (offset + page_limit limit)) st' = Some (drop (offset + page_limit limit) text)"
      using Cons.IH [OF st'(1,2) Cons.prems(3)] by blast
    moreover have "take (page_limit limit) (drop offset text) @ drop (offset + page_limit limit) text = drop offset text"
      by (metis append_take_drop_id drop_drop add.commute)
    ultimately show ?thesis
      by (simp add: read page_inner [OF inner])
  qed
qed simp

text \<open>C29. Whatever result is put into the store, following the pages it announces gives back exactly the
  JSON text of the result, for every page size, as long as the reads come within the life time: nothing of an
  oversized result is lost to the model.\<close>

theorem paged_result_roundtrip:
  assumes "store_ok st" "artifact_put t0 k v st = (st', text)" "py_strip k = k"
    "\<forall>t\<in>set nows. t \<le> t0 + as_ttl st * 1000000" "length text < 500 * length nows"
  shows "read_pages nows k limit 0 st' = Some (compact_dumps v)"
proof -
  have full: "text = compact_dumps v" and st': "st' = fst (artifact_put t0 k v st)"
    using assms(2) by (auto simp: artifact_put_def Let_def)
  have "store_ok st'"
    unfolding st' by (rule artifact_put_ok [OF assms(1)])
  moreover have "(k, text, t0) \<in> set (as_items st')"
    unfolding st' full by (rule artifact_put_stores [OF assms(1)])
  moreover have "\<forall>t\<in>set nows. live t st' t0"
    using assms(4) by (auto simp: st' artifact_put_def live_def Let_def)
  ultimately have "read_pages nows k limit (int 0) st' = Some (drop 0 text)"
    by (rule read_pages_suffix [OF _ _ assms(3)]) (use assms(5) in simp)
  then show ?thesis
    by (simp add: full)
qed

theorem paged_result_roundtrip_witness:
  "read_pages [5, 6] ''a1'' 500 0 (fst (artifact_put 1 ''a1'' (J_Text (replicate 600 CHR ''x'')) (new_store 32 3600)))
     = Some (compact_dumps (J_Text (replicate 600 CHR ''x'')))"
proof -
  have strip: "py_strip ''a1'' = ''a1''"
    by code_simp
  have len: "length (snd (artifact_put 1 ''a1'' (J_Text (replicate 600 CHR ''x'')) (new_store 32 3600))) < 500 * length [5, 6 :: int]"
    by code_simp
  show ?thesis
    by (rule paged_result_roundtrip [OF new_store_ok prod.collapse [symmetric] strip _ len]) (simp add: new_store_def)
qed

text \<open>An id with surrounding space is found, yet reading it raises.\<close>

lemma spaced_id_raises:
  "snd (artifact_read 2 '' a1'' 0 0 (fst (artifact_put 1 ''a1'' (J_Num 7) (new_store 32 3600)))) = Inl (repr_text '' a1'')"
  by code_simp

section \<open>The compacted result is small\<close>

lemma digits_length: "0 \<le> n \<Longrightarrow> n < 10 ^ d \<Longrightarrow> 0 < d \<Longrightarrow> length (digits_of_int n) \<le> d"
proof (induction d arbitrary: n)
  case (Suc d)
  show ?case
  proof (cases "n < 10")
    case True
    then show ?thesis
      by (subst digits_of_int.simps) simp
  next
    case False
    then have "0 < d"
      using Suc.prems(2) by (cases d) auto
    moreover have "n div 10 < 10 ^ d"
      using Suc.prems(2) by simp
    ultimately have "length (digits_of_int (n div 10)) \<le> d"
      using Suc.IH [of "n div 10"] Suc.prems(1) by simp
    with False show ?thesis
      by (subst digits_of_int.simps) simp
  qed
qed simp

lemma int_text_length: "n < 10 ^ d \<Longrightarrow> 0 < d \<Longrightarrow> length (int_text (int n)) \<le> d"
proof -
  assume "n < 10 ^ d" "0 < d"
  then have "int n < 10 ^ d"
    by (metis of_nat_less_iff of_nat_numeral of_nat_power)
  with \<open>0 < d\<close> show ?thesis
    by (simp add: int_text_def digits_length)
qed

lemma json_text_plain: "list_all lower_alnum i \<Longrightarrow> length (json_text i) = length i + 2"
proof -
  have "json_char c = [c]" if "lower_alnum c" for c
  proof -
    have "c \<notin> set [CHR 0x22, CHR 0x5C, CHR 0x0A, CHR 0x0D, CHR 0x09, CHR 0x0C, CHR 0x08]" "\<not> char_code c < 32"
      using that by (auto simp: lower_alnum_def is_digit_def char_code_def)
    then show ?thesis
      by (simp add: json_char_def)
  qed
  then show "list_all lower_alnum i \<Longrightarrow> length (json_text i) = length i + 2"
    by (induction i) (auto simp: json_text_def)
qed

lemma list_all_take: "list_all P xs \<Longrightarrow> list_all P (take n xs)"
  by (auto simp: list_all_iff dest: in_set_takeD)

lemma compacted_length:
  assumes "list_all printable preview" "list_all lower_alnum i" "length i \<le> 32"
    "length full < 10 ^ 15" "length preview \<le> length full"
  shows "length (compact_dumps (J_Obj (compacted failed preview (artifact_meta i full preview)))) \<le> 2 * length preview + 420"
proof -
  have keys: "length (json_text ''isError'') = 9" "length (json_text ''content'') = 9" "length (json_text ''truncated'') = 11"
    "length (json_text ''artifact'') = 10" "length (json_text ''message'') = 9" "length (json_text ''artifact_id'') = 13"
    "length (json_text ''total_chars'') = 13" "length (json_text ''preview_chars'') = 15" "length (json_text ''next_offset'') = 13"
    by code_simp+
  have message: "length (json_text (''This result was compacted. Call read_tool_artifact with artifact_id and ''
         @ ''next_offset to read another bounded page.'')) \<le> 125"
    by code_simp
  have "length (int_text (int (length full))) \<le> 15" "length (int_text (int (length preview))) \<le> 15"
    using assms(4,5) by (auto intro!: int_text_length)
  moreover have "length (json_text preview) \<le> 2 * length preview + 2" "length (json_text i) \<le> 34"
    using assms(1-3) json_text_length [of preview] by (simp_all add: json_text_plain)
  ultimately show ?thesis
    using message by (simp add: compacted_def artifact_meta_def keys)
qed

lemma prepare_compacts:
  assumes "max 1000 cap < int (length (compact_dumps (J_Obj result)))"
  shows "fst (snd (prepare_tool_result now i result cap st)) =
    (let full = compact_dumps (J_Obj result); preview = take (nat (preview_size (max 1000 cap))) full
     in compacted (truthy (map_of result ''isError'')) preview (artifact_meta i full preview))"
proof -
  have "\<not> int (length (compact_dumps (J_Obj result))) \<le> max 1000 cap"
    using assms by linarith
  then show ?thesis
    by (simp add: prepare_tool_result_def artifact_put_def Let_def del: dumps.simps max.bounded_iff le_max_iff_disj)
qed

text \<open>Lemma. What the model is given of a result stays within the configured limit plus a constant, whichever
  branch is taken, and compaction stores the full result.\<close>

lemma prepared_result_bounded:
  assumes "prepare_tool_result now i result cap st = (st', r, meta)" "list_all lower_alnum i" "length i \<le> 32"
    "length (compact_dumps (J_Obj result)) < 10 ^ 15"
  shows "int (length (compact_dumps (J_Obj r))) \<le> max 1000 cap + 420"
proof (cases "int (length (compact_dumps (J_Obj result))) \<le> max 1000 cap")
  case True
  then have "r = result"
    using assms(1) by (simp add: prepare_tool_result_def Let_def)
  with True show ?thesis
    by simp
next
  case False
  let ?full = "compact_dumps (J_Obj result)"
  let ?preview = "take (nat (preview_size (max 1000 cap))) ?full"
  have over: "max 1000 cap < int (length ?full)"
    using False by linarith
  have r: "r = compacted (truthy (map_of result ''isError'')) ?preview (artifact_meta i ?full ?preview)"
    using prepare_compacts [OF over, of now i st] assms(1) by (simp add: Let_def del: dumps.simps)
  have "list_all printable ?full"
    by (rule dumps_printable) (simp_all add: printable_def char_code_def)
  then have "list_all printable ?preview"
    by (rule list_all_take)
  then have "length (compact_dumps (J_Obj r)) \<le> 2 * length ?preview + 420"
    unfolding r by (rule compacted_length) (use assms in simp_all)
  moreover have "2 * int (length ?preview) \<le> max 1000 cap"
  proof -
    have "int (length ?preview) \<le> preview_size (max 1000 cap)"
      by (auto simp: preview_size_def)
    then show ?thesis
      by (auto simp: preview_size_def min_def max_def split: if_splits)
  qed
  ultimately show ?thesis
    by linarith
qed

text \<open>A result of 1100 quotation marks: its text doubles them, its preview of 500 characters doubles again.\<close>

definition long_result :: doc where
  "long_result = [(''content'', J_List [J_Text (replicate 1100 CHR 0x22)])]"

definition doubled :: "char \<Rightarrow> bool" where
  "doubled c \<longleftrightarrow> c = CHR 0x22 \<or> c = CHR 0x5C"

lemma length_doubled: "list_all doubled s \<Longrightarrow> length (concat (map json_char s)) = 2 * length s"
  by (induction s) (auto simp: doubled_def json_char_def)

lemma long_result_text:
  obtains q where "compact_dumps (J_Obj long_result) = CHR 0x7B # json_text ''content'' @ '':['' @ [CHR 0x22] @ q @ [CHR 0x22] @ '']}''"
    "list_all doubled q" "length q = 2200"
proof
  let ?q = "concat (map json_char (replicate 1100 CHR 0x22))"
  show "compact_dumps (J_Obj long_result) = CHR 0x7B # json_text ''content'' @ '':['' @ [CHR 0x22] @ ?q @ [CHR 0x22] @ '']}''"
    by (simp add: long_result_def json_text_def [of "replicate _ _"])
  show "list_all doubled ?q"
    by (simp add: list_all_iff doubled_def json_char_def)
  show "length ?q = 2200"
    by (subst length_doubled) (simp_all add: list_all_iff doubled_def)
qed

lemma json_text_content: "json_text ''content'' = CHR 0x22 # ''content'' @ [CHR 0x22]"
  by code_simp

lemma no_error_field: "map_of long_result ''isError'' = None"
  by (simp add: long_result_def)

lemma long_result_length: "length (compact_dumps (J_Obj long_result)) = 2216"
proof -
  obtain q where q: "compact_dumps (J_Obj long_result) = CHR 0x7B # json_text ''content'' @ '':['' @ [CHR 0x22] @ q @ [CHR 0x22] @ '']}''"
    "length q = 2200"
    using long_result_text by metis
  show ?thesis
    by (subst q(1)) (simp add: q(2) json_text_content)
qed

lemma prepared_result_bounded_witness:
  "int (length (compact_dumps (J_Obj (fst (snd (prepare_tool_result 0 ''a1'' long_result 1000 (new_store 32 3600))))))) \<le> 1420"
proof -
  obtain st' r meta where p: "prepare_tool_result 0 ''a1'' long_result 1000 (new_store 32 3600) = (st', r, meta)"
    using prod_cases3 by blast
  have "list_all lower_alnum ''a1''" "length ''a1'' \<le> 32"
    by code_simp+
  moreover have "length (compact_dumps (J_Obj long_result)) < 10 ^ 15"
    by (subst long_result_length) simp
  ultimately show ?thesis
    using prepared_result_bounded [OF p] by (simp only: p fst_conv snd_conv) simp
qed

text \<open>The limit itself is not kept: quoting the preview a second time exceeds it.\<close>

lemma prepared_result_over_cap:
  "int (length (compact_dumps (J_Obj (fst (snd (prepare_tool_result 0 ''a1'' long_result 1000 (new_store 32 3600))))))) > 1000"
proof -
  obtain q where q: "compact_dumps (J_Obj long_result) = CHR 0x7B # json_text ''content'' @ '':['' @ [CHR 0x22] @ q @ [CHR 0x22] @ '']}''"
    "list_all doubled q" "length q = 2200"
    using long_result_text by metis
  let ?full = "compact_dumps (J_Obj long_result)"
  let ?preview = "take 500 ?full"
  have preview: "?preview = (CHR 0x7B # json_text ''content'' @ '':['' @ [CHR 0x22]) @ take 487 q"
    by (subst q(1)) (simp add: json_text_content q(3))
  have "length (concat (map json_char (take 487 q))) = 974"
    using length_doubled [OF list_all_take [OF q(2)]] by (simp add: q(3))
  then have "974 \<le> length (json_text ?preview)"
    unfolding preview by (simp add: json_text_def)
  moreover have "100 \<le> length (json_text (''This result was compacted. Call read_tool_artifact with artifact_id and ''
         @ ''next_offset to read another bounded page.''))"
    by code_simp
  moreover have "fst (snd (prepare_tool_result 0 ''a1'' long_result 1000 (new_store 32 3600)))
      = compacted False ?preview (artifact_meta ''a1'' ?full ?preview)"
    by (subst prepare_compacts) (simp_all add: long_result_length no_error_field preview_size_def truthy_def Let_def del: dumps.simps)
  ultimately show ?thesis
    by (simp add: compacted_def)
qed

end
