(* ===== verification/Tool_Gate.thy ===== *)
theory Tool_Gate
  imports Tool_Router Tool_Artifacts
begin

text \<open>
  One assistant turn (\<^verbatim>\<open>app/agent/orchestrator.py\<close>): the tools it loads, the verdict on every requested call,
  the execution of the calls that need no approval, and the loop between the model and the tools. The model,
  the tool servers, the connectors, the clock and the text conventions of \<^verbatim>\<open>tool_protocol.py\<close> are functions of an
  environment over an opaque world. Calls of one round run concurrently: the environment chooses the order in
  which they take effect. The reports of a round follow its runs; the code reports a call as soon as it and the
  calls before it are done, which can differ only in what a \<open>read_tool_artifact\<close> queued behind six slower calls
  sees. Wording of progress notices, summaries and durations are left out; dashes are ASCII.
\<close>

section \<open>Messages, events and the environment\<close>

record call_request =
  cr_id :: string
  cr_name :: string
  cr_args :: doc

datatype message =
    Message string string
  | Given doc
  | Requests "string option" "call_request list"
  | Answer string string

datatype stream_event = S_Token string | S_Status string string | S_Calls "call_request list" | S_Done int int

datatype agent_event =
    Ev_Token string
  | Ev_Status string string
  | Ev_Phase string
  | Ev_Routing doc
  | Ev_Start call_request bool
  | Ev_Approval call_request
  | Ev_Result call_request doc bool bool json
  | Ev_Done string int int "string option" doc

datatype backend = To_Connector | To_Entra | To_Azure

record 'w env =
  en_clock :: "'w \<Rightarrow> int"
  en_uuid :: "'w \<Rightarrow> string \<times> 'w"
  en_model :: "'w \<Rightarrow> message list \<Rightarrow> tool_spec list option \<Rightarrow> (stream_event list \<times> string option) \<times> 'w"
  en_backend :: "backend \<Rightarrow> 'w \<Rightarrow> string \<Rightarrow> doc \<Rightarrow> (string, doc) result \<times> 'w"
  en_order :: "'w \<Rightarrow> nat list \<Rightarrow> nat list"
  en_xml_calls :: "string \<Rightarrow> call_request list"
  en_xml_marker :: "string \<Rightarrow> int"
  en_json_calls :: "string \<Rightarrow> call_request list"
  en_strip :: "string \<Rightarrow> string"
  en_compact :: "doc \<Rightarrow> doc"
  en_sanitize :: "string \<Rightarrow> string"

record connector_tool =
  ct_name :: string
  ct_description :: string
  ct_parameters :: json
  ct_kind :: string
  ct_type :: string

record gate =
  ga_catalog :: catalog
  ga_index :: "discovered_tool list"
  ga_connectors :: "connector_tool list"
  ga_entra :: "string list"
  ga_policy :: string
  ga_result_cap :: int
  ga_discovery_cap :: int
  ga_native :: bool
  ga_latest :: string
  ga_skills :: "skill list"

text \<open>\<open>tn_sent\<close> and \<open>tn_offered\<close> record, for the theorems, the calls handed to a backend and the number of
  tool definitions of each model request.\<close>

record 'w turn =
  tn_world :: 'w
  tn_surface :: surface
  tn_store :: artifact_store
  tn_messages :: "message list"
  tn_events :: "agent_event list"
  tn_prompt :: int
  tn_completion :: int
  tn_sent :: "(backend \<times> call_request) list"
  tn_offered :: "nat list"

definition emit :: "agent_event list \<Rightarrow> 'w turn \<Rightarrow> 'w turn" where
  "emit es t = t\<lparr>tn_events := tn_events t @ es\<rparr>"

definition say :: "message list \<Rightarrow> 'w turn \<Rightarrow> 'w turn" where
  "say ms t = t\<lparr>tn_messages := tn_messages t @ ms\<rparr>"

section \<open>The verdict on a call\<close>

definition connector_has :: "gate \<Rightarrow> string \<Rightarrow> bool" where
  "connector_has g name = list_ex (\<lambda>c. ct_name c = name) (ga_connectors g)"

definition connector_kind :: "gate \<Rightarrow> string \<Rightarrow> string" where
  "connector_kind g name =
     (case find (\<lambda>c. ct_name c = name) (ga_connectors g) of None \<Rightarrow> ''write'' | Some c \<Rightarrow> ct_kind c)"

definition indexed_tool :: "gate \<Rightarrow> string \<Rightarrow> discovered_tool option" where
  "indexed_tool g name = find (\<lambda>t. dt_name t = name) (rev (ga_index g))"

definition call_kind :: "gate \<Rightarrow> call_request \<Rightarrow> string" where
  "call_kind g c =
     (if (case cat_get (ga_catalog g) (cr_name c) of None \<Rightarrow> False | Some e \<Rightarrow> te_source e = ''internal'') then ''read''
      else if connector_has g (cr_name c) then connector_kind g (cr_name c)
      else if (case indexed_tool g (cr_name c) of None \<Rightarrow> False | Some t \<Rightarrow> dt_kind t = ''read'') then ''read''
      else classify_call (cr_name c) (cr_args c))"

definition gated :: "gate \<Rightarrow> call_request \<Rightarrow> bool" where
  "gated g c \<longleftrightarrow> call_kind g c = ''write'' \<and> ga_policy g \<noteq> ''off''"

section \<open>Running a call\<close>

definition error_result :: "string \<Rightarrow> doc" where
  "error_result e = [(''isError'', J_Bool True), (''content'', J_List [J_Text e])]"

definition nat_text :: "nat \<Rightarrow> string" where
  "nat_text n = int_text (int n)"

definition match_json :: "catalog \<Rightarrow> route_decision \<Rightarrow> json list" where
  "match_json cat d =
     (case cat_get cat (rd_name d) of
        None \<Rightarrow> []
      | Some e \<Rightarrow> [J_Obj (public_entry False (rd_reason d) e @ [(''score'', J_Num (rd_score d))])])"

definition search_decisions :: "doc \<Rightarrow> surface \<Rightarrow> int \<Rightarrow> route_decision list" where
  "search_decisions args s n =
     surface_search s (text_or args ''query'' []) (text_or args ''source'' []) (text_or args ''domain'' [])
       (get_or args ''bundles'' (J_List [])) (max 1 (min 12 n)) False None"

definition load_matches :: "doc \<Rightarrow> route_decision list \<Rightarrow> surface \<Rightarrow> surface \<times> string list" where
  "load_matches args decisions s =
     (if map_of args ''load'' \<noteq> Some (J_Bool False) then load_search_results decisions s else (s, []))"

definition search_report :: "route_decision list \<Rightarrow> string list \<Rightarrow> surface \<Rightarrow> doc" where
  "search_report decisions loaded s =
     [(''isError'', J_Bool False),
      (''content'', J_List [J_Text (spaced_dumps (J_Obj
         [(''matches'', J_List (concat (map (match_json (sf_catalog s)) decisions))), (''loaded'', texts loaded),
          (''remaining_slots'', J_Num (remaining_slots s))]))]),
      (''display_summary'', J_Text (''Found '' @ nat_text (length decisions) @ '' tools; loaded '' @ nat_text (length loaded)))]"

definition search_call :: "doc \<Rightarrow> surface \<Rightarrow> (string, surface \<times> doc) result" where
  "search_call args s =
     bind_result (py_int (get_or args ''limit'' (J_Num (sf_page s)))) (\<lambda>n.
       let decisions = search_decisions args s n; (s1, loaded) = load_matches args decisions s
       in Inr (s1, search_report decisions loaded s1))"

definition bundle_call :: "gate \<Rightarrow> doc \<Rightarrow> surface \<Rightarrow> surface \<times> doc" where
  "bundle_call g args s =
     (let bundles = get_or args ''bundles'' (J_List []);
          (s1, loaded) = load_bundle bundles (text_or args ''query'' (ga_latest g)) s
      in (s1,
          [(''isError'', J_Bool False),
           (''content'', J_List [J_Text (spaced_dumps (J_Obj
              [(''bundles'', bundles), (''loaded'', texts loaded), (''remaining_slots'', J_Num (remaining_slots s1))]))]),
           (''display_summary'', J_Text (''Loaded '' @ nat_text (length loaded) @ '' tools from bundles''))]))"

definition skill_call :: "gate \<Rightarrow> doc \<Rightarrow> surface \<Rightarrow> surface \<times> doc" where
  "skill_call g args s =
     (case get_skill (ga_skills g) (text_or args ''skill_id'' []) of
        None \<Rightarrow> (s, error_result ''Unknown support skill.'')
      | Some k \<Rightarrow>
          (let (s1, loaded) = load_bundle (texts (sk_bundles k)) (ga_latest g) s
           in (s1,
               [(''isError'', J_Bool False), (''content'', J_List [J_Text (sk_instructions k)]), (''skill'', skill_summary k),
                (''loaded_tools'', texts loaded), (''display_summary'', J_Text (''Loaded skill: '' @ sk_name k))])))"

definition artifact_call :: "int \<Rightarrow> doc \<Rightarrow> artifact_store \<Rightarrow> artifact_store \<times> doc" where
  "artifact_call now args st =
     (case py_int (get_or args ''offset'' (J_Num 0)) of
        Inl e \<Rightarrow> (st, error_result e)
      | Inr offset \<Rightarrow>
          (case py_int (get_or args ''limit'' (J_Num 8000)) of
             Inl e \<Rightarrow> (st, error_result e)
           | Inr limit \<Rightarrow>
               (case artifact_read now (text_or args ''artifact_id'' []) offset limit st of
                  (st1, Inl e) \<Rightarrow> (st1, error_result e)
                | (st1, Inr d) \<Rightarrow> (st1, d))))"

definition send :: "'w env \<Rightarrow> backend \<Rightarrow> call_request \<Rightarrow> 'w turn \<Rightarrow> 'w turn \<times> doc" where
  "send env b c t =
     (let (r, w) = en_backend env b (tn_world t) (cr_name c) (cr_args c)
      in (t\<lparr>tn_world := w, tn_sent := tn_sent t @ [(b, c)]\<rparr>, case r of Inl e \<Rightarrow> error_result e | Inr d \<Rightarrow> d))"

definition run_call :: "gate \<Rightarrow> 'w env \<Rightarrow> call_request \<Rightarrow> 'w turn \<Rightarrow> 'w turn \<times> doc" where
  "run_call g env c t =
     (if cr_name c = ''search_tools'' then
        (case search_call (cr_args c) (tn_surface t) of
           Inl e \<Rightarrow> (t, error_result e)
         | Inr (s, d) \<Rightarrow> (t\<lparr>tn_surface := s\<rparr>, d))
      else if cr_name c = ''load_tool_bundle'' then
        (let (s, d) = bundle_call g (cr_args c) (tn_surface t) in (t\<lparr>tn_surface := s\<rparr>, d))
      else if cr_name c = ''load_skill'' then
        (let (s, d) = skill_call g (cr_args c) (tn_surface t) in (t\<lparr>tn_surface := s\<rparr>, d))
      else if cr_name c = ''read_tool_artifact'' then
        (let (st, d) = artifact_call (en_clock env (tn_world t)) (cr_args c) (tn_store t) in (t\<lparr>tn_store := st\<rparr>, d))
      else if connector_has g (cr_name c) then send env To_Connector c t
      else if cr_name c \<in> set (ga_entra g) then send env To_Entra c t
      else send env To_Azure c t)"

text \<open>The calls of a round that need no approval all run, in an order the environment chooses; anything but a
  permutation of their positions stands for the order of the requests.\<close>

definition open_positions :: "gate \<Rightarrow> call_request list \<Rightarrow> nat list" where
  "open_positions g calls = filter (\<lambda>i. \<not> gated g (calls ! i)) [0..<length calls]"

definition schedule :: "'w env \<Rightarrow> 'w \<Rightarrow> nat list \<Rightarrow> nat list" where
  "schedule env w ps = (let order = en_order env w ps in if sort order = ps then order else ps)"

fun run_all :: "gate \<Rightarrow> 'w env \<Rightarrow> call_request list \<Rightarrow> nat list \<Rightarrow> 'w turn \<Rightarrow> 'w turn \<times> (nat \<times> doc) list" where
  "run_all g env calls [] t = (t, [])"
| "run_all g env calls (i # is) t =
     (let (t1, d) = run_call g env (calls ! i) t; (t2, ds) = run_all g env calls is t1 in (t2, (i, d) # ds))"

text \<open>Results are kept per call id: of two calls with one id the later request's result stands for both.\<close>

definition task_of :: "gate \<Rightarrow> call_request list \<Rightarrow> string \<Rightarrow> nat option" where
  "task_of g calls i = find (\<lambda>p. cr_id (calls ! p) = i) (rev (open_positions g calls))"

definition result_of :: "gate \<Rightarrow> call_request list \<Rightarrow> (nat \<times> doc) list \<Rightarrow> string \<Rightarrow> doc" where
  "result_of g calls results i =
     (case task_of g calls i of None \<Rightarrow> [] | Some p \<Rightarrow> (case map_of results p of None \<Rightarrow> [] | Some d \<Rightarrow> d))"

section \<open>Reporting a round\<close>

definition is_error :: "doc \<Rightarrow> bool" where
  "is_error d = truthy (map_of d ''isError'')"

definition COMMAND_CATALOG_SIG :: string where
  "COMMAND_CATALOG_SIG = ''here are the available command''"

definition is_command_catalog :: "doc \<Rightarrow> bool" where
  "is_command_catalog d =
     (if is_error d then False
      else case get_or d ''content'' (J_List []) of
             J_List (x # xs) \<Rightarrow> starts_with (py_lower (py_lstrip (py_str x))) COMMAND_CATALOG_SIG
           | _ \<Rightarrow> False)"

definition wants_learn :: "call_request \<Rightarrow> bool" where
  "wants_learn c = truthy (map_of (cr_args c) ''learn'')"

primrec sanitize_json :: "(string \<Rightarrow> string) \<Rightarrow> json \<Rightarrow> json" where
  "sanitize_json f J_Null = J_Null"
| "sanitize_json f (J_Bool b) = J_Bool b"
| "sanitize_json f (J_Num n) = J_Num n"
| "sanitize_json f (J_Text s) = J_Text (if s = [] then s else f s)"
| "sanitize_json f (J_List xs) = J_List (map (sanitize_json f) xs)"
| "sanitize_json f (J_Obj m) = J_Obj (map (map_prod id (sanitize_json f)) m)"

definition AWAITING :: string where
  "AWAITING =
     spaced_dumps (J_Obj [(''status'', J_Text ''awaiting_approval''),
       (''message'', J_Text ''This is a mutating action and requires human approval before it can run.'')])"

definition report_call :: "gate \<Rightarrow> 'w env \<Rightarrow> call_request \<Rightarrow> doc \<Rightarrow> 'w turn \<Rightarrow> 'w turn" where
  "report_call g env c result t =
     (let routing = (if cr_name c \<in> {''search_tools'', ''load_tool_bundle'', ''load_skill''}
                     then [Ev_Routing (diagnostics (tn_surface t))] else []);
          failed = is_error result;
          learn = (wants_learn c \<or> (\<not> failed \<and> is_command_catalog result));
          for_model = map (map_prod id (sanitize_json (en_sanitize env))) (if learn then en_compact env result else result);
          (i, w) = en_uuid env (tn_world t);
          (st, prepared, meta) = prepare_tool_result (en_clock env (tn_world t)) i for_model
             (if learn then ga_discovery_cap g else ga_result_cap g) (tn_store t)
      in say [Answer (cr_id c) (spaced_dumps (J_Obj prepared))]
           (emit (routing @ [Ev_Result c result failed learn (get_or result ''artifacts'' (J_List []))]
                  @ (if meta = None then [] else [Ev_Phase ''tool_result_compacted'']))
             (t\<lparr>tn_store := st, tn_world := (if meta = None then tn_world t else w)\<rparr>)))"

fun report_all ::
  "gate \<Rightarrow> 'w env \<Rightarrow> (string \<Rightarrow> doc) \<Rightarrow> call_request list \<Rightarrow> 'w turn \<Rightarrow> 'w turn" where
  "report_all g env result [] t = t"
| "report_all g env result (c # cs) t =
     report_all g env result cs
       (if gated g c then say [Answer (cr_id c) AWAITING] (emit [Ev_Approval c] t)
        else report_call g env c (result (cr_id c)) t)"

definition tool_round :: "gate \<Rightarrow> 'w env \<Rightarrow> string \<Rightarrow> call_request list \<Rightarrow> 'w turn \<Rightarrow> 'w turn" where
  "tool_round g env spoken calls t =
     (let t1 = say [Requests (if spoken = [] then None else Some spoken) calls] t;
          t2 = emit (map (\<lambda>c. Ev_Start c (wants_learn c)) (filter (\<lambda>c. \<not> gated g c) calls)) t1;
          (t3, results) = run_all g env calls (schedule env (tn_world t2) (open_positions g calls)) t2
      in report_all g env (result_of g calls results) calls t3)"

section \<open>The loop between the model and the tools\<close>

record reply =
  rp_spoken :: string
  rp_calls :: "call_request list"
  rp_events :: "agent_event list"
  rp_prompt :: int
  rp_completion :: int

definition no_reply :: reply where
  "no_reply = \<lparr>rp_spoken = [], rp_calls = [], rp_events = [], rp_prompt = 0, rp_completion = 0\<rparr>"

fun hear :: "stream_event \<Rightarrow> reply \<Rightarrow> reply" where
  "hear (S_Token s) r = r\<lparr>rp_spoken := rp_spoken r @ s, rp_events := rp_events r @ [Ev_Token s]\<rparr>"
| "hear (S_Status phase s) r = r\<lparr>rp_events := rp_events r @ [Ev_Status phase s]\<rparr>"
| "hear (S_Calls cs) r = r\<lparr>rp_calls := cs\<rparr>"
| "hear (S_Done p c) r = r\<lparr>rp_prompt := rp_prompt r + p, rp_completion := rp_completion r + c\<rparr>"

text \<open>The closing requests are made without tools; only their tokens and usage are read.\<close>

fun hear_closing :: "stream_event \<Rightarrow> reply \<Rightarrow> reply" where
  "hear_closing (S_Status phase s) r = r"
| "hear_closing (S_Calls cs) r = r"
| "hear_closing e r = hear e r"

definition ask ::
  "'w env \<Rightarrow> (stream_event \<Rightarrow> reply \<Rightarrow> reply) \<Rightarrow> message list \<Rightarrow> tool_spec list option \<Rightarrow> 'w turn
    \<Rightarrow> reply \<times> string option \<times> 'w turn" where
  "ask env listen ms specs t =
     (let ((es, err), w) = en_model env (tn_world t) ms specs; r = fold listen es no_reply
      in (r, err,
          emit (rp_events r)
            (t\<lparr>tn_world := w, tn_prompt := tn_prompt t + rp_prompt r, tn_completion := tn_completion t + rp_completion r,
               tn_offered := tn_offered t @ [case specs of None \<Rightarrow> 0 | Some ss \<Rightarrow> length ss]\<rparr>)))"

datatype 'w outcome = Answered "'w turn" | Failed string "'w turn"

definition is_alnum :: "char \<Rightarrow> bool" where
  "is_alnum c \<longleftrightarrow> lower_alnum (lower_char c)"

definition is_blank_answer :: "string \<Rightarrow> bool" where
  "is_blank_answer s \<longleftrightarrow> length (filter is_alnum s) < 8"

definition done_event :: "string \<Rightarrow> string option \<Rightarrow> 'w turn \<Rightarrow> agent_event" where
  "done_event content note t = Ev_Done content (tn_prompt t) (tn_completion t) note (diagnostics (tn_surface t))"

definition NUDGE :: string where
  "NUDGE =
     ''Write your final answer now in plain prose. Do NOT emit a tool-call directive or JSON ''
     @ ''- summarize what you found and the recommended next steps.''"

definition LIMIT_NOTICE :: string where
  "LIMIT_NOTICE =
     ''You have reached the tool-call limit for this turn. Do NOT call any more tools. Using the evidence already ''
     @ ''gathered above, write your best answer now: summarize findings, the most likely cause, and concrete next ''
     @ ''steps. If the investigation is incomplete, say what you found so far and what to check next.''"

definition LIMIT_FALLBACK :: string where
  "LIMIT_FALLBACK =
     ''I gathered evidence with several tool calls but hit the tool-call limit before finishing. Please re-run or ''
     @ ''narrow the request to complete the analysis.''"

definition plain_answer :: "'w env \<Rightarrow> string \<Rightarrow> 'w turn \<Rightarrow> 'w outcome" where
  "plain_answer env spoken t =
     (let final = en_strip env spoken in
      if is_blank_answer final \<and> py_strip spoken \<noteq> [] then
        (let (r, err, t1) = ask env hear_closing
               (tn_messages t @ [Message ''assistant'' spoken, Message ''user'' NUDGE]) None t;
             forced = en_strip env (rp_spoken r)
         in case err of
              Some e \<Rightarrow> Failed e t1
            | None \<Rightarrow> Answered (emit [done_event (if is_blank_answer forced then final else forced) None t1] t1))
      else Answered (emit [done_event final None t] t))"

definition forced_answer :: "'w env \<Rightarrow> 'w turn \<Rightarrow> 'w outcome" where
  "forced_answer env t =
     (let (r, err, t1) = ask env hear_closing (tn_messages t @ [Message ''system'' LIMIT_NOTICE]) None t;
          forced = en_strip env (rp_spoken r)
      in case err of
           Some e \<Rightarrow> Failed e t1
         | None \<Rightarrow> Answered (emit [done_event (if is_blank_answer forced then LIMIT_FALLBACK else forced)
                                (Some ''max tool iterations reached'') t1] t1))"

definition py_rstrip :: "string \<Rightarrow> string" where
  "py_rstrip s = rev (dropWhile is_space (rev s))"

text \<open>A reply without calls may carry a directive as text.\<close>

definition recover :: "'w env \<Rightarrow> bool \<Rightarrow> string \<Rightarrow> call_request list \<Rightarrow> string \<times> call_request list" where
  "recover env tools spoken calls =
     (if calls \<noteq> [] \<or> \<not> tools then (spoken, calls)
      else if en_xml_calls env spoken \<noteq> [] then
        (py_rstrip (if en_xml_marker env spoken \<noteq> -1 then take (nat (en_xml_marker env spoken)) spoken else []),
         en_xml_calls env spoken)
      else if en_json_calls env spoken \<noteq> [] then
        (takeWhile (\<lambda>c. c \<noteq> CHR 0x7B \<and> c \<noteq> CHR 0x5B) spoken, en_json_calls env spoken)
      else (spoken, []))"

definition offered_specs :: "gate \<Rightarrow> surface \<Rightarrow> tool_spec list" where
  "offered_specs g s = (if ga_native g then all_specs_for_native_search s else surface_specs s)"

fun iterate :: "gate \<Rightarrow> 'w env \<Rightarrow> nat \<Rightarrow> bool \<Rightarrow> 'w turn \<Rightarrow> 'w outcome" where
  "iterate g env 0 first t = forced_answer env t"
| "iterate g env (Suc n) first t =
     (let specs = offered_specs g (tn_surface t);
          t0 = (if first then t else emit [Ev_Phase ''iterating''] t);
          (r, err, t1) = ask env hear (tn_messages t0) (Some specs) t0;
          (spoken, calls) = recover env (specs \<noteq> []) (rp_spoken r) (rp_calls r)
      in case err of
           Some e \<Rightarrow> Failed e t1
         | None \<Rightarrow>
             (if calls = [] then plain_answer env spoken t1
              else iterate g env n False (tool_round g env spoken calls t1)))"

end
