(* ===== verification/Tool_Turn.thy ===== *)
theory Tool_Turn
  imports Tool_Gate
begin

text \<open>
  The set-up of a turn: which tools the orchestrator loads, how they form the catalog, the write policy in
  force, the first messages, and the whole of \<open>Orchestrator.run\<close>. Settings, the listings of the tool servers
  and the system prompt are fields of the set-up record. The name and limit of the provider, which the code adds to the
  first routing event, are left out.
\<close>

record turn_setup =
  su_azure_enabled :: bool
  su_azure_tools :: "string list"
  su_azure_bundles :: "string list"
  su_azure_disabled :: "string list"
  su_azure_listing :: "(string, discovered_tool list) result"
  su_entra_listing :: "(string, discovered_tool list) result option"
  su_entra_blocked :: "string list"
  su_entra_disabled :: "string list"
  su_entra_tools :: "string list"
  su_entra_bundles :: "string list"
  su_connectors :: "connector_tool list"
  su_skills :: "skill list"
  su_skills_enabled :: bool
  su_routing_enabled :: bool
  su_native :: bool
  su_initial_budget :: int
  su_max_per_turn :: int
  su_page :: int
  su_max_iterations :: int
  su_result_limit :: int
  su_discovery_limit :: int
  su_policy_override :: string
  su_auto_execute :: "json option"
  su_policy_default :: string
  su_system :: string
  su_scope_hint :: string
  su_history :: "doc list"

section \<open>Policy and request\<close>

definition effective_write_policy :: "json option \<Rightarrow> string \<Rightarrow> string" where
  "effective_write_policy auto_execute env_default =
     (case auto_execute of None \<Rightarrow> env_default | Some v \<Rightarrow> if truthy (Some v) then ''off'' else ''gated'')"

definition write_policy_mode :: "turn_setup \<Rightarrow> string" where
  "write_policy_mode su =
     (if su_policy_override su \<noteq> [] then su_policy_override su
      else effective_write_policy (su_auto_execute su) (su_policy_default su))"

definition user_text :: "doc \<Rightarrow> string option" where
  "user_text m =
     (if map_of m ''role'' = Some (J_Text ''user'')
      then (case map_of m ''content'' of Some (J_Text s) \<Rightarrow> Some s | _ \<Rightarrow> None) else None)"

definition latest_user :: "doc list \<Rightarrow> string" where
  "latest_user history = (case filter (\<lambda>m. m \<noteq> None) (map user_text (rev history)) of Some s # _ \<Rightarrow> s | _ \<Rightarrow> [])"

section \<open>Loading tools\<close>

definition scoped :: "tool_entry \<Rightarrow> bool \<Rightarrow> string list \<Rightarrow> string list \<Rightarrow> bool" where
  "scoped e allow_all names bundles \<longleftrightarrow>
     allow_all \<or> te_name e \<in> set names \<or> hits bundles (te_bundles e) \<noteq> []"

definition spec_of_tool :: "discovered_tool \<Rightarrow> tool_spec" where
  "spec_of_tool t = plain_spec (dt_name t) (dt_description t) (dt_parameters t) (dt_kind t)"

definition entry_of_tool :: "string \<Rightarrow> discovered_tool \<Rightarrow> tool_entry" where
  "entry_of_tool source t = make_entry (spec_of_tool t) source (dt_kind t)"

definition azure_admits :: "turn_setup \<Rightarrow> discovered_tool \<Rightarrow> bool" where
  "azure_admits su t \<longleftrightarrow>
     dt_name t \<notin> set (su_azure_disabled su) \<and> dt_available t
     \<and> scoped (entry_of_tool ''azure_mcp'' t) (su_azure_enabled su) (su_azure_tools su) (su_azure_bundles su)"

definition load_azure :: "turn_setup \<Rightarrow> discovered_tool list" where
  "load_azure su =
     (if su_azure_enabled su \<or> su_azure_tools su \<noteq> [] \<or> su_azure_bundles su \<noteq> [] then
        (case su_azure_listing su of Inl e \<Rightarrow> [] | Inr tools \<Rightarrow> filter (azure_admits su) tools)
      else [])"

definition entra_admits :: "turn_setup \<Rightarrow> discovered_tool \<Rightarrow> bool" where
  "entra_admits su t \<longleftrightarrow>
     dt_name t \<notin> set (su_entra_blocked su) \<and> dt_name t \<notin> set (su_entra_disabled su)
     \<and> (su_entra_tools su = [] \<and> su_entra_bundles su = []
        \<or> scoped (entry_of_tool ''entra_mcp'' t) False (su_entra_tools su) (su_entra_bundles su))"

definition load_entra :: "turn_setup \<Rightarrow> discovered_tool list" where
  "load_entra su =
     (case su_entra_listing su of
        Some (Inr tools) \<Rightarrow> filter (entra_admits su) tools
      | _ \<Rightarrow> [])"

definition merged_tools :: "discovered_tool list \<Rightarrow> discovered_tool list \<Rightarrow> discovered_tool list" where
  "merged_tools azure entra = azure @ filter (\<lambda>t. dt_name t \<notin> dt_name ` set azure) entra"

definition connector_entry :: "connector_tool \<Rightarrow> tool_entry" where
  "connector_entry c =
     make_entry (plain_spec (ct_name c) (ct_description c) (ct_parameters c) (ct_kind c))
       (if ct_type c \<noteq> [] then ''connector:'' @ ct_type c else ''connector'') (ct_kind c)"

definition internal_entries :: "bool \<Rightarrow> tool_entry list" where
  "internal_entries skills_enabled =
     map (\<lambda>s. make_entry s ''internal'' ''read'')
       (filter (\<lambda>s. skills_enabled \<or> sp_name s \<noteq> ''load_skill'') internal_tool_specs)"

definition turn_entries :: "turn_setup \<Rightarrow> tool_entry list" where
  "turn_entries su =
     (let azure = load_azure su; entra = load_entra su
      in map (entry_of_tool ''azure_mcp'') azure
         @ map (entry_of_tool ''entra_mcp'') (filter (\<lambda>t. dt_name t \<notin> dt_name ` set azure) entra)
         @ map connector_entry (su_connectors su)
         @ internal_entries (su_skills_enabled su))"

section \<open>The turn\<close>

definition turn_gate :: "turn_setup \<Rightarrow> catalog \<Rightarrow> gate" where
  "turn_gate su cat =
     \<lparr>ga_catalog = cat, ga_index = merged_tools (load_azure su) (load_entra su), ga_connectors = su_connectors su,
      ga_entra = map dt_name (load_entra su), ga_policy = write_policy_mode su, ga_result_cap = su_result_limit su,
      ga_discovery_cap = su_discovery_limit su, ga_native = su_native su, ga_latest = latest_user (su_history su),
      ga_skills = su_skills su\<rparr>"

definition turn_surface :: "turn_setup \<Rightarrow> catalog \<Rightarrow> surface" where
  "turn_surface su cat =
     route_initial (latest_user (su_history su)) cat
       (if su_routing_enabled su then su_initial_budget su else su_max_per_turn su) (su_max_per_turn su) (su_page su)
       (su_azure_tools su @ su_entra_tools su) (su_azure_bundles su @ su_entra_bundles su) (\<not> su_routing_enabled su)"

definition opening_messages :: "turn_setup \<Rightarrow> message list" where
  "opening_messages su =
     Message ''system'' (su_system su)
     # (if su_scope_hint su \<noteq> [] then [Message ''system'' (su_scope_hint su)] else [])
     @ map Given (su_history su)"

definition blank_surface :: surface where
  "blank_surface = \<lparr>sf_catalog = [], sf_initial = 0, sf_max = 0, sf_page = 0, sf_active = [], sf_reasons = [], sf_loaded = []\<rparr>"

definition new_turn :: "'w \<Rightarrow> 'w turn" where
  "new_turn w =
     \<lparr>tn_world = w, tn_surface = blank_surface, tn_store = new_store 32 3600, tn_messages = [],
      tn_events = [Ev_Phase ''tools'', Ev_Phase ''tools_ready''], tn_prompt = 0, tn_completion = 0, tn_sent = [],
      tn_offered = []\<rparr>"

definition collision_text :: "catalog_error \<Rightarrow> string" where
  "collision_text e =
     (case e of Tool_Name_Collision name first second \<Rightarrow>
        ''Tool name collision for '' @ [CHR 0x27] @ name @ [CHR 0x27] @ '' between '' @ first @ '' and '' @ second @ ''.'')"

definition run_turn :: "'w env \<Rightarrow> turn_setup \<Rightarrow> 'w \<Rightarrow> 'w outcome" where
  "run_turn env su w =
     (case new_catalog (turn_entries su) of
        Inl e \<Rightarrow> Failed (collision_text e) (new_turn w)
      | Inr cat \<Rightarrow>
          (let s = turn_surface su cat
           in iterate (turn_gate su cat) env (nat (su_max_iterations su)) True
                (say (opening_messages su) (emit [Ev_Routing (diagnostics s)] ((new_turn w)\<lparr>tn_surface := s\<rparr>)))))"

end
