(* ===== verification/Gate_Safety.thy ===== *)
theory Gate_Safety
  imports Tool_Turn
begin

text \<open>
  What a turn guarantees, whatever the model asks for and the tool servers answer. The interface between the
  loop and an invariant of the turn is a locale with two granularities: an invariant kept by every round of
  calls, and one kept by every single call.
\<close>

section \<open>Invariants of a turn\<close>

fun is_done :: "agent_event \<Rightarrow> bool" where
  "is_done (Ev_Done c p q n d) = True"
| "is_done _ = False"

definition ended :: "('w turn \<Rightarrow> bool) \<Rightarrow> 'w outcome \<Rightarrow> bool" where
  "ended hold out =
     (case out of
        Failed e t \<Rightarrow> hold t
      | Answered t \<Rightarrow> \<exists>t0 content note. hold t0 \<and> t = emit [done_event content note t0] t0)"

primrec turn_of :: "'w outcome \<Rightarrow> 'w turn" where
  "turn_of (Answered t) = t"
| "turn_of (Failed e t) = t"

locale turn_invariant =
  fixes g :: gate and env :: "'w env" and hold :: "'w turn \<Rightarrow> bool"
  assumes inv_phase: "hold t \<Longrightarrow> hold (emit [Ev_Phase p] t)"
    and inv_ask: "hold t \<Longrightarrow> specs = None \<or> specs = Some (offered_specs g (tn_surface t))
      \<Longrightarrow> listen = hear \<or> listen = hear_closing \<Longrightarrow> ask env listen ms specs t = (r, err, t') \<Longrightarrow> hold t'"
    and inv_round: "hold t \<Longrightarrow> hold (tool_round g env spoken calls t)"
begin

lemma plain_answer_ended: "hold t \<Longrightarrow> ended hold (plain_answer env spoken t)"
  by (auto simp: plain_answer_def ended_def Let_def split: prod.split option.split intro: inv_ask)

lemma forced_answer_ended: "hold t \<Longrightarrow> ended hold (forced_answer env t)"
  by (auto simp: forced_answer_def ended_def Let_def split: prod.split option.split intro: inv_ask)

lemma iterate_ended: "hold t \<Longrightarrow> ended hold (iterate g env n first t)"
proof (induction n arbitrary: first t)
  case 0
  then show ?case
    by (simp add: forced_answer_ended)
next
  case (Suc n)
  let ?specs = "offered_specs g (tn_surface t)"
  let ?t0 = "if first then t else emit [Ev_Phase ''iterating''] t"
  have t0: "hold ?t0"
    using Suc.prems by (simp add: inv_phase)
  have surf: "tn_surface ?t0 = tn_surface t"
    by (simp add: emit_def)
  obtain r err t1 where ask: "ask env hear (tn_messages ?t0) (Some ?specs) ?t0 = (r, err, t1)"
    by (metis prod_cases3)
  have t1: "hold t1"
    by (rule inv_ask [OF t0 _ _ ask]) (simp_all add: surf)
  obtain spoken calls where rec: "recover env (?specs \<noteq> []) (rp_spoken r) (rp_calls r) = (spoken, calls)"
    by fastforce
  show ?case
    using Suc.IH [OF inv_round [OF t1]] plain_answer_ended [OF t1] t1
    by (simp add: ask rec ended_def [of hold "Failed _ _"] Let_def split: option.split)
qed

end

locale call_invariant =
  fixes g :: gate and env :: "'w env" and hold :: "'w turn \<Rightarrow> bool"
  assumes inv_emit': "hold t \<Longrightarrow> \<forall>e\<in>set es. \<not> is_done e \<Longrightarrow> hold (emit es t)"
    and inv_ask': "hold t \<Longrightarrow> specs = None \<or> specs = Some (offered_specs g (tn_surface t))
      \<Longrightarrow> listen = hear \<or> listen = hear_closing \<Longrightarrow> ask env listen ms specs t = (r, err, t') \<Longrightarrow> hold t'"
    and inv_say: "hold t \<Longrightarrow> hold (say ms t)"
    and inv_run: "hold t \<Longrightarrow> \<not> gated g c \<Longrightarrow> run_call g env c t = (t', d) \<Longrightarrow> hold t'"
    and inv_report: "hold t \<Longrightarrow> hold (t\<lparr>tn_store := fst (prepare_tool_result now i result cap (tn_store t)), tn_world := w\<rparr>)"
begin

lemma run_all_inv:
  "hold t \<Longrightarrow> \<forall>i\<in>set is. \<not> gated g (calls ! i) \<Longrightarrow> run_all g env calls is t = (t', ds) \<Longrightarrow> hold t'"
  by (induction "is" arbitrary: t t' ds) (auto split: prod.splits dest: inv_run)

lemma report_call_inv: "hold t \<Longrightarrow> hold (report_call g env c result t)"
proof -
  assume t: "hold t"
  obtain i w where uuid: "en_uuid env (tn_world t) = (i, w)"
    by fastforce
  have step: "hold (t\<lparr>tn_store := st, tn_world := v\<rparr>)"
    if "prepare_tool_result now j d cap (tn_store t) = (st, x)" for now j d cap st x v
    using inv_report [OF t, where now = now and i = j and result = d and cap = cap and w = v] that by simp
  show ?thesis
    unfolding report_call_def Let_def uuid prod.case
    by (split prod.split, intro allI impI, split prod.split, intro allI impI, rule inv_say, rule inv_emit')
       (erule step, auto)
qed

lemma report_all_inv: "hold t \<Longrightarrow> hold (report_all g env result calls t)"
  by (induction calls arbitrary: t) (simp_all add: report_call_inv inv_say inv_emit')

lemma schedule_set: "set (schedule env w (open_positions g calls)) = set (open_positions g calls)"
proof -
  have "set order = set ps" if "sort order = ps" for order ps :: "nat list"
    using that by (metis set_sort)
  then show ?thesis
    unfolding schedule_def Let_def by metis
qed

lemma tool_round_inv: "hold t \<Longrightarrow> hold (tool_round g env spoken calls t)"
proof -
  assume t: "hold t"
  let ?t2 = "emit (map (\<lambda>c. Ev_Start c (wants_learn c)) (filter (\<lambda>c. \<not> gated g c) calls))
      (say [Requests (if spoken = [] then None else Some spoken) calls] t)"
  have t2: "hold ?t2"
    by (rule inv_emit' [OF inv_say [OF t]]) auto
  obtain t3 ds where run: "run_all g env calls (schedule env (tn_world ?t2) (open_positions g calls)) ?t2 = (t3, ds)"
    by fastforce
  have "hold t3"
    by (rule run_all_inv [OF t2 _ run]) (simp add: schedule_set, simp add: open_positions_def)
  then show ?thesis
    by (simp add: tool_round_def run report_all_inv Let_def)
qed

end

sublocale call_invariant \<subseteq> turn_invariant g env hold
proof
  show "hold (emit [Ev_Phase p] t)" if "hold t" for t p
    using that by (rule inv_emit') simp
qed (use inv_ask' tool_round_inv in blast)+

section \<open>One call\<close>

definition CORE_NAMES :: "string list" where
  "CORE_NAMES = [''search_tools'', ''load_tool_bundle'', ''load_skill'', ''read_tool_artifact'']"

definition goes_to :: "gate \<Rightarrow> string \<Rightarrow> backend" where
  "goes_to g name =
     (if connector_has g name then To_Connector else if name \<in> set (ga_entra g) then To_Entra else To_Azure)"

lemma load_matches_keeps: "surface_keeps s (fst (load_matches args ds s))"
  by (simp add: load_matches_def load_search_results_keeps)

lemma search_call_keeps: "search_call args s = Inr (s', d) \<Longrightarrow> surface_keeps s s'"
proof -
  assume "search_call args s = Inr (s', d)"
  then obtain n where "fst (load_matches args (search_decisions args s n) s) = s'"
    by (auto simp: search_call_def Let_def case_prod_beta)
  then show "surface_keeps s s'"
    using load_matches_keeps [of s args "search_decisions args s n"] by simp
qed

lemma bundle_call_keeps: "surface_keeps s (fst (bundle_call g args s))"
  using load_bundle_keeps [of s] by (simp add: bundle_call_def Let_def split: prod.split) (metis fst_conv)

lemma skill_call_keeps: "surface_keeps s (fst (skill_call g args s))"
  using load_bundle_keeps [of s] by (simp add: skill_call_def Let_def split: prod.split option.split) (metis fst_conv)

lemma artifact_call_keeps: "store_keeps st (fst (artifact_call now args st))"
  using artifact_read_keeps [of st now] by (simp add: artifact_call_def split: sum.split prod.split) (metis fst_conv)

text \<open>A call either stays inside the process, changing the surface and the store within their invariants, or is
  handed to the backend that owns its name, exactly once.\<close>

lemma run_call_cases:
  assumes "run_call g env c t = (t', d)"
  obtains
    (core) s st where "cr_name c \<in> set CORE_NAMES" "t' = t\<lparr>tn_surface := s, tn_store := st\<rparr>"
      "surface_keeps (tn_surface t) s" "store_keeps (tn_store t) st"
  | (sent) w where "cr_name c \<notin> set CORE_NAMES"
      "t' = t\<lparr>tn_world := w, tn_sent := tn_sent t @ [(goes_to g (cr_name c), c)]\<rparr>"
proof (cases "cr_name c \<in> set CORE_NAMES")
  case True
  have "\<exists>s st. t' = t\<lparr>tn_surface := s, tn_store := st\<rparr> \<and> surface_keeps (tn_surface t) s \<and> store_keeps (tn_store t) st"
  proof -
    consider (search) "cr_name c = ''search_tools''" | (load) "cr_name c = ''load_tool_bundle''"
      | (skill) "cr_name c = ''load_skill''" | (artifact) "cr_name c = ''read_tool_artifact''"
      using True by (auto simp: CORE_NAMES_def)
    then show ?thesis
    proof cases
      case search
      show ?thesis
      proof (cases "search_call (cr_args c) (tn_surface t)")
        case (Inl e)
        with assms search have "t' = t\<lparr>tn_surface := tn_surface t, tn_store := tn_store t\<rparr>"
          by (simp add: run_call_def)
        then show ?thesis
          using surface_keeps_refl store_keeps_refl by blast
      next
        case (Inr sd)
        then have "t' = t\<lparr>tn_surface := fst sd, tn_store := tn_store t\<rparr>"
          using assms [symmetric] search by (cases sd) (simp add: run_call_def)
        moreover have "surface_keeps (tn_surface t) (fst sd)"
          using Inr search_call_keeps [of "cr_args c" "tn_surface t" "fst sd" "snd sd"] by simp
        ultimately show ?thesis
          using store_keeps_refl by blast
      qed
    next
      case load
      then have "t' = t\<lparr>tn_surface := fst (bundle_call g (cr_args c) (tn_surface t)), tn_store := tn_store t\<rparr>"
        using assms [symmetric] by (cases "bundle_call g (cr_args c) (tn_surface t)") (simp add: run_call_def)
      then show ?thesis
        using bundle_call_keeps store_keeps_refl by blast
    next
      case skill
      then have "t' = t\<lparr>tn_surface := fst (skill_call g (cr_args c) (tn_surface t)), tn_store := tn_store t\<rparr>"
        using assms [symmetric] by (cases "skill_call g (cr_args c) (tn_surface t)") (simp add: run_call_def)
      then show ?thesis
        using skill_call_keeps store_keeps_refl by blast
    next
      case artifact
      let ?a = "artifact_call (en_clock env (tn_world t)) (cr_args c) (tn_store t)"
      from artifact have "t' = t\<lparr>tn_surface := tn_surface t, tn_store := fst ?a\<rparr>"
        using assms [symmetric] by (cases ?a) (simp add: run_call_def)
      then show ?thesis
        using artifact_call_keeps surface_keeps_refl by blast
    qed
  qed
  with True core show thesis
    by blast
next
  case False
  then have "run_call g env c t = send env (goes_to g (cr_name c)) c t"
    by (simp add: run_call_def goes_to_def CORE_NAMES_def)
  with assms have "\<exists>w. t' = t\<lparr>tn_world := w, tn_sent := tn_sent t @ [(goes_to g (cr_name c), c)]\<rparr>"
    by (auto simp: send_def split: prod.splits)
  with False sent show thesis
    by blast
qed

lemma ask_frame:
  assumes "ask env listen ms specs t = (r, err, t')"
  shows "tn_surface t' = tn_surface t" "tn_store t' = tn_store t" "tn_messages t' = tn_messages t" "tn_sent t' = tn_sent t"
    "tn_offered t' = tn_offered t @ [case specs of None \<Rightarrow> 0 | Some ss \<Rightarrow> length ss]"
  using assms by (auto simp: ask_def emit_def Let_def split: prod.splits)

section \<open>Only reads run without approval\<close>

definition permitted :: "gate \<Rightarrow> backend \<Rightarrow> call_request \<Rightarrow> bool" where
  "permitted g b c \<longleftrightarrow>
     (if b = To_Connector then connector_kind g (cr_name c) \<noteq> ''write''
      else classify_call (cr_name c) (cr_args c) = ''read''
           \<or> (\<exists>t\<in>set (ga_index g). dt_name t = cr_name c \<and> dt_kind t = ''read''))"

definition gate_ok :: "gate \<Rightarrow> bool" where
  "gate_ok g \<longleftrightarrow> (\<forall>e\<in>set (ga_catalog g). te_source e = ''internal'' \<longrightarrow> te_name e \<in> set CORE_NAMES)"

lemma indexed_toolD: "indexed_tool g n = Some t \<Longrightarrow> t \<in> set (ga_index g) \<and> dt_name t = n"
  using find_SomeD [of "\<lambda>t. dt_name t = n" "rev (ga_index g)" t] by (simp add: indexed_tool_def)

lemma open_call_permitted:
  assumes "gate_ok g" "ga_policy g \<noteq> ''off''" "\<not> gated g c" "cr_name c \<notin> set CORE_NAMES"
  shows "permitted g (goes_to g (cr_name c)) c"
proof -
  have "\<not> (case cat_get (ga_catalog g) (cr_name c) of None \<Rightarrow> False | Some e \<Rightarrow> te_source e = ''internal'')"
  proof (cases "cat_get (ga_catalog g) (cr_name c)")
    case (Some e)
    then have "e \<in> set (ga_catalog g)" "te_name e = cr_name c"
      using cat_get_Some by blast+
    with assms(1,4) Some show ?thesis
      by (auto simp: gate_ok_def)
  qed simp
  then have kind: "(if connector_has g (cr_name c) then connector_kind g (cr_name c)
      else if (case indexed_tool g (cr_name c) of None \<Rightarrow> False | Some t \<Rightarrow> dt_kind t = ''read'') then ''read''
      else classify_call (cr_name c) (cr_args c)) \<noteq> ''write''"
    using assms(2,3) by (simp add: gated_def call_kind_def)
  then show ?thesis
    using classify_call_cases [of "cr_name c" "cr_args c"]
    by (auto simp: permitted_def goes_to_def dest: indexed_toolD split: if_splits option.splits)
qed

interpretation sends: call_invariant g env
    "\<lambda>t. gate_ok g \<and> ga_policy g \<noteq> ''off'' \<longrightarrow> (\<forall>(b, c)\<in>set (tn_sent t). permitted g b c)"
  for g :: gate and env :: "'w env"
proof
  fix t t' :: "'w turn" and c d
  assume hold: "gate_ok g \<and> ga_policy g \<noteq> ''off'' \<longrightarrow> (\<forall>(b, c)\<in>set (tn_sent t). permitted g b c)"
    and free: "\<not> gated g c" and run: "run_call g env c t = (t', d)"
  from run show "gate_ok g \<and> ga_policy g \<noteq> ''off'' \<longrightarrow> (\<forall>(b, c)\<in>set (tn_sent t'). permitted g b c)"
    by (rule run_call_cases) (use hold free open_call_permitted in auto)
qed (simp_all add: emit_def say_def ask_frame)

section \<open>The surface and the requests stay within the ceiling\<close>

definition within_budget :: "gate \<Rightarrow> int \<Rightarrow> catalog \<Rightarrow> 'w turn \<Rightarrow> bool" where
  "within_budget g most cat t \<longleftrightarrow>
     surface_ok (tn_surface t) \<and> sf_max (tn_surface t) = most \<and> sf_catalog (tn_surface t) = cat \<and> store_ok (tn_store t) \<and> as_max (tn_store t) = 32
     \<and> (\<not> ga_native g \<longrightarrow> (\<forall>k\<in>set (tn_offered t). int k \<le> most))"

lemma offered_within:
  assumes "distinct (cat_names (sf_catalog s))" "surface_ok s" "\<not> ga_native g"
  shows "int (length (offered_specs g s)) \<le> sf_max s"
proof -
  have "length (offered_specs g s) \<le> length (remdups (sf_active s))"
    using specs_of_length [OF assms(1)] assms(3) by (simp add: offered_specs_def surface_specs_def)
  also have "\<dots> \<le> length (sf_active s)"
    by (rule length_remdups_leq)
  finally show ?thesis
    using assms(2) by (simp add: surface_ok_def)
qed

interpretation budget: call_invariant g env "\<lambda>t. distinct (cat_names cat) \<longrightarrow> within_budget g most cat t"
  for g :: gate and env :: "'w env" and most :: int and cat :: catalog
proof
  fix t t' :: "'w turn" and specs listen ms r err
  assume "distinct (cat_names cat) \<longrightarrow> within_budget g most cat t"
    and specs: "specs = None \<or> specs = Some (offered_specs g (tn_surface t))"
    and ask: "ask env listen ms specs t = (r, err, t')"
  then show "distinct (cat_names cat) \<longrightarrow> within_budget g most cat t'"
    using offered_within [of "tn_surface t" g] ask_frame [OF ask]
    by (auto simp: within_budget_def surface_ok_def)
next
  fix t t' :: "'w turn" and c d
  assume hold: "distinct (cat_names cat) \<longrightarrow> within_budget g most cat t" and run: "run_call g env c t = (t', d)"
  from run show "distinct (cat_names cat) \<longrightarrow> within_budget g most cat t'"
    by (rule run_call_cases) (use hold in \<open>auto simp: within_budget_def surface_keeps_def same_frame_def store_keeps_def\<close>)
next
  fix t :: "'w turn" and now i result c w
  assume "distinct (cat_names cat) \<longrightarrow> within_budget g most cat t"
  then show "distinct (cat_names cat) \<longrightarrow>
      within_budget g most cat (t\<lparr>tn_store := fst (prepare_tool_result now i result c (tn_store t)), tn_world := w\<rparr>)"
    using prepare_tool_result_keeps [of "tn_store t" now i result c] by (simp add: within_budget_def store_keeps_def)
qed (auto simp: within_budget_def emit_def say_def)

end
