(* ===== verification/Turn_Safety.thy ===== *)
theory Turn_Safety
  imports Gate_Safety "HOL-Library.Multiset"
begin

text \<open>
  The properties of a whole turn: which calls run, what the transcript holds, how the turn ends, and how far the
  tools offered to the model can grow. They rest on the invariants of \<open>Gate_Safety\<close> through its interpretations.
\<close>

section \<open>The round runs the open calls once\<close>

definition leaves_process :: "call_request \<Rightarrow> bool" where
  "leaves_process c \<longleftrightarrow> cr_name c \<notin> set CORE_NAMES"

lemma run_call_sent:
  "run_call g env c t = (t', d) \<Longrightarrow>
   tn_sent t' = tn_sent t @ (if leaves_process c then [(goes_to g (cr_name c), c)] else [])"
  by (erule run_call_cases) (simp_all add: leaves_process_def)

lemma run_all_sent:
  "run_all g env calls is t = (t', ds) \<Longrightarrow>
   tn_sent t' = tn_sent t @ map (\<lambda>c. (goes_to g (cr_name c), c)) (filter leaves_process (map (\<lambda>i. calls ! i) is))"
proof (induction "is" arbitrary: t ds)
  case (Cons i "is")
  obtain t1 d where run: "run_call g env (calls ! i) t = (t1, d)"
    by fastforce
  obtain ds' where rest: "run_all g env calls is t1 = (t', ds')"
    using Cons.prems by (auto simp: run split: prod.splits)
  show ?case
    by (simp add: Cons.IH [OF rest] run_call_sent [OF run])
qed simp

lemma report_call_sent [simp]: "tn_sent (report_call g env c d t) = tn_sent t"
  by (simp add: report_call_def emit_def say_def Let_def split: prod.split)

lemma report_all_sent [simp]: "tn_sent (report_all g env result cs t) = tn_sent t"
  by (induction cs arbitrary: t) (simp_all add: emit_def say_def)

lemma report_call_offered [simp]: "tn_offered (report_call g env c d t) = tn_offered t"
  by (simp add: report_call_def emit_def say_def Let_def split: prod.split)

lemma report_all_offered [simp]: "tn_offered (report_all g env result cs t) = tn_offered t"
  by (induction cs arbitrary: t) (simp_all add: emit_def say_def)

lemma run_call_frame:
  "run_call g env c t = (t', d) \<Longrightarrow>
   tn_messages t' = tn_messages t \<and> tn_events t' = tn_events t \<and> tn_offered t' = tn_offered t"
  by (erule run_call_cases) simp_all

lemma run_all_frame:
  "run_all g env calls is t = (t', ds) \<Longrightarrow>
   tn_messages t' = tn_messages t \<and> tn_events t' = tn_events t \<and> tn_offered t' = tn_offered t"
proof (induction "is" arbitrary: t ds)
  case (Cons i "is")
  obtain t1 d where run: "run_call g env (calls ! i) t = (t1, d)"
    by fastforce
  obtain ds' where rest: "run_all g env calls is t1 = (t', ds')"
    using Cons.prems by (auto simp: run split: prod.splits)
  show ?case
    using Cons.IH [OF rest] run_call_frame [OF run] by simp
qed simp

lemma schedule_mset: "mset (schedule env w (open_positions g calls)) = mset (open_positions g calls)"
proof -
  have "mset order = mset ps" if "sort order = ps" for order ps :: "nat list"
    using that by (metis mset_sort)
  then show ?thesis
    unfolding schedule_def Let_def by metis
qed

lemma open_calls: "map (\<lambda>i. calls ! i) (open_positions g calls) = filter (\<lambda>c. \<not> gated g c) calls"
  unfolding open_positions_def
  by (metis (no_types, lifting) filter_cong filter_map map_nth o_def)

lemma round_hands_over:
  "\<exists>xs. tn_sent (tool_round g env spoken calls t) = tn_sent t @ xs
     \<and> mset xs = image_mset (\<lambda>c. (goes_to g (cr_name c), c))
         (filter_mset (\<lambda>c. \<not> gated g c \<and> leaves_process c) (mset calls))"
proof -
  let ?t2 = "emit (map (\<lambda>c. Ev_Start c (wants_learn c)) (filter (\<lambda>c. \<not> gated g c) calls))
      (say [Requests (if spoken = [] then None else Some spoken) calls] t)"
  let ?order = "schedule env (tn_world ?t2) (open_positions g calls)"
  obtain t3 ds where run: "run_all g env calls ?order ?t2 = (t3, ds)"
    by fastforce
  have "mset (map (\<lambda>i. calls ! i) ?order) = mset (filter (\<lambda>c. \<not> gated g c) calls)"
    by (metis mset_map open_calls schedule_mset)
  then have "mset (filter leaves_process (map (\<lambda>i. calls ! i) ?order))
      = filter_mset (\<lambda>c. \<not> gated g c \<and> leaves_process c) (mset calls)"
    by (metis (no_types, lifting) filter_filter_mset filter_mset_cong mset_filter)
  then have "mset (map (\<lambda>c. (goes_to g (cr_name c), c)) (filter leaves_process (map (\<lambda>i. calls ! i) ?order)))
      = image_mset (\<lambda>c. (goes_to g (cr_name c), c)) (filter_mset (\<lambda>c. \<not> gated g c \<and> leaves_process c) (mset calls))"
    by (simp only: mset_map)
  moreover have "tn_sent (tool_round g env spoken calls t)
      = tn_sent t @ map (\<lambda>c. (goes_to g (cr_name c), c)) (filter leaves_process (map (\<lambda>i. calls ! i) ?order))"
    using run_all_sent [OF run] by (simp add: tool_round_def run Let_def) (simp add: emit_def say_def)
  ultimately show ?thesis
    by blast
qed

lemma round_sent:
  "\<exists>xs. tn_sent (tool_round g env spoken calls t) = tn_sent t @ xs
     \<and> set xs \<subseteq> (\<lambda>c. (goes_to g (cr_name c), c)) ` {c\<in>set calls. \<not> gated g c}"
proof -
  obtain xs where xs: "tn_sent (tool_round g env spoken calls t) = tn_sent t @ xs"
    "mset xs = image_mset (\<lambda>c. (goes_to g (cr_name c), c))
      (filter_mset (\<lambda>c. \<not> gated g c \<and> leaves_process c) (mset calls))"
    using round_hands_over by blast
  from arg_cong [OF xs(2), of set_mset] have "set xs \<subseteq> (\<lambda>c. (goes_to g (cr_name c), c)) ` {c\<in>set calls. \<not> gated g c}"
    by auto
  with xs(1) show ?thesis
    by blast
qed

text \<open>Lemma. Whatever order the concurrent calls of a round take effect in, exactly the calls that need no approval
  and are not answered inside the process are handed to a backend, each as often as it was requested, and each
  to the backend that owns its name; the calls that need approval are handed to none.\<close>

lemma round_runs_open_calls_once:
  "\<exists>xs. tn_sent (tool_round g env spoken calls t) = tn_sent t @ xs
     \<and> mset xs = image_mset (\<lambda>c. (goes_to g (cr_name c), c))
         (filter_mset (\<lambda>c. \<not> gated g c \<and> leaves_process c) (mset calls))"
  by (rule round_hands_over)

section \<open>Every request is answered\<close>

definition answer_ids :: "message list \<Rightarrow> string option list" where
  "answer_ids ms = map (\<lambda>m. case m of Answer i s \<Rightarrow> Some i | _ \<Rightarrow> None) ms"

text \<open>A message that requests calls is followed by one answer per call, in order and under the id of the call;
  no answer stands anywhere else.\<close>

function answered :: "message list \<Rightarrow> bool" where
  "answered [] = True"
| "answered (Message r s # ms) = answered ms"
| "answered (Given d # ms) = answered ms"
| "answered (Answer i s # ms) = False"
| "answered (Requests s cs # ms) =
     (answer_ids (take (length cs) ms) = map (\<lambda>c. Some (cr_id c)) cs \<and> answered (drop (length cs) ms))"
  by pat_completeness auto
termination
  by (relation "measure length") auto

lemma answered_append: "answered ms \<Longrightarrow> answered (ms @ ns) = answered ns"
proof (induction ms rule: answered.induct)
  case (5 s cs ms)
  have "length (answer_ids (take (length cs) ms)) = length cs"
    using 5(2) by (metis answered.simps(5) length_map)
  then have "length cs \<le> length ms"
    by (simp add: answer_ids_def)
  with 5 show ?case
    by simp
qed auto

lemma report_call_messages:
  "\<exists>s. tn_messages (report_call g env c d t) = tn_messages t @ [Answer (cr_id c) s]"
  by (simp add: report_call_def emit_def say_def Let_def split: prod.split)

lemma report_all_messages:
  "\<exists>ns. tn_messages (report_all g env result calls t) = tn_messages t @ ns
     \<and> answer_ids ns = map (\<lambda>c. Some (cr_id c)) calls"
proof (induction calls arbitrary: t)
  case (Cons c cs)
  let ?t = "if gated g c then say [Answer (cr_id c) AWAITING] (emit [Ev_Approval c] t)
            else report_call g env c (result (cr_id c)) t"
  obtain s where "tn_messages ?t = tn_messages t @ [Answer (cr_id c) s]"
    using report_call_messages [of g env c "result (cr_id c)" t] by (cases "gated g c") (auto simp: say_def emit_def)
  moreover obtain ns where "tn_messages (report_all g env result cs ?t) = tn_messages ?t @ ns"
    "answer_ids ns = map (\<lambda>c. Some (cr_id c)) cs"
    using Cons.IH by blast
  ultimately show ?case
    by (intro exI [of _ "Answer (cr_id c) s # ns"]) (simp add: answer_ids_def)
qed (simp add: answer_ids_def)

lemma tool_round_messages:
  obtains ns sp where "tn_messages (tool_round g env spoken calls t) = tn_messages t @ Requests sp calls # ns"
    "answer_ids ns = map (\<lambda>c. Some (cr_id c)) calls"
proof -
  let ?t2 = "emit (map (\<lambda>c. Ev_Start c (wants_learn c)) (filter (\<lambda>c. \<not> gated g c) calls))
      (say [Requests (if spoken = [] then None else Some spoken) calls] t)"
  obtain t3 ds where run: "run_all g env calls (schedule env (tn_world ?t2) (open_positions g calls)) ?t2 = (t3, ds)"
    by fastforce
  have t3: "tn_messages t3 = tn_messages t @ [Requests (if spoken = [] then None else Some spoken) calls]"
    using run_all_frame [OF run] by (simp add: emit_def say_def)
  obtain ns where "tn_messages (report_all g env (result_of g calls ds) calls t3) = tn_messages t3 @ ns"
    "answer_ids ns = map (\<lambda>c. Some (cr_id c)) calls"
    using report_all_messages by blast
  with t3 show thesis
    by (intro that [of "if spoken = [] then None else Some spoken" ns]) (simp_all add: tool_round_def run Let_def)
qed

interpretation transcript: turn_invariant g env "\<lambda>t. answered (tn_messages t)"
  for g :: gate and env :: "'w env"
proof
  fix t :: "'w turn" and spoken calls
  assume hold: "answered (tn_messages t)"
  obtain ns sp where ns: "tn_messages (tool_round g env spoken calls t) = tn_messages t @ Requests sp calls # ns"
    "answer_ids ns = map (\<lambda>c. Some (cr_id c)) calls"
    by (rule tool_round_messages)
  then have "length ns = length calls"
    by (metis answer_ids_def length_map)
  then have "answered (Requests sp calls # ns)"
    using ns(2) by simp
  then show "answered (tn_messages (tool_round g env spoken calls t))"
    by (simp add: ns(1) answered_append [OF hold])
qed (simp_all add: emit_def ask_frame)

section \<open>The turn ends once, after boundedly many requests\<close>

lemma hear_silent:
  "\<forall>e\<in>set (rp_events r). \<not> is_done e \<Longrightarrow> listen = hear \<or> listen = hear_closing \<Longrightarrow>
   \<forall>e\<in>set (rp_events (fold listen es r)). \<not> is_done e"
proof (induction es arbitrary: r)
  case (Cons e es)
  have "\<forall>e'\<in>set (rp_events (listen e r)). \<not> is_done e'"
    using Cons.prems by (cases e) auto
  with Cons show ?case
    by simp
qed simp

interpretation silent: call_invariant g env "\<lambda>t. \<forall>e\<in>set (tn_events t). \<not> is_done e"
  for g :: gate and env :: "'w env"
proof
  fix t t' :: "'w turn" and specs listen ms r err
  assume "\<forall>e\<in>set (tn_events t). \<not> is_done e" "listen = hear \<or> listen = hear_closing"
    and "ask env listen ms specs t = (r, err, t')"
  then show "\<forall>e\<in>set (tn_events t'). \<not> is_done e"
    using hear_silent [of no_reply listen]
    by (auto simp: ask_def emit_def no_reply_def Let_def split: prod.splits)
next
  fix t t' :: "'w turn" and c d
  assume "\<forall>e\<in>set (tn_events t). \<not> is_done e" "run_call g env c t = (t', d)"
  then show "\<forall>e\<in>set (tn_events t'). \<not> is_done e"
    using run_call_frame by metis
qed (auto simp: emit_def say_def)

lemma tool_round_offered [simp]: "tn_offered (tool_round g env spoken calls t) = tn_offered t"
  by (auto simp: tool_round_def emit_def say_def Let_def dest!: run_all_frame split: prod.split)

lemma ask_offered_length:
  "ask env listen ms specs t = (r, err, t') \<Longrightarrow> length (tn_offered t') = Suc (length (tn_offered t))"
  by (simp add: ask_frame)

lemma plain_answer_requests: "length (tn_offered (turn_of (plain_answer env spoken t))) \<le> Suc (length (tn_offered t))"
  by (auto simp: plain_answer_def emit_def Let_def dest!: ask_offered_length split: prod.split option.split)

lemma iterate_requests:
  "length (tn_offered (turn_of (iterate g env n first t))) \<le> length (tn_offered t) + n + 1"
proof (induction n arbitrary: first t)
  case 0
  show ?case
    by (auto simp: forced_answer_def emit_def Let_def dest!: ask_offered_length split: prod.split option.split)
next
  case (Suc n)
  let ?specs = "offered_specs g (tn_surface t)"
  let ?t0 = "if first then t else emit [Ev_Phase ''iterating''] t"
  obtain r err t1 where ask: "ask env hear (tn_messages ?t0) (Some ?specs) ?t0 = (r, err, t1)"
    by (metis prod_cases3)
  have t1: "length (tn_offered t1) = Suc (length (tn_offered t))"
    using ask_offered_length [OF ask] by (simp add: emit_def)
  obtain spoken calls where rec: "recover env (?specs \<noteq> []) (rp_spoken r) (rp_calls r) = (spoken, calls)"
    by fastforce
  show ?case
    using Suc.IH [of False "tool_round g env spoken calls t1"] plain_answer_requests [of env spoken t1] t1
    by (simp add: ask rec Let_def split: option.split)
qed

text \<open>A model that never raises always lets the turn answer, whatever the tools do.\<close>

definition model_answers :: "'w env \<Rightarrow> bool" where
  "model_answers env \<longleftrightarrow> (\<forall>w ms specs. snd (fst (en_model env w ms specs)) = None)"

lemma ask_answers: "model_answers env \<Longrightarrow> ask env listen ms specs t = (r, err, t') \<Longrightarrow> err = None"
proof -
  assume env: "model_answers env" and ask: "ask env listen ms specs t = (r, err, t')"
  obtain es e w where m: "en_model env (tn_world t) ms specs = ((es, e), w)"
    by (metis prod.collapse)
  with env have "e = None"
    unfolding model_answers_def by (metis fst_conv snd_conv)
  with ask m show "err = None"
    by (simp add: ask_def Let_def)
qed

lemma iterate_answers: "model_answers env \<Longrightarrow> \<exists>t'. iterate g env n first t = Answered t'"
proof (induction n arbitrary: first t)
  case 0
  then show ?case
    by (auto simp: forced_answer_def Let_def dest: ask_answers split: prod.split option.split)
next
  case (Suc n)
  have plain: "\<exists>t'. plain_answer env spoken u = Answered t'" for spoken u
    using Suc.prems by (auto simp: plain_answer_def Let_def dest: ask_answers split: prod.split option.split)
  show ?case
    using Suc plain by (auto simp: Let_def dest: ask_answers split: prod.split option.split)
qed

section \<open>The whole turn\<close>

lemma turn_gate_simps [simp]:
  "ga_catalog (turn_gate su cat) = cat" "ga_connectors (turn_gate su cat) = su_connectors su"
  "ga_policy (turn_gate su cat) = write_policy_mode su" "ga_native (turn_gate su cat) = su_native su"
  "ga_index (turn_gate su cat) = merged_tools (load_azure su) (load_entra su)"
  "ga_entra (turn_gate su cat) = map dt_name (load_entra su)"
  by (simp_all add: turn_gate_def)

lemma core_spec_names: "sp_name ` set internal_tool_specs = set CORE_NAMES"
  by (simp add: internal_tool_specs_def core_spec_def CORE_NAMES_def)

lemma turn_gate_ok: "gate_ok (turn_gate su (turn_entries su))"
proof -
  have "te_name e \<in> set CORE_NAMES" if e: "e \<in> set (turn_entries su)" "te_source e = ''internal''" for e
  proof -
    have server: "te_source (entry_of_tool hint u) \<noteq> ''internal''" if "hint = ''azure_mcp'' \<or> hint = ''entra_mcp''" for hint u
      using that internal_source [of "spec_of_tool u" hint "dt_kind u"] by (auto simp: entry_of_tool_def)
    have conn: "te_source (connector_entry c) \<noteq> ''internal''" for c
      using internal_source [of _ "''connector:'' @ ct_type c"] internal_source [of _ "''connector''"]
      by (auto simp: connector_entry_def)
    have "e \<in> set (internal_entries (su_skills_enabled su))"
      using e server conn by (auto simp: turn_entries_def Let_def)
    then show ?thesis
      using core_spec_names by (auto simp: internal_entries_def)
  qed
  then show ?thesis
    by (simp add: gate_ok_def)
qed

lemma new_store_max: "as_max (new_store 32 3600) = 32"
  by (simp add: new_store_def)

definition started :: "'w env \<Rightarrow> turn_setup \<Rightarrow> 'w \<Rightarrow> 'w turn" where
  "started env su w =
     say (opening_messages su) (emit [Ev_Routing (diagnostics (turn_surface su (turn_entries su)))]
       ((new_turn w)\<lparr>tn_surface := turn_surface su (turn_entries su)\<rparr>))"

lemma run_turn_cases:
  obtains (collision) e where "run_turn env su w = Failed e (new_turn w)" "\<not> distinct (map te_name (turn_entries su))"
  | (loop) "distinct (cat_names (turn_entries su))"
      "run_turn env su w = iterate (turn_gate su (turn_entries su)) env (nat (su_max_iterations su)) True (started env su w)"
proof (cases "new_catalog (turn_entries su)")
  case (Inl e)
  then have "\<not> distinct (map te_name (turn_entries su))"
    using new_catalog_iff [of "turn_entries su" "turn_entries su"] by (auto simp: cat_names_def)
  with Inl collision show thesis
    by (simp add: run_turn_def)
next
  case (Inr cat)
  then have "cat = turn_entries su" "distinct (cat_names (turn_entries su))"
    by (simp_all add: new_catalog_iff)
  with Inr loop show thesis
    by (simp add: run_turn_def started_def Let_def)
qed

lemma ended_turn:
  assumes "ended hold out" "\<And>t es. hold t \<Longrightarrow> hold' (emit es t)" "\<And>t. hold t \<Longrightarrow> hold' t"
  shows "hold' (turn_of out)"
  using assms by (auto simp: ended_def split: outcome.splits)

lemma started_facts [simp]:
  "tn_sent (started env su w) = []" "tn_offered (started env su w) = []" "tn_store (started env su w) = new_store 32 3600"
  "tn_surface (started env su w) = turn_surface su (turn_entries su)" "tn_messages (started env su w) = opening_messages su"
  by (simp_all add: started_def new_turn_def emit_def say_def)

lemma new_turn_facts [simp]:
  "tn_sent (new_turn w) = []" "tn_offered (new_turn w) = []" "tn_messages (new_turn w) = []"
  "tn_surface (new_turn w) = blank_surface" "tn_store (new_turn w) = new_store 32 3600"
  by (simp_all add: new_turn_def)

section \<open>A concrete turn\<close>

text \<open>One Azure tool on a writable server; the model first asks to list and to delete machines, then answers.\<close>

definition vm_list :: call_request where
  "vm_list = \<lparr>cr_id = ''c1'', cr_name = ''compute'', cr_args = [(''command'', J_Text ''vm_list'')]\<rparr>"
definition vm_delete :: call_request where
  "vm_delete = \<lparr>cr_id = ''c2'', cr_name = ''compute'', cr_args = [(''command'', J_Text ''vm_delete'')]\<rparr>"

definition demo_env :: "nat env" where
  "demo_env =
     \<lparr>en_clock = int, en_uuid = (\<lambda>w. (''a1'', w)),
      en_model = (\<lambda>w ms specs. ((if w = 0 then [S_Calls [vm_list, vm_delete]] else [S_Token ''Three machines found.''], None), Suc w)),
      en_backend = (\<lambda>b w name args. (Inr [(''isError'', J_Bool False), (''content'', J_List [J_Text ''ok''])], w)),
      en_order = (\<lambda>w ps. rev ps), en_xml_calls = (\<lambda>s. []), en_xml_marker = (\<lambda>s. -1), en_json_calls = (\<lambda>s. []),
      en_strip = (\<lambda>s. s), en_compact = (\<lambda>d. d), en_sanitize = (\<lambda>s. s)\<rparr>"

definition compute_tool :: discovered_tool where
  "compute_tool = \<lparr>dt_name = ''compute'', dt_description = ''Virtual machines'', dt_parameters = J_Obj [],
     dt_kind = ''write'', dt_available = True, dt_reason = []\<rparr>"

definition demo_setup :: turn_setup where
  "demo_setup =
     \<lparr>su_azure_enabled = True, su_azure_tools = [], su_azure_bundles = [], su_azure_disabled = [],
      su_azure_listing = Inr [compute_tool], su_entra_listing = None, su_entra_blocked = [], su_entra_disabled = [],
      su_entra_tools = [], su_entra_bundles = [], su_connectors = [], su_skills = [], su_skills_enabled = False,
      su_routing_enabled = True, su_native = False, su_initial_budget = 24, su_max_per_turn = 32, su_page = 8,
      su_max_iterations = 16, su_result_limit = 20000, su_discovery_limit = 60000, su_policy_override = [],
      su_auto_execute = None, su_policy_default = ''gated'', su_system = ''You are an assistant.'', su_scope_hint = [],
      su_history = [[(''role'', J_Text ''user''), (''content'', J_Text ''list vms'')]]\<rparr>"

lemma demo_index: "load_azure demo_setup = [compute_tool]" "load_entra demo_setup = []"
  by (simp_all add: load_azure_def azure_admits_def scoped_def demo_setup_def compute_tool_def load_entra_def)

lemma demo_distinct: "distinct (map te_name (turn_entries demo_setup))"
  by (simp add: turn_entries_def demo_index compute_tool_def entry_of_tool_def spec_of_tool_def plain_spec_def
      internal_entries_def internal_tool_specs_def core_spec_def) (simp add: demo_setup_def)

lemma demo_fields: "su_connectors demo_setup = []" "su_max_iterations demo_setup = 16" "su_max_per_turn demo_setup = 32"
  by (simp_all add: demo_setup_def)

lemma demo_names: "cr_name vm_list = ''compute''" "cr_name vm_delete = ''compute''"
  by (simp_all add: vm_list_def vm_delete_def)

lemma demo_policy: "write_policy_mode demo_setup = ''gated''"
  by (simp add: write_policy_mode_def effective_write_policy_def demo_setup_def)

lemma demo_verdicts: "classify_call ''compute'' (cr_args vm_list) = ''read''" "classify_call ''compute'' (cr_args vm_delete) = ''write''"
  by code_simp+

abbreviation demo_gate :: gate where
  "demo_gate \<equiv> turn_gate demo_setup (turn_entries demo_setup)"

lemma demo_catalog: "cat_get (turn_entries demo_setup) ''compute'' = Some (entry_of_tool ''azure_mcp'' compute_tool)"
  by (simp add: turn_entries_def demo_index cat_get_def entry_of_tool_def spec_of_tool_def plain_spec_def compute_tool_def)

lemma demo_not_internal: "te_source (entry_of_tool ''azure_mcp'' u) \<noteq> ''internal''"
  using internal_source [of "spec_of_tool u" "''azure_mcp''"] by (auto simp: entry_of_tool_def)

lemma demo_gated: "\<not> gated demo_gate vm_list" "gated demo_gate vm_delete"
  using demo_verdicts demo_not_internal
  by (simp_all add: gated_def call_kind_def demo_policy demo_catalog connector_has_def indexed_tool_def
      demo_index merged_tools_def demo_fields demo_names) (simp_all add: compute_tool_def)

lemma demo_open: "open_positions demo_gate [vm_list, vm_delete] = [0]"
  by (simp add: open_positions_def demo_gated upt_rec)

lemma demo_backend: "goes_to demo_gate ''compute'' = To_Azure"
  by (simp add: goes_to_def connector_has_def demo_index demo_fields)

lemma demo_round:
  "tn_world (tool_round demo_gate demo_env s [vm_list, vm_delete] t) = tn_world t"
  "tn_sent (tool_round demo_gate demo_env s [vm_list, vm_delete] t) = tn_sent t @ [(To_Azure, vm_list)]"
proof -
  have run: "run_call demo_gate demo_env vm_list u = (u\<lparr>tn_sent := tn_sent u @ [(To_Azure, vm_list)]\<rparr>,
      [(''isError'', J_Bool False), (''content'', J_List [J_Text ''ok''])])" for u :: "nat turn"
    by (simp add: run_call_def demo_names connector_has_def demo_index demo_fields send_def) (simp add: demo_env_def)
  have order: "schedule demo_env w [0] = [0]" for w
    by (simp add: schedule_def demo_env_def)
  have world: "tn_world (report_call demo_gate demo_env c d u) = tn_world u" for c d and u :: "nat turn"
    by (simp add: report_call_def demo_env_def emit_def say_def Let_def split: prod.split)
  show "tn_world (tool_round demo_gate demo_env s [vm_list, vm_delete] t) = tn_world t"
    by (simp add: tool_round_def demo_open order run demo_gated world emit_def say_def Let_def)
  show "tn_sent (tool_round demo_gate demo_env s [vm_list, vm_delete] t) = tn_sent t @ [(To_Azure, vm_list)]"
    by (simp add: tool_round_def demo_open order run demo_gated emit_def say_def Let_def)
qed

lemma demo_answers: "\<exists>t. run_turn demo_env demo_setup 0 = Answered t"
proof -
  have "model_answers demo_env"
    by (simp add: model_answers_def demo_env_def)
  then show ?thesis
    by (cases rule: run_turn_cases [of demo_env demo_setup 0]) (use demo_distinct iterate_answers in auto)
qed

lemma demo_run:
  obtains ns sp where "tn_sent (turn_of (run_turn demo_env demo_setup 0)) = [(To_Azure, vm_list)]"
    "tn_messages (turn_of (run_turn demo_env demo_setup 0)) = opening_messages demo_setup @ Requests sp [vm_list, vm_delete] # ns"
    "answer_ids ns = map (\<lambda>c. Some (cr_id c)) [vm_list, vm_delete]"
proof -
  have turn: "run_turn demo_env demo_setup 0 = iterate demo_gate demo_env 16 True (started demo_env demo_setup 0)"
    by (cases rule: run_turn_cases [of demo_env demo_setup 0]) (use demo_distinct in \<open>simp_all add: demo_setup_def\<close>)
  have world: "tn_world (started demo_env demo_setup 0) = 0"
    by (simp add: started_def new_turn_def emit_def say_def)
  have first: "\<exists>r t1. ask demo_env hear ms specs t = (r, None, t1) \<and> rp_calls r = [vm_list, vm_delete]
      \<and> tn_world t1 = 1 \<and> tn_sent t1 = tn_sent t \<and> tn_messages t1 = tn_messages t" if "tn_world t = 0" for ms specs t
    using that by (simp add: ask_def demo_env_def emit_def Let_def)
  have second: "\<exists>r t1. ask demo_env hear ms specs t = (r, None, t1) \<and> rp_calls r = [] \<and> rp_spoken r = ''Three machines found.''
      \<and> tn_sent t1 = tn_sent t \<and> tn_messages t1 = tn_messages t" if "tn_world t = 1" for ms specs t
    using that by (simp add: ask_def demo_env_def emit_def no_reply_def Let_def)
  have last: "plain_answer demo_env ''Three machines found.'' t = Answered (emit [done_event ''Three machines found.'' None t] t)" for t
  proof -
    have "\<not> is_blank_answer ''Three machines found.''"
      by code_simp
    then show ?thesis
      by (simp add: plain_answer_def demo_env_def)
  qed
  show ?thesis
  proof -
    obtain r t1 where one: "ask demo_env hear (tn_messages (started demo_env demo_setup 0))
        (Some (offered_specs demo_gate (turn_surface demo_setup (turn_entries demo_setup)))) (started demo_env demo_setup 0) = (r, None, t1)"
      "rp_calls r = [vm_list, vm_delete]" "tn_world t1 = 1" "tn_sent t1 = []" "tn_messages t1 = opening_messages demo_setup"
      using first [OF world] by fastforce
    obtain sp ns where round: "tn_messages (tool_round demo_gate demo_env (rp_spoken r) [vm_list, vm_delete] t1)
        = opening_messages demo_setup @ Requests sp [vm_list, vm_delete] # ns" "answer_ids ns = map (\<lambda>c. Some (cr_id c)) [vm_list, vm_delete]"
      using tool_round_messages [of demo_gate demo_env "rp_spoken r" "[vm_list, vm_delete]" t1] one(5) by metis
    let ?t2 = "emit [Ev_Phase ''iterating''] (tool_round demo_gate demo_env (rp_spoken r) [vm_list, vm_delete] t1)"
    have "tn_world ?t2 = 1" "tn_sent ?t2 = [(To_Azure, vm_list)]" "tn_messages ?t2 = opening_messages demo_setup @ Requests sp [vm_list, vm_delete] # ns"
      using demo_round one(3,4) round(1) by (simp_all add: emit_def)
    moreover from this obtain q t3 where two: "ask demo_env hear (tn_messages ?t2)
        (Some (offered_specs demo_gate (tn_surface ?t2))) ?t2 = (q, None, t3)"
      "rp_calls q = []" "rp_spoken q = ''Three machines found.''" "tn_sent t3 = [(To_Azure, vm_list)]"
      "tn_messages t3 = opening_messages demo_setup @ Requests sp [vm_list, vm_delete] # ns"
      using second [of ?t2] by fastforce
    moreover have "recover demo_env b s [] = (s, [])" for b s
      by (simp add: recover_def demo_env_def)
    moreover have "recover demo_env b s [vm_list, vm_delete] = (s, [vm_list, vm_delete])" for b s
      by (simp add: recover_def)
    ultimately show ?thesis
      using one last [of t3] round(2) by (intro that [of sp ns]) (simp_all add: turn numeral_eq_Suc emit_def)
  qed
qed

lemma demo_sent: "tn_sent (turn_of (run_turn demo_env demo_setup 0)) = [(To_Azure, vm_list)]"
  using demo_run by blast

section \<open>The guarantees\<close>

text \<open>C25. While writes need approval, every call that leaves the process in a turn, through all its rounds, is a
  read: a connector tool that is not declared mutating, or a call whose own verdict is read or whose name a
  loaded server lists as read.\<close>

theorem turn_runs_only_reads:
  assumes "write_policy_mode su \<noteq> ''off''" "(b, c) \<in> set (tn_sent (turn_of (run_turn env su w)))"
  shows "if b = To_Connector
         then \<forall>k. find (\<lambda>k. ct_name k = cr_name c) (su_connectors su) = Some k \<longrightarrow> ct_kind k \<noteq> ''write''
         else classify_call (cr_name c) (cr_args c) = ''read''
              \<or> (\<exists>t\<in>set (load_azure su @ load_entra su). dt_name t = cr_name c \<and> dt_kind t = ''read'')"
proof (cases rule: run_turn_cases [of env su w])
  case (collision e)
  with assms(2) show ?thesis
    by simp
next
  case loop
  let ?g = "turn_gate su (turn_entries su)"
  have "ended (\<lambda>t. gate_ok ?g \<and> ga_policy ?g \<noteq> ''off'' \<longrightarrow> (\<forall>(b, c)\<in>set (tn_sent t). permitted ?g b c))
      (run_turn env su w)"
    unfolding loop(2) by (rule sends.iterate_ended) simp
  then have "gate_ok ?g \<and> ga_policy ?g \<noteq> ''off'' \<longrightarrow> (\<forall>(b, c)\<in>set (tn_sent (turn_of (run_turn env su w))). permitted ?g b c)"
    by (rule ended_turn) (simp_all add: emit_def)
  then have "permitted ?g b c"
    using assms turn_gate_ok [of su] by auto
  then show ?thesis
    by (auto simp: permitted_def connector_kind_def merged_tools_def split: if_splits)
qed

theorem turn_runs_only_reads_witness:
  "tn_sent (turn_of (run_turn demo_env demo_setup 0)) = [(To_Azure, vm_list)]
   \<and> (classify_call (cr_name vm_list) (cr_args vm_list) = ''read''
      \<or> (\<exists>t\<in>set (load_azure demo_setup @ load_entra demo_setup). dt_name t = cr_name vm_list \<and> dt_kind t = ''read''))"
  using turn_runs_only_reads [of demo_setup To_Azure vm_list demo_env 0] by (simp add: demo_sent demo_policy)

text \<open>C27. Every request for calls in the transcript of a turn is followed at once by one answer for each call, in
  order and under its id, whether the call ran, failed or awaits approval.\<close>

theorem turn_answers_every_call: "answered (tn_messages (turn_of (run_turn env su w)))"
proof (cases rule: run_turn_cases [of env su w])
  case loop
  have "answered (map Given ds)" for ds
    by (induction ds) simp_all
  then have "answered (tn_messages (started env su w))"
    by (simp add: opening_messages_def)
  then have "ended (\<lambda>t. answered (tn_messages t)) (run_turn env su w)"
    unfolding loop(2) by (rule transcript.iterate_ended)
  then show ?thesis
    by (rule ended_turn) (simp_all add: emit_def)
qed simp

text \<open>C28. The tools offered to the model never exceed the ceiling of the turn, over searches, bundles and skills:
  neither the active surface nor any request of it, except a native search, which offers the catalog deferred.
  The store of large results stays bounded too.\<close>

theorem turn_stays_within_budget:
  assumes "run_turn env su w = Answered t"
  shows "int (length (sf_active (tn_surface t))) \<le> max 4 (su_max_per_turn su)
    \<and> distinct (sf_active (tn_surface t)) \<and> set (sf_active (tn_surface t)) \<subseteq> set (cat_names (turn_entries su))
    \<and> (\<not> su_native su \<longrightarrow> (\<forall>k\<in>set (tn_offered t). int k \<le> max 4 (su_max_per_turn su)))
    \<and> length (as_items (tn_store t)) \<le> 32"
proof (cases rule: run_turn_cases [of env su w])
  case loop
  let ?g = "turn_gate su (turn_entries su)" and ?most = "max 4 (su_max_per_turn su)"
  have "distinct (cat_names (turn_entries su)) \<longrightarrow> within_budget ?g ?most (turn_entries su) (started env su w)"
    by (simp add: within_budget_def turn_surface_def route_initial_ok new_store_ok new_store_max)
  then have "ended (\<lambda>t. distinct (cat_names (turn_entries su)) \<longrightarrow> within_budget ?g ?most (turn_entries su) t) (run_turn env su w)"
    unfolding loop(2) by (rule budget.iterate_ended)
  then have "distinct (cat_names (turn_entries su)) \<longrightarrow> within_budget ?g ?most (turn_entries su) (turn_of (run_turn env su w))"
    by (rule ended_turn) (simp_all add: emit_def within_budget_def)
  then have "within_budget ?g ?most (turn_entries su) t"
    using assms loop(1) by simp
  then show ?thesis
    by (auto simp: within_budget_def surface_ok_def store_ok_def)
qed (use assms in simp)

theorem turn_stays_within_budget_witness:
  "\<exists>t. run_turn demo_env demo_setup 0 = Answered t \<and> int (length (sf_active (tn_surface t))) \<le> 32"
proof -
  obtain t where "run_turn demo_env demo_setup 0 = Answered t"
    using demo_answers by blast
  then show ?thesis
    using turn_stays_within_budget [of demo_env demo_setup 0 t] by (simp add: demo_fields)
qed

text \<open>C26. A turn over distinct tool names with a model that does not raise always answers, with one closing event
  at the very end, after at most one model request per permitted round and one more, whatever the tools,
  their failures and the order of their results.\<close>

theorem turn_ends_with_one_answer:
  assumes "model_answers env" "distinct (map te_name (turn_entries su))"
  shows "\<exists>t es content remark. run_turn env su w = Answered t
    \<and> tn_events t = es @ [Ev_Done content (tn_prompt t) (tn_completion t) remark (diagnostics (tn_surface t))]
    \<and> (\<forall>e\<in>set es. \<not> is_done e)
    \<and> length (tn_offered t) \<le> nat (su_max_iterations su) + 1"
proof (cases rule: run_turn_cases [of env su w])
  case loop
  let ?g = "turn_gate su (turn_entries su)"
  obtain t where t: "run_turn env su w = Answered t"
    using iterate_answers [OF assms(1)] loop(2) by metis
  have "\<forall>e\<in>set (tn_events (started env su w)). \<not> is_done e"
    by (simp add: started_def new_turn_def emit_def say_def)
  then have "ended (\<lambda>t. \<forall>e\<in>set (tn_events t). \<not> is_done e) (run_turn env su w)"
    unfolding loop(2) by (rule silent.iterate_ended)
  then obtain t0 content remark where t0: "\<forall>e\<in>set (tn_events t0). \<not> is_done e" "t = emit [done_event content remark t0] t0"
    unfolding t ended_def by auto
  have "length (tn_offered t) \<le> nat (su_max_iterations su) + 1"
    using iterate_requests [of ?g env "nat (su_max_iterations su)" True "started env su w"] t loop(2) by simp
  then show ?thesis
    using t t0 by (intro exI [of _ t] exI [of _ "tn_events t0"] exI [of _ content] exI [of _ remark])
      (simp add: emit_def done_event_def)
qed (use assms in simp)

theorem turn_ends_with_one_answer_witness:
  "\<exists>t es content remark. run_turn demo_env demo_setup 0 = Answered t
    \<and> tn_events t = es @ [Ev_Done content (tn_prompt t) (tn_completion t) remark (diagnostics (tn_surface t))]
    \<and> length (tn_offered t) \<le> 17"
proof -
  have "model_answers demo_env"
    by (simp add: model_answers_def demo_env_def)
  from turn_ends_with_one_answer [OF this demo_distinct, of 0] show ?thesis
    by (simp add: demo_fields) blast
qed

section \<open>Where the verdict can be wrong\<close>

text \<open>A name both servers list: the Azure listing gives the verdict, the Graph server runs the call.\<close>

lemma colliding_name_runs_on_entra:
  assumes "n \<in> dt_name ` set (load_azure su)" "n \<in> dt_name ` set (load_entra su)" "\<not> connector_has (turn_gate su cat) n"
  shows "goes_to (turn_gate su cat) n = To_Entra"
    "\<exists>t\<in>set (load_azure su). indexed_tool (turn_gate su cat) n = Some t"
proof -
  show "goes_to (turn_gate su cat) n = To_Entra"
    using assms(2,3) by (auto simp: goes_to_def)
  obtain t where t: "indexed_tool (turn_gate su cat) n = Some t"
    using assms(1) find_Some_ex [of "\<lambda>t. dt_name t = n" "rev (merged_tools (load_azure su) (load_entra su))"]
    by (auto simp: indexed_tool_def merged_tools_def)
  have "t \<in> set (load_azure su)"
    using indexed_toolD [OF t] assms(1) by (auto simp: merged_tools_def)
  with t show "\<exists>t\<in>set (load_azure su). indexed_tool (turn_gate su cat) n = Some t"
    by blast
qed

text \<open>A tool listed as a read never needs approval, whatever operation its call names; on a writable server the
  listing is the substring heuristic.\<close>

lemma listed_read_overrides_operation:
  "indexed_tool g (cr_name c) = Some t \<Longrightarrow> dt_kind t = ''read'' \<Longrightarrow> \<not> connector_has g (cr_name c) \<Longrightarrow> \<not> gated g c"
  by (simp add: gated_def call_kind_def)

lemma load_azure_admits: "t \<in> set (load_azure su) \<Longrightarrow> azure_admits su t"
  by (cases "su_azure_enabled su \<or> su_azure_tools su \<noteq> [] \<or> su_azure_bundles su \<noteq> []"; cases "su_azure_listing su")
     (simp_all only: load_azure_def if_True if_False sum.case set_filter mem_Collect_eq list.set empty_iff)

text \<open>A tool an administrator disabled is not loaded, yet a call to it that reads as a read is still sent.\<close>

lemma disabled_tool_is_still_sent:
  assumes "n \<in> set (su_azure_disabled su)" "cr_name c = n" "classify_call n (cr_args c) = ''read''"
    "\<not> connector_has (turn_gate su cat) n" "n \<notin> set (map dt_name (load_entra su))" "cat_get cat n = None"
  shows "n \<notin> dt_name ` set (load_azure su)" "\<not> gated (turn_gate su cat) c" "goes_to (turn_gate su cat) n = To_Azure"
proof -
  show "n \<notin> dt_name ` set (load_azure su)"
    using assms(1) load_azure_admits by (auto simp: azure_admits_def)
  then have "indexed_tool (turn_gate su cat) n = None"
    using assms(5) by (auto simp: indexed_tool_def merged_tools_def find_None_iff)
  then show "\<not> gated (turn_gate su cat) c"
    using assms(2-4,6) by (simp add: gated_def call_kind_def)
  show "goes_to (turn_gate su cat) n = To_Azure"
    using assms(4,5) by (simp add: goes_to_def)
qed

text \<open>Two open calls with one id: both run, and both report the result of the second.\<close>

lemma duplicate_ids_share_result:
  assumes "cr_id a = cr_id b" "\<not> gated g a" "\<not> gated g b"
  shows "open_positions g [a, b] = [0, 1]" "result_of g [a, b] [(0, x), (1, y)] (cr_id a) = y"
  using assms by (simp_all add: open_positions_def upt_rec result_of_def task_of_def)

end
