(* ===== verification/Chat_Record.thy ===== *)
theory Chat_Record
  imports Tool_Turn "HOL-Library.AList"
begin

text \<open>
  What a chat turn leaves behind: the worker of \<open>_start_message_turn\<close> in \<^verbatim>\<open>app/api/chats.py\<close> and the loop of
  \<^verbatim>\<open>app/automations/runner.py\<close>, which read the events of a turn, keep its activity feed and write its tool
  calls, audit rows and answer. An event is a name with a JSON object. The database session is explicit: rows are added
  and reach the tables with a commit, whose outcome is an input. Columns that are the same for every row of a turn
  are left out, and symbols outside ASCII.
\<close>

section \<open>Events as they are streamed\<close>

type_synonym frame = "string \<times> doc"

text \<open>The wording of notices and summaries and the measured durations.\<close>

record wording =
  wd_notice :: "string \<Rightarrow> string"
  wd_summary :: "call_request \<Rightarrow> doc \<Rightarrow> bool \<Rightarrow> string"
  wd_duration :: "call_request \<Rightarrow> int"

definition call_data :: "call_request \<Rightarrow> doc" where
  "call_data c =
     [(''tool_call_id'', J_Text (cr_id c)), (''tool_name'', J_Text (cr_name c)), (''arguments'', J_Obj (cr_args c))]"

fun event_frame :: "wording \<Rightarrow> agent_event \<Rightarrow> frame" where
  "event_frame wd (Ev_Token s) = (''token'', [(''text'', J_Text s)])"
| "event_frame wd (Ev_Status p s) = (''status'', [(''phase'', J_Text p), (''message'', J_Text s)])"
| "event_frame wd (Ev_Phase p) = (''status'', [(''phase'', J_Text p), (''message'', J_Text (wd_notice wd p))])"
| "event_frame wd (Ev_Routing d) = (''routing'', d)"
| "event_frame wd (Ev_Start c learn) = (''tool_start'', call_data c @ [(''discovery'', J_Bool learn)])"
| "event_frame wd (Ev_Approval c) = (''approval_required'', call_data c)"
| "event_frame wd (Ev_Result c r failed learn artifacts) =
     (''tool_result'',
      [(''tool_call_id'', J_Text (cr_id c)), (''tool_name'', J_Text (cr_name c)), (''result'', J_Obj r),
       (''summary'', J_Text (wd_summary wd c r learn)), (''duration_ms'', J_Num (wd_duration wd c)),
       (''is_error'', J_Bool failed), (''discovery'', J_Bool learn), (''artifacts'', artifacts)])"
| "event_frame wd (Ev_Done content p q remark routing) =
     (''done'',
      [(''content'', J_Text content), (''prompt_tokens'', J_Num p), (''completion_tokens'', J_Num q)]
      @ (case remark of None \<Rightarrow> [] | Some s \<Rightarrow> [(''note'', J_Text s)]) @ [(''tool_routing'', J_Obj routing)])"

section \<open>The feed and the session\<close>

record tool_step =
  ts_call :: json
  ts_name :: json
  ts_args :: json
  ts_status :: string
  ts_summary :: json
  ts_duration :: json
  ts_artifacts :: json

datatype activity_step = Reasoning string | Tool_Step tool_step

record investigation =
  iv_phases :: "doc list"
  iv_hypotheses :: "doc list"
  iv_conclusion :: "doc option"
  iv_agents :: json
  iv_research :: "json option"

datatype db_row =
    Tool_Call json json string string
  | Audit_Log string json doc
  | Usage_Row json json

text \<open>The columns of the assistant message a turn writes.\<close>

record answer_row =
  aw_content :: string
  aw_activity :: "activity_step list option"
  aw_investigation :: "investigation option"
  aw_duration :: "int option"

text \<open>A turn stops early with an exception or because its task is cancelled. A commit goes through, is lost with its
  rows, or goes through although the session sees it fail.\<close>

datatype halt = Raised string | Cancelled

datatype commit_reply = Committed | Lost halt | Unheard halt

record worker =
  wk_text :: string
  wk_reasoning :: string
  wk_tokens :: nat
  wk_prompt :: json
  wk_completion :: json
  wk_routing :: doc
  wk_activity :: "activity_step list"
  wk_investigation :: investigation
  wk_row :: answer_row
  wk_added :: "db_row list"
  wk_rows :: "db_row list"
  wk_saved :: answer_row
  wk_stream :: "frame list"
  wk_replies :: "commit_reply list"

record worker_turn =
  wt_chat :: string
  wt_assistant :: string
  wt_deep :: bool
  wt_provider :: string
  wt_model :: string
  wt_duration :: int
  wt_strip :: "string \<Rightarrow> string"

type_synonym progress = "halt option \<times> worker"

definition then_do :: "progress \<Rightarrow> (worker \<Rightarrow> progress) \<Rightarrow> progress" where
  "then_do p f = (case p of (None, w) \<Rightarrow> f w | (Some h, w) \<Rightarrow> (Some h, w))"

definition all_in :: "worker \<Rightarrow> worker" where
  "all_in w = w\<lparr>wk_rows := wk_rows w @ wk_added w, wk_added := [], wk_saved := wk_row w\<rparr>"

text \<open>After a lost commit the session is rolled back: what was added is gone and the row reads as stored.\<close>

definition commit :: "worker \<Rightarrow> progress" where
  "commit w =
     (case wk_replies w of
        [] \<Rightarrow> (None, all_in w)
      | Committed # rs \<Rightarrow> (None, all_in (w\<lparr>wk_replies := rs\<rparr>))
      | Lost h # rs \<Rightarrow> (Some h, w\<lparr>wk_replies := rs, wk_added := [], wk_row := wk_saved w\<rparr>)
      | Unheard h # rs \<Rightarrow> (Some h, all_in (w\<lparr>wk_replies := rs\<rparr>)))"

definition checkpoint :: "worker_turn \<Rightarrow> worker \<Rightarrow> progress" where
  "checkpoint wt w =
     commit (w\<lparr>wk_row := (wk_row w)\<lparr>aw_content := wk_text w,
        aw_activity := (if wk_activity w = [] then None else Some (wk_activity w)),
        aw_investigation := (if wt_deep wt then Some (wk_investigation w) else aw_investigation (wk_row w))\<rparr>\<rparr>)"

definition add_rows :: "db_row list \<Rightarrow> worker \<Rightarrow> worker" where
  "add_rows rows w = w\<lparr>wk_added := wk_added w @ rows\<rparr>"

definition publish :: "frame \<Rightarrow> worker \<Rightarrow> progress" where
  "publish f w = (None, w\<lparr>wk_stream := wk_stream w @ [f]\<rparr>)"

definition field :: "doc \<Rightarrow> string \<Rightarrow> json" where
  "field d k = (case map_of d k of None \<Rightarrow> J_Null | Some v \<Rightarrow> v)"

definition key_error :: "string \<Rightarrow> halt" where
  "key_error k = Raised (repr_text k)"

section \<open>Reading one event\<close>

definition note_text :: "worker_turn \<Rightarrow> frame \<Rightarrow> worker \<Rightarrow> progress" where
  "note_text wt f w =
     (let (ty, d) = f in
      if ty = ''token'' then
        (case map_of d ''text'' of
           Some (J_Text s) \<Rightarrow>
             (let w1 = w\<lparr>wk_text := wk_text w @ s, wk_reasoning := wk_reasoning w @ s, wk_tokens := wk_tokens w + 1\<rparr>
              in if 40 \<le> wk_tokens w1 then checkpoint wt (w1\<lparr>wk_tokens := 0\<rparr>) else (None, w1))
         | _ \<Rightarrow> (Some (key_error ''text''), w))
      else if ty = ''done'' then
        (None, w\<lparr>wk_prompt := (case map_of d ''prompt_tokens'' of None \<Rightarrow> J_Num 0 | Some v \<Rightarrow> v),
             wk_completion := (case map_of d ''completion_tokens'' of None \<Rightarrow> J_Num 0 | Some v \<Rightarrow> v),
             wk_text := (if truthy (map_of d ''content'') then py_str (field d ''content'') else wk_text w),
             wk_investigation := (case map_of d ''investigation'' of
                Some (J_Obj (x # xs)) \<Rightarrow> (wk_investigation w)\<lparr>iv_research := Some (field (x # xs) ''research'')\<rparr>
              | _ \<Rightarrow> wk_investigation w),
             wk_routing := (case map_of d ''tool_routing'' of Some (J_Obj (x # xs)) \<Rightarrow> x # xs | _ \<Rightarrow> wk_routing w)\<rparr>)
      else if ty = ''routing'' then (None, w\<lparr>wk_routing := d\<rparr>)
      else (None, w))"

fun set_hypothesis :: "json \<Rightarrow> json \<Rightarrow> json \<Rightarrow> doc list \<Rightarrow> doc list" where
  "set_hypothesis i status evidence [] = []"
| "set_hypothesis i status evidence (h # hs) =
     (if field h ''id'' = i then AList.update ''evidence'' evidence (AList.update ''status'' status h) # hs
      else h # set_hypothesis i status evidence hs)"

definition noted_investigation :: "frame \<Rightarrow> investigation \<Rightarrow> investigation" where
  "noted_investigation f iv =
     (let (ty, d) = f in
      if ty = ''phase'' then iv\<lparr>iv_phases := iv_phases iv @ [d]\<rparr>
      else if ty = ''agents'' then iv\<lparr>iv_agents := (case map_of d ''agents'' of None \<Rightarrow> J_List [] | Some v \<Rightarrow> v)\<rparr>
      else if ty = ''hypothesis'' then iv\<lparr>iv_hypotheses := iv_hypotheses iv @ [d]\<rparr>
      else if ty = ''hypothesis_status'' then
        iv\<lparr>iv_hypotheses := set_hypothesis (field d ''id'') (field d ''status'')
             (case map_of d ''evidence'' of None \<Rightarrow> J_Text [] | Some v \<Rightarrow> v) (iv_hypotheses iv)\<rparr>
      else if ty = ''conclusion'' then iv\<lparr>iv_conclusion := Some d\<rparr>
      else iv)"

definition note_investigation :: "frame \<Rightarrow> worker \<Rightarrow> progress" where
  "note_investigation f w = (None, w\<lparr>wk_investigation := noted_investigation f (wk_investigation w)\<rparr>)"

definition is_call :: "string \<Rightarrow> bool" where
  "is_call ty \<longleftrightarrow> ty = ''tool_start'' \<or> ty = ''approval_required''"

definition new_step :: "string \<Rightarrow> doc \<Rightarrow> json \<Rightarrow> tool_step" where
  "new_step ty d name =
     \<lparr>ts_call = field d ''tool_call_id'', ts_name = name,
      ts_args = (case map_of d ''arguments'' of None \<Rightarrow> J_Obj [] | Some v \<Rightarrow> v),
      ts_status = (if ty = ''approval_required'' then ''awaiting_approval'' else ''running''),
      ts_summary = J_Null, ts_duration = J_Null, ts_artifacts = J_Null\<rparr>"

definition call_rows :: "worker_turn \<Rightarrow> string \<Rightarrow> doc \<Rightarrow> json \<Rightarrow> db_row list" where
  "call_rows wt ty d name =
     [Tool_Call name (case map_of d ''arguments'' of None \<Rightarrow> J_Obj [] | Some v \<Rightarrow> v)
        (if ty = ''approval_required'' then ''write'' else ''read'')
        (if ty = ''approval_required'' then ''awaiting_approval'' else ''running''),
      Audit_Log (''tool.'' @ ty) name [(''chat_id'', J_Text (wt_chat wt))]]"

definition note_call :: "worker_turn \<Rightarrow> frame \<Rightarrow> worker \<Rightarrow> progress" where
  "note_call wt f w =
     (let (ty, d) = f in
      if \<not> is_call ty then (None, w)
      else
        (let said = py_strip (wk_reasoning w);
             w1 = w\<lparr>wk_activity := wk_activity w @ (if said = [] then [] else [Reasoning said]),
                    wk_reasoning := (if said = [] then wk_reasoning w else []), wk_text := []\<rparr>
         in case map_of d ''tool_name'' of
              None \<Rightarrow> (Some (key_error ''tool_name''), w1)
            | Some name \<Rightarrow>
                checkpoint wt (add_rows (call_rows wt ty d name)
                  (w1\<lparr>wk_activity := wk_activity w1 @ [Tool_Step (new_step ty d name)]\<rparr>))))"

definition closes :: "doc \<Rightarrow> tool_step \<Rightarrow> bool" where
  "closes d s \<longleftrightarrow>
     truthy (map_of d ''tool_call_id'') \<and> ts_call s = field d ''tool_call_id''
     \<or> \<not> truthy (map_of d ''tool_call_id'') \<and> ts_name s = field d ''tool_name'' \<and> ts_status s = ''running''"

definition closed :: "doc \<Rightarrow> tool_step \<Rightarrow> tool_step" where
  "closed d s =
     s\<lparr>ts_status := (if truthy (map_of d ''is_error'') then ''error'' else ''done''), ts_summary := field d ''summary'',
       ts_duration := field d ''duration_ms'',
       ts_artifacts := (if truthy (map_of d ''artifacts'') then field d ''artifacts'' else ts_artifacts s)\<rparr>"

text \<open>The first tool step from the front that satisfies the test is changed; the feed is passed in reverse.\<close>

fun update_first :: "(tool_step \<Rightarrow> bool) \<Rightarrow> (tool_step \<Rightarrow> tool_step) \<Rightarrow> activity_step list \<Rightarrow> activity_step list" where
  "update_first p g [] = []"
| "update_first p g (Reasoning r # xs) = Reasoning r # update_first p g xs"
| "update_first p g (Tool_Step s # xs) = (if p s then Tool_Step (g s) # xs else Tool_Step s # update_first p g xs)"

definition update_last :: "(tool_step \<Rightarrow> bool) \<Rightarrow> (tool_step \<Rightarrow> tool_step) \<Rightarrow> activity_step list \<Rightarrow> activity_step list" where
  "update_last p g xs = rev (update_first p g (rev xs))"

definition result_row :: "worker_turn \<Rightarrow> doc \<Rightarrow> db_row" where
  "result_row wt d =
     Audit_Log ''tool.result''
       (J_Text (take 512 (if truthy (map_of d ''tool_name'') then py_str (field d ''tool_name'') else ''unknown'')))
       [(''chat_id'', J_Text (wt_chat wt)), (''error'', J_Bool (truthy (map_of d ''is_error''))),
        (''duration_ms'', field d ''duration_ms'')]"

definition note_result :: "worker_turn \<Rightarrow> frame \<Rightarrow> worker \<Rightarrow> progress" where
  "note_result wt f w =
     (let (ty, d) = f in
      if ty \<noteq> ''tool_result'' then (None, w)
      else checkpoint wt (add_rows [result_row wt d]
             (w\<lparr>wk_activity := update_last (closes d) (closed d) (wk_activity w), wk_reasoning := []\<rparr>)))"

definition consume :: "worker_turn \<Rightarrow> frame \<Rightarrow> worker \<Rightarrow> progress" where
  "consume wt f w =
     then_do (then_do (then_do (then_do (note_text wt f w) (note_investigation f)) (note_call wt f)) (note_result wt f)) (publish f)"

fun consume_all :: "worker_turn \<Rightarrow> frame list \<Rightarrow> worker \<Rightarrow> progress" where
  "consume_all wt [] w = (None, w)"
| "consume_all wt (f # fs) w = then_do (consume wt f w) (consume_all wt fs)"

section \<open>The end of a turn\<close>

definition cleaned :: "worker_turn \<Rightarrow> worker \<Rightarrow> worker" where
  "cleaned wt w = (if wt_strip wt (wk_text w) = [] then w else w\<lparr>wk_text := wt_strip wt (wk_text w)\<rparr>)"

definition timed :: "worker_turn \<Rightarrow> worker \<Rightarrow> worker" where
  "timed wt w = w\<lparr>wk_row := (wk_row w)\<lparr>aw_duration := Some (wt_duration wt)\<rparr>\<rparr>"

definition turn_rows :: "worker_turn \<Rightarrow> worker \<Rightarrow> db_row list" where
  "turn_rows wt w =
     [Usage_Row (wk_prompt w) (wk_completion w),
      Audit_Log ''chat.turn'' (J_Text (wt_chat wt))
        [(''chat_id'', J_Text (wt_chat wt)), (''prompt_tokens'', wk_prompt w), (''completion_tokens'', wk_completion w),
         (''tool_routing'', J_Obj (wk_routing w))]]"

definition finish :: "worker_turn \<Rightarrow> worker \<Rightarrow> progress" where
  "finish wt w =
     then_do (then_do (checkpoint wt (timed wt (cleaned wt w))) (\<lambda>w. commit (add_rows (turn_rows wt w) w)))
       (publish (''saved'', [(''id'', J_Text (wt_assistant wt)), (''duration_ms'', J_Num (wt_duration wt))]))"

definition stopped_step :: "tool_step \<Rightarrow> tool_step" where
  "stopped_step s = s\<lparr>ts_status := ''done'', ts_summary := J_Text ''Stopped by user''\<rparr>"

text \<open>A stopped turn ends cancelled in any case; a second cancellation only skips the last event.\<close>

definition stopped :: "worker_turn \<Rightarrow> worker \<Rightarrow> worker" where
  "stopped wt w =
     (let w1 = cleaned wt w;
          w2 = w1\<lparr>wk_activity := update_last (\<lambda>s. ts_status s = ''running'') stopped_step (wk_activity w1)\<rparr>
      in case checkpoint wt (timed wt w2) of
           (Some Cancelled, w3) \<Rightarrow> w3
         | (_, w3) \<Rightarrow> snd (publish (''done'', [(''content'', J_Text (wk_text w3)), (''stopped'', J_Bool True)]) w3))"

definition friendly :: "worker_turn \<Rightarrow> string \<Rightarrow> string" where
  "friendly wt detail =
     (let nl = [CHR 0x0A]; fence = replicate 3 (CHR 0x60); bold = ''**'' in
      ''The model could not complete this response.'' @ nl @ nl @ bold @ wt_provider wt @ '' - '' @ wt_model wt @ bold
      @ '' returned an error:'' @ nl @ nl @ fence @ nl @ detail @ nl @ fence @ nl @ nl
      @ ''Try again, or switch models using the picker below.'')"

definition failed :: "worker_turn \<Rightarrow> string \<Rightarrow> worker \<Rightarrow> worker" where
  "failed wt detail w =
     (let content = (if py_strip (wk_text w) = [] then friendly wt detail
            else wk_text w @ [CHR 0x0A, CHR 0x0A] @ friendly wt detail)
      in case commit (w\<lparr>wk_row := (wk_row w)\<lparr>aw_content := content\<rparr>\<rparr>) of
           (Some Cancelled, w1) \<Rightarrow> w1
         | (_, w1) \<Rightarrow> snd (publish (''error'', [(''message'', J_Text detail)]) w1))"

text \<open>How the stream of events ends for its reader.\<close>

datatype stream_end = Ran_Out | Stream_Raised string | Stopped_By_User

definition halted :: "worker_turn \<Rightarrow> halt \<Rightarrow> worker \<Rightarrow> worker" where
  "halted wt h w = (case h of Raised e \<Rightarrow> failed wt e w | Cancelled \<Rightarrow> stopped wt w)"

definition run_worker :: "worker_turn \<Rightarrow> frame list \<Rightarrow> stream_end \<Rightarrow> worker \<Rightarrow> worker" where
  "run_worker wt fs fin w =
     (case consume_all wt fs w of
        (Some h, w1) \<Rightarrow> halted wt h w1
      | (None, w1) \<Rightarrow>
          (case fin of
             Stream_Raised e \<Rightarrow> failed wt e w1
           | Stopped_By_User \<Rightarrow> stopped wt w1
           | Ran_Out \<Rightarrow> (case finish wt w1 of (Some h, w2) \<Rightarrow> halted wt h w2 | (None, w2) \<Rightarrow> w2)))"

definition new_worker :: "commit_reply list \<Rightarrow> worker" where
  "new_worker replies =
     (let row = \<lparr>aw_content = [], aw_activity = None, aw_investigation = None, aw_duration = None\<rparr>
      in \<lparr>wk_text = [], wk_reasoning = [], wk_tokens = 0, wk_prompt = J_Num 0, wk_completion = J_Num 0, wk_routing = [],
          wk_activity = [], wk_investigation = \<lparr>iv_phases = [], iv_hypotheses = [], iv_conclusion = None, iv_agents = J_List [],
            iv_research = None\<rparr>, wk_row = row, wk_added = [], wk_rows = [], wk_saved = row, wk_stream = [],
          wk_replies = replies\<rparr>)"

text \<open>A deep review of a fleet counts as done when its answer is not blank.\<close>

definition review_result :: "answer_row option \<Rightarrow> bool \<times> string" where
  "review_result a =
     (case a of
        None \<Rightarrow> (False, ''Deep review produced no assistant result.'')
      | Some r \<Rightarrow> if py_strip (aw_content r) = [] then (False, ''Deep review produced no assistant result.'') else (True, []))"

section \<open>The loop of a scheduled task\<close>

record scheduled_turn =
  sd_text :: string
  sd_activity :: "activity_step list"
  sd_prompt :: json
  sd_completion :: json
  sd_routing :: doc
  sd_error :: "json option"

definition scheduled_closed :: "doc \<Rightarrow> tool_step \<Rightarrow> tool_step" where
  "scheduled_closed d s = s\<lparr>ts_status := ''done'', ts_summary := field d ''summary'', ts_duration := field d ''duration_ms''\<rparr>"

definition scheduled_event :: "frame \<Rightarrow> scheduled_turn \<Rightarrow> (string, scheduled_turn) result" where
  "scheduled_event f t =
     (let (ty, d) = f in
      if ty = ''token'' then
        (case map_of d ''text'' of Some (J_Text s) \<Rightarrow> Inr (t\<lparr>sd_text := sd_text t @ s\<rparr>) | _ \<Rightarrow> Inl (repr_text ''text''))
      else if ty = ''done'' then
        Inr (t\<lparr>sd_prompt := (case map_of d ''prompt_tokens'' of None \<Rightarrow> J_Num 0 | Some v \<Rightarrow> v),
             sd_completion := (case map_of d ''completion_tokens'' of None \<Rightarrow> J_Num 0 | Some v \<Rightarrow> v),
             sd_text := (if truthy (map_of d ''content'') then py_str (field d ''content'') else sd_text t),
             sd_routing := (case map_of d ''tool_routing'' of Some (J_Obj (x # xs)) \<Rightarrow> x # xs | _ \<Rightarrow> sd_routing t)\<rparr>)
      else if ty = ''routing'' then Inr (t\<lparr>sd_routing := d\<rparr>)
      else if is_call ty then
        Inr (t\<lparr>sd_activity := sd_activity t @ [Tool_Step ((new_step ty d (field d ''tool_name''))\<lparr>ts_call := J_Null\<rparr>)]\<rparr>)
      else if ty = ''tool_result'' then
        Inr (t\<lparr>sd_activity := update_last (\<lambda>s. ts_status s = ''running'') (scheduled_closed d) (sd_activity t)\<rparr>)
      else if ty = ''error'' then Inr (t\<lparr>sd_error := Some (field d ''message'')\<rparr>)
      else Inr t)"

fun scheduled_events :: "frame list \<Rightarrow> scheduled_turn \<Rightarrow> scheduled_turn" where
  "scheduled_events [] t = t"
| "scheduled_events (f # fs) t =
     (case scheduled_event f t of Inl e \<Rightarrow> t\<lparr>sd_error := Some (J_Text e)\<rparr> | Inr t1 \<Rightarrow> scheduled_events fs t1)"

definition NO_RESULT :: string where
  "NO_RESULT =
     ''The agent finished without producing a result. It may have stopped on a tool error or a gated write. ''
     @ ''Check the activity log below or re-run the task.''"

definition scheduled_row :: "int \<Rightarrow> scheduled_turn \<Rightarrow> answer_row" where
  "scheduled_row duration t =
     \<lparr>aw_content = (if 8 \<le> length (filter is_alnum (sd_text t)) then py_strip (sd_text t)
          else if truthy (sd_error t) then py_str (the (sd_error t)) else NO_RESULT),
      aw_activity = (if sd_activity t = [] then None else Some (sd_activity t)), aw_investigation = None,
      aw_duration = Some duration\<rparr>"

end
