(* ===== verification/Record_Safety.thy ===== *)
theory Record_Safety
  imports Turn_Safety Chat_Record
begin

text \<open>
  What the record of a chat turn is worth: nothing is streamed before it is in the tables, every call a turn sends
  is recorded, the feed of a finished turn shows no call as running, and the answer and its usage are stored.
\<close>

section \<open>Nothing is streamed before it is recorded\<close>

definition recorded :: "worker_turn \<Rightarrow> db_row list \<Rightarrow> frame \<Rightarrow> bool" where
  "recorded wt rows f \<longleftrightarrow>
     (is_call (fst f) \<longrightarrow> (\<exists>name. map_of (snd f) ''tool_name'' = Some name
        \<and> set (call_rows wt (fst f) (snd f) name) \<subseteq> set rows))
     \<and> (fst f = ''tool_result'' \<longrightarrow> result_row wt (snd f) \<in> set rows)"

definition all_recorded :: "worker_turn \<Rightarrow> worker \<Rightarrow> bool" where
  "all_recorded wt w \<longleftrightarrow> (\<forall>f\<in>set (wk_stream w). recorded wt (wk_rows w) f)"

text \<open>Steps that stream nothing and lose no committed row.\<close>

definition grows :: "worker \<Rightarrow> worker \<Rightarrow> bool" where
  "grows w w' \<longleftrightarrow> wk_stream w' = wk_stream w \<and> set (wk_rows w) \<subseteq> set (wk_rows w')"

lemma grows_trans: "grows a b \<Longrightarrow> grows b c \<Longrightarrow> grows a c"
  by (auto simp: grows_def)

lemma recorded_mono: "recorded wt rows f \<Longrightarrow> set rows \<subseteq> set rows' \<Longrightarrow> recorded wt rows' f"
  unfolding recorded_def by blast

lemma grows_recorded: "grows w w' \<Longrightarrow> all_recorded wt w \<Longrightarrow> all_recorded wt w'"
  using recorded_mono by (auto simp: all_recorded_def grows_def)

lemma commit_cases:
  assumes "commit w = (h, w')"
  shows "grows w w'" "h = None \<Longrightarrow> wk_rows w' = wk_rows w @ wk_added w \<and> wk_saved w' = wk_row w"
    "wk_text w' = wk_text w"
  using assms by (auto simp: commit_def all_in_def grows_def split: list.splits commit_reply.splits)

lemma checkpoint_cases:
  assumes "checkpoint wt w = (h, w')"
  shows "grows w w'" "h = None \<Longrightarrow> wk_rows w' = wk_rows w @ wk_added w"
  using commit_cases(1,2) [OF assms [unfolded checkpoint_def]] by (simp_all add: grows_def)

lemma note_text_grows:
  assumes "note_text wt f w = (h, w')"
  shows "grows w w'"
proof -
  obtain ty d where f: "f = (ty, d)"
    by fastforce
  show ?thesis
  proof (cases "ty = ''token''")
    case token: True
    show ?thesis
    proof (cases "\<exists>s. map_of d ''text'' = Some (J_Text s)")
      case True
      then show ?thesis
        using assms token by (auto simp: f note_text_def Let_def grows_def dest!: checkpoint_cases(1) split: if_splits) blast
    next
      case False
      then have "w' = w"
        using assms token by (cases "map_of d ''text''"; cases "the (map_of d ''text'')") (simp_all add: f note_text_def)
      then show ?thesis
        by (simp add: grows_def)
    qed
  next
    case False
    have "wk_stream w' = wk_stream w" "wk_rows w' = wk_rows w"
    proof -
      consider "ty = ''done''" | "ty = ''routing''" | "ty \<noteq> ''done''" "ty \<noteq> ''routing''"
        by blast
      then have "wk_stream w' = wk_stream w \<and> wk_rows w' = wk_rows w"
        using assms False by cases (auto simp: f note_text_def simp del: prod.inject dest!: arg_cong [where f = snd])
      then show "wk_stream w' = wk_stream w" "wk_rows w' = wk_rows w"
        by blast+
    qed
    then show ?thesis
      by (simp add: grows_def)
  qed
qed

lemma note_investigation_grows: "note_investigation f w = (h, w') \<Longrightarrow> grows w w'"
  by (auto simp: note_investigation_def grows_def)

lemma note_call_cases:
  assumes "note_call wt f w = (h, w')"
  shows "grows w w'"
    "h = None \<Longrightarrow> is_call (fst f) \<Longrightarrow>
     \<exists>name. map_of (snd f) ''tool_name'' = Some name \<and> set (call_rows wt (fst f) (snd f) name) \<subseteq> set (wk_rows w')"
proof -
  obtain ty d where f: "f = (ty, d)"
    by fastforce
  show "grows w w'"
    using assms by (auto simp: f note_call_def Let_def grows_def add_rows_def dest!: checkpoint_cases(1) split: if_splits option.splits)
  show "\<exists>name. map_of (snd f) ''tool_name'' = Some name \<and> set (call_rows wt (fst f) (snd f) name) \<subseteq> set (wk_rows w')"
    if "h = None" "is_call (fst f)"
    using assms that by (auto simp: f note_call_def Let_def add_rows_def dest!: checkpoint_cases(2) split: option.splits)
qed

lemma note_result_cases:
  assumes "note_result wt f w = (h, w')"
  shows "grows w w'" "h = None \<Longrightarrow> fst f = ''tool_result'' \<Longrightarrow> result_row wt (snd f) \<in> set (wk_rows w')"
proof -
  obtain ty d where f: "f = (ty, d)"
    by fastforce
  show "grows w w'"
    using assms by (auto simp: f note_result_def Let_def grows_def add_rows_def dest!: checkpoint_cases(1) split: if_splits)
  show "result_row wt (snd f) \<in> set (wk_rows w')" if "h = None" "fst f = ''tool_result''"
    using assms that by (auto simp: f note_result_def Let_def add_rows_def dest!: checkpoint_cases(2))
qed

lemma consume_recorded:
  assumes "consume wt f w = (h, w')" "all_recorded wt w"
  shows "all_recorded wt w'"
proof -
  obtain h1 w1 where s1: "note_text wt f w = (h1, w1)"
    by fastforce
  obtain h2 w2 where s2: "note_investigation f w1 = (h2, w2)"
    by fastforce
  obtain h3 w3 where s3: "note_call wt f w2 = (h3, w3)"
    by fastforce
  obtain h4 w4 where s4: "note_result wt f w3 = (h4, w4)"
    by fastforce
  have g: "grows w w1" "grows w w2" "grows w w3" "grows w w4" "grows w3 w4"
    using note_text_grows [OF s1] note_investigation_grows [OF s2] note_call_cases(1) [OF s3] note_result_cases(1) [OF s4]
    by (blast intro: grows_trans)+
  have "h2 = None"
    using s2 by (simp add: note_investigation_def)
  then consider "w' = w1" | "w' = w3" | "w' = w4" | (all) "h3 = None" "h4 = None" "w' = w4\<lparr>wk_stream := wk_stream w4 @ [f]\<rparr>"
    using assms(1) by (auto simp: consume_def then_do_def s1 s2 s3 s4 publish_def split: option.splits)
  then show ?thesis
  proof cases
    case all
    have "recorded wt (wk_rows w4) f"
      using note_call_cases(2) [OF s3 all(1)] note_result_cases(2) [OF s4 all(2)] g(5) by (auto simp: recorded_def grows_def)
    with all(3) grows_recorded [OF g(4) assms(2)] show ?thesis
      by (simp add: all_recorded_def)
  qed (use g grows_recorded assms(2) in auto)
qed

lemma consume_all_recorded: "consume_all wt fs w = (h, w') \<Longrightarrow> all_recorded wt w \<Longrightarrow> all_recorded wt w'"
proof (induction fs arbitrary: w)
  case (Cons f fs)
  obtain h1 w1 where s1: "consume wt f w = (h1, w1)"
    by fastforce
  with Cons consume_recorded [OF s1] show ?case
    by (auto simp: then_do_def split: option.splits)
qed simp

lemma publish_recorded:
  "all_recorded wt w \<Longrightarrow> \<not> is_call (fst f) \<Longrightarrow> fst f \<noteq> ''tool_result'' \<Longrightarrow> all_recorded wt (snd (publish f w))"
  by (auto simp: all_recorded_def publish_def recorded_def)

lemma grows_cleaned: "grows w (cleaned wt w)"
  by (simp add: cleaned_def grows_def)

lemma stopped_recorded: "all_recorded wt w \<Longrightarrow> all_recorded wt (stopped wt w)"
proof -
  assume w: "all_recorded wt w"
  let ?w2 = "timed wt ((cleaned wt w)\<lparr>wk_activity := update_last (\<lambda>s. ts_status s = ''running'') stopped_step (wk_activity (cleaned wt w))\<rparr>)"
  obtain h w3 where cp: "checkpoint wt ?w2 = (h, w3)"
    by fastforce
  have "grows w ?w2"
    using grows_cleaned by (simp add: grows_def timed_def)
  then have "all_recorded wt w3"
    using grows_recorded grows_trans checkpoint_cases(1) [OF cp] w by blast
  then show ?thesis
    by (auto simp: stopped_def Let_def cp publish_recorded is_call_def split: option.split halt.split)
qed

lemma failed_recorded: "all_recorded wt w \<Longrightarrow> all_recorded wt (failed wt e w)"
proof -
  assume w: "all_recorded wt w"
  obtain h w1 where c: "commit (w\<lparr>wk_row := (wk_row w)\<lparr>aw_content := (if py_strip (wk_text w) = [] then friendly wt e
        else wk_text w @ [CHR 0x0A, CHR 0x0A] @ friendly wt e)\<rparr>\<rparr>) = (h, w1)"
    by fastforce
  have "all_recorded wt w1"
    using commit_cases(1) [OF c] w by (rule_tac grows_recorded [of w]) (simp_all add: grows_def)
  then show ?thesis
    by (auto simp: failed_def Let_def c publish_recorded is_call_def split: option.split halt.split)
qed

lemma finish_recorded:
  assumes "finish wt w = (h, w')" "all_recorded wt w"
  shows "all_recorded wt w'"
proof -
  obtain h1 w1 where c1: "checkpoint wt (timed wt (cleaned wt w)) = (h1, w1)"
    by fastforce
  obtain h2 w2 where c2: "commit (add_rows (turn_rows wt w1) w1) = (h2, w2)"
    by fastforce
  have "grows w (timed wt (cleaned wt w))" "grows w1 (add_rows (turn_rows wt w1) w1)"
    using grows_cleaned by (simp_all add: grows_def timed_def add_rows_def)
  then have "all_recorded wt w1" "all_recorded wt w2"
    using checkpoint_cases(1) [OF c1] commit_cases(1) [OF c2] assms(2) by (blast intro: grows_recorded grows_trans)+
  then show ?thesis
    using assms(1) publish_recorded [of wt w2]
    by (auto simp: finish_def then_do_def c1 c2 publish_def is_call_def split: option.splits)
qed

lemma run_worker_recorded:
  assumes "all_recorded wt w"
  shows "all_recorded wt (run_worker wt fs fin w)"
proof -
  obtain h w1 where c: "consume_all wt fs w = (h, w1)"
    by fastforce
  obtain h2 w2 where f: "finish wt w1 = (h2, w2)"
    by fastforce
  have "all_recorded wt w1" "all_recorded wt w2"
    using consume_all_recorded [OF c assms] finish_recorded [OF f] by blast+
  then show ?thesis
    by (auto simp: run_worker_def c f halted_def failed_recorded stopped_recorded split: option.split halt.split stream_end.split)
qed

text \<open>C33. Whatever commits fail and however the turn ends, an event about a tool call reaches the clients only after its rows
  are committed: a call with its arguments, its kind and its audit row, a result with its audit row.\<close>

theorem nothing_streamed_unrecorded:
  assumes "(ty, d) \<in> set (wk_stream (run_worker wt fs fin (new_worker replies)))"
  shows "(is_call ty \<longrightarrow> (\<exists>name. map_of d ''tool_name'' = Some name
      \<and> set (call_rows wt ty d name) \<subseteq> set (wk_rows (run_worker wt fs fin (new_worker replies)))))
    \<and> (ty = ''tool_result'' \<longrightarrow> result_row wt d \<in> set (wk_rows (run_worker wt fs fin (new_worker replies))))"
proof -
  have "all_recorded wt (new_worker replies)"
    by (simp add: all_recorded_def new_worker_def Let_def)
  then have "recorded wt (wk_rows (run_worker wt fs fin (new_worker replies))) (ty, d)"
    using run_worker_recorded assms unfolding all_recorded_def by blast
  then show ?thesis
    by (simp add: recorded_def)
qed

section \<open>Every call a turn sends is announced\<close>

lemma events_sel:
  "tn_events (say ms t) = tn_events t" "tn_events (emit es t) = tn_events t @ es"
  "tn_events (t\<lparr>tn_store := st, tn_world := w\<rparr>) = tn_events t"
  by (simp_all add: say_def emit_def)

lemma report_call_events:
  "\<exists>xs ys arts failed learn. tn_events (report_call g env c d t) = tn_events t @ xs @ [Ev_Result c d failed learn arts] @ ys
     \<and> (\<forall>e\<in>set xs. \<exists>r. e = Ev_Routing r) \<and> (\<forall>e\<in>set ys. \<exists>p. e = Ev_Phase p)"
proof -
  let ?routing = "if cr_name c \<in> {''search_tools'', ''load_tool_bundle'', ''load_skill''} then [Ev_Routing (diagnostics (tn_surface t))] else []"
  let ?result = "Ev_Result c d (is_error d) (wants_learn c \<or> \<not> is_error d \<and> is_command_catalog d) (get_or d ''artifacts'' (J_List []))"
  have "\<exists>ys. tn_events (report_call g env c d t) = tn_events t @ ?routing @ [?result] @ ys \<and> (\<forall>e\<in>set ys. \<exists>p. e = Ev_Phase p)"
    unfolding report_call_def Let_def
    by (split prod.split, intro allI impI, split prod.split, intro allI impI, split prod.split, intro allI impI)
       (simp only: events_sel append_assoc, intro exI conjI, rule refl, simp split: if_split)
  moreover have "\<forall>e\<in>set ?routing. \<exists>r. e = Ev_Routing r"
    by simp
  ultimately show ?thesis
    by blast
qed

lemma tool_round_events:
  obtains rest where "tn_events (tool_round g env spoken calls t)
    = tn_events t @ map (\<lambda>c. Ev_Start c (wants_learn c)) (filter (\<lambda>c. \<not> gated g c) calls) @ rest"
proof -
  have report: "\<exists>rest. tn_events (report_all g env result cs u) = tn_events u @ rest" for result cs and u :: "'a turn"
  proof (induction cs arbitrary: u)
    case (Cons c cs)
    have "\<exists>r. tn_events (report_call g env c (result (cr_id c)) u) = tn_events u @ r"
      using report_call_events [of g env c "result (cr_id c)" u] by auto
    then show ?case
      using Cons.IH [of "if gated g c then say [Answer (cr_id c) AWAITING] (emit [Ev_Approval c] u)
        else report_call g env c (result (cr_id c)) u"] by (auto simp: emit_def say_def)
  qed simp
  let ?t2 = "emit (map (\<lambda>c. Ev_Start c (wants_learn c)) (filter (\<lambda>c. \<not> gated g c) calls))
      (say [Requests (if spoken = [] then None else Some spoken) calls] t)"
  obtain t3 ds where run: "run_all g env calls (schedule env (tn_world ?t2) (open_positions g calls)) ?t2 = (t3, ds)"
    by fastforce
  have "tn_events t3 = tn_events ?t2"
    using run_all_frame [OF run] by simp
  moreover have "tool_round g env spoken calls t = report_all g env (result_of g calls ds) calls t3"
    by (simp add: tool_round_def run Let_def)
  ultimately show thesis
    using report [of "result_of g calls ds" calls t3] that by (auto simp: emit_def say_def)
qed

lemma ask_events:
  "ask env listen ms specs t = (r, err, t') \<Longrightarrow> \<exists>es. tn_events t' = tn_events t @ es"
  by (auto simp: ask_def emit_def Let_def split: prod.splits)

interpretation announced: turn_invariant g env "\<lambda>t. \<forall>(b, c)\<in>set (tn_sent t). \<exists>l. Ev_Start c l \<in> set (tn_events t)"
  for g :: gate and env :: "'w env"
proof
  fix t t' :: "'w turn" and specs listen ms r err
  assume "\<forall>(b, c)\<in>set (tn_sent t). \<exists>l. Ev_Start c l \<in> set (tn_events t)" "ask env listen ms specs t = (r, err, t')"
  moreover from this(2) obtain es where "tn_events t' = tn_events t @ es"
    using ask_events by blast
  ultimately show "\<forall>(b, c)\<in>set (tn_sent t'). \<exists>l. Ev_Start c l \<in> set (tn_events t')"
    by (auto simp: ask_frame)
next
  fix t :: "'w turn" and spoken calls
  assume hold: "\<forall>(b, c)\<in>set (tn_sent t). \<exists>l. Ev_Start c l \<in> set (tn_events t)"
  obtain rest where ev: "tn_events (tool_round g env spoken calls t)
      = tn_events t @ map (\<lambda>c. Ev_Start c (wants_learn c)) (filter (\<lambda>c. \<not> gated g c) calls) @ rest"
    by (rule tool_round_events)
  obtain xs where xs: "tn_sent (tool_round g env spoken calls t) = tn_sent t @ xs"
    "set xs \<subseteq> (\<lambda>c. (goes_to g (cr_name c), c)) ` {c\<in>set calls. \<not> gated g c}"
    using round_sent [of g env spoken calls t] by blast
  show "\<forall>(b, c)\<in>set (tn_sent (tool_round g env spoken calls t)).
      \<exists>l. Ev_Start c l \<in> set (tn_events (tool_round g env spoken calls t))"
  proof (rule ballI, clarify)
    fix b c
    assume "(b, c) \<in> set (tn_sent (tool_round g env spoken calls t))"
    then consider "(b, c) \<in> set (tn_sent t)" | "c \<in> set calls" "\<not> gated g c"
      unfolding xs(1) using xs(2) by auto
    then show "\<exists>l. Ev_Start c l \<in> set (tn_events (tool_round g env spoken calls t))"
      by cases (use hold in \<open>auto simp: ev\<close>)
  qed
qed (auto simp: emit_def)

section \<open>A turn whose commits go through\<close>

definition feed_column :: "activity_step list \<Rightarrow> activity_step list option" where
  "feed_column xs = (if xs = [] then None else Some xs)"

text \<open>Between two events every row is committed and the stored feed is the feed.\<close>

definition settled :: "worker \<Rightarrow> bool" where
  "settled w \<longleftrightarrow> wk_replies w = [] \<and> wk_added w = [] \<and> aw_activity (wk_row w) = feed_column (wk_activity w)
     \<and> aw_activity (wk_saved w) = feed_column (wk_activity w)"

lemma checkpoint_settles:
  assumes "wk_replies w = []"
  obtains w' where "checkpoint wt w = (None, w')" "settled w'" "wk_activity w' = wk_activity w" "wk_text w' = wk_text w"
    "wk_stream w' = wk_stream w" "wk_prompt w' = wk_prompt w" "wk_completion w' = wk_completion w" "wk_routing w' = wk_routing w"
    "aw_content (wk_saved w') = wk_text w" "aw_duration (wk_saved w') = aw_duration (wk_row w)"
  using assms that by (simp add: checkpoint_def commit_def all_in_def settled_def feed_column_def)

fun fed :: "wording \<Rightarrow> agent_event \<Rightarrow> worker \<Rightarrow> activity_step list" where
  "fed wd (Ev_Start c l) w = wk_activity w @ (if py_strip (wk_reasoning w) = [] then [] else [Reasoning (py_strip (wk_reasoning w))])
     @ [Tool_Step (new_step ''tool_start'' (call_data c @ [(''discovery'', J_Bool l)]) (J_Text (cr_name c)))]"
| "fed wd (Ev_Approval c) w = wk_activity w @ (if py_strip (wk_reasoning w) = [] then [] else [Reasoning (py_strip (wk_reasoning w))])
     @ [Tool_Step (new_step ''approval_required'' (call_data c) (J_Text (cr_name c)))]"
| "fed wd (Ev_Result c r bad learn arts) w =
     (let d = snd (event_frame wd (Ev_Result c r bad learn arts)) in update_last (closes d) (closed d) (wk_activity w))"
| "fed wd e w = wk_activity w"

lemma call_data_name: "map_of (call_data c) ''tool_name'' = Some (J_Text (cr_name c))"
  "map_of (call_data c @ xs) ''tool_name'' = Some (J_Text (cr_name c))"
  by (simp_all add: call_data_def)

lemma note_call_settles:
  assumes "wk_replies w = []" "is_call ty" "map_of d ''tool_name'' = Some name"
  obtains w' where "note_call wt (ty, d) w = (None, w')" "settled w'" "wk_stream w' = wk_stream w"
    "wk_activity w' = wk_activity w @ (if py_strip (wk_reasoning w) = [] then [] else [Reasoning (py_strip (wk_reasoning w))])
       @ [Tool_Step (new_step ty d name)]"
proof -
  let ?said = "py_strip (wk_reasoning w)"
  let ?w1 = "w\<lparr>wk_activity := wk_activity w @ (if ?said = [] then [] else [Reasoning ?said]),
      wk_reasoning := (if ?said = [] then wk_reasoning w else []), wk_text := []\<rparr>"
  let ?w = "add_rows (call_rows wt ty d name) (?w1\<lparr>wk_activity := wk_activity ?w1 @ [Tool_Step (new_step ty d name)]\<rparr>)"
  have "wk_replies ?w = []"
    using assms(1) by (simp add: add_rows_def)
  moreover have "note_call wt (ty, d) w = checkpoint wt ?w"
    using assms(2,3) by (simp add: note_call_def Let_def)
  moreover have "wk_stream ?w = wk_stream w"
    "wk_activity ?w = wk_activity w @ (if ?said = [] then [] else [Reasoning ?said]) @ [Tool_Step (new_step ty d name)]"
    by (simp_all add: add_rows_def)
  ultimately show thesis
    using checkpoint_settles [of ?w wt] that by metis
qed

lemma note_result_settles:
  assumes "wk_replies w = []"
  obtains w' where "note_result wt (''tool_result'', d) w = (None, w')" "settled w'" "wk_stream w' = wk_stream w"
    "wk_activity w' = update_last (closes d) (closed d) (wk_activity w)"
proof -
  let ?w = "add_rows [result_row wt d] (w\<lparr>wk_activity := update_last (closes d) (closed d) (wk_activity w), wk_reasoning := []\<rparr>)"
  have "wk_replies ?w = []" "wk_stream ?w = wk_stream w" "wk_activity ?w = update_last (closes d) (closed d) (wk_activity w)"
    using assms(1) by (simp_all add: add_rows_def)
  moreover have "note_result wt (''tool_result'', d) w = checkpoint wt ?w"
    by (simp add: note_result_def Let_def)
  ultimately show thesis
    using checkpoint_settles [of ?w wt] that by metis
qed

definition same_feed :: "worker \<Rightarrow> worker \<Rightarrow> bool" where
  "same_feed w w' \<longleftrightarrow> wk_replies w' = wk_replies w \<and> wk_added w' = wk_added w \<and> wk_row w' = wk_row w \<and> wk_saved w' = wk_saved w
     \<and> wk_stream w' = wk_stream w \<and> wk_activity w' = wk_activity w \<and> wk_reasoning w' = wk_reasoning w"

lemma note_text_other:
  assumes "ty \<noteq> ''token''"
  obtains w' where "note_text wt (ty, d) w = (None, w')" "same_feed w w'"
proof -
  consider "ty = ''done''" | "ty = ''routing''" | "ty \<noteq> ''done''" "ty \<noteq> ''routing''"
    by blast
  then show thesis
  proof cases
    case 1
    show thesis
      by (rule that, simp only: note_text_def Let_def prod.case 1 assms if_True if_False list.distinct char.inject, simp, simp add: same_feed_def)
  next
    case 2
    then show thesis
      by (intro that [of "w\<lparr>wk_routing := d\<rparr>"]) (simp_all add: note_text_def same_feed_def)
  next
    case 3
    then show thesis
      using assms by (intro that [of w]) (simp_all add: note_text_def same_feed_def)
  qed
qed

lemma note_text_settles:
  assumes "settled w"
  obtains w' where "note_text wt (event_frame wd e) w = (None, w')" "settled w'" "wk_stream w' = wk_stream w"
    "wk_activity w' = wk_activity w" "wk_reasoning w' = wk_reasoning w @ (case e of Ev_Token s \<Rightarrow> s | _ \<Rightarrow> [])"
proof (cases "\<exists>s. e = Ev_Token s")
  case True
  then obtain s where s: "e = Ev_Token s"
    by blast
  let ?w = "w\<lparr>wk_text := wk_text w @ s, wk_reasoning := wk_reasoning w @ s, wk_tokens := 0\<rparr>"
  let ?v = "w\<lparr>wk_text := wk_text w @ s, wk_reasoning := wk_reasoning w @ s, wk_tokens := wk_tokens w + 1\<rparr>"
  have tok: "note_text wt (event_frame wd e) w = (if 40 \<le> wk_tokens w + 1 then checkpoint wt ?w else (None, ?v))"
    by (simp add: s note_text_def Let_def)
  obtain w' where w': "checkpoint wt ?w = (None, w')" "settled w'" "wk_activity w' = wk_activity ?w" "wk_stream w' = wk_stream ?w"
    "wk_reasoning w' = wk_reasoning ?w"
  proof -
    have "checkpoint wt ?w = (None, snd (checkpoint wt ?w))" "wk_reasoning (snd (checkpoint wt ?w)) = wk_reasoning ?w"
      using assms by (simp_all add: checkpoint_def commit_def all_in_def settled_def)
    moreover have "wk_replies ?w = []"
      using assms by (simp add: settled_def)
    ultimately show thesis
      using checkpoint_settles [of ?w wt] that [of "snd (checkpoint wt ?w)"] by (metis prod.inject)
  qed
  show thesis
  proof (cases "40 \<le> wk_tokens w + 1")
    case True
    then show thesis
      using that [of w'] tok w' by (simp add: s)
  next
    case False
    have "settled ?v"
      using assms by (simp add: settled_def)
    then show thesis
      using that [of ?v] tok False by (simp add: s)
  qed
next
  case False
  obtain ty d where f: "event_frame wd e = (ty, d)"
    by fastforce
  have "ty \<noteq> ''token''"
    using False f by (cases e) auto
  then obtain w' where "note_text wt (ty, d) w = (None, w')" "same_feed w w'"
    by (rule note_text_other)
  moreover have "(case e of Ev_Token s \<Rightarrow> s | _ \<Rightarrow> []) = []"
    using False by (cases e) auto
  ultimately show thesis
    using assms by (intro that [of w']) (simp_all add: f same_feed_def settled_def)
qed

lemma consume_steps:
  assumes "note_text wt f w = (None, w1)"
    "note_call wt f (w1\<lparr>wk_investigation := noted_investigation f (wk_investigation w1)\<rparr>) = (None, w3)"
    "note_result wt f w3 = (None, w4)"
  shows "consume wt f w = (None, w4\<lparr>wk_stream := wk_stream w4 @ [f]\<rparr>)"
  by (simp add: consume_def then_do_def assms note_investigation_def publish_def)

lemma settled_update [simp]:
  "settled (w\<lparr>wk_stream := x\<rparr>) = settled w" "settled (w\<lparr>wk_investigation := y\<rparr>) = settled w"
  by (simp_all add: settled_def)

lemma settled_replies: "settled w \<Longrightarrow> wk_replies w = []"
  by (simp add: settled_def)

lemma consume_settled:
  assumes "settled w"
  obtains w' where "consume wt (event_frame wd e) w = (None, w')" "settled w'"
    "wk_stream w' = wk_stream w @ [event_frame wd e]" "wk_activity w' = fed wd e w"
proof -
  obtain ty d where f: "event_frame wd e = (ty, d)"
    by fastforce
  obtain w1 where w1: "note_text wt (ty, d) w = (None, w1)" "settled w1" "wk_stream w1 = wk_stream w"
    "wk_activity w1 = wk_activity w" "wk_reasoning w1 = wk_reasoning w @ (case e of Ev_Token s \<Rightarrow> s | _ \<Rightarrow> [])"
    using note_text_settles [OF assms, of wt wd e] by (auto simp: f)
  let ?w2 = "w1\<lparr>wk_investigation := noted_investigation (ty, d) (wk_investigation w1)\<rparr>"
  have w2: "wk_replies ?w2 = []" "settled ?w2" "wk_stream ?w2 = wk_stream w" "wk_activity ?w2 = wk_activity w"
    "wk_reasoning ?w2 = wk_reasoning w @ (case e of Ev_Token s \<Rightarrow> s | _ \<Rightarrow> [])"
    using w1 settled_replies by simp_all
  note goal = that
  have conclude: thesis if "note_call wt (ty, d) ?w2 = (None, w3)" "note_result wt (ty, d) w3 = (None, w4)" "settled w4"
    "wk_stream w4 = wk_stream w" "wk_activity w4 = fed wd e w" for w3 w4
    using consume_steps [OF w1(1) that(1,2)] that(3-5) by (intro goal [of "w4\<lparr>wk_stream := wk_stream w4 @ [event_frame wd e]\<rparr>"]) (simp_all add: f)
  consider (call) c where "e = Ev_Approval c \<or> (\<exists>l. e = Ev_Start c l)" | (result) "\<exists>c r bad learn arts. e = Ev_Result c r bad learn arts"
    | (other) "\<not> is_call ty" "ty \<noteq> ''tool_result''" "fed wd e w = wk_activity w"
    using f by (cases e) (auto simp: is_call_def)
  then show thesis
  proof cases
    case call
    have d: "is_call ty" "map_of d ''tool_name'' = Some (J_Text (cr_name c))" "ty \<noteq> ''tool_result''"
      using call f by (auto simp: is_call_def call_data_name)
    obtain w3 where w3: "note_call wt (ty, d) ?w2 = (None, w3)" "settled w3" "wk_stream w3 = wk_stream ?w2"
      "wk_activity w3 = wk_activity ?w2 @ (if py_strip (wk_reasoning ?w2) = [] then [] else [Reasoning (py_strip (wk_reasoning ?w2))])
        @ [Tool_Step (new_step ty d (J_Text (cr_name c)))]"
      using note_call_settles [OF w2(1) d(1,2)] by blast
    have "wk_activity w3 = fed wd e w"
      using call f unfolding w3(4) w2(4,5) by auto
    moreover have "note_result wt (ty, d) w3 = (None, w3)"
      using d(3) by (simp add: note_result_def)
    ultimately show thesis
      using conclude [OF w3(1)] w3(2,3) w2(3) by simp
  next
    case result
    then have ty: "ty = ''tool_result''" "fed wd e w = update_last (closes d) (closed d) (wk_activity w)"
      using f by (auto simp: Let_def)
    then have "note_call wt (ty, d) ?w2 = (None, ?w2)"
      by (simp add: note_call_def is_call_def)
    moreover obtain w4 where "note_result wt (''tool_result'', d) ?w2 = (None, w4)" "settled w4" "wk_stream w4 = wk_stream ?w2"
      "wk_activity w4 = update_last (closes d) (closed d) (wk_activity ?w2)"
      using note_result_settles [OF w2(1)] by blast
    ultimately show thesis
      using conclude [of ?w2 w4] ty w2(3,4) by simp
  next
    case other
    have "note_call wt (ty, d) ?w2 = (None, ?w2)" "note_result wt (ty, d) ?w2 = (None, ?w2)"
      using other(1,2) by (simp_all add: note_call_def note_result_def)
    from conclude [OF this w2(2,3)] show thesis
      using w2(4) other(3) by simp
  qed
qed

abbreviation frames :: "wording \<Rightarrow> agent_event list \<Rightarrow> frame list" where
  "frames wd es \<equiv> map (event_frame wd) es"

lemma consume_all_settled:
  assumes "settled w"
  obtains w' where "consume_all wt (frames wd es) w = (None, w')" "settled w'" "wk_stream w' = wk_stream w @ frames wd es"
  using assms
proof (induction es arbitrary: w thesis)
  case (Cons e es)
  obtain w1 where w1: "consume wt (event_frame wd e) w = (None, w1)" "settled w1" "wk_stream w1 = wk_stream w @ [event_frame wd e]"
    using consume_settled [OF Cons.prems(2)] by metis
  obtain w2 where w2: "consume_all wt (frames wd es) w1 = (None, w2)" "settled w2" "wk_stream w2 = wk_stream w1 @ frames wd es"
    using Cons.IH [OF _ w1(2)] by metis
  show ?case
    using w1 w2 by (intro Cons.prems(1) [of w2]) (simp_all add: then_do_def)
qed simp

lemma new_worker_settled: "settled (new_worker [])"
  by (simp add: settled_def new_worker_def feed_column_def Let_def)

lemma commit_settled: "wk_replies w = [] \<Longrightarrow> commit w = (None, all_in w)"
  by (simp add: commit_def)

lemma checkpoint_settled:
  "wk_replies w = [] \<Longrightarrow> checkpoint wt w =
     (None, all_in (w\<lparr>wk_row := (wk_row w)\<lparr>aw_content := wk_text w, aw_activity := feed_column (wk_activity w),
        aw_investigation := (if wt_deep wt then Some (wk_investigation w) else aw_investigation (wk_row w))\<rparr>\<rparr>))"
  by (simp add: checkpoint_def commit_settled feed_column_def)

lemma cleaned_sel [simp]:
  "wk_replies (cleaned wt w) = wk_replies w" "wk_activity (cleaned wt w) = wk_activity w" "wk_stream (cleaned wt w) = wk_stream w"
  "wk_replies (timed wt w) = wk_replies w" "wk_activity (timed wt w) = wk_activity w" "wk_stream (timed wt w) = wk_stream w"
  "wk_text (timed wt w) = wk_text w"
  by (simp_all add: cleaned_def timed_def)

lemma all_in_sel [simp]:
  "wk_saved (all_in w) = wk_row w" "wk_row (all_in w) = wk_row w" "wk_stream (all_in w) = wk_stream w"
  "wk_replies (all_in w) = wk_replies w" "wk_activity (all_in w) = wk_activity w" "wk_text (all_in w) = wk_text w"
  "wk_rows (all_in w) = wk_rows w @ wk_added w" "wk_prompt (all_in w) = wk_prompt w" "wk_completion (all_in w) = wk_completion w"
  by (simp_all add: all_in_def)

lemma add_rows_sel [simp]:
  "wk_row (add_rows rs w) = wk_row w" "wk_stream (add_rows rs w) = wk_stream w" "wk_replies (add_rows rs w) = wk_replies w"
  "wk_added (add_rows rs w) = wk_added w @ rs" "wk_rows (add_rows rs w) = wk_rows w"
  by (simp_all add: add_rows_def)

lemma finish_settled:
  assumes "settled w"
  obtains w' where "finish wt w = (None, w')" "aw_activity (wk_saved w') = feed_column (wk_activity w)"
    "wk_stream w' = wk_stream w @ [(''saved'', [(''id'', J_Text (wt_assistant wt)), (''duration_ms'', J_Num (wt_duration wt))])]"
    "aw_content (wk_saved w') = (if wt_strip wt (wk_text w) = [] then wk_text w else wt_strip wt (wk_text w))"
    "Usage_Row (wk_prompt w) (wk_completion w) \<in> set (wk_rows w')"
proof -
  have replies: "wk_replies w = []"
    using assms by (rule settled_replies)
  define a where "a = snd (checkpoint wt (timed wt (cleaned wt w)))"
  have a: "checkpoint wt (timed wt (cleaned wt w)) = (None, a)" "wk_replies a = []" "wk_stream a = wk_stream w"
    "wk_prompt a = wk_prompt w" "wk_completion a = wk_completion w" "aw_activity (wk_row a) = feed_column (wk_activity w)"
    "aw_content (wk_row a) = (if wt_strip wt (wk_text w) = [] then wk_text w else wt_strip wt (wk_text w))"
    by (simp_all add: a_def checkpoint_settled replies) (simp_all add: timed_def cleaned_def)
  define b where "b = all_in (add_rows (turn_rows wt a) a)"
  have b: "commit (add_rows (turn_rows wt a) a) = (None, b)"
    by (simp add: commit_settled a(2) b_def)
  have "finish wt w = (None, b\<lparr>wk_stream := wk_stream b @ [(''saved'', [(''id'', J_Text (wt_assistant wt)),
      (''duration_ms'', J_Num (wt_duration wt))])]\<rparr>)"
    by (simp add: finish_def then_do_def a(1) b publish_def)
  then show thesis
    by (rule that) (simp_all add: b_def a(3-7) turn_rows_def)
qed

lemma failed_settled:
  assumes "settled w"
  shows "aw_activity (wk_saved (failed wt e w)) = feed_column (wk_activity w)"
    "wk_stream (failed wt e w) = wk_stream w @ [(''error'', [(''message'', J_Text e)])]"
  using assms by (simp_all add: failed_def commit_settled settled_def publish_def Let_def)

lemma stopped_settled:
  assumes "settled w"
  shows "aw_activity (wk_saved (stopped wt w))
      = feed_column (update_last (\<lambda>s. ts_status s = ''running'') stopped_step (wk_activity w))"
    "set (wk_stream w) \<subseteq> set (wk_stream (stopped wt w))"
proof -
  let ?w = "(cleaned wt w)\<lparr>wk_activity := update_last (\<lambda>s. ts_status s = ''running'') stopped_step (wk_activity (cleaned wt w))\<rparr>"
  have "wk_replies (timed wt ?w) = []"
    using assms by (simp add: settled_def)
  note cp = checkpoint_settled [OF this, of wt]
  show "aw_activity (wk_saved (stopped wt w))
      = feed_column (update_last (\<lambda>s. ts_status s = ''running'') stopped_step (wk_activity w))"
    "set (wk_stream w) \<subseteq> set (wk_stream (stopped wt w))"
    unfolding stopped_def Let_def cp by (auto simp: publish_def)
qed

lemma run_worker_settled:
  assumes "consume_all wt (frames wd es) (new_worker []) = (None, w)" "settled w"
  shows "set (wk_stream w) \<subseteq> set (wk_stream (run_worker wt (frames wd es) fin (new_worker [])))"
    "aw_activity (wk_saved (run_worker wt (frames wd es) fin (new_worker [])))
       \<in> {feed_column (wk_activity w), feed_column (update_last (\<lambda>s. ts_status s = ''running'') stopped_step (wk_activity w))}"
proof -
  obtain w' where w': "finish wt w = (None, w')" "aw_activity (wk_saved w') = feed_column (wk_activity w)"
    "set (wk_stream w) \<subseteq> set (wk_stream w')"
    using finish_settled [OF assms(2), of wt] by (metis Un_upper1 set_append)
  show "set (wk_stream w) \<subseteq> set (wk_stream (run_worker wt (frames wd es) fin (new_worker [])))"
    using w'(3) failed_settled(2) [OF assms(2)] stopped_settled(2) [OF assms(2)]
    by (auto simp: run_worker_def assms(1) w'(1) split: stream_end.split)
  show "aw_activity (wk_saved (run_worker wt (frames wd es) fin (new_worker [])))
       \<in> {feed_column (wk_activity w), feed_column (update_last (\<lambda>s. ts_status s = ''running'') stopped_step (wk_activity w))}"
    using w'(2) failed_settled(1) [OF assms(2)] stopped_settled(1) [OF assms(2)]
    by (simp add: run_worker_def assms(1) w'(1) split: stream_end.split)
qed

text \<open>C34. Every call a turn hands to a tool server or connector is in the tables afterwards, as a tool call with its
  arguments and as an audit row under its name, however the turn and its reader end, when the commits go through.\<close>

theorem every_sent_call_is_audited:
  assumes "(b, c) \<in> set (tn_sent (turn_of (run_turn env su w0)))"
  shows "{Tool_Call (J_Text (cr_name c)) (J_Obj (cr_args c)) ''read'' ''running'',
          Audit_Log ''tool.tool_start'' (J_Text (cr_name c)) [(''chat_id'', J_Text (wt_chat wt))]}
    \<subseteq> set (wk_rows (run_worker wt (frames wd (tn_events (turn_of (run_turn env su w0)))) fin (new_worker [])))"
proof (cases rule: run_turn_cases [of env su w0])
  case (collision e)
  with assms show ?thesis
    by simp
next
  case loop
  let ?es = "tn_events (turn_of (run_turn env su w0))"
  have "ended (\<lambda>t. \<forall>(b, c)\<in>set (tn_sent t). \<exists>l. Ev_Start c l \<in> set (tn_events t)) (run_turn env su w0)"
    unfolding loop(2) by (rule announced.iterate_ended) simp
  then have "\<forall>(b, c)\<in>set (tn_sent (turn_of (run_turn env su w0))). \<exists>l. Ev_Start c l \<in> set ?es"
    by (rule ended_turn) (fastforce simp: emit_def)+
  then obtain l where l: "Ev_Start c l \<in> set ?es"
    using assms by blast
  obtain w where w: "consume_all wt (frames wd ?es) (new_worker []) = (None, w)" "settled w"
    "wk_stream w = wk_stream (new_worker []) @ frames wd ?es"
    by (rule consume_all_settled [OF new_worker_settled])
  let ?W = "run_worker wt (frames wd ?es) fin (new_worker [])"
  have "event_frame wd (Ev_Start c l) \<in> set (wk_stream ?W)"
    using run_worker_settled(1) [OF w(1,2), of fin] w(3) l by auto
  moreover have "all_recorded wt ?W"
    by (intro run_worker_recorded) (simp add: all_recorded_def new_worker_def Let_def)
  ultimately have "recorded wt (wk_rows ?W) (event_frame wd (Ev_Start c l))"
    by (simp add: all_recorded_def)
  then show ?thesis
    by (simp add: recorded_def is_call_def call_data_def call_rows_def)
qed

section \<open>The feed of a finished turn\<close>

text \<open>The ids that are announced and not reported, or nothing when the events reuse an id that is open.\<close>

fun pend :: "agent_event list \<Rightarrow> string set \<Rightarrow> string set option" where
  "pend [] P = Some P"
| "pend (Ev_Start c l # es) P = (if cr_id c = [] \<or> cr_id c \<in> P then None else pend es (insert (cr_id c) P))"
| "pend (Ev_Approval c # es) P = (if cr_id c \<in> P then None else pend es P)"
| "pend (Ev_Result c r bad learn arts # es) P = (if cr_id c = [] then None else pend es (P - {cr_id c}))"
| "pend (e # es) P = pend es P"

lemma pend_append: "pend (xs @ ys) P = Option.bind (pend xs P) (pend ys)"
  by (induction xs P rule: pend.induct) simp_all

definition is_talk :: "agent_event \<Rightarrow> bool" where
  "is_talk e \<longleftrightarrow> (case e of Ev_Start c l \<Rightarrow> False | Ev_Approval c \<Rightarrow> False | Ev_Result c r bad learn arts \<Rightarrow> False | _ \<Rightarrow> True)"

lemma pend_talk: "\<forall>e\<in>set es. is_talk e \<Longrightarrow> pend es P = Some P"
proof (induction es)
  case (Cons e es)
  then show ?case
    by (cases e) (simp_all add: is_talk_def)
qed simp

lemma hear_talk:
  "\<forall>e\<in>set (rp_events r). is_talk e \<Longrightarrow> listen = hear \<or> listen = hear_closing \<Longrightarrow> \<forall>e\<in>set (rp_events (fold listen es r)). is_talk e"
proof (induction es arbitrary: r)
  case (Cons e es)
  have "\<forall>e'\<in>set (rp_events (listen e r)). is_talk e'"
    using Cons.prems by (cases e) (auto simp: is_talk_def)
  with Cons show ?case
    by simp
qed simp

text \<open>The calls of one reply carry distinct ids that are not empty.\<close>

definition well_tagged :: "message list \<Rightarrow> bool" where
  "well_tagged ms \<longleftrightarrow> (\<forall>s cs. Requests s cs \<in> set ms \<longrightarrow> distinct (map cr_id cs) \<and> [] \<notin> set (map cr_id cs))"

definition open_ids :: "gate \<Rightarrow> call_request list \<Rightarrow> string set" where
  "open_ids g cs = cr_id ` {c\<in>set cs. \<not> gated g c}"

lemma pend_starts:
  "distinct (map cr_id cs) \<Longrightarrow> [] \<notin> set (map cr_id cs) \<Longrightarrow> P \<inter> set (map cr_id cs) = {} \<Longrightarrow>
   pend (map (\<lambda>c. Ev_Start c (l c)) cs) P = Some (P \<union> set (map cr_id cs))"
  by (induction cs arbitrary: P) auto

lemma pend_report:
  "cr_id c \<noteq> [] \<Longrightarrow> \<exists>rs. tn_events (report_call g env c d t) = tn_events t @ rs \<and> pend rs P = Some (P - {cr_id c})"
proof -
  assume id: "cr_id c \<noteq> []"
  obtain xs ys arts bad learn where ev: "tn_events (report_call g env c d t) = tn_events t @ xs @ [Ev_Result c d bad learn arts] @ ys"
    "\<forall>e\<in>set xs. \<exists>r. e = Ev_Routing r" "\<forall>e\<in>set ys. \<exists>p. e = Ev_Phase p"
    using report_call_events by blast
  have "pend xs P = Some P" "pend ys (P - {cr_id c}) = Some (P - {cr_id c})"
    using ev(2,3) by (auto simp: is_talk_def intro!: pend_talk)
  then show ?thesis
    using ev(1) id by (auto simp: pend_append)
qed

lemma pend_report_all:
  "distinct (map cr_id cs) \<Longrightarrow> [] \<notin> set (map cr_id cs) \<Longrightarrow>
   \<exists>rs. tn_events (report_all g env result cs t) = tn_events t @ rs \<and> pend rs (open_ids g cs) = Some {}"
proof (induction cs arbitrary: t)
  case Nil
  then show ?case
    by (simp add: open_ids_def)
next
  case (Cons c cs)
  have apart: "cr_id c \<notin> open_ids g cs"
    using Cons.prems(1) by (auto simp: open_ids_def)
  show ?case
  proof (cases "gated g c")
    case True
    have "open_ids g (c # cs) = open_ids g cs"
      using True by (auto simp: open_ids_def)
    moreover obtain rs where "tn_events (report_all g env result cs (say [Answer (cr_id c) AWAITING] (emit [Ev_Approval c] t)))
        = tn_events (say [Answer (cr_id c) AWAITING] (emit [Ev_Approval c] t)) @ rs" "pend rs (open_ids g cs) = Some {}"
      using Cons by fastforce
    ultimately show ?thesis
      using True apart by (intro exI [of _ "Ev_Approval c # rs"]) (simp add: events_sel)
  next
    case False
    have "open_ids g (c # cs) = insert (cr_id c) (open_ids g cs)"
      using False by (auto simp: open_ids_def)
    then have rest: "open_ids g (c # cs) - {cr_id c} = open_ids g cs"
      using apart by auto
    obtain xs where xs: "tn_events (report_call g env c (result (cr_id c)) t) = tn_events t @ xs"
      "pend xs (open_ids g (c # cs)) = Some (open_ids g cs)"
      using pend_report [of c g env "result (cr_id c)" t "open_ids g (c # cs)"] Cons.prems(2) unfolding rest by auto
    obtain ys where "tn_events (report_all g env result cs (report_call g env c (result (cr_id c)) t))
        = tn_events (report_call g env c (result (cr_id c)) t) @ ys" "pend ys (open_ids g cs) = Some {}"
      using Cons.IH [of "report_call g env c (result (cr_id c)) t"] Cons.prems by auto
    then show ?thesis
      using False xs by (intro exI [of _ "xs @ ys"]) (simp add: pend_append)
  qed
qed

lemma pend_round:
  assumes "distinct (map cr_id calls)" "[] \<notin> set (map cr_id calls)"
  obtains rs where "tn_events (tool_round g env spoken calls t) = tn_events t @ rs" "pend rs {} = Some {}"
proof -
  let ?open = "filter (\<lambda>c. \<not> gated g c) calls"
  let ?t2 = "emit (map (\<lambda>c. Ev_Start c (wants_learn c)) ?open) (say [Requests (if spoken = [] then None else Some spoken) calls] t)"
  obtain t3 ds where run: "run_all g env calls (schedule env (tn_world ?t2) (open_positions g calls)) ?t2 = (t3, ds)"
    by fastforce
  have t3: "tn_events t3 = tn_events t @ map (\<lambda>c. Ev_Start c (wants_learn c)) ?open"
    using run_all_frame [OF run] by (simp add: events_sel)
  obtain rs where rs: "tn_events (report_all g env (result_of g calls ds) calls t3) = tn_events t3 @ rs" "pend rs (open_ids g calls) = Some {}"
    using pend_report_all [OF assms] by blast
  have "pend (map (\<lambda>c. Ev_Start c (wants_learn c)) ?open) {} = Some ({} \<union> set (map cr_id ?open))"
    using assms by (intro pend_starts) (auto simp: distinct_map_filter)
  moreover have "{} \<union> set (map cr_id ?open) = open_ids g calls"
    by (auto simp: open_ids_def)
  moreover have "tool_round g env spoken calls t = report_all g env (result_of g calls ds) calls t3"
    by (simp add: tool_round_def run Let_def)
  ultimately show thesis
    using rs t3 that [of "map (\<lambda>c. Ev_Start c (wants_learn c)) ?open @ rs"] by (simp add: pend_append)
qed

interpretation balanced: turn_invariant g env "\<lambda>t. well_tagged (tn_messages t) \<longrightarrow> pend (tn_events t) {} = Some {}"
  for g :: gate and env :: "'w env"
proof
  fix t t' :: "'w turn" and specs listen ms r err
  assume hold: "well_tagged (tn_messages t) \<longrightarrow> pend (tn_events t) {} = Some {}" and listen: "listen = hear \<or> listen = hear_closing"
    and ask: "ask env listen ms specs t = (r, err, t')"
  have "tn_events t' = tn_events t @ rp_events r \<and> (\<forall>e\<in>set (rp_events r). is_talk e)"
    using ask hear_talk [of no_reply listen] listen by (auto simp: ask_def emit_def no_reply_def Let_def split: prod.splits)
  then show "well_tagged (tn_messages t') \<longrightarrow> pend (tn_events t') {} = Some {}"
    using hold pend_talk [of "rp_events r"] by (simp add: ask_frame [OF ask] pend_append)
next
  fix t :: "'w turn" and spoken calls
  assume hold: "well_tagged (tn_messages t) \<longrightarrow> pend (tn_events t) {} = Some {}"
  obtain ns sp where ms: "tn_messages (tool_round g env spoken calls t) = tn_messages t @ Requests sp calls # ns"
    by (rule tool_round_messages)
  show "well_tagged (tn_messages (tool_round g env spoken calls t)) \<longrightarrow> pend (tn_events (tool_round g env spoken calls t)) {} = Some {}"
  proof
    assume tagged: "well_tagged (tn_messages (tool_round g env spoken calls t))"
    then have "well_tagged (tn_messages t)" "distinct (map cr_id calls)" "[] \<notin> set (map cr_id calls)"
      unfolding ms well_tagged_def by auto
    then show "pend (tn_events (tool_round g env spoken calls t)) {} = Some {}"
      using hold pend_round [of calls g env spoken t] by (metis bind.bind_lunit pend_append)
  qed
qed (simp_all add: emit_def pend_append)

text \<open>In the feed, newest first, a step may be running only under an open id, and only the newest step of that id.\<close>

fun may_run :: "string set \<Rightarrow> activity_step list \<Rightarrow> bool" where
  "may_run P [] = True"
| "may_run P (Reasoning r # xs) = may_run P xs"
| "may_run P (Tool_Step s # xs) =
     ((ts_status s = ''running'' \<longrightarrow> (\<exists>i\<in>P. ts_call s = J_Text i)) \<and> may_run {i\<in>P. ts_call s \<noteq> J_Text i} xs)"

lemma may_run_closed:
  assumes "i \<noteq> []" "map_of d ''tool_call_id'' = Some (J_Text i)"
  shows "may_run P xs \<Longrightarrow> may_run (P - {i}) (update_first (closes d) (closed d) xs)"
proof (induction P xs rule: may_run.induct)
  case (3 P s xs)
  have closes: "closes d s \<longleftrightarrow> ts_call s = J_Text i"
    using assms by (simp add: closes_def truthy_def field_def)
  have keep: "ts_call (closed d s) = ts_call s" "ts_status (closed d s) \<noteq> ''running''"
    by (simp_all add: closed_def)
  show ?case
  proof (cases "ts_call s = J_Text i")
    case True
    have "{j \<in> P - {i}. ts_call s \<noteq> J_Text j} = {j \<in> P. ts_call s \<noteq> J_Text j}"
      using True by auto
    with 3 True keep closes show ?thesis
      by simp
  next
    case False
    have "{j \<in> P - {i}. ts_call s \<noteq> J_Text j} = {j \<in> P. ts_call s \<noteq> J_Text j} - {i}"
      by auto
    with 3 False closes show ?thesis
      by auto
  qed
qed simp_all

lemma may_run_none: "may_run {} xs \<Longrightarrow> Tool_Step s \<in> set xs \<Longrightarrow> ts_status s \<noteq> ''running''"
proof (induction xs)
  case (Cons x xs)
  then show ?case
    by (cases x) auto
qed simp

lemma may_run_fed:
  assumes "may_run P (rev (wk_activity w))" "pend [e] P = Some Q"
  shows "may_run Q (rev (fed wd e w))"
proof (cases e)
  case (Ev_Start c l)
  then have "Q = insert (cr_id c) P" "{i \<in> Q. cr_id c \<noteq> i} = P"
    using assms(2) by (auto split: if_splits)
  then show ?thesis
    using assms(1) Ev_Start by (simp add: new_step_def call_data_def field_def)
next
  case (Ev_Approval c)
  then have "Q = P" "{i \<in> P. cr_id c \<noteq> i} = P"
    using assms(2) by (auto split: if_splits)
  then show ?thesis
    using assms(1) Ev_Approval by (simp add: new_step_def call_data_def field_def)
next
  case (Ev_Result c r bad learn arts)
  then have c: "cr_id c \<noteq> []" "Q = P - {cr_id c}"
    using assms(2) by (simp_all split: if_splits)
  show ?thesis
    using may_run_closed [OF c(1), of "snd (event_frame wd e)"] assms(1) Ev_Result c(2) by (simp add: update_last_def Let_def)
qed (use assms in simp_all)

primrec step_calls :: "activity_step list \<Rightarrow> json list" where
  "step_calls [] = []"
| "step_calls (x # xs) = (case x of Reasoning r \<Rightarrow> [] | Tool_Step s \<Rightarrow> [ts_call s]) @ step_calls xs"

definition called :: "agent_event \<Rightarrow> json list" where
  "called e = (case e of Ev_Start c l \<Rightarrow> [J_Text (cr_id c)] | Ev_Approval c \<Rightarrow> [J_Text (cr_id c)] | _ \<Rightarrow> [])"

lemma step_calls_append [simp]: "step_calls (xs @ ys) = step_calls xs @ step_calls ys"
  by (induction xs) simp_all

lemma step_calls_rev: "step_calls (rev xs) = rev (step_calls xs)"
  by (induction xs) (simp_all split: activity_step.split)

lemma step_calls_update_first: "(\<And>s. ts_call (g s) = ts_call s) \<Longrightarrow> step_calls (update_first p g xs) = step_calls xs"
  by (induction p g xs rule: update_first.induct) simp_all

lemma step_calls_update_last: "(\<And>s. ts_call (g s) = ts_call s) \<Longrightarrow> step_calls (update_last p g xs) = step_calls xs"
  by (simp add: update_last_def step_calls_rev step_calls_update_first)

lemma step_calls_fed: "step_calls (fed wd e w) = step_calls (wk_activity w) @ called e"
proof (cases e)
  case (Ev_Result c r bad learn arts)
  then show ?thesis
    by (simp add: called_def Let_def step_calls_update_last closed_def)
qed (simp_all add: called_def new_step_def call_data_def field_def)

lemma consume_all_feed:
  assumes "settled w" "may_run P (rev (wk_activity w))" "pend es P = Some Q"
  obtains w' where "consume_all wt (frames wd es) w = (None, w')" "settled w'" "may_run Q (rev (wk_activity w'))"
    "step_calls (wk_activity w') = step_calls (wk_activity w) @ concat (map called es)"
  using assms
proof (induction es arbitrary: w P thesis)
  case (Cons e es)
  obtain w1 where w1: "consume wt (event_frame wd e) w = (None, w1)" "settled w1" "wk_activity w1 = fed wd e w"
    using consume_settled [OF Cons.prems(2)] by metis
  obtain R where R: "pend [e] P = Some R" "pend es R = Some Q"
    by (metis Cons.prems(4) append_Cons append_Nil bind_eq_Some_conv pend_append)
  have "may_run R (rev (wk_activity w1))"
    using may_run_fed [OF Cons.prems(3) R(1)] w1(3) by simp
  then obtain w2 where w2: "consume_all wt (frames wd es) w1 = (None, w2)" "settled w2" "may_run Q (rev (wk_activity w2))"
    "step_calls (wk_activity w2) = step_calls (wk_activity w1) @ concat (map called es)"
    using Cons.IH [OF _ w1(2) _ R(2)] by metis
  show ?case
    using w1 w2 by (intro Cons.prems(1) [of w2]) (simp_all add: then_do_def step_calls_fed)
qed simp

lemma update_last_none: "\<forall>s. Tool_Step s \<in> set xs \<longrightarrow> \<not> p s \<Longrightarrow> update_last p g xs = xs"
proof -
  have "update_first p g xs = xs" if "\<forall>s. Tool_Step s \<in> set xs \<longrightarrow> \<not> p s" for xs
    using that by (induction p g xs rule: update_first.induct) auto
  then show "\<forall>s. Tool_Step s \<in> set xs \<longrightarrow> \<not> p s \<Longrightarrow> update_last p g xs = xs"
    by (simp add: update_last_def)
qed

definition stored_feed :: "worker \<Rightarrow> activity_step list" where
  "stored_feed w = (case aw_activity (wk_saved w) of None \<Rightarrow> [] | Some xs \<Rightarrow> xs)"

lemma stored_feed_column: "aw_activity (wk_saved w) = feed_column xs \<Longrightarrow> stored_feed w = xs"
  by (simp add: stored_feed_def feed_column_def)

lemma turn_balanced:
  assumes "well_tagged (tn_messages (turn_of (run_turn env su w0)))"
  shows "pend (tn_events (turn_of (run_turn env su w0))) {} = Some {}"
proof (cases rule: run_turn_cases [of env su w0])
  case (collision e)
  then show ?thesis
    by (simp add: new_turn_def)
next
  case loop
  have "ended (\<lambda>t. well_tagged (tn_messages t) \<longrightarrow> pend (tn_events t) {} = Some {}) (run_turn env su w0)"
    unfolding loop(2) by (rule balanced.iterate_ended) (simp add: started_def new_turn_def say_def emit_def)
  then show ?thesis
    using assms by (auto simp: ended_def emit_def pend_append done_event_def split: outcome.splits)
qed

definition is_running :: "activity_step \<Rightarrow> bool" where
  "is_running x = (case x of Tool_Step s \<Rightarrow> ts_status s = ''running'' | _ \<Rightarrow> False)"

text \<open>C35. When the replies of the model give their calls distinct ids and the commits go through, the stored feed of a turn
  that was read to its end has one step per requested call, in the order they were announced, and none of them
  is running, whether the turn answered, failed or was stopped after it.\<close>

theorem finished_feed_shows_no_running_call:
  fixes wt :: worker_turn and wd :: wording and fin :: stream_end
  assumes "well_tagged (tn_messages (turn_of (run_turn env su w0)))"
  defines "feed \<equiv> stored_feed (run_worker wt (frames wd (tn_events (turn_of (run_turn env su w0)))) fin (new_worker []))"
  shows "step_calls feed = concat (map called (tn_events (turn_of (run_turn env su w0))))
    \<and> filter is_running feed = []"
proof -
  let ?es = "tn_events (turn_of (run_turn env su w0))"
  have start: "may_run {} (rev (wk_activity (new_worker [])))" "step_calls (wk_activity (new_worker [])) = []"
    by (simp_all add: new_worker_def Let_def)
  obtain w where w: "consume_all wt (frames wd ?es) (new_worker []) = (None, w)" "settled w" "may_run {} (rev (wk_activity w))"
    "step_calls (wk_activity w) = step_calls (wk_activity (new_worker [])) @ concat (map called ?es)"
    by (rule consume_all_feed [OF new_worker_settled start(1) turn_balanced [OF assms(1)]])
  have idle: "\<forall>s. Tool_Step s \<in> set (wk_activity w) \<longrightarrow> ts_status s \<noteq> ''running''"
    using may_run_none [OF w(3)] by simp
  then have "update_last (\<lambda>s. ts_status s = ''running'') stopped_step (wk_activity w) = wk_activity w"
    by (intro update_last_none) simp
  then have "feed = wk_activity w"
    unfolding feed_def using run_worker_settled(2) [OF w(1,2), of fin] by (intro stored_feed_column) simp
  with idle w(4) start(2) show ?thesis
    by (auto simp: filter_empty_conv is_running_def split: activity_step.splits)
qed

section \<open>The answer\<close>

lemma done_sets:
  assumes "settled w"
  obtains w' where "consume wt (event_frame wd (Ev_Done content p q remark d)) w = (None, w')" "settled w'"
    "wk_prompt w' = J_Num p" "wk_completion w' = J_Num q" "content \<noteq> [] \<longrightarrow> wk_text w' = content"
proof -
  let ?f = "event_frame wd (Ev_Done content p q remark d)"
  have f: "fst ?f = ''done''" "map_of (snd ?f) ''prompt_tokens'' = Some (J_Num p)" "map_of (snd ?f) ''completion_tokens'' = Some (J_Num q)"
    "map_of (snd ?f) ''content'' = Some (J_Text content)"
    by simp_all
  obtain ty e where fe: "?f = (ty, e)"
    by fastforce
  obtain w1 where w1: "note_text wt ?f w = (None, w1)" "same_feed w w1" "wk_prompt w1 = J_Num p" "wk_completion w1 = J_Num q"
    "content \<noteq> [] \<longrightarrow> wk_text w1 = content"
  proof -
    have "truthy (Some (J_Text content)) = (content \<noteq> [])"
      by (simp add: truthy_def)
    then show thesis
      using f unfolding fe fst_conv snd_conv
      by (intro that, simp add: note_text_def, simp_all add: same_feed_def field_def py_str_def)
  qed
  let ?w = "w1\<lparr>wk_investigation := noted_investigation ?f (wk_investigation w1)\<rparr>"
  have "note_call wt ?f ?w = (None, ?w)" "note_result wt ?f ?w = (None, ?w)"
    using f(1) by (simp_all add: note_call_def note_result_def is_call_def case_prod_beta)
  from consume_steps [OF w1(1) this] show thesis
    by (rule that) (use assms w1 in \<open>simp_all add: same_feed_def settled_def\<close>)
qed

lemma consume_all_append: "consume_all wt (xs @ ys) w = then_do (consume_all wt xs w) (consume_all wt ys)"
  by (induction xs arbitrary: w) (auto simp: then_do_def split: prod.split option.split)

text \<open>A step that ends well does what it does when every commit goes through.\<close>

definition mute :: "worker \<Rightarrow> worker" where
  "mute w = w\<lparr>wk_replies := []\<rparr>"

lemma mute_sel [simp]:
  "wk_text (mute w) = wk_text w" "wk_reasoning (mute w) = wk_reasoning w" "wk_tokens (mute w) = wk_tokens w"
  "wk_activity (mute w) = wk_activity w" "wk_investigation (mute w) = wk_investigation w" "wk_row (mute w) = wk_row w"
  "wk_added (mute w) = wk_added w" "wk_rows (mute w) = wk_rows w" "wk_saved (mute w) = wk_saved w" "wk_stream (mute w) = wk_stream w"
  "wk_prompt (mute w) = wk_prompt w" "wk_completion (mute w) = wk_completion w" "wk_routing (mute w) = wk_routing w"
  by (simp_all add: mute_def)

definition steady :: "(worker \<Rightarrow> progress) \<Rightarrow> bool" where
  "steady f \<longleftrightarrow> (\<forall>w w'. f w = (None, w') \<longrightarrow> f (mute w) = (None, mute w'))"

lemma steadyD: "steady f \<Longrightarrow> f w = (None, w') \<Longrightarrow> f (mute w) = (None, mute w')"
  by (simp add: steady_def)

lemma steady_commit: "steady commit"
  by (auto simp: steady_def commit_def mute_def all_in_def split: list.splits commit_reply.splits)

lemma steady_update: "steady f \<Longrightarrow> (\<And>w. g (mute w) = mute (g w)) \<Longrightarrow> steady (\<lambda>w. f (g w))"
  by (simp add: steady_def)

lemma steady_then: "steady f \<Longrightarrow> (\<And>w. steady (\<lambda>v. g v)) \<Longrightarrow> steady (\<lambda>w. then_do (f w) g)"
  by (auto simp: steady_def then_do_def split: prod.splits option.splits)

lemma steady_checkpoint: "steady (checkpoint wt)"
  unfolding checkpoint_def by (rule steady_update [OF steady_commit]) (simp add: mute_def)

lemma steady_publish: "steady (publish f)"
  by (simp add: steady_def publish_def mute_def)

lemma steady_note_investigation: "steady (note_investigation f)"
  by (simp add: steady_def note_investigation_def mute_def)

lemma steady_note_text: "steady (note_text wt f)"
  unfolding steady_def
proof (intro allI impI)
  fix w w' assume run: "note_text wt f w = (None, w')"
  obtain ty d where f: "f = (ty, d)"
    by fastforce
  show "note_text wt f (mute w) = (None, mute w')"
  proof (cases "ty = ''token''")
    case token: True
    then obtain s where s: "map_of d ''text'' = Some (J_Text s)"
      using run by (cases "map_of d ''text''"; cases "the (map_of d ''text'')") (simp_all add: f note_text_def)
    let ?v = "w\<lparr>wk_text := wk_text w @ s, wk_reasoning := wk_reasoning w @ s, wk_tokens := wk_tokens w + 1\<rparr>"
    show ?thesis
    proof (cases "40 \<le> wk_tokens w + 1")
      case True
      have "checkpoint wt (?v\<lparr>wk_tokens := 0\<rparr>) = (None, w')"
        using run True s token by (simp add: f note_text_def Let_def)
      from steadyD [OF steady_checkpoint this] have "checkpoint wt (mute (?v\<lparr>wk_tokens := 0\<rparr>)) = (None, mute w')" .
      moreover have "note_text wt f (mute w) = checkpoint wt (mute (?v\<lparr>wk_tokens := 0\<rparr>))"
        using True s token by (cases w) (simp add: f note_text_def Let_def mute_def)
      ultimately show ?thesis
        by simp
    next
      case False
      then show ?thesis
        using run s token by (auto simp: f note_text_def Let_def mute_def)
    qed
  next
    case False
    consider "ty = ''done''" | "ty = ''routing''" | "ty \<noteq> ''done''" "ty \<noteq> ''routing''"
      by blast
    then show ?thesis
      using run False
      by cases (cases w, auto simp: f note_text_def Let_def mute_def cong: option.case_cong json.case_cong list.case_cong)+
  qed
qed

lemma steady_note_call: "steady (note_call wt f)"
proof -
  obtain ty d where f: "f = (ty, d)"
    by fastforce
  show ?thesis
  proof (cases "is_call ty")
    case True
    show ?thesis
    proof (cases "map_of d ''tool_name''")
      case (Some name)
      have "note_call wt f = (\<lambda>w. checkpoint wt (add_rows (call_rows wt ty d name)
          (let said = py_strip (wk_reasoning w);
               w1 = w\<lparr>wk_activity := wk_activity w @ (if said = [] then [] else [Reasoning said]),
                 wk_reasoning := (if said = [] then wk_reasoning w else []), wk_text := []\<rparr>
           in w1\<lparr>wk_activity := wk_activity w1 @ [Tool_Step (new_step ty d name)]\<rparr>)))"
        using True Some by (simp add: fun_eq_iff f note_call_def Let_def)
      then show ?thesis
        by (simp only:) (rule steady_update [OF steady_checkpoint], simp add: add_rows_def mute_def Let_def)
    qed (use True in \<open>simp add: steady_def f note_call_def Let_def\<close>)
  qed (simp add: steady_def f note_call_def)
qed

lemma steady_note_result: "steady (note_result wt f)"
proof -
  obtain ty d where f: "f = (ty, d)"
    by fastforce
  show ?thesis
  proof (cases "ty = ''tool_result''")
    case True
    then have "note_result wt f = (\<lambda>w. checkpoint wt (add_rows [result_row wt d]
        (w\<lparr>wk_activity := update_last (closes d) (closed d) (wk_activity w), wk_reasoning := []\<rparr>)))"
      by (simp add: fun_eq_iff f note_result_def)
    then show ?thesis
      by (simp only:) (rule steady_update [OF steady_checkpoint], simp add: add_rows_def mute_def)
  qed (simp add: steady_def f note_result_def)
qed

lemma steady_consume: "steady (consume wt f)"
  unfolding consume_def
  by (intro steady_then steady_note_text steady_note_investigation steady_note_call steady_note_result steady_publish)

lemma steady_consume_all: "steady (consume_all wt fs)"
proof (induction fs)
  case (Cons f fs)
  then show ?case
    using steady_then [OF steady_consume, of "consume_all wt fs"] by simp
qed (simp add: steady_def)

lemma steady_finish: "steady (finish wt)"
proof -
  have "steady (\<lambda>w. checkpoint wt (timed wt (cleaned wt w)))"
    by (rule steady_update [OF steady_checkpoint]) (simp add: timed_def cleaned_def mute_def)
  moreover have "steady (\<lambda>w. commit (add_rows (turn_rows wt w) w))"
    by (rule steady_update [OF steady_commit]) (simp add: add_rows_def turn_rows_def mute_def)
  ultimately show ?thesis
    unfolding finish_def by (intro steady_then steady_publish)
qed

text \<open>Only a finished turn says that it is saved.\<close>

definition unsaid :: "worker \<Rightarrow> bool" where
  "unsaid w \<longleftrightarrow> (\<forall>f\<in>set (wk_stream w). fst f \<noteq> ''saved'')"

lemma unsaid_stream: "wk_stream w' = wk_stream w \<Longrightarrow> unsaid w \<Longrightarrow> unsaid w'"
  by (simp add: unsaid_def)

lemma consume_stream:
  assumes "consume wt f w = (h, w')"
  shows "wk_stream w' = wk_stream w \<or> wk_stream w' = wk_stream w @ [f]"
proof -
  obtain h1 w1 where s1: "note_text wt f w = (h1, w1)"
    by fastforce
  obtain h2 w2 where s2: "note_investigation f w1 = (h2, w2)"
    by fastforce
  obtain h3 w3 where s3: "note_call wt f w2 = (h3, w3)"
    by fastforce
  obtain h4 w4 where s4: "note_result wt f w3 = (h4, w4)"
    by fastforce
  have "wk_stream w1 = wk_stream w" "wk_stream w2 = wk_stream w" "wk_stream w3 = wk_stream w" "wk_stream w4 = wk_stream w"
    using note_text_grows [OF s1] note_investigation_grows [OF s2] note_call_cases(1) [OF s3] note_result_cases(1) [OF s4]
    by (simp_all add: grows_def)
  then show ?thesis
    using assms by (auto simp: consume_def then_do_def s1 s2 s3 s4 publish_def split: option.splits)
qed

lemma consume_all_unsaid:
  "consume_all wt fs w = (h, w') \<Longrightarrow> unsaid w \<Longrightarrow> \<forall>f\<in>set fs. fst f \<noteq> ''saved'' \<Longrightarrow> unsaid w'"
proof (induction fs arbitrary: w)
  case (Cons f fs)
  obtain h1 w1 where s1: "consume wt f w = (h1, w1)"
    by fastforce
  have "unsaid w1"
    using consume_stream [OF s1] Cons.prems(2,3) by (auto simp: unsaid_def)
  then show ?case
    using Cons.IH [of w1] Cons.prems(1,3) by (cases h1) (auto simp: then_do_def s1)
qed simp

lemma halted_unsaid:
  assumes "unsaid w"
  shows "unsaid (failed wt e w)" "unsaid (stopped wt w)" "unsaid (halted wt h w)"
proof -
  show failed: "unsaid (failed wt e w)" for e
  proof -
    obtain h1 w1 where c: "commit (w\<lparr>wk_row := (wk_row w)\<lparr>aw_content := (if py_strip (wk_text w) = [] then friendly wt e
        else wk_text w @ [CHR 0x0A, CHR 0x0A] @ friendly wt e)\<rparr>\<rparr>) = (h1, w1)"
      by fastforce
    have "wk_stream w1 = wk_stream w"
      using commit_cases(1) [OF c] by (simp add: grows_def)
    then show ?thesis
      using assms by (auto simp: failed_def Let_def c publish_def unsaid_def split: option.split halt.split)
  qed
  show stopped: "unsaid (stopped wt w)"
  proof -
    let ?w2 = "timed wt ((cleaned wt w)\<lparr>wk_activity := update_last (\<lambda>s. ts_status s = ''running'') stopped_step (wk_activity (cleaned wt w))\<rparr>)"
    obtain h1 w3 where c: "checkpoint wt ?w2 = (h1, w3)"
      by fastforce
    have "wk_stream w3 = wk_stream w"
      using checkpoint_cases(1) [OF c] by (simp add: grows_def)
    then show ?thesis
      using assms unfolding stopped_def Let_def c by (auto simp: publish_def unsaid_def split: option.split halt.split)
  qed
  show "unsaid (halted wt h w)"
    using failed stopped by (simp add: halted_def split: halt.split)
qed

lemma finish_unsaid:
  assumes "finish wt w = (Some h, w')" "unsaid w"
  shows "unsaid w'"
proof -
  obtain h1 w1 where c1: "checkpoint wt (timed wt (cleaned wt w)) = (h1, w1)"
    by fastforce
  obtain h2 w2 where c2: "commit (add_rows (turn_rows wt w1) w1) = (h2, w2)"
    by fastforce
  have "wk_stream w1 = wk_stream w" "wk_stream w2 = wk_stream w1"
    using checkpoint_cases(1) [OF c1] commit_cases(1) [OF c2] by (simp_all add: grows_def)
  then show ?thesis
    using assms by (auto simp: finish_def then_do_def c1 c2 publish_def unsaid_def split: option.splits)
qed

lemma saved_is_finished:
  assumes "''saved'' \<in> fst ` set (wk_stream (run_worker wt fs fin (new_worker replies)))" "\<forall>f\<in>set fs. fst f \<noteq> ''saved''"
  obtains w where "fin = Ran_Out" "consume_all wt fs (new_worker replies) = (None, w)"
    "finish wt w = (None, run_worker wt fs fin (new_worker replies))"
proof -
  obtain h w where c: "consume_all wt fs (new_worker replies) = (h, w)"
    by fastforce
  obtain h2 w2 where f: "finish wt w = (h2, w2)"
    by fastforce
  have "unsaid (new_worker replies)"
    by (simp add: unsaid_def new_worker_def Let_def)
  then have u: "unsaid w"
    using consume_all_unsaid [OF c] assms(2) by blast
  have told: "\<not> unsaid (run_worker wt fs fin (new_worker replies))"
    using assms(1) unfolding unsaid_def image_iff by metis
  then have "h = None" "fin = Ran_Out"
    by (auto simp: run_worker_def c halted_unsaid [OF u] split: option.splits stream_end.splits)
  moreover have "h2 = None"
  proof (rule ccontr)
    assume "h2 \<noteq> None"
    then obtain e where e: "h2 = Some e"
      by blast
    then have "unsaid (halted wt e w2)"
      using finish_unsaid f u halted_unsaid(3) by blast
    then show False
      using told calculation by (simp add: run_worker_def c f e)
  qed
  ultimately show thesis
    using that c f by (simp add: run_worker_def)
qed

lemma frames_unsaid: "\<forall>f\<in>set (frames wd es). fst f \<noteq> ''saved''"
proof -
  have "fst (event_frame wd e) \<noteq> ''saved''" for e
    by (cases e) simp_all
  then show ?thesis
    by auto
qed

lemma answered_ends_done:
  assumes "run_turn env su w0 = Answered t"
  obtains es content remark where
    "tn_events t = es @ [Ev_Done content (tn_prompt t) (tn_completion t) remark (diagnostics (tn_surface t))]"
proof -
  have "\<exists>t0 content remark. t = emit [done_event content remark t0] t0"
  proof (cases rule: run_turn_cases [of env su w0])
    case loop
    have "ended (\<lambda>t. \<forall>(b, c)\<in>set (tn_sent t). \<exists>l. Ev_Start c l \<in> set (tn_events t)) (run_turn env su w0)"
      unfolding loop(2) by (rule announced.iterate_ended) simp
    then show ?thesis
      unfolding assms ended_def by auto
  qed (use assms in simp)
  then obtain t0 content remark where t: "t = emit [done_event content remark t0] t0"
    by blast
  then show thesis
    by (intro that [of "tn_events t0" content remark]) (simp add: emit_def done_event_def)
qed

text \<open>The answer and the usage row a finished turn leaves.\<close>

definition stored_answer :: "worker_turn \<Rightarrow> string \<Rightarrow> int \<Rightarrow> int \<Rightarrow> worker \<Rightarrow> bool" where
  "stored_answer wt content p q w \<longleftrightarrow>
     (content \<noteq> [] \<longrightarrow> aw_content (wk_saved w) = (if wt_strip wt content = [] then content else wt_strip wt content))
     \<and> Usage_Row (J_Num p) (J_Num q) \<in> set (wk_rows w)"

lemma answer_settled:
  assumes "tn_events t = es @ [Ev_Done content p q remark d]"
  obtains w w' where "consume_all wt (frames wd (tn_events t)) (new_worker []) = (None, w)" "finish wt w = (None, w')"
    "stored_answer wt content p q w'" "fst (last (wk_stream w')) = ''saved''"
proof -
  obtain w1 where w1: "consume_all wt (frames wd es) (new_worker []) = (None, w1)" "settled w1"
    by (rule consume_all_settled [OF new_worker_settled])
  obtain w2 where w2: "consume wt (event_frame wd (Ev_Done content p q remark d)) w1 = (None, w2)"
    "settled w2" "wk_prompt w2 = J_Num p" "wk_completion w2 = J_Num q" "content \<noteq> [] \<longrightarrow> wk_text w2 = content"
    by (rule done_sets [OF w1(2)])
  have all: "consume_all wt (frames wd (tn_events t)) (new_worker []) = (None, w2)"
    unfolding assms map_append consume_all_append by (simp add: then_do_def w1(1) w2(1) del: event_frame.simps)
  obtain w3 where w3: "finish wt w2 = (None, w3)" "aw_activity (wk_saved w3) = feed_column (wk_activity w2)"
    "wk_stream w3 = wk_stream w2 @ [(''saved'', [(''id'', J_Text (wt_assistant wt)), (''duration_ms'', J_Num (wt_duration wt))])]"
    "aw_content (wk_saved w3) = (if wt_strip wt (wk_text w2) = [] then wk_text w2 else wt_strip wt (wk_text w2))"
    "Usage_Row (wk_prompt w2) (wk_completion w2) \<in> set (wk_rows w3)"
    by (rule finish_settled [OF w2(2)])
  show thesis
    by (rule that [OF all w3(1)]) (use w2(3-5) w3(3-5) in \<open>auto simp: stored_answer_def\<close>)
qed

text \<open>C36. Whatever commits fail and however the turn ends, the clients are told that its answer is saved only when the answer is in the
  tables, cleaned unless cleaning leaves nothing, with the token counts of the whole turn; and when the commits go
  through and the turn is read to its end, it is stored like that and they are told.\<close>

theorem answer_is_stored:
  fixes wt :: worker_turn and wd :: wording
  assumes "run_turn env su w0 = Answered t"
  shows "\<exists>content remark. last (tn_events t) = Ev_Done content (tn_prompt t) (tn_completion t) remark (diagnostics (tn_surface t))
    \<and> (\<forall>fin replies. ''saved'' \<in> fst ` set (wk_stream (run_worker wt (frames wd (tn_events t)) fin (new_worker replies)))
         \<longrightarrow> stored_answer wt content (tn_prompt t) (tn_completion t) (run_worker wt (frames wd (tn_events t)) fin (new_worker replies)))
    \<and> stored_answer wt content (tn_prompt t) (tn_completion t) (run_worker wt (frames wd (tn_events t)) Ran_Out (new_worker []))
    \<and> fst (last (wk_stream (run_worker wt (frames wd (tn_events t)) Ran_Out (new_worker [])))) = ''saved''"
proof -
  let ?fs = "frames wd (tn_events t)"
  obtain es content remark where ev:
    "tn_events t = es @ [Ev_Done content (tn_prompt t) (tn_completion t) remark (diagnostics (tn_surface t))]"
    by (rule answered_ends_done [OF assms])
  obtain w w' where w: "consume_all wt ?fs (new_worker []) = (None, w)" "finish wt w = (None, w')"
    "stored_answer wt content (tn_prompt t) (tn_completion t) w'" "fst (last (wk_stream w')) = ''saved''"
    by (rule answer_settled [OF ev])
  have "stored_answer wt content (tn_prompt t) (tn_completion t) (run_worker wt ?fs fin (new_worker replies))"
    if told: "''saved'' \<in> fst ` set (wk_stream (run_worker wt ?fs fin (new_worker replies)))" for fin replies
  proof -
    obtain v where v: "consume_all wt ?fs (new_worker replies) = (None, v)" "finish wt v = (None, run_worker wt ?fs fin (new_worker replies))"
      by (rule saved_is_finished [OF told frames_unsaid])
    have "mute (new_worker replies) = new_worker []"
      by (simp add: mute_def new_worker_def Let_def)
    then have "mute v = w" "mute (run_worker wt ?fs fin (new_worker replies)) = w'"
      using steadyD [OF steady_consume_all v(1)] steadyD [OF steady_finish v(2)] w(1,2) by simp_all
    then show ?thesis
      using w(3) by (auto simp: stored_answer_def)
  qed
  moreover have "run_worker wt ?fs Ran_Out (new_worker []) = w'"
    by (simp add: run_worker_def w(1,2))
  ultimately show ?thesis
    using ev w(3,4) by (intro exI [of _ content] exI [of _ remark]) simp
qed

section \<open>Where the record is wrong\<close>

text \<open>Stopping a turn closes the newest running step only: of two calls in flight the first stays running in the stored feed.\<close>

lemma stop_leaves_earlier_call_running:
  "\<exists>s. Tool_Step s \<in> set (stored_feed (run_worker wt (frames wd [Ev_Start a l, Ev_Start b k]) Stopped_By_User (new_worker [])))
     \<and> ts_call s = J_Text (cr_id a) \<and> ts_status s = ''running''"
proof -
  note [simp del] = event_frame.simps
  obtain w1 where w1: "consume wt (event_frame wd (Ev_Start a l)) (new_worker []) = (None, w1)" "settled w1"
    "wk_activity w1 = fed wd (Ev_Start a l) (new_worker [])"
    using consume_settled [OF new_worker_settled] by metis
  obtain w2 where w2: "consume wt (event_frame wd (Ev_Start b k)) w1 = (None, w2)" "settled w2" "wk_activity w2 = fed wd (Ev_Start b k) w1"
    using consume_settled [OF w1(2)] by metis
  let ?a = "new_step ''tool_start'' (call_data a @ [(''discovery'', J_Bool l)]) (J_Text (cr_name a))"
  let ?b = "new_step ''tool_start'' (call_data b @ [(''discovery'', J_Bool k)]) (J_Text (cr_name b))"
  have running: "ts_status ?a = ''running''" "ts_status ?b = ''running''" "ts_call ?a = J_Text (cr_id a)"
    by (simp_all add: new_step_def call_data_def field_def)
  have "Tool_Step ?a \<in> set (wk_activity w1)"
    unfolding w1(3) by simp
  moreover obtain xs where "wk_activity w2 = wk_activity w1 @ xs @ [Tool_Step ?b]"
    unfolding w2(3) by simp
  ultimately have "Tool_Step ?a \<in> set (update_last (\<lambda>s. ts_status s = ''running'') stopped_step (wk_activity w2))"
    using running(2) by (simp add: update_last_def)
  moreover have "run_worker wt (frames wd [Ev_Start a l, Ev_Start b k]) Stopped_By_User (new_worker []) = stopped wt w2"
    by (simp add: run_worker_def then_do_def w1(1) w2(1))
  ultimately show ?thesis
    using stored_feed_column [OF stopped_settled(1) [OF w2(2)]] running(1,3) by metis
qed

lemma not_blank: "c \<in> set s \<Longrightarrow> \<not> is_space c \<Longrightarrow> py_strip s \<noteq> []"
proof
  assume c: "c \<in> set s" "\<not> is_space c" and blank: "py_strip s = []"
  then have "\<forall>x\<in>set (dropWhile is_space s). is_space x"
    by (simp add: py_strip_def dropWhile_eq_Nil_conv)
  moreover have "c \<in> set (dropWhile is_space s)"
    using c by (induction s) auto
  ultimately show False
    using c(2) by blast
qed

text \<open>A turn that fails stores its error as the answer, so a deep review that failed counts as done.\<close>

lemma failed_review_counts_as_done:
  "review_result (Some (wk_saved (run_worker wt (frames wd es) (Stream_Raised e) (new_worker [])))) = (True, [])"
proof -
  obtain w where w: "consume_all wt (frames wd es) (new_worker []) = (None, w)" "settled w"
    by (rule consume_all_settled [OF new_worker_settled])
  have "CHR ''T'' \<in> set (friendly wt e)"
    by (simp add: friendly_def Let_def)
  then have "CHR ''T'' \<in> set (aw_content (wk_saved (failed wt e w)))"
    using settled_replies [OF w(2)] by (simp add: failed_def commit_settled publish_def Let_def)
  moreover have "\<not> is_space (CHR ''T'')"
    by (simp add: is_space_def char_code_def)
  ultimately show ?thesis
    using not_blank by (simp add: review_result_def run_worker_def w(1))
qed

text \<open>The loop of a scheduled task gives a result to the newest running step, and every result as done: with two calls in
  flight the first result lands on the second call.\<close>

definition new_scheduled :: scheduled_turn where
  "new_scheduled = \<lparr>sd_text = [], sd_activity = [], sd_prompt = J_Num 0, sd_completion = J_Num 0, sd_routing = [], sd_error = None\<rparr>"

lemma scheduled_results_cross:
  "\<exists>x y. sd_activity (scheduled_events (frames wd [Ev_Start a l, Ev_Start b k, Ev_Result a r bad learn arts]) new_scheduled)
       = [Tool_Step x, Tool_Step y]
     \<and> ts_name x = J_Text (cr_name a) \<and> ts_status x = ''running''
     \<and> ts_name y = J_Text (cr_name b) \<and> ts_status y = ''done'' \<and> ts_summary y = J_Text (wd_summary wd a r learn)"
  by (simp add: scheduled_event_def new_scheduled_def is_call_def update_last_def new_step_def call_data_def scheduled_closed_def field_def)

section \<open>Witnesses\<close>

definition demo_worker :: worker_turn where
  "demo_worker = \<lparr>wt_chat = ''chat1'', wt_assistant = ''m2'', wt_deep = False, wt_provider = ''openai'', wt_model = ''gpt'',
     wt_duration = 1200, wt_strip = (\<lambda>s. s)\<rparr>"

definition demo_wording :: wording where
  "demo_wording = \<lparr>wd_notice = (\<lambda>p. p), wd_summary = (\<lambda>c r l. ''1 item''), wd_duration = (\<lambda>c. 30)\<rparr>"

text \<open>The first commit goes through, the second is lost: the call is streamed with its rows, its result is not.\<close>

definition demo_start :: frame where
  "demo_start = (''tool_start'', [(''tool_name'', J_Text ''compute'')])"

lemma demo_stream:
  "demo_start \<in> set (wk_stream (run_worker demo_worker [demo_start, (''tool_result'', [])] Ran_Out
     (new_worker [Committed, Lost (Raised ''no connection'')])))"
proof -
  obtain h w where one: "consume demo_worker demo_start (new_worker [Committed, Lost (Raised ''no connection'')]) = (h, w)"
    by fastforce
  then have w: "h = None" "demo_start \<in> set (wk_stream w)" "wk_replies w = [Lost (Raised ''no connection'')]"
    by (auto simp: demo_start_def consume_def then_do_def note_text_def note_investigation_def note_call_def note_result_def
        publish_def is_call_def checkpoint_def commit_def all_in_def add_rows_def new_worker_def Let_def)
  obtain v where two: "consume_all demo_worker [(''tool_result'', [])] w = (Some (Raised ''no connection''), v)" "wk_stream v = wk_stream w"
    using w(3) by (simp add: consume_def then_do_def note_text_def note_investigation_def note_call_def note_result_def
        is_call_def checkpoint_def commit_def add_rows_def Let_def)
  obtain u where u: "commit (v\<lparr>wk_row := (wk_row v)\<lparr>aw_content := (if py_strip (wk_text v) = [] then friendly demo_worker ''no connection''
        else wk_text v @ [CHR 0x0A, CHR 0x0A] @ friendly demo_worker ''no connection'')\<rparr>\<rparr>) = u"
    by blast
  have "wk_stream (snd u) = wk_stream v"
    using commit_cases(1) [of _ "fst u" "snd u"] u by (auto simp: grows_def)
  then have "demo_start \<in> set (wk_stream (failed demo_worker ''no connection'' v))"
    using w(2) two(2) u by (cases u) (auto simp: failed_def publish_def Let_def split: option.split halt.split)
  then show ?thesis
    using two(1) by (simp add: run_worker_def then_do_def one w(1) halted_def)
qed

theorem nothing_streamed_unrecorded_witness:
  "Audit_Log ''tool.tool_start'' (J_Text ''compute'') [(''chat_id'', J_Text ''chat1'')]
   \<in> set (wk_rows (run_worker demo_worker [demo_start, (''tool_result'', [])] Ran_Out
       (new_worker [Committed, Lost (Raised ''no connection'')])))"
  using nothing_streamed_unrecorded [OF demo_stream [unfolded demo_start_def]]
  by (simp add: demo_start_def is_call_def call_rows_def) (simp add: demo_worker_def)

theorem every_sent_call_is_audited_witness:
  "Audit_Log ''tool.tool_start'' (J_Text ''compute'') [(''chat_id'', J_Text ''chat1'')]
   \<in> set (wk_rows (run_worker demo_worker (frames demo_wording (tn_events (turn_of (run_turn demo_env demo_setup 0)))) Ran_Out (new_worker [])))"
  using every_sent_call_is_audited [of To_Azure vm_list demo_env demo_setup 0 demo_worker demo_wording Ran_Out]
  by (simp add: demo_sent demo_names) (simp add: demo_worker_def)

lemma demo_tagged: "well_tagged (tn_messages (turn_of (run_turn demo_env demo_setup 0)))"
proof -
  obtain ns sp where run: "tn_messages (turn_of (run_turn demo_env demo_setup 0)) = opening_messages demo_setup @ Requests sp [vm_list, vm_delete] # ns"
    "answer_ids ns = map (\<lambda>c. Some (cr_id c)) [vm_list, vm_delete]"
    using demo_run by metis
  have "Requests s cs \<notin> set ns" for s cs
  proof
    assume "Requests s cs \<in> set ns"
    then have "None \<in> set (answer_ids ns)"
      by (force simp: answer_ids_def)
    then show False
      using run(2) by simp
  qed
  moreover have "Requests s cs \<notin> set (opening_messages demo_setup)" for s cs
    by (auto simp: opening_messages_def)
  ultimately show ?thesis
    by (auto simp: well_tagged_def run(1) vm_list_def vm_delete_def)
qed

theorem finished_feed_shows_no_running_call_witness:
  "filter is_running (stored_feed (run_worker demo_worker
      (frames demo_wording (tn_events (turn_of (run_turn demo_env demo_setup 0)))) Ran_Out (new_worker []))) = []"
  using finished_feed_shows_no_running_call [OF demo_tagged, of demo_worker demo_wording Ran_Out] by blast

theorem answer_is_stored_witness:
  "\<exists>t. run_turn demo_env demo_setup 0 = Answered t
     \<and> Usage_Row (J_Num (tn_prompt t)) (J_Num (tn_completion t))
       \<in> set (wk_rows (run_worker demo_worker (frames demo_wording (tn_events t)) Ran_Out (new_worker [])))"
proof -
  obtain t where t: "run_turn demo_env demo_setup 0 = Answered t"
    using demo_answers by blast
  then show ?thesis
    using answer_is_stored [OF t, of demo_worker demo_wording] unfolding stored_answer_def by blast
qed

end
