(* ===== verification/Turn_Stream.thy ===== *)
theory Turn_Stream
  imports Durable_Jobs
begin

text \<open>
  The stream of a chat turn, \<^verbatim>\<open>app/agent/turn_runner.py\<close>: what a run emits is queued, written in batches to the
  event log of its durable job, and read back by polling subscribers on any replica. A registry always gives its
  runs a store, so the in-memory queues of a run without one are left out, and so is the text of the metadata (a function
  of it is an argument). Instants are microseconds.
\<close>

section \<open>A run\<close>

type_synonym frame = "string \<times> json"

record turn_meta =
  tm_assistant :: string
  tm_started :: int
  tm_last :: int
  tm_tool :: "string option"
  tm_tools :: nat
  tm_kind :: string

record turn_run =
  tr_chat :: string
  tr_tenant :: string
  tr_job :: string
  tr_token :: "string option"
  tr_meta :: turn_meta
  tr_recent :: "frame list"
  tr_done :: bool
  tr_cancelled :: bool
  tr_queue :: "frame option list"

definition MAX_REPLAY_EVENTS :: nat where
  "MAX_REPLAY_EVENTS = 3000"

definition FEATURE :: string where
  "FEATURE = ''chat-turn''"

definition new_meta :: "string \<Rightarrow> int \<Rightarrow> turn_meta" where
  "new_meta assistant now =
     \<lparr>tm_assistant = assistant, tm_started = now, tm_last = now, tm_tool = None, tm_tools = 0, tm_kind = ''chat''\<rparr>"

text \<open>\<open>tool\<close> is the name the event gives, if it gives one.\<close>

definition track :: "int \<Rightarrow> string \<Rightarrow> string option \<Rightarrow> turn_meta \<Rightarrow> turn_meta" where
  "track now ty tool m =
     (let m1 = m\<lparr>tm_last := now\<rparr> in
      if ty = ''tool_start'' \<or> ty = ''approval_required'' then m1\<lparr>tm_tool := tool, tm_tools := tm_tools m1 + 1\<rparr>
      else if ty = ''tool_result'' then m1\<lparr>tm_tool := None\<rparr>
      else if ty \<in> {''phase'', ''agents'', ''hypothesis'', ''hypothesis_status'', ''conclusion''} then m1\<lparr>tm_kind := ''deep''\<rparr>
      else m1)"

text \<open>A bounded queue keeps its newest elements.\<close>

definition push_bounded :: "nat \<Rightarrow> 'a \<Rightarrow> 'a list \<Rightarrow> 'a list" where
  "push_bounded n x xs = drop (length xs + 1 - n) (xs @ [x])"

definition emit_frame :: "int \<Rightarrow> string option \<Rightarrow> frame \<Rightarrow> turn_run \<Rightarrow> turn_run" where
  "emit_frame now tool f r =
     r\<lparr>tr_recent := push_bounded MAX_REPLAY_EVENTS f (tr_recent r), tr_meta := track now (fst f) tool (tr_meta r),
       tr_queue := tr_queue r @ [Some f]\<rparr>"

section \<open>Writing\<close>

text \<open>One turn of \<open>_write_events\<close> on the queue as it finds it: the batch, what is left, and whether the writer goes
  on. A sentinel right at the front ends the writer without a batch.\<close>

definition next_batch :: "frame option list \<Rightarrow> frame list \<times> frame option list \<times> bool" where
  "next_batch q =
     (let batch = take 100 (map the (takeWhile (\<lambda>x. x \<noteq> None) q)); rest = drop (length batch) q
      in if batch = [] then ([], drop 1 q, False)
         else if length batch < 100 \<and> rest \<noteq> [] then (batch, drop 1 rest, False)
         else (batch, rest, True))"

text \<open>\<open>None\<close> is the \<open>RuntimeError\<close> of a write that lost its lease.\<close>

definition persist_batch :: "int \<Rightarrow> string \<Rightarrow> string \<Rightarrow> json \<Rightarrow> frame list \<Rightarrow> jobs_db \<Rightarrow> jobs_db option" where
  "persist_batch now i token meta batch db =
     (case append_events now i token batch (int MAX_REPLAY_EVENTS) (Some meta) False db of
        ([], _) \<Rightarrow> None
      | (_ # _, db') \<Rightarrow> Some db')"

definition close_durable :: "int \<Rightarrow> string \<Rightarrow> string \<Rightarrow> string \<Rightarrow> string \<Rightarrow> jobs_db \<Rightarrow> jobs_db" where
  "close_durable now i token status err db = snd (finalize now i token status None err (60 * 1000000) db)"

section \<open>Subscribing\<close>

definition EVENTS_LIMIT :: nat where
  "EVENTS_LIMIT = 500"

definition read_events :: "string \<Rightarrow> int \<Rightarrow> jobs_db \<Rightarrow> job_event list \<times> int" where
  "read_events i sent db =
     (let evs = events_after i sent EVENTS_LIMIT db in (evs, foldl (\<lambda>m e. max m (int (ev_seq e))) sent evs))"

text \<open>What one turn of the polling loop meets: the log at its first read, the state of the current job of the chat,
  and the log at the last read.\<close>

record poll =
  po_first :: jobs_db
  po_state :: "job option"
  po_last :: jobs_db

fun subscribe :: "string \<Rightarrow> int \<Rightarrow> poll list \<Rightarrow> job_event list" where
  "subscribe i sent [] = []"
| "subscribe i sent (p # ps) =
     (let (evs, sent1) = read_events i sent (po_first p)
      in evs @ (if (case po_state p of None \<Rightarrow> True | Some j \<Rightarrow> jb_status j \<noteq> ''running'')
                then fst (read_events i sent1 (po_last p)) else subscribe i sent1 ps))"

section \<open>The registry\<close>

text \<open>The runs of this process by chat id, beside the tables of the store. \<open>meta_of\<close> reads stored metadata.\<close>

type_synonym runs = "string \<Rightarrow> turn_run option"

definition remote_run :: "(string \<Rightarrow> turn_meta) \<Rightarrow> string \<Rightarrow> string \<Rightarrow> job \<Rightarrow> turn_run" where
  "remote_run meta_of chat tenant j =
     \<lparr>tr_chat = chat, tr_tenant = (if tenant = [] then ''default'' else tenant), tr_job = jb_id j, tr_token = None,
      tr_meta = meta_of (jb_meta j), tr_recent = [], tr_done = (jb_status j \<noteq> ''running''), tr_cancelled = False, tr_queue = []\<rparr>"

definition local_run :: "runs \<Rightarrow> string \<Rightarrow> job \<Rightarrow> turn_run option" where
  "local_run rs chat j = (case rs chat of None \<Rightarrow> None | Some r \<Rightarrow> if tr_job r = jb_id j then Some r else None)"

definition get_run :: "(string \<Rightarrow> turn_meta) \<Rightarrow> int \<Rightarrow> string \<Rightarrow> string \<Rightarrow> runs \<Rightarrow> jobs_db \<Rightarrow> turn_run option \<times> jobs_db" where
  "get_run meta_of now tenant chat rs db =
     (case load_current now (job_scope tenant FEATURE chat) False True db of
        (None, db') \<Rightarrow> (None, db')
      | (Some (j, _), db') \<Rightarrow>
          (case local_run rs chat j of
             Some r \<Rightarrow> (Some (r\<lparr>tr_done := (jb_status j \<noteq> ''running'')\<rparr>), db')
           | None \<Rightarrow> (Some (remote_run meta_of chat tenant j), db')))"

definition is_active :: "(string \<Rightarrow> string \<Rightarrow> bool) \<Rightarrow> int \<Rightarrow> string \<Rightarrow> string \<Rightarrow> jobs_db \<Rightarrow> bool" where
  "is_active matches now tenant chat db =
     list_ex (\<lambda>(j, evs). snd (snd (jb_scope j)) = chat) (fst (list_current matches now tenant FEATURE chat True None db))"

text \<open>Cancelling asks the owner through the tables and, when the run is here, cancels its task.\<close>

definition cancel_turn :: "string \<Rightarrow> string \<Rightarrow> runs \<Rightarrow> jobs_db \<Rightarrow> bool \<times> runs \<times> jobs_db" where
  "cancel_turn tenant chat rs db =
     (let (requested, db') = request_cancel (job_scope tenant FEATURE chat) db
      in (requested,
          (case rs chat of
             Some r \<Rightarrow> if requested \<and> \<not> tr_done r then rs(chat \<mapsto> r\<lparr>tr_cancelled := True\<rparr>) else rs
           | None \<Rightarrow> rs),
          db'))"

datatype turn_start = Own turn_run | Joined turn_run | Not_Loaded

definition start_run ::
  "store \<Rightarrow> (turn_meta \<Rightarrow> json) \<Rightarrow> (string \<Rightarrow> turn_meta) \<Rightarrow> int \<Rightarrow> string \<Rightarrow> string \<Rightarrow> string \<Rightarrow> string \<Rightarrow> string
    \<Rightarrow> (int \<times> jobs_db) list \<Rightarrow> runs \<Rightarrow> jobs_db \<Rightarrow> turn_start \<times> runs \<times> jobs_db" where
  "start_run st enc meta_of now token fresh tenant chat assistant later rs db =
     (let sc = job_scope tenant FEATURE chat;
          (claimed, db1) = claim st now token fresh sc (enc (new_meta assistant now)) later db;
          (found, db2) = load_current now sc False True db1
      in case found of
           None \<Rightarrow> (Not_Loaded, rs, db2)
         | Some (j, _) \<Rightarrow>
             (case claimed of
                Acquired _ t \<Rightarrow>
                  (let r = (remote_run (\<lambda>_. new_meta assistant now) chat tenant j)\<lparr>tr_token := Some t\<rparr>
                   in (Own r, rs(chat \<mapsto> r), db2))
              | Attached _ \<Rightarrow>
                  (case local_run rs chat j of
                     Some r \<Rightarrow> (Joined r, rs, db2)
                   | None \<Rightarrow> (Joined (remote_run meta_of chat tenant j), rs, db2))
              | NoCurrentJob \<Rightarrow> (Not_Loaded, rs, db2)))"

text \<open>How the worker of a run ended decides the status its job is closed with.\<close>

datatype worker_end = Worker_Returned | Worker_Raised string | Worker_Cancelled

definition closing :: "worker_end \<Rightarrow> string \<times> string" where
  "closing e =
     (case e of
        Worker_Returned \<Rightarrow> (''done'', [])
      | Worker_Raised msg \<Rightarrow> (''error'', take 1500 msg)
      | Worker_Cancelled \<Rightarrow> (''cancelled'', ''Turn was cancelled.''))"

definition end_run :: "int \<Rightarrow> worker_end \<Rightarrow> turn_run \<Rightarrow> jobs_db \<Rightarrow> turn_run \<times> jobs_db" where
  "end_run now e r db =
     (let (status, err) = closing e
      in (r\<lparr>tr_done := True\<rparr>,
          (case tr_token r of None \<Rightarrow> db | Some t \<Rightarrow> close_durable now (tr_job r) t status err db)))"

text \<open>The watchdog cancels the task when the lease is gone or a cancellation was asked for.\<close>

definition watch :: "bool \<times> bool \<Rightarrow> turn_run \<Rightarrow> bool \<times> turn_run" where
  "watch answer r =
     (let (owned, cancel) = answer
      in if \<not> owned \<or> cancel then (True, r\<lparr>tr_cancelled := cancel\<rparr>) else (False, r))"

end
