(* ===== verification/Stream_Safety.thy ===== *)
theory Stream_Safety
  imports Turn_Stream
begin

text \<open>
  A subscriber reads the turn that was emitted. Emissions, writes of the queue, reads and the transactions of other
  owners interleave as steps of one machine; its invariant ties the log of the job to what was emitted and the reader to
  the log.
\<close>

section \<open>Batches\<close>

lemma next_batch_takes:
  assumes "fs \<noteq> []" "rest = [] \<or> rest = [None]"
  obtains n where "0 < n" "n \<le> 100" "n \<le> length fs" "fst (next_batch (map Some fs @ rest)) = take n fs"
    "snd (snd (next_batch (map Some fs @ rest))) \<Longrightarrow> fst (snd (next_batch (map Some fs @ rest))) = map Some (drop n fs) @ rest"
    "\<not> snd (snd (next_batch (map Some fs @ rest))) \<Longrightarrow> n = length fs \<and> fst (snd (next_batch (map Some fs @ rest))) = []"
proof -
  have front: "takeWhile (\<lambda>x. x \<noteq> None) (map Some fs @ rest) = map Some fs"
    using assms(2) by (auto simp: takeWhile_append)
  let ?n = "min 100 (length fs)"
  have batch: "take 100 (map the (takeWhile (\<lambda>x. x \<noteq> None) (map Some fs @ rest))) = take ?n fs"
    unfolding front by (simp add: comp_def min_def)
  have nb: "next_batch (map Some fs @ rest) =
      (if take ?n fs = [] then ([], drop 1 (map Some fs @ rest), False)
       else if ?n < 100 \<and> drop ?n (map Some fs @ rest) \<noteq> [] then (take ?n fs, drop 1 (drop ?n (map Some fs @ rest)), False)
       else (take ?n fs, drop ?n (map Some fs @ rest), True))"
    unfolding next_batch_def Let_def batch using assms(1) by auto
  define more where "more \<longleftrightarrow> ?n < 100 \<and> map Some (drop ?n fs) @ rest \<noteq> []"
  have "drop ?n (map Some fs @ rest) = map Some (drop ?n fs) @ rest" "take ?n fs \<noteq> []"
    using assms(1) by (simp_all add: drop_map)
  then have nb: "next_batch (map Some fs @ rest) =
      (if more then (take ?n fs, drop 1 (map Some (drop ?n fs) @ rest), False) else (take ?n fs, map Some (drop ?n fs) @ rest, True))"
    using nb more_def by (simp only: if_False)
  show thesis
  proof (rule that [of ?n])
    show "fst (next_batch (map Some fs @ rest)) = take ?n fs"
      unfolding nb by (cases more) simp_all
    show "fst (snd (next_batch (map Some fs @ rest))) = map Some (drop ?n fs) @ rest" if "snd (snd (next_batch (map Some fs @ rest)))"
      using that unfolding nb by (cases more) simp_all
    show "?n = length fs \<and> fst (snd (next_batch (map Some fs @ rest))) = []" if "\<not> snd (snd (next_batch (map Some fs @ rest)))"
    proof -
      have more
        using that unfolding nb by (cases more) simp_all
      then have n: "?n = length fs" "drop ?n fs = []" "rest = [None]"
        using assms(2) by (auto simp: more_def)
      then show ?thesis
        unfolding nb using \<open>more\<close> by simp
    qed
  qed (use assms(1) in auto)
qed

section \<open>The machine\<close>

text \<open>\<open>sm_emitted\<close> and \<open>sm_out\<close> record what was emitted and read so far; \<open>sm_queue\<close> is what waits for the writer.\<close>

record stream =
  sm_db :: jobs_db
  sm_queue :: "frame list"
  sm_sent :: int
  sm_out :: "job_event list"
  sm_emitted :: "frame list"

definition log_of :: "string \<Rightarrow> jobs_db \<Rightarrow> job_event list" where
  "log_of i db = filter (\<lambda>e. ev_job e = i) (jd_events db)"

text \<open>A transaction of another owner leaves the log of the job alone and hands out none of its numbers.\<close>

definition undisturbed :: "string \<Rightarrow> string \<Rightarrow> jobs_db \<Rightarrow> jobs_db \<Rightarrow> bool" where
  "undisturbed i t db db' \<longleftrightarrow> log_of i db' = log_of i db
     \<and> jb_next_seq ` {j\<in>set (jd_jobs db'). owned_row i t j} \<subseteq> jb_next_seq ` {j\<in>set (jd_jobs db). owned_row i t j}"

inductive stream_step :: "string \<Rightarrow> string \<Rightarrow> stream \<Rightarrow> stream \<Rightarrow> bool" for i t where
  emitted: "stream_step i t s (s\<lparr>sm_queue := sm_queue s @ [f], sm_emitted := sm_emitted s @ [f]\<rparr>)"
| written: "0 < n \<Longrightarrow> n \<le> 100 \<Longrightarrow> n \<le> length (sm_queue s) \<Longrightarrow>
    persist_batch now i t meta (take n (sm_queue s)) (sm_db s) = Some db' \<Longrightarrow>
    stream_step i t s (s\<lparr>sm_db := db', sm_queue := drop n (sm_queue s)\<rparr>)"
| read: "read_events i (sm_sent s) (sm_db s) = (evs, sent) \<Longrightarrow>
    stream_step i t s (s\<lparr>sm_out := sm_out s @ evs, sm_sent := sent\<rparr>)"
| elsewhere: "undisturbed i t (sm_db s) db' \<Longrightarrow> stream_step i t s (s\<lparr>sm_db := db'\<rparr>)"

definition opened :: "string \<Rightarrow> string \<Rightarrow> stream \<Rightarrow> bool" where
  "opened i t s \<longleftrightarrow> log_of i (sm_db s) = [] \<and> (\<forall>j\<in>set (jd_jobs (sm_db s)). owned_row i t j \<longrightarrow> jb_next_seq j = 0)
     \<and> sm_queue s = [] \<and> sm_sent s = -1 \<and> sm_out s = [] \<and> sm_emitted s = []"

text \<open>What the log keeps of a frame, and what a reader sees of a row.\<close>

definition stored_frame :: "frame \<Rightarrow> string \<times> string" where
  "stored_frame f = (take 64 (fst f), event_payload (snd f))"

definition seen :: "job_event \<Rightarrow> string \<times> string" where
  "seen e = (ev_type e, ev_data e)"

definition in_step :: "string \<Rightarrow> string \<Rightarrow> stream \<Rightarrow> bool" where
  "in_step i t s \<longleftrightarrow>
     (let log = log_of i (sm_db s); k = length (sm_out s) in
      map ev_seq log = [0..<length log]
      \<and> (\<forall>j\<in>set (jd_jobs (sm_db s)). owned_row i t j \<longrightarrow> jb_next_seq j = length log)
      \<and> map seen log @ map stored_frame (sm_queue s) = map stored_frame (sm_emitted s)
      \<and> sm_out s = take k log \<and> sm_sent s = int k - 1)"

section \<open>The log and its readers\<close>

lemma numbered_events:
  assumes "map ev_seq (log_of i db) = [0..<length (log_of i db)]"
  shows "events_after i (int k - 1) limit db = take limit (drop k (log_of i db))"
proof -
  let ?log = "log_of i db"
  have "sorted (map ev_seq ?log)"
    unfolding assms by simp
  then have "events_of i db = ?log"
    by (simp add: events_of_def log_of_def sort_key_id_if_sorted)
  moreover have "filter (\<lambda>e. int k - 1 < int (ev_seq e)) ?log = drop k ?log"
  proof -
    have "filter (\<lambda>e. k \<le> ev_seq e) xs = drop (k - b) xs" if "map ev_seq xs = [b..<c]" for xs b c
      using that
    proof (induction xs arbitrary: b)
      case (Cons x xs)
      have "[b..<c] = ev_seq x # map ev_seq xs"
        using Cons.prems by simp
      then have x: "ev_seq x = b" "map ev_seq xs = [Suc b..<c]"
        by (auto simp: upt_eq_Cons_conv)
      show ?case
      proof (cases "k \<le> b")
        case True
        then have "\<forall>e\<in>set xs. k \<le> ev_seq e"
          using x(2) by (metis (no_types, lifting) atLeastLessThan_iff image_eqI le_trans list.set_map set_upt Suc_leD)
        with True x(1) show ?thesis
          by simp
      next
        case False
        then have "k - b = Suc (k - Suc b)"
          by simp
        with False Cons.IH [OF x(2)] x(1) show ?thesis
          by simp
      qed
    qed simp
    from this [of ?log 0 "length ?log"] have "filter (\<lambda>e. k \<le> ev_seq e) ?log = drop k ?log"
      using assms by simp
    moreover have "int k - 1 < int q \<longleftrightarrow> k \<le> q" for q
      by linarith
    ultimately show ?thesis
      by simp
  qed
  ultimately show ?thesis
    by (simp add: events_after_def)
qed

lemma last_number:
  assumes "map ev_seq log = [0..<length log]" "k \<le> length log"
  shows "foldl (\<lambda>m e. max m (int (ev_seq e))) (int k - 1) (take n (drop k log)) = int (min (k + n) (length log)) - 1"
proof (induction n)
  case 0
  then show ?case
    using assms(2) by simp
next
  case (Suc n)
  show ?case
  proof (cases "k + n < length log")
    case True
    then have "take (Suc n) (drop k log) = take n (drop k log) @ [log ! (k + n)]"
      by (simp add: take_Suc_conv_app_nth)
    moreover have "ev_seq (log ! (k + n)) = k + n"
      using True assms(1) by (metis add_0 nth_map nth_upt length_map length_upt diff_zero)
    ultimately show ?thesis
      using Suc True by simp
  next
    case False
    then have "take (Suc n) (drop k log) = take n (drop k log)"
      by simp
    with Suc False show ?thesis
      by simp
  qed
qed

lemma read_numbered:
  assumes "map ev_seq (log_of i db) = [0..<length (log_of i db)]" "k \<le> length (log_of i db)"
  shows "read_events i (int k - 1) db
    = (take 500 (drop k (log_of i db)), int (min (k + 500) (length (log_of i db))) - 1)"
  by (simp add: read_events_def EVENTS_LIMIT_def numbered_events [OF assms(1)] last_number [OF assms])

section \<open>The invariant\<close>

lemma opened_in_step: "opened i t s \<Longrightarrow> in_step i t s"
  by (simp add: opened_def in_step_def Let_def)

lemma trim_nothing:
  assumes "length (filter (\<lambda>e. ev_job e = i) evs) \<le> n"
  shows "trim_events i n evs = evs"
  using assms by (simp add: trim_events_def Let_def)

lemma stored_rows:
  "map ev_seq (map (\<lambda>(k, e). stored_event now inc i (b + k) e) (enumerate c evs)) = [b + c..<b + c + length evs]"
  "map seen (map (\<lambda>(k, e). stored_event now inc i (b + k) e) (enumerate c evs)) = map stored_frame evs"
  "\<forall>e\<in>set (map (\<lambda>(k, e). stored_event now inc i (b + k) e) (enumerate c evs)). ev_job e = i"
proof (induction evs arbitrary: c)
  case (Cons e evs)
  {
    case 1
    show ?case
      using Cons.IH(1) [of "Suc c"] by (simp add: stored_event_def upt_conv_Cons del: upt_Suc)
  next
    case 2
    show ?case
      using Cons.IH(2) [of "Suc c"] by (simp add: stored_event_def seen_def stored_frame_def)
  next
    case 3
    show ?case
      using Cons.IH(3) [of "Suc c"] by (simp add: stored_event_def)
  }
qed simp_all

lemma in_step_keeps:
  assumes "stream_step i t s s'" "in_step i t s" "length (sm_emitted s) \<le> MAX_REPLAY_EVENTS"
  shows "in_step i t s'"
  using assms(1)
proof (cases rule: stream_step.cases)
  case (emitted f)
  then show ?thesis
    using assms(2) by (simp add: in_step_def Let_def)
next
  case (written n now meta db')
  let ?db = "sm_db s" and ?log = "log_of i (sm_db s)" and ?batch = "take n (sm_queue s)"
  note inv = assms(2) [unfolded in_step_def Let_def]
  show ?thesis
  proof (cases rule: append_events_cases [of now i t ?batch "int MAX_REPLAY_EVENTS" "Some meta" False ?db])
    case refused
    with written(5) show ?thesis
      by (simp add: persist_batch_def)
  next
    case (stored j rows)
    have len: "length ?batch = n"
      using written(4) by simp
    have j: "j \<in> set (jd_jobs ?db)" "owned_row i t j"
      using find_SomeD [OF stored(1)] by simp_all
    then have next_seq: "jb_next_seq j = length ?log"
      using inv by blast
    have rows: "map ev_seq rows = [length ?log..<length ?log + n]" "map seen rows = map stored_frame ?batch" "\<forall>e\<in>set rows. ev_job e = i"
      unfolding stored(3) next_seq using stored_rows [of now False i "length ?log" 0 ?batch] len by (simp_all only: add_0_right)
    have "rows \<noteq> []"
      using arg_cong [OF rows(1), of length] written(2) by auto
    then have db': "db' = snd (append_events now i t ?batch (int MAX_REPLAY_EVENTS) (Some meta) False ?db)"
      using written(5) by (auto simp: persist_batch_def stored(4) split: list.splits)
    have "length ?log + length (sm_queue s) = length (sm_emitted s)"
      using inv by (metis length_append length_map)
    then have room: "length (?log @ rows) \<le> MAX_REPLAY_EVENTS"
      using assms(3) written(4) rows(1) by (metis add_le_mono1 le_trans length_append length_map length_upt add_diff_cancel_left' nat_add_left_cancel_le)
    have joined: "filter (\<lambda>e. ev_job e = i) (jd_events ?db @ rows) = ?log @ rows"
      using rows(3) by (simp add: log_of_def filter_id_conv)
    have "nat (max 1 (int MAX_REPLAY_EVENTS)) = MAX_REPLAY_EVENTS"
      by (simp add: MAX_REPLAY_EVENTS_def)
    moreover have "trim_events i MAX_REPLAY_EVENTS (jd_events ?db @ rows) = jd_events ?db @ rows"
      using room by (intro trim_nothing) (simp only: joined)
    ultimately have "jd_events db' = jd_events ?db @ rows"
      unfolding db' stored(4) by simp
    then have log': "log_of i db' = ?log @ rows"
      using joined by (simp add: log_of_def)
    have jobs': "jd_jobs db' = update_rows (owned_row i t) (reserve (length ?batch) (Some meta)) (jd_jobs ?db)"
      unfolding db' stored(4) by simp
    have "jb_next_seq k = length (log_of i db')" if k: "k \<in> set (jd_jobs db')" "owned_row i t k" for k
    proof -
      from k(1) obtain x where x: "x \<in> set (jd_jobs ?db)" "k = (if owned_row i t x then reserve (length ?batch) (Some meta) x else x)"
        unfolding jobs' by auto
      moreover have "owned_row i t x"
        using x(2) k(2) by (metis (mono_tags, lifting))
      ultimately show ?thesis
        using inv len rows(1) by (metis length_append length_map length_upt add_diff_cancel_left' log' reserve_sel(6))
    qed
    moreover have "map ev_seq (?log @ rows) = [0..<length (?log @ rows)]"
      using inv rows(1) by (metis add.commute add_diff_cancel_left' length_append length_map length_upt map_append upt_add_eq_append zero_le)
    moreover have "map seen (?log @ rows) @ map stored_frame (drop n (sm_queue s)) = map stored_frame (sm_emitted s)"
      using inv rows(2) by (metis append.assoc append_take_drop_id map_append)
    moreover have "sm_out s = take (length (sm_out s)) (?log @ rows)"
      using inv by (metis append_Nil2 length_take min.absorb_iff2 nat_le_linear take_all take_append diff_is_0_eq' take_0)
    ultimately show ?thesis
      using written(1) inv log' by (simp add: in_step_def Let_def)
  qed
next
  case (read evs sent)
  let ?log = "log_of i (sm_db s)" and ?k = "length (sm_out s)"
  note inv = assms(2) [unfolded in_step_def Let_def]
  have k: "?k \<le> length ?log"
    using inv by (metis length_take min.cobounded1)
  have "evs = take 500 (drop ?k ?log)" "sent = int (min (?k + 500) (length ?log)) - 1"
    using read(2) read_numbered [of i "sm_db s" ?k] inv k by simp_all
  moreover have "sm_out s @ take 500 (drop ?k ?log) = take (?k + 500) ?log"
    using inv by (metis take_add)
  ultimately show ?thesis
    using inv k by (simp add: read(1) in_step_def Let_def min_def)
next
  case (elsewhere db')
  note inv = assms(2) [unfolded in_step_def Let_def]
  have "jb_next_seq j = length (log_of i (sm_db s))" if "j \<in> set (jd_jobs db')" "owned_row i t j" for j
  proof -
    have "jb_next_seq j \<in> jb_next_seq ` {j\<in>set (jd_jobs (sm_db s)). owned_row i t j}"
      using elsewhere(2) that unfolding undisturbed_def by (metis (mono_tags, lifting) imageI mem_Collect_eq subsetD)
    with inv show ?thesis
      by auto
  qed
  then show ?thesis
    using assms(2) elsewhere(2) by (simp add: elsewhere(1) in_step_def undisturbed_def Let_def)
qed

lemma emitted_grows: "stream_step i t s s' \<Longrightarrow> length (sm_emitted s) \<le> length (sm_emitted s')"
  by (auto elim: stream_step.cases)

lemma reached_in_step:
  assumes "(stream_step i t)\<^sup>*\<^sup>* s0 s" "opened i t s0"
  shows "length (sm_emitted s) \<le> MAX_REPLAY_EVENTS \<Longrightarrow> in_step i t s"
  using assms(1)
proof (induction rule: rtranclp_induct)
  case base
  show ?case
    by (rule opened_in_step [OF assms(2)])
next
  case (step y z)
  then show ?case
    using emitted_grows [OF step(2)] in_step_keeps [OF step(2)] by simp
qed

definition ends_at :: "poll \<Rightarrow> jobs_db \<Rightarrow> bool" where
  "ends_at p db \<longleftrightarrow> po_first p = db \<and> po_last p = db \<and> (\<forall>j. po_state p = Some j \<longrightarrow> jb_status j \<noteq> ''running'')"

lemma last_poll:
  assumes "in_step i t s" "ends_at p (sm_db s)"
  shows "subscribe i (sm_sent s) [p] = take 1000 (drop (length (sm_out s)) (log_of i (sm_db s)))"
proof -
  let ?log = "log_of i (sm_db s)" and ?k = "length (sm_out s)"
  note inv = assms(1) [unfolded in_step_def Let_def]
  have k: "?k \<le> length ?log"
    using inv by (metis length_take min.cobounded1)
  have first: "read_events i (sm_sent s) (sm_db s) = (take 500 (drop ?k ?log), int (min (?k + 500) (length ?log)) - 1)"
    using read_numbered [of i "sm_db s" ?k] inv k by simp
  have second: "fst (read_events i (int (min (?k + 500) (length ?log)) - 1) (sm_db s)) = take 500 (drop (min (?k + 500) (length ?log)) ?log)"
    using read_numbered [of i "sm_db s" "min (?k + 500) (length ?log)"] inv by simp
  have ended: "(case po_state p of None \<Rightarrow> True | Some j \<Rightarrow> jb_status j \<noteq> ''running'') = True"
    using assms(2) by (auto simp: ends_at_def split: option.split)
  have "subscribe i (sm_sent s) [p] = take 500 (drop ?k ?log) @ take 500 (drop (min (?k + 500) (length ?log)) ?log)"
    using assms(2) by (simp add: ends_at_def first second ended [unfolded ends_at_def])
  also have "\<dots> = take 1000 (drop ?k ?log)"
  proof (cases "?k + 500 \<le> length ?log")
    case True
    have "take 1000 (drop ?k ?log) = take 500 (drop ?k ?log) @ take 500 (drop 500 (drop ?k ?log))"
      using take_add [of 500 500 "drop ?k ?log"] by simp
    with True show ?thesis
      by (simp add: add.commute)
  next
    case False
    then show ?thesis
      by simp
  qed
  finally show ?thesis .
qed

lemma written_log:
  assumes "in_step i t s" "sm_queue s = []"
  shows "map seen (log_of i (sm_db s)) = map stored_frame (sm_emitted s)" "sm_out s = take (length (sm_out s)) (log_of i (sm_db s))"
  using assms by (auto simp: in_step_def Let_def)

text \<open>C37. However emissions, batched writes, reads and other owners' transactions interleave, a subscriber that is at most
  a thousand events behind when the turn ends has read exactly the frames the turn emitted, in order and each
  once, as long as the turn emits no more than the log keeps.\<close>

theorem subscriber_reads_the_turn:
  assumes "opened i t s0" "(stream_step i t)\<^sup>*\<^sup>* s0 s" "sm_queue s = []" "length (sm_emitted s) \<le> MAX_REPLAY_EVENTS"
    "length (sm_emitted s) \<le> length (sm_out s) + 1000" "ends_at p (sm_db s)"
  shows "map seen (sm_out s @ subscribe i (sm_sent s) [p]) = map stored_frame (sm_emitted s)"
proof -
  let ?log = "log_of i (sm_db s)" and ?k = "length (sm_out s)"
  have inv: "in_step i t s"
    by (rule reached_in_step [OF assms(2,1,4)])
  note log = written_log [OF inv assms(3)]
  have "length ?log = length (sm_emitted s)"
    using arg_cong [OF log(1), of length] by simp
  then have "take 1000 (drop ?k ?log) = drop ?k ?log"
    using assms(5) by simp
  then have "sm_out s @ subscribe i (sm_sent s) [p] = ?log"
    using last_poll [OF inv assms(6)] log(2) by (metis append_take_drop_id)
  then show ?thesis
    using log(1) by simp
qed

text \<open>A subscriber further behind loses the end of the turn, with the event that closes it: after the job ended only two
  reads of five hundred events are made.\<close>

lemma late_subscriber_misses_the_end:
  assumes "opened i t s0" "(stream_step i t)\<^sup>*\<^sup>* s0 s" "sm_queue s = []" "length (sm_emitted s) \<le> MAX_REPLAY_EVENTS"
    "length (sm_out s) + 1000 < length (sm_emitted s)" "ends_at p (sm_db s)"
  shows "map seen (sm_out s @ subscribe i (sm_sent s) [p]) = map stored_frame (take (length (sm_out s) + 1000) (sm_emitted s))"
proof -
  let ?log = "log_of i (sm_db s)" and ?k = "length (sm_out s)"
  have inv: "in_step i t s"
    by (rule reached_in_step [OF assms(2,1,4)])
  note log = written_log [OF inv assms(3)]
  have "sm_out s @ subscribe i (sm_sent s) [p] = take (?k + 1000) ?log"
    using last_poll [OF inv assms(6)] log(2) by (metis take_add)
  then show ?thesis
    using log(1) by (metis take_map)
qed

text \<open>A turn of one event on the example tables: the event is emitted, written, and read after the job has ended.\<close>

definition example_end :: frame where
  "example_end = (''done'', Json ''{}'')"

definition example_written :: jobs_db where
  "example_written = example_jobs\<lparr>jd_jobs := [reserve 1 (Some (Json ''{}'')) example_job],
     jd_events := [stored_event 5 False ''j1'' 0 example_end]\<rparr>"

definition example_stream :: stream where
  "example_stream = \<lparr>sm_db = example_jobs, sm_queue = [], sm_sent = -1, sm_out = [], sm_emitted = []\<rparr>"

lemma example_persisted: "persist_batch 5 ''j1'' ''t1'' (Json ''{}'') [example_end] example_jobs = Some example_written"
  by (simp add: persist_batch_def append_events_def owned_row_def example_job_defs example_written_def update_rows_def
      trim_events_def MAX_REPLAY_EVENTS_def enumerate_eq_zip Let_def)

lemma example_run:
  "(stream_step ''j1'' ''t1'')\<^sup>*\<^sup>* example_stream (example_stream\<lparr>sm_db := example_written, sm_emitted := [example_end]\<rparr>)"
proof -
  let ?s = "example_stream\<lparr>sm_queue := [example_end], sm_emitted := [example_end]\<rparr>"
  have "stream_step ''j1'' ''t1'' example_stream ?s"
    using stream_step.emitted [of "''j1''" "''t1''" example_stream example_end] by (simp add: example_stream_def)
  moreover have "stream_step ''j1'' ''t1'' ?s (?s\<lparr>sm_db := example_written, sm_queue := drop 1 [example_end]\<rparr>)"
    using stream_step.written [of 1 ?s 5 "''j1''" "''t1''" "Json ''{}''" example_written] example_persisted
    by (simp add: example_stream_def)
  ultimately show ?thesis
    by (simp add: example_stream_def)
qed

theorem subscriber_reads_the_turn_witness:
  "map seen (subscribe ''j1'' (-1) [\<lparr>po_first = example_written, po_state = Some (example_job\<lparr>jb_status := ''done''\<rparr>),
     po_last = example_written\<rparr>]) = [stored_frame example_end]"
proof -
  have "opened ''j1'' ''t1'' example_stream"
    by (simp add: opened_def example_stream_def log_of_def example_job_defs)
  moreover have "ends_at \<lparr>po_first = example_written, po_state = Some (example_job\<lparr>jb_status := ''done''\<rparr>), po_last = example_written\<rparr>
    example_written"
    by (simp add: ends_at_def)
  ultimately show ?thesis
    using subscriber_reads_the_turn [OF _ example_run] by (simp add: example_stream_def MAX_REPLAY_EVENTS_def del: subscribe.simps)
qed

end
