(* ===== verification/Iam_Campaigns.thy ===== *)
theory Iam_Campaigns
  imports Iam_Diff
begin

text \<open>
  Access review campaigns, \<^verbatim>\<open>app/iam/campaigns.py\<close> and their handlers in \<^verbatim>\<open>app/api/iam.py\<close>: which access rows a
  campaign puts in front of whom, the decisions, their refresh against a later scan and the closing. The two tables are
  lists of rows and an operation is a function of them; a raise is the left side of a sum. The composed
  access rows, the identity rollup, the ownership lookup, the escalation paths and the open findings are arguments, as are
  new ids and the clock. A selector has the fields its kinds read; the rollup filters it carries are named.
\<close>

section \<open>Campaigns and their items\<close>

definition DRAFT :: string where "DRAFT = ''draft''"
definition ACTIVE :: string where "ACTIVE = ''active''"
definition COMPLETED :: string where "COMPLETED = ''completed''"
definition EXPIRED :: string where "EXPIRED = ''expired''"

definition APPROVE :: string where "APPROVE = ''approve''"
definition REVOKE :: string where "REVOKE = ''revoke''"
definition REDUCE :: string where "REDUCE = ''reduce''"
definition DELEGATE :: string where "DELEGATE = ''delegate''"
definition NEEDS_INFO :: string where "NEEDS_INFO = ''needs_info''"
definition DECISIONS :: "string list" where "DECISIONS = [APPROVE, REVOKE, REDUCE, DELEGATE, NEEDS_INFO]"

definition BY_OWNER :: string where "BY_OWNER = ''owner''"
definition BY_MANAGER :: string where "BY_MANAGER = ''manager''"
definition FIXED :: string where "FIXED = ''fixed''"
definition SELF :: string where "SELF = ''self''"
definition STRATEGIES :: "string list" where "STRATEGIES = [BY_OWNER, BY_MANAGER, FIXED, SELF]"

definition MAX_ITEMS :: nat where "MAX_ITEMS = 2000"

definition CONFIRMED :: string where "CONFIRMED = ''confirmed_applied''"

lemmas review_constants =
  DRAFT_def ACTIVE_def COMPLETED_def EXPIRED_def APPROVE_def REVOKE_def REDUCE_def DELEGATE_def NEEDS_INFO_def BY_OWNER_def
  BY_MANAGER_def FIXED_def SELF_def CONFIRMED_def

datatype campaign_error =
    Unknown_Selector string
  | Rollup_Needs_Tenant "string list"
  | Unknown_Strategy string
  | Nameless
  | Nothing_Matched
  | No_Campaign
  | Not_Draft string
  | Not_Active string
  | Already_Closed string
  | No_Item
  | Unknown_Decision string
  | Reason_Needed
  | Nobody_To_Delegate_To

record selector =
  se_kind :: string
  se_scope :: string
  se_include :: "string list"
  se_types :: "string list"
  se_privileged_only :: bool
  se_tier :: string
  se_rollup :: "string list"
  se_signals :: "string list"

record finding =
  fg_signal :: string
  fg_subject :: string
  fg_title :: string
  fg_severity :: string

record escalation_path =
  ep_from :: string
  ep_length :: nat
  ep_confidence :: string

record owner_ref =
  ow_id :: string
  ow_email :: string
  ow_primary :: bool

record review_context =
  rx_why :: string
  rx_chain :: string
  rx_standing :: bool
  rx_created :: string
  rx_paths :: "(nat \<times> string) list"
  rx_findings :: "(string \<times> string \<times> string) list"
  rx_also :: "string list option"

record review_item =
  ri_id :: string
  ri_campaign :: string
  ri_tenant :: string
  ri_key :: string
  ri_row :: row
  ri_context :: review_context
  ri_reviewer :: string
  ri_source :: string
  ri_decision :: "string option"
  ri_reason :: string
  ri_by :: string
  ri_at :: "int option"
  ri_delegated :: string
  ri_changed :: bool
  ri_remediation :: string

record review_stats =
  sx_total :: nat
  sx_privileged :: nat
  sx_decided :: nat
  sx_by_decision :: "(string \<times> nat) list"
  sx_truncated :: bool
  sx_principals :: nat
  sx_at_creation :: nat
  sx_changed :: "nat option"
  sx_unassigned :: "nat option"
  sx_undecided :: "nat option"
  sx_complete :: "bool option"
  sx_percent :: "int option"

record campaign =
  rc_id :: string
  rc_tenant :: string
  rc_name :: string
  rc_description :: string
  rc_selector :: selector
  rc_baseline :: string
  rc_strategy :: string
  rc_fallback :: string
  rc_status :: string
  rc_due :: "int option"
  rc_reminders :: "int list"
  rc_stats :: review_stats
  rc_by :: string
  rc_created :: int
  rc_completed :: "int option"

record reviews =
  rv_campaigns :: "campaign list"
  rv_items :: "review_item list"

text \<open>Self-review is labelled, and the label travels with the record.\<close>

definition attestation_only :: "campaign \<Rightarrow> bool" where
  "attestation_only c \<longleftrightarrow> rc_strategy c = SELF"

section \<open>What a campaign covers\<close>

definition principal_kind :: "row \<Rightarrow> string" where
  "principal_kind r = py_lower (or_else (rw_effective_type r) (rw_principal_type r))"

definition is_external :: "string list \<Rightarrow> row \<Rightarrow> bool" where
  "is_external include r \<longleftrightarrow>
     ''guest'' \<in> set include \<and> contains (py_lower (or_else (rw_effective_upn r) (rw_upn r))) ''#ext#''
     \<or> ''lighthouse'' \<in> set include \<and> contains (py_lower (rw_model r)) ''lighthouse''
     \<or> ''multi_tenant_sp'' \<in> set include \<and> principal_kind r = ''serviceprincipal'' \<and> rw_app r \<noteq> []"

definition PATH_OWNER :: string where "PATH_OWNER = ''Owner''"

definition live_now :: "row list \<Rightarrow> row list" where
  "live_now rows =
     (let owners = map (\<lambda>r. py_lower (rw_effective r)) (filter (\<lambda>r. rw_path r = PATH_OWNER) rows)
      in filter (\<lambda>r. py_lower (rw_effective r) \<in> set owners) rows)"

definition select_disabled :: "(selector \<Rightarrow> string list) \<Rightarrow> string \<Rightarrow> selector \<Rightarrow> row list \<Rightarrow> (campaign_error, row list) result" where
  "select_disabled selected tenant sel live =
     (let out1 = filter is_disabled live;
          out2 = (if se_privileged_only sel then filter rw_privileged out1 else out1);
          out3 = (if py_strip (se_tier sel) = ''live_now'' then live_now out2 else out2)
      in if se_rollup sel = [] then Inr out3
         else if tenant = [] then Inl (Rollup_Needs_Tenant (sort (remdups (se_rollup sel))))
         else Inr (filter (\<lambda>r. py_lower (holder r) \<in> set (selected sel)) out3))"

definition finding_subjects :: "selector \<Rightarrow> finding list \<Rightarrow> string list" where
  "finding_subjects sel fs =
     map (\<lambda>f. py_lower (fg_subject f)) (filter (\<lambda>f. se_signals sel = [] \<or> fg_signal f \<in> set (se_signals sel)) fs)"

definition review_order :: "row \<Rightarrow> bool \<times> string \<times> string" where
  "review_order r = (\<not> rw_privileged r, rw_effective_name r, rw_scope r)"

definition select_rows ::
  "(selector \<Rightarrow> string list) \<Rightarrow> string \<Rightarrow> finding list \<Rightarrow> selector \<Rightarrow> row list \<Rightarrow> (campaign_error, row list) result" where
  "select_rows selected tenant fs sel rows =
     (let kind = py_strip (se_kind sel); live = filter (\<lambda>r. \<not> is_deny r) rows;
          out = (if kind = ''privileged'' then Inr (filter rw_privileged live)
            else if kind = ''scope'' then
              (let scope = py_lower (se_scope sel) in
               Inr (if scope = [] then [] else filter (\<lambda>r. starts_with (py_lower (rw_scope r)) scope) live))
            else if kind = ''external'' then
              Inr (filter (is_external (if se_include sel = [] then [''guest''] else se_include sel)) live)
            else if kind = ''principal_type'' then
              Inr (filter (\<lambda>r. principal_kind r \<in> set (map py_lower (se_types sel))) live)
            else if kind = ''disabled'' then select_disabled selected tenant sel live
            else if kind = ''signal'' then
              (let subjects = set (finding_subjects sel fs) in
               Inr (filter (\<lambda>r. py_lower (rw_assignment r) \<in> subjects \<or> py_lower (rw_effective r) \<in> subjects
                 \<or> py_lower (rw_scope r) \<in> subjects) live))
            else Inl (Unknown_Selector kind))
      in case out of Inl e \<Rightarrow> Inl e | Inr chosen \<Rightarrow> Inr (sort_key review_order chosen))"

section \<open>Who reviews\<close>

text \<open>The owners of a scope as the ownership feature resolves them; \<open>None\<close> is an exception.\<close>

type_synonym owner_lookup = "string \<Rightarrow> string \<Rightarrow> scope_parts \<Rightarrow> owner_ref list option"

definition owner_text :: "owner_ref \<Rightarrow> string" where
  "owner_text o1 = or_else (ow_id o1) (ow_email o1)"

definition owner_for :: "owner_lookup \<Rightarrow> string \<Rightarrow> string" where
  "owner_for own scope =
     (let p = parse_scope scope;
          kind = (case sp_kind p of Subscription \<Rightarrow> ''subscription'' | Resource_Group \<Rightarrow> ''resource_group'' | Resource \<Rightarrow> ''resource'' | _ \<Rightarrow> [])
      in if scope = [] \<or> kind = [] then []
         else case own kind scope p of
                None \<Rightarrow> []
              | Some os \<Rightarrow>
                  (case find ow_primary os of
                     Some o1 \<Rightarrow> owner_text o1
                   | None \<Rightarrow> (case os of [] \<Rightarrow> [] | o1 # _ \<Rightarrow> owner_text o1)))"

definition reviewer_candidates :: "owner_lookup \<Rightarrow> string \<Rightarrow> string \<Rightarrow> row \<Rightarrow> (string \<times> string) list" where
  "reviewer_candidates own strategy fallback r =
     (if (strategy = BY_OWNER \<or> strategy = BY_MANAGER) \<and> owner_for own (rw_scope r) \<noteq> []
      then [(owner_for own (rw_scope r), ''owner'')] else [])
     @ (if fallback = [] then [] else [(fallback, ''fallback'')])"

definition resolve_reviewer :: "owner_lookup \<Rightarrow> string \<Rightarrow> string \<Rightarrow> row \<Rightarrow> string \<times> string" where
  "resolve_reviewer own strategy fallback r =
     (let subj = py_lower (holder r) in
      if strategy = SELF then (subj, SELF)
      else case find (\<lambda>(who, source). py_lower who \<noteq> subj) (reviewer_candidates own strategy fallback r) of
             Some c \<Rightarrow> c
           | None \<Rightarrow> ([], ''unassigned''))"

definition build_context :: "escalation_path list \<Rightarrow> finding list \<Rightarrow> row \<Rightarrow> review_context" where
  "build_context paths fs r =
     (let who = py_lower (rw_effective r);
          reach = map (\<lambda>p. (ep_length p, ep_confidence p)) (filter (\<lambda>p. py_lower (ep_from p) = who) paths);
          found = map (\<lambda>f. (fg_signal f, fg_title f, fg_severity f))
            (filter (\<lambda>f. py_lower (fg_subject f) = who \<or> py_lower (fg_subject f) = py_lower (rw_assignment r)) fs)
      in \<lparr>rx_why = or_else (rw_path r) PATH_DIRECT, rx_chain = rw_chain r, rx_standing = is_standing_privilege r,
          rx_created = rw_created r, rx_paths = take 5 reach, rx_findings = take 5 found, rx_also = None\<rparr>)"

section \<open>One item for each decision\<close>

definition via_of :: "row \<Rightarrow> string" where
  "via_of r = or_else (or_else (rw_group_name r) (rw_group r)) (rw_path r)"

type_synonym folding = "(string \<times> row) list \<times> (string \<times> string list) list"

definition dedupe_one :: "row \<Rightarrow> folding \<Rightarrow> folding" where
  "dedupe_one r st =
     (let (best, folded) = st; k = row_key r in
      case map_of best k of
        None \<Rightarrow> (best @ [(k, r)], folded @ [(k, [via_of r])])
      | Some prev \<Rightarrow>
          (let vias = (case map_of folded k of None \<Rightarrow> [] | Some vs \<Rightarrow> vs)
           in (if rw_path prev = PATH_GROUP \<and> rw_path r \<noteq> PATH_GROUP then AList.update k r best else best,
               if via_of r \<in> set vias then folded else AList.update k (vias @ [via_of r]) folded)))"

definition dedupe_by_review_key :: "row list \<Rightarrow> row list \<times> (string \<times> string list) list" where
  "dedupe_by_review_key rows =
     (let (best, folded) = fold dedupe_one rows ([], []) in (map snd best, filter (\<lambda>(k, vs). 1 < length vs) folded))"

section \<open>Creating\<close>

record campaign_body =
  cb_name :: string
  cb_description :: string
  cb_selector :: selector
  cb_baseline :: string
  cb_strategy :: string
  cb_fallback :: string
  cb_due :: "int option"
  cb_reminders :: "int list"
  cb_by :: string

record review_world =
  wd_rows :: "row list"
  wd_selected :: "selector \<Rightarrow> string list"
  wd_owners :: owner_lookup
  wd_paths :: "escalation_path list"
  wd_findings :: "finding list"

definition new_stats :: "bool \<Rightarrow> nat \<Rightarrow> row list \<Rightarrow> review_stats" where
  "new_stats truncated principals rows =
     \<lparr>sx_total = length rows, sx_privileged = length (filter rw_privileged rows), sx_decided = 0,
      sx_by_decision = map (\<lambda>d. (d, 0)) DECISIONS, sx_truncated = truncated, sx_principals = principals,
      sx_at_creation = length rows, sx_changed = None, sx_unassigned = None, sx_undecided = None, sx_complete = None,
      sx_percent = None\<rparr>"

definition new_item :: "review_world \<Rightarrow> campaign_body \<Rightarrow> (string \<times> string list) list \<Rightarrow> string \<Rightarrow> string \<Rightarrow> string \<Rightarrow> row \<Rightarrow> review_item" where
  "new_item wd b folded tenant cid i r =
     (let (who, source) = resolve_reviewer (wd_owners wd) (cb_strategy b) (cb_fallback b) r
      in \<lparr>ri_id = i, ri_campaign = cid, ri_tenant = tenant, ri_key = row_key r, ri_row = r,
          ri_context = (build_context (wd_paths wd) (wd_findings wd) r)\<lparr>rx_also := map_of folded (row_key r)\<rparr>,
          ri_reviewer = who, ri_source = source, ri_decision = None, ri_reason = [], ri_by = [], ri_at = None,
          ri_delegated = [], ri_changed = False, ri_remediation = ''none''\<rparr>)"

text \<open>\<open>ids\<close> are the ids of the new items, one for each row of the campaign.\<close>

definition create_campaign ::
  "review_world \<Rightarrow> string \<Rightarrow> campaign_body \<Rightarrow> string \<Rightarrow> string list \<Rightarrow> int \<Rightarrow> reviews
    \<Rightarrow> (campaign_error, campaign) result \<times> reviews" where
  "create_campaign wd tenant b cid ids now db =
     (if cb_strategy b \<notin> set STRATEGIES then (Inl (Unknown_Strategy (cb_strategy b)), db)
      else if py_strip (cb_name b) = [] then (Inl Nameless, db)
      else case select_rows (wd_selected wd) tenant (wd_findings wd) (cb_selector b) (wd_rows wd) of
             Inl e \<Rightarrow> (Inl e, db)
           | Inr [] \<Rightarrow> (Inl Nothing_Matched, db)
           | Inr (r # rs) \<Rightarrow>
               (let principals = remove1 [] (remdups (map (\<lambda>r. py_lower (holder r)) (r # rs)));
                    (chosen, folded) = dedupe_by_review_key (r # rs);
                    kept = take MAX_ITEMS chosen;
                    c = \<lparr>rc_id = cid, rc_tenant = tenant, rc_name = py_strip (cb_name b), rc_description = cb_description b,
                      rc_selector = cb_selector b, rc_baseline = cb_baseline b, rc_strategy = cb_strategy b,
                      rc_fallback = cb_fallback b, rc_status = DRAFT, rc_due = cb_due b,
                      rc_reminders = (if cb_reminders b = [] then [7, 3, 1] else cb_reminders b),
                      rc_stats = new_stats (MAX_ITEMS < length chosen) (length principals) kept,
                      rc_by = cb_by b, rc_created = now, rc_completed = None\<rparr>
                in (Inr c, \<lparr>rv_campaigns = rv_campaigns db @ [c],
                      rv_items = rv_items db @ map (\<lambda>(i, r). new_item wd b folded tenant cid i r) (zip ids kept)\<rparr>)))"

section \<open>The life of a campaign\<close>

definition get_campaign :: "string \<Rightarrow> string \<Rightarrow> reviews \<Rightarrow> campaign option" where
  "get_campaign tenant cid db = find (\<lambda>c. rc_tenant c = tenant \<and> rc_id c = cid) (rv_campaigns db)"

definition items_of :: "string \<Rightarrow> reviews \<Rightarrow> review_item list" where
  "items_of cid db = filter (\<lambda>i. ri_campaign i = cid) (rv_items db)"

definition set_campaign :: "campaign \<Rightarrow> reviews \<Rightarrow> reviews" where
  "set_campaign c db = db\<lparr>rv_campaigns := map (\<lambda>x. if rc_id x = rc_id c then c else x) (rv_campaigns db)\<rparr>"

definition map_items :: "(review_item \<Rightarrow> bool) \<Rightarrow> (review_item \<Rightarrow> review_item) \<Rightarrow> reviews \<Rightarrow> reviews" where
  "map_items p f db = db\<lparr>rv_items := map (\<lambda>i. if p i then f i else i) (rv_items db)\<rparr>"

definition recount :: "review_stats \<Rightarrow> review_item list \<Rightarrow> review_stats" where
  "recount st items =
     st\<lparr>sx_total := length items, sx_decided := length (filter (\<lambda>i. ri_decision i \<noteq> None) items),
        sx_by_decision := map (\<lambda>d. (d, length (filter (\<lambda>i. ri_decision i = Some d) items))) DECISIONS,
        sx_changed := Some (length (filter ri_changed items)),
        sx_unassigned := Some (length (filter (\<lambda>i. ri_reviewer i = []) items))\<rparr>"

definition activate :: "string \<Rightarrow> string \<Rightarrow> reviews \<Rightarrow> (campaign_error, campaign) result \<times> reviews" where
  "activate tenant cid db =
     (case get_campaign tenant cid db of
        None \<Rightarrow> (Inl No_Campaign, db)
      | Some c \<Rightarrow>
          (if rc_status c \<noteq> DRAFT then (Inl (Not_Draft (rc_status c)), db)
           else let n = length (filter (\<lambda>i. ri_reviewer i = []) (items_of cid db));
                    c1 = c\<lparr>rc_status := ACTIVE, rc_stats := (rc_stats c)\<lparr>sx_unassigned := Some n\<rparr>\<rparr>
                in (Inr c1, set_campaign c1 db)))"

definition decided :: "string \<Rightarrow> string \<Rightarrow> string \<Rightarrow> string \<Rightarrow> int \<Rightarrow> review_item \<Rightarrow> review_item" where
  "decided d reason who heir now i =
     (let i1 = i\<lparr>ri_decision := Some d, ri_reason := reason, ri_by := who, ri_at := Some now, ri_delegated := heir\<rparr>
      in if d = DELEGATE then i1\<lparr>ri_reviewer := heir, ri_source := ''delegated'', ri_decision := None\<rparr> else i1)"

definition decide ::
  "string \<Rightarrow> string \<Rightarrow> string \<Rightarrow> string \<Rightarrow> string \<Rightarrow> string \<Rightarrow> string \<Rightarrow> int \<Rightarrow> reviews
    \<Rightarrow> (campaign_error, review_stats) result \<times> reviews" where
  "decide tenant cid iid d reason who heir now db =
     (if d \<notin> set DECISIONS then (Inl (Unknown_Decision d), db)
      else case get_campaign tenant cid db of
             None \<Rightarrow> (Inl No_Campaign, db)
           | Some c \<Rightarrow>
               (if rc_status c \<noteq> ACTIVE then (Inl (Not_Active (rc_status c)), db)
                else case find (\<lambda>i. ri_id i = iid \<and> ri_campaign i = cid) (rv_items db) of
                       None \<Rightarrow> (Inl No_Item, db)
                     | Some i \<Rightarrow>
                         (if ri_changed i \<and> reason = [] then (Inl Reason_Needed, db)
                          else if d = DELEGATE \<and> heir = [] then (Inl Nobody_To_Delegate_To, db)
                          else let db1 = map_items (\<lambda>x. ri_id x = iid \<and> ri_campaign x = cid) (decided d reason who heir now) db;
                                   st = recount (rc_stats c) (items_of cid db1)
                               in (Inr st, set_campaign (c\<lparr>rc_stats := st\<rparr>) db1))))"

definition refreshed :: "string list \<Rightarrow> review_item \<Rightarrow> review_item" where
  "refreshed present i =
     (let gone = ri_key i \<notin> set present; i1 = i\<lparr>ri_changed := gone\<rparr>
      in if gone \<and> \<not> ri_changed i \<and> ri_decision i \<noteq> None
         then i1\<lparr>ri_decision := None, ri_reason := [], ri_at := None\<rparr> else i1)"

definition refresh_against ::
  "row list \<Rightarrow> string \<Rightarrow> string \<Rightarrow> reviews \<Rightarrow> (campaign_error, nat \<times> review_stats) result \<times> reviews" where
  "refresh_against rows tenant cid db =
     (let present = map row_key rows in
      case get_campaign tenant cid db of
        None \<Rightarrow> (Inl No_Campaign, db)
      | Some c \<Rightarrow>
          (let n = length (filter (\<lambda>i. ri_key i \<notin> set present \<and> \<not> ri_changed i) (items_of cid db));
               db1 = map_items (\<lambda>i. ri_campaign i = cid) (refreshed present) db;
               st = recount (rc_stats c) (items_of cid db1)
           in (Inr (n, st), set_campaign (c\<lparr>rc_stats := st\<rparr>) db1)))"

text \<open>Python rounds a half to the even neighbour.\<close>

definition round_half_even :: "nat \<Rightarrow> nat \<Rightarrow> int" where
  "round_half_even a b =
     (let q = a div b; r = a mod b in
      int (if 2 * r < b \<or> 2 * r = b \<and> even q then q else q + 1))"

definition closing_stats :: "review_stats \<Rightarrow> review_stats" where
  "closing_stats st =
     st\<lparr>sx_undecided := Some (sx_total st - sx_decided st), sx_complete := Some (0 < sx_total st \<and> sx_decided st = sx_total st),
        sx_percent := (if sx_total st = 0 then None else Some (round_half_even (100 * sx_decided st) (sx_total st)))\<rparr>"

definition complete_campaign ::
  "bool \<Rightarrow> int \<Rightarrow> string \<Rightarrow> string \<Rightarrow> reviews \<Rightarrow> (campaign_error, campaign) result \<times> reviews" where
  "complete_campaign expired now tenant cid db =
     (case get_campaign tenant cid db of
        None \<Rightarrow> (Inl No_Campaign, db)
      | Some c \<Rightarrow>
          (if rc_status c \<noteq> ACTIVE \<and> rc_status c \<noteq> DRAFT then (Inl (Already_Closed (rc_status c)), db)
           else let c1 = c\<lparr>rc_stats := closing_stats (recount (rc_stats c) (items_of cid db)),
                      rc_status := (if expired then EXPIRED else COMPLETED), rc_completed := Some now\<rparr>
                in (Inr c1, set_campaign c1 db)))"

definition due_campaigns :: "int \<Rightarrow> string \<Rightarrow> reviews \<Rightarrow> string list" where
  "due_campaigns now tenant db =
     map rc_id (filter (\<lambda>c. rc_tenant c = tenant \<and> rc_status c = ACTIVE \<and> (case rc_due c of None \<Rightarrow> False | Some t \<Rightarrow> t \<le> now))
       (rv_campaigns db))"

definition expire_due :: "int \<Rightarrow> string \<Rightarrow> reviews \<Rightarrow> string list \<times> reviews" where
  "expire_due now tenant db =
     (let due = due_campaigns now tenant db in (due, fold (\<lambda>cid db. snd (complete_campaign True now tenant cid db)) due db))"

section \<open>Reading and following up\<close>

definition list_campaigns :: "string \<Rightarrow> reviews \<Rightarrow> campaign list" where
  "list_campaigns tenant db =
     take 50 (sort_key (\<lambda>c. - rc_created c) (filter (\<lambda>c. rc_tenant c = tenant) (rv_campaigns db)))"

definition list_items :: "string \<Rightarrow> string \<Rightarrow> string \<Rightarrow> bool \<Rightarrow> nat \<Rightarrow> reviews \<Rightarrow> review_item list" where
  "list_items tenant cid reviewer undecided_only limit db =
     take limit (filter (\<lambda>i. ri_tenant i = tenant \<and> ri_campaign i = cid \<and> (reviewer = [] \<or> ri_reviewer i = reviewer)
       \<and> (undecided_only \<longrightarrow> ri_decision i = None)) (rv_items db))"

definition decided_rows :: "string \<Rightarrow> string \<Rightarrow> reviews \<Rightarrow> (string \<times> string \<times> row) list" where
  "decided_rows tenant cid db =
     map (\<lambda>i. (ri_id i, the (ri_decision i), ri_row i))
       (filter (\<lambda>i. ri_tenant i = tenant \<and> ri_campaign i = cid \<and> (ri_decision i = Some REVOKE \<or> ri_decision i = Some REDUCE))
         (rv_items db))"

definition mark_remediation :: "string \<Rightarrow> string \<Rightarrow> string list \<Rightarrow> string \<Rightarrow> reviews \<Rightarrow> reviews" where
  "mark_remediation tenant cid ids state db =
     map_items (\<lambda>i. ri_tenant i = tenant \<and> ri_campaign i = cid \<and> ri_id i \<in> set ids) (\<lambda>i. i\<lparr>ri_remediation := state\<rparr>) db"

definition confirmed_item :: "string list \<Rightarrow> review_item \<Rightarrow> review_item" where
  "confirmed_item present i =
     (if ri_key i \<notin> set present then i\<lparr>ri_remediation := CONFIRMED\<rparr>
      else if ri_remediation i = CONFIRMED then i\<lparr>ri_remediation := ''exported''\<rparr> else i)"

definition revoked_in :: "string \<Rightarrow> string \<Rightarrow> review_item \<Rightarrow> bool" where
  "revoked_in tenant cid i \<longleftrightarrow> ri_tenant i = tenant \<and> ri_campaign i = cid \<and> ri_decision i = Some REVOKE"

definition auto_confirm_applied :: "row list \<Rightarrow> string \<Rightarrow> string \<Rightarrow> reviews \<Rightarrow> (nat \<times> nat) \<times> reviews" where
  "auto_confirm_applied rows tenant cid db =
     (let present = map row_key rows; mine = filter (revoked_in tenant cid) (rv_items db)
      in ((length (filter (\<lambda>i. ri_key i \<notin> set present \<and> ri_remediation i \<noteq> CONFIRMED) mine),
           length (filter (\<lambda>i. ri_key i \<in> set present \<and> ri_remediation i = CONFIRMED) mine)),
          map_items (revoked_in tenant cid) (confirmed_item present) db))"

text \<open>The refresh handler: first the items are checked, then the asserted revocations.\<close>

definition refresh_campaign ::
  "row list \<Rightarrow> string \<Rightarrow> string \<Rightarrow> reviews \<Rightarrow> (campaign_error, (nat \<times> review_stats) \<times> nat \<times> nat) result \<times> reviews" where
  "refresh_campaign rows tenant cid db =
     (case refresh_against rows tenant cid db of
        (Inl e, db1) \<Rightarrow> (Inl e, db1)
      | (Inr changed, db1) \<Rightarrow> (let (counts, db2) = auto_confirm_applied rows tenant cid db1 in (Inr (changed, counts), db2)))"

text \<open>The remediation handler: \<open>action_of\<close> is \<open>remediation.for_decision\<close> and may have nothing to offer.\<close>

definition campaign_remediation ::
  "(row \<Rightarrow> string \<Rightarrow> 'a option) \<Rightarrow> string \<Rightarrow> string \<Rightarrow> reviews \<Rightarrow> 'a list option \<times> reviews" where
  "campaign_remediation action_of tenant cid db =
     (case get_campaign tenant cid db of
        None \<Rightarrow> (None, db)
      | Some c \<Rightarrow>
          (let entries = decided_rows tenant cid db; actions = List.map_filter (\<lambda>(i, d, r). action_of r d) entries
           in if actions = [] then (Some [], db)
              else (Some actions, mark_remediation tenant cid (map fst entries) ''generated'' db)))"

record evidence =
  ed_campaign :: campaign
  ed_items :: "review_item list"
  ed_attestation :: bool
  ed_total :: nat
  ed_decided :: nat
  ed_undecided :: nat
  ed_complete :: bool

definition evidence_content :: "campaign \<Rightarrow> review_item list \<Rightarrow> evidence" where
  "evidence_content c items =
     (let st = rc_stats c in
      \<lparr>ed_campaign = c, ed_items = items, ed_attestation = attestation_only c, ed_total = sx_total st, ed_decided = sx_decided st,
       ed_undecided = (case sx_undecided st of Some n \<Rightarrow> n | None \<Rightarrow> sx_total st - sx_decided st),
       ed_complete = (case sx_complete st of Some b \<Rightarrow> b | None \<Rightarrow> False)\<rparr>)"

definition campaign_evidence :: "string \<Rightarrow> string \<Rightarrow> reviews \<Rightarrow> evidence option" where
  "campaign_evidence tenant cid db =
     (case get_campaign tenant cid db of
        None \<Rightarrow> None
      | Some c \<Rightarrow>
          (if rc_status c = COMPLETED \<or> rc_status c = EXPIRED
           then Some (evidence_content c (list_items tenant cid [] False MAX_ITEMS db)) else None))"

end
