(* ===== verification/Review_Views.thy ===== *)
theory Review_Views
  imports Iam_Campaigns Isolation
begin

text \<open>
  The campaign operations under one request type, and the part of the tables that belongs to a tenant. An operation
  computes on that part alone, which interprets the contract of \<open>Isolation\<close>.
\<close>

section \<open>Requests\<close>

datatype review_op =
    List_Reviews
  | List_Items string string bool nat
  | Plan review_world campaign_body string "string list" int
  | Launch string
  | Judge string string string string string string int
  | Refresh "row list" string
  | Close string int
  | Expire int
  | Remediate "row \<Rightarrow> string \<Rightarrow> string option" string
  | Pack_Evidence string

datatype review_answer =
    Campaigns "campaign list"
  | Items "review_item list"
  | Campaign "(campaign_error, campaign) result"
  | Judged "(campaign_error, review_stats) result"
  | Refreshed "(campaign_error, (nat \<times> review_stats) \<times> nat \<times> nat) result"
  | Closed "string list"
  | Script "string list option"
  | Evidence "evidence option"

type_synonym review_request = "string \<times> review_op"

fun review_act :: "review_request \<Rightarrow> reviews \<Rightarrow> review_answer \<times> reviews" where
  "review_act (t, List_Reviews) db = (Campaigns (list_campaigns t db), db)"
| "review_act (t, List_Items cid who undecided_only limit) db = (Items (list_items t cid who undecided_only limit db), db)"
| "review_act (t, Plan wd b cid ids now) db = apfst Campaign (create_campaign wd t b cid ids now db)"
| "review_act (t, Launch cid) db = apfst Campaign (activate t cid db)"
| "review_act (t, Judge cid iid d reason who heir now) db = apfst Judged (decide t cid iid d reason who heir now db)"
| "review_act (t, Refresh rows cid) db = apfst Refreshed (refresh_campaign rows t cid db)"
| "review_act (t, Close cid now) db = apfst Campaign (complete_campaign False now t cid db)"
| "review_act (t, Expire now) db = apfst Closed (expire_due now t db)"
| "review_act (t, Remediate action_of cid) db = apfst Script (campaign_remediation action_of t cid db)"
| "review_act (t, Pack_Evidence cid) db = (Evidence (campaign_evidence t cid db), db)"

fun new_campaigns :: "review_request \<Rightarrow> string list" where
  "new_campaigns (t, Plan wd b cid ids now) = [cid]"
| "new_campaigns _ = []"

definition campaign_ids :: "reviews \<Rightarrow> string set" where
  "campaign_ids db = rc_id ` set (rv_campaigns db)"

definition reviews_ok :: "reviews \<Rightarrow> bool" where
  "reviews_ok db \<longleftrightarrow> distinct (map rc_id (rv_campaigns db))
     \<and> (\<forall>i\<in>set (rv_items db). \<exists>c\<in>set (rv_campaigns db). rc_id c = ri_campaign i \<and> rc_tenant c = ri_tenant i)"

definition tenant_view :: "string \<Rightarrow> reviews \<Rightarrow> reviews" where
  "tenant_view t db = \<lparr>rv_campaigns = filter (\<lambda>c. rc_tenant c = t) (rv_campaigns db),
     rv_items = filter (\<lambda>i. ri_tenant i = t) (rv_items db)\<rparr>"

section \<open>Operations on the own part\<close>

lemma tenant_view_sel [simp]:
  "rv_campaigns (tenant_view t db) = filter (\<lambda>c. rc_tenant c = t) (rv_campaigns db)"
  "rv_items (tenant_view t db) = filter (\<lambda>i. ri_tenant i = t) (rv_items db)"
  by (simp_all add: tenant_view_def)

lemma find_filter: "(\<And>x. p x \<Longrightarrow> q x) \<Longrightarrow> find p (filter q xs) = find p xs"
  by (induction xs) auto

lemma get_campaign_view [simp]: "get_campaign t cid (tenant_view t db) = get_campaign t cid db"
  unfolding get_campaign_def tenant_view_sel by (rule find_filter) simp

lemma get_campaignD: "get_campaign t cid db = Some c \<Longrightarrow> c \<in> set (rv_campaigns db) \<and> rc_tenant c = t \<and> rc_id c = cid"
  by (auto simp: get_campaign_def dest: find_SomeD)

lemma same_campaign:
  assumes "reviews_ok db" "c \<in> set (rv_campaigns db)" "d \<in> set (rv_campaigns db)" "rc_id c = rc_id d"
  shows "c = d"
  using assms by (auto simp: reviews_ok_def distinct_map dest: inj_onD)

lemma item_tenant:
  assumes "reviews_ok db" "get_campaign t cid db = Some c" "i \<in> set (rv_items db)" "ri_campaign i = cid"
  shows "ri_tenant i = t"
proof -
  obtain d where "d \<in> set (rv_campaigns db)" "rc_id d = ri_campaign i" "rc_tenant d = ri_tenant i"
    using assms(1,3) by (auto simp: reviews_ok_def)
  moreover have "c \<in> set (rv_campaigns db)" "rc_tenant c = t" "rc_id c = cid"
    using get_campaignD [OF assms(2)] by simp_all
  ultimately show ?thesis
    using same_campaign [OF assms(1)] assms(4) by metis
qed

lemma items_of_view:
  assumes "reviews_ok db" "get_campaign t cid db = Some c"
  shows "items_of cid (tenant_view t db) = items_of cid db"
  using item_tenant [OF assms] by (auto simp: items_of_def intro!: filter_cong)

text \<open>A change of a campaign of \<open>t\<close>, and of items of \<open>t\<close>, as it looks to each tenant.\<close>

lemma set_campaign_view:
  assumes "reviews_ok db" "get_campaign t (rc_id c) db = Some c0" "rc_tenant c = t"
  shows "tenant_view u (set_campaign c db) = (if u = t then set_campaign c (tenant_view t db) else tenant_view u db)"
proof -
  have same: "rc_tenant x = t" if "x \<in> set (rv_campaigns db)" "rc_id x = rc_id c" for x
    using same_campaign [OF assms(1) that(1)] get_campaignD [OF assms(2)] that(2) by auto
  have "filter (\<lambda>x. rc_tenant x = u) (map (\<lambda>x. if rc_id x = rc_id c then c else x) cs)
      = (if u = t then map (\<lambda>x. if rc_id x = rc_id c then c else x) (filter (\<lambda>x. rc_tenant x = t) cs) else filter (\<lambda>x. rc_tenant x = u) cs)"
    if "\<forall>x\<in>set cs. rc_id x = rc_id c \<longrightarrow> rc_tenant x = t" for cs
    using that assms(3) by (induction cs) auto
  from this [of "rv_campaigns db"] same show ?thesis
    by (auto simp: set_campaign_def tenant_view_def)
qed

lemma map_items_view:
  assumes "\<And>i. i \<in> set (rv_items db) \<Longrightarrow> p i \<Longrightarrow> ri_tenant i = t" "\<And>i. ri_tenant (f i) = ri_tenant i"
  shows "tenant_view u (map_items p f db) = (if u = t then map_items p f (tenant_view t db) else tenant_view u db)"
proof -
  have "filter (\<lambda>i. ri_tenant i = u) (map (\<lambda>i. if p i then f i else i) xs)
      = (if u = t then map (\<lambda>i. if p i then f i else i) (filter (\<lambda>i. ri_tenant i = t) xs) else filter (\<lambda>i. ri_tenant i = u) xs)"
    if "\<forall>i\<in>set xs. p i \<longrightarrow> ri_tenant i = t" for xs
    using that by (induction xs) (auto simp: assms(2))
  from this [of "rv_items db"] assms(1) show ?thesis
    by (auto simp: map_items_def tenant_view_def)
qed

lemma reviews_ok_set:
  assumes "reviews_ok db" "get_campaign t (rc_id c) db = Some c0" "rc_tenant c = t"
  shows "reviews_ok (set_campaign c db)"
proof -
  have "map rc_id (rv_campaigns (set_campaign c db)) = map rc_id (rv_campaigns db)"
    by (simp add: set_campaign_def)
  moreover have "\<exists>d\<in>set (rv_campaigns (set_campaign c db)). rc_id d = ri_campaign i \<and> rc_tenant d = ri_tenant i"
    if i: "i \<in> set (rv_items db)" for i
  proof -
    obtain d where d: "d \<in> set (rv_campaigns db)" "rc_id d = ri_campaign i" "rc_tenant d = ri_tenant i"
      using assms(1) i by (auto simp: reviews_ok_def)
    show ?thesis
    proof (cases "rc_id d = rc_id c")
      case True
      have "d = c0"
        using same_campaign [OF assms(1) d(1)] get_campaignD [OF assms(2)] True by metis
      then have "rc_tenant d = t"
        using get_campaignD [OF assms(2)] by simp
      moreover have "c \<in> set (rv_campaigns (set_campaign c db))"
        using d(1) True by (force simp: set_campaign_def)
      ultimately show ?thesis
        using True d assms(3) by metis
    next
      case False
      then show ?thesis
        using d by (force simp: set_campaign_def)
    qed
  qed
  ultimately show ?thesis
    using assms(1) by (simp add: reviews_ok_def) (simp add: set_campaign_def)
qed

lemma reviews_ok_map_items:
  assumes "reviews_ok db" "\<And>i. ri_tenant (f i) = ri_tenant i" "\<And>i. ri_campaign (f i) = ri_campaign i"
  shows "reviews_ok (map_items p f db)"
  using assms by (force simp: reviews_ok_def map_items_def)

lemma map_items_sel [simp]: "rv_campaigns (map_items p f db) = rv_campaigns db"
  by (simp add: map_items_def)

lemma set_campaign_sel [simp]: "rv_items (set_campaign c db) = rv_items db"
  by (simp add: set_campaign_def)

lemma get_campaign_map_items [simp]: "get_campaign t cid (map_items p f db) = get_campaign t cid db"
  by (simp add: get_campaign_def)


text \<open>An operation of tenant \<open>t\<close> that computes on the part of \<open>t\<close> and creates no campaign but \<open>fresh\<close>.\<close>

definition acts_for :: "string \<Rightarrow> string list \<Rightarrow> (reviews \<Rightarrow> 'a \<times> reviews) \<Rightarrow> reviews \<Rightarrow> bool" where
  "acts_for t fresh f db \<longleftrightarrow> f (tenant_view t db) = (fst (f db), tenant_view t (snd (f db)))
     \<and> (\<forall>u. u \<noteq> t \<longrightarrow> tenant_view u (snd (f db)) = tenant_view u db) \<and> reviews_ok (snd (f db))
     \<and> campaign_ids (snd (f db)) \<subseteq> campaign_ids db \<union> set fresh"

lemma acts_for_read: "reviews_ok db \<Longrightarrow> g (tenant_view t db) = g db \<Longrightarrow> acts_for t fresh (\<lambda>db. (g db, db)) db"
  by (simp add: acts_for_def)

lemma acts_for_apfst: "acts_for t fresh f db \<Longrightarrow> acts_for t fresh (\<lambda>db. apfst h (f db)) db"
  by (simp add: acts_for_def)

lemma tenant_view_idem [simp]: "tenant_view t (tenant_view t db) = tenant_view t db"
  by (simp add: tenant_view_def)

lemma campaign_ids_sel [simp]:
  "campaign_ids (map_items p f db) = campaign_ids db" "campaign_ids (set_campaign c db) = campaign_ids db"
proof -
  have "map rc_id (rv_campaigns (set_campaign c db)) = map rc_id (rv_campaigns db)"
    by (simp add: set_campaign_def)
  then have "set (map rc_id (rv_campaigns (set_campaign c db))) = set (map rc_id (rv_campaigns db))"
    by (rule arg_cong)
  then show "campaign_ids (set_campaign c db) = campaign_ids db"
    by (simp add: campaign_ids_def)
qed (simp add: campaign_ids_def)

text \<open>The two shapes of the changes: a campaign of \<open>t\<close>, and a campaign of \<open>t\<close> after items of it.\<close>

lemma update_view:
  assumes "reviews_ok db" "get_campaign t (rc_id c) db = Some c0" "rc_tenant c = t"
  shows "set_campaign c (tenant_view t db) = tenant_view t (set_campaign c db)"
    "u \<noteq> t \<Longrightarrow> tenant_view u (set_campaign c db) = tenant_view u db"
  by (simp_all add: set_campaign_view [OF assms])

lemma items_view:
  assumes "reviews_ok db" "get_campaign t cid db = Some c0" "\<And>i. ri_tenant (f i) = ri_tenant i"
    "\<And>i. p i \<Longrightarrow> ri_campaign i = cid"
  shows "map_items p f (tenant_view t db) = tenant_view t (map_items p f db)"
    "u \<noteq> t \<Longrightarrow> tenant_view u (map_items p f db) = tenant_view u db"
proof -
  have mine: "ri_tenant i = t" if "i \<in> set (rv_items db)" "p i" for i
    using item_tenant [OF assms(1,2) that(1)] assms(4) that(2) by blast
  show "map_items p f (tenant_view t db) = tenant_view t (map_items p f db)"
    "u \<noteq> t \<Longrightarrow> tenant_view u (map_items p f db) = tenant_view u db"
    using map_items_view [of db p t f, OF mine assms(3)] by simp_all
qed

lemma acts_for_set:
  assumes "reviews_ok db" "get_campaign t (rc_id c) db = Some c0" "rc_tenant c = t"
    "f db = (a, set_campaign c db)" "f (tenant_view t db) = (a, set_campaign c (tenant_view t db))"
  shows "acts_for t fresh f db"
  using reviews_ok_set [OF assms(1-3)] update_view [OF assms(1-3)] assms(2) by (simp add: acts_for_def assms(4,5))

lemma acts_for_items_set:
  assumes "reviews_ok db" "get_campaign t (rc_id c) db = Some c0" "rc_tenant c = t"
    "\<And>i. ri_tenant (g i) = ri_tenant i" "\<And>i. ri_campaign (g i) = ri_campaign i" "\<And>i. p i \<Longrightarrow> ri_campaign i = rc_id c"
    "f db = (a, set_campaign c (map_items p g db))"
    "f (tenant_view t db) = (a, set_campaign c (map_items p g (tenant_view t db)))"
  shows "acts_for t fresh f db"
proof -
  let ?db = "map_items p g db"
  have ok: "reviews_ok ?db"
    by (rule reviews_ok_map_items [OF assms(1,4,5)])
  have found: "get_campaign t (rc_id c) ?db = Some c0"
    using assms(2) by simp
  note items = items_view [OF assms(1,2,4,6), where p = p]
  have "acts_for t fresh f db" if "f (tenant_view t db) = (a, set_campaign c (tenant_view t ?db))"
    using reviews_ok_set [OF ok found assms(3)] update_view [OF ok found assms(3)] items(2) found assms(3)
    by (simp add: acts_for_def assms(7) that)
  then show ?thesis
    using assms(8) items(1) by simp
qed

lemma activate_acts: "reviews_ok db \<Longrightarrow> acts_for t fresh (activate t cid) db"
proof (cases "get_campaign t cid db")
  case (Some c)
  assume ok: "reviews_ok db"
  have c: "rc_tenant c = t" "rc_id c = cid"
    using get_campaignD [OF Some] by simp_all
  show ?thesis
  proof (cases "rc_status c = DRAFT")
    case True
    let ?c = "c\<lparr>rc_status := ACTIVE, rc_stats := (rc_stats c)\<lparr>sx_unassigned := Some (length (filter (\<lambda>i. ri_reviewer i = []) (items_of cid db)))\<rparr>\<rparr>"
    show ?thesis
      using True c by (intro acts_for_set [OF ok, of t ?c c]) (simp_all add: activate_def Some items_of_view [OF ok Some] Let_def)
  qed (use ok in \<open>simp add: activate_def Some acts_for_def\<close>)
qed (simp add: activate_def acts_for_def)

lemma complete_acts: "reviews_ok db \<Longrightarrow> acts_for t fresh (complete_campaign expired now t cid) db"
proof (cases "get_campaign t cid db")
  case (Some c)
  assume ok: "reviews_ok db"
  have c: "rc_tenant c = t" "rc_id c = cid"
    using get_campaignD [OF Some] by simp_all
  show ?thesis
  proof (cases "rc_status c = ACTIVE \<or> rc_status c = DRAFT")
    case True
    let ?c = "c\<lparr>rc_stats := closing_stats (recount (rc_stats c) (items_of cid db)),
       rc_status := (if expired then EXPIRED else COMPLETED), rc_completed := Some now\<rparr>"
    have "complete_campaign expired now t cid db = (Inr ?c, set_campaign ?c db)"
      "complete_campaign expired now t cid (tenant_view t db) = (Inr ?c, set_campaign ?c (tenant_view t db))"
      using True by (auto simp: complete_campaign_def Some items_of_view [OF ok Some] Let_def)
    then show ?thesis
      using c by (intro acts_for_set [OF ok, of t ?c c]) (simp_all add: Some)
  qed (use ok in \<open>simp add: complete_campaign_def Some acts_for_def\<close>)
qed (simp add: complete_campaign_def acts_for_def)

lemma decided_keeps [simp]: "ri_tenant (decided d reason who heir now i) = ri_tenant i"
  "ri_campaign (decided d reason who heir now i) = ri_campaign i" "ri_id (decided d reason who heir now i) = ri_id i"
  "ri_key (decided d reason who heir now i) = ri_key i" "ri_changed (decided d reason who heir now i) = ri_changed i"
  by (simp_all add: decided_def Let_def)

lemma decide_cases:
  obtains (refused) e where "decide t cid iid d reason who heir now db = (Inl e, db)"
  | (taken) c i st db1 where "get_campaign t cid db = Some c" "rc_status c = ACTIVE" "i \<in> set (rv_items db)" "ri_id i = iid" "ri_campaign i = cid"
      "d \<in> set DECISIONS" "ri_changed i \<Longrightarrow> reason \<noteq> []" "d = DELEGATE \<Longrightarrow> heir \<noteq> []"
      "db1 = map_items (\<lambda>x. ri_id x = iid \<and> ri_campaign x = cid) (decided d reason who heir now) db"
      "st = recount (rc_stats c) (items_of cid db1)"
      "decide t cid iid d reason who heir now db = (Inr st, set_campaign (c\<lparr>rc_stats := st\<rparr>) db1)"
proof (cases "fst (decide t cid iid d reason who heir now db)")
  case (Inl e)
  then show thesis
    by (intro refused) (auto simp: decide_def Let_def split: if_splits option.splits)
next
  case (Inr st)
  from Inr have d: "d \<in> set DECISIONS"
    by (auto simp: decide_def split: if_splits)
  obtain c where c: "get_campaign t cid db = Some c" "rc_status c = ACTIVE"
    using Inr by (auto simp: decide_def Let_def split: if_splits option.splits)
  obtain i where i: "find (\<lambda>i. ri_id i = iid \<and> ri_campaign i = cid) (rv_items db) = Some i"
    using Inr by (auto simp: decide_def Let_def split: if_splits option.splits)
  have g: "\<not> (ri_changed i \<and> reason = [])" "\<not> (d = DELEGATE \<and> heir = [])"
    using Inr by (auto simp: decide_def c i split: if_splits)
  show thesis
    by (rule taken [OF c _ _ _ d _ _ refl refl]) (use i g d c in \<open>auto simp: decide_def Let_def dest: find_SomeD\<close>)
qed

lemma find_filter_on: "\<forall>x\<in>set xs. p x \<longrightarrow> q x \<Longrightarrow> find p (filter q xs) = find p xs"
  by (induction xs) auto

lemma find_item_view:
  assumes "reviews_ok db" "get_campaign t cid db = Some c"
  shows "find (\<lambda>i. ri_id i = iid \<and> ri_campaign i = cid) (rv_items (tenant_view t db))
    = find (\<lambda>i. ri_id i = iid \<and> ri_campaign i = cid) (rv_items db)"
  unfolding tenant_view_sel by (rule find_filter_on) (use item_tenant [OF assms] in blast)

lemma decide_acts: "reviews_ok db \<Longrightarrow> acts_for t fresh (decide t cid iid d reason who heir now) db"
proof (cases "get_campaign t cid db")
  case (Some c)
  assume ok: "reviews_ok db"
  have c: "rc_tenant c = t" "rc_id c = cid"
    using get_campaignD [OF Some] by simp_all
  let ?p = "\<lambda>x. ri_id x = iid \<and> ri_campaign x = cid" and ?g = "decided d reason who heir now"
  let ?db = "map_items ?p ?g db"
  let ?st = "recount (rc_stats c) (items_of cid ?db)"
  have ok1: "reviews_ok ?db"
    by (rule reviews_ok_map_items [OF ok]) simp_all
  have "get_campaign t cid ?db = Some c"
    using Some by simp
  then have st: "recount (rc_stats c) (items_of cid (map_items ?p ?g (tenant_view t db))) = ?st"
    using items_view(1) [OF ok Some, of ?g ?p] items_of_view [OF ok1] by simp
  let ?late = "\<lambda>i. if ri_changed i \<and> reason = [] then Some Reason_Needed
    else if d = DELEGATE \<and> heir = [] then Some Nobody_To_Delegate_To else None"
  let ?refused = "if d \<notin> set DECISIONS then Some (Unknown_Decision d) else if rc_status c \<noteq> ACTIVE then Some (Not_Active (rc_status c))
    else case find (\<lambda>i. ri_id i = iid \<and> ri_campaign i = cid) (rv_items db) of None \<Rightarrow> Some No_Item | Some i \<Rightarrow> ?late i"
  show ?thesis
  proof (cases ?refused)
    case None
    then have f: "decide t cid iid d reason who heir now db = (Inr ?st, set_campaign (c\<lparr>rc_stats := ?st\<rparr>) ?db)"
      by (auto simp: decide_def Some Let_def split: if_splits option.splits)
    have g: "decide t cid iid d reason who heir now (tenant_view t db)
        = (Inr ?st, set_campaign (c\<lparr>rc_stats := ?st\<rparr>) (map_items ?p ?g (tenant_view t db)))"
      using None unfolding decide_def get_campaign_view find_item_view [OF ok Some] Let_def
      by (auto simp: Some st split: if_splits option.splits)
    show ?thesis
      by (rule acts_for_items_set [where c = "c\<lparr>rc_stats := ?st\<rparr>" and ?c0.0 = c and g = ?g and p = ?p, OF ok _ _ _ _ _ f g])
        (use Some c in simp_all)
  next
    case (Some e)
    then have "decide t cid iid d reason who heir now db = (Inl e, db)"
      "decide t cid iid d reason who heir now (tenant_view t db) = (Inl e, tenant_view t db)"
      using \<open>get_campaign t cid db = Some c\<close> unfolding decide_def get_campaign_view find_item_view [OF ok \<open>get_campaign t cid db = Some c\<close>] Let_def
      by (auto split: if_splits option.splits)
    then show ?thesis
      using ok by (simp add: acts_for_def)
  qed
qed (simp add: decide_def acts_for_def)

lemma refreshed_keeps [simp]: "ri_tenant (refreshed present i) = ri_tenant i" "ri_campaign (refreshed present i) = ri_campaign i"
  "ri_id (refreshed present i) = ri_id i" "ri_key (refreshed present i) = ri_key i" "ri_changed (refreshed present i) = (ri_key i \<notin> set present)"
  by (simp_all add: refreshed_def Let_def)

lemma confirmed_keeps [simp]: "ri_tenant (confirmed_item present i) = ri_tenant i" "ri_campaign (confirmed_item present i) = ri_campaign i"
  "ri_id (confirmed_item present i) = ri_id i" "ri_key (confirmed_item present i) = ri_key i"
  "ri_decision (confirmed_item present i) = ri_decision i" "ri_changed (confirmed_item present i) = ri_changed i"
  "ri_reason (confirmed_item present i) = ri_reason i" "ri_by (confirmed_item present i) = ri_by i"
  by (simp_all add: confirmed_item_def)

lemma refresh_against_acts: "reviews_ok db \<Longrightarrow> acts_for t fresh (refresh_against rows t cid) db"
proof (cases "get_campaign t cid db")
  case (Some c)
  assume ok: "reviews_ok db"
  have c: "rc_tenant c = t" "rc_id c = cid"
    using get_campaignD [OF Some] by simp_all
  let ?p = "\<lambda>i. ri_campaign i = cid" and ?g = "refreshed (map row_key rows)"
  let ?db = "map_items ?p ?g db"
  let ?st = "recount (rc_stats c) (items_of cid ?db)"
  have ok1: "reviews_ok ?db"
    by (rule reviews_ok_map_items [OF ok]) simp_all
  have "get_campaign t cid ?db = Some c"
    using Some by simp
  then have st: "recount (rc_stats c) (items_of cid (map_items ?p ?g (tenant_view t db))) = ?st"
    using items_view(1) [OF ok Some, of ?g ?p] items_of_view [OF ok1] by simp
  show ?thesis
    by (rule acts_for_items_set [where c = "c\<lparr>rc_stats := ?st\<rparr>" and ?c0.0 = c and g = ?g and p = ?p])
      (use ok Some c in \<open>simp_all add: refresh_against_def Let_def items_of_view [OF ok Some] st\<close>)
qed (simp add: refresh_against_def acts_for_def)

text \<open>One operation after another.\<close>

lemma acts_for_then:
  assumes "acts_for t fresh f db" "\<And>a. acts_for t fresh (g a) (snd (f db))"
    "\<And>db. h db = g (fst (f db)) (snd (f db))"
  shows "acts_for t fresh h db"
  using assms(1) assms(2) [of "fst (f db)"] by (auto simp: acts_for_def assms(3))

lemma revoked_view:
  assumes "\<And>i. ri_tenant (f i) = ri_tenant i" "\<And>i. p i \<Longrightarrow> ri_tenant i = t"
  shows "map_items p f (tenant_view t db) = tenant_view t (map_items p f db)"
    "u \<noteq> t \<Longrightarrow> tenant_view u (map_items p f db) = tenant_view u db"
  using map_items_view [of db p t f, OF assms(2) assms(1)] by simp_all

lemma acts_for_map_items:
  assumes "reviews_ok db" "\<And>i. ri_tenant (g i) = ri_tenant i" "\<And>i. ri_campaign (g i) = ri_campaign i" "\<And>i. p i \<Longrightarrow> ri_tenant i = t"
    "f db = (a, map_items p g db)" "f (tenant_view t db) = (a, map_items p g (tenant_view t db))"
  shows "acts_for t fresh f db"
  using reviews_ok_map_items [OF assms(1-3)] revoked_view [where f = g and p = p, OF assms(2,4)]
  by (simp add: acts_for_def assms(5,6))

lemma filter_own: "(\<And>i. p i \<Longrightarrow> ri_tenant i = t) \<Longrightarrow> filter p (rv_items (tenant_view t db)) = filter p (rv_items db)"
  by (auto intro!: filter_cong)

lemma confirm_acts:
  assumes "reviews_ok db"
  shows "acts_for t fresh (auto_confirm_applied rows t cid) db"
proof (rule acts_for_map_items [OF assms, where g = "confirmed_item (map row_key rows)" and p = "revoked_in t cid"])
  have "filter (revoked_in t cid) (rv_items (tenant_view t db)) = filter (revoked_in t cid) (rv_items db)"
    by (rule filter_own) (simp add: revoked_in_def)
  then show "auto_confirm_applied rows t cid (tenant_view t db)
      = (fst (auto_confirm_applied rows t cid db), map_items (revoked_in t cid) (confirmed_item (map row_key rows)) (tenant_view t db))"
    by (simp only: auto_confirm_applied_def Let_def fst_conv)
qed (simp_all add: auto_confirm_applied_def Let_def revoked_in_def)

lemma refresh_acts:
  assumes "reviews_ok db"
  shows "acts_for t fresh (refresh_campaign rows t cid) db"
proof (rule acts_for_then [OF refresh_against_acts [OF assms]])
  let ?g = "\<lambda>a db. case a of Inl e \<Rightarrow> (Inl e, db)
    | Inr changed \<Rightarrow> (let (counts, db2) = auto_confirm_applied rows t cid db in (Inr (changed, counts), db2))"
  show "refresh_campaign rows t cid db = ?g (fst (refresh_against rows t cid db)) (snd (refresh_against rows t cid db))" for db
    by (auto simp: refresh_campaign_def split: prod.split sum.split)
  show "acts_for t fresh (?g a) (snd (refresh_against rows t cid db))" for a
  proof (cases a)
    case (Inr c)
    have "acts_for t fresh (\<lambda>db. apfst (\<lambda>counts. Inr (c, counts)) (auto_confirm_applied rows t cid db)) (snd (refresh_against rows t cid db))"
      using refresh_against_acts [OF assms] by (intro acts_for_apfst confirm_acts) (simp add: acts_for_def)
    moreover have "?g a = (\<lambda>db. apfst (\<lambda>counts. Inr (c, counts)) (auto_confirm_applied rows t cid db))"
      by (auto simp: Inr split: prod.split)
    ultimately show ?thesis
      by simp
  qed (use refresh_against_acts [OF assms] in \<open>simp add: acts_for_def\<close>)
qed

lemma expire_acts:
  assumes "reviews_ok db"
  shows "acts_for t fresh (expire_due now t) db"
proof -
  let ?f = "\<lambda>cid db. snd (complete_campaign True now t cid db)"
  have run: "fold ?f ids (tenant_view t db) = tenant_view t (fold ?f ids db) \<and> (\<forall>u. u \<noteq> t \<longrightarrow> tenant_view u (fold ?f ids db) = tenant_view u db)
      \<and> reviews_ok (fold ?f ids db) \<and> campaign_ids (fold ?f ids db) \<subseteq> campaign_ids db" if "reviews_ok db" for ids db
    using that
  proof (induction ids arbitrary: db)
    case (Cons cid ids)
    have one: "acts_for t [] (complete_campaign True now t cid) db"
      by (rule complete_acts [OF Cons.prems])
    then have "reviews_ok (?f cid db)" "?f cid (tenant_view t db) = tenant_view t (?f cid db)"
      by (simp_all add: acts_for_def)
    then show ?case
      using Cons.IH [of "?f cid db"] one by (auto simp: acts_for_def)
  qed simp
  have "due_campaigns now t (tenant_view t db) = due_campaigns now t db"
    by (auto simp: due_campaigns_def intro!: arg_cong [of _ _ "map rc_id"] filter_cong)
  then show ?thesis
    using run [OF assms, of "due_campaigns now t db"] by (auto simp: acts_for_def expire_due_def Let_def)
qed

lemma remediation_acts:
  assumes "reviews_ok db"
  shows "acts_for t fresh (campaign_remediation action_of t cid) db"
proof -
  have rows: "decided_rows t cid (tenant_view t db) = decided_rows t cid db"
    unfolding decided_rows_def by (subst filter_own) simp_all
  show ?thesis
  proof (cases "get_campaign t cid db = None \<or> List.map_filter (\<lambda>(i, d, r). action_of r d) (decided_rows t cid db) = []")
    case True
    then show ?thesis
      using assms by (auto simp: campaign_remediation_def acts_for_def rows Let_def split: option.splits)
  next
    case False
    then obtain c where "get_campaign t cid db = Some c"
      by auto
    with False show ?thesis
      by (intro acts_for_map_items [OF assms, where g = "\<lambda>i. i\<lparr>ri_remediation := ''generated''\<rparr>"
            and p = "\<lambda>i. ri_tenant i = t \<and> ri_campaign i = cid \<and> ri_id i \<in> set (map fst (decided_rows t cid db))"])
        (simp_all add: campaign_remediation_def mark_remediation_def rows Let_def)
  qed
qed

lemma campaign_create_cases:
  obtains (refused) e where "\<And>db. create_campaign wd t b cid ids now db = (Inl e, db)"
  | (planned) c items where "rc_id c = cid" "rc_tenant c = t" "\<forall>i\<in>set items. ri_campaign i = cid \<and> ri_tenant i = t"
      "\<And>db. create_campaign wd t b cid ids now db
        = (Inr c, \<lparr>rv_campaigns = rv_campaigns db @ [c], rv_items = rv_items db @ items\<rparr>)"
proof (cases "fst (create_campaign wd t b cid ids now \<lparr>rv_campaigns = [], rv_items = []\<rparr>)")
  case (Inl e)
  let ?sel = "select_rows (wd_selected wd) t (wd_findings wd) (cb_selector b) (wd_rows wd)"
  consider (error) x where "?sel = Inl x" | (empty) "?sel = Inr []" | (some) r rs where "?sel = Inr (r # rs)"
    by (metis neq_Nil_conv sum.exhaust)
  then show thesis
    using Inl by (cases; intro refused [of e])
      (auto simp: create_campaign_def Let_def split: if_splits prod.splits)
next
  case (Inr c)
  then obtain r rs where sel: "select_rows (wd_selected wd) t (wd_findings wd) (cb_selector b) (wd_rows wd) = Inr (r # rs)"
    by (auto simp: create_campaign_def split: if_splits sum.splits list.splits)
  have ok: "cb_strategy b \<in> set STRATEGIES" "py_strip (cb_name b) \<noteq> []"
    using Inr by (auto simp: create_campaign_def split: if_splits)
  obtain chosen folded where d: "dedupe_by_review_key (r # rs) = (chosen, folded)"
    by fastforce
  have new: "ri_campaign (new_item wd b folded t cid i x) = cid" "ri_tenant (new_item wd b folded t cid i x) = t" for i x
    by (simp_all add: new_item_def split: prod.split)
  show thesis
  proof (rule planned)
    show "create_campaign wd t b cid ids now db
        = (Inr c, \<lparr>rv_campaigns = rv_campaigns db @ [c],
           rv_items = rv_items db @ map (\<lambda>(i, r). new_item wd b folded t cid i r) (zip ids (take MAX_ITEMS chosen))\<rparr>)" for db
      using Inr ok by (simp add: create_campaign_def sel d Let_def del: remdups.simps list.map)
    show "rc_id c = cid" "rc_tenant c = t"
      using Inr ok by (auto simp: create_campaign_def sel d Let_def)
  qed (auto simp: new)
qed

lemma create_acts:
  assumes "reviews_ok db" "cid \<notin> campaign_ids db"
  shows "acts_for t [cid] (create_campaign wd t b cid ids now) db"
proof (cases rule: campaign_create_cases [of wd t b cid ids now])
  case (refused e)
  then show ?thesis
    using assms(1) by (auto simp: acts_for_def)
next
  case (planned c items)
  have none: "filter (\<lambda>i. ri_tenant i = u) items = (if u = t then items else [])" for u
    using planned(3) by (induction items) auto
  have "reviews_ok \<lparr>rv_campaigns = rv_campaigns db @ [c], rv_items = rv_items db @ items\<rparr>"
    using assms planned(1-3) by (auto simp: reviews_ok_def campaign_ids_def)
  then show ?thesis
    using planned(1,2) by (auto simp: acts_for_def planned(4) tenant_view_def none campaign_ids_def)
qed

lemma reads_view:
  assumes "reviews_ok db"
  shows "list_campaigns t (tenant_view t db) = list_campaigns t db"
    "list_items t cid who u n (tenant_view t db) = list_items t cid who u n db"
    "campaign_evidence t cid (tenant_view t db) = campaign_evidence t cid db"
proof -
  show items: "list_items t cid who u n (tenant_view t db) = list_items t cid who u n db" for who u n
    unfolding list_items_def by (subst filter_own) simp_all
  show "list_campaigns t (tenant_view t db) = list_campaigns t db"
    by (simp add: list_campaigns_def)
  show "campaign_evidence t cid (tenant_view t db) = campaign_evidence t cid db"
    by (simp add: campaign_evidence_def items split: option.split)
qed

section \<open>The contract\<close>

lemma review_acts:
  assumes "reviews_ok db" "set (new_campaigns (t, oper)) \<inter> campaign_ids db = {}"
  shows "acts_for t (new_campaigns (t, oper)) (review_act (t, oper)) db"
proof (cases oper)
  case List_Reviews
  then show ?thesis
    using acts_for_read [OF assms(1), of "\<lambda>db. Campaigns (list_campaigns t db)" t] reads_view(1) [OF assms(1)] by (simp add: acts_for_def)
next
  case (List_Items cid who u n)
  then show ?thesis
    using acts_for_read [OF assms(1), of "\<lambda>db. Items (list_items t cid who u n db)" t] reads_view(2) [OF assms(1)] by (simp add: acts_for_def)
next
  case (Plan wd b cid ids now)
  then show ?thesis
    using acts_for_apfst [where h = Campaign, OF create_acts [OF assms(1), of cid t wd b ids now]] assms(2) by (simp add: acts_for_def)
next
  case (Launch cid)
  then show ?thesis
    using acts_for_apfst [where h = Campaign, OF activate_acts [OF assms(1), of t "[]" cid]] by (simp add: acts_for_def)
next
  case (Judge cid iid d reason who heir now)
  then show ?thesis
    using acts_for_apfst [where h = Judged, OF decide_acts [OF assms(1), of t "[]" cid iid d reason who heir now]] by (simp add: acts_for_def)
next
  case (Refresh rows cid)
  then show ?thesis
    using acts_for_apfst [where h = Refreshed, OF refresh_acts [OF assms(1), of t "[]" rows cid]] by (simp add: acts_for_def)
next
  case (Close cid now)
  then show ?thesis
    using acts_for_apfst [where h = Campaign, OF complete_acts [OF assms(1), of t "[]" False now cid]] by (simp add: acts_for_def)
next
  case (Expire now)
  then show ?thesis
    using acts_for_apfst [where h = Closed, OF expire_acts [OF assms(1), of t "[]" now]] by (simp add: acts_for_def)
next
  case (Remediate action_of cid)
  then show ?thesis
    using acts_for_apfst [where h = Script, OF remediation_acts [OF assms(1), of t "[]" action_of cid]] by (simp add: acts_for_def)
next
  case (Pack_Evidence cid)
  then show ?thesis
    using acts_for_read [OF assms(1), of "\<lambda>db. Evidence (campaign_evidence t cid db)" t] reads_view(3) [OF assms(1)] by (simp add: acts_for_def)
qed

interpretation tenant_reviews: isolated review_act fst new_campaigns campaign_ids reviews_ok tenant_view
proof unfold_locales
  fix s t :: reviews and r :: review_request and u
  obtain v oper where r: "r = (v, oper)"
    by fastforce
  show "reviews_ok (snd (review_act r s))"
    if "reviews_ok s" "distinct (new_campaigns r)" "set (new_campaigns r) \<inter> campaign_ids s = {}"
    using review_acts [of s v oper] that by (simp add: r acts_for_def)
  show "campaign_ids (snd (review_act r s)) \<subseteq> campaign_ids s \<union> set (new_campaigns r)"
    if "reviews_ok s" "set (new_campaigns r) \<inter> campaign_ids s = {}"
    using review_acts [of s v oper] that by (simp add: r acts_for_def)
  show "tenant_view u (snd (review_act r s)) = tenant_view u s"
    if "reviews_ok s" "set (new_campaigns r) \<inter> campaign_ids s = {}" "fst r \<noteq> u"
    using review_acts [of s v oper] that by (auto simp: r acts_for_def)
  show "tenant_view (fst r) (snd (review_act r s)) = tenant_view (fst r) (snd (review_act r t))"
    if "reviews_ok s" "reviews_ok t" "set (new_campaigns r) \<inter> (campaign_ids s \<union> campaign_ids t) = {}"
      "tenant_view (fst r) s = tenant_view (fst r) t"
  proof -
    have "set (new_campaigns (v, oper)) \<inter> campaign_ids s = {}" "set (new_campaigns (v, oper)) \<inter> campaign_ids t = {}"
      using that(3) unfolding r by auto
    then show ?thesis
      using review_acts [OF that(1), of v oper] review_acts [OF that(2), of v oper] that(4) by (auto simp: r acts_for_def)
  qed
  show "fst (review_act r s) = fst (review_act r t)"
    if "reviews_ok s" "reviews_ok t" "tenant_view (fst r) s = tenant_view (fst r) t"
  proof (cases oper)
    case (Plan wd b cid ids now)
    then show ?thesis
      by (cases rule: campaign_create_cases [of wd v b cid ids now]) (simp_all add: r)
  next
    case List_Reviews
    then show ?thesis
      using reads_view(1) [OF that(1), of v] reads_view(1) [OF that(2), of v] that(3) by (simp add: r)
  qed (use review_acts [OF that(1), of v oper] review_acts [OF that(2), of v oper] that(3) in \<open>auto simp: r acts_for_def\<close>)
qed

end
