(* ===== verification/Review_Safety.thy ===== *)
theory Review_Safety
  imports Review_Views
begin

text \<open>
  What an access review promises: tenants do not meet, a decision on record was made by someone for the
  access as it was shown, and every selected access is put before somebody else. At the end, where it does not.
\<close>

section \<open>Tenants\<close>

text \<open>C38. In every history of the campaign operations with fresh campaign ids a tenant gets the answers, and is left with the
  campaigns and items, that only its own requests would give.\<close>

theorem tenants_review_as_if_alone:
  assumes "reviews_ok db" "distinct (concat (map new_campaigns rs))" "set (concat (map new_campaigns rs)) \<inter> campaign_ids db = {}"
  shows "seen_by t (fst (history review_act fst rs db)) = seen_by t (fst (history review_act fst (filter (\<lambda>r. fst r = t) rs) db))
    \<and> tenant_view t (snd (history review_act fst rs db)) = tenant_view t (snd (history review_act fst (filter (\<lambda>r. fst r = t) rs) db))"
  by (rule tenant_reviews.history_isolated) (use assms in simp_all)

section \<open>Decisions\<close>

text \<open>The decision of \<open>i\<close> is that of \<open>j\<close>, and the access did not change in between.\<close>

definition same_decision :: "review_item \<Rightarrow> review_item \<Rightarrow> bool" where
  "same_decision j i \<longleftrightarrow> ri_campaign j = ri_campaign i \<and> ri_id j = ri_id i \<and> ri_decision j = ri_decision i \<and> ri_by j = ri_by i
     \<and> ri_reason j = ri_reason i \<and> (ri_changed i \<longrightarrow> ri_changed j)"

lemma same_decision_refl [simp]: "same_decision i i"
  by (simp add: same_decision_def)

lemma kept_decision:
  assumes "i \<in> set (rv_items (map_items p f db))" "\<And>j. j \<in> set (rv_items db) \<Longrightarrow> p j \<Longrightarrow> f j = i \<Longrightarrow> same_decision j i"
  shows "\<exists>j\<in>set (rv_items db). same_decision j i"
  using assms by (auto simp: map_items_def intro: bexI [of _ i])

text \<open>The ids of the items an operation creates.\<close>

fun new_items :: "review_request \<Rightarrow> string list" where
  "new_items (t, Plan wd b cid ids now) = ids"
| "new_items _ = []"

lemma campaign_create_items:
  obtains n where "map ri_id (rv_items (snd (create_campaign wd t b cid ids now db))) = map ri_id (rv_items db) @ take n ids"
    "\<And>i. i \<in> set (rv_items (snd (create_campaign wd t b cid ids now db))) \<Longrightarrow> i \<in> set (rv_items db) \<or> ri_decision i = None"
proof (cases "fst (create_campaign wd t b cid ids now db)")
  case (Inl e)
  then have "snd (create_campaign wd t b cid ids now db) = db"
    by (cases rule: campaign_create_cases [of wd t b cid ids now]) simp_all
  then show thesis
    by (intro that [of 0]) simp_all
next
  case (Inr c)
  obtain r rs where sel: "select_rows (wd_selected wd) t (wd_findings wd) (cb_selector b) (wd_rows wd) = Inr (r # rs)"
    using Inr by (auto simp: create_campaign_def split: if_splits sum.splits list.splits)
  obtain chosen folded where d: "dedupe_by_review_key (r # rs) = (chosen, folded)"
    by fastforce
  let ?kept = "take MAX_ITEMS chosen"
  have items: "rv_items (snd (create_campaign wd t b cid ids now db))
      = rv_items db @ map (\<lambda>(i, r). new_item wd b folded t cid i r) (zip ids ?kept)"
    using Inr by (auto simp: create_campaign_def sel d Let_def simp del: remdups.simps split: if_splits)
  have id: "ri_id (new_item wd b folded t cid i x) = i" "ri_decision (new_item wd b folded t cid i x) = None" for i x
    by (simp_all add: new_item_def split: prod.split)
  have "map ri_id (map (\<lambda>(i, r). new_item wd b folded t cid i r) (zip ids ?kept)) = map fst (zip ids ?kept)"
    by (auto simp: id)
  then have new: "map ri_id (map (\<lambda>(i, r). new_item wd b folded t cid i r) (zip ids ?kept)) = take (min (length ids) (length ?kept)) ids"
    by (simp only: map_fst_zip_take)
  show thesis
  proof (rule that)
    show "map ri_id (rv_items (snd (create_campaign wd t b cid ids now db))) = map ri_id (rv_items db) @ take (min (length ids) (length ?kept)) ids"
      by (simp only: items map_append new)
  qed (auto simp: items id)
qed

lemma ids_map_items [simp]: "(\<And>i. ri_id (f i) = ri_id i) \<Longrightarrow> map ri_id (rv_items (map_items p f db)) = map ri_id (rv_items db)"
  by (simp add: map_items_def)

lemma items_kept [simp]:
  "rv_items (snd (activate t cid db)) = rv_items db"
  "rv_items (snd (complete_campaign expired now t cid db)) = rv_items db"
  "rv_items (snd (expire_due now t db)) = rv_items db"
proof -
  show complete: "rv_items (snd (complete_campaign expired now t cid db)) = rv_items db" for expired cid db
    by (simp add: complete_campaign_def Let_def split: option.split)
  show "rv_items (snd (activate t cid db)) = rv_items db"
    by (simp add: activate_def Let_def split: option.split)
  have "rv_items (fold (\<lambda>cid db. snd (complete_campaign True now t cid db)) ids db) = rv_items db" for ids
    by (induction ids arbitrary: db) (simp_all add: complete)
  then show "rv_items (snd (expire_due now t db)) = rv_items db"
    by (simp add: expire_due_def Let_def)
qed

lemma refresh_items:
  obtains "rv_items (snd (refresh_campaign rows t cid db)) = rv_items db"
  | "rv_items (snd (refresh_campaign rows t cid db)) = rv_items (map_items (revoked_in t cid) (confirmed_item (map row_key rows))
       (map_items (\<lambda>i. ri_campaign i = cid) (refreshed (map row_key rows)) db))"
proof (cases "get_campaign t cid db")
  case (Some c)
  then show thesis
    by (intro that(2)) (simp add: refresh_campaign_def refresh_against_def auto_confirm_applied_def Let_def map_items_def)
qed (simp add: that refresh_campaign_def refresh_against_def)

lemma remediation_items:
  obtains "rv_items (snd (campaign_remediation action_of t cid db)) = rv_items db"
  | p where "rv_items (snd (campaign_remediation action_of t cid db)) = rv_items (map_items p (\<lambda>i. i\<lparr>ri_remediation := ''generated''\<rparr>) db)"
proof (cases "get_campaign t cid db = None \<or> List.map_filter (\<lambda>(i, d, r). action_of r d) (decided_rows t cid db) = []")
  case True
  then show thesis
    by (intro that(1)) (auto simp: campaign_remediation_def Let_def split: option.split)
next
  case False
  then show thesis
    by (intro that(2)) (auto simp: campaign_remediation_def mark_remediation_def Let_def)
qed

lemma act_ids:
  obtains n where "map ri_id (rv_items (snd (review_act (t, oper) db))) = map ri_id (rv_items db) @ take n (new_items (t, oper))"
proof (cases oper)
  case (Plan wd b cid ids now)
  show thesis
    by (rule campaign_create_items [of wd t b cid ids now db]) (use Plan that in auto)
next
  case (Judge cid iid d reason who heir now)
  then show thesis
    by (cases rule: decide_cases [of t cid iid d reason who heir now db]) (simp_all add: that)
next
  case (Refresh rows cid)
  then show thesis
    by (cases rule: refresh_items [of rows t cid db]) (simp_all add: that)
next
  case (Remediate action_of cid)
  then show thesis
    by (cases rule: remediation_items [of action_of t cid db]) (simp_all add: that)
qed (simp_all add: that)

definition judged_now :: "string \<Rightarrow> review_op \<Rightarrow> reviews \<Rightarrow> review_item \<Rightarrow> string \<Rightarrow> bool" where
  "judged_now t oper db i d \<longleftrightarrow> (\<exists>heir now st. oper = Judge (ri_campaign i) (ri_id i) d (ri_reason i) (ri_by i) heir now
     \<and> fst (decide t (ri_campaign i) (ri_id i) d (ri_reason i) (ri_by i) heir now db) = Inr st
     \<and> d \<in> set DECISIONS - {DELEGATE} \<and> (ri_changed i \<longrightarrow> ri_reason i \<noteq> []))"

lemma judged_source:
  assumes "i \<in> set (rv_items (snd (decide t cid iid d' reason who heir now db)))" "ri_decision i = Some d" "distinct (map ri_id (rv_items db))"
  shows "(\<exists>j\<in>set (rv_items db). same_decision j i) \<or> judged_now t (Judge cid iid d' reason who heir now) db i d"
proof (cases rule: decide_cases [of t cid iid d' reason who heir now db])
  case (refused e)
  then show ?thesis
    using assms(1) by (auto intro: bexI [of _ i])
next
  case (taken c k st db1)
  then have "i \<in> set (rv_items db1)"
    using assms(1) by simp
  then obtain j where j: "j \<in> set (rv_items db)" "i = (if ri_id j = iid \<and> ri_campaign j = cid then decided d' reason who heir now j else j)"
    unfolding taken(9) by (auto simp: map_items_def)
  show ?thesis
  proof (cases "ri_id j = iid \<and> ri_campaign j = cid")
    case True
    then have i: "ri_id i = iid" "ri_campaign i = cid" "ri_reason i = reason" "ri_by i = who" "d' \<noteq> DELEGATE" "d' = d" "ri_changed i = ri_changed j"
      using j(2) assms(2) by (auto simp: decided_def Let_def split: if_splits)
    have "j = k"
      using assms(3) j(1) taken(3,4) True by (auto simp: distinct_map dest: inj_onD)
    then show ?thesis
      using i taken(6,7,11) by (auto simp: judged_now_def)
  next
    case False
    then show ?thesis
      using j by (auto intro: bexI [of _ i])
  qed
qed

lemma decision_source:
  assumes "i \<in> set (rv_items (snd (review_act (t, oper) db)))" "ri_decision i = Some d" "distinct (map ri_id (rv_items db))"
  shows "(\<exists>j\<in>set (rv_items db). same_decision j i) \<or> judged_now t oper db i d"
proof (cases oper)
  case (Plan wd b cid ids now)
  have "i \<in> set (rv_items db)"
    by (rule campaign_create_items [of wd t b cid ids now db]) (use assms(1,2) Plan in fastforce)
  then show ?thesis
    by (auto intro: bexI [of _ i])
next
  case (Judge cid iid d' reason who heir now)
  then show ?thesis
    using judged_source [OF _ assms(2,3)] assms(1) by simp
next
  case (Refresh rows cid)
  let ?db = "map_items (\<lambda>i. ri_campaign i = cid) (refreshed (map row_key rows)) db"
  show ?thesis
  proof (cases rule: refresh_items [of rows t cid db])
    case 2
    then have "i \<in> set (rv_items (map_items (revoked_in t cid) (confirmed_item (map row_key rows)) ?db))"
      using assms(1) Refresh by simp
    then have "\<exists>k\<in>set (rv_items ?db). same_decision k i"
      by (rule kept_decision) (auto simp: same_decision_def)
    then obtain k where k: "k \<in> set (rv_items ?db)" "same_decision k i"
      by blast
    then have "ri_decision k = Some d"
      using assms(2) by (simp add: same_decision_def)
    with k(1) have "\<exists>j\<in>set (rv_items db). same_decision j k"
      by (intro kept_decision [OF k(1)]) (auto simp: same_decision_def refreshed_def Let_def split: if_splits)
    then show ?thesis
      using k(2) by (auto simp: same_decision_def)
  qed (use assms(1) Refresh in \<open>auto intro: bexI [of _ i]\<close>)
next
  case (Remediate action_of cid)
  show ?thesis
  proof (cases rule: remediation_items [of action_of t cid db])
    case (2 p)
    then have "i \<in> set (rv_items (map_items p (\<lambda>i. i\<lparr>ri_remediation := ''generated''\<rparr>) db))"
      using assms(1) Remediate by simp
    then have "\<exists>j\<in>set (rv_items db). same_decision j i"
      by (rule kept_decision) (auto simp: same_decision_def)
    then show ?thesis ..
  qed (use assms(1) Remediate in \<open>auto intro: bexI [of _ i]\<close>)
qed (use assms(1) in \<open>auto intro: bexI [of _ i]\<close>)

definition no_reviews :: reviews where
  "no_reviews = \<lparr>rv_campaigns = [], rv_items = []\<rparr>"

lemma history_ids:
  assumes "distinct (concat (map new_items rs))"
  shows "distinct (map ri_id (rv_items (snd (history review_act fst rs no_reviews))))
    \<and> set (map ri_id (rv_items (snd (history review_act fst rs no_reviews)))) \<subseteq> set (concat (map new_items rs))"
  using assms
proof (induction rs rule: rev_induct)
  case (snoc r rs)
  let ?db = "snd (history review_act fst rs no_reviews)"
  obtain t oper where r: "r = (t, oper)"
    by fastforce
  obtain n where n: "map ri_id (rv_items (snd (review_act (t, oper) ?db))) = map ri_id (rv_items ?db) @ take n (new_items (t, oper))"
    by (rule act_ids)
  have "snd (history review_act fst (rs @ [r]) no_reviews) = snd (review_act (t, oper) ?db)"
    by (simp add: history_append r Let_def case_prod_beta)
  moreover have "set (take n (new_items (t, oper))) \<subseteq> set (new_items r)"
    by (simp add: r set_take_subset)
  ultimately show ?case
    using snoc n by (fastforce simp: r distinct_take)
qed (simp add: no_reviews_def)

text \<open>C39. Nothing is ever decided by itself: every decision on record, in every history, was made by an accepted request for that item, by the
  person and with the reason the record names; and if the access has changed since, the reason is not empty.\<close>

theorem decisions_are_made_by_people:
  assumes "distinct (concat (map new_items rs))"
    "i \<in> set (rv_items (snd (history review_act fst rs no_reviews)))" "ri_decision i = Some d"
  shows "\<exists>before t heir now after st.
    rs = before @ (t, Judge (ri_campaign i) (ri_id i) d (ri_reason i) (ri_by i) heir now) # after
    \<and> fst (decide t (ri_campaign i) (ri_id i) d (ri_reason i) (ri_by i) heir now (snd (history review_act fst before no_reviews))) = Inr st
    \<and> d \<in> set DECISIONS - {DELEGATE} \<and> (ri_changed i \<longrightarrow> ri_reason i \<noteq> [])"
  using assms
proof (induction rs arbitrary: i rule: rev_induct)
  case (snoc r rs)
  let ?db = "snd (history review_act fst rs no_reviews)"
  obtain t oper where r: "r = (t, oper)"
    by fastforce
  have fresh: "distinct (concat (map new_items rs))"
    using snoc.prems(1) by simp
  have "i \<in> set (rv_items (snd (review_act (t, oper) ?db)))"
    using snoc.prems(2) by (simp add: history_append r Let_def case_prod_beta)
  then consider (kept) j where "j \<in> set (rv_items ?db)" "same_decision j i" | (now) "judged_now t oper ?db i d"
    using decision_source [OF _ snoc.prems(3)] history_ids [OF fresh] by blast
  then show ?case
  proof cases
    case kept
    then have "ri_decision j = Some d"
      using snoc.prems(3) by (simp add: same_decision_def)
    from snoc.IH [OF fresh kept(1) this] obtain before t' heir now after st where
      j: "rs = before @ (t', Judge (ri_campaign j) (ri_id j) d (ri_reason j) (ri_by j) heir now) # after"
        "fst (decide t' (ri_campaign j) (ri_id j) d (ri_reason j) (ri_by j) heir now (snd (history review_act fst before no_reviews))) = Inr st"
        "d \<in> set DECISIONS - {DELEGATE}" "ri_changed j \<longrightarrow> ri_reason j \<noteq> []"
      by blast
    have same: "ri_campaign j = ri_campaign i" "ri_id j = ri_id i" "ri_reason j = ri_reason i" "ri_by j = ri_by i" "ri_changed i \<longrightarrow> ri_changed j"
      using kept(2) by (simp_all add: same_decision_def)
    have "rs @ [r] = before @ (t', Judge (ri_campaign i) (ri_id i) d (ri_reason i) (ri_by i) heir now) # (after @ [r])"
      using j(1) same by simp
    then show ?thesis
      using j(2-4) same by metis
  next
    case now
    then show ?thesis
      unfolding judged_now_def r by (metis append_Nil2)
  qed
qed (simp add: no_reviews_def)

section \<open>What is reviewed, and by whom\<close>



text \<open>The state of the fold: one row for each key, a direct one if there is one, and every way the access is held.\<close>

definition folded_ok :: "row list \<Rightarrow> folding \<Rightarrow> bool" where
  "folded_ok rows st \<longleftrightarrow>
     map fst (fst st) = map fst (snd st) \<and> distinct (map fst (fst st)) \<and> set (map fst (fst st)) = row_key ` set rows
     \<and> (\<forall>k r. map_of (fst st) k = Some r \<longrightarrow> r \<in> set rows \<and> row_key r = k
          \<and> ((\<exists>x\<in>set rows. row_key x = k \<and> rw_path x \<noteq> PATH_GROUP) \<longrightarrow> rw_path r \<noteq> PATH_GROUP))
     \<and> (\<forall>k vs. map_of (snd st) k = Some vs \<longrightarrow> set vs = via_of ` {r\<in>set rows. row_key r = k})"

lemma folded_ok_step:
  assumes "folded_ok rows st"
  shows "folded_ok (rows @ [r]) (dedupe_one r st)"
proof -
  obtain best folded where st: "st = (best, folded)"
    by fastforce
  let ?k = "row_key r"
  note ok = assms [unfolded folded_ok_def st fst_conv snd_conv]
  have keys: "map fst best = map fst folded" "distinct (map fst best)" "set (map fst best) = row_key ` set rows"
    using ok by blast+
  show ?thesis
  proof (cases "map_of best ?k")
    case None
    then have new: "?k \<notin> row_key ` set rows"
      using keys(3) by (metis map_of_eq_None_iff list.set_map)
    then have "?k \<notin> set (map fst folded)"
      using keys(1,3) by simp
    then have none: "map_of folded ?k = None"
      by (metis map_of_eq_None_iff list.set_map)
    have step: "dedupe_one r st = (best @ [(?k, r)], folded @ [(?k, [via_of r])])"
      using None by (simp add: dedupe_one_def st Let_def)
    have fresh: "row_key x \<noteq> ?k" if "x \<in> set rows" for x
      using new that by (metis image_eqI)
    have maps: "map_of (best @ [(?k, r)]) x = (if x = ?k then Some r else map_of best x)"
      "map_of (folded @ [(?k, [via_of r])]) x = (if x = ?k then Some [via_of r] else map_of folded x)" for x
      using None none by (simp_all add: map_add_def split: option.split)
    have "\<forall>k x. map_of (best @ [(?k, r)]) k = Some x \<longrightarrow> x \<in> set (rows @ [r]) \<and> row_key x = k
        \<and> ((\<exists>y\<in>set (rows @ [r]). row_key y = k \<and> rw_path y \<noteq> PATH_GROUP) \<longrightarrow> rw_path x \<noteq> PATH_GROUP)"
      unfolding maps(1) using ok fresh by (auto split: if_splits)
    moreover have "\<forall>k vs. map_of (folded @ [(?k, [via_of r])]) k = Some vs \<longrightarrow> set vs = via_of ` {x\<in>set (rows @ [r]). row_key x = k}"
      unfolding maps(2) using ok fresh by (auto split: if_splits)
    moreover have "map fst (best @ [(?k, r)]) = map fst (folded @ [(?k, [via_of r])])" "distinct (map fst (best @ [(?k, r)]))"
      "set (map fst (best @ [(?k, r)])) = row_key ` set (rows @ [r])"
      using keys new by auto
    ultimately show ?thesis
      unfolding step folded_ok_def fst_conv snd_conv by blast
  next
    case (Some prev)
    then have in_keys: "?k \<in> set (map fst best)" "?k \<in> set (map fst folded)"
      using keys(1) by (metis map_of_eq_None_iff list.set_map option.distinct(1))+
    then obtain vs where vs: "map_of folded ?k = Some vs"
      by (metis map_of_eq_None_iff list.set_map not_Some_eq)
    let ?best = "if rw_path prev = PATH_GROUP \<and> rw_path r \<noteq> PATH_GROUP then AList.update ?k r best else best"
    let ?folded = "if via_of r \<in> set vs then folded else AList.update ?k (vs @ [via_of r]) folded"
    have step: "dedupe_one r st = (?best, ?folded)"
      using Some vs by (simp add: dedupe_one_def st Let_def)
    have best: "map fst ?best = map fst best"
      "map_of ?best k = (if k = ?k \<and> rw_path prev = PATH_GROUP \<and> rw_path r \<noteq> PATH_GROUP then Some r else map_of best k)" for k
      using in_keys(1) by (auto simp: update_keys update_conv')
    have folded: "map fst ?folded = map fst folded"
      "map_of ?folded k = (if k = ?k \<and> via_of r \<notin> set vs then Some (vs @ [via_of r]) else map_of folded k)" for k
      using in_keys(2) by (auto simp: update_keys update_conv')
    have prev: "prev \<in> set rows" "row_key prev = ?k" "(\<exists>x\<in>set rows. row_key x = ?k \<and> rw_path x \<noteq> PATH_GROUP) \<longrightarrow> rw_path prev \<noteq> PATH_GROUP"
      using ok Some by blast+
    have ways: "set vs = via_of ` {x\<in>set rows. row_key x = ?k}"
      using ok vs by blast
    have rows_ok: "\<forall>k x. map_of ?best k = Some x \<longrightarrow> x \<in> set (rows @ [r]) \<and> row_key x = k
        \<and> ((\<exists>y\<in>set (rows @ [r]). row_key y = k \<and> rw_path y \<noteq> PATH_GROUP) \<longrightarrow> rw_path x \<noteq> PATH_GROUP)"
      unfolding best(2) using ok prev Some by (auto split: if_splits)
    have ways_ok: "\<forall>k ws. map_of ?folded k = Some ws \<longrightarrow> set ws = via_of ` {x\<in>set (rows @ [r]). row_key x = k}"
      unfolding folded(2) using ok ways vs by (auto split: if_splits)
    have all_ok: "row_key ` set (rows @ [r]) = row_key ` set rows"
    proof -
      have "row_key r \<in> row_key ` set rows"
        using prev(1,2) by (metis image_eqI)
      then show ?thesis
        by auto
    qed
    show ?thesis
      unfolding step folded_ok_def fst_conv snd_conv best(1) folded(1) all_ok
      by (intro conjI rows_ok ways_ok keys)
  qed
qed

lemma folded_ok_all: "folded_ok rows (fold dedupe_one rows ([], []))"
proof (induction rows rule: rev_induct)
  case (snoc r rows)
  then show ?case
    using folded_ok_step by simp
qed (simp add: folded_ok_def)



lemma deduped:
  assumes "dedupe_by_review_key rows = (chosen, folded)"
  shows deduped_distinct: "distinct (map row_key chosen)"
    and deduped_keys: "row_key ` set chosen = row_key ` set rows"
    and deduped_sub: "set chosen \<subseteq> set rows"
    and deduped_direct: "\<And>r. r \<in> set chosen \<Longrightarrow> \<exists>x\<in>set rows. row_key x = row_key r \<and> rw_path x \<noteq> PATH_GROUP \<Longrightarrow> rw_path r \<noteq> PATH_GROUP"
    and deduped_ways: "\<And>r. r \<in> set chosen \<Longrightarrow> 1 < card (via_of ` {x\<in>set rows. row_key x = row_key r}) \<Longrightarrow>
      \<exists>vs. map_of folded (row_key r) = Some vs \<and> set vs = via_of ` {x\<in>set rows. row_key x = row_key r}"
proof -
  obtain best folds where f: "fold dedupe_one rows ([], []) = (best, folds)"
    by fastforce
  note ok = folded_ok_all [of rows, unfolded f folded_ok_def fst_conv snd_conv]
  have chosen: "chosen = map snd best" and folded: "folded = filter (\<lambda>(k, vs). 1 < length vs) folds"
    using assms by (simp_all add: dedupe_by_review_key_def f)
  have same: "map fst best = map fst folds" and once: "distinct (map fst best)" and all: "set (map fst best) = row_key ` set rows"
    using ok by blast+
  have entry: "row_key r = k" "map_of best k = Some r" if "(k, r) \<in> set best" for k r
    using ok once that by (metis map_of_is_SomeI)+
  have keys: "map row_key chosen = map fst best"
    unfolding chosen map_map by (intro map_cong [OF refl]) (auto dest: entry(1))
  then show "distinct (map row_key chosen)" "row_key ` set chosen = row_key ` set rows"
    using once all by (simp, metis list.set_map)
  have held: "map_of best (row_key r) = Some r" if "r \<in> set chosen" for r
    using that entry unfolding chosen by fastforce
  then show "set chosen \<subseteq> set rows"
    using ok by blast
  show "rw_path r \<noteq> PATH_GROUP" if "r \<in> set chosen" "\<exists>x\<in>set rows. row_key x = row_key r \<and> rw_path x \<noteq> PATH_GROUP" for r
    using ok held [OF that(1)] that(2) by blast
  show "\<exists>vs. map_of folded (row_key r) = Some vs \<and> set vs = via_of ` {x\<in>set rows. row_key x = row_key r}"
    if "r \<in> set chosen" "1 < card (via_of ` {x\<in>set rows. row_key x = row_key r})" for r
  proof -
    have "row_key r \<in> set (map fst folds)"
      using keys same that(1) by (metis image_eqI list.set_map)
    then obtain vs where vs: "map_of folds (row_key r) = Some vs"
      by (metis map_of_eq_None_iff list.set_map not_Some_eq)
    then have ways: "set vs = via_of ` {x\<in>set rows. row_key x = row_key r}"
      using ok by blast
    then have "1 < length vs"
      using that(2) by (metis card_length order_less_le_trans)
    then have "(row_key r, vs) \<in> set folded"
      using map_of_SomeD [OF vs] by (simp add: folded)
    moreover have "distinct (map fst folded)"
      unfolding folded using once same by (intro distinct_map_filter) simp
    ultimately show ?thesis
      using ways by (metis map_of_is_SomeI)
  qed
qed




section \<open>Where the review is wrong\<close>

text \<open>A revocation that was carried out is erased by the refresh that should confirm it: the access is gone, so the item counts as
  changed and loses its decision before the revocations are verified.\<close>

lemma refresh_erases_revocation:
  assumes "get_campaign t cid db = Some c" "i \<in> set (rv_items db)" "ri_campaign i = cid" "ri_decision i = Some REVOKE"
    "\<not> ri_changed i" "ri_key i \<notin> set (map row_key rows)"
  shows "i\<lparr>ri_changed := True, ri_decision := None, ri_reason := [], ri_at := None\<rparr>
    \<in> set (rv_items (snd (refresh_campaign rows t cid db)))"
proof -
  let ?i = "refreshed (map row_key rows) i"
  have i: "?i = i\<lparr>ri_changed := True, ri_decision := None, ri_reason := [], ri_at := None\<rparr>"
    using assms(4-6) by (simp add: refreshed_def Let_def)
  have "\<not> revoked_in t cid ?i"
    by (simp add: i revoked_in_def)
  then have "?i \<in> set (rv_items (map_items (revoked_in t cid) (confirmed_item (map row_key rows))
       (map_items (\<lambda>i. ri_campaign i = cid) (refreshed (map row_key rows)) db)))"
    using assms(2,3) by (force simp: map_items_def)
  then show ?thesis
    unfolding i using assms(1) by (simp add: refresh_campaign_def refresh_against_def auto_confirm_applied_def Let_def map_items_def)
qed

lemma refresh_clears: "\<not> ri_changed i \<Longrightarrow> ri_key i \<notin> set present \<Longrightarrow> ri_decision (refreshed present i) = None"
  by (simp add: refreshed_def Let_def)

lemma refresh_confirms_nothing:
  assumes "get_campaign t cid db = Some c" "\<forall>i\<in>set (items_of cid db). \<not> ri_changed i"
  shows "\<exists>changed reverted. fst (refresh_campaign rows t cid db) = Inr (changed, 0, reverted)"
proof -
  let ?present = "set (map row_key rows)"
  let ?map = "map (\<lambda>i. if ri_campaign i = cid then refreshed (map row_key rows) i else i) (rv_items db)"
  have "ri_key x \<in> ?present" if x: "x \<in> set ?map" "revoked_in t cid x" for x
  proof (rule ccontr)
    assume gone: "ri_key x \<notin> ?present"
    obtain j where j: "j \<in> set (rv_items db)" "x = (if ri_campaign j = cid then refreshed (map row_key rows) j else j)"
      using x(1) by auto
    then have "ri_campaign j = cid" "x = refreshed (map row_key rows) j"
      using x(2) by (simp_all add: revoked_in_def split: if_split_asm)
    then have "ri_decision x = None"
      using refresh_clears [of j "map row_key rows"] gone j(1) assms(2) by (simp add: items_of_def)
    then show False
      using x(2) by (simp add: revoked_in_def)
  qed
  then have "filter (\<lambda>i. ri_key i \<notin> ?present \<and> ri_remediation i \<noteq> CONFIRMED) (filter (revoked_in t cid) ?map) = []"
    unfolding filter_empty_conv set_filter by blast
  then show ?thesis
    using assms(1) by (simp add: refresh_campaign_def refresh_against_def auto_confirm_applied_def map_items_def Let_def)
qed

text \<open>A refresh after the closing empties the decisions of a closed campaign, whose evidence still calls it complete.\<close>

lemma evidence_of_emptied_review_is_complete:
  assumes "get_campaign t cid db = Some c" "rc_status c = COMPLETED" "sx_complete (rc_stats c) = Some True"
    "\<forall>i\<in>set (items_of cid db). \<not> ri_changed i"
  shows "\<exists>e. campaign_evidence t cid (snd (refresh_campaign [] t cid db)) = Some e \<and> ed_complete e \<and> ed_decided e = 0"
proof -
  let ?items = "items_of cid (map_items (\<lambda>i. ri_campaign i = cid) (refreshed []) db)"
  have "ri_decision x = None" if x: "x \<in> set ?items" for x
  proof -
    have "x \<in> (\<lambda>j. if ri_campaign j = cid then refreshed [] j else j) ` set (rv_items db)" and cid: "ri_campaign x = cid"
      using x unfolding items_of_def map_items_def by auto
    then obtain j where j: "j \<in> set (rv_items db)" "x = (if ri_campaign j = cid then refreshed [] j else j)"
      by blast
    with cid have "ri_campaign j = cid" "x = refreshed [] j"
      by (simp_all split: if_split_asm)
    then show ?thesis
      using refresh_clears [of j "[]"] j(1) assms(4) by (simp add: items_of_def)
  qed
  then have none: "filter (\<lambda>i. ri_decision i \<noteq> None) ?items = []"
    by (simp add: filter_empty_conv)
  define c1 where c1: "c1 = c\<lparr>rc_stats := recount (rc_stats c) ?items\<rparr>"
  have c: "c \<in> set (rv_campaigns db)" "rc_tenant c = t" "rc_id c = cid"
    using get_campaignD [OF assms(1)] by simp_all
  have "find (\<lambda>x. rc_tenant x = t \<and> rc_id x = cid) (map (\<lambda>x. if rc_id x = cid then c1 else x) xs) = Some c1" if "c \<in> set xs" for xs
    using that c(2,3) by (induction xs) (auto simp: c1)
  note found = this [OF c(1)]
  have "rv_campaigns (snd (refresh_campaign [] t cid db)) = map (\<lambda>x. if rc_id x = cid then c1 else x) (rv_campaigns db)"
    using assms(1) c(3)
    by (simp add: refresh_campaign_def refresh_against_def auto_confirm_applied_def set_campaign_def c1 Let_def)
  then have "get_campaign t cid (snd (refresh_campaign [] t cid db)) = Some c1"
    unfolding get_campaign_def using found by simp
  moreover have "sx_decided (recount (rc_stats c) ?items) = 0" "sx_complete (recount (rc_stats c) ?items) = Some True"
    using none assms(3) by (simp_all add: recount_def)
  ultimately show ?thesis
    using assms(2) by (simp add: campaign_evidence_def evidence_content_def c1 Let_def)
qed

text \<open>Nobody is kept from delegating an item to the holder of the access, who can then decide on it.\<close>

lemma holder_can_be_delegate:
  assumes "get_campaign t cid db = Some c" "rc_status c = ACTIVE" "i \<in> set (rv_items db)" "ri_campaign i = cid"
    "distinct (map ri_id (rv_items db))" "\<not> ri_changed i" "holder (ri_row i) \<noteq> []"
  shows "\<exists>j\<in>set (rv_items (snd (decide t cid (ri_id i) DELEGATE reason who (holder (ri_row i)) now db))).
    ri_id j = ri_id i \<and> ri_row j = ri_row i \<and> ri_reviewer j = holder (ri_row j)"
proof -
  have only: "j = i" if "j \<in> set (rv_items db)" "ri_id j = ri_id i" for j
    using assms(3,5) that by (auto simp: distinct_map dest: inj_onD)
  have "find (\<lambda>j. ri_id j = ri_id i \<and> ri_campaign j = cid) (rv_items db) \<noteq> None"
    using assms(3,4) by (auto simp: find_None_iff)
  then have "find (\<lambda>j. ri_id j = ri_id i \<and> ri_campaign j = cid) (rv_items db) = Some i"
    using only by (auto dest: find_SomeD)
  then have "rv_items (snd (decide t cid (ri_id i) DELEGATE reason who (holder (ri_row i)) now db))
      = map (\<lambda>x. if ri_id x = ri_id i \<and> ri_campaign x = cid then decided DELEGATE reason who (holder (ri_row i)) now x else x) (rv_items db)"
    using assms(1,2,6,7) by (simp add: decide_def DECISIONS_def Let_def) (simp add: map_items_def)
  then have "decided DELEGATE reason who (holder (ri_row i)) now i
      \<in> set (rv_items (snd (decide t cid (ri_id i) DELEGATE reason who (holder (ri_row i)) now db)))"
    using assms(3,4) by (auto intro!: image_eqI [of _ _ i])
  then show ?thesis
    by (intro bexI) (simp_all add: decided_def Let_def)
qed

text \<open>A selector by scope takes every scope whose text begins alike, not only what lies under it.\<close>

definition beside :: row where
  "beside = (make_row no_values)\<lparr>rw_effective := ''u1'', rw_scope := ''/subscriptions/s/resourceGroups/rg10''\<rparr>"

definition scope_selector :: "string \<Rightarrow> selector" where
  "scope_selector scope = \<lparr>se_kind = ''scope'', se_scope = scope, se_include = [], se_types = [], se_privileged_only = False,
     se_tier = [], se_rollup = [], se_signals = []\<rparr>"

lemma scope_selector_takes_siblings:
  "select_rows (\<lambda>_. []) ''t1'' [] (scope_selector ''/subscriptions/s/resourceGroups/rg1'') [beside] = Inr [beside]"
  "\<not> scope_covers ''/subscriptions/s/resourceGroups/rg1'' (rw_scope beside)"
  by code_simp+

section \<open>Witnesses\<close>

definition example_world :: review_world where
  "example_world = \<lparr>wd_rows = [beside], wd_selected = (\<lambda>_. []), wd_owners = (\<lambda>_ _ _. None), wd_paths = [], wd_findings = []\<rparr>"

definition example_body :: campaign_body where
  "example_body = \<lparr>cb_name = ''Q1'', cb_description = [], cb_selector = scope_selector ''/subscriptions/s'', cb_baseline = [],
     cb_strategy = BY_OWNER, cb_fallback = ''boss'', cb_due = None, cb_reminders = [], cb_by = ''ann''\<rparr>"

definition example_reviews :: "review_request list" where
  "example_reviews = [(''t1'', Plan example_world example_body ''c1'' [''i1''] 10), (''t2'', List_Reviews), (''t1'', Launch ''c1''),
     (''t2'', Judge ''c1'' ''i1'' APPROVE [] ''eve'' [] 15), (''t1'', Judge ''c1'' ''i1'' APPROVE ''needed'' ''boss'' [] 20)]"

lemma example_decided:
  "map (\<lambda>i. (ri_campaign i, ri_id i, ri_decision i, ri_reason i, ri_by i)) (rv_items (snd (history review_act fst example_reviews no_reviews)))
     = [(''c1'', ''i1'', Some APPROVE, ''needed'', ''boss'')]"
  by code_simp

theorem decisions_are_made_by_people_witness:
  "\<exists>before t heir now after. example_reviews = before @ (t, Judge ''c1'' ''i1'' APPROVE ''needed'' ''boss'' heir now) # after"
proof -
  obtain i where i: "rv_items (snd (history review_act fst example_reviews no_reviews)) = [i]"
    "ri_campaign i = ''c1''" "ri_id i = ''i1''" "ri_decision i = Some APPROVE" "ri_reason i = ''needed''" "ri_by i = ''boss''"
    using example_decided by auto
  moreover have "distinct (concat (map new_items example_reviews))"
    by (simp add: example_reviews_def)
  ultimately show ?thesis
    using decisions_are_made_by_people [of example_reviews i APPROVE] by (simp only: i list.set singleton_iff simp_thms) blast
qed

theorem tenants_review_as_if_alone_witness:
  "seen_by ''t2'' (fst (history review_act fst example_reviews no_reviews))
     = seen_by ''t2'' (fst (history review_act fst [(''t2'', List_Reviews), (''t2'', Judge ''c1'' ''i1'' APPROVE [] ''eve'' [] 15)] no_reviews))"
proof -
  have "filter (\<lambda>r. fst r = ''t2'') example_reviews = [(''t2'', List_Reviews), (''t2'', Judge ''c1'' ''i1'' APPROVE [] ''eve'' [] 15)]"
    by (simp add: example_reviews_def)
  moreover have "reviews_ok no_reviews"
    by (simp add: reviews_ok_def no_reviews_def)
  ultimately show ?thesis
    using tenants_review_as_if_alone [of no_reviews example_reviews "''t2''"]
    by (simp add: campaign_ids_def no_reviews_def) (simp add: example_reviews_def)
qed




end
