(* ===== verification/Spec2Isabelle.thy ===== *)
theory Spec2Isabelle
  imports Firewall User_Admin Durable_Jobs Batch_Safety Ca_Simulator Shell_Words Auth_Sso Iam_Simulator Backup_Safety Scheduler_Safety Maintenance Chat_Safety Record_Safety
    Stream_Safety Review_Safety
begin

text \<open>
  Azure Support Agent is a Python service (\<^verbatim>\<open>src/backend/app\<close>) that operates Azure estates for a team: it decides who may
  reach it and what they may do, runs background work on several replicas that share one database, evaluates and
  simulates access in Azure and Entra, and changes Azure through an approval ledger. This library models the parts that
  carry such decisions. Python functions are HOL functions under their own names, rows and settings are records, a raise is
  the left side of a sum, a database transaction is a function of the rows, and the interleavings of replicas are
  inductive relations over those transactions. Instants are microseconds.

  \<^bold>\<open>Reaching the service.\<close> \<^verbatim>\<open>Ip_Address\<close> is the part of \<^verbatim>\<open>ipaddress\<close> the code uses. \<^verbatim>\<open>Net_Access\<close>
  (\<^verbatim>\<open>core/netaccess.py\<close>) is the allowlist: validation, the stored policy, the prefix table with its cache, the effective
  mode and the commit-confirm timer; its lemmas show the table equal to the linear scan. \<^verbatim>\<open>Client_Ip\<close>
  (\<^verbatim>\<open>core/clientip.py\<close>) says whose address a request has. \<^verbatim>\<open>Firewall\<close> (\<^verbatim>\<open>api/firewall.py\<close>,
  \<^verbatim>\<open>core/netaccess_events.py\<close>, the middleware of \<^verbatim>\<open>main.py\<close>) puts them together: nobody locks himself out, the
  exact condition of a refusal, provisional enforcement ends. The branch of \<open>update_config\<close> that the tests use to replace the
  storage is not modelled. \<^verbatim>\<open>Maintenance\<close> is what the scheduler loop does to this state and to the sessions.

  \<^bold>\<open>Signing in and permissions.\<close> \<^verbatim>\<open>Ip_Lockout\<close> (\<^verbatim>\<open>auth/ip_lockout.py\<close>), \<^verbatim>\<open>Auth_Roles\<close>
  (\<^verbatim>\<open>auth/permissions.py\<close>, \<^verbatim>\<open>core/security.py\<close>), \<^verbatim>\<open>Auth_Login\<close> (\<^verbatim>\<open>auth/service.py\<close>, \<^verbatim>\<open>api/auth.py\<close>)
  and \<^verbatim>\<open>User_Admin\<close> (\<^verbatim>\<open>api/users.py\<close>): brute-force counters, effective permissions, the login handler, sessions and the
  administration of users and groups. \<^verbatim>\<open>Auth_Sso\<close> (\<^verbatim>\<open>auth/oidc.py\<close>, \<^verbatim>\<open>saml.py\<close>, \<^verbatim>\<open>provisioning.py\<close>) adds the
  sign-in through identity providers. The lemmas show what a session needs, whichever handler makes it, that a revoked one is
  dead, that a workspace keeps an administrator. The password hash, the token endpoint, signatures and sealed cookies are
  arguments.

  \<^bold>\<open>Work shared by replicas.\<close> \<^verbatim>\<open>Leases\<close> states the contract of a fenced lease as a locale and proves its consequences
  once; \<^verbatim>\<open>Durable_Jobs\<close> (\<^verbatim>\<open>core/durable_jobs.py\<close>), \<^verbatim>\<open>Batch_Safety\<close> over \<^verbatim>\<open>Work_Batches\<close>
  (\<^verbatim>\<open>core/work_batches.py\<close>) and \<^verbatim>\<open>Scheduler_Safety\<close> over \<^verbatim>\<open>Scheduler\<close> (\<^verbatim>\<open>automations/scheduler.py\<close>,
  \<^verbatim>\<open>automations/runner.py\<close>, the task handlers of \<^verbatim>\<open>api/automations.py\<close>) interpret it on their transactions. Beyond the
  fencing: one live job per scope and final outcomes, limits and exact totals of batches, occurrences that are completed once
  and in order and never lost. \<^verbatim>\<open>Schedule\<close> (\<^verbatim>\<open>automations/schedule.py\<close>) computes the next run from wall times; the time
  zone database and the cron evaluator are arguments with the promises \<open>zone_ok\<close> and \<open>env_ok\<close>, which a zone that sets its
  clocks back is shown to keep.

  \<^bold>\<open>Conditional Access.\<close> \<^verbatim>\<open>Ca_Taxonomy\<close>, \<^verbatim>\<open>Ca_Engine\<close>, \<^verbatim>\<open>Ca_Coverage\<close> and \<^verbatim>\<open>Ca_Simulator\<close>
  (\<^verbatim>\<open>entra/ca_*.py\<close>): classes of applications, normalised policies and findings, the coverage matrix, the evaluation of a sign-in
  and the change simulator. The lemmas relate the matrix to the users it covers and the simulator to the lock-outs it reports.

  \<^bold>\<open>Access review.\<close> \<^verbatim>\<open>Iam_Rows\<close>, \<^verbatim>\<open>Iam_Effective\<close>, \<^verbatim>\<open>Iam_Compose\<close>, \<^verbatim>\<open>Iam_Diff\<close> and
  \<^verbatim>\<open>Iam_Simulator\<close> (\<^verbatim>\<open>iam/schema.py\<close>, \<^verbatim>\<open>effective.py\<close>, \<^verbatim>\<open>compose.py\<close>, \<^verbatim>\<open>diff.py\<close>, \<^verbatim>\<open>simulator.py\<close>): access
  rows, who can do what, the composed view with expanded groups, the classified difference of two scans, and what a set of
  changes takes away. \<^verbatim>\<open>Iam_Campaigns\<close>
  (\<^verbatim>\<open>iam/campaigns.py\<close> and its handlers in \<^verbatim>\<open>api/iam.py\<close>) puts access before reviewers and closes the review with its
  evidence; \<^verbatim>\<open>Review_Views\<close> interprets the isolation of tenants on it, and \<^verbatim>\<open>Review_Safety\<close> shows that tenants do not
  meet, that decisions are made by people, that every selected access is put before somebody other than its holder, and where
  a refresh loses what was decided.

  \<^bold>\<open>Changing Azure.\<close> \<^verbatim>\<open>Command_Gate\<close> (\<^verbatim>\<open>exec/command_runner.py\<close>) validates a command line and asks for approval before a
  process starts; \<^verbatim>\<open>Shell_Words\<close> states what a line says, with its words, quotes and operators, and shows that the
  gate reads it so. \<^verbatim>\<open>Backup_Ledger\<close> (\<^verbatim>\<open>backup_manager/changes.py\<close>, \<^verbatim>\<open>lro.py\<close> and the handlers of \<^verbatim>\<open>api/backup_manager.py\<close>)
  is the ledger of managed changes as a transition system; \<^verbatim>\<open>Backup_Order\<close> proves its dependency order,
  \<^verbatim>\<open>Backup_Safety\<close> the life cycle, the approvals and the end of operations that hang.

  \<^bold>\<open>The agent's tools.\<close> \<^verbatim>\<open>Json_Values\<close> has JSON documents and their Python operations. \<^verbatim>\<open>Tool_Classify\<close>
  (\<^verbatim>\<open>mcp/client.py\<close>) gives the read and write verdicts, \<^verbatim>\<open>Tool_Catalog\<close> and \<^verbatim>\<open>Tool_Router\<close>
  (\<^verbatim>\<open>agent/tool_catalog.py\<close>, \<^verbatim>\<open>tool_router.py\<close>, \<^verbatim>\<open>skills.py\<close>) the catalog, the ranking and the bounded surface of tools a
  turn offers, \<^verbatim>\<open>Tool_Artifacts\<close> (\<^verbatim>\<open>agent/tool_results.py\<close>) the store of large results and its pages. \<^verbatim>\<open>Tool_Gate\<close> and
  \<^verbatim>\<open>Tool_Turn\<close> (\<^verbatim>\<open>agent/orchestrator.py\<close>, \<^verbatim>\<open>connectors/base.py\<close>) are the turn itself, from the loading of tools to the closing
  event. \<^verbatim>\<open>Gate_Safety\<close> states invariants of a turn as locales, per round and per call, and interprets them on the loop;
  \<^verbatim>\<open>Turn_Safety\<close> concludes: only reads run while writes need approval, every call is answered in order, the turn ends once, the
  surface keeps its ceiling, and it shows where the verdict can be wrong.

  \<^bold>\<open>Chats.\<close> \<^verbatim>\<open>Chat_Store\<close> and \<^verbatim>\<open>Chat_Start\<close> (\<^verbatim>\<open>api/chats.py\<close>) are the handlers of a user's chats and the start of a turn
  as functions of the tables. \<^verbatim>\<open>Isolation\<close> states what a handler owes to the other users as a locale, \<^verbatim>\<open>Chat_Views\<close>
  interprets it on the handlers, and \<^verbatim>\<open>Chat_Safety\<close> concludes that users work as if alone, that messages are lost only on
  request and that a workload keeps its connection. \<^verbatim>\<open>Chat_Record\<close> (the worker of \<^verbatim>\<open>api/chats.py\<close>, the loop of
  \<^verbatim>\<open>automations/runner.py\<close>) turns the events of \<^verbatim>\<open>Tool_Turn\<close> into rows, an activity feed and the stored answer, with every commit
  allowed to fail; \<^verbatim>\<open>Record_Safety\<close> composes it with the turn. \<^verbatim>\<open>Turn_Stream\<close> (\<^verbatim>\<open>agent/turn_runner.py\<close>) writes the events
  to the log of a durable job and reads them back; \<^verbatim>\<open>Stream_Safety\<close> shows as a state machine that a subscriber reads the turn.

  \<^bold>\<open>Fuel and bounds.\<close> The order loop of a batch has one unit of fuel for each row, and every round places a row. A turn has one unit for each
  permitted round of tools, as the code's range has, and answers when they are used up. The weekly
  loop tries eight days, as the code does, which is enough for a weekday from 0 to 6. The other loops are structural.

  \<^bold>\<open>Arguments.\<close> The answers of Azure, of the language models and of the host, the digest and password functions, random tokens and
  ids, the time zone database, the cron evaluator and the seeded sampler are arguments of the definitions that use them. Text is
  ASCII, one \<^typ>\<open>char\<close> per code point.

  \<^bold>\<open>Not modelled.\<close> The model providers, the text protocol of tool calls (an argument of the turn), the bodies of the built-in
  tools and the pooled session of the tool clients, the collectors of Azure and Entra data, the estate views, assessments,
  reports, connectors and the remaining HTTP handlers: they call outside services and assemble what these answer, or hold
  catalogues of text. The database engine, the JSON files and the event loop are behind the transactions. Within the modelled
  modules the sentences written for a reader, audit rows that nothing reads back, and in-process memo tables of pure functions are left out.
\<close>

end
